(* ===== verification/Prelude.thy ===== *)
theory Prelude
  imports Main "HOL-Library.Word" "HOL-Library.Multiset"
begin

text \<open>
  Shared vocabulary of the development.

  \<^item> Timestamps. The TypeScript sources keep instants as ISO-8601 strings that are produced by
    \<^verbatim>\<open>Date.prototype.toISOString\<close> and compared through \<^verbatim>\<open>Date.parse\<close>; the model keeps the epoch
    millisecond that \<^verbatim>\<open>Date.parse\<close> returns, an \<open>int\<close>.
  \<^item> Results. A function that may throw returns \<open>'e + 'a\<close>, with \<open>Inl\<close> the thrown error.
    \<open>bindE\<close> is sequencing, \<open>throw_if\<close> an early \<^verbatim>\<open>throw\<close>.
  \<^item> Optional properties. A property declared \<^verbatim>\<open>x?: T\<close> or \<^verbatim>\<open>x: T | null\<close> is a \<open>T option\<close>.
  \<^item> Transition tables. The locale \<open>transition_table\<close> is the contract that every status table of
    the platform meets: terminal states are exactly those with no successor, no table lists a
    state as its own successor, and a rank decreases along some successor of every live state.
    Its lemmas (absorption, guaranteed exit) are proved once and interpreted for each table.
\<close>

type_synonym timestamp = int
type_synonym ident = string

named_theorems result_simps \<open>rewriting of result-typed programs\<close>

section \<open>Results\<close>

definition bindE :: "'e + 'a \<Rightarrow> ('a \<Rightarrow> 'e + 'b) \<Rightarrow> 'e + 'b" where
  "bindE m f = (case m of Inl e \<Rightarrow> Inl e | Inr x \<Rightarrow> f x)"

definition throw_if :: "bool \<Rightarrow> 'e \<Rightarrow> 'e + unit" where
  "throw_if c e = (if c then Inl e else Inr ())"

fun sequenceE :: "('e + unit) list \<Rightarrow> 'e + unit" where
  "sequenceE [] = Inr ()"
| "sequenceE (m # ms) = bindE m (\<lambda>_. sequenceE ms)"

lemma bindE_Inl [simp]: "bindE (Inl e) f = Inl e"
  by (simp add: bindE_def)

lemma bindE_Inr [simp]: "bindE (Inr x) f = f x"
  by (simp add: bindE_def)

lemma bindE_eq_Inr_iff [result_simps]:
  "bindE m f = Inr y \<longleftrightarrow> (\<exists>x. m = Inr x \<and> f x = Inr y)"
  by (cases m) auto

lemma throw_if_eq_Inr_iff [result_simps]: "throw_if c e = Inr u \<longleftrightarrow> \<not> c"
  by (simp add: throw_if_def)

lemma throw_if_eq_Inl_iff [result_simps]: "throw_if c e = Inl e' \<longleftrightarrow> c \<and> e' = e"
  by (auto simp: throw_if_def)

lemma throw_if_True [simp]: "throw_if True e = Inl e"
  and throw_if_False [simp]: "throw_if False e = Inr ()"
  by (simp_all add: throw_if_def)

lemma sequenceE_eq_Inr_iff [result_simps]:
  "sequenceE ms = Inr u \<longleftrightarrow> (\<forall>m \<in> set ms. m = Inr ())"
  by (induction ms) (auto simp: result_simps)

lemma bindE_cong [fundef_cong]:
  "m = m' \<Longrightarrow> (\<And>x. m' = Inr x \<Longrightarrow> f x = g x) \<Longrightarrow> bindE m f = bindE m' g"
  by (cases m') auto

section \<open>Optional values\<close>

text \<open>JavaScript's nullish coalescing \<^verbatim>\<open>a ?? b\<close>.\<close>

definition coalesce :: "'a option \<Rightarrow> 'a \<Rightarrow> 'a" where
  "coalesce a b = (case a of None \<Rightarrow> b | Some x \<Rightarrow> x)"

definition coalesce_opt :: "'a option \<Rightarrow> 'a option \<Rightarrow> 'a option" where
  "coalesce_opt a b = (case a of None \<Rightarrow> b | Some x \<Rightarrow> Some x)"

lemma coalesce_simps [simp]: "coalesce None b = b" "coalesce (Some x) b = x"
  by (simp_all add: coalesce_def)

lemma coalesce_opt_simps [simp]:
  "coalesce_opt None b = b" "coalesce_opt (Some x) b = Some x"
  by (simp_all add: coalesce_opt_def)

section \<open>Programs with state and exceptions\<close>

text \<open>
  A method of a class that mutates fields and may throw: what it changed before the throw stays
  changed, so the state is returned on both outcomes.
\<close>

type_synonym ('s, 'e, 'a) prog = "'s \<Rightarrow> ('e + 'a) \<times> 's"

named_theorems prog_simps \<open>evaluation of stateful programs\<close>

definition returnP :: "'a \<Rightarrow> ('s, 'e, 'a) prog" where
  "returnP x = (\<lambda>s. (Inr x, s))"

definition throwP :: "'e \<Rightarrow> ('s, 'e, 'a) prog" where
  "throwP e = (\<lambda>s. (Inl e, s))"

definition bindP :: "('s, 'e, 'a) prog \<Rightarrow> ('a \<Rightarrow> ('s, 'e, 'b) prog) \<Rightarrow> ('s, 'e, 'b) prog" where
  "bindP m f = (\<lambda>s. case m s of (Inl e, s') \<Rightarrow> (Inl e, s') | (Inr x, s') \<Rightarrow> f x s')"

definition liftP :: "'e + 'a \<Rightarrow> ('s, 'e, 'a) prog" where
  "liftP r = (\<lambda>s. (r, s))"

definition getsP :: "('s \<Rightarrow> 'a) \<Rightarrow> ('s, 'e, 'a) prog" where
  "getsP f = (\<lambda>s. (Inr (f s), s))"

definition modifyP :: "('s \<Rightarrow> 's) \<Rightarrow> ('s, 'e, unit) prog" where
  "modifyP f = (\<lambda>s. (Inr (), f s))"

definition throwP_if :: "bool \<Rightarrow> 'e \<Rightarrow> ('s, 'e, unit) prog" where
  "throwP_if c e = (if c then throwP e else returnP ())"

fun mapP :: "('a \<Rightarrow> ('s, 'e, 'b) prog) \<Rightarrow> 'a list \<Rightarrow> ('s, 'e, 'b list) prog" where
  "mapP f [] = returnP []"
| "mapP f (x # xs) = bindP (f x) (\<lambda>y. bindP (mapP f xs) (\<lambda>ys. returnP (y # ys)))"

lemma prog_eval [prog_simps]:
  "returnP x s = (Inr x, s)" "throwP e s = (Inl e, s)" "liftP r s = (r, s)"
  "getsP g s = (Inr (g s), s)" "modifyP h s = (Inr (), h s)"
  "throwP_if c e s = (if c then (Inl e, s) else (Inr (), s))"
  by (simp_all add: returnP_def throwP_def liftP_def getsP_def modifyP_def throwP_if_def)

lemma bindP_eval [prog_simps]:
  "bindP m f s = (case m s of (Inl e, s') \<Rightarrow> (Inl e, s') | (Inr x, s') \<Rightarrow> f x s')"
  by (simp add: bindP_def)

lemma bindP_assoc: "bindP (bindP m f) g = bindP m (\<lambda>x. bindP (f x) g)"
  by (auto simp: bindP_def fun_eq_iff split: prod.split sum.split)

lemma bindP_run: "m s = (Inr x, t) \<Longrightarrow> bindP m f s = f x t"
  by (simp add: bindP_def)

lemma bindP_gets: "bindP (getsP g) f s = f (g s) s"
  by (simp add: bindP_def getsP_def)

lemma bindP_eq_Inr_iff:
  "bindP m f s = (Inr y, t) \<longleftrightarrow> (\<exists>x s'. m s = (Inr x, s') \<and> f x s' = (Inr y, t))"
  by (auto simp: bindP_def split: prod.splits sum.splits)

lemma prog_eq_Inr_iff:
  "returnP x s = (Inr y, t) \<longleftrightarrow> y = x \<and> t = s"
  "throwP e s = (Inr y, t) \<longleftrightarrow> False"
  "liftP r s = (Inr y, t) \<longleftrightarrow> r = Inr y \<and> t = s"
  "getsP g s = (Inr z, t) \<longleftrightarrow> z = g s \<and> t = s"
  "modifyP h s = (Inr u, t) \<longleftrightarrow> t = h s"
  "throwP_if c e s = (Inr u, t) \<longleftrightarrow> \<not> c \<and> t = s"
  by (auto simp: prog_simps)

lemmas prog_ok = bindP_eq_Inr_iff prog_eq_Inr_iff

text \<open>
  What a program may do to the state, as a reflexive and transitive relation that holds between the state before and the state after,
  whether it throws or not.
\<close>

definition effects_in :: "('s \<Rightarrow> 's \<Rightarrow> bool) \<Rightarrow> ('s, 'e, 'a) prog \<Rightarrow> bool" where
  "effects_in R m \<longleftrightarrow> (\<forall>s. R s (snd (m s)))"

locale effect_order =
  fixes R :: "'s \<Rightarrow> 's \<Rightarrow> bool"
  assumes refl: "R s s"
    and trans: "R s t \<Longrightarrow> R t u \<Longrightarrow> R s u"
begin

lemma effects_basic:
  "effects_in R (returnP x)" "effects_in R (throwP e)" "effects_in R (getsP g)" "effects_in R (throwP_if c e)" "effects_in R (liftP r)"
  by (simp_all add: effects_in_def prog_simps refl)

lemma effects_modify: "(\<And>s. R s (f s)) \<Longrightarrow> effects_in R (modifyP f)"
  by (simp add: effects_in_def prog_simps)

lemma effects_bind:
  assumes "effects_in R m" and "\<And>x. effects_in R (f x)"
  shows "effects_in R (bindP m f)"
  unfolding effects_in_def
proof
  fix s
  obtain r s1 where m: "m s = (r, s1)" by (cases "m s")
  then have "R s s1" using assms(1) by (metis effects_in_def snd_conv)
  moreover have "R s1 (snd (f x s1))" for x using assms(2) by (simp add: effects_in_def)
  ultimately show "R s (snd (bindP m f s))" using m by (auto simp: prog_simps split: sum.split intro: trans)
qed

lemma effects_case:
  "(x = None \<Longrightarrow> effects_in R a) \<Longrightarrow> (\<And>y. x = Some y \<Longrightarrow> effects_in R (b y)) \<Longrightarrow> effects_in R (case x of None \<Rightarrow> a | Some y \<Rightarrow> b y)"
  "(c \<Longrightarrow> effects_in R m) \<Longrightarrow> (\<not> c \<Longrightarrow> effects_in R m') \<Longrightarrow> effects_in R (if c then m else m')"
  "(\<And>u v. p = (u, v) \<Longrightarrow> effects_in R (h u v)) \<Longrightarrow> effects_in R (case p of (u, v) \<Rightarrow> h u v)"
  by (auto split: option.split prod.split)

lemma effects_guard: "(\<not> c \<Longrightarrow> effects_in R m) \<Longrightarrow> effects_in R (bindP (throwP_if c e) (\<lambda>_. m))"
  by (cases c) (simp_all add: effects_in_def prog_simps refl)

lemma effects_mapP: "(\<And>x. effects_in R (f x)) \<Longrightarrow> effects_in R (mapP f xs)"
  by (induction xs) (auto intro: effects_basic effects_bind)

end

text \<open>A program that, started in a state with an invariant, returns a value and changes the state only within the relation.\<close>

definition achieves :: "('s \<Rightarrow> bool) \<Rightarrow> ('s \<Rightarrow> 's \<Rightarrow> bool) \<Rightarrow> ('s, 'e, 'a) prog \<Rightarrow> bool" where
  "achieves P R m \<longleftrightarrow> (\<forall>s. P s \<longrightarrow> (\<exists>x s'. m s = (Inr x, s') \<and> R s s'))"

lemma achieves_mono: "achieves P R m \<Longrightarrow> (\<And>s. Q s \<Longrightarrow> P s) \<Longrightarrow> (\<And>s t. R s t \<Longrightarrow> S s t) \<Longrightarrow> achieves Q S m"
  unfolding achieves_def by metis

locale total_effects = effect_order R
  for R :: "'s \<Rightarrow> 's \<Rightarrow> bool" +
  fixes P :: "'s \<Rightarrow> bool"
  assumes keeps: "P s \<Longrightarrow> R s t \<Longrightarrow> P t"
begin

lemma achieves_basic: "achieves P R (returnP x)" "achieves P R (getsP g)"
  by (simp_all add: achieves_def prog_simps refl)

lemma achieves_modify: "(\<And>s. P s \<Longrightarrow> R s (f s)) \<Longrightarrow> achieves P R (modifyP f)"
  by (simp add: achieves_def prog_simps)

lemma achieves_bind: "achieves P R m \<Longrightarrow> (\<And>x. achieves P R (f x)) \<Longrightarrow> achieves P R (bindP m f)"
  unfolding achieves_def by (auto simp: prog_simps) (metis (no_types, lifting) keeps trans case_prod_conv sum.case(2))

lemma achieves_case:
  "(x = None \<Longrightarrow> achieves P R a) \<Longrightarrow> (\<And>y. x = Some y \<Longrightarrow> achieves P R (b y)) \<Longrightarrow> achieves P R (case x of None \<Rightarrow> a | Some y \<Rightarrow> b y)"
  "(c \<Longrightarrow> achieves P R m) \<Longrightarrow> (\<not> c \<Longrightarrow> achieves P R m') \<Longrightarrow> achieves P R (if c then m else m')"
  by (auto split: option.split)

end

section \<open>JavaScript maps\<close>

text \<open>
  A \<^verbatim>\<open>Map\<close> as the list of its entries in iteration order: \<^verbatim>\<open>set\<close> keeps the place of a key that is
  present and appends otherwise, \<^verbatim>\<open>delete\<close> removes the entry.
\<close>

fun jsmap_set :: "'k \<Rightarrow> 'v \<Rightarrow> ('k \<times> 'v) list \<Rightarrow> ('k \<times> 'v) list" where
  "jsmap_set k v [] = [(k, v)]"
| "jsmap_set k v ((k', v') # m) = (if k' = k then (k, v) # m else (k', v') # jsmap_set k v m)"

definition jsmap_delete :: "'k \<Rightarrow> ('k \<times> 'v) list \<Rightarrow> ('k \<times> 'v) list" where
  "jsmap_delete k m = filter (\<lambda>p. fst p \<noteq> k) m"

lemma map_of_jsmap_set [simp]: "map_of (jsmap_set k v m) = (map_of m)(k \<mapsto> v)"
  by (induction k v m rule: jsmap_set.induct) (auto simp: fun_eq_iff)

lemma map_of_jsmap_delete [simp]: "map_of (jsmap_delete k m) = (map_of m)(k := None)"
  by (induction m) (auto simp: jsmap_delete_def fun_eq_iff)

lemma keys_jsmap_set: "fst ` set (jsmap_set k v m) = insert k (fst ` set m)"
  by (induction k v m rule: jsmap_set.induct) auto

lemma distinct_jsmap_set: "distinct (map fst m) \<Longrightarrow> distinct (map fst (jsmap_set k v m))"
  by (induction k v m rule: jsmap_set.induct) (simp_all add: keys_jsmap_set, blast)

lemma distinct_jsmap_delete: "distinct (map fst m) \<Longrightarrow> distinct (map fst (jsmap_delete k m))"
  by (simp add: jsmap_delete_def distinct_map_filter)

lemma jsmap_set_fresh: "k \<notin> fst ` set m \<Longrightarrow> jsmap_set k v m = m @ [(k, v)]"
  by (induction k v m rule: jsmap_set.induct) auto

lemma jsmap_set_mem: "p \<in> set (jsmap_set k v m) \<Longrightarrow> p = (k, v) \<or> p \<in> set m"
  by (induction k v m rule: jsmap_set.induct) (auto split: if_splits)

text \<open>The elements that occur in the lists of an adjacency map.\<close>

definition targets :: "('k \<times> 'v list) list \<Rightarrow> 'v set" where
  "targets adjacency = (\<Union>p \<in> set adjacency. set (snd p))"

lemma finite_targets [simp]: "finite (targets adjacency)"
  by (simp add: targets_def)

lemma successors_in_targets: "set (coalesce (map_of adjacency x) []) \<subseteq> targets adjacency"
proof (cases "map_of adjacency x")
  case (Some ns)
  then have "(x, ns) \<in> set adjacency" by (rule map_of_SomeD)
  with Some show ?thesis by (auto simp: targets_def)
qed simp

section \<open>Strings\<close>

text \<open>
  The characters \<^verbatim>\<open>String.prototype.trim\<close> removes that have a code below 256: tab, line feed,
  vertical tab, form feed, carriage return, space and no-break space.
\<close>

definition js_white :: "char \<Rightarrow> bool" where
  "js_white c \<longleftrightarrow> (of_char c :: nat) \<in> {9, 10, 11, 12, 13, 32, 160}"

definition js_trim :: "string \<Rightarrow> string" where
  "js_trim s = rev (dropWhile js_white (rev (dropWhile js_white s)))"

lemma js_trim_Nil [simp]: "js_trim [] = []"
  by (simp add: js_trim_def)

lemma js_trim_eq_Nil_iff: "js_trim s = [] \<longleftrightarrow> (\<forall>c \<in> set s. js_white c)"
proof
  assume "js_trim s = []"
  then have all: "\<forall>c \<in> set (dropWhile js_white s). js_white c"
    by (simp add: js_trim_def)
  have "dropWhile js_white s = []"
  proof (cases "dropWhile js_white s")
    case Nil
    then show ?thesis .
  next
    case (Cons c cs)
    then have "\<not> js_white c"
      by (metis hd_dropWhile list.sel(1) list.distinct(1))
    with all Cons show ?thesis by simp
  qed
  then show "\<forall>c \<in> set s. js_white c"
    by simp
next
  assume "\<forall>c \<in> set s. js_white c"
  then show "js_trim s = []"
    by (auto simp: js_trim_def dest: set_dropWhileD)
qed

section \<open>Transition tables\<close>

locale transition_table =
  fixes succs :: "'s \<Rightarrow> 's list"
    and terminal :: "'s \<Rightarrow> bool"
    and rank :: "'s \<Rightarrow> nat"
  assumes terminal_iff: "terminal s \<longleftrightarrow> succs s = []"
    and no_self_loop: "s \<notin> set (succs s)"
    and rank_zero: "rank s = 0 \<longleftrightarrow> terminal s"
    and rank_decreases: "\<not> terminal s \<Longrightarrow> \<exists>t \<in> set (succs s). rank t < rank s"
begin

lemma terminal_no_step: "terminal s \<Longrightarrow> t \<notin> set (succs s)"
  by (simp add: terminal_iff)

lemma terminal_absorbing:
  assumes "(\<lambda>a b. b \<in> set (succs a))\<^sup>*\<^sup>* s t" and "terminal s"
  shows "t = s"
  using assms by (induction rule: converse_rtranclp_induct) (auto dest: terminal_no_step)

lemma step_leaves: "t \<in> set (succs s) \<Longrightarrow> t \<noteq> s"
  using no_self_loop by blast

text \<open>Every state reaches a terminal state, within as many steps as its rank.\<close>

lemma can_terminate:
  "\<exists>n t. n \<le> rank s \<and> ((\<lambda>a b. b \<in> set (succs a)) ^^ n) s t \<and> terminal t"
proof (induction "rank s" arbitrary: s rule: less_induct)
  case less
  show ?case
  proof (cases "terminal s")
    case True
    then show ?thesis by (intro exI [of _ 0] exI [of _ s]) auto
  next
    case False
    then obtain u where u: "u \<in> set (succs s)" "rank u < rank s"
      using rank_decreases by blast
    then obtain n t where "n \<le> rank u" "((\<lambda>a b. b \<in> set (succs a)) ^^ n) u t" "terminal t"
      using less by blast
    moreover from this u have "((\<lambda>a b. b \<in> set (succs a)) ^^ Suc n) s t"
      by (blast intro: relpowp_Suc_I2)
    ultimately show ?thesis
      using u by (intro exI [of _ "Suc n"] exI [of _ t]) simp
  qed
qed

end

text \<open>
  A column of statuses that is governed by a table: along every step each status moves along edges of the table. Then it does so along
  every run, and a terminal status stays.
\<close>

definition follows :: "('s \<Rightarrow> 's list) \<Rightarrow> ('w \<Rightarrow> 'i \<Rightarrow> 's option) \<Rightarrow> 'w \<Rightarrow> 'w \<Rightarrow> bool" where
  "follows succs status w w' \<longleftrightarrow> (\<forall>i a. status w i = Some a \<longrightarrow> (\<exists>b. status w' i = Some b \<and> (\<lambda>a b. b \<in> set (succs a))\<^sup>*\<^sup>* a b))"

lemma follows_refl [simp]: "follows succs status w w"
  by (simp add: follows_def)

lemma follows_trans: "follows succs status w w' \<Longrightarrow> follows succs status w' w'' \<Longrightarrow> follows succs status w w''"
  unfolding follows_def by (meson rtranclp_trans)

lemma follows_same: "status w' = status w \<Longrightarrow> follows succs status w w'"
  by (simp add: follows_def)

lemma follows_update:
  assumes "status w' = (status w)(i := Some b)"
    and "\<And>a. status w i = Some a \<Longrightarrow> b = a \<or> b \<in> set (succs a)"
  shows "follows succs status w w'"
  using assms by (auto simp: follows_def)

locale governed_status = transition_table succs terminal rank
  for succs :: "'s \<Rightarrow> 's list" and terminal and rank +
  fixes status :: "'w \<Rightarrow> 'i \<Rightarrow> 's option" and step :: "'w \<Rightarrow> 'w \<Rightarrow> bool"
  assumes moves: "step w w' \<Longrightarrow> follows succs status w w'"
begin

lemma run_follows: "step\<^sup>*\<^sup>* w w' \<Longrightarrow> follows succs status w w'"
  by (induction rule: rtranclp_induct) (auto intro: follows_trans moves)

lemma terminal_stays:
  assumes "step\<^sup>*\<^sup>* w w'" and "status w i = Some a" and "terminal a"
  shows "status w' i = Some a"
  using run_follows [OF assms(1)] assms(2,3) terminal_absorbing unfolding follows_def by blast

end

section \<open>Fencing\<close>

text \<open>
  The contract of a resource that is guarded by fencing tokens: every step keeps an invariant, the largest token
  issued never falls, and only the largest token can be the one that holds the resource. Then a token that
  has been overtaken is fenced off for good.
\<close>

locale monotone_fence =
  fixes step :: "'s \<Rightarrow> 's \<Rightarrow> bool"
    and inv :: "'s \<Rightarrow> bool"
    and issued :: "'s \<Rightarrow> int"
    and holds :: "'s \<Rightarrow> int \<Rightarrow> bool"
  assumes inv_step: "step s t \<Longrightarrow> inv s \<Longrightarrow> inv t"
    and issued_step: "step s t \<Longrightarrow> inv s \<Longrightarrow> issued s \<le> issued t"
    and holds_largest: "inv s \<Longrightarrow> holds s n \<Longrightarrow> n = issued s"
begin

lemma issued_steps: "step\<^sup>*\<^sup>* s t \<Longrightarrow> inv s \<Longrightarrow> inv t \<and> issued s \<le> issued t"
  by (induction rule: rtranclp_induct) (auto dest: inv_step issued_step intro: order_trans)

lemma overtaken_never_holds:
  assumes "step\<^sup>*\<^sup>* s t" and "inv s" and "n < issued s"
  shows "\<not> holds t n"
  using issued_steps [OF assms(1,2)] assms(3) holds_largest by fastforce

end

end
