(* ===== verification/Contracts.thy ===== *)
theory Contracts
  imports Prelude Complex_Main
begin

text \<open>
  The executable contracts of the platform
  (\<^verbatim>\<open>src/src/platform/contracts/executable-contracts\<close>): the aggregates that the runtime state
  machine moves through their life cycle (\<open>harness_run\<close>, \<open>node_run\<close>, \<open>side_effect_record\<close>,
  \<open>budget_ledger\<close>, \<open>budget_reservation\<close>), the fact and view events, graph patches, and the
  factories that validate them.

  Amounts of money are rationals: exact arithmetic, so IEEE rounding is not modelled. A number that
  a factory validates with \<^verbatim>\<open>Number.isFinite\<close> is a \<open>jsnum\<close>, which has the non-finite values.
  Nested objects that no modelled function inspects are kept as their JSON text. Identifiers made
  by \<^verbatim>\<open>newId\<close> and instants made by \<^verbatim>\<open>nowIso\<close> are arguments of the factories.

  The aggregates carry the optional properties \<^verbatim>\<open>leaseId\<close>, \<^verbatim>\<open>fencingToken\<close>, \<^verbatim>\<open>updatedAt\<close>,
  \<^verbatim>\<open>terminalAt\<close> and \<^verbatim>\<open>terminalReason\<close> throughout: \<^verbatim>\<open>applyStatus\<close> of the runtime state machine writes
  them on every kind of aggregate.
\<close>

section \<open>Numbers\<close>

datatype jsnum = Fin rat | NaN | PosInf | NegInf

fun js_isFinite :: "jsnum \<Rightarrow> bool" where
  "js_isFinite (Fin _) = True"
| "js_isFinite _ = False"

section \<open>Status types\<close>

datatype risk_class = Risk_low | Risk_medium | Risk_high | Risk_critical

datatype harness_run_status =
    HR_created | HR_admitted | HR_planning | HR_ready | HR_running | HR_pausing | HR_paused
  | HR_resuming | HR_replanning | HR_compensating | HR_completed | HR_failed | HR_cancelled
  | HR_aborted

datatype node_run_status =
    NR_created | NR_ready | NR_leased | NR_running | NR_retry_wait | NR_awaiting_hitl
  | NR_reconciling | NR_succeeded | NR_failed | NR_skipped | NR_cancelled | NR_dependency_failed
  | NR_policy_blocked | NR_aborted

datatype side_effect_status =
    SE_proposed | SE_approved | SE_reserved | SE_committing | SE_committed | SE_confirming
  | SE_confirmed | SE_ambiguous | SE_manual_review_required | SE_reconciling
  | SE_compensation_required | SE_compensating | SE_compensated | SE_failed | SE_revoked
  | SE_expired

datatype budget_ledger_status =
    BL_open | BL_soft_cap_reached | BL_hard_cap_reached | BL_closed | BL_settling | BL_reserving
  | BL_releasing

datatype budget_reservation_status =
    BR_reserved | BR_settled | BR_released | BR_expired | BR_rejected

datatype side_effect_kind =
    SK_file_write | SK_external_api | SK_message_send | SK_transaction | SK_tool_commit | SK_other

datatype budget_resource_kind =
    RK_token | RK_tool | RK_api | RK_compute | RK_human | RK_side_effect | RK_other

section \<open>Aggregates\<close>

record harness_run =
  hr_harnessRunId :: ident
  hr_tenantId :: ident
  hr_orgId :: ident
  hr_traceId :: ident
  hr_goal :: "string option"
  hr_mode :: "string option"
  hr_riskLevel :: risk_class
  hr_riskProfile :: string
  hr_ownership :: string
  hr_auditRefs :: "string list"
  hr_auditTrail :: string
  hr_domainId :: ident
  hr_confirmedTaskSpecId :: ident
  hr_requestEnvelopeId :: ident
  hr_requestHash :: string
  hr_status :: harness_run_status
  hr_constraintPackRef :: string
  hr_versionLockId :: ident
  hr_planGraphBundleId :: "ident option"
  hr_budgetLedgerId :: ident
  hr_budgetEnvelope :: string
  hr_currentSeq :: int
  hr_createdAt :: timestamp
  hr_updatedAt :: timestamp
  hr_terminalAt :: "timestamp option"
  hr_terminalReason :: "string option"
  hr_leaseId :: "ident option"
  hr_fencingToken :: "ident option"
  hr_missionBinding :: "string option"

record node_run =
  nr_nodeRunId :: ident
  nr_harnessRunId :: ident
  nr_planGraphBundleId :: ident
  nr_graphVersion :: int
  nr_nodeId :: ident
  nr_status :: node_run_status
  nr_attemptCount :: int
  nr_sideEffects :: "ident list"
  nr_compensation :: "ident list"
  nr_leaseId :: "ident option"
  nr_fencingToken :: "ident option"
  nr_currentSeq :: int
  nr_createdAt :: timestamp
  nr_updatedAt :: timestamp
  nr_terminalAt :: "timestamp option"
  nr_terminalReason :: "string option"
  nr_missionSnapshotRef :: "ident option"

record artifact_ref =
  ar_artifactId :: ident
  ar_uri :: string
  ar_hash :: "string option"
  ar_version :: "string option"
  ar_kind :: "string option"
  ar_mimeType :: "string option"
  ar_sizeBytes :: "rat option"
  ar_createdAt :: "timestamp option"
  ar_checksum :: "string option"

record side_effect_record =
  se_sideEffectId :: ident
  se_harnessRunId :: ident
  se_nodeRunId :: ident
  se_nodeAttemptId :: ident
  se_effectKind :: side_effect_kind
  se_idempotencyKey :: string
  se_status :: side_effect_status
  se_riskClass :: risk_class
  se_leaseId :: "ident option"
  se_fencingToken :: "ident option"
  se_approvalRef :: "ident option"
  se_preCommitPolicyProofRef :: artifact_ref
  se_externalRef :: "ident option"
  se_deadline :: timestamp
  se_rollbackHandler :: "(string \<times> int) option"
  se_compensationPlan :: "string option"
  se_createdAt :: timestamp
  se_updatedAt :: timestamp
  se_terminalAt :: "timestamp option"
  se_terminalReason :: "string option"
  se_version :: int

record budget_ledger =
  bl_budgetLedgerId :: ident
  bl_tenantId :: ident
  bl_harnessRunId :: ident
  bl_tier :: "string option"
  bl_scopeKey :: "string option"
  bl_parentBudgetLedgerId :: "ident option"
  bl_currency :: string
  bl_hardCap :: rat
  bl_softCap :: "rat option"
  bl_reservedAmount :: rat
  bl_settledAmount :: rat
  bl_releasedAmount :: rat
  bl_status :: budget_ledger_status
  bl_resourceKinds :: "budget_resource_kind list"
  bl_createdAt :: timestamp
  bl_updatedAt :: timestamp
  bl_terminalAt :: "timestamp option"
  bl_terminalReason :: "string option"
  bl_leaseId :: "ident option"
  bl_fencingToken :: "ident option"
  bl_version :: int

record budget_reservation =
  br_budgetReservationId :: ident
  br_budgetLedgerId :: ident
  br_harnessRunId :: ident
  br_nodeRunId :: "ident option"
  br_amount :: rat
  br_resourceKind :: budget_resource_kind
  br_status :: budget_reservation_status
  br_expiresAt :: timestamp
  br_createdAt :: timestamp
  br_updatedAt :: "timestamp option"
  br_terminalAt :: "timestamp option"
  br_terminalReason :: "string option"
  br_leaseId :: "ident option"
  br_fencingToken :: "ident option"
  br_version :: int

section \<open>Contract errors\<close>

datatype contract_error =
    Graph_patch_version_must_advance
  | Graph_patch_operations_required
  | Graph_patch_safe_append_cannot_touch_executed_facts
  | Graph_patch_compensation_required_for_side_effects
  | Graph_patch_executed_node_rewrite_forbidden
  | Node_attempt_attempt_no_invalid
  | Budget_ledger_hard_cap_invalid
  | Budget_reservation_amount_invalid
  | Budget_reservation_version_cas_failed
  | Budget_reservation_hard_cap_exceeded
  | Budget_settlement_actual_amount_invalid
  | Human_responsibility_record_expires_at_required
  | Platform_fact_event_namespace_required
  | Oapeflir_view_event_namespace_required
  | Oapeflir_view_event_derived_from_required

definition requireNonNegative :: "jsnum \<Rightarrow> contract_error \<Rightarrow> contract_error + rat" where
  "requireNonNegative v e = (case v of Fin q \<Rightarrow> if q < 0 then Inl e else Inr q | _ \<Rightarrow> Inl e)"

definition requirePositive :: "jsnum \<Rightarrow> contract_error \<Rightarrow> contract_error + rat" where
  "requirePositive v e = (case v of Fin q \<Rightarrow> if q \<le> 0 then Inl e else Inr q | _ \<Rightarrow> Inl e)"

definition isHighRisk :: "risk_class \<Rightarrow> bool" where
  "isHighRisk r \<longleftrightarrow> r = Risk_high \<or> r = Risk_critical"

lemma requireNonNegative_Inr_iff [result_simps]:
  "requireNonNegative v e = Inr q \<longleftrightarrow> v = Fin q \<and> 0 \<le> q"
  by (auto simp: requireNonNegative_def split: jsnum.splits if_splits)

lemma requirePositive_Inr_iff [result_simps]:
  "requirePositive v e = Inr q \<longleftrightarrow> v = Fin q \<and> 0 < q"
  by (auto simp: requirePositive_def split: jsnum.splits if_splits)

section \<open>Budget ledger and reservations\<close>

record budget_ledger_input =
  bli_tenantId :: ident
  bli_harnessRunId :: "ident option"
  bli_currency :: "string option"
  bli_hardCap :: jsnum
  bli_budgetLedgerId :: "ident option"
  bli_resourceKinds :: "budget_resource_kind list option"
  bli_tier :: "string option"
  bli_scopeKey :: "string option"
  bli_parentBudgetLedgerId :: "ident option"
  bli_softCap :: "rat option"
  bli_reservedAmount :: "rat option"
  bli_settledAmount :: "rat option"
  bli_releasedAmount :: "rat option"
  bli_status :: "budget_ledger_status option"
  bli_version :: "int option"
  bli_createdAt :: "timestamp option"
  bli_updatedAt :: "timestamp option"

definition createBudgetLedger ::
    "timestamp \<Rightarrow> ident \<Rightarrow> budget_ledger_input \<Rightarrow> contract_error + budget_ledger" where
  "createBudgetLedger now freshId i =
     bindE (requireNonNegative (bli_hardCap i) Budget_ledger_hard_cap_invalid) (\<lambda>cap.
       let createdAt = coalesce (bli_createdAt i) now in
       Inr \<lparr>bl_budgetLedgerId = coalesce (bli_budgetLedgerId i) freshId,
            bl_tenantId = bli_tenantId i,
            bl_harnessRunId = coalesce (bli_harnessRunId i) ''legacy-harness-run'',
            bl_tier = bli_tier i,
            bl_scopeKey = bli_scopeKey i,
            bl_parentBudgetLedgerId = bli_parentBudgetLedgerId i,
            bl_currency = coalesce (bli_currency i) ''USD'',
            bl_hardCap = cap,
            bl_softCap = bli_softCap i,
            bl_reservedAmount = coalesce (bli_reservedAmount i) 0,
            bl_settledAmount = coalesce (bli_settledAmount i) 0,
            bl_releasedAmount = coalesce (bli_releasedAmount i) 0,
            bl_status = coalesce (bli_status i) BL_open,
            bl_resourceKinds = coalesce (bli_resourceKinds i) [],
            bl_createdAt = createdAt,
            bl_updatedAt = coalesce (bli_updatedAt i) createdAt,
            bl_terminalAt = None, bl_terminalReason = None,
            bl_leaseId = None, bl_fencingToken = None,
            bl_version = coalesce (bli_version i) 0\<rparr>)"

record budget_reservation_input =
  bri_budgetLedgerId :: "ident option"
  bri_ledger :: "budget_ledger option"
  bri_harnessRunId :: "ident option"
  bri_amount :: jsnum
  bri_resourceKind :: budget_resource_kind
  bri_expiresAt :: timestamp
  bri_budgetReservationId :: "ident option"
  bri_reservationId :: "ident option"
  bri_nodeRunId :: "ident option"
  bri_status :: "budget_reservation_status option"
  bri_createdAt :: "timestamp option"
  bri_version :: "int option"

definition createBudgetReservation ::
    "timestamp \<Rightarrow> ident \<Rightarrow> budget_reservation_input \<Rightarrow> contract_error + budget_reservation" where
  "createBudgetReservation now freshId i =
     bindE (requirePositive (bri_amount i) Budget_reservation_amount_invalid) (\<lambda>amount.
       Inr \<lparr>br_budgetReservationId =
              coalesce (coalesce_opt (bri_budgetReservationId i) (bri_reservationId i)) freshId,
            br_budgetLedgerId =
              coalesce (coalesce_opt (bri_budgetLedgerId i)
                (map_option bl_budgetLedgerId (bri_ledger i))) ''legacy-budget-ledger'',
            br_harnessRunId =
              coalesce (coalesce_opt (bri_harnessRunId i)
                (map_option bl_harnessRunId (bri_ledger i))) ''legacy-harness-run'',
            br_nodeRunId = bri_nodeRunId i,
            br_amount = amount,
            br_resourceKind = bri_resourceKind i,
            br_status = coalesce (bri_status i) BR_reserved,
            br_expiresAt = bri_expiresAt i,
            br_createdAt = coalesce (bri_createdAt i) now,
            br_updatedAt = None,
            br_terminalAt = None, br_terminalReason = None,
            br_leaseId = None, br_fencingToken = None,
            br_version = coalesce (bri_version i) 0\<rparr>)"

text \<open>The amount that counts against the cap, as \<^verbatim>\<open>reserveBudgetHardCap\<close> computes it.\<close>

definition activeCommittedAmount :: "budget_ledger \<Rightarrow> rat" where
  "activeCommittedAmount l = bl_reservedAmount l + bl_settledAmount l - bl_releasedAmount l"

record reserve_input =
  ri_ledger :: budget_ledger
  ri_amount :: jsnum
  ri_resourceKind :: budget_resource_kind
  ri_expiresAt :: timestamp
  ri_expectedVersion :: int
  ri_nodeRunId :: "ident option"
  ri_createdAt :: "timestamp option"

definition reserveBudgetHardCap ::
    "timestamp \<Rightarrow> ident \<Rightarrow> reserve_input \<Rightarrow> contract_error + (budget_ledger \<times> budget_reservation)" where
  "reserveBudgetHardCap now freshId i =
     (let l = ri_ledger i in
      bindE (throw_if (bl_version l \<noteq> ri_expectedVersion i) Budget_reservation_version_cas_failed) (\<lambda>_.
      bindE (requirePositive (ri_amount i) Budget_reservation_amount_invalid) (\<lambda>amount.
      bindE (throw_if (activeCommittedAmount l + amount > bl_hardCap l)
               Budget_reservation_hard_cap_exceeded) (\<lambda>_.
      let computedStatus =
            (if activeCommittedAmount l + amount = bl_hardCap l then BL_hard_cap_reached
             else bl_status l);
          versionIncrement = (if bl_status l = BL_open then 1 else 0);
          l' = l\<lparr>bl_reservedAmount := bl_reservedAmount l + amount,
                 bl_status := computedStatus,
                 bl_version := bl_version l + versionIncrement\<rparr>
      in bindE (createBudgetReservation now freshId
             \<lparr>bri_budgetLedgerId = Some (bl_budgetLedgerId l), bri_ledger = None,
              bri_harnessRunId = Some (bl_harnessRunId l),
              bri_amount = ri_amount i, bri_resourceKind = ri_resourceKind i,
              bri_expiresAt = ri_expiresAt i, bri_budgetReservationId = None,
              bri_reservationId = None, bri_nodeRunId = ri_nodeRunId i, bri_status = None,
              bri_createdAt = ri_createdAt i, bri_version = None\<rparr>)
           (\<lambda>r. Inr (l', r))))))"

datatype settlement_kind = SK_final | SK_partial | SK_release_unused | SK_correction

record budget_settlement =
  bs_budgetSettlementId :: ident
  bs_budgetReservationId :: ident
  bs_actualAmount :: rat
  bs_settlementKind :: settlement_kind
  bs_evidenceRefs :: "string list"
  bs_createdAt :: timestamp

record budget_settlement_input =
  bsi_budgetReservationId :: "ident option"
  bsi_reservation :: "budget_reservation option"
  bsi_actualAmount :: jsnum
  bsi_settlementKind :: "settlement_kind option"
  bsi_budgetSettlementId :: "ident option"
  bsi_settlementId :: "ident option"
  bsi_evidenceRefs :: "string list option"
  bsi_createdAt :: "timestamp option"

definition createBudgetSettlement ::
    "timestamp \<Rightarrow> ident \<Rightarrow> budget_settlement_input \<Rightarrow> contract_error + budget_settlement" where
  "createBudgetSettlement now freshId i =
     bindE (requireNonNegative (bsi_actualAmount i) Budget_settlement_actual_amount_invalid) (\<lambda>actual.
       Inr \<lparr>bs_budgetSettlementId =
              coalesce (coalesce_opt (bsi_budgetSettlementId i) (bsi_settlementId i)) freshId,
            bs_budgetReservationId =
              coalesce (coalesce_opt (bsi_budgetReservationId i)
                (map_option br_budgetReservationId (bsi_reservation i))) ''legacy-budget-reservation'',
            bs_actualAmount = actual,
            bs_settlementKind = coalesce (bsi_settlementKind i) SK_final,
            bs_evidenceRefs = coalesce (bsi_evidenceRefs i) [],
            bs_createdAt = coalesce (bsi_createdAt i) now\<rparr>)"

section \<open>Graph patches\<close>

datatype compatibility_class =
    CC_safe_append | CC_requires_checkpoint_revalidation | CC_requires_human_approval
  | CC_incompatible_restart_required

datatype graph_patch_operation_type =
    Op_add_node | Op_add_edge | Op_disable_edge | Op_add_compensation_node | Op_add_failure_path
  | Op_mark_skipped | Op_append_subgraph

record graph_patch_operation =
  gpo_operationId :: ident
  gpo_operationType :: graph_patch_operation_type
  gpo_targetRef :: ident
  gpo_payload :: string

record graph_patch =
  gp_graphPatchId :: ident
  gp_harnessRunId :: ident
  gp_baseGraphVersion :: int
  gp_newGraphVersion :: int
  gp_operations :: "graph_patch_operation list"
  gp_affectedExecutedNodes :: "ident list"
  gp_affectedSideEffects :: "ident list"
  gp_compatibilityClass :: compatibility_class
  gp_compensationPlanRef :: "string option"
  gp_policyProofRef :: string
  gp_auditRef :: string

record graph_patch_input =
  gpi_harnessRunId :: ident
  gpi_baseGraphVersion :: int
  gpi_newGraphVersion :: int
  gpi_operations :: "graph_patch_operation list"
  gpi_affectedExecutedNodes :: "ident list option"
  gpi_affectedSideEffects :: "ident list option"
  gpi_compatibilityClass :: "compatibility_class option"
  gpi_compensationPlanRef :: "string option"
  gpi_policyProofRef :: string
  gpi_auditRef :: string
  gpi_graphPatchId :: "ident option"

definition assertGraphPatchSafety :: "graph_patch \<Rightarrow> contract_error + unit" where
  "assertGraphPatchSafety p =
     (let touchesExecutedFacts =
            gp_affectedExecutedNodes p \<noteq> [] \<or> gp_affectedSideEffects p \<noteq> [];
          rewritesExecutedNode =
            list_ex (\<lambda>opn. gpo_targetRef opn \<in> set (gp_affectedExecutedNodes p)
                       \<and> gpo_operationType opn = Op_mark_skipped) (gp_operations p)
      in sequenceE
        [throw_if (touchesExecutedFacts \<and> gp_compatibilityClass p = CC_safe_append)
           Graph_patch_safe_append_cannot_touch_executed_facts,
         throw_if (gp_affectedSideEffects p \<noteq> [] \<and> gp_compensationPlanRef p = None)
           Graph_patch_compensation_required_for_side_effects,
         throw_if rewritesExecutedNode Graph_patch_executed_node_rewrite_forbidden])"

definition createGraphPatch :: "ident \<Rightarrow> graph_patch_input \<Rightarrow> contract_error + graph_patch" where
  "createGraphPatch freshId i =
     bindE (throw_if (gpi_newGraphVersion i \<le> gpi_baseGraphVersion i)
              Graph_patch_version_must_advance) (\<lambda>_.
     bindE (throw_if (gpi_operations i = []) Graph_patch_operations_required) (\<lambda>_.
     let p = \<lparr>gp_graphPatchId = coalesce (gpi_graphPatchId i) freshId,
              gp_harnessRunId = gpi_harnessRunId i,
              gp_baseGraphVersion = gpi_baseGraphVersion i,
              gp_newGraphVersion = gpi_newGraphVersion i,
              gp_operations = gpi_operations i,
              gp_affectedExecutedNodes = coalesce (gpi_affectedExecutedNodes i) [],
              gp_affectedSideEffects = coalesce (gpi_affectedSideEffects i) [],
              gp_compatibilityClass = coalesce (gpi_compatibilityClass i) CC_safe_append,
              gp_compensationPlanRef = gpi_compensationPlanRef i,
              gp_policyProofRef = gpi_policyProofRef i,
              gp_auditRef = gpi_auditRef i\<rparr>
     in bindE (assertGraphPatchSafety p) (\<lambda>_. Inr p)))"

section \<open>Node runs and side effects\<close>

record node_run_input =
  nri_harnessRunId :: ident
  nri_planGraphBundleId :: ident
  nri_graphVersion :: int
  nri_nodeId :: ident
  nri_nodeRunId :: "ident option"
  nri_status :: "node_run_status option"
  nri_attemptCount :: "int option"
  nri_sideEffects :: "ident list option"
  nri_compensation :: "ident list option"
  nri_leaseId :: "ident option"
  nri_fencingToken :: "ident option"
  nri_currentSeq :: "int option"
  nri_createdAt :: "timestamp option"
  nri_updatedAt :: "timestamp option"
  nri_missionSnapshotRef :: "ident option"

definition createNodeRun :: "timestamp \<Rightarrow> ident \<Rightarrow> node_run_input \<Rightarrow> node_run" where
  "createNodeRun now freshId i =
     (let ts = coalesce (nri_createdAt i) now in
      \<lparr>nr_nodeRunId = coalesce (nri_nodeRunId i) freshId,
       nr_harnessRunId = nri_harnessRunId i,
       nr_planGraphBundleId = nri_planGraphBundleId i,
       nr_graphVersion = nri_graphVersion i,
       nr_nodeId = nri_nodeId i,
       nr_status = coalesce (nri_status i) NR_created,
       nr_attemptCount = coalesce (nri_attemptCount i) 0,
       nr_sideEffects = coalesce (nri_sideEffects i) [],
       nr_compensation = coalesce (nri_compensation i) [],
       nr_leaseId = nri_leaseId i,
       nr_fencingToken = Some (coalesce (nri_fencingToken i) (nri_nodeId i @ ''-fence'')),
       nr_currentSeq = coalesce (nri_currentSeq i) 0,
       nr_createdAt = ts,
       nr_updatedAt = coalesce (nri_updatedAt i) ts,
       nr_terminalAt = None, nr_terminalReason = None,
       nr_missionSnapshotRef = nri_missionSnapshotRef i\<rparr>)"

record side_effect_input =
  sei_harnessRunId :: ident
  sei_nodeRunId :: ident
  sei_nodeAttemptId :: ident
  sei_effectKind :: side_effect_kind
  sei_idempotencyKey :: string
  sei_riskClass :: risk_class
  sei_preCommitPolicyProofRef :: artifact_ref
  sei_sideEffectId :: "ident option"
  sei_status :: "side_effect_status option"
  sei_leaseId :: "ident option"
  sei_fencingToken :: "ident option"
  sei_approvalRef :: "ident option"
  sei_externalRef :: "ident option"
  sei_deadline :: "timestamp option"
  sei_rollbackHandler :: "(string \<times> int) option"
  sei_compensationPlan :: "string option"
  sei_createdAt :: "timestamp option"
  sei_updatedAt :: "timestamp option"
  sei_version :: "int option"

definition createSideEffectRecord :: "timestamp \<Rightarrow> ident \<Rightarrow> side_effect_input \<Rightarrow> side_effect_record" where
  "createSideEffectRecord now freshId i =
     (let ts = coalesce (sei_createdAt i) now in
      \<lparr>se_sideEffectId = coalesce (sei_sideEffectId i) freshId,
       se_harnessRunId = sei_harnessRunId i,
       se_nodeRunId = sei_nodeRunId i,
       se_nodeAttemptId = sei_nodeAttemptId i,
       se_effectKind = sei_effectKind i,
       se_idempotencyKey = sei_idempotencyKey i,
       se_status = coalesce (sei_status i) SE_proposed,
       se_riskClass = sei_riskClass i,
       se_leaseId = sei_leaseId i,
       se_fencingToken = sei_fencingToken i,
       se_approvalRef = sei_approvalRef i,
       se_preCommitPolicyProofRef = sei_preCommitPolicyProofRef i,
       se_externalRef = sei_externalRef i,
       se_deadline = coalesce (sei_deadline i) (ts + 5 * 60000),
       se_rollbackHandler = sei_rollbackHandler i,
       se_compensationPlan = sei_compensationPlan i,
       se_createdAt = ts,
       se_updatedAt = coalesce (sei_updatedAt i) ts,
       se_terminalAt = None, se_terminalReason = None,
       se_version = coalesce (sei_version i) 0\<rparr>)"

record node_attempt =
  na_nodeAttemptId :: ident
  na_nodeRunId :: ident
  na_attemptNo :: int
  na_attemptKind :: string
  na_startedAt :: timestamp
  na_completedAt :: "timestamp option"
  na_executorRef :: string
  na_inputSnapshotRef :: string
  na_receiptId :: "ident option"

definition createNodeAttempt ::
    "timestamp \<Rightarrow> ident \<Rightarrow> ident \<Rightarrow> int \<Rightarrow> string \<Rightarrow> string \<Rightarrow> string \<Rightarrow> ident option \<Rightarrow> timestamp option \<Rightarrow>
     timestamp option \<Rightarrow> ident option \<Rightarrow> contract_error + node_attempt" where
  "createNodeAttempt now freshId nodeRunId attemptNo attemptKind executorRef inputSnapshotRef
       nodeAttemptId startedAt completedAt receiptId =
     bindE (throw_if (attemptNo < 1) Node_attempt_attempt_no_invalid) (\<lambda>_.
       Inr \<lparr>na_nodeAttemptId = coalesce nodeAttemptId freshId,
            na_nodeRunId = nodeRunId,
            na_attemptNo = attemptNo,
            na_attemptKind = attemptKind,
            na_startedAt = coalesce startedAt now,
            na_completedAt = completedAt,
            na_executorRef = executorRef,
            na_inputSnapshotRef = inputSnapshotRef,
            na_receiptId = receiptId\<rparr>)"

datatype probe_outcome = RR_confirmed | RR_not_found | RR_ambiguous | RR_failed

datatype reconciliation_next_action =
    RA_mark_confirmed | RA_retry_probe | RA_compensate | RA_escalate_hitl | RA_mark_failed

record reconciliation_record =
  rcn_reconciliationId :: ident
  rcn_sideEffectId :: ident
  rcn_probeKind :: string
  rcn_externalObservedState :: string
  rcn_result :: probe_outcome
  rcn_evidenceRefs :: "artifact_ref list"
  rcn_nextAction :: reconciliation_next_action
  rcn_createdAt :: timestamp

record reconciliation_input =
  rcni_sideEffectId :: ident
  rcni_probeKind :: string
  rcni_externalObservedState :: string
  rcni_result :: probe_outcome
  rcni_nextAction :: reconciliation_next_action
  rcni_reconciliationId :: "ident option"
  rcni_evidenceRefs :: "artifact_ref list option"
  rcni_createdAt :: "timestamp option"

definition createReconciliationRecord :: "timestamp \<Rightarrow> ident \<Rightarrow> reconciliation_input \<Rightarrow> reconciliation_record" where
  "createReconciliationRecord now freshId i =
     \<lparr>rcn_reconciliationId = coalesce (rcni_reconciliationId i) freshId,
      rcn_sideEffectId = rcni_sideEffectId i,
      rcn_probeKind = rcni_probeKind i,
      rcn_externalObservedState = rcni_externalObservedState i,
      rcn_result = rcni_result i,
      rcn_evidenceRefs = coalesce (rcni_evidenceRefs i) [],
      rcn_nextAction = rcni_nextAction i,
      rcn_createdAt = coalesce (rcni_createdAt i) now\<rparr>"

datatype compensation_status = CS_planned | CS_running | CS_succeeded | CS_failed | CS_requires_human

record compensation_record =
  cpr_compensationId :: ident
  cpr_sideEffectId :: ident
  cpr_harnessRunId :: ident
  cpr_planRef :: artifact_ref
  cpr_status :: compensation_status
  cpr_evidenceRefs :: "artifact_ref list"
  cpr_createdAt :: timestamp
  cpr_completedAt :: "timestamp option"

record compensation_input =
  cpi_sideEffectId :: ident
  cpi_harnessRunId :: ident
  cpi_planRef :: artifact_ref
  cpi_status :: "compensation_status option"
  cpi_compensationId :: "ident option"
  cpi_evidenceRefs :: "artifact_ref list option"
  cpi_createdAt :: "timestamp option"
  cpi_completedAt :: "timestamp option"

definition createCompensationRecord :: "timestamp \<Rightarrow> ident \<Rightarrow> compensation_input \<Rightarrow> compensation_record" where
  "createCompensationRecord now freshId i =
     \<lparr>cpr_compensationId = coalesce (cpi_compensationId i) freshId,
      cpr_sideEffectId = cpi_sideEffectId i,
      cpr_harnessRunId = cpi_harnessRunId i,
      cpr_planRef = cpi_planRef i,
      cpr_status = coalesce (cpi_status i) CS_planned,
      cpr_evidenceRefs = coalesce (cpi_evidenceRefs i) [],
      cpr_createdAt = coalesce (cpi_createdAt i) now,
      cpr_completedAt = cpi_completedAt i\<rparr>"

section \<open>Events\<close>

datatype event_replay_behavior = ERB_replay_as_fact | ERB_skip_side_effect | ERB_simulate | ERB_forbidden

datatype source_of_truth = SOT_platform | SOT_projection

record 'p event_envelope =
  ev_eventId :: ident
  ev_runId :: ident
  ev_eventType :: string
  ev_schemaVersion :: int
  ev_aggregateType :: string
  ev_aggregateId :: ident
  ev_aggregateSeq :: int
  ev_tenantId :: ident
  ev_traceId :: ident
  ev_causationId :: "ident option"
  ev_correlationId :: ident
  ev_payloadHash :: string
  ev_payload :: 'p
  ev_replayBehavior :: event_replay_behavior
  ev_source :: "string option"
  ev_sourceOfTruth :: source_of_truth
  ev_schemaOwner :: string
  ev_consumerContractTests :: "string list"
  ev_occurredAt :: timestamp
  ev_derivedFromEventIds :: "ident list"
  ev_projectionOnly :: bool

record 'p event_input =
  ei_eventType :: string
  ei_aggregateType :: string
  ei_aggregateId :: ident
  ei_aggregateSeq :: int
  ei_tenantId :: ident
  ei_runId :: "ident option"
  ei_traceId :: ident
  ei_payload :: 'p
  ei_source :: "string option"
  ei_eventId :: "ident option"
  ei_schemaVersion :: "int option"
  ei_causationId :: "ident option"
  ei_correlationId :: "ident option"
  ei_payloadHash :: "string option"
  ei_replayBehavior :: "event_replay_behavior option"
  ei_schemaOwner :: "string option"
  ei_consumerContractTests :: "string list option"
  ei_occurredAt :: "timestamp option"
  ei_derivedFromEventIds :: "ident list"

definition startsWith :: "string \<Rightarrow> string \<Rightarrow> bool" where
  "startsWith s p \<longleftrightarrow> take (length p) s = p"

definition is_oapeflir_type :: "string \<Rightarrow> bool" where
  "is_oapeflir_type t \<longleftrightarrow> startsWith t ''oapeflir.view.'' \<or> startsWith t ''oapeflir.rationale.''"

text \<open>
  \<^verbatim>\<open>newId("evt")\<close> and \<^verbatim>\<open>newId("payloadhash")\<close> are the arguments \<open>freshEvt\<close> and \<open>freshHash\<close>.
\<close>

definition createPlatformFactEvent ::
    "timestamp \<Rightarrow> ident \<Rightarrow> string \<Rightarrow> 'p event_input \<Rightarrow> contract_error + 'p event_envelope" where
  "createPlatformFactEvent now freshEvt freshHash i =
     bindE (throw_if (\<not> startsWith (ei_eventType i) ''platform.'')
              Platform_fact_event_namespace_required) (\<lambda>_.
       Inr \<lparr>ev_eventId = coalesce (ei_eventId i) freshEvt,
            ev_runId = coalesce (ei_runId i) (ei_aggregateId i),
            ev_eventType = ei_eventType i,
            ev_schemaVersion = coalesce (ei_schemaVersion i) 1,
            ev_aggregateType = ei_aggregateType i,
            ev_aggregateId = ei_aggregateId i,
            ev_aggregateSeq = ei_aggregateSeq i,
            ev_tenantId = ei_tenantId i,
            ev_traceId = ei_traceId i,
            ev_causationId = ei_causationId i,
            ev_correlationId =
              coalesce (coalesce_opt (ei_correlationId i) (ei_runId i)) (ei_aggregateId i),
            ev_payloadHash = coalesce (ei_payloadHash i) freshHash,
            ev_payload = ei_payload i,
            ev_replayBehavior = coalesce (ei_replayBehavior i) ERB_replay_as_fact,
            ev_source = Some (coalesce (ei_source i) ''platform-runtime''),
            ev_sourceOfTruth = SOT_platform,
            ev_schemaOwner = coalesce (ei_schemaOwner i) ''platform-runtime'',
            ev_consumerContractTests = coalesce (ei_consumerContractTests i) [],
            ev_occurredAt = coalesce (ei_occurredAt i) now,
            ev_derivedFromEventIds = [],
            ev_projectionOnly = False\<rparr>)"

definition createOapeflirViewEvent ::
    "timestamp \<Rightarrow> ident \<Rightarrow> string \<Rightarrow> 'p event_input \<Rightarrow> contract_error + 'p event_envelope" where
  "createOapeflirViewEvent now freshEvt freshHash i =
     bindE (throw_if (\<not> is_oapeflir_type (ei_eventType i)) Oapeflir_view_event_namespace_required) (\<lambda>_.
     bindE (throw_if (ei_derivedFromEventIds i = []) Oapeflir_view_event_derived_from_required) (\<lambda>_.
       Inr \<lparr>ev_eventId = coalesce (ei_eventId i) freshEvt,
            ev_runId = coalesce (ei_runId i) (ei_aggregateId i),
            ev_eventType = ei_eventType i,
            ev_schemaVersion = coalesce (ei_schemaVersion i) 1,
            ev_aggregateType = ei_aggregateType i,
            ev_aggregateId = ei_aggregateId i,
            ev_aggregateSeq = ei_aggregateSeq i,
            ev_tenantId = ei_tenantId i,
            ev_traceId = ei_traceId i,
            ev_causationId = ei_causationId i,
            ev_correlationId =
              coalesce (coalesce_opt (ei_correlationId i) (ei_runId i)) (ei_aggregateId i),
            ev_payloadHash = coalesce (ei_payloadHash i) freshHash,
            ev_payload = ei_payload i,
            ev_replayBehavior = coalesce (ei_replayBehavior i) ERB_simulate,
            ev_source = None,
            ev_sourceOfTruth = SOT_projection,
            ev_schemaOwner = coalesce (ei_schemaOwner i) ''oapeflir-projection'',
            ev_consumerContractTests = coalesce (ei_consumerContractTests i) [],
            ev_occurredAt = coalesce (ei_occurredAt i) now,
            ev_derivedFromEventIds = ei_derivedFromEventIds i,
            ev_projectionOnly = True\<rparr>))"

definition isPlatformFactEvent :: "'p event_envelope \<Rightarrow> bool" where
  "isPlatformFactEvent e \<longleftrightarrow> startsWith (ev_eventType e) ''platform.''"

definition isOapeflirViewEvent :: "'p event_envelope \<Rightarrow> bool" where
  "isOapeflirViewEvent e \<longleftrightarrow> is_oapeflir_type (ev_eventType e)"

definition canTruthConsumerConsume :: "'p event_envelope \<Rightarrow> bool" where
  "canTruthConsumerConsume e \<longleftrightarrow> isPlatformFactEvent e"

section \<open>Lemmas\<close>

lemma startsWith_append [simp]: "startsWith (p @ s) p"
  by (simp add: startsWith_def)

lemma platform_not_oapeflir: "startsWith t ''platform.'' \<Longrightarrow> \<not> is_oapeflir_type t"
  by (cases t) (auto simp: startsWith_def is_oapeflir_type_def)

text \<open>Every branch of a successful reservation, in one equivalence.\<close>

lemma reserveBudgetHardCap_success:
  assumes "reserveBudgetHardCap now f i = Inr (l', r)"
  obtains a where "ri_amount i = Fin a" "0 < a"
    "bl_version (ri_ledger i) = ri_expectedVersion i"
    "activeCommittedAmount (ri_ledger i) + a \<le> bl_hardCap (ri_ledger i)"
    "l' = (ri_ledger i)\<lparr>bl_reservedAmount := bl_reservedAmount (ri_ledger i) + a,
             bl_status := (if activeCommittedAmount (ri_ledger i) + a = bl_hardCap (ri_ledger i)
                           then BL_hard_cap_reached else bl_status (ri_ledger i)),
             bl_version := bl_version (ri_ledger i)
                             + (if bl_status (ri_ledger i) = BL_open then 1 else 0)\<rparr>"
    "br_amount r = a" "br_status r = BR_reserved" "br_budgetLedgerId r = bl_budgetLedgerId (ri_ledger i)"
    "br_budgetReservationId r = f"
proof -
  from assms obtain a where a: "ri_amount i = Fin a" "0 < a"
    by (auto simp: reserveBudgetHardCap_def Let_def result_simps)
  have cas: "bl_version (ri_ledger i) = ri_expectedVersion i"
    and cap: "\<not> bl_hardCap (ri_ledger i) < activeCommittedAmount (ri_ledger i) + a"
    using assms a by (auto simp: reserveBudgetHardCap_def Let_def result_simps)
  from assms a cas cap show thesis
    unfolding reserveBudgetHardCap_def createBudgetReservation_def requirePositive_def
    by (intro that [of a]) (auto simp: Let_def)
qed

lemma activeCommittedAmount_reserve:
  "activeCommittedAmount (l\<lparr>bl_reservedAmount := bl_reservedAmount l + a, bl_status := s, bl_version := v\<rparr>)
     = activeCommittedAmount l + a"
  by (simp add: activeCommittedAmount_def)

section \<open>Properties\<close>

text \<open>
  A graph patch that the factory accepts advances the graph version and has operations; it
  is a safe append only when it touches no executed node and no side effect; it carries a
  compensation plan whenever it affects a side effect; and it skips no executed node.
\<close>

theorem createGraphPatch_safe:
  assumes "createGraphPatch freshId i = Inr p"
  shows "gp_baseGraphVersion p < gp_newGraphVersion p \<and> gp_operations p \<noteq> []
    \<and> (gp_compatibilityClass p = CC_safe_append \<longrightarrow> gp_affectedExecutedNodes p = [] \<and> gp_affectedSideEffects p = [])
    \<and> (gp_affectedSideEffects p \<noteq> [] \<longrightarrow> gp_compensationPlanRef p \<noteq> None)
    \<and> (\<forall>opn \<in> set (gp_operations p). gpo_operationType opn = Op_mark_skipped
          \<longrightarrow> gpo_targetRef opn \<notin> set (gp_affectedExecutedNodes p))"
  using assms
  by (auto simp: createGraphPatch_def assertGraphPatchSafety_def Let_def list_ex_iff result_simps)

definition ex_patch_input :: graph_patch_input where
  "ex_patch_input =
     \<lparr>gpi_harnessRunId = ''h'', gpi_baseGraphVersion = 1, gpi_newGraphVersion = 2,
      gpi_operations = [\<lparr>gpo_operationId = ''o'', gpo_operationType = Op_mark_skipped,
                          gpo_targetRef = ''n2'', gpo_payload = ''{}''\<rparr>],
      gpi_affectedExecutedNodes = Some [''n1''], gpi_affectedSideEffects = Some [''s1''],
      gpi_compatibilityClass = Some CC_requires_human_approval, gpi_compensationPlanRef = Some ''c'',
      gpi_policyProofRef = ''p'', gpi_auditRef = ''a'', gpi_graphPatchId = None\<rparr>"

theorem createGraphPatch_safe_witness:
  "\<exists>p. createGraphPatch ''g'' ex_patch_input = Inr p \<and> gp_baseGraphVersion p < gp_newGraphVersion p
     \<and> gp_compensationPlanRef p \<noteq> None \<and> gp_affectedSideEffects p \<noteq> []"
proof -
  obtain p where p: "createGraphPatch ''g'' ex_patch_input = Inr p"
    and "gp_affectedSideEffects p = [''s1'']"
    by (simp add: createGraphPatch_def assertGraphPatchSafety_def ex_patch_input_def throw_if_def Let_def)
  with createGraphPatch_safe [OF p] show ?thesis by auto
qed

text \<open>
  Projection events never pass for truth: an event that the view factory produces is
  derived from at least one event, is marked as a projection, and is refused by truth consumers,
  while an event that the fact factory produces is accepted by them and is no view event.
\<close>

theorem view_events_are_not_facts:
  assumes "createOapeflirViewEvent now f h i = Inr v" and "createPlatformFactEvent now f h j = Inr e"
  shows "\<not> canTruthConsumerConsume v \<and> isOapeflirViewEvent v \<and> ev_projectionOnly v
    \<and> ev_sourceOfTruth v = SOT_projection \<and> ev_derivedFromEventIds v \<noteq> []
    \<and> canTruthConsumerConsume e \<and> \<not> isOapeflirViewEvent e \<and> ev_sourceOfTruth e = SOT_platform"
  using assms platform_not_oapeflir
  by (auto simp: createOapeflirViewEvent_def createPlatformFactEvent_def canTruthConsumerConsume_def
      isPlatformFactEvent_def isOapeflirViewEvent_def result_simps)

definition ex_event_input :: "string \<Rightarrow> unit event_input" where
  "ex_event_input ty =
     \<lparr>ei_eventType = ty, ei_aggregateType = ''A'', ei_aggregateId = ''a'', ei_aggregateSeq = 1,
      ei_tenantId = ''t'', ei_runId = None, ei_traceId = ''tr'', ei_payload = (), ei_source = None,
      ei_eventId = None, ei_schemaVersion = None, ei_causationId = None, ei_correlationId = None,
      ei_payloadHash = None, ei_replayBehavior = None, ei_schemaOwner = None,
      ei_consumerContractTests = None, ei_occurredAt = None, ei_derivedFromEventIds = [''e0'']\<rparr>"

theorem view_events_are_not_facts_witness:
  "\<exists>v e. createOapeflirViewEvent 0 ''e'' ''h'' (ex_event_input ''oapeflir.view.x'') = Inr v
     \<and> createPlatformFactEvent 0 ''e'' ''h'' (ex_event_input ''platform.x'') = Inr e
     \<and> \<not> canTruthConsumerConsume v \<and> canTruthConsumerConsume e"
proof -
  obtain v e where "createOapeflirViewEvent 0 ''e'' ''h'' (ex_event_input ''oapeflir.view.x'') = Inr v"
    and "createPlatformFactEvent 0 ''e'' ''h'' (ex_event_input ''platform.x'') = Inr e"
    by (simp add: createOapeflirViewEvent_def createPlatformFactEvent_def ex_event_input_def
        startsWith_def is_oapeflir_type_def)
  with view_events_are_not_facts [OF this] show ?thesis by blast
qed

end
