(* ===== verification/Runtime_State_Machine.thy ===== *)
theory Runtime_State_Machine
  imports Contracts
begin

text \<open>
  The runtime state machine (\<^verbatim>\<open>src/src/platform/shared/runtime-state-machine.ts\<close> and
  \<^verbatim>\<open>runtime-state-machine-model.ts\<close>): the five transition tables, the guards that a transition
  command passes in order, the update of the aggregate and the fact event that the update emits.

  A command's \<^verbatim>\<open>aggregateType\<close> is the type of the aggregate it carries, as at every call site; the
  statuses of a command are strings, as at run time, and are compared with the tables by name.
  The persistence callback is a parameter: a function on the caller's store \<open>'w\<close> that may throw.
\<close>

section \<open>Transition tables\<close>

fun HARNESS_RUN_TRANSITIONS :: "harness_run_status \<Rightarrow> harness_run_status list" where
  "HARNESS_RUN_TRANSITIONS HR_created = [HR_admitted, HR_failed, HR_cancelled, HR_aborted]"
| "HARNESS_RUN_TRANSITIONS HR_admitted =
     [HR_planning, HR_ready, HR_failed, HR_cancelled, HR_aborted]"
| "HARNESS_RUN_TRANSITIONS HR_planning =
     [HR_ready, HR_replanning, HR_failed, HR_cancelled, HR_aborted]"
| "HARNESS_RUN_TRANSITIONS HR_ready =
     [HR_running, HR_paused, HR_failed, HR_cancelled, HR_aborted]"
| "HARNESS_RUN_TRANSITIONS HR_running =
     [HR_pausing, HR_paused, HR_replanning, HR_compensating, HR_completed, HR_failed, HR_cancelled,
      HR_aborted]"
| "HARNESS_RUN_TRANSITIONS HR_pausing = [HR_paused, HR_failed, HR_cancelled, HR_aborted]"
| "HARNESS_RUN_TRANSITIONS HR_paused =
     [HR_resuming, HR_replanning, HR_failed, HR_cancelled, HR_aborted]"
| "HARNESS_RUN_TRANSITIONS HR_resuming = [HR_running, HR_failed, HR_cancelled, HR_aborted]"
| "HARNESS_RUN_TRANSITIONS HR_replanning =
     [HR_ready, HR_running, HR_failed, HR_cancelled, HR_aborted]"
| "HARNESS_RUN_TRANSITIONS HR_compensating = [HR_completed, HR_failed, HR_cancelled, HR_aborted]"
| "HARNESS_RUN_TRANSITIONS HR_completed = []"
| "HARNESS_RUN_TRANSITIONS HR_failed = []"
| "HARNESS_RUN_TRANSITIONS HR_cancelled = []"
| "HARNESS_RUN_TRANSITIONS HR_aborted = []"

fun NODE_RUN_TRANSITIONS :: "node_run_status \<Rightarrow> node_run_status list" where
  "NODE_RUN_TRANSITIONS NR_created =
     [NR_ready, NR_policy_blocked, NR_dependency_failed, NR_aborted]"
| "NODE_RUN_TRANSITIONS NR_ready =
     [NR_leased, NR_policy_blocked, NR_dependency_failed, NR_skipped, NR_aborted]"
| "NODE_RUN_TRANSITIONS NR_leased = [NR_running, NR_ready, NR_cancelled, NR_aborted]"
| "NODE_RUN_TRANSITIONS NR_running =
     [NR_retry_wait, NR_awaiting_hitl, NR_reconciling, NR_succeeded, NR_failed, NR_cancelled,
      NR_aborted]"
| "NODE_RUN_TRANSITIONS NR_retry_wait = [NR_ready, NR_failed, NR_aborted]"
| "NODE_RUN_TRANSITIONS NR_awaiting_hitl =
     [NR_ready, NR_running, NR_failed, NR_cancelled, NR_aborted]"
| "NODE_RUN_TRANSITIONS NR_reconciling = [NR_succeeded, NR_failed, NR_aborted]"
| "NODE_RUN_TRANSITIONS NR_succeeded = []"
| "NODE_RUN_TRANSITIONS NR_failed = []"
| "NODE_RUN_TRANSITIONS NR_skipped = []"
| "NODE_RUN_TRANSITIONS NR_cancelled = []"
| "NODE_RUN_TRANSITIONS NR_dependency_failed = []"
| "NODE_RUN_TRANSITIONS NR_policy_blocked = []"
| "NODE_RUN_TRANSITIONS NR_aborted = []"

fun SIDE_EFFECT_TRANSITIONS :: "side_effect_status \<Rightarrow> side_effect_status list" where
  "SIDE_EFFECT_TRANSITIONS SE_proposed =
     [SE_approved, SE_reserved, SE_manual_review_required, SE_revoked, SE_expired, SE_failed]"
| "SIDE_EFFECT_TRANSITIONS SE_approved =
     [SE_reserved, SE_committing, SE_revoked, SE_expired, SE_failed]"
| "SIDE_EFFECT_TRANSITIONS SE_reserved = [SE_committing, SE_revoked, SE_expired, SE_failed]"
| "SIDE_EFFECT_TRANSITIONS SE_committing =
     [SE_committed, SE_confirming, SE_confirmed, SE_ambiguous, SE_manual_review_required, SE_failed]"
| "SIDE_EFFECT_TRANSITIONS SE_committed =
     [SE_confirming, SE_confirmed, SE_ambiguous, SE_compensation_required, SE_failed]"
| "SIDE_EFFECT_TRANSITIONS SE_confirming =
     [SE_confirmed, SE_ambiguous, SE_manual_review_required, SE_failed]"
| "SIDE_EFFECT_TRANSITIONS SE_confirmed =
     [SE_reconciling, SE_compensation_required, SE_compensating]"
| "SIDE_EFFECT_TRANSITIONS SE_ambiguous =
     [SE_reconciling, SE_manual_review_required, SE_compensation_required, SE_compensating,
      SE_failed]"
| "SIDE_EFFECT_TRANSITIONS SE_manual_review_required =
     [SE_approved, SE_reconciling, SE_compensation_required, SE_failed]"
| "SIDE_EFFECT_TRANSITIONS SE_reconciling =
     [SE_confirmed, SE_ambiguous, SE_manual_review_required, SE_compensation_required,
      SE_compensating, SE_failed]"
| "SIDE_EFFECT_TRANSITIONS SE_compensation_required = [SE_compensating, SE_failed]"
| "SIDE_EFFECT_TRANSITIONS SE_compensating = [SE_compensated, SE_failed]"
| "SIDE_EFFECT_TRANSITIONS SE_compensated = []"
| "SIDE_EFFECT_TRANSITIONS SE_failed = []"
| "SIDE_EFFECT_TRANSITIONS SE_revoked = []"
| "SIDE_EFFECT_TRANSITIONS SE_expired = []"

fun BUDGET_LEDGER_TRANSITIONS :: "budget_ledger_status \<Rightarrow> budget_ledger_status list" where
  "BUDGET_LEDGER_TRANSITIONS BL_open = [BL_soft_cap_reached, BL_hard_cap_reached, BL_closed]"
| "BUDGET_LEDGER_TRANSITIONS BL_soft_cap_reached = [BL_open, BL_hard_cap_reached, BL_closed]"
| "BUDGET_LEDGER_TRANSITIONS BL_hard_cap_reached = [BL_closed]"
| "BUDGET_LEDGER_TRANSITIONS BL_settling = [BL_closed]"
| "BUDGET_LEDGER_TRANSITIONS BL_reserving = [BL_closed]"
| "BUDGET_LEDGER_TRANSITIONS BL_releasing = [BL_closed]"
| "BUDGET_LEDGER_TRANSITIONS BL_closed = []"

fun BUDGET_RESERVATION_TRANSITIONS ::
    "budget_reservation_status \<Rightarrow> budget_reservation_status list" where
  "BUDGET_RESERVATION_TRANSITIONS BR_reserved = [BR_settled, BR_released, BR_expired, BR_rejected]"
| "BUDGET_RESERVATION_TRANSITIONS BR_settled = []"
| "BUDGET_RESERVATION_TRANSITIONS BR_released = []"
| "BUDGET_RESERVATION_TRANSITIONS BR_expired = []"
| "BUDGET_RESERVATION_TRANSITIONS BR_rejected = []"

section \<open>Status names\<close>

text \<open>The string literals that the status types stand for.\<close>

definition HR_STATUSES :: "(harness_run_status \<times> string) list" where
  "HR_STATUSES =
    [(HR_created, ''created''), (HR_admitted, ''admitted''), (HR_planning, ''planning''),
     (HR_ready, ''ready''), (HR_running, ''running''), (HR_pausing, ''pausing''),
     (HR_paused, ''paused''), (HR_resuming, ''resuming''), (HR_replanning, ''replanning''),
     (HR_compensating, ''compensating''), (HR_completed, ''completed''), (HR_failed, ''failed''),
     (HR_cancelled, ''cancelled''), (HR_aborted, ''aborted'')]"

definition NR_STATUSES :: "(node_run_status \<times> string) list" where
  "NR_STATUSES =
    [(NR_created, ''created''), (NR_ready, ''ready''), (NR_leased, ''leased''),
     (NR_running, ''running''), (NR_retry_wait, ''retry_wait''), (NR_awaiting_hitl, ''awaiting_hitl''),
     (NR_reconciling, ''reconciling''), (NR_succeeded, ''succeeded''), (NR_failed, ''failed''),
     (NR_skipped, ''skipped''), (NR_cancelled, ''cancelled''),
     (NR_dependency_failed, ''dependency_failed''), (NR_policy_blocked, ''policy_blocked''),
     (NR_aborted, ''aborted'')]"

definition SE_STATUSES :: "(side_effect_status \<times> string) list" where
  "SE_STATUSES =
    [(SE_proposed, ''proposed''), (SE_approved, ''approved''), (SE_reserved, ''reserved''),
     (SE_committing, ''committing''), (SE_committed, ''committed''), (SE_confirming, ''confirming''),
     (SE_confirmed, ''confirmed''), (SE_ambiguous, ''ambiguous''),
     (SE_manual_review_required, ''manual_review_required''), (SE_reconciling, ''reconciling''),
     (SE_compensation_required, ''compensation_required''), (SE_compensating, ''compensating''),
     (SE_compensated, ''compensated''), (SE_failed, ''failed''), (SE_revoked, ''revoked''),
     (SE_expired, ''expired'')]"

definition BL_STATUSES :: "(budget_ledger_status \<times> string) list" where
  "BL_STATUSES =
    [(BL_open, ''open''), (BL_soft_cap_reached, ''soft_cap_reached''),
     (BL_hard_cap_reached, ''hard_cap_reached''), (BL_closed, ''closed''),
     (BL_settling, ''settling''), (BL_reserving, ''reserving''), (BL_releasing, ''releasing'')]"

definition BR_STATUSES :: "(budget_reservation_status \<times> string) list" where
  "BR_STATUSES =
    [(BR_reserved, ''reserved''), (BR_settled, ''settled''), (BR_released, ''released''),
     (BR_expired, ''expired''), (BR_rejected, ''rejected'')]"

definition name_in :: "('s \<times> string) list \<Rightarrow> 's \<Rightarrow> string" where
  "name_in ns s = coalesce (map_of ns s) []"

definition of_name :: "('s \<times> string) list \<Rightarrow> string \<Rightarrow> 's option" where
  "of_name ns t = map_option fst (List.find (\<lambda>p. snd p = t) ns)"

text \<open>A table as the string-keyed record that the code looks up, with \<^verbatim>\<open>?? []\<close> for other keys.\<close>

definition string_table :: "('s \<times> string) list \<Rightarrow> ('s \<Rightarrow> 's list) \<Rightarrow> string \<Rightarrow> string list option" where
  "string_table ns tbl t = map_option (\<lambda>s. map (name_in ns) (tbl s)) (of_name ns t)"

section \<open>Aggregates and commands\<close>

datatype aggregate_type =
    AT_HarnessRun | AT_NodeRun | AT_SideEffectRecord | AT_BudgetLedger | AT_BudgetReservation

datatype runtime_aggregate =
    Agg_HarnessRun harness_run
  | Agg_NodeRun node_run
  | Agg_SideEffect side_effect_record
  | Agg_BudgetLedger budget_ledger
  | Agg_BudgetReservation budget_reservation

fun agg_type :: "runtime_aggregate \<Rightarrow> aggregate_type" where
  "agg_type (Agg_HarnessRun _) = AT_HarnessRun"
| "agg_type (Agg_NodeRun _) = AT_NodeRun"
| "agg_type (Agg_SideEffect _) = AT_SideEffectRecord"
| "agg_type (Agg_BudgetLedger _) = AT_BudgetLedger"
| "agg_type (Agg_BudgetReservation _) = AT_BudgetReservation"

fun agg_status :: "runtime_aggregate \<Rightarrow> string" where
  "agg_status (Agg_HarnessRun a) = name_in HR_STATUSES (hr_status a)"
| "agg_status (Agg_NodeRun a) = name_in NR_STATUSES (nr_status a)"
| "agg_status (Agg_SideEffect a) = name_in SE_STATUSES (se_status a)"
| "agg_status (Agg_BudgetLedger a) = name_in BL_STATUSES (bl_status a)"
| "agg_status (Agg_BudgetReservation a) = name_in BR_STATUSES (br_status a)"

record policy_guard =
  pg_allowed :: bool
  pg_policyProofRef :: string

record budget_precondition =
  bp_reservationId :: ident
  bp_hardCapSatisfied :: bool

record side_effect_safety =
  ss_idempotencyKey :: "string option"
  ss_preCommitPolicyProofRef :: "string option"
  ss_humanApprovalRef :: "string option"
  ss_reversible :: "bool option"

record transition_command =
  rc_commandId :: ident
  rc_aggregate :: runtime_aggregate
  rc_fromStatus :: string
  rc_toStatus :: string
  rc_principal :: string
  rc_expectedSeq :: "int option"
  rc_expectedVersion :: "int option"
  rc_leaseId :: "ident option"
  rc_fencingToken :: "ident option"
  rc_traceId :: ident
  rc_tenantId :: ident
  rc_reasonCode :: string
  rc_emittedBy :: string
  rc_runVersionLockId :: "ident option"
  rc_policyGuard :: "policy_guard option"
  rc_budgetPrecondition :: "budget_precondition option"
  rc_sideEffectSafety :: "side_effect_safety option"
  rc_auditRef :: "string option"
  rc_occurredAt :: "timestamp option"

definition rc_aggregateType :: "transition_command \<Rightarrow> aggregate_type" where
  "rc_aggregateType c = agg_type (rc_aggregate c)"

datatype runtime_error =
    Status_mismatch | Noop_transition_denied | Invalid_transition | Cas_failed | Version_cas_failed
  | Run_version_lock_required | Policy_denied | Policy_proof_required | Budget_precondition_failed
  | Pre_commit_policy_proof_required | Human_approval_required | Idempotency_key_required
  | Audit_ref_required | Persistence_required | Lease_and_fencing_required | Lease_mismatch
  | Fencing_token_mismatch | Harness_fencing_required | Harness_fencing_token_mismatch
  | Budget_ledger_fencing_required | Side_effect_fencing_required | Side_effect_lease_mismatch
  | Side_effect_fencing_token_mismatch | Event_contract contract_error | Persist_failed string

section \<open>Guards\<close>

fun getTransitionTable :: "aggregate_type \<Rightarrow> string \<Rightarrow> string list option" where
  "getTransitionTable AT_HarnessRun = string_table HR_STATUSES HARNESS_RUN_TRANSITIONS"
| "getTransitionTable AT_NodeRun = string_table NR_STATUSES NODE_RUN_TRANSITIONS"
| "getTransitionTable AT_SideEffectRecord = string_table SE_STATUSES SIDE_EFFECT_TRANSITIONS"
| "getTransitionTable AT_BudgetLedger = string_table BL_STATUSES BUDGET_LEDGER_TRANSITIONS"
| "getTransitionTable AT_BudgetReservation =
     string_table BR_STATUSES BUDGET_RESERVATION_TRANSITIONS"

definition isTerminalStatus :: "aggregate_type \<Rightarrow> string \<Rightarrow> bool" where
  "isTerminalStatus ty s \<longleftrightarrow> getTransitionTable ty s = Some []"

definition assertStatusMatches :: "transition_command \<Rightarrow> runtime_error + unit" where
  "assertStatusMatches c = throw_if (agg_status (rc_aggregate c) \<noteq> rc_fromStatus c) Status_mismatch"

definition assertTransitionAllowed :: "aggregate_type \<Rightarrow> string \<Rightarrow> string \<Rightarrow> runtime_error + unit" where
  "assertTransitionAllowed ty from to =
     bindE (throw_if (from = to) Noop_transition_denied) (\<lambda>_.
       throw_if (to \<notin> set (coalesce (getTransitionTable ty from) [])) Invalid_transition)"

fun agg_currentSeq :: "runtime_aggregate \<Rightarrow> int option" where
  "agg_currentSeq (Agg_HarnessRun a) = Some (hr_currentSeq a)"
| "agg_currentSeq (Agg_NodeRun a) = Some (nr_currentSeq a)"
| "agg_currentSeq _ = None"

fun agg_version :: "runtime_aggregate \<Rightarrow> int option" where
  "agg_version (Agg_SideEffect a) = Some (se_version a)"
| "agg_version (Agg_BudgetLedger a) = Some (bl_version a)"
| "agg_version (Agg_BudgetReservation a) = Some (br_version a)"
| "agg_version _ = None"

definition cas_ok :: "int option \<Rightarrow> int option \<Rightarrow> bool" where
  "cas_ok cur expct \<longleftrightarrow>
     (case (cur, expct) of (Some v, Some e) \<Rightarrow> v = e | _ \<Rightarrow> True)"

definition assertCas :: "transition_command \<Rightarrow> runtime_error + unit" where
  "assertCas c =
     sequenceE
       [throw_if (\<not> cas_ok (agg_currentSeq (rc_aggregate c)) (rc_expectedSeq c)) Cas_failed,
        throw_if (\<not> cas_ok (agg_version (rc_aggregate c)) (rc_expectedVersion c)) Version_cas_failed]"

definition assertRunVersionLock :: "transition_command \<Rightarrow> runtime_error + unit" where
  "assertRunVersionLock c =
     throw_if (rc_aggregateType c = AT_HarnessRun \<and> rc_toStatus c = ''admitted''
               \<and> rc_runVersionLockId c = None) Run_version_lock_required"

definition assertPolicyGuard :: "transition_command \<Rightarrow> runtime_error + unit" where
  "assertPolicyGuard c =
     (case rc_policyGuard c of
        None \<Rightarrow> Inr ()
      | Some g \<Rightarrow>
          sequenceE
            [throw_if (\<not> pg_allowed g) Policy_denied,
             throw_if (pg_allowed g \<and> js_trim (pg_policyProofRef g) = []) Policy_proof_required])"

definition assertBudgetPrecondition :: "transition_command \<Rightarrow> runtime_error + unit" where
  "assertBudgetPrecondition c =
     (case rc_budgetPrecondition c of
        None \<Rightarrow> Inr ()
      | Some b \<Rightarrow> throw_if (\<not> bp_hardCapSatisfied b) Budget_precondition_failed)"

definition assertSideEffectSafety :: "transition_command \<Rightarrow> runtime_error + unit" where
  "assertSideEffectSafety c =
     (case rc_aggregate c of
        Agg_SideEffect sideEffect \<Rightarrow>
          (let requiresApprovalSafety = rc_toStatus c \<in> {''approved'', ''committing''};
               safety = rc_sideEffectSafety c
           in sequenceE
             [throw_if (requiresApprovalSafety
                        \<and> Option.bind safety ss_preCommitPolicyProofRef = None)
                Pre_commit_policy_proof_required,
              throw_if (requiresApprovalSafety \<and> isHighRisk (se_riskClass sideEffect)
                        \<and> Option.bind safety ss_humanApprovalRef = None)
                Human_approval_required,
              throw_if (rc_toStatus c = ''committing'' \<and> Option.bind safety ss_idempotencyKey = None)
                Idempotency_key_required])
      | _ \<Rightarrow> Inr ())"

definition hasAuditRef :: "string option \<Rightarrow> bool" where
  "hasAuditRef r \<longleftrightarrow> (case r of None \<Rightarrow> False | Some s \<Rightarrow> js_trim s \<noteq> [])"

definition assertAuditRef :: "transition_command \<Rightarrow> runtime_error + unit" where
  "assertAuditRef c =
     throw_if (rc_aggregateType c \<in> {AT_HarnessRun, AT_NodeRun, AT_SideEffectRecord}
               \<and> \<not> hasAuditRef (rc_auditRef c)) Audit_ref_required"

text \<open>An owner recorded on the aggregate that the command does not present.\<close>

definition mismatch :: "ident option \<Rightarrow> ident option \<Rightarrow> bool" where
  "mismatch held given \<longleftrightarrow> held \<noteq> None \<and> given \<noteq> held"

definition nodeRequiresExecutionProtection :: "node_run \<Rightarrow> string \<Rightarrow> bool" where
  "nodeRequiresExecutionProtection n to \<longleftrightarrow>
     to \<in> {''leased'', ''running'', ''retry_wait'', ''awaiting_hitl'', ''reconciling'', ''succeeded'', ''failed''}
     \<or> nr_leaseId n \<noteq> None \<or> nr_fencingToken n \<noteq> None"

definition assertLeaseAndFencing :: "transition_command \<Rightarrow> runtime_error + unit" where
  "assertLeaseAndFencing c =
     (let to = rc_toStatus c;
          unprotected = (rc_leaseId c = None \<or> rc_fencingToken c = None)
      in case rc_aggregate c of
        Agg_NodeRun nodeRun \<Rightarrow>
          (let req = nodeRequiresExecutionProtection nodeRun to in
           sequenceE
             [throw_if (req \<and> unprotected) Lease_and_fencing_required,
              throw_if (req \<and> mismatch (nr_leaseId nodeRun) (rc_leaseId c)) Lease_mismatch,
              throw_if (req \<and> mismatch (nr_fencingToken nodeRun) (rc_fencingToken c))
                Fencing_token_mismatch])
      | Agg_HarnessRun harnessRun \<Rightarrow>
          (let req = to \<in> {''running'', ''replanning'', ''compensating'', ''completed'', ''failed''} in
           sequenceE
             [throw_if (req \<and> rc_fencingToken c = None) Harness_fencing_required,
              throw_if (req \<and> mismatch (hr_fencingToken harnessRun) (rc_fencingToken c))
                Harness_fencing_token_mismatch])
      | Agg_BudgetLedger _ \<Rightarrow>
          throw_if (to \<noteq> ''open'' \<and> unprotected) Budget_ledger_fencing_required
      | Agg_SideEffect sideEffect \<Rightarrow>
          (let req = to \<in> {''committing'', ''confirming''} in
           sequenceE
             [throw_if (req \<and> unprotected) Side_effect_fencing_required,
              throw_if (req \<and> mismatch (se_leaseId sideEffect) (rc_leaseId c))
                Side_effect_lease_mismatch,
              throw_if (req \<and> mismatch (se_fencingToken sideEffect) (rc_fencingToken c))
                Side_effect_fencing_token_mismatch])
      | Agg_BudgetReservation _ \<Rightarrow> Inr ())"

section \<open>The transition\<close>

text \<open>
  \<^verbatim>\<open>applyStatus\<close> writes the target status whose name the command carries; \<open>of_name\<close> finds it because
  \<^verbatim>\<open>assertTransitionAllowed\<close> has passed.
\<close>

definition applyStatus :: "transition_command \<Rightarrow> timestamp \<Rightarrow> runtime_aggregate" where
  "applyStatus c occurredAt =
     (let fin = isTerminalStatus (rc_aggregateType c) (rc_toStatus c);
          setAt = (\<lambda>old. if fin then Some occurredAt else old);
          setReason = (\<lambda>old. if fin \<and> rc_reasonCode c \<noteq> [] then Some (rc_reasonCode c) else old);
          lease = (\<lambda>old. coalesce_opt (rc_leaseId c) old);
          fence = (\<lambda>old. coalesce_opt (rc_fencingToken c) old)
      in case rc_aggregate c of
        Agg_HarnessRun a \<Rightarrow> Agg_HarnessRun
          (a\<lparr>hr_status := coalesce (of_name HR_STATUSES (rc_toStatus c)) (hr_status a),
             hr_currentSeq := hr_currentSeq a + 1, hr_updatedAt := occurredAt,
             hr_terminalAt := setAt (hr_terminalAt a), hr_terminalReason := setReason (hr_terminalReason a),
             hr_leaseId := lease (hr_leaseId a), hr_fencingToken := fence (hr_fencingToken a)\<rparr>)
      | Agg_NodeRun a \<Rightarrow> Agg_NodeRun
          (a\<lparr>nr_status := coalesce (of_name NR_STATUSES (rc_toStatus c)) (nr_status a),
             nr_leaseId := lease (nr_leaseId a), nr_fencingToken := fence (nr_fencingToken a),
             nr_currentSeq := nr_currentSeq a + 1, nr_updatedAt := occurredAt,
             nr_terminalAt := setAt (nr_terminalAt a), nr_terminalReason := setReason (nr_terminalReason a)\<rparr>)
      | Agg_SideEffect a \<Rightarrow> Agg_SideEffect
          (a\<lparr>se_status := coalesce (of_name SE_STATUSES (rc_toStatus c)) (se_status a),
             se_leaseId := lease (se_leaseId a), se_fencingToken := fence (se_fencingToken a),
             se_updatedAt := occurredAt,
             se_terminalAt := setAt (se_terminalAt a), se_terminalReason := setReason (se_terminalReason a),
             se_version := se_version a + 1\<rparr>)
      | Agg_BudgetLedger a \<Rightarrow> Agg_BudgetLedger
          (a\<lparr>bl_status := coalesce (of_name BL_STATUSES (rc_toStatus c)) (bl_status a),
             bl_updatedAt := occurredAt,
             bl_terminalAt := setAt (bl_terminalAt a), bl_terminalReason := setReason (bl_terminalReason a),
             bl_leaseId := lease (bl_leaseId a), bl_fencingToken := fence (bl_fencingToken a),
             bl_version := bl_version a + 1\<rparr>)
      | Agg_BudgetReservation a \<Rightarrow> Agg_BudgetReservation
          (a\<lparr>br_status := coalesce (of_name BR_STATUSES (rc_toStatus c)) (br_status a),
             br_updatedAt := Some occurredAt,
             br_terminalAt := setAt (br_terminalAt a), br_terminalReason := setReason (br_terminalReason a),
             br_leaseId := lease (br_leaseId a), br_fencingToken := fence (br_fencingToken a),
             br_version := br_version a + 1\<rparr>))"

fun getRunId :: "runtime_aggregate \<Rightarrow> ident" where
  "getRunId (Agg_HarnessRun a) = hr_harnessRunId a"
| "getRunId (Agg_NodeRun a) = nr_harnessRunId a"
| "getRunId (Agg_SideEffect a) = se_harnessRunId a"
| "getRunId (Agg_BudgetLedger a) = bl_harnessRunId a"
| "getRunId (Agg_BudgetReservation a) = br_harnessRunId a"

fun getAggregateId :: "runtime_aggregate \<Rightarrow> ident" where
  "getAggregateId (Agg_HarnessRun a) = hr_harnessRunId a"
| "getAggregateId (Agg_NodeRun a) = nr_nodeRunId a"
| "getAggregateId (Agg_SideEffect a) = se_sideEffectId a"
| "getAggregateId (Agg_BudgetLedger a) = bl_budgetLedgerId a"
| "getAggregateId (Agg_BudgetReservation a) = br_budgetReservationId a"

definition getAggregateSeq :: "runtime_aggregate \<Rightarrow> int" where
  "getAggregateSeq a = coalesce (coalesce_opt (agg_currentSeq a) (agg_version a)) 0"

fun toEventNamespace :: "aggregate_type \<Rightarrow> string" where
  "toEventNamespace AT_HarnessRun = ''harness_run''"
| "toEventNamespace AT_NodeRun = ''node_run''"
| "toEventNamespace AT_SideEffectRecord = ''side_effect''"
| "toEventNamespace AT_BudgetLedger = ''budget_ledger''"
| "toEventNamespace AT_BudgetReservation = ''budget_reservation''"

fun aggregate_type_name :: "aggregate_type \<Rightarrow> string" where
  "aggregate_type_name AT_HarnessRun = ''HarnessRun''"
| "aggregate_type_name AT_NodeRun = ''NodeRun''"
| "aggregate_type_name AT_SideEffectRecord = ''SideEffectRecord''"
| "aggregate_type_name AT_BudgetLedger = ''BudgetLedger''"
| "aggregate_type_name AT_BudgetReservation = ''BudgetReservation''"

record transition_payload =
  tp_aggregateType :: string
  tp_fromStatus :: string
  tp_toStatus :: string
  tp_reasonCode :: string
  tp_emittedBy :: string
  tp_runVersionLockId :: "ident option"
  tp_policyGuard :: "policy_guard option"
  tp_budgetPrecondition :: "budget_precondition option"
  tp_sideEffectSafety :: "side_effect_safety option"
  tp_auditRef :: "string option"

type_synonym fact_event = "transition_payload event_envelope"
type_synonym 'w persist_callback = "'w \<Rightarrow> fact_event \<Rightarrow> runtime_error + 'w"

text \<open>
  The constructor: the outer option is whether the options object has the property, the inner one
  whether it is nullish. The result is the field \<^verbatim>\<open>persistEvent\<close>.
\<close>

definition new_RuntimeStateMachine :: "'w persist_callback option option \<Rightarrow> 'w persist_callback option" where
  "new_RuntimeStateMachine opt = (case opt of Some p \<Rightarrow> p | None \<Rightarrow> Some (\<lambda>w _. Inr w))"

definition assertEventPersistenceConfigured :: "'w persist_callback option \<Rightarrow> runtime_error + unit" where
  "assertEventPersistenceConfigured p = throw_if (Option.is_none p) Persistence_required"

definition transition_guards ::
    "'w persist_callback option \<Rightarrow> transition_command \<Rightarrow> runtime_error + unit" where
  "transition_guards persistEvent c =
     sequenceE
       [assertStatusMatches c,
        assertTransitionAllowed (rc_aggregateType c) (rc_fromStatus c) (rc_toStatus c),
        assertCas c,
        assertRunVersionLock c,
        assertPolicyGuard c,
        assertBudgetPrecondition c,
        assertSideEffectSafety c,
        assertAuditRef c,
        assertEventPersistenceConfigured persistEvent,
        assertLeaseAndFencing c]"

definition transition_event_input ::
    "transition_command \<Rightarrow> timestamp \<Rightarrow> runtime_aggregate \<Rightarrow> transition_payload event_input" where
  "transition_event_input c occurredAt a =
     \<lparr>ei_eventType = ''platform.'' @ toEventNamespace (rc_aggregateType c) @ ''.status_changed'',
      ei_aggregateType = aggregate_type_name (rc_aggregateType c),
      ei_aggregateId = getAggregateId a,
      ei_aggregateSeq = getAggregateSeq a,
      ei_tenantId = rc_tenantId c,
      ei_runId = Some (getRunId a),
      ei_traceId = rc_traceId c,
      ei_payload =
        \<lparr>tp_aggregateType = aggregate_type_name (rc_aggregateType c),
         tp_fromStatus = rc_fromStatus c, tp_toStatus = rc_toStatus c,
         tp_reasonCode = rc_reasonCode c, tp_emittedBy = rc_emittedBy c,
         tp_runVersionLockId = rc_runVersionLockId c, tp_policyGuard = rc_policyGuard c,
         tp_budgetPrecondition = rc_budgetPrecondition c,
         tp_sideEffectSafety = rc_sideEffectSafety c,
         tp_auditRef = (if hasAuditRef (rc_auditRef c) then rc_auditRef c else None)\<rparr>,
      ei_source = None, ei_eventId = None, ei_schemaVersion = None, ei_causationId = None,
      ei_correlationId = None, ei_payloadHash = None, ei_replayBehavior = None,
      ei_schemaOwner = None, ei_consumerContractTests = None, ei_occurredAt = Some occurredAt,
      ei_derivedFromEventIds = []\<rparr>"

definition lift_contract :: "contract_error + 'a \<Rightarrow> runtime_error + 'a" where
  "lift_contract r = (case r of Inl e \<Rightarrow> Inl (Event_contract e) | Inr x \<Rightarrow> Inr x)"

definition transition ::
    "'w persist_callback option \<Rightarrow> timestamp \<Rightarrow> ident \<Rightarrow> string \<Rightarrow> transition_command \<Rightarrow> 'w \<Rightarrow>
     runtime_error + (runtime_aggregate \<times> fact_event \<times> 'w)" where
  "transition persistEvent now freshEvt freshHash c w =
     bindE (transition_guards persistEvent c) (\<lambda>_.
     let occurredAt = coalesce (rc_occurredAt c) now;
         aggregate = applyStatus c occurredAt
     in bindE (lift_contract (createPlatformFactEvent now freshEvt freshHash
                 (transition_event_input c occurredAt aggregate))) (\<lambda>event.
        case persistEvent of
          None \<Rightarrow> Inl Persistence_required
        | Some p \<Rightarrow> bindE (p w event) (\<lambda>w'. Inr (aggregate, event, w'))))"

definition emitFactEvent :: "'w persist_callback option \<Rightarrow> fact_event \<Rightarrow> 'w \<Rightarrow> runtime_error + 'w" where
  "emitFactEvent persistEvent event w =
     bindE (assertEventPersistenceConfigured persistEvent) (\<lambda>_.
       case persistEvent of None \<Rightarrow> Inl Persistence_required | Some p \<Rightarrow> p w event)"

definition executeTransition ::
    "'w persist_callback option \<Rightarrow> timestamp \<Rightarrow> ident \<Rightarrow> string \<Rightarrow> runtime_aggregate \<Rightarrow> string \<Rightarrow>
     transition_command \<Rightarrow> 'w \<Rightarrow> runtime_error + (runtime_aggregate \<times> fact_event \<times> 'w)" where
  "executeTransition persistEvent now freshEvt freshHash aggregate toStatus c w =
     transition persistEvent now freshEvt freshHash
       (c\<lparr>rc_aggregate := aggregate, rc_fromStatus := agg_status aggregate,
          rc_toStatus := toStatus\<rparr>) w"

definition buildTransitionCommand ::
    "runtime_aggregate \<Rightarrow> string \<Rightarrow> string \<Rightarrow> transition_command \<Rightarrow> transition_command" where
  "buildTransitionCommand aggregate toStatus fromStatus c =
     c\<lparr>rc_aggregate := aggregate, rc_fromStatus := fromStatus, rc_toStatus := toStatus,
       rc_auditRef := Some (coalesce (rc_auditRef c) (''perf-audit:'' @ rc_commandId c))\<rparr>"

section \<open>Type inference for \<^verbatim>\<open>validateTransition\<close>\<close>

text \<open>
  The \<^verbatim>\<open>in\<close> tests of \<^verbatim>\<open>inferAggregateType\<close>: which aggregates own the property. The factories omit
  \<^verbatim>\<open>nodeRunId\<close> from a reservation that has none.
\<close>

fun has_confirmedTaskSpecId :: "runtime_aggregate \<Rightarrow> bool" where
  "has_confirmedTaskSpecId (Agg_HarnessRun _) = True"
| "has_confirmedTaskSpecId _ = False"

fun has_nodeRunId :: "runtime_aggregate \<Rightarrow> bool" where
  "has_nodeRunId (Agg_HarnessRun _) = False"
| "has_nodeRunId (Agg_NodeRun _) = True"
| "has_nodeRunId (Agg_SideEffect _) = True"
| "has_nodeRunId (Agg_BudgetLedger _) = False"
| "has_nodeRunId (Agg_BudgetReservation r) = (br_nodeRunId r \<noteq> None)"

fun has_sideEffectId :: "runtime_aggregate \<Rightarrow> bool" where
  "has_sideEffectId (Agg_SideEffect _) = True"
| "has_sideEffectId _ = False"

fun has_currency :: "runtime_aggregate \<Rightarrow> bool" where
  "has_currency (Agg_BudgetLedger _) = True"
| "has_currency _ = False"

definition inferAggregateType :: "runtime_aggregate \<Rightarrow> aggregate_type" where
  "inferAggregateType a =
     (if has_confirmedTaskSpecId a then AT_HarnessRun
      else if has_nodeRunId a then AT_NodeRun
      else if has_sideEffectId a then AT_SideEffectRecord
      else if has_currency a then AT_BudgetLedger
      else AT_BudgetReservation)"

definition validateTransition :: "runtime_aggregate \<Rightarrow> string \<Rightarrow> string \<Rightarrow> bool" where
  "validateTransition a toStatus fromStatus \<longleftrightarrow>
     assertTransitionAllowed (inferAggregateType a) fromStatus toStatus = Inr ()"

section \<open>Runs\<close>

text \<open>
  A run of the machine on one aggregate: the commands that were accepted, in order, each carrying
  the aggregate that the previous one produced.
\<close>

inductive accepted_run ::
    "'w persist_callback option \<Rightarrow> runtime_aggregate \<Rightarrow> transition_command list \<Rightarrow> runtime_aggregate \<Rightarrow> bool"
  for p where
  run_start: "accepted_run p a [] a"
| run_step: "\<lbrakk>accepted_run p a cs b; rc_aggregate c = b;
              transition p now freshEvt freshHash c w = Inr (b', e, w')\<rbrakk>
             \<Longrightarrow> accepted_run p a (cs @ [c]) b'"

text \<open>The abstract life cycle: the statuses of the two aggregates are an edge of their table.\<close>

fun life_cycle_step :: "runtime_aggregate \<Rightarrow> runtime_aggregate \<Rightarrow> bool" where
  "life_cycle_step (Agg_HarnessRun a) (Agg_HarnessRun b) =
     (hr_status b \<in> set (HARNESS_RUN_TRANSITIONS (hr_status a)))"
| "life_cycle_step (Agg_NodeRun a) (Agg_NodeRun b) =
     (nr_status b \<in> set (NODE_RUN_TRANSITIONS (nr_status a)))"
| "life_cycle_step (Agg_SideEffect a) (Agg_SideEffect b) =
     (se_status b \<in> set (SIDE_EFFECT_TRANSITIONS (se_status a)))"
| "life_cycle_step (Agg_BudgetLedger a) (Agg_BudgetLedger b) =
     (bl_status b \<in> set (BUDGET_LEDGER_TRANSITIONS (bl_status a)))"
| "life_cycle_step (Agg_BudgetReservation a) (Agg_BudgetReservation b) =
     (br_status b \<in> set (BUDGET_RESERVATION_TRANSITIONS (br_status a)))"
| "life_cycle_step _ _ = False"

fun agg_terminal :: "runtime_aggregate \<Rightarrow> bool" where
  "agg_terminal (Agg_HarnessRun a) = (HARNESS_RUN_TRANSITIONS (hr_status a) = [])"
| "agg_terminal (Agg_NodeRun a) = (NODE_RUN_TRANSITIONS (nr_status a) = [])"
| "agg_terminal (Agg_SideEffect a) = (SIDE_EFFECT_TRANSITIONS (se_status a) = [])"
| "agg_terminal (Agg_BudgetLedger a) = (BUDGET_LEDGER_TRANSITIONS (bl_status a) = [])"
| "agg_terminal (Agg_BudgetReservation a) = (BUDGET_RESERVATION_TRANSITIONS (br_status a) = [])"

section \<open>Tables looked up by name\<close>

locale named_table = transition_table succs terminal rank
  for succs :: "'s \<Rightarrow> 's list" and terminal :: "'s \<Rightarrow> bool" and rank :: "'s \<Rightarrow> nat" +
  fixes ns :: "('s \<times> string) list"
  assumes name_roundtrip: "of_name ns (name_in ns s) = Some s"
begin

lemma name_inj: "name_in ns s = name_in ns t \<longleftrightarrow> s = t"
  by (metis name_roundtrip option.inject)

lemma lookup_name: "string_table ns succs (name_in ns s) = Some (map (name_in ns) (succs s))"
  by (simp add: string_table_def name_roundtrip)

lemma allowed_iff:
  "to \<in> set (coalesce (string_table ns succs (name_in ns s)) []) \<longleftrightarrow> (\<exists>t \<in> set (succs s). to = name_in ns t)"
  by (auto simp: lookup_name)

lemma terminal_name: "string_table ns succs (name_in ns s) = Some [] \<longleftrightarrow> terminal s"
  by (simp add: lookup_name terminal_iff)

lemma target_is_successor:
  assumes "to \<in> set (coalesce (string_table ns succs (name_in ns s)) [])"
  shows "coalesce (of_name ns to) s \<in> set (succs s)"
    and "name_in ns (coalesce (of_name ns to) s) = to"
  using assms by (auto simp: allowed_iff name_roundtrip)

end

definition exit_rank :: "('s \<Rightarrow> 's list) \<Rightarrow> 's \<Rightarrow> nat" where
  "exit_rank tbl s =
     (if tbl s = [] then 0 else if list_ex (\<lambda>t. tbl t = []) (tbl s) then 1 else 2)"

interpretation harness_table: named_table HARNESS_RUN_TRANSITIONS
    "\<lambda>s. HARNESS_RUN_TRANSITIONS s = []" "exit_rank HARNESS_RUN_TRANSITIONS" HR_STATUSES
proof unfold_locales
  fix s :: harness_run_status
  show "s \<notin> set (HARNESS_RUN_TRANSITIONS s)" by (cases s) simp_all
  show "exit_rank HARNESS_RUN_TRANSITIONS s = 0 \<longleftrightarrow> HARNESS_RUN_TRANSITIONS s = []"
    by (simp add: exit_rank_def)
  show "\<exists>t \<in> set (HARNESS_RUN_TRANSITIONS s). exit_rank HARNESS_RUN_TRANSITIONS t < exit_rank HARNESS_RUN_TRANSITIONS s"
    if "HARNESS_RUN_TRANSITIONS s \<noteq> []"
    using that by (cases s) (simp_all add: exit_rank_def)
  show "of_name HR_STATUSES (name_in HR_STATUSES s) = Some s"
    by (cases s) (simp_all add: of_name_def name_in_def HR_STATUSES_def)
qed simp

interpretation node_table: named_table NODE_RUN_TRANSITIONS
    "\<lambda>s. NODE_RUN_TRANSITIONS s = []" "exit_rank NODE_RUN_TRANSITIONS" NR_STATUSES
proof unfold_locales
  fix s :: node_run_status
  show "s \<notin> set (NODE_RUN_TRANSITIONS s)" by (cases s) simp_all
  show "exit_rank NODE_RUN_TRANSITIONS s = 0 \<longleftrightarrow> NODE_RUN_TRANSITIONS s = []"
    by (simp add: exit_rank_def)
  show "\<exists>t \<in> set (NODE_RUN_TRANSITIONS s). exit_rank NODE_RUN_TRANSITIONS t < exit_rank NODE_RUN_TRANSITIONS s"
    if "NODE_RUN_TRANSITIONS s \<noteq> []"
    using that by (cases s) (simp_all add: exit_rank_def)
  show "of_name NR_STATUSES (name_in NR_STATUSES s) = Some s"
    by (cases s) (simp_all add: of_name_def name_in_def NR_STATUSES_def)
qed simp

interpretation side_effect_table: named_table SIDE_EFFECT_TRANSITIONS
    "\<lambda>s. SIDE_EFFECT_TRANSITIONS s = []" "exit_rank SIDE_EFFECT_TRANSITIONS" SE_STATUSES
proof unfold_locales
  fix s :: side_effect_status
  show "s \<notin> set (SIDE_EFFECT_TRANSITIONS s)" by (cases s) simp_all
  show "exit_rank SIDE_EFFECT_TRANSITIONS s = 0 \<longleftrightarrow> SIDE_EFFECT_TRANSITIONS s = []"
    by (simp add: exit_rank_def)
  show "\<exists>t \<in> set (SIDE_EFFECT_TRANSITIONS s). exit_rank SIDE_EFFECT_TRANSITIONS t < exit_rank SIDE_EFFECT_TRANSITIONS s"
    if "SIDE_EFFECT_TRANSITIONS s \<noteq> []"
    using that by (cases s) (simp_all add: exit_rank_def)
  show "of_name SE_STATUSES (name_in SE_STATUSES s) = Some s"
    by (cases s) (simp_all add: of_name_def name_in_def SE_STATUSES_def)
qed simp

interpretation ledger_table: named_table BUDGET_LEDGER_TRANSITIONS
    "\<lambda>s. BUDGET_LEDGER_TRANSITIONS s = []" "exit_rank BUDGET_LEDGER_TRANSITIONS" BL_STATUSES
proof unfold_locales
  fix s :: budget_ledger_status
  show "s \<notin> set (BUDGET_LEDGER_TRANSITIONS s)" by (cases s) simp_all
  show "exit_rank BUDGET_LEDGER_TRANSITIONS s = 0 \<longleftrightarrow> BUDGET_LEDGER_TRANSITIONS s = []"
    by (simp add: exit_rank_def)
  show "\<exists>t \<in> set (BUDGET_LEDGER_TRANSITIONS s). exit_rank BUDGET_LEDGER_TRANSITIONS t < exit_rank BUDGET_LEDGER_TRANSITIONS s"
    if "BUDGET_LEDGER_TRANSITIONS s \<noteq> []"
    using that by (cases s) (simp_all add: exit_rank_def)
  show "of_name BL_STATUSES (name_in BL_STATUSES s) = Some s"
    by (cases s) (simp_all add: of_name_def name_in_def BL_STATUSES_def)
qed simp

interpretation reservation_table: named_table BUDGET_RESERVATION_TRANSITIONS
    "\<lambda>s. BUDGET_RESERVATION_TRANSITIONS s = []" "exit_rank BUDGET_RESERVATION_TRANSITIONS" BR_STATUSES
proof unfold_locales
  fix s :: budget_reservation_status
  show "s \<notin> set (BUDGET_RESERVATION_TRANSITIONS s)" by (cases s) simp_all
  show "exit_rank BUDGET_RESERVATION_TRANSITIONS s = 0 \<longleftrightarrow> BUDGET_RESERVATION_TRANSITIONS s = []"
    by (simp add: exit_rank_def)
  show "\<exists>t \<in> set (BUDGET_RESERVATION_TRANSITIONS s).
          exit_rank BUDGET_RESERVATION_TRANSITIONS t < exit_rank BUDGET_RESERVATION_TRANSITIONS s"
    if "BUDGET_RESERVATION_TRANSITIONS s \<noteq> []"
    using that by (cases s) (simp_all add: exit_rank_def)
  show "of_name BR_STATUSES (name_in BR_STATUSES s) = Some s"
    by (cases s) (simp_all add: of_name_def name_in_def BR_STATUSES_def)
qed simp

lemmas table_lookups =
  harness_table.lookup_name node_table.lookup_name side_effect_table.lookup_name
  ledger_table.lookup_name reservation_table.lookup_name

lemmas table_name_injs =
  harness_table.name_inj node_table.name_inj side_effect_table.name_inj
  ledger_table.name_inj reservation_table.name_inj

lemmas table_roundtrips =
  harness_table.name_roundtrip node_table.name_roundtrip side_effect_table.name_roundtrip
  ledger_table.name_roundtrip reservation_table.name_roundtrip

section \<open>What an accepted command guarantees\<close>

lemma agg_terminal_iff: "agg_terminal a \<longleftrightarrow> isTerminalStatus (agg_type a) (agg_status a)"
  by (cases a) (simp_all add: isTerminalStatus_def table_lookups)

lemma assertTransitionAllowed_Inr [result_simps]:
  "assertTransitionAllowed ty from to = Inr u \<longleftrightarrow>
     from \<noteq> to \<and> to \<in> set (coalesce (getTransitionTable ty from) [])"
  by (auto simp: assertTransitionAllowed_def result_simps)

lemma transition_event:
  "createPlatformFactEvent now f h (transition_event_input c t a) = Inr e \<Longrightarrow>
     ev_aggregateSeq e = getAggregateSeq a \<and> ev_aggregateId e = getAggregateId a
     \<and> ev_runId e = getRunId a \<and> ev_occurredAt e = t \<and> canTruthConsumerConsume e
     \<and> tp_fromStatus (ev_payload e) = rc_fromStatus c \<and> tp_toStatus (ev_payload e) = rc_toStatus c"
  by (auto simp: createPlatformFactEvent_def transition_event_input_def canTruthConsumerConsume_def
      isPlatformFactEvent_def result_simps)

lemma transition_accepted:
  assumes "transition p now f h c w = Inr (a', e, w')"
  shows "transition_guards p c = Inr ()"
    and "a' = applyStatus c (coalesce (rc_occurredAt c) now)"
    and "createPlatformFactEvent now f h
           (transition_event_input c (coalesce (rc_occurredAt c) now) a') = Inr e"
    and "\<exists>q. p = Some q \<and> q w e = Inr w'"
  using assms
  by (auto simp: transition_def result_simps lift_contract_def Let_def split: sum.splits option.splits)

lemma guards_accepted:
  assumes "transition_guards p c = Inr u"
  shows guards_status: "agg_status (rc_aggregate c) = rc_fromStatus c"
    and guards_allowed:
      "rc_toStatus c \<in> set (coalesce (getTransitionTable (rc_aggregateType c) (rc_fromStatus c)) [])"
      "rc_fromStatus c \<noteq> rc_toStatus c"
    and guards_cas: "cas_ok (agg_currentSeq (rc_aggregate c)) (rc_expectedSeq c)"
      "cas_ok (agg_version (rc_aggregate c)) (rc_expectedVersion c)"
    and guards_side_effect: "assertSideEffectSafety c = Inr ()"
    and guards_lease: "assertLeaseAndFencing c = Inr ()"
  using assms
  by (simp_all add: transition_guards_def result_simps assertStatusMatches_def assertCas_def)

lemma applyStatus_life_cycle:
  assumes "agg_status (rc_aggregate c) = rc_fromStatus c"
    and "rc_toStatus c \<in> set (coalesce (getTransitionTable (rc_aggregateType c) (rc_fromStatus c)) [])"
  shows "life_cycle_step (rc_aggregate c) (applyStatus c t)"
    and "agg_status (applyStatus c t) = rc_toStatus c"
  using assms(2) unfolding assms(1) [symmetric] rc_aggregateType_def
  by (cases "rc_aggregate c";
      simp add: applyStatus_def Let_def harness_table.target_is_successor
        node_table.target_is_successor side_effect_table.target_is_successor
        ledger_table.target_is_successor reservation_table.target_is_successor)+

lemma applyStatus_ids [simp]:
  "getAggregateId (applyStatus c t) = getAggregateId (rc_aggregate c)"
  "getRunId (applyStatus c t) = getRunId (rc_aggregate c)"
  "agg_type (applyStatus c t) = agg_type (rc_aggregate c)"
  "getAggregateSeq (applyStatus c t) = getAggregateSeq (rc_aggregate c) + 1"
  "agg_currentSeq (applyStatus c t) = map_option (\<lambda>s. s + 1) (agg_currentSeq (rc_aggregate c))"
  "agg_version (applyStatus c t) = map_option (\<lambda>v. v + 1) (agg_version (rc_aggregate c))"
  by (cases "rc_aggregate c"; simp add: applyStatus_def Let_def getAggregateSeq_def)+

lemma transition_accepts:
  assumes "transition_guards (Some q) c = Inr ()" and "\<And>e. \<exists>w'. q w e = Inr w'"
  shows "\<exists>e w'. transition (Some q) now f h c w = Inr (applyStatus c (coalesce (rc_occurredAt c) now), e, w')"
proof -
  let ?a = "applyStatus c (coalesce (rc_occurredAt c) now)"
  obtain e where e: "createPlatformFactEvent now f h
      (transition_event_input c (coalesce (rc_occurredAt c) now) ?a) = Inr e"
    by (simp add: createPlatformFactEvent_def transition_event_input_def startsWith_def)
  obtain w' where "q w e = Inr w'" using assms(2) by blast
  with assms(1) e show ?thesis
    by (simp add: transition_def lift_contract_def Let_def)
qed

lemma run_single:
  assumes "transition p now f h c w = Inr (a', e, w')"
  shows "accepted_run p (rc_aggregate c) [c] a'"
  using run_step [OF run_start refl assms] by simp

lemma life_cycle_not_terminal: "life_cycle_step a b \<Longrightarrow> \<not> agg_terminal a"
  by (cases a; cases b) auto

lemma transition_life_cycle:
  assumes "transition p now f h c w = Inr (a', e, w')"
  shows "life_cycle_step (rc_aggregate c) a'" and "agg_status a' = rc_toStatus c"
  using applyStatus_life_cycle [of c] guards_accepted [OF transition_accepted(1) [OF assms]]
    transition_accepted(2) [OF assms] by simp_all

lemma node_owner_step:
  assumes "transition p now f h c w = Inr (a', e, w')"
    and "rc_aggregate c = Agg_NodeRun n" "nr_leaseId n = Some l" "nr_fencingToken n = Some t"
  shows "rc_leaseId c = Some l" "rc_fencingToken c = Some t"
    and "\<exists>n'. a' = Agg_NodeRun n' \<and> nr_leaseId n' = Some l \<and> nr_fencingToken n' = Some t"
proof -
  have "assertLeaseAndFencing c = Inr ()"
    by (rule guards_lease [OF transition_accepted(1) [OF assms(1)]])
  then show ids: "rc_leaseId c = Some l" "rc_fencingToken c = Some t"
    using assms(2-4)
    by (simp_all add: assertLeaseAndFencing_def nodeRequiresExecutionProtection_def mismatch_def
        result_simps)
  from transition_accepted(2) [OF assms(1)] assms(2-4) ids
  show "\<exists>n'. a' = Agg_NodeRun n' \<and> nr_leaseId n' = Some l \<and> nr_fencingToken n' = Some t"
    by (simp add: applyStatus_def Let_def)
qed

lemma side_effect_step:
  assumes "transition p now f h c w = Inr (a', e, w')" and "rc_aggregate c = Agg_SideEffect s"
  obtains s' where "a' = Agg_SideEffect s'" "se_riskClass s' = se_riskClass s"
    "se_status s' \<in> set (SIDE_EFFECT_TRANSITIONS (se_status s))"
    "rc_toStatus c = name_in SE_STATUSES (se_status s')"
proof -
  obtain s' where s': "a' = Agg_SideEffect s'" "se_riskClass s' = se_riskClass s"
    using transition_accepted(2) [OF assms(1)] assms(2) by (simp add: applyStatus_def Let_def)
  with transition_life_cycle [OF assms(1)] assms(2) show thesis
    by (intro that [of s']) simp_all
qed

lemma run_side_effect:
  "accepted_run p a cs b \<Longrightarrow> a = Agg_SideEffect s \<Longrightarrow>
     \<exists>s'. b = Agg_SideEffect s' \<and> se_riskClass s' = se_riskClass s"
  by (induction rule: accepted_run.induct) (fastforce elim: side_effect_step)+

lemma run_node_run: "accepted_run p a cs b \<Longrightarrow> agg_type b = agg_type a"
  by (induction rule: accepted_run.induct) (auto dest: transition_accepted(2))

text \<open>What a command presents when it takes a side effect of a given risk to \<^verbatim>\<open>committing\<close>.\<close>

definition commit_authorised :: "risk_class \<Rightarrow> transition_command \<Rightarrow> bool" where
  "commit_authorised r c \<longleftrightarrow>
     rc_toStatus c = ''committing''
     \<and> Option.bind (rc_sideEffectSafety c) ss_preCommitPolicyProofRef \<noteq> None
     \<and> Option.bind (rc_sideEffectSafety c) ss_idempotencyKey \<noteq> None
     \<and> (isHighRisk r \<longrightarrow> Option.bind (rc_sideEffectSafety c) ss_humanApprovalRef \<noteq> None)
     \<and> rc_leaseId c \<noteq> None \<and> rc_fencingToken c \<noteq> None"

lemma committing_authorised:
  assumes "transition p now f h c w = Inr (a', e, w')" and "rc_aggregate c = Agg_SideEffect s"
    and "rc_toStatus c = ''committing''"
  shows "commit_authorised (se_riskClass s) c"
proof -
  have "assertSideEffectSafety c = Inr ()" "assertLeaseAndFencing c = Inr ()"
    by (rule guards_side_effect [OF transition_accepted(1) [OF assms(1)]],
        rule guards_lease [OF transition_accepted(1) [OF assms(1)]])
  with assms(2,3) show ?thesis
    unfolding commit_authorised_def
    by (simp add: assertSideEffectSafety_def assertLeaseAndFencing_def Let_def result_simps)
qed

lemma committing_name: "name_in SE_STATUSES SE_committing = ''committing''"
  by (simp add: name_in_def SE_STATUSES_def)

lemma reaches_commit_through_committing:
  "t \<in> set (SIDE_EFFECT_TRANSITIONS s) \<Longrightarrow> t \<in> {SE_committing, SE_committed, SE_confirming} \<Longrightarrow>
     t = SE_committing \<or> s \<in> {SE_committing, SE_committed}"
  by (cases s) auto

section \<open>Properties\<close>

text \<open>
  C1. Every accepted command moves its aggregate along an edge of the transition table of its
  type, advances the sequence number (or version) by one, and persists a platform fact event
  that carries the new sequence number, the aggregate's identity and the two statuses.
\<close>

theorem transition_sound:
  assumes "transition p now f h c w = Inr (a', e, w')"
  shows "life_cycle_step (rc_aggregate c) a'
    \<and> getAggregateSeq a' = getAggregateSeq (rc_aggregate c) + 1
    \<and> getAggregateId a' = getAggregateId (rc_aggregate c)
    \<and> ev_aggregateSeq e = getAggregateSeq a' \<and> ev_aggregateId e = getAggregateId a'
    \<and> tp_fromStatus (ev_payload e) = agg_status (rc_aggregate c)
    \<and> tp_toStatus (ev_payload e) = agg_status a'
    \<and> canTruthConsumerConsume e \<and> (\<exists>q. p = Some q \<and> q w e = Inr w')"
  using transition_life_cycle [OF assms] transition_accepted [OF assms]
    transition_event [OF transition_accepted(3) [OF assms]]
    guards_status [OF transition_accepted(1) [OF assms]]
  by simp

definition ex_node :: node_run where
  "ex_node = createNodeRun 0 ''n1''
     \<lparr>nri_harnessRunId = ''h1'', nri_planGraphBundleId = ''b1'', nri_graphVersion = 1,
      nri_nodeId = ''a'', nri_nodeRunId = None, nri_status = Some NR_leased, nri_attemptCount = None,
      nri_sideEffects = None, nri_compensation = None, nri_leaseId = Some ''l1'',
      nri_fencingToken = Some ''t1'', nri_currentSeq = Some 3, nri_createdAt = None,
      nri_updatedAt = None, nri_missionSnapshotRef = None\<rparr>"

definition ex_command :: "runtime_aggregate \<Rightarrow> string \<Rightarrow> transition_command" where
  "ex_command a to =
     \<lparr>rc_commandId = ''c1'', rc_aggregate = a, rc_fromStatus = agg_status a, rc_toStatus = to,
      rc_principal = ''worker'', rc_expectedSeq = agg_currentSeq a, rc_expectedVersion = agg_version a,
      rc_leaseId = Some ''l1'', rc_fencingToken = Some ''t1'', rc_traceId = ''tr'',
      rc_tenantId = ''tn'', rc_reasonCode = ''start'', rc_emittedBy = ''worker'',
      rc_runVersionLockId = Some ''v1'', rc_policyGuard = None, rc_budgetPrecondition = None,
      rc_sideEffectSafety =
        Some \<lparr>ss_idempotencyKey = Some ''k1'', ss_preCommitPolicyProofRef = Some ''p1'',
              ss_humanApprovalRef = Some ''h1'', ss_reversible = None\<rparr>,
      rc_auditRef = Some ''audit'', rc_occurredAt = None\<rparr>"

lemma ex_command_simps [simp]:
  "rc_aggregate (ex_command a to) = a" "rc_toStatus (ex_command a to) = to"
  "rc_fromStatus (ex_command a to) = agg_status a" "rc_aggregateType (ex_command a to) = agg_type a"
  "rc_expectedSeq (ex_command a to) = agg_currentSeq a"
  "rc_expectedVersion (ex_command a to) = agg_version a"
  "rc_leaseId (ex_command a to) = Some ''l1''" "rc_fencingToken (ex_command a to) = Some ''t1''"
  by (simp_all add: ex_command_def rc_aggregateType_def)

text \<open>The callback of the examples appends to a log.\<close>

definition ex_persist :: "fact_event list persist_callback" where
  "ex_persist w e = Inr (e # w)"

lemmas transition_eval =
  transition_def transition_guards_def ex_command_def ex_persist_def
  assertStatusMatches_def assertTransitionAllowed_def assertCas_def cas_ok_def
  assertRunVersionLock_def assertPolicyGuard_def assertBudgetPrecondition_def
  assertSideEffectSafety_def assertAuditRef_def hasAuditRef_def
  assertEventPersistenceConfigured_def assertLeaseAndFencing_def mismatch_def rc_aggregateType_def
  js_trim_def js_white_def createPlatformFactEvent_def transition_event_input_def lift_contract_def
  table_lookups throw_if_def startsWith_def

lemma ex_node_accepts:
  "\<exists>a' e w'. transition (Some ex_persist) 7 ''e1'' ''ph'' (ex_command (Agg_NodeRun ex_node) ''running'') []
     = Inr (a', e, w')"
  by (simp add: transition_eval ex_node_def createNodeRun_def Let_def,
      simp add: name_in_def NR_STATUSES_def)

theorem transition_sound_witness:
  "\<exists>a' e w'. transition (Some ex_persist) 7 ''e1'' ''ph'' (ex_command (Agg_NodeRun ex_node) ''running'') []
       = Inr (a', e, w') \<and> life_cycle_step (Agg_NodeRun ex_node) a' \<and> getAggregateSeq a' = 4"
proof -
  obtain a' e w' where tr: "transition (Some ex_persist) 7 ''e1'' ''ph''
      (ex_command (Agg_NodeRun ex_node) ''running'') [] = Inr (a', e, w')"
    using ex_node_accepts by blast
  from transition_sound [OF this] tr show ?thesis
    by (auto simp: ex_command_def ex_node_def createNodeRun_def getAggregateSeq_def)
qed

text \<open>
  Every aggregate is guarded by one counter, its sequence number or its version, and a command may state the value that
  its sender has read.
\<close>

definition conflict_stamp :: "runtime_aggregate \<Rightarrow> int" where
  "conflict_stamp a = (case agg_currentSeq a of Some s \<Rightarrow> s | None \<Rightarrow> the (agg_version a))"

definition expected_stamp :: "transition_command \<Rightarrow> int option" where
  "expected_stamp c = (if agg_currentSeq (rc_aggregate c) = None then rc_expectedVersion c else rc_expectedSeq c)"

definition conflict_error :: "runtime_aggregate \<Rightarrow> runtime_error" where
  "conflict_error a = (if agg_currentSeq a = None then Version_cas_failed else Cas_failed)"

lemma one_counter: "(agg_currentSeq a = None) = (agg_version a \<noteq> None)"
  by (cases a) simp_all

lemma accepted_stamp:
  assumes "transition p now f h c w = Inr (a', e, w')"
  shows "conflict_stamp a' = conflict_stamp (rc_aggregate c) + 1"
    and "expected_stamp c = None \<or> expected_stamp c = Some (conflict_stamp (rc_aggregate c))"
  using guards_cas [OF transition_accepted(1) [OF assms]] transition_accepted(2) [OF assms] one_counter [of "rc_aggregate c"]
  by (auto simp: conflict_stamp_def expected_stamp_def cas_ok_def split: option.splits)

lemma stale_command_refused:
  assumes "assertStatusMatches c = Inr ()" and "assertTransitionAllowed (rc_aggregateType c) (rc_fromStatus c) (rc_toStatus c) = Inr ()"
    and "expected_stamp c \<noteq> None" "expected_stamp c \<noteq> Some (conflict_stamp (rc_aggregate c))"
  shows "transition p now f h c w = Inl (conflict_error (rc_aggregate c))"
proof -
  have "assertCas c = Inl (conflict_error (rc_aggregate c))"
    using assms(3,4) one_counter [of "rc_aggregate c"]
    by (auto simp: assertCas_def cas_ok_def expected_stamp_def conflict_stamp_def conflict_error_def split: option.splits)
  with assms(1,2) show ?thesis by (simp add: transition_def transition_guards_def)
qed



text \<open>
  Terminal statuses absorb: no command is ever accepted on an aggregate whose status is
  terminal, so a run from it is empty.
\<close>

theorem terminal_run_is_empty:
  assumes "accepted_run p a cs b" and "agg_terminal a"
  shows "cs = [] \<and> b = a"
  using assms
  by (induction rule: accepted_run.induct)
    (auto dest: transition_life_cycle(1) life_cycle_not_terminal)

theorem terminal_run_is_empty_witness:
  "\<exists>a. agg_terminal a \<and> (\<forall>cs b. accepted_run (Some ex_persist) a cs b \<longrightarrow> cs = [] \<and> b = a)"
proof -
  have t: "agg_terminal (Agg_NodeRun (ex_node\<lparr>nr_status := NR_failed\<rparr>))"
    by simp
  show ?thesis
    using terminal_run_is_empty [OF _ t] t by blast
qed

text \<open>
  C2. Fencing: once a node run records a lease and a fencing token, every command that is
  ever accepted on it presents exactly that lease and token, and the node run keeps them.
\<close>

theorem node_run_fenced:
  assumes "accepted_run p (Agg_NodeRun n) cs b"
    and "nr_leaseId n = Some l" "nr_fencingToken n = Some t"
  shows "(\<forall>c \<in> set cs. rc_leaseId c = Some l \<and> rc_fencingToken c = Some t)
    \<and> (\<exists>n'. b = Agg_NodeRun n' \<and> nr_leaseId n' = Some l \<and> nr_fencingToken n' = Some t)"
  using assms
proof (induction "Agg_NodeRun n" cs b rule: accepted_run.induct)
  case (run_step cs b c now f h w b' e w')
  then obtain m where "b = Agg_NodeRun m" "nr_leaseId m = Some l" "nr_fencingToken m = Some t"
    by blast
  with node_owner_step [OF run_step.hyps(4)] run_step show ?case
    by auto
qed simp

theorem node_run_fenced_witness:
  "\<exists>c b. accepted_run (Some ex_persist) (Agg_NodeRun ex_node) [c] b
     \<and> rc_leaseId c = Some ''l1'' \<and> rc_fencingToken c = Some ''t1''"
proof -
  let ?c = "ex_command (Agg_NodeRun ex_node) ''running''"
  obtain a' e w' where "transition (Some ex_persist) 7 ''e1'' ''ph'' ?c [] = Inr (a', e, w')"
    using ex_node_accepts by blast
  from run_single [OF this] have run: "accepted_run (Some ex_persist) (Agg_NodeRun ex_node) [?c] a'"
    by simp
  have "nr_leaseId ex_node = Some ''l1''" "nr_fencingToken ex_node = Some ''t1''"
    by (simp_all add: ex_node_def createNodeRun_def)
  from node_run_fenced [OF run this]
  have "rc_leaseId ?c = Some ''l1'' \<and> rc_fencingToken ?c = Some ''t1''"
    by (auto simp del: ex_command_simps)
  with run show ?thesis by (intro exI [of _ ?c] exI [of _ a']) simp
qed

text \<open>
  C3. Commit safety of side effects: in every run that takes a proposed side effect to
  \<^verbatim>\<open>committing\<close>, \<^verbatim>\<open>committed\<close> or \<^verbatim>\<open>confirming\<close>, some accepted command went to \<^verbatim>\<open>committing\<close> with a
  pre-commit policy proof, an idempotency key, a lease and a fencing token, and, for a side
  effect of high or critical risk, a human approval.
\<close>

theorem side_effect_commit_safety:
  assumes "accepted_run p (Agg_SideEffect s) cs (Agg_SideEffect s')"
    and "se_status s = SE_proposed"
    and "se_status s' \<in> {SE_committing, SE_committed, SE_confirming}"
  shows "\<exists>c \<in> set cs. commit_authorised (se_riskClass s) c"
  using assms
proof (induction "Agg_SideEffect s" cs "Agg_SideEffect s'" arbitrary: s' rule: accepted_run.induct)
  case (run_step cs b c now f h w e w')
  then obtain m where m: "b = Agg_SideEffect m" "se_riskClass m = se_riskClass s"
    using run_side_effect by blast
  with run_step.hyps(3,4) have c: "rc_aggregate c = Agg_SideEffect m" by simp
  have edge: "se_status s' \<in> set (SIDE_EFFECT_TRANSITIONS (se_status m))"
    and to: "rc_toStatus c = name_in SE_STATUSES (se_status s')"
    using side_effect_step [OF run_step.hyps(4) c] by (metis runtime_aggregate.inject(3))+
  from reaches_commit_through_committing [OF edge run_step.prems(2)] show ?case
  proof
    assume "se_status s' = SE_committing"
    with committing_authorised [OF run_step.hyps(4) c] to m show ?thesis
      by (simp add: committing_name)
  next
    assume "se_status m \<in> {SE_committing, SE_committed}"
    with run_step.hyps(2) [OF m(1)] run_step.prems(1) show ?thesis by auto
  qed
qed auto

definition ex_proof :: artifact_ref where
  "ex_proof = \<lparr>ar_artifactId = ''p1'', ar_uri = ''artifact://p1'', ar_hash = None, ar_version = None, ar_kind = None,
     ar_mimeType = None, ar_sizeBytes = None, ar_createdAt = None, ar_checksum = None\<rparr>"

definition ex_side_effect :: side_effect_record where
  "ex_side_effect = createSideEffectRecord 0 ''s1''
     \<lparr>sei_harnessRunId = ''h1'', sei_nodeRunId = ''n1'', sei_nodeAttemptId = ''a1'',
      sei_effectKind = SK_external_api, sei_idempotencyKey = ''k1'', sei_riskClass = Risk_high,
      sei_preCommitPolicyProofRef = ex_proof, sei_sideEffectId = None, sei_status = None,
      sei_leaseId = None, sei_fencingToken = None, sei_approvalRef = None, sei_externalRef = None,
      sei_deadline = None, sei_rollbackHandler = None, sei_compensationPlan = None,
      sei_createdAt = None, sei_updatedAt = None, sei_version = None\<rparr>"

lemma ex_side_effect_accepts:
  assumes "se_status s = SE_proposed \<and> to = SE_approved \<or> se_status s = SE_approved \<and> to = SE_committing"
    and "se_leaseId s \<in> {None, Some ''l1''}" "se_fencingToken s \<in> {None, Some ''t1''}"
  shows "\<exists>e w' s'. transition (Some ex_persist) 7 ''e1'' ''ph''
             (ex_command (Agg_SideEffect s) (name_in SE_STATUSES to)) [] = Inr (Agg_SideEffect s', e, w')
           \<and> se_status s' = to \<and> se_leaseId s' = Some ''l1'' \<and> se_fencingToken s' = Some ''t1''
           \<and> se_riskClass s' = se_riskClass s"
proof -
  let ?c = "ex_command (Agg_SideEffect s) (name_in SE_STATUSES to)"
  have "transition_guards (Some ex_persist) ?c = Inr ()"
    using assms by (auto simp: transition_eval Let_def side_effect_table.name_inj)
  from transition_accepts [OF this, of "[]" 7 "''e1''" "''ph''"] show ?thesis
    by (auto simp: ex_persist_def applyStatus_def Let_def table_roundtrips)
qed

theorem side_effect_commit_safety_witness:
  "\<exists>cs s'. accepted_run (Some ex_persist) (Agg_SideEffect ex_side_effect) cs (Agg_SideEffect s')
     \<and> se_status s' = SE_committing \<and> (\<exists>c \<in> set cs. commit_authorised Risk_high c)"
proof -
  have s: "se_status ex_side_effect = SE_proposed" "se_leaseId ex_side_effect = None"
    "se_fencingToken ex_side_effect = None" "se_riskClass ex_side_effect = Risk_high"
    by (simp_all add: ex_side_effect_def createSideEffectRecord_def Let_def)
  let ?c = "\<lambda>s to. ex_command (Agg_SideEffect s) (name_in SE_STATUSES to)"
  obtain e1 w1 s1 where s1:
    "transition (Some ex_persist) 7 ''e1'' ''ph'' (?c ex_side_effect SE_approved) [] = Inr (Agg_SideEffect s1, e1, w1)"
    "se_status s1 = SE_approved" "se_leaseId s1 = Some ''l1''" "se_fencingToken s1 = Some ''t1''"
    using ex_side_effect_accepts [of ex_side_effect SE_approved] s by auto
  obtain e2 w2 s2 where s2:
    "transition (Some ex_persist) 7 ''e1'' ''ph'' (?c s1 SE_committing) [] = Inr (Agg_SideEffect s2, e2, w2)"
    "se_status s2 = SE_committing"
    using ex_side_effect_accepts [of s1 SE_committing] s1 by auto
  have run: "accepted_run (Some ex_persist) (Agg_SideEffect ex_side_effect)
      ([?c ex_side_effect SE_approved] @ [?c s1 SE_committing]) (Agg_SideEffect s2)"
    using run_step [OF run_single [OF s1(1)] _ s2(1)] by simp
  from side_effect_commit_safety [OF run s(1)] s2(2) s(4) have
    "\<exists>c \<in> set ([?c ex_side_effect SE_approved] @ [?c s1 SE_committing]). commit_authorised Risk_high c"
    by simp
  with run s2(2) show ?thesis by blast
qed

fun escape_target :: "runtime_aggregate \<Rightarrow> string" where
  "escape_target (Agg_HarnessRun a) = ''cancelled''"
| "escape_target (Agg_NodeRun a) = ''aborted''"
| "escape_target (Agg_SideEffect a) =
     (if se_status a = SE_confirmed then ''compensating'' else ''failed'')"
| "escape_target (Agg_BudgetLedger a) = ''closed''"
| "escape_target (Agg_BudgetReservation a) = ''released''"

fun agg_owner :: "runtime_aggregate \<Rightarrow> ident option \<times> ident option" where
  "agg_owner (Agg_NodeRun a) = (nr_leaseId a, nr_fencingToken a)"
| "agg_owner _ = (None, None)"

definition escape_command :: "runtime_aggregate \<Rightarrow> transition_command" where
  "escape_command a = (ex_command a (escape_target a))
     \<lparr>rc_leaseId := Some (coalesce (fst (agg_owner a)) ''l''),
      rc_fencingToken := Some (coalesce (snd (agg_owner a)) ''t'')\<rparr>"

lemma escape_allowed:
  assumes "\<not> agg_terminal a"
  shows "escape_target a \<in> set (coalesce (getTransitionTable (agg_type a) (agg_status a)) [])"
proof (cases a)
  case (Agg_HarnessRun x)
  with assms show ?thesis
    by (cases "hr_status x") (simp_all add: table_lookups, simp_all add: name_in_def HR_STATUSES_def)
next
  case (Agg_NodeRun x)
  with assms show ?thesis
    by (cases "nr_status x") (simp_all add: table_lookups, simp_all add: name_in_def NR_STATUSES_def)
next
  case (Agg_SideEffect x)
  with assms show ?thesis
    by (cases "se_status x") (simp_all add: table_lookups, simp_all add: name_in_def SE_STATUSES_def)
next
  case (Agg_BudgetLedger x)
  with assms show ?thesis
    by (cases "bl_status x") (simp_all add: table_lookups, simp_all add: name_in_def BL_STATUSES_def)
next
  case (Agg_BudgetReservation x)
  with assms show ?thesis
    by (cases "br_status x") (simp_all add: table_lookups, simp_all add: name_in_def BR_STATUSES_def)
qed

lemma table_no_loop: "agg_status a \<notin> set (coalesce (getTransitionTable (agg_type a) (agg_status a)) [])"
  by (cases a)
    (auto simp: table_lookups table_name_injs harness_table.no_self_loop node_table.no_self_loop
      side_effect_table.no_self_loop ledger_table.no_self_loop reservation_table.no_self_loop)

lemma escape_guards:
  assumes "\<not> agg_terminal a"
  shows "transition_guards (Some q) (escape_command a) = Inr ()"
proof -
  have "assertTransitionAllowed (agg_type a) (agg_status a) (escape_target a) = Inr ()"
    using escape_allowed [OF assms] table_no_loop [of a] by (auto simp: result_simps)
  then show ?thesis
    by (cases a) (auto simp: escape_command_def transition_guards_def assertStatusMatches_def
        assertCas_def cas_ok_def assertRunVersionLock_def assertPolicyGuard_def
        assertBudgetPrecondition_def assertSideEffectSafety_def assertAuditRef_def hasAuditRef_def
        assertEventPersistenceConfigured_def assertLeaseAndFencing_def mismatch_def
        rc_aggregateType_def ex_command_def js_trim_def js_white_def throw_if_def Let_def
        coalesce_def split: option.splits)
qed

text \<open>
  No aggregate is stuck: whatever its type and non-terminal status, some command is
  accepted on it when the persistence callback succeeds.
\<close>

theorem transition_not_stuck:
  assumes "\<not> agg_terminal a" and "\<And>e. \<exists>w'. q w e = Inr w'"
  shows "\<exists>c a' e w'. rc_aggregate c = a \<and> transition (Some q) now f h c w = Inr (a', e, w')"
proof -
  have "rc_aggregate (escape_command a) = a"
    by (simp add: escape_command_def)
  then show ?thesis
    using transition_accepts [OF escape_guards [OF assms(1), of q] assms(2), of now f h] by blast
qed

theorem transition_not_stuck_witness:
  "\<not> agg_terminal (Agg_SideEffect ex_side_effect) \<and>
   (\<exists>c a' e w'. rc_aggregate c = Agg_SideEffect ex_side_effect
      \<and> transition (Some ex_persist) 7 ''e1'' ''ph'' c [] = Inr (a', e, w'))"
proof -
  have "\<not> agg_terminal (Agg_SideEffect ex_side_effect)"
    by (simp add: ex_side_effect_def createSideEffectRecord_def Let_def)
  then show ?thesis
    using transition_not_stuck [of "Agg_SideEffect ex_side_effect" ex_persist "[]" 7 "''e1''" "''ph''"]
    by (simp add: ex_persist_def)
qed

text \<open>
  \<^verbatim>\<open>validateTransition\<close> is wrong on side effects: every side-effect record owns a
  \<^verbatim>\<open>nodeRunId\<close>, so it is taken for a node run and its moves are looked up in the node-run table.
  The first moves of every side effect (to \<^verbatim>\<open>approved\<close>, \<^verbatim>\<open>reserved\<close> or \<^verbatim>\<open>revoked\<close>) are reported as
  invalid although the side-effect table has them.
\<close>

theorem validateTransition_misjudges_side_effects:
  "inferAggregateType (Agg_SideEffect s) = AT_NodeRun
   \<and> (\<forall>to \<in> {''approved'', ''reserved'', ''revoked''}.
        \<not> validateTransition (Agg_SideEffect s) to ''proposed''
        \<and> assertTransitionAllowed AT_SideEffectRecord ''proposed'' to = Inr ())"
  by (simp add: validateTransition_def inferAggregateType_def result_simps string_table_def of_name_def
      NR_STATUSES_def SE_STATUSES_def name_in_def)

theorem validateTransition_misjudges_side_effects_witness:
  "\<not> validateTransition (Agg_SideEffect ex_side_effect) ''approved'' ''proposed''"
  using validateTransition_misjudges_side_effects [of ex_side_effect] by simp

end
