(* ===== verification/Budget_Allocator.thy ===== *)
theory Budget_Allocator
  imports Runtime_State_Machine
begin

text \<open>
  The budget allocator (\<^verbatim>\<open>src/src/platform/five-plane-execution/budget-allocator.ts\<close>): reservation
  against a ledger and its hierarchy, streaming increments, settlement, release, and the sweeper of
  expired reservations, over the two maps the class keeps (active reservations and in-memory ledger
  versions) and the collaborators it calls.

  The collaborators are parameters in the record \<open>alloc_env\<close>: the persistence callback of the state
  machine, the authoritative store's \<^verbatim>\<open>upsertWithCas\<close>, the settlement and release sinks, the atomic
  repository and the event callbacks, each a function on the outside world \<open>'w\<close>. A program's state is
  the allocator's maps together with that world, and what happened before a throw stays.
  \<open>newId k\<close> is the identifier that the operation's \<open>k\<close>-th call of \<^verbatim>\<open>newId\<close> returns.
  Finite amounts only: \<^verbatim>\<open>streamingIncrement\<close> does not reject NaN, which has no value here. The texts
  of alert messages are left out.
\<close>

section \<open>Configuration and context\<close>

record watermark_config =
  wc_softCapPercent :: rat
  wc_hardCapPercent :: rat
  wc_enabled :: bool

record cross_run_priority_config =
  cp_enabled :: bool
  cp_basePriority :: rat
  cp_ageWeight :: rat
  cp_riskWeight :: rat

record sweeper_config =
  sc_enabled :: bool
  sc_sweepIntervalMs :: int
  sc_clockSkewSafetyMarginMs :: int
  sc_maxExpiryAgeMs :: int

definition DEFAULT_WATERMARK_CONFIG :: watermark_config where
  "DEFAULT_WATERMARK_CONFIG = \<lparr>wc_softCapPercent = 8/10, wc_hardCapPercent = 95/100, wc_enabled = True\<rparr>"

definition DEFAULT_CROSS_RUN_PRIORITY :: cross_run_priority_config where
  "DEFAULT_CROSS_RUN_PRIORITY =
     \<lparr>cp_enabled = False, cp_basePriority = 0, cp_ageWeight = 1/2, cp_riskWeight = 1/2\<rparr>"

definition DEFAULT_SWEEPER_CONFIG :: sweeper_config where
  "DEFAULT_SWEEPER_CONFIG =
     \<lparr>sc_enabled = True, sc_sweepIntervalMs = 60000, sc_clockSkewSafetyMarginMs = 5000,
      sc_maxExpiryAgeMs = 300000\<rparr>"

record watermark_thresholds =
  wt_warning :: rat
  wt_critical :: rat
  wt_hardCap :: rat

record auto_throttle =
  at_enabled :: bool
  at_throttleRatio :: rat
  at_recoveryRatio :: rat

record allocator_context =
  ac_tenantId :: ident
  ac_traceId :: ident
  ac_emittedBy :: string
  ac_principal :: "string option"
  ac_fencingToken :: "ident option"
  ac_tier :: "string option"
  ac_tierLimit :: "rat option"
  ac_tierLimitCurrency :: "string option"
  ac_watermarkAlert :: "watermark_thresholds option"
  ac_autoThrottle :: "auto_throttle option"
  ac_streamingSettle :: "bool option"
  ac_recommendationSubjectId :: "ident option"
  ac_recommendationRegistry :: "(ident \<Rightarrow> rat \<Rightarrow> rat option) option"

datatype alert_kind = AK_warning | AK_critical | AK_hard_cap_reached

datatype budget_event =
    Watermark_alert ident ident "string option" alert_kind rat rat timestamp
  | Auto_throttle_engaged ident ident rat rat timestamp
  | Streaming_settle ident rat "string option"

record tracked_entry =
  te_reservation :: budget_reservation
  te_ledger :: budget_ledger
  te_context :: allocator_context

record alloc_state =
  as_activeReservations :: "(ident \<times> tracked_entry) list"
  as_ledgerVersions :: "ident \<Rightarrow> int option"

text \<open>The atomic repository answers with the new ledger, or with \<open>None\<close> when its CAS failed.\<close>

record 'w atomic_repository =
  ar_settleAtomically ::
    "budget_ledger \<Rightarrow> budget_reservation \<Rightarrow> rat \<Rightarrow> int \<Rightarrow> budget_settlement \<Rightarrow> 'w \<Rightarrow> budget_ledger option \<times> 'w"
  ar_releaseAtomically ::
    "budget_ledger \<Rightarrow> budget_reservation \<Rightarrow> int \<Rightarrow> budget_settlement \<Rightarrow> 'w \<Rightarrow> budget_ledger option \<times> 'w"

record 'w alloc_env =
  ae_persistEvent :: "'w persist_callback option"
  ae_watermarkConfig :: watermark_config
  ae_crossRunPriorityConfig :: cross_run_priority_config
  ae_sweeperConfig :: sweeper_config
  ae_settlementPersistence :: "(budget_settlement \<Rightarrow> 'w \<Rightarrow> 'w) option"
  ae_releasePersistence :: "(budget_settlement \<Rightarrow> 'w \<Rightarrow> 'w) option"
  ae_atomicRepository :: "'w atomic_repository option"
  ae_emit :: "budget_event \<Rightarrow> 'w \<Rightarrow> 'w"
  ae_upsertWithCas :: "(budget_ledger \<Rightarrow> int \<Rightarrow> 'w \<Rightarrow> bool \<times> 'w) option"

datatype budget_error =
    BE_contract contract_error
  | BE_runtime runtime_error
  | BE_ledger_version_cas_failed
  | BE_settlement_version_cas_failed
  | BE_release_version_cas_failed
  | BE_settle_hard_cap_not_satisfied
  | BE_streaming_invalid_amount
  | BE_settlement_sql_cas_failed
  | BE_release_sql_cas_failed
  | BE_invalid_db_time
  | BE_tier_limit_currency_mismatch

type_synonym ('w, 'a) alloc_prog = "(alloc_state \<times> 'w, budget_error, 'a) prog"

section \<open>Watermarks and priorities\<close>

datatype alert_level = AL_none | AL_warning | AL_critical

definition checkWatermarkAlert :: "watermark_config \<Rightarrow> budget_ledger \<Rightarrow> bool \<times> alert_level \<times> rat" where
  "checkWatermarkAlert cfg l =
     (if \<not> wc_enabled cfg then (False, AL_none, 0)
      else
        let usedAmount = bl_reservedAmount l + bl_settledAmount l;
            percentUsed = (if bl_hardCap l > 0 then usedAmount / bl_hardCap l else 0)
        in if percentUsed \<ge> wc_hardCapPercent cfg then (True, AL_critical, percentUsed)
           else if percentUsed \<ge> wc_softCapPercent cfg then (True, AL_warning, percentUsed)
           else (False, AL_none, percentUsed))"

definition calculateThrottleRatio :: "watermark_config \<Rightarrow> budget_ledger \<Rightarrow> rat" where
  "calculateThrottleRatio cfg l =
     (if \<not> wc_enabled cfg then 0
      else case fst (snd (checkWatermarkAlert cfg l)) of
             AL_critical \<Rightarrow> 1 | AL_warning \<Rightarrow> 1/2 | AL_none \<Rightarrow> 0)"

fun riskClassToScore :: "risk_class \<Rightarrow> rat" where
  "riskClassToScore Risk_low = 1/4"
| "riskClassToScore Risk_medium = 1/2"
| "riskClassToScore Risk_high = 3/4"
| "riskClassToScore Risk_critical = 1"

definition calculateCrossRunPriority ::
    "cross_run_priority_config \<Rightarrow> risk_class \<Rightarrow> rat \<Rightarrow> rat option \<Rightarrow> rat" where
  "calculateCrossRunPriority cfg risk waitingSinceMs basePriority =
     (if \<not> cp_enabled cfg then coalesce basePriority (cp_basePriority cfg)
      else cp_basePriority cfg + cp_ageWeight cfg * min (waitingSinceMs / 300000) 1
             + cp_riskWeight cfg * riskClassToScore risk)"

section \<open>Helpers\<close>

definition normalizeContext :: "allocator_context \<Rightarrow> allocator_context" where
  "normalizeContext c = c\<lparr>ac_principal := Some (coalesce (ac_principal c) (ac_emittedBy c))\<rparr>"

definition createDefaultContext :: "ident \<Rightarrow> allocator_context" where
  "createDefaultContext tenantId =
     \<lparr>ac_tenantId = tenantId, ac_traceId = ''trace:budget-default:'' @ tenantId,
      ac_emittedBy = ''budget-allocator'', ac_principal = Some ''budget-allocator'',
      ac_fencingToken = None, ac_tier = None, ac_tierLimit = None, ac_tierLimitCurrency = Some ''USD'',
      ac_watermarkAlert = None, ac_autoThrottle = None, ac_streamingSettle = None,
      ac_recommendationSubjectId = None, ac_recommendationRegistry = None\<rparr>"

definition shouldUseBudgetValidationErrors :: "allocator_context \<Rightarrow> bool" where
  "shouldUseBudgetValidationErrors c \<longleftrightarrow> ac_tier c \<noteq> None \<or> ac_fencingToken c \<noteq> None"

definition throwVersionCasError :: "budget_error \<Rightarrow> allocator_context \<Rightarrow> budget_error" where
  "throwVersionCasError e c =
     (if shouldUseBudgetValidationErrors c then e else BE_runtime Version_cas_failed)"

definition resolveTierLimit :: "budget_ledger \<Rightarrow> allocator_context \<Rightarrow> budget_error + rat" where
  "resolveTierLimit l c =
     bindE (throw_if
       (case ac_tierLimitCurrency c of
          None \<Rightarrow> False
        | Some cur \<Rightarrow> js_trim cur \<noteq> [] \<and> cur \<noteq> bl_currency l) BE_tier_limit_currency_mismatch) (\<lambda>_.
     let baseTierLimit = coalesce (ac_tierLimit c) (bl_hardCap l)
     in case (ac_recommendationRegistry c, ac_recommendationSubjectId c) of
          (Some reg, Some subj) \<Rightarrow>
            (case reg subj baseTierLimit of
               Some recommended \<Rightarrow> Inr (min baseTierLimit recommended)
             | None \<Rightarrow> Inr baseTierLimit)
        | _ \<Rightarrow> Inr baseTierLimit)"

definition settleLedger :: "budget_ledger \<Rightarrow> budget_reservation \<Rightarrow> rat \<Rightarrow> budget_ledger" where
  "settleLedger l r actual =
     l\<lparr>bl_reservedAmount := max 0 (bl_reservedAmount l - br_amount r),
       bl_settledAmount := bl_settledAmount l + actual,
       bl_releasedAmount := bl_releasedAmount l + max 0 (br_amount r - actual),
       bl_version := bl_version l + 1\<rparr>"

definition releaseLedger :: "budget_ledger \<Rightarrow> budget_reservation \<Rightarrow> budget_ledger" where
  "releaseLedger l r =
     l\<lparr>bl_reservedAmount := max 0 (bl_reservedAmount l - br_amount r),
       bl_releasedAmount := bl_releasedAmount l + br_amount r,
       bl_version := bl_version l + 1\<rparr>"

text \<open>\<^verbatim>\<open>a + n > b\<close> for a number that may not be finite.\<close>

definition sum_exceeds :: "rat \<Rightarrow> jsnum \<Rightarrow> rat \<Rightarrow> bool" where
  "sum_exceeds a n b = (case n of Fin q \<Rightarrow> a + q > b | PosInf \<Rightarrow> True | NegInf \<Rightarrow> False | NaN \<Rightarrow> False)"

section \<open>Ledger persistence\<close>

definition set_version :: "ident \<Rightarrow> int \<Rightarrow> ('w, unit) alloc_prog" where
  "set_version i v =
     modifyP (\<lambda>(st, w). (st\<lparr>as_ledgerVersions := (as_ledgerVersions st)(i \<mapsto> v)\<rparr>, w))"

definition assertInMemoryLedgerVersion :: "'w alloc_env \<Rightarrow> budget_ledger \<Rightarrow> int \<Rightarrow> ('w, unit) alloc_prog" where
  "assertInMemoryLedgerVersion env l expectedVersion =
     (if \<not> Option.is_none (ae_upsertWithCas env) \<or> \<not> Option.is_none (ae_atomicRepository env) then returnP ()
      else bindP (getsP (\<lambda>(st, w). coalesce (as_ledgerVersions st (bl_budgetLedgerId l)) (bl_version l)))
             (\<lambda>actualVersion. throwP_if (actualVersion \<noteq> expectedVersion) BE_ledger_version_cas_failed))"

definition persistLedger ::
    "'w alloc_env \<Rightarrow> budget_ledger \<Rightarrow> budget_ledger \<Rightarrow> int \<Rightarrow> ('w, unit) alloc_prog" where
  "persistLedger env before after expectedVersion =
     (case ae_upsertWithCas env of
        None \<Rightarrow>
          bindP (getsP (\<lambda>(st, w). coalesce (as_ledgerVersions st (bl_budgetLedgerId after)) (bl_version before)))
            (\<lambda>actualVersion.
              bindP (throwP_if (actualVersion \<noteq> expectedVersion) BE_ledger_version_cas_failed)
                (\<lambda>_. set_version (bl_budgetLedgerId after) (bl_version after)))
      | Some upsert \<Rightarrow>
          bindP (\<lambda>(st, w). let (ok, w') = upsert after expectedVersion w in (Inr ok, (st, w')))
            (\<lambda>ok. bindP (throwP_if (\<not> ok) BE_ledger_version_cas_failed)
                (\<lambda>_. set_version (bl_budgetLedgerId after) (bl_version after))))"

record ledger_persistence_entry =
  lp_before :: budget_ledger
  lp_after :: budget_ledger
  lp_expectedVersion :: int

fun persistLedgerBatch_loop ::
    "'w alloc_env \<Rightarrow> ledger_persistence_entry list \<Rightarrow> ledger_persistence_entry list \<Rightarrow> ('w, unit) alloc_prog" where
  "persistLedgerBatch_loop env persisted [] = returnP ()"
| "persistLedgerBatch_loop env persisted (entry # entries) =
     (\<lambda>s. case persistLedger env (lp_before entry) (lp_after entry) (lp_expectedVersion entry) s of
        (Inr _, s') \<Rightarrow> persistLedgerBatch_loop env (entry # persisted) entries s'
      | (Inl e, s') \<Rightarrow>
          (Inl e, snd (mapP (\<lambda>p. set_version (bl_budgetLedgerId (lp_before p)) (bl_version (lp_before p)))
                     (entry # persisted) s' :: (budget_error + unit list) \<times> (alloc_state \<times> 'w))))"

definition persistLedgerBatch :: "'w alloc_env \<Rightarrow> ledger_persistence_entry list \<Rightarrow> ('w, unit) alloc_prog" where
  "persistLedgerBatch env entries = persistLedgerBatch_loop env [] entries"

section \<open>Tracking and events\<close>

definition trackActiveReservation ::
    "budget_reservation \<Rightarrow> budget_ledger \<Rightarrow> allocator_context \<Rightarrow> ('w, unit) alloc_prog" where
  "trackActiveReservation r l c =
     modifyP (\<lambda>(st, w). (st\<lparr>as_activeReservations :=
       jsmap_set (br_budgetReservationId r) \<lparr>te_reservation = r, te_ledger = l, te_context = c\<rparr>
         (as_activeReservations st)\<rparr>, w))"

definition untrackActiveReservation :: "ident \<Rightarrow> ('w, unit) alloc_prog" where
  "untrackActiveReservation i =
     modifyP (\<lambda>(st, w). (st\<lparr>as_activeReservations := jsmap_delete i (as_activeReservations st)\<rparr>, w))"

definition getActiveReservations :: "alloc_state \<Rightarrow> budget_reservation list" where
  "getActiveReservations st = map (\<lambda>(_, e). te_reservation e) (as_activeReservations st)"

definition emitEvent :: "'w alloc_env \<Rightarrow> budget_event \<Rightarrow> ('w, unit) alloc_prog" where
  "emitEvent env e = modifyP (\<lambda>(st, w). (st, ae_emit env e w))"

definition emitReserveSideEffects ::
    "'w alloc_env \<Rightarrow> timestamp \<Rightarrow> budget_ledger \<Rightarrow> rat \<Rightarrow> allocator_context \<Rightarrow> ('w, unit) alloc_prog" where
  "emitReserveSideEffects env now l amount c =
     (let thresholds = coalesce (ac_watermarkAlert c)
            \<lparr>wt_warning = wc_softCapPercent (ae_watermarkConfig env),
             wt_critical = wc_hardCapPercent (ae_watermarkConfig env), wt_hardCap = 1\<rparr>;
          utilizationRatio =
            (if bl_hardCap l > 0
             then (bl_reservedAmount l + bl_settledAmount l - bl_releasedAmount l) / bl_hardCap l
             else 0);
          alertKind =
            (if utilizationRatio \<ge> wt_hardCap thresholds then Some (AK_hard_cap_reached, wt_hardCap thresholds)
             else if utilizationRatio \<ge> wt_critical thresholds then Some (AK_critical, wt_critical thresholds)
             else if utilizationRatio \<ge> wt_warning thresholds then Some (AK_warning, wt_warning thresholds)
             else None)
      in bindP (case alertKind of
                  None \<Rightarrow> returnP ()
                | Some (k, ratio) \<Rightarrow>
                    emitEvent env (Watermark_alert (bl_budgetLedgerId l) (ac_tenantId c) (ac_tier c) k
                                     utilizationRatio ratio now)) (\<lambda>_.
         bindP (case ac_autoThrottle c of
                  Some t \<Rightarrow>
                    if at_enabled t \<and> utilizationRatio \<ge> wt_warning thresholds
                    then emitEvent env (Auto_throttle_engaged (bl_budgetLedgerId l) (ac_tenantId c)
                                          utilizationRatio (at_throttleRatio t) now)
                    else returnP ()
                | None \<Rightarrow> returnP ()) (\<lambda>_.
         if ac_streamingSettle c = Some True
         then emitEvent env (Streaming_settle (bl_budgetLedgerId l) amount (ac_tier c))
         else returnP ())))"

definition rsm_transition ::
    "'w alloc_env \<Rightarrow> timestamp \<Rightarrow> ident \<Rightarrow> string \<Rightarrow> transition_command \<Rightarrow>
     ('w, runtime_aggregate \<times> fact_event) alloc_prog" where
  "rsm_transition env now freshEvt freshHash c =
     (\<lambda>(st, w). case transition (ae_persistEvent env) now freshEvt freshHash c w of
        Inl e \<Rightarrow> (Inl (BE_runtime e), (st, w))
      | Inr (a, e, w') \<Rightarrow> (Inr (a, e), (st, w')))"

definition emitLedgerFact ::
    "'w alloc_env \<Rightarrow> timestamp \<Rightarrow> ident \<Rightarrow> string \<Rightarrow> budget_ledger \<Rightarrow> budget_ledger \<Rightarrow> string \<Rightarrow>
     allocator_context \<Rightarrow> ('w, unit) alloc_prog" where
  "emitLedgerFact env now freshEvt freshHash before after reasonCode c =
     (\<lambda>(st, w).
        case bindE (lift_contract (createPlatformFactEvent now freshEvt freshHash
          \<lparr>ei_eventType = ''platform.budget_ledger.status_changed'',
           ei_aggregateType = ''BudgetLedger'', ei_aggregateId = bl_budgetLedgerId after,
           ei_aggregateSeq = bl_version after, ei_tenantId = ac_tenantId c,
           ei_runId = Some (bl_harnessRunId after), ei_traceId = ac_traceId c,
           ei_payload =
             \<lparr>tp_aggregateType = ''BudgetLedger'',
              tp_fromStatus = name_in BL_STATUSES (bl_status before),
              tp_toStatus = name_in BL_STATUSES (bl_status after),
              tp_reasonCode = reasonCode, tp_emittedBy = ac_emittedBy c,
              tp_runVersionLockId = None, tp_policyGuard = None, tp_budgetPrecondition = None,
              tp_sideEffectSafety = None, tp_auditRef = None\<rparr>,
           ei_source = None, ei_eventId = None, ei_schemaVersion = None, ei_causationId = None,
           ei_correlationId = None, ei_payloadHash = None, ei_replayBehavior = None,
           ei_schemaOwner = None, ei_consumerContractTests = None, ei_occurredAt = None,
           ei_derivedFromEventIds = []\<rparr>))
          (\<lambda>event. emitFactEvent (ae_persistEvent env) event w) of
          Inl e \<Rightarrow> (Inl (BE_runtime e), (st, w))
        | Inr w' \<Rightarrow> (Inr (), (st, w')))"

section \<open>Reserve and streaming increment\<close>

record alloc_reserve_input =
  ar_ledger :: budget_ledger
  ar_amount :: jsnum
  ar_resourceKind :: budget_resource_kind
  ar_expiresAt :: timestamp
  ar_expectedVersion :: int
  ar_nodeRunId :: "ident option"
  ar_hierarchyLedgers :: "(budget_ledger \<times> int) list option"
  ar_context :: "allocator_context option"

definition liftC :: "contract_error + 'a \<Rightarrow> ('w, 'a) alloc_prog" where
  "liftC r = liftP (case r of Inl e \<Rightarrow> Inl (BE_contract e) | Inr x \<Rightarrow> Inr x)"

definition hard_cap_input :: "alloc_reserve_input \<Rightarrow> budget_ledger \<Rightarrow> int \<Rightarrow> reserve_input" where
  "hard_cap_input i l expectedVersion =
     \<lparr>ri_ledger = l, ri_amount = ar_amount i, ri_resourceKind = ar_resourceKind i,
      ri_expiresAt = ar_expiresAt i, ri_expectedVersion = expectedVersion,
      ri_nodeRunId = ar_nodeRunId i, ri_createdAt = None\<rparr>"

definition finite_part :: "jsnum \<Rightarrow> rat" where
  "finite_part n = (case n of Fin q \<Rightarrow> q | _ \<Rightarrow> 0)"

definition reserve ::
    "'w alloc_env \<Rightarrow> timestamp \<Rightarrow> (nat \<Rightarrow> ident) \<Rightarrow> alloc_reserve_input \<Rightarrow>
     ('w, budget_ledger \<times> budget_reservation \<times> budget_ledger list option) alloc_prog" where
  "reserve env now newId i =
     (let context = coalesce (ar_context i) (createDefaultContext (bl_tenantId (ar_ledger i))) in
      bindP (assertInMemoryLedgerVersion env (ar_ledger i) (ar_expectedVersion i)) (\<lambda>_.
      bindP (liftP (resolveTierLimit (ar_ledger i) context)) (\<lambda>tierLimit.
      bindP (throwP_if (sum_exceeds (activeCommittedAmount (ar_ledger i)) (ar_amount i) tierLimit)
               (BE_contract Budget_reservation_hard_cap_exceeded)) (\<lambda>_.
      bindP (liftC (reserveBudgetHardCap now (newId 0)
               (hard_cap_input i (ar_ledger i) (ar_expectedVersion i)))) (\<lambda>(ledger, reservation).
      bindP (mapP (\<lambda>(l, expectedVersion).
               bindP (liftC (reserveBudgetHardCap now (newId 1) (hard_cap_input i l expectedVersion)))
                 (\<lambda>(after, _). returnP \<lparr>lp_before = l, lp_after = after,
                                         lp_expectedVersion = expectedVersion\<rparr>))
               (coalesce (ar_hierarchyLedgers i) [])) (\<lambda>hierarchyReservations.
      bindP (persistLedgerBatch env
               (hierarchyReservations @ [\<lparr>lp_before = ar_ledger i, lp_after = ledger,
                                          lp_expectedVersion = ar_expectedVersion i\<rparr>])) (\<lambda>_.
      bindP (trackActiveReservation reservation ledger context) (\<lambda>_.
      bindP (emitReserveSideEffects env now ledger (finite_part (ar_amount i)) context) (\<lambda>_.
      returnP (ledger, reservation,
        map_option (\<lambda>_. map lp_after hierarchyReservations) (ar_hierarchyLedgers i)))))))))))"

definition streamingIncrement ::
    "'w alloc_env \<Rightarrow> timestamp \<Rightarrow> budget_ledger \<Rightarrow> budget_reservation \<Rightarrow> rat \<Rightarrow> allocator_context \<Rightarrow>
     ('w, budget_ledger \<times> budget_reservation) alloc_prog" where
  "streamingIncrement env now l r additionalAmount c =
     bindP (throwP_if (additionalAmount \<le> 0) BE_streaming_invalid_amount) (\<lambda>_.
     bindP (liftP (resolveTierLimit l c)) (\<lambda>tierLimit.
     bindP (throwP_if (activeCommittedAmount l + additionalAmount > tierLimit)
              (BE_contract Budget_reservation_hard_cap_exceeded)) (\<lambda>_.
     let updatedReservation =
           r\<lparr>br_amount := br_amount r + additionalAmount, br_version := br_version r + 1,
             br_updatedAt := Some now\<rparr>;
         updatedLedger =
           l\<lparr>bl_reservedAmount := bl_reservedAmount l + additionalAmount,
             bl_version := bl_version l + 1\<rparr>
     in bindP (persistLedger env l updatedLedger (bl_version l)) (\<lambda>_.
        bindP (trackActiveReservation updatedReservation updatedLedger c) (\<lambda>_.
        bindP (emitReserveSideEffects env now updatedLedger additionalAmount c) (\<lambda>_.
        returnP (updatedLedger, updatedReservation)))))))"

section \<open>Settle and release\<close>

definition reservation_command ::
    "budget_reservation \<Rightarrow> ident \<Rightarrow> string \<Rightarrow> string \<Rightarrow> string \<Rightarrow> budget_precondition option \<Rightarrow>
     timestamp option \<Rightarrow> allocator_context \<Rightarrow> transition_command" where
  "reservation_command r commandId toStatus reasonCode auditSuffix precondition occurredAt c =
     \<lparr>rc_commandId = commandId, rc_aggregate = Agg_BudgetReservation r,
      rc_fromStatus = name_in BR_STATUSES (br_status r), rc_toStatus = toStatus,
      rc_principal = coalesce (ac_principal c) [], rc_expectedSeq = None, rc_expectedVersion = None,
      rc_leaseId = None, rc_fencingToken = None, rc_traceId = ac_traceId c,
      rc_tenantId = ac_tenantId c, rc_reasonCode = reasonCode, rc_emittedBy = ac_emittedBy c,
      rc_runVersionLockId = None, rc_policyGuard = None, rc_budgetPrecondition = precondition,
      rc_sideEffectSafety = None,
      rc_auditRef = Some (''audit://budget-reservations/'' @ br_budgetReservationId r @ auditSuffix),
      rc_occurredAt = occurredAt\<rparr>"

record settle_input =
  si_ledger :: budget_ledger
  si_reservation :: budget_reservation
  si_actualAmount :: jsnum
  si_expectedVersion :: "int option"
  si_evidenceRefs :: "string list option"
  si_hierarchyLedgers :: "(budget_ledger \<times> int) list option"
  si_context :: allocator_context

record settlement_result =
  sr_reservation :: "runtime_aggregate \<times> fact_event"
  sr_settlement :: budget_settlement
  sr_ledger :: budget_ledger
  sr_overspendDetected :: bool
  sr_overspendAmount :: rat
  sr_hierarchyLedgers :: "budget_ledger list option"

definition settle_command ::
    "budget_reservation \<Rightarrow> ident \<Rightarrow> bool \<Rightarrow> allocator_context \<Rightarrow> transition_command" where
  "settle_command r commandId hardCapSatisfied c =
     reservation_command r commandId ''settled'' ''budget.settled'' ''/settle''
       (Some \<lparr>bp_reservationId = br_budgetReservationId r, bp_hardCapSatisfied = hardCapSatisfied\<rparr>)
       None c"

definition settleAtomically ::
    "'w alloc_env \<Rightarrow> 'w atomic_repository \<Rightarrow> timestamp \<Rightarrow> (nat \<Rightarrow> ident) \<Rightarrow> settle_input \<Rightarrow> rat \<Rightarrow>
     budget_settlement \<Rightarrow> int \<Rightarrow> allocator_context \<Rightarrow> ('w, settlement_result) alloc_prog" where
  "settleAtomically env repo now newId i actual settlement expectedVersion c =
     (let l = si_ledger i; r = si_reservation i; overspend = max 0 (actual - br_amount r) in
      bindP (\<lambda>(st, w). let (res, w') = ar_settleAtomically repo l r actual expectedVersion settlement w
                       in (case res of None \<Rightarrow> Inl BE_settlement_sql_cas_failed | Some l' \<Rightarrow> Inr l', (st, w')))
        (\<lambda>ledger.
      bindP (untrackActiveReservation (br_budgetReservationId r)) (\<lambda>_.
      bindP (rsm_transition env now (newId 2) (newId 3)
               (settle_command r (newId 1)
                  (br_status r = BR_reserved \<and> bl_settledAmount l + actual \<le> bl_hardCap l) c)) (\<lambda>reservation.
      bindP (emitLedgerFact env now (newId 4) (newId 5) l ledger ''budget.settled'' c) (\<lambda>_.
      returnP \<lparr>sr_reservation = reservation, sr_settlement = settlement, sr_ledger = ledger,
               sr_overspendDetected = (overspend > 0), sr_overspendAmount = overspend,
               sr_hierarchyLedgers = None\<rparr>)))))"

definition persistHierarchy ::
    "'w alloc_env \<Rightarrow> (budget_ledger \<Rightarrow> budget_ledger) \<Rightarrow> (budget_ledger \<times> int) list option \<Rightarrow>
     ('w, budget_ledger list option) alloc_prog" where
  "persistHierarchy env upd h =
     (case h of
        None \<Rightarrow> returnP None
      | Some es \<Rightarrow>
          bindP (mapP (\<lambda>(l, expectedVersion).
                   bindP (persistLedger env l (upd l) expectedVersion) (\<lambda>_. returnP (upd l))) es)
            (\<lambda>ls. returnP (Some ls)))"

definition settle ::
    "'w alloc_env \<Rightarrow> timestamp \<Rightarrow> (nat \<Rightarrow> ident) \<Rightarrow> settle_input \<Rightarrow> ('w, settlement_result) alloc_prog" where
  "settle env now newId i =
     (let l = si_ledger i; r = si_reservation i;
          expectedVersion = coalesce (si_expectedVersion i) (bl_version l);
          context = normalizeContext (si_context i);
          remaining = max 0 (bl_reservedAmount l - br_amount r) + bl_settledAmount l
      in
      bindP (throwP_if (bl_version l \<noteq> expectedVersion)
               (throwVersionCasError BE_settlement_version_cas_failed (si_context i))) (\<lambda>_.
      bindP (assertInMemoryLedgerVersion env l expectedVersion) (\<lambda>_.
      bindP (throwP_if (sum_exceeds remaining (si_actualAmount i) (bl_hardCap l)
                        \<and> shouldUseBudgetValidationErrors (si_context i))
               BE_settle_hard_cap_not_satisfied) (\<lambda>_.
      bindP (liftC (createBudgetSettlement now (newId 0)
               \<lparr>bsi_budgetReservationId = Some (br_budgetReservationId r), bsi_reservation = None,
                bsi_actualAmount = si_actualAmount i, bsi_settlementKind = Some SK_final,
                bsi_budgetSettlementId = None, bsi_settlementId = None,
                bsi_evidenceRefs = Some (coalesce (si_evidenceRefs i) []), bsi_createdAt = None\<rparr>)) (\<lambda>settlement.
      let actual = bs_actualAmount settlement; overspend = max 0 (actual - br_amount r) in
      case ae_atomicRepository env of
        Some repo \<Rightarrow> settleAtomically env repo now newId i actual settlement expectedVersion context
      | None \<Rightarrow>
          bindP (rsm_transition env now (newId 2) (newId 3)
                   (settle_command r (newId 1)
                      (br_status r = BR_reserved \<and> remaining + actual \<le> bl_hardCap l) context)) (\<lambda>reservationResult.
          bindP (untrackActiveReservation (br_budgetReservationId r)) (\<lambda>_.
          let ledger = settleLedger l r actual in
          bindP (persistHierarchy env (\<lambda>e. settleLedger e r actual) (si_hierarchyLedgers i)) (\<lambda>hierarchyLedgers.
          bindP (persistLedger env l ledger expectedVersion) (\<lambda>_.
          bindP (case ae_settlementPersistence env of
                   None \<Rightarrow> returnP ()
                 | Some p \<Rightarrow> modifyP (\<lambda>(st, w). (st, p settlement w))) (\<lambda>_.
          bindP (emitLedgerFact env now (newId 4) (newId 5) l ledger ''budget.settled'' context) (\<lambda>_.
          returnP \<lparr>sr_reservation = reservationResult, sr_settlement = settlement, sr_ledger = ledger,
                   sr_overspendDetected = (overspend > 0), sr_overspendAmount = overspend,
                   sr_hierarchyLedgers = hierarchyLedgers\<rparr>)))))))))))"

record release_input =
  rli_ledger :: budget_ledger
  rli_reservation :: budget_reservation
  rli_expectedVersion :: "int option"
  rli_reasonCode :: "string option"
  rli_hierarchyLedgers :: "(budget_ledger \<times> int) list option"
  rli_context :: allocator_context

definition release_settlement :: "timestamp \<Rightarrow> ident \<Rightarrow> budget_reservation \<Rightarrow> contract_error + budget_settlement" where
  "release_settlement now freshId r =
     createBudgetSettlement now freshId
       \<lparr>bsi_budgetReservationId = Some (br_budgetReservationId r), bsi_reservation = None,
        bsi_actualAmount = Fin 0, bsi_settlementKind = Some SK_release_unused,
        bsi_budgetSettlementId = None, bsi_settlementId = None,
        bsi_evidenceRefs = None, bsi_createdAt = None\<rparr>"

definition persistRelease :: "'w alloc_env \<Rightarrow> budget_settlement \<Rightarrow> ('w, unit) alloc_prog" where
  "persistRelease env settlement =
     (case ae_releasePersistence env of
        None \<Rightarrow> returnP ()
      | Some p \<Rightarrow> modifyP (\<lambda>(st, w). (st, p settlement w)))"

definition release_command ::
    "budget_reservation \<Rightarrow> ident \<Rightarrow> string \<Rightarrow> timestamp option \<Rightarrow> allocator_context \<Rightarrow> transition_command" where
  "release_command r commandId reasonCode occurredAt c =
     reservation_command r commandId ''released'' reasonCode ''/release'' None occurredAt c"

type_synonym release_result =
  "(runtime_aggregate \<times> fact_event) \<times> budget_settlement \<times> budget_ledger \<times> budget_ledger list option"

definition releaseAtomically ::
    "'w alloc_env \<Rightarrow> 'w atomic_repository \<Rightarrow> timestamp \<Rightarrow> (nat \<Rightarrow> ident) \<Rightarrow> release_input \<Rightarrow> string \<Rightarrow>
     budget_settlement \<Rightarrow> int \<Rightarrow> allocator_context \<Rightarrow> ('w, release_result) alloc_prog" where
  "releaseAtomically env repo now newId i reason settlement expectedVersion c =
     (let l = rli_ledger i; r = rli_reservation i in
      bindP (\<lambda>(st, w). let (res, w') = ar_releaseAtomically repo l r expectedVersion settlement w
                       in (case res of None \<Rightarrow> Inl BE_release_sql_cas_failed | Some l' \<Rightarrow> Inr l', (st, w')))
        (\<lambda>ledger.
      bindP (untrackActiveReservation (br_budgetReservationId r)) (\<lambda>_.
      bindP (rsm_transition env now (newId 2) (newId 3) (release_command r (newId 1) reason None c)) (\<lambda>reservation.
      bindP (emitLedgerFact env now (newId 4) (newId 5) l ledger reason c) (\<lambda>_.
      returnP (reservation, settlement, ledger, None))))))"

definition release ::
    "'w alloc_env \<Rightarrow> timestamp \<Rightarrow> (nat \<Rightarrow> ident) \<Rightarrow> release_input \<Rightarrow> ('w, release_result) alloc_prog" where
  "release env now newId i =
     (let l = rli_ledger i; r = rli_reservation i;
          expectedVersion = coalesce (rli_expectedVersion i) (bl_version l);
          reason = coalesce (rli_reasonCode i) ''budget.released_without_execution''
      in
      bindP (throwP_if (bl_version l \<noteq> expectedVersion)
               (throwVersionCasError BE_release_version_cas_failed (rli_context i))) (\<lambda>_.
      bindP (assertInMemoryLedgerVersion env l expectedVersion) (\<lambda>_.
      let context = normalizeContext (rli_context i) in
      bindP (liftC (release_settlement now (newId 0) r)) (\<lambda>settlement.
      case ae_atomicRepository env of
        Some repo \<Rightarrow> releaseAtomically env repo now newId i reason settlement expectedVersion context
      | None \<Rightarrow>
          bindP (persistRelease env settlement) (\<lambda>_.
          bindP (rsm_transition env now (newId 2) (newId 3) (release_command r (newId 1) reason None context)) (\<lambda>reservation.
          bindP (untrackActiveReservation (br_budgetReservationId r)) (\<lambda>_.
          let ledger = releaseLedger l r in
          bindP (persistHierarchy env (\<lambda>e. releaseLedger e r) (rli_hierarchyLedgers i)) (\<lambda>hierarchyLedgers.
          bindP (persistLedger env l ledger expectedVersion) (\<lambda>_.
          bindP (emitLedgerFact env now (newId 4) (newId 5) l ledger reason context) (\<lambda>_.
          returnP (reservation, settlement, ledger, hierarchyLedgers)))))))))))"

section \<open>The sweeper\<close>

definition hasReservationExpired :: "timestamp \<Rightarrow> timestamp \<Rightarrow> int \<Rightarrow> bool" where
  "hasReservationExpired expiresAt dbNow clockSkewSafetyMarginMs \<longleftrightarrow>
     expiresAt + clockSkewSafetyMarginMs \<le> dbNow"

definition releaseTrackedReservation ::
    "'w alloc_env \<Rightarrow> timestamp \<Rightarrow> (nat \<Rightarrow> ident) \<Rightarrow> tracked_entry \<Rightarrow> string \<Rightarrow> timestamp \<Rightarrow> ('w, unit) alloc_prog" where
  "releaseTrackedReservation env now newId entry reasonCode occurredAt =
     (let r = te_reservation entry; l = te_ledger entry; context = normalizeContext (te_context entry) in
      bindP (liftC (release_settlement now (newId 0) r)) (\<lambda>settlement.
      bindP (persistRelease env settlement) (\<lambda>_.
      bindP (rsm_transition env now (newId 2) (newId 3)
               (release_command r (newId 1) reasonCode (Some occurredAt) context)) (\<lambda>_.
      let ledger = releaseLedger l r in
      bindP (persistLedger env l ledger (bl_version l)) (\<lambda>_.
      bindP (untrackActiveReservation (br_budgetReservationId r)) (\<lambda>_.
      emitLedgerFact env now (newId 4) (newId 5) l ledger reasonCode context))))))"

text \<open>
  The loop over the snapshot; the test that the map still holds the snapshot's entry compares
  object identity, here the entry itself.
\<close>

fun sweep_loop ::
    "'w alloc_env \<Rightarrow> timestamp \<Rightarrow> (nat \<Rightarrow> ident) \<Rightarrow> ident list \<Rightarrow> timestamp \<Rightarrow> (ident \<times> tracked_entry) list \<Rightarrow>
     ident list \<Rightarrow> ('w, ident list) alloc_prog" where
  "sweep_loop env now newId activeRunIds dbNow [] acc = returnP acc"
| "sweep_loop env now newId activeRunIds dbNow ((reservationId, entry) # rest) acc =
     bindP (getsP (\<lambda>(st, w). map_of (as_activeReservations st) reservationId)) (\<lambda>current.
     if current \<noteq> Some entry then sweep_loop env now newId activeRunIds dbNow rest acc
     else if br_status (te_reservation entry) \<noteq> BR_reserved
     then bindP (untrackActiveReservation reservationId)
            (\<lambda>_. sweep_loop env now newId activeRunIds dbNow rest acc)
     else if br_harnessRunId (te_reservation entry) \<in> set activeRunIds
     then sweep_loop env now newId activeRunIds dbNow rest acc
     else if \<not> hasReservationExpired (br_expiresAt (te_reservation entry)) dbNow
                (sc_clockSkewSafetyMarginMs (ae_sweeperConfig env))
     then sweep_loop env now newId activeRunIds dbNow rest acc
     else bindP (releaseTrackedReservation env now newId entry ''budget.released_orphaned_reservation'' dbNow)
            (\<lambda>_. sweep_loop env now (\<lambda>k. newId (k + 6)) activeRunIds dbNow rest (acc @ [reservationId])))"

definition sweepExpiredReservations ::
    "'w alloc_env \<Rightarrow> timestamp \<Rightarrow> (nat \<Rightarrow> ident) \<Rightarrow> ident list \<Rightarrow> timestamp option \<Rightarrow>
     ('w, ident list \<times> ident list \<times> nat) alloc_prog" where
  "sweepExpiredReservations env now newId activeRunIds dbTime =
     (case dbTime of
        None \<Rightarrow> throwP BE_invalid_db_time
      | Some dbNow \<Rightarrow>
          bindP (getsP (\<lambda>(st, w). as_activeReservations st)) (\<lambda>snapshot.
          bindP (sweep_loop env now newId activeRunIds dbNow snapshot []) (\<lambda>ids.
          returnP (ids, ids, length ids))))"

section \<open>What the operations do to a ledger\<close>

lemma activeCommittedAmount_release:
  assumes "br_amount r \<le> bl_reservedAmount l"
  shows "activeCommittedAmount (releaseLedger l r) = activeCommittedAmount l - 2 * br_amount r"
  using assms by (simp add: activeCommittedAmount_def releaseLedger_def)

lemma activeCommittedAmount_settle:
  assumes "br_amount r \<le> bl_reservedAmount l" and "actual \<le> br_amount r"
  shows "activeCommittedAmount (settleLedger l r actual) = activeCommittedAmount l - 2 * (br_amount r - actual)"
  using assms by (simp add: activeCommittedAmount_def settleLedger_def)

lemma liftC_ok [simp]: "liftC r s = (Inr x, t) \<longleftrightarrow> r = Inr x \<and> t = s"
  by (auto simp: liftC_def prog_simps split: sum.splits)

lemma rsm_transition_ok:
  "rsm_transition env now f h c (st, w) = (Inr (a, e), t) \<longleftrightarrow>
     (\<exists>w'. transition (ae_persistEvent env) now f h c w = Inr (a, e, w') \<and> t = (st, w'))"
  by (auto simp: rsm_transition_def split: sum.splits)

lemma reserve_success:
  assumes "reserve env now newId i s = (Inr (l', r, hs), s')"
  obtains a limit where "ar_amount i = Fin a" "0 < a"
    "resolveTierLimit (ar_ledger i) (coalesce (ar_context i) (createDefaultContext (bl_tenantId (ar_ledger i)))) = Inr limit"
    "activeCommittedAmount (ar_ledger i) + a \<le> limit"
    "reserveBudgetHardCap now (newId 0) (hard_cap_input i (ar_ledger i) (ar_expectedVersion i)) = Inr (l', r)"
proof -
  from assms obtain limit where
    limit: "resolveTierLimit (ar_ledger i) (coalesce (ar_context i) (createDefaultContext (bl_tenantId (ar_ledger i)))) = Inr limit"
    and le: "\<not> sum_exceeds (activeCommittedAmount (ar_ledger i)) (ar_amount i) limit"
    and cap: "reserveBudgetHardCap now (newId 0) (hard_cap_input i (ar_ledger i) (ar_expectedVersion i)) = Inr (l', r)"
    by (auto simp: reserve_def Let_def prog_ok)
  from cap obtain a where "ar_amount i = Fin a" "0 < a"
    by (rule reserveBudgetHardCap_success) (simp add: hard_cap_input_def)
  with limit le cap show thesis
    by (intro that) (auto simp: sum_exceeds_def not_less)
qed

lemma settle_success:
  assumes "settle env now newId i s = (Inr res, s')" and "ae_atomicRepository env = None"
  obtains actual w f h cm e w' where "si_actualAmount i = Fin actual" "0 \<le> actual"
    "sr_ledger res = settleLedger (si_ledger i) (si_reservation i) actual"
    "transition (ae_persistEvent env) now f h
       (settle_command (si_reservation i) cm
         (br_status (si_reservation i) = BR_reserved
          \<and> max 0 (bl_reservedAmount (si_ledger i) - br_amount (si_reservation i))
              + bl_settledAmount (si_ledger i) + actual \<le> bl_hardCap (si_ledger i))
         (normalizeContext (si_context i))) w = Inr (fst (sr_reservation res), e, w')"
  using assms
  by (cases s)
    (auto simp: settle_def Let_def prog_ok rsm_transition_ok createBudgetSettlement_def result_simps)

lemma settle_precondition:
  assumes "transition p now f h (settle_command r cm ok c) w = Inr (a, e, w')"
  shows "ok" "br_status r = BR_reserved"
    "\<exists>r'. a = Agg_BudgetReservation r' \<and> br_status r' = BR_settled \<and> br_version r' = br_version r + 1"
proof -
  let ?c = "settle_command r cm ok c"
  have guards: "transition_guards p ?c = Inr ()"
    using transition_accepted(1) [OF assms] .
  then show ok
    by (simp add: transition_guards_def result_simps assertBudgetPrecondition_def
        settle_command_def reservation_command_def)
  have agg: "rc_aggregate ?c = Agg_BudgetReservation r"
    by (simp add: settle_command_def reservation_command_def)
  obtain r' where r': "a = Agg_BudgetReservation r'" "br_version r' = br_version r + 1"
    using transition_accepted(2) [OF assms] agg by (simp add: applyStatus_def Let_def)
  have "br_status r' \<in> set (BUDGET_RESERVATION_TRANSITIONS (br_status r))"
    "name_in BR_STATUSES (br_status r') = ''settled''"
    using transition_life_cycle [OF assms] r' agg
    by (simp_all add: settle_command_def reservation_command_def)
  then show "br_status r = BR_reserved" and
    "\<exists>r'. a = Agg_BudgetReservation r' \<and> br_status r' = BR_settled \<and> br_version r' = br_version r + 1"
    using r' by (cases "br_status r"; auto simp: name_in_def BR_STATUSES_def)+
qed

lemma streamingIncrement_success:
  assumes "streamingIncrement env now l r a c s = (Inr (l', r'), s')"
  obtains limit where "0 < a" "resolveTierLimit l c = Inr limit" "activeCommittedAmount l + a \<le> limit"
    "l' = l\<lparr>bl_reservedAmount := bl_reservedAmount l + a, bl_version := bl_version l + 1\<rparr>"
    "br_amount r' = br_amount r + a"
  using assms
  by (auto simp: streamingIncrement_def Let_def prog_ok not_less not_le)

lemma release_success:
  assumes "release env now newId i s = (Inr (res, st, l', hs), s')" and "ae_atomicRepository env = None"
  shows "l' = releaseLedger (rli_ledger i) (rli_reservation i)"
  using assms by (auto simp: release_def Let_def prog_ok)

lemma resolveTierLimit_le:
  assumes "resolveTierLimit l c = Inr limit"
  shows "limit \<le> coalesce (ac_tierLimit c) (bl_hardCap l)"
  using assms by (auto simp: resolveTierLimit_def result_simps Let_def split: option.splits)

section \<open>Ledger histories\<close>

text \<open>
  The states a ledger goes through when successful operations of an allocator without an atomic
  repository are applied to it one after the other, where the increments present tier limits of at
  most \<open>B\<close> and the reservations that are settled or released are not for negative amounts.
\<close>

definition tier_limit_within :: "rat \<Rightarrow> allocator_context \<Rightarrow> bool" where
  "tier_limit_within B c = (case ac_tierLimit c of None \<Rightarrow> True | Some limit \<Rightarrow> limit \<le> B)"

inductive ledger_history :: "'w alloc_env \<Rightarrow> rat \<Rightarrow> budget_ledger \<Rightarrow> budget_ledger \<Rightarrow> bool" for env B where
  lh_start: "ledger_history env B l l"
| lh_reserve: "\<lbrakk>ledger_history env B l0 l; ar_ledger i = l;
    reserve env now newId i s = (Inr (l', r, hs), s')\<rbrakk> \<Longrightarrow> ledger_history env B l0 l'"
| lh_streaming: "\<lbrakk>ledger_history env B l0 l; tier_limit_within B c;
    streamingIncrement env now l r a c s = (Inr (l', r'), s')\<rbrakk> \<Longrightarrow> ledger_history env B l0 l'"
| lh_settle: "\<lbrakk>ledger_history env B l0 l; si_ledger i = l; 0 \<le> br_amount (si_reservation i);
    settle env now newId i s = (Inr res, s')\<rbrakk> \<Longrightarrow> ledger_history env B l0 (sr_ledger res)"
| lh_release: "\<lbrakk>ledger_history env B l0 l; rli_ledger i = l; 0 \<le> br_amount (rli_reservation i);
    release env now newId i s = (Inr (res, st, l', hs), s')\<rbrakk> \<Longrightarrow> ledger_history env B l0 l'"

definition ledger_wf :: "budget_ledger \<Rightarrow> bool" where
  "ledger_wf l \<longleftrightarrow> 0 \<le> bl_reservedAmount l \<and> 0 \<le> bl_settledAmount l \<and> 0 \<le> bl_releasedAmount l"

lemma reserve_ledger:
  assumes "reserve env now newId i s = (Inr (l', r, hs), s')"
  obtains a where "0 < a" "ar_amount i = Fin a"
    "bl_reservedAmount l' = bl_reservedAmount (ar_ledger i) + a"
    "bl_settledAmount l' = bl_settledAmount (ar_ledger i)"
    "bl_releasedAmount l' = bl_releasedAmount (ar_ledger i)"
    "bl_hardCap l' = bl_hardCap (ar_ledger i)"
    "activeCommittedAmount (ar_ledger i) + a \<le> bl_hardCap (ar_ledger i)"
proof -
  have b: "reserveBudgetHardCap now (newId 0) (hard_cap_input i (ar_ledger i) (ar_expectedVersion i)) = Inr (l', r)"
    using reserve_success [OF assms] by metis
  show thesis
    by (rule reserveBudgetHardCap_success [OF b]) (rule that, simp_all add: hard_cap_input_def)
qed

lemma ledger_history_wf:
  assumes "ledger_history env B l0 l" and "ae_atomicRepository env = None" and "ledger_wf l0"
  shows "ledger_wf l \<and> bl_hardCap l = bl_hardCap l0 \<and> bl_releasedAmount l0 \<le> bl_releasedAmount l"
  using assms
proof (induction rule: ledger_history.induct)
  case (lh_reserve l0 l i now newId s l' r hs s')
  then show ?case
    by (elim reserve_ledger) (auto simp: ledger_wf_def)
next
  case (lh_streaming l0 l c now r a s l' r' s')
  then show ?case
    by (elim streamingIncrement_success) (auto simp: ledger_wf_def)
next
  case (lh_settle l0 l i now newId s res s')
  obtain actual where "0 \<le> actual" "sr_ledger res = settleLedger (si_ledger i) (si_reservation i) actual"
    using settle_success [OF lh_settle.hyps(4) lh_settle.prems(1)] by metis
  with lh_settle show ?case
    by (auto simp: ledger_wf_def settleLedger_def add_increasing2)
next
  case (lh_release l0 l i now newId s res st l' hs s')
  then show ?case
    using release_success [OF lh_release.hyps(4) lh_release.prems(1)]
    by (auto simp: ledger_wf_def releaseLedger_def add_increasing2)
qed auto

section \<open>Version bookkeeping\<close>

lemma set_version_eval [prog_simps]:
  "set_version i v (st, w) = (Inr (), (st\<lparr>as_ledgerVersions := (as_ledgerVersions st)(i \<mapsto> v)\<rparr>, w))"
  by (simp add: set_version_def prog_simps)

lemma persistLedger_versions:
  assumes "persistLedger env b a v (st, w) = (Inr u, (st', w'))"
  shows "as_ledgerVersions st' = (as_ledgerVersions st)(bl_budgetLedgerId a \<mapsto> bl_version a)"
  using assms by (auto simp: persistLedger_def prog_ok set_version_def Let_def split: option.splits prod.splits)

lemma persistLedgerBatch_last:
  assumes "persistLedgerBatch_loop env ps (es @ [e]) (st, w) = (Inr u, (st', w'))"
  shows "as_ledgerVersions st' (bl_budgetLedgerId (lp_after e)) = Some (bl_version (lp_after e))"
  using assms
proof (induction es arbitrary: ps st w)
  case Nil
  then show ?case
    by (auto simp: prog_simps split: prod.splits sum.splits dest!: persistLedger_versions)
next
  case (Cons x es)
  obtain st1 w1 where
    "persistLedgerBatch_loop env (x # ps) (es @ [e]) (st1, w1) = (Inr u, (st', w'))"
    using Cons.prems by (auto split: prod.splits sum.splits)
  then show ?case by (rule Cons.IH)
qed

lemma emitReserveSideEffects_state:
  "emitReserveSideEffects env now l a c (st, w) = (Inr u, (st', w')) \<Longrightarrow> st' = st"
  by (auto simp: emitReserveSideEffects_def emitEvent_def Let_def prog_ok split: option.splits if_splits)

lemma reserve_versions:
  assumes "reserve env now newId i (st, w) = (Inr (l', r, hs), (st', w'))"
  shows "as_ledgerVersions st' (bl_budgetLedgerId l') = Some (bl_version l')"
proof -
  from assms obtain hrs st1 w1 st2 w2 c where
    "persistLedgerBatch_loop env [] (hrs @ [\<lparr>lp_before = ar_ledger i, lp_after = l',
        lp_expectedVersion = ar_expectedVersion i\<rparr>]) (st1, w1) = (Inr (), (st2, w2))"
    and t: "emitReserveSideEffects env now l' (finite_part (ar_amount i)) c
          (st2\<lparr>as_activeReservations :=
            jsmap_set (br_budgetReservationId r) \<lparr>te_reservation = r, te_ledger = l', te_context = c\<rparr>
              (as_activeReservations st2)\<rparr>, w2) = (Inr (), (st', w'))"
    by (auto simp: reserve_def Let_def prog_ok persistLedgerBatch_def trackActiveReservation_def)
  from persistLedgerBatch_last [OF this(1)] emitReserveSideEffects_state [OF t] show ?thesis
    by simp
qed

lemma stale_version_rejected:
  assumes "ae_upsertWithCas env = None" "ae_atomicRepository env = None"
    and "as_ledgerVersions st (bl_budgetLedgerId l) = Some v" and "v \<noteq> e"
  shows "assertInMemoryLedgerVersion env l e (st, w) = (Inl BE_ledger_version_cas_failed, (st, w))"
  using assms by (simp add: assertInMemoryLedgerVersion_def prog_simps)

section \<open>Properties\<close>

text \<open>
  C4. A reservation that succeeds is for a positive finite amount, raises the reserved amount
  of its ledger by exactly that amount, and leaves the committed amount that the code computes
  within both the hard cap of the ledger and the tier limit of the context.
\<close>

theorem reserve_within_caps:
  assumes "reserve env now newId i s = (Inr (l', r, hs), s')"
  shows "\<exists>a limit. ar_amount i = Fin a \<and> 0 < a \<and> br_amount r = a \<and> br_status r = BR_reserved
    \<and> bl_reservedAmount l' = bl_reservedAmount (ar_ledger i) + a
    \<and> activeCommittedAmount l' = activeCommittedAmount (ar_ledger i) + a
    \<and> activeCommittedAmount l' \<le> bl_hardCap l'
    \<and> resolveTierLimit (ar_ledger i)
        (coalesce (ar_context i) (createDefaultContext (bl_tenantId (ar_ledger i)))) = Inr limit
    \<and> activeCommittedAmount l' \<le> limit"
proof -
  from reserve_success [OF assms] obtain a limit where a: "ar_amount i = Fin a" "0 < a"
    and limit: "resolveTierLimit (ar_ledger i)
        (coalesce (ar_context i) (createDefaultContext (bl_tenantId (ar_ledger i)))) = Inr limit"
      "activeCommittedAmount (ar_ledger i) + a \<le> limit"
    and cap: "reserveBudgetHardCap now (newId 0) (hard_cap_input i (ar_ledger i) (ar_expectedVersion i)) = Inr (l', r)"
    by metis
  from cap a limit show ?thesis
    by (elim reserveBudgetHardCap_success) (auto simp: hard_cap_input_def activeCommittedAmount_reserve)
qed


text \<open>
  A settlement (without an atomic repository) succeeds only on a reservation that is still
  \<^verbatim>\<open>reserved\<close> and only when the settled amount fits: afterwards the reservation is \<^verbatim>\<open>settled\<close>, the
  actual amount is booked, and reserved plus settled is within the hard cap.
\<close>

theorem settle_within_hard_cap:
  assumes "settle env now newId i s = (Inr res, s')" and "ae_atomicRepository env = None"
  shows "br_status (si_reservation i) = BR_reserved
    \<and> (\<exists>r'. fst (sr_reservation res) = Agg_BudgetReservation r' \<and> br_status r' = BR_settled
            \<and> br_version r' = br_version (si_reservation i) + 1)
    \<and> (\<exists>actual \<ge> 0. si_actualAmount i = Fin actual
            \<and> bl_settledAmount (sr_ledger res) = bl_settledAmount (si_ledger i) + actual
            \<and> sr_ledger res = settleLedger (si_ledger i) (si_reservation i) actual)
    \<and> bl_reservedAmount (sr_ledger res) + bl_settledAmount (sr_ledger res) \<le> bl_hardCap (sr_ledger res)"
  using assms
proof (rule settle_success)
  fix actual w f h cm e w'
  assume *: "si_actualAmount i = Fin actual" "0 \<le> actual"
    "sr_ledger res = settleLedger (si_ledger i) (si_reservation i) actual"
    "transition (ae_persistEvent env) now f h
       (settle_command (si_reservation i) cm
         (br_status (si_reservation i) = BR_reserved
          \<and> max 0 (bl_reservedAmount (si_ledger i) - br_amount (si_reservation i))
              + bl_settledAmount (si_ledger i) + actual \<le> bl_hardCap (si_ledger i))
         (normalizeContext (si_context i))) w = Inr (fst (sr_reservation res), e, w')"
  from * settle_precondition [OF *(4)] show ?thesis
    by (auto simp: settleLedger_def)
qed

text \<open>
  Optimistic concurrency in memory: once a reservation has been made on an open ledger,
  every reservation, settlement or release that still expects the ledger's previous version is
  rejected and changes nothing.
\<close>

theorem stale_writer_rejected:
  assumes mem: "ae_upsertWithCas env = None" "ae_atomicRepository env = None"
    and ok: "reserve env now newId i (st, w) = (Inr (l', r, hs), (st', w'))"
    and op: "bl_status (ar_ledger i) = BL_open"
    and same: "bl_budgetLedgerId l = bl_budgetLedgerId (ar_ledger i)" "bl_version l = bl_version (ar_ledger i)"
  shows "(ar_ledger j = l \<and> ar_expectedVersion j = bl_version l \<longrightarrow>
            reserve env now2 newId2 j (st', w2) = (Inl BE_ledger_version_cas_failed, (st', w2)))
    \<and> (si_ledger k = l \<and> si_expectedVersion k = None \<longrightarrow>
            settle env now2 newId2 k (st', w2) = (Inl BE_ledger_version_cas_failed, (st', w2)))
    \<and> (rli_ledger m = l \<and> rli_expectedVersion m = None \<longrightarrow>
            release env now2 newId2 m (st', w2) = (Inl BE_ledger_version_cas_failed, (st', w2)))"
proof -
  have cap: "reserveBudgetHardCap now (newId 0) (hard_cap_input i (ar_ledger i) (ar_expectedVersion i)) = Inr (l', r)"
    using reserve_success [OF ok] by metis
  have "bl_budgetLedgerId l' = bl_budgetLedgerId l" "bl_version l' = bl_version l + 1"
    using cap by (rule reserveBudgetHardCap_success, simp add: hard_cap_input_def same op)+
  with reserve_versions [OF ok] have "as_ledgerVersions st' (bl_budgetLedgerId l) = Some (bl_version l + 1)"
    by simp
  from stale_version_rejected [OF mem this, of "bl_version l"]
  show ?thesis
    by (auto simp: reserve_def settle_def release_def Let_def prog_simps)
qed

section \<open>Concrete runs\<close>

text \<open>An allocator without collaborators: in-memory versions, a callback that logs the events.\<close>

definition ex_env :: "fact_event list alloc_env" where
  "ex_env =
     \<lparr>ae_persistEvent = Some ex_persist, ae_watermarkConfig = DEFAULT_WATERMARK_CONFIG,
      ae_crossRunPriorityConfig = DEFAULT_CROSS_RUN_PRIORITY, ae_sweeperConfig = DEFAULT_SWEEPER_CONFIG,
      ae_settlementPersistence = None, ae_releasePersistence = None, ae_atomicRepository = None,
      ae_emit = (\<lambda>_ w. w), ae_upsertWithCas = None\<rparr>"

definition ex_ids :: "nat \<Rightarrow> ident" where
  "ex_ids k = (if k = 0 then ''x0'' else if k = 1 then ''x1'' else ''x'')"

definition ex_state :: alloc_state where
  "ex_state = \<lparr>as_activeReservations = [], as_ledgerVersions = (\<lambda>_. None)\<rparr>"

definition ex_ledger :: "rat \<Rightarrow> rat \<Rightarrow> int \<Rightarrow> budget_ledger" where
  "ex_ledger reserved released v =
     \<lparr>bl_budgetLedgerId = ''L'', bl_tenantId = ''T'', bl_harnessRunId = ''H'', bl_tier = None,
      bl_scopeKey = None, bl_parentBudgetLedgerId = None, bl_currency = ''USD'', bl_hardCap = 100,
      bl_softCap = None, bl_reservedAmount = reserved, bl_settledAmount = 0,
      bl_releasedAmount = released, bl_status = BL_open, bl_resourceKinds = [], bl_createdAt = 0,
      bl_updatedAt = 0, bl_terminalAt = None, bl_terminalReason = None, bl_leaseId = None,
      bl_fencingToken = None, bl_version = v\<rparr>"

definition ex_reserve :: "budget_ledger \<Rightarrow> rat \<Rightarrow> (budget_ledger \<times> int) list option \<Rightarrow> alloc_reserve_input" where
  "ex_reserve l a h =
     \<lparr>ar_ledger = l, ar_amount = Fin a, ar_resourceKind = RK_token, ar_expiresAt = 1000,
      ar_expectedVersion = bl_version l, ar_nodeRunId = None, ar_hierarchyLedgers = h,
      ar_context = None\<rparr>"

definition ex_reservation :: "ident \<Rightarrow> rat \<Rightarrow> budget_reservation" where
  "ex_reservation rid a =
     \<lparr>br_budgetReservationId = rid, br_budgetLedgerId = ''L'', br_harnessRunId = ''H'',
      br_nodeRunId = None, br_amount = a, br_resourceKind = RK_token, br_status = BR_reserved,
      br_expiresAt = 1000, br_createdAt = 5, br_updatedAt = None, br_terminalAt = None,
      br_terminalReason = None, br_leaseId = None, br_fencingToken = None, br_version = 0\<rparr>"

definition ex_entry :: "ident \<Rightarrow> rat \<Rightarrow> budget_ledger \<Rightarrow> tracked_entry" where
  "ex_entry rid a l =
     \<lparr>te_reservation = ex_reservation rid a, te_ledger = l, te_context = createDefaultContext ''T''\<rparr>"

lemmas reserve_eval =
  reserve_def ex_env_def ex_reserve_def ex_ledger_def ex_state_def assertInMemoryLedgerVersion_def
  resolveTierLimit_def createDefaultContext_def activeCommittedAmount_def sum_exceeds_def liftC_def
  reserveBudgetHardCap_def hard_cap_input_def requirePositive_def createBudgetReservation_def
  persistLedgerBatch_def persistLedger_def set_version_def trackActiveReservation_def
  emitReserveSideEffects_def emitEvent_def DEFAULT_WATERMARK_CONFIG_def finite_part_def
  js_trim_def js_white_def throw_if_def prog_simps

lemma ex_reserve_ok:
  assumes "coalesce (as_ledgerVersions st ''L'') v = v" and "0 < a" and "q - p + a < 100"
  shows "reserve ex_env 5 (\<lambda>_. rid) (ex_reserve (ex_ledger q p v) a None) (st, w) =
     (Inr (ex_ledger (q + a) p (v + 1), ex_reservation rid a, None),
      (\<lparr>as_activeReservations = jsmap_set rid (ex_entry rid a (ex_ledger (q + a) p (v + 1))) (as_activeReservations st),
        as_ledgerVersions = (as_ledgerVersions st)(''L'' \<mapsto> v + 1)\<rparr>, w))"
  using assms
  by (simp add: reserve_eval Let_def ex_reservation_def ex_entry_def)

lemma reservation_guards:
  assumes "rc_aggregate c = Agg_BudgetReservation r" "br_status r = BR_reserved"
    and "rc_fromStatus c = name_in BR_STATUSES BR_reserved" "rc_toStatus c = name_in BR_STATUSES to"
    and "to \<in> set (BUDGET_RESERVATION_TRANSITIONS BR_reserved)"
    and "rc_policyGuard c = None" "rc_expectedSeq c = None" "rc_expectedVersion c = None"
    and "\<forall>b. rc_budgetPrecondition c = Some b \<longrightarrow> bp_hardCapSatisfied b"
  shows "transition_guards (Some q) c = Inr ()"
proof -
  have "assertTransitionAllowed AT_BudgetReservation (rc_fromStatus c) (rc_toStatus c) = Inr ()"
    using assms(5) unfolding assms(3,4)
    by (auto simp: result_simps reservation_table.lookup_name reservation_table.name_inj)
  with assms show ?thesis
    by (simp add: transition_guards_def result_simps assertStatusMatches_def assertCas_def cas_ok_def
        rc_aggregateType_def assertRunVersionLock_def assertSideEffectSafety_def assertAuditRef_def
        assertEventPersistenceConfigured_def assertLeaseAndFencing_def Let_def
        assertPolicyGuard_def assertBudgetPrecondition_def split: option.splits)
qed

lemma ex_transition:
  assumes "to = BR_released \<and> c = release_command (ex_reservation rid a) cid reason occ ctx
           \<or> to = BR_settled \<and> c = settle_command (ex_reservation rid a) cid True ctx"
  shows "\<exists>r' e. transition (Some ex_persist) now f h c w = Inr (Agg_BudgetReservation r', e, e # w)
           \<and> br_status r' = to"
proof -
  have "transition_guards (Some ex_persist) c = Inr ()"
    using assms
  proof (elim disjE conjE)
    assume "c = release_command (ex_reservation rid a) cid reason occ ctx"
    then show ?thesis
      by (intro reservation_guards [where to = BR_released and r = "ex_reservation rid a"])
        (simp_all add: release_command_def reservation_command_def ex_reservation_def name_in_def BR_STATUSES_def)
  next
    assume "c = settle_command (ex_reservation rid a) cid True ctx"
    then show ?thesis
      by (intro reservation_guards [where to = BR_settled and r = "ex_reservation rid a"])
        (simp_all add: settle_command_def reservation_command_def ex_reservation_def name_in_def BR_STATUSES_def)
  qed
  from transition_accepts [OF this, of w now f h]
  obtain e w' where tr: "transition (Some ex_persist) now f h c w
      = Inr (applyStatus c (coalesce (rc_occurredAt c) now), e, w')"
    by (auto simp: ex_persist_def)
  then have w': "w' = e # w"
    using transition_accepted(4) [OF tr] by (simp add: ex_persist_def)
  have "\<exists>r'. applyStatus c (coalesce (rc_occurredAt c) now) = Agg_BudgetReservation r' \<and> br_status r' = to"
    using assms
    by (auto simp: applyStatus_def Let_def release_command_def settle_command_def
        reservation_command_def of_name_def BR_STATUSES_def)
  with tr w' show ?thesis by auto
qed

lemma ex_emitLedgerFact: "\<exists>e. emitLedgerFact ex_env now f h b a reason c (st, w) = (Inr (), (st, e # w))"
  by (simp add: emitLedgerFact_def createPlatformFactEvent_def startsWith_def lift_contract_def
      emitFactEvent_def assertEventPersistenceConfigured_def ex_env_def ex_persist_def)

definition ex_release :: "budget_ledger \<Rightarrow> budget_reservation \<Rightarrow> release_input" where
  "ex_release l r = \<lparr>rli_ledger = l, rli_reservation = r, rli_expectedVersion = None, rli_reasonCode = None,
                     rli_hierarchyLedgers = None, rli_context = createDefaultContext ''T''\<rparr>"

lemma ex_release_ok:
  assumes "as_ledgerVersions st ''L'' = Some v" and "a \<le> q"
  shows "\<exists>x y w'. release ex_env 6 ex_ids (ex_release (ex_ledger q p v) (ex_reservation rid a)) (st, w) =
     (Inr (x, y, ex_ledger (q - a) (p + a) (v + 1), None),
      (st\<lparr>as_activeReservations := jsmap_delete rid (as_activeReservations st),
        as_ledgerVersions := (as_ledgerVersions st)(''L'' \<mapsto> v + 1)\<rparr>, w'))"
proof -
  let ?l = "ex_ledger q p v" and ?r = "ex_reservation rid a"
  let ?c = "normalizeContext (createDefaultContext ''T'')" and ?reason = "''budget.released_without_execution''"
  obtain r' e where tr: "transition (Some ex_persist) 6 (ex_ids 2) (ex_ids 3)
      (release_command ?r (ex_ids 1) ?reason None ?c) w = Inr (Agg_BudgetReservation r', e, e # w)"
    using ex_transition [of BR_released] by blast
  have l: "releaseLedger ?l ?r = ex_ledger (q - a) (p + a) (v + 1)"
    using assms(2) by (simp add: releaseLedger_def ex_ledger_def ex_reservation_def)
  obtain e2 where "emitLedgerFact ex_env 6 (ex_ids 4) (ex_ids 5) ?l (ex_ledger (q - a) (p + a) (v + 1)) ?reason ?c
       (st\<lparr>as_activeReservations := jsmap_delete rid (as_activeReservations st),
        as_ledgerVersions := (as_ledgerVersions st)(''L'' \<mapsto> v + 1)\<rparr>, e # w)
      = (Inr (), (st\<lparr>as_activeReservations := jsmap_delete rid (as_activeReservations st),
        as_ledgerVersions := (as_ledgerVersions st)(''L'' \<mapsto> v + 1)\<rparr>, e2 # e # w))"
    by (rule exE [OF ex_emitLedgerFact])
  moreover have "bl_budgetLedgerId (ex_ledger q p v) = ''L''" "bl_version (ex_ledger q p v) = v"
      "bl_budgetLedgerId (ex_ledger (q - a) (p + a) (v + 1)) = ''L''"
      "bl_version (ex_ledger (q - a) (p + a) (v + 1)) = v + 1" "br_budgetReservationId ?r = rid"
    by (simp_all add: ex_ledger_def ex_reservation_def)
  moreover have "ae_upsertWithCas ex_env = None" "ae_atomicRepository ex_env = None"
      "ae_releasePersistence ex_env = None" "ae_persistEvent ex_env = Some ex_persist"
    by (simp_all add: ex_env_def)
  ultimately show ?thesis
    using assms(1) tr l
    by (simp add: release_def ex_release_def Let_def prog_simps assertInMemoryLedgerVersion_def
        release_settlement_def createBudgetSettlement_def requireNonNegative_def liftC_def
        persistRelease_def rsm_transition_def untrackActiveReservation_def persistHierarchy_def
        persistLedger_def)
qed

definition ex_settle :: "budget_ledger \<Rightarrow> budget_reservation \<Rightarrow> rat \<Rightarrow> settle_input" where
  "ex_settle l r a = \<lparr>si_ledger = l, si_reservation = r, si_actualAmount = Fin a, si_expectedVersion = None,
     si_evidenceRefs = None, si_hierarchyLedgers = None, si_context = createDefaultContext ''T''\<rparr>"

lemma ex_settle_ok:
  "\<exists>res s'. settle ex_env 6 ex_ids (ex_settle (ex_ledger 60 0 1) (ex_reservation ''r1'' 60) 40) (ex_state, w)
     = (Inr res, s')"
proof -
  let ?l = "ex_ledger 60 0 1" and ?r = "ex_reservation ''r1'' 60"
  let ?c = "normalizeContext (createDefaultContext ''T'')"
  obtain r' e where tr: "transition (Some ex_persist) 6 (ex_ids 2) (ex_ids 3)
      (settle_command ?r (ex_ids 1) True ?c) w = Inr (Agg_BudgetReservation r', e, e # w)"
    using ex_transition [of BR_settled] by blast
  let ?st = "ex_state\<lparr>as_activeReservations := [], as_ledgerVersions := [''L'' \<mapsto> 2]\<rparr>"
  obtain e2 where fact: "emitLedgerFact ex_env 6 (ex_ids 4) (ex_ids 5) ?l (settleLedger ?l ?r 40) ''budget.settled'' ?c
      (?st, e # w) = (Inr (), (?st, e2 # e # w))"
    by (rule exE [OF ex_emitLedgerFact])
  have eqs: "bl_budgetLedgerId ?l = ''L''" "bl_version ?l = 1" "bl_reservedAmount ?l = 60" "bl_hardCap ?l = 100"
      "bl_settledAmount ?l = 0" "br_amount ?r = 60" "br_status ?r = BR_reserved"
      "bl_budgetLedgerId (settleLedger ?l ?r 40) = ''L''"
      "bl_version (settleLedger ?l ?r 40) = 2" "br_budgetReservationId ?r = ''r1''"
    by (simp_all add: ex_ledger_def ex_reservation_def settleLedger_def)
  have env: "ae_upsertWithCas ex_env = None" "ae_atomicRepository ex_env = None"
      "ae_settlementPersistence ex_env = None" "ae_persistEvent ex_env = Some ex_persist"
    by (simp_all add: ex_env_def)
  show ?thesis
    using tr fact
    by (simp add: settle_def ex_settle_def Let_def prog_simps assertInMemoryLedgerVersion_def
        createBudgetSettlement_def requireNonNegative_def liftC_def rsm_transition_def
        untrackActiveReservation_def persistHierarchy_def persistLedger_def sum_exceeds_def
        eqs env jsmap_delete_def ex_state_def)
qed

theorem reserve_within_caps_witness:
  "\<exists>l' r hs s'. reserve ex_env 5 (\<lambda>_. ''r1'') (ex_reserve (ex_ledger 0 0 0) 60 None) (ex_state, []) = (Inr (l', r, hs), s')
     \<and> br_amount r = 60 \<and> activeCommittedAmount l' \<le> bl_hardCap l'"
proof -
  obtain l' r hs s' where ok: "reserve ex_env 5 (\<lambda>_. ''r1'') (ex_reserve (ex_ledger 0 0 0) 60 None) (ex_state, [])
      = (Inr (l', r, hs), s')"
    using ex_reserve_ok [of ex_state 0 60 0 0 "''r1''" "[]"] by (simp add: ex_state_def)
  from reserve_within_caps [OF this] have "br_amount r = 60 \<and> activeCommittedAmount l' \<le> bl_hardCap l'"
    by (auto simp: ex_reserve_def)
  with ok show ?thesis by auto
qed


theorem settle_within_hard_cap_witness:
  "\<exists>res s'. settle ex_env 6 ex_ids (ex_settle (ex_ledger 60 0 1) (ex_reservation ''r1'' 60) 40) (ex_state, [])
       = (Inr res, s')
     \<and> bl_reservedAmount (sr_ledger res) + bl_settledAmount (sr_ledger res) \<le> bl_hardCap (sr_ledger res)"
proof -
  obtain res s' where ok: "settle ex_env 6 ex_ids (ex_settle (ex_ledger 60 0 1) (ex_reservation ''r1'' 60) 40) (ex_state, [])
      = (Inr res, s')"
    using ex_settle_ok by blast
  have "ae_atomicRepository ex_env = None" by (simp add: ex_env_def)
  from settle_within_hard_cap [OF ok this] ok show ?thesis by blast
qed

theorem stale_writer_rejected_witness:
  "\<exists>st'. reserve ex_env 5 (\<lambda>_. ''r1'') (ex_reserve (ex_ledger 0 0 0) 60 None) (ex_state, [])
       = (Inr (ex_ledger 60 0 1, ex_reservation ''r1'' 60, None), (st', []))
     \<and> reserve ex_env 5 (\<lambda>_. ''r2'') (ex_reserve (ex_ledger 0 0 0) 30 None) (st', [])
       = (Inl BE_ledger_version_cas_failed, (st', []))"
proof -
  obtain st' where ok: "reserve ex_env 5 (\<lambda>_. ''r1'') (ex_reserve (ex_ledger 0 0 0) 60 None) (ex_state, [])
      = (Inr (ex_ledger 60 0 1, ex_reservation ''r1'' 60, None), (st', []))"
    using ex_reserve_ok [of ex_state 0 60 0 0 "''r1''" "[]"] by (simp add: ex_state_def)
  have hyps: "ae_upsertWithCas ex_env = None" "ae_atomicRepository ex_env = None"
    "bl_status (ar_ledger (ex_reserve (ex_ledger 0 0 0) 60 None)) = BL_open"
    "bl_budgetLedgerId (ex_ledger 0 0 0) = bl_budgetLedgerId (ar_ledger (ex_reserve (ex_ledger 0 0 0) 60 None))"
    "bl_version (ex_ledger 0 0 0) = bl_version (ar_ledger (ex_reserve (ex_ledger 0 0 0) 60 None))"
    by (simp_all add: ex_env_def ex_reserve_def ex_ledger_def)
  have j: "ar_ledger (ex_reserve (ex_ledger 0 0 0) 30 None) = ex_ledger 0 0 0"
    "ar_expectedVersion (ex_reserve (ex_ledger 0 0 0) 30 None) = bl_version (ex_ledger 0 0 0)"
    by (simp_all add: ex_reserve_def)
  from stale_writer_rejected [OF hyps(1,2) ok hyps(3-5)] j ok show ?thesis by blast
qed

text \<open>
  C36. Released budget is subtracted twice: a release both lowers the reserved amount and
  raises the released amount, and the committed amount subtracts the latter again. On a ledger
  with hard cap 100, reserving 60, releasing it and then reserving 150 all succeed.
\<close>

theorem release_then_reserve_exceeds_hard_cap:
  "\<exists>s1 s2 s3 l1 r1 l2 x y l3 r3.
     reserve ex_env 5 (\<lambda>_. ''r1'') (ex_reserve (ex_ledger 0 0 0) 60 None) (ex_state, []) = (Inr (l1, r1, None), s1)
     \<and> release ex_env 6 ex_ids (ex_release l1 r1) s1 = (Inr (x, y, l2, None), s2)
     \<and> reserve ex_env 5 (\<lambda>_. ''r2'') (ex_reserve l2 150 None) s2 = (Inr (l3, r3, None), s3)
     \<and> bl_hardCap l3 = 100 \<and> bl_reservedAmount l3 = 150"
proof -
  let ?st1 = "\<lparr>as_activeReservations = [(''r1'', ex_entry ''r1'' 60 (ex_ledger 60 0 1))],
               as_ledgerVersions = [''L'' \<mapsto> 1]\<rparr>"
  let ?st2 = "\<lparr>as_activeReservations = [], as_ledgerVersions = [''L'' \<mapsto> 2]\<rparr>"
  have 1: "reserve ex_env 5 (\<lambda>_. ''r1'') (ex_reserve (ex_ledger 0 0 0) 60 None) (ex_state, [])
      = (Inr (ex_ledger 60 0 1, ex_reservation ''r1'' 60, None), (?st1, []))"
    using ex_reserve_ok [of ex_state 0 60 0 0 "''r1''" "[]"] by (simp add: ex_state_def)
  obtain x y w2 where 2: "release ex_env 6 ex_ids (ex_release (ex_ledger 60 0 1) (ex_reservation ''r1'' 60)) (?st1, [])
      = (Inr (x, y, ex_ledger 0 60 2, None), (?st2, w2))"
    using ex_release_ok [of ?st1 1 60 60 0 "''r1''" "[]"] by (auto simp: jsmap_delete_def)
  have 3: "reserve ex_env 5 (\<lambda>_. ''r2'') (ex_reserve (ex_ledger 0 60 2) 150 None) (?st2, w2)
      = (Inr (ex_ledger 150 60 3, ex_reservation ''r2'' 150, None),
         (\<lparr>as_activeReservations = [(''r2'', ex_entry ''r2'' 150 (ex_ledger 150 60 3))],
           as_ledgerVersions = [''L'' \<mapsto> 3]\<rparr>, w2))"
    using ex_reserve_ok [of ?st2 2 150 0 60 "''r2''" w2] by simp
  have "bl_hardCap (ex_ledger 150 60 3) = 100" "bl_reservedAmount (ex_ledger 150 60 3) = 150"
    by (simp_all add: ex_ledger_def)
  with 1 2 3 show ?thesis by blast
qed

text \<open>
  A tier limit above the hard cap lifts the hard cap for increments: unlike a reservation, an increment is
  checked against the tier limit only. On a ledger with hard cap 100 and 60 reserved, an increment of 80 under a tier
  limit of 150 succeeds.
\<close>

theorem increment_exceeds_hard_cap:
  "\<exists>l r s. streamingIncrement ex_env 5 (ex_ledger 60 0 1) (ex_reservation ''r1'' 60) 80
       ((createDefaultContext ''T'')\<lparr>ac_tierLimit := Some 150\<rparr>) (ex_state, []) = (Inr (l, r), s)
     \<and> bl_hardCap l = 100 \<and> bl_reservedAmount l = 140"
  by (simp add: streamingIncrement_def reserve_eval Let_def ex_reservation_def)

text \<open>
  A failed batch forgets a newer version: when a reservation is rejected because a ledger
  of its hierarchy is stale, the error handler overwrites the recorded version of that ledger with
  the stale one, so the same reservation, repeated, is accepted.
\<close>

definition ex_parent :: budget_ledger where
  "ex_parent = (ex_ledger 0 0 3)\<lparr>bl_budgetLedgerId := ''P''\<rparr>"

theorem stale_hierarchy_accepted_on_retry:
  "\<exists>s1 l r hs s2.
     reserve ex_env 5 (\<lambda>_. ''r1'') (ex_reserve (ex_ledger 0 0 0) 60 (Some [(ex_parent, 3)]))
       (ex_state\<lparr>as_ledgerVersions := [''P'' \<mapsto> 5]\<rparr>, []) = (Inl BE_ledger_version_cas_failed, s1)
     \<and> reserve ex_env 5 (\<lambda>_. ''r1'') (ex_reserve (ex_ledger 0 0 0) 60 (Some [(ex_parent, 3)])) s1
       = (Inr (l, r, hs), s2)"
  by (simp add: reserve_eval ex_parent_def Let_def)

text \<open>
  The sweeper gives up on a shared ledger: if the first tracked reservation has expired
  and its run is over, but its ledger has moved on since it was tracked (a later reservation on the
  same ledger), the sweep publishes the release of the reservation and then fails on the ledger's
  version, leaving every reservation tracked, so that the next sweep meets the same state.
\<close>

theorem sweep_fails_on_moved_ledger:
  assumes mem: "ae_upsertWithCas env = None"
    and pers: "ae_persistEvent env = Some q" "ae_releasePersistence env = None" "\<And>e. \<exists>w'. q w e = Inr w'"
    and first: "as_activeReservations st = (rid, entry) # rest"
    and live: "br_status (te_reservation entry) = BR_reserved"
      "br_harnessRunId (te_reservation entry) \<notin> set activeRunIds"
      "hasReservationExpired (br_expiresAt (te_reservation entry)) dbNow (sc_clockSkewSafetyMarginMs (ae_sweeperConfig env))"
    and moved: "as_ledgerVersions st (bl_budgetLedgerId (te_ledger entry)) = Some v" "v \<noteq> bl_version (te_ledger entry)"
  shows "\<exists>w' e. sweepExpiredReservations env now newId activeRunIds (Some dbNow) (st, w)
      = (Inl BE_ledger_version_cas_failed, (st, w')) \<and> q w e = Inr w'
      \<and> tp_toStatus (ev_payload e) = ''released''
      \<and> ev_aggregateId e = br_budgetReservationId (te_reservation entry)"
proof -
  let ?r = "te_reservation entry"
  let ?c = "release_command ?r (newId 1) ''budget.released_orphaned_reservation'' (Some dbNow)
      (normalizeContext (te_context entry))"
  have cmd: "rc_aggregate ?c = Agg_BudgetReservation ?r" "rc_toStatus ?c = ''released''"
    by (simp_all add: release_command_def reservation_command_def)
  have "transition_guards (Some q) ?c = Inr ()"
    using live(1) by (intro reservation_guards [where to = BR_released and r = ?r])
      (simp_all add: release_command_def reservation_command_def name_in_def BR_STATUSES_def)
  from transition_accepts [OF this pers(3), of now "newId 2" "newId 3"] obtain a e w' where
    tr: "transition (Some q) now (newId 2) (newId 3) ?c w = Inr (a, e, w')" by blast
  have ev: "tp_toStatus (ev_payload e) = ''released''" "ev_aggregateId e = br_budgetReservationId ?r" "q w e = Inr w'"
    using transition_event [OF transition_accepted(3) [OF tr]] transition_accepted(2,4) [OF tr] cmd by simp_all
  have "releaseTrackedReservation env now newId entry ''budget.released_orphaned_reservation'' dbNow (st, w)
      = (Inl BE_ledger_version_cas_failed, (st, w'))"
    using tr mem pers(1,2) moved
    by (simp add: releaseTrackedReservation_def Let_def prog_simps release_settlement_def
        createBudgetSettlement_def requireNonNegative_def liftC_def persistRelease_def
        rsm_transition_def persistLedger_def releaseLedger_def)
  then have "sweepExpiredReservations env now newId activeRunIds (Some dbNow) (st, w)
      = (Inl BE_ledger_version_cas_failed, (st, w'))"
    using first live by (simp add: sweepExpiredReservations_def prog_simps)
  with ev show ?thesis by blast
qed

theorem sweep_fails_on_moved_ledger_witness:
  "\<exists>s1 s2 w' l1 r1 l2 r2.
     reserve ex_env 5 (\<lambda>_. ''r1'') (ex_reserve (ex_ledger 0 0 0) 30 None) (ex_state, []) = (Inr (l1, r1, None), s1)
     \<and> reserve ex_env 5 (\<lambda>_. ''r2'') (ex_reserve l1 30 None) s1 = (Inr (l2, r2, None), s2)
     \<and> sweepExpiredReservations ex_env 9000 ex_ids [] (Some 9000) s2
       = (Inl BE_ledger_version_cas_failed, (fst s2, w'))"
proof -
  let ?e1 = "ex_entry ''r1'' 30 (ex_ledger 30 0 1)" and ?e2 = "ex_entry ''r2'' 30 (ex_ledger 60 0 2)"
  let ?st1 = "\<lparr>as_activeReservations = [(''r1'', ?e1)], as_ledgerVersions = [''L'' \<mapsto> 1]\<rparr>"
  let ?st2 = "\<lparr>as_activeReservations = [(''r1'', ?e1), (''r2'', ?e2)], as_ledgerVersions = [''L'' \<mapsto> 2]\<rparr>"
  have 1: "reserve ex_env 5 (\<lambda>_. ''r1'') (ex_reserve (ex_ledger 0 0 0) 30 None) (ex_state, [])
      = (Inr (ex_ledger 30 0 1, ex_reservation ''r1'' 30, None), (?st1, []))"
    using ex_reserve_ok [of ex_state 0 30 0 0 "''r1''" "[]"] by (simp add: ex_state_def)
  have 2: "reserve ex_env 5 (\<lambda>_. ''r2'') (ex_reserve (ex_ledger 30 0 1) 30 None) (?st1, [])
      = (Inr (ex_ledger 60 0 2, ex_reservation ''r2'' 30, None), (?st2, []))"
    using ex_reserve_ok [of ?st1 1 30 30 0 "''r2''" "[]"] by simp
  have hyps: "ae_upsertWithCas ex_env = None" "ae_persistEvent ex_env = Some ex_persist"
    "ae_releasePersistence ex_env = None" "\<And>e. \<exists>w'. ex_persist [] e = Inr w'"
    "as_activeReservations ?st2 = (''r1'', ?e1) # [(''r2'', ?e2)]"
    "br_status (te_reservation ?e1) = BR_reserved" "br_harnessRunId (te_reservation ?e1) \<notin> set []"
    "hasReservationExpired (br_expiresAt (te_reservation ?e1)) 9000 (sc_clockSkewSafetyMarginMs (ae_sweeperConfig ex_env))"
    "as_ledgerVersions ?st2 (bl_budgetLedgerId (te_ledger ?e1)) = Some 2" "2 \<noteq> bl_version (te_ledger ?e1)"
    by (simp_all add: ex_env_def ex_persist_def ex_entry_def ex_reservation_def ex_ledger_def
        hasReservationExpired_def DEFAULT_SWEEPER_CONFIG_def)
  from sweep_fails_on_moved_ledger [OF hyps, of 9000 ex_ids] obtain w' where
    "sweepExpiredReservations ex_env 9000 ex_ids [] (Some 9000) (?st2, []) = (Inl BE_ledger_version_cas_failed, (?st2, w'))"
    by blast
  with 1 2 show ?thesis by fastforce
qed

end
