(* ===== verification/Ticket_Queue.thy ===== *)
theory Ticket_Queue
  imports Prelude Complex_Main
begin

text \<open>
  The in-memory ticket queue
  (\<^verbatim>\<open>src/src/platform/five-plane-execution/queue/ticket-priority-queue.ts\<close>): two binary heaps in
  arrays, one of tickets that are ready and one of deferred tickets, with expiry and promotion.

  \<open>siftUp\<close>, \<open>siftDown\<close>, \<open>popHeap\<close> and \<open>rebuildHeap\<close> are the array routines, over any comparison
  function; the locale \<open>heap_order\<close> states what a comparison function has to satisfy and proves the
  routines correct once, and is interpreted for the two comparison functions of the queue. The
  result of a comparison is a rational of which the routines use the sign; where JavaScript
  subtracts an infinity it is -1 or 1. Each reading of the clock is an argument of the operation.
\<close>

section \<open>Array heaps\<close>

definition swap :: "'a list \<Rightarrow> nat \<Rightarrow> nat \<Rightarrow> 'a list" where
  "swap xs i j = xs[i := xs ! j, j := xs ! i]"

fun siftUp :: "('a \<Rightarrow> 'a \<Rightarrow> rat) \<Rightarrow> 'a list \<Rightarrow> nat \<Rightarrow> 'a list" where
  "siftUp compare heap cursor =
     (if cursor > 0 then
        let parent = (cursor - 1) div 2 in
        if compare (heap ! cursor) (heap ! parent) \<ge> 0 then heap
        else siftUp compare (swap heap parent cursor) parent
      else heap)"

definition siftDown_next :: "('a \<Rightarrow> 'a \<Rightarrow> rat) \<Rightarrow> 'a list \<Rightarrow> nat \<Rightarrow> nat" where
  "siftDown_next compare heap cursor =
     (let left = cursor * 2 + 1; right = left + 1;
          next = (if left < length heap \<and> compare (heap ! left) (heap ! cursor) < 0 then left else cursor)
      in if right < length heap \<and> compare (heap ! right) (heap ! next) < 0 then right else next)"

lemma siftDown_next_cases:
  "siftDown_next compare heap cursor = cursor
   \<or> siftDown_next compare heap cursor \<in> {cursor * 2 + 1, cursor * 2 + 2}
     \<and> siftDown_next compare heap cursor < length heap"
  by (auto simp: siftDown_next_def Let_def)

function siftDown :: "('a \<Rightarrow> 'a \<Rightarrow> rat) \<Rightarrow> 'a list \<Rightarrow> nat \<Rightarrow> 'a list" where
  "siftDown compare heap cursor =
     (let next = siftDown_next compare heap cursor in
      if next = cursor then heap
      else siftDown compare (swap heap cursor next) next)"
  by pat_completeness auto
termination
proof (relation "measure (\<lambda>(_, heap, cursor). length heap - cursor)", goal_cases)
  case (2 compare heap cursor x)
  then show ?case
    using siftDown_next_cases [of compare heap cursor] by (auto simp: swap_def)
qed simp

declare siftUp.simps [simp del] siftDown.simps [simp del]

lemma siftUp_stop:
  "c = 0 \<or> compare (heap ! c) (heap ! ((c - 1) div 2)) \<ge> 0 \<Longrightarrow> siftUp compare heap c = heap"
  by (subst siftUp.simps) (auto simp: Let_def)

lemma siftUp_step:
  "0 < c \<Longrightarrow> \<not> compare (heap ! c) (heap ! ((c - 1) div 2)) \<ge> 0 \<Longrightarrow>
     siftUp compare heap c = siftUp compare (swap heap ((c - 1) div 2) c) ((c - 1) div 2)"
  by (subst siftUp.simps) (simp add: Let_def)

lemma siftDown_stop: "siftDown_next compare heap c = c \<Longrightarrow> siftDown compare heap c = heap"
  by (subst siftDown.simps) (simp add: Let_def)

lemma siftDown_step:
  "siftDown_next compare heap c \<noteq> c \<Longrightarrow>
     siftDown compare heap c = siftDown compare (swap heap c (siftDown_next compare heap c)) (siftDown_next compare heap c)"
  by (subst siftDown.simps) (simp add: Let_def)

definition popHeap :: "('a \<Rightarrow> 'a \<Rightarrow> rat) \<Rightarrow> 'a list \<Rightarrow> 'a option \<times> 'a list" where
  "popHeap compare heap =
     (if heap = [] then (None, [])
      else let first = heap ! 0; last_entry = last heap; rest = butlast heap in
        (Some first, if rest \<noteq> [] then siftDown compare (rest[0 := last_entry]) 0 else rest))"

fun rebuild_loop :: "('a \<Rightarrow> 'a \<Rightarrow> rat) \<Rightarrow> 'a list \<Rightarrow> nat \<Rightarrow> 'a list" where
  "rebuild_loop compare heap 0 = heap"
| "rebuild_loop compare heap (Suc index) = rebuild_loop compare (siftDown compare heap index) index"

definition rebuildHeap :: "('a \<Rightarrow> 'a \<Rightarrow> rat) \<Rightarrow> 'a list \<Rightarrow> 'a list" where
  "rebuildHeap compare entries = rebuild_loop compare entries (length entries div 2)"

section \<open>Swaps\<close>

lemma length_swap [simp]: "length (swap xs i j) = length xs"
  by (simp add: swap_def)

lemma mset_swap [simp]: "i < length xs \<Longrightarrow> j < length xs \<Longrightarrow> mset (swap xs i j) = mset xs"
  unfolding swap_def using Multiset.mset_swap [of j xs i] by simp

lemma nth_swap:
  "i < length xs \<Longrightarrow> j < length xs \<Longrightarrow> k < length xs \<Longrightarrow>
   swap xs i j ! k = (if k = i then xs ! j else if k = j then xs ! i else xs ! k)"
  by (auto simp: swap_def nth_list_update)

section \<open>Heap order\<close>

locale heap_order =
  fixes compare :: "'a \<Rightarrow> 'a \<Rightarrow> rat"
  assumes total: "compare x y \<ge> 0 \<or> compare y x \<ge> 0"
    and trans: "compare y x \<ge> 0 \<Longrightarrow> compare z y \<ge> 0 \<Longrightarrow> compare z x \<ge> 0"
begin

definition le :: "'a \<Rightarrow> 'a \<Rightarrow> bool" where
  "le x y \<longleftrightarrow> compare y x \<ge> 0"

definition is_heap :: "'a list \<Rightarrow> bool" where
  "is_heap xs \<longleftrightarrow> (\<forall>i. 0 < i \<and> i < length xs \<longrightarrow> le (xs ! ((i - 1) div 2)) (xs ! i))"

text \<open>The heap condition for every node whose parent is at or after \<open>k\<close>.\<close>

definition heap_from :: "'a list \<Rightarrow> nat \<Rightarrow> bool" where
  "heap_from xs k \<longleftrightarrow> (\<forall>i. 0 < i \<and> i < length xs \<and> k \<le> (i - 1) div 2 \<longrightarrow> le (xs ! ((i - 1) div 2)) (xs ! i))"

lemma le_refl: "le x x"
  using total by (auto simp: le_def)

lemma le_trans: "le x y \<Longrightarrow> le y z \<Longrightarrow> le x z"
  using trans by (auto simp: le_def)

lemma not_le: "\<not> le x y \<Longrightarrow> le y x"
  using total by (auto simp: le_def)

lemma compare_less: "compare x y < 0 \<Longrightarrow> le x y"
  using total [of x y] by (auto simp: le_def)

lemma is_heap_iff_from: "is_heap xs \<longleftrightarrow> heap_from xs 0"
  by (simp add: is_heap_def heap_from_def)

lemma root_least:
  assumes "is_heap xs" and "i < length xs"
  shows "le (xs ! 0) (xs ! i)"
  using assms(2)
proof (induction i rule: less_induct)
  case (less i)
  show ?case
  proof (cases "i = 0")
    case False
    then have "(i - 1) div 2 < i" "le (xs ! ((i - 1) div 2)) (xs ! i)"
      using assms(1) less.prems by (auto simp: is_heap_def)
    with less show ?thesis by (meson le_trans less_trans)
  qed (simp add: le_refl)
qed

text \<open>A heap except that the entry at \<open>k\<close> may be smaller than its ancestors.\<close>

definition heap_above :: "'a list \<Rightarrow> nat \<Rightarrow> bool" where
  "heap_above xs k \<longleftrightarrow>
     (\<forall>i. 0 < i \<and> i < length xs \<and> i \<noteq> k \<longrightarrow> le (xs ! ((i - 1) div 2)) (xs ! i))
     \<and> (\<forall>i. 0 < k \<and> 0 < i \<and> i < length xs \<and> (i - 1) div 2 = k \<longrightarrow> le (xs ! ((k - 1) div 2)) (xs ! i))"

lemma heap_above_swap:
  assumes up: "heap_above xs k" and k: "0 < k" "k < length xs"
    and less: "compare (xs ! k) (xs ! ((k - 1) div 2)) < 0"
  shows "heap_above (swap xs ((k - 1) div 2) k) ((k - 1) div 2)"
proof -
  let ?p = "(k - 1) div 2" and ?ys = "swap xs ((k - 1) div 2) k"
  have p: "?p < k" "?p < length xs" using k by auto
  have kp: "le (xs ! k) (xs ! ?p)" by (rule compare_less [OF less])
  have edge: "le (xs ! ((i - 1) div 2)) (xs ! i)" if "0 < i" "i < length xs" "i \<noteq> k" for i
    using up that by (simp add: heap_above_def)
  have nth: "?ys ! i = (if i = ?p then xs ! k else if i = k then xs ! ?p else xs ! i)" if "i < length xs" for i
    using that p k by (simp add: nth_swap)
  have "le (?ys ! ((i - 1) div 2)) (?ys ! i)" if i: "0 < i" "i < length xs" "i \<noteq> ?p" for i
  proof (cases "(i - 1) div 2 = k")
    case True
    then have "i \<noteq> k" using i by auto
    with True i up k have "le (xs ! ?p) (xs ! i)" by (auto simp: heap_above_def)
    with True \<open>i \<noteq> k\<close> i(3) nth [OF k(2)] nth [OF i(2)] p show ?thesis by simp
  next
    case False
    have q: "(i - 1) div 2 < length xs" using i by auto
    show ?thesis
    proof (cases "i = k")
      case True
      with nth [OF p(2)] nth [OF k(2)] p kp show ?thesis by simp
    next
      case ne: False
      show ?thesis
      proof (cases "(i - 1) div 2 = ?p")
        case True
        with edge [OF i(1,2) ne] kp have "le (xs ! k) (xs ! i)" by (auto intro: le_trans)
        with True ne i nth [OF q] nth [OF i(2)] show ?thesis by simp
      next
        case False
        with \<open>(i - 1) div 2 \<noteq> k\<close> ne i(3) edge [OF i(1,2) ne] nth [OF q] nth [OF i(2)] show ?thesis
          by simp
      qed
    qed
  qed
  moreover have "le (?ys ! ((?p - 1) div 2)) (?ys ! i)"
    if i: "0 < ?p" "0 < i" "i < length xs" "(i - 1) div 2 = ?p" for i
  proof -
    have g: "le (xs ! ((?p - 1) div 2)) (xs ! ?p)"
      using edge [of ?p] i p by simp
    have "(?p - 1) div 2 < ?p" using i(1) by linarith
    then have lhs: "?ys ! ((?p - 1) div 2) = xs ! ((?p - 1) div 2)"
      using nth [of "(?p - 1) div 2"] p by auto
    show ?thesis
    proof (cases "i = k")
      case True
      then show ?thesis using nth [OF k(2)] p g lhs by simp
    next
      case False
      with edge [OF i(2,3)] i(4) g have "le (xs ! ((?p - 1) div 2)) (xs ! i)" by (auto intro: le_trans)
      moreover have "i \<noteq> ?p" using i by auto
      ultimately show ?thesis using False nth [OF i(3)] lhs by simp
    qed
  qed
  ultimately show ?thesis
    by (simp add: heap_above_def)
qed

lemma siftUp_correct:
  assumes "heap_above xs k" and "k < length xs"
  shows "is_heap (siftUp compare xs k) \<and> mset (siftUp compare xs k) = mset xs"
  using assms
proof (induction k arbitrary: xs rule: less_induct)
  case (less k)
  let ?p = "(k - 1) div 2"
  show ?case
  proof (cases "k = 0 \<or> compare (xs ! k) (xs ! ?p) \<ge> 0")
    case True
    then have "is_heap xs"
      using less.prems by (auto simp: is_heap_def heap_above_def le_def)
    with True show ?thesis by (simp add: siftUp_stop)
  next
    case False
    then have k: "0 < k" "compare (xs ! k) (xs ! ?p) < 0" by auto
    then have "?p < k" by linarith
    from less.IH [OF this heap_above_swap [OF less.prems(1) k(1) less.prems(2) k(2)]] less.prems(2) \<open>?p < k\<close> False
    show ?thesis by (simp add: siftUp_step)
  qed
qed

text \<open>A heap from \<open>k\<close> on, except that the entry at \<open>c\<close> may be larger than its children.\<close>

definition heap_below :: "'a list \<Rightarrow> nat \<Rightarrow> nat \<Rightarrow> bool" where
  "heap_below xs k c \<longleftrightarrow>
     (\<forall>i. 0 < i \<and> i < length xs \<and> k \<le> (i - 1) div 2 \<and> (i - 1) div 2 \<noteq> c \<longrightarrow> le (xs ! ((i - 1) div 2)) (xs ! i))
     \<and> (\<forall>i. 0 < i \<and> i < length xs \<and> (i - 1) div 2 = c \<and> 0 < c \<and> k \<le> (c - 1) div 2 \<longrightarrow>
            le (xs ! ((c - 1) div 2)) (xs ! i))"

lemma child_iff: "0 < i \<Longrightarrow> (i - 1) div 2 = c \<longleftrightarrow> i = c * 2 + 1 \<or> i = c * 2 + 2" for i c :: nat
  by auto

lemma siftDown_next_least:
  assumes "n = siftDown_next compare xs c"
  shows "le (xs ! n) (xs ! c)"
    and "c * 2 + 1 < length xs \<Longrightarrow> le (xs ! n) (xs ! (c * 2 + 1))"
    and "c * 2 + 2 < length xs \<Longrightarrow> le (xs ! n) (xs ! (c * 2 + 2))"
proof -
  let ?m = "if c * 2 + 1 < length xs \<and> compare (xs ! (c * 2 + 1)) (xs ! c) < 0 then c * 2 + 1 else c"
  have m: "le (xs ! ?m) (xs ! c)" "c * 2 + 1 < length xs \<Longrightarrow> le (xs ! ?m) (xs ! (c * 2 + 1))"
    using le_refl compare_less by (auto simp: le_def not_less)
  have n: "n = (if c * 2 + 2 < length xs \<and> compare (xs ! (c * 2 + 2)) (xs ! ?m) < 0 then c * 2 + 2 else ?m)"
    using assms by (simp add: siftDown_next_def Let_def)
  have "le (xs ! n) (xs ! ?m)"
    using n le_refl compare_less by auto
  then show "le (xs ! n) (xs ! c)" "c * 2 + 1 < length xs \<Longrightarrow> le (xs ! n) (xs ! (c * 2 + 1))"
    using m le_trans by blast+
  show "c * 2 + 2 < length xs \<Longrightarrow> le (xs ! n) (xs ! (c * 2 + 2))"
    using n le_refl by (auto simp: le_def not_less)
qed

lemma heap_below_swap:
  assumes down: "heap_below xs k c" and n: "n = siftDown_next compare xs c" "n \<noteq> c"
    and c: "k \<le> c" "c < length xs"
  shows "heap_below (swap xs c n) k n"
proof -
  let ?ys = "swap xs c n"
  have nc: "n = c * 2 + 1 \<or> n = c * 2 + 2" and nl: "n < length xs"
    using siftDown_next_cases [of compare xs c] n by auto
  have pn: "(n - 1) div 2 = c" "0 < n" "c < n" using nc by auto
  have nth: "?ys ! i = (if i = c then xs ! n else if i = n then xs ! c else xs ! i)" if "i < length xs" for i
    using that nl c by (simp add: nth_swap)
  note least = siftDown_next_least [OF n(1)]
  have child: "le (xs ! n) (xs ! i)" if "0 < i" "i < length xs" "(i - 1) div 2 = c" for i
    using that least child_iff [of i c] by auto
  have edge: "le (xs ! ((i - 1) div 2)) (xs ! i)"
    if "0 < i" "i < length xs" "k \<le> (i - 1) div 2" "(i - 1) div 2 \<noteq> c" for i
    using down that by (simp add: heap_below_def)
  have "le (?ys ! ((i - 1) div 2)) (?ys ! i)"
    if i: "0 < i" "i < length xs" "k \<le> (i - 1) div 2" "(i - 1) div 2 \<noteq> n" for i
  proof -
    have q: "(i - 1) div 2 < length xs" using i by linarith
    consider "i = n" | "i = c" | "i \<noteq> n" "i \<noteq> c" "(i - 1) div 2 = c" | "i \<noteq> n" "i \<noteq> c" "(i - 1) div 2 \<noteq> c"
      by blast
    then show ?thesis
    proof cases
      case 1
      then show ?thesis using nth [OF i(2)] nth [OF q] pn least(1) by simp
    next
      case 2
      then have "le (xs ! ((c - 1) div 2)) (xs ! n)"
        using down i pn nl by (simp add: heap_below_def)
      moreover have "(c - 1) div 2 \<noteq> c" using 2 i by linarith
      ultimately show ?thesis using 2 nth [OF i(2)] nth [OF q] i(4) by simp
    next
      case 3
      then show ?thesis using nth [OF i(2)] nth [OF q] child [OF i(1,2)] by simp
    next
      case 4
      then show ?thesis using nth [OF i(2)] nth [OF q] edge [OF i(1-3)] i(4) by simp
    qed
  qed
  moreover have "le (?ys ! ((n - 1) div 2)) (?ys ! i)" if i: "0 < i" "i < length xs" "(i - 1) div 2 = n" for i
  proof -
    have "i \<noteq> n" "i \<noteq> c" using i pn by linarith+
    moreover have "le (xs ! n) (xs ! i)"
      using edge [OF i(1,2)] i(3) pn c by simp
    ultimately show ?thesis using nth [OF i(2)] nth [OF c(2)] pn by simp
  qed
  ultimately show ?thesis
    by (simp add: heap_below_def)
qed

lemma heap_below_stop:
  assumes "heap_below xs k c" and "siftDown_next compare xs c = c"
  shows "heap_from xs k"
  unfolding heap_from_def
proof (intro allI impI, elim conjE)
  fix i assume i: "0 < i" "i < length xs" "k \<le> (i - 1) div 2"
  show "le (xs ! ((i - 1) div 2)) (xs ! i)"
  proof (cases "(i - 1) div 2 = c")
    case True
    then show ?thesis
      using child_iff [OF i(1), of c] siftDown_next_least(2,3) [OF assms(2) [symmetric]] i(2) by auto
  next
    case False
    then show ?thesis using assms(1) i by (simp add: heap_below_def)
  qed
qed

lemma siftDown_correct:
  assumes "heap_below xs k c" and "k \<le> c" and "c < length xs"
  shows "heap_from (siftDown compare xs c) k \<and> mset (siftDown compare xs c) = mset xs"
  using assms
proof (induction "length xs - c" arbitrary: xs c rule: less_induct)
  case less
  let ?n = "siftDown_next compare xs c"
  show ?case
  proof (cases "?n = c")
    case True
    with heap_below_stop [OF less.prems(1)] show ?thesis
      by (simp add: siftDown_stop)
  next
    case False
    with siftDown_next_cases [of compare xs c] have n: "c < ?n" "?n < length xs" by auto
    from less.hyps [OF _ heap_below_swap [OF less.prems(1) refl False less.prems(2,3)]] n less.prems
    have "heap_from (siftDown compare (swap xs c ?n) ?n) k
        \<and> mset (siftDown compare (swap xs c ?n) ?n) = mset xs"
      by simp
    with False show ?thesis
      by (simp add: siftDown_step)
  qed
qed

lemma heap_below_whole: "heap_from xs (Suc c) \<Longrightarrow> heap_below xs c c"
  by (auto simp: heap_from_def heap_below_def)

lemma rebuild_loop_correct:
  assumes "heap_from xs n" and "n \<le> length xs div 2"
  shows "is_heap (rebuild_loop compare xs n) \<and> mset (rebuild_loop compare xs n) = mset xs"
  using assms
proof (induction n arbitrary: xs)
  case 0
  then show ?case by (simp add: is_heap_iff_from)
next
  case (Suc n)
  have s: "heap_from (siftDown compare xs n) n \<and> mset (siftDown compare xs n) = mset xs"
    using siftDown_correct [OF heap_below_whole [OF Suc.prems(1)]] Suc.prems(2) by simp
  then have "length (siftDown compare xs n) = length xs"
    by (metis size_mset)
  with s Suc.IH [of "siftDown compare xs n"] Suc.prems(2) show ?case by simp
qed

lemma rebuildHeap_correct:
  shows "is_heap (rebuildHeap compare xs)" and "mset (rebuildHeap compare xs) = mset xs"
proof -
  have "heap_from xs (length xs div 2)"
    unfolding heap_from_def by (intro allI impI) linarith
  from rebuild_loop_correct [OF this order_refl]
  show "is_heap (rebuildHeap compare xs)" "mset (rebuildHeap compare xs) = mset xs"
    by (simp_all add: rebuildHeap_def)
qed

lemma push_correct:
  assumes "is_heap xs"
  shows "is_heap (siftUp compare (xs @ [x]) (length xs))"
    and "mset (siftUp compare (xs @ [x]) (length xs)) = add_mset x (mset xs)"
proof -
  have "heap_above (xs @ [x]) (length xs)"
    unfolding heap_above_def
  proof (intro conjI allI impI)
    fix i assume i: "0 < i \<and> i < length (xs @ [x]) \<and> i \<noteq> length xs"
    then have "(i - 1) div 2 < length xs" by simp linarith
    with i assms show "le ((xs @ [x]) ! ((i - 1) div 2)) ((xs @ [x]) ! i)"
      by (simp add: is_heap_def nth_append)
  next
    fix i assume "0 < length xs \<and> 0 < i \<and> i < length (xs @ [x]) \<and> (i - 1) div 2 = length xs"
    then have False by simp linarith
    then show "le ((xs @ [x]) ! ((length xs - 1) div 2)) ((xs @ [x]) ! i)" ..
  qed
  from siftUp_correct [OF this] show "is_heap (siftUp compare (xs @ [x]) (length xs))"
    "mset (siftUp compare (xs @ [x]) (length xs)) = add_mset x (mset xs)"
    by simp_all
qed

lemma popHeap_empty: "popHeap compare xs = (None, ys) \<longleftrightarrow> xs = [] \<and> ys = []"
  by (auto simp: popHeap_def Let_def)

lemma popHeap_correct:
  assumes "is_heap xs" and "popHeap compare xs = (Some x, ys)"
  shows "mset xs = add_mset x (mset ys) \<and> is_heap ys \<and> (\<forall>y \<in># mset xs. le x y)"
proof -
  have ne: "xs \<noteq> []" and x: "x = xs ! 0"
    using assms(2) by (auto simp: popHeap_def Let_def split: if_splits)
  have least: "\<forall>y \<in># mset xs. le x y"
    using root_least [OF assms(1)] x by (auto simp: in_set_conv_nth)
  show ?thesis
  proof (cases "butlast xs")
    case Nil
    with ne x assms(2) have "xs = [x]" "ys = []"
      by (cases xs rule: rev_cases, auto simp: popHeap_def Let_def)+
    with least show ?thesis by (simp add: is_heap_def)
  next
    case (Cons z zs)
    have xs: "xs = z # zs @ [last xs]"
      using ne Cons by (metis append_butlast_last_id append_Cons)
    then have xz: "x = z" using x by (metis nth_Cons_0)
    let ?h = "last xs # zs"
    have ys: "ys = siftDown compare ?h 0"
      using assms(2) ne Cons by (simp add: popHeap_def Let_def)
    have "heap_below ?h 0 0"
      unfolding heap_below_def
    proof (intro conjI allI impI)
      fix i assume i: "0 < i \<and> i < length ?h \<and> 0 \<le> (i - 1) div 2 \<and> (i - 1) div 2 \<noteq> 0"
      then have "le (xs ! ((i - 1) div 2)) (xs ! i)"
        using assms(1) xs by (metis (no_types, lifting) Suc_less_eq is_heap_def length_Cons
            length_append_singleton less_SucI)
      moreover have "xs ! j = ?h ! j" if "0 < j" "j < length ?h" for j
        using that by (subst xs) (auto simp: nth_Cons nth_append split: nat.splits)
      moreover have "(i - 1) div 2 < length ?h" using i by linarith
      ultimately show "le (?h ! ((i - 1) div 2)) (?h ! i)"
        using i by simp
    qed simp
    from siftDown_correct [OF this] ys have "is_heap ys" "mset ys = mset ?h"
      by (simp_all add: is_heap_iff_from)
    moreover have "mset xs = add_mset x (mset ?h)"
      by (subst xs) (simp add: xz)
    ultimately show ?thesis using least by simp
  qed
qed

end

section \<open>Tickets\<close>

datatype date_string = Parsed timestamp | Unparsable

record ticket =
  tk_id :: ident
  tk_priority :: rat
  tk_payload :: string
  tk_dispatchAfter :: "date_string option"
  tk_createdAt :: timestamp

record queue_entry =
  qe_ticket :: ticket
  qe_sequence :: int
  qe_dispatchAfterMs :: "timestamp option"
  qe_expiresAtMs :: timestamp

record enqueue_input =
  eq_payload :: string
  eq_priority :: "rat option"
  eq_dispatchAfter :: "date_string option"

record queue_options =
  qo_maxTickets :: "int option"
  qo_ticketTtlMs :: "int option"

record ticket_queue =
  tq_readyTickets :: "queue_entry list"
  tq_deferredTickets :: "queue_entry list"
  tq_sequence :: int

datatype queue_error = Memory_only_forbidden_in_production | Capacity_exceeded | Dispatch_after_invalid

definition compareReadyEntries :: "queue_entry \<Rightarrow> queue_entry \<Rightarrow> rat" where
  "compareReadyEntries left right =
     (if tk_priority (qe_ticket left) \<noteq> tk_priority (qe_ticket right)
      then tk_priority (qe_ticket right) - tk_priority (qe_ticket left)
      else of_int (qe_sequence left - qe_sequence right))"

definition compareDeferredEntries :: "queue_entry \<Rightarrow> queue_entry \<Rightarrow> rat" where
  "compareDeferredEntries left right =
     (case (qe_dispatchAfterMs left, qe_dispatchAfterMs right) of
        (None, None) \<Rightarrow> compareReadyEntries left right
      | (None, Some _) \<Rightarrow> -1
      | (Some _, None) \<Rightarrow> 1
      | (Some l, Some r) \<Rightarrow> if l \<noteq> r then of_int (l - r) else compareReadyEntries left right)"

definition new_TicketPriorityQueue :: "string option \<Rightarrow> queue_error + ticket_queue" where
  "new_TicketPriorityQueue NODE_ENV =
     bindE (throw_if (NODE_ENV = Some ''production'') Memory_only_forbidden_in_production)
       (\<lambda>_. Inr \<lparr>tq_readyTickets = [], tq_deferredTickets = [], tq_sequence = 0\<rparr>)"

definition maxTickets :: "queue_options \<Rightarrow> int" where
  "maxTickets opts = coalesce (qo_maxTickets opts) 10000"

definition ticketTtlMs :: "queue_options \<Rightarrow> int" where
  "ticketTtlMs opts = coalesce (qo_ticketTtlMs opts) (24 * 60 * 60 * 1000)"

definition parseDispatchAfterMs :: "date_string option \<Rightarrow> queue_error + timestamp option" where
  "parseDispatchAfterMs d =
     (case d of
        None \<Rightarrow> Inr None
      | Some (Parsed ms) \<Rightarrow> Inr (Some ms)
      | Some Unparsable \<Rightarrow> Inl Dispatch_after_invalid)"

definition pushReady :: "queue_entry \<Rightarrow> ticket_queue \<Rightarrow> ticket_queue" where
  "pushReady e q = q\<lparr>tq_readyTickets :=
     siftUp compareReadyEntries (tq_readyTickets q @ [e]) (length (tq_readyTickets q))\<rparr>"

definition pushDeferred :: "queue_entry \<Rightarrow> ticket_queue \<Rightarrow> ticket_queue" where
  "pushDeferred e q = q\<lparr>tq_deferredTickets :=
     siftUp compareDeferredEntries (tq_deferredTickets q @ [e]) (length (tq_deferredTickets q))\<rparr>"

definition popReady :: "ticket_queue \<Rightarrow> queue_entry option \<times> ticket_queue" where
  "popReady q = (let (e, rest) = popHeap compareReadyEntries (tq_readyTickets q)
                 in (e, q\<lparr>tq_readyTickets := rest\<rparr>))"

definition popDeferred :: "ticket_queue \<Rightarrow> queue_entry option \<times> ticket_queue" where
  "popDeferred q = (let (e, rest) = popHeap compareDeferredEntries (tq_deferredTickets q)
                    in (e, q\<lparr>tq_deferredTickets := rest\<rparr>))"

definition pruneExpiredTickets :: "timestamp \<Rightarrow> ticket_queue \<Rightarrow> ticket_queue" where
  "pruneExpiredTickets nowMs q =
     q\<lparr>tq_readyTickets := rebuildHeap compareReadyEntries
          (filter (\<lambda>e. qe_expiresAtMs e > nowMs) (tq_readyTickets q)),
       tq_deferredTickets := rebuildHeap compareDeferredEntries
          (filter (\<lambda>e. qe_expiresAtMs e > nowMs) (tq_deferredTickets q))\<rparr>"

definition queue_size :: "timestamp \<Rightarrow> ticket_queue \<Rightarrow> int \<times> ticket_queue" where
  "queue_size nowMs q =
     (let q' = pruneExpiredTickets nowMs q
      in (int (length (tq_readyTickets q') + length (tq_deferredTickets q')), q'))"

lemma length_siftDown [simp]: "length (siftDown compare heap c) = length heap"
  by (induction compare heap c rule: siftDown.induct) (subst siftDown.simps, simp add: Let_def)

lemma length_popHeap: "popHeap compare xs = (Some x, ys) \<Longrightarrow> length ys < length xs"
  by (auto simp: popHeap_def Let_def split: if_splits)

function promoteDeferredTickets :: "timestamp \<Rightarrow> ticket_queue \<Rightarrow> ticket_queue" where
  "promoteDeferredTickets nowMs q =
     (case Option.bind (map_option qe_dispatchAfterMs
              (if tq_deferredTickets q = [] then None else Some (tq_deferredTickets q ! 0))) id of
        None \<Rightarrow> q
      | Some readyAt \<Rightarrow>
          if readyAt \<le> nowMs then
            (case popDeferred q of
               (None, _) \<Rightarrow> q
             | (Some entry, q') \<Rightarrow> promoteDeferredTickets nowMs (pushReady entry q'))
          else q)"
  by pat_completeness auto
termination
  by (relation "measure (\<lambda>(_, q). length (tq_deferredTickets q))")
    (auto simp: popDeferred_def pushReady_def Let_def split: prod.splits dest: length_popHeap)

declare promoteDeferredTickets.simps [simp del]

text \<open>
  The clock is read by the first pruning (\<open>t1\<close>), by the pruning in the \<^verbatim>\<open>size\<close> getter (\<open>t2\<close>), for
  \<^verbatim>\<open>createdAt\<close> (\<open>t3\<close>) and for the deadlines (\<open>t4\<close>). The sequence number is taken before the dispatch
  time is parsed.
\<close>

definition enqueue ::
    "queue_options \<Rightarrow> ident \<Rightarrow> timestamp \<Rightarrow> timestamp \<Rightarrow> timestamp \<Rightarrow> timestamp \<Rightarrow> enqueue_input \<Rightarrow>
     (ticket_queue, queue_error, ticket) prog" where
  "enqueue opts newId t1 t2 t3 t4 i =
     bindP (modifyP (pruneExpiredTickets t1)) (\<lambda>_.
     bindP (\<lambda>q. let (n, q') = queue_size t2 q in (Inr n, q')) (\<lambda>n.
     bindP (throwP_if (n \<ge> maxTickets opts) Capacity_exceeded) (\<lambda>_.
     let ticket = \<lparr>tk_id = newId, tk_priority = coalesce (eq_priority i) 0, tk_payload = eq_payload i,
                   tk_dispatchAfter = eq_dispatchAfter i, tk_createdAt = t3\<rparr>
     in bindP (getsP tq_sequence) (\<lambda>seqno.
        bindP (modifyP (\<lambda>q. q\<lparr>tq_sequence := seqno + 1\<rparr>)) (\<lambda>_.
        bindP (liftP (parseDispatchAfterMs (tk_dispatchAfter ticket))) (\<lambda>dispatchAfterMs.
        let entry = \<lparr>qe_ticket = ticket, qe_sequence = seqno, qe_dispatchAfterMs = dispatchAfterMs,
                     qe_expiresAtMs = t4 + ticketTtlMs opts\<rparr>
        in bindP (modifyP (case dispatchAfterMs of
                             Some d \<Rightarrow> if d > t4 then pushDeferred entry else pushReady entry
                           | None \<Rightarrow> pushReady entry))
             (\<lambda>_. returnP ticket)))))))"

definition dequeue :: "timestamp \<Rightarrow> timestamp \<Rightarrow> ticket_queue \<Rightarrow> ticket option \<times> ticket_queue" where
  "dequeue t1 t2 q =
     (let (entry, q') = popReady (promoteDeferredTickets t2 (pruneExpiredTickets t1 q))
      in (map_option qe_ticket entry, q'))"

definition peek :: "timestamp \<Rightarrow> timestamp \<Rightarrow> ticket_queue \<Rightarrow> ticket option \<times> ticket_queue" where
  "peek t1 t2 q =
     (let q' = promoteDeferredTickets t2 (pruneExpiredTickets t1 q)
      in (if tq_readyTickets q' = [] then None else Some (qe_ticket (tq_readyTickets q' ! 0)), q'))"

definition clear :: "ticket_queue \<Rightarrow> ticket_queue" where
  "clear q = q\<lparr>tq_readyTickets := [], tq_deferredTickets := [], tq_sequence := 0\<rparr>"

section \<open>The heaps of the queue\<close>

interpretation ready: heap_order compareReadyEntries
  by unfold_locales (auto simp: compareReadyEntries_def split: if_splits)

interpretation deferred: heap_order compareDeferredEntries
proof unfold_locales
  show "compareDeferredEntries x y \<ge> 0 \<or> compareDeferredEntries y x \<ge> 0" for x y
    using ready.total [of x y] by (auto simp: compareDeferredEntries_def split: option.splits)
  show "compareDeferredEntries z x \<ge> 0" if "compareDeferredEntries y x \<ge> 0" "compareDeferredEntries z y \<ge> 0" for x y z
    using that ready.trans [of y x z]
    by (auto simp: compareDeferredEntries_def split: option.splits if_splits)
qed

section \<open>Abstract view and invariant\<close>

definition bag :: "ticket_queue \<Rightarrow> queue_entry multiset" where
  "bag q = mset (tq_readyTickets q) + mset (tq_deferredTickets q)"

definition due :: "timestamp \<Rightarrow> queue_entry \<Rightarrow> bool" where
  "due nowMs e \<longleftrightarrow> (case qe_dispatchAfterMs e of None \<Rightarrow> False | Some d \<Rightarrow> d \<le> nowMs)"

text \<open>The entries that a dequeue may serve: unexpired, and ready or due.\<close>

definition eligible :: "timestamp \<Rightarrow> timestamp \<Rightarrow> ticket_queue \<Rightarrow> queue_entry multiset" where
  "eligible t1 t2 q =
     {#e \<in># mset (tq_readyTickets q). qe_expiresAtMs e > t1#}
     + {#e \<in># mset (tq_deferredTickets q). qe_expiresAtMs e > t1 \<and> due t2 e#}"

text \<open>Served before: higher priority, or the same priority and enqueued earlier.\<close>

definition precedes :: "queue_entry \<Rightarrow> queue_entry \<Rightarrow> bool" where
  "precedes e f \<longleftrightarrow>
     tk_priority (qe_ticket e) > tk_priority (qe_ticket f)
     \<or> tk_priority (qe_ticket e) = tk_priority (qe_ticket f) \<and> qe_sequence e < qe_sequence f"

definition unique_seqs :: "queue_entry multiset \<Rightarrow> bool" where
  "unique_seqs m \<longleftrightarrow> (\<forall>n. count (image_mset qe_sequence m) n \<le> 1)"

definition queue_inv :: "ticket_queue \<Rightarrow> bool" where
  "queue_inv q \<longleftrightarrow>
     ready.is_heap (tq_readyTickets q) \<and> deferred.is_heap (tq_deferredTickets q)
     \<and> (\<forall>e \<in># mset (tq_deferredTickets q). qe_dispatchAfterMs e \<noteq> None)
     \<and> unique_seqs (bag q) \<and> (\<forall>e \<in># bag q. qe_sequence e < tq_sequence q)"

lemma unique_seqs_mono: "m \<subseteq># m' \<Longrightarrow> unique_seqs m' \<Longrightarrow> unique_seqs m"
  unfolding unique_seqs_def by (meson image_mset_subseteq_mono le_trans mset_subset_eq_count)

lemma unique_seqs_add:
  "unique_seqs (add_mset e m) \<longleftrightarrow> unique_seqs m \<and> (\<forall>f \<in># m. qe_sequence f \<noteq> qe_sequence e)"
proof -
  define c where "c = count (image_mset qe_sequence m)"
  have fresh: "(\<forall>f \<in># m. qe_sequence f \<noteq> qe_sequence e) \<longleftrightarrow> c (qe_sequence e) = 0"
    unfolding c_def by (auto simp: count_eq_zero_iff) (metis imageI)
  have "unique_seqs (add_mset e m) \<longleftrightarrow> (\<forall>n. (if n = qe_sequence e then Suc (c n) else c n) \<le> 1)"
    unfolding unique_seqs_def c_def by (intro all_cong1) auto
  also have "\<dots> \<longleftrightarrow> (\<forall>n. c n \<le> 1) \<and> c (qe_sequence e) = 0"
  proof (intro iffI conjI allI)
    assume all: "\<forall>n. (if n = qe_sequence e then Suc (c n) else c n) \<le> 1"
    show "c n \<le> 1" for n using all [rule_format, of n] by (auto split: if_splits)
    show "c (qe_sequence e) = 0" using all [rule_format, of "qe_sequence e"] by simp
  next
    fix n assume "(\<forall>n. c n \<le> 1) \<and> c (qe_sequence e) = 0"
    then show "(if n = qe_sequence e then Suc (c n) else c n) \<le> 1" by auto
  qed
  finally show ?thesis
    by (simp add: fresh unique_seqs_def c_def)
qed

lemma queue_inv_shrink:
  assumes "queue_inv q" and "ready.is_heap (tq_readyTickets q')" "deferred.is_heap (tq_deferredTickets q')"
    and "bag q' \<subseteq># bag q" and "tq_sequence q' = tq_sequence q"
    and "set_mset (mset (tq_deferredTickets q')) \<subseteq> set_mset (mset (tq_deferredTickets q))"
  shows "queue_inv q'"
  using assms mset_subset_eqD [OF assms(4)] unique_seqs_mono [OF assms(4)]
  unfolding queue_inv_def by (metis subsetD)

lemma prune_bag:
  "mset (tq_readyTickets (pruneExpiredTickets t q)) = {#e \<in># mset (tq_readyTickets q). qe_expiresAtMs e > t#}"
  "mset (tq_deferredTickets (pruneExpiredTickets t q)) = {#e \<in># mset (tq_deferredTickets q). qe_expiresAtMs e > t#}"
  "bag (pruneExpiredTickets t q) = {#e \<in># bag q. qe_expiresAtMs e > t#}"
  "tq_sequence (pruneExpiredTickets t q) = tq_sequence q"
  by (simp_all add: pruneExpiredTickets_def ready.rebuildHeap_correct deferred.rebuildHeap_correct bag_def)

lemma prune_inv: "queue_inv q \<Longrightarrow> queue_inv (pruneExpiredTickets t q)"
  by (erule queue_inv_shrink)
    (auto simp: prune_bag, simp_all add: pruneExpiredTickets_def ready.rebuildHeap_correct
      deferred.rebuildHeap_correct)

text \<open>One round of the promotion loop moves the head of the deferred heap to the ready heap.\<close>

lemma promote_round:
  assumes inv: "queue_inv q" and pop: "popDeferred q = (Some e, q1)"
  shows "queue_inv (pushReady e q1)" "e = tq_deferredTickets q ! 0"
    "mset (tq_deferredTickets q) = add_mset e (mset (tq_deferredTickets (pushReady e q1)))"
    "mset (tq_readyTickets (pushReady e q1)) = add_mset e (mset (tq_readyTickets q))"
    "tq_sequence (pushReady e q1) = tq_sequence q"
proof -
  obtain rest where rest: "popHeap compareDeferredEntries (tq_deferredTickets q) = (Some e, rest)"
    and q1: "q1 = q\<lparr>tq_deferredTickets := rest\<rparr>"
    using pop by (auto simp: popDeferred_def Let_def split: prod.splits)
  have heaps: "ready.is_heap (tq_readyTickets q)" "deferred.is_heap (tq_deferredTickets q)"
    using inv by (simp_all add: queue_inv_def)
  note popped = deferred.popHeap_correct [OF heaps(2) rest]
  note pushed = ready.push_correct [OF heaps(1), of e]
  show "e = tq_deferredTickets q ! 0"
    using rest by (auto simp: popHeap_def Let_def split: if_splits)
  show d: "mset (tq_deferredTickets q) = add_mset e (mset (tq_deferredTickets (pushReady e q1)))"
    and r: "mset (tq_readyTickets (pushReady e q1)) = add_mset e (mset (tq_readyTickets q))"
    and "tq_sequence (pushReady e q1) = tq_sequence q"
    using popped pushed by (simp_all add: pushReady_def q1)
  show "queue_inv (pushReady e q1)"
    by (rule queue_inv_shrink [OF inv])
      (use popped pushed d r in \<open>auto simp: pushReady_def q1 bag_def\<close>)
qed

lemma promote_stop_not_due:
  assumes inv: "queue_inv q" and head: "tq_deferredTickets q = [] \<or> \<not> due t (tq_deferredTickets q ! 0)"
  shows "\<forall>e \<in># mset (tq_deferredTickets q). \<not> due t e"
proof
  fix e assume "e \<in># mset (tq_deferredTickets q)"
  then obtain i where i: "i < length (tq_deferredTickets q)" "e = tq_deferredTickets q ! i"
    by (auto simp: in_set_conv_nth)
  let ?h = "tq_deferredTickets q ! 0"
  have "?h \<in># mset (tq_deferredTickets q)" using i by (cases "tq_deferredTickets q") auto
  then obtain d0 where d0: "qe_dispatchAfterMs ?h = Some d0"
    using inv by (auto simp: queue_inv_def)
  have "deferred.le ?h e"
    using deferred.root_least i inv by (simp add: queue_inv_def)
  with d0 head i show "\<not> due t e"
    by (auto simp: deferred.le_def compareDeferredEntries_def due_def split: option.splits if_splits)
qed

lemma promote_step:
  "promoteDeferredTickets t q =
     (if tq_deferredTickets q \<noteq> [] \<and> due t (tq_deferredTickets q ! 0)
      then (case popDeferred q of (None, _) \<Rightarrow> q | (Some e, q') \<Rightarrow> promoteDeferredTickets t (pushReady e q'))
      else q)"
  by (subst promoteDeferredTickets.simps) (auto simp: due_def split: option.splits)

lemma promote_correct:
  assumes "queue_inv q"
  shows "queue_inv (promoteDeferredTickets t q)
    \<and> mset (tq_readyTickets (promoteDeferredTickets t q))
        = mset (tq_readyTickets q) + {#e \<in># mset (tq_deferredTickets q). due t e#}
    \<and> mset (tq_deferredTickets (promoteDeferredTickets t q)) = {#e \<in># mset (tq_deferredTickets q). \<not> due t e#}
    \<and> tq_sequence (promoteDeferredTickets t q) = tq_sequence q"
  using assms
proof (induction "length (tq_deferredTickets q)" arbitrary: q rule: less_induct)
  case less
  show ?case
  proof (cases "tq_deferredTickets q \<noteq> [] \<and> due t (tq_deferredTickets q ! 0)")
    case False
    then have p: "promoteDeferredTickets t q = q" by (subst promote_step) auto
    have "\<forall>e \<in># mset (tq_deferredTickets q). \<not> due t e"
      using promote_stop_not_due [OF less.prems] False by blast
    then have "{#e \<in># mset (tq_deferredTickets q). due t e#} = {#}"
      "{#e \<in># mset (tq_deferredTickets q). \<not> due t e#} = mset (tq_deferredTickets q)"
      by (simp_all add: multiset_eq_iff not_in_iff) (metis count_eq_zero_iff)+
    with less.prems show ?thesis by (simp only: p) simp
  next
    case True
    then obtain e q1 where pop: "popDeferred q = (Some e, q1)"
      by (cases "popDeferred q", cases "fst (popDeferred q)")
        (auto simp: popDeferred_def Let_def deferred.popHeap_empty split: prod.splits)
    note round = promote_round [OF less.prems pop]
    have p: "promoteDeferredTickets t q = promoteDeferredTickets t (pushReady e q1)"
      using True pop by (subst promote_step) simp
    have "length (tq_deferredTickets (pushReady e q1)) < length (tq_deferredTickets q)"
      using arg_cong [OF round(3), of size] by simp
    from less.hyps [OF this round(1)] round True show ?thesis
      by (simp only: p) simp
  qed
qed

lemma dequeue_unfold:
  assumes "queue_inv q"
  obtains q1 where "queue_inv q1" "mset (tq_readyTickets q1) = eligible t1 t2 q"
    "bag q1 = {#e \<in># bag q. qe_expiresAtMs e > t1#}" "tq_sequence q1 = tq_sequence q"
    "promoteDeferredTickets t2 (pruneExpiredTickets t1 q) = q1"
proof -
  let ?p = "pruneExpiredTickets t1 q"
  note pr = promote_correct [OF prune_inv [OF assms, of t1], of t2]
  have "mset (tq_readyTickets (promoteDeferredTickets t2 ?p)) = eligible t1 t2 q"
    using pr by (simp add: prune_bag eligible_def filter_filter_mset conj_commute)
  moreover have "bag (promoteDeferredTickets t2 ?p) = {#e \<in># bag q. qe_expiresAtMs e > t1#}"
    using pr by (simp add: bag_def prune_bag add.assoc flip: multiset_partition)
  ultimately show thesis
    using pr prune_bag(4) by (intro that) auto
qed

lemma queue_inv_add:
  assumes "queue_inv q" "qe_sequence e = tq_sequence q"
    and "ready.is_heap (tq_readyTickets q')" "deferred.is_heap (tq_deferredTickets q')"
    and "bag q' = add_mset e (bag q)" "tq_sequence q' = tq_sequence q + 1"
    and "\<forall>f \<in># mset (tq_deferredTickets q'). qe_dispatchAfterMs f \<noteq> None"
  shows "queue_inv q'"
proof -
  have "\<forall>f \<in># bag q. qe_sequence f < tq_sequence q" "unique_seqs (bag q)"
    using assms(1) by (simp_all add: queue_inv_def)
  with assms show ?thesis
    unfolding queue_inv_def by (auto simp: unique_seqs_add simp del: set_mset_mset)
qed

lemma push_ready_inv:
  assumes "queue_inv q" "qe_sequence e = tq_sequence q"
  defines "q' \<equiv> pushReady e (q\<lparr>tq_sequence := tq_sequence q + 1\<rparr>)"
  shows "queue_inv q' \<and> bag q' = add_mset e (bag q)"
proof -
  note push = ready.push_correct [of "tq_readyTickets q" e]
  have bag: "bag q' = add_mset e (bag q)"
    using assms(1) push by (simp add: q'_def pushReady_def bag_def queue_inv_def)
  moreover have "queue_inv q'"
    by (rule queue_inv_add [OF assms(1,2) _ _ bag])
      (use assms(1) push in \<open>simp_all add: q'_def pushReady_def queue_inv_def\<close>)
  ultimately show ?thesis by simp
qed

lemma push_deferred_inv:
  assumes "queue_inv q" "qe_sequence e = tq_sequence q" "qe_dispatchAfterMs e \<noteq> None"
  defines "q' \<equiv> pushDeferred e (q\<lparr>tq_sequence := tq_sequence q + 1\<rparr>)"
  shows "queue_inv q' \<and> bag q' = add_mset e (bag q)"
proof -
  note push = deferred.push_correct [of "tq_deferredTickets q" e]
  have bag: "bag q' = add_mset e (bag q)"
    using assms(1) push by (simp add: q'_def pushDeferred_def bag_def queue_inv_def)
  have "mset (tq_deferredTickets q') = add_mset e (mset (tq_deferredTickets q))"
    using assms(1) push by (simp add: q'_def pushDeferred_def queue_inv_def)
  then have "\<forall>f \<in># mset (tq_deferredTickets q'). qe_dispatchAfterMs f \<noteq> None"
    using assms(1,3) by (simp add: queue_inv_def del: set_mset_mset)
  then have "queue_inv q'"
    by (intro queue_inv_add [OF assms(1,2) _ _ bag])
      (use assms(1,3) push in \<open>simp_all add: q'_def pushDeferred_def queue_inv_def\<close>)
  with bag show ?thesis by simp
qed

lemma queue_size_bag: "fst (queue_size t q) = int (size (bag (pruneExpiredTickets t q)))"
  by (simp add: queue_size_def Let_def bag_def)

lemma enqueue_success:
  assumes "enqueue opts newId t1 t2 t3 t4 i q = (Inr t, q')"
  shows "fst (queue_size t2 (pruneExpiredTickets t1 q)) < maxTickets opts
    \<and> (\<exists>d. q' = (let q0 = pruneExpiredTickets t2 (pruneExpiredTickets t1 q);
                     e = \<lparr>qe_ticket = t, qe_sequence = tq_sequence q0, qe_dispatchAfterMs = d,
                          qe_expiresAtMs = t4 + ticketTtlMs opts\<rparr>
                 in (case d of Some x \<Rightarrow> if x > t4 then pushDeferred e else pushReady e | None \<Rightarrow> pushReady e)
                      (q0\<lparr>tq_sequence := tq_sequence q0 + 1\<rparr>)))"
  using assms by (auto simp: enqueue_def prog_ok queue_size_def Let_def)

section \<open>Properties\<close>

text \<open>
  C33. Dequeuing refines the abstract queue: among the unexpired tickets that are ready or whose
  dispatch time has come, it returns the one that precedes all others (highest priority, then
  first enqueued) and removes exactly that one; it returns nothing only when there is none; and
  the queue's invariant is kept.
\<close>

theorem dequeue_serves_best:
  assumes "queue_inv q" and "dequeue t1 t2 q = (r, q')"
  shows "queue_inv q'
    \<and> (case r of
         None \<Rightarrow> eligible t1 t2 q = {#} \<and> bag q' = {#e \<in># bag q. qe_expiresAtMs e > t1#}
       | Some t \<Rightarrow> \<exists>e. e \<in># eligible t1 t2 q \<and> t = qe_ticket e
             \<and> add_mset e (bag q') = {#f \<in># bag q. qe_expiresAtMs f > t1#}
             \<and> (\<forall>f \<in># eligible t1 t2 q - {#e#}. precedes e f))"
proof -
  obtain q1 where q1: "queue_inv q1" "mset (tq_readyTickets q1) = eligible t1 t2 q"
    "bag q1 = {#e \<in># bag q. qe_expiresAtMs e > t1#}"
    and pop: "(let (e, q2) = popReady q1 in (map_option qe_ticket e, q2)) = (r, q')"
    using dequeue_unfold [OF assms(1), of t1 t2] assms(2) by (auto simp: dequeue_def)
  obtain x rest where x: "popHeap compareReadyEntries (tq_readyTickets q1) = (x, rest)"
    by fastforce
  with pop have q': "q' = q1\<lparr>tq_readyTickets := rest\<rparr>" and r: "r = map_option qe_ticket x"
    by (auto simp: popReady_def)
  show ?thesis
  proof (cases x)
    case None
    with x have "tq_readyTickets q1 = []" "rest = []"
      using ready.popHeap_empty by auto
    then have "q' = q1" using q' by simp
    with q1 None r \<open>tq_readyTickets q1 = []\<close> show ?thesis by simp
  next
    case (Some e)
    have heap: "ready.is_heap (tq_readyTickets q1)" using q1 by (simp add: queue_inv_def)
    note popped = ready.popHeap_correct [OF heap x [unfolded Some]]
    then have el: "eligible t1 t2 q = add_mset e (mset rest)" using q1(2) by simp
    have uni: "unique_seqs (add_mset e (bag q'))"
      using q1(1) popped by (simp add: queue_inv_def bag_def q')
    have "precedes e f" if "f \<in># mset rest" for f
    proof -
      have "f \<in># mset (tq_readyTickets q1)" using popped that by (simp del: set_mset_mset)
      then have "ready.le e f" using popped by blast
      moreover have "qe_sequence f \<noteq> qe_sequence e"
        using uni that by (simp add: unique_seqs_add bag_def q')
      ultimately show ?thesis
        by (auto simp: ready.le_def compareReadyEntries_def precedes_def split: if_splits)
    qed
    moreover have "queue_inv q'"
      by (rule queue_inv_shrink [OF q1(1)])
        (use popped q1(1) in \<open>auto simp: q' bag_def queue_inv_def\<close>)
    moreover have "add_mset e (bag q') = {#f \<in># bag q. qe_expiresAtMs f > t1#}"
      using popped q1(3) by (simp add: bag_def q')
    ultimately show ?thesis
      using r Some el by auto
  qed
qed

definition ex_entry_of :: "rat \<Rightarrow> int \<Rightarrow> timestamp option \<Rightarrow> queue_entry" where
  "ex_entry_of p n d =
     \<lparr>qe_ticket = \<lparr>tk_id = ''t'', tk_priority = p, tk_payload = [], tk_dispatchAfter = None, tk_createdAt = 0\<rparr>,
      qe_sequence = n, qe_dispatchAfterMs = d, qe_expiresAtMs = 100\<rparr>"

definition ex_queue :: ticket_queue where
  "ex_queue = \<lparr>tq_readyTickets = [ex_entry_of 5 1 None, ex_entry_of 3 0 None],
               tq_deferredTickets = [ex_entry_of 9 2 (Some 50)], tq_sequence = 3\<rparr>"

lemma ex_queue_inv: "queue_inv ex_queue"
proof -
  have "ready.is_heap (tq_readyTickets ex_queue)"
    by (auto simp: ex_queue_def ready.is_heap_def ready.le_def compareReadyEntries_def ex_entry_of_def nth_Cons
        split: nat.splits)
  moreover have "deferred.is_heap (tq_deferredTickets ex_queue)"
    by (simp add: ex_queue_def deferred.is_heap_def)
  ultimately show ?thesis
    by (simp add: queue_inv_def bag_def unique_seqs_def ex_queue_def ex_entry_of_def)
qed

theorem dequeue_serves_best_witness:
  "\<exists>t q'. dequeue 60 60 ex_queue = (Some t, q') \<and> queue_inv q' \<and> tk_priority t = 9"
proof -
  obtain r q' where d: "dequeue 60 60 ex_queue = (r, q')" by fastforce
  note best = dequeue_serves_best [OF ex_queue_inv d]
  have el: "eligible 60 60 ex_queue = {#ex_entry_of 5 1 None, ex_entry_of 3 0 None, ex_entry_of 9 2 (Some 50)#}"
    by (simp add: eligible_def ex_queue_def due_def ex_entry_of_def)
  with best obtain t where "r = Some t" by (cases r) auto
  with best el obtain e where e: "t = qe_ticket e" "e \<in># eligible 60 60 ex_queue"
    "\<forall>f \<in># eligible 60 60 ex_queue - {#e#}. precedes e f" by auto
  then have "e = ex_entry_of 9 2 (Some 50)"
    unfolding el by (auto simp: precedes_def ex_entry_of_def)
  with e d best \<open>r = Some t\<close> show ?thesis by (auto simp: ex_entry_of_def)
qed

text \<open>
  Enqueuing respects capacity and keeps the invariant on every path: on success the number
  of tickets is at most the maximum, and exactly one entry with a fresh sequence number is added to
  the unexpired tickets; on an error (a full queue or an unparsable dispatch time) no ticket is added.
\<close>

theorem enqueue_keeps_invariant:
  assumes "queue_inv q" and "enqueue opts newId t1 t2 t3 t4 i q = (r, q')"
  shows "queue_inv q' \<and>
    (case r of
       Inl _ \<Rightarrow> bag q' \<subseteq># bag q
     | Inr t \<Rightarrow> int (size (bag q')) \<le> maxTickets opts
         \<and> (\<exists>e. qe_ticket e = t \<and> qe_sequence e = tq_sequence q \<and> qe_expiresAtMs e = t4 + ticketTtlMs opts
              \<and> bag q' = add_mset e {#f \<in># bag q. qe_expiresAtMs f > t1 \<and> qe_expiresAtMs f > t2#}))"
proof -
  define q0 where "q0 = pruneExpiredTickets t2 (pruneExpiredTickets t1 q)"
  have inv0: "queue_inv q0" and bag0: "bag q0 = {#f \<in># bag q. qe_expiresAtMs f > t1 \<and> qe_expiresAtMs f > t2#}"
    and seq0: "tq_sequence q0 = tq_sequence q"
    using assms(1) by (simp_all add: q0_def prune_inv prune_bag filter_filter_mset)
  have sub0: "bag q0 \<subseteq># bag q" by (simp add: bag0)
  have size0: "int (size (bag q0)) = fst (queue_size t2 (pruneExpiredTickets t1 q))"
    by (simp add: queue_size_bag q0_def)
  have inv1: "queue_inv (q0\<lparr>tq_sequence := tq_sequence q + 1\<rparr>)"
    using inv0 seq0 unfolding queue_inv_def bag_def by (simp add: less_imp_le ball_Un)
  show ?thesis
  proof (cases r)
    case (Inl err)
    then have "q' = q0 \<or> q' = q0\<lparr>tq_sequence := tq_sequence q + 1\<rparr>"
      using assms(2) seq0
      by (auto simp: enqueue_def prog_simps queue_size_def Let_def q0_def split: if_splits sum.splits)
    with inv0 inv1 sub0 Inl show ?thesis by (auto simp: bag_def)
  next
    case (Inr t)
    then obtain d where cap: "int (size (bag q0)) < maxTickets opts"
      and d: "q' = (let e = \<lparr>qe_ticket = t, qe_sequence = tq_sequence q, qe_dispatchAfterMs = d,
                            qe_expiresAtMs = t4 + ticketTtlMs opts\<rparr>
                   in case d of Some x \<Rightarrow> if x > t4 then pushDeferred e else pushReady e | None \<Rightarrow> pushReady e)
                 (q0\<lparr>tq_sequence := tq_sequence q + 1\<rparr>)"
      using enqueue_success [OF assms(2) [unfolded Inr], folded q0_def, unfolded Let_def seq0]
      unfolding size0 Let_def by blast
    define e where "e = \<lparr>qe_ticket = t, qe_sequence = tq_sequence q, qe_dispatchAfterMs = d,
                         qe_expiresAtMs = t4 + ticketTtlMs opts\<rparr>"
    have e: "qe_ticket e = t" "qe_sequence e = tq_sequence q" "qe_dispatchAfterMs e = d"
        "qe_expiresAtMs e = t4 + ticketTtlMs opts"
      by (simp_all add: e_def)
    have q': "q' = (case d of Some x \<Rightarrow> if x > t4 then pushDeferred e else pushReady e | None \<Rightarrow> pushReady e)
                 (q0\<lparr>tq_sequence := tq_sequence q0 + 1\<rparr>)"
      unfolding seq0 by (rule d [unfolded Let_def, folded e_def])
    have "queue_inv q' \<and> bag q' = add_mset e (bag q0)"
      using push_ready_inv [OF inv0, of e] push_deferred_inv [OF inv0, of e] e(2,3) seq0 unfolding q'
      by (cases d) auto
    then have bag': "bag q' = add_mset e (bag q0)" and "queue_inv q'" by blast+
    with Inr bag' bag0 e cap show ?thesis by auto
  qed
qed

theorem enqueue_keeps_invariant_witness:
  "\<exists>t q'. enqueue \<lparr>qo_maxTickets = Some 4, qo_ticketTtlMs = None\<rparr> ''n'' 10 10 10 10
            \<lparr>eq_payload = [], eq_priority = None, eq_dispatchAfter = Some (Parsed 70)\<rparr> ex_queue = (Inr t, q')
     \<and> queue_inv q' \<and> int (size (bag q')) \<le> 4"
proof -
  let ?o = "\<lparr>qo_maxTickets = Some 4, qo_ticketTtlMs = None\<rparr>"
  let ?i = "\<lparr>eq_payload = [], eq_priority = None, eq_dispatchAfter = Some (Parsed 70)\<rparr>"
  have "fst (queue_size 10 (pruneExpiredTickets 10 ex_queue)) < 4"
    unfolding queue_size_bag prune_bag(3) by (simp add: bag_def ex_queue_def ex_entry_of_def)
  then obtain t q' where ok: "enqueue ?o ''n'' 10 10 10 10 ?i ex_queue = (Inr t, q')"
    by (auto simp: enqueue_def prog_simps maxTickets_def parseDispatchAfterMs_def queue_size_def Let_def)
  from enqueue_keeps_invariant [OF ex_queue_inv ok] ok show ?thesis
    by (auto simp: maxTickets_def)
qed

end
