(* ===== verification/Dispatch_Ordering.thy ===== *)
theory Dispatch_Ordering
  imports Prelude Complex_Main
begin

text \<open>
  The deterministic order of dispatch
  (\<^verbatim>\<open>src/src/platform/five-plane-execution/dispatcher/execution-dispatch-ordering.ts\<close>): the sort of the
  tickets, the interleaving by tenant and the seed hash.

  \<^verbatim>\<open>Array.prototype.sort\<close> is a stable sort, modelled by insertion. \<^verbatim>\<open>String.prototype.localeCompare\<close>
  depends on the host's collation and is a parameter; the hypothesis \<open>consistent_compare\<close> on it is
  what the language specification requires of a comparison function. A seed is the list of its
  UTF-16 code units, and the hash is kept in 32 bits as \<^verbatim>\<open>>>> 0\<close> does.
\<close>

section \<open>Tickets\<close>

record execution_ticket =
  et_id :: ident
  et_executionId :: ident
  et_taskId :: ident
  et_tenantId :: "ident option"
  et_priority :: string
  et_queueName :: "string option"
  et_dispatchTarget :: "string option"
  et_requiredIsolationLevel :: "string option"
  et_requiredRepoVersion :: "string option"
  et_requiredCapabilities :: "string list"
  et_dispatchAfter :: "timestamp option"
  et_attempt :: int
  et_status :: string
  et_assignedWorkerId :: "ident option"
  et_leaseId :: "ident option"
  et_claimedAt :: "timestamp option"
  et_consumedAt :: "timestamp option"
  et_invalidatedAt :: "timestamp option"
  et_createdAt :: timestamp
  et_updatedAt :: timestamp
  et_riskClass :: "string option"
  et_requiredSandboxType :: "string option"
  et_tenantQuotaRef :: "string option"
  et_criticalPathRank :: "rat option"
  et_schedulerSeed :: "string option"

section \<open>Stable sort\<close>

fun insert_by :: "('a \<Rightarrow> 'a \<Rightarrow> rat) \<Rightarrow> 'a \<Rightarrow> 'a list \<Rightarrow> 'a list" where
  "insert_by cmp x [] = [x]"
| "insert_by cmp x (y # ys) = (if cmp x y \<le> 0 then x # y # ys else y # insert_by cmp x ys)"

definition js_sort :: "('a \<Rightarrow> 'a \<Rightarrow> rat) \<Rightarrow> 'a list \<Rightarrow> 'a list" where
  "js_sort cmp xs = foldr (insert_by cmp) xs []"

definition consistent_compare :: "('a \<Rightarrow> 'a \<Rightarrow> rat) \<Rightarrow> bool" where
  "consistent_compare cmp \<longleftrightarrow>
     (\<forall>x y. cmp x y \<le> 0 \<or> cmp y x \<le> 0) \<and> (\<forall>x y z. cmp x y \<le> 0 \<and> cmp y z \<le> 0 \<longrightarrow> cmp x z \<le> 0)"

lemma compare_total: "consistent_compare cmp \<Longrightarrow> \<not> cmp x y \<le> 0 \<Longrightarrow> cmp y x \<le> 0"
  unfolding consistent_compare_def by blast

lemma compare_trans: "consistent_compare cmp \<Longrightarrow> cmp x y \<le> 0 \<Longrightarrow> cmp y z \<le> 0 \<Longrightarrow> cmp x z \<le> 0"
  unfolding consistent_compare_def by blast

lemma mset_insert_by [simp]: "mset (insert_by cmp x xs) = add_mset x (mset xs)"
  by (induction xs) auto

lemma mset_js_sort [simp]: "mset (js_sort cmp xs) = mset xs"
  by (induction xs) (auto simp: js_sort_def)

lemma set_insert_by [simp]: "set (insert_by cmp x xs) = insert x (set xs)"
  using mset_insert_by [of cmp x xs] by (metis set_mset_add_mset_insert set_mset_mset)

lemma sorted_insert_by:
  assumes "consistent_compare cmp" and "sorted_wrt (\<lambda>x y. cmp x y \<le> 0) xs"
  shows "sorted_wrt (\<lambda>x y. cmp x y \<le> 0) (insert_by cmp x xs)"
  using assms(2)
proof (induction xs)
  case (Cons y ys)
  show ?case
  proof (cases "cmp x y \<le> 0")
    case True
    with Cons.prems compare_trans [OF assms(1) True] show ?thesis by simp
  next
    case False
    with compare_total [OF assms(1) False] Cons show ?thesis by simp
  qed
qed simp

lemma sorted_js_sort: "consistent_compare cmp \<Longrightarrow> sorted_wrt (\<lambda>x y. cmp x y \<le> 0) (js_sort cmp xs)"
  by (induction xs) (auto simp: js_sort_def sorted_insert_by)

text \<open>Stability: elements that compare equal keep their order.\<close>

lemma filter_insert_by:
  assumes "consistent_compare cmp" and "sorted_wrt (\<lambda>x y. cmp x y \<le> 0) xs"
  shows "filter (\<lambda>y. cmp y z \<le> 0 \<and> cmp z y \<le> 0) (insert_by cmp x xs) =
    (if cmp x z \<le> 0 \<and> cmp z x \<le> 0 then x # filter (\<lambda>y. cmp y z \<le> 0 \<and> cmp z y \<le> 0) xs
     else filter (\<lambda>y. cmp y z \<le> 0 \<and> cmp z y \<le> 0) xs)"
  using assms(2)
proof (induction xs)
  case (Cons y ys)
  show ?case
  proof (cases "cmp x y \<le> 0")
    case False
    then have "cmp y x \<le> 0" by (rule compare_total [OF assms(1)])
    have "\<not> (cmp x z \<le> 0 \<and> cmp z x \<le> 0 \<and> cmp y z \<le> 0 \<and> cmp z y \<le> 0)"
      using False compare_trans [OF assms(1), of x z y] by blast
    with Cons False show ?thesis by auto
  qed simp
qed simp

lemma stable_js_sort:
  assumes "consistent_compare cmp"
  shows "filter (\<lambda>y. cmp y z \<le> 0 \<and> cmp z y \<le> 0) (js_sort cmp xs) = filter (\<lambda>y. cmp y z \<le> 0 \<and> cmp z y \<le> 0) xs"
proof (induction xs)
  case (Cons x xs)
  with filter_insert_by [OF assms sorted_js_sort [OF assms], of z x xs] show ?case
    by (simp add: js_sort_def)
qed (simp add: js_sort_def)

section \<open>The dispatch order\<close>

definition PRIORITY_ORDER :: "string \<Rightarrow> rat option" where
  "PRIORITY_ORDER =
     [''critical'' \<mapsto> 5, ''urgent'' \<mapsto> 4, ''high'' \<mapsto> 3, ''normal'' \<mapsto> 2, ''low'' \<mapsto> 1]"

definition RISK_CLASS_ORDER :: "string \<Rightarrow> rat option" where
  "RISK_CLASS_ORDER = [''critical'' \<mapsto> 4, ''high'' \<mapsto> 3, ''medium'' \<mapsto> 2, ''low'' \<mapsto> 1]"

definition ticket_priority :: "execution_ticket \<Rightarrow> rat" where
  "ticket_priority t = coalesce (PRIORITY_ORDER (et_priority t)) 0"

definition ticket_rank :: "execution_ticket \<Rightarrow> rat" where
  "ticket_rank t = coalesce (et_criticalPathRank t) 0"

definition ticket_risk :: "execution_ticket \<Rightarrow> rat" where
  "ticket_risk t = coalesce (RISK_CLASS_ORDER (coalesce (et_riskClass t) ''low'')) 0"

definition compare_tickets ::
    "(string \<Rightarrow> string \<Rightarrow> rat) \<Rightarrow> execution_ticket \<Rightarrow> execution_ticket \<Rightarrow> rat" where
  "compare_tickets localeCompare left right =
     (if ticket_priority left \<noteq> ticket_priority right then ticket_priority right - ticket_priority left
      else if ticket_rank left \<noteq> ticket_rank right then ticket_rank right - ticket_rank left
      else if ticket_risk left \<noteq> ticket_risk right then ticket_risk right - ticket_risk left
      else localeCompare (coalesce (et_schedulerSeed left) []) (coalesce (et_schedulerSeed right) []))"

definition sortTicketsForDeterministicDispatch ::
    "(string \<Rightarrow> string \<Rightarrow> rat) \<Rightarrow> execution_ticket list \<Rightarrow> execution_ticket list" where
  "sortTicketsForDeterministicDispatch localeCompare tickets = js_sort (compare_tickets localeCompare) tickets"

lemma compare_tickets_consistent:
  assumes "consistent_compare localeCompare"
  shows "consistent_compare (compare_tickets localeCompare)"
proof -
  let ?seed = "\<lambda>t. coalesce (et_schedulerSeed t) []"
  have "compare_tickets localeCompare x y \<le> 0 \<or> compare_tickets localeCompare y x \<le> 0" for x y
    using compare_total [OF assms, of "?seed x" "?seed y"] by (simp add: compare_tickets_def) linarith
  moreover have "compare_tickets localeCompare x z \<le> 0"
    if "compare_tickets localeCompare x y \<le> 0" "compare_tickets localeCompare y z \<le> 0" for x y z
    using that compare_trans [OF assms, of "?seed x" "?seed y" "?seed z"]
    by (simp add: compare_tickets_def split: if_splits)
  ultimately show ?thesis
    unfolding consistent_compare_def by blast
qed

section \<open>Interleaving by tenant\<close>

definition ticket_tenant :: "execution_ticket \<Rightarrow> ident" where
  "ticket_tenant t = coalesce (et_tenantId t) ''default''"

text \<open>The map from tenants to their tickets, in the order in which the tenants first occur.\<close>

fun group_by_tenant ::
    "execution_ticket list \<Rightarrow> (ident \<times> execution_ticket list) list \<Rightarrow> (ident \<times> execution_ticket list) list" where
  "group_by_tenant [] m = m"
| "group_by_tenant (t # ts) m =
     group_by_tenant ts
       (jsmap_set (ticket_tenant t) (coalesce (map_of m (ticket_tenant t)) [] @ [t]) m)"

text \<open>
  One pass of the outer loop over the live iterators: up to \<open>burst\<close> tickets from each, and an
  iterator that is found exhausted within the burst is deleted.
\<close>

fun interleave_pass ::
    "nat \<Rightarrow> (ident \<times> execution_ticket list) list \<Rightarrow> execution_ticket list \<times> (ident \<times> execution_ticket list) list" where
  "interleave_pass burst [] = ([], [])"
| "interleave_pass burst ((tenant, iter) # its) =
     (let (out, its') = interleave_pass burst its in
      (take burst iter @ out,
       if length iter < burst then its' else (tenant, drop burst iter) # its'))"

definition iter_size :: "(ident \<times> execution_ticket list) list \<Rightarrow> nat" where
  "iter_size its = sum_list (map (length \<circ> snd) its)"

lemma interleave_pass_size:
  "iter_size its = length (fst (interleave_pass b its)) + iter_size (snd (interleave_pass b its))"
  by (induction b its rule: interleave_pass.induct) (auto simp: iter_size_def Let_def split: prod.splits)

function interleave_loop :: "nat \<Rightarrow> (ident \<times> execution_ticket list) list \<Rightarrow> execution_ticket list" where
  "interleave_loop burst its =
     (let (out, its') = interleave_pass burst its in
      if out = [] then [] else out @ interleave_loop burst its')"
  by pat_completeness auto
termination
proof (relation "measure (\<lambda>(_, its). iter_size its)", goal_cases)
  case (2 burst its x out its')
  then show ?case
    using interleave_pass_size [of its burst] by (metis add_less_same_cancel2 fst_conv in_measure
        length_greater_0_conv less_add_same_cancel2 case_prod_conv snd_conv)
qed simp

declare interleave_loop.simps [simp del]

definition interleaveTicketsByTenant :: "execution_ticket list \<Rightarrow> nat \<Rightarrow> execution_ticket list" where
  "interleaveTicketsByTenant tickets maxBurstPerTenant =
     (if length tickets \<le> 1 then tickets
      else interleave_loop maxBurstPerTenant (group_by_tenant tickets []))"

section \<open>The seed hash\<close>

definition hashDispatchSeed :: "16 word list \<Rightarrow> 32 word" where
  "hashDispatchSeed seed = foldl (\<lambda>hash c. hash * 31 + ucast c) 0 seed"

section \<open>Rounds\<close>

text \<open>
  Round \<open>r\<close> of a round robin with the given burst takes from every list the tickets with the
  positions \<open>r * b\<close> to \<open>r * b + b - 1\<close>.
\<close>

definition robin_round :: "nat \<Rightarrow> 'a list list \<Rightarrow> nat \<Rightarrow> 'a list" where
  "robin_round b gs r = concat (map (\<lambda>xs. take b (drop (r * b) xs)) gs)"

definition robin :: "nat \<Rightarrow> 'a list list \<Rightarrow> nat \<Rightarrow> 'a list" where
  "robin b gs R = concat (map (robin_round b gs) [0..<R])"

lemma pass_out: "fst (interleave_pass b its) = robin_round b (map snd its) 0"
  by (induction b its rule: interleave_pass.induct) (auto simp: robin_round_def Let_def split: prod.splits)

lemma pass_rest: "robin_round b (map snd (snd (interleave_pass b its))) r = robin_round b (map snd its) (Suc r)"
  by (induction b its rule: interleave_pass.induct)
    (auto simp: robin_round_def Let_def add.commute split: prod.splits)

lemma robin_Suc: "robin b gs (Suc R) = robin_round b gs 0 @ concat (map (\<lambda>r. robin_round b gs (Suc r)) [0..<R])"
  unfolding robin_def by (simp add: map_upt_Suc del: upt_Suc)

lemma pass_lengths:
  "\<forall>p \<in> set its. length (snd p) \<le> Suc R * b \<Longrightarrow> \<forall>p \<in> set (snd (interleave_pass b its)). length (snd p) \<le> R * b"
  by (induction b its rule: interleave_pass.induct) (auto simp: Let_def split: prod.splits if_splits)

lemma round_empty:
  "0 < b \<Longrightarrow> robin_round b gs 0 = [] \<Longrightarrow> robin b gs R = []"
  by (auto simp: robin_def robin_round_def)

lemma interleave_loop_robin:
  assumes "0 < b" and "\<forall>p \<in> set its. length (snd p) \<le> R * b"
  shows "interleave_loop b its = robin b (map snd its) R"
  using assms(2)
proof (induction R arbitrary: its)
  case 0
  then have "fst (interleave_pass b its) = []"
    by (auto simp: pass_out robin_round_def)
  then show ?case
    by (cases "interleave_pass b its", subst interleave_loop.simps) (simp add: robin_def)
next
  case (Suc R)
  obtain out its' where p: "interleave_pass b its = (out, its')" by fastforce
  have out: "out = robin_round b (map snd its) 0" using pass_out [of b its] p by simp
  show ?case
  proof (cases "out = []")
    case True
    with p out round_empty [OF assms(1), of "map snd its"] show ?thesis
      by (subst interleave_loop.simps) simp
  next
    case False
    have "interleave_loop b its' = robin b (map snd its') R"
      using Suc.IH pass_lengths [OF Suc.prems] p by simp
    also have "\<dots> = concat (map (\<lambda>r. robin_round b (map snd its) (Suc r)) [0..<R])"
      using pass_rest [of b its] p unfolding robin_def by (intro arg_cong [of _ _ concat] map_cong) simp_all
    finally show ?thesis
      using p out False by (subst interleave_loop.simps) (simp add: robin_Suc)
  qed
qed

lemma keys_jsmap_set_list: "map fst (jsmap_set k v m) = (if k \<in> fst ` set m then map fst m else map fst m @ [k])"
  by (induction k v m rule: jsmap_set.induct) (auto simp: image_iff)

text \<open>The tenants of a list of tickets in order of first occurrence.\<close>

fun tenants_of :: "execution_ticket list \<Rightarrow> ident list \<Rightarrow> ident list" where
  "tenants_of [] seen = seen"
| "tenants_of (t # ts) seen =
     tenants_of ts (if ticket_tenant t \<in> set seen then seen else seen @ [ticket_tenant t])"

lemma group_keys: "map fst (group_by_tenant ts m) = tenants_of ts (map fst m)"
  by (induction ts m rule: group_by_tenant.induct) (auto simp: keys_jsmap_set_list image_iff)

lemma group_lookup:
  "coalesce (map_of (group_by_tenant ts m) k) [] = coalesce (map_of m k) [] @ filter (\<lambda>t. ticket_tenant t = k) ts"
  by (induction ts m rule: group_by_tenant.induct) (auto simp: coalesce_def split: option.splits)

lemma tenants_distinct: "distinct seen \<Longrightarrow> distinct (tenants_of ts seen)"
  by (induction ts seen rule: tenants_of.induct) auto

lemma tenants_set: "set (tenants_of ts seen) = set seen \<union> ticket_tenant ` set ts"
  by (induction ts seen rule: tenants_of.induct) auto

lemma group_values:
  "map snd (group_by_tenant ts []) = map (\<lambda>k. filter (\<lambda>t. ticket_tenant t = k) ts) (tenants_of ts [])"
proof -
  let ?g = "group_by_tenant ts []"
  have d: "distinct (map fst ?g)" by (simp add: group_keys tenants_distinct)
  have "snd p = filter (\<lambda>t. ticket_tenant t = fst p) ts" if "p \<in> set ?g" for p
    using group_lookup [of ts "[]" "fst p"] map_of_eq_Some_iff [OF d, of "fst p" "snd p"] that by simp
  then have "map snd ?g = map (\<lambda>p. filter (\<lambda>t. ticket_tenant t = fst p) ts) ?g" by simp
  also have "\<dots> = map (\<lambda>k. filter (\<lambda>t. ticket_tenant t = k) ts) (map fst ?g)" by simp
  finally show ?thesis by (simp add: group_keys)
qed

lemma interleave_robin:
  assumes "0 < b" and "length tickets \<le> R * b" and "1 < length tickets"
  shows "interleaveTicketsByTenant tickets b =
    robin b (map (\<lambda>k. filter (\<lambda>t. ticket_tenant t = k) tickets) (tenants_of tickets [])) R"
proof -
  have "\<forall>p \<in> set (group_by_tenant tickets []). length (snd p) \<le> R * b"
  proof
    fix p assume "p \<in> set (group_by_tenant tickets [])"
    then have "snd p \<in> set (map snd (group_by_tenant tickets []))" by auto
    then obtain k where "snd p = filter (\<lambda>t. ticket_tenant t = k) tickets"
      unfolding group_values by auto
    then show "length (snd p) \<le> R * b"
      using order_trans [OF length_filter_le [of "\<lambda>t. ticket_tenant t = k" tickets] assms(2)] by simp
  qed
  from interleave_loop_robin [OF assms(1) this] assms(3) show ?thesis
    by (simp add: interleaveTicketsByTenant_def group_values)
qed

lemma filter_robin_round:
  assumes "distinct ks"
  shows "filter (\<lambda>t. f t = k) (robin_round b (map (\<lambda>k. filter (\<lambda>t. f t = k) xs) ks) r) =
    (if k \<in> set ks then take b (drop (r * b) (filter (\<lambda>t. f t = k) xs)) else [])"
proof -
  have other: "filter (\<lambda>t. f t = k) (take b (drop n (filter (\<lambda>t. f t = k') xs))) =
      (if k' = k then take b (drop n (filter (\<lambda>t. f t = k) xs)) else [])" for k' n
  proof -
    have cls: "f t = k'" if "t \<in> set (take b (drop n (filter (\<lambda>t. f t = k') xs)))" for t
      using that by (auto dest!: in_set_takeD in_set_dropD)
    show ?thesis
    proof (cases "k' = k")
      case True
      have "filter (\<lambda>t. f t = k) (take b (drop n (filter (\<lambda>t. f t = k') xs))) = take b (drop n (filter (\<lambda>t. f t = k') xs))"
        by (rule filter_True) (use cls True in blast)
      with True show ?thesis by simp
    next
      case False
      have "filter (\<lambda>t. f t = k) (take b (drop n (filter (\<lambda>t. f t = k') xs))) = []"
        by (rule filter_False) (use cls False in blast)
      with False show ?thesis by simp
    qed
  qed
  from assms show ?thesis
    by (induction ks) (auto simp: robin_round_def other)
qed

lemma concat_slices: "concat (map (\<lambda>r. take b (drop (r * b) xs)) [0..<R]) = take (R * b) xs"
proof (induction R)
  case (Suc R)
  then show ?case using take_add [of "R * b" b xs] by (simp add: add.commute)
qed simp

lemma filter_robin:
  assumes "distinct ks" "k \<in> set ks"
  shows "filter (\<lambda>t. f t = k) (robin b (map (\<lambda>k. filter (\<lambda>t. f t = k) xs) ks) R) = take (R * b) (filter (\<lambda>t. f t = k) xs)"
proof -
  have "filter (\<lambda>t. f t = k) (robin b (map (\<lambda>k. filter (\<lambda>t. f t = k) xs) ks) R)
      = concat (map (\<lambda>r. take b (drop (r * b) (filter (\<lambda>t. f t = k) xs))) [0..<R])"
    unfolding robin_def filter_concat map_map
    by (simp add: comp_def filter_robin_round [OF assms(1)] assms(2))
  then show ?thesis by (simp add: concat_slices)
qed

lemma interleave_filter:
  assumes "0 < b"
  shows "filter (\<lambda>t. ticket_tenant t = k) (interleaveTicketsByTenant tickets b) = filter (\<lambda>t. ticket_tenant t = k) tickets"
proof (cases "1 < length tickets")
  case True
  let ?ks = "tenants_of tickets []" and ?R = "length tickets"
  have R: "length tickets \<le> ?R * b" using assms by simp
  note robin = interleave_robin [OF assms R True]
  show ?thesis
  proof (cases "k \<in> set ?ks")
    case True
    have "length (filter (\<lambda>t. ticket_tenant t = k) tickets) \<le> ?R * b"
      by (rule order_trans [OF length_filter_le R])
    then show ?thesis
      unfolding robin using filter_robin [of ?ks k ticket_tenant b tickets ?R] True
      by (simp add: tenants_distinct)
  next
    case False
    have "set (robin b (map (\<lambda>k. filter (\<lambda>t. ticket_tenant t = k) tickets) ?ks) ?R) \<subseteq> set tickets"
      by (auto simp: robin_def robin_round_def dest!: in_set_takeD in_set_dropD)
    moreover have "\<forall>t \<in> set tickets. ticket_tenant t \<noteq> k"
      using False by (auto simp: tenants_set)
    ultimately show ?thesis
      unfolding robin by (auto simp: filter_empty_conv)
  qed
qed (simp add: interleaveTicketsByTenant_def)

text \<open>Two lists that agree on every class of a partition have the same elements.\<close>

lemma mset_by_classes:
  assumes "\<And>k. filter (\<lambda>t. f t = k) xs = filter (\<lambda>t. f t = k) ys"
  shows "mset xs = mset ys"
proof (rule multiset_eqI)
  fix x
  have "count (mset xs) x = count (mset (filter (\<lambda>t. f t = f x) xs)) x" by simp
  also have "\<dots> = count (mset ys) x" unfolding assms by simp
  finally show "count (mset xs) x = count (mset ys) x" .
qed

fun hash_reference :: "16 word list \<Rightarrow> nat \<Rightarrow> nat" where
  "hash_reference [] h = h"
| "hash_reference (c # cs) h = hash_reference cs (h * 31 + unat c)"

lemma hash_reference_word:
  "foldl (\<lambda>hash c. hash * 31 + ucast c) (of_nat h) cs = (of_nat (hash_reference cs h) :: 32 word)"
proof (induction cs arbitrary: h)
  case (Cons c cs)
  have "(of_nat h * 31 + ucast c :: 32 word) = of_nat (h * 31 + unat c)"
    by simp
  with Cons show ?case by (simp del: of_nat_add of_nat_mult)
qed simp

section \<open>Properties\<close>

text \<open>
  The dispatch sort is a permutation of the tickets in which an earlier ticket never has a
  lower priority than a later one, within a priority never a lower critical-path rank, within a
  rank never a lower risk, and which keeps the order of tickets that compare equal.
\<close>

theorem sort_is_deterministic_dispatch_order:
  assumes "consistent_compare localeCompare"
  shows "mset (sortTicketsForDeterministicDispatch localeCompare tickets) = mset tickets
    \<and> sorted_wrt (\<lambda>a b. ticket_priority a > ticket_priority b
         \<or> ticket_priority a = ticket_priority b \<and> (ticket_rank a > ticket_rank b
             \<or> ticket_rank a = ticket_rank b \<and> ticket_risk a \<ge> ticket_risk b))
        (sortTicketsForDeterministicDispatch localeCompare tickets)
    \<and> filter (\<lambda>y. compare_tickets localeCompare y z \<le> 0 \<and> compare_tickets localeCompare z y \<le> 0)
          (sortTicketsForDeterministicDispatch localeCompare tickets)
        = filter (\<lambda>y. compare_tickets localeCompare y z \<le> 0 \<and> compare_tickets localeCompare z y \<le> 0) tickets"
proof -
  note cons = compare_tickets_consistent [OF assms(1)]
  have "sorted_wrt (\<lambda>a b. ticket_priority a > ticket_priority b
         \<or> ticket_priority a = ticket_priority b \<and> (ticket_rank a > ticket_rank b
             \<or> ticket_rank a = ticket_rank b \<and> ticket_risk a \<ge> ticket_risk b))
        (js_sort (compare_tickets localeCompare) tickets)"
    by (rule sorted_wrt_mono_rel [OF _ sorted_js_sort [OF cons]])
      (auto simp: compare_tickets_def split: if_splits)
  with stable_js_sort [OF cons, of z tickets] show ?thesis
    by (simp add: sortTicketsForDeterministicDispatch_def)
qed

definition ex_ticket :: "ident \<Rightarrow> string \<Rightarrow> execution_ticket" where
  "ex_ticket tenant prio =
     \<lparr>et_id = prio, et_executionId = ''e'', et_taskId = ''t'', et_tenantId = Some tenant,
      et_priority = prio, et_queueName = None, et_dispatchTarget = None,
      et_requiredIsolationLevel = None, et_requiredRepoVersion = None, et_requiredCapabilities = [],
      et_dispatchAfter = None, et_attempt = 1, et_status = ''pending'', et_assignedWorkerId = None,
      et_leaseId = None, et_claimedAt = None, et_consumedAt = None, et_invalidatedAt = None,
      et_createdAt = 0, et_updatedAt = 0, et_riskClass = None, et_requiredSandboxType = None,
      et_tenantQuotaRef = None, et_criticalPathRank = None, et_schedulerSeed = None\<rparr>"

text \<open>Comparison by length serves as the collation of the example.\<close>

definition ex_locale :: "string \<Rightarrow> string \<Rightarrow> rat" where
  "ex_locale a b = of_nat (length a) - of_nat (length b)"

theorem sort_is_deterministic_dispatch_order_witness:
  "consistent_compare ex_locale
   \<and> sortTicketsForDeterministicDispatch ex_locale [ex_ticket ''A'' ''low'', ex_ticket ''B'' ''urgent'']
       = [ex_ticket ''B'' ''urgent'', ex_ticket ''A'' ''low'']
   \<and> mset (sortTicketsForDeterministicDispatch ex_locale [ex_ticket ''A'' ''low'', ex_ticket ''B'' ''urgent''])
       = mset [ex_ticket ''A'' ''low'', ex_ticket ''B'' ''urgent'']"
proof -
  have c: "consistent_compare ex_locale" by (auto simp: consistent_compare_def ex_locale_def)
  have "sortTicketsForDeterministicDispatch ex_locale [ex_ticket ''A'' ''low'', ex_ticket ''B'' ''urgent'']
       = [ex_ticket ''B'' ''urgent'', ex_ticket ''A'' ''low'']"
    by (simp add: sortTicketsForDeterministicDispatch_def js_sort_def compare_tickets_def
        ticket_priority_def PRIORITY_ORDER_def ex_ticket_def)
  with c sort_is_deterministic_dispatch_order [OF c] show ?thesis by blast
qed

text \<open>
  Interleaving is a fair round robin: with a positive burst it loses and duplicates no
  ticket, keeps the order of the tickets of each tenant, and round \<open>r\<close> of the result holds, tenant by
  tenant in order of first occurrence, each tenant's tickets from position \<open>r * b\<close> to \<open>r * b + b - 1\<close>.
\<close>

theorem interleave_round_robin:
  assumes "0 < b"
  shows "mset (interleaveTicketsByTenant tickets b) = mset tickets
    \<and> (\<forall>k. filter (\<lambda>t. ticket_tenant t = k) (interleaveTicketsByTenant tickets b)
            = filter (\<lambda>t. ticket_tenant t = k) tickets)
    \<and> (1 < length tickets \<longrightarrow> interleaveTicketsByTenant tickets b =
         concat (map (\<lambda>r. concat (map (\<lambda>k. take b (drop (r * b) (filter (\<lambda>t. ticket_tenant t = k) tickets)))
                                   (tenants_of tickets []))) [0..<length tickets]))"
proof -
  have R: "length tickets \<le> length tickets * b" using assms by simp
  show ?thesis
  proof (intro conjI allI impI)
    show "mset (interleaveTicketsByTenant tickets b) = mset tickets"
      by (rule mset_by_classes [OF interleave_filter [OF assms]])
    show "filter (\<lambda>t. ticket_tenant t = k) (interleaveTicketsByTenant tickets b)
        = filter (\<lambda>t. ticket_tenant t = k) tickets" for k
      by (rule interleave_filter [OF assms])
  qed (simp add: interleave_robin [OF assms R] robin_def robin_round_def [abs_def] comp_def)
qed

theorem interleave_round_robin_witness:
  "0 < (1::nat) \<and> interleaveTicketsByTenant [ex_ticket ''A'' ''x'', ex_ticket ''A'' ''y'', ex_ticket ''B'' ''z''] 1
     = [ex_ticket ''A'' ''x'', ex_ticket ''B'' ''z'', ex_ticket ''A'' ''y'']"
proof -
  have tenant: "ticket_tenant (ex_ticket a p) = a" for a p
    by (simp add: ticket_tenant_def ex_ticket_def)
  let ?ts = "[ex_ticket ''A'' ''x'', ex_ticket ''A'' ''y'', ex_ticket ''B'' ''z'']"
  have ks: "tenants_of ?ts [] = [''A'', ''B'']"
    by (simp add: tenant)
  have f: "filter (\<lambda>t. ticket_tenant t = ''A'') ?ts = [ex_ticket ''A'' ''x'', ex_ticket ''A'' ''y'']"
    "filter (\<lambda>t. ticket_tenant t = ''B'') ?ts = [ex_ticket ''B'' ''z'']"
    by (simp_all add: tenant)
  have u: "[0..<length ?ts] = [0, 1, 2]" "1 < length ?ts"
    by (simp_all add: numeral_2_eq_2)
  have "interleaveTicketsByTenant ?ts 1 = concat (map (\<lambda>r. concat (map (\<lambda>k. take 1 (drop (r * 1)
      (filter (\<lambda>t. ticket_tenant t = k) ?ts))) [''A'', ''B''])) [0, 1, 2])"
    using interleave_round_robin [of 1 ?ts, THEN conjunct2, THEN conjunct2, rule_format, OF zero_less_one u(2)]
    unfolding ks u .
  then show ?thesis
    unfolding list.map f by simp
qed

text \<open>
  The seed hash, computed with truncation to 32 bits at each step, is the polynomial hash
  with base 31 of the code units, computed without bounds and reduced once modulo \<open>2 ^ 32\<close>.
\<close>

theorem hashDispatchSeed_is_polynomial:
  "unat (hashDispatchSeed seed) = hash_reference seed 0 mod 2 ^ 32"
  using hash_reference_word [of 0 seed] by (simp add: hashDispatchSeed_def unat_of_nat)

end
