(* ===== verification/Delegation_Topology.thy ===== *)
theory Delegation_Topology
  imports Prelude
begin

text \<open>
  The topology validator of agent delegation
  (\<^verbatim>\<open>src/src/platform/five-plane-orchestration/agent-delegation/topology-validator.ts\<close>): limits on
  depth and fan-out, the chain check, and the breadth-first search that refuses a delegation which
  would close a cycle. Errors carry the identifiers the code puts in their details.
\<close>

section \<open>Configuration and errors\<close>

record topology_edge =
  te_fromId :: ident
  te_toId :: ident

record validator_config =
  vc_maxDepth :: int
  vc_maxFanout :: int
  vc_allowedPackIds :: "ident list option"

definition DEFAULT_MAX_DEPTH :: int where
  "DEFAULT_MAX_DEPTH = 3"

definition DEFAULT_MAX_FANOUT :: int where
  "DEFAULT_MAX_FANOUT = 10"

definition createTopologyValidator :: "int option \<Rightarrow> int option \<Rightarrow> ident list option \<Rightarrow> validator_config" where
  "createTopologyValidator maxDepth maxFanout allowedPackIds =
     \<lparr>vc_maxDepth = coalesce maxDepth DEFAULT_MAX_DEPTH, vc_maxFanout = coalesce maxFanout DEFAULT_MAX_FANOUT,
      vc_allowedPackIds = allowedPackIds\<rparr>"

datatype delegation_error =
    Delegation_depth_exceeded int int
  | Delegation_fanout_exceeded int int
  | Delegation_cycle_detected ident "ident list"
  | Pack_id_not_allowed ident

definition validateDepth :: "validator_config \<Rightarrow> int \<Rightarrow> delegation_error + unit" where
  "validateDepth cfg currentDepth =
     throw_if (currentDepth \<ge> vc_maxDepth cfg) (Delegation_depth_exceeded currentDepth (vc_maxDepth cfg))"

definition validateFanout :: "validator_config \<Rightarrow> int \<Rightarrow> delegation_error + unit" where
  "validateFanout cfg activeDelegations =
     throw_if (activeDelegations \<ge> vc_maxFanout cfg)
       (Delegation_fanout_exceeded activeDelegations (vc_maxFanout cfg))"

definition detectCycle :: "ident \<Rightarrow> ident list \<Rightarrow> delegation_error + unit" where
  "detectCycle packId chain = throw_if (packId \<in> set chain) (Delegation_cycle_detected packId chain)"

section \<open>The search\<close>

fun build_adjacency :: "topology_edge list \<Rightarrow> (ident \<times> ident list) list \<Rightarrow> (ident \<times> ident list) list" where
  "build_adjacency [] adjacency = adjacency"
| "build_adjacency (edge # edges) adjacency =
     build_adjacency edges
       (jsmap_set (te_fromId edge) (coalesce (map_of adjacency (te_fromId edge)) [] @ [te_toId edge]) adjacency)"

text \<open>The inner loop: unvisited successors are marked and appended to the queue.\<close>

fun visit_all :: "ident list \<Rightarrow> ident list \<Rightarrow> ident list \<Rightarrow> ident list \<times> ident list" where
  "visit_all [] visited queue = (visited, queue)"
| "visit_all (nextId # nextIds) visited queue =
     (if nextId \<in> set visited then visit_all nextIds visited queue
      else visit_all nextIds (visited @ [nextId]) (queue @ [nextId]))"

lemma visit_all_result:
  "\<exists>new. visit_all nextIds visited queue = (visited @ new, queue @ new) \<and> set new = set nextIds - set visited"
proof (induction nextIds visited queue rule: visit_all.induct)
  case (2 n ns visited queue)
  show ?case
  proof (cases "n \<in> set visited")
    case True
    with 2(1) show ?thesis by auto
  next
    case False
    with 2(2) obtain new where "visit_all ns (visited @ [n]) (queue @ [n]) = (visited @ n # new, queue @ n # new)"
      "set new = set ns - set (visited @ [n])" by auto
    with False show ?thesis by (intro exI [of _ "n # new"]) auto
  qed
qed simp

function bfs :: "(ident \<times> ident list) list \<Rightarrow> ident \<Rightarrow> ident list \<Rightarrow> ident list \<Rightarrow> ident list option" where
  "bfs adjacency sourceId [] visited = None"
| "bfs adjacency sourceId (current # queue) visited =
     (if current = sourceId then Some visited
      else let (visited', queue') = visit_all (coalesce (map_of adjacency current) []) visited queue
           in bfs adjacency sourceId queue' visited')"
  by pat_completeness auto
termination
proof (relation "measures [\<lambda>(adj, s, q, v). card (targets adj - set v), \<lambda>(adj, s, q, v). length q]", goal_cases)
  case (2 adj s cur q v x v' q')
  obtain new where new: "v' = v @ new" "q' = q @ new" "set new = set (coalesce (map_of adj cur) []) - set v"
    using visit_all_result [of "coalesce (map_of adj cur) []" v q] 2 by auto
  show ?case
  proof (cases "new = []")
    case False
    then have "targets adj - set v' \<subset> targets adj - set v"
      using new successors_in_targets [of adj cur] by (cases new) auto
    then have "card (targets adj - set v') < card (targets adj - set v)"
      by (intro psubset_card_mono) auto
    then show ?thesis by simp
  qed (use new in simp)
qed simp

definition detectGraphCycle :: "ident \<Rightarrow> ident \<Rightarrow> topology_edge list \<Rightarrow> delegation_error + unit" where
  "detectGraphCycle sourceId targetId edges =
     bindE (throw_if (sourceId = targetId) (Delegation_cycle_detected targetId [sourceId, targetId])) (\<lambda>_.
     if edges = [] then Inr ()
     else case bfs (build_adjacency edges []) sourceId [targetId] [targetId] of
            Some visited \<Rightarrow> Inl (Delegation_cycle_detected targetId visited)
          | None \<Rightarrow> Inr ())"

definition validatePackId :: "validator_config \<Rightarrow> ident \<Rightarrow> delegation_error + unit" where
  "validatePackId cfg packId =
     (case vc_allowedPackIds cfg of
        None \<Rightarrow> Inr ()
      | Some allowed \<Rightarrow> throw_if (packId \<notin> set allowed) (Pack_id_not_allowed packId))"

record delegation_request =
  dr_currentDepth :: int
  dr_activeDelegations :: int
  dr_targetPackId :: ident
  dr_delegationChain :: "ident list"
  dr_sourcePackId :: "ident option"
  dr_existingEdges :: "topology_edge list option"

text \<open>An empty source identifier is falsy and skips the graph check, as a missing one does.\<close>

definition validate :: "validator_config \<Rightarrow> delegation_request \<Rightarrow> delegation_error + unit" where
  "validate cfg r =
     sequenceE
       [validateDepth cfg (dr_currentDepth r),
        validateFanout cfg (dr_activeDelegations r),
        detectCycle (dr_targetPackId r) (dr_delegationChain r),
        (case (dr_sourcePackId r, dr_existingEdges r) of
           (Some sourceId, Some edges) \<Rightarrow>
             if sourceId \<noteq> [] then detectGraphCycle sourceId (dr_targetPackId r) edges else Inr ()
         | _ \<Rightarrow> Inr ()),
        validatePackId cfg (dr_targetPackId r)]"

section \<open>Correctness of the search\<close>

definition edge_rel :: "topology_edge list \<Rightarrow> (ident \<times> ident) set" where
  "edge_rel edges = (\<lambda>e. (te_fromId e, te_toId e)) ` set edges"

definition adj_rel :: "(ident \<times> ident list) list \<Rightarrow> (ident \<times> ident) set" where
  "adj_rel adj = {(x, y). y \<in> set (coalesce (map_of adj x) [])}"

lemma build_adjacency_rel: "adj_rel (build_adjacency edges adj) = adj_rel adj \<union> edge_rel edges"
proof (induction edges adj rule: build_adjacency.induct)
  case (2 e es adj)
  show ?case
    unfolding build_adjacency.simps 2 by (auto simp: adj_rel_def edge_rel_def split: if_splits)
qed (simp add: edge_rel_def)

definition bfs_inv :: "(ident \<times> ident list) list \<Rightarrow> ident \<Rightarrow> ident \<Rightarrow> ident list \<Rightarrow> ident list \<Rightarrow> bool" where
  "bfs_inv adj s t queue visited \<longleftrightarrow>
     t \<in> set visited \<and> set queue \<subseteq> set visited \<and> set visited \<subseteq> (adj_rel adj)\<^sup>* `` {t}
     \<and> (\<forall>x \<in> set visited - set queue. x \<noteq> s \<and> adj_rel adj `` {x} \<subseteq> set visited)"

lemma bfs_inv_step:
  assumes "bfs_inv adj s t (cur # queue) visited" and "cur \<noteq> s"
    and "visit_all (coalesce (map_of adj cur) []) visited queue = (visited', queue')"
  shows "bfs_inv adj s t queue' visited'"
proof -
  obtain new where new: "visited' = visited @ new" "queue' = queue @ new"
    "set new = set (coalesce (map_of adj cur) []) - set visited"
    using visit_all_result [of "coalesce (map_of adj cur) []" visited queue] assms(3) by auto
  have succ: "adj_rel adj `` {cur} = set (coalesce (map_of adj cur) [])"
    by (auto simp: adj_rel_def)
  have "(t, cur) \<in> (adj_rel adj)\<^sup>*"
    using assms(1) by (auto simp: bfs_inv_def)
  then have "set new \<subseteq> (adj_rel adj)\<^sup>* `` {t}"
    using new(3) succ by (auto intro: rtrancl_into_rtrancl)
  then show ?thesis
    using assms(1,2) new succ unfolding bfs_inv_def by auto
qed

lemma bfs_correct:
  assumes "bfs_inv adj s t queue visited"
  shows "bfs adj s queue visited = None \<longleftrightarrow> (t, s) \<notin> (adj_rel adj)\<^sup>*"
  using assms
proof (induction adj s queue visited rule: bfs.induct)
  case (1 adj s visited)
  then have closed: "adj_rel adj `` set visited \<subseteq> set visited" "s \<notin> set visited" "t \<in> set visited"
    by (auto simp: bfs_inv_def)
  have "(adj_rel adj)\<^sup>* `` set visited = set visited"
    by (rule Image_closed_trancl [OF closed(1)])
  with closed show ?case by auto
next
  case (2 adj s cur queue visited)
  show ?case
  proof (cases "cur = s")
    case True
    with 2(2) show ?thesis by (auto simp: bfs_inv_def)
  next
    case False
    obtain v' q' where vq: "visit_all (coalesce (map_of adj cur) []) visited queue = (v', q')" by fastforce
    with 2(1) [OF False vq [symmetric] refl bfs_inv_step [OF 2(2) False vq]] False show ?thesis
      by simp
  qed
qed

lemma detectGraphCycle_ok_iff:
  "detectGraphCycle s t edges = Inr () \<longleftrightarrow> (t, s) \<notin> (edge_rel edges)\<^sup>*"
proof (cases "s = t \<or> edges = []")
  case True
  then show ?thesis by (auto simp: detectGraphCycle_def edge_rel_def)
next
  case False
  let ?adj = "build_adjacency edges []"
  have adj: "adj_rel ?adj = edge_rel edges"
    by (simp add: build_adjacency_rel) (simp add: adj_rel_def)
  have "bfs_inv ?adj s t [t] [t]" by (simp add: bfs_inv_def)
  from bfs_correct [OF this] False show ?thesis
    by (auto simp: detectGraphCycle_def adj simp del: bfs.simps split: option.splits)
qed

section \<open>Properties\<close>

text \<open>
  The breadth-first search is exact: a delegation from \<open>s\<close> to \<open>t\<close> is refused if and only if
  \<open>s\<close> can be reached from \<open>t\<close> along the existing edges, so on an acyclic graph it is accepted exactly
  when the graph stays acyclic with the new edge.
\<close>

theorem detectGraphCycle_exact:
  assumes "acyclic (edge_rel edges)"
  shows "(detectGraphCycle s t edges = Inr () \<longleftrightarrow> (t, s) \<notin> (edge_rel edges)\<^sup>*)
    \<and> (detectGraphCycle s t edges = Inr ()
        \<longleftrightarrow> acyclic (edge_rel (edges @ [\<lparr>te_fromId = s, te_toId = t\<rparr>])))"
proof -
  have "edge_rel (edges @ [\<lparr>te_fromId = s, te_toId = t\<rparr>]) = insert (s, t) (edge_rel edges)"
    by (auto simp: edge_rel_def)
  with assms show ?thesis
    by (simp add: detectGraphCycle_ok_iff acyclic_insert)
qed

definition ex_edges :: "topology_edge list" where
  "ex_edges = [\<lparr>te_fromId = ''a'', te_toId = ''b''\<rparr>, \<lparr>te_fromId = ''b'', te_toId = ''c''\<rparr>]"

lemma ex_edges_acyclic: "acyclic (edge_rel ex_edges)"
proof -
  have "edge_rel ex_edges = insert (''a'', ''b'') (insert (''b'', ''c'') {})"
    by (auto simp: edge_rel_def ex_edges_def)
  moreover have "(''c'', ''b'') \<notin> ({} :: (ident \<times> ident) set)\<^sup>*" by simp
  moreover have "(''b'', ''a'') \<notin> {(''b'', ''c'')}\<^sup>*"
    by (auto elim: converse_rtranclE)
  moreover have "acyclic ({} :: (ident \<times> ident) set)" by (simp add: acyclic_def)
  ultimately show ?thesis by (simp add: acyclic_insert)
qed

theorem detectGraphCycle_exact_witness:
  "detectGraphCycle ''c'' ''a'' ex_edges \<noteq> Inr () \<and> detectGraphCycle ''a'' ''c'' ex_edges = Inr ()
   \<and> acyclic (edge_rel (ex_edges @ [\<lparr>te_fromId = ''a'', te_toId = ''c''\<rparr>]))"
proof -
  have "detectGraphCycle ''c'' ''a'' ex_edges \<noteq> Inr ()" "detectGraphCycle ''a'' ''c'' ex_edges = Inr ()"
    by (simp_all add: detectGraphCycle_def ex_edges_def)
  with detectGraphCycle_exact [OF ex_edges_acyclic, of "''a''" "''c''"] show ?thesis by blast
qed

text \<open>
  A delegation that passes full validation against the current edges is below the depth and
  fan-out limits, does not repeat a pack of its chain, goes to an allowed pack, and keeps the
  delegation graph acyclic.
\<close>

theorem validate_keeps_topology:
  assumes "validate cfg r = Inr ()"
    and "dr_sourcePackId r = Some s" "s \<noteq> []" "dr_existingEdges r = Some edges"
    and "acyclic (edge_rel edges)"
  shows "dr_currentDepth r < vc_maxDepth cfg \<and> dr_activeDelegations r < vc_maxFanout cfg
    \<and> dr_targetPackId r \<notin> set (dr_delegationChain r)
    \<and> (\<forall>allowed. vc_allowedPackIds cfg = Some allowed \<longrightarrow> dr_targetPackId r \<in> set allowed)
    \<and> acyclic (edge_rel (edges @ [\<lparr>te_fromId = s, te_toId = dr_targetPackId r\<rparr>]))"
proof -
  have e: "edge_rel (edges @ [\<lparr>te_fromId = s, te_toId = dr_targetPackId r\<rparr>])
      = insert (s, dr_targetPackId r) (edge_rel edges)"
    by (auto simp: edge_rel_def)
  have "detectGraphCycle s (dr_targetPackId r) edges = Inr ()"
    using assms(1-4) by (simp add: validate_def result_simps)
  then have "acyclic (insert (s, dr_targetPackId r) (edge_rel edges))"
    using assms(5) by (simp add: detectGraphCycle_ok_iff acyclic_insert)
  with assms(1) show ?thesis
    unfolding e
    by (auto simp: validate_def validateDepth_def validateFanout_def detectCycle_def validatePackId_def
        result_simps)
qed

theorem validate_keeps_topology_witness:
  "validate (createTopologyValidator None None None)
       \<lparr>dr_currentDepth = 1, dr_activeDelegations = 2, dr_targetPackId = ''c'', dr_delegationChain = [''a''],
        dr_sourcePackId = Some ''a'', dr_existingEdges = Some ex_edges\<rparr> = Inr ()
   \<and> acyclic (edge_rel (ex_edges @ [\<lparr>te_fromId = ''a'', te_toId = ''c''\<rparr>]))"
proof -
  let ?r = "\<lparr>dr_currentDepth = 1, dr_activeDelegations = 2, dr_targetPackId = ''c'', dr_delegationChain = [''a''],
        dr_sourcePackId = Some ''a'', dr_existingEdges = Some ex_edges\<rparr>"
  have ok: "validate (createTopologyValidator None None None) ?r = Inr ()"
    by (simp add: validate_def createTopologyValidator_def DEFAULT_MAX_DEPTH_def DEFAULT_MAX_FANOUT_def
        validateDepth_def validateFanout_def detectCycle_def validatePackId_def detectGraphCycle_def ex_edges_def)
  have "dr_sourcePackId ?r = Some ''a''" "''a'' \<noteq> []" "dr_existingEdges ?r = Some ex_edges" by simp_all
  from validate_keeps_topology [OF ok this ex_edges_acyclic] ok show ?thesis by simp
qed

end
