(* ===== verification/Plan_Graph.thy ===== *)
theory Plan_Graph
  imports Prelude
begin

text \<open>
  The plan-graph normaliser
  (\<^verbatim>\<open>src/src/platform/five-plane-orchestration/planner/plan-graph-normalizer.ts\<close>): Kahn's topological
  sort, the search for orphans and dangling dependencies, and the propagation of risk.

  The fields of a plan step that the normaliser only carries along are kept as one text. The maps
  \<^verbatim>\<open>inDegree\<close> and \<^verbatim>\<open>stepById\<close> are partial functions, \<^verbatim>\<open>adjacency\<close> is the list of its entries, and the
  order in which \<^verbatim>\<open>inDegree\<close> is enumerated is the order of the first occurrence of the step identifiers.
\<close>

section \<open>Plans\<close>

record plan_step =
  ps_stepId :: ident
  ps_dependencies :: "ident list"
  ps_content :: string

datatype plan_risk = PR_low | PR_medium | PR_high | PR_critical

record risk_finding =
  rf_nodeId :: ident
  rf_inheritedRiskClass :: plan_risk
  rf_reasons :: "string list"

record normalization_result =
  nres_valid :: bool
  nres_issues :: "string list"
  nres_normalizedSteps :: "plan_step list"
  nres_riskPropagation :: "risk_finding list option"

section \<open>Topological sort\<close>

definition stepById :: "plan_step list \<Rightarrow> ident \<Rightarrow> plan_step option" where
  "stepById steps = map_of (rev (map (\<lambda>s. (ps_stepId s, s)) steps))"

definition init_adjacency :: "plan_step list \<Rightarrow> (ident \<times> ident list) list" where
  "init_adjacency steps = foldl (\<lambda>m s. jsmap_set (ps_stepId s) [] m) [] steps"

definition init_inDegree :: "plan_step list \<Rightarrow> ident \<Rightarrow> int option" where
  "init_inDegree steps = map_of (map (\<lambda>s. (ps_stepId s, 0)) steps)"

fun add_dependencies ::
    "ident \<Rightarrow> ident list \<Rightarrow> (ident \<times> ident list) list \<Rightarrow> (ident \<Rightarrow> int option) \<Rightarrow>
     (ident \<times> ident list) list \<times> (ident \<Rightarrow> int option)" where
  "add_dependencies stepId [] adjacency inDegree = (adjacency, inDegree)"
| "add_dependencies stepId (dep # deps) adjacency inDegree =
     add_dependencies stepId deps
       (case map_of adjacency dep of None \<Rightarrow> adjacency | Some ds \<Rightarrow> jsmap_set dep (ds @ [stepId]) adjacency)
       (inDegree(stepId \<mapsto> coalesce (inDegree stepId) 0 + 1))"

fun add_steps ::
    "plan_step list \<Rightarrow> (ident \<times> ident list) list \<Rightarrow> (ident \<Rightarrow> int option) \<Rightarrow>
     (ident \<times> ident list) list \<times> (ident \<Rightarrow> int option)" where
  "add_steps [] adjacency inDegree = (adjacency, inDegree)"
| "add_steps (step # steps) adjacency inDegree =
     (let (adjacency', inDegree') =
        add_dependencies (ps_stepId step) (ps_dependencies step) adjacency inDegree
      in add_steps steps adjacency' inDegree')"

text \<open>The keys of \<^verbatim>\<open>inDegree\<close> in the order of their insertion.\<close>

definition id_order :: "plan_step list \<Rightarrow> ident list" where
  "id_order steps = rev (remdups (rev (map ps_stepId steps)))"

text \<open>The inner loop over the dependents of the step that is taken from the queue.\<close>

fun release_dependents ::
    "ident list \<Rightarrow> (ident \<Rightarrow> int option) \<Rightarrow> ident list \<Rightarrow> (ident \<Rightarrow> int option) \<times> ident list" where
  "release_dependents [] inDegree queue = (inDegree, queue)"
| "release_dependents (dependent # dependents) inDegree queue =
     (let newDegree = coalesce (inDegree dependent) 1 - 1 in
      release_dependents dependents (inDegree(dependent \<mapsto> newDegree))
        (if newDegree = 0 then queue @ [dependent] else queue))"

text \<open>
  The main loop. Its measure counts the queue together with the dependents in the adjacency map
  whose degree is still positive.
\<close>

definition pending :: "(ident \<times> ident list) list \<Rightarrow> (ident \<Rightarrow> int option) \<Rightarrow> ident set" where
  "pending adjacency inDegree = {d \<in> targets adjacency. coalesce (inDegree d) 1 > 0}"

lemma release_dependents_measure:
  assumes "set ds \<subseteq> targets adj" and "release_dependents ds deg q = (deg', q')"
  shows "length q' + card (pending adj deg') \<le> length q + card (pending adj deg)"
  using assms
proof (induction ds arbitrary: deg q)
  case (Cons d ds)
  let ?n = "coalesce (deg d) 1 - 1"
  have fin: "finite (pending adj deg)" by (simp add: pending_def)
  have sub: "set ds \<subseteq> targets adj" using Cons.prems(1) by simp
  have run: "release_dependents ds (deg(d \<mapsto> ?n)) (if ?n = 0 then q @ [d] else q) = (deg', q')"
    using Cons.prems(2) by (simp only: release_dependents.simps Let_def)
  note IH = Cons.IH [OF sub run]
  show ?case
  proof (cases "?n = 0")
    case True
    have "pending adj (deg(d \<mapsto> ?n)) = pending adj deg - {d}" "d \<in> pending adj deg"
      using True Cons.prems(1) by (auto simp: pending_def)
    then have "Suc (card (pending adj (deg(d \<mapsto> ?n)))) = card (pending adj deg)"
      using fin by (metis card_Suc_Diff1)
    with IH True show ?thesis by (simp del: fun_upd_apply)
  next
    case False
    have "pending adj (deg(d \<mapsto> ?n)) \<subseteq> pending adj deg" by (auto simp: pending_def)
    then have "card (pending adj (deg(d \<mapsto> ?n))) \<le> card (pending adj deg)"
      by (rule card_mono [OF fin])
    with IH False show ?thesis by (simp del: fun_upd_apply)
  qed
qed simp

function kahn ::
    "plan_step list \<Rightarrow> (ident \<times> ident list) list \<Rightarrow> (ident \<Rightarrow> int option) \<Rightarrow> ident list \<Rightarrow>
     plan_step list \<Rightarrow> plan_step list" where
  "kahn steps adjacency inDegree [] acc = acc"
| "kahn steps adjacency inDegree (stepId # queue) acc =
     (let acc' = (case stepById steps stepId of Some step \<Rightarrow> acc @ [step] | None \<Rightarrow> acc);
          (inDegree', queue') =
            release_dependents (coalesce (map_of adjacency stepId) []) inDegree queue
      in kahn steps adjacency inDegree' queue' acc')"
  by pat_completeness auto
termination
proof (relation "measure (\<lambda>(steps, adj, deg, q, acc). length q + card (pending adj deg))", goal_cases)
  case (2 steps adj deg sid q acc x xa deg' q')
  then have "release_dependents (coalesce (map_of adj sid) []) deg q = (deg', q')" by simp
  from release_dependents_measure [OF successors_in_targets this] show ?case by simp
qed simp

declare kahn.simps(2) [simp del]

definition topologicalSort :: "plan_step list \<Rightarrow> bool \<times> plan_step list" where
  "topologicalSort steps =
     (let (adjacency, inDegree) = add_steps steps (init_adjacency steps) (init_inDegree steps);
          queue = filter (\<lambda>i. inDegree i = Some 0) (id_order steps);
          result = kahn steps adjacency inDegree queue []
      in (length result = length steps, result))"

section \<open>Other checks\<close>

definition findOrphanNodes :: "plan_step list \<Rightarrow> ident list" where
  "findOrphanNodes steps =
     (if length steps \<le> 1 then []
      else let hasDependents = concat (map ps_dependencies steps) in
        map ps_stepId (filter (\<lambda>s. ps_dependencies s = [] \<and> ps_stepId s \<notin> set hasDependents) steps))"

definition findInvalidDependencies :: "plan_step list \<Rightarrow> (ident \<times> ident) list" where
  "findInvalidDependencies steps =
     concat (map (\<lambda>s. map (\<lambda>d. (ps_stepId s, d)) (filter (\<lambda>d. d \<notin> ps_stepId ` set steps) (ps_dependencies s))) steps)"

definition riskOrder :: "plan_risk list" where
  "riskOrder = [PR_low, PR_medium, PR_high, PR_critical]"

definition risk_index :: "plan_risk \<Rightarrow> nat" where
  "risk_index r = (case r of PR_low \<Rightarrow> 0 | PR_medium \<Rightarrow> 1 | PR_high \<Rightarrow> 2 | PR_critical \<Rightarrow> 3)"

definition inherit_risk :: "plan_risk \<Rightarrow> (ident \<Rightarrow> plan_risk option) \<Rightarrow> plan_step \<Rightarrow> plan_risk" where
  "inherit_risk baseRisk riskByNode step =
     (let upstreamRisks = map (\<lambda>d. risk_index (coalesce (riskByNode d) baseRisk)) (ps_dependencies step);
          maxUpstreamRisk = (if upstreamRisks \<noteq> [] then Max (set upstreamRisks) else 0);
          currentRiskIndex = risk_index (coalesce (riskByNode (ps_stepId step)) baseRisk)
      in riskOrder ! min (max maxUpstreamRisk currentRiskIndex) 3)"

definition risk_name :: "plan_risk \<Rightarrow> string" where
  "risk_name r = (case r of PR_low \<Rightarrow> ''low'' | PR_medium \<Rightarrow> ''medium'' | PR_high \<Rightarrow> ''high'' | PR_critical \<Rightarrow> ''critical'')"

definition propagateRisk :: "plan_step list \<Rightarrow> plan_risk \<Rightarrow> risk_finding list" where
  "propagateRisk steps baseRisk =
     (let base = map_of (map (\<lambda>s. (ps_stepId s, baseRisk)) steps);
          riskByNode = foldl (\<lambda>m s. m(ps_stepId s \<mapsto> inherit_risk baseRisk m s)) base steps
      in map (\<lambda>s. \<lparr>rf_nodeId = ps_stepId s,
                   rf_inheritedRiskClass = coalesce (riskByNode (ps_stepId s)) baseRisk,
                   rf_reasons = (''inherited_from_assessment:'' @ risk_name baseRisk)
                     # (if ps_dependencies s \<noteq> [] then [''inherited_from_dependencies''] else [])\<rparr>) steps)"

fun join_comma :: "string list \<Rightarrow> string" where
  "join_comma [] = []"
| "join_comma [x] = x"
| "join_comma (x # y # ys) = x @ '','' @ join_comma (y # ys)"

definition normalize :: "plan_step list \<Rightarrow> plan_risk \<Rightarrow> normalization_result" where
  "normalize steps assessmentRisk =
     (let (success, order) = topologicalSort steps in
      if \<not> success then
        \<lparr>nres_valid = False, nres_issues = [''planning.cycle_detected''], nres_normalizedSteps = steps,
         nres_riskPropagation = None\<rparr>
      else
        let orphanNodes = findOrphanNodes order;
            issues = (if orphanNodes \<noteq> [] then [''planning.orphan_nodes:'' @ join_comma orphanNodes] else [])
        in \<lparr>nres_valid = (issues = []), nres_issues = issues, nres_normalizedSteps = order,
            nres_riskPropagation = Some (propagateRisk order assessmentRisk)\<rparr>)"

definition validate_plan :: "plan_step list \<Rightarrow> bool \<times> string list" where
  "validate_plan steps =
     (let (success, order) = topologicalSort steps;
          orphanNodes = findOrphanNodes order;
          invalidDeps = findInvalidDependencies steps;
          issues = (if \<not> success then [''validation.cycle_detected''] else [])
            @ (if orphanNodes \<noteq> [] then [''validation.orphan_nodes:'' @ join_comma orphanNodes] else [])
            @ (if invalidDeps \<noteq> []
               then [''validation.invalid_dependencies:'' @ join_comma (map (\<lambda>(s, d). s @ ''->'' @ d) invalidDeps)]
               else [])
      in (issues = [], issues))"

section \<open>The tables of the sort\<close>

definition step_ids :: "plan_step list \<Rightarrow> ident set" where
  "step_ids steps = ps_stepId ` set steps"

definition deps :: "plan_step list \<Rightarrow> ident \<Rightarrow> ident list" where
  "deps steps n = (case stepById steps n of Some s \<Rightarrow> ps_dependencies s | None \<Rightarrow> [])"

definition succs :: "plan_step list \<Rightarrow> ident \<Rightarrow> ident list" where
  "succs steps x = concat (map (\<lambda>s. replicate (count_list (ps_dependencies s) x) (ps_stepId s)) steps)"

lemma map_of_init_adjacency: "map_of (init_adjacency steps) x = (if x \<in> step_ids steps then Some [] else None)"
proof -
  have "map_of (foldl (\<lambda>m s. jsmap_set (ps_stepId s) [] m) m xs) x
      = (if x \<in> step_ids xs then Some [] else map_of m x)" for m :: "(ident \<times> ident list) list" and xs
    by (induction xs arbitrary: m) (auto simp: step_ids_def)
  then show ?thesis by (simp add: init_adjacency_def)
qed

lemma init_inDegree_Some: "s \<in> set steps \<Longrightarrow> init_inDegree steps (ps_stepId s) = Some 0"
  by (induction steps) (auto simp: init_inDegree_def)

lemma stepById_Some:
  assumes "distinct (map ps_stepId steps)" and "s \<in> set steps"
  shows "stepById steps (ps_stepId s) = Some s"
proof -
  have "distinct (map fst (rev (map (\<lambda>s. (ps_stepId s, s)) steps)))"
    using assms(1) by (simp add: rev_map [symmetric] comp_def)
  then show ?thesis
    unfolding stepById_def using assms(2) by (intro map_of_is_SomeI) auto
qed

lemma deps_of_step: "distinct (map ps_stepId steps) \<Longrightarrow> s \<in> set steps \<Longrightarrow> deps steps (ps_stepId s) = ps_dependencies s"
  by (simp add: deps_def stepById_Some)

lemma add_dependencies_adjacency:
  assumes "add_dependencies sid ds adj deg = (adj', deg')"
  shows "map_of adj' x = map_option (\<lambda>l. l @ replicate (count_list ds x) sid) (map_of adj x)"
  using assms
proof (induction ds arbitrary: adj deg)
  case (Cons d ds)
  let ?adj = "case map_of adj d of None \<Rightarrow> adj | Some l \<Rightarrow> jsmap_set d (l @ [sid]) adj"
  have "map_of adj' x = map_option (\<lambda>l. l @ replicate (count_list ds x) sid) (map_of ?adj x)"
    using Cons.IH Cons.prems by (simp only: add_dependencies.simps)
  moreover have "map_of ?adj x = map_option (\<lambda>l. if x = d then l @ [sid] else l) (map_of adj x)"
    by (cases "map_of adj d"; cases "map_of adj x"; cases "x = d") simp_all
  ultimately show ?case
    by (cases "map_of adj x") simp_all
qed (simp add: option.map_ident)

lemma add_dependencies_degree:
  assumes "add_dependencies sid ds adj deg = (adj', deg')"
  shows "deg' = (if ds = [] then deg else deg(sid \<mapsto> coalesce (deg sid) 0 + int (length ds)))"
  using assms
proof (induction ds arbitrary: adj deg)
  case (Cons d ds)
  let ?adj = "case map_of adj d of None \<Rightarrow> adj | Some l \<Rightarrow> jsmap_set d (l @ [sid]) adj"
  let ?deg = "deg(sid \<mapsto> coalesce (deg sid) 0 + 1)"
  have "add_dependencies sid ds ?adj ?deg = (adj', deg')"
    using Cons.prems by (simp only: add_dependencies.simps)
  from Cons.IH [OF this] show ?case
    by (cases "ds = []") (simp_all add: algebra_simps)
qed simp

lemmas add_dependencies_result = add_dependencies_adjacency add_dependencies_degree

lemma add_steps_Cons:
  assumes "add_steps (a # steps) adj deg = (adj', deg')"
  obtains adj1 deg1 where "add_dependencies (ps_stepId a) (ps_dependencies a) adj deg = (adj1, deg1)"
    and "add_steps steps adj1 deg1 = (adj', deg')"
  using assms by (cases "add_dependencies (ps_stepId a) (ps_dependencies a) adj deg") auto

lemma add_steps_adjacency:
  assumes "add_steps steps adj deg = (adj', deg')"
  shows "map_of adj' x = map_option (\<lambda>l. l @ succs steps x) (map_of adj x)"
  using assms
proof (induction steps arbitrary: adj deg)
  case (Cons a steps)
  obtain adj1 deg1 where one: "add_dependencies (ps_stepId a) (ps_dependencies a) adj deg = (adj1, deg1)"
    and rest: "add_steps steps adj1 deg1 = (adj', deg')"
    using Cons.prems by (rule add_steps_Cons)
  show ?case
    unfolding Cons.IH [OF rest] add_dependencies_adjacency [OF one]
    by (cases "map_of adj x") (simp_all add: succs_def)
qed (simp add: succs_def option.map_ident)

lemma add_steps_degree_other:
  assumes "add_steps steps adj deg = (adj', deg')" and "n \<notin> step_ids steps"
  shows "deg' n = deg n"
  using assms
proof (induction steps arbitrary: adj deg)
  case (Cons a steps)
  obtain adj1 deg1 where one: "add_dependencies (ps_stepId a) (ps_dependencies a) adj deg = (adj1, deg1)"
    and rest: "add_steps steps adj1 deg1 = (adj', deg')"
    using Cons.prems(1) by (rule add_steps_Cons)
  have "n \<notin> step_ids steps" "n \<noteq> ps_stepId a" using Cons.prems(2) by (simp_all add: step_ids_def)
  with Cons.IH [OF rest] add_dependencies_degree [OF one] show ?case by simp
qed simp

lemma add_steps_degree:
  assumes "add_steps steps adj deg = (adj', deg')" and "distinct (map ps_stepId steps)"
    and "s \<in> set steps" and "deg (ps_stepId s) = Some 0"
  shows "deg' (ps_stepId s) = Some (int (length (ps_dependencies s)))"
  using assms
proof (induction steps arbitrary: adj deg)
  case (Cons a steps)
  obtain adj1 deg1 where one: "add_dependencies (ps_stepId a) (ps_dependencies a) adj deg = (adj1, deg1)"
    and rest: "add_steps steps adj1 deg1 = (adj', deg')"
    using Cons.prems(1) by (rule add_steps_Cons)
  note deg1 = add_dependencies_degree [OF one]
  show ?case
  proof (cases "s = a")
    case True
    then have "ps_stepId s \<notin> step_ids steps" using Cons.prems(2) by (simp add: step_ids_def)
    from add_steps_degree_other [OF rest this] deg1 True Cons.prems(4) show ?thesis by simp
  next
    case False
    with Cons.prems have "s \<in> set steps" "distinct (map ps_stepId steps)" "ps_stepId s \<noteq> ps_stepId a"
      by (auto simp: image_iff)
    with Cons.IH [OF rest] deg1 Cons.prems(4) show ?thesis by simp
  qed
qed simp

lemma count_list_replicate: "count_list (replicate k a) b = (if a = b then k else 0)"
  by (induction k) auto

lemma count_list_concat_other:
  "n \<notin> f ` set xs \<Longrightarrow> count_list (concat (map (\<lambda>s. replicate (g s) (f s)) xs)) n = 0"
  by (induction xs) (auto simp: count_list_append count_list_replicate)

lemma count_list_concat_replicate:
  assumes "distinct (map f xs)" and "x \<in> set xs"
  shows "count_list (concat (map (\<lambda>s. replicate (g s) (f s)) xs)) (f x) = g x"
  using assms
proof (induction xs)
  case (Cons a xs)
  show ?case
  proof (cases "x = a")
    case True
    with Cons.prems show ?thesis
      by (simp add: count_list_append count_list_replicate count_list_concat_other)
  next
    case False
    with Cons have "x \<in> set xs" "f x \<noteq> f a" by (auto simp: image_iff)
    with Cons show ?thesis by (simp add: count_list_append count_list_replicate)
  qed
qed simp

lemma count_succs:
  assumes "distinct (map ps_stepId steps)"
  shows "count_list (succs steps x) n = (if n \<in> step_ids steps then count_list (deps steps n) x else 0)"
proof (cases "n \<in> step_ids steps")
  case True
  then obtain s where "s \<in> set steps" "n = ps_stepId s" by (auto simp: step_ids_def)
  with count_list_concat_replicate [OF assms, of s "\<lambda>s. count_list (ps_dependencies s) x"] True
  show ?thesis by (simp add: succs_def deps_of_step [OF assms])
next
  case False
  then show ?thesis by (simp add: succs_def step_ids_def count_list_concat_other)
qed

lemma set_succs: "set (succs steps x) \<subseteq> step_ids steps"
  by (auto simp: succs_def step_ids_def)

lemma release_dependents_result:
  assumes "\<forall>d \<in> set ds. \<exists>v. deg d = Some v \<and> int (count_list ds d) \<le> v"
    and "release_dependents ds deg q = (deg', q')"
  shows "\<exists>new. q' = q @ new \<and> distinct new \<and> set new = {n \<in> set ds. deg n = Some (int (count_list ds n))}
    \<and> (\<forall>n. deg' n = (if n \<in> set ds then map_option (\<lambda>v. v - int (count_list ds n)) (deg n) else deg n))"
  using assms
proof (induction ds arbitrary: deg q)
  case (Cons d ds)
  obtain v where v: "deg d = Some v" "int (count_list (d # ds) d) \<le> v"
    using Cons.prems(1) by auto
  let ?deg = "deg(d \<mapsto> v - 1)" and ?q = "if v - 1 = 0 then q @ [d] else q"
  have "\<forall>x \<in> set ds. \<exists>w. ?deg x = Some w \<and> int (count_list ds x) \<le> w"
    using Cons.prems(1) v by (auto split: if_splits)
  moreover have "release_dependents ds ?deg ?q = (deg', q')"
    using Cons.prems(2) v(1) by (simp add: Let_def)
  ultimately obtain new where new: "q' = ?q @ new" "distinct new"
    "set new = {n \<in> set ds. ?deg n = Some (int (count_list ds n))}"
    "\<forall>n. deg' n = (if n \<in> set ds then map_option (\<lambda>v. v - int (count_list ds n)) (?deg n) else ?deg n)"
    using Cons.IH by blast
  have deg: "deg' n = (if n \<in> set (d # ds) then map_option (\<lambda>v. v - int (count_list (d # ds) n)) (deg n) else deg n)" for n
    using new(4) v(1) by (cases "n = d"; cases "n \<in> set ds") (simp_all add: count_notin)
  let ?zero = "{n \<in> set (d # ds). deg n = Some (int (count_list (d # ds) n))}"
  have mem: "n \<in> set new \<longleftrightarrow> n \<in> ?zero" if "n \<noteq> d" for n
    using that new(3) by simp
  show ?case
  proof (cases "v = 1")
    case True
    then have "d \<notin> set ds"
      using v(2) by (simp add: count_list_0_iff)
    then have "d \<notin> set new" "d \<in> ?zero" using new(3) v(1) True by (simp_all add: count_notin)
    moreover from this mem have "set (d # new) = ?zero" by (auto simp del: mem_Collect_eq)
    moreover have "q' = q @ d # new" using new(1) True by simp
    ultimately show ?thesis using deg new(2) by (intro exI [of _ "d # new"]) simp
  next
    case False
    have same: "d \<in> set new \<longleftrightarrow> d \<in> ?zero"
    proof -
      have "d \<in> set new \<longleftrightarrow> d \<in> set ds \<and> v - 1 = int (count_list ds d)" unfolding new(3) by simp
      moreover have "d \<in> ?zero \<longleftrightarrow> v = 1 + int (count_list ds d)" using v(1) by simp
      moreover have "d \<notin> set ds \<Longrightarrow> int (count_list ds d) = 0" by (simp add: count_notin)
      ultimately show ?thesis using False by linarith
    qed
    have "set new = ?zero"
    proof (rule set_eqI)
      fix n
      show "n \<in> set new \<longleftrightarrow> n \<in> ?zero"
      proof (cases "n = d")
        case True
        show ?thesis unfolding True by (rule same)
      qed (rule mem)
    qed
    moreover have "q' = q @ new" using new(1) False by simp
    ultimately show ?thesis using deg new(2) by (intro exI [of _ new]) simp
  qed
qed simp

section \<open>Invariant of Kahn's loop\<close>

definition ordered_steps :: "plan_step list \<Rightarrow> bool" where
  "ordered_steps order \<longleftrightarrow>
     (\<forall>i < length order. set (ps_dependencies (order ! i)) \<subseteq> step_ids (take i order))"

text \<open>
  The steps already emitted are steps of the plan, each after its dependencies; the degree of a step
  counts its dependencies that are not yet emitted; the steps of degree zero are exactly those that are
  emitted or queued.
\<close>

definition kahn_inv ::
    "plan_step list \<Rightarrow> (ident \<Rightarrow> int option) \<Rightarrow> ident list \<Rightarrow> plan_step list \<Rightarrow> bool" where
  "kahn_inv steps deg q acc \<longleftrightarrow>
     set acc \<subseteq> set steps \<and> set q \<subseteq> step_ids steps \<and> distinct (map ps_stepId acc @ q) \<and> ordered_steps acc
     \<and> (\<forall>n \<in> step_ids steps. deg n = Some (int (length (filter (\<lambda>d. d \<notin> step_ids acc) (deps steps n)))))
     \<and> (\<forall>n \<in> step_ids steps. deg n = Some 0 \<longleftrightarrow> n \<in> step_ids acc \<union> set q)"

lemma step_ids_append [simp]: "step_ids (xs @ [s]) = insert (ps_stepId s) (step_ids xs)"
  by (simp add: step_ids_def)

lemma ordered_steps_snoc:
  "ordered_steps (xs @ [s]) \<longleftrightarrow> ordered_steps xs \<and> set (ps_dependencies s) \<subseteq> step_ids xs"
  by (auto simp: ordered_steps_def nth_append less_Suc_eq)

lemma length_filter_insert:
  "x \<notin> A \<Longrightarrow> length (filter (\<lambda>d. d \<notin> A) ds) = length (filter (\<lambda>d. d \<notin> insert x A) ds) + count_list ds x"
  by (induction ds) auto

lemma kahn_inv_step:
  assumes dist: "distinct (map ps_stepId steps)"
    and inv: "kahn_inv steps deg (x # q) acc"
    and step: "stepById steps x = Some s" "ps_stepId s = x" "s \<in> set steps"
    and run: "release_dependents (succs steps x) deg q = (deg', q')"
  shows "kahn_inv steps deg' q' (acc @ [s])"
proof -
  let ?ds = "succs steps x" and ?P = "step_ids acc"
  have x: "x \<notin> ?P" "x \<in> step_ids steps"
    using inv by (auto simp: kahn_inv_def step_ids_def)
  have count: "count_list ?ds n = count_list (deps steps n) x" if "n \<in> step_ids steps" for n
    using that by (simp add: count_succs [OF dist])
  have degree: "deg n = Some (int (length (filter (\<lambda>d. d \<notin> insert x ?P) (deps steps n))) + int (count_list ?ds n))"
    if "n \<in> step_ids steps" for n
    using that inv x(1) by (simp add: kahn_inv_def length_filter_insert [of x] count)
  have zero: "deg n = Some 0 \<longleftrightarrow> n \<in> ?P \<union> set (x # q)" if "n \<in> step_ids steps" for n
    using that inv unfolding kahn_inv_def by blast
  have sub: "n \<in> step_ids steps" if "n \<in> set ?ds" for n using that set_succs by blast
  have "\<forall>d \<in> set ?ds. \<exists>v. deg d = Some v \<and> int (count_list ?ds d) \<le> v"
    using sub degree by fastforce
  from release_dependents_result [OF this run]
  obtain new where new: "q' = q @ new" "distinct new" "set new = {n \<in> set ?ds. deg n = Some (int (count_list ?ds n))}"
    and deg': "\<And>n. deg' n = (if n \<in> set ?ds then map_option (\<lambda>v. v - int (count_list ?ds n)) (deg n) else deg n)"
    by blast
  have pos: "n \<notin> ?P \<union> set (x # q)" if "n \<in> set ?ds" for n
  proof -
    have "count_list ?ds n \<noteq> 0" using that by (simp add: count_list_0_iff)
    then have "deg n \<noteq> Some 0" using degree [OF sub [OF that]] by simp
    then show ?thesis using zero [OF sub [OF that]] by blast
  qed
  have 1: "deg' n = Some (int (length (filter (\<lambda>d. d \<notin> insert x ?P) (deps steps n))))" if "n \<in> step_ids steps" for n
    using degree [OF that] deg' [of n] by (cases "n \<in> set ?ds") (simp_all add: count_notin)
  have 2: "deg' n = Some 0 \<longleftrightarrow> n \<in> insert x ?P \<union> set q'" if n: "n \<in> step_ids steps" for n
  proof (cases "n \<in> set ?ds")
    case True
    then have "deg' n = Some 0 \<longleftrightarrow> n \<in> set new" using deg' [of n] degree [OF n] new(3) by auto
    with pos [OF True] new(1) show ?thesis by simp
  next
    case False
    then show ?thesis using deg' [of n] zero [OF n] new(1,3) by simp
  qed
  have "filter (\<lambda>d. d \<notin> ?P) (deps steps x) = []"
    using zero [OF x(2)] inv x(2) by (simp add: kahn_inv_def)
  then have "set (ps_dependencies s) \<subseteq> ?P"
    using deps_of_step [OF dist step(3)] step(2) by (auto simp: filter_empty_conv)
  moreover have "distinct (map ps_stepId (acc @ [s]) @ q')"
  proof -
    have "set new \<inter> (?P \<union> set (x # q)) = {}" using pos unfolding new(3) by blast
    moreover have "distinct (map ps_stepId acc @ x # q)" using inv by (simp add: kahn_inv_def)
    ultimately show ?thesis using new(1,2) step(2) by (auto simp: step_ids_def)
  qed
  moreover have "set q' \<subseteq> step_ids steps" using inv new sub by (auto simp: kahn_inv_def)
  ultimately show ?thesis
    using inv step 1 2 by (simp add: kahn_inv_def ordered_steps_snoc)
qed

lemma kahn_inv_preserved:
  assumes "distinct (map ps_stepId steps)" and "kahn_inv steps deg q acc"
    and "\<forall>x \<in> step_ids steps. map_of adj x = Some (succs steps x)"
  shows "\<exists>deg'. kahn_inv steps deg' [] (kahn steps adj deg q acc)"
  using assms
proof (induction steps adj deg q acc rule: kahn.induct)
  case (1 steps adj deg acc)
  then show ?case by auto
next
  case (2 steps adj deg x q acc)
  have "x \<in> step_ids steps" using "2.prems"(2) by (simp add: kahn_inv_def)
  then obtain s where s: "s \<in> set steps" "ps_stepId s = x" by (auto simp: step_ids_def)
  then have lookup: "stepById steps x = Some s" using stepById_Some [OF "2.prems"(1)] by blast
  have adj: "coalesce (map_of adj x) [] = succs steps x" using "2.prems"(3) \<open>x \<in> step_ids steps\<close> by simp
  obtain deg' q' where run: "release_dependents (succs steps x) deg q = (deg', q')" by fastforce
  have "kahn_inv steps deg' q' (acc @ [s])"
    by (rule kahn_inv_step [OF "2.prems"(1,2) lookup s(2,1) run])
  moreover have "kahn steps adj deg (x # q) acc = kahn steps adj deg' q' (acc @ [s])"
    by (simp add: kahn.simps(2) lookup adj run)
  ultimately show ?case
    using "2.IH" [OF refl _ refl] "2.prems" lookup adj run by simp
qed

section \<open>Correctness of the sort\<close>

lemma set_id_order: "set (id_order steps) = step_ids steps"
  by (simp add: id_order_def step_ids_def)

lemma topologicalSort_inv:
  assumes dist: "distinct (map ps_stepId steps)" and "topologicalSort steps = (ok, order)"
  shows "\<exists>deg. kahn_inv steps deg [] order" and "ok \<longleftrightarrow> length order = length steps"
proof -
  obtain adj deg where tables: "add_steps steps (init_adjacency steps) (init_inDegree steps) = (adj, deg)"
    by fastforce
  let ?q = "filter (\<lambda>i. deg i = Some 0) (id_order steps)"
  have order: "order = kahn steps adj deg ?q []" and "ok \<longleftrightarrow> length order = length steps"
    using assms(2) tables by (auto simp: topologicalSort_def Let_def)
  then show "ok \<longleftrightarrow> length order = length steps" by simp
  have adj: "\<forall>x \<in> step_ids steps. map_of adj x = Some (succs steps x)"
    using add_steps_adjacency [OF tables] by (simp add: map_of_init_adjacency)
  have deg: "deg n = Some (int (length (deps steps n)))" if "n \<in> step_ids steps" for n
    using that add_steps_degree [OF tables dist _ init_inDegree_Some] deps_of_step [OF dist]
    by (auto simp: step_ids_def)
  have "kahn_inv steps deg ?q []"
    using deg by (auto simp: kahn_inv_def ordered_steps_def step_ids_def [of "[]"] set_id_order)
      (simp add: id_order_def)
  from kahn_inv_preserved [OF dist this adj] order show "\<exists>deg. kahn_inv steps deg [] order" by simp
qed

text \<open>\<open>depends_on\<close> relates a step to the steps that depend on it.\<close>

definition depends_on :: "plan_step list \<Rightarrow> (ident \<times> ident) set" where
  "depends_on steps = {(d, n). n \<in> step_ids steps \<and> d \<in> set (deps steps n)}"

lemma finite_depends_on: "finite (depends_on steps)"
proof -
  have "depends_on steps \<subseteq> (\<Union>n \<in> step_ids steps. set (deps steps n)) \<times> step_ids steps"
    by (auto simp: depends_on_def)
  then show ?thesis by (rule finite_subset) (simp add: step_ids_def)
qed

lemma ordered_steps_earlier:
  assumes dist: "distinct (map ps_stepId steps)" and order: "ordered_steps order" "set order = set steps"
    and "(d, n) \<in> (depends_on steps)\<^sup>+" and "j < length order" and "ps_stepId (order ! j) = n"
  shows "\<exists>i < j. ps_stepId (order ! i) = d"
  using assms(4-)
proof (induction arbitrary: j rule: trancl_induct)
  case (base n)
  have "order ! j \<in> set steps" using base order(2) nth_mem by blast
  then have "d \<in> set (ps_dependencies (order ! j))"
    using base deps_of_step [OF dist] by (auto simp: depends_on_def)
  then have "d \<in> step_ids (take j order)" using order(1) base by (auto simp: ordered_steps_def)
  then obtain i where "i < j" "d = ps_stepId (order ! i)" by (auto simp: step_ids_def in_set_conv_nth)
  then show ?case by blast
next
  case (step m n)
  have "order ! j \<in> set steps" using step.prems order(2) nth_mem by blast
  then have "m \<in> set (ps_dependencies (order ! j))"
    using step.hyps(2) step.prems deps_of_step [OF dist] by (auto simp: depends_on_def)
  then have "m \<in> step_ids (take j order)" using order(1) step.prems by (auto simp: ordered_steps_def)
  then obtain k where "k < j" "ps_stepId (order ! k) = m" by (auto simp: step_ids_def in_set_conv_nth)
  with step.IH [of k] step.prems show ?case by (meson less_trans)
qed

lemma ordered_steps_acyclic:
  assumes dist: "distinct (map ps_stepId steps)" and order: "ordered_steps order" "set order = set steps"
    "distinct (map ps_stepId order)"
  shows "acyclic (depends_on steps)"
proof (rule acyclicI, intro allI notI)
  fix n assume loop: "(n, n) \<in> (depends_on steps)\<^sup>+"
  then have "n \<in> step_ids steps" by (auto elim!: tranclE simp: depends_on_def)
  then obtain j where j: "j < length order" "ps_stepId (order ! j) = n"
    unfolding step_ids_def order(2) [symmetric] by (auto simp: in_set_conv_nth)
  from ordered_steps_earlier [OF dist order(1,2) loop j]
  obtain i where "i < j" "ps_stepId (order ! i) = n" by blast
  with order(3) j show False by (auto simp: distinct_conv_nth)
qed

lemma kahn_inv_complete:
  assumes inv: "kahn_inv steps deg [] order" and closed: "\<forall>n \<in> step_ids steps. set (deps steps n) \<subseteq> step_ids steps"
    and acyclic: "acyclic (depends_on steps)"
  shows "step_ids steps \<subseteq> step_ids order"
proof
  fix n assume "n \<in> step_ids steps"
  have "wf (depends_on steps)" using finite_depends_on acyclic by (rule finite_acyclic_wf)
  then show "n \<in> step_ids order" using \<open>n \<in> step_ids steps\<close>
  proof (induction n rule: wf_induct_rule)
    case (less n)
    then have "set (deps steps n) \<subseteq> step_ids order"
      using closed by (auto simp: depends_on_def)
    then have "filter (\<lambda>d. d \<notin> step_ids order) (deps steps n) = []" by (auto simp: filter_empty_conv)
    moreover have "deg n = Some (int (length (filter (\<lambda>d. d \<notin> step_ids order) (deps steps n))))"
      "deg n = Some 0 \<longleftrightarrow> n \<in> step_ids order \<union> set []"
      using inv less.prems unfolding kahn_inv_def by blast+
    ultimately show ?case by simp
  qed
qed

lemma step_ids_eq_set_eq:
  assumes "distinct (map ps_stepId steps)" "set order \<subseteq> set steps" "step_ids steps \<subseteq> step_ids order"
  shows "set order = set steps"
proof -
  have "s \<in> set order" if s: "s \<in> set steps" for s
  proof -
    obtain t where "t \<in> set order" "ps_stepId t = ps_stepId s" using s assms(3) by (auto simp: step_ids_def)
    moreover from this have "t = s"
      using assms(1,2) s by (auto simp: distinct_map dest: inj_onD)
    ultimately show ?thesis by simp
  qed
  with assms(2) show ?thesis by blast
qed

lemma topologicalSort_sound:
  assumes "distinct (map ps_stepId steps)" and "topologicalSort steps = (ok, order)"
  shows "(ok \<longleftrightarrow> (\<forall>s \<in> set steps. set (ps_dependencies s) \<subseteq> step_ids steps) \<and> acyclic (depends_on steps))
    \<and> (ok \<longrightarrow> mset order = mset steps
        \<and> (\<forall>i < length order. set (ps_dependencies (order ! i)) \<subseteq> step_ids (take i order)))"
proof -
  obtain deg where inv: "kahn_inv steps deg [] order" and ok: "ok \<longleftrightarrow> length order = length steps"
    using topologicalSort_inv [OF assms] by blast
  have closed: "(\<forall>s \<in> set steps. set (ps_dependencies s) \<subseteq> step_ids steps)
      \<longleftrightarrow> (\<forall>n \<in> step_ids steps. set (deps steps n) \<subseteq> step_ids steps)"
    using deps_of_step [OF assms(1)] by (auto simp: step_ids_def)
  have sub: "set order \<subseteq> set steps" and dist: "distinct (map ps_stepId order)" and ord: "ordered_steps order"
    using inv by (simp_all add: kahn_inv_def)
  then have distinct: "distinct order" "distinct steps" using assms(1) by (simp_all add: distinct_map)
  have ok': "ok \<longleftrightarrow> set order = set steps"
    using ok sub distinct by (metis card_subset_eq distinct_card finite_set)
  have only_if: "(\<forall>s \<in> set steps. set (ps_dependencies s) \<subseteq> step_ids steps) \<and> acyclic (depends_on steps)" if ok
  proof
    have eq: "set order = set steps" using that ok' by simp
    show "acyclic (depends_on steps)" using ordered_steps_acyclic [OF assms(1) ord eq dist] .
    show "\<forall>s \<in> set steps. set (ps_dependencies s) \<subseteq> step_ids steps"
    proof
      fix s assume "s \<in> set steps"
      then obtain i where "i < length order" "s = order ! i"
        unfolding eq [symmetric] by (auto simp: in_set_conv_nth)
      then have "set (ps_dependencies s) \<subseteq> step_ids (take i order)" using ord by (simp add: ordered_steps_def)
      also have "\<dots> \<subseteq> step_ids steps" using set_take_subset [of i order] eq by (auto simp: step_ids_def)
      finally show "set (ps_dependencies s) \<subseteq> step_ids steps" .
    qed
  qed
  moreover have ok if "\<forall>s \<in> set steps. set (ps_dependencies s) \<subseteq> step_ids steps" "acyclic (depends_on steps)"
    using kahn_inv_complete [OF inv] that closed step_ids_eq_set_eq [OF assms(1) sub] ok' by blast
  moreover have "mset order = mset steps" if ok
    using that ok' distinct set_eq_iff_mset_eq_distinct by blast
  ultimately show ?thesis using ord by (auto simp: ordered_steps_def)
qed

text \<open>
  C34. The sort is exact: on steps with pairwise different identifiers it succeeds if and only if every
  dependency is a step of the plan and the dependency relation has no cycle; when it succeeds the
  result is a permutation of the steps in which every dependency stands before the step that needs it.
\<close>

theorem topologicalSort_exact:
  assumes "distinct (map ps_stepId steps)" and "topologicalSort steps = (ok, order)"
  shows "(ok \<longleftrightarrow> (\<forall>s \<in> set steps. set (ps_dependencies s) \<subseteq> step_ids steps) \<and> acyclic (depends_on steps))
    \<and> (ok \<longrightarrow> mset order = mset steps
        \<and> (\<forall>i < length order. set (ps_dependencies (order ! i)) \<subseteq> step_ids (take i order)))"
  by (rule topologicalSort_sound [OF assms])

definition example_plan :: "plan_step list" where
  "example_plan =
     [\<lparr>ps_stepId = ''deploy'', ps_dependencies = [''test'', ''build''], ps_content = []\<rparr>,
      \<lparr>ps_stepId = ''test'', ps_dependencies = [''build''], ps_content = []\<rparr>,
      \<lparr>ps_stepId = ''build'', ps_dependencies = [], ps_content = []\<rparr>]"

lemma topologicalSort_example: "topologicalSort example_plan = (True, rev example_plan)"
  by code_simp

theorem topologicalSort_exact_witness:
  "acyclic (depends_on example_plan) \<and> mset (rev example_plan) = mset example_plan"
  using topologicalSort_exact [OF _ topologicalSort_example]
  by (simp add: example_plan_def)

text \<open>
  A dependency on a step that is not in the plan is reported by \<open>normalize\<close> as a cycle: for steps
  with pairwise different identifiers and an acyclic dependency relation, one unresolved dependency
  makes the result invalid with the only issue \<^verbatim>\<open>planning.cycle_detected\<close>, the steps left as they were.
\<close>

theorem dangling_dependency_reported_as_cycle:
  assumes "distinct (map ps_stepId steps)" and "findInvalidDependencies steps \<noteq> []"
    and "acyclic (depends_on steps)"
  shows "normalize steps risk = \<lparr>nres_valid = False, nres_issues = [''planning.cycle_detected''],
    nres_normalizedSteps = steps, nres_riskPropagation = None\<rparr>"
proof -
  obtain ok order where sort: "topologicalSort steps = (ok, order)" by fastforce
  obtain s d where "s \<in> set steps" "d \<in> set (ps_dependencies s)" "d \<notin> step_ids steps"
    using assms(2) by (auto simp: findInvalidDependencies_def step_ids_def filter_empty_conv)
  then have "\<not> ok" using topologicalSort_sound [OF assms(1) sort] by auto
  then show ?thesis by (simp add: normalize_def sort)
qed

definition dangling_plan :: "plan_step list" where
  "dangling_plan = [\<lparr>ps_stepId = ''a'', ps_dependencies = [''missing''], ps_content = []\<rparr>]"

theorem dangling_dependency_reported_as_cycle_witness:
  "nres_issues (normalize dangling_plan PR_low) = [''planning.cycle_detected'']"
proof -
  have "depends_on dangling_plan = {(''missing'', ''a'')}"
    by (auto simp: depends_on_def dangling_plan_def step_ids_def deps_def stepById_def)
  then have "acyclic (depends_on dangling_plan)" by (simp add: acyclic_def trancl_insert)
  moreover have "distinct (map ps_stepId dangling_plan)" "findInvalidDependencies dangling_plan \<noteq> []"
    by (simp_all add: dangling_plan_def findInvalidDependencies_def)
  ultimately show ?thesis using dangling_dependency_reported_as_cycle [of dangling_plan PR_low] by simp
qed

section \<open>Risk\<close>

lemma riskOrder_risk_index: "riskOrder ! min (risk_index r) 3 = r"
  by (cases r) (simp_all add: riskOrder_def risk_index_def)

lemma inherit_risk_constant:
  assumes "\<forall>n. coalesce (m n) r = r"
  shows "inherit_risk r m s = r"
proof -
  have "map (\<lambda>d. risk_index (coalesce (m d) r)) (ps_dependencies s) = map (\<lambda>d. risk_index r) (ps_dependencies s)"
    using assms by simp
  moreover have "Max (set (map (\<lambda>d. risk_index r) ds)) = risk_index r" if "ds \<noteq> []" for ds :: "ident list"
    using that by (cases ds) (simp_all add: image_constant_conv)
  ultimately show ?thesis
    using assms riskOrder_risk_index [of r] by (simp add: inherit_risk_def Let_def)
qed

lemma propagate_constant:
  assumes "\<forall>n. coalesce (m n) r = r"
  shows "coalesce (foldl (\<lambda>m s. m(ps_stepId s \<mapsto> inherit_risk r m s)) m steps n) r = r"
  using assms
proof (induction steps arbitrary: m)
  case (Cons s steps)
  have "\<forall>n. coalesce ((m(ps_stepId s \<mapsto> inherit_risk r m s)) n) r = r"
    using Cons.prems inherit_risk_constant [OF Cons.prems] by simp
  from Cons.IH [OF this] show ?case by simp
qed simp

text \<open>
  The propagation of risk never changes a risk class: whatever the dependencies are, every step is
  assigned the risk class of the assessment.
\<close>

theorem propagateRisk_is_constant:
  "map rf_nodeId (propagateRisk steps baseRisk) = map ps_stepId steps
   \<and> map rf_inheritedRiskClass (propagateRisk steps baseRisk) = replicate (length steps) baseRisk"
proof -
  have "\<forall>n. coalesce (map_of (map (\<lambda>s. (ps_stepId s, baseRisk)) steps) n) baseRisk = baseRisk"
    by (induction steps) auto
  note const = propagate_constant [OF this]
  show ?thesis by (simp add: propagateRisk_def Let_def const comp_def map_replicate_const)
qed

end
