(* ===== verification/Stage_FSM.thy ===== *)
theory Stage_FSM
  imports Prelude
begin

text \<open>
  The finite state machine over the nine OAPEFLIR stages
  (\<^verbatim>\<open>src/src/platform/five-plane-orchestration/oapeflir/stage-transition-fsm.ts\<close>).

  The state is the current index, the three maps over stages and the last value of the monotonic
  timestamp source. Every operation that draws a timestamp takes the value of \<^verbatim>\<open>Date.now()\<close> as an
  argument. The reason codes are kept with their parameters instead of as formatted text. Stages are a
  datatype, so the branches for a stage that is not in \<^verbatim>\<open>STAGE_ORDER\<close> cannot be reached.
\<close>

section \<open>Stages and tables\<close>

datatype oapeflir_stage =
    Observe | Assess | Plan | Execute | Feedback | Learn | Improve | Release | Knowledge_promotion

datatype stage_status = SS_pending | SS_completed | SS_skipped | SS_error | SS_blocked

definition STAGE_ORDER :: "oapeflir_stage list" where
  "STAGE_ORDER = [Observe, Assess, Plan, Execute, Feedback, Learn, Improve, Release, Knowledge_promotion]"

text \<open>\<^verbatim>\<open>STAGE_ORDER.indexOf(stage)\<close>.\<close>

fun stage_index :: "oapeflir_stage \<Rightarrow> nat" where
  "stage_index Observe = 0"
| "stage_index Assess = 1"
| "stage_index Plan = 2"
| "stage_index Execute = 3"
| "stage_index Feedback = 4"
| "stage_index Learn = 5"
| "stage_index Improve = 6"
| "stage_index Release = 7"
| "stage_index Knowledge_promotion = 8"

definition FEEDBACK_REENTRY_TARGETS :: "oapeflir_stage list" where
  "FEEDBACK_REENTRY_TARGETS = [Observe, Assess, Plan, Execute]"

fun VALID_PREDECESSORS :: "oapeflir_stage \<Rightarrow> oapeflir_stage list option" where
  "VALID_PREDECESSORS Observe = Some []"
| "VALID_PREDECESSORS Assess = Some [Observe]"
| "VALID_PREDECESSORS Plan = Some [Assess]"
| "VALID_PREDECESSORS Execute = Some [Plan]"
| "VALID_PREDECESSORS Feedback = Some [Execute]"
| "VALID_PREDECESSORS Learn = Some [Feedback]"
| "VALID_PREDECESSORS Improve = Some [Learn]"
| "VALID_PREDECESSORS Release = Some [Improve]"
| "VALID_PREDECESSORS Knowledge_promotion = None"

record stage_entry_condition =
  sec_stage :: oapeflir_stage
  sec_requiredStatus :: "stage_status list"
  sec_validationRequired :: bool

definition entry_condition :: "oapeflir_stage \<Rightarrow> stage_status list \<Rightarrow> bool \<Rightarrow> stage_entry_condition" where
  "entry_condition s req v = \<lparr>sec_stage = s, sec_requiredStatus = req, sec_validationRequired = v\<rparr>"

fun STAGE_ENTRY_CONDITIONS :: "oapeflir_stage \<Rightarrow> stage_entry_condition option" where
  "STAGE_ENTRY_CONDITIONS Observe = Some (entry_condition Observe [] False)"
| "STAGE_ENTRY_CONDITIONS Assess = Some (entry_condition Assess [SS_completed] True)"
| "STAGE_ENTRY_CONDITIONS Plan = Some (entry_condition Plan [SS_completed] True)"
| "STAGE_ENTRY_CONDITIONS Execute = Some (entry_condition Execute [SS_completed] True)"
| "STAGE_ENTRY_CONDITIONS Feedback = Some (entry_condition Feedback [SS_completed] False)"
| "STAGE_ENTRY_CONDITIONS Learn = Some (entry_condition Learn [SS_completed] True)"
| "STAGE_ENTRY_CONDITIONS Improve = Some (entry_condition Improve [SS_completed, SS_skipped] True)"
| "STAGE_ENTRY_CONDITIONS Release = Some (entry_condition Release [SS_completed, SS_skipped] True)"
| "STAGE_ENTRY_CONDITIONS Knowledge_promotion =
     Some (entry_condition Knowledge_promotion [SS_completed, SS_skipped] True)"

section \<open>State and results\<close>

datatype fsm_reason =
    Reason string
  | Reason_stage string oapeflir_stage
  | Reason_move string oapeflir_stage oapeflir_stage
  | Reason_prerequisite oapeflir_stage "stage_status list" stage_status

record stage_transition_result =
  str_allowed :: bool
  str_targetStage :: oapeflir_stage
  str_reasonCode :: string
  str_reasonCodes :: "fsm_reason list"

record stage_fsm =
  fsm_currentStageIndex :: nat
  fsm_stageStatuses :: "oapeflir_stage \<Rightarrow> stage_status option"
  fsm_stageTimestamps :: "oapeflir_stage \<Rightarrow> timestamp option"
  fsm_skippedReasonCodes :: "oapeflir_stage \<Rightarrow> string option"
  fsm_lastMs :: timestamp

definition createStageTransitionFSM :: "timestamp \<Rightarrow> stage_fsm" where
  "createStageTransitionFSM startMs =
     \<lparr>fsm_currentStageIndex = 0, fsm_stageStatuses = (\<lambda>s. if s \<in> set STAGE_ORDER then Some SS_pending else None),
      fsm_stageTimestamps = (\<lambda>_. None), fsm_skippedReasonCodes = (\<lambda>_. None), fsm_lastMs = startMs\<rparr>"

text \<open>The function returned by \<^verbatim>\<open>createMonotonicTimestampSource\<close>: the next timestamp.\<close>

definition nextTimestamp :: "timestamp \<Rightarrow> timestamp \<Rightarrow> timestamp" where
  "nextTimestamp nowMs lastMs = (if nowMs > lastMs then nowMs else lastMs + 1)"

definition stamp :: "timestamp \<Rightarrow> oapeflir_stage \<Rightarrow> stage_fsm \<Rightarrow> stage_fsm" where
  "stamp now stage f =
     (let t = nextTimestamp now (fsm_lastMs f) in
      f\<lparr>fsm_stageTimestamps := (fsm_stageTimestamps f)(stage \<mapsto> t), fsm_lastMs := t\<rparr>)"

definition set_stage_status :: "oapeflir_stage \<Rightarrow> stage_status \<Rightarrow> stage_fsm \<Rightarrow> stage_fsm" where
  "set_stage_status stage st f = f\<lparr>fsm_stageStatuses := (fsm_stageStatuses f)(stage \<mapsto> st)\<rparr>"

definition getCurrentStage :: "stage_fsm \<Rightarrow> oapeflir_stage" where
  "getCurrentStage f =
     (if fsm_currentStageIndex f \<ge> length STAGE_ORDER then last STAGE_ORDER
      else STAGE_ORDER ! fsm_currentStageIndex f)"

definition getStageStatus :: "stage_fsm \<Rightarrow> oapeflir_stage \<Rightarrow> stage_status" where
  "getStageStatus f stage = coalesce (fsm_stageStatuses f stage) SS_pending"

definition getStageTimestamp :: "stage_fsm \<Rightarrow> oapeflir_stage \<Rightarrow> timestamp option" where
  "getStageTimestamp f stage = fsm_stageTimestamps f stage"

definition isComplete :: "stage_fsm \<Rightarrow> bool" where
  "isComplete f \<longleftrightarrow> fsm_currentStageIndex f \<ge> length STAGE_ORDER"

definition getNextStage :: "stage_fsm \<Rightarrow> oapeflir_stage option" where
  "getNextStage f =
     (if fsm_currentStageIndex f \<ge> length STAGE_ORDER then None else Some (STAGE_ORDER ! fsm_currentStageIndex f))"

definition getSkippedReasonCode :: "stage_fsm \<Rightarrow> oapeflir_stage \<Rightarrow> string option" where
  "getSkippedReasonCode f stage = fsm_skippedReasonCodes f stage"

definition getStageSkipReason :: "stage_fsm \<Rightarrow> oapeflir_stage \<Rightarrow> string option" where
  "getStageSkipReason f stage = getSkippedReasonCode f stage"

definition getExecutionSummary :: "stage_fsm \<Rightarrow> (oapeflir_stage \<times> stage_status \<times> timestamp option) list" where
  "getExecutionSummary f = map (\<lambda>s. (s, getStageStatus f s, fsm_stageTimestamps f s)) STAGE_ORDER"

definition buildResult :: "bool \<Rightarrow> oapeflir_stage \<Rightarrow> string \<Rightarrow> fsm_reason list \<Rightarrow> stage_transition_result" where
  "buildResult allowed targetStage reasonCode detailCodes =
     \<lparr>str_allowed = allowed, str_targetStage = targetStage, str_reasonCode = reasonCode,
      str_reasonCodes = Reason reasonCode # detailCodes\<rparr>"

section \<open>Transitions\<close>

fun first_unmet :: "stage_fsm \<Rightarrow> stage_entry_condition \<Rightarrow> oapeflir_stage \<Rightarrow> oapeflir_stage list \<Rightarrow>
    stage_transition_result option" where
  "first_unmet f ec targetStage [] = None"
| "first_unmet f ec targetStage (pred # preds) =
     (let predStatus = getStageStatus f pred in
      if predStatus \<notin> set (sec_requiredStatus ec) then
        Some (buildResult False targetStage ''fsm.prerequisite_not_met''
          [Reason_prerequisite pred (sec_requiredStatus ec) predStatus])
      else first_unmet f ec targetStage preds)"

definition getPrerequisiteFailure ::
    "stage_fsm \<Rightarrow> oapeflir_stage \<Rightarrow> oapeflir_stage list \<Rightarrow> stage_transition_result option" where
  "getPrerequisiteFailure f targetStage validPredecessors =
     (case STAGE_ENTRY_CONDITIONS targetStage of
        None \<Rightarrow> None
      | Some ec \<Rightarrow> if \<not> sec_validationRequired ec then None else first_unmet f ec targetStage validPredecessors)"

definition same_stage_result :: "oapeflir_stage \<Rightarrow> stage_transition_result" where
  "same_stage_result targetStage =
     buildResult True targetStage ''fsm.same_stage''
       [Reason ''fsm.same_stage'', Reason_stage ''fsm.same_stage'' targetStage]"

definition allowed_result :: "oapeflir_stage \<Rightarrow> oapeflir_stage \<Rightarrow> stage_transition_result" where
  "allowed_result currentStage targetStage =
     buildResult True targetStage ''fsm.transition_allowed''
       [Reason_move ''fsm.transition_allowed'' currentStage targetStage, Reason_stage ''fsm.stage_ready'' targetStage]"

definition canTransitionTo :: "stage_fsm \<Rightarrow> oapeflir_stage \<Rightarrow> stage_transition_result" where
  "canTransitionTo f targetStage =
     (let targetIndex = stage_index targetStage;
          currentStage = getCurrentStage f;
          currentIndex = stage_index currentStage;
          validPredecessors = coalesce (VALID_PREDECESSORS targetStage) [];
          guarded = (case getPrerequisiteFailure f targetStage validPredecessors of
                       Some failure \<Rightarrow> failure
                     | None \<Rightarrow> allowed_result currentStage targetStage)
      in
      if isComplete f then
        (if targetStage = last STAGE_ORDER then same_stage_result targetStage
         else buildResult False targetStage ''fsm.complete'' [Reason_stage ''fsm.complete'' currentStage])
      else if targetIndex > currentIndex + 1 then
        buildResult False targetStage ''fsm.skip_not_allowed''
          [Reason_move ''fsm.skip_not_allowed'' currentStage targetStage]
      else if targetIndex < currentIndex then
        (if fsm_stageStatuses f Feedback = Some SS_completed \<and> targetStage \<in> set FEEDBACK_REENTRY_TARGETS
         then buildResult True targetStage ''fsm.feedback_driven_replan''
           [Reason_move ''fsm.feedback_driven_replan'' currentStage targetStage]
         else buildResult False targetStage ''fsm.backward_not_allowed''
           [Reason_move ''fsm.backward_not_allowed'' currentStage targetStage])
      else if targetIndex = currentIndex then
        (let currentStatus = getStageStatus f targetStage in
         if targetStage = Observe \<and> currentStatus = SS_pending
            \<and> list_all (\<lambda>s. fsm_stageTimestamps f s = None) STAGE_ORDER then same_stage_result targetStage
         else if currentStatus = SS_completed \<or> currentStatus = SS_skipped then same_stage_result targetStage
         else guarded)
      else if validPredecessors \<noteq> [] \<and> currentStage \<notin> set validPredecessors then
        buildResult False targetStage ''fsm.invalid_predecessor''
          [Reason_move ''fsm.invalid_predecessor'' currentStage targetStage]
      else guarded)"

definition recordStageEntry :: "timestamp \<Rightarrow> oapeflir_stage \<Rightarrow> stage_status \<Rightarrow> stage_fsm \<Rightarrow> stage_fsm" where
  "recordStageEntry now stage status f =
     stamp now stage (set_stage_status stage status (f\<lparr>fsm_currentStageIndex := stage_index stage\<rparr>))"

definition advance_past :: "oapeflir_stage \<Rightarrow> stage_fsm \<Rightarrow> stage_fsm" where
  "advance_past stage f =
     (let stageIndex = stage_index stage in
      if stageIndex \<ge> fsm_currentStageIndex f then f\<lparr>fsm_currentStageIndex := stageIndex + 1\<rparr> else f)"

definition recordStageCompletion :: "timestamp \<Rightarrow> oapeflir_stage \<Rightarrow> stage_fsm \<Rightarrow> stage_fsm" where
  "recordStageCompletion now stage f = advance_past stage (stamp now stage (set_stage_status stage SS_completed f))"

definition recordStageSkipped :: "timestamp \<Rightarrow> oapeflir_stage \<Rightarrow> string \<Rightarrow> stage_fsm \<Rightarrow> stage_fsm" where
  "recordStageSkipped now stage reasonCode f =
     (let f1 = stamp now stage (set_stage_status stage SS_skipped f) in
      advance_past stage (f1\<lparr>fsm_skippedReasonCodes := (fsm_skippedReasonCodes f1)(stage \<mapsto> reasonCode)\<rparr>))"

definition recordStageError :: "timestamp \<Rightarrow> oapeflir_stage \<Rightarrow> stage_fsm \<Rightarrow> stage_fsm" where
  "recordStageError now stage f = stamp now stage (set_stage_status stage SS_error f)"

definition clear_stage :: "stage_fsm \<Rightarrow> oapeflir_stage \<Rightarrow> stage_fsm" where
  "clear_stage f s =
     f\<lparr>fsm_stageStatuses := (fsm_stageStatuses f)(s \<mapsto> SS_pending),
       fsm_stageTimestamps := (fsm_stageTimestamps f)(s := None),
       fsm_skippedReasonCodes := (fsm_skippedReasonCodes f)(s := None)\<rparr>"

definition reset_fsm :: "stage_fsm \<Rightarrow> stage_fsm" where
  "reset_fsm f = foldl clear_stage (f\<lparr>fsm_currentStageIndex := 0\<rparr>) STAGE_ORDER"

definition resetToStage :: "oapeflir_stage \<Rightarrow> stage_fsm \<Rightarrow> stage_fsm" where
  "resetToStage stage f =
     foldl (\<lambda>g s. if stage_index s \<ge> stage_index stage then clear_stage g s else g)
       (f\<lparr>fsm_currentStageIndex := stage_index stage\<rparr>) STAGE_ORDER"

section \<open>Guarded histories\<close>

text \<open>
  How the loop drives the machine: a stage is entered or re-entered only when \<open>canTransitionTo\<close>
  allows it, and only the stage at the current index is completed, skipped or failed.
\<close>

inductive fsm_step :: "stage_fsm \<Rightarrow> stage_fsm \<Rightarrow> bool" where
  enter: "str_allowed (canTransitionTo f s) \<Longrightarrow> fsm_step f (recordStageEntry now s SS_pending f)"
| complete: "getNextStage f = Some s \<Longrightarrow> fsm_step f (recordStageCompletion now s f)"
| skip: "getNextStage f = Some s \<Longrightarrow> fsm_step f (recordStageSkipped now s reason f)"
| fail: "getNextStage f = Some s \<Longrightarrow> fsm_step f (recordStageError now s f)"
| replan: "str_allowed (canTransitionTo f s) \<Longrightarrow> fsm_step f (resetToStage s f)"
| restart: "fsm_step f (reset_fsm f)"

definition fsm_reachable :: "stage_fsm \<Rightarrow> bool" where
  "fsm_reachable f \<longleftrightarrow> (\<exists>start. fsm_step\<^sup>*\<^sup>* (createStageTransitionFSM start) f)"

definition settled :: "stage_fsm \<Rightarrow> oapeflir_stage \<Rightarrow> bool" where
  "settled f s \<longleftrightarrow> getStageStatus f s \<in> {SS_completed, SS_skipped}"

lemma length_STAGE_ORDER [simp]: "length STAGE_ORDER = 9"
  by (simp add: STAGE_ORDER_def)

lemma in_STAGE_ORDER [simp]: "s \<in> set STAGE_ORDER"
  by (cases s) (simp_all add: STAGE_ORDER_def)

lemma stage_index_less [simp]: "stage_index s < 9"
  by (cases s) simp_all

lemma STAGE_ORDER_stage_index [simp]: "STAGE_ORDER ! stage_index s = s"
  by (cases s) (simp_all add: STAGE_ORDER_def)

lemma stage_index_inj [simp]: "stage_index s = stage_index t \<longleftrightarrow> s = t"
  by (metis STAGE_ORDER_stage_index)

lemma stage_index_nth [simp]:
  assumes "i < 9"
  shows "stage_index (STAGE_ORDER ! i) = i"
proof -
  have "i \<in> {0, 1, 2, 3, 4, 5, 6, 7, 8}" using assms by auto
  then show ?thesis by (auto simp: STAGE_ORDER_def)
qed

lemma last_STAGE_ORDER [simp]: "last STAGE_ORDER = Knowledge_promotion"
  by (simp add: STAGE_ORDER_def)

lemma getNextStage_Some [simp]: "getNextStage f = Some s \<longleftrightarrow> fsm_currentStageIndex f = stage_index s"
proof (cases "fsm_currentStageIndex f < 9")
  case True
  then show ?thesis unfolding getNextStage_def by (auto simp del: stage_index_inj)
next
  case False
  then show ?thesis using stage_index_less [of s] by (auto simp: getNextStage_def)
qed

lemma stamp_fields [simp]:
  "fsm_currentStageIndex (stamp now s f) = fsm_currentStageIndex f"
  "fsm_stageStatuses (stamp now s f) = fsm_stageStatuses f"
  "getStageStatus (stamp now s f) = getStageStatus f"
  by (simp_all add: stamp_def Let_def getStageStatus_def fun_eq_iff)

lemma set_stage_status_fields [simp]:
  "fsm_currentStageIndex (set_stage_status s st f) = fsm_currentStageIndex f"
  "getStageStatus (set_stage_status s st f) t = (if t = s then st else getStageStatus f t)"
  by (simp_all add: set_stage_status_def getStageStatus_def)

lemma record_fields:
  "fsm_currentStageIndex (recordStageEntry now s st f) = stage_index s"
  "getStageStatus (recordStageEntry now s st f) t = (if t = s then st else getStageStatus f t)"
  "fsm_currentStageIndex (recordStageCompletion now s f) = max (fsm_currentStageIndex f) (stage_index s + 1)"
  "getStageStatus (recordStageCompletion now s f) t = (if t = s then SS_completed else getStageStatus f t)"
  "fsm_currentStageIndex (recordStageSkipped now s r f) = max (fsm_currentStageIndex f) (stage_index s + 1)"
  "getStageStatus (recordStageSkipped now s r f) t = (if t = s then SS_skipped else getStageStatus f t)"
  "fsm_currentStageIndex (recordStageError now s f) = fsm_currentStageIndex f"
  "getStageStatus (recordStageError now s f) t = (if t = s then SS_error else getStageStatus f t)"
  by (simp_all add: recordStageEntry_def recordStageCompletion_def recordStageSkipped_def recordStageError_def
      advance_past_def Let_def set_stage_status_def getStageStatus_def stamp_def)

lemma clear_stages:
  "fsm_currentStageIndex (foldl (\<lambda>g s. if P s then clear_stage g s else g) f xs) = fsm_currentStageIndex f"
  "fsm_stageStatuses (foldl (\<lambda>g s. if P s then clear_stage g s else g) f xs) t
     = (if t \<in> set xs \<and> P t then Some SS_pending else fsm_stageStatuses f t)"
  "fsm_stageTimestamps (foldl (\<lambda>g s. if P s then clear_stage g s else g) f xs) t
     = (if t \<in> set xs \<and> P t then None else fsm_stageTimestamps f t)"
  "fsm_skippedReasonCodes (foldl (\<lambda>g s. if P s then clear_stage g s else g) f xs) t
     = (if t \<in> set xs \<and> P t then None else fsm_skippedReasonCodes f t)"
  by (induction xs arbitrary: f) (auto simp: clear_stage_def)

lemma reset_fields:
  "fsm_currentStageIndex (resetToStage s f) = stage_index s"
  "getStageStatus (resetToStage s f) t = (if stage_index s \<le> stage_index t then SS_pending else getStageStatus f t)"
  by (simp_all add: resetToStage_def clear_stages getStageStatus_def)

lemma reset_fsm_index: "fsm_currentStageIndex (reset_fsm f) = 0"
  using clear_stages(1) [of "\<lambda>_. True"] by (simp add: reset_fsm_def)

lemma getPrerequisiteFailure_None:
  "getPrerequisiteFailure f s (coalesce (VALID_PREDECESSORS s) []) = None \<longleftrightarrow>
     s \<in> {Observe, Feedback, Knowledge_promotion}
     \<or> (\<exists>p. VALID_PREDECESSORS s = Some [p] \<and>
          (getStageStatus f p = SS_completed \<or> s \<in> {Improve, Release} \<and> getStageStatus f p = SS_skipped))"
  by (cases s) (simp_all add: getPrerequisiteFailure_def entry_condition_def Let_def)

lemma getPrerequisiteFailure_denies:
  "getPrerequisiteFailure f s ps = Some r \<Longrightarrow> \<not> str_allowed r"
proof -
  have "first_unmet f ec s ps = Some r \<Longrightarrow> \<not> str_allowed r" for ec
    by (induction ps) (auto simp: buildResult_def Let_def split: if_splits)
  then show "getPrerequisiteFailure f s ps = Some r \<Longrightarrow> \<not> str_allowed r"
    by (auto simp: getPrerequisiteFailure_def split: option.splits if_splits)
qed

lemma allowed_index:
  assumes "str_allowed (canTransitionTo f s)" and idx: "fsm_currentStageIndex f \<le> 9"
  shows "stage_index s \<le> fsm_currentStageIndex f
    \<or> stage_index s = fsm_currentStageIndex f + 1 \<and> getPrerequisiteFailure f s (coalesce (VALID_PREDECESSORS s) []) = None"
proof (cases "isComplete f")
  case True
  then have "stage_index s \<le> fsm_currentStageIndex f"
    using less_imp_le [OF stage_index_less [of s]] by (simp add: isComplete_def)
  then show ?thesis ..
next
  case False
  then have "fsm_currentStageIndex f < 9" by (simp add: isComplete_def)
  then have "stage_index (getCurrentStage f) = fsm_currentStageIndex f" by (simp add: getCurrentStage_def)
  with assms False show ?thesis
    by (auto simp: canTransitionTo_def Let_def buildResult_def dest: getPrerequisiteFailure_denies
        split: if_splits option.splits)
qed

definition fsm_inv :: "stage_fsm \<Rightarrow> bool" where
  "fsm_inv f \<longleftrightarrow> fsm_currentStageIndex f \<le> 9
     \<and> (\<forall>s. stage_index s < fsm_currentStageIndex f \<and> s \<notin> {Execute, Release} \<longrightarrow> settled f s)"

lemma predecessor_index: "VALID_PREDECESSORS s = Some [p] \<Longrightarrow> stage_index s = Suc (stage_index p)"
  by (cases s) auto

lemma allowed_settled:
  assumes inv: "fsm_inv f" and ok: "str_allowed (canTransitionTo f s)"
    and p: "stage_index p < stage_index s" "p \<notin> {Execute, Release}"
  shows "settled f p"
proof (cases "stage_index p < fsm_currentStageIndex f")
  case True
  then show ?thesis using inv p(2) by (simp add: fsm_inv_def)
next
  case False
  with allowed_index [OF ok] inv p(1) have s: "stage_index s = Suc (stage_index p)"
    and pre: "getPrerequisiteFailure f s (coalesce (VALID_PREDECESSORS s) []) = None"
    by (auto simp: fsm_inv_def)
  from s p(2) have "s \<notin> {Observe, Feedback, Knowledge_promotion}" by (cases p; auto)
  then obtain q where "VALID_PREDECESSORS s = Some [q]" "settled f q"
    using pre unfolding getPrerequisiteFailure_None by (auto simp: settled_def)
  moreover from this s have "q = p" using predecessor_index [of s q] by simp
  ultimately show ?thesis by simp
qed

lemma fsm_inv_step:
  assumes "fsm_step f g" and "fsm_inv f"
  shows "fsm_inv g"
  using assms
proof (induction rule: fsm_step.induct)
  case (enter f s now)
  then show ?case
    using allowed_settled [OF enter.prems enter.hyps] stage_index_less [of s]
    by (auto simp: fsm_inv_def settled_def record_fields simp del: stage_index_less)
next
  case (complete f s now)
  then show ?case using stage_index_less [of s]
    by (auto simp: fsm_inv_def settled_def record_fields less_Suc_eq simp del: stage_index_less)
next
  case (skip f s now reason)
  then show ?case using stage_index_less [of s]
    by (auto simp: fsm_inv_def settled_def record_fields less_Suc_eq simp del: stage_index_less)
next
  case (fail f s now)
  then show ?case by (auto simp: fsm_inv_def settled_def record_fields)
next
  case (replan f s)
  then show ?case
    using allowed_settled [OF replan.prems replan.hyps] stage_index_less [of s]
    by (auto simp: fsm_inv_def settled_def reset_fields simp del: stage_index_less)
next
  case (restart f)
  then show ?case by (simp add: fsm_inv_def reset_fsm_index)
qed

lemma fsm_inv_init: "fsm_inv (createStageTransitionFSM start)"
  by (simp add: fsm_inv_def createStageTransitionFSM_def)

lemma fsm_reachable_inv:
  assumes "fsm_reachable f"
  shows "fsm_inv f"
proof -
  obtain start where "fsm_step\<^sup>*\<^sup>* (createStageTransitionFSM start) f" using assms by (auto simp: fsm_reachable_def)
  then show ?thesis by (induction rule: rtranclp_induct) (auto intro: fsm_inv_step fsm_inv_init)
qed

section \<open>Properties\<close>

text \<open>
  No stage is entered ahead of its history: in every state the loop can drive the machine to, a stage
  that \<open>canTransitionTo\<close> allows has all earlier stages completed or skipped, apart from the two whose
  successors (feedback and knowledge promotion) are not guarded.
\<close>

theorem stage_entry_follows_history:
  assumes "fsm_reachable f" and "str_allowed (canTransitionTo f s)"
    and "stage_index p < stage_index s" and "p \<notin> {Execute, Release}"
  shows "getStageStatus f p \<in> {SS_completed, SS_skipped}"
  using allowed_settled [OF fsm_reachable_inv [OF assms(1)] assms(2-4)] by (simp add: settled_def)

definition observed_fsm :: stage_fsm where
  "observed_fsm = recordStageCompletion 2 Observe (recordStageEntry 1 Observe SS_pending (createStageTransitionFSM 0))"

lemma observed_fsm_reachable: "fsm_reachable observed_fsm"
proof -
  have "fsm_step (createStageTransitionFSM 0) (recordStageEntry 1 Observe SS_pending (createStageTransitionFSM 0))"
    by (rule fsm_step.enter) code_simp
  moreover have "fsm_step (recordStageEntry 1 Observe SS_pending (createStageTransitionFSM 0)) observed_fsm"
    unfolding observed_fsm_def by (rule fsm_step.complete) (simp add: record_fields)
  ultimately show ?thesis unfolding fsm_reachable_def by (meson rtranclp.simps)
qed

theorem stage_entry_follows_history_witness:
  "str_allowed (canTransitionTo observed_fsm Assess) \<and> getStageStatus observed_fsm Observe \<in> {SS_completed, SS_skipped}"
proof -
  have ok: "str_allowed (canTransitionTo observed_fsm Assess)" by code_simp
  with stage_entry_follows_history [OF observed_fsm_reachable ok, of Observe] show ?thesis by simp
qed

text \<open>
  Knowledge promotion is not guarded: whenever the machine stands at the release stage,
  \<open>canTransitionTo\<close> allows knowledge promotion whatever the status of the release, although the entry
  condition of knowledge promotion asks for a completed or skipped release.
\<close>

theorem knowledge_promotion_unguarded:
  assumes "getNextStage f = Some Release"
  shows "str_allowed (canTransitionTo f Knowledge_promotion)
    \<and> STAGE_ENTRY_CONDITIONS Knowledge_promotion
        = Some \<lparr>sec_stage = Knowledge_promotion, sec_requiredStatus = [SS_completed, SS_skipped], sec_validationRequired = True\<rparr>"
proof -
  have "fsm_currentStageIndex f = 7" using assms by simp
  then show ?thesis
    by (simp add: canTransitionTo_def Let_def isComplete_def getCurrentStage_def STAGE_ORDER_def
        getPrerequisiteFailure_def entry_condition_def allowed_result_def buildResult_def)
qed

definition failed_release_fsm :: stage_fsm where
  "failed_release_fsm =
     recordStageError 9 Release (foldl (\<lambda>f s. recordStageCompletion 1 s f) (createStageTransitionFSM 0)
       [Observe, Assess, Plan, Execute, Feedback, Learn, Improve])"

theorem knowledge_promotion_unguarded_witness:
  "getStageStatus failed_release_fsm Release = SS_error
   \<and> str_allowed (canTransitionTo failed_release_fsm Knowledge_promotion)"
proof -
  have "getNextStage failed_release_fsm = Some Release" "getStageStatus failed_release_fsm Release = SS_error"
    by (simp_all add: failed_release_fsm_def record_fields createStageTransitionFSM_def)
  with knowledge_promotion_unguarded [of failed_release_fsm] show ?thesis by simp
qed

text \<open>
  Returning to a stage forgets exactly the work from that stage on: the index is the stage, every stage
  from it on is pending without timestamp and skip reason, and every earlier stage keeps all three.
\<close>

theorem resetToStage_forgets_suffix:
  "fsm_currentStageIndex (resetToStage s f) = stage_index s
   \<and> (if stage_index s \<le> stage_index t
      then getStageStatus (resetToStage s f) t = SS_pending
        \<and> getStageTimestamp (resetToStage s f) t = None \<and> getSkippedReasonCode (resetToStage s f) t = None
      else getStageStatus (resetToStage s f) t = getStageStatus f t
        \<and> getStageTimestamp (resetToStage s f) t = getStageTimestamp f t
        \<and> getSkippedReasonCode (resetToStage s f) t = getSkippedReasonCode f t)"
proof (cases "stage_index s \<le> stage_index t")
  case True
  then show ?thesis
    by (simp add: reset_fields getStageTimestamp_def getSkippedReasonCode_def) (simp add: resetToStage_def clear_stages)
next
  case False
  then show ?thesis
    by (simp add: reset_fields getStageTimestamp_def getSkippedReasonCode_def) (simp add: resetToStage_def clear_stages)
qed

end
