(* ===== verification/Quorum.thy ===== *)
theory Quorum
  imports Prelude Complex_Main
begin

text \<open>
  The quorum calculator of the approval centre
  (\<^verbatim>\<open>src/src/platform/five-plane-control-plane/approval-center/quorum-calculator.ts\<close>): N-of-M voting with
  delegation, a voting window and denial by rejections.

  The optional metadata of a vote is an uninterpreted text. The two arguments that the code parses
  with \<^verbatim>\<open>new Date(..).getTime()\<close> are epoch milliseconds; \<^verbatim>\<open>votedAt\<close> is only tested for emptiness and stays a
  text. Vote types are a datatype, so the check of \<open>validateVote\<close> for an unknown type cannot fail.
\<close>

section \<open>Votes and status\<close>

datatype vote_type = APPROVE | REJECT | ABSTAIN

record quorum_config =
  qc_minApprovals :: int
  qc_minRejectionsToDeny :: int
  qc_votingWindowMs :: "int option"
  qc_totalApprovers :: "int option"

record quorum_vote =
  qv_approverId :: ident
  qv_voteType :: vote_type
  qv_votedAt :: string
  qv_delegationSource :: "ident option"
  qv_metadata :: "string option"

record quorum_status =
  qs_isQuorumMet :: bool
  qs_isDenied :: bool
  qs_approvalsReceived :: int
  qs_rejectionsReceived :: int
  qs_abstentionsReceived :: int
  qs_remainingApprovalsNeeded :: int
  qs_remainingRejectionsNeeded :: int
  qs_isVotingWindowExpired :: bool
  qs_uniqueApprovers :: "ident set"

record merge_result =
  mr_votes :: "quorum_vote list"
  mr_status :: quorum_status

datatype quorum_error =
    Already_voted ident
  | Invalid_quorum_state string
  | Invalid_approver_id
  | Invalid_voted_at

datatype final_status = FS_approved | FS_rejected | FS_pending

definition createInitialQuorumStatus :: quorum_status where
  "createInitialQuorumStatus =
     \<lparr>qs_isQuorumMet = False, qs_isDenied = False, qs_approvalsReceived = 0, qs_rejectionsReceived = 0,
      qs_abstentionsReceived = 0, qs_remainingApprovalsNeeded = 0, qs_remainingRejectionsNeeded = 0,
      qs_isVotingWindowExpired = False, qs_uniqueApprovers = {}\<rparr>"

section \<open>Counting\<close>

definition canonicalApproverKey :: "quorum_vote \<Rightarrow> ident" where
  "canonicalApproverKey v = coalesce (qv_delegationSource v) (qv_approverId v)"

fun normalize_loop :: "ident set \<Rightarrow> quorum_vote list \<Rightarrow> quorum_vote list" where
  "normalize_loop seen [] = []"
| "normalize_loop seen (vote # votes) =
     (let key = canonicalApproverKey vote in
      if key \<in> seen then normalize_loop seen votes
      else vote # normalize_loop (insert key seen) votes)"

definition normalizeVotesByCanonicalApprover :: "quorum_vote list \<Rightarrow> quorum_vote list" where
  "normalizeVotesByCanonicalApprover votes = normalize_loop {} votes"

definition count_type :: "vote_type \<Rightarrow> quorum_vote list \<Rightarrow> int" where
  "count_type t votes = int (length (filter (\<lambda>v. qv_voteType v = t) votes))"

definition calculateQuorumStatus ::
    "quorum_vote list \<Rightarrow> quorum_config \<Rightarrow> timestamp \<Rightarrow> timestamp \<Rightarrow> quorum_status" where
  "calculateQuorumStatus votes config votingStartTime currentTime =
     (let normalizedVotes = normalizeVotesByCanonicalApprover votes;
          approvalsReceived = count_type APPROVE normalizedVotes;
          rejectionsReceived = count_type REJECT normalizedVotes;
          abstentionsReceived = count_type ABSTAIN normalizedVotes;
          uniqueApprovers = set (map canonicalApproverKey normalizedVotes);
          isVotingWindowExpired = (case qc_votingWindowMs config of
              None \<Rightarrow> False | Some w \<Rightarrow> currentTime - votingStartTime > w);
          allEligibleVotesConsumed = (case qc_totalApprovers config of
              None \<Rightarrow> False | Some n \<Rightarrow> int (card uniqueApprovers) \<ge> n);
          isQuorumMet = (approvalsReceived \<ge> qc_minApprovals config);
          isDenied = (rejectionsReceived \<ge> qc_minRejectionsToDeny config
            \<or> (isVotingWindowExpired \<and> \<not> isQuorumMet) \<or> (allEligibleVotesConsumed \<and> \<not> isQuorumMet))
      in \<lparr>qs_isQuorumMet = isQuorumMet, qs_isDenied = isDenied, qs_approvalsReceived = approvalsReceived,
          qs_rejectionsReceived = rejectionsReceived, qs_abstentionsReceived = abstentionsReceived,
          qs_remainingApprovalsNeeded = max 0 (qc_minApprovals config - approvalsReceived),
          qs_remainingRejectionsNeeded = max 0 (qc_minRejectionsToDeny config - rejectionsReceived),
          qs_isVotingWindowExpired = isVotingWindowExpired, qs_uniqueApprovers = uniqueApprovers\<rparr>)"

definition isQuorumMet :: "quorum_status \<Rightarrow> bool" where
  "isQuorumMet status = qs_isQuorumMet status"

definition isDenied :: "quorum_status \<Rightarrow> bool" where
  "isDenied status = qs_isDenied status"

definition getRemainingVotes :: "quorum_status \<Rightarrow> int \<times> int" where
  "getRemainingVotes status = (qs_remainingApprovalsNeeded status, qs_remainingRejectionsNeeded status)"

definition mergeVotes :: "quorum_vote list \<Rightarrow> quorum_vote \<Rightarrow> quorum_error + quorum_vote list" where
  "mergeVotes existing newVote =
     (if list_ex (\<lambda>v. canonicalApproverKey v = canonicalApproverKey newVote) existing
      then Inl (Already_voted (qv_approverId newVote))
      else Inr (existing @ [newVote]))"

definition createVote ::
    "string \<Rightarrow> ident \<Rightarrow> vote_type \<Rightarrow> ident option \<Rightarrow> string option \<Rightarrow> quorum_vote" where
  "createVote nowIso approverId voteType delegationSource metadata =
     \<lparr>qv_approverId = approverId, qv_voteType = voteType, qv_votedAt = nowIso,
      qv_delegationSource = delegationSource, qv_metadata = metadata\<rparr>"

definition determineFinalStatus :: "quorum_status \<Rightarrow> quorum_config \<Rightarrow> quorum_error + final_status" where
  "determineFinalStatus status config =
     (let approvalsMeetThreshold = (qs_approvalsReceived status \<ge> qc_minApprovals config);
          rejectionsMeetThreshold = (qs_rejectionsReceived status \<ge> qc_minRejectionsToDeny config)
      in
      if qs_isQuorumMet status \<and> \<not> approvalsMeetThreshold then
        Inl (Invalid_quorum_state ''quorum flag set without enough approvals'')
      else if qs_isDenied status \<and> \<not> rejectionsMeetThreshold then
        Inl (Invalid_quorum_state ''deny flag set without enough rejections'')
      else if qs_isQuorumMet status \<and> approvalsMeetThreshold then Inr FS_approved
      else if qs_isDenied status \<or> (qs_isVotingWindowExpired status \<and> \<not> qs_isQuorumMet status) then Inr FS_rejected
      else Inr FS_pending)"

definition calculateWithVote ::
    "quorum_vote list \<Rightarrow> quorum_vote \<Rightarrow> quorum_config \<Rightarrow> timestamp \<Rightarrow> timestamp \<Rightarrow> quorum_error + merge_result" where
  "calculateWithVote existingVotes newVote config votingStartTime currentTime =
     bindE (mergeVotes existingVotes newVote) (\<lambda>mergedVotes.
       Inr \<lparr>mr_votes = mergedVotes,
            mr_status = calculateQuorumStatus mergedVotes config votingStartTime currentTime\<rparr>)"

definition validateVote :: "quorum_vote \<Rightarrow> quorum_error + unit" where
  "validateVote vote =
     bindE (throw_if (qv_approverId vote = [] \<or> js_trim (qv_approverId vote) = []) Invalid_approver_id) (\<lambda>_.
       throw_if (qv_votedAt vote = []) Invalid_voted_at)"

definition countEffectiveVotes :: "quorum_vote list \<Rightarrow> int \<times> int" where
  "countEffectiveVotes votes = (count_type APPROVE votes, count_type REJECT votes)"

definition hasApproverVoted :: "quorum_vote list \<Rightarrow> ident \<Rightarrow> bool" where
  "hasApproverVoted votes approverId \<longleftrightarrow> list_ex (\<lambda>v. qv_approverId v = approverId) votes"

definition getApproverVote :: "quorum_vote list \<Rightarrow> ident \<Rightarrow> quorum_vote option" where
  "getApproverVote votes approverId = find (\<lambda>v. qv_approverId v = approverId) votes"

text \<open>The methods of the compatibility class \<^verbatim>\<open>QuorumCalculator\<close>. \<^verbatim>\<open>Math.round\<close> rounds halves upwards.\<close>

definition calculateQuorum :: "int \<Rightarrow> int \<Rightarrow> int" where
  "calculateQuorum requiredApprovals totalApprovers = min (max requiredApprovals 0) (max totalApprovers 0)"

definition calculator_isQuorumMet :: "int \<Rightarrow> int \<Rightarrow> bool" where
  "calculator_isQuorumMet approvalsReceived requiredApprovals \<longleftrightarrow> approvalsReceived \<ge> requiredApprovals"

definition calculatePercentage :: "rat \<Rightarrow> rat \<Rightarrow> rat" where
  "calculatePercentage part whole =
     (if whole \<le> 0 then 0 else of_int \<lfloor>((part / whole) * 100) * 100 + 1 / 2\<rfloor> / 100)"

section \<open>One vote per principal\<close>

lemma normalize_loop_keys:
  "distinct (map canonicalApproverKey (normalize_loop seen votes))
   \<and> canonicalApproverKey ` set (normalize_loop seen votes) = canonicalApproverKey ` set votes - seen"
  by (induction seen votes rule: normalize_loop.induct) (auto simp: Let_def)

lemma normalize_loop_filter:
  "set (normalize_loop seen votes) \<subseteq> set votes"
  by (induction seen votes rule: normalize_loop.induct) (auto simp: Let_def)

lemma normalize_loop_id:
  "distinct (map canonicalApproverKey votes) \<Longrightarrow> canonicalApproverKey ` set votes \<inter> seen = {} \<Longrightarrow>
   normalize_loop seen votes = votes"
  by (induction seen votes rule: normalize_loop.induct) (auto simp: Let_def)

lemma normalize_loop_append:
  "normalize_loop seen (xs @ ys) = normalize_loop seen xs @ normalize_loop (seen \<union> canonicalApproverKey ` set xs) ys"
proof (induction seen xs rule: normalize_loop.induct)
  case (2 seen vote votes)
  then show ?case by (cases "canonicalApproverKey vote \<in> seen") (simp_all add: Let_def insert_absorb)
qed simp

lemma count_types: "count_type APPROVE vs + count_type REJECT vs + count_type ABSTAIN vs = int (length vs)"
proof (induction vs)
  case (Cons v vs)
  then show ?case by (cases "qv_voteType v") (simp_all add: count_type_def)
qed (simp add: count_type_def)

lemma count_type_append: "count_type t (xs @ ys) = count_type t xs + count_type t ys"
  by (simp add: count_type_def)

lemma count_type_nonneg [simp]: "0 \<le> count_type t xs"
  by (simp add: count_type_def)

text \<open>The votes collected by a sequence of accepted \<open>mergeVotes\<close>.\<close>

fun collect :: "quorum_vote list \<Rightarrow> quorum_vote list \<Rightarrow> quorum_error + quorum_vote list" where
  "collect existing [] = Inr existing"
| "collect existing (v # vs) = bindE (mergeVotes existing v) (\<lambda>existing'. collect existing' vs)"

lemma mergeVotes_Inr:
  "mergeVotes existing v = Inr merged \<longleftrightarrow>
   merged = existing @ [v] \<and> canonicalApproverKey v \<notin> canonicalApproverKey ` set existing"
proof -
  have "list_ex (\<lambda>u. canonicalApproverKey u = canonicalApproverKey v) existing
      \<longleftrightarrow> canonicalApproverKey v \<in> canonicalApproverKey ` set existing"
    by (induction existing) auto
  then show ?thesis by (auto simp: mergeVotes_def)
qed

lemma collect_distinct:
  assumes "collect existing vs = Inr all" and "distinct (map canonicalApproverKey existing)"
  shows "all = existing @ vs \<and> distinct (map canonicalApproverKey all)"
  using assms
proof (induction vs arbitrary: existing)
  case (Cons v vs)
  then have "collect (existing @ [v]) vs = Inr all" "distinct (map canonicalApproverKey (existing @ [v]))"
    by (auto simp: result_simps mergeVotes_Inr)
  from Cons.IH [OF this] show ?case unfolding append_assoc append_Cons append_Nil .
qed simp

text \<open>
  One vote per principal: whatever votes are passed in, the counted approvals, rejections and
  abstentions add up to the number of different principals who voted, where a delegated vote counts
  for the delegating principal; and votes gathered through \<open>mergeVotes\<close> are counted exactly as cast.
\<close>

theorem quorum_counts_principals:
  "qs_approvalsReceived (calculateQuorumStatus votes config start now)
     + qs_rejectionsReceived (calculateQuorumStatus votes config start now)
     + qs_abstentionsReceived (calculateQuorumStatus votes config start now)
     = int (card (canonicalApproverKey ` set votes))
   \<and> qs_uniqueApprovers (calculateQuorumStatus votes config start now) = canonicalApproverKey ` set votes
   \<and> (collect [] votes = Inr votes \<longrightarrow>
        (qs_approvalsReceived (calculateQuorumStatus votes config start now),
         qs_rejectionsReceived (calculateQuorumStatus votes config start now)) = countEffectiveVotes votes)"
proof -
  let ?n = "normalizeVotesByCanonicalApprover votes"
  have keys: "distinct (map canonicalApproverKey ?n)" "canonicalApproverKey ` set ?n = canonicalApproverKey ` set votes"
    using normalize_loop_keys [of "{}" votes] by (simp_all add: normalizeVotesByCanonicalApprover_def)
  have "int (length ?n) = int (card (canonicalApproverKey ` set votes))"
    using distinct_card [OF keys(1)] keys(2) by simp
  moreover have "?n = votes" if "collect [] votes = Inr votes"
    using collect_distinct [OF that] normalize_loop_id [of votes "{}"]
    by (simp add: normalizeVotesByCanonicalApprover_def)
  ultimately show ?thesis
    using keys(2) count_types [of ?n]
    by (simp add: calculateQuorumStatus_def Let_def countEffectiveVotes_def)
qed

definition alice_vote :: quorum_vote where
  "alice_vote = createVote ''2026-01-01'' ''alice'' APPROVE None None"

definition bob_for_alice :: quorum_vote where
  "bob_for_alice = createVote ''2026-01-01'' ''bob'' APPROVE (Some ''alice'') None"

definition two_of_three :: quorum_config where
  "two_of_three = \<lparr>qc_minApprovals = 2, qc_minRejectionsToDeny = 2, qc_votingWindowMs = Some 1000, qc_totalApprovers = Some 3\<rparr>"

theorem quorum_counts_principals_witness:
  "collect [] [alice_vote] = Inr [alice_vote]
   \<and> qs_approvalsReceived (calculateQuorumStatus [alice_vote] two_of_three 0 10) = 1
   \<and> qs_uniqueApprovers (calculateQuorumStatus [alice_vote, bob_for_alice] two_of_three 0 10) = {''alice''}"
proof -
  have c: "collect [] [alice_vote] = Inr [alice_vote]"
    by (simp add: mergeVotes_def)
  have "countEffectiveVotes [alice_vote] = (1, 0)"
    by (simp add: countEffectiveVotes_def count_type_def alice_vote_def createVote_def)
  with c quorum_counts_principals [of "[alice_vote]" two_of_three 0 10]
    quorum_counts_principals [of "[alice_vote, bob_for_alice]" two_of_three 0 10]
  show ?thesis
    by (simp add: canonicalApproverKey_def alice_vote_def bob_for_alice_def createVote_def)
qed

section \<open>Decisions\<close>

text \<open>
  Accepted votes never undo an approval: once the quorum is met it stays met, at any later time, when a
  further vote is merged, and neither the approvals nor the rejections ever decrease.
\<close>

theorem quorum_met_is_stable:
  assumes "calculateWithVote votes newVote config start now' = Inr r"
  shows "(qs_isQuorumMet (calculateQuorumStatus votes config start now) \<longrightarrow> qs_isQuorumMet (mr_status r))
    \<and> qs_approvalsReceived (calculateQuorumStatus votes config start now) \<le> qs_approvalsReceived (mr_status r)
    \<and> qs_rejectionsReceived (calculateQuorumStatus votes config start now) \<le> qs_rejectionsReceived (mr_status r)
    \<and> qs_uniqueApprovers (mr_status r)
        = insert (canonicalApproverKey newVote) (qs_uniqueApprovers (calculateQuorumStatus votes config start now))"
proof -
  have merged: "mr_votes r = votes @ [newVote]" "canonicalApproverKey newVote \<notin> canonicalApproverKey ` set votes"
    and status: "mr_status r = calculateQuorumStatus (votes @ [newVote]) config start now'"
    using assms by (auto simp: calculateWithVote_def result_simps mergeVotes_Inr)
  have norm: "normalizeVotesByCanonicalApprover (votes @ [newVote]) = normalizeVotesByCanonicalApprover votes @ [newVote]"
    using merged(2) by (simp add: normalizeVotesByCanonicalApprover_def normalize_loop_append Let_def)
  have le: "count_type t (normalizeVotesByCanonicalApprover votes) \<le> count_type t (normalizeVotesByCanonicalApprover (votes @ [newVote]))" for t
    by (simp add: norm count_type_append)
  show ?thesis
    unfolding status using le [of APPROVE] le [of REJECT] norm
    by (auto simp: calculateQuorumStatus_def Let_def)
qed

definition carol_vote :: quorum_vote where
  "carol_vote = createVote ''2026-01-01'' ''carol'' APPROVE None None"

lemma carol_accepted:
  "calculateWithVote [alice_vote] carol_vote two_of_three 0 20
     = Inr \<lparr>mr_votes = [alice_vote, carol_vote], mr_status = calculateQuorumStatus [alice_vote, carol_vote] two_of_three 0 20\<rparr>"
  by (simp add: calculateWithVote_def mergeVotes_def canonicalApproverKey_def alice_vote_def carol_vote_def createVote_def)

theorem quorum_met_is_stable_witness:
  "qs_approvalsReceived (calculateQuorumStatus [alice_vote] two_of_three 0 10)
     \<le> qs_approvalsReceived (calculateQuorumStatus [alice_vote, carol_vote] two_of_three 0 20)"
  using quorum_met_is_stable [OF carol_accepted, of 10] by simp

lemma calculated_flags:
  "qs_isQuorumMet (calculateQuorumStatus votes config start now)
     \<longleftrightarrow> qs_approvalsReceived (calculateQuorumStatus votes config start now) \<ge> qc_minApprovals config"
  "qs_isVotingWindowExpired (calculateQuorumStatus votes config start now)
     \<longleftrightarrow> (\<exists>w. qc_votingWindowMs config = Some w \<and> now - start > w)"
  by (auto simp: calculateQuorumStatus_def Let_def split: option.splits)

text \<open>
  A vote that runs out of time is never decided: when the voting window has expired without enough
  approvals and with fewer rejections than the denial threshold, the calculated status is denied and
  \<open>determineFinalStatus\<close> throws on it instead of returning rejected.
\<close>

theorem expired_vote_throws:
  assumes "qc_votingWindowMs config = Some w" and "now - start > w"
    and "qs_approvalsReceived (calculateQuorumStatus votes config start now) < qc_minApprovals config"
    and "qs_rejectionsReceived (calculateQuorumStatus votes config start now) < qc_minRejectionsToDeny config"
  shows "qs_isDenied (calculateQuorumStatus votes config start now)
    \<and> determineFinalStatus (calculateQuorumStatus votes config start now) config
        = Inl (Invalid_quorum_state ''deny flag set without enough rejections'')"
proof -
  have "\<not> qs_isQuorumMet (calculateQuorumStatus votes config start now)"
    using assms(3) by (simp add: calculated_flags(1))
  moreover from this have "qs_isDenied (calculateQuorumStatus votes config start now)"
    using assms(1,2) by (simp add: calculateQuorumStatus_def Let_def)
  ultimately show ?thesis
    using assms(4) by (simp add: determineFinalStatus_def Let_def)
qed

theorem expired_vote_throws_witness:
  "determineFinalStatus (calculateQuorumStatus [] two_of_three 0 2000) two_of_three
     = Inl (Invalid_quorum_state ''deny flag set without enough rejections'')"
  using expired_vote_throws [of two_of_three 1000 2000 0 "[]"]
  by (simp add: two_of_three_def calculateQuorumStatus_def Let_def normalizeVotesByCanonicalApprover_def count_type_def)

text \<open>
  While voting can still go on, the final status is exact: with no expired window and fewer voters than
  configured approvers, a status that was calculated is approved if and only if the approvals reach their
  threshold, rejected if and only if only the rejections do, and pending otherwise.
\<close>

theorem open_vote_decided_by_thresholds:
  assumes "\<not> qs_isVotingWindowExpired (calculateQuorumStatus votes config start now)"
    and "qc_totalApprovers config = Some n" and "int (card (canonicalApproverKey ` set votes)) < n"
  shows "determineFinalStatus (calculateQuorumStatus votes config start now) config =
    Inr (if qs_approvalsReceived (calculateQuorumStatus votes config start now) \<ge> qc_minApprovals config
         then FS_approved
         else if qs_rejectionsReceived (calculateQuorumStatus votes config start now) \<ge> qc_minRejectionsToDeny config
         then FS_rejected else FS_pending)"
proof -
  have "card (set (map canonicalApproverKey (normalizeVotesByCanonicalApprover votes))) = card (canonicalApproverKey ` set votes)"
    using normalize_loop_keys [of "{}" votes] by (simp add: normalizeVotesByCanonicalApprover_def)
  then have "qs_isDenied (calculateQuorumStatus votes config start now) \<longleftrightarrow>
      qs_rejectionsReceived (calculateQuorumStatus votes config start now) \<ge> qc_minRejectionsToDeny config"
    using assms by (auto simp: calculateQuorumStatus_def Let_def)
  then show ?thesis
    using assms(1) by (auto simp: determineFinalStatus_def Let_def calculated_flags(1))
qed

theorem open_vote_decided_by_thresholds_witness:
  "determineFinalStatus (calculateQuorumStatus [alice_vote] two_of_three 0 10) two_of_three = Inr FS_pending"
proof -
  have "\<not> qs_isVotingWindowExpired (calculateQuorumStatus [alice_vote] two_of_three 0 10)"
    by (simp add: calculated_flags(2) two_of_three_def)
  moreover have "int (card (canonicalApproverKey ` set [alice_vote])) < 3" by simp
  moreover have "qs_approvalsReceived (calculateQuorumStatus [alice_vote] two_of_three 0 10) = 1"
    "qs_rejectionsReceived (calculateQuorumStatus [alice_vote] two_of_three 0 10) = 0"
    by (simp_all add: calculateQuorumStatus_def Let_def normalizeVotesByCanonicalApprover_def count_type_def alice_vote_def createVote_def)
  moreover have "qc_totalApprovers two_of_three = Some 3" "qc_minApprovals two_of_three = 2" "qc_minRejectionsToDeny two_of_three = 2"
    by (simp_all add: two_of_three_def)
  ultimately show ?thesis using open_vote_decided_by_thresholds [of "[alice_vote]" two_of_three 0 10 3] by simp
qed

end
