(* ===== verification/Circuit_Breaker.thy ===== *)
theory Circuit_Breaker
  imports Prelude
begin

text \<open>
  The circuit breaker (\<^verbatim>\<open>src/src/platform/stability/circuit-breaker.ts\<close>).

  \<^verbatim>\<open>execute\<close> is asynchronous: other calls run while it awaits the protected operation. It is modelled as the
  two atomic sections around the \<^verbatim>\<open>await\<close>: \<open>execute_begin\<close> (admission up to the start of the operation) and
  \<open>execute_settle\<close> (the handlers after the promise settles). The promise of \<^verbatim>\<open>executeWithTimeout\<close> is settled by
  the operation, by the timer or by the abort signal of the caller, which are the cases of
  \<open>call_outcome\<close>. The clock value of each section is an argument, and the calls of \<^verbatim>\<open>onStateChange\<close> are
  logged. The step relation interleaves the sections of any number of calls.
\<close>

section \<open>State\<close>

datatype circuit_state = CLOSED | OPEN | HALF_OPEN

record breaker =
  cb_state :: circuit_state
  cb_failures :: int
  cb_successes :: int
  cb_lastFailure :: "timestamp option"
  cb_lastSuccess :: "timestamp option"
  cb_nextAttempt :: timestamp
  cb_halfOpenInFlight :: int
  cb_activeExecutions :: "nat list"
  cb_name :: string
  cb_failureThreshold :: int
  cb_successThreshold :: int
  cb_timeout :: int
  cb_resetTimeout :: int
  cb_stateChanges :: "(circuit_state \<times> circuit_state) list"

record breaker_options =
  bo_name :: "string option"
  bo_failureThreshold :: "int option"
  bo_successThreshold :: "int option"
  bo_timeout :: "int option"
  bo_resetTimeout :: "int option"

record breaker_stats =
  bs_state :: circuit_state
  bs_failures :: int
  bs_successes :: int
  bs_lastFailure :: "timestamp option"
  bs_lastSuccess :: "timestamp option"

definition new_CircuitBreaker :: "breaker_options \<Rightarrow> breaker" where
  "new_CircuitBreaker opts =
     (let trimmed = coalesce (map_option js_trim (bo_name opts)) [] in
      \<lparr>cb_state = CLOSED, cb_failures = 0, cb_successes = 0, cb_lastFailure = None, cb_lastSuccess = None,
       cb_nextAttempt = 0, cb_halfOpenInFlight = 0, cb_activeExecutions = [],
       cb_name = (if trimmed = [] then ''circuit_breaker'' else trimmed),
       cb_failureThreshold = coalesce (bo_failureThreshold opts) 5,
       cb_successThreshold = coalesce (bo_successThreshold opts) 2,
       cb_timeout = coalesce (bo_timeout opts) 30000,
       cb_resetTimeout = coalesce (bo_resetTimeout opts) 60000,
       cb_stateChanges = []\<rparr>)"

text \<open>How the promise of \<^verbatim>\<open>executeWithTimeout\<close> settles.\<close>

datatype call_outcome =
    Returned
  | Threw_error string
  | Threw_reset
  | Timed_out
  | Parent_aborted string

datatype breaker_error =
    Open_error string "int option"
  | Timeout_error "int option"
  | Reset_error
  | Operation_error string

section \<open>State changes\<close>

definition emitStateChange :: "circuit_state \<Rightarrow> circuit_state \<Rightarrow> breaker \<Rightarrow> breaker" where
  "emitStateChange oldState newState b = b\<lparr>cb_stateChanges := cb_stateChanges b @ [(oldState, newState)]\<rparr>"

definition cb_transitionTo :: "circuit_state \<Rightarrow> bool \<Rightarrow> bool \<Rightarrow> breaker \<Rightarrow> breaker" where
  "cb_transitionTo newState resetSuccesses resetNextAttempt b =
     (let oldState = cb_state b in
      if oldState = newState \<and> \<not> resetSuccesses \<and> \<not> resetNextAttempt then b
      else
        let b1 = b\<lparr>cb_state := newState\<rparr>;
            b2 = (if resetSuccesses then b1\<lparr>cb_successes := 0\<rparr> else b1);
            b3 = (if resetNextAttempt then b2\<lparr>cb_nextAttempt := 0\<rparr> else b2);
            b4 = (if newState \<noteq> HALF_OPEN then b3\<lparr>cb_halfOpenInFlight := 0\<rparr> else b3)
        in emitStateChange oldState newState b4)"

definition onSuccess :: "timestamp \<Rightarrow> breaker \<Rightarrow> breaker" where
  "onSuccess now b =
     (let b1 = b\<lparr>cb_lastSuccess := Some now, cb_failures := 0\<rparr> in
      if cb_state b1 = HALF_OPEN then
        let b2 = b1\<lparr>cb_successes := cb_successes b1 + 1\<rparr> in
        if cb_successes b2 \<ge> cb_successThreshold b2 then cb_transitionTo CLOSED True True b2 else b2
      else b1)"

definition onFailure :: "timestamp \<Rightarrow> breaker \<Rightarrow> breaker" where
  "onFailure now b =
     (let b1 = b\<lparr>cb_lastFailure := Some now, cb_failures := cb_failures b + 1\<rparr> in
      if cb_state b1 = HALF_OPEN then
        cb_transitionTo OPEN True False (b1\<lparr>cb_nextAttempt := now + cb_resetTimeout b1\<rparr>)
      else if cb_failures b1 \<ge> cb_failureThreshold b1 then
        cb_transitionTo OPEN False False (b1\<lparr>cb_nextAttempt := now + cb_resetTimeout b1\<rparr>)
      else b1)"

definition enterHalfOpenProbe :: "(breaker, breaker_error, bool) prog" where
  "enterHalfOpenProbe b =
     (if cb_state b \<noteq> HALF_OPEN then (Inr False, b)
      else if cb_halfOpenInFlight b \<ge> 1 then
        (Inl (Open_error ''Circuit is HALF_OPEN with a probe already in flight'' None), b)
      else (Inr True, b\<lparr>cb_halfOpenInFlight := cb_halfOpenInFlight b + 1\<rparr>))"

section \<open>Execution\<close>

text \<open>
  The admission part of \<^verbatim>\<open>execute\<close> and the start of \<^verbatim>\<open>executeWithTimeout\<close>. The message of the open error
  carries the formatted \<^verbatim>\<open>nextAttempt\<close> in the source; the model keeps its fixed part. The last argument
  tells whether the signal of the caller was aborted already: then nothing is started.
\<close>

definition execute_begin :: "timestamp \<Rightarrow> nat \<Rightarrow> bool \<Rightarrow> (breaker, breaker_error, bool) prog" where
  "execute_begin now callId parentAborted b =
     (if cb_state b = OPEN \<and> now < cb_nextAttempt b then
        (Inl (Open_error ''Circuit is OPEN'' (Some (max (cb_nextAttempt b - now) 0))), b)
      else
        bindP (enterHalfOpenProbe) (\<lambda>enteredHalfOpen c.
            (Inr enteredHalfOpen,
             if parentAborted then c else c\<lparr>cb_activeExecutions := cb_activeExecutions c @ [callId]\<rparr>))
          (if cb_state b = OPEN then cb_transitionTo HALF_OPEN True False b else b))"

definition drop_execution :: "nat \<Rightarrow> breaker \<Rightarrow> breaker" where
  "drop_execution callId b = b\<lparr>cb_activeExecutions := filter (\<lambda>i. i \<noteq> callId) (cb_activeExecutions b)\<rparr>"

definition error_of :: "call_outcome \<Rightarrow> breaker_error" where
  "error_of r = (case r of
      Threw_error msg \<Rightarrow> Operation_error msg
    | Threw_reset \<Rightarrow> Reset_error
    | Timed_out \<Rightarrow> Timeout_error None
    | Parent_aborted msg \<Rightarrow> Operation_error msg
    | Returned \<Rightarrow> Operation_error [])"

definition error_message :: "call_outcome \<Rightarrow> string" where
  "error_message r = (case r of
      Threw_error msg \<Rightarrow> msg
    | Threw_reset \<Rightarrow> ''Circuit breaker reset aborted in-flight operation''
    | Parent_aborted msg \<Rightarrow> msg
    | Timed_out \<Rightarrow> ''Operation timed out''
    | Returned \<Rightarrow> [])"

definition leave_probe :: "bool \<Rightarrow> breaker \<Rightarrow> breaker" where
  "leave_probe enteredHalfOpen b =
     (if enteredHalfOpen then b\<lparr>cb_halfOpenInFlight := max 0 (cb_halfOpenInFlight b - 1)\<rparr> else b)"

text \<open>
  The part of \<^verbatim>\<open>execute\<close> after the promise settles, with the \<^verbatim>\<open>complete\<close> callback that forgets the execution
  (a call that timed out stays in \<^verbatim>\<open>activeExecutions\<close> until the operation itself settles).
\<close>

definition execute_settle :: "timestamp \<Rightarrow> nat \<Rightarrow> bool \<Rightarrow> call_outcome \<Rightarrow> (breaker, breaker_error, unit) prog" where
  "execute_settle now callId enteredHalfOpen r b =
     (let c = (if r = Timed_out then b else drop_execution callId b) in
      if r = Returned then (Inr (), leave_probe enteredHalfOpen (onSuccess now c))
      else
        let d = (if r = Threw_reset then c else onFailure now c);
            retryAfterMs = max (cb_nextAttempt d - now) 0;
            err = (if enteredHalfOpen \<and> cb_state d = OPEN then
                     (if r = Timed_out then Timeout_error (Some retryAfterMs)
                      else Open_error (''Circuit probe failed: '' @ error_message r) (Some retryAfterMs))
                   else error_of r)
        in (Inl err, leave_probe enteredHalfOpen d))"

definition cb_getState :: "breaker \<Rightarrow> circuit_state" where
  "cb_getState b = cb_state b"

definition cb_getStats :: "breaker \<Rightarrow> breaker_stats" where
  "cb_getStats b =
     \<lparr>bs_state = cb_state b, bs_failures = cb_failures b, bs_successes = cb_successes b,
      bs_lastFailure = cb_lastFailure b, bs_lastSuccess = cb_lastSuccess b\<rparr>"

definition cb_reset :: "breaker \<Rightarrow> breaker" where
  "cb_reset b =
     b\<lparr>cb_activeExecutions := [], cb_state := CLOSED, cb_failures := 0, cb_successes := 0,
       cb_lastFailure := None, cb_lastSuccess := None, cb_nextAttempt := 0, cb_halfOpenInFlight := 0\<rparr>"

section \<open>Interleaved calls\<close>

record pending_call =
  pc_id :: nat
  pc_started :: timestamp
  pc_probe :: bool

record breaker_world =
  bw_breaker :: breaker
  bw_calls :: "pending_call list"
  bw_now :: timestamp

text \<open>
  One atomic section at a later or equal time. The timers fire on time: no section runs at a moment when
  the timer of an awaiting call is overdue. \<^verbatim>\<open>reset\<close> clears the timers, so it is the subject of a separate
  relation.
\<close>

definition timers_on_time :: "timestamp \<Rightarrow> breaker_world \<Rightarrow> bool" where
  "timers_on_time now w \<longleftrightarrow>
     bw_now w \<le> now \<and> (\<forall>c \<in> set (bw_calls w). now \<le> pc_started c + cb_timeout (bw_breaker w))"

inductive call_step :: "breaker_world \<Rightarrow> breaker_world \<Rightarrow> bool" where
  rejected: "timers_on_time now w \<Longrightarrow> execute_begin now i aborted (bw_breaker w) = (Inl e, b) \<Longrightarrow>
    call_step w (w\<lparr>bw_breaker := b, bw_now := now\<rparr>)"
| started: "timers_on_time now w \<Longrightarrow> execute_begin now i aborted (bw_breaker w) = (Inr probe, b) \<Longrightarrow>
    call_step w (w\<lparr>bw_breaker := b, bw_now := now,
      bw_calls := bw_calls w @ [\<lparr>pc_id = i, pc_started = now, pc_probe = probe\<rparr>]\<rparr>)"
| settled_call: "timers_on_time now w \<Longrightarrow> bw_calls w = xs @ c # ys \<Longrightarrow>
    execute_settle now (pc_id c) (pc_probe c) r (bw_breaker w) = (res, b) \<Longrightarrow>
    call_step w (w\<lparr>bw_breaker := b, bw_now := now, bw_calls := xs @ ys\<rparr>)"

definition initial_world :: "breaker_options \<Rightarrow> timestamp \<Rightarrow> breaker_world" where
  "initial_world opts now = \<lparr>bw_breaker = new_CircuitBreaker opts, bw_calls = [], bw_now = now\<rparr>"

section \<open>Invariants\<close>

definition breaker_inv :: "breaker \<Rightarrow> bool" where
  "breaker_inv b \<longleftrightarrow>
     (cb_state b = CLOSED \<longrightarrow> cb_failures b < cb_failureThreshold b)
     \<and> (cb_state b \<noteq> HALF_OPEN \<longrightarrow> cb_halfOpenInFlight b = 0 \<and> cb_successes b = 0)
     \<and> (cb_state b = HALF_OPEN \<longrightarrow> 0 \<le> cb_successes b \<and> cb_successes b < cb_successThreshold b
          \<and> cb_halfOpenInFlight b \<in> {0, 1})"

definition same_config :: "breaker \<Rightarrow> breaker \<Rightarrow> bool" where
  "same_config b c \<longleftrightarrow> cb_failureThreshold b = cb_failureThreshold c \<and> cb_successThreshold b = cb_successThreshold c
     \<and> cb_timeout b = cb_timeout c \<and> cb_resetTimeout b = cb_resetTimeout c"

definition sane_config :: "breaker \<Rightarrow> bool" where
  "sane_config b \<longleftrightarrow> 0 < cb_failureThreshold b \<and> 0 < cb_successThreshold b"

lemma transitionTo_fields [simp]:
  "cb_state (cb_transitionTo st rs rn b) = st"
  "cb_failures (cb_transitionTo st rs rn b) = cb_failures b"
  "cb_successes (cb_transitionTo st rs rn b) = (if rs then 0 else cb_successes b)"
  "cb_nextAttempt (cb_transitionTo st rs rn b) = (if rn then 0 else cb_nextAttempt b)"
  "st = OPEN \<Longrightarrow> cb_state b = HALF_OPEN \<or> cb_halfOpenInFlight b = 0 \<Longrightarrow> cb_halfOpenInFlight (cb_transitionTo st rs rn b) = 0"
  "st = CLOSED \<Longrightarrow> rs \<Longrightarrow> cb_halfOpenInFlight (cb_transitionTo st rs rn b) = 0"
  "st = HALF_OPEN \<Longrightarrow> cb_halfOpenInFlight (cb_transitionTo st rs rn b) = cb_halfOpenInFlight b"
  "cb_failureThreshold (cb_transitionTo st rs rn b) = cb_failureThreshold b"
  "cb_successThreshold (cb_transitionTo st rs rn b) = cb_successThreshold b"
  "cb_timeout (cb_transitionTo st rs rn b) = cb_timeout b"
  "cb_resetTimeout (cb_transitionTo st rs rn b) = cb_resetTimeout b"
  by (auto simp: cb_transitionTo_def emitStateChange_def Let_def)

lemma onSuccess_fields:
  "cb_failures (onSuccess now b) = 0"
  "cb_state (onSuccess now b) = (if cb_state b = HALF_OPEN \<and> cb_successes b + 1 \<ge> cb_successThreshold b then CLOSED else cb_state b)"
  "cb_state b = HALF_OPEN \<Longrightarrow> cb_successes (onSuccess now b) = (if cb_successes b + 1 \<ge> cb_successThreshold b then 0 else cb_successes b + 1)"
  "cb_state b \<noteq> HALF_OPEN \<Longrightarrow> cb_successes (onSuccess now b) = cb_successes b"
  "cb_halfOpenInFlight (onSuccess now b) = (if cb_state b = HALF_OPEN \<and> cb_successes b + 1 \<ge> cb_successThreshold b then 0 else cb_halfOpenInFlight b)"
  "cb_state b = OPEN \<Longrightarrow> cb_nextAttempt (onSuccess now b) = cb_nextAttempt b"
  "same_config (onSuccess now b) b"
  by (simp_all add: onSuccess_def Let_def same_config_def)

lemma onFailure_fields:
  "cb_failures (onFailure now b) = cb_failures b + 1"
  "cb_state (onFailure now b) = (if cb_state b = HALF_OPEN \<or> cb_failures b + 1 \<ge> cb_failureThreshold b then OPEN else cb_state b)"
  "cb_successes (onFailure now b) = (if cb_state b = HALF_OPEN then 0 else cb_successes b)"
  "cb_state b = HALF_OPEN \<or> cb_halfOpenInFlight b = 0 \<Longrightarrow> cb_halfOpenInFlight (onFailure now b) = 0"
  "cb_nextAttempt (onFailure now b) = (if cb_state b = HALF_OPEN \<or> cb_failures b + 1 \<ge> cb_failureThreshold b
     then now + cb_resetTimeout b else cb_nextAttempt b)"
  "same_config (onFailure now b) b"
  by (auto simp: onFailure_def Let_def same_config_def)

lemma leave_probe_fields [simp]:
  "cb_state (leave_probe p b) = cb_state b" "cb_failures (leave_probe p b) = cb_failures b"
  "cb_successes (leave_probe p b) = cb_successes b" "cb_nextAttempt (leave_probe p b) = cb_nextAttempt b"
  "cb_halfOpenInFlight (leave_probe p b) = (if p then max 0 (cb_halfOpenInFlight b - 1) else cb_halfOpenInFlight b)"
  "same_config (leave_probe p b) c \<longleftrightarrow> same_config b c"
  by (simp_all add: leave_probe_def same_config_def)

lemma drop_execution_fields [simp]:
  "cb_state (drop_execution i b) = cb_state b" "cb_failures (drop_execution i b) = cb_failures b"
  "cb_successes (drop_execution i b) = cb_successes b" "cb_nextAttempt (drop_execution i b) = cb_nextAttempt b"
  "cb_halfOpenInFlight (drop_execution i b) = cb_halfOpenInFlight b"
  "cb_failureThreshold (drop_execution i b) = cb_failureThreshold b"
  "cb_successThreshold (drop_execution i b) = cb_successThreshold b"
  "cb_resetTimeout (drop_execution i b) = cb_resetTimeout b"
  "cb_timeout (drop_execution i b) = cb_timeout b"
  "same_config (drop_execution i b) c \<longleftrightarrow> same_config b c" "same_config c (drop_execution i b) \<longleftrightarrow> same_config c b"
  by (simp_all add: drop_execution_def same_config_def)

lemma same_config_refl [simp]: "same_config b b"
  by (simp add: same_config_def)

lemma execute_begin_rejected:
  assumes "execute_begin now i aborted b = (Inl e, b')" and "breaker_inv b"
  shows "b' = b \<and> (cb_state b = OPEN \<and> now < cb_nextAttempt b \<or> cb_state b = HALF_OPEN \<and> cb_halfOpenInFlight b = 1)"
  using assms
  by (auto simp: execute_begin_def enterHalfOpenProbe_def bindP_eval breaker_inv_def split: if_splits)

lemma execute_begin_started:
  assumes "execute_begin now i aborted b = (Inr probe, b')" and "breaker_inv b"
  shows "same_config b' b \<and> cb_failures b' = cb_failures b \<and> cb_successes b' = cb_successes b
    \<and> (cb_state b = CLOSED \<and> cb_state b' = CLOSED \<and> \<not> probe \<and> cb_halfOpenInFlight b' = 0
       \<or> (cb_state b = OPEN \<and> cb_nextAttempt b \<le> now \<or> cb_state b = HALF_OPEN \<and> cb_halfOpenInFlight b = 0)
         \<and> cb_state b' = HALF_OPEN \<and> probe \<and> cb_halfOpenInFlight b' = 1)"
  using assms
  by (cases "cb_state b") (auto simp: execute_begin_def enterHalfOpenProbe_def bindP_eval breaker_inv_def same_config_def split: if_splits)

lemma breaker_inv_begin:
  assumes "breaker_inv b" and "sane_config b" and "execute_begin now i aborted b = (res, b')"
  shows "breaker_inv b'"
proof (cases res)
  case (Inl e)
  then show ?thesis using execute_begin_rejected assms by blast
next
  case (Inr probe)
  with execute_begin_started [of now i aborted b probe b'] assms show ?thesis
    by (auto simp: breaker_inv_def same_config_def sane_config_def)
qed

text \<open>What remains of the breaker when a call settles, apart from the bookkeeping of the execution.\<close>

lemma execute_settle_breaker:
  "snd (execute_settle now i p r b) = leave_probe p
     (let c = (if r = Timed_out then b else drop_execution i b) in
      if r = Returned then onSuccess now c else if r = Threw_reset then c else onFailure now c)"
  by (simp add: execute_settle_def Let_def)

lemma execute_settle_config: "execute_settle now i p r b = (res, b') \<Longrightarrow> same_config b' b"
  using execute_settle_breaker [of now i p r b] onSuccess_fields(7) [of now "drop_execution i b"]
    onFailure_fields(6) [of now b] onFailure_fields(6) [of now "drop_execution i b"]
  by (auto simp: Let_def split: if_splits)

lemma breaker_inv_settle:
  assumes "breaker_inv b" and "sane_config b" and "execute_settle now i p r b = (res, b')"
  shows "breaker_inv b'"
proof -
  have 1: "breaker_inv (leave_probe p c)" if "breaker_inv c" for c
    using that by (auto simp: breaker_inv_def leave_probe_def)
  have 2: "breaker_inv (drop_execution i b)" using assms(1) by (simp add: breaker_inv_def)
  have 3: "breaker_inv (onSuccess now c)" if "breaker_inv c" "sane_config c" for c
    using that onSuccess_fields(7) [of now c]
    by (cases "cb_state c") (auto simp: breaker_inv_def sane_config_def same_config_def onSuccess_fields)
  have 4: "breaker_inv (onFailure now c)" if "breaker_inv c" for c
    using that onFailure_fields(6) [of now c]
    by (cases "cb_state c") (auto simp: breaker_inv_def same_config_def onFailure_fields)
  have "sane_config (drop_execution i b)" using assms(2) by (simp add: sane_config_def)
  then have "breaker_inv (snd (execute_settle now i p r b))"
    unfolding execute_settle_breaker using 1 2 3 4 assms(1) by (simp add: Let_def)
  with assms(3) show ?thesis by simp
qed

definition world_inv :: "breaker_world \<Rightarrow> bool" where
  "world_inv w \<longleftrightarrow>
     (let b = bw_breaker w in
      breaker_inv b \<and> sane_config b \<and> cb_timeout b < cb_resetTimeout b
      \<and> (\<forall>c \<in> set (bw_calls w). pc_started c \<le> bw_now w)
      \<and> (cb_state b = HALF_OPEN \<longrightarrow> int (length (bw_calls w)) = cb_halfOpenInFlight b \<and> (\<forall>c \<in> set (bw_calls w). pc_probe c))
      \<and> (cb_state b = OPEN \<longrightarrow> (\<forall>c \<in> set (bw_calls w). pc_started c + cb_timeout b < cb_nextAttempt b)))"

lemma world_inv_rejected:
  assumes "world_inv w" and "timers_on_time now w" and "execute_begin now i aborted (bw_breaker w) = (Inl e, b)"
  shows "world_inv (w\<lparr>bw_breaker := b, bw_now := now\<rparr>)"
proof -
  have "b = bw_breaker w" using execute_begin_rejected [OF assms(3)] assms(1) by (simp add: world_inv_def Let_def)
  with assms(1,2) show ?thesis by (force simp: world_inv_def Let_def timers_on_time_def)
qed

lemma world_inv_started:
  assumes inv: "world_inv w" and time: "timers_on_time now w"
    and run: "execute_begin now i aborted (bw_breaker w) = (Inr probe, b)"
  shows "world_inv (w\<lparr>bw_breaker := b, bw_now := now,
      bw_calls := bw_calls w @ [\<lparr>pc_id = i, pc_started = now, pc_probe = probe\<rparr>]\<rparr>)"
proof -
  let ?b = "bw_breaker w"
  have binv: "breaker_inv ?b" "sane_config ?b" using inv by (simp_all add: world_inv_def Let_def)
  note st = execute_begin_started [OF run binv(1)]
  have b: "breaker_inv b" "sane_config b" "cb_timeout b < cb_resetTimeout b"
    using breaker_inv_begin [OF binv run] st inv by (auto simp: world_inv_def Let_def same_config_def sane_config_def)
  have now: "\<forall>c \<in> set (bw_calls w). pc_started c \<le> now"
    using inv time by (force simp: world_inv_def Let_def timers_on_time_def)
  show ?thesis
  proof (cases "cb_state ?b = CLOSED")
    case True
    with st b now show ?thesis by (auto simp: world_inv_def Let_def)
  next
    case False
    have "bw_calls w = []"
    proof (cases "cb_state ?b = OPEN")
      case True
      then have "\<forall>c \<in> set (bw_calls w). pc_started c + cb_timeout ?b < now"
        using inv st by (auto simp: world_inv_def Let_def)
      then show ?thesis using time by (cases "bw_calls w") (auto simp: timers_on_time_def)
    next
      case half: False
      with False st inv show ?thesis by (auto simp: world_inv_def Let_def)
    qed
    with False st b now show ?thesis by (auto simp: world_inv_def Let_def)
  qed
qed

lemma settle_to_open:
  assumes "execute_settle now i p r b = (res, b')" and "cb_state b' = OPEN"
  shows "cb_nextAttempt b' = now + cb_resetTimeout b \<or> cb_state b = OPEN \<and> cb_nextAttempt b' = cb_nextAttempt b"
  using assms execute_settle_breaker [of now i p r b]
  by (auto simp: Let_def onSuccess_fields onFailure_fields split: if_splits)

lemma settle_to_half_open:
  assumes "execute_settle now i p r b = (res, b')" and "cb_state b' = HALF_OPEN"
  shows "cb_state b = HALF_OPEN \<and> cb_halfOpenInFlight b' = (if p then max 0 (cb_halfOpenInFlight b - 1) else cb_halfOpenInFlight b)"
  using assms execute_settle_breaker [of now i p r b]
  by (auto simp: Let_def onSuccess_fields onFailure_fields split: if_splits)

lemma world_inv_settled:
  assumes inv: "world_inv w" and time: "timers_on_time now w" and calls: "bw_calls w = xs @ c # ys"
    and run: "execute_settle now (pc_id c) (pc_probe c) r (bw_breaker w) = (res, b)"
  shows "world_inv (w\<lparr>bw_breaker := b, bw_now := now, bw_calls := xs @ ys\<rparr>)"
proof -
  let ?b = "bw_breaker w"
  have binv: "breaker_inv ?b" "sane_config ?b" "cb_timeout ?b < cb_resetTimeout ?b" using inv by (simp_all add: world_inv_def Let_def)
  note same = execute_settle_config [OF run]
  have b: "breaker_inv b" "sane_config b" "cb_timeout b < cb_resetTimeout b" "cb_timeout b = cb_timeout ?b"
    using breaker_inv_settle [OF binv(1,2) run] same binv by (auto simp: same_config_def sane_config_def)
  have now: "\<forall>d \<in> set (xs @ ys). pc_started d \<le> now"
    using inv time calls by (force simp: world_inv_def Let_def timers_on_time_def)
  have "pc_started d + cb_timeout b < cb_nextAttempt b" if "cb_state b = OPEN" "d \<in> set (xs @ ys)" for d
    using settle_to_open [OF run that(1)]
  proof
    assume "cb_nextAttempt b = now + cb_resetTimeout ?b"
    moreover have "pc_started d \<le> now" using now that(2) by blast
    ultimately show ?thesis using binv(3) b(4) by simp
  next
    assume "cb_state ?b = OPEN \<and> cb_nextAttempt b = cb_nextAttempt ?b"
    then show ?thesis using inv calls that(2) b(4) by (auto simp: world_inv_def Let_def)
  qed
  moreover have "int (length (xs @ ys)) = cb_halfOpenInFlight b \<and> (\<forall>d \<in> set (xs @ ys). pc_probe d)" if "cb_state b = HALF_OPEN"
    using settle_to_half_open [OF run that] inv calls by (auto simp: world_inv_def Let_def)
  ultimately show ?thesis using b now by (auto simp: world_inv_def Let_def)
qed

lemma world_inv_step: "call_step w w' \<Longrightarrow> world_inv w \<Longrightarrow> world_inv w'"
  by (induction rule: call_step.induct) (blast intro: world_inv_rejected world_inv_started world_inv_settled)+

lemma world_inv_initial:
  assumes "0 < coalesce (bo_failureThreshold opts) 5" and "0 < coalesce (bo_successThreshold opts) 2"
    and "coalesce (bo_timeout opts) 30000 < coalesce (bo_resetTimeout opts) 60000"
  shows "world_inv (initial_world opts t0)"
  using assms by (simp add: world_inv_def Let_def initial_world_def new_CircuitBreaker_def breaker_inv_def sane_config_def)

lemma world_inv_reachable:
  assumes "call_step\<^sup>*\<^sup>* w0 w" and "world_inv w0"
  shows "world_inv w"
  using assms by (induction rule: rtranclp_induct) (auto intro: world_inv_step)

section \<open>Properties\<close>

text \<open>
  One probe at a time: with positive thresholds and a call timeout shorter than the reset timeout, in
  every interleaving of calls whose timers fire on time, a half-open breaker never has more than one call in
  flight, and a breaker that is not half-open keeps its probe and success counters at zero.
\<close>

theorem half_open_single_probe:
  assumes "call_step\<^sup>*\<^sup>* (initial_world opts t0) w"
    and "0 < coalesce (bo_failureThreshold opts) 5" and "0 < coalesce (bo_successThreshold opts) 2"
    and "coalesce (bo_timeout opts) 30000 < coalesce (bo_resetTimeout opts) 60000"
  shows "(cb_state (bw_breaker w) = HALF_OPEN \<longrightarrow>
       length (bw_calls w) \<le> 1 \<and> int (length (bw_calls w)) = cb_halfOpenInFlight (bw_breaker w))
    \<and> (cb_state (bw_breaker w) \<noteq> HALF_OPEN \<longrightarrow>
       cb_halfOpenInFlight (bw_breaker w) = 0 \<and> cb_successes (bw_breaker w) = 0)"
  using world_inv_reachable [OF assms(1) world_inv_initial [OF assms(2-4)]]
  by (auto simp: world_inv_def Let_def breaker_inv_def)

definition default_options :: breaker_options where
  "default_options = \<lparr>bo_name = None, bo_failureThreshold = Some 1, bo_successThreshold = None, bo_timeout = None, bo_resetTimeout = None\<rparr>"

definition after_begin :: "timestamp \<Rightarrow> nat \<Rightarrow> breaker_world \<Rightarrow> breaker_world" where
  "after_begin now i w =
     (case execute_begin now i False (bw_breaker w) of
        (Inl e, b) \<Rightarrow> w\<lparr>bw_breaker := b, bw_now := now\<rparr>
      | (Inr probe, b) \<Rightarrow> w\<lparr>bw_breaker := b, bw_now := now,
          bw_calls := bw_calls w @ [\<lparr>pc_id = i, pc_started = now, pc_probe = probe\<rparr>]\<rparr>)"

definition after_settle :: "timestamp \<Rightarrow> nat \<Rightarrow> call_outcome \<Rightarrow> breaker_world \<Rightarrow> breaker_world" where
  "after_settle now k r w =
     (let c = bw_calls w ! k in
      w\<lparr>bw_breaker := snd (execute_settle now (pc_id c) (pc_probe c) r (bw_breaker w)), bw_now := now,
        bw_calls := take k (bw_calls w) @ drop (Suc k) (bw_calls w)\<rparr>)"

lemma after_begin_step: "timers_on_time now w \<Longrightarrow> call_step w (after_begin now i w)"
  by (auto simp: after_begin_def split: prod.splits sum.splits intro: call_step.rejected call_step.started)

lemma after_settle_step:
  assumes "timers_on_time now w" and "k < length (bw_calls w)"
  shows "call_step w (after_settle now k r w)"
proof -
  obtain res b where "execute_settle now (pc_id (bw_calls w ! k)) (pc_probe (bw_calls w ! k)) r (bw_breaker w) = (res, b)"
    by fastforce
  with call_step.settled_call [OF assms(1) id_take_nth_drop [OF assms(2)] this] show ?thesis
    by (simp add: after_settle_def Let_def)
qed

lemmas breaker_eval = after_begin_def after_settle_def initial_world_def new_CircuitBreaker_def execute_begin_def
  enterHalfOpenProbe_def bindP_eval cb_transitionTo_def emitStateChange_def execute_settle_def onSuccess_def
  onFailure_def leave_probe_def drop_execution_def timers_on_time_def Let_def

theorem half_open_single_probe_witness:
  "cb_state (bw_breaker (after_begin 60001 2 (after_settle 1 0 Timed_out (after_begin 0 1 (initial_world default_options 0))))) = HALF_OPEN
   \<and> length (bw_calls (after_begin 60001 2 (after_settle 1 0 Timed_out (after_begin 0 1 (initial_world default_options 0))))) \<le> 1"
proof -
  let ?w0 = "initial_world default_options 0"
  let ?w1 = "after_begin 0 1 ?w0"
  let ?w2 = "after_settle 1 0 Timed_out ?w1"
  let ?w3 = "after_begin 60001 2 ?w2"
  have s1: "call_step ?w0 ?w1" by (rule after_begin_step) (simp add: breaker_eval default_options_def)
  have s2: "call_step ?w1 ?w2" by (rule after_settle_step) (simp_all add: breaker_eval default_options_def)
  have s3: "call_step ?w2 ?w3" by (rule after_begin_step) (simp add: breaker_eval default_options_def)
  have reach: "call_step\<^sup>*\<^sup>* ?w0 ?w3"
    by (intro converse_rtranclp_into_rtranclp [of call_step, OF s1] converse_rtranclp_into_rtranclp [of call_step, OF s2] r_into_rtranclp [of call_step, OF s3])
  from half_open_single_probe [OF reach] have "cb_state (bw_breaker ?w3) = HALF_OPEN \<longrightarrow> length (bw_calls ?w3) \<le> 1"
    by (simp add: default_options_def)
  moreover have "cb_state (bw_breaker ?w3) = HALF_OPEN" by (simp add: breaker_eval default_options_def)
  ultimately show ?thesis by blast
qed

definition short_reset_options :: breaker_options where
  "short_reset_options = \<lparr>bo_name = None, bo_failureThreshold = Some 1, bo_successThreshold = None, bo_timeout = None, bo_resetTimeout = Some 1000\<rparr>"

definition overlapping_probes :: breaker_world where
  "overlapping_probes =
     after_begin 2002 4 (after_settle 1002 0 (Threw_error ''late'') (after_begin 1001 3
       (after_settle 1 0 (Threw_error ''down'') (after_begin 0 2 (after_begin 0 1 (initial_world short_reset_options 0))))))"

text \<open>
  Without that relation of the timeouts the probe limit fails: with a reset timeout of one second and the
  default call timeout of thirty, a late failure of an ordinary call reopens the breaker during a probe, and
  the next probe starts while the first is still running.
\<close>

theorem probes_overlap_after_late_failure:
  "call_step\<^sup>*\<^sup>* (initial_world short_reset_options 0) overlapping_probes
   \<and> cb_state (bw_breaker overlapping_probes) = HALF_OPEN
   \<and> map pc_probe (bw_calls overlapping_probes) = [True, True]"
proof -
  let ?w0 = "initial_world short_reset_options 0"
  let ?w1 = "after_begin 0 1 ?w0"
  let ?w2 = "after_begin 0 2 ?w1"
  let ?w3 = "after_settle 1 0 (Threw_error ''down'') ?w2"
  let ?w4 = "after_begin 1001 3 ?w3"
  let ?w5 = "after_settle 1002 0 (Threw_error ''late'') ?w4"
  have s1: "call_step ?w0 ?w1" by (rule after_begin_step) (simp add: breaker_eval short_reset_options_def)
  have s2: "call_step ?w1 ?w2" by (rule after_begin_step) (simp add: breaker_eval short_reset_options_def)
  have s3: "call_step ?w2 ?w3" by (rule after_settle_step) (simp_all add: breaker_eval short_reset_options_def)
  have s4: "call_step ?w3 ?w4" by (rule after_begin_step) (simp add: breaker_eval short_reset_options_def)
  have s5: "call_step ?w4 ?w5" by (rule after_settle_step) (simp_all add: breaker_eval short_reset_options_def)
  have s6: "call_step ?w5 overlapping_probes"
    unfolding overlapping_probes_def by (rule after_begin_step) (simp add: breaker_eval short_reset_options_def)
  have reach: "call_step\<^sup>*\<^sup>* ?w0 overlapping_probes"
    by (intro converse_rtranclp_into_rtranclp [of call_step, OF s1] converse_rtranclp_into_rtranclp [of call_step, OF s2] converse_rtranclp_into_rtranclp [of call_step, OF s3] converse_rtranclp_into_rtranclp [of call_step, OF s4] converse_rtranclp_into_rtranclp [of call_step, OF s5] r_into_rtranclp [of call_step, OF s6])
  have "cb_state (bw_breaker overlapping_probes) = HALF_OPEN \<and> map pc_probe (bw_calls overlapping_probes) = [True, True]"
    unfolding overlapping_probes_def by (simp add: breaker_eval short_reset_options_def)
  with reach show ?thesis by blast
qed

lemma failures_from:
  assumes "cb_state b \<noteq> HALF_OPEN" and "cb_state b = CLOSED \<longrightarrow> cb_failures b < cb_failureThreshold b"
    and "cb_state b = OPEN \<longrightarrow> cb_failures b \<ge> cb_failureThreshold b"
  shows "cb_failures (foldl (\<lambda>c t. onFailure t c) b ts) = cb_failures b + int (length ts)
    \<and> cb_state (foldl (\<lambda>c t. onFailure t c) b ts)
        = (if cb_failures b + int (length ts) \<ge> cb_failureThreshold b then OPEN else CLOSED)
    \<and> (ts \<noteq> [] \<longrightarrow> cb_failures b + int (length ts) \<ge> cb_failureThreshold b \<longrightarrow>
        cb_nextAttempt (foldl (\<lambda>c t. onFailure t c) b ts) = last ts + cb_resetTimeout b)"
  using assms
proof (induction ts arbitrary: b)
  case Nil
  then show ?case by (cases "cb_state b") auto
next
  case (Cons t ts)
  let ?b = "onFailure t b"
  have b: "cb_state ?b \<noteq> HALF_OPEN" "cb_state ?b = CLOSED \<longrightarrow> cb_failures ?b < cb_failureThreshold ?b"
    "cb_state ?b = OPEN \<longrightarrow> cb_failures ?b \<ge> cb_failureThreshold ?b"
    "cb_failureThreshold ?b = cb_failureThreshold b" "cb_resetTimeout ?b = cb_resetTimeout b"
    using Cons.prems onFailure_fields(6) [of t b]
    by (cases "cb_state b"; auto simp: onFailure_fields same_config_def)+
  from Cons.IH [OF b(1-3)] b(4,5) show ?case
    using Cons.prems by (cases ts) (auto simp: onFailure_fields)
qed

text \<open>
  The breaker trips exactly at its threshold: a run of failures on a fresh breaker leaves it closed, with
  all of them counted, while it is shorter than the failure threshold, and open from the threshold on, when
  every call is rejected until the reset timeout after the last failure has passed.
\<close>

theorem breaker_trips_at_threshold:
  assumes "0 < coalesce (bo_failureThreshold opts) 5"
    and "b = foldl (\<lambda>c t. onFailure t c) (new_CircuitBreaker opts) ts" and "ts \<noteq> []"
  shows "(int (length ts) < coalesce (bo_failureThreshold opts) 5 \<longrightarrow> cb_state b = CLOSED \<and> cb_failures b = int (length ts))
    \<and> (int (length ts) \<ge> coalesce (bo_failureThreshold opts) 5 \<longrightarrow> cb_state b = OPEN
        \<and> (now < last ts + coalesce (bo_resetTimeout opts) 60000 \<longrightarrow>
             execute_begin now i aborted b
               = (Inl (Open_error ''Circuit is OPEN'' (Some (last ts + coalesce (bo_resetTimeout opts) 60000 - now))), b)))"
  using failures_from [of "new_CircuitBreaker opts" ts] assms
  by (simp add: new_CircuitBreaker_def Let_def execute_begin_def)

theorem breaker_trips_at_threshold_witness:
  "cb_state (foldl (\<lambda>c t. onFailure t c) (new_CircuitBreaker default_options) [7]) = OPEN"
  using breaker_trips_at_threshold [of default_options _ "[7]" 0 0 False] by (simp add: default_options_def)

end
