(* ===== verification/Retry_Policy.thy ===== *)
theory Retry_Policy
  imports Prelude Complex_Main
begin

text \<open>
  Retry with exponential backoff (\<^verbatim>\<open>src/src/platform/stability/retry.ts\<close>).

  The operation, the clock, \<^verbatim>\<open>Math.random\<close> and the abort signal are the environment of a run: how the
  k-th attempt ends and how long it takes, the random number drawn after it, and the instant from which on
  the signal is aborted. A sleep takes exactly its delay unless the signal is aborted before. Delays and
  durations are whole milliseconds; the multiplier, the jitter and the random numbers are rationals.
  A run returns the outcome, the statistics it leaves behind, the attempts it made and the time it ended.
\<close>

section \<open>Options and environment\<close>

record retry_config =
  rc_maxAttempts :: int
  rc_initialDelayMs :: int
  rc_maxDelayMs :: int
  rc_backoffMultiplier :: rat
  rc_jitterFactor :: rat
  rc_maxDurationMs :: int
  rc_retryableErrors :: "string list"

record retry_options =
  ro_maxAttempts :: "int option"
  ro_initialDelayMs :: "int option"
  ro_maxDelayMs :: "int option"
  ro_backoffMultiplier :: "rat option"
  ro_jitterFactor :: "rat option"
  ro_maxDurationMs :: "int option"
  ro_retryableErrors :: "string list option"

definition new_Retry :: "retry_options \<Rightarrow> retry_config" where
  "new_Retry opts =
     \<lparr>rc_maxAttempts = coalesce (ro_maxAttempts opts) 3,
      rc_initialDelayMs = coalesce (ro_initialDelayMs opts) 100,
      rc_maxDelayMs = coalesce (ro_maxDelayMs opts) 30000,
      rc_backoffMultiplier = coalesce (ro_backoffMultiplier opts) 2,
      rc_jitterFactor = coalesce (ro_jitterFactor opts) (1 / 5),
      rc_maxDurationMs = coalesce (ro_maxDurationMs opts) 60000,
      rc_retryableErrors = coalesce (ro_retryableErrors opts) []\<rparr>"

datatype retry_error =
    Thrown string string
  | Retry_timeout
  | Retry_aborted
  | No_error

definition error_name :: "retry_error \<Rightarrow> string" where
  "error_name e = (case e of Thrown name msg \<Rightarrow> name | Retry_timeout \<Rightarrow> ''RetryTimeoutError''
     | Retry_aborted \<Rightarrow> ''RetryAbortError'' | No_error \<Rightarrow> ''Error'')"

record 'a retry_attempt =
  ra_attempt :: nat
  ra_delay :: int
  ra_result :: "'a option"
  ra_error :: "retry_error option"
  ra_success :: bool

record retry_stats =
  rs_totalAttempts :: nat
  rs_successfulAttempts :: nat
  rs_failedAttempts :: nat
  rs_totalDurationMs :: int
  rs_lastError :: "retry_error option"

record 'a retry_env =
  re_outcome :: "nat \<Rightarrow> retry_error + 'a"
  re_duration :: "nat \<Rightarrow> int"
  re_random :: "nat \<Rightarrow> rat"
  re_abortedFrom :: "timestamp option"

record 'a retry_run =
  rr_result :: "retry_error + 'a"
  rr_stats :: retry_stats
  rr_attempts :: "'a retry_attempt list"
  rr_end :: timestamp

definition initial_stats :: retry_stats where
  "initial_stats = \<lparr>rs_totalAttempts = 0, rs_successfulAttempts = 0, rs_failedAttempts = 0,
     rs_totalDurationMs = 0, rs_lastError = None\<rparr>"

section \<open>Helpers\<close>

definition calculateDelay :: "retry_config \<Rightarrow> rat \<Rightarrow> nat \<Rightarrow> int" where
  "calculateDelay cfg random attempt =
     (let exponentialDelay = of_int (rc_initialDelayMs cfg) * rc_backoffMultiplier cfg ^ (attempt - 1);
          cappedDelay = min exponentialDelay (of_int (rc_maxDelayMs cfg));
          jitter = cappedDelay * rc_jitterFactor cfg * (random * 2 - 1);
          candidateDelay = \<lfloor>cappedDelay + jitter\<rfloor>
      in min (rc_maxDelayMs cfg) (max (rc_initialDelayMs cfg) candidateDelay))"

definition signal_aborted :: "'a retry_env \<Rightarrow> timestamp \<Rightarrow> bool" where
  "signal_aborted env now \<longleftrightarrow> (case re_abortedFrom env of None \<Rightarrow> False | Some t \<Rightarrow> t \<le> now)"

text \<open>\<^verbatim>\<open>sleep\<close>: the time after it, or the time of the abort.\<close>

definition retry_sleep :: "'a retry_env \<Rightarrow> int \<Rightarrow> timestamp \<Rightarrow> timestamp + timestamp" where
  "retry_sleep env ms now =
     (if signal_aborted env now then Inl now
      else case re_abortedFrom env of
             None \<Rightarrow> Inr (now + max 0 ms)
           | Some t \<Rightarrow> if t < now + max 0 ms then Inl t else Inr (now + max 0 ms))"

definition buildStats ::
    "'a retry_attempt list \<Rightarrow> timestamp \<Rightarrow> timestamp \<Rightarrow> retry_error option \<Rightarrow> retry_stats" where
  "buildStats attempts startTime now lastError =
     \<lparr>rs_totalAttempts = length attempts, rs_successfulAttempts = length (filter ra_success attempts),
      rs_failedAttempts = length (filter (\<lambda>a. \<not> ra_success a) attempts),
      rs_totalDurationMs = now - startTime, rs_lastError = lastError\<rparr>"

definition succeeded :: "nat \<Rightarrow> int \<Rightarrow> 'a \<Rightarrow> 'a retry_attempt" where
  "succeeded k d v = \<lparr>ra_attempt = k, ra_delay = d, ra_result = Some v, ra_error = None, ra_success = True\<rparr>"

definition failed :: "nat \<Rightarrow> int \<Rightarrow> retry_error \<Rightarrow> 'a retry_attempt" where
  "failed k d e = \<lparr>ra_attempt = k, ra_delay = d, ra_result = None, ra_error = Some e, ra_success = False\<rparr>"

definition finish_run ::
    "retry_error + 'a \<Rightarrow> 'a retry_attempt list \<Rightarrow> timestamp \<Rightarrow> timestamp \<Rightarrow> 'a retry_run" where
  "finish_run r attempts startTime now =
     \<lparr>rr_result = r, rr_stats = buildStats attempts startTime now (case r of Inl e \<Rightarrow> Some e | Inr v \<Rightarrow> None),
      rr_attempts = attempts, rr_end = now\<rparr>"

definition abort_run :: "retry_stats \<Rightarrow> 'a retry_attempt list \<Rightarrow> timestamp \<Rightarrow> 'a retry_run" where
  "abort_run stats attempts now =
     \<lparr>rr_result = Inl Retry_aborted, rr_stats = stats, rr_attempts = attempts, rr_end = now\<rparr>"

section \<open>Execution\<close>

text \<open>The loop of \<^verbatim>\<open>execute\<close>; \<open>attempt\<close> attempts have been made.\<close>

function retry_loop ::
    "retry_config \<Rightarrow> 'a retry_env \<Rightarrow> (retry_error \<Rightarrow> nat \<Rightarrow> bool) option \<Rightarrow> retry_stats \<Rightarrow> timestamp \<Rightarrow>
     nat \<Rightarrow> 'a retry_attempt list \<Rightarrow> retry_error option \<Rightarrow> timestamp \<Rightarrow> 'a retry_run" where
  "retry_loop cfg env shouldRetry stats startTime attempt attempts lastError now =
     (if int attempt < rc_maxAttempts cfg then
        if now - startTime \<ge> rc_maxDurationMs cfg then finish_run (Inl Retry_timeout) attempts startTime now
        else if signal_aborted env now then abort_run stats attempts now
        else
          let k = attempt + 1; d = re_duration env k; now' = now + d in
          case re_outcome env k of
            Inr v \<Rightarrow> finish_run (Inr v) (attempts @ [succeeded k d v]) startTime now'
          | Inl e \<Rightarrow>
              let attempts' = attempts @ [failed k d e] in
              if (case shouldRetry of None \<Rightarrow> False | Some p \<Rightarrow> \<not> p e k) then finish_run (Inl e) attempts' startTime now'
              else if int k \<ge> rc_maxAttempts cfg then finish_run (Inl e) attempts' startTime now'
              else if rc_retryableErrors cfg \<noteq> [] \<and> error_name e \<notin> set (rc_retryableErrors cfg)
              then finish_run (Inl e) attempts' startTime now'
              else
                case retry_sleep env (calculateDelay cfg (re_random env k) k) now' of
                  Inl t \<Rightarrow> abort_run stats attempts' t
                | Inr now'' \<Rightarrow> retry_loop cfg env shouldRetry stats startTime k attempts' (Some e) now''
      else finish_run (Inl (coalesce lastError No_error)) attempts startTime now)"
  by pat_completeness auto
termination
  by (relation "measure (\<lambda>(cfg, env, p, st, t0, k, as, e, now). nat (rc_maxAttempts cfg - int k))") auto

declare retry_loop.simps [simp del]

definition retry_execute ::
    "retry_config \<Rightarrow> 'a retry_env \<Rightarrow> (retry_error \<Rightarrow> nat \<Rightarrow> bool) option \<Rightarrow> retry_stats \<Rightarrow> timestamp \<Rightarrow> 'a retry_run" where
  "retry_execute cfg env shouldRetry lastStats now =
     (if signal_aborted env now then abort_run lastStats [] now
      else retry_loop cfg env shouldRetry lastStats now 0 [] None now)"

text \<open>
  The loop of \<^verbatim>\<open>executeWithResult\<close>. It returns the last attempt; with no attempt allowed the source returns
  \<^verbatim>\<open>undefined\<close>, here \<open>None\<close>.
\<close>

record 'a retry_result_run =
  rw_result :: "retry_error + 'a retry_attempt option"
  rw_stats :: retry_stats

function retry_result_loop ::
    "retry_config \<Rightarrow> 'a retry_env \<Rightarrow> (retry_error \<Rightarrow> nat \<Rightarrow> bool) option \<Rightarrow> retry_stats \<Rightarrow> timestamp \<Rightarrow>
     nat \<Rightarrow> 'a retry_attempt list \<Rightarrow> timestamp \<Rightarrow> 'a retry_result_run" where
  "retry_result_loop cfg env shouldRetry stats startTime attempt attempts now =
     (if int attempt \<le> rc_maxAttempts cfg then
        if signal_aborted env now then \<lparr>rw_result = Inl Retry_aborted, rw_stats = stats\<rparr>
        else
          let d = re_duration env attempt; now' = now + d in
          case re_outcome env attempt of
            Inr v \<Rightarrow>
              let attempts' = attempts @ [succeeded attempt d v] in
              \<lparr>rw_result = Inr (Some (last attempts')), rw_stats = buildStats attempts' startTime now' None\<rparr>
          | Inl e \<Rightarrow>
              let attempts' = attempts @ [failed attempt d e];
                  shouldContinue = (case shouldRetry of None \<Rightarrow> True | Some p \<Rightarrow> p e attempt)
              in
              if \<not> shouldContinue \<or> int attempt \<ge> rc_maxAttempts cfg then
                \<lparr>rw_result = Inr (Some (last attempts')), rw_stats = buildStats attempts' startTime now' (Some e)\<rparr>
              else
                case retry_sleep env (calculateDelay cfg (re_random env attempt) attempt) now' of
                  Inl t \<Rightarrow> \<lparr>rw_result = Inl Retry_aborted, rw_stats = stats\<rparr>
                | Inr now'' \<Rightarrow> retry_result_loop cfg env shouldRetry stats startTime (attempt + 1) attempts' now''
      else \<lparr>rw_result = Inr (if attempts = [] then None else Some (last attempts)),
            rw_stats = buildStats attempts startTime now None\<rparr>)"
  by pat_completeness auto
termination
  by (relation "measure (\<lambda>(cfg, env, p, st, t0, k, as, now). nat (rc_maxAttempts cfg + 1 - int k))") auto

declare retry_result_loop.simps [simp del]

definition executeWithResult ::
    "retry_config \<Rightarrow> 'a retry_env \<Rightarrow> (retry_error \<Rightarrow> nat \<Rightarrow> bool) option \<Rightarrow> retry_stats \<Rightarrow> timestamp \<Rightarrow> 'a retry_result_run" where
  "executeWithResult cfg env shouldRetry lastStats now =
     (if signal_aborted env now then \<lparr>rw_result = Inl Retry_aborted, rw_stats = lastStats\<rparr>
      else retry_result_loop cfg env shouldRetry lastStats now 1 [] now)"

section \<open>Delays\<close>

lemma calculateDelay_within:
  "rc_initialDelayMs cfg \<le> rc_maxDelayMs cfg \<Longrightarrow>
   rc_initialDelayMs cfg \<le> calculateDelay cfg r k \<and> calculateDelay cfg r k \<le> rc_maxDelayMs cfg"
  by (simp add: calculateDelay_def Let_def)

lemma retry_sleep_bounds:
  assumes "retry_sleep env ms now = Inr now'" and "0 \<le> ms"
  shows "now' = now + ms"
  using assms by (auto simp: retry_sleep_def split: if_splits option.splits)

lemma retry_sleep_abort:
  assumes "retry_sleep env ms now = Inl t" and "0 \<le> ms"
  shows "now \<le> t \<and> t \<le> now + ms"
  using assms by (auto simp: retry_sleep_def signal_aborted_def split: if_splits option.splits)

section \<open>Properties\<close>

text \<open>What a run that continues after some failed attempts ends with.\<close>

definition well_run :: "retry_config \<Rightarrow> 'a retry_env \<Rightarrow> int \<Rightarrow> timestamp \<Rightarrow> nat \<Rightarrow> 'a retry_run \<Rightarrow> bool" where
  "well_run cfg env D startTime attempt run \<longleftrightarrow>
     int (length (rr_attempts run)) \<le> max (int attempt) (rc_maxAttempts cfg)
     \<and> rr_end run \<le> startTime + rc_maxDurationMs cfg + D + rc_maxDelayMs cfg
     \<and> (\<forall>v. rr_result run = Inr v \<longrightarrow> rr_attempts run \<noteq> [] \<and> ra_result (last (rr_attempts run)) = Some v
          \<and> (\<forall>a \<in> set (butlast (rr_attempts run)). \<not> ra_success a))
     \<and> (\<forall>e. rr_result run = Inl e \<longrightarrow> (\<forall>a \<in> set (rr_attempts run). \<not> ra_success a))"

lemma retry_loop_well_run:
  assumes "length attempts = attempt" and "\<forall>a \<in> set attempts. \<not> ra_success a"
    and "\<forall>k. 0 \<le> re_duration env k \<and> re_duration env k \<le> D"
    and "0 \<le> rc_initialDelayMs cfg" and "rc_initialDelayMs cfg \<le> rc_maxDelayMs cfg"
    and "now \<le> startTime + rc_maxDurationMs cfg + D + rc_maxDelayMs cfg"
  shows "well_run cfg env D startTime attempt (retry_loop cfg env p stats startTime attempt attempts err now)"
  using assms
proof (induction cfg env p stats startTime attempt attempts err now rule: retry_loop.induct)
  case (1 cfg env p stats startTime attempt attempts err now)
  let ?k = "attempt + 1"
  let ?d = "re_duration env ?k"
  have dur: "0 \<le> ?d" "?d \<le> D" "0 \<le> D" using "1.prems"(3) by (auto intro: order_trans)
  show ?case
  proof (cases "int attempt < rc_maxAttempts cfg \<and> now - startTime < rc_maxDurationMs cfg \<and> \<not> signal_aborted env now")
    case False
    then show ?thesis
      using "1.prems" by (subst retry_loop.simps) (auto simp: well_run_def finish_run_def abort_run_def)
  next
    case True
    show ?thesis
    proof (cases "re_outcome env ?k")
      case (Inr v)
      moreover have "now + ?d \<le> startTime + rc_maxDurationMs cfg + D + rc_maxDelayMs cfg"
        using True "1.prems"(4,5) dur by linarith
      ultimately show ?thesis using True "1.prems" dur
        by (subst retry_loop.simps) (auto simp: well_run_def finish_run_def Let_def succeeded_def)
    next
      case (Inl e)
      let ?as = "attempts @ [failed ?k ?d e]"
      let ?delay = "calculateDelay cfg (re_random env ?k) ?k"
      have fail: "\<forall>a \<in> set ?as. \<not> ra_success a" using "1.prems"(2) by (simp add: failed_def)
      have delay: "0 \<le> ?delay" "?delay \<le> rc_maxDelayMs cfg"
        using calculateDelay_within [of cfg "re_random env ?k" ?k] "1.prems"(4,5) by linarith+
      show ?thesis
      proof (cases "(case p of None \<Rightarrow> False | Some q \<Rightarrow> \<not> q e ?k) \<or> int ?k \<ge> rc_maxAttempts cfg
          \<or> rc_retryableErrors cfg \<noteq> [] \<and> error_name e \<notin> set (rc_retryableErrors cfg)")
        case stop: True
        have "retry_loop cfg env p stats startTime attempt attempts err now = finish_run (Inl e) ?as startTime (now + ?d)"
          using True Inl stop by (subst retry_loop.simps) (auto simp: Let_def split: option.splits)
        moreover have "now + ?d \<le> startTime + rc_maxDurationMs cfg + D + rc_maxDelayMs cfg"
          using True dur delay by linarith
        ultimately show ?thesis using True fail "1.prems"(1) by (auto simp: well_run_def finish_run_def)
      next
        case go: False
        show ?thesis
        proof (cases "retry_sleep env ?delay (now + ?d)")
          case sl: (Inl t)
          have "retry_loop cfg env p stats startTime attempt attempts err now = abort_run stats ?as t"
            using True Inl go sl by (subst retry_loop.simps) (auto simp: Let_def split: option.splits)
          moreover have "t \<le> startTime + rc_maxDurationMs cfg + D + rc_maxDelayMs cfg"
            using retry_sleep_abort [OF sl delay(1)] True dur delay by linarith
          ultimately show ?thesis using True fail "1.prems"(1) by (auto simp: well_run_def abort_run_def)
        next
          case sl: (Inr now'')
          have eq: "retry_loop cfg env p stats startTime attempt attempts err now
              = retry_loop cfg env p stats startTime ?k ?as (Some e) now''"
            using True Inl go sl by (subst retry_loop.simps) (auto simp: Let_def split: option.splits)
          have "now'' = now + ?d + ?delay" using retry_sleep_bounds [OF sl delay(1)] by simp
          then have "now'' \<le> startTime + rc_maxDurationMs cfg + D + rc_maxDelayMs cfg"
            using True dur delay by linarith
          moreover have "\<not> (case p of None \<Rightarrow> False | Some q \<Rightarrow> \<not> q e ?k)" "\<not> int ?k \<ge> rc_maxAttempts cfg"
            "\<not> (rc_retryableErrors cfg \<noteq> [] \<and> error_name e \<notin> set (rc_retryableErrors cfg))"
            using go by blast+
          ultimately have "well_run cfg env D startTime ?k (retry_loop cfg env p stats startTime ?k ?as (Some e) now'')"
            using "1.IH" [OF _ _ _ refl refl refl Inl refl _ _ _ sl] True fail "1.prems" by simp
          then show ?thesis
            unfolding eq using True by (auto simp: well_run_def)
        qed
      qed
    qed
  qed
qed

text \<open>
  A retried operation is bounded and reports faithfully: when every attempt takes at most D milliseconds,
  a run makes at most \<^verbatim>\<open>maxAttempts\<close> attempts and ends within \<^verbatim>\<open>maxDurationMs\<close> plus D plus one maximal delay;
  a value is returned only by a last, successful attempt after failed ones, and an error only when every
  attempt failed.
\<close>

theorem retry_execute_bounded:
  assumes "\<forall>k. 0 \<le> re_duration env k \<and> re_duration env k \<le> D"
    and "0 \<le> rc_initialDelayMs cfg" and "rc_initialDelayMs cfg \<le> rc_maxDelayMs cfg"
    and "0 \<le> rc_maxDurationMs cfg" and "0 \<le> rc_maxAttempts cfg"
    and "run = retry_execute cfg env shouldRetry lastStats start"
  shows "int (length (rr_attempts run)) \<le> rc_maxAttempts cfg
    \<and> rr_end run \<le> start + rc_maxDurationMs cfg + D + rc_maxDelayMs cfg
    \<and> (case rr_result run of
         Inr v \<Rightarrow> rr_attempts run \<noteq> [] \<and> ra_result (last (rr_attempts run)) = Some v
           \<and> (\<forall>a \<in> set (butlast (rr_attempts run)). \<not> ra_success a)
       | Inl e \<Rightarrow> (\<forall>a \<in> set (rr_attempts run). \<not> ra_success a))"
proof -
  have D: "0 \<le> D" using assms(1) by (meson order_trans)
  have "well_run cfg env D start 0 run"
  proof (cases "signal_aborted env start")
    case True
    with assms D show ?thesis by (simp add: retry_execute_def well_run_def abort_run_def)
  next
    case False
    with assms D retry_loop_well_run [of "[]" 0 env D cfg start start shouldRetry lastStats None]
    show ?thesis by (simp add: retry_execute_def)
  qed
  with assms(5) show ?thesis by (auto simp: well_run_def split: sum.splits)
qed

definition flaky_env :: "string retry_env" where
  "flaky_env = \<lparr>re_outcome = (\<lambda>k. if k = 1 then Inl (Thrown ''Error'' ''busy'') else Inr ''ok''), re_duration = (\<lambda>_. 5),
     re_random = (\<lambda>_. 1 / 2), re_abortedFrom = None\<rparr>"

definition default_retry :: retry_config where
  "default_retry = new_Retry \<lparr>ro_maxAttempts = None, ro_initialDelayMs = None, ro_maxDelayMs = None,
     ro_backoffMultiplier = None, ro_jitterFactor = None, ro_maxDurationMs = None, ro_retryableErrors = None\<rparr>"

theorem retry_execute_bounded_witness:
  "int (length (rr_attempts (retry_execute default_retry flaky_env None initial_stats 0))) \<le> 3
   \<and> rr_end (retry_execute default_retry flaky_env None initial_stats 0) \<le> 90005"
  using retry_execute_bounded [of flaky_env 5 default_retry _ None initial_stats 0]
  by (simp add: flaky_env_def default_retry_def new_Retry_def)

text \<open>
  The backoff stays between the initial and the maximal delay: with an initial delay not above the maximal
  one, every delay lies between the two for every attempt, multiplier, jitter factor and random number; with
  the initial delay above the maximal one every delay is the maximal one.
\<close>

theorem calculateDelay_bounds:
  "if rc_initialDelayMs cfg \<le> rc_maxDelayMs cfg
   then rc_initialDelayMs cfg \<le> calculateDelay cfg random attempt \<and> calculateDelay cfg random attempt \<le> rc_maxDelayMs cfg
   else calculateDelay cfg random attempt = rc_maxDelayMs cfg"
  by (simp add: calculateDelay_def Let_def)

lemma calculateDelay_ignores:
  "calculateDelay (cfg\<lparr>rc_maxDurationMs := m, rc_retryableErrors := es\<rparr>) r k = calculateDelay cfg r k"
  by (simp add: calculateDelay_def)

lemma retry_result_loop_ignores:
  "retry_result_loop (cfg\<lparr>rc_maxDurationMs := m, rc_retryableErrors := es\<rparr>) env p stats startTime attempt attempts now
     = retry_result_loop cfg env p stats startTime attempt attempts now"
proof (induction cfg env p stats startTime attempt attempts now rule: retry_result_loop.induct)
  case (1 cfg env p stats startTime attempt attempts now)
  show ?case
    by (rule trans [OF retry_result_loop.simps trans [OF _ retry_result_loop.simps [symmetric]]])
      (use "1.IH" [OF _ _ refl refl _ refl refl] in \<open>auto simp: calculateDelay_ignores Let_def split: sum.splits\<close>)
qed

text \<open>
  \<open>executeWithResult\<close> ignores two documented limits: neither the maximal total duration nor the list of
  retryable error names has any influence on what it does.
\<close>

theorem executeWithResult_ignores_limits:
  "executeWithResult (cfg\<lparr>rc_maxDurationMs := m, rc_retryableErrors := es\<rparr>) env shouldRetry lastStats now
     = executeWithResult cfg env shouldRetry lastStats now"
  by (simp add: executeWithResult_def retry_result_loop_ignores)

end
