(* ===== verification/Worker_Registry.thy ===== *)
theory Worker_Registry
  imports Prelude Complex_Main "HOL-Library.List_Lexorder" "HOL-Library.Char_ord"
begin

text \<open>
  The worker registry
  (\<^verbatim>\<open>src/src/platform/five-plane-execution/worker-pool/worker/worker-registry-service.ts\<close>) over the snapshot
  table (\<^verbatim>\<open>.../truth/sqlite/repositories/worker-snapshot-repository.ts\<close>), with the status projection of
  \<^verbatim>\<open>worker-scheduling-status.ts\<close> and the ownership helpers of \<^verbatim>\<open>lease/utils.ts\<close>.

  The columns \<^verbatim>\<open>capabilities_json\<close> and \<^verbatim>\<open>running_executions_json\<close> hold JSON arrays of strings that only the
  registry writes; the model keeps the lists. An optional property that may also be \<^verbatim>\<open>null\<close> is an
  option of an option: \<open>None\<close> when it is absent, \<open>Some None\<close> when it is null. Rates and telemetry are rationals, so the
  tests for non-finite numbers cannot fail. The fields that a remote worker has and a local one has not
  form a record of their own. The scaling signals go to an optional event bus; they are logged.
\<close>

section \<open>Worker types\<close>

datatype worker_status =
    WS_idle | WS_busy | WS_draining | WS_degraded | WS_unavailable | WS_quarantined | WS_offline

datatype worker_scheduling_status =
    WSS_healthy | WSS_degraded | WSS_draining | WSS_quarantined | WSS_offline | WSS_unavailable

datatype worker_placement = WP_local | WP_remote

datatype isolation_level = IL_standard | IL_hardened | IL_strict

datatype remote_session_status =
    RSS_connecting | RSS_connected | RSS_reconnecting | RSS_degraded | RSS_failed | RSS_viewer_only

datatype consistency_check_status = CCS_unknown | CCS_passed | CCS_mismatch

datatype workspace_sync_status = WSY_unknown | WSY_aligned | WSY_conflict

record worker_remote =
  wr_remoteSessionStatus :: "remote_session_status option"
  wr_lastAcknowledgedStreamOffset :: "string option"
  wr_streamResumeSuccessRate :: "rat option"
  wr_credentialRefreshSuccessRate :: "rat option"
  wr_sessionConsistencyCheckStatus :: "consistency_check_status option"
  wr_sessionConsistencyCheckedAt :: "timestamp option"
  wr_workspaceSyncStatus :: "workspace_sync_status option"
  wr_workspaceSyncCheckedAt :: "timestamp option"
  wr_repoCacheHitRate :: "rat option"
  wr_registrationVerifiedAt :: "timestamp option"
  wr_registrationChallengeId :: "ident option"

record worker_snapshot =
  sn_workerId :: ident
  sn_status :: worker_status
  sn_placement :: worker_placement
  sn_isolationLevel :: isolation_level
  sn_repoVersion :: "string option"
  sn_remote :: worker_remote
  sn_saturation :: "rat option"
  sn_activeLeaseCount :: int
  sn_meanStartupLatencyMs :: "int option"
  sn_sandboxSuccessRate :: "rat option"
  sn_capabilities :: "string list"
  sn_runningExecutions :: "ident list"
  sn_maxConcurrency :: int
  sn_queueAffinity :: "ident option"
  sn_runtimeInstanceId :: "ident option"
  sn_restartedFromRuntimeInstanceId :: "ident option"
  sn_restartGeneration :: int
  sn_cpuPct :: "rat option"
  sn_memoryMb :: "rat option"
  sn_toolBacklogCount :: int
  sn_currentStepId :: "ident option"
  sn_lastProgressAt :: "timestamp option"
  sn_lastHeartbeatAt :: timestamp
  sn_updatedAt :: timestamp
  sn_version :: int

record heartbeat_remote =
  hr_remoteSessionStatus :: "remote_session_status option option"
  hr_lastAcknowledgedStreamOffset :: "string option option"
  hr_streamResumeSuccessRate :: "rat option option"
  hr_credentialRefreshSuccessRate :: "rat option option"
  hr_sessionConsistencyCheckStatus :: "consistency_check_status option option"
  hr_sessionConsistencyCheckedAt :: "timestamp option option"
  hr_workspaceSyncStatus :: "workspace_sync_status option option"
  hr_workspaceSyncCheckedAt :: "timestamp option option"
  hr_repoCacheHitRate :: "rat option option"
  hr_registrationVerifiedAt :: "timestamp option option"
  hr_registrationChallengeId :: "ident option option"

record heartbeat_input =
  hb_workerId :: ident
  hb_status :: worker_status
  hb_placement :: "worker_placement option"
  hb_isolationLevel :: "isolation_level option"
  hb_repoVersion :: "string option option"
  hb_remote :: heartbeat_remote
  hb_saturation :: "rat option option"
  hb_activeLeaseCount :: "rat option"
  hb_meanStartupLatencyMs :: "rat option option"
  hb_sandboxSuccessRate :: "rat option option"
  hb_capabilities :: "string list"
  hb_runningExecutionIds :: "ident list"
  hb_maxConcurrency :: int
  hb_queueAffinity :: "ident option"
  hb_runtimeInstanceId :: "ident option option"
  hb_restartedFromRuntimeInstanceId :: "ident option option"
  hb_progressMessage :: "string option"
  hb_cpuPct :: "rat option"
  hb_memoryMb :: "rat option"
  hb_toolBacklogCount :: "rat option"
  hb_currentStepId :: "ident option option"
  hb_lastProgressAt :: "timestamp option"

text \<open>A view for dispatch decisions: the snapshot with its derived fields (the version is not shown).\<close>

record worker_view = worker_snapshot +
  wv_schedulingStatus :: worker_scheduling_status
  wv_trusted :: bool
  wv_availableSlots :: int

record selection_options =
  so_requiredCapabilities :: "string list option"
  so_requiredIsolationLevel :: "isolation_level option"
  so_queueAffinity :: "ident option"
  so_includeDegraded :: bool

datatype scale_signal = Scale_up ident int | Scale_down ident int

section \<open>Normalisation\<close>

text \<open>\<^verbatim>\<open>Array.from(new Set(values))\<close> followed by \<^verbatim>\<open>sort()\<close>: the sorted list without duplicates.\<close>

definition normalizeStringArray :: "string list \<Rightarrow> string list" where
  "normalizeStringArray values = sort (remdups (filter (\<lambda>v. v \<noteq> []) (map js_trim values)))"

definition normalizeRate :: "rat option \<Rightarrow> rat option" where
  "normalizeRate value = map_option (\<lambda>v. max 0 (min 1 v)) value"

definition js_trunc :: "rat \<Rightarrow> int" where
  "js_trunc x = (if x < 0 then \<lceil>x\<rceil> else \<lfloor>x\<rfloor>)"

definition normalizeNonNegativeInt :: "rat option \<Rightarrow> int \<Rightarrow> int" where
  "normalizeNonNegativeInt value fallback = (case value of None \<Rightarrow> fallback | Some v \<Rightarrow> max 0 (js_trunc v))"

definition normalizeNullableNonNegativeInt :: "rat option \<Rightarrow> int option" where
  "normalizeNullableNonNegativeInt value = map_option (\<lambda>v. max 0 (js_trunc v)) value"

definition toWorkerSchedulingStatus :: "worker_status \<Rightarrow> worker_scheduling_status" where
  "toWorkerSchedulingStatus status = (case status of
      WS_degraded \<Rightarrow> WSS_degraded
    | WS_draining \<Rightarrow> WSS_draining
    | WS_quarantined \<Rightarrow> WSS_quarantined
    | WS_offline \<Rightarrow> WSS_offline
    | WS_unavailable \<Rightarrow> WSS_unavailable
    | _ \<Rightarrow> WSS_healthy)"

definition ISOLATION_LEVEL_ORDER :: "isolation_level \<Rightarrow> nat" where
  "ISOLATION_LEVEL_ORDER l = (case l of IL_standard \<Rightarrow> 0 | IL_hardened \<Rightarrow> 1 | IL_strict \<Rightarrow> 2)"

definition resolveIsolationLevel :: "isolation_level option \<Rightarrow> isolation_level" where
  "resolveIsolationLevel value = (case value of Some IL_hardened \<Rightarrow> IL_hardened | Some IL_strict \<Rightarrow> IL_strict | _ \<Rightarrow> IL_standard)"

definition meetsIsolationRequirement :: "isolation_level \<Rightarrow> isolation_level \<Rightarrow> bool" where
  "meetsIsolationRequirement worker required \<longleftrightarrow> ISOLATION_LEVEL_ORDER worker \<ge> ISOLATION_LEVEL_ORDER required"

text \<open>\<^verbatim>\<open>x === undefined ? (existing?.x ?? null) : x\<close>.\<close>

definition keep :: "'a option option \<Rightarrow> 'a option \<Rightarrow> 'a option" where
  "keep given old = (case given of None \<Rightarrow> old | Some v \<Rightarrow> v)"

definition resolveRestartSemantics ::
    "worker_snapshot option \<Rightarrow> heartbeat_input \<Rightarrow> ident option \<times> ident option \<times> int" where
  "resolveRestartSemantics existing i =
     (let prior = Option.bind existing sn_runtimeInstanceId;
          runtimeInstanceId = keep (hb_runtimeInstanceId i) prior;
          changed = (existing \<noteq> None \<and> runtimeInstanceId \<noteq> None \<and> prior \<noteq> None \<and> runtimeInstanceId \<noteq> prior);
          generation = coalesce (map_option sn_restartGeneration existing) 0
      in if changed
         then (runtimeInstanceId, keep (hb_restartedFromRuntimeInstanceId i) prior, generation + 1)
         else (runtimeInstanceId,
               keep (hb_restartedFromRuntimeInstanceId i) (Option.bind existing sn_restartedFromRuntimeInstanceId),
               generation))"

section \<open>The snapshot table\<close>

text \<open>The table, ordered by worker identifier as \<^verbatim>\<open>listWorkerSnapshots()\<close> returns it.\<close>

type_synonym snapshot_table = "(ident \<times> worker_snapshot) list"

datatype registry_error = Version_conflict ident int

definition getWorkerSnapshot :: "snapshot_table \<Rightarrow> ident \<Rightarrow> worker_snapshot option" where
  "getWorkerSnapshot tab workerId = map_of tab workerId"

definition insert_row :: "ident \<Rightarrow> worker_snapshot \<Rightarrow> snapshot_table \<Rightarrow> snapshot_table" where
  "insert_row k v tab = sort_key fst ((k, v) # jsmap_delete k tab)"

definition upsertWorkerSnapshot :: "worker_snapshot \<Rightarrow> snapshot_table \<Rightarrow> registry_error + snapshot_table" where
  "upsertWorkerSnapshot s tab =
     (let expectedVersion = sn_version s;
          insertedVersion = (if expectedVersion > 0 then expectedVersion else 1)
      in case getWorkerSnapshot tab (sn_workerId s) of
           None \<Rightarrow> Inr (insert_row (sn_workerId s) (s\<lparr>sn_version := insertedVersion\<rparr>) tab)
         | Some old \<Rightarrow>
             if expectedVersion = 0 \<or> sn_version old = expectedVersion
             then Inr (insert_row (sn_workerId s) (s\<lparr>sn_version := sn_version old + 1\<rparr>) tab)
             else Inl (Version_conflict (sn_workerId s) expectedVersion))"

definition listWorkerSnapshots :: "snapshot_table \<Rightarrow> worker_snapshot list" where
  "listWorkerSnapshots tab = map snd tab"

text \<open>\<^verbatim>\<open>listStaleWorkerSnapshots\<close>: oldest heartbeat first.\<close>

definition listStaleWorkerSnapshots :: "timestamp \<Rightarrow> snapshot_table \<Rightarrow> worker_snapshot list" where
  "listStaleWorkerSnapshots heartbeatBefore tab =
     sort_key sn_lastHeartbeatAt (filter (\<lambda>s. sn_lastHeartbeatAt s < heartbeatBefore) (map snd tab))"

section \<open>Heartbeats\<close>

definition no_remote :: worker_remote where
  "no_remote = \<lparr>wr_remoteSessionStatus = None, wr_lastAcknowledgedStreamOffset = None, wr_streamResumeSuccessRate = None,
     wr_credentialRefreshSuccessRate = None, wr_sessionConsistencyCheckStatus = None, wr_sessionConsistencyCheckedAt = None,
     wr_workspaceSyncStatus = None, wr_workspaceSyncCheckedAt = None, wr_repoCacheHitRate = None,
     wr_registrationVerifiedAt = None, wr_registrationChallengeId = None\<rparr>"

definition merge_remote :: "worker_remote \<Rightarrow> heartbeat_remote \<Rightarrow> worker_remote" where
  "merge_remote old i =
     \<lparr>wr_remoteSessionStatus = keep (hr_remoteSessionStatus i) (wr_remoteSessionStatus old),
      wr_lastAcknowledgedStreamOffset = keep (hr_lastAcknowledgedStreamOffset i) (wr_lastAcknowledgedStreamOffset old),
      wr_streamResumeSuccessRate = normalizeRate (keep (hr_streamResumeSuccessRate i) (wr_streamResumeSuccessRate old)),
      wr_credentialRefreshSuccessRate =
        normalizeRate (keep (hr_credentialRefreshSuccessRate i) (wr_credentialRefreshSuccessRate old)),
      wr_sessionConsistencyCheckStatus = keep (hr_sessionConsistencyCheckStatus i) (wr_sessionConsistencyCheckStatus old),
      wr_sessionConsistencyCheckedAt = keep (hr_sessionConsistencyCheckedAt i) (wr_sessionConsistencyCheckedAt old),
      wr_workspaceSyncStatus = keep (hr_workspaceSyncStatus i) (wr_workspaceSyncStatus old),
      wr_workspaceSyncCheckedAt = keep (hr_workspaceSyncCheckedAt i) (wr_workspaceSyncCheckedAt old),
      wr_repoCacheHitRate = normalizeRate (keep (hr_repoCacheHitRate i) (wr_repoCacheHitRate old)),
      wr_registrationVerifiedAt = keep (hr_registrationVerifiedAt i) (wr_registrationVerifiedAt old),
      wr_registrationChallengeId = keep (hr_registrationChallengeId i) (wr_registrationChallengeId old)\<rparr>"

text \<open>The record that \<open>recordHeartbeat\<close> builds from the input and the existing snapshot.\<close>

definition heartbeat_record :: "timestamp \<Rightarrow> worker_snapshot option \<Rightarrow> heartbeat_input \<Rightarrow> worker_snapshot" where
  "heartbeat_record occurredAt existing i =
     (let (runtimeInstanceId, restartedFrom, generation) = resolveRestartSemantics existing i;
          placement = coalesce (hb_placement i) (coalesce (map_option sn_placement existing) WP_local)
      in \<lparr>sn_workerId = hb_workerId i, sn_status = hb_status i, sn_placement = placement,
          sn_isolationLevel = resolveIsolationLevel
            (Some (coalesce (hb_isolationLevel i) (coalesce (map_option sn_isolationLevel existing) IL_standard))),
          sn_repoVersion = keep (hb_repoVersion i) (Option.bind existing sn_repoVersion),
          sn_remote = (if placement = WP_remote
            then merge_remote (coalesce (map_option sn_remote existing) no_remote) (hb_remote i) else no_remote),
          sn_saturation = normalizeRate (keep (hb_saturation i) (Option.bind existing sn_saturation)),
          sn_activeLeaseCount = normalizeNonNegativeInt
            (Some (coalesce (hb_activeLeaseCount i) (of_int (coalesce (map_option sn_activeLeaseCount existing) 0)))) 0,
          sn_meanStartupLatencyMs = (case hb_meanStartupLatencyMs i of
              None \<Rightarrow> Option.bind existing sn_meanStartupLatencyMs
            | Some v \<Rightarrow> normalizeNullableNonNegativeInt v),
          sn_sandboxSuccessRate = normalizeRate (keep (hb_sandboxSuccessRate i) (Option.bind existing sn_sandboxSuccessRate)),
          sn_capabilities = normalizeStringArray (hb_capabilities i),
          sn_runningExecutions = normalizeStringArray (hb_runningExecutionIds i),
          sn_maxConcurrency = hb_maxConcurrency i, sn_queueAffinity = hb_queueAffinity i,
          sn_runtimeInstanceId = runtimeInstanceId, sn_restartedFromRuntimeInstanceId = restartedFrom,
          sn_restartGeneration = generation,
          sn_cpuPct = coalesce_opt (hb_cpuPct i) (Option.bind existing sn_cpuPct),
          sn_memoryMb = coalesce_opt (hb_memoryMb i) (Option.bind existing sn_memoryMb),
          sn_toolBacklogCount = max 0 (js_trunc
            (coalesce (hb_toolBacklogCount i) (of_int (coalesce (map_option sn_toolBacklogCount existing) 0)))),
          sn_currentStepId = keep (hb_currentStepId i) (Option.bind existing sn_currentStepId),
          sn_lastProgressAt = coalesce_opt (hb_lastProgressAt i)
            (if hb_progressMessage i \<noteq> None \<and> hb_progressMessage i \<noteq> Some [] then Some occurredAt
             else Option.bind existing sn_lastProgressAt),
          sn_lastHeartbeatAt = occurredAt, sn_updatedAt = occurredAt,
          sn_version = coalesce (map_option sn_version existing) 0\<rparr>)"

definition scale_signals :: "worker_snapshot \<Rightarrow> scale_signal list" where
  "scale_signals r =
     (let currentLoad = int (length (sn_runningExecutions r));
          saturation = coalesce (sn_saturation r) (of_int currentLoad / of_int (max (sn_maxConcurrency r) 1))
      in if saturation \<ge> 85 / 100 \<or> currentLoad \<ge> sn_maxConcurrency r - 1 then [Scale_up (sn_workerId r) currentLoad]
         else if saturation \<le> 3 / 10 \<and> currentLoad \<le> 1 \<and> max 0 (sn_activeLeaseCount r) \<le> 1
         then [Scale_down (sn_workerId r) currentLoad] else [])"

definition toView :: "worker_snapshot \<Rightarrow> worker_view" where
  "toView r =
     \<lparr>sn_workerId = sn_workerId r, sn_status = sn_status r, sn_placement = sn_placement r,
      sn_isolationLevel = resolveIsolationLevel (Some (sn_isolationLevel r)), sn_repoVersion = sn_repoVersion r,
      sn_remote = (sn_remote r)\<lparr>wr_streamResumeSuccessRate := normalizeRate (wr_streamResumeSuccessRate (sn_remote r)),
        wr_credentialRefreshSuccessRate := normalizeRate (wr_credentialRefreshSuccessRate (sn_remote r)),
        wr_repoCacheHitRate := normalizeRate (wr_repoCacheHitRate (sn_remote r))\<rparr>,
      sn_saturation = normalizeRate (sn_saturation r), sn_activeLeaseCount = max 0 (sn_activeLeaseCount r),
      sn_meanStartupLatencyMs = map_option (max 0) (sn_meanStartupLatencyMs r),
      sn_sandboxSuccessRate = normalizeRate (sn_sandboxSuccessRate r), sn_capabilities = sn_capabilities r,
      sn_runningExecutions = sn_runningExecutions r, sn_maxConcurrency = sn_maxConcurrency r,
      sn_queueAffinity = sn_queueAffinity r, sn_runtimeInstanceId = sn_runtimeInstanceId r,
      sn_restartedFromRuntimeInstanceId = sn_restartedFromRuntimeInstanceId r,
      sn_restartGeneration = sn_restartGeneration r, sn_cpuPct = sn_cpuPct r, sn_memoryMb = sn_memoryMb r,
      sn_toolBacklogCount = sn_toolBacklogCount r, sn_currentStepId = sn_currentStepId r,
      sn_lastProgressAt = sn_lastProgressAt r, sn_lastHeartbeatAt = sn_lastHeartbeatAt r,
      sn_updatedAt = sn_updatedAt r, sn_version = sn_version r,
      wv_schedulingStatus = toWorkerSchedulingStatus (sn_status r),
      wv_trusted = (sn_placement r \<noteq> WP_remote \<or> wr_registrationVerifiedAt (sn_remote r) \<noteq> None),
      wv_availableSlots = max (sn_maxConcurrency r - int (length (sn_runningExecutions r))) 0\<rparr>"

record registry_state =
  rg_workers :: snapshot_table
  rg_signals :: "scale_signal list"

definition recordHeartbeat ::
    "timestamp \<Rightarrow> heartbeat_input \<Rightarrow> (registry_state, registry_error, worker_view) prog" where
  "recordHeartbeat occurredAt i =
     bindP (getsP (\<lambda>g. heartbeat_record occurredAt (getWorkerSnapshot (rg_workers g) (hb_workerId i)) i)) (\<lambda>r.
     bindP (\<lambda>g. case upsertWorkerSnapshot r (rg_workers g) of
                  Inl e \<Rightarrow> (Inl e, g) | Inr tab \<Rightarrow> (Inr (), g\<lparr>rg_workers := tab\<rparr>)) (\<lambda>_.
     bindP (modifyP (\<lambda>g. g\<lparr>rg_signals := rg_signals g @ scale_signals r\<rparr>)) (\<lambda>_.
     returnP (toView r))))"

record registration_input =
  vr_workerId :: ident
  vr_capabilities :: "string list"
  vr_maxConcurrency :: int
  vr_queueAffinity :: "ident option option"
  vr_isolationLevel :: "isolation_level option"
  vr_repoVersion :: "string option option"
  vr_runtimeInstanceId :: "ident option option"
  vr_restartedFromRuntimeInstanceId :: "ident option option"
  vr_remoteSessionStatus :: "remote_session_status option option"
  vr_lastAcknowledgedStreamOffset :: "string option option"
  vr_sessionConsistencyCheckStatus :: "consistency_check_status option option"
  vr_sessionConsistencyCheckedAt :: "timestamp option option"
  vr_workspaceSyncStatus :: "workspace_sync_status option option"
  vr_workspaceSyncCheckedAt :: "timestamp option option"
  vr_registrationVerifiedAt :: "timestamp option"
  vr_registrationChallengeId :: ident

definition registration_heartbeat :: "timestamp \<Rightarrow> worker_snapshot option \<Rightarrow> registration_input \<Rightarrow> heartbeat_input" where
  "registration_heartbeat occurredAt existing i =
     (let rem = coalesce (map_option sn_remote existing) no_remote in
      \<lparr>hb_workerId = vr_workerId i, hb_status = coalesce (map_option sn_status existing) WS_idle,
       hb_placement = Some WP_remote,
       hb_isolationLevel = Some (coalesce (vr_isolationLevel i) (coalesce (map_option sn_isolationLevel existing) IL_standard)),
       hb_repoVersion = Some (keep (vr_repoVersion i) (Option.bind existing sn_repoVersion)),
       hb_remote = \<lparr>hr_remoteSessionStatus = Some (case vr_remoteSessionStatus i of
                      None \<Rightarrow> Some (coalesce (wr_remoteSessionStatus rem) RSS_connected) | Some v \<Rightarrow> v),
         hr_lastAcknowledgedStreamOffset = Some (keep (vr_lastAcknowledgedStreamOffset i) (wr_lastAcknowledgedStreamOffset rem)),
         hr_streamResumeSuccessRate = None, hr_credentialRefreshSuccessRate = None,
         hr_sessionConsistencyCheckStatus = Some (keep (vr_sessionConsistencyCheckStatus i) (wr_sessionConsistencyCheckStatus rem)),
         hr_sessionConsistencyCheckedAt = Some (keep (vr_sessionConsistencyCheckedAt i) (wr_sessionConsistencyCheckedAt rem)),
         hr_workspaceSyncStatus = Some (keep (vr_workspaceSyncStatus i) (wr_workspaceSyncStatus rem)),
         hr_workspaceSyncCheckedAt = Some (keep (vr_workspaceSyncCheckedAt i) (wr_workspaceSyncCheckedAt rem)),
         hr_repoCacheHitRate = None,
         hr_registrationVerifiedAt = Some (Some (coalesce (vr_registrationVerifiedAt i) occurredAt)),
         hr_registrationChallengeId = Some (Some (vr_registrationChallengeId i))\<rparr>,
       hb_saturation = None, hb_activeLeaseCount = None, hb_meanStartupLatencyMs = None, hb_sandboxSuccessRate = None,
       hb_capabilities = vr_capabilities i,
       hb_runningExecutionIds = coalesce (map_option sn_runningExecutions existing) [],
       hb_maxConcurrency = vr_maxConcurrency i,
       hb_queueAffinity = keep (vr_queueAffinity i) (Option.bind existing sn_queueAffinity),
       hb_runtimeInstanceId = Some (keep (vr_runtimeInstanceId i) (Option.bind existing sn_runtimeInstanceId)),
       hb_restartedFromRuntimeInstanceId =
         Some (keep (vr_restartedFromRuntimeInstanceId i) (Option.bind existing sn_restartedFromRuntimeInstanceId)),
       hb_progressMessage = None, hb_cpuPct = None, hb_memoryMb = None, hb_toolBacklogCount = None,
       hb_currentStepId = None, hb_lastProgressAt = None\<rparr>)"

definition verifyRemoteWorkerRegistration ::
    "timestamp \<Rightarrow> registration_input \<Rightarrow> (registry_state, registry_error, worker_view) prog" where
  "verifyRemoteWorkerRegistration occurredAt i =
     bindP (getsP (\<lambda>g. getWorkerSnapshot (rg_workers g) (vr_workerId i))) (\<lambda>existing.
       recordHeartbeat occurredAt (registration_heartbeat occurredAt existing i))"

section \<open>Queries\<close>

definition getWorker :: "registry_state \<Rightarrow> ident \<Rightarrow> worker_view option" where
  "getWorker g workerId =
     (case getWorkerSnapshot (rg_workers g) workerId of
        Some r \<Rightarrow> Some (toView r)
      | None \<Rightarrow> map_option toView (find (\<lambda>s. sn_workerId s = workerId) (listWorkerSnapshots (rg_workers g))))"

definition listWorkers :: "registry_state \<Rightarrow> worker_view list" where
  "listWorkers g = map toView (listWorkerSnapshots (rg_workers g))"

definition eligible_worker :: "selection_options \<Rightarrow> worker_view \<Rightarrow> bool" where
  "eligible_worker opts w \<longleftrightarrow>
     (let requiredCapabilities = normalizeStringArray (coalesce (so_requiredCapabilities opts) []);
          requiredIsolationLevel = resolveIsolationLevel (Some (coalesce (so_requiredIsolationLevel opts) IL_standard));
          affinity = so_queueAffinity opts
      in
      if sn_status w = WS_unavailable \<or> sn_status w = WS_quarantined \<or> sn_status w = WS_offline then False
      else if sn_status w = WS_draining then False
      else if sn_placement w = WP_remote \<and> \<not> wv_trusted w then False
      else if \<not> so_includeDegraded opts \<and> sn_status w = WS_degraded then False
      else if wv_availableSlots w \<le> 0 then False
      else if affinity \<noteq> None \<and> affinity \<noteq> Some [] \<and> sn_queueAffinity w \<noteq> None \<and> sn_queueAffinity w \<noteq> Some []
              \<and> sn_queueAffinity w \<noteq> affinity then False
      else if \<not> meetsIsolationRequirement (sn_isolationLevel w) requiredIsolationLevel then False
      else list_all (\<lambda>c. c \<in> set (sn_capabilities w)) requiredCapabilities)"

definition listEligibleWorkers :: "selection_options \<Rightarrow> registry_state \<Rightarrow> worker_view list" where
  "listEligibleWorkers opts g = filter (eligible_worker opts) (listWorkers g)"

definition listStaleWorkers :: "timestamp \<Rightarrow> int \<Rightarrow> registry_state \<Rightarrow> worker_view list" where
  "listStaleWorkers now heartbeatTtlMs g = map toView (listStaleWorkerSnapshots (now - heartbeatTtlMs) (rg_workers g))"

section \<open>Ownership helpers\<close>

definition mergeExecutionIds :: "ident list \<Rightarrow> ident \<Rightarrow> ident list" where
  "mergeExecutionIds existing executionId = sort (remdups (existing @ [executionId]))"

definition removeExecutionId :: "ident list \<Rightarrow> ident \<Rightarrow> ident list" where
  "removeExecutionId existing executionId = sort (filter (\<lambda>v. v \<noteq> executionId) existing)"

definition toWorkerStatus :: "worker_snapshot \<Rightarrow> ident list \<Rightarrow> worker_status" where
  "toWorkerStatus snapshot runningExecutionIds =
     (if sn_status snapshot = WS_unavailable then WS_unavailable
      else if sn_status snapshot = WS_quarantined then WS_quarantined
      else if sn_status snapshot = WS_offline then WS_offline
      else if sn_status snapshot = WS_draining then WS_draining
      else if sn_status snapshot = WS_degraded then WS_degraded
      else if runningExecutionIds \<noteq> [] then WS_busy else WS_idle)"

definition buildWorkerSnapshotRefreshInput :: "worker_snapshot \<Rightarrow> ident list \<Rightarrow> heartbeat_input" where
  "buildWorkerSnapshotRefreshInput snapshot runningExecutionIds =
     (let rem = sn_remote snapshot in
      \<lparr>hb_workerId = sn_workerId snapshot, hb_status = toWorkerStatus snapshot runningExecutionIds,
       hb_placement = Some (sn_placement snapshot), hb_isolationLevel = Some (sn_isolationLevel snapshot),
       hb_repoVersion = Some (sn_repoVersion snapshot),
       hb_remote = \<lparr>hr_remoteSessionStatus = Some (wr_remoteSessionStatus rem),
         hr_lastAcknowledgedStreamOffset = Some (wr_lastAcknowledgedStreamOffset rem),
         hr_streamResumeSuccessRate = Some (wr_streamResumeSuccessRate rem),
         hr_credentialRefreshSuccessRate = Some (wr_credentialRefreshSuccessRate rem),
         hr_sessionConsistencyCheckStatus = Some (wr_sessionConsistencyCheckStatus rem),
         hr_sessionConsistencyCheckedAt = Some (wr_sessionConsistencyCheckedAt rem),
         hr_workspaceSyncStatus = None, hr_workspaceSyncCheckedAt = None,
         hr_repoCacheHitRate = Some (wr_repoCacheHitRate rem),
         hr_registrationVerifiedAt = None, hr_registrationChallengeId = None\<rparr>,
       hb_saturation = Some (sn_saturation snapshot), hb_activeLeaseCount = Some (of_int (sn_activeLeaseCount snapshot)),
       hb_meanStartupLatencyMs = Some (map_option of_int (sn_meanStartupLatencyMs snapshot)),
       hb_sandboxSuccessRate = Some (sn_sandboxSuccessRate snapshot),
       hb_capabilities = sn_capabilities snapshot, hb_runningExecutionIds = runningExecutionIds,
       hb_maxConcurrency = sn_maxConcurrency snapshot, hb_queueAffinity = sn_queueAffinity snapshot,
       hb_runtimeInstanceId = Some (sn_runtimeInstanceId snapshot),
       hb_restartedFromRuntimeInstanceId = Some (sn_restartedFromRuntimeInstanceId snapshot),
       hb_progressMessage = None, hb_cpuPct = sn_cpuPct snapshot, hb_memoryMb = sn_memoryMb snapshot,
       hb_toolBacklogCount = Some (of_int (sn_toolBacklogCount snapshot)),
       hb_currentStepId = Some (sn_currentStepId snapshot), hb_lastProgressAt = sn_lastProgressAt snapshot\<rparr>)"

section \<open>Well-formed registries\<close>

definition rate_ok :: "rat option \<Rightarrow> bool" where
  "rate_ok r = (case r of None \<Rightarrow> True | Some v \<Rightarrow> 0 \<le> v \<and> v \<le> 1)"

definition names_ok :: "string list \<Rightarrow> bool" where
  "names_ok xs \<longleftrightarrow> sorted xs \<and> distinct xs \<and> (\<forall>x \<in> set xs. x \<noteq> [] \<and> js_trim x = x)"

definition snapshot_ok :: "worker_snapshot \<Rightarrow> bool" where
  "snapshot_ok s \<longleftrightarrow>
     names_ok (sn_capabilities s) \<and> names_ok (sn_runningExecutions s)
     \<and> rate_ok (sn_saturation s) \<and> rate_ok (sn_sandboxSuccessRate s)
     \<and> rate_ok (wr_streamResumeSuccessRate (sn_remote s)) \<and> rate_ok (wr_credentialRefreshSuccessRate (sn_remote s))
     \<and> rate_ok (wr_repoCacheHitRate (sn_remote s))
     \<and> 0 \<le> sn_activeLeaseCount s \<and> 0 \<le> sn_toolBacklogCount s
     \<and> (\<forall>l. sn_meanStartupLatencyMs s = Some l \<longrightarrow> 0 \<le> l)
     \<and> (sn_placement s = WP_local \<longrightarrow> sn_remote s = no_remote)"

definition registry_ok :: "registry_state \<Rightarrow> bool" where
  "registry_ok g \<longleftrightarrow> sorted (map fst (rg_workers g)) \<and> distinct (map fst (rg_workers g))
     \<and> (\<forall>(k, s) \<in> set (rg_workers g). sn_workerId s = k \<and> snapshot_ok s \<and> 1 \<le> sn_version s)"

lemma dropWhile_js_white [simp]: "dropWhile js_white (dropWhile js_white xs) = dropWhile js_white xs"
  by (induction xs) auto

lemma js_trim_idem [simp]: "js_trim (js_trim x) = js_trim x"
proof -
  let ?a = "dropWhile js_white x"
  let ?b = "rev (dropWhile js_white (rev ?a))"
  obtain w where w: "?a = ?b @ w" by (metis rev_append rev_rev_ident takeWhile_dropWhile_id)
  have "dropWhile js_white ?b = ?b"
  proof (cases ?b)
    case (Cons c cs)
    then have "?a \<noteq> [] \<and> hd ?a = c" using w by (metis append_Cons list.distinct(1) list.sel(1))
    then have "\<not> js_white c" using hd_dropWhile by metis
    then show ?thesis unfolding Cons by simp
  next
    case Nil
    show ?thesis unfolding Nil by simp
  qed
  then show ?thesis by (simp add: js_trim_def)
qed

lemma names_ok_normalize [simp]: "names_ok (normalizeStringArray xs)"
  by (auto simp: names_ok_def normalizeStringArray_def)

lemma normalize_names_ok: "names_ok xs \<Longrightarrow> normalizeStringArray xs = xs"
proof -
  assume ok: "names_ok xs"
  then have "map js_trim xs = xs" by (auto simp: names_ok_def intro: map_idI)
  with ok show ?thesis by (simp add: names_ok_def normalizeStringArray_def filter_id_conv distinct_remdups_id sorted_sort_id)
qed

lemma rate_ok_normalize [simp]: "rate_ok (normalizeRate r)"
  by (cases r) (simp_all add: rate_ok_def normalizeRate_def)

lemma normalize_rate_ok: "rate_ok r \<Longrightarrow> normalizeRate r = r"
  by (cases r) (simp_all add: rate_ok_def normalizeRate_def)

lemma heartbeat_record_fields:
  "sn_workerId (heartbeat_record t ex i) = hb_workerId i"
  "sn_version (heartbeat_record t ex i) = coalesce (map_option sn_version ex) 0"
  "sn_lastHeartbeatAt (heartbeat_record t ex i) = t"
  "sn_restartGeneration (heartbeat_record t ex i) = snd (snd (resolveRestartSemantics ex i))"
  by (simp_all add: heartbeat_record_def Let_def split: prod.split)

lemma heartbeat_record_ok:
  assumes "\<forall>s. ex = Some s \<longrightarrow> snapshot_ok s"
  shows "snapshot_ok (heartbeat_record t ex i)"
proof -
  have "rate_ok None" by (simp add: rate_ok_def)
  moreover have "0 \<le> l" if "Option.bind ex sn_meanStartupLatencyMs = Some l" for l
    using that assms by (cases ex) (auto simp: snapshot_ok_def)
  ultimately show ?thesis
    by (auto simp: snapshot_ok_def heartbeat_record_def Let_def merge_remote_def no_remote_def
        normalizeNonNegativeInt_def normalizeNullableNonNegativeInt_def split: prod.split option.splits)
qed

lemma snapshot_ok_version [simp]: "snapshot_ok (s\<lparr>sn_version := v\<rparr>) \<longleftrightarrow> snapshot_ok s"
  by (simp add: snapshot_ok_def)

lemma insert_row_keys:
  assumes "distinct (map fst tab)"
  shows "distinct (map fst (insert_row k v tab))" and "sorted (map fst (insert_row k v tab))"
    and "set (insert_row k v tab) = insert (k, v) {p \<in> set tab. fst p \<noteq> k}"
proof -
  have "distinct (map fst ((k, v) # jsmap_delete k tab))"
    using distinct_jsmap_delete [OF assms, of k] by (auto simp: jsmap_delete_def)
  moreover have "mset (map fst (insert_row k v tab)) = mset (map fst ((k, v) # jsmap_delete k tab))"
    by (simp add: insert_row_def)
  ultimately show "distinct (map fst (insert_row k v tab))" by (metis mset_eq_imp_distinct_iff)
  show "sorted (map fst (insert_row k v tab))" unfolding insert_row_def by (rule sorted_sort_key)
  show "set (insert_row k v tab) = insert (k, v) {p \<in> set tab. fst p \<noteq> k}"
    unfolding insert_row_def set_sort by (auto simp: jsmap_delete_def)
qed

lemma map_of_insert_row:
  assumes "distinct (map fst tab)"
  shows "map_of (insert_row k v tab) = (map_of tab)(k \<mapsto> v)"
proof -
  have "distinct (map fst ((k, v) # jsmap_delete k tab))"
    using distinct_jsmap_delete [OF assms, of k] by (auto simp: jsmap_delete_def)
  then have "map_of (insert_row k v tab) = map_of ((k, v) # jsmap_delete k tab)"
    using insert_row_keys [OF assms, of k v] by (subst map_of_inject_set) (auto simp: jsmap_delete_def)
  also have "\<dots> = (map_of tab)(k \<mapsto> v)" by simp
  finally show ?thesis .
qed

section \<open>Properties\<close>

lemma registry_lookup:
  "registry_ok g \<Longrightarrow> getWorkerSnapshot (rg_workers g) k = Some s \<Longrightarrow> sn_workerId s = k \<and> snapshot_ok s \<and> 1 \<le> sn_version s"
  by (auto simp: registry_ok_def getWorkerSnapshot_def dest: map_of_SomeD)

lemma recordHeartbeat_result:
  fixes i :: heartbeat_input and t :: timestamp
  assumes ok: "registry_ok g"
  defines "ex \<equiv> getWorkerSnapshot (rg_workers g) (hb_workerId i)"
  defines "r \<equiv> heartbeat_record t ex i"
  shows "recordHeartbeat t i g =
    (Inr (toView r), g\<lparr>rg_workers := insert_row (hb_workerId i) (r\<lparr>sn_version := sn_version r + 1\<rparr>) (rg_workers g),
       rg_signals := rg_signals g @ scale_signals r\<rparr>)"
proof (cases ex)
  case None
  then have "upsertWorkerSnapshot r (rg_workers g)
      = Inr (insert_row (hb_workerId i) (r\<lparr>sn_version := sn_version r + 1\<rparr>) (rg_workers g))"
    by (simp add: upsertWorkerSnapshot_def Let_def r_def heartbeat_record_fields ex_def)
  then show ?thesis by (simp add: recordHeartbeat_def prog_simps r_def ex_def)
next
  case (Some s)
  then have "upsertWorkerSnapshot r (rg_workers g)
      = Inr (insert_row (hb_workerId i) (r\<lparr>sn_version := sn_version r + 1\<rparr>) (rg_workers g))"
    by (simp add: upsertWorkerSnapshot_def Let_def r_def heartbeat_record_fields ex_def)
  then show ?thesis by (simp add: recordHeartbeat_def prog_simps r_def ex_def)
qed

lemma registry_ok_insert:
  assumes "registry_ok g" and "snapshot_ok s" and "1 \<le> sn_version s"
  shows "registry_ok (g\<lparr>rg_workers := insert_row (sn_workerId s) s (rg_workers g), rg_signals := sig\<rparr>)"
proof -
  have d: "distinct (map fst (rg_workers g))" using assms(1) by (simp add: registry_ok_def)
  show ?thesis
    using assms insert_row_keys [OF d, of "sn_workerId s" s] by (auto simp: registry_ok_def)
qed

lemma heartbeat_ok:
  fixes i :: heartbeat_input and t :: timestamp
  assumes ok: "registry_ok g"
  defines "r \<equiv> heartbeat_record t (getWorkerSnapshot (rg_workers g) (hb_workerId i)) i"
  shows "\<exists>g'. recordHeartbeat t i g = (Inr (toView r), g') \<and> registry_ok g'
    \<and> getWorkerSnapshot (rg_workers g') = (getWorkerSnapshot (rg_workers g))(hb_workerId i \<mapsto> r\<lparr>sn_version := sn_version r + 1\<rparr>)"
proof -
  let ?ex = "getWorkerSnapshot (rg_workers g) (hb_workerId i)"
  let ?s = "r\<lparr>sn_version := sn_version r + 1\<rparr>"
  let ?g = "g\<lparr>rg_workers := insert_row (hb_workerId i) ?s (rg_workers g), rg_signals := rg_signals g @ scale_signals r\<rparr>"
  have d: "distinct (map fst (rg_workers g))" using ok by (simp add: registry_ok_def)
  have exok: "\<forall>s. ?ex = Some s \<longrightarrow> snapshot_ok s \<and> 1 \<le> sn_version s" using registry_lookup [OF ok] by blast
  have "snapshot_ok ?s" unfolding snapshot_ok_version r_def using heartbeat_record_ok exok by blast
  moreover have "1 \<le> sn_version ?s" using exok by (cases ?ex) (auto simp: heartbeat_record_fields r_def)
  ultimately have "registry_ok ?g"
    using registry_ok_insert [OF ok, of ?s] by (simp add: heartbeat_record_fields r_def)
  moreover have "getWorkerSnapshot (rg_workers ?g) = (getWorkerSnapshot (rg_workers g))(hb_workerId i \<mapsto> ?s)"
    by (simp add: getWorkerSnapshot_def map_of_insert_row [OF d] fun_eq_iff)
  ultimately show ?thesis using recordHeartbeat_result [OF ok, of t i] unfolding r_def by blast
qed

text \<open>
  C30. Heartbeats keep the registry well-formed and never fail: on a registry whose rows are sorted by
  worker, unique and normalised, recording any heartbeat succeeds, keeps all of this, leaves every other
  worker as it was, advances the version of the worker by one and never lowers its restart generation, which
  grows by one exactly when the worker reports a runtime instance different from the one on record.
\<close>

theorem heartbeat_keeps_registry:
  assumes "registry_ok g"
  shows "\<exists>g'. recordHeartbeat t i g = (Inr (toView (heartbeat_record t (getWorkerSnapshot (rg_workers g) (hb_workerId i)) i)), g')
    \<and> registry_ok g'
    \<and> (\<forall>k. k \<noteq> hb_workerId i \<longrightarrow> getWorkerSnapshot (rg_workers g') k = getWorkerSnapshot (rg_workers g) k)
    \<and> (\<exists>s'. getWorkerSnapshot (rg_workers g') (hb_workerId i) = Some s' \<and> sn_lastHeartbeatAt s' = t
        \<and> (case getWorkerSnapshot (rg_workers g) (hb_workerId i) of
             None \<Rightarrow> sn_version s' = 1 \<and> sn_restartGeneration s' = 0
           | Some s \<Rightarrow> sn_version s' = sn_version s + 1
               \<and> sn_restartGeneration s' = sn_restartGeneration s
                   + (if \<exists>new old. hb_runtimeInstanceId i = Some (Some new) \<and> sn_runtimeInstanceId s = Some old \<and> new \<noteq> old
                      then 1 else 0)))"
proof -
  let ?ex = "getWorkerSnapshot (rg_workers g) (hb_workerId i)"
  let ?r = "heartbeat_record t ?ex i"
  let ?s = "?r\<lparr>sn_version := sn_version ?r + 1\<rparr>"
  obtain g' where g': "recordHeartbeat t i g = (Inr (toView ?r), g')" "registry_ok g'"
    and look: "getWorkerSnapshot (rg_workers g') = (getWorkerSnapshot (rg_workers g))(hb_workerId i \<mapsto> ?s)"
    using heartbeat_ok [OF assms, of t i] by blast
  have gen: "case ?ex of
      None \<Rightarrow> sn_version ?s = 1 \<and> sn_restartGeneration ?s = 0
    | Some s \<Rightarrow> sn_version ?s = sn_version s + 1
        \<and> sn_restartGeneration ?s = sn_restartGeneration s
            + (if \<exists>new old. hb_runtimeInstanceId i = Some (Some new) \<and> sn_runtimeInstanceId s = Some old \<and> new \<noteq> old
               then 1 else 0)"
    by (auto simp: heartbeat_record_fields resolveRestartSemantics_def Let_def keep_def split: option.split)
  have self: "getWorkerSnapshot (rg_workers g') (hb_workerId i) = Some ?s \<and> sn_lastHeartbeatAt ?s = t"
    by (simp only: look fun_upd_same) (simp add: heartbeat_record_fields)
  have other: "\<forall>k. k \<noteq> hb_workerId i \<longrightarrow> getWorkerSnapshot (rg_workers g') k = getWorkerSnapshot (rg_workers g) k"
    by (simp only: look fun_upd_other) simp
  show ?thesis using g' other self gen by blast
qed

text \<open>
  Refreshing the ownership of a worker touches nothing else: replaying a well-formed snapshot through
  \<open>buildWorkerSnapshotRefreshInput\<close> with a new list of executions changes the status (only between idle and
  busy), the normalised list of executions and the two timestamps.
\<close>

theorem refresh_changes_only_ownership:
  assumes "snapshot_ok s"
  shows "heartbeat_record t (Some s) (buildWorkerSnapshotRefreshInput s ids)
    = s\<lparr>sn_status := (if sn_status s \<in> {WS_idle, WS_busy} then if ids = [] then WS_idle else WS_busy else sn_status s),
        sn_runningExecutions := normalizeStringArray ids, sn_lastHeartbeatAt := t, sn_updatedAt := t\<rparr>"
proof -
  have status: "toWorkerStatus s ids = (if sn_status s \<in> {WS_idle, WS_busy} then if ids = [] then WS_idle else WS_busy else sn_status s)"
    by (cases "sn_status s") (simp_all add: toWorkerStatus_def)
  have isolation: "resolveIsolationLevel (Some l) = l" for l by (cases l) (simp_all add: resolveIsolationLevel_def)
  have trunc: "js_trunc (of_int n) = n" for n by (simp add: js_trunc_def)
  have remote: "sn_placement s \<noteq> WP_remote \<longrightarrow> no_remote = sn_remote s"
    using assms by (cases "sn_placement s") (simp_all add: snapshot_ok_def)
  have merged: "merge_remote (sn_remote s) (hb_remote (buildWorkerSnapshotRefreshInput s ids)) = sn_remote s"
    using assms by (simp add: merge_remote_def buildWorkerSnapshotRefreshInput_def Let_def keep_def snapshot_ok_def normalize_rate_ok)
  have latency: "normalizeNullableNonNegativeInt (map_option of_int (sn_meanStartupLatencyMs s)) = sn_meanStartupLatencyMs s"
    using assms by (cases "sn_meanStartupLatencyMs s") (simp_all add: normalizeNullableNonNegativeInt_def trunc snapshot_ok_def)
  have restart: "resolveRestartSemantics (Some s) (buildWorkerSnapshotRefreshInput s ids)
      = (sn_runtimeInstanceId s, sn_restartedFromRuntimeInstanceId s, sn_restartGeneration s)"
    by (simp add: resolveRestartSemantics_def buildWorkerSnapshotRefreshInput_def Let_def keep_def)
  have same: "coalesce_opt x x = x" for x :: "'b option" by (cases x) simp_all
  let ?i = "buildWorkerSnapshotRefreshInput s ids"
  have input: "hb_workerId ?i = sn_workerId s" "hb_status ?i = toWorkerStatus s ids" "hb_placement ?i = Some (sn_placement s)"
    "hb_isolationLevel ?i = Some (sn_isolationLevel s)" "hb_repoVersion ?i = Some (sn_repoVersion s)"
    "hb_saturation ?i = Some (sn_saturation s)" "hb_activeLeaseCount ?i = Some (of_int (sn_activeLeaseCount s))"
    "hb_meanStartupLatencyMs ?i = Some (map_option of_int (sn_meanStartupLatencyMs s))"
    "hb_sandboxSuccessRate ?i = Some (sn_sandboxSuccessRate s)" "hb_capabilities ?i = sn_capabilities s"
    "hb_runningExecutionIds ?i = ids" "hb_maxConcurrency ?i = sn_maxConcurrency s" "hb_queueAffinity ?i = sn_queueAffinity s"
    "hb_progressMessage ?i = None" "hb_cpuPct ?i = sn_cpuPct s" "hb_memoryMb ?i = sn_memoryMb s"
    "hb_toolBacklogCount ?i = Some (of_int (sn_toolBacklogCount s))" "hb_currentStepId ?i = Some (sn_currentStepId s)"
    "hb_lastProgressAt ?i = sn_lastProgressAt s"
    by (simp_all add: buildWorkerSnapshotRefreshInput_def Let_def)
  have kept: "normalizeRate (sn_saturation s) = sn_saturation s" "normalizeRate (sn_sandboxSuccessRate s) = sn_sandboxSuccessRate s"
    "normalizeStringArray (sn_capabilities s) = sn_capabilities s" "max 0 (sn_activeLeaseCount s) = sn_activeLeaseCount s"
    "max 0 (sn_toolBacklogCount s) = sn_toolBacklogCount s"
    using assms by (simp_all add: snapshot_ok_def normalize_rate_ok normalize_names_ok)
  show ?thesis
    unfolding status [symmetric]
    by (rule worker_snapshot.equality)
      (simp_all add: heartbeat_record_def restart Let_def input keep_def isolation trunc remote merged latency kept same
        normalizeNonNegativeInt_def)
qed

definition idle_worker :: worker_snapshot where
  "idle_worker = \<lparr>sn_workerId = ''w1'', sn_status = WS_idle, sn_placement = WP_local, sn_isolationLevel = IL_standard,
     sn_repoVersion = None, sn_remote = no_remote, sn_saturation = None, sn_activeLeaseCount = 0, sn_meanStartupLatencyMs = None,
     sn_sandboxSuccessRate = None, sn_capabilities = [], sn_runningExecutions = [], sn_maxConcurrency = 2,
     sn_queueAffinity = None, sn_runtimeInstanceId = None, sn_restartedFromRuntimeInstanceId = None, sn_restartGeneration = 0,
     sn_cpuPct = None, sn_memoryMb = None, sn_toolBacklogCount = 0, sn_currentStepId = None, sn_lastProgressAt = None,
     sn_lastHeartbeatAt = 0, sn_updatedAt = 0, sn_version = 1\<rparr>"

lemma idle_worker_ok: "snapshot_ok idle_worker"
  by (simp add: snapshot_ok_def idle_worker_def names_ok_def rate_ok_def no_remote_def)

theorem refresh_changes_only_ownership_witness:
  "sn_status (heartbeat_record 5 (Some idle_worker) (buildWorkerSnapshotRefreshInput idle_worker [''e1''])) = WS_busy"
  using refresh_changes_only_ownership [OF idle_worker_ok, of 5 "[''e1'']"] by (simp add: idle_worker_def)

definition one_worker :: registry_state where
  "one_worker = \<lparr>rg_workers = [(''w1'', idle_worker)], rg_signals = []\<rparr>"

theorem heartbeat_keeps_registry_witness:
  "\<exists>g'. registry_ok g' \<and> getWorkerSnapshot (rg_workers g') ''w1'' \<noteq> None
     \<and> snd (recordHeartbeat 5 (buildWorkerSnapshotRefreshInput idle_worker [''e1'']) one_worker) = g'"
proof -
  have "registry_ok one_worker"
    using idle_worker_ok by (simp add: registry_ok_def one_worker_def) (simp add: idle_worker_def)
  from heartbeat_keeps_registry [OF this, of 5 "buildWorkerSnapshotRefreshInput idle_worker [''e1'']"] show ?thesis
    by (auto simp: buildWorkerSnapshotRefreshInput_def Let_def idle_worker_def)
qed

end
