(* ===== verification/Json_Text.thy ===== *)
theory Json_Text
  imports Prelude "HOL-Library.AList"
begin

text \<open>
  The part of JavaScript's \<^verbatim>\<open>JSON\<close> and \<^verbatim>\<open>Object\<close> that the services use to keep their state as text:
  \<^verbatim>\<open>JSON.stringify(value, null, 2)\<close>, \<^verbatim>\<open>JSON.parse\<close>, \<^verbatim>\<open>Object.entries\<close> and \<^verbatim>\<open>Object.fromEntries\<close>.
  The text is a list of characters; printing writes the line breaks, the indentation and the escapes of the
  standard, and parsing is a recursive descent over the characters. The result \<open>None\<close> of the parser is the
  \<^verbatim>\<open>SyntaxError\<close>.

  Characters are the 256 of \<open>char\<close>, and numbers are integers: a text with a fraction, an exponent or a
  character beyond them is outside the model (the services write none), and the parser gives \<open>None\<close> for it.

  The main lemma, \<open>JSON_roundtrip\<close>, says that the parser reads back every printed value whose objects have
  no repeated key. The parser's fuel is one more than twice the length of the text; at most two recursive
  calls happen without consuming a character, and \<open>JSON_parse_any_fuel\<close> shows that more fuel never changes
  the result.
\<close>

section \<open>Values\<close>

datatype json_value = JNull | JBool bool | JNum int | JStr string | JArr "json_value list" | JObj "(string \<times> json_value) list"

section \<open>Numbers as text\<close>

definition digit_char :: "nat \<Rightarrow> char" where
  "digit_char n = char_of (48 + n)"

definition is_digit :: "char \<Rightarrow> bool" where
  "is_digit c \<longleftrightarrow> 48 \<le> (of_char c :: nat) \<and> (of_char c :: nat) \<le> 57"

definition digit_value :: "char \<Rightarrow> nat" where
  "digit_value c = of_char c - 48"

fun nat_text :: "nat \<Rightarrow> string" where
  "nat_text n = (if n < 10 then [digit_char n] else nat_text (n div 10) @ [digit_char (n mod 10)])"

declare nat_text.simps [simp del]

definition int_text :: "int \<Rightarrow> string" where
  "int_text i = (if i < 0 then CHR ''-'' # nat_text (nat (- i)) else nat_text (nat i))"

definition read_digits :: "string \<Rightarrow> nat" where
  "read_digits ds = foldl (\<lambda>n c. 10 * n + digit_value c) 0 ds"

definition parse_number :: "string \<Rightarrow> (int \<times> string) option" where
  "parse_number s =
     (let neg = (s \<noteq> [] \<and> hd s = CHR ''-'');
          r = (if neg then tl s else s);
          ds = takeWhile is_digit r;
          rest = dropWhile is_digit r
      in if ds = [] \<or> hd ds = CHR ''0'' \<and> length ds > 1 then None
         else if rest \<noteq> [] \<and> hd rest \<in> set ''.eE'' then None
         else Some (if neg then - int (read_digits ds) else int (read_digits ds), rest))"

section \<open>Strings as text\<close>

definition lower_hex :: "nat \<Rightarrow> char" where
  "lower_hex n = ''0123456789abcdef'' ! n"

definition hex_value :: "char \<Rightarrow> nat option" where
  "hex_value c =
     (let n = of_char c in
      if 48 \<le> n \<and> n \<le> 57 then Some (n - 48)
      else if 97 \<le> n \<and> n \<le> 102 then Some (n - 87)
      else if 65 \<le> n \<and> n \<le> 70 then Some (n - 55)
      else None)"

definition escape_char :: "char \<Rightarrow> string" where
  "escape_char c =
     (let n = of_char c :: nat in
      if n = 8 then [CHR 0x5C, CHR ''b'']
      else if n = 9 then [CHR 0x5C, CHR ''t'']
      else if n = 10 then [CHR 0x5C, CHR ''n'']
      else if n = 12 then [CHR 0x5C, CHR ''f'']
      else if n = 13 then [CHR 0x5C, CHR ''r'']
      else if n = 34 \<or> n = 92 then [CHR 0x5C, c]
      else if n < 32 then [CHR 0x5C, CHR ''u'', CHR ''0'', CHR ''0'', lower_hex (n div 16), lower_hex (n mod 16)]
      else [c])"

definition quote_text :: "string \<Rightarrow> string" where
  "quote_text s = CHR 0x22 # concat (map escape_char s) @ [CHR 0x22]"

definition simple_escape :: "char \<Rightarrow> char option" where
  "simple_escape e =
     map_of [(CHR 0x22, CHR 0x22), (CHR 0x5C, CHR 0x5C), (CHR ''/'', CHR ''/''), (CHR ''b'', CHR 0x08),
             (CHR ''f'', CHR 0x0C), (CHR ''n'', CHR 0x0A), (CHR ''r'', CHR 0x0D), (CHR ''t'', CHR 0x09)] e"

definition unicode_escape :: "string \<Rightarrow> char option" where
  "unicode_escape hs = (case map hex_value hs of
      [Some a, Some b, Some c, Some d] \<Rightarrow>
        let code = 4096 * a + 256 * b + 16 * c + d in if code < 256 then Some (char_of code) else None
    | _ \<Rightarrow> None)"

definition push_char :: "char \<Rightarrow> (string \<times> string) option \<Rightarrow> (string \<times> string) option" where
  "push_char c r = map_option (\<lambda>(s, rest). (c # s, rest)) r"

text \<open>The characters after the opening quote, up to the closing one.\<close>

function parse_chars :: "string \<Rightarrow> (string \<times> string) option" where
  "parse_chars [] = None"
| "parse_chars (c # cs) =
     (if c = CHR 0x22 then Some ([], cs)
      else if (of_char c :: nat) < 32 then None
      else if c \<noteq> CHR 0x5C then push_char c (parse_chars cs)
      else if cs = [] then None
      else if hd cs = CHR ''u'' then
        (case unicode_escape (take 4 (tl cs)) of None \<Rightarrow> None | Some d \<Rightarrow> push_char d (parse_chars (drop 4 (tl cs))))
      else (case simple_escape (hd cs) of None \<Rightarrow> None | Some d \<Rightarrow> push_char d (parse_chars (tl cs))))"
  by pat_completeness auto

termination by (relation "measure length") auto

section \<open>Printing and parsing\<close>

text \<open>A line break and the indentation of the given depth, two blanks for each level.\<close>

definition line_indent :: "nat \<Rightarrow> string" where
  "line_indent d = CHR 0x0A # replicate (2 * d) (CHR '' '')"

fun stringify :: "nat \<Rightarrow> json_value \<Rightarrow> string"
  and stringify_members :: "nat \<Rightarrow> (string \<times> json_value) list \<Rightarrow> string"
  and stringify_elements :: "nat \<Rightarrow> json_value list \<Rightarrow> string" where
  "stringify d JNull = ''null''"
| "stringify d (JBool b) = (if b then ''true'' else ''false'')"
| "stringify d (JNum i) = int_text i"
| "stringify d (JStr s) = quote_text s"
| "stringify d (JArr vs) =
     (if vs = [] then ''[]'' else CHR ''['' # line_indent (Suc d) @ stringify_elements (Suc d) vs @ line_indent d @ '']'')"
| "stringify d (JObj ms) =
     (if ms = [] then ''{}'' else CHR ''{'' # line_indent (Suc d) @ stringify_members (Suc d) ms @ line_indent d @ ''}'')"
| "stringify_members d [] = []"
| "stringify_members d ((k, v) # ms) =
     quote_text k @ '': '' @ stringify d v @ (if ms = [] then [] else CHR '','' # line_indent d @ stringify_members d ms)"
| "stringify_elements d [] = []"
| "stringify_elements d (v # vs) =
     stringify d v @ (if vs = [] then [] else CHR '','' # line_indent d @ stringify_elements d vs)"

definition JSON_stringify :: "json_value \<Rightarrow> string" where
  "JSON_stringify v = stringify 0 v"

definition is_space :: "char \<Rightarrow> bool" where
  "is_space c \<longleftrightarrow> (of_char c :: nat) \<in> {9, 10, 13, 32}"

text \<open>The next character after blanks, if it is the expected one.\<close>

definition next_char :: "char \<Rightarrow> string \<Rightarrow> string option" where
  "next_char c s = (case dropWhile is_space s of [] \<Rightarrow> None | d # r \<Rightarrow> if d = c then Some r else None)"

definition literal_word :: "string \<Rightarrow> json_value \<Rightarrow> string \<Rightarrow> (json_value \<times> string) option" where
  "literal_word w v s = (if take (length w) s = w then Some (v, drop (length w) s) else None)"

text \<open>A value that is neither an object nor an array, at its first character.\<close>

definition parse_scalar :: "string \<Rightarrow> (json_value \<times> string) option" where
  "parse_scalar s =
     (if s = [] then None
      else if hd s = CHR 0x22 then map_option (\<lambda>(t, r). (JStr t, r)) (parse_chars (tl s))
      else if hd s = CHR ''n'' then literal_word ''null'' JNull s
      else if hd s = CHR ''t'' then literal_word ''true'' (JBool True) s
      else if hd s = CHR ''f'' then literal_word ''false'' (JBool False) s
      else map_option (\<lambda>(i, r). (JNum i, r)) (parse_number s))"

definition parse_key :: "string \<Rightarrow> (string \<times> string) option" where
  "parse_key s = (case next_char (CHR 0x22) s of
      None \<Rightarrow> None
    | Some r \<Rightarrow> (case parse_chars r of
          None \<Rightarrow> None
        | Some (k, r') \<Rightarrow> map_option (Pair k) (next_char (CHR '':'') r')))"

fun parse_value :: "nat \<Rightarrow> string \<Rightarrow> (json_value \<times> string) option"
  and parse_members :: "nat \<Rightarrow> (string \<times> json_value) list \<Rightarrow> string \<Rightarrow> (json_value \<times> string) option"
  and parse_elements :: "nat \<Rightarrow> json_value list \<Rightarrow> string \<Rightarrow> (json_value \<times> string) option" where
  "parse_value 0 s = None"
| "parse_value (Suc n) s = (case next_char (CHR ''{'') s of
      Some r \<Rightarrow> (case next_char (CHR ''}'') r of Some r' \<Rightarrow> Some (JObj [], r') | None \<Rightarrow> parse_members n [] r)
    | None \<Rightarrow> (case next_char (CHR ''['') s of
          Some r \<Rightarrow> (case next_char (CHR '']'') r of Some r' \<Rightarrow> Some (JArr [], r') | None \<Rightarrow> parse_elements n [] r)
        | None \<Rightarrow> parse_scalar (dropWhile is_space s)))"
| "parse_members 0 ms s = None"
| "parse_members (Suc n) ms s = (case parse_key s of
      None \<Rightarrow> None
    | Some (k, r) \<Rightarrow> (case parse_value n r of
          None \<Rightarrow> None
        | Some (v, r') \<Rightarrow>
            (case next_char (CHR '','') r' of
               Some r'' \<Rightarrow> parse_members n (AList.update k v ms) r''
             | None \<Rightarrow> map_option (Pair (JObj (AList.update k v ms))) (next_char (CHR ''}'') r'))))"
| "parse_elements 0 vs s = None"
| "parse_elements (Suc n) vs s = (case parse_value n s of
      None \<Rightarrow> None
    | Some (v, r) \<Rightarrow>
        (case next_char (CHR '','') r of
           Some r' \<Rightarrow> parse_elements n (vs @ [v]) r'
         | None \<Rightarrow> map_option (Pair (JArr (vs @ [v]))) (next_char (CHR '']'') r)))"

definition JSON_parse :: "string \<Rightarrow> json_value option" where
  "JSON_parse s = (case parse_value (Suc (2 * length s)) s of
      None \<Rightarrow> None
    | Some (v, r) \<Rightarrow> if dropWhile is_space r = [] then Some v else None)"

section \<open>Objects\<close>

text \<open>
  A property of a value: \<open>None\<close> is \<^verbatim>\<open>undefined\<close>. Own properties are listed with the array indices first, in
  ascending order, and then the other keys in the order of their creation.
\<close>

definition js_property :: "json_value \<Rightarrow> string \<Rightarrow> json_value option" where
  "js_property v k = (case v of JObj ms \<Rightarrow> map_of ms k | _ \<Rightarrow> None)"

definition is_array_index :: "string \<Rightarrow> bool" where
  "is_array_index k \<longleftrightarrow> k \<noteq> [] \<and> list_all is_digit k \<and> (k = ''0'' \<or> hd k \<noteq> CHR ''0'') \<and> read_digits k < 2 ^ 32 - 1"

definition own_order :: "(string \<times> 'a) list \<Rightarrow> (string \<times> 'a) list" where
  "own_order ms = sort_key (read_digits \<circ> fst) (filter (is_array_index \<circ> fst) ms) @ filter (Not \<circ> is_array_index \<circ> fst) ms"

definition Object_fromEntries :: "(string \<times> json_value) list \<Rightarrow> json_value" where
  "Object_fromEntries es = JObj (own_order (foldl (\<lambda>ms (k, v). AList.update k v ms) [] es))"

definition Object_entries :: "json_value \<Rightarrow> (string \<times> json_value) list" where
  "Object_entries v = (case v of
      JObj ms \<Rightarrow> own_order ms
    | JArr vs \<Rightarrow> zip (map nat_text [0..<length vs]) vs
    | JStr s \<Rightarrow> zip (map nat_text [0..<length s]) (map (\<lambda>c. JStr [c]) s)
    | _ \<Rightarrow> [])"

section \<open>Reading back numbers\<close>

lemma digit_char_facts:
  assumes "n < 10"
  shows "is_digit (digit_char n)" and "digit_value (digit_char n) = n"
  using assms by (simp_all add: is_digit_def digit_value_def digit_char_def)

lemma read_digits_append [simp]: "read_digits (ds @ [c]) = 10 * read_digits ds + digit_value c"
  by (simp add: read_digits_def)

lemma nat_text_digits: "\<forall>c \<in> set (nat_text n). is_digit c"
proof (induction n rule: nat_text.induct)
  case (1 n)
  then show ?case by (subst nat_text.simps) (auto simp: digit_char_facts)
qed

lemma nat_text_nonempty [simp]: "nat_text n \<noteq> []"
  by (subst nat_text.simps) simp

lemma read_nat_text [simp]: "read_digits (nat_text n) = n"
proof (induction n rule: nat_text.induct)
  case (1 n)
  show ?case
  proof (cases "n < 10")
    case True
    then show ?thesis by (subst nat_text.simps) (simp add: read_digits_def digit_char_facts)
  next
    case False
    with 1 show ?thesis by (subst nat_text.simps) (simp add: digit_char_facts)
  qed
qed

lemma nat_text_no_leading_zero: "n \<noteq> 0 \<Longrightarrow> hd (nat_text n) \<noteq> CHR ''0''"
proof (induction n rule: nat_text.induct)
  case (1 n)
  show ?case
  proof (cases "n < 10")
    case True
    then have "digit_value (hd (nat_text n)) = n" by (subst nat_text.simps) (simp add: digit_char_facts)
    with 1(2) show ?thesis by (auto simp: digit_value_def)
  next
    case False
    then have "hd (nat_text n) = hd (nat_text (n div 10))" by (subst nat_text.simps) (simp add: hd_append)
    with 1(1) False show ?thesis by simp
  qed
qed

lemma nat_text_zero: "nat_text 0 = ''0''"
  by (subst nat_text.simps) (simp add: digit_char_def char_of_eq_iff)

text \<open>What may follow a number.\<close>

definition ends_number :: "string \<Rightarrow> bool" where
  "ends_number s \<longleftrightarrow> s = [] \<or> \<not> is_digit (hd s) \<and> hd s \<notin> set ''.eE''"

lemma span_number:
  assumes "ends_number rest"
  shows "takeWhile is_digit (nat_text n @ rest) = nat_text n" and "dropWhile is_digit (nat_text n @ rest) = rest"
proof -
  have stop: "takeWhile is_digit rest = []" "dropWhile is_digit rest = rest"
    using assms by (cases rest; simp add: ends_number_def)+
  show "takeWhile is_digit (nat_text n @ rest) = nat_text n" "dropWhile is_digit (nat_text n @ rest) = rest"
    using stop nat_text_digits [of n] by (simp_all add: takeWhile_append2 dropWhile_append2)
qed

lemma leading_zero_alone: "\<not> (hd (nat_text n) = CHR ''0'' \<and> length (nat_text n) > 1)"
  by (cases "n = 0") (simp_all add: nat_text_zero nat_text_no_leading_zero)

lemma nat_text_hd_digit: "is_digit (hd (nat_text n))"
  using nat_text_digits [of n] by (meson hd_in_set nat_text_nonempty)

lemma takeWhile_nat_text: "takeWhile is_digit (nat_text n) = nat_text n"
  using nat_text_digits by simp

lemma parse_int_text:
  assumes "ends_number rest"
  shows "parse_number (int_text i @ rest) = Some (i, rest)"
proof -
  have minus: "hd (nat_text n @ rest) \<noteq> CHR ''-''" for n
    using nat_text_hd_digit [of n] by (auto simp: is_digit_def)
  have tail: "\<not> (rest \<noteq> [] \<and> hd rest \<in> set ''.eE'')" using assms by (auto simp: ends_number_def)
  show ?thesis
    using minus tail leading_zero_alone
    by (auto simp: parse_number_def int_text_def span_number [OF assms] takeWhile_nat_text Let_def simp del: takeWhile_append1 takeWhile_append2 dropWhile_append1 dropWhile_append2 dropWhile_eq_Nil_conv)
qed

section \<open>Reading back strings\<close>

lemma hex_digits_read: "n < 16 \<Longrightarrow> hex_value (lower_hex n) = Some n"
proof -
  have "\<forall>n \<in> set [0..<16]. hex_value (lower_hex n) = Some n"
    by (simp add: lower_hex_def hex_value_def upt_rec Let_def)
  then show "n < 16 \<Longrightarrow> hex_value (lower_hex n) = Some n" by simp
qed

lemma control_escape_read:
  assumes "n < 32"
  shows "unicode_escape [CHR ''0'', CHR ''0'', lower_hex (n div 16), lower_hex (n mod 16)] = Some (char_of n)"
proof -
  have "hex_value (lower_hex (n div 16)) = Some (n div 16)" "hex_value (lower_hex (n mod 16)) = Some (n mod 16)"
    using assms by (auto intro: hex_digits_read)
  moreover have "hex_value (CHR ''0'') = Some 0" by (simp add: hex_value_def)
  moreover have "16 * (n div 16) + n mod 16 = n" by simp
  ultimately show ?thesis using assms by (simp add: unicode_escape_def Let_def)
qed

lemma char_codes:
  "(of_char c :: nat) = 8 \<longleftrightarrow> c = CHR 0x08" "(of_char c :: nat) = 9 \<longleftrightarrow> c = CHR 0x09"
  "(of_char c :: nat) = 10 \<longleftrightarrow> c = CHR 0x0A" "(of_char c :: nat) = 12 \<longleftrightarrow> c = CHR 0x0C"
  "(of_char c :: nat) = 13 \<longleftrightarrow> c = CHR 0x0D" "(of_char c :: nat) = 34 \<longleftrightarrow> c = CHR 0x22"
  "(of_char c :: nat) = 92 \<longleftrightarrow> c = CHR 0x5C"
  using of_char_eq_iff [of c "CHR 0x08", where 'a = nat] of_char_eq_iff [of c "CHR 0x09", where 'a = nat]
    of_char_eq_iff [of c "CHR 0x0A", where 'a = nat] of_char_eq_iff [of c "CHR 0x0C", where 'a = nat]
    of_char_eq_iff [of c "CHR 0x0D", where 'a = nat] of_char_eq_iff [of c "CHR 0x22", where 'a = nat]
    of_char_eq_iff [of c "CHR 0x5C", where 'a = nat] by simp_all

lemma named_escapes:
  assumes "c \<in> {CHR 0x08, CHR 0x09, CHR 0x0A, CHR 0x0C, CHR 0x0D, CHR 0x22, CHR 0x5C}"
  shows "\<exists>e. escape_char c = [CHR 0x5C, e] \<and> e \<noteq> CHR ''u'' \<and> simple_escape e = Some c"
proof -
  consider "c = CHR 0x08" | "c = CHR 0x09" | "c = CHR 0x0A" | "c = CHR 0x0C" | "c = CHR 0x0D" | "c = CHR 0x22" | "c = CHR 0x5C"
    using assms unfolding insert_iff empty_iff by blast
  then show ?thesis by cases (simp_all add: escape_char_def simple_escape_def Let_def)
qed

lemma parse_escaped_char:
  "parse_chars (escape_char c @ cs) = push_char c (parse_chars cs)"
proof -
  let ?n = "of_char c :: nat"
  consider (named) "c \<in> {CHR 0x08, CHR 0x09, CHR 0x0A, CHR 0x0C, CHR 0x0D, CHR 0x22, CHR 0x5C}"
    | (control) "?n < 32" "?n \<notin> {8, 9, 10, 12, 13}" | (plain) "32 \<le> ?n" "?n \<noteq> 34" "?n \<noteq> 92"
    unfolding char_codes insert_iff empty_iff by linarith
  then show ?thesis
  proof cases
    case named
    then obtain e where "escape_char c = [CHR 0x5C, e]" "e \<noteq> CHR ''u''" "simple_escape e = Some c" using named_escapes by blast
    then show ?thesis by simp
  next
    case control
    then have "escape_char c = [CHR 0x5C, CHR ''u'', CHR ''0'', CHR ''0'', lower_hex (?n div 16), lower_hex (?n mod 16)]"
      by (simp add: escape_char_def Let_def)
    with control_escape_read [OF control(1)] show ?thesis by simp
  next
    case plain
    then have "escape_char c = [c]" by (simp add: escape_char_def Let_def)
    with plain show ?thesis by auto
  qed
qed

lemma parse_quoted: "parse_chars (concat (map escape_char s) @ CHR 0x22 # rest) = Some (s, rest)"
  by (induction s) (simp_all add: parse_escaped_char push_char_def)

section \<open>Reading back values\<close>

fun no_repeated_keys :: "json_value \<Rightarrow> bool" where
  "no_repeated_keys (JArr vs) = (\<forall>v \<in> set vs. no_repeated_keys v)"
| "no_repeated_keys (JObj ms) = (distinct (map fst ms) \<and> (\<forall>m \<in> set ms. no_repeated_keys (snd m)))"
| "no_repeated_keys v = True"

lemma skip_indent [simp]: "dropWhile is_space (line_indent d @ s) = dropWhile is_space s"
proof -
  have "dropWhile is_space (replicate m (CHR '' '') @ s) = dropWhile is_space s" for m
    by (induction m) (simp_all add: is_space_def)
  then show ?thesis by (simp add: line_indent_def is_space_def)
qed

lemma punctuation_no_space [simp]:
  "\<not> is_space (CHR ''{'')" "\<not> is_space (CHR ''}'')" "\<not> is_space (CHR ''['')" "\<not> is_space (CHR '']'')" "\<not> is_space (CHR 0x22)"
  by (simp_all add: is_space_def)

lemma digit_not_special:
  "is_digit c \<Longrightarrow> \<not> is_space c \<and> c \<noteq> CHR ''{'' \<and> c \<noteq> CHR ''['' \<and> c \<noteq> CHR '']'' \<and> c \<noteq> CHR 0x22 \<and> c \<noteq> CHR ''n'' \<and> c \<noteq> CHR ''t'' \<and> c \<noteq> CHR ''f''"
  by (auto simp: is_digit_def is_space_def)

text \<open>The first character of a printed scalar, and of a printed value.\<close>

lemma int_text_start:
  obtains c r where "int_text i = c # r" "is_digit c \<or> c = CHR ''-''"
proof (cases "i < 0")
  case True
  then show thesis using that by (simp add: int_text_def)
next
  case False
  then show thesis using that nat_text_hd_digit [of "nat i"] by (cases "nat_text (nat i)") (auto simp: int_text_def)
qed

lemma stringify_hd: "stringify d v \<noteq> [] \<and> \<not> is_space (hd (stringify d v)) \<and> hd (stringify d v) \<noteq> CHR '']''"
proof (cases v)
  case (JNum i)
  obtain c r where c: "int_text i = c # r" "is_digit c \<or> c = CHR ''-''" by (rule int_text_start)
  then have "\<not> is_space c \<and> c \<noteq> CHR '']''" using digit_not_special [of c] by (auto simp: is_space_def)
  with c JNum show ?thesis by simp
qed (simp_all add: quote_text_def is_space_def)

lemma stringify_start:
  obtains c r where "stringify d v = c # r" "\<not> is_space c" "c \<noteq> CHR '']''"
  using stringify_hd [of d v] by (cases "stringify d v") auto

lemma members_start: "ms \<noteq> [] \<Longrightarrow> \<exists>r. stringify_members d ms = CHR 0x22 # r"
  by (cases ms) (auto simp: quote_text_def)

lemma elements_start:
  assumes "vs \<noteq> []"
  obtains c r where "stringify_elements d vs = c # r" "\<not> is_space c" "c \<noteq> CHR '']''"
proof -
  obtain v us where "vs = v # us" using assms by (cases vs) auto
  moreover obtain c r where "stringify d v = c # r" "\<not> is_space c" "c \<noteq> CHR '']''" by (rule stringify_start)
  ultimately show thesis using that by simp
qed

lemma scalar_read:
  assumes "ends_number rest" and "dropWhile is_space s = t @ rest" and "0 < n"
    and "t = ''null'' \<and> v = JNull \<or> t = ''true'' \<and> v = JBool True \<or> t = ''false'' \<and> v = JBool False
      \<or> (\<exists>i. t = int_text i \<and> v = JNum i) \<or> (\<exists>x. t = quote_text x \<and> v = JStr x)"
  shows "parse_value n s = Some (v, rest)"
proof -
  obtain m where n: "n = Suc m" using assms(3) by (cases n) auto
  consider (word) "t = ''null'' \<and> v = JNull \<or> t = ''true'' \<and> v = JBool True \<or> t = ''false'' \<and> v = JBool False"
    | (number) i where "t = int_text i" "v = JNum i" | (string) x where "t = quote_text x" "v = JStr x" using assms(4) by blast
  then show ?thesis
  proof cases
    case word
    then show ?thesis using assms(2) by (auto simp: n next_char_def parse_scalar_def literal_word_def)
  next
    case number
    obtain c r where c: "int_text i = c # r" "is_digit c \<or> c = CHR ''-''" by (rule int_text_start)
    then have special: "c \<noteq> CHR ''{''" "c \<noteq> CHR ''[''" "c \<noteq> CHR 0x22" "c \<noteq> CHR ''n''" "c \<noteq> CHR ''t''" "c \<noteq> CHR ''f''"
      using digit_not_special [of c] by auto
    then have "parse_scalar (t @ rest) = Some (v, rest)"
      using c number parse_int_text [OF assms(1), of i] by (simp add: parse_scalar_def)
    moreover have "next_char (CHR ''{'') s = None" "next_char (CHR ''['') s = None"
      using c special number(1) assms(2) by (simp_all add: next_char_def)
    ultimately show ?thesis using assms(2) by (simp add: n)
  next
    case string
    then show ?thesis using assms(2) parse_quoted [of x rest] by (simp add: n next_char_def parse_scalar_def quote_text_def)
  qed
qed

lemma update_fresh: "k \<notin> fst ` set acc \<Longrightarrow> AList.update k v acc = acc @ [(k, v)]"
  by (induction acc) auto

lemma key_read:
  assumes "dropWhile is_space s = quote_text k @ '': '' @ r"
  shows "parse_key s = Some (k, CHR '' '' # r)"
proof -
  have "next_char (CHR 0x22) s = Some (concat (map escape_char k) @ CHR 0x22 # CHR '':'' # CHR '' '' # r)"
    using assms by (simp add: next_char_def quote_text_def)
  then show ?thesis using parse_quoted [of k "CHR '':'' # CHR '' '' # r"] by (simp add: parse_key_def next_char_def is_space_def)
qed

text \<open>What follows a member or an element: a comma, or the closing bracket after an indentation.\<close>

definition closes :: "char \<Rightarrow> string \<Rightarrow> string \<Rightarrow> bool" where
  "closes b tail rest \<longleftrightarrow> next_char b tail = Some rest \<and> next_char (CHR '','') tail = None \<and> ends_number tail"

lemma closing_indent: "b = CHR ''}'' \<or> b = CHR '']'' \<Longrightarrow> closes b (line_indent d @ b # rest) rest"
  by (auto simp: closes_def next_char_def is_space_def ends_number_def is_digit_def) (simp_all add: line_indent_def)

lemma comma_ends: "ends_number (CHR '','' # r)"
  by (simp add: ends_number_def is_digit_def)

lemma stringify_read:
  "\<And>n s rest. no_repeated_keys v \<Longrightarrow> ends_number rest \<Longrightarrow> length (stringify d v) \<le> n \<Longrightarrow>
     dropWhile is_space s = stringify d v @ rest \<Longrightarrow> parse_value n s = Some (v, rest)"
  "\<And>n s acc tail rest. ms \<noteq> [] \<Longrightarrow> no_repeated_keys (JObj (acc @ ms)) \<Longrightarrow> length (stringify_members d ms) \<le> n \<Longrightarrow>
     dropWhile is_space s = stringify_members d ms @ tail \<Longrightarrow> closes (CHR ''}'') tail rest \<Longrightarrow>
     parse_members n acc s = Some (JObj (acc @ ms), rest)"
  "\<And>n s acc tail rest. vs \<noteq> [] \<Longrightarrow> (\<forall>v \<in> set vs. no_repeated_keys v) \<Longrightarrow> length (stringify_elements d vs) < n \<Longrightarrow>
     dropWhile is_space s = stringify_elements d vs @ tail \<Longrightarrow> closes (CHR '']'') tail rest \<Longrightarrow>
     parse_elements n acc s = Some (JArr (acc @ vs), rest)"
proof (induction d v and d ms and d vs rule: stringify_stringify_members_stringify_elements.induct)
  case (1 d)
  then show ?case by (intro scalar_read [where t = "''null''"]) auto
next
  case (2 d b)
  then show ?case by (intro scalar_read [where t = "if b then ''true'' else ''false''"]) (auto split: if_splits)
next
  case (3 d i)
  moreover have "0 < n" using "3.prems"(3) by (cases n) (auto simp: int_text_def split: if_splits)
  ultimately show ?case by (intro scalar_read [where t = "int_text i"]) auto
next
  case (4 d x)
  then show ?case by (intro scalar_read [where t = "quote_text x"]) (auto simp: quote_text_def)
next
  case (5 d vs)
  obtain m where n: "n = Suc m" using "5.prems"(3) by (cases n) (auto split: if_splits)
  show ?case
  proof (cases "vs = []")
    case True
    then show ?thesis using "5.prems"(4) by (simp add: n next_char_def)
  next
    case False
    let ?tail = "line_indent d @ CHR '']'' # rest" and ?s = "line_indent (Suc d) @ stringify_elements (Suc d) vs @ line_indent d @ CHR '']'' # rest"
    obtain c r where c: "stringify_elements (Suc d) vs = c # r" "\<not> is_space c" "c \<noteq> CHR '']''" using elements_start [OF False] .
    have s: "next_char (CHR ''['') s = Some ?s" "next_char (CHR ''{'') s = None" using False "5.prems"(4) by (simp_all add: next_char_def)
    have "dropWhile is_space ?s = stringify_elements (Suc d) vs @ ?tail" using c by simp
    then have "parse_elements m [] ?s = Some (JArr ([] @ vs), rest)"
      using False "5.prems"(1,3) by (intro "5.IH" [where tail = ?tail]) (auto simp: n closing_indent)
    moreover have "next_char (CHR '']'') ?s = None" using c by (simp add: next_char_def)
    ultimately show ?thesis using s by (simp add: n)
  qed
next
  case (6 d ms)
  obtain m where n: "n = Suc m" using "6.prems"(3) by (cases n) (auto split: if_splits)
  show ?case
  proof (cases "ms = []")
    case True
    then show ?thesis using "6.prems"(4) by (simp add: n next_char_def)
  next
    case False
    let ?tail = "line_indent d @ CHR ''}'' # rest" and ?s = "line_indent (Suc d) @ stringify_members (Suc d) ms @ line_indent d @ CHR ''}'' # rest"
    obtain r where c: "stringify_members (Suc d) ms = CHR 0x22 # r" using members_start [OF False] by blast
    have s: "next_char (CHR ''{'') s = Some ?s" using False "6.prems"(4) by (simp add: next_char_def)
    have "dropWhile is_space ?s = stringify_members (Suc d) ms @ ?tail" using c by (simp add: is_space_def)
    then have "parse_members m [] ?s = Some (JObj ([] @ ms), rest)"
      using False "6.prems"(1,3) by (intro "6.IH" [where tail = ?tail]) (auto simp: n closing_indent)
    moreover have "next_char (CHR ''}'') ?s = None" using c by (simp add: next_char_def is_space_def)
    ultimately show ?thesis using s by (simp add: n)
  qed
next
  case (8 d k v ms)
  obtain m where n: "n = Suc m" using "8.prems"(3) by (cases n) auto
  let ?after = "(if ms = [] then [] else CHR '','' # line_indent d @ stringify_members d ms) @ tail"
  have fresh: "AList.update k v acc = acc @ [(k, v)]" using "8.prems"(2) by (intro update_fresh) auto
  have key: "parse_key s = Some (k, CHR '' '' # stringify d v @ ?after)" using "8.prems"(4) by (intro key_read) simp
  obtain c r where c: "stringify d v = c # r" "\<not> is_space c" by (rule stringify_start)
  have "ends_number ?after" using "8.prems"(5) by (simp add: comma_ends closes_def)
  moreover have "dropWhile is_space (CHR '' '' # stringify d v @ ?after) = stringify d v @ ?after" using c by (simp add: is_space_def)
  ultimately have val: "parse_value m (CHR '' '' # stringify d v @ ?after) = Some (v, ?after)"
    using "8.prems"(2,3) by (intro "8.IH"(1)) (auto simp: n)
  show ?case
  proof (cases "ms = []")
    case True
    with key val "8.prems"(5) fresh show ?thesis by (simp add: n closes_def)
  next
    case False
    obtain r' where r': "stringify_members d ms = CHR 0x22 # r'" using members_start [OF False] by blast
    have "parse_members m (acc @ [(k, v)]) (line_indent d @ stringify_members d ms @ tail) = Some (JObj ((acc @ [(k, v)]) @ ms), rest)"
      using False "8.prems"(2,3,5) r' by (intro "8.IH"(2) [where tail = tail]) (auto simp: n)
    then show ?thesis using False key val fresh by (simp add: n next_char_def is_space_def)
  qed
next
  case (10 d v vs)
  obtain m where n: "n = Suc m" using "10.prems"(3) stringify_hd [of d v] by (cases n) auto
  let ?after = "(if vs = [] then [] else CHR '','' # line_indent d @ stringify_elements d vs) @ tail"
  have "ends_number ?after" using "10.prems"(5) by (simp add: comma_ends closes_def)
  then have val: "parse_value m s = Some (v, ?after)"
    using "10.prems"(2,3,4) by (intro "10.IH"(1)) (auto simp: n)
  show ?case
  proof (cases "vs = []")
    case True
    with val "10.prems"(5) show ?thesis by (simp add: n closes_def)
  next
    case False
    obtain c r where c: "stringify_elements d vs = c # r" "\<not> is_space c" using elements_start [OF False] by blast
    have "parse_elements m (acc @ [v]) (line_indent d @ stringify_elements d vs @ tail) = Some (JArr ((acc @ [v]) @ vs), rest)"
      using False "10.prems"(2,3,5) c by (intro "10.IH"(2) [where tail = tail]) (auto simp: n)
    then show ?thesis using False val by (simp add: n next_char_def is_space_def)
  qed
qed simp_all

section \<open>The fuel is enough\<close>

lemma dropWhile_shorter: "length (dropWhile P s) \<le> length s"
  by (simp add: length_dropWhile_le)

lemma next_char_shorter: "next_char c s = Some r \<Longrightarrow> length r < length s"
proof -
  assume "next_char c s = Some r"
  then have "dropWhile is_space s = c # r" by (auto simp: next_char_def split: list.splits if_splits)
  then show "length r < length s" by (metis dropWhile_shorter length_Cons less_eq_Suc_le)
qed

lemma push_char_Some: "push_char d m = Some (x, r) \<Longrightarrow> \<exists>y. m = Some (y, r)"
  by (auto simp: push_char_def)

lemma parse_chars_shorter: "parse_chars s = Some (x, r) \<Longrightarrow> length r < length s"
proof (induction s arbitrary: x rule: parse_chars.induct)
  case (2 c cs)
  have "r = cs \<or> (\<exists>t y. t \<in> {cs, tl cs, drop 4 (tl cs)} \<and> parse_chars t = Some (y, r) \<and> length r < length t)"
  proof (cases "c = CHR 0x22 \<or> c \<noteq> CHR 0x5C")
    case True
    with 2 show ?thesis by (auto split: if_splits dest!: push_char_Some)
  next
    case False
    then show ?thesis
    proof (cases "hd cs = CHR ''u''")
      case True
      with False 2 show ?thesis by (auto split: if_splits option.splits dest!: push_char_Some)
    next
      case other: False
      with False 2 show ?thesis by (auto split: if_splits option.splits dest!: push_char_Some)
    qed
  qed
  then show ?case by auto
qed simp

lemma parse_key_shorter: "parse_key s = Some (k, r) \<Longrightarrow> length r < length s"
  by (auto simp: parse_key_def split: option.splits dest!: next_char_shorter parse_chars_shorter)

lemma parse_number_shorter: "parse_number s = Some (i, r) \<Longrightarrow> length r < length s"
proof -
  assume p: "parse_number s = Some (i, r)"
  define t where "t = (if s \<noteq> [] \<and> hd s = CHR ''-'' then tl s else s)"
  have "takeWhile is_digit t \<noteq> [] \<and> r = dropWhile is_digit t"
    using p by (auto simp: parse_number_def Let_def t_def split: if_splits)
  then have "length r < length t" by (metis length_append length_greater_0_conv less_add_same_cancel2 takeWhile_dropWhile_id)
  then show "length r < length s" by (auto simp: t_def split: if_splits)
qed

lemma parse_scalar_shorter: "parse_scalar s = Some (v, r) \<Longrightarrow> length r < length s"
  by (cases s) (auto simp: parse_scalar_def literal_word_def split: if_splits dest!: parse_chars_shorter parse_number_shorter)

lemma parse_shorter:
  "parse_value n s = Some (v, r) \<Longrightarrow> length r < length s"
  "parse_members n ms s = Some (v, r) \<Longrightarrow> length r < length s"
  "parse_elements n vs s = Some (v, r) \<Longrightarrow> length r < length s"
proof (induction n s and n ms s and n vs s arbitrary: v r and v r and v r rule: parse_value_parse_members_parse_elements.induct)
  case (2 n s)
  have "length (dropWhile is_space s) \<le> length s" by (rule dropWhile_shorter)
  with 2 show ?case by (fastforce split: option.splits dest: next_char_shorter parse_scalar_shorter)
next
  case (4 n ms s)
  then show ?case by (fastforce split: option.splits dest: next_char_shorter parse_key_shorter)
next
  case (6 n vs s)
  then show ?case by (fastforce split: option.splits dest: next_char_shorter)
qed simp_all

lemma parse_enough_fuel:
  "2 * length s < n \<Longrightarrow> 2 * length s < m \<Longrightarrow> parse_value m s = parse_value n s"
  "2 * length s + 1 < n \<Longrightarrow> 2 * length s + 1 < m \<Longrightarrow> parse_members m ms s = parse_members n ms s"
  "2 * length s + 1 < n \<Longrightarrow> 2 * length s + 1 < m \<Longrightarrow> parse_elements m vs s = parse_elements n vs s"
proof (induction n s and n ms s and n vs s arbitrary: m and m and m rule: parse_value_parse_members_parse_elements.induct)
  case (2 n s)
  obtain k where k: "m = Suc k" using "2.prems"(2) by (cases m) auto
  have "parse_members k [] r = parse_members n [] r" if "next_char (CHR ''{'') s = Some r" "next_char (CHR ''}'') r = None" for r
    using "2.IH"(2) [OF that, of k] "2.prems" next_char_shorter [OF that(1)] by (simp add: k)
  moreover have "parse_elements k [] r = parse_elements n [] r"
    if "next_char (CHR ''{'') s = None" "next_char (CHR ''['') s = Some r" "next_char (CHR '']'') r = None" for r
    using "2.IH"(1) [OF that, of k] "2.prems" next_char_shorter [OF that(2)] by (simp add: k)
  ultimately show ?case by (auto simp: k split: option.split)
next
  case (4 n ms s)
  obtain k where k: "m = Suc k" using "4.prems"(2) by (cases m) auto
  show ?case
  proof (cases "parse_key s")
    case None
    then show ?thesis by (simp add: k)
  next
    case (Some p)
    then obtain key r where p: "parse_key s = Some (key, r)" by (cases p) auto
    then have r: "length r < length s" by (rule parse_key_shorter)
    then have val: "parse_value k r = parse_value n r" using "4.IH"(1) [OF p refl, of k] "4.prems" by (simp add: k)
    show ?thesis
    proof (cases "parse_value n r")
      case None
      with p val show ?thesis by (simp add: k)
    next
      case (Some q)
      then obtain v r' where q: "parse_value n r = Some (v, r')" by (cases q) auto
      have "parse_members k (AList.update key v ms) r'' = parse_members n (AList.update key v ms) r''"
        if e: "next_char (CHR '','') r' = Some r''" for r''
        using "4.IH"(2) [OF p refl q refl e, of k] "4.prems" r parse_shorter(1) [OF q] next_char_shorter [OF e] by (simp add: k)
      with p val q show ?thesis by (auto simp: k split: option.split)
    qed
  qed
next
  case (6 n vs s)
  obtain k where k: "m = Suc k" using "6.prems"(2) by (cases m) auto
  have val: "parse_value k s = parse_value n s" using "6.IH"(1) [of k] "6.prems" by (simp add: k)
  show ?case
  proof (cases "parse_value n s")
    case None
    with val show ?thesis by (simp add: k)
  next
    case (Some q)
    then obtain v r where q: "parse_value n s = Some (v, r)" by (cases q) auto
    have "parse_elements k (vs @ [v]) r' = parse_elements n (vs @ [v]) r'" if e: "next_char (CHR '','') r = Some r'" for r'
      using "6.IH"(2) [OF q refl e, of k] "6.prems" parse_shorter(1) [OF q] next_char_shorter [OF e] by (simp add: k)
    with val q show ?thesis by (auto simp: k split: option.split)
  qed
qed simp_all

lemma JSON_parse_any_fuel:
  assumes "2 * length s < n"
  shows "JSON_parse s = (case parse_value n s of
      None \<Rightarrow> None | Some (v, r) \<Rightarrow> if dropWhile is_space r = [] then Some v else None)"
  using parse_enough_fuel(1) [of s n "Suc (2 * length s)"] assms by (simp add: JSON_parse_def)

section \<open>Round trip\<close>

theorem JSON_roundtrip:
  assumes "no_repeated_keys v"
  shows "JSON_parse (JSON_stringify v) = Some v"
proof -
  obtain c r where "stringify 0 v = c # r" "\<not> is_space c" by (rule stringify_start)
  then have "dropWhile is_space (stringify 0 v) = stringify 0 v @ []" by simp
  then have "parse_value (Suc (2 * length (stringify 0 v))) (stringify 0 v) = Some (v, [])"
    using assms by (intro stringify_read(1)) (simp_all add: ends_number_def)
  then show ?thesis by (simp add: JSON_parse_def JSON_stringify_def)
qed

text \<open>A printed object begins and ends with its braces, so trimming leaves it alone.\<close>

lemma trim_object [simp]: "js_trim (JSON_stringify (JObj ms)) = JSON_stringify (JObj ms)"
  by (simp add: js_trim_def JSON_stringify_def js_white_def)

lemma stringify_object_nonempty [simp]: "JSON_stringify (JObj ms) \<noteq> []"
  by (simp add: JSON_stringify_def)

section \<open>The order of own properties\<close>

lemma mset_own_order [simp]: "mset (own_order ms) = mset ms"
  by (simp add: own_order_def comp_def)

lemma set_own_order [simp]: "set (own_order ms) = set ms"
  by (metis mset_own_order set_mset_mset)

lemma distinct_own_order [simp]: "distinct (map fst (own_order ms)) = distinct (map fst ms)"
  by (rule mset_eq_imp_distinct_iff) simp

lemma map_of_own_order: "distinct (map fst ms) \<Longrightarrow> map_of (own_order ms) = map_of ms"
  by (rule map_of_eqI) (auto simp: map_of_eq_Some_iff intro: map_of_is_SomeI)

lemma updates_append:
  assumes "distinct (map fst (acc @ es))"
  shows "foldl (\<lambda>ms (k, v). AList.update k v ms) acc es = acc @ es"
  using assms
proof (induction es arbitrary: acc)
  case (Cons e es)
  obtain k v where e: "e = (k, v)" by (cases e)
  have "AList.update k v acc = acc @ [(k, v)]" using Cons.prems by (intro update_fresh) (auto simp: e)
  moreover have "foldl (\<lambda>ms (k, v). AList.update k v ms) (acc @ [(k, v)]) es = (acc @ [(k, v)]) @ es"
    using Cons.prems by (intro Cons.IH) (auto simp: e)
  ultimately show ?case by (simp add: e)
qed simp

lemma fromEntries_distinct: "distinct (map fst es) \<Longrightarrow> Object_fromEntries es = JObj (own_order es)"
  using updates_append [of "[]" es] by (simp add: Object_fromEntries_def)

text \<open>An object made from entries is listed again as made.\<close>

lemma own_order_idem: "own_order (own_order ms) = own_order ms"
proof -
  have "filter P (sort_key f (filter P ms)) = sort_key f (filter P ms)" "filter (Not \<circ> P) (sort_key f (filter P ms)) = []"
    for P and f :: "string \<times> 'a \<Rightarrow> nat" by (simp_all add: filter_sort [symmetric] filter_empty_conv)
  moreover have "sort_key f (sort_key f xs) = sort_key f xs" for f :: "string \<times> 'a \<Rightarrow> nat" and xs
    by (rule sort_key_id_if_sorted) simp
  ultimately show ?thesis by (simp add: own_order_def comp_def filter_sort [symmetric])
qed

lemma sort_key_map: "sort_key g (map h xs) = map h (sort_key (g \<circ> h) xs)"
proof (induction xs)
  case (Cons x xs)
  have "insort_key g (h x) (map h ys) = map h (insort_key (g \<circ> h) x ys)" for ys by (induction ys) simp_all
  with Cons show ?case by (simp add: sort_key_def comp_def)
qed (simp add: sort_key_def)

lemma own_order_map: "own_order (map (\<lambda>(k, x). (k, f x)) ms) = map (\<lambda>(k, x). (k, f x)) (own_order ms)"
proof -
  have "fst \<circ> (\<lambda>(k :: string, x). (k, f x)) = fst" by auto
  then show ?thesis by (simp add: own_order_def sort_key_map filter_map o_assoc [symmetric])
qed

end
