(* ===== verification/Fencing_Tokens.thy ===== *)
theory Fencing_Tokens
  imports Json_Text
begin

text \<open>
  Multi-region leadership with fencing tokens
  (\<^verbatim>\<open>src/src/scale-ecosystem/multi-region/fencing-token-service.ts\<close>) and the leadership guard of the
  execution leases
  (\<^verbatim>\<open>src/src/platform/five-plane-execution/lease/multi-region-execution-lease-leadership-guard.ts\<close>).

  A service instance keeps its two maps and the epoch counter in memory; a storage (the state file with
  its lock file, or the database row) is shared between instances. What is stored is JSON text: it is printed
  from the snapshot field by field and read back through the parser of \<open>Json_Text\<close> and the type checks of the
  source. JavaScript maps are association lists in insertion order. Instants are the ISO texts of the source,
  which this service never parses. Identifiers and the clock are arguments.

  The synchronous methods of one process do not interleave, but processes do: an acquisition or release is
  one step that takes the lock and reads the storage and another that decides, writes and unlocks, and between
  them other processes may run. A process may also stop between or after its steps, with the lock file left
  behind.
\<close>

section \<open>Tokens, leadership and storage\<close>

record fencing_token =
  ft_tokenId :: ident
  ft_regionId :: ident
  ft_epoch :: int
  ft_issuedAt :: string
  ft_entityId :: "ident option"

record leadership_state =
  ls_regionId :: ident
  ls_epoch :: int
  ls_acquiredAt :: string
  ls_fencingToken :: fencing_token
  ls_isActive :: bool

record token_validation =
  tv_valid :: bool
  tv_reason :: "string option"
  tv_currentEpoch :: int
  tv_tokenEpoch :: int

record persistence_snapshot =
  sn_epochCounter :: int
  sn_entityLeadership :: "(ident \<times> leadership_state) list"

text \<open>Where an instance persists: in memory only, in a state file guarded by a lock file, or in the database.\<close>

datatype persistence_mode = Memory_only | State_file | Database

text \<open>The text of the state file or of the database row, if there is one, and whether the lock file exists.\<close>

record token_storage =
  ts_text :: "string option"
  ts_locked :: bool

record token_service =
  fs_mode :: persistence_mode
  fs_leaderships :: "(ident \<times> leadership_state) list"
  fs_entityLeadership :: "(ident \<times> leadership_state) list"
  fs_epochCounter :: int

datatype token_error = Lock_held

section \<open>Writing and reading the snapshot\<close>

text \<open>\<^verbatim>\<open>JSON.stringify\<close> writes the properties of an object literal in the order of the literal.\<close>

definition token_json :: "fencing_token \<Rightarrow> json_value" where
  "token_json t = JObj
     [(''tokenId'', JStr (ft_tokenId t)),
      (''regionId'', JStr (ft_regionId t)),
      (''epoch'', JNum (ft_epoch t)),
      (''issuedAt'', JStr (ft_issuedAt t)),
      (''entityId'', case ft_entityId t of None \<Rightarrow> JNull | Some e \<Rightarrow> JStr e)]"

definition leadership_json :: "leadership_state \<Rightarrow> json_value" where
  "leadership_json l = JObj
     [(''regionId'', JStr (ls_regionId l)),
      (''epoch'', JNum (ls_epoch l)),
      (''acquiredAt'', JStr (ls_acquiredAt l)),
      (''fencingToken'', token_json (ls_fencingToken l)),
      (''isActive'', JBool (ls_isActive l))]"

definition snapshot_json :: "persistence_snapshot \<Rightarrow> json_value" where
  "snapshot_json sn = JObj
     [(''epochCounter'', JNum (sn_epochCounter sn)),
      (''entityLeadership'', Object_fromEntries (map (\<lambda>(k, l). (k, leadership_json l)) (sn_entityLeadership sn)))]"

text \<open>The type checks on a value or property; \<open>None\<close> is \<^verbatim>\<open>undefined\<close>.\<close>

definition typeof_string :: "json_value option \<Rightarrow> bool" where
  "typeof_string v = (case v of Some (JStr s) \<Rightarrow> True | _ \<Rightarrow> False)"

definition typeof_number :: "json_value option \<Rightarrow> bool" where
  "typeof_number v = (case v of Some (JNum n) \<Rightarrow> True | _ \<Rightarrow> False)"

definition typeof_boolean :: "json_value option \<Rightarrow> bool" where
  "typeof_boolean v = (case v of Some (JBool b) \<Rightarrow> True | _ \<Rightarrow> False)"

definition non_null_object :: "json_value option \<Rightarrow> bool" where
  "non_null_object v = (case v of Some (JObj ms) \<Rightarrow> True | Some (JArr vs) \<Rightarrow> True | _ \<Rightarrow> False)"

definition nullish_value :: "json_value option \<Rightarrow> bool" where
  "nullish_value v \<longleftrightarrow> v = None \<or> v = Some JNull"

definition value_field :: "json_value option \<Rightarrow> string \<Rightarrow> json_value option" where
  "value_field v k = (case v of None \<Rightarrow> None | Some c \<Rightarrow> js_property c k)"

definition isFencingToken :: "json_value option \<Rightarrow> bool" where
  "isFencingToken v \<longleftrightarrow> non_null_object v
     \<and> typeof_string (value_field v ''tokenId'')
     \<and> typeof_string (value_field v ''regionId'')
     \<and> typeof_number (value_field v ''epoch'')
     \<and> typeof_string (value_field v ''issuedAt'')
     \<and> (nullish_value (value_field v ''entityId'') \<or> typeof_string (value_field v ''entityId''))"

definition isLeadershipState :: "json_value option \<Rightarrow> bool" where
  "isLeadershipState v \<longleftrightarrow> non_null_object v
     \<and> typeof_string (value_field v ''regionId'')
     \<and> typeof_number (value_field v ''epoch'')
     \<and> typeof_string (value_field v ''acquiredAt'')
     \<and> typeof_boolean (value_field v ''isActive'')
     \<and> isFencingToken (value_field v ''fencingToken'')"

text \<open>
  A checked value used as a record. Properties beyond those of the interface are not kept, and a missing
  \<^verbatim>\<open>entityId\<close> is read as null.
\<close>

definition as_string :: "json_value option \<Rightarrow> string" where
  "as_string v = (case v of Some (JStr s) \<Rightarrow> s | _ \<Rightarrow> [])"

definition as_number :: "json_value option \<Rightarrow> int" where
  "as_number v = (case v of Some (JNum n) \<Rightarrow> n | _ \<Rightarrow> 0)"

definition as_token :: "json_value option \<Rightarrow> fencing_token" where
  "as_token v = \<lparr>ft_tokenId = as_string (value_field v ''tokenId''), ft_regionId = as_string (value_field v ''regionId''),
     ft_epoch = as_number (value_field v ''epoch''), ft_issuedAt = as_string (value_field v ''issuedAt''),
     ft_entityId = (if nullish_value (value_field v ''entityId'') then None else Some (as_string (value_field v ''entityId'')))\<rparr>"

definition as_leadership :: "json_value option \<Rightarrow> leadership_state" where
  "as_leadership v = \<lparr>ls_regionId = as_string (value_field v ''regionId''), ls_epoch = as_number (value_field v ''epoch''),
     ls_acquiredAt = as_string (value_field v ''acquiredAt''), ls_fencingToken = as_token (value_field v ''fencingToken''),
     ls_isActive = (value_field v ''isActive'' = Some (JBool True))\<rparr>"

section \<open>Persistence\<close>

definition leadership_key :: "ident option \<Rightarrow> ident" where
  "leadership_key entityId = coalesce entityId ''GLOBAL''"

definition set_leadership :: "ident \<Rightarrow> leadership_state \<Rightarrow> token_service \<Rightarrow> token_service" where
  "set_leadership key l s =
     s\<lparr>fs_entityLeadership := AList.update key l (fs_entityLeadership s),
       fs_leaderships := AList.update (ls_regionId l) l (fs_leaderships s)\<rparr>"

definition restore_entry :: "token_service \<Rightarrow> ident \<times> json_value \<Rightarrow> token_service" where
  "restore_entry s = (\<lambda>(key, state).
     if isLeadershipState (Some state) then set_leadership key (as_leadership (Some state)) s else s)"

text \<open>The result \<open>None\<close> is an exception: a syntax error, or a property read from the value null.\<close>

definition applySnapshot :: "string \<Rightarrow> token_service \<Rightarrow> token_service option" where
  "applySnapshot raw s = (case JSON_parse raw of
      None \<Rightarrow> None
    | Some snapshot \<Rightarrow>
        if snapshot = JNull then None
        else
          let counter = js_property snapshot ''epochCounter'';
              persisted = js_property snapshot ''entityLeadership'';
              entries = (if nullish_value persisted then [] else Object_entries (the persisted))
          in Some (foldl restore_entry
               (s\<lparr>fs_epochCounter := (if typeof_number counter then max 0 (as_number counter) else 0)\<rparr>) entries))"

definition clear_service :: "token_service \<Rightarrow> token_service" where
  "clear_service s = s\<lparr>fs_epochCounter := 0, fs_entityLeadership := [], fs_leaderships := []\<rparr>"

definition loadPersistedState :: "token_storage \<Rightarrow> token_service \<Rightarrow> token_service" where
  "loadPersistedState st s =
     (if fs_mode s = Memory_only then s
      else case ts_text st of
             None \<Rightarrow> (if fs_mode s = State_file then clear_service s else s)
           | Some text \<Rightarrow>
               let raw = js_trim text
               in if raw = [] then s
                  else case applySnapshot raw s of None \<Rightarrow> clear_service s | Some s' \<Rightarrow> s')"

definition reloadPersistedState :: "token_storage \<Rightarrow> token_service \<Rightarrow> token_service" where
  "reloadPersistedState st s = loadPersistedState st (clear_service s)"

definition persistState :: "token_service \<Rightarrow> token_storage \<Rightarrow> token_storage" where
  "persistState s st =
     (let snapshot = \<lparr>sn_epochCounter = fs_epochCounter s, sn_entityLeadership = fs_entityLeadership s\<rparr>;
          snapshotJson = JSON_stringify (snapshot_json snapshot)
      in if fs_mode s = Memory_only then st else st\<lparr>ts_text := Some snapshotJson\<rparr>)"

definition new_FencingTokenService :: "persistence_mode \<Rightarrow> token_storage \<Rightarrow> token_service" where
  "new_FencingTokenService mode st =
     loadPersistedState st \<lparr>fs_mode = mode, fs_leaderships = [], fs_entityLeadership = [], fs_epochCounter = 0\<rparr>"

text \<open>
  \<^verbatim>\<open>acquirePersistenceLock\<close> creates the lock file exclusively and throws when it exists; the returned function
  removes it. With a database it does nothing.
\<close>

definition acquirePersistenceLock :: "token_service \<Rightarrow> token_storage \<Rightarrow> token_error + token_storage" where
  "acquirePersistenceLock s st =
     (if fs_mode s = State_file then
        (if ts_locked st then Inl Lock_held else Inr (st\<lparr>ts_locked := True\<rparr>))
      else Inr st)"

definition releaseLock :: "token_service \<Rightarrow> token_storage \<Rightarrow> token_storage" where
  "releaseLock s st = (if fs_mode s = State_file then st\<lparr>ts_locked := False\<rparr> else st)"

section \<open>Operations\<close>

text \<open>What \<^verbatim>\<open>acquireLeadership\<close> does between the reload and the removal of the lock.\<close>

definition acquire_body ::
    "string \<Rightarrow> ident \<Rightarrow> ident \<Rightarrow> ident option \<Rightarrow> token_service \<times> token_storage \<Rightarrow>
     fencing_token option \<times> token_service \<times> token_storage" where
  "acquire_body now newId regionId entityId = (\<lambda>(s, st).
     let key = leadership_key entityId;
         held = (case map_of (fs_entityLeadership s) key of
                   None \<Rightarrow> False | Some existing \<Rightarrow> ls_isActive existing \<and> ls_regionId existing \<noteq> regionId)
     in if held then (None, s, st)
        else
          let epoch = fs_epochCounter s + 1;
              token = \<lparr>ft_tokenId = newId, ft_regionId = regionId, ft_epoch = epoch, ft_issuedAt = now,
                       ft_entityId = entityId\<rparr>;
              state = \<lparr>ls_regionId = regionId, ls_epoch = epoch, ls_acquiredAt = now,
                       ls_fencingToken = token, ls_isActive = True\<rparr>;
              s' = set_leadership key state (s\<lparr>fs_epochCounter := epoch\<rparr>)
          in (Some token, s', persistState s' st))"

definition acquireLeadership ::
    "string \<Rightarrow> ident \<Rightarrow> ident \<Rightarrow> ident option \<Rightarrow>
     (token_service \<times> token_storage, token_error, fencing_token option) prog" where
  "acquireLeadership now newId regionId entityId = (\<lambda>(s0, st0).
     case acquirePersistenceLock s0 st0 of
       Inl e \<Rightarrow> (Inl e, (s0, st0))
     | Inr st1 \<Rightarrow>
         (let (r, s, st) = acquire_body now newId regionId entityId (reloadPersistedState st1 s0, st1)
          in (Inr r, (s, releaseLock s st))))"

text \<open>What \<^verbatim>\<open>releaseLeadership\<close> does between the reload and the removal of the lock.\<close>

definition release_body ::
    "ident \<Rightarrow> ident option \<Rightarrow> token_service \<times> token_storage \<Rightarrow> bool \<times> token_service \<times> token_storage" where
  "release_body regionId entityId = (\<lambda>(s, st).
     let key = leadership_key entityId
     in case map_of (fs_entityLeadership s) key of
          None \<Rightarrow> (False, s, st)
        | Some existing \<Rightarrow>
            if \<not> ls_isActive existing \<or> ls_regionId existing \<noteq> regionId then (False, s, st)
            else
              let s' = set_leadership key (existing\<lparr>ls_isActive := False\<rparr>) s
              in (True, s', persistState s' st))"

definition releaseLeadership ::
    "ident \<Rightarrow> ident option \<Rightarrow> (token_service \<times> token_storage, token_error, bool) prog" where
  "releaseLeadership regionId entityId = (\<lambda>(s0, st0).
     case acquirePersistenceLock s0 st0 of
       Inl e \<Rightarrow> (Inl e, (s0, st0))
     | Inr st1 \<Rightarrow>
         (let (r, s, st) = release_body regionId entityId (reloadPersistedState st1 s0, st1)
          in (Inr r, (s, releaseLock s st))))"

definition validateFencingToken :: "token_service \<Rightarrow> ident option \<Rightarrow> fencing_token \<Rightarrow> token_validation" where
  "validateFencingToken s entityId token =
     (let invalid = (\<lambda>reason epoch. \<lparr>tv_valid = False, tv_reason = Some reason, tv_currentEpoch = epoch,
                                     tv_tokenEpoch = ft_epoch token\<rparr>)
      in case map_of (fs_entityLeadership s) (leadership_key entityId) of
           None \<Rightarrow> invalid ''no_leadership_established'' (fs_epochCounter s)
         | Some current \<Rightarrow>
             if \<not> ls_isActive current then invalid ''leadership_released'' (ls_epoch current)
             else if ls_regionId current \<noteq> ft_regionId token then invalid ''token_region_mismatch'' (ls_epoch current)
             else if ls_epoch current \<noteq> ft_epoch token then invalid ''stale_token_epoch'' (ls_epoch current)
             else if ft_entityId (ls_fencingToken current) \<noteq> ft_entityId token
             then invalid ''token_entity_mismatch'' (ls_epoch current)
             else if ft_tokenId (ls_fencingToken current) \<noteq> ft_tokenId token
             then invalid ''token_id_mismatch'' (ls_epoch current)
             else \<lparr>tv_valid = True, tv_reason = None, tv_currentEpoch = ls_epoch current, tv_tokenEpoch = ft_epoch token\<rparr>)"

definition getLeadership :: "token_service \<Rightarrow> ident option \<Rightarrow> leadership_state option" where
  "getLeadership s entityId = map_of (fs_entityLeadership s) (leadership_key entityId)"

definition isLeader :: "token_service \<Rightarrow> ident \<Rightarrow> ident option \<Rightarrow> bool" where
  "isLeader s regionId entityId =
     (case getLeadership s entityId of None \<Rightarrow> False | Some l \<Rightarrow> ls_isActive l \<and> ls_regionId l = regionId)"

definition getAllActiveLeaderships :: "token_service \<Rightarrow> leadership_state list" where
  "getAllActiveLeaderships s = filter ls_isActive (map snd (fs_entityLeadership s))"

definition getCurrentEpoch :: "token_service \<Rightarrow> int" where
  "getCurrentEpoch s = fs_epochCounter s"

section \<open>The leadership guard of the leases\<close>

record leadership_decision =
  ld_allowed :: bool
  ld_reasonCode :: "string option"

record guard_options =
  go_workerRegionResolver :: "ident \<Rightarrow> ident \<Rightarrow> ident option"
  go_leadershipEntityId :: "ident option"

definition guard_entityId :: "guard_options \<Rightarrow> ident option" where
  "guard_entityId opts = Some (coalesce (go_leadershipEntityId opts) ''global'')"

definition evaluate :: "guard_options \<Rightarrow> token_service \<Rightarrow> ident \<Rightarrow> ident \<Rightarrow> leadership_decision" where
  "evaluate opts s executionId workerId =
     (let allow = \<lparr>ld_allowed = True, ld_reasonCode = None\<rparr> in
      case getLeadership s (guard_entityId opts) of
        None \<Rightarrow> allow
      | Some leader \<Rightarrow>
          if \<not> ls_isActive leader then allow
          else case go_workerRegionResolver opts workerId executionId of
                 None \<Rightarrow> allow
               | Some region \<Rightarrow>
                   if region = ls_regionId leader then allow
                   else \<lparr>ld_allowed = False, ld_reasonCode = Some ''leader_region_mismatch''\<rparr>)"

definition validateLeaseAcquisition :: "guard_options \<Rightarrow> token_service \<Rightarrow> ident \<Rightarrow> ident \<Rightarrow> leadership_decision" where
  "validateLeaseAcquisition opts s executionId workerId = evaluate opts s executionId workerId"

definition guard_validateWriteAccess :: "guard_options \<Rightarrow> token_service \<Rightarrow> ident \<Rightarrow> ident \<Rightarrow> leadership_decision" where
  "guard_validateWriteAccess opts s executionId workerId = evaluate opts s executionId workerId"

section \<open>Round trip through the storage\<close>

text \<open>Each field that is written is checked and read back under its own name.\<close>

lemma value_field_simps [simp]: "value_field (Some (JObj ms)) k = map_of ms k"
  by (simp add: value_field_def js_property_def)

lemma token_json_read: "isFencingToken (Some (token_json t)) \<and> as_token (Some (token_json t)) = t"
  by (cases "ft_entityId t")
    (simp_all add: token_json_def isFencingToken_def as_token_def non_null_object_def typeof_string_def typeof_number_def
      nullish_value_def as_string_def as_number_def)

lemma leadership_json_read: "isLeadershipState (Some (leadership_json l)) \<and> as_leadership (Some (leadership_json l)) = l"
  using token_json_read [of "ls_fencingToken l"]
  by (simp add: leadership_json_def isLeadershipState_def as_leadership_def non_null_object_def typeof_string_def typeof_number_def
      typeof_boolean_def as_string_def as_number_def)

lemma token_json_keys [simp]: "no_repeated_keys (token_json t)"
  by (simp add: token_json_def split: option.split)

lemma leadership_json_keys [simp]: "no_repeated_keys (leadership_json l)"
  by (simp add: leadership_json_def)

text \<open>The maps of an instance have each key once.\<close>

definition tokens_ok :: "token_service \<Rightarrow> bool" where
  "tokens_ok s \<longleftrightarrow> distinct (map fst (fs_entityLeadership s)) \<and> 0 \<le> fs_epochCounter s"

lemma snapshot_json_keys:
  assumes "distinct (map fst (sn_entityLeadership sn))"
  shows "no_repeated_keys (snapshot_json sn)"
    and "js_property (snapshot_json sn) ''entityLeadership'' = Some (JObj (map (\<lambda>(k, l). (k, leadership_json l)) (own_order (sn_entityLeadership sn))))"
    and "js_property (snapshot_json sn) ''epochCounter'' = Some (JNum (sn_epochCounter sn))"
proof -
  have fst: "map fst (map (\<lambda>(k, l). (k, leadership_json l)) xs) = map fst xs" for xs :: "(ident \<times> leadership_state) list" by auto
  have "Object_fromEntries (map (\<lambda>(k, l). (k, leadership_json l)) (sn_entityLeadership sn))
      = JObj (map (\<lambda>(k, l). (k, leadership_json l)) (own_order (sn_entityLeadership sn)))"
    using assms by (subst fromEntries_distinct) (simp_all only: fst own_order_map)
  then show "no_repeated_keys (snapshot_json sn)"
    and "js_property (snapshot_json sn) ''entityLeadership'' = Some (JObj (map (\<lambda>(k, l). (k, leadership_json l)) (own_order (sn_entityLeadership sn))))"
    and "js_property (snapshot_json sn) ''epochCounter'' = Some (JNum (sn_epochCounter sn))"
    using assms by (auto simp: snapshot_json_def js_property_def fst simp del: map_map)
qed

text \<open>Restoring written entries sets them one after the other.\<close>

lemma restore_written:
  "foldl restore_entry s (map (\<lambda>(k, l). (k, leadership_json l)) es) = foldl (\<lambda>s (k, l). set_leadership k l s) s es"
proof (induction es arbitrary: s)
  case (Cons e es)
  obtain k l where "e = (k, l)" by (cases e)
  then show ?case using Cons leadership_json_read [of l] by (simp add: restore_entry_def)
qed simp

lemma set_leaderships_fields:
  "fs_entityLeadership (foldl (\<lambda>s (k, l). set_leadership k l s) s es)
     = foldl (\<lambda>ms (k, l). AList.update k l ms) (fs_entityLeadership s) es"
  "fs_epochCounter (foldl (\<lambda>s (k, l). set_leadership k l s) s es) = fs_epochCounter s"
  by (induction es arbitrary: s) (simp_all add: set_leadership_def split: prod.split)

lemma load_persisted:
  assumes "tokens_ok s" and "fs_mode s \<noteq> Memory_only" and "fs_mode s' \<noteq> Memory_only"
  shows "loadPersistedState (persistState s st) s'
    = foldl (\<lambda>s (k, l). set_leadership k l s) (s'\<lparr>fs_epochCounter := fs_epochCounter s\<rparr>) (own_order (fs_entityLeadership s))"
proof -
  let ?sn = "\<lparr>sn_epochCounter = fs_epochCounter s, sn_entityLeadership = fs_entityLeadership s\<rparr>"
  have d: "distinct (map fst (sn_entityLeadership ?sn))" using assms(1) by (simp add: tokens_ok_def)
  obtain ms where obj: "snapshot_json ?sn = JObj ms" by (simp add: snapshot_json_def)
  note read = snapshot_json_keys [OF d, unfolded obj]
  have "own_order (map (\<lambda>(k, l). (k, leadership_json l)) (own_order xs)) = map (\<lambda>(k, l). (k, leadership_json l)) (own_order xs)" for xs
    by (simp add: own_order_map own_order_idem)
  then have "applySnapshot (JSON_stringify (JObj ms)) s'
      = Some (foldl (\<lambda>s (k, l). set_leadership k l s) (s'\<lparr>fs_epochCounter := fs_epochCounter s\<rparr>) (own_order (fs_entityLeadership s)))"
    using assms(1) read
    by (simp add: applySnapshot_def JSON_roundtrip Let_def nullish_value_def typeof_number_def as_number_def Object_entries_def
        restore_written tokens_ok_def)
  then show ?thesis using assms(2,3) by (simp add: loadPersistedState_def persistState_def Let_def obj)
qed

lemma reload_persisted:
  assumes "tokens_ok s" and "fs_mode s \<noteq> Memory_only" and "fs_mode s' \<noteq> Memory_only"
  shows "fs_epochCounter (reloadPersistedState (persistState s st) s') = fs_epochCounter s"
    and "fs_entityLeadership (reloadPersistedState (persistState s st) s') = own_order (fs_entityLeadership s)"
proof -
  have "fs_mode (clear_service s') = fs_mode s'" by (simp add: clear_service_def)
  then have load: "reloadPersistedState (persistState s st) s' = foldl (\<lambda>s (k, l). set_leadership k l s)
      ((clear_service s')\<lparr>fs_epochCounter := fs_epochCounter s\<rparr>) (own_order (fs_entityLeadership s))"
    using load_persisted [OF assms(1,2), of "clear_service s'" st] assms(3) by (simp add: reloadPersistedState_def)
  show "fs_epochCounter (reloadPersistedState (persistState s st) s') = fs_epochCounter s"
    by (simp add: load set_leaderships_fields)
  have "distinct (map fst ([] @ own_order (fs_entityLeadership s)))" using assms(1) by (simp add: tokens_ok_def)
  from updates_append [OF this] show "fs_entityLeadership (reloadPersistedState (persistState s st) s') = own_order (fs_entityLeadership s)"
    by (simp add: load set_leaderships_fields clear_service_def)
qed

text \<open>
  C29. What is persisted is what is read back: an instance that persists, whose epoch counter is not
  negative and whose map has each entity once (as a JavaScript map has), writes JSON text; any instance that reloads
  from the storage parses that text, checks it and has the same epoch and the same leadership of every entity,
  with every field of the state and of its token. The entries come back in the order of own properties.
\<close>

theorem persist_reload_roundtrip:
  assumes "tokens_ok s" and "fs_mode s \<noteq> Memory_only" and "fs_mode s' \<noteq> Memory_only"
  shows "fs_epochCounter (reloadPersistedState (persistState s st) s') = fs_epochCounter s
    \<and> (\<forall>entity. getLeadership (reloadPersistedState (persistState s st) s') entity = getLeadership s entity)
    \<and> fs_entityLeadership (reloadPersistedState (persistState s st) s') = own_order (fs_entityLeadership s)"
  using assms(1) by (simp add: getLeadership_def reload_persisted [OF assms] map_of_own_order tokens_ok_def)

definition empty_storage :: token_storage where
  "empty_storage = \<lparr>ts_text = None, ts_locked = False\<rparr>"

definition eu_token :: fencing_token where
  "eu_token = \<lparr>ft_tokenId = ''f1'', ft_regionId = ''eu'', ft_epoch = 1, ft_issuedAt = ''2026-01-01T00:00:00.000Z'', ft_entityId = None\<rparr>"

definition eu_leader :: leadership_state where
  "eu_leader = \<lparr>ls_regionId = ''eu'', ls_epoch = 1, ls_acquiredAt = ''2026-01-01T00:00:00.000Z'', ls_fencingToken = eu_token, ls_isActive = True\<rparr>"

definition file_service :: token_service where
  "file_service = \<lparr>fs_mode = State_file, fs_leaderships = [(''eu'', eu_leader)],
     fs_entityLeadership = [(''GLOBAL'', eu_leader), (''7'', eu_leader)], fs_epochCounter = 4\<rparr>"

theorem persist_reload_roundtrip_witness:
  "fs_epochCounter (reloadPersistedState (persistState file_service empty_storage) file_service) = 4
   \<and> map fst (fs_entityLeadership (reloadPersistedState (persistState file_service empty_storage) file_service)) = [''7'', ''GLOBAL'']"
  using persist_reload_roundtrip [of file_service file_service empty_storage]
  by (simp add: file_service_def tokens_ok_def own_order_def is_array_index_def is_digit_def read_digits_def digit_value_def)

section \<open>What a reload reads\<close>

definition stored_epoch :: "token_storage \<Rightarrow> int" where
  "stored_epoch st = fs_epochCounter (new_FencingTokenService State_file st)"

definition stored_leadership :: "token_storage \<Rightarrow> ident \<rightharpoonup> leadership_state" where
  "stored_leadership st = map_of (fs_entityLeadership (new_FencingTokenService State_file st))"

text \<open>Reading does not depend on where the instance persists, as long as it does.\<close>

lemma set_mode_entry: "restore_entry (s\<lparr>fs_mode := m\<rparr>) e = (restore_entry s e)\<lparr>fs_mode := m\<rparr>"
  by (simp add: restore_entry_def set_leadership_def split: prod.split)

lemma set_mode_restore: "foldl restore_entry (s\<lparr>fs_mode := m\<rparr>) es = (foldl restore_entry s es)\<lparr>fs_mode := m\<rparr>"
  by (induction es arbitrary: s) (simp_all add: set_mode_entry)

lemma set_mode_apply: "applySnapshot raw (s\<lparr>fs_mode := m\<rparr>) = map_option (\<lambda>s. s\<lparr>fs_mode := m\<rparr>) (applySnapshot raw s)"
proof -
  have "foldl restore_entry (s\<lparr>fs_mode := m, fs_epochCounter := e\<rparr>) es = (foldl restore_entry (s\<lparr>fs_epochCounter := e\<rparr>) es)\<lparr>fs_mode := m\<rparr>" for e es
  proof -
    have "s\<lparr>fs_mode := m, fs_epochCounter := e\<rparr> = s\<lparr>fs_epochCounter := e, fs_mode := m\<rparr>" by simp
    then show ?thesis by (simp only: set_mode_restore)
  qed
  then show ?thesis by (simp add: applySnapshot_def Let_def split: option.split)
qed

lemma restore_mode: "fs_mode (foldl restore_entry s es) = fs_mode s"
  by (induction es arbitrary: s) (simp_all add: restore_entry_def set_leadership_def split: prod.split)

lemma apply_mode: "applySnapshot raw s = Some s' \<Longrightarrow> fs_mode s' = fs_mode s"
  by (auto simp: applySnapshot_def Let_def restore_mode split: option.splits if_splits)

lemma load_mode [simp]: "fs_mode (loadPersistedState st s) = fs_mode s" "fs_mode (reloadPersistedState st s) = fs_mode s"
  "fs_mode (new_FencingTokenService mode st) = mode"
  by (auto simp: loadPersistedState_def reloadPersistedState_def new_FencingTokenService_def clear_service_def Let_def apply_mode
      split: option.split)

lemma reload_as_new:
  assumes "fs_mode s \<noteq> Memory_only"
  shows "reloadPersistedState st s = (new_FencingTokenService State_file st)\<lparr>fs_mode := fs_mode s\<rparr>"
proof -
  let ?e = "\<lparr>fs_mode = State_file, fs_leaderships = [], fs_entityLeadership = [], fs_epochCounter = 0\<rparr>"
  have c: "clear_service s = ?e\<lparr>fs_mode := fs_mode s\<rparr>" "clear_service ?e = ?e" by (simp_all add: clear_service_def)
  have "loadPersistedState st (?e\<lparr>fs_mode := fs_mode s\<rparr>) = (loadPersistedState st ?e)\<lparr>fs_mode := fs_mode s\<rparr>"
  proof (cases "fs_mode s = State_file")
    case True
    have "x\<lparr>fs_mode := State_file\<rparr> = x" if "fs_mode x = State_file" for x :: token_service using that by (cases x) simp
    with True show ?thesis by simp
  next
    case False
    with assms set_mode_apply [of _ "fs_mode s" ?e] show ?thesis
      by (simp add: loadPersistedState_def Let_def clear_service_def split: option.split)
  qed
  then show ?thesis by (simp add: reloadPersistedState_def new_FencingTokenService_def c)
qed

lemma reload_reads:
  assumes "fs_mode s \<noteq> Memory_only"
  shows "fs_epochCounter (reloadPersistedState st s) = stored_epoch st"
    and "map_of (fs_entityLeadership (reloadPersistedState st s)) = stored_leadership st"
  by (simp_all add: reload_as_new [OF assms] stored_epoch_def stored_leadership_def)

lemma set_leadership_ok: "tokens_ok s \<Longrightarrow> tokens_ok (set_leadership key l s)"
  by (simp add: tokens_ok_def set_leadership_def AList.distinct_update)

lemma restore_ok: "tokens_ok s \<Longrightarrow> tokens_ok (foldl restore_entry s es)"
  by (induction es arbitrary: s) (simp_all add: restore_entry_def set_leadership_ok split: prod.split)

lemma new_service_ok: "tokens_ok (new_FencingTokenService mode st)"
proof -
  let ?e = "\<lparr>fs_mode = mode, fs_leaderships = [], fs_entityLeadership = [], fs_epochCounter = 0\<rparr>"
  have "tokens_ok s" if "applySnapshot raw ?e = Some s" for raw s
    using that by (auto simp: applySnapshot_def Let_def tokens_ok_def split: option.splits if_splits intro!: restore_ok [unfolded tokens_ok_def])
  then show ?thesis
    by (auto simp: new_FencingTokenService_def loadPersistedState_def clear_service_def Let_def tokens_ok_def split: option.split)
qed

lemma reload_ok: "fs_mode s \<noteq> Memory_only \<Longrightarrow> tokens_ok (reloadPersistedState st s)"
  using new_service_ok [of State_file st] by (simp add: reload_as_new tokens_ok_def)

lemma stored_epoch_nonneg [simp]: "0 \<le> stored_epoch st"
  using new_service_ok by (simp add: stored_epoch_def tokens_ok_def)

lemma stored_of_persist:
  assumes "tokens_ok s" and "fs_mode s \<noteq> Memory_only"
  shows "stored_epoch (persistState s st) = fs_epochCounter s"
    and "stored_leadership (persistState s st) = map_of (fs_entityLeadership s)"
  using reload_persisted [OF assms assms(2), of st] reload_reads [OF assms(2), of "persistState s st"] assms(1)
  by (simp_all add: map_of_own_order tokens_ok_def)

lemma stored_text: "ts_text st = ts_text st' \<Longrightarrow> stored_epoch st = stored_epoch st' \<and> stored_leadership st = stored_leadership st'"
  by (simp add: stored_epoch_def stored_leadership_def new_FencingTokenService_def loadPersistedState_def)

lemma stored_cong [simp]:
  "stored_epoch (releaseLock s st) = stored_epoch st" "stored_leadership (releaseLock s st) = stored_leadership st"
  "stored_epoch (st\<lparr>ts_locked := b\<rparr>) = stored_epoch st" "stored_leadership (st\<lparr>ts_locked := b\<rparr>) = stored_leadership st"
  using stored_text [of "releaseLock s st" st] stored_text [of "st\<lparr>ts_locked := b\<rparr>" st] by (simp_all add: releaseLock_def)

lemma new_service_reads:
  assumes "mode \<noteq> Memory_only"
  shows "map_of (fs_entityLeadership (new_FencingTokenService mode st)) = stored_leadership st"
    and "fs_epochCounter (new_FencingTokenService mode st) = stored_epoch st"
proof -
  let ?e = "\<lparr>fs_mode = mode, fs_leaderships = [], fs_entityLeadership = [], fs_epochCounter = 0\<rparr>"
  have "new_FencingTokenService mode st = reloadPersistedState st ?e"
    by (simp add: new_FencingTokenService_def reloadPersistedState_def clear_service_def)
  with reload_reads [of ?e st] assms show "map_of (fs_entityLeadership (new_FencingTokenService mode st)) = stored_leadership st"
    and "fs_epochCounter (new_FencingTokenService mode st) = stored_epoch st" by simp_all
qed

section \<open>Processes that share a storage\<close>

record token_world =
  tw_instances :: "nat \<Rightarrow> token_service"
  tw_storage :: token_storage
  tw_pending :: "nat set"
  tw_issued :: "fencing_token list"

text \<open>
  An instance that is pending has taken its lock and reloaded, and has not yet decided. Finishing a call
  decides, writes and removes the lock; an instance that stops in between leaves the lock as it is and starts
  again from the storage. The log collects the tokens that were written, the latest first.
\<close>

definition log_token :: "fencing_token option \<Rightarrow> fencing_token list \<Rightarrow> fencing_token list" where
  "log_token r issued = (case r of None \<Rightarrow> issued | Some t \<Rightarrow> t # issued)"

definition restarted :: "token_service \<Rightarrow> token_storage \<Rightarrow> token_service" where
  "restarted s st = new_FencingTokenService (fs_mode s) st"

inductive token_step :: "token_world \<Rightarrow> token_world \<Rightarrow> bool" where
  begin_call: "i \<notin> tw_pending w \<Longrightarrow> acquirePersistenceLock (tw_instances w i) (tw_storage w) = Inr st \<Longrightarrow>
    token_step w (w\<lparr>tw_instances := (tw_instances w)(i := reloadPersistedState st (tw_instances w i)), tw_storage := st,
      tw_pending := insert i (tw_pending w)\<rparr>)"
| finish_acquire: "i \<in> tw_pending w \<Longrightarrow> acquire_body now newId region entity (tw_instances w i, tw_storage w) = (r, s, st) \<Longrightarrow>
    token_step w \<lparr>tw_instances = (tw_instances w)(i := s), tw_storage = releaseLock s st, tw_pending = tw_pending w - {i},
      tw_issued = log_token r (tw_issued w)\<rparr>"
| finish_release: "i \<in> tw_pending w \<Longrightarrow> release_body region entity (tw_instances w i, tw_storage w) = (b, s, st) \<Longrightarrow>
    token_step w (w\<lparr>tw_instances := (tw_instances w)(i := s), tw_storage := releaseLock s st, tw_pending := tw_pending w - {i}\<rparr>)"
| stop_before: "i \<in> tw_pending w \<Longrightarrow>
    token_step w (w\<lparr>tw_instances := (tw_instances w)(i := restarted (tw_instances w i) (tw_storage w)), tw_pending := tw_pending w - {i}\<rparr>)"
| stop_after: "i \<in> tw_pending w \<Longrightarrow> acquire_body now newId region entity (tw_instances w i, tw_storage w) = (r, s, st) \<Longrightarrow>
    token_step w \<lparr>tw_instances = (tw_instances w)(i := restarted s st), tw_storage = st, tw_pending = tw_pending w - {i},
      tw_issued = log_token r (tw_issued w)\<rparr>"

definition initial_tokens :: "(nat \<Rightarrow> token_service) \<Rightarrow> token_world" where
  "initial_tokens inst = \<lparr>tw_instances = inst, tw_storage = empty_storage, tw_pending = {}, tw_issued = []\<rparr>"

text \<open>A call that no other process interrupts is the two steps in a row.\<close>

lemma acquire_two_steps:
  assumes "acquireLeadership now newId region entity (tw_instances w i, tw_storage w) = (Inr r, (s, st))" and "tw_pending w = {}"
  shows "token_step\<^sup>*\<^sup>* w \<lparr>tw_instances = (tw_instances w)(i := s), tw_storage = st, tw_pending = {}, tw_issued = log_token r (tw_issued w)\<rparr>"
proof -
  obtain st1 st2 where lock: "acquirePersistenceLock (tw_instances w i) (tw_storage w) = Inr st1"
    and body: "acquire_body now newId region entity (reloadPersistedState st1 (tw_instances w i), st1) = (r, s, st2)"
    and st: "st = releaseLock s st2"
    using assms(1) by (auto simp: acquireLeadership_def Let_def split: sum.splits prod.splits)
  let ?w = "w\<lparr>tw_instances := (tw_instances w)(i := reloadPersistedState st1 (tw_instances w i)), tw_storage := st1, tw_pending := {i}\<rparr>"
  have "token_step w ?w" using token_step.begin_call [OF _ lock] assms(2) by simp
  moreover have "token_step ?w \<lparr>tw_instances = (tw_instances w)(i := s), tw_storage = st, tw_pending = {}, tw_issued = log_token r (tw_issued w)\<rparr>"
    using token_step.finish_acquire [of i ?w now newId region entity r s st2] body st by simp
  ultimately show ?thesis by (meson converse_rtranclp_into_rtranclp r_into_rtranclp)
qed

lemma release_two_steps:
  assumes "releaseLeadership region entity (tw_instances w i, tw_storage w) = (Inr b, (s, st))" and "tw_pending w = {}"
  shows "token_step\<^sup>*\<^sup>* w (w\<lparr>tw_instances := (tw_instances w)(i := s), tw_storage := st\<rparr>)"
proof -
  obtain st1 st2 where lock: "acquirePersistenceLock (tw_instances w i) (tw_storage w) = Inr st1"
    and body: "release_body region entity (reloadPersistedState st1 (tw_instances w i), st1) = (b, s, st2)"
    and st: "st = releaseLock s st2"
    using assms(1) by (auto simp: releaseLeadership_def Let_def split: sum.splits prod.splits)
  let ?w = "w\<lparr>tw_instances := (tw_instances w)(i := reloadPersistedState st1 (tw_instances w i)), tw_storage := st1, tw_pending := {i}\<rparr>"
  have "token_step w ?w" using token_step.begin_call [OF _ lock] assms(2) by simp
  moreover have "token_step ?w (w\<lparr>tw_instances := (tw_instances w)(i := s), tw_storage := st\<rparr>)"
    using token_step.finish_release [of i ?w region entity b s st2] body st assms(2) by (cases w) simp
  ultimately show ?thesis by (meson converse_rtranclp_into_rtranclp r_into_rtranclp)
qed

text \<open>A loaded instance is current when it holds what the storage holds.\<close>

definition up_to_date :: "token_service \<Rightarrow> token_storage \<Rightarrow> bool" where
  "up_to_date s st \<longleftrightarrow> tokens_ok s \<and> fs_epochCounter s = stored_epoch st \<and> map_of (fs_entityLeadership s) = stored_leadership st"

lemma reload_current: "fs_mode s \<noteq> Memory_only \<Longrightarrow> up_to_date (reloadPersistedState st s) st"
  using reload_reads [of s st] reload_ok [of s st] by (simp add: up_to_date_def)

lemma set_leadership_fields [simp]:
  "fs_mode (set_leadership key l s) = fs_mode s" "fs_epochCounter (set_leadership key l s) = fs_epochCounter s"
  "map_of (fs_entityLeadership (set_leadership key l s)) = (map_of (fs_entityLeadership s))(key \<mapsto> l)"
  by (simp_all add: set_leadership_def AList.update_conv')

lemma acquire_body_cases:
  assumes "acquire_body now newId region entity (s0, st0) = (r, s, st)" and "up_to_date s0 st0" and mode: "fs_mode s0 \<noteq> Memory_only"
  shows "fs_mode s = fs_mode s0 \<and> up_to_date s st \<and> ts_locked st = ts_locked st0 \<and>
    (case r of
       None \<Rightarrow> stored_epoch st = stored_epoch st0 \<and> stored_leadership st = stored_leadership st0
     | Some t \<Rightarrow> t = \<lparr>ft_tokenId = newId, ft_regionId = region, ft_epoch = stored_epoch st0 + 1, ft_issuedAt = now, ft_entityId = entity\<rparr>
         \<and> stored_epoch st = stored_epoch st0 + 1
         \<and> stored_leadership st = (stored_leadership st0)(leadership_key entity \<mapsto>
              \<lparr>ls_regionId = region, ls_epoch = stored_epoch st0 + 1, ls_acquiredAt = now, ls_fencingToken = t, ls_isActive = True\<rparr>))"
proof (cases "case map_of (fs_entityLeadership s0) (leadership_key entity) of
    None \<Rightarrow> False | Some ex \<Rightarrow> ls_isActive ex \<and> ls_regionId ex \<noteq> region")
  case True
  with assms show ?thesis by (auto simp: acquire_body_def Let_def)
next
  case False
  let ?t = "\<lparr>ft_tokenId = newId, ft_regionId = region, ft_epoch = stored_epoch st0 + 1, ft_issuedAt = now, ft_entityId = entity\<rparr>"
  let ?l = "\<lparr>ls_regionId = region, ls_epoch = stored_epoch st0 + 1, ls_acquiredAt = now, ls_fencingToken = ?t, ls_isActive = True\<rparr>"
  let ?s = "set_leadership (leadership_key entity) ?l (s0\<lparr>fs_epochCounter := stored_epoch st0 + 1\<rparr>)"
  have res: "r = Some ?t" "s = ?s" "st = persistState ?s st0"
    using False assms by (auto simp: acquire_body_def Let_def up_to_date_def)
  have ok: "tokens_ok ?s" using assms(2) by (intro set_leadership_ok) (simp add: up_to_date_def tokens_ok_def)
  have "ts_locked (persistState ?s st0) = ts_locked st0" by (simp add: persistState_def Let_def)
  with res ok mode assms(2) show ?thesis by (simp add: up_to_date_def stored_of_persist)
qed

lemma release_body_cases:
  assumes "release_body region entity (s0, st0) = (b, s, st)" and "up_to_date s0 st0" and mode: "fs_mode s0 \<noteq> Memory_only"
  shows "fs_mode s = fs_mode s0 \<and> stored_epoch st = stored_epoch st0 \<and>
    (stored_leadership st = stored_leadership st0 \<or>
     (\<exists>ex. stored_leadership st0 (leadership_key entity) = Some ex
        \<and> stored_leadership st = (stored_leadership st0)(leadership_key entity \<mapsto> ex\<lparr>ls_isActive := False\<rparr>)))"
proof (cases "b")
  case False
  with assms(1) show ?thesis by (auto simp: release_body_def Let_def split: option.splits if_splits)
next
  case True
  then obtain ex where ex: "map_of (fs_entityLeadership s0) (leadership_key entity) = Some ex"
    and s: "s = set_leadership (leadership_key entity) (ex\<lparr>ls_isActive := False\<rparr>) s0" and st: "st = persistState s st0"
    using assms(1) by (auto simp: release_body_def Let_def split: option.splits if_splits)
  have "tokens_ok s" unfolding s using assms(2) by (intro set_leadership_ok) (simp add: up_to_date_def)
  with ex s st mode assms(2) show ?thesis by (simp add: up_to_date_def stored_of_persist)
qed

definition token_key :: "fencing_token \<Rightarrow> ident" where
  "token_key t = leadership_key (ft_entityId t)"

definition records_latest :: "fencing_token list \<Rightarrow> ident \<Rightarrow> leadership_state option \<Rightarrow> bool" where
  "records_latest issued key entry = (case entry of
      None \<Rightarrow> (\<forall>t \<in> set issued. token_key t \<noteq> key)
    | Some ls \<Rightarrow> ls_fencingToken ls \<in> set issued \<and> token_key (ls_fencingToken ls) = key
        \<and> ls_epoch ls = ft_epoch (ls_fencingToken ls) \<and> ls_regionId ls = ft_regionId (ls_fencingToken ls)
        \<and> (\<forall>t \<in> set issued. token_key t = key \<longrightarrow> ft_epoch t \<le> ls_epoch ls))"

text \<open>The storage keeps, for every entity, the latest token that was written.\<close>

definition storage_inv :: "token_storage \<Rightarrow> fencing_token list \<Rightarrow> bool" where
  "storage_inv st issued \<longleftrightarrow> sorted_wrt (\<lambda>t u. ft_epoch u < ft_epoch t) issued
     \<and> (\<forall>t \<in> set issued. ft_epoch t \<le> stored_epoch st)
     \<and> (\<forall>key. records_latest issued key (stored_leadership st key))"

text \<open>At most one instance is pending; it holds the lock and is current.\<close>

definition lock_inv :: "token_world \<Rightarrow> bool" where
  "lock_inv w \<longleftrightarrow> (\<forall>i. fs_mode (tw_instances w i) = State_file)
     \<and> (\<forall>i \<in> tw_pending w. tw_pending w = {i} \<and> ts_locked (tw_storage w) \<and> up_to_date (tw_instances w i) (tw_storage w))"

lemma records_latest_inactive:
  "records_latest issued key (Some ex) \<Longrightarrow> records_latest issued key (Some (ex\<lparr>ls_isActive := False\<rparr>))"
  by (auto simp: records_latest_def)

lemma storage_inv_acquire:
  assumes "acquire_body now newId region entity (s0, st0) = (r, s, st)" and "up_to_date s0 st0" and "fs_mode s0 \<noteq> Memory_only"
    and inv: "storage_inv st0 issued"
  shows "storage_inv st (log_token r issued)"
proof (cases r)
  case None
  with acquire_body_cases [OF assms(1-3)] inv show ?thesis by (simp add: storage_inv_def log_token_def)
next
  case (Some t)
  note c = acquire_body_cases [OF assms(1-3), unfolded Some option.case]
  have old: "\<forall>u \<in> set issued. ft_epoch u < ft_epoch t" using inv c by (force simp: storage_inv_def)
  have "records_latest (t # issued) key (stored_leadership st key)" for key
  proof (cases "key = leadership_key entity")
    case True
    with c old show ?thesis by (auto simp: records_latest_def token_key_def)
  next
    case False
    then have "stored_leadership st key = stored_leadership st0 key" "token_key t \<noteq> key" using c by (simp_all add: token_key_def)
    moreover have "records_latest issued key (stored_leadership st0 key)" using inv by (simp add: storage_inv_def)
    ultimately show ?thesis by (auto simp: records_latest_def split: option.splits)
  qed
  with inv c old show ?thesis by (fastforce simp: storage_inv_def log_token_def Some)
qed

lemma storage_inv_release:
  assumes "release_body region entity (s0, st0) = (b, s, st)" and "up_to_date s0 st0" and "fs_mode s0 \<noteq> Memory_only"
    and inv: "storage_inv st0 issued"
  shows "storage_inv st issued"
proof -
  note c = release_body_cases [OF assms(1-3)]
  have old: "records_latest issued key (stored_leadership st0 key)" for key using inv by (simp add: storage_inv_def)
  have "records_latest issued key (stored_leadership st key)" for key
    using c old [of key] by (cases "key = leadership_key entity") (auto simp: records_latest_inactive)
  with inv c show ?thesis by (auto simp: storage_inv_def)
qed

lemma storage_inv_cong [simp]: "storage_inv (releaseLock s st) issued = storage_inv st issued" "storage_inv (st\<lparr>ts_locked := b\<rparr>) issued = storage_inv st issued"
  by (simp_all add: storage_inv_def)

lemma token_inv_step:
  assumes "token_step w w'" and "lock_inv w \<and> storage_inv (tw_storage w) (tw_issued w)"
  shows "lock_inv w' \<and> storage_inv (tw_storage w') (tw_issued w')"
  using assms
proof (induction rule: token_step.induct)
  case (begin_call i w st)
  then have mode: "fs_mode (tw_instances w i) = State_file" by (simp add: lock_inv_def)
  then have st: "\<not> ts_locked (tw_storage w)" "st = (tw_storage w)\<lparr>ts_locked := True\<rparr>"
    using begin_call.hyps(2) by (auto simp: acquirePersistenceLock_def split: if_splits)
  then have "tw_pending w = {}" using begin_call.prems by (auto simp: lock_inv_def)
  moreover have "up_to_date (reloadPersistedState st (tw_instances w i)) st"
    using mode by (intro reload_current) simp
  ultimately show ?case using begin_call.prems st mode by (simp add: lock_inv_def)
next
  case (finish_acquire i w now newId region entity r s st)
  then have i: "fs_mode (tw_instances w i) = State_file" "up_to_date (tw_instances w i) (tw_storage w)" "tw_pending w = {i}" by (auto simp: lock_inv_def)
  with finish_acquire storage_inv_acquire [OF finish_acquire.hyps(2)] acquire_body_cases [OF finish_acquire.hyps(2)] show ?case
    by (simp add: lock_inv_def)
next
  case (finish_release i w region entity b s st)
  then have i: "fs_mode (tw_instances w i) = State_file" "up_to_date (tw_instances w i) (tw_storage w)" "tw_pending w = {i}" by (auto simp: lock_inv_def)
  with finish_release storage_inv_release [OF finish_release.hyps(2)] release_body_cases [OF finish_release.hyps(2)] show ?case
    by (simp add: lock_inv_def)
next
  case (stop_before i w)
  then have "tw_pending w = {i}" by (auto simp: lock_inv_def)
  with stop_before show ?case by (simp add: lock_inv_def restarted_def)
next
  case (stop_after i w now newId region entity r s st)
  then have i: "fs_mode (tw_instances w i) = State_file" "up_to_date (tw_instances w i) (tw_storage w)" "tw_pending w = {i}" by (auto simp: lock_inv_def)
  with stop_after storage_inv_acquire [OF stop_after.hyps(2)] acquire_body_cases [OF stop_after.hyps(2)] show ?case
    by (simp add: lock_inv_def restarted_def)
qed

lemma token_inv_reachable:
  assumes "token_step\<^sup>*\<^sup>* (initial_tokens inst) w" and "\<forall>i. fs_mode (inst i) = State_file"
  shows "lock_inv w \<and> storage_inv (tw_storage w) (tw_issued w)"
  using assms(1)
proof (induction rule: rtranclp_induct)
  case base
  have "stored_leadership empty_storage = Map.empty"
    by (simp add: stored_leadership_def new_FencingTokenService_def loadPersistedState_def empty_storage_def clear_service_def)
  with assms(2) show ?case by (simp add: lock_inv_def storage_inv_def initial_tokens_def records_latest_def)
qed (rule token_inv_step)

lemma valid_token_iff:
  "tv_valid (validateFencingToken s entity t) \<longleftrightarrow>
     (\<exists>ls. map_of (fs_entityLeadership s) (leadership_key entity) = Some ls \<and> ls_isActive ls \<and> ls_regionId ls = ft_regionId t
        \<and> ls_epoch ls = ft_epoch t \<and> ft_entityId (ls_fencingToken ls) = ft_entityId t \<and> ft_tokenId (ls_fencingToken ls) = ft_tokenId t)"
  by (auto simp: validateFencingToken_def Let_def split: option.splits)

lemma issued_epoch_inj:
  assumes "sorted_wrt (\<lambda>t u. ft_epoch u < ft_epoch t) ts" and "t \<in> set ts" and "u \<in> set ts" and "ft_epoch t = ft_epoch u"
  shows "t = u"
  using assms by (induction ts) auto


section \<open>First acquisitions over an empty storage\<close>

definition fresh_service :: "persistence_mode \<Rightarrow> token_service" where
  "fresh_service mode = \<lparr>fs_mode = mode, fs_leaderships = [], fs_entityLeadership = [], fs_epochCounter = 0\<rparr>"

lemma new_on_empty: "mode \<noteq> Memory_only \<Longrightarrow> ts_text st = None \<Longrightarrow> new_FencingTokenService mode st = fresh_service mode"
  by (simp add: new_FencingTokenService_def loadPersistedState_def clear_service_def fresh_service_def)

lemma reload_empty: "mode \<noteq> Memory_only \<Longrightarrow> ts_text st = None \<Longrightarrow> reloadPersistedState st (fresh_service mode) = fresh_service mode"
  using reload_as_new [of "fresh_service mode" st] by (simp add: new_on_empty) (simp add: fresh_service_def)

definition first_token :: "ident \<Rightarrow> ident \<Rightarrow> fencing_token" where
  "first_token newId region = eu_token\<lparr>ft_tokenId := newId, ft_regionId := region\<rparr>"

definition first_holder :: "persistence_mode \<Rightarrow> ident \<Rightarrow> ident \<Rightarrow> token_service" where
  "first_holder mode newId region =
     (let l = eu_leader\<lparr>ls_regionId := region, ls_fencingToken := first_token newId region\<rparr>
      in \<lparr>fs_mode = mode, fs_leaderships = [(region, l)], fs_entityLeadership = [(''GLOBAL'', l)], fs_epochCounter = 1\<rparr>)"

lemma first_acquire:
  "acquire_body ''2026-01-01T00:00:00.000Z'' newId region None (fresh_service mode, st)
     = (Some (first_token newId region), first_holder mode newId region, persistState (first_holder mode newId region) st)"
  by (simp add: acquire_body_def fresh_service_def leadership_key_def set_leadership_def first_token_def first_holder_def
      eu_token_def eu_leader_def Let_def)

lemma first_valid: "tv_valid (validateFencingToken (first_holder mode newId region) None (first_token newId region))"
  by (simp add: valid_token_iff first_holder_def first_token_def eu_leader_def eu_token_def leadership_key_def Let_def)

lemma first_holder_ok: "tokens_ok (first_holder mode newId region)" "fs_mode (first_holder mode newId region) = mode"
  by (simp_all add: tokens_ok_def first_holder_def Let_def)

definition eu_storage :: token_storage where
  "eu_storage = persistState (first_holder State_file ''f1'' ''eu'') empty_storage"

lemma eu_acquires:
  "acquireLeadership ''2026-01-01T00:00:00.000Z'' ''f1'' ''eu'' None (fresh_service State_file, empty_storage)
     = (Inr (Some (first_token ''f1'' ''eu'')), (first_holder State_file ''f1'' ''eu'', eu_storage))"
proof -
  have "acquirePersistenceLock (fresh_service State_file) empty_storage = Inr (empty_storage\<lparr>ts_locked := True\<rparr>)"
    by (simp add: acquirePersistenceLock_def fresh_service_def empty_storage_def)
  moreover have "releaseLock (first_holder State_file ''f1'' ''eu'') (persistState (first_holder State_file ''f1'' ''eu'') (empty_storage\<lparr>ts_locked := True\<rparr>)) = eu_storage"
    by (simp add: releaseLock_def persistState_def first_holder_ok eu_storage_def empty_storage_def Let_def)
  ultimately show ?thesis by (simp add: acquireLeadership_def reload_empty first_acquire empty_storage_def)
qed

lemma eu_stored: "stored_leadership eu_storage = map_of (fs_entityLeadership (first_holder State_file ''f1'' ''eu''))" "stored_epoch eu_storage = 1"
  using stored_of_persist [OF first_holder_ok(1), of State_file "''f1''" "''eu''" empty_storage]
  by (simp_all add: eu_storage_def first_holder_ok) (simp add: first_holder_def Let_def)


section \<open>Where single leadership fails\<close>

text \<open>
  With a database there is no lock: two processes that both read the row before either writes it issue two
  tokens with the same epoch for the same entity, for different regions, and each process validates its own.
\<close>

theorem database_race_issues_epoch_twice:
  "\<exists>w. token_step\<^sup>*\<^sup>* (initial_tokens (\<lambda>i. fresh_service Database)) w
     \<and> tw_issued w = [first_token ''f2'' ''us'', first_token ''f1'' ''eu'']
     \<and> ft_epoch (first_token ''f2'' ''us'') = ft_epoch (first_token ''f1'' ''eu'')
     \<and> tv_valid (validateFencingToken (tw_instances w 0) None (first_token ''f1'' ''eu''))
     \<and> tv_valid (validateFencingToken (tw_instances w 1) None (first_token ''f2'' ''us''))"
proof -
  let ?inst = "\<lambda>i :: nat. fresh_service Database" and ?eu = "first_holder Database ''f1'' ''eu''" and ?us = "first_holder Database ''f2'' ''us''"
  let ?w0 = "initial_tokens ?inst"
  let ?w1 = "?w0\<lparr>tw_pending := {0}\<rparr>" and ?w2 = "?w0\<lparr>tw_pending := {0, 1}\<rparr>"
  let ?st = "persistState ?eu empty_storage"
  let ?w3 = "\<lparr>tw_instances = ?inst(0 := ?eu), tw_storage = ?st, tw_pending = {1}, tw_issued = [first_token ''f1'' ''eu'']\<rparr>"
  let ?w4 = "\<lparr>tw_instances = ?inst(0 := ?eu, 1 := ?us), tw_storage = persistState ?us ?st, tw_pending = {},
    tw_issued = [first_token ''f2'' ''us'', first_token ''f1'' ''eu'']\<rparr>"
  have lock: "acquirePersistenceLock (fresh_service Database) empty_storage = Inr empty_storage"
    by (simp add: acquirePersistenceLock_def fresh_service_def)
  have reload: "reloadPersistedState empty_storage (fresh_service Database) = fresh_service Database"
    by (rule reload_empty) (simp_all add: empty_storage_def)
  have "token_step ?w0 ?w1"
    using token_step.begin_call [of 0 ?w0 empty_storage] by (simp add: initial_tokens_def lock reload fun_upd_idem)
  moreover have "token_step ?w1 ?w2"
    using token_step.begin_call [of 1 ?w1 empty_storage] by (simp add: initial_tokens_def lock reload fun_upd_idem insert_commute)
  moreover have "token_step ?w2 ?w3"
    using token_step.finish_acquire [of 0 ?w2 "''2026-01-01T00:00:00.000Z''" "''f1''" "''eu''" None]
    by (simp add: initial_tokens_def first_acquire log_token_def releaseLock_def first_holder_ok insert_Diff_if)
  moreover have "token_step ?w3 ?w4"
    using token_step.finish_acquire [of 1 ?w3 "''2026-01-01T00:00:00.000Z''" "''f2''" "''us''" None]
    by (simp add: first_acquire log_token_def releaseLock_def first_holder_ok)
  ultimately have "token_step\<^sup>*\<^sup>* ?w0 ?w4" by (meson converse_rtranclp_into_rtranclp rtranclp.rtrancl_refl)
  then show ?thesis using first_valid by (intro exI [of _ ?w4]) (simp add: first_token_def)
qed

text \<open>
  A process that stops between taking the lock and removing it leaves the lock file behind, and from then on
  nothing happens any more: every acquisition and release by every process fails.
\<close>

theorem abandoned_lock_blocks_leadership:
  "\<exists>w. token_step\<^sup>*\<^sup>* (initial_tokens (\<lambda>i. fresh_service State_file)) w \<and> tw_issued w = [] \<and> (\<forall>w'. \<not> token_step w w')
     \<and> (\<forall>i now newId region entity.
          fst (acquireLeadership now newId region entity (tw_instances w i, tw_storage w)) = Inl Lock_held
        \<and> fst (releaseLeadership region entity (tw_instances w i, tw_storage w)) = Inl Lock_held)"
proof -
  let ?w0 = "initial_tokens (\<lambda>i. fresh_service State_file)"
  let ?st = "empty_storage\<lparr>ts_locked := True\<rparr>"
  let ?w1 = "?w0\<lparr>tw_storage := ?st, tw_pending := {0}\<rparr>" and ?w2 = "?w0\<lparr>tw_storage := ?st\<rparr>"
  have fresh: "reloadPersistedState ?st (fresh_service State_file) = fresh_service State_file"
    "restarted (fresh_service State_file) ?st = fresh_service State_file"
    by (simp_all add: reload_empty empty_storage_def restarted_def new_on_empty) (simp add: fresh_service_def new_on_empty)
  have lock: "acquirePersistenceLock (fresh_service State_file) empty_storage = Inr ?st" "acquirePersistenceLock (fresh_service State_file) ?st = Inl Lock_held"
    by (simp_all add: acquirePersistenceLock_def fresh_service_def empty_storage_def)
  have "token_step ?w0 ?w1" using token_step.begin_call [of 0 ?w0 ?st] by (simp add: initial_tokens_def lock fresh fun_upd_idem)
  moreover have "token_step ?w1 ?w2" using token_step.stop_before [of 0 ?w1] by (simp add: initial_tokens_def fresh fun_upd_idem)
  moreover have "\<not> token_step ?w2 w'" for w' by (auto simp: initial_tokens_def lock elim: token_step.cases)
  ultimately show ?thesis
    by (intro exI [of _ ?w2]) (auto simp: initial_tokens_def acquireLeadership_def releaseLeadership_def lock intro: converse_rtranclp_into_rtranclp)
qed

text \<open>
  Without a storage there is no leadership: an instance that keeps its state in memory only forgets it at
  the start of every acquisition, so every region acquires leadership of every entity at any time, always
  with epoch one, and no release ever finds the leadership it should release.
\<close>

theorem memory_only_forgets_leadership:
  assumes "fs_mode s = Memory_only"
  shows "fst (acquireLeadership now newId region entity (s, st))
      = Inr (Some \<lparr>ft_tokenId = newId, ft_regionId = region, ft_epoch = 1, ft_issuedAt = now, ft_entityId = entity\<rparr>)
    \<and> fst (releaseLeadership region entity (s, st)) = Inr False"
  using assms
  by (simp add: acquireLeadership_def releaseLeadership_def acquirePersistenceLock_def acquire_body_def release_body_def
      reloadPersistedState_def loadPersistedState_def clear_service_def Let_def)

theorem memory_only_forgets_leadership_witness:
  "isLeader (first_holder Memory_only ''f1'' ''eu'') ''eu'' None
   \<and> fst (acquireLeadership [] ''f2'' ''us'' None (first_holder Memory_only ''f1'' ''eu'', empty_storage))
      = Inr (Some \<lparr>ft_tokenId = ''f2'', ft_regionId = ''us'', ft_epoch = 1, ft_issuedAt = [], ft_entityId = None\<rparr>)"
proof -
  have "isLeader (first_holder Memory_only ''f1'' ''eu'') ''eu'' None"
    by (simp add: isLeader_def getLeadership_def leadership_key_def first_holder_def eu_leader_def Let_def)
  with memory_only_forgets_leadership [of "first_holder Memory_only ''f1'' ''eu''" "[]" "''f2''" "''us''" None empty_storage] show ?thesis
    by (simp add: first_holder_ok)
qed

text \<open>
  An instance that has not reloaded accepts a revoked token: one instance acquires leadership for a
  region; another, over the same storage, releases it and acquires it for a second region; then the first
  instance still validates the first token while the other validates the second.
\<close>

theorem stale_instance_accepts_revoked_token:
  "\<exists>s1 st1 s2 st2 s3 st3 t now.
     acquireLeadership now ''f1'' ''eu'' None (fresh_service State_file, empty_storage) = (Inr (Some (first_token ''f1'' ''eu'')), (s1, st1))
   \<and> releaseLeadership ''eu'' None (fresh_service State_file, st1) = (Inr True, (s2, st2))
   \<and> acquireLeadership now ''f2'' ''us'' None (s2, st2) = (Inr (Some t), (s3, st3))
   \<and> t \<noteq> first_token ''f1'' ''eu'' \<and> tv_valid (validateFencingToken s1 None (first_token ''f1'' ''eu'')) \<and> tv_valid (validateFencingToken s3 None t)"
proof -
  let ?now = "''2026-01-01T00:00:00.000Z''" and ?fresh = "fresh_service State_file"
  let ?eu = "eu_leader\<lparr>ls_regionId := ''eu'', ls_fencingToken := first_token ''f1'' ''eu''\<rparr>"
  define st where "st = eu_storage\<lparr>ts_locked := True\<rparr>"
  have lock: "acquirePersistenceLock ?fresh eu_storage = Inr st" by (simp add: acquirePersistenceLock_def fresh_service_def st_def eu_storage_def persistState_def empty_storage_def Let_def)
  have cur: "up_to_date (reloadPersistedState st ?fresh) st" by (rule reload_current) (simp add: fresh_service_def)
  have held: "map_of (fs_entityLeadership (reloadPersistedState st ?fresh)) ''GLOBAL'' = Some ?eu"
    using cur by (simp add: up_to_date_def st_def eu_stored) (simp add: first_holder_def Let_def)
  obtain b s2 st' where body: "release_body ''eu'' None (reloadPersistedState st ?fresh, st) = (b, s2, st')" by (cases "release_body ''eu'' None (reloadPersistedState st ?fresh, st)")
  then have b: "b" and s2: "s2 = set_leadership ''GLOBAL'' (?eu\<lparr>ls_isActive := False\<rparr>) (reloadPersistedState st ?fresh)" and st': "st' = persistState s2 st"
    using held by (auto simp: release_body_def leadership_key_def eu_leader_def Let_def)
  have mode: "fs_mode s2 = State_file" by (simp add: s2) (simp add: fresh_service_def)
  have "tokens_ok s2" unfolding s2 using cur by (intro set_leadership_ok) (simp add: up_to_date_def)
  then have stored: "stored_leadership st' ''GLOBAL'' = Some (?eu\<lparr>ls_isActive := False\<rparr>)" "stored_epoch st' = 1"
    using mode cur by (simp_all add: st' stored_of_persist) (simp_all add: s2 up_to_date_def st_def eu_stored)
  have released: "releaseLeadership ''eu'' None (?fresh, eu_storage) = (Inr True, (s2, releaseLock s2 st'))"
    using lock body b by (simp add: releaseLeadership_def)
  let ?st2 = "releaseLock s2 st'"
  define st3 where "st3 = ?st2\<lparr>ts_locked := True\<rparr>"
  have lock2: "acquirePersistenceLock s2 ?st2 = Inr st3" by (simp add: acquirePersistenceLock_def mode releaseLock_def st3_def)
  have cur3: "up_to_date (reloadPersistedState st3 s2) st3" by (rule reload_current) (simp add: mode)
  obtain r s3 st4 where body3: "acquire_body ?now ''f2'' ''us'' None (reloadPersistedState st3 s2, st3) = (r, s3, st4)"
    by (cases "acquire_body ?now ''f2'' ''us'' None (reloadPersistedState st3 s2, st3)")
  have "r \<noteq> None" using body3 cur3 stored by (auto simp: acquire_body_def leadership_key_def up_to_date_def st3_def Let_def)
  then obtain t where r: "r = Some t" by blast
  note c = acquire_body_cases [OF body3 cur3, unfolded r option.case]
  have t: "ft_epoch t = 2" "ft_regionId t = ''us''" using c mode stored by (simp_all add: st3_def)
  have "acquireLeadership ?now ''f2'' ''us'' None (s2, ?st2) = (Inr (Some t), (s3, releaseLock s3 st4))"
    using lock2 body3 r by (simp add: acquireLeadership_def)
  moreover have "tv_valid (validateFencingToken s3 None t)"
    using c mode by (auto simp: valid_token_iff up_to_date_def)
  moreover have "t \<noteq> first_token ''f1'' ''eu''" using t by (auto simp: first_token_def)
  ultimately show ?thesis using eu_acquires released first_valid by blast
qed

text \<open>
  The default lease guard looks at the wrong leadership: with no configured entity it asks for the
  entity \<^verbatim>\<open>global\<close>, while global leadership is kept under \<^verbatim>\<open>GLOBAL\<close>. As long as nobody leads an entity named
  \<^verbatim>\<open>global\<close>, it allows every worker of every region, whoever holds the global leadership.
\<close>

theorem default_guard_ignores_global_leader:
  assumes "go_leadershipEntityId opts = None" and "map_of (fs_entityLeadership s) ''global'' = None"
    and "isLeader s leaderRegion None" and "go_workerRegionResolver opts workerId executionId = Some workerRegion"
    and "workerRegion \<noteq> leaderRegion"
  shows "ld_allowed (validateLeaseAcquisition opts s executionId workerId)
    \<and> ld_allowed (guard_validateWriteAccess opts s executionId workerId)"
  using assms
  by (simp add: validateLeaseAcquisition_def guard_validateWriteAccess_def evaluate_def Let_def getLeadership_def
      guard_entityId_def leadership_key_def)

definition us_workers :: guard_options where
  "us_workers = \<lparr>go_workerRegionResolver = (\<lambda>w e. Some ''us''), go_leadershipEntityId = None\<rparr>"

theorem default_guard_ignores_global_leader_witness:
  "isLeader (first_holder State_file ''f1'' ''eu'') ''eu'' None \<and> ld_allowed (validateLeaseAcquisition us_workers (first_holder State_file ''f1'' ''eu'') ''exec'' ''worker'')"
proof -
  have "isLeader (first_holder State_file ''f1'' ''eu'') ''eu'' None"
    by (simp add: isLeader_def getLeadership_def leadership_key_def first_holder_def Let_def eu_leader_def)
  with default_guard_ignores_global_leader [of us_workers "first_holder State_file ''f1'' ''eu''" "''eu''" "''worker''" "''exec''" "''us''"] show ?thesis
    by (simp add: us_workers_def first_holder_def Let_def)
qed

end
