(* ===== verification/Execution_Lease.thy ===== *)
theory Execution_Lease
  imports Worker_Registry Fencing_Tokens
begin

text \<open>
  Execution leases (\<^verbatim>\<open>src/src/platform/five-plane-execution/lease/execution-lease-service.ts\<close>) over the lease
  table of \<^verbatim>\<open>.../truth/sqlite/repositories/execution-ticket-repository.ts\<close> with the unique indexes of
  \<^verbatim>\<open>.../truth/sql/phase_1a_schema_sql_part-2.ts\<close>.

  The service works on a store: the executions, the lease table in insertion order, the audit trail, the
  worker registry, the agent records and the event log. Of executions and agent records only the columns that
  the modelled services read or write are kept. Identifiers of new leases are arguments, identifiers of audits and
  events are left out. A transaction that throws leaves the store as it was. The leadership guard is an
  optional pair of decisions; \<open>Fencing_Tokens\<close> provides it. The branches for stores that lack a repository
  method are not modelled. Times to live are integers.
\<close>

section \<open>Records\<close>

datatype lease_status = Lease_active | Lease_expired | Lease_released | Lease_reclaimed | Lease_handed_over

datatype lease_audit_event =
    Audit_granted | Audit_renewed | Audit_expired | Audit_reclaimed | Audit_stale_write_rejected | Audit_released | Audit_handover

record execution_lease =
  el_id :: ident
  el_executionId :: ident
  el_workerId :: ident
  el_attempt :: int
  el_fencingToken :: int
  el_queueName :: "ident option"
  el_status :: lease_status
  el_leasedAt :: timestamp
  el_expiresAt :: timestamp
  el_lastHeartbeatAt :: "timestamp option"
  el_releasedAt :: "timestamp option"
  el_reasonCode :: "string option"

record lease_audit =
  la_executionId :: ident
  la_leaseId :: ident
  la_workerId :: ident
  la_fencingToken :: int
  la_eventType :: lease_audit_event
  la_reasonCode :: "string option"
  la_recordedAt :: timestamp

text \<open>A text column that the code means to hold a time.\<close>

datatype stored_time = At timestamp | Text string

record execution_row =
  ex_taskId :: ident
  ex_traceId :: ident
  ex_attempt :: int
  ex_agentId :: ident
  ex_status :: string
  ex_updatedAt :: stored_time
  ex_startedAt :: "stored_time option"
  ex_finishedAt :: "stored_time option"
  ex_lastErrorCode :: "string option"
  ex_createdAt :: timestamp

record agent_row =
  ag_agentId :: ident
  ag_runtimeInstanceId :: "ident option"
  ag_restartedFromRuntimeInstanceId :: "ident option"
  ag_restartGeneration :: int
  ag_status :: string
  ag_currentStepId :: "ident option"
  ag_lastToolName :: "string option"
  ag_toolCallCount :: int
  ag_lastErrorCode :: "string option"
  ag_retryCount :: int
  ag_progressMessage :: "string option"
  ag_startedAt :: "stored_time option"
  ag_createdAt :: timestamp
  ag_updatedAt :: timestamp
  ag_completedAt :: "timestamp option"

datatype lease_event =
    Grant_rejected ident ident ident int timestamp
  | Handover_recorded ident execution_lease execution_lease string timestamp

record lease_store =
  st_executions :: "ident \<rightharpoonup> execution_row"
  st_leases :: "execution_lease list"
  st_audits :: "lease_audit list"
  st_registry :: registry_state
  st_agents :: "ident \<rightharpoonup> agent_row"
  st_events :: "lease_event list"

datatype lease_error =
    Execution_not_found ident
  | Invalid_lease_ttl int
  | Unique_violation
  | Registry_error registry_error

type_synonym 'a lease_prog = "(lease_store, lease_error, 'a) prog"

definition MIN_LEASE_TTL_MS :: int where "MIN_LEASE_TTL_MS = 5000"
definition MAX_LEASE_TTL_MS :: int where "MAX_LEASE_TTL_MS = 30000"

record acquire_input =
  ai_executionId :: ident
  ai_workerId :: ident
  ai_ttlMs :: int
  ai_queueName :: "ident option"

record renew_input =
  ri_leaseId :: ident
  ri_workerId :: ident
  ri_ttlMs :: int

record lease_release_input =
  li_leaseId :: ident
  li_workerId :: ident
  li_fencingToken :: "int option"
  li_reasonCode :: "string option"

record handover_input =
  hi_leaseId :: ident
  hi_workerId :: ident
  hi_newWorkerId :: ident
  hi_ttlMs :: int
  hi_requiredCapabilities :: "string list option"
  hi_requiredIsolationLevel :: "isolation_level option"
  hi_requiredRepoVersion :: "string option"
  hi_reasonCode :: "string option"

record write_input =
  wi_executionId :: ident
  wi_workerId :: ident
  wi_fencingToken :: int
  wi_leaseId :: "ident option"

datatype lease_outcome = Out_granted | Out_blocked | Out_released | Out_renewed | Out_handed_over

record lease_decision =
  dc_outcome :: lease_outcome
  dc_reasonCode :: "string option"
  dc_lease :: "execution_lease option"

record handover_decision =
  ho_outcome :: lease_outcome
  ho_reasonCode :: "string option"
  ho_previousLease :: "execution_lease option"
  ho_lease :: "execution_lease option"

record write_validation =
  va_allowed :: bool
  va_reasonCode :: "string option"
  va_authoritativeFencingToken :: int
  va_activeLeaseId :: "ident option"

record leadership_guard =
  lg_validateLeaseAcquisition :: "ident \<Rightarrow> ident \<Rightarrow> timestamp \<Rightarrow> leadership_decision"
  lg_validateWriteAccess :: "ident \<Rightarrow> ident \<Rightarrow> timestamp \<Rightarrow> leadership_decision"

definition multi_region_guard :: "guard_options \<Rightarrow> token_service \<Rightarrow> leadership_guard" where
  "multi_region_guard opts s = \<lparr>lg_validateLeaseAcquisition = (\<lambda>e w t. validateLeaseAcquisition opts s e w),
     lg_validateWriteAccess = (\<lambda>e w t. guard_validateWriteAccess opts s e w)\<rparr>"

section \<open>The lease table\<close>

definition plusMs :: "timestamp \<Rightarrow> int \<Rightarrow> timestamp" where
  "plusMs t ms = t + ms"

definition getExecutionLease :: "ident \<Rightarrow> execution_lease list \<Rightarrow> execution_lease option" where
  "getExecutionLease leaseId ls = find (\<lambda>l. el_id l = leaseId) ls"

definition getActiveExecutionLease :: "ident \<Rightarrow> execution_lease list \<Rightarrow> execution_lease option" where
  "getActiveExecutionLease executionId ls = find (\<lambda>l. el_executionId l = executionId \<and> el_status l = Lease_active) ls"

definition getLatestExecutionLease :: "ident \<Rightarrow> execution_lease list \<Rightarrow> execution_lease option" where
  "getLatestExecutionLease executionId ls =
     (case sort_key (\<lambda>l. - el_fencingToken l) (filter (\<lambda>l. el_executionId l = executionId) ls) of
        [] \<Rightarrow> None | l # _ \<Rightarrow> Some l)"

definition getLatestFencingToken :: "ident \<Rightarrow> execution_lease list \<Rightarrow> int" where
  "getLatestFencingToken executionId ls =
     (case map el_fencingToken (filter (\<lambda>l. el_executionId l = executionId) ls) of
        [] \<Rightarrow> 0 | n # ns \<Rightarrow> fold max ns n)"

definition listExpiredExecutionLeases :: "timestamp \<Rightarrow> execution_lease list \<Rightarrow> execution_lease list" where
  "listExpiredExecutionLeases now ls =
     sort_key el_expiresAt (filter (\<lambda>l. el_status l = Lease_active \<and> el_expiresAt l < now) ls)"

text \<open>The primary key and the two unique indexes of the table.\<close>

definition violates_unique :: "execution_lease \<Rightarrow> execution_lease list \<Rightarrow> bool" where
  "violates_unique l ls \<longleftrightarrow>
     list_ex (\<lambda>m. el_id m = el_id l
       \<or> (el_executionId m = el_executionId l \<and> el_fencingToken m = el_fencingToken l)
       \<or> (el_executionId m = el_executionId l \<and> el_status m = Lease_active \<and> el_status l = Lease_active)) ls"

text \<open>The insert computes the token column itself; the token of the argument is not read.\<close>

definition insertExecutionLeaseAllocatingFencingToken :: "execution_lease \<Rightarrow> int lease_prog" where
  "insertExecutionLeaseAllocatingFencingToken base =
     bindP (getsP (\<lambda>s. base\<lparr>el_fencingToken := getLatestFencingToken (el_executionId base) (st_leases s) + 1\<rparr>)) (\<lambda>l.
     bindP (getsP (\<lambda>s. violates_unique l (st_leases s))) (\<lambda>bad.
     bindP (throwP_if bad Unique_violation) (\<lambda>_.
     bindP (modifyP (\<lambda>s. s\<lparr>st_leases := st_leases s @ [l]\<rparr>)) (\<lambda>_.
     getsP (\<lambda>s. coalesce (map_option el_fencingToken (getExecutionLease (el_id base) (st_leases s))) 0)))))"

definition update_lease :: "(execution_lease \<Rightarrow> bool) \<Rightarrow> (execution_lease \<Rightarrow> execution_lease) \<Rightarrow> execution_lease list \<Rightarrow> execution_lease list" where
  "update_lease p f ls = map (\<lambda>l. if p l then f l else l) ls"

definition close_lease :: "lease_status \<Rightarrow> timestamp \<Rightarrow> string option \<Rightarrow> execution_lease \<Rightarrow> execution_lease" where
  "close_lease status releasedAt reasonCode l = l\<lparr>el_status := status, el_releasedAt := Some releasedAt, el_reasonCode := reasonCode\<rparr>"

definition closeExecutionLease :: "ident \<Rightarrow> lease_status \<Rightarrow> timestamp \<Rightarrow> string option \<Rightarrow> execution_lease list \<Rightarrow> execution_lease list" where
  "closeExecutionLease leaseId status releasedAt reasonCode ls =
     update_lease (\<lambda>l. el_id l = leaseId) (close_lease status releasedAt reasonCode) ls"

text \<open>The row that a compare-and-set update expects.\<close>

definition cas_matches :: "execution_lease \<Rightarrow> execution_lease \<Rightarrow> bool" where
  "cas_matches expected l \<longleftrightarrow> el_id l = el_id expected \<and> el_workerId l = el_workerId expected
     \<and> el_fencingToken l = el_fencingToken expected \<and> el_status l = Lease_active"

definition renewExecutionLeaseCas :: "execution_lease \<Rightarrow> timestamp \<Rightarrow> timestamp \<Rightarrow> bool lease_prog" where
  "renewExecutionLeaseCas lease expiresAt lastHeartbeatAt =
     bindP (getsP (\<lambda>s. list_ex (cas_matches lease) (st_leases s))) (\<lambda>changed.
     bindP (modifyP (\<lambda>s. s\<lparr>st_leases := update_lease (cas_matches lease)
              (\<lambda>l. l\<lparr>el_expiresAt := expiresAt, el_lastHeartbeatAt := Some lastHeartbeatAt\<rparr>) (st_leases s)\<rparr>)) (\<lambda>_.
     returnP changed))"

definition closeExecutionLeaseCas :: "execution_lease \<Rightarrow> lease_status \<Rightarrow> timestamp \<Rightarrow> string option \<Rightarrow> bool lease_prog" where
  "closeExecutionLeaseCas lease status releasedAt reasonCode =
     bindP (getsP (\<lambda>s. list_ex (cas_matches lease) (st_leases s))) (\<lambda>changed.
     bindP (modifyP (\<lambda>s. s\<lparr>st_leases := update_lease (cas_matches lease) (close_lease status releasedAt reasonCode) (st_leases s)\<rparr>)) (\<lambda>_.
     returnP changed))"

section \<open>The service\<close>

definition transaction :: "'a lease_prog \<Rightarrow> 'a lease_prog" where
  "transaction work = (\<lambda>s. case work s of (Inl e, _) \<Rightarrow> (Inl e, s) | (Inr r, s') \<Rightarrow> (Inr r, s'))"

definition insertLeaseAudit :: "execution_lease \<Rightarrow> ident \<Rightarrow> int \<Rightarrow> lease_audit_event \<Rightarrow> string option \<Rightarrow> timestamp \<Rightarrow> unit lease_prog" where
  "insertLeaseAudit lease workerId fencingToken eventType reasonCode recordedAt =
     modifyP (\<lambda>s. s\<lparr>st_audits := st_audits s @ [\<lparr>la_executionId = el_executionId lease, la_leaseId = el_id lease,
        la_workerId = workerId, la_fencingToken = fencingToken, la_eventType = eventType,
        la_reasonCode = reasonCode, la_recordedAt = recordedAt\<rparr>]\<rparr>)"

definition audit_lease :: "execution_lease \<Rightarrow> lease_audit_event \<Rightarrow> string option \<Rightarrow> timestamp \<Rightarrow> unit lease_prog" where
  "audit_lease lease eventType reasonCode recordedAt =
     insertLeaseAudit lease (el_workerId lease) (el_fencingToken lease) eventType reasonCode recordedAt"

definition insertEvent :: "lease_event \<Rightarrow> unit lease_prog" where
  "insertEvent e = modifyP (\<lambda>s. s\<lparr>st_events := st_events s @ [e]\<rparr>)"

text \<open>The two writes that close an active lease whose time is over, or that is taken back.\<close>

definition close_and_audit :: "execution_lease \<Rightarrow> lease_status \<Rightarrow> lease_audit_event \<Rightarrow> string \<Rightarrow> timestamp \<Rightarrow> unit lease_prog" where
  "close_and_audit lease status eventType reasonCode occurredAt =
     bindP (modifyP (\<lambda>s. s\<lparr>st_leases := closeExecutionLease (el_id lease) status occurredAt (Some reasonCode) (st_leases s)\<rparr>)) (\<lambda>_.
     audit_lease lease eventType (Some reasonCode) occurredAt)"

definition expireActiveLeaseIfNeeded :: "ident \<Rightarrow> timestamp \<Rightarrow> string \<Rightarrow> unit lease_prog" where
  "expireActiveLeaseIfNeeded executionId occurredAt reasonCode =
     bindP (getsP (\<lambda>s. getActiveExecutionLease executionId (st_leases s))) (\<lambda>active.
     case active of
       None \<Rightarrow> returnP ()
     | Some l \<Rightarrow> if el_expiresAt l > occurredAt then returnP ()
                 else close_and_audit l Lease_expired Audit_expired reasonCode occurredAt)"

definition blocked :: "string option \<Rightarrow> execution_lease option \<Rightarrow> lease_decision" where
  "blocked reasonCode lease = \<lparr>dc_outcome = Out_blocked, dc_reasonCode = reasonCode, dc_lease = lease\<rparr>"

text \<open>The lease that acquisition and handover insert.\<close>

definition new_lease :: "ident \<Rightarrow> ident \<Rightarrow> ident \<Rightarrow> int \<Rightarrow> ident option \<Rightarrow> timestamp \<Rightarrow> timestamp \<Rightarrow> execution_lease" where
  "new_lease leaseId executionId workerId attempt queueName leasedAt expiresAt =
     \<lparr>el_id = leaseId, el_executionId = executionId, el_workerId = workerId, el_attempt = attempt, el_fencingToken = 0,
      el_queueName = queueName, el_status = Lease_active, el_leasedAt = leasedAt, el_expiresAt = expiresAt,
      el_lastHeartbeatAt = Some leasedAt, el_releasedAt = None, el_reasonCode = None\<rparr>"

definition acquire_after_guard :: "ident \<Rightarrow> timestamp \<Rightarrow> acquire_input \<Rightarrow> execution_row \<Rightarrow> lease_decision lease_prog" where
  "acquire_after_guard leaseId occurredAt i execution =
     bindP (expireActiveLeaseIfNeeded (ai_executionId i) occurredAt ''lease_expired'') (\<lambda>_.
     bindP (getsP (\<lambda>s. getActiveExecutionLease (ai_executionId i) (st_leases s))) (\<lambda>active.
     case active of
       Some l \<Rightarrow> returnP (blocked (Some ''active_lease_exists'') (Some l))
     | None \<Rightarrow>
         if ai_ttlMs i < MIN_LEASE_TTL_MS \<or> ai_ttlMs i > MAX_LEASE_TTL_MS
         then bindP (insertEvent (Grant_rejected (ex_taskId execution) (ai_executionId i) (ai_workerId i) (ai_ttlMs i) occurredAt)) (\<lambda>_.
              returnP (blocked (Some ''ttl_out_of_bounds'') None))
         else
           let enforcedTtlMs = min (max (ai_ttlMs i) MIN_LEASE_TTL_MS) MAX_LEASE_TTL_MS;
               base = new_lease leaseId (ai_executionId i) (ai_workerId i) (ex_attempt execution) (ai_queueName i)
                 occurredAt (plusMs occurredAt enforcedTtlMs)
           in bindP (insertExecutionLeaseAllocatingFencingToken base) (\<lambda>fencingToken.
              let lease = base\<lparr>el_fencingToken := fencingToken\<rparr> in
              bindP (audit_lease lease Audit_granted None occurredAt) (\<lambda>_.
              returnP \<lparr>dc_outcome = Out_granted, dc_reasonCode = None, dc_lease = Some lease\<rparr>))))"

definition acquireLeaseWithinTransaction ::
    "leadership_guard option \<Rightarrow> ident \<Rightarrow> timestamp \<Rightarrow> acquire_input \<Rightarrow> lease_decision lease_prog" where
  "acquireLeaseWithinTransaction guard leaseId occurredAt i =
     bindP (getsP (\<lambda>s. st_executions s (ai_executionId i))) (\<lambda>execution.
     case execution of
       None \<Rightarrow> throwP (Execution_not_found (ai_executionId i))
     | Some ex \<Rightarrow>
         (case map_option (\<lambda>g. lg_validateLeaseAcquisition g (ai_executionId i) (ai_workerId i) occurredAt) guard of
            Some d \<Rightarrow> if \<not> ld_allowed d then returnP (blocked (ld_reasonCode d) None)
                      else acquire_after_guard leaseId occurredAt i ex
          | None \<Rightarrow> acquire_after_guard leaseId occurredAt i ex))"

definition acquireLease ::
    "leadership_guard option \<Rightarrow> ident \<Rightarrow> timestamp \<Rightarrow> acquire_input \<Rightarrow> lease_decision lease_prog" where
  "acquireLease guard leaseId occurredAt i = transaction (acquireLeaseWithinTransaction guard leaseId occurredAt i)"

definition resolveLeaseConflictReason :: "execution_lease \<Rightarrow> execution_lease option \<Rightarrow> string" where
  "resolveLeaseConflictReason expectedLease currentLease =
     (case currentLease of
        None \<Rightarrow> ''lease_not_found''
      | Some c \<Rightarrow>
          if el_workerId c \<noteq> el_workerId expectedLease then ''worker_mismatch''
          else if el_status c \<noteq> Lease_active then ''lease_not_active''
          else if el_fencingToken c \<noteq> el_fencingToken expectedLease then ''stale_fencing_token''
          else ''lease_not_active'')"

definition conflict :: "execution_lease \<Rightarrow> lease_decision lease_prog" where
  "conflict lease = getsP (\<lambda>s. let current = getExecutionLease (el_id lease) (st_leases s) in
     blocked (Some (resolveLeaseConflictReason lease current)) current)"

definition renewLease :: "timestamp \<Rightarrow> renew_input \<Rightarrow> lease_decision lease_prog" where
  "renewLease occurredAt i = transaction (
     bindP (getsP (\<lambda>s. getExecutionLease (ri_leaseId i) (st_leases s))) (\<lambda>found.
     case found of
       None \<Rightarrow> returnP (blocked (Some ''lease_not_found'') None)
     | Some lease \<Rightarrow>
         if el_workerId lease \<noteq> ri_workerId i then returnP (blocked (Some ''worker_mismatch'') (Some lease))
         else if el_status lease \<noteq> Lease_active then returnP (blocked (Some ''lease_not_active'') (Some lease))
         else if el_expiresAt lease < occurredAt then
           bindP (close_and_audit lease Lease_expired Audit_expired ''lease_expired'' occurredAt) (\<lambda>_.
           getsP (\<lambda>s. blocked (Some ''lease_expired'') (getExecutionLease (el_id lease) (st_leases s))))
         else
           bindP (renewExecutionLeaseCas lease (plusMs occurredAt (ri_ttlMs i)) occurredAt) (\<lambda>changed.
           if \<not> changed then conflict lease
           else bindP (audit_lease lease Audit_renewed None occurredAt) (\<lambda>_.
                getsP (\<lambda>s. \<lparr>dc_outcome = Out_renewed, dc_reasonCode = None,
                  dc_lease = getExecutionLease (el_id lease) (st_leases s)\<rparr>)))))"

definition releaseLease :: "timestamp \<Rightarrow> lease_release_input \<Rightarrow> lease_decision lease_prog" where
  "releaseLease occurredAt i = transaction (
     bindP (getsP (\<lambda>s. getExecutionLease (li_leaseId i) (st_leases s))) (\<lambda>found.
     case found of
       None \<Rightarrow> returnP (blocked (Some ''lease_not_found'') None)
     | Some lease \<Rightarrow>
         if el_workerId lease \<noteq> li_workerId i then returnP (blocked (Some ''worker_mismatch'') (Some lease))
         else if li_fencingToken i = None \<or> li_fencingToken i \<noteq> Some (el_fencingToken lease)
         then returnP (blocked (Some ''stale_fencing_token'') (Some lease))
         else if el_status lease \<noteq> Lease_active then returnP (blocked (Some ''lease_not_active'') (Some lease))
         else
           bindP (closeExecutionLeaseCas lease Lease_released occurredAt (li_reasonCode i)) (\<lambda>changed.
           if \<not> changed then conflict lease
           else bindP (audit_lease lease Audit_released (li_reasonCode i) occurredAt) (\<lambda>_.
                getsP (\<lambda>s. \<lparr>dc_outcome = Out_released, dc_reasonCode = None,
                  dc_lease = getExecutionLease (el_id lease) (st_leases s)\<rparr>)))))"

text \<open>A call of the worker registry from the service.\<close>

definition callRegistry :: "(registry_state, registry_error, 'a) prog \<Rightarrow> 'a lease_prog" where
  "callRegistry m = (\<lambda>s. case m (st_registry s) of
     (Inl e, g) \<Rightarrow> (Inl (Registry_error e), s\<lparr>st_registry := g\<rparr>)
   | (Inr x, g) \<Rightarrow> (Inr x, s\<lparr>st_registry := g\<rparr>))"

definition refreshWorker :: "ident \<Rightarrow> (worker_snapshot \<Rightarrow> heartbeat_input) \<Rightarrow> timestamp \<Rightarrow> unit lease_prog" where
  "refreshWorker workerId input occurredAt =
     bindP (getsP (\<lambda>s. getWorkerSnapshot (rg_workers (st_registry s)) workerId)) (\<lambda>worker.
     case worker of
       None \<Rightarrow> returnP ()
     | Some w \<Rightarrow> bindP (callRegistry (recordHeartbeat occurredAt (input w))) (\<lambda>_. returnP ()))"

definition updateWorkerExecutionOwnership :: "ident \<Rightarrow> ident \<Rightarrow> ident \<Rightarrow> timestamp \<Rightarrow> unit lease_prog" where
  "updateWorkerExecutionOwnership previousWorkerId nextWorkerId executionId occurredAt =
     bindP (refreshWorker previousWorkerId (\<lambda>w. buildWorkerSnapshotRefreshInput w (removeExecutionId (sn_runningExecutions w) executionId)) occurredAt) (\<lambda>_.
     refreshWorker nextWorkerId (\<lambda>w. buildWorkerSnapshotRefreshInput w (mergeExecutionIds (sn_runningExecutions w) executionId)) occurredAt)"

definition clearing_input :: "ident \<Rightarrow> timestamp \<Rightarrow> worker_snapshot \<Rightarrow> heartbeat_input" where
  "clearing_input executionId occurredAt w =
     (let running = removeExecutionId (sn_runningExecutions w) executionId in
      (buildWorkerSnapshotRefreshInput w running)\<lparr>
        hb_activeLeaseCount := Some (of_nat (length running)),
        hb_currentStepId := Some (if running = [] then None else sn_currentStepId w),
        hb_lastProgressAt := (if running = [] then Some occurredAt else sn_lastProgressAt w)\<rparr>)"

definition clearWorkerExecutionOwnership :: "ident \<Rightarrow> ident \<Rightarrow> timestamp \<Rightarrow> unit lease_prog" where
  "clearWorkerExecutionOwnership workerId executionId occurredAt =
     refreshWorker workerId (clearing_input executionId occurredAt) occurredAt"

definition updateAgentExecutionOwnership :: "ident \<Rightarrow> ident \<Rightarrow> timestamp \<Rightarrow> string \<Rightarrow> unit lease_prog" where
  "updateAgentExecutionOwnership executionId agentId occurredAt handoverReason =
     modifyP (\<lambda>s. case st_agents s executionId of
       None \<Rightarrow> s
     | Some existing \<Rightarrow> s\<lparr>st_agents := (st_agents s)(executionId \<mapsto> existing\<lparr>ag_agentId := agentId,
         ag_progressMessage := Some (''lease handover accepted: '' @ handoverReason), ag_updatedAt := occurredAt\<rparr>)\<rparr>)"

definition updateExecutionAgent :: "ident \<Rightarrow> ident \<Rightarrow> timestamp \<Rightarrow> unit lease_prog" where
  "updateExecutionAgent executionId agentId updatedAt =
     modifyP (\<lambda>s. case st_executions s executionId of
       None \<Rightarrow> s
     | Some ex \<Rightarrow> s\<lparr>st_executions := (st_executions s)(executionId \<mapsto> ex\<lparr>ex_agentId := agentId, ex_updatedAt := At updatedAt\<rparr>)\<rparr>)"

definition assertLeaseTtlWithinBounds :: "int \<Rightarrow> unit lease_prog" where
  "assertLeaseTtlWithinBounds ttlMs = throwP_if (ttlMs < MIN_LEASE_TTL_MS \<or> ttlMs > MAX_LEASE_TTL_MS) (Invalid_lease_ttl ttlMs)"

definition handover_blocked :: "string \<Rightarrow> execution_lease option \<Rightarrow> handover_decision" where
  "handover_blocked reasonCode previousLease =
     \<lparr>ho_outcome = Out_blocked, ho_reasonCode = Some reasonCode, ho_previousLease = previousLease, ho_lease = None\<rparr>"

text \<open>The requirements on the next worker, in the order of the code; \<open>None\<close> when it meets all of them.\<close>

definition handover_refusal :: "handover_input \<Rightarrow> ident \<Rightarrow> worker_snapshot \<Rightarrow> string option" where
  "handover_refusal i executionId nextWorker =
     (if list_ex (\<lambda>c. c \<notin> set (sn_capabilities nextWorker)) (coalesce (hi_requiredCapabilities i) [])
      then Some ''worker_capabilities_mismatch''
      else if (case hi_requiredIsolationLevel i of None \<Rightarrow> False
               | Some l \<Rightarrow> ISOLATION_LEVEL_ORDER (sn_isolationLevel nextWorker) < ISOLATION_LEVEL_ORDER l)
      then Some ''worker_isolation_mismatch''
      else if hi_requiredRepoVersion i \<noteq> None \<and> sn_repoVersion nextWorker \<noteq> hi_requiredRepoVersion i
      then Some ''worker_repo_version_mismatch''
      else if executionId \<notin> set (sn_runningExecutions nextWorker)
              \<and> int (length (sn_runningExecutions nextWorker)) \<ge> sn_maxConcurrency nextWorker
      then Some ''worker_capacity_full'' else None)"

text \<open>Closing the previous lease, granting the next one and moving the ownership.\<close>

definition handover_move ::
    "ident \<Rightarrow> timestamp \<Rightarrow> handover_input \<Rightarrow> execution_lease \<Rightarrow> execution_row \<Rightarrow> handover_decision lease_prog" where
  "handover_move leaseId occurredAt i previousLease execution =
     (let handoverReason = coalesce (hi_reasonCode i) ''lease_handover'';
          executionId = el_executionId previousLease;
          base = new_lease leaseId executionId (hi_newWorkerId i) (ex_attempt execution) (el_queueName previousLease)
            occurredAt (plusMs occurredAt (hi_ttlMs i)) in
      bindP (assertLeaseTtlWithinBounds (hi_ttlMs i)) (\<lambda>_.
      bindP (closeExecutionLeaseCas previousLease Lease_released occurredAt (Some handoverReason)) (\<lambda>changed.
      if \<not> changed then
        getsP (\<lambda>s. let current = getExecutionLease (el_id previousLease) (st_leases s) in
          handover_blocked (resolveLeaseConflictReason previousLease current) current)
      else
        bindP (audit_lease previousLease Audit_released (Some handoverReason) occurredAt) (\<lambda>_.
        bindP (insertExecutionLeaseAllocatingFencingToken base) (\<lambda>fencingToken.
        let lease = base\<lparr>el_fencingToken := fencingToken\<rparr> in
        bindP (audit_lease lease Audit_granted (Some handoverReason) occurredAt) (\<lambda>_.
        bindP (audit_lease lease Audit_handover (Some handoverReason) occurredAt) (\<lambda>_.
        bindP (updateExecutionAgent executionId (hi_newWorkerId i) occurredAt) (\<lambda>_.
        bindP (updateAgentExecutionOwnership executionId (hi_newWorkerId i) occurredAt handoverReason) (\<lambda>_.
        bindP (updateWorkerExecutionOwnership (el_workerId previousLease) (hi_newWorkerId i) executionId occurredAt) (\<lambda>_.
        bindP (insertEvent (Handover_recorded (ex_taskId execution) previousLease lease handoverReason occurredAt)) (\<lambda>_.
        getsP (\<lambda>s. \<lparr>ho_outcome = Out_handed_over, ho_reasonCode = None,
          ho_previousLease = getExecutionLease (el_id previousLease) (st_leases s),
          ho_lease = getExecutionLease (el_id lease) (st_leases s)\<rparr>))))))))))))"

definition handoverLease :: "ident \<Rightarrow> timestamp \<Rightarrow> handover_input \<Rightarrow> handover_decision lease_prog" where
  "handoverLease leaseId occurredAt i = transaction (
     bindP (getsP (\<lambda>s. getExecutionLease (hi_leaseId i) (st_leases s))) (\<lambda>found.
     case found of
       None \<Rightarrow> returnP (handover_blocked ''lease_not_found'' None)
     | Some previousLease \<Rightarrow>
         if el_workerId previousLease \<noteq> hi_workerId i then returnP (handover_blocked ''worker_mismatch'' (Some previousLease))
         else if el_status previousLease \<noteq> Lease_active then returnP (handover_blocked ''lease_not_active'' (Some previousLease))
         else if el_expiresAt previousLease < occurredAt then
           bindP (close_and_audit previousLease Lease_expired Audit_expired ''lease_expired'' occurredAt) (\<lambda>_.
           getsP (\<lambda>s. handover_blocked ''lease_expired'' (getExecutionLease (el_id previousLease) (st_leases s))))
         else if hi_newWorkerId i = el_workerId previousLease
         then returnP (handover_blocked ''handover_same_worker'' (Some previousLease))
         else
           bindP (getsP (\<lambda>s. (st_executions s (el_executionId previousLease),
                              getWorkerSnapshot (rg_workers (st_registry s)) (hi_newWorkerId i)))) (\<lambda>(execution, nextWorker).
           case execution of
             None \<Rightarrow> throwP (Execution_not_found (el_executionId previousLease))
           | Some ex \<Rightarrow>
               (case nextWorker of
                  None \<Rightarrow> returnP (handover_blocked ''worker_not_registered'' (Some previousLease))
                | Some w \<Rightarrow>
                    (case handover_refusal i (el_executionId previousLease) w of
                       Some reason \<Rightarrow> returnP (handover_blocked reason (Some previousLease))
                     | None \<Rightarrow> handover_move leaseId occurredAt i previousLease ex)))))"

definition reclaimActiveLeaseInternal :: "ident \<Rightarrow> timestamp \<Rightarrow> string \<Rightarrow> execution_lease option lease_prog" where
  "reclaimActiveLeaseInternal executionId occurredAt reasonCode =
     bindP (getsP (\<lambda>s. getActiveExecutionLease executionId (st_leases s))) (\<lambda>active.
     case active of
       None \<Rightarrow> returnP None
     | Some lease \<Rightarrow>
         bindP (close_and_audit lease Lease_reclaimed Audit_reclaimed reasonCode occurredAt) (\<lambda>_.
         bindP (clearWorkerExecutionOwnership (el_workerId lease) (el_executionId lease) occurredAt) (\<lambda>_.
         getsP (\<lambda>s. getExecutionLease (el_id lease) (st_leases s)))))"

definition reclaimActiveLease :: "ident \<Rightarrow> timestamp \<Rightarrow> string \<Rightarrow> execution_lease option lease_prog" where
  "reclaimActiveLease executionId occurredAt reasonCode = transaction (reclaimActiveLeaseInternal executionId occurredAt reasonCode)"

definition reclaimActiveLeaseWithinTransaction :: "ident \<Rightarrow> timestamp \<Rightarrow> string \<Rightarrow> execution_lease option lease_prog" where
  "reclaimActiveLeaseWithinTransaction executionId occurredAt reasonCode = reclaimActiveLeaseInternal executionId occurredAt reasonCode"

definition reclaimExpiredLeases :: "timestamp \<Rightarrow> execution_lease list lease_prog" where
  "reclaimExpiredLeases now = transaction (
     bindP (getsP (\<lambda>s. listExpiredExecutionLeases now (st_leases s))) (\<lambda>expired.
     bindP (mapP (\<lambda>l. reclaimActiveLeaseInternal (el_executionId l) now ''lease_reclaimed'') expired) (\<lambda>results.
     returnP (List.map_filter (\<lambda>r. r) results))))"

definition write_refused :: "execution_lease \<Rightarrow> write_input \<Rightarrow> string option \<Rightarrow> timestamp \<Rightarrow> int \<Rightarrow> ident option \<Rightarrow> write_validation lease_prog" where
  "write_refused audited i reasonCode occurredAt token activeLeaseId =
     bindP (insertLeaseAudit audited (wi_workerId i) (wi_fencingToken i) Audit_stale_write_rejected reasonCode occurredAt) (\<lambda>_.
     returnP \<lparr>va_allowed = False, va_reasonCode = reasonCode, va_authoritativeFencingToken = token, va_activeLeaseId = activeLeaseId\<rparr>)"

definition validateWriteAccess :: "leadership_guard option \<Rightarrow> timestamp \<Rightarrow> write_input \<Rightarrow> write_validation lease_prog" where
  "validateWriteAccess guard occurredAt i = transaction (
     bindP (getsP (\<lambda>s. (getLatestExecutionLease (wi_executionId i) (st_leases s),
                        getActiveExecutionLease (wi_executionId i) (st_leases s)))) (\<lambda>(latest, active).
     case latest of
       None \<Rightarrow> returnP \<lparr>va_allowed = False, va_reasonCode = Some ''lease_not_found'', va_authoritativeFencingToken = 0, va_activeLeaseId = None\<rparr>
     | Some latestLease \<Rightarrow>
         let token = el_fencingToken latestLease;
             decision = map_option (\<lambda>g. lg_validateWriteAccess g (wi_executionId i) (wi_workerId i) occurredAt) guard in
         if (case decision of None \<Rightarrow> False | Some d \<Rightarrow> \<not> ld_allowed d)
         then write_refused latestLease i (Option.bind decision ld_reasonCode) occurredAt token (map_option el_id active)
         else (case active of
           None \<Rightarrow> write_refused latestLease i (Some ''no_active_lease'') occurredAt token None
         | Some a \<Rightarrow>
             let refuse = (\<lambda>reason. write_refused a i (Some reason) occurredAt token (Some (el_id a))) in
             if el_expiresAt a \<le> occurredAt then refuse ''lease_expired''
             else if wi_fencingToken i \<noteq> el_fencingToken a then refuse ''stale_fencing_token''
             else if el_workerId a \<noteq> wi_workerId i then refuse ''worker_mismatch''
             else if wi_leaseId i \<noteq> None \<and> wi_leaseId i \<noteq> Some [] \<and> wi_leaseId i \<noteq> Some (el_id a) then refuse ''lease_mismatch''
             else returnP \<lparr>va_allowed = True, va_reasonCode = None, va_authoritativeFencingToken = token, va_activeLeaseId = Some (el_id a)\<rparr>)))"

section \<open>The lease table and its invariant\<close>

text \<open>Identifiers and (execution, token) pairs are unique, tokens are positive, and an active lease has the largest token of its execution.\<close>

definition lease_ok :: "execution_lease list \<Rightarrow> bool" where
  "lease_ok ls \<longleftrightarrow> distinct (map el_id ls) \<and> distinct (map (\<lambda>l. (el_executionId l, el_fencingToken l)) ls)
     \<and> (\<forall>l \<in> set ls. 1 \<le> el_fencingToken l)
     \<and> (\<forall>l \<in> set ls. \<forall>m \<in> set ls. el_status l = Lease_active \<longrightarrow> el_executionId m = el_executionId l
          \<longrightarrow> el_fencingToken m \<le> el_fencingToken l)"

definition renewed_lease :: "timestamp \<Rightarrow> timestamp \<Rightarrow> execution_lease \<Rightarrow> execution_lease" where
  "renewed_lease expiresAt lastHeartbeatAt l = l\<lparr>el_expiresAt := expiresAt, el_lastHeartbeatAt := Some lastHeartbeatAt\<rparr>"

text \<open>What any operation does to the table is a sequence of these changes.\<close>

inductive lease_change :: "execution_lease list \<Rightarrow> execution_lease list \<Rightarrow> bool" where
  close: "status \<noteq> Lease_active \<Longrightarrow> lease_change ls (update_lease p (close_lease status releasedAt reasonCode) ls)"
| renew: "lease_change ls (update_lease p (renewed_lease expiresAt lastHeartbeatAt) ls)"
| grant: "el_status l = Lease_active \<Longrightarrow> el_fencingToken l = getLatestFencingToken (el_executionId l) ls + 1
    \<Longrightarrow> \<not> violates_unique l ls \<Longrightarrow> lease_change ls (ls @ [l])"

lemma lease_update_fields [simp]:
  "el_id (close_lease st t r l) = el_id l" "el_executionId (close_lease st t r l) = el_executionId l"
  "el_workerId (close_lease st t r l) = el_workerId l" "el_fencingToken (close_lease st t r l) = el_fencingToken l"
  "el_status (close_lease st t r l) = st" "el_expiresAt (close_lease st t r l) = el_expiresAt l"
  "el_id (renewed_lease x h l) = el_id l" "el_executionId (renewed_lease x h l) = el_executionId l"
  "el_workerId (renewed_lease x h l) = el_workerId l" "el_fencingToken (renewed_lease x h l) = el_fencingToken l"
  "el_status (renewed_lease x h l) = el_status l" "el_expiresAt (renewed_lease x h l) = x"
  by (simp_all add: close_lease_def renewed_lease_def)

lemma map_update_lease:
  assumes "\<And>l. g (f l) = g l"
  shows "map g (update_lease p f ls) = map g ls"
  using assms by (simp add: update_lease_def)

lemma latest_token_upper:
  assumes "l \<in> set ls" and "el_executionId l = e"
  shows "el_fencingToken l \<le> getLatestFencingToken e ls"
proof -
  let ?ns = "map el_fencingToken (filter (\<lambda>l. el_executionId l = e) ls)"
  have "el_fencingToken l \<in> set ?ns" using assms by auto
  then obtain n ns where ns: "?ns = n # ns" "el_fencingToken l \<in> set (n # ns)" by (cases ?ns) auto
  then have "getLatestFencingToken e ls = Max (set (n # ns))"
    by (simp only: getLatestFencingToken_def Max.set_eq_fold list.case)
  with ns(2) show ?thesis by (metis List.finite_set Max_ge)
qed

lemma latest_token_attained:
  assumes "\<exists>l \<in> set ls. el_executionId l = e"
  shows "\<exists>l \<in> set ls. el_executionId l = e \<and> el_fencingToken l = getLatestFencingToken e ls"
proof -
  let ?ns = "map el_fencingToken (filter (\<lambda>l. el_executionId l = e) ls)"
  have "?ns \<noteq> []" using assms by (auto simp: filter_empty_conv)
  then obtain n ns where ns: "?ns = n # ns" by (cases ?ns) auto
  then have "getLatestFencingToken e ls = Max (set ?ns)"
    by (simp only: getLatestFencingToken_def Max.set_eq_fold list.case)
  moreover have "Max (set ?ns) \<in> set ?ns" using ns by (intro Max_in) auto
  ultimately show ?thesis by auto
qed

lemma latest_token_none: "\<not> (\<exists>l \<in> set ls. el_executionId l = e) \<Longrightarrow> getLatestFencingToken e ls = 0"
  by (simp add: getLatestFencingToken_def filter_False)

lemma latest_token_update:
  assumes "\<And>l. el_executionId (f l) = el_executionId l" and "\<And>l. el_fencingToken (f l) = el_fencingToken l"
  shows "getLatestFencingToken e (update_lease p f ls) = getLatestFencingToken e ls"
proof -
  have "map el_fencingToken (filter (\<lambda>l. el_executionId l = e) (update_lease p f ls))
      = map el_fencingToken (filter (\<lambda>l. el_executionId l = e) ls)"
    using assms by (induction ls) (auto simp: update_lease_def)
  then show ?thesis by (simp add: getLatestFencingToken_def)
qed

lemma latest_token_append:
  assumes "el_fencingToken l = getLatestFencingToken (el_executionId l) ls + 1" and "\<forall>m \<in> set ls. 1 \<le> el_fencingToken m"
  shows "getLatestFencingToken e (ls @ [l]) = (if e = el_executionId l then el_fencingToken l else getLatestFencingToken e ls)"
proof (cases "e = el_executionId l")
  case True
  obtain m where m: "m \<in> set (ls @ [l])" "el_executionId m = e" "el_fencingToken m = getLatestFencingToken e (ls @ [l])"
    using latest_token_attained [of "ls @ [l]" e] True by auto
  have "el_fencingToken m \<le> el_fencingToken l"
    using m latest_token_upper [of m ls e] assms(1) True by (cases "m = l") auto
  moreover have "el_fencingToken l \<le> getLatestFencingToken e (ls @ [l])" using latest_token_upper [of l "ls @ [l]" e] True by simp
  ultimately show ?thesis using True m(3) by simp
qed (simp add: getLatestFencingToken_def)

lemma lease_ok_update:
  assumes "lease_ok ls" and "\<And>l. el_id (f l) = el_id l" "\<And>l. el_executionId (f l) = el_executionId l"
    and "\<And>l. el_fencingToken (f l) = el_fencingToken l" and "\<And>l. el_status (f l) = Lease_active \<Longrightarrow> el_status l = Lease_active"
  shows "lease_ok (update_lease p f ls)"
proof -
  have same: "map el_id (update_lease p f ls) = map el_id ls"
    "map (\<lambda>l. (el_executionId l, el_fencingToken l)) (update_lease p f ls) = map (\<lambda>l. (el_executionId l, el_fencingToken l)) ls"
    using assms by (simp_all add: map_update_lease)
  show ?thesis
    unfolding lease_ok_def same using assms
    by (auto simp: lease_ok_def update_lease_def split: if_splits)
qed

lemma lease_ok_change: "lease_change ls ls' \<Longrightarrow> lease_ok ls \<Longrightarrow> lease_ok ls'"
proof (induction rule: lease_change.induct)
  case (grant l ls)
  then have above: "\<forall>m \<in> set ls. el_executionId m = el_executionId l \<longrightarrow> el_fencingToken m < el_fencingToken l"
    using latest_token_upper by fastforce
  have "1 \<le> el_fencingToken l"
    using grant latest_token_none [of ls "el_executionId l"] latest_token_attained [of ls "el_executionId l"]
    by (cases "\<exists>m \<in> set ls. el_executionId m = el_executionId l") (auto simp: lease_ok_def)
  moreover have "\<forall>m \<in> set ls. el_id m \<noteq> el_id l \<and> \<not> (el_executionId m = el_executionId l \<and> el_status m = Lease_active)"
    using grant(1,3) by (auto simp: violates_unique_def list_ex_iff)
  ultimately show ?case using grant.prems above by (fastforce simp: lease_ok_def)
qed (rule lease_ok_update; simp)+

lemma lease_ok_changes: "lease_change\<^sup>*\<^sup>* ls ls' \<Longrightarrow> lease_ok ls \<Longrightarrow> lease_ok ls'"
  by (induction rule: rtranclp_induct) (auto dest: lease_ok_change)

lemma latest_token_change: "lease_change ls ls' \<Longrightarrow> lease_ok ls \<Longrightarrow> getLatestFencingToken e ls \<le> getLatestFencingToken e ls'"
  by (induction rule: lease_change.induct) (auto simp: latest_token_update latest_token_append lease_ok_def)

lemma active_unique:
  assumes "lease_ok ls" and "l \<in> set ls" "m \<in> set ls" and "el_status l = Lease_active" "el_status m = Lease_active"
    and "el_executionId l = el_executionId m"
  shows "l = m"
proof -
  have "el_fencingToken l = el_fencingToken m" using assms by (auto simp: lease_ok_def intro!: antisym)
  with assms show ?thesis by (auto simp: lease_ok_def distinct_map inj_on_def)
qed

lemma find_Some_set: "find p xs = Some x \<Longrightarrow> x \<in> set xs \<and> p x"
  by (auto simp: find_Some_iff)

lemma find_append_None: "find p xs = None \<Longrightarrow> find p (xs @ ys) = find p ys"
  by (induction xs) (auto split: if_splits)

lemma find_append_Some: "find p xs = Some x \<Longrightarrow> find p (xs @ ys) = Some x"
  by (induction xs) (auto split: if_splits)

lemma getActive_iff:
  assumes "lease_ok ls"
  shows "getActiveExecutionLease e ls = Some l \<longleftrightarrow> l \<in> set ls \<and> el_executionId l = e \<and> el_status l = Lease_active"
proof
  assume l: "l \<in> set ls \<and> el_executionId l = e \<and> el_status l = Lease_active"
  then obtain m where "getActiveExecutionLease e ls = Some m"
    by (cases "getActiveExecutionLease e ls") (auto simp: getActiveExecutionLease_def find_None_iff)
  moreover from this have "m \<in> set ls \<and> el_executionId m = e \<and> el_status m = Lease_active"
    by (auto simp: getActiveExecutionLease_def dest: find_Some_set)
  ultimately show "getActiveExecutionLease e ls = Some l" using active_unique [OF assms, of l m] l by simp
qed (auto simp: getActiveExecutionLease_def dest: find_Some_set)

lemma getLease_iff:
  assumes "distinct (map el_id ls)"
  shows "getExecutionLease i ls = Some l \<longleftrightarrow> l \<in> set ls \<and> el_id l = i"
proof
  assume l: "l \<in> set ls \<and> el_id l = i"
  then obtain m where "getExecutionLease i ls = Some m"
    by (cases "getExecutionLease i ls") (auto simp: getExecutionLease_def find_None_iff)
  moreover from this have "m \<in> set ls \<and> el_id m = i" by (auto simp: getExecutionLease_def dest: find_Some_set)
  ultimately show "getExecutionLease i ls = Some l" using assms l by (auto simp: distinct_map inj_on_def)
qed (auto simp: getExecutionLease_def dest: find_Some_set)

lemma getLatest_None_iff: "getLatestExecutionLease e ls = None \<longleftrightarrow> (\<forall>l \<in> set ls. el_executionId l \<noteq> e)"
proof -
  have "sort_key (\<lambda>l. - el_fencingToken l) (filter (\<lambda>l. el_executionId l = e) ls) = [] \<longleftrightarrow> (\<forall>l \<in> set ls. el_executionId l \<noteq> e)"
    by (metis (mono_tags, lifting) filter_empty_conv set_empty set_sort)
  then show ?thesis by (simp add: getLatestExecutionLease_def split: list.split) (metis list.distinct(1))
qed

text \<open>The lease with the largest token that the query returns has the token the subquery computes.\<close>

lemma getLatest_token:
  assumes "getLatestExecutionLease e ls = Some l"
  shows "l \<in> set ls \<and> el_executionId l = e \<and> el_fencingToken l = getLatestFencingToken e ls"
proof -
  let ?fs = "sort_key (\<lambda>l. - el_fencingToken l) (filter (\<lambda>l. el_executionId l = e) ls)"
  obtain rest where fs: "?fs = l # rest" using assms by (auto simp: getLatestExecutionLease_def split: list.splits)
  then have "l \<in> set ?fs" by simp
  then have l: "l \<in> set ls" "el_executionId l = e" by auto
  have srt: "sorted (map (\<lambda>l. - el_fencingToken l) (l # rest))" unfolding fs [symmetric] by simp
  obtain m where m: "m \<in> set ls" "el_executionId m = e" "el_fencingToken m = getLatestFencingToken e ls"
    using latest_token_attained [of ls e] l by auto
  then have "m \<in> set ?fs" by simp
  then have "m \<in> set (l # rest)" unfolding fs .
  with srt have "el_fencingToken m \<le> el_fencingToken l" by auto
  with m l latest_token_upper [of l ls e] show ?thesis by simp
qed

section \<open>What the operations do to the store\<close>

text \<open>
  Every operation of the service is made of the same few writes: the changes of the lease table above, appended audits and events, updates of the registry
  and of the agent records, and a new agent of an execution. A relation that allows these writes bounds the effect of every operation.
\<close>

lemma new_lease_fields [simp]:
  "el_status (new_lease i e w a q t x) = Lease_active" "el_executionId (new_lease i e w a q t x) = e"
  "el_id (new_lease i e w a q t x) = i" "el_workerId (new_lease i e w a q t x) = w"
  "el_expiresAt (new_lease i e w a q t x) = x"
  by (simp_all add: new_lease_def)

locale lease_effect = effect_order R
  for R :: "lease_store \<Rightarrow> lease_store \<Rightarrow> bool" +
  assumes table: "lease_change (st_leases s) ls \<Longrightarrow> R s (s\<lparr>st_leases := ls\<rparr>)"
    and audits: "R s (s\<lparr>st_audits := au\<rparr>)"
    and events: "R s (s\<lparr>st_events := ev\<rparr>)"
    and registry: "R s (s\<lparr>st_registry := g\<rparr>)"
    and agents: "R s (s\<lparr>st_agents := ag\<rparr>)"
    and assigned: "st_executions s x = Some ex \<Longrightarrow> R s (s\<lparr>st_executions := (st_executions s)(x \<mapsto> ex\<lparr>ex_agentId := w, ex_updatedAt := At t\<rparr>)\<rparr>)"
begin

lemmas steps = effects_basic effects_bind effects_case effects_mapP

lemma transaction_effects: "effects_in R m \<Longrightarrow> effects_in R (transaction m)"
  by (auto simp: effects_in_def transaction_def refl split: prod.split sum.split) (metis snd_conv)

lemma call_effects: "effects_in R (callRegistry m)"
  by (auto simp: effects_in_def callRegistry_def registry split: prod.split sum.split)

lemma refresh_effects: "effects_in R (refreshWorker w input t)"
  unfolding refreshWorker_def by (intro steps call_effects)

lemma record_effects:
  "effects_in R (insertLeaseAudit l w n ev r t)" "effects_in R (audit_lease l ev r t)" "effects_in R (insertEvent e)"
  "effects_in R (updateExecutionAgent x a t)" "effects_in R (updateAgentExecutionOwnership x a t rr)"
  unfolding insertLeaseAudit_def audit_lease_def insertEvent_def updateExecutionAgent_def updateAgentExecutionOwnership_def
  by (auto intro!: effects_modify simp: audits events agents assigned refl split: option.split)

lemma close_effects:
  assumes "status \<noteq> Lease_active"
  shows "effects_in R (close_and_audit l status ev r t)" and "effects_in R (closeExecutionLeaseCas l status t r')"
  using lease_change.close [OF assms]
  unfolding close_and_audit_def closeExecutionLeaseCas_def closeExecutionLease_def
  by (auto intro!: steps record_effects effects_modify table)

lemma renew_effects: "effects_in R (renewExecutionLeaseCas l x t)"
proof -
  have "(\<lambda>l. l\<lparr>el_expiresAt := x, el_lastHeartbeatAt := Some t\<rparr>) = renewed_lease x t" by (simp add: fun_eq_iff renewed_lease_def)
  then show ?thesis
    unfolding renewExecutionLeaseCas_def using lease_change.renew by (auto intro!: steps effects_modify table)
qed

lemma insert_effects:
  assumes "el_status base = Lease_active"
  shows "effects_in R (insertExecutionLeaseAllocatingFencingToken base)"
  unfolding effects_in_def
proof
  fix s :: lease_store
  let ?l = "base\<lparr>el_fencingToken := getLatestFencingToken (el_executionId base) (st_leases s) + 1\<rparr>"
  show "R s (snd (insertExecutionLeaseAllocatingFencingToken base s))"
    using table [OF lease_change.grant [of ?l "st_leases s"]] assms
    by (auto simp: insertExecutionLeaseAllocatingFencingToken_def prog_simps refl)
qed

lemmas writes = steps transaction_effects call_effects refresh_effects record_effects close_effects renew_effects insert_effects

lemma part_effects:
  "effects_in R (expireActiveLeaseIfNeeded e t r)" "effects_in R (conflict l)"
  "effects_in R (updateWorkerExecutionOwnership w v e t)" "effects_in R (clearWorkerExecutionOwnership w e t)"
  "effects_in R (assertLeaseTtlWithinBounds n)" "effects_in R (write_refused l wi rr t n a)"
  unfolding expireActiveLeaseIfNeeded_def conflict_def updateWorkerExecutionOwnership_def clearWorkerExecutionOwnership_def
    assertLeaseTtlWithinBounds_def write_refused_def
  by (intro writes; simp)+

lemma body_effects:
  "effects_in R (reclaimActiveLeaseInternal e t r)"
  "effects_in R (acquire_after_guard i t inp ex)"
  "effects_in R (handover_move i t hi l ex)"
  unfolding reclaimActiveLeaseInternal_def acquire_after_guard_def handover_move_def Let_def
  by (intro writes part_effects; simp)+

lemma operations:
  "effects_in R (acquireLease g i t ai)" "effects_in R (acquireLeaseWithinTransaction g i t ai)"
  "effects_in R (renewLease t ri)" "effects_in R (releaseLease t li)" "effects_in R (handoverLease i t hi)"
  "effects_in R (reclaimActiveLease e t r)" "effects_in R (reclaimActiveLeaseWithinTransaction e t r)"
  "effects_in R (reclaimExpiredLeases t)" "effects_in R (validateWriteAccess g t wi)"
  unfolding acquireLease_def acquireLeaseWithinTransaction_def renewLease_def releaseLease_def handoverLease_def
    reclaimActiveLease_def reclaimActiveLeaseWithinTransaction_def reclaimExpiredLeases_def validateWriteAccess_def Let_def
  by (intro writes part_effects body_effects; simp)+

end

text \<open>The lease table itself: the operations change it only by such changes.\<close>

definition lease_changes :: "lease_store \<Rightarrow> lease_store \<Rightarrow> bool" where
  "lease_changes s s' \<longleftrightarrow> lease_change\<^sup>*\<^sup>* (st_leases s) (st_leases s')"

interpretation lease_effects: lease_effect lease_changes
  by unfold_locales (auto simp: lease_changes_def)

text \<open>The statuses of the executions: the operations leave them alone.\<close>

definition same_statuses :: "lease_store \<Rightarrow> lease_store \<Rightarrow> bool" where
  "same_statuses s s' \<longleftrightarrow> (\<forall>x. map_option ex_status (st_executions s' x) = map_option ex_status (st_executions s x))"

interpretation lease_statuses: lease_effect same_statuses
  by unfold_locales (auto simp: same_statuses_def)

text \<open>Any history of calls, with any guard at each call, failing calls included.\<close>

inductive lease_step :: "lease_store \<Rightarrow> lease_store \<Rightarrow> bool" where
  acquire: "lease_step s (snd (acquireLease g i t ai s))"
| acquire_inner: "lease_step s (snd (acquireLeaseWithinTransaction g i t ai s))"
| renew: "lease_step s (snd (renewLease t ri s))"
| release: "lease_step s (snd (releaseLease t li s))"
| handover: "lease_step s (snd (handoverLease i t hi s))"
| reclaim: "lease_step s (snd (reclaimActiveLease e t r s))"
| reclaim_inner: "lease_step s (snd (reclaimActiveLeaseWithinTransaction e t r s))"
| reclaim_expired: "lease_step s (snd (reclaimExpiredLeases t s))"
| validate: "lease_step s (snd (validateWriteAccess g t wi s))"

lemma lease_step_changes: "lease_step s s' \<Longrightarrow> lease_change\<^sup>*\<^sup>* (st_leases s) (st_leases s')"
  by (induction rule: lease_step.induct) (use lease_effects.operations in \<open>simp_all add: effects_in_def lease_changes_def\<close>)

lemma lease_step_statuses: "lease_step s s' \<Longrightarrow> same_statuses s s'"
  by (induction rule: lease_step.induct) (use lease_statuses.operations in \<open>simp_all add: effects_in_def\<close>)

lemma lease_steps_change: "lease_step\<^sup>*\<^sup>* s s' \<Longrightarrow> lease_change\<^sup>*\<^sup>* (st_leases s) (st_leases s')"
  by (induction rule: rtranclp_induct) (auto dest: lease_step_changes)

lemma lease_ok_step: "lease_step s s' \<Longrightarrow> lease_ok (st_leases s) \<Longrightarrow> lease_ok (st_leases s')"
  using lease_ok_changes lease_step_changes by blast

lemma latest_token_changes: "lease_change\<^sup>*\<^sup>* ls ls' \<Longrightarrow> lease_ok ls \<Longrightarrow> getLatestFencingToken e ls \<le> getLatestFencingToken e ls'"
  by (induction rule: rtranclp_induct) (auto dest: latest_token_change lease_ok_changes intro: order_trans)

lemma active_has_latest_token:
  assumes "lease_ok ls" and "getActiveExecutionLease e ls = Some l"
  shows "el_fencingToken l = getLatestFencingToken e ls"
proof -
  have l: "l \<in> set ls" "el_executionId l = e" "el_status l = Lease_active" using assms getActive_iff by auto
  then obtain m where m: "m \<in> set ls" "el_executionId m = e" "el_fencingToken m = getLatestFencingToken e ls"
    using latest_token_attained [of ls e] by auto
  have "el_fencingToken m \<le> el_fencingToken l" using assms(1) l m(1,2) by (simp add: lease_ok_def)
  with m l latest_token_upper [of l ls e] show ?thesis by simp
qed

definition lease_holds :: "ident \<Rightarrow> lease_store \<Rightarrow> int \<Rightarrow> bool" where
  "lease_holds e s n \<longleftrightarrow> map_option el_fencingToken (getActiveExecutionLease e (st_leases s)) = Some n"

interpretation lease_fence: monotone_fence lease_step "\<lambda>s. lease_ok (st_leases s)"
    "\<lambda>s. getLatestFencingToken e (st_leases s)" "lease_holds e" for e
proof
  show "getLatestFencingToken e (st_leases s) \<le> getLatestFencingToken e (st_leases t)"
    if "lease_step s t" "lease_ok (st_leases s)" for s t
    using that latest_token_changes lease_step_changes by blast
  show "n = getLatestFencingToken e (st_leases s)" if "lease_ok (st_leases s)" "lease_holds e s n" for s n
    using that active_has_latest_token by (auto simp: lease_holds_def)
qed (rule lease_ok_step)

section \<open>An abstract fencing register\<close>

text \<open>
  What the leases of one execution promise: a counter of tokens issued and an optional holder. The holder may
  leave, and while nobody holds it a worker may become the holder with the next token.
\<close>

record fence_register =
  fr_issued :: int
  fr_holder :: "(int \<times> ident) option"

inductive register_step :: "fence_register \<Rightarrow> fence_register \<Rightarrow> bool" where
  leave: "register_step r (r\<lparr>fr_holder := None\<rparr>)"
| enter: "fr_holder r = None \<Longrightarrow> register_step r \<lparr>fr_issued = fr_issued r + 1, fr_holder = Some (fr_issued r + 1, w)\<rparr>"

definition register_of :: "ident \<Rightarrow> execution_lease list \<Rightarrow> fence_register" where
  "register_of e ls = \<lparr>fr_issued = getLatestFencingToken e ls,
     fr_holder = map_option (\<lambda>l. (el_fencingToken l, el_workerId l)) (getActiveExecutionLease e ls)\<rparr>"

lemma active_None_iff: "getActiveExecutionLease e ls = None \<longleftrightarrow> (\<forall>l \<in> set ls. el_executionId l = e \<longrightarrow> el_status l \<noteq> Lease_active)"
  by (auto simp: getActiveExecutionLease_def find_None_iff)

lemma active_after_close:
  assumes ok: "lease_ok ls" and "status \<noteq> Lease_active"
  shows "getActiveExecutionLease e (update_lease p (close_lease status t r) ls)
    = (case getActiveExecutionLease e ls of None \<Rightarrow> None | Some l \<Rightarrow> if p l then None else Some l)"
proof (cases "getActiveExecutionLease e ls")
  case None
  with assms(2) have "getActiveExecutionLease e (update_lease p (close_lease status t r) ls) = None"
    by (auto simp: active_None_iff update_lease_def)
  with None show ?thesis by simp
next
  case (Some l)
  then have l: "l \<in> set ls" "el_executionId l = e" "el_status l = Lease_active" using getActive_iff [OF ok] by auto
  have ok': "lease_ok (update_lease p (close_lease status t r) ls)" using ok lease_change.close [OF assms(2)] lease_ok_change by blast
  show ?thesis
  proof (cases "p l")
    case True
    then have "getActiveExecutionLease e (update_lease p (close_lease status t r) ls) = None"
      unfolding active_None_iff
    proof (intro ballI impI)
      fix m assume "m \<in> set (update_lease p (close_lease status t r) ls)" "el_executionId m = e"
      then obtain k where k: "k \<in> set ls" "el_executionId k = e" "m = (if p k then close_lease status t r k else k)"
        by (auto simp: update_lease_def split: if_splits)
      show "el_status m \<noteq> Lease_active"
      proof (cases "p k")
        case False
        then have "k \<noteq> l" using True by auto
        then show ?thesis using k l False active_unique [OF ok, of k l] by auto
      qed (use k assms(2) in simp)
    qed
    with Some True show ?thesis by simp
  next
    case False
    then have "l \<in> set (update_lease p (close_lease status t r) ls)" using l by (force simp: update_lease_def)
    then show ?thesis using Some False l by (simp add: getActive_iff [OF ok'])
  qed
qed

lemma active_after_renew:
  "getActiveExecutionLease e (update_lease p (renewed_lease x t) ls)
    = map_option (\<lambda>l. if p l then renewed_lease x t l else l) (getActiveExecutionLease e ls)"
  by (induction ls) (auto simp: getActiveExecutionLease_def update_lease_def)

lemma active_after_append:
  "getActiveExecutionLease e (ls @ [l]) = (case getActiveExecutionLease e ls of
     Some m \<Rightarrow> Some m | None \<Rightarrow> if el_executionId l = e \<and> el_status l = Lease_active then Some l else None)"
  by (induction ls) (auto simp: getActiveExecutionLease_def)

lemma register_change:
  assumes "lease_change ls ls'" and "lease_ok ls"
  shows "register_step\<^sup>=\<^sup>= (register_of e ls) (register_of e ls')"
  using assms
proof (induction rule: lease_change.induct)
  case (close status ls p t r)
  then have "register_of e (update_lease p (close_lease status t r) ls)
      \<in> {register_of e ls, (register_of e ls)\<lparr>fr_holder := None\<rparr>}"
    by (auto simp: register_of_def active_after_close latest_token_update split: option.split)
  then show ?case using register_step.leave by auto
next
  case (renew ls p x t)
  have "register_of e (update_lease p (renewed_lease x t) ls) = register_of e ls"
    by (simp add: register_of_def active_after_renew latest_token_update option.map_comp o_def if_distrib cong: if_cong)
  then show ?case by simp
next
  case (grant l ls)
  note latest = latest_token_append [OF grant.hyps(2), of e]
  show ?case
  proof (cases "el_executionId l = e")
    case True
    then have none: "getActiveExecutionLease e ls = None"
      using grant.hyps(1,3) by (auto simp: violates_unique_def list_ex_iff active_None_iff)
    then have "register_of e (ls @ [l]) = \<lparr>fr_issued = fr_issued (register_of e ls) + 1,
        fr_holder = Some (fr_issued (register_of e ls) + 1, el_workerId l)\<rparr>"
      using True latest grant by (simp add: register_of_def active_after_append lease_ok_def)
    moreover have "fr_holder (register_of e ls) = None" using none by (simp add: register_of_def)
    ultimately show ?thesis using register_step.enter by simp
  next
    case False
    then have "register_of e (ls @ [l]) = register_of e ls"
      using latest grant.prems by (auto simp: register_of_def active_after_append lease_ok_def split: option.split)
    then show ?thesis by simp
  qed
qed

lemma register_changes:
  assumes "lease_change\<^sup>*\<^sup>* ls ls'" and "lease_ok ls"
  shows "register_step\<^sup>*\<^sup>* (register_of e ls) (register_of e ls')"
  using assms(1)
proof (induction rule: rtranclp_induct)
  case (step ls1 ls2)
  have "register_step\<^sup>=\<^sup>= (register_of e ls1) (register_of e ls2)"
    using register_change step lease_ok_changes assms(2) by blast
  with step.IH show ?case by auto
qed simp

section \<open>Properties\<close>

text \<open>
  C26. The leases of every execution implement a fencing register: any call of the service, granted, refused
  or failing, moves the register of each execution by the steps of the abstract register only: the
  holder leaves, or a worker enters an empty register with the next token.
\<close>

theorem leases_refine_register:
  assumes "lease_ok (st_leases s)" and "lease_step s s'"
  shows "lease_ok (st_leases s') \<and> register_step\<^sup>*\<^sup>* (register_of e (st_leases s)) (register_of e (st_leases s'))"
  using assms register_changes lease_step_changes lease_ok_step by blast

text \<open>
  One active lease per execution: from an empty lease table, whatever calls are made in whatever order,
  no two active leases belong to the same execution, the active one has the largest fencing token ever issued
  for its execution, and tokens are never reused.
\<close>

theorem one_active_lease:
  assumes "st_leases s = []" and "lease_step\<^sup>*\<^sup>* s s'"
    and "l \<in> set (st_leases s')" and "m \<in> set (st_leases s')" and "el_executionId m = el_executionId l"
  shows "(el_status l = Lease_active \<longrightarrow> el_fencingToken m \<le> el_fencingToken l)
    \<and> (el_status l = Lease_active \<longrightarrow> el_status m = Lease_active \<longrightarrow> l = m)
    \<and> (el_fencingToken l = el_fencingToken m \<longrightarrow> l = m)"
proof -
  have "lease_ok (st_leases s)" using assms(1) by (simp add: lease_ok_def)
  then have ok: "lease_ok (st_leases s')" using lease_ok_changes lease_steps_change assms(2) by blast
  then have "el_fencingToken l = el_fencingToken m \<longrightarrow> l = m"
    using assms(3-5) by (auto simp: lease_ok_def distinct_map inj_on_def)
  with ok assms(3-5) show ?thesis using active_unique [OF ok] by (auto simp: lease_ok_def)
qed

definition guard_allows_write :: "leadership_guard option \<Rightarrow> ident \<Rightarrow> ident \<Rightarrow> timestamp \<Rightarrow> bool" where
  "guard_allows_write guard e w t = (case guard of None \<Rightarrow> True | Some g \<Rightarrow> ld_allowed (lg_validateWriteAccess g e w t))"

lemma validateWriteAccess_cases:
  assumes "lease_ok (st_leases s)"
  obtains (unknown) r where "validateWriteAccess guard t i s = (Inr r, s)" "\<not> va_allowed r" "va_authoritativeFencingToken r = 0"
      "\<forall>l \<in> set (st_leases s). el_executionId l \<noteq> wi_executionId i"
  | (refused) r a where "validateWriteAccess guard t i s = (Inr r, s\<lparr>st_audits := st_audits s @ [a]\<rparr>)" "\<not> va_allowed r"
      "va_authoritativeFencingToken r = getLatestFencingToken (wi_executionId i) (st_leases s)"
      "la_eventType a = Audit_stale_write_rejected" "la_reasonCode a = va_reasonCode r" "la_workerId a = wi_workerId i"
      "la_fencingToken a = wi_fencingToken i" "la_executionId a = wi_executionId i" "la_recordedAt a = t"
      "\<exists>l \<in> set (st_leases s). el_executionId l = wi_executionId i"
      "\<not> (guard_allows_write guard (wi_executionId i) (wi_workerId i) t
        \<and> (\<exists>l. getActiveExecutionLease (wi_executionId i) (st_leases s) = Some l \<and> t < el_expiresAt l
             \<and> el_fencingToken l = wi_fencingToken i \<and> el_workerId l = wi_workerId i \<and> wi_leaseId i \<in> {None, Some [], Some (el_id l)}))"
  | (allowed) r l where "validateWriteAccess guard t i s = (Inr r, s)" "va_allowed r"
      "va_authoritativeFencingToken r = getLatestFencingToken (wi_executionId i) (st_leases s)"
      "guard_allows_write guard (wi_executionId i) (wi_workerId i) t"
      "getActiveExecutionLease (wi_executionId i) (st_leases s) = Some l" "t < el_expiresAt l"
      "el_fencingToken l = wi_fencingToken i" "el_workerId l = wi_workerId i" "wi_leaseId i \<in> {None, Some [], Some (el_id l)}"
proof (cases "getLatestExecutionLease (wi_executionId i) (st_leases s)")
  case None
  then have "\<forall>l \<in> set (st_leases s). el_executionId l \<noteq> wi_executionId i" by (simp add: getLatest_None_iff)
  then show ?thesis using None unknown by (simp add: validateWriteAccess_def transaction_def prog_simps)
next
  case (Some latest)
  note latest = getLatest_token [OF this]
  let ?n = "getLatestFencingToken (wi_executionId i) (st_leases s)"
  let ?fine = "\<lambda>a. guard_allows_write guard (wi_executionId i) (wi_workerId i) t \<and> t < el_expiresAt a
        \<and> el_fencingToken a = wi_fencingToken i \<and> el_workerId a = wi_workerId i \<and> wi_leaseId i \<in> {None, Some [], Some (el_id a)}"
  note eval = validateWriteAccess_def transaction_def prog_simps Some Let_def guard_allows_write_def latest write_refused_def insertLeaseAudit_def
  have known: "\<exists>l \<in> set (st_leases s). el_executionId l = wi_executionId i" using latest by auto
  show ?thesis
  proof (cases "\<exists>a. getActiveExecutionLease (wi_executionId i) (st_leases s) = Some a \<and> ?fine a")
    case True
    then obtain a where "getActiveExecutionLease (wi_executionId i) (st_leases s) = Some a" "?fine a" by blast
    moreover from this have "validateWriteAccess guard t i s = (Inr \<lparr>va_allowed = True, va_reasonCode = None,
        va_authoritativeFencingToken = ?n, va_activeLeaseId = Some (el_id a)\<rparr>, s)"
      by (auto simp: eval split: option.splits)
    ultimately show ?thesis by (intro allowed) auto
  next
    case False
    have "\<exists>l0 reason act. el_executionId l0 = wi_executionId i
        \<and> validateWriteAccess guard t i s = transaction (write_refused l0 i reason t ?n act) s"
    proof (cases "getActiveExecutionLease (wi_executionId i) (st_leases s)")
      case None
      show ?thesis
        by (intro exI [of _ latest] exI [of _ "if guard_allows_write guard (wi_executionId i) (wi_workerId i) t then Some ''no_active_lease''
              else Option.bind guard (\<lambda>g. ld_reasonCode (lg_validateWriteAccess g (wi_executionId i) (wi_workerId i) t))"] exI [of _ None])
          (auto simp: eval None split: option.splits)
    next
      case (Some a)
      then have a: "el_executionId a = wi_executionId i" using getActive_iff [OF assms] by auto
      from False Some have "\<not> ?fine a" by blast
      then consider (guard) "\<not> guard_allows_write guard (wi_executionId i) (wi_workerId i) t"
        | (live) "guard_allows_write guard (wi_executionId i) (wi_workerId i) t"
            "el_expiresAt a \<le> t \<or> wi_fencingToken i \<noteq> el_fencingToken a \<or> el_workerId a \<noteq> wi_workerId i
              \<or> (wi_leaseId i \<noteq> None \<and> wi_leaseId i \<noteq> Some [] \<and> wi_leaseId i \<noteq> Some (el_id a))"
        by fastforce
      then show ?thesis
      proof cases
        case guard
        then obtain g where "guard = Some g" "\<not> ld_allowed (lg_validateWriteAccess g (wi_executionId i) (wi_workerId i) t)"
          by (auto simp: guard_allows_write_def split: option.splits)
        then show ?thesis
          by (intro exI [of _ latest] exI [of _ "ld_reasonCode (lg_validateWriteAccess g (wi_executionId i) (wi_workerId i) t)"]
              exI [of _ "Some (el_id a)"]) (simp add: eval \<open>getActiveExecutionLease (wi_executionId i) (st_leases s) = Some a\<close>)
      next
        case live
        let ?reason = "if el_expiresAt a \<le> t then ''lease_expired''
          else if wi_fencingToken i \<noteq> el_fencingToken a then ''stale_fencing_token''
          else if el_workerId a \<noteq> wi_workerId i then ''worker_mismatch'' else ''lease_mismatch''"
        have "(case map_option (\<lambda>g. lg_validateWriteAccess g (wi_executionId i) (wi_workerId i) t) guard of
            None \<Rightarrow> False | Some d \<Rightarrow> \<not> ld_allowed d) = False"
          using live(1) by (auto simp: guard_allows_write_def split: option.splits)
        with live(2) have "validateWriteAccess guard t i s = transaction (write_refused a i (Some ?reason) t ?n (Some (el_id a))) s"
          by (auto simp: validateWriteAccess_def transaction_def prog_simps
              \<open>getLatestExecutionLease (wi_executionId i) (st_leases s) = Some latest\<close> Some Let_def latest)
        with a show ?thesis by blast
      qed
    qed
    then show ?thesis using False known
      by (elim exE conjE) (rule refused, auto simp: transaction_def write_refused_def insertLeaseAudit_def prog_simps)
  qed
qed

text \<open>
  Write access is decided exactly: a check is answered yes exactly when the leadership guard agrees and
  the execution has an active lease that is not over, with the presented token, worker and, when it is presented,
  identifier. The check reports the largest token issued. It changes nothing but the audit trail, to which every refusal on
  a known execution adds one record with the caller, its token and the reason.
\<close>

theorem write_access_exact:
  assumes "lease_ok (st_leases s)"
  shows "\<exists>r s'. validateWriteAccess guard t i s = (Inr r, s')
    \<and> (va_allowed r \<longleftrightarrow> guard_allows_write guard (wi_executionId i) (wi_workerId i) t
         \<and> (\<exists>l \<in> set (st_leases s). el_executionId l = wi_executionId i \<and> el_status l = Lease_active \<and> t < el_expiresAt l
              \<and> el_fencingToken l = wi_fencingToken i \<and> el_workerId l = wi_workerId i \<and> wi_leaseId i \<in> {None, Some [], Some (el_id l)}))
    \<and> va_authoritativeFencingToken r = getLatestFencingToken (wi_executionId i) (st_leases s)
    \<and> (if va_allowed r \<or> (\<forall>l \<in> set (st_leases s). el_executionId l \<noteq> wi_executionId i) then s' = s
       else \<exists>a. s' = s\<lparr>st_audits := st_audits s @ [a]\<rparr> \<and> la_eventType a = Audit_stale_write_rejected \<and> la_reasonCode a = va_reasonCode r
          \<and> la_workerId a = wi_workerId i \<and> la_fencingToken a = wi_fencingToken i \<and> la_executionId a = wi_executionId i \<and> la_recordedAt a = t)"
  using assms
proof (cases rule: validateWriteAccess_cases [where guard = guard and t = t and i = i])
  case (unknown r)
  then show ?thesis using latest_token_none [of "st_leases s" "wi_executionId i"] by auto
next
  case (refused r a)
  have "\<not> (guard_allows_write guard (wi_executionId i) (wi_workerId i) t
      \<and> (\<exists>l \<in> set (st_leases s). el_executionId l = wi_executionId i \<and> el_status l = Lease_active \<and> t < el_expiresAt l
          \<and> el_fencingToken l = wi_fencingToken i \<and> el_workerId l = wi_workerId i \<and> wi_leaseId i \<in> {None, Some [], Some (el_id l)}))"
    using refused(11) unfolding getActive_iff [OF assms] by blast
  with refused(1-10) show ?thesis by (intro exI [of _ r] exI conjI) auto
next
  case (allowed r l)
  then have "l \<in> set (st_leases s) \<and> el_executionId l = wi_executionId i \<and> el_status l = Lease_active"
    by (simp add: getActive_iff [OF assms])
  with allowed show ?thesis by (intro exI [of _ r] exI [of _ s]) auto
qed

text \<open>
  An overtaken token is fenced off for good: once a larger token has been issued for an execution, no
  later check, after any calls whatever, by any worker and with any guard, lets the smaller token write.
\<close>

theorem overtaken_token_never_writes:
  assumes "lease_ok (st_leases s)" and "l \<in> set (st_leases s)" and "el_executionId l = wi_executionId i"
    and "wi_fencingToken i < el_fencingToken l" and "lease_step\<^sup>*\<^sup>* s s'"
  shows "\<exists>r. fst (validateWriteAccess guard t i s') = Inr r \<and> \<not> va_allowed r"
proof -
  have "wi_fencingToken i < getLatestFencingToken (wi_executionId i) (st_leases s)"
    using latest_token_upper [OF assms(2,3)] assms(4) by simp
  then have no: "\<not> lease_holds (wi_executionId i) s' (wi_fencingToken i)"
    by (rule lease_fence.overtaken_never_holds [OF assms(5,1)])
  have ok: "lease_ok (st_leases s')" using lease_fence.issued_steps [OF assms(5,1)] by blast
  show ?thesis
    using ok by (cases rule: validateWriteAccess_cases [where guard = guard and t = t and i = i]) (use no in \<open>auto simp: lease_holds_def\<close>)
qed

section \<open>Results of the operations\<close>

lemma fresh_lease_fits:
  assumes "el_id l \<notin> el_id ` set ls" and "getActiveExecutionLease (el_executionId l) ls = None"
    and "el_fencingToken l = getLatestFencingToken (el_executionId l) ls + 1"
  shows "\<not> violates_unique l ls"
proof
  assume "violates_unique l ls"
  then obtain m where m: "m \<in> set ls" "el_id m = el_id l \<or> el_executionId m = el_executionId l \<and> el_fencingToken m = el_fencingToken l
      \<or> el_executionId m = el_executionId l \<and> el_status m = Lease_active"
    by (auto simp: violates_unique_def list_ex_iff)
  have "el_id m \<noteq> el_id l" using m(1) assms(1) by (metis imageI)
  moreover have "el_executionId m = el_executionId l \<Longrightarrow> el_fencingToken m \<noteq> el_fencingToken l"
    using latest_token_upper [OF m(1)] assms(3) by fastforce
  ultimately show False using m assms(2) by (auto simp: active_None_iff)
qed

text \<open>Inserting a lease with a fresh identifier for an execution without active lease cannot violate an index.\<close>

lemma insert_lease_result:
  assumes "lease_ok (st_leases s)" and "el_id base \<notin> el_id ` set (st_leases s)"
    and "getActiveExecutionLease (el_executionId base) (st_leases s) = None"
  defines "n \<equiv> getLatestFencingToken (el_executionId base) (st_leases s) + 1"
  shows "insertExecutionLeaseAllocatingFencingToken base s = (Inr n, s\<lparr>st_leases := st_leases s @ [base\<lparr>el_fencingToken := n\<rparr>]\<rparr>)"
proof -
  have "\<not> violates_unique (base\<lparr>el_fencingToken := n\<rparr>) (st_leases s)"
    using assms(2,3) by (intro fresh_lease_fits) (simp_all add: n_def)
  moreover have "find (\<lambda>l. el_id l = el_id base) (st_leases s) = None" using assms(2) by (auto simp: find_None_iff image_iff)
  then have "getExecutionLease (el_id base) (st_leases s @ [base\<lparr>el_fencingToken := n\<rparr>]) = Some (base\<lparr>el_fencingToken := n\<rparr>)"
    by (simp add: getExecutionLease_def find_append_None)
  ultimately show ?thesis by (simp add: insertExecutionLeaseAllocatingFencingToken_def prog_simps n_def)
qed

lemma close_by_id:
  assumes "lease_ok ls" and "l \<in> set ls"
  shows "closeExecutionLease (el_id l) status t r ls = update_lease (\<lambda>m. m = l) (close_lease status t r) ls"
    and "el_status l = Lease_active \<Longrightarrow> update_lease (cas_matches l) f ls = update_lease (\<lambda>m. m = l) f ls"
proof -
  have "el_id m = el_id l \<longleftrightarrow> m = l" if "m \<in> set ls" for m using assms that by (auto simp: lease_ok_def distinct_map inj_on_def)
  then show "closeExecutionLease (el_id l) status t r ls = update_lease (\<lambda>m. m = l) (close_lease status t r) ls"
    and "el_status l = Lease_active \<Longrightarrow> update_lease (cas_matches l) f ls = update_lease (\<lambda>m. m = l) f ls"
    by (auto simp: closeExecutionLease_def update_lease_def cas_matches_def)
qed

lemma getLease_after_update:
  assumes "lease_ok ls" and "l \<in> set ls" and "\<And>m. el_id (f m) = el_id m"
  shows "getExecutionLease (el_id l) (update_lease (\<lambda>m. m = l) f ls) = Some (f l)"
proof -
  have "map el_id (update_lease (\<lambda>m. m = l) f ls) = map el_id ls" by (rule map_update_lease) (rule assms(3))
  then have d: "distinct (map el_id (update_lease (\<lambda>m. m = l) f ls))" using assms(1) by (simp add: lease_ok_def)
  have "f l \<in> set (update_lease (\<lambda>m. m = l) f ls)" using assms(2) by (force simp: update_lease_def)
  then show ?thesis by (simp add: getLease_iff [OF d] assms(3))
qed

lemma close_and_audit_result:
  assumes "lease_ok (st_leases s)" and "l \<in> set (st_leases s)"
  obtains a where "close_and_audit l status ev r t s =
      (Inr (), s\<lparr>st_leases := update_lease (\<lambda>m. m = l) (close_lease status t (Some r)) (st_leases s), st_audits := st_audits s @ [a]\<rparr>)"
    and "la_eventType a = ev" and "la_leaseId a = el_id l"
  using assms by (simp add: close_and_audit_def audit_lease_def insertLeaseAudit_def prog_simps close_by_id)

lemma expire_result:
  assumes ok: "lease_ok (st_leases s)"
  obtains ls as where "expireActiveLeaseIfNeeded e t r s = (Inr (), s\<lparr>st_leases := ls, st_audits := as\<rparr>)" and "lease_ok ls"
    and "getActiveExecutionLease e ls = (case getActiveExecutionLease e (st_leases s) of
        None \<Rightarrow> None | Some l \<Rightarrow> if t < el_expiresAt l then Some l else None)"
    and "\<forall>e'. getLatestFencingToken e' ls = getLatestFencingToken e' (st_leases s)"
    and "\<forall>e'. e' \<noteq> e \<longrightarrow> getActiveExecutionLease e' ls = getActiveExecutionLease e' (st_leases s)"
    and "el_id ` set ls = el_id ` set (st_leases s)"
proof (cases "\<exists>l. getActiveExecutionLease e (st_leases s) = Some l \<and> el_expiresAt l \<le> t")
  case False
  then have eq: "expireActiveLeaseIfNeeded e t r s = (Inr (), s\<lparr>st_leases := st_leases s, st_audits := st_audits s\<rparr>)"
    by (auto simp: expireActiveLeaseIfNeeded_def prog_simps split: option.splits)
  show ?thesis using False by (intro that [OF eq ok]) (auto split: option.splits)
next
  case True
  then obtain l where l: "getActiveExecutionLease e (st_leases s) = Some l" "el_expiresAt l \<le> t" by blast
  then have mem: "l \<in> set (st_leases s)" "el_executionId l = e" using getActive_iff [OF ok] by auto
  let ?ls = "update_lease (\<lambda>m. m = l) (close_lease Lease_expired t (Some r)) (st_leases s)"
  obtain a where "close_and_audit l Lease_expired Audit_expired r t s = (Inr (), s\<lparr>st_leases := ?ls, st_audits := st_audits s @ [a]\<rparr>)"
    using close_and_audit_result [OF ok mem(1)] by metis
  then have eq: "expireActiveLeaseIfNeeded e t r s = (Inr (), s\<lparr>st_leases := ?ls, st_audits := st_audits s @ [a]\<rparr>)"
    using l by (simp add: expireActiveLeaseIfNeeded_def prog_simps)
  have ok': "lease_ok ?ls" using ok lease_change.close [of Lease_expired] lease_ok_change by blast
  have other: "getActiveExecutionLease e' ?ls = getActiveExecutionLease e' (st_leases s)" if "e' \<noteq> e" for e'
    using that mem(2) getActive_iff [OF ok, of e' l] by (simp add: active_after_close [OF ok] split: option.split)
  have "map el_id ?ls = map el_id (st_leases s)" by (rule map_update_lease) simp
  then have "el_id ` set ?ls = el_id ` set (st_leases s)" by (metis list.set_map)
  then show ?thesis using that [OF eq ok'] l other by (simp add: active_after_close [OF ok] latest_token_update)
qed

definition guard_allows_acquisition :: "leadership_guard option \<Rightarrow> ident \<Rightarrow> ident \<Rightarrow> timestamp \<Rightarrow> bool" where
  "guard_allows_acquisition guard e w t = (case guard of None \<Rightarrow> True | Some g \<Rightarrow> ld_allowed (lg_validateLeaseAcquisition g e w t))"

lemma acquire_within:
  assumes ok: "lease_ok (st_leases s)" and ex: "st_executions s (ai_executionId i) = Some ex"
    and fresh: "leaseId \<notin> el_id ` set (st_leases s)"
  shows "\<exists>d s'. acquireLeaseWithinTransaction guard leaseId t i s = (Inr d, s') \<and> lease_ok (st_leases s')
    \<and> st_registry s' = st_registry s \<and> st_executions s' = st_executions s \<and> st_agents s' = st_agents s
    \<and> (dc_outcome d = Out_granted \<longleftrightarrow>
         guard_allows_acquisition guard (ai_executionId i) (ai_workerId i) t
         \<and> (\<forall>l. getActiveExecutionLease (ai_executionId i) (st_leases s) = Some l \<longrightarrow> el_expiresAt l \<le> t)
         \<and> MIN_LEASE_TTL_MS \<le> ai_ttlMs i \<and> ai_ttlMs i \<le> MAX_LEASE_TTL_MS)
    \<and> (dc_outcome d = Out_granted \<longrightarrow>
         (\<exists>l. dc_lease d = Some l \<and> getActiveExecutionLease (ai_executionId i) (st_leases s') = Some l \<and> el_id l = leaseId
            \<and> el_workerId l = ai_workerId i \<and> el_fencingToken l = getLatestFencingToken (ai_executionId i) (st_leases s) + 1
            \<and> el_expiresAt l = t + ai_ttlMs i))
    \<and> (dc_outcome d \<noteq> Out_granted \<longrightarrow> el_id ` set (st_leases s') = el_id ` set (st_leases s)
         \<and> (\<forall>e. getLatestFencingToken e (st_leases s') = getLatestFencingToken e (st_leases s)))
    \<and> (\<forall>e. e \<noteq> ai_executionId i \<longrightarrow> getActiveExecutionLease e (st_leases s') = getActiveExecutionLease e (st_leases s))"
    (is "\<exists>d s'. ?run d s' \<and> _")
proof (cases "guard_allows_acquisition guard (ai_executionId i) (ai_workerId i) t")
  case False
  then have "\<exists>d. ?run d s \<and> dc_outcome d = Out_blocked"
    by (auto simp: acquireLeaseWithinTransaction_def prog_simps ex guard_allows_acquisition_def blocked_def split: option.splits)
  then obtain d where "?run d s" "dc_outcome d = Out_blocked" by blast
  with False ok show ?thesis by (intro exI [of _ d] exI [of _ s]) simp
next
  case True
  let ?e = "ai_executionId i"
  have run: "acquireLeaseWithinTransaction guard leaseId t i s = acquire_after_guard leaseId t i ex s"
    using True by (auto simp: acquireLeaseWithinTransaction_def prog_simps ex
        guard_allows_acquisition_def split: option.splits)
  obtain ls as where exp: "expireActiveLeaseIfNeeded ?e t ''lease_expired'' s = (Inr (), s\<lparr>st_leases := ls, st_audits := as\<rparr>)"
    and ls: "lease_ok ls" "\<forall>e'. getLatestFencingToken e' ls = getLatestFencingToken e' (st_leases s)"
      "\<forall>e'. e' \<noteq> ?e \<longrightarrow> getActiveExecutionLease e' ls = getActiveExecutionLease e' (st_leases s)" "el_id ` set ls = el_id ` set (st_leases s)"
    and act: "getActiveExecutionLease ?e ls = (case getActiveExecutionLease ?e (st_leases s) of
        None \<Rightarrow> None | Some l \<Rightarrow> if t < el_expiresAt l then Some l else None)"
    by (rule expire_result [OF ok, of ?e t "''lease_expired''"])
  let ?s1 = "s\<lparr>st_leases := ls, st_audits := as\<rparr>"
  note eval = run acquire_after_guard_def prog_simps exp Let_def
  show ?thesis
  proof (cases "getActiveExecutionLease ?e ls")
    case (Some l)
    then have "?run (blocked (Some ''active_lease_exists'') (Some l)) ?s1" by (simp add: eval)
    moreover have "getActiveExecutionLease ?e (st_leases s) = Some l \<and> t < el_expiresAt l"
      using Some act by (auto split: option.splits if_splits)
    ultimately show ?thesis using ls
      by (intro exI [of _ "blocked (Some ''active_lease_exists'') (Some l)"] exI [of _ ?s1]) (auto simp: blocked_def)
  next
    case None
    then have over: "\<forall>l. getActiveExecutionLease ?e (st_leases s) = Some l \<longrightarrow> el_expiresAt l \<le> t"
      using act by (auto split: option.splits if_splits)
    show ?thesis
    proof (cases "MIN_LEASE_TTL_MS \<le> ai_ttlMs i \<and> ai_ttlMs i \<le> MAX_LEASE_TTL_MS")
      case False
      then have "\<exists>ev. ?run (blocked (Some ''ttl_out_of_bounds'') None) (?s1\<lparr>st_events := ev\<rparr>)"
        using None by (auto simp: eval insertEvent_def)
      then obtain ev where "?run (blocked (Some ''ttl_out_of_bounds'') None) (?s1\<lparr>st_events := ev\<rparr>)" ..
      with False ls show ?thesis
        by (intro exI [of _ "blocked (Some ''ttl_out_of_bounds'') None"] exI [of _ "?s1\<lparr>st_events := ev\<rparr>"]) (auto simp: blocked_def)
    next
      case ttl: True
      let ?base = "new_lease leaseId ?e (ai_workerId i) (ex_attempt ex) (ai_queueName i) t (plusMs t (ai_ttlMs i))"
      let ?l = "?base\<lparr>el_fencingToken := getLatestFencingToken ?e ls + 1\<rparr>"
      have ins: "insertExecutionLeaseAllocatingFencingToken ?base ?s1
          = (Inr (getLatestFencingToken ?e ls + 1), ?s1\<lparr>st_leases := ls @ [?l]\<rparr>)"
        using insert_lease_result [of ?s1 ?base] ls fresh None by simp
      have "min (max (ai_ttlMs i) MIN_LEASE_TTL_MS) MAX_LEASE_TTL_MS = ai_ttlMs i" using ttl by simp
      then have "\<exists>as'. ?run \<lparr>dc_outcome = Out_granted, dc_reasonCode = None, dc_lease = Some ?l\<rparr> (?s1\<lparr>st_leases := ls @ [?l], st_audits := as'\<rparr>)"
        using None ttl ins by (auto simp: eval audit_lease_def insertLeaseAudit_def)
      moreover have "\<not> violates_unique ?l ls"
        using fresh ls(4) None by (intro fresh_lease_fits) simp_all
      then have "lease_ok (ls @ [?l])" using lease_change.grant [of ?l ls] ls(1) lease_ok_change by simp
      moreover have "getActiveExecutionLease e (ls @ [?l]) = (if e = ?e then Some ?l else getActiveExecutionLease e (st_leases s))" for e
        using None ls(3) by (simp add: active_after_append split: option.split)
      ultimately obtain as' where "?run \<lparr>dc_outcome = Out_granted, dc_reasonCode = None, dc_lease = Some ?l\<rparr> (?s1\<lparr>st_leases := ls @ [?l], st_audits := as'\<rparr>)"
          "lease_ok (ls @ [?l])" "\<And>e. getActiveExecutionLease e (ls @ [?l]) = (if e = ?e then Some ?l else getActiveExecutionLease e (st_leases s))"
        by blast
      with over ttl True ls(2) show ?thesis
        by (intro exI [of _ "\<lparr>dc_outcome = Out_granted, dc_reasonCode = None, dc_lease = Some ?l\<rparr>"]
              exI [of _ "?s1\<lparr>st_leases := ls @ [?l], st_audits := as'\<rparr>"]) (simp add: plusMs_def)
    qed
  qed
qed

text \<open>
  C27. Acquisition is decided exactly and cannot fail: for a known execution and a fresh identifier a lease is
  granted exactly when the guard agrees, the execution has no active lease that is not over and the time to live is within the
  bounds. The granted lease is then the active lease of the execution, belongs to the caller, has the next fencing
  token and ends after the time to live; leases of other executions are left alone. No unique index is violated.
\<close>

theorem acquire_exact:
  assumes ok: "lease_ok (st_leases s)" and ex: "st_executions s (ai_executionId i) = Some ex"
    and fresh: "leaseId \<notin> el_id ` set (st_leases s)"
  shows "\<exists>d s'. acquireLease guard leaseId t i s = (Inr d, s') \<and> lease_ok (st_leases s')
    \<and> (dc_outcome d = Out_granted \<longleftrightarrow>
         guard_allows_acquisition guard (ai_executionId i) (ai_workerId i) t
         \<and> (\<forall>l. getActiveExecutionLease (ai_executionId i) (st_leases s) = Some l \<longrightarrow> el_expiresAt l \<le> t)
         \<and> MIN_LEASE_TTL_MS \<le> ai_ttlMs i \<and> ai_ttlMs i \<le> MAX_LEASE_TTL_MS)
    \<and> (dc_outcome d = Out_granted \<longrightarrow>
         (\<exists>l. dc_lease d = Some l \<and> getActiveExecutionLease (ai_executionId i) (st_leases s') = Some l
            \<and> el_workerId l = ai_workerId i \<and> el_fencingToken l = getLatestFencingToken (ai_executionId i) (st_leases s) + 1
            \<and> el_expiresAt l = t + ai_ttlMs i))
    \<and> (\<forall>e. e \<noteq> ai_executionId i \<longrightarrow> getActiveExecutionLease e (st_leases s') = getActiveExecutionLease e (st_leases s))"
  using acquire_within [OF assms, of guard t] by (force simp: acquireLease_def transaction_def)

text \<open>
  At the instant a lease ends, reading and renewing disagree: the lease can no longer write, yet its worker may
  still renew it, with any time to live whatever, although a grant bounds it. The renewed lease ends that long after the instant.
\<close>

theorem renewal_is_unbounded:
  assumes ok: "lease_ok (st_leases s)" and l: "l \<in> set (st_leases s)" "el_status l = Lease_active" and end_at: "el_expiresAt l = t"
  shows "(\<exists>r. fst (validateWriteAccess None t \<lparr>wi_executionId = el_executionId l, wi_workerId = el_workerId l,
            wi_fencingToken = el_fencingToken l, wi_leaseId = None\<rparr> s) = Inr r \<and> \<not> va_allowed r)
    \<and> (\<exists>d. fst (renewLease t \<lparr>ri_leaseId = el_id l, ri_workerId = el_workerId l, ri_ttlMs = ttl\<rparr> s) = Inr d
         \<and> dc_outcome d = Out_renewed \<and> map_option el_expiresAt (dc_lease d) = Some (t + ttl))"
proof
  have active: "getActiveExecutionLease (el_executionId l) (st_leases s) = Some l" using l by (simp add: getActive_iff [OF ok])
  let ?w = "\<lparr>wi_executionId = el_executionId l, wi_workerId = el_workerId l, wi_fencingToken = el_fencingToken l, wi_leaseId = None\<rparr>"
  show "\<exists>r. fst (validateWriteAccess None t ?w s) = Inr r \<and> \<not> va_allowed r"
    using ok
  proof (cases rule: validateWriteAccess_cases [where guard = None and t = t and i = ?w])
    case (allowed r m)
    have "l = m" using allowed(5) active by simp
    then show ?thesis using allowed(6) end_at by simp
  qed (metis fst_conv)+
  let ?ls = "update_lease (\<lambda>m. m = l) (renewed_lease (t + ttl) t) (st_leases s)"
  have found: "getExecutionLease (el_id l) (st_leases s) = Some l" using ok l(1) by (simp add: getLease_iff lease_ok_def)
  have "list_ex (cas_matches l) (st_leases s)" using l by (auto simp: list_ex_iff cas_matches_def)
  moreover have "update_lease (cas_matches l) (\<lambda>m. m\<lparr>el_expiresAt := t + ttl, el_lastHeartbeatAt := Some t\<rparr>) (st_leases s) = ?ls"
    unfolding close_by_id(2) [OF ok l] by (simp add: renewed_lease_def [abs_def])
  moreover have "getExecutionLease (el_id l) ?ls = Some (renewed_lease (t + ttl) t l)"
    by (rule getLease_after_update [OF ok l(1)]) simp
  ultimately show "\<exists>d. fst (renewLease t \<lparr>ri_leaseId = el_id l, ri_workerId = el_workerId l, ri_ttlMs = ttl\<rparr> s) = Inr d
      \<and> dc_outcome d = Out_renewed \<and> map_option el_expiresAt (dc_lease d) = Some (t + ttl)"
    using l end_at by (simp add: renewLease_def transaction_def prog_simps found renewExecutionLeaseCas_def plusMs_def
        audit_lease_def insertLeaseAudit_def)
qed

section \<open>Ownership in the worker registry\<close>

lemma heartbeat_record_lists:
  "sn_runningExecutions (heartbeat_record t ex i) = normalizeStringArray (hb_runningExecutionIds i)"
  "sn_maxConcurrency (heartbeat_record t ex i) = hb_maxConcurrency i"
  by (simp_all add: heartbeat_record_def Let_def split: prod.split)

lemma refresh_input_fields [simp]:
  "hb_workerId (buildWorkerSnapshotRefreshInput w ids) = sn_workerId w"
  "hb_runningExecutionIds (buildWorkerSnapshotRefreshInput w ids) = ids"
  "hb_maxConcurrency (buildWorkerSnapshotRefreshInput w ids) = sn_maxConcurrency w"
  "hb_workerId (clearing_input e t w) = sn_workerId w"
  "hb_runningExecutionIds (clearing_input e t w) = removeExecutionId (sn_runningExecutions w) e"
  by (simp_all add: buildWorkerSnapshotRefreshInput_def clearing_input_def Let_def)

lemma refreshWorker_result:
  assumes ok: "registry_ok (st_registry s)" and id: "\<And>x. hb_workerId (input x) = sn_workerId x"
  obtains g where "refreshWorker w input t s = (Inr (), s\<lparr>st_registry := g\<rparr>)" and "registry_ok g"
    and "getWorkerSnapshot (rg_workers g) = (case getWorkerSnapshot (rg_workers (st_registry s)) w of
        None \<Rightarrow> getWorkerSnapshot (rg_workers (st_registry s))
      | Some x \<Rightarrow> (getWorkerSnapshot (rg_workers (st_registry s)))(w \<mapsto>
          (heartbeat_record t (Some x) (input x))\<lparr>sn_version := sn_version x + 1\<rparr>))"
proof (cases "getWorkerSnapshot (rg_workers (st_registry s)) w")
  case None
  then have "refreshWorker w input t s = (Inr (), s\<lparr>st_registry := st_registry s\<rparr>)" by (simp add: refreshWorker_def prog_simps)
  with None ok show ?thesis by (intro that) auto
next
  case (Some x)
  then have w: "sn_workerId x = w" using registry_lookup [OF ok] by blast
  then obtain g where g: "recordHeartbeat t (input x) (st_registry s) = (Inr (toView (heartbeat_record t (Some x) (input x))), g)" "registry_ok g"
    "getWorkerSnapshot (rg_workers g) = (getWorkerSnapshot (rg_workers (st_registry s)))(w \<mapsto>
          (heartbeat_record t (Some x) (input x))\<lparr>sn_version := sn_version x + 1\<rparr>)"
    using heartbeat_ok [OF ok, of t "input x"] Some by (auto simp: id heartbeat_record_fields)
  then have "refreshWorker w input t s = (Inr (), s\<lparr>st_registry := g\<rparr>)"
    using Some by (simp add: refreshWorker_def prog_simps callRegistry_def)
  with g Some show ?thesis by (intro that) auto
qed

lemma reclaim_one:
  assumes ok: "lease_ok (st_leases s)" and reg: "registry_ok (st_registry s)"
    and l: "l \<in> set (st_leases s)" "el_status l = Lease_active"
  obtains s1 where "reclaimActiveLeaseInternal (el_executionId l) t r s = (Inr (Some (close_lease Lease_reclaimed t (Some r) l)), s1)"
    and "st_leases s1 = update_lease (\<lambda>m. m = l) (close_lease Lease_reclaimed t (Some r)) (st_leases s)"
    and "registry_ok (st_registry s1)" and "st_executions s1 = st_executions s" and "st_agents s1 = st_agents s"
proof -
  let ?ls = "update_lease (\<lambda>m. m = l) (close_lease Lease_reclaimed t (Some r)) (st_leases s)"
  have active: "getActiveExecutionLease (el_executionId l) (st_leases s) = Some l" using l by (simp add: getActive_iff [OF ok])
  obtain a where close: "close_and_audit l Lease_reclaimed Audit_reclaimed r t s = (Inr (), s\<lparr>st_leases := ?ls, st_audits := st_audits s @ [a]\<rparr>)"
    using close_and_audit_result [OF ok l(1)] by metis
  let ?s = "s\<lparr>st_leases := ?ls, st_audits := st_audits s @ [a]\<rparr>"
  obtain g where g: "refreshWorker (el_workerId l) (clearing_input (el_executionId l) t) t ?s = (Inr (), ?s\<lparr>st_registry := g\<rparr>)" "registry_ok g"
    using refreshWorker_result [of ?s "clearing_input (el_executionId l) t" "el_workerId l" t] reg by auto
  have "getExecutionLease (el_id l) ?ls = Some (close_lease Lease_reclaimed t (Some r) l)"
    by (rule getLease_after_update [OF ok l(1)]) simp
  then have "reclaimActiveLeaseInternal (el_executionId l) t r s
      = (Inr (Some (close_lease Lease_reclaimed t (Some r) l)), ?s\<lparr>st_registry := g\<rparr>)"
    using close g by (simp add: reclaimActiveLeaseInternal_def prog_simps active clearWorkerExecutionOwnership_def)
  then show ?thesis by (rule that) (use g in simp_all)
qed

lemma reclaim_many:
  assumes "lease_ok (st_leases s)" and "registry_ok (st_registry s)" and "distinct xs"
    and "set xs \<subseteq> {l \<in> set (st_leases s). el_status l = Lease_active}"
  shows "\<exists>s'. mapP (\<lambda>l. reclaimActiveLeaseInternal (el_executionId l) t r) xs s
      = (Inr (map (\<lambda>l. Some (close_lease Lease_reclaimed t (Some r) l)) xs), s')
    \<and> st_leases s' = update_lease (\<lambda>m. m \<in> set xs) (close_lease Lease_reclaimed t (Some r)) (st_leases s)
    \<and> registry_ok (st_registry s')"
  using assms
proof (induction xs arbitrary: s)
  case Nil
  then show ?case by (simp add: prog_simps update_lease_def)
next
  case (Cons l xs)
  let ?close = "close_lease Lease_reclaimed t (Some r)"
  have l: "l \<in> set (st_leases s)" "el_status l = Lease_active" using Cons.prems(4) by auto
  obtain s1 where s1: "reclaimActiveLeaseInternal (el_executionId l) t r s = (Inr (Some (?close l)), s1)"
    "st_leases s1 = update_lease (\<lambda>m. m = l) ?close (st_leases s)" "registry_ok (st_registry s1)"
    using reclaim_one [OF Cons.prems(1,2) l] by blast
  have ok: "lease_ok (st_leases s1)"
    unfolding s1(2) using Cons.prems(1) lease_change.close [of Lease_reclaimed] lease_ok_change by blast
  have "set xs \<subseteq> {l \<in> set (st_leases s1). el_status l = Lease_active}"
    using Cons.prems(3,4) unfolding s1(2) by (force simp: update_lease_def)
  then obtain s' where s': "mapP (\<lambda>l. reclaimActiveLeaseInternal (el_executionId l) t r) xs s1 = (Inr (map (\<lambda>l. Some (?close l)) xs), s')"
    "st_leases s' = update_lease (\<lambda>m. m \<in> set xs) ?close (st_leases s1)" "registry_ok (st_registry s')"
    using Cons.IH [OF ok s1(3)] Cons.prems(3) by auto
  have "?close l \<notin> set xs" using Cons.prems(4) by auto
  then have "st_leases s' = update_lease (\<lambda>m. m \<in> set (l # xs)) ?close (st_leases s)"
    unfolding s'(2) s1(2) by (auto simp: update_lease_def)
  with s' s1(1) show ?case by (simp add: prog_simps)
qed

text \<open>
  Reclaiming takes back exactly the leases that are over: it closes every active lease that ended before
  now, each as reclaimed, leaves all others as they were, returns the closed leases in order of their end, and keeps the
  worker registry well-formed.
\<close>

theorem reclaim_exact:
  assumes ok: "lease_ok (st_leases s)" and reg: "registry_ok (st_registry s)"
  shows "\<exists>s'. reclaimExpiredLeases now s
      = (Inr (map (close_lease Lease_reclaimed now (Some ''lease_reclaimed'')) (listExpiredExecutionLeases now (st_leases s))), s')
    \<and> st_leases s' = map (\<lambda>l. if el_status l = Lease_active \<and> el_expiresAt l < now
        then close_lease Lease_reclaimed now (Some ''lease_reclaimed'') l else l) (st_leases s)
    \<and> registry_ok (st_registry s')"
proof -
  let ?xs = "listExpiredExecutionLeases now (st_leases s)"
  have "distinct (st_leases s)" using ok by (simp add: lease_ok_def distinct_map)
  then have "distinct ?xs" by (simp add: listExpiredExecutionLeases_def)
  moreover have set: "set ?xs = {l \<in> set (st_leases s). el_status l = Lease_active \<and> el_expiresAt l < now}"
    by (auto simp: listExpiredExecutionLeases_def)
  ultimately obtain s' where s': "mapP (\<lambda>l. reclaimActiveLeaseInternal (el_executionId l) now ''lease_reclaimed'') ?xs s
      = (Inr (map (\<lambda>l. Some (close_lease Lease_reclaimed now (Some ''lease_reclaimed'') l)) ?xs), s')"
    "st_leases s' = update_lease (\<lambda>m. m \<in> set ?xs) (close_lease Lease_reclaimed now (Some ''lease_reclaimed'')) (st_leases s)"
    "registry_ok (st_registry s')"
    using reclaim_many [OF ok reg, of ?xs now "''lease_reclaimed''"] by auto
  have flat: "List.map_filter (\<lambda>r. r) (map (\<lambda>l. Some (f l)) ys) = map f ys" for f :: "execution_lease \<Rightarrow> execution_lease" and ys
    by (induction ys) (simp_all add: List.map_filter_def)
  have "st_leases s' = map (\<lambda>l. if el_status l = Lease_active \<and> el_expiresAt l < now
      then close_lease Lease_reclaimed now (Some ''lease_reclaimed'') l else l) (st_leases s)"
    unfolding s'(2) set by (simp add: update_lease_def)
  then show ?thesis using s' by (simp add: reclaimExpiredLeases_def transaction_def prog_simps flat)
qed

section \<open>Handover\<close>

lemma handover_reaches_move:
  assumes "handoverLease leaseId t i s = (Inr d, s')" and "ho_outcome d = Out_handed_over"
  obtains prev ex w where "getExecutionLease (hi_leaseId i) (st_leases s) = Some prev" "el_workerId prev = hi_workerId i"
    "el_status prev = Lease_active" "t \<le> el_expiresAt prev" "hi_newWorkerId i \<noteq> el_workerId prev"
    "st_executions s (el_executionId prev) = Some ex" "getWorkerSnapshot (rg_workers (st_registry s)) (hi_newWorkerId i) = Some w"
    "handover_refusal i (el_executionId prev) w = None" "handover_move leaseId t i prev ex s = (Inr d, s')"
proof (cases "getExecutionLease (hi_leaseId i) (st_leases s)")
  case None
  with assms show ?thesis by (auto simp: handoverLease_def transaction_def prog_simps handover_blocked_def)
next
  case (Some prev)
  note eval = handoverLease_def transaction_def prog_simps handover_blocked_def Some
  consider "el_workerId prev \<noteq> hi_workerId i" | "el_status prev \<noteq> Lease_active" | "el_expiresAt prev < t" "el_status prev = Lease_active"
    | "hi_newWorkerId i = el_workerId prev" | (go) "el_workerId prev = hi_workerId i" "el_status prev = Lease_active" "t \<le> el_expiresAt prev"
      "hi_newWorkerId i \<noteq> el_workerId prev"
    by fastforce
  then show ?thesis
  proof cases
    case go
    show ?thesis
      using assms go that [OF Some]
      by (cases "st_executions s (el_executionId prev)"; cases "getWorkerSnapshot (rg_workers (st_registry s)) (hi_newWorkerId i)";
          cases "handover_refusal i (el_executionId prev) (the (getWorkerSnapshot (rg_workers (st_registry s)) (hi_newWorkerId i)))")
        (auto simp: eval split: prod.splits sum.splits)
  qed (use assms in \<open>auto simp: eval close_and_audit_def audit_lease_def insertLeaseAudit_def split: if_splits\<close>)
qed

lemma side_writes:
  "\<exists>f. updateExecutionAgent x a t s = (Inr (), s\<lparr>st_executions := f\<rparr>)"
  "\<exists>f. updateAgentExecutionOwnership x a t r s = (Inr (), s\<lparr>st_agents := f\<rparr>)"
proof -
  show "\<exists>f. updateExecutionAgent x a t s = (Inr (), s\<lparr>st_executions := f\<rparr>)"
    by (cases "st_executions s x") (auto simp: updateExecutionAgent_def prog_simps intro: exI [of _ "st_executions s"])
  show "\<exists>f. updateAgentExecutionOwnership x a t r s = (Inr (), s\<lparr>st_agents := f\<rparr>)"
    by (cases "st_agents s x") (auto simp: updateAgentExecutionOwnership_def prog_simps intro: exI [of _ "st_agents s"])
qed

lemma ownership_moves:
  assumes reg: "registry_ok (st_registry s)" and ne: "old \<noteq> new" and new: "getWorkerSnapshot (rg_workers (st_registry s)) new = Some w"
  obtains g w' where "updateWorkerExecutionOwnership old new e t s = (Inr (), s\<lparr>st_registry := g\<rparr>)" and "registry_ok g"
    and "\<forall>x. getWorkerSnapshot (rg_workers g) old = Some x \<longrightarrow> e \<notin> set (sn_runningExecutions x)"
    and "getWorkerSnapshot (rg_workers g) new = Some w'"
    and "sn_runningExecutions w' = normalizeStringArray (mergeExecutionIds (sn_runningExecutions w) e)"
    and "sn_maxConcurrency w' = sn_maxConcurrency w"
proof -
  let ?in1 = "\<lambda>w. buildWorkerSnapshotRefreshInput w (removeExecutionId (sn_runningExecutions w) e)"
  let ?in2 = "\<lambda>w. buildWorkerSnapshotRefreshInput w (mergeExecutionIds (sn_runningExecutions w) e)"
  obtain g1 where g1: "refreshWorker old ?in1 t s = (Inr (), s\<lparr>st_registry := g1\<rparr>)" "registry_ok g1"
    "getWorkerSnapshot (rg_workers g1) = (case getWorkerSnapshot (rg_workers (st_registry s)) old of
        None \<Rightarrow> getWorkerSnapshot (rg_workers (st_registry s))
      | Some x \<Rightarrow> (getWorkerSnapshot (rg_workers (st_registry s)))(old \<mapsto>
          (heartbeat_record t (Some x) (?in1 x))\<lparr>sn_version := sn_version x + 1\<rparr>))"
    using refreshWorker_result [OF reg, of ?in1 old t] by auto
  have new1: "getWorkerSnapshot (rg_workers g1) new = Some w" using g1(3) new ne by (auto split: option.splits)
  let ?s1 = "s\<lparr>st_registry := g1\<rparr>"
  obtain g2 where g2: "refreshWorker new ?in2 t ?s1 = (Inr (), ?s1\<lparr>st_registry := g2\<rparr>)" "registry_ok g2"
    "getWorkerSnapshot (rg_workers g2) = (getWorkerSnapshot (rg_workers g1))(new \<mapsto>
          (heartbeat_record t (Some w) (?in2 w))\<lparr>sn_version := sn_version w + 1\<rparr>)"
    using refreshWorker_result [of ?s1 ?in2 new t] g1(2) new1 by auto
  have gone: "e \<notin> set (sn_runningExecutions x)" if x: "getWorkerSnapshot (rg_workers g2) old = Some x" for x
  proof -
    obtain y where y: "getWorkerSnapshot (rg_workers (st_registry s)) old = Some y"
        "sn_runningExecutions x = normalizeStringArray (removeExecutionId (sn_runningExecutions y) e)"
      using x g1(3) g2(3) ne by (auto simp: heartbeat_record_lists split: option.splits)
    have "names_ok (sn_runningExecutions y)" using registry_lookup [OF reg y(1)] by (simp add: snapshot_ok_def)
    then show ?thesis unfolding y(2) by (auto simp: normalizeStringArray_def removeExecutionId_def names_ok_def)
  qed
  have "updateWorkerExecutionOwnership old new e t s = (Inr (), s\<lparr>st_registry := g2\<rparr>)"
    using g1(1) g2(1) by (simp add: updateWorkerExecutionOwnership_def prog_simps)
  moreover let ?w = "(heartbeat_record t (Some w) (?in2 w))\<lparr>sn_version := sn_version w + 1\<rparr>"
  have "getWorkerSnapshot (rg_workers g2) new = Some ?w" using g2(3) by simp
  moreover have "sn_runningExecutions ?w = normalizeStringArray (mergeExecutionIds (sn_runningExecutions w) e)"
    "sn_maxConcurrency ?w = sn_maxConcurrency w"
    by (simp_all add: heartbeat_record_lists)
  ultimately show ?thesis using that gone g2(2) by blast
qed

lemma handover_move_prefix:
  fixes s :: lease_store and i :: handover_input and ex :: execution_row and t :: timestamp
  assumes ok: "lease_ok (st_leases s)" and prev: "prev \<in> set (st_leases s)" "el_status prev = Lease_active"
    and fresh: "leaseId \<notin> el_id ` set (st_leases s)" and ttl: "MIN_LEASE_TTL_MS \<le> hi_ttlMs i" "hi_ttlMs i \<le> MAX_LEASE_TTL_MS"
  defines "reason \<equiv> coalesce (hi_reasonCode i) ''lease_handover''"
  defines "ls \<equiv> update_lease (\<lambda>m. m = prev) (close_lease Lease_released t (Some reason)) (st_leases s)"
  defines "l \<equiv> (new_lease leaseId (el_executionId prev) (hi_newWorkerId i) (ex_attempt ex) (el_queueName prev) t (plusMs t (hi_ttlMs i)))
      \<lparr>el_fencingToken := el_fencingToken prev + 1\<rparr>"
  obtains s4 where "st_leases s4 = ls @ [l]" "st_registry s4 = st_registry s"
    and "handover_move leaseId t i prev ex s =
      bindP (updateWorkerExecutionOwnership (el_workerId prev) (hi_newWorkerId i) (el_executionId prev) t) (\<lambda>_.
      bindP (insertEvent (Handover_recorded (ex_taskId ex) prev l reason t)) (\<lambda>_.
      getsP (\<lambda>s. \<lparr>ho_outcome = Out_handed_over, ho_reasonCode = None, ho_previousLease = getExecutionLease (el_id prev) (st_leases s),
        ho_lease = getExecutionLease (el_id l) (st_leases s)\<rparr>))) s4"
proof -
  let ?e = "el_executionId prev"
  let ?base = "new_lease leaseId ?e (hi_newWorkerId i) (ex_attempt ex) (el_queueName prev) t (plusMs t (hi_ttlMs i))"
  have active: "getActiveExecutionLease ?e (st_leases s) = Some prev" using prev by (simp add: getActive_iff [OF ok])
  have ok': "lease_ok ls" unfolding ls_def using ok lease_change.close [of Lease_released] lease_ok_change by blast
  have "map el_id ls = map el_id (st_leases s)" unfolding ls_def by (rule map_update_lease) simp
  then have fresh': "leaseId \<notin> el_id ` set ls" using fresh by (metis list.set_map)
  have none: "getActiveExecutionLease ?e ls = None" unfolding ls_def by (simp add: active_after_close [OF ok] active)
  have latest: "getLatestFencingToken ?e ls = el_fencingToken prev"
    unfolding ls_def using active_has_latest_token [OF ok active] by (simp add: latest_token_update)
  have cas: "list_ex (cas_matches prev) (st_leases s)" using prev by (auto simp: list_ex_iff cas_matches_def)
  have upd: "update_lease (cas_matches prev) (close_lease Lease_released t (Some reason)) (st_leases s) = ls"
    unfolding ls_def by (rule close_by_id(2) [OF ok prev])
  have ins: "insertExecutionLeaseAllocatingFencingToken ?base u = (Inr (el_fencingToken prev + 1), u\<lparr>st_leases := ls @ [l]\<rparr>)"
    if "st_leases u = ls" for u
    using insert_lease_result [of u ?base] that ok' fresh' none latest by (simp add: l_def)
  define f where "f = (\<lambda>u. SOME f. updateExecutionAgent ?e (hi_newWorkerId i) t u = (Inr (), u\<lparr>st_executions := f\<rparr>))"
  define h where "h = (\<lambda>u. SOME f. updateAgentExecutionOwnership ?e (hi_newWorkerId i) t reason u = (Inr (), u\<lparr>st_agents := f\<rparr>))"
  have f: "updateExecutionAgent ?e (hi_newWorkerId i) t u = (Inr (), u\<lparr>st_executions := f u\<rparr>)" for u
    unfolding f_def using someI_ex [OF side_writes(1)] .
  have h: "updateAgentExecutionOwnership ?e (hi_newWorkerId i) t reason u = (Inr (), u\<lparr>st_agents := h u\<rparr>)" for u
    unfolding h_def using someI_ex [OF side_writes(2)] .
  have bound: "assertLeaseTtlWithinBounds (hi_ttlMs i) s = (Inr (), s)" using ttl by (simp add: assertLeaseTtlWithinBounds_def prog_simps)
  define s2 where "s2 = snd (audit_lease prev Audit_released (Some reason) t (s\<lparr>st_leases := ls\<rparr>))"
  define s3 where "s3 = snd (audit_lease l Audit_handover (Some reason) t
      (snd (audit_lease l Audit_granted (Some reason) t (s2\<lparr>st_leases := ls @ [l]\<rparr>))))"
  define s4 where "s4 = s3\<lparr>st_executions := f s3\<rparr>\<lparr>st_agents := h (s3\<lparr>st_executions := f s3\<rparr>)\<rparr>"
  have audit: "audit_lease m ev r t u = (Inr (), snd (audit_lease m ev r t u))"
    "st_leases (snd (audit_lease m ev r t u)) = st_leases u" "st_registry (snd (audit_lease m ev r t u)) = st_registry u" for m ev r u
    by (simp_all add: audit_lease_def insertLeaseAudit_def prog_simps)
  have leases: "st_leases s2 = ls" "st_leases s4 = ls @ [l]" "st_registry s4 = st_registry s"
    by (simp_all add: s2_def s3_def s4_def audit(2,3))
  have close: "closeExecutionLeaseCas prev Lease_released t (Some reason) s = (Inr True, s\<lparr>st_leases := ls\<rparr>)"
    by (simp add: closeExecutionLeaseCas_def prog_simps cas upd)
  have a2: "audit_lease prev Audit_released (Some reason) t (s\<lparr>st_leases := ls\<rparr>) = (Inr (), s2)"
    unfolding s2_def by (rule audit(1))
  obtain u where u: "audit_lease l Audit_granted (Some reason) t (s2\<lparr>st_leases := ls @ [l]\<rparr>) = (Inr (), u)"
    "audit_lease l Audit_handover (Some reason) t u = (Inr (), s3)"
    unfolding s3_def using audit(1) by blast
  have l: "?base\<lparr>el_fencingToken := el_fencingToken prev + 1\<rparr> = l" by (simp add: l_def)
  have lid: "el_id l = leaseId" by (simp add: l_def)
  have "handover_move leaseId t i prev ex s =
      bindP (updateWorkerExecutionOwnership (el_workerId prev) (hi_newWorkerId i) (el_executionId prev) t) (\<lambda>_.
      bindP (insertEvent (Handover_recorded (ex_taskId ex) prev l reason t)) (\<lambda>_.
      getsP (\<lambda>s. \<lparr>ho_outcome = Out_handed_over, ho_reasonCode = None, ho_previousLease = getExecutionLease (el_id prev) (st_leases s),
        ho_lease = getExecutionLease (el_id l) (st_leases s)\<rparr>))) s4"
    unfolding handover_move_def Let_def reason_def [symmetric]
    by (simp add: bindP_eval bound close a2 ins leases(1) l lid u f h s4_def)
  with leases show ?thesis by (intro that) auto
qed

text \<open>
  A handover moves everything or nothing: when a lease is handed over, it was active, the caller's and not
  over; it is now released, and the execution has a new active lease of the new worker with the next token and a bounded time to live.
  In the registry the execution is gone from the old worker and is listed with the new one, which has room for it.
\<close>

theorem handover_moves_ownership:
  assumes ok: "lease_ok (st_leases s)" and reg: "registry_ok (st_registry s)" and fresh: "leaseId \<notin> el_id ` set (st_leases s)"
    and names: "\<forall>l \<in> set (st_leases s). el_executionId l \<noteq> [] \<and> js_trim (el_executionId l) = el_executionId l"
    and run: "handoverLease leaseId t i s = (Inr d, s')" and out: "ho_outcome d = Out_handed_over"
  shows "\<exists>prev l w. getExecutionLease (hi_leaseId i) (st_leases s) = Some prev
    \<and> el_workerId prev = hi_workerId i \<and> el_status prev = Lease_active \<and> t \<le> el_expiresAt prev
    \<and> map_option el_status (getExecutionLease (hi_leaseId i) (st_leases s')) = Some Lease_released
    \<and> getActiveExecutionLease (el_executionId prev) (st_leases s') = Some l \<and> el_workerId l = hi_newWorkerId i
    \<and> el_fencingToken l = el_fencingToken prev + 1
    \<and> el_expiresAt l = t + hi_ttlMs i \<and> MIN_LEASE_TTL_MS \<le> hi_ttlMs i \<and> hi_ttlMs i \<le> MAX_LEASE_TTL_MS
    \<and> registry_ok (st_registry s')
    \<and> (\<forall>x. getWorkerSnapshot (rg_workers (st_registry s')) (hi_workerId i) = Some x \<longrightarrow> el_executionId prev \<notin> set (sn_runningExecutions x))
    \<and> getWorkerSnapshot (rg_workers (st_registry s')) (hi_newWorkerId i) = Some w
    \<and> el_executionId prev \<in> set (sn_runningExecutions w)"
proof -
  from run out obtain prev ex w where prev: "getExecutionLease (hi_leaseId i) (st_leases s) = Some prev" "el_workerId prev = hi_workerId i"
    "el_status prev = Lease_active" "t \<le> el_expiresAt prev" "hi_newWorkerId i \<noteq> el_workerId prev"
    and w: "getWorkerSnapshot (rg_workers (st_registry s)) (hi_newWorkerId i) = Some w"
    and move: "handover_move leaseId t i prev ex s = (Inr d, s')"
    by (rule handover_reaches_move) blast
  let ?e = "el_executionId prev"
  let ?reason = "coalesce (hi_reasonCode i) ''lease_handover''"
  let ?close = "close_lease Lease_released t (Some ?reason)"
  let ?ls = "update_lease (\<lambda>m. m = prev) ?close (st_leases s)"
  have d: "distinct (map el_id (st_leases s))" using ok by (simp add: lease_ok_def)
  have mem: "prev \<in> set (st_leases s)" "el_id prev = hi_leaseId i" using prev(1) by (simp_all add: getLease_iff [OF d])
  have active: "getActiveExecutionLease ?e (st_leases s) = Some prev" using mem prev(3) by (simp add: getActive_iff [OF ok])
  have ok': "lease_ok ?ls" using ok lease_change.close [of Lease_released] lease_ok_change by blast
  have "map el_id ?ls = map el_id (st_leases s)" by (rule map_update_lease) simp
  then have fresh': "leaseId \<notin> el_id ` set ?ls" using fresh by (metis list.set_map)
  have none: "getActiveExecutionLease ?e ?ls = None" by (simp add: active_after_close [OF ok] active)
  have latest: "getLatestFencingToken ?e ?ls = el_fencingToken prev"
    using active_has_latest_token [OF ok active] by (simp add: latest_token_update)
  have ttl: "MIN_LEASE_TTL_MS \<le> hi_ttlMs i" "hi_ttlMs i \<le> MAX_LEASE_TTL_MS"
    using move by (auto simp: handover_move_def Let_def assertLeaseTtlWithinBounds_def prog_simps split: if_splits)
  let ?base = "new_lease leaseId ?e (hi_newWorkerId i) (ex_attempt ex) (el_queueName prev) t (plusMs t (hi_ttlMs i))"
  let ?l = "?base\<lparr>el_fencingToken := el_fencingToken prev + 1\<rparr>"
  obtain s4 where s4: "st_leases s4 = ?ls @ [?l]" "st_registry s4 = st_registry s"
    and rest: "handover_move leaseId t i prev ex s =
      bindP (updateWorkerExecutionOwnership (el_workerId prev) (hi_newWorkerId i) ?e t) (\<lambda>_.
      bindP (insertEvent (Handover_recorded (ex_taskId ex) prev ?l ?reason t)) (\<lambda>_.
      getsP (\<lambda>s. \<lparr>ho_outcome = Out_handed_over, ho_reasonCode = None, ho_previousLease = getExecutionLease (el_id prev) (st_leases s),
        ho_lease = getExecutionLease (el_id ?l) (st_leases s)\<rparr>))) s4"
    by (rule handover_move_prefix [OF ok mem(1) prev(3) fresh ttl])
  obtain g w' where g: "updateWorkerExecutionOwnership (el_workerId prev) (hi_newWorkerId i) ?e t s4 = (Inr (), s4\<lparr>st_registry := g\<rparr>)" "registry_ok g"
    "\<forall>x. getWorkerSnapshot (rg_workers g) (el_workerId prev) = Some x \<longrightarrow> ?e \<notin> set (sn_runningExecutions x)"
    "getWorkerSnapshot (rg_workers g) (hi_newWorkerId i) = Some w'"
    "sn_runningExecutions w' = normalizeStringArray (mergeExecutionIds (sn_runningExecutions w) ?e)"
    using ownership_moves [of s4 "el_workerId prev" "hi_newWorkerId i" w ?e t] reg w prev(5) s4(2) by metis
  have s': "st_leases s' = ?ls @ [?l]" "st_registry s' = g"
    using move g(1) s4 unfolding rest by (auto simp: prog_simps insertEvent_def)
  have "?e \<noteq> []" "js_trim ?e = ?e" using names mem by auto
  then have "?e \<in> set (sn_runningExecutions w')"
    unfolding g(5) by (force simp: normalizeStringArray_def mergeExecutionIds_def)
  moreover have "getExecutionLease (hi_leaseId i) (st_leases s') = Some (?close prev)"
    using getLease_after_update [OF ok mem(1), of ?close] mem(2) by (auto simp: s'(1) getExecutionLease_def find_append_Some)
  moreover have "getActiveExecutionLease ?e (st_leases s') = Some ?l" by (simp add: s'(1) active_after_append none)
  ultimately show ?thesis
    using prev ttl g s'(2) by (intro exI [of _ prev] exI [of _ ?l] exI [of _ w']) (simp add: plusMs_def)
qed

text \<open>A handover that meets every requirement goes through.\<close>

lemma handover_succeeds:
  assumes ok: "lease_ok (st_leases s)" and reg: "registry_ok (st_registry s)" and fresh: "leaseId \<notin> el_id ` set (st_leases s)"
    and prev: "prev \<in> set (st_leases s)" "el_status prev = Lease_active" "t \<le> el_expiresAt prev"
    and i: "hi_leaseId i = el_id prev" "hi_workerId i = el_workerId prev" "hi_newWorkerId i \<noteq> el_workerId prev"
    and ttl: "MIN_LEASE_TTL_MS \<le> hi_ttlMs i" "hi_ttlMs i \<le> MAX_LEASE_TTL_MS"
    and ex: "st_executions s (el_executionId prev) = Some ex"
    and w: "getWorkerSnapshot (rg_workers (st_registry s)) (hi_newWorkerId i) = Some w" "handover_refusal i (el_executionId prev) w = None"
  shows "\<exists>d s'. handoverLease leaseId t i s = (Inr d, s') \<and> ho_outcome d = Out_handed_over"
proof -
  obtain s4 l where s4: "st_registry s4 = st_registry s" and move: "handover_move leaseId t i prev ex s =
      bindP (updateWorkerExecutionOwnership (el_workerId prev) (hi_newWorkerId i) (el_executionId prev) t) (\<lambda>_.
      bindP (insertEvent (Handover_recorded (ex_taskId ex) prev l (coalesce (hi_reasonCode i) ''lease_handover'') t)) (\<lambda>_.
      getsP (\<lambda>s. \<lparr>ho_outcome = Out_handed_over, ho_reasonCode = None, ho_previousLease = getExecutionLease (el_id prev) (st_leases s),
        ho_lease = getExecutionLease (el_id l) (st_leases s)\<rparr>))) s4"
    by (rule handover_move_prefix [OF ok prev(1,2) fresh ttl, of t ex]) (rule that)
  obtain g where "updateWorkerExecutionOwnership (el_workerId prev) (hi_newWorkerId i) (el_executionId prev) t s4 = (Inr (), s4\<lparr>st_registry := g\<rparr>)"
    using ownership_moves [of s4 "el_workerId prev" "hi_newWorkerId i" w "el_executionId prev" t] reg w i(3) s4 by metis
  then have "\<exists>d s'. handover_move leaseId t i prev ex s = (Inr d, s') \<and> ho_outcome d = Out_handed_over"
    unfolding move by (simp add: prog_simps insertEvent_def)
  then obtain d s' where ds: "handover_move leaseId t i prev ex s = (Inr d, s')" "ho_outcome d = Out_handed_over" by blast
  have "getExecutionLease (hi_leaseId i) (st_leases s) = Some prev" using ok prev(1) i(1) by (simp add: getLease_iff lease_ok_def)
  then have "handoverLease leaseId t i s = (Inr d, s')"
    using prev i ex w ds(1) by (simp add: handoverLease_def transaction_def prog_simps)
  with ds(2) show ?thesis by blast
qed

section \<open>Concrete runs\<close>

definition first_lease :: execution_lease where
  "first_lease = \<lparr>el_id = ''l1'', el_executionId = ''e1'', el_workerId = ''w0'', el_attempt = 1, el_fencingToken = 1, el_queueName = None,
     el_status = Lease_released, el_leasedAt = 0, el_expiresAt = 10000, el_lastHeartbeatAt = Some 0, el_releasedAt = Some 50, el_reasonCode = None\<rparr>"

definition second_lease :: execution_lease where
  "second_lease = \<lparr>el_id = ''l2'', el_executionId = ''e1'', el_workerId = ''w1'', el_attempt = 1, el_fencingToken = 2, el_queueName = None,
     el_status = Lease_active, el_leasedAt = 100, el_expiresAt = 10100, el_lastHeartbeatAt = Some 100, el_releasedAt = None, el_reasonCode = None\<rparr>"

definition busy_worker :: worker_snapshot where
  "busy_worker = idle_worker\<lparr>sn_status := WS_busy, sn_runningExecutions := [''e1'']\<rparr>"

definition second_worker :: worker_snapshot where
  "second_worker = idle_worker\<lparr>sn_workerId := ''w2''\<rparr>"

definition lease_demo :: lease_store where
  "lease_demo = \<lparr>st_executions = [''e1'' \<mapsto> \<lparr>ex_taskId = ''t1'', ex_traceId = ''tr'', ex_attempt = 1, ex_agentId = ''w1'',
       ex_status = ''executing'', ex_updatedAt = At 0, ex_startedAt = None, ex_finishedAt = None, ex_lastErrorCode = None, ex_createdAt = 0\<rparr>],
     st_leases = [first_lease, second_lease], st_audits = [],
     st_registry = \<lparr>rg_workers = [(''w1'', busy_worker), (''w2'', second_worker)], rg_signals = []\<rparr>,
     st_agents = Map.empty, st_events = []\<rparr>"

lemmas lease_demo_defs = lease_demo_def first_lease_def second_lease_def

lemma lease_demo_ok: "lease_ok (st_leases lease_demo)"
  by (simp add: lease_ok_def lease_demo_defs)

lemma lease_demo_registry: "registry_ok (st_registry lease_demo)"
proof -
  have "snapshot_ok busy_worker" "snapshot_ok second_worker"
    by (simp_all add: snapshot_ok_def busy_worker_def second_worker_def idle_worker_def names_ok_def rate_ok_def no_remote_def
        js_trim_def js_white_def)
  then show ?thesis
    by (simp add: registry_ok_def lease_demo_def) (simp add: busy_worker_def second_worker_def idle_worker_def)
qed

definition nobody :: lease_store where
  "nobody = lease_demo\<lparr>st_leases := []\<rparr>"

definition acquire_e1 :: "ident \<Rightarrow> int \<Rightarrow> acquire_input" where
  "acquire_e1 w ttl = \<lparr>ai_executionId = ''e1'', ai_workerId = w, ai_ttlMs = ttl, ai_queueName = None\<rparr>"

lemmas lease_eval = acquireLease_def transaction_def acquireLeaseWithinTransaction_def acquire_after_guard_def prog_simps
  expireActiveLeaseIfNeeded_def getActiveExecutionLease_def acquire_e1_def MIN_LEASE_TTL_MS_def MAX_LEASE_TTL_MS_def
  insertExecutionLeaseAllocatingFencingToken_def getLatestFencingToken_def violates_unique_def audit_lease_def insertLeaseAudit_def
  getExecutionLease_def new_lease_def plusMs_def Let_def

theorem one_active_lease_witness:
  "\<exists>s'. lease_step\<^sup>*\<^sup>* nobody s' \<and> st_leases s' = [first_lease, second_lease]
     \<and> el_status second_lease = Lease_active \<and> el_fencingToken first_lease \<le> el_fencingToken second_lease"
proof -
  let ?s1 = "snd (acquireLease None ''l1'' 0 (acquire_e1 ''w0'' 10000) nobody)"
  let ?s2 = "snd (releaseLease 50 \<lparr>li_leaseId = ''l1'', li_workerId = ''w0'', li_fencingToken = Some 1, li_reasonCode = None\<rparr> ?s1)"
  let ?s3 = "snd (acquireLease None ''l2'' 100 (acquire_e1 ''w1'' 10000) ?s2)"
  have s3: "st_leases ?s3 = [first_lease, second_lease]"
    by (simp add: lease_eval nobody_def lease_demo_def releaseLease_def closeExecutionLeaseCas_def cas_matches_def update_lease_def
        close_lease_def first_lease_def second_lease_def)
  have run: "lease_step\<^sup>*\<^sup>* nobody ?s3"
    using lease_step.acquire lease_step.release by (meson r_into_rtranclp rtranclp.rtrancl_into_rtrancl)
  have active: "el_status second_lease = Lease_active" "el_executionId first_lease = el_executionId second_lease"
    by (simp_all add: first_lease_def second_lease_def)
  from one_active_lease [OF _ run, of second_lease first_lease] s3 run active show ?thesis
    by (intro exI [of _ ?s3]) (simp add: nobody_def)
qed

theorem leases_refine_register_witness:
  "register_step\<^sup>*\<^sup>* (register_of ''e1'' (st_leases lease_demo))
     (register_of ''e1'' (st_leases (snd (reclaimExpiredLeases 20000 lease_demo))))"
  using leases_refine_register [OF lease_demo_ok lease_step.reclaim_expired, where e = "''e1''" and t1 = 20000] by blast

definition write_e1 :: "ident \<Rightarrow> int \<Rightarrow> write_input" where
  "write_e1 w n = \<lparr>wi_executionId = ''e1'', wi_workerId = w, wi_fencingToken = n, wi_leaseId = None\<rparr>"

theorem write_access_exact_witness:
  "\<exists>r s'. validateWriteAccess None 200 (write_e1 ''w1'' 2) lease_demo = (Inr r, s') \<and> va_allowed r"
proof -
  have "\<exists>l \<in> set (st_leases lease_demo). el_executionId l = ''e1'' \<and> el_status l = Lease_active \<and> 200 < el_expiresAt l
      \<and> el_fencingToken l = 2 \<and> el_workerId l = ''w1''"
    by (simp add: lease_demo_defs)
  with write_access_exact [OF lease_demo_ok, of None 200 "write_e1 ''w1'' 2"] show ?thesis
    by (fastforce simp: write_e1_def guard_allows_write_def)
qed

theorem overtaken_token_never_writes_witness:
  "\<exists>r. fst (validateWriteAccess None 300 (write_e1 ''w0'' 1) (snd (reclaimExpiredLeases 200 lease_demo))) = Inr r \<and> \<not> va_allowed r"
proof (rule overtaken_token_never_writes [OF lease_demo_ok])
  show "second_lease \<in> set (st_leases lease_demo)" by (simp add: lease_demo_def)
  show "lease_step\<^sup>*\<^sup>* lease_demo (snd (reclaimExpiredLeases 200 lease_demo))" using lease_step.reclaim_expired by blast
qed (simp_all add: second_lease_def write_e1_def)

theorem acquire_exact_witness:
  "\<exists>d s'. acquireLease None ''l3'' 10100 (acquire_e1 ''w2'' 6000) lease_demo = (Inr d, s') \<and> dc_outcome d = Out_granted"
  using acquire_exact [of lease_demo "acquire_e1 ''w2'' 6000" _ "''l3''" None 10100] lease_demo_ok
  by (fastforce simp: lease_demo_defs acquire_e1_def guard_allows_acquisition_def getActiveExecutionLease_def MIN_LEASE_TTL_MS_def MAX_LEASE_TTL_MS_def)

theorem renewal_is_unbounded_witness:
  "\<exists>d. fst (renewLease 10100 \<lparr>ri_leaseId = ''l2'', ri_workerId = ''w1'', ri_ttlMs = 86400000\<rparr> lease_demo) = Inr d
     \<and> dc_outcome d = Out_renewed \<and> map_option el_expiresAt (dc_lease d) = Some 86410100"
proof -
  have "second_lease \<in> set (st_leases lease_demo)" "el_status second_lease = Lease_active" "el_expiresAt second_lease = 10100"
    by (simp_all add: lease_demo_def second_lease_def)
  from renewal_is_unbounded [OF lease_demo_ok this, of 86400000] show ?thesis by (simp add: second_lease_def)
qed

theorem reclaim_exact_witness:
  "\<exists>s'. reclaimExpiredLeases 20000 lease_demo = (Inr [close_lease Lease_reclaimed 20000 (Some ''lease_reclaimed'') second_lease], s')"
  using reclaim_exact [OF lease_demo_ok lease_demo_registry, of 20000]
  by (fastforce simp: listExpiredExecutionLeases_def lease_demo_def first_lease_def second_lease_def)

definition handover_e1 :: handover_input where
  "handover_e1 = \<lparr>hi_leaseId = ''l2'', hi_workerId = ''w1'', hi_newWorkerId = ''w2'', hi_ttlMs = 6000, hi_requiredCapabilities = None,
     hi_requiredIsolationLevel = None, hi_requiredRepoVersion = None, hi_reasonCode = None\<rparr>"

theorem handover_moves_ownership_witness:
  "\<exists>w. getWorkerSnapshot (rg_workers (st_registry (snd (handoverLease ''l3'' 200 handover_e1 lease_demo)))) ''w2'' = Some w
     \<and> ''e1'' \<in> set (sn_runningExecutions w)"
proof -
  have refusal: "handover_refusal handover_e1 (el_executionId second_lease) second_worker = None"
    by (simp add: handover_refusal_def handover_e1_def second_worker_def idle_worker_def)
  have fresh: "''l3'' \<notin> el_id ` set (st_leases lease_demo)" by (simp add: lease_demo_defs)
  have "\<exists>d s'. handoverLease ''l3'' 200 handover_e1 lease_demo = (Inr d, s') \<and> ho_outcome d = Out_handed_over"
    by (rule handover_succeeds [OF lease_demo_ok lease_demo_registry fresh, where prev = second_lease, OF _ _ _ _ _ _ _ _ _ _ refusal])
      (simp_all add: lease_demo_def handover_e1_def second_lease_def MIN_LEASE_TTL_MS_def MAX_LEASE_TTL_MS_def getWorkerSnapshot_def)
  then obtain d s' where run: "handoverLease ''l3'' 200 handover_e1 lease_demo = (Inr d, s')" "ho_outcome d = Out_handed_over" by blast
  have names: "\<forall>l \<in> set (st_leases lease_demo). el_executionId l \<noteq> [] \<and> js_trim (el_executionId l) = el_executionId l"
    by (simp add: lease_demo_defs js_trim_def js_white_def)
  have prev: "getExecutionLease (hi_leaseId handover_e1) (st_leases lease_demo) = Some second_lease"
    by (simp add: getExecutionLease_def lease_demo_def handover_e1_def first_lease_def) (simp add: second_lease_def)
  from handover_moves_ownership [OF lease_demo_ok lease_demo_registry fresh names run] run(1) show ?thesis
    by (auto simp: prev) (auto simp: handover_e1_def second_lease_def)
qed

end
