(* ===== verification/Dispatch_Selection.thy ===== *)
theory Dispatch_Selection
  imports Worker_Registry Dispatch_Ordering
begin

text \<open>
  Choosing a worker for a ticket: the worker evaluation, ranking and selection of
  \<^verbatim>\<open>src/src/platform/five-plane-execution/dispatcher/execution-dispatch-service.ts\<close> with the helpers of
  \<^verbatim>\<open>execution-dispatch-support.ts\<close>, the load scores of \<^verbatim>\<open>worker-load-balancing.ts\<close> and \<^verbatim>\<open>shared/load-score.ts\<close>, and
  the session checks of \<^verbatim>\<open>worker-pool/remote-session-guard.ts\<close>.

  Scores are rationals; \<^verbatim>\<open>Math.round\<close> rounds half up. The store of the platform has neither a
  \<^verbatim>\<open>getWorker\<close> nor a \<^verbatim>\<open>listWorkers\<close> method of its own, so candidates come from the worker registry.
\<close>

section \<open>Targets, availability and rejection\<close>

datatype dispatch_target = DT_any | DT_local_only | DT_prefer_remote | DT_require_remote

datatype remote_availability = RA_healthy | RA_partial_available | RA_degraded | RA_unavailable

datatype rejection_reason =
    RJ_worker_unavailable | RJ_worker_quarantined | RJ_worker_offline | RJ_worker_draining | RJ_worker_degraded_filtered
  | RJ_worker_untrusted | RJ_worker_capacity_full | RJ_queue_affinity_mismatch | RJ_missing_capabilities
  | RJ_worker_placement_mismatch | RJ_worker_isolation_mismatch | RJ_worker_repo_version_mismatch
  | RJ_worker_remote_session_unready | RJ_risk_class_isolation_mismatch | RJ_sandbox_type_mismatch
  | RJ_worker_heartbeat_missing

definition DEFAULT_WORKER_HEARTBEAT_STALENESS_MS :: int where "DEFAULT_WORKER_HEARTBEAT_STALENESS_MS = 30000"
definition AFFINITY_SELECTION_BONUS :: rat where "AFFINITY_SELECTION_BONUS = 35 / 100"
definition LOAD_SKEW_SELECTION_PENALTY :: rat where "LOAD_SKEW_SELECTION_PENALTY = 75 / 100"
definition MAX_RECOMMENDED_STICKY_SHARE :: rat where "MAX_RECOMMENDED_STICKY_SHARE = 6 / 10"
definition MIN_LOAD_SKEW_ACTIVE_LEASES :: int where "MIN_LOAD_SKEW_ACTIVE_LEASES = 3"
definition LOAD_SKEW_SCORE_MARGIN :: rat where "LOAD_SKEW_SCORE_MARGIN = 35 / 100"

definition resolveDispatchTarget :: "string option \<Rightarrow> dispatch_target" where
  "resolveDispatchTarget target =
     (if target = Some ''local_only'' then DT_local_only
      else if target = Some ''prefer_remote'' then DT_prefer_remote
      else if target = Some ''require_remote'' then DT_require_remote else DT_any)"

definition resolveRequiredIsolationLevel :: "string option \<Rightarrow> isolation_level" where
  "resolveRequiredIsolationLevel level =
     (if level = Some ''hardened'' then IL_hardened else if level = Some ''strict'' then IL_strict else IL_standard)"

definition resolveRequiredRepoVersion :: "string option \<Rightarrow> string option" where
  "resolveRequiredRepoVersion value =
     (case value of None \<Rightarrow> None | Some v \<Rightarrow> let normalized = js_trim v in if normalized \<noteq> [] then Some normalized else None)"

definition isElevatedPriority :: "string \<Rightarrow> bool" where
  "isElevatedPriority p \<longleftrightarrow> p = ''high'' \<or> p = ''urgent'' \<or> p = ''critical''"

record backpressure_snapshot =
  bp_degradationMode :: string
  bp_starvationDetected :: bool

definition resolveDispatchBackpressureReason :: "execution_ticket \<Rightarrow> backpressure_snapshot option \<Rightarrow> string option" where
  "resolveDispatchBackpressureReason ticket snapshot =
     (case snapshot of
        None \<Rightarrow> None
      | Some s \<Rightarrow>
          if bp_degradationMode s = ''read_only_operations_only'' then Some ''backpressure.read_only_mode''
          else if bp_degradationMode s = ''pause_non_critical'' \<and> \<not> isElevatedPriority (et_priority ticket)
          then Some ''backpressure.pause_non_critical''
          else if bp_degradationMode s = ''queue_only'' \<and> bp_starvationDetected s \<and> et_priority ticket = ''low''
          then Some ''backpressure.starvation_protection''
          else if bp_degradationMode s = ''queue_only'' \<and> \<not> isElevatedPriority (et_priority ticket)
          then Some ''backpressure.queue_only'' else None)"

section \<open>Remote sessions\<close>

datatype authority_block_reason =
    Viewer_only | Consistency_mismatch | Sync_conflict | Resume_offset_missing

definition hasAcknowledgedOffset :: "string option \<Rightarrow> bool" where
  "hasAcknowledgedOffset value = (case value of None \<Rightarrow> False | Some v \<Rightarrow> js_trim v \<noteq> [])"

definition resolveRemoteAuthorityBlockReason :: "worker_placement \<Rightarrow> worker_remote \<Rightarrow> authority_block_reason option" where
  "resolveRemoteAuthorityBlockReason placement r =
     (if placement \<noteq> WP_remote then None
      else if wr_remoteSessionStatus r = Some RSS_viewer_only then Some Viewer_only
      else if wr_sessionConsistencyCheckStatus r = Some CCS_mismatch then Some Consistency_mismatch
      else if wr_workspaceSyncStatus r = Some WSY_conflict then Some Sync_conflict
      else if wr_remoteSessionStatus r \<noteq> None \<and> wr_remoteSessionStatus r \<noteq> Some RSS_connecting
              \<and> wr_remoteSessionStatus r \<noteq> Some RSS_failed \<and> \<not> hasAcknowledgedOffset (wr_lastAcknowledgedStreamOffset r)
      then Some Resume_offset_missing else None)"

definition isRemoteSessionReadyForDispatch :: "worker_view \<Rightarrow> bool" where
  "isRemoteSessionReadyForDispatch w \<longleftrightarrow>
     sn_placement w \<noteq> WP_remote
     \<or> (wr_remoteSessionStatus (sn_remote w) = Some RSS_connected
        \<and> resolveRemoteAuthorityBlockReason (sn_placement w) (sn_remote w) = None)"

section \<open>Load\<close>

record load_signal =
  sg_workerId :: ident
  sg_maxConcurrency :: int
  sg_availableSlots :: int
  sg_activeLeaseCount :: int
  sg_runningExecutionCount :: int
  sg_saturation :: "rat option"
  sg_toolBacklogCount :: int
  sg_cpuPct :: "rat option"

definition computeCanonicalLoadScore :: "int \<Rightarrow> int \<Rightarrow> rat option \<Rightarrow> int \<Rightarrow> rat option \<Rightarrow> rat" where
  "computeCanonicalLoadScore activeCount maxConcurrency saturation backlogCount cpuPct =
     (let concurrency = of_int (max 1 maxConcurrency);
          activeRatio = of_int (max 0 activeCount) / concurrency;
          normalizedSaturation = (case saturation of None \<Rightarrow> activeRatio | Some v \<Rightarrow> max 0 v);
          normalizedBacklog = min (of_int (max 0 backlogCount) / concurrency) 4;
          normalizedCpu = (case cpuPct of None \<Rightarrow> 0 | Some c \<Rightarrow> min (max c 0) 100 / 100)
      in max activeRatio normalizedSaturation + normalizedBacklog * (1 / 10) + normalizedCpu * (2 / 10))"

definition computeEffectiveActiveLeaseCount :: "load_signal \<Rightarrow> int" where
  "computeEffectiveActiveLeaseCount s = max (sg_activeLeaseCount s) (sg_runningExecutionCount s)"

definition computeWorkerLoadScore :: "load_signal \<Rightarrow> rat" where
  "computeWorkerLoadScore s = computeCanonicalLoadScore (computeEffectiveActiveLeaseCount s) (sg_maxConcurrency s)
     (sg_saturation s) (sg_toolBacklogCount s) (sg_cpuPct s)"

record load_skew =
  sk_detected :: bool
  sk_dominantWorkerId :: "ident option"
  sk_dominantWorkerShare :: "rat option"
  sk_skewedWorkerIds :: "ident list"
  sk_totalActiveLeaseCount :: int

definition compare_dominant :: "(string \<Rightarrow> string \<Rightarrow> rat) \<Rightarrow> load_signal \<Rightarrow> load_signal \<Rightarrow> rat" where
  "compare_dominant localeCompare left right =
     (if computeEffectiveActiveLeaseCount right \<noteq> computeEffectiveActiveLeaseCount left
      then of_int (computeEffectiveActiveLeaseCount right - computeEffectiveActiveLeaseCount left)
      else if computeWorkerLoadScore right \<noteq> computeWorkerLoadScore left
      then computeWorkerLoadScore right - computeWorkerLoadScore left
      else localeCompare (sg_workerId left) (sg_workerId right))"

definition summarizeWorkerLoadSkew :: "(string \<Rightarrow> string \<Rightarrow> rat) \<Rightarrow> load_signal list \<Rightarrow> load_skew" where
  "summarizeWorkerLoadSkew localeCompare signals =
     (let workersWithLoad = filter (\<lambda>s. computeEffectiveActiveLeaseCount s > 0) signals;
          total = sum_list (map computeEffectiveActiveLeaseCount workersWithLoad);
          none = \<lparr>sk_detected = False, sk_dominantWorkerId = None, sk_dominantWorkerShare = None, sk_skewedWorkerIds = [],
            sk_totalActiveLeaseCount = total\<rparr>
      in if length signals < 2 \<or> workersWithLoad = [] \<or> total < MIN_LOAD_SKEW_ACTIVE_LEASES then none
         else
           let dominant = hd (js_sort (compare_dominant localeCompare) workersWithLoad);
               share = of_int (computeEffectiveActiveLeaseCount dominant) / of_int total;
               alternative = list_ex (\<lambda>s. sg_workerId s \<noteq> sg_workerId dominant \<and> sg_availableSlots s > 0
                 \<and> computeWorkerLoadScore s + LOAD_SKEW_SCORE_MARGIN < computeWorkerLoadScore dominant) signals
           in if share > MAX_RECOMMENDED_STICKY_SHARE \<and> alternative
              then \<lparr>sk_detected = True, sk_dominantWorkerId = Some (sg_workerId dominant), sk_dominantWorkerShare = Some share,
                 sk_skewedWorkerIds = [sg_workerId dominant], sk_totalActiveLeaseCount = total\<rparr>
              else none)"

section \<open>Evaluation\<close>

record ranking =
  rk_affinityMatched :: bool
  rk_activeLeaseCount :: int
  rk_runningExecutionCount :: int
  rk_saturation :: "rat option"
  rk_toolBacklogCount :: int
  rk_loadScore :: rat
  rk_activeLeaseShare :: "rat option"
  rk_dispatchScore :: rat
  rk_loadSkewPenaltyApplied :: bool

record worker_evaluation =
  ev_workerId :: ident
  ev_status :: worker_status
  ev_schedulingStatus :: worker_scheduling_status
  ev_placement :: worker_placement
  ev_isolationLevel :: isolation_level
  ev_repoVersion :: "string option"
  ev_remoteSessionStatus :: "remote_session_status option"
  ev_lastAcknowledgedStreamOffset :: "string option"
  ev_sessionConsistencyCheckStatus :: "consistency_check_status option"
  ev_workspaceSyncStatus :: "workspace_sync_status option"
  ev_queueAffinity :: "ident option"
  ev_availableSlots :: int
  ev_accepted :: bool
  ev_rejectionReason :: "rejection_reason option"
  ev_missingCapabilities :: "string list"
  ev_ranking :: "ranking option"

definition toWorkerEvaluation :: "worker_view \<Rightarrow> bool \<Rightarrow> rejection_reason option \<Rightarrow> string list \<Rightarrow> worker_evaluation" where
  "toWorkerEvaluation w accepted rejectionReason missing =
     \<lparr>ev_workerId = sn_workerId w, ev_status = sn_status w, ev_schedulingStatus = wv_schedulingStatus w, ev_placement = sn_placement w,
      ev_isolationLevel = sn_isolationLevel w, ev_repoVersion = sn_repoVersion w,
      ev_remoteSessionStatus = wr_remoteSessionStatus (sn_remote w),
      ev_lastAcknowledgedStreamOffset = wr_lastAcknowledgedStreamOffset (sn_remote w),
      ev_sessionConsistencyCheckStatus = wr_sessionConsistencyCheckStatus (sn_remote w),
      ev_workspaceSyncStatus = wr_workspaceSyncStatus (sn_remote w), ev_queueAffinity = sn_queueAffinity w,
      ev_availableSlots = wv_availableSlots w, ev_accepted = accepted, ev_rejectionReason = rejectionReason,
      ev_missingCapabilities = missing, ev_ranking = None\<rparr>"

record dispatch_options =
  do_queueName :: "ident option"
  do_preferredWorkerId :: "ident option"
  do_leaseTtlMs :: int
  do_includeDegraded :: bool
  do_starvedExecutionIds :: "ident list option"

definition normalizeCandidateWorker :: "worker_view \<Rightarrow> worker_view" where
  "normalizeCandidateWorker w = w\<lparr>sn_maxConcurrency := max (sn_maxConcurrency w) 1, wv_availableSlots := max 0 (wv_availableSlots w)\<rparr>"

definition getCandidateWorker :: "registry_state \<Rightarrow> ident \<Rightarrow> worker_view option" where
  "getCandidateWorker g workerId = map_option normalizeCandidateWorker (getWorker g workerId)"

definition listCandidateWorkers :: "registry_state \<Rightarrow> worker_view list" where
  "listCandidateWorkers g = listWorkers g"

definition evaluate_worker ::
    "dispatch_target \<Rightarrow> ident option \<Rightarrow> string list \<Rightarrow> isolation_level \<Rightarrow> string option \<Rightarrow> bool \<Rightarrow> timestamp \<Rightarrow> worker_view \<Rightarrow> worker_evaluation" where
  "evaluate_worker target queueAffinity requiredCapabilities requiredIsolationLevel requiredRepoVersion includeDegraded occurredAt w =
     (let reject = (\<lambda>reason. toWorkerEvaluation w False (Some reason) []) in
      if occurredAt - sn_lastHeartbeatAt w > DEFAULT_WORKER_HEARTBEAT_STALENESS_MS then reject RJ_worker_heartbeat_missing
      else if target = DT_local_only \<and> sn_placement w = WP_remote then reject RJ_worker_placement_mismatch
      else if target = DT_require_remote \<and> sn_placement w \<noteq> WP_remote then reject RJ_worker_placement_mismatch
      else if sn_status w = WS_unavailable then reject RJ_worker_unavailable
      else if sn_status w = WS_quarantined then reject RJ_worker_quarantined
      else if sn_status w = WS_offline then reject RJ_worker_offline
      else if sn_status w = WS_draining then reject RJ_worker_draining
      else if sn_placement w = WP_remote \<and> \<not> wv_trusted w then reject RJ_worker_untrusted
      else if \<not> includeDegraded \<and> sn_status w = WS_degraded then reject RJ_worker_degraded_filtered
      else if wv_availableSlots w \<le> 0 then reject RJ_worker_capacity_full
      else if queueAffinity \<notin> {None, Some []} \<and> sn_queueAffinity w \<notin> {None, Some []} \<and> sn_queueAffinity w \<noteq> queueAffinity
      then reject RJ_queue_affinity_mismatch
      else if \<not> meetsIsolationRequirement (sn_isolationLevel w) requiredIsolationLevel then reject RJ_worker_isolation_mismatch
      else if requiredRepoVersion \<noteq> None \<and> sn_repoVersion w \<noteq> requiredRepoVersion then reject RJ_worker_repo_version_mismatch
      else if \<not> isRemoteSessionReadyForDispatch w then reject RJ_worker_remote_session_unready
      else
        let missing = filter (\<lambda>c. c \<notin> set (sn_capabilities w)) requiredCapabilities in
        if missing \<noteq> [] then toWorkerEvaluation w False (Some RJ_missing_capabilities) missing
        else toWorkerEvaluation w True None [])"

definition evaluateWorkersForTicket :: "execution_ticket \<Rightarrow> dispatch_options \<Rightarrow> timestamp \<Rightarrow> registry_state \<Rightarrow> worker_evaluation list" where
  "evaluateWorkersForTicket ticket opts occurredAt g =
     (let candidates = (case do_preferredWorkerId opts of
            None \<Rightarrow> listCandidateWorkers g
          | Some p \<Rightarrow> (case getCandidateWorker g p of None \<Rightarrow> [] | Some w \<Rightarrow> [w]))
      in map (evaluate_worker (resolveDispatchTarget (et_dispatchTarget ticket)) (et_queueName ticket) (et_requiredCapabilities ticket)
           (resolveRequiredIsolationLevel (et_requiredIsolationLevel ticket)) (resolveRequiredRepoVersion (et_requiredRepoVersion ticket))
           (do_includeDegraded opts) occurredAt) candidates)"

section \<open>Remote availability and fallback reasons\<close>

definition remote_evaluations :: "worker_evaluation list \<Rightarrow> worker_evaluation list" where
  "remote_evaluations es = filter (\<lambda>e. ev_placement e = WP_remote \<and> ev_rejectionReason e \<noteq> Some RJ_worker_placement_mismatch) es"

definition resolveRemoteAvailability :: "dispatch_target \<Rightarrow> worker_evaluation list \<Rightarrow> remote_availability option" where
  "resolveRemoteAvailability target es =
     (if target \<noteq> DT_prefer_remote \<and> target \<noteq> DT_require_remote then None
      else let rs = remote_evaluations es in
        if rs = [] then Some RA_unavailable
        else if list_ex ev_accepted rs then Some (if list_all ev_accepted rs then RA_healthy else RA_partial_available)
        else if list_ex (\<lambda>e. ev_rejectionReason e \<in> {Some RJ_worker_degraded_filtered, Some RJ_worker_untrusted, Some RJ_worker_remote_session_unready}) rs
        then Some RA_degraded
        else if list_all (\<lambda>e. ev_rejectionReason e \<in> {Some RJ_worker_unavailable, Some RJ_worker_draining, Some RJ_worker_offline, Some RJ_worker_quarantined}) rs
        then Some RA_unavailable
        else Some RA_partial_available)"

text \<open>The common shape of the three reasons: all remote workers are rejected for the same cause.\<close>

definition remote_reason :: "dispatch_target \<Rightarrow> worker_evaluation list \<Rightarrow> rejection_reason \<Rightarrow> string \<Rightarrow> string \<Rightarrow> string option" where
  "remote_reason target es cause requiredText fallbackText =
     (if target \<noteq> DT_prefer_remote \<and> target \<noteq> DT_require_remote then None
      else let rs = remote_evaluations es in
        if rs = [] then None
        else if list_ex ev_accepted rs \<or> \<not> list_all (\<lambda>e. ev_rejectionReason e = Some cause) rs then None
        else Some (if target = DT_require_remote then requiredText else fallbackText))"

definition resolveRemoteRepoVersionReason :: "dispatch_target \<Rightarrow> worker_evaluation list \<Rightarrow> string option \<Rightarrow> string option" where
  "resolveRemoteRepoVersionReason target es requiredRepoVersion =
     (if requiredRepoVersion = None then None
      else remote_reason target es RJ_worker_repo_version_mismatch ''remote.repo_version_mismatch'' ''remote.fallback_local.repo_version_mismatch'')"

definition resolveRemoteSessionReason :: "dispatch_target \<Rightarrow> worker_evaluation list \<Rightarrow> string option" where
  "resolveRemoteSessionReason target es =
     remote_reason target es RJ_worker_remote_session_unready ''remote.session_unready'' ''remote.fallback_local.session_unready''"

definition resolveRemoteTrustReason :: "dispatch_target \<Rightarrow> worker_evaluation list \<Rightarrow> string option" where
  "resolveRemoteTrustReason target es =
     remote_reason target es RJ_worker_untrusted ''remote.untrusted'' ''remote.fallback_local.untrusted''"

definition availability_text :: "remote_availability \<Rightarrow> string" where
  "availability_text a = (case a of RA_healthy \<Rightarrow> ''healthy'' | RA_partial_available \<Rightarrow> ''partial_available''
     | RA_degraded \<Rightarrow> ''degraded'' | RA_unavailable \<Rightarrow> ''unavailable'')"

section \<open>Ranking and selection\<close>

definition signal_of :: "worker_view \<Rightarrow> load_signal" where
  "signal_of w = \<lparr>sg_workerId = sn_workerId w, sg_maxConcurrency = sn_maxConcurrency w, sg_availableSlots = wv_availableSlots w,
     sg_activeLeaseCount = sn_activeLeaseCount w, sg_runningExecutionCount = int (length (sn_runningExecutions w)),
     sg_saturation = sn_saturation w, sg_toolBacklogCount = sn_toolBacklogCount w, sg_cpuPct = sn_cpuPct w\<rparr>"

definition round3 :: "rat \<Rightarrow> rat" where
  "round3 x = of_int \<lfloor>x * 1000 + 1 / 2\<rfloor> / 1000"

definition rank_worker :: "execution_ticket \<Rightarrow> load_skew \<Rightarrow> worker_view \<Rightarrow> ranking" where
  "rank_worker ticket skew w =
     (let affinityMatched = (et_queueName ticket \<noteq> None \<and> sn_queueAffinity w = et_queueName ticket);
          active = computeEffectiveActiveLeaseCount (signal_of w);
          loadScore = computeWorkerLoadScore (signal_of w);
          share = (if sk_totalActiveLeaseCount skew > 0 then Some (of_int active / of_int (sk_totalActiveLeaseCount skew)) else None);
          penalty = (sn_workerId w \<in> set (sk_skewedWorkerIds skew));
          dispatchScore = of_int (wv_availableSlots w) / of_int (max (sn_maxConcurrency w) 1)
            + (if sn_status w = WS_idle then 1 / 10 else 0) + (if affinityMatched then AFFINITY_SELECTION_BONUS else 0)
            - loadScore - (if penalty then LOAD_SKEW_SELECTION_PENALTY else 0)
      in \<lparr>rk_affinityMatched = affinityMatched, rk_activeLeaseCount = sn_activeLeaseCount w,
          rk_runningExecutionCount = int (length (sn_runningExecutions w)), rk_saturation = sn_saturation w,
          rk_toolBacklogCount = sn_toolBacklogCount w, rk_loadScore = round3 loadScore,
          rk_activeLeaseShare = map_option round3 share, rk_dispatchScore = round3 dispatchScore,
          rk_loadSkewPenaltyApplied = penalty\<rparr>)"

text \<open>A missing dispatch score counts as minus infinity.\<close>

definition compare_evaluations :: "(string \<Rightarrow> string \<Rightarrow> rat) \<Rightarrow> worker_evaluation \<Rightarrow> worker_evaluation \<Rightarrow> rat" where
  "compare_evaluations localeCompare left right =
     (let ls = map_option rk_dispatchScore (ev_ranking left); rs = map_option rk_dispatchScore (ev_ranking right) in
      if ev_accepted right \<noteq> ev_accepted left then (if ev_accepted right then 1 else -1)
      else if rs \<noteq> ls then (case (rs, ls) of (Some r, Some l) \<Rightarrow> r - l | (Some _, None) \<Rightarrow> 1 | (None, _) \<Rightarrow> -1)
      else if ev_availableSlots right \<noteq> ev_availableSlots left then of_int (ev_availableSlots right - ev_availableSlots left)
      else if ev_status left \<noteq> ev_status right then (if ev_status left = WS_idle then -1 else 1)
      else localeCompare (ev_workerId left) (ev_workerId right))"

definition accepted_workers :: "registry_state \<Rightarrow> worker_evaluation list \<Rightarrow> worker_view list" where
  "accepted_workers g es = List.map_filter (\<lambda>e. getCandidateWorker g (ev_workerId e)) (filter ev_accepted es)"

definition rankWorkerEvaluations ::
    "(string \<Rightarrow> string \<Rightarrow> rat) \<Rightarrow> registry_state \<Rightarrow> execution_ticket \<Rightarrow> worker_evaluation list \<Rightarrow> worker_evaluation list" where
  "rankWorkerEvaluations localeCompare g ticket es =
     (let workers = accepted_workers g es;
          skew = summarizeWorkerLoadSkew localeCompare (map signal_of workers);
          ranked = map_of (rev (map (\<lambda>w. (sn_workerId w, rank_worker ticket skew w)) workers))
      in js_sort (compare_evaluations localeCompare)
           (map (\<lambda>e. case ranked (ev_workerId e) of None \<Rightarrow> e | Some r \<Rightarrow> e\<lparr>ev_ranking := Some r\<rparr>) es))"

record worker_selection =
  ws_workers :: "worker_view list"
  ws_reasonCode :: "string option"
  ws_fallbackApplied :: bool

definition selectWorkersForDispatch ::
    "(string \<Rightarrow> string \<Rightarrow> rat) \<Rightarrow> registry_state \<Rightarrow> execution_ticket \<Rightarrow> dispatch_target \<Rightarrow> worker_evaluation list
      \<Rightarrow> remote_availability option \<Rightarrow> string option \<Rightarrow> string option \<Rightarrow> string option \<Rightarrow> worker_selection" where
  "selectWorkersForDispatch localeCompare g ticket target es availability trustReason sessionReason repoVersionReason =
     (let eligible = accepted_workers g (rankWorkerEvaluations localeCompare g ticket es);
          remote = filter (\<lambda>w. sn_placement w = WP_remote) eligible;
          local = filter (\<lambda>w. sn_placement w = WP_local) eligible
      in if target \<noteq> DT_prefer_remote then \<lparr>ws_workers = eligible, ws_reasonCode = None, ws_fallbackApplied = False\<rparr>
         else if remote \<noteq> [] then \<lparr>ws_workers = remote, ws_reasonCode = None, ws_fallbackApplied = False\<rparr>
         else \<lparr>ws_workers = local,
           ws_reasonCode = (if local \<noteq> [] then coalesce_opt trustReason (coalesce_opt sessionReason (coalesce_opt repoVersionReason
             (map_option (\<lambda>a. ''remote.fallback_local.'' @ availability_text a) availability))) else None),
           ws_fallbackApplied = (local \<noteq> [])\<rparr>)"

section \<open>What acceptance means\<close>

text \<open>The requirements of a ticket on a worker, as one condition.\<close>

definition worker_fits :: "execution_ticket \<Rightarrow> bool \<Rightarrow> timestamp \<Rightarrow> worker_view \<Rightarrow> bool" where
  "worker_fits ticket includeDegraded t w \<longleftrightarrow>
     t - sn_lastHeartbeatAt w \<le> DEFAULT_WORKER_HEARTBEAT_STALENESS_MS
     \<and> (resolveDispatchTarget (et_dispatchTarget ticket) = DT_local_only \<longrightarrow> sn_placement w = WP_local)
     \<and> (resolveDispatchTarget (et_dispatchTarget ticket) = DT_require_remote \<longrightarrow> sn_placement w = WP_remote)
     \<and> sn_status w \<in> (if includeDegraded then {WS_idle, WS_busy, WS_degraded} else {WS_idle, WS_busy})
     \<and> (sn_placement w = WP_remote \<longrightarrow> wv_trusted w)
     \<and> 0 < wv_availableSlots w
     \<and> (et_queueName ticket \<in> {None, Some []} \<or> sn_queueAffinity w \<in> {None, Some []} \<or> sn_queueAffinity w = et_queueName ticket)
     \<and> meetsIsolationRequirement (sn_isolationLevel w) (resolveRequiredIsolationLevel (et_requiredIsolationLevel ticket))
     \<and> (resolveRequiredRepoVersion (et_requiredRepoVersion ticket) \<in> {None, sn_repoVersion w})
     \<and> isRemoteSessionReadyForDispatch w
     \<and> set (et_requiredCapabilities ticket) \<subseteq> set (sn_capabilities w)"

definition evaluate_for :: "execution_ticket \<Rightarrow> dispatch_options \<Rightarrow> timestamp \<Rightarrow> worker_view \<Rightarrow> worker_evaluation" where
  "evaluate_for ticket opts t = evaluate_worker (resolveDispatchTarget (et_dispatchTarget ticket)) (et_queueName ticket) (et_requiredCapabilities ticket)
     (resolveRequiredIsolationLevel (et_requiredIsolationLevel ticket)) (resolveRequiredRepoVersion (et_requiredRepoVersion ticket))
     (do_includeDegraded opts) t"

lemma evaluation_fields [simp]:
  "ev_workerId (toWorkerEvaluation w a r m) = sn_workerId w" "ev_accepted (toWorkerEvaluation w a r m) = a"
  "ev_ranking (toWorkerEvaluation w a r m) = None" "ev_placement (toWorkerEvaluation w a r m) = sn_placement w"
  by (simp_all add: toWorkerEvaluation_def)

lemma evaluate_for_fields [simp]:
  "ev_workerId (evaluate_for ticket opts t w) = sn_workerId w" "ev_ranking (evaluate_for ticket opts t w) = None"
  "ev_placement (evaluate_for ticket opts t w) = sn_placement w"
  by (simp_all add: evaluate_for_def evaluate_worker_def Let_def)

lemma placement_cases: "sn_placement w \<noteq> WP_remote \<longleftrightarrow> sn_placement w = WP_local"
  by (cases "sn_placement w") simp_all

lemma status_cases:
  "sn_status w \<in> (if d then {WS_idle, WS_busy, WS_degraded} else {WS_idle, WS_busy}) \<longleftrightarrow>
     sn_status w \<noteq> WS_unavailable \<and> sn_status w \<noteq> WS_quarantined \<and> sn_status w \<noteq> WS_offline \<and> sn_status w \<noteq> WS_draining
     \<and> (d \<or> sn_status w \<noteq> WS_degraded)"
  by (cases "sn_status w") simp_all

lemma accepted_iff_fits: "ev_accepted (evaluate_for ticket opts t w) \<longleftrightarrow> worker_fits ticket (do_includeDegraded opts) t w"
proof -
  have caps: "filter (\<lambda>c. c \<notin> set (sn_capabilities w)) (et_requiredCapabilities ticket) = []
      \<longleftrightarrow> set (et_requiredCapabilities ticket) \<subseteq> set (sn_capabilities w)"
    by (auto simp: filter_empty_conv)
  show ?thesis
    unfolding worker_fits_def status_cases placement_cases [symmetric] evaluate_for_def evaluate_worker_def Let_def
    by (simp add: caps not_less not_le split del: if_split) (auto simp: caps)
qed

text \<open>
  The dispatcher and the registry agree on who is eligible: for a ticket whose required capabilities are in normal
  form, as tickets are created, a worker is accepted exactly when the registry lists it as eligible for the same options, its heartbeat
  is fresh, its placement suits the target, it has the required repository version and its remote session is ready.
\<close>

theorem acceptance_matches_eligibility:
  assumes "names_ok (et_requiredCapabilities ticket)"
  shows "ev_accepted (evaluate_for ticket opts t w) \<longleftrightarrow>
    eligible_worker \<lparr>so_requiredCapabilities = Some (et_requiredCapabilities ticket),
      so_requiredIsolationLevel = Some (resolveRequiredIsolationLevel (et_requiredIsolationLevel ticket)),
      so_queueAffinity = et_queueName ticket, so_includeDegraded = do_includeDegraded opts\<rparr> w
    \<and> t - sn_lastHeartbeatAt w \<le> DEFAULT_WORKER_HEARTBEAT_STALENESS_MS
    \<and> (resolveDispatchTarget (et_dispatchTarget ticket) = DT_local_only \<longrightarrow> sn_placement w = WP_local)
    \<and> (resolveDispatchTarget (et_dispatchTarget ticket) = DT_require_remote \<longrightarrow> sn_placement w = WP_remote)
    \<and> resolveRequiredRepoVersion (et_requiredRepoVersion ticket) \<in> {None, sn_repoVersion w}
    \<and> isRemoteSessionReadyForDispatch w"
proof -
  have level: "resolveIsolationLevel (Some l) = l" for l by (cases l) (simp_all add: resolveIsolationLevel_def)
  show ?thesis
    unfolding accepted_iff_fits worker_fits_def status_cases placement_cases [symmetric]
    by (auto simp: eligible_worker_def Let_def normalize_names_ok [OF assms] level list_all_iff)
qed

section \<open>What selection means\<close>

lemma registry_candidates:
  assumes "registry_ok g" and "w \<in> set (listWorkers g)"
  shows "\<exists>s. getWorkerSnapshot (rg_workers g) (sn_workerId w) = Some s \<and> w = toView s"
proof -
  obtain k s where ks: "(k, s) \<in> set (rg_workers g)" "w = toView s"
    using assms(2) by (auto simp: listWorkers_def listWorkerSnapshots_def)
  then have "map_of (rg_workers g) k = Some s" and "sn_workerId s = k"
    using assms(1) by (auto simp: registry_ok_def intro: map_of_is_SomeI)
  with ks(2) show ?thesis by (auto simp: getWorkerSnapshot_def toView_def)
qed

lemma candidate_lookup:
  "getWorkerSnapshot (rg_workers g) k = Some s \<Longrightarrow> getCandidateWorker g k = Some (normalizeCandidateWorker (toView s))"
  by (simp add: getCandidateWorker_def getWorker_def)

lemma candidate_of:
  assumes "registry_ok g" and "getCandidateWorker g k = Some w"
  shows "\<exists>s. getWorkerSnapshot (rg_workers g) k = Some s \<and> w = normalizeCandidateWorker (toView s) \<and> sn_workerId w = k"
proof (cases "getWorkerSnapshot (rg_workers g) k")
  case (Some s)
  moreover have "sn_workerId s = k" using registry_lookup [OF assms(1) Some] by simp
  ultimately show ?thesis using assms(2) candidate_lookup [OF Some] by (auto simp: normalizeCandidateWorker_def toView_def)
next
  case None
  then have "\<forall>s \<in> set (listWorkerSnapshots (rg_workers g)). sn_workerId s \<noteq> k"
    using assms(1) by (force simp: listWorkerSnapshots_def registry_ok_def getWorkerSnapshot_def map_of_eq_None_iff)
  then have "find (\<lambda>s. sn_workerId s = k) (listWorkerSnapshots (rg_workers g)) = None" by (auto simp: find_None_iff)
  with None assms(2) show ?thesis by (simp add: getCandidateWorker_def getWorker_def)
qed

lemma candidate_normal: "normalizeCandidateWorker (normalizeCandidateWorker w) = normalizeCandidateWorker w"
  by (simp add: normalizeCandidateWorker_def)

lemma normal_fields:
  "sn_workerId (normalizeCandidateWorker w) = sn_workerId w" "sn_lastHeartbeatAt (normalizeCandidateWorker w) = sn_lastHeartbeatAt w"
  "sn_placement (normalizeCandidateWorker w) = sn_placement w" "sn_status (normalizeCandidateWorker w) = sn_status w"
  "wv_trusted (normalizeCandidateWorker w) = wv_trusted w" "sn_queueAffinity (normalizeCandidateWorker w) = sn_queueAffinity w"
  "sn_isolationLevel (normalizeCandidateWorker w) = sn_isolationLevel w" "sn_repoVersion (normalizeCandidateWorker w) = sn_repoVersion w"
  "sn_remote (normalizeCandidateWorker w) = sn_remote w" "sn_capabilities (normalizeCandidateWorker w) = sn_capabilities w"
  "wv_availableSlots (normalizeCandidateWorker w) = max 0 (wv_availableSlots w)"
  "sn_runningExecutions (normalizeCandidateWorker w) = sn_runningExecutions w"
  by (simp_all add: normalizeCandidateWorker_def)

lemma fits_normal [simp]: "worker_fits ticket d t (normalizeCandidateWorker w) \<longleftrightarrow> worker_fits ticket d t w"
  unfolding worker_fits_def isRemoteSessionReadyForDispatch_def by (simp only: normal_fields less_max_iff_disj) simp

text \<open>Every evaluation of a ticket is the evaluation of the registered worker with its identifier.\<close>

lemma evaluations_of_registered:
  assumes ok: "registry_ok g" and "e \<in> set (evaluateWorkersForTicket ticket opts t g)"
  shows "\<exists>s. getWorkerSnapshot (rg_workers g) (ev_workerId e) = Some s \<and> ev_ranking e = None \<and> ev_placement e = sn_placement s
    \<and> (ev_accepted e \<longleftrightarrow> worker_fits ticket (do_includeDegraded opts) t (toView s))"
proof (cases "do_preferredWorkerId opts")
  case None
  then obtain w where w: "w \<in> set (listWorkers g)" "e = evaluate_for ticket opts t w"
    using assms(2) by (auto simp: evaluateWorkersForTicket_def evaluate_for_def listCandidateWorkers_def)
  then show ?thesis using registry_candidates [OF ok w(1)] by (auto simp: accepted_iff_fits toView_def)
next
  case (Some k)
  then obtain w where w: "getCandidateWorker g k = Some w" "e = evaluate_for ticket opts t w"
    using assms(2) by (cases "getCandidateWorker g k") (auto simp: evaluateWorkersForTicket_def evaluate_for_def)
  obtain s where s: "getWorkerSnapshot (rg_workers g) k = Some s" "w = normalizeCandidateWorker (toView s)" "sn_workerId w = k"
    using candidate_of [OF ok w(1)] by blast
  moreover have "sn_placement (toView s) = sn_placement s" by (simp add: toView_def)
  ultimately show ?thesis using w(2) by (simp add: accepted_iff_fits) (simp add: normal_fields)
qed

lemma set_js_sort [simp]: "set (js_sort cmp xs) = set xs"
  by (metis mset_js_sort set_mset_mset)

lemma ranked_members:
  assumes "e \<in> set (rankWorkerEvaluations lc g ticket es)"
  shows "\<exists>e' \<in> set es. ev_workerId e = ev_workerId e' \<and> ev_accepted e = ev_accepted e'"
  using assms by (fastforce simp: rankWorkerEvaluations_def Let_def split: option.splits)

lemma ranked_keeps:
  assumes "e \<in> set es"
  shows "\<exists>e' \<in> set (rankWorkerEvaluations lc g ticket es). ev_workerId e' = ev_workerId e \<and> ev_accepted e' = ev_accepted e"
  using assms by (force simp: rankWorkerEvaluations_def Let_def split: option.split)

lemma map_filter_set: "set (List.map_filter f xs) = {y. \<exists>x \<in> set xs. f x = Some y}"
  by (force simp: List.map_filter_def)

lemma selected_in_accepted:
  assumes "w \<in> set (ws_workers (selectWorkersForDispatch lc g ticket target es av tr se re))"
  shows "w \<in> set (accepted_workers g (rankWorkerEvaluations lc g ticket es))"
  using assms by (auto simp: selectWorkersForDispatch_def Let_def split: if_splits)

text \<open>
  Only fitting workers are selected: every worker the dispatcher may choose for a ticket is registered, meets all requirements of
  the ticket at that time, and is offered with its current registry view.
\<close>

lemma selection_sound:
  assumes ok: "registry_ok g"
    and w: "w \<in> set (ws_workers (selectWorkersForDispatch lc g ticket target (evaluateWorkersForTicket ticket opts t g) av tr se re))"
  shows "\<exists>s. getWorkerSnapshot (rg_workers g) (sn_workerId w) = Some s \<and> w = normalizeCandidateWorker (toView s)
    \<and> worker_fits ticket (do_includeDegraded opts) t (toView s)"
proof -
  obtain e where e: "e \<in> set (rankWorkerEvaluations lc g ticket (evaluateWorkersForTicket ticket opts t g))" "ev_accepted e"
    "getCandidateWorker g (ev_workerId e) = Some w"
    using selected_in_accepted [OF w] by (auto simp: accepted_workers_def map_filter_set)
  then obtain e' where e': "e' \<in> set (evaluateWorkersForTicket ticket opts t g)" "ev_workerId e = ev_workerId e'" "ev_accepted e'"
    using ranked_members by blast
  then show ?thesis
    using candidate_of [OF ok e(3)] evaluations_of_registered [OF ok e'(1)] by auto
qed

section \<open>The order of the selection\<close>

text \<open>
  The comparison of two evaluations that tie up to their status is not antisymmetric when neither worker is idle, and then the
  language leaves the order of a sort open. On a set of evaluations where the comparison is consistent, it is the sorted order.
\<close>

definition consistent_on :: "'a set \<Rightarrow> ('a \<Rightarrow> 'a \<Rightarrow> rat) \<Rightarrow> bool" where
  "consistent_on S cmp \<longleftrightarrow> (\<forall>x \<in> S. \<forall>y \<in> S. cmp x y \<le> 0 \<or> cmp y x \<le> 0)
     \<and> (\<forall>x \<in> S. \<forall>y \<in> S. \<forall>z \<in> S. cmp x y \<le> 0 \<and> cmp y z \<le> 0 \<longrightarrow> cmp x z \<le> 0)"

lemma sorted_insert_by_on:
  assumes "consistent_on S cmp" and "insert x (set xs) \<subseteq> S" and "sorted_wrt (\<lambda>x y. cmp x y \<le> 0) xs"
  shows "sorted_wrt (\<lambda>x y. cmp x y \<le> 0) (insert_by cmp x xs)"
  using assms(2,3)
proof (induction xs)
  case (Cons y ys)
  show ?case
  proof (cases "cmp x y \<le> 0")
    case True
    have "cmp x z \<le> 0" if "z \<in> set ys" for z
    proof -
      have "x \<in> S" "y \<in> S" "z \<in> S" "cmp y z \<le> 0" using that Cons.prems by auto
      with True assms(1) show ?thesis unfolding consistent_on_def by blast
    qed
    with True Cons.prems show ?thesis by simp
  next
    case False
    then have "cmp y x \<le> 0" using Cons.prems(1) assms(1) by (auto simp: consistent_on_def)
    with False Cons show ?thesis by auto
  qed
qed simp

lemma sorted_js_sort_on:
  assumes "consistent_on S cmp" and "set xs \<subseteq> S"
  shows "sorted_wrt (\<lambda>x y. cmp x y \<le> 0) (js_sort cmp xs)"
  using assms(2)
proof (induction xs)
  case (Cons x xs)
  moreover have "set (js_sort cmp xs) \<subseteq> S" using Cons.prems by simp
  ultimately show ?case using sorted_insert_by_on [OF assms(1), of x "js_sort cmp xs"] by (simp add: js_sort_def)
qed (simp add: js_sort_def)

definition score :: "worker_evaluation \<Rightarrow> rat" where
  "score e = (case ev_ranking e of None \<Rightarrow> 0 | Some r \<Rightarrow> rk_dispatchScore r)"

lemma compare_accepted_score:
  assumes "compare_evaluations lc e e' \<le> 0" and "ev_accepted e" and "ev_accepted e'" and "ev_ranking e \<noteq> None" and "ev_ranking e' \<noteq> None"
  shows "score e' \<le> score e"
  using assms by (auto simp: compare_evaluations_def Let_def score_def split: if_splits)

lemma accepted_are_ranked:
  assumes ok: "registry_ok g"
    and e: "e \<in> set (rankWorkerEvaluations lc g ticket (evaluateWorkersForTicket ticket opts t g))" "ev_accepted e"
  shows "ev_ranking e \<noteq> None"
proof -
  let ?es = "evaluateWorkersForTicket ticket opts t g"
  let ?workers = "accepted_workers g ?es"
  let ?skew = "summarizeWorkerLoadSkew lc (map signal_of ?workers)"
  let ?ranked = "map_of (rev (map (\<lambda>w. (sn_workerId w, rank_worker ticket ?skew w)) ?workers))"
  obtain e' where e': "e' \<in> set ?es" "e = (case ?ranked (ev_workerId e') of None \<Rightarrow> e' | Some r \<Rightarrow> e'\<lparr>ev_ranking := Some r\<rparr>)"
    using e(1) by (auto simp: rankWorkerEvaluations_def Let_def)
  then have acc: "ev_accepted e'" using e(2) by (auto split: option.splits)
  obtain s where s: "getWorkerSnapshot (rg_workers g) (ev_workerId e') = Some s" using evaluations_of_registered [OF ok e'(1)] by blast
  have "normalizeCandidateWorker (toView s) \<in> set ?workers"
    using e'(1) acc candidate_lookup [OF s] by (auto simp: accepted_workers_def map_filter_set)
  moreover have "sn_workerId (normalizeCandidateWorker (toView s)) = ev_workerId e'"
    using registry_lookup [OF ok s] by (simp add: normalizeCandidateWorker_def toView_def)
  ultimately have "ev_workerId e' \<in> fst ` set (rev (map (\<lambda>w. (sn_workerId w, rank_worker ticket ?skew w)) ?workers))" by force
  then have "?ranked (ev_workerId e') \<noteq> None" by (simp only: map_of_eq_None_iff) simp
  with e'(2) show ?thesis by (auto split: option.splits)
qed

text \<open>
  The best worker comes first: when the comparison is consistent on the evaluations of a ticket, the first accepted
  evaluation after ranking has a dispatch score that no other accepted evaluation exceeds, and ranking loses no evaluation and
  changes no verdict.
\<close>

theorem best_worker_first:
  assumes ok: "registry_ok g" and ranked: "rankWorkerEvaluations lc g ticket (evaluateWorkersForTicket ticket opts t g) = ranked"
    and cons: "consistent_on (set ranked) (compare_evaluations lc)" and first: "filter ev_accepted ranked = e # rest"
  shows "(\<forall>e' \<in> set rest. score e' \<le> score e)
    \<and> mset (map (\<lambda>e. (ev_workerId e, ev_accepted e)) ranked) = mset (map (\<lambda>e. (ev_workerId e, ev_accepted e)) (evaluateWorkersForTicket ticket opts t g))"
proof
  let ?es = "evaluateWorkersForTicket ticket opts t g"
  obtain xs where xs: "ranked = js_sort (compare_evaluations lc) xs"
      "map (\<lambda>e. (ev_workerId e, ev_accepted e)) xs = map (\<lambda>e. (ev_workerId e, ev_accepted e)) ?es"
    unfolding ranked [symmetric] rankWorkerEvaluations_def Let_def by (auto split: option.split intro!: that)
  have "sorted_wrt (\<lambda>x y. compare_evaluations lc x y \<le> 0) ranked"
    unfolding xs(1) using cons by (intro sorted_js_sort_on) (auto simp: xs(1))
  then have srt: "sorted_wrt (\<lambda>x y. compare_evaluations lc x y \<le> 0) (e # rest)"
    unfolding first [symmetric] by (rule sorted_wrt_filter)
  show "\<forall>e' \<in> set rest. score e' \<le> score e"
  proof
    fix e' assume e': "e' \<in> set rest"
    have "set (e # rest) \<subseteq> set ranked" "\<forall>x \<in> set (e # rest). ev_accepted x" unfolding first [symmetric] by auto
    then have mem: "e \<in> set ranked" "e' \<in> set ranked" "ev_accepted e" "ev_accepted e'" using e' by auto
    then have "ev_ranking e \<noteq> None" "ev_ranking e' \<noteq> None"
      using accepted_are_ranked [OF ok, of _ lc ticket opts t] unfolding ranked by blast+
    with mem srt e' show "score e' \<le> score e" by (intro compare_accepted_score [of lc]) auto
  qed
  have "mset ranked = mset xs" unfolding xs(1) by simp
  then show "mset (map (\<lambda>e. (ev_workerId e, ev_accepted e)) ranked) = mset (map (\<lambda>e. (ev_workerId e, ev_accepted e)) ?es)"
    using xs(2) by (metis mset_map)
qed

text \<open>
  A ticket that prefers remote workers falls back to local ones only when no remote worker fits: if the selection for such a ticket
  offers a local worker, no registered remote worker that was considered meets the requirements of the ticket.
\<close>

theorem fallback_only_without_remote:
  assumes ok: "registry_ok g" and target: "resolveDispatchTarget (et_dispatchTarget ticket) = DT_prefer_remote"
    and w: "w \<in> set (ws_workers (selectWorkersForDispatch lc g ticket DT_prefer_remote (evaluateWorkersForTicket ticket opts t g) av tr se re))"
    and "sn_placement w = WP_local" and any: "do_preferredWorkerId opts = None"
    and r: "getWorkerSnapshot (rg_workers g) k = Some s" "sn_placement s = WP_remote"
  shows "\<not> worker_fits ticket (do_includeDegraded opts) t (toView s)"
proof
  assume fits: "worker_fits ticket (do_includeDegraded opts) t (toView s)"
  let ?es = "evaluateWorkersForTicket ticket opts t g"
  have id: "sn_workerId s = k" using registry_lookup [OF ok r(1)] by simp
  have "toView s \<in> set (listWorkers g)"
    using r(1) by (auto simp: listWorkers_def listWorkerSnapshots_def getWorkerSnapshot_def image_iff dest!: map_of_SomeD intro!: bexI)
  then have "evaluate_for ticket opts t (toView s) \<in> set ?es"
    using any by (auto simp: evaluateWorkersForTicket_def evaluate_for_def listCandidateWorkers_def)
  then obtain e where e: "e \<in> set (rankWorkerEvaluations lc g ticket ?es)" "ev_workerId e = k" "ev_accepted e"
    using ranked_keeps [of "evaluate_for ticket opts t (toView s)" ?es lc g ticket] fits id
    by (auto simp: accepted_iff_fits) (simp add: toView_def)
  then have "normalizeCandidateWorker (toView s) \<in> set (accepted_workers g (rankWorkerEvaluations lc g ticket ?es))"
    using candidate_lookup [OF r(1)] by (auto simp: accepted_workers_def map_filter_set)
  moreover have "sn_placement (normalizeCandidateWorker (toView s)) = WP_remote"
    using r(2) by (simp add: normalizeCandidateWorker_def toView_def)
  ultimately show False
    using w assms(4) by (auto simp: selectWorkersForDispatch_def Let_def filter_empty_conv split: if_splits)
qed

section \<open>A concrete selection\<close>

definition sel_options :: dispatch_options where
  "sel_options = \<lparr>do_queueName = None, do_preferredWorkerId = None, do_leaseTtlMs = 10000, do_includeDegraded = False, do_starvedExecutionIds = None\<rparr>"

definition sel_ticket :: "string \<Rightarrow> execution_ticket" where
  "sel_ticket target = (ex_ticket ''t1'' ''normal'')\<lparr>et_dispatchTarget := Some target\<rparr>"

text \<open>A local worker, and a remote one whose registration has not been verified.\<close>

definition unverified_worker :: worker_snapshot where
  "unverified_worker = idle_worker\<lparr>sn_workerId := ''w2'', sn_placement := WP_remote\<rparr>"

definition mixed_pool :: registry_state where
  "mixed_pool = \<lparr>rg_workers = [(''w1'', idle_worker), (''w2'', unverified_worker)], rg_signals = []\<rparr>"

lemma mixed_pool_ok: "registry_ok mixed_pool"
proof -
  have "snapshot_ok unverified_worker"
    by (simp add: snapshot_ok_def unverified_worker_def idle_worker_def names_ok_def rate_ok_def no_remote_def)
  with idle_worker_ok show ?thesis
    by (simp add: registry_ok_def mixed_pool_def) (simp add: idle_worker_def unverified_worker_def)
qed

lemmas view_simps = toView_def normalizeRate_def resolveIsolationLevel_def toWorkerSchedulingStatus_def no_remote_def
lemmas eval_simps = evaluate_worker_def toWorkerEvaluation_def DEFAULT_WORKER_HEARTBEAT_STALENESS_MS_def meetsIsolationRequirement_def
  ISOLATION_LEVEL_ORDER_def isRemoteSessionReadyForDispatch_def resolveRequiredIsolationLevel_def resolveRequiredRepoVersion_def resolveDispatchTarget_def

theorem acceptance_matches_eligibility_witness:
  "ev_accepted (evaluate_for (sel_ticket ''any'') sel_options 5 (toView idle_worker))"
proof -
  have ok: "names_ok (et_requiredCapabilities (sel_ticket ''any''))"
    by (simp add: names_ok_def sel_ticket_def ex_ticket_def)
  show ?thesis
    unfolding acceptance_matches_eligibility [OF ok, of sel_options 5 "toView idle_worker"]
    by (simp add: sel_ticket_def ex_ticket_def sel_options_def idle_worker_def view_simps eval_simps eligible_worker_def
        normalizeStringArray_def Let_def)
qed

lemma mixed_evaluations:
  "evaluateWorkersForTicket (sel_ticket ''prefer_remote'') sel_options 5 mixed_pool =
     [toWorkerEvaluation (toView idle_worker) True None [],
      toWorkerEvaluation (toView unverified_worker) False (Some RJ_worker_untrusted) []]"
  by (simp add: evaluateWorkersForTicket_def sel_options_def sel_ticket_def ex_ticket_def mixed_pool_def listCandidateWorkers_def listWorkers_def
      listWorkerSnapshots_def evaluate_worker_def idle_worker_def unverified_worker_def view_simps eval_simps Let_def)

definition by_name :: "string \<Rightarrow> string \<Rightarrow> rat" where
  "by_name x y = (if x = y then 0 else if x < y then -1 else 1)"

lemma mixed_accepted:
  assumes "map (\<lambda>e. (ev_workerId e, ev_accepted e)) es = [(''w1'', True), (''w2'', False)]"
  shows "accepted_workers mixed_pool es = [normalizeCandidateWorker (toView idle_worker)]"
proof -
  obtain a b where "es = [a, b]" using assms by (cases es) (auto simp: map_eq_Cons_conv)
  with assms show ?thesis
    by (simp add: accepted_workers_def List.map_filter_def getCandidateWorker_def getWorker_def getWorkerSnapshot_def mixed_pool_def)
qed

lemma mixed_ranked:
  "map (\<lambda>e. (ev_workerId e, ev_accepted e)) (rankWorkerEvaluations by_name mixed_pool (sel_ticket ''prefer_remote'')
      (evaluateWorkersForTicket (sel_ticket ''prefer_remote'') sel_options 5 mixed_pool)) = [(''w1'', True), (''w2'', False)]"
proof -
  have ids: "sn_workerId (toView idle_worker) = ''w1''" "sn_workerId (toView unverified_worker) = ''w2''"
    by (simp_all add: toView_def idle_worker_def unverified_worker_def)
  then have "accepted_workers mixed_pool [toWorkerEvaluation (toView idle_worker) True None [],
      toWorkerEvaluation (toView unverified_worker) False (Some RJ_worker_untrusted) []] = [normalizeCandidateWorker (toView idle_worker)]"
    by (intro mixed_accepted) simp
  then show ?thesis
    by (simp add: mixed_evaluations rankWorkerEvaluations_def Let_def js_sort_def normal_fields ids compare_evaluations_def)
qed

theorem fallback_only_without_remote_witness:
  "\<not> worker_fits (sel_ticket ''prefer_remote'') False 5 (toView unverified_worker)"
proof -
  let ?t = "sel_ticket ''prefer_remote''"
  let ?w = "normalizeCandidateWorker (toView idle_worker)"
  have local: "sn_placement ?w = WP_local" by (simp add: normal_fields) (simp add: toView_def idle_worker_def)
  then have "?w \<in> set (ws_workers (selectWorkersForDispatch by_name mixed_pool ?t DT_prefer_remote
      (evaluateWorkersForTicket ?t sel_options 5 mixed_pool) None None None None))"
    by (simp add: selectWorkersForDispatch_def Let_def mixed_accepted [OF mixed_ranked])
  from fallback_only_without_remote [OF mixed_pool_ok _ this local, of "''w2''" unverified_worker] show ?thesis
    by (simp add: sel_options_def mixed_pool_def getWorkerSnapshot_def resolveDispatchTarget_def)
      (simp add: sel_ticket_def unverified_worker_def)
qed

theorem best_worker_first_witness:
  "\<exists>ranked e. rankWorkerEvaluations by_name mixed_pool (sel_ticket ''prefer_remote'')
      (evaluateWorkersForTicket (sel_ticket ''prefer_remote'') sel_options 5 mixed_pool) = ranked \<and> filter ev_accepted ranked = [e]
    \<and> mset (map (\<lambda>e. (ev_workerId e, ev_accepted e)) ranked) = {#(''w1'', True), (''w2'', False)#}"
proof -
  let ?ranked = "rankWorkerEvaluations by_name mixed_pool (sel_ticket ''prefer_remote'')
      (evaluateWorkersForTicket (sel_ticket ''prefer_remote'') sel_options 5 mixed_pool)"
  obtain a b where ab: "?ranked = [a, b]" "ev_accepted a" "\<not> ev_accepted b" "ev_workerId a = ''w1''" "ev_workerId b = ''w2''"
    using mixed_ranked by (cases ?ranked) (auto simp: map_eq_Cons_conv)
  then have cons: "consistent_on (set ?ranked) (compare_evaluations by_name)"
    by (auto simp: consistent_on_def compare_evaluations_def by_name_def Let_def)
  have "filter ev_accepted ?ranked = [a]" using ab by simp
  from best_worker_first [OF mixed_pool_ok refl cons this] show ?thesis using ab by auto
qed

end
