(* ===== verification/Execution_Dispatch.thy ===== *)
theory Execution_Dispatch
  imports Execution_Lease Dispatch_Selection
begin

text \<open>
  The dispatch service (\<^verbatim>\<open>src/src/platform/five-plane-execution/dispatcher/execution-dispatch-service.ts\<close>) with the priority
  preemption (\<^verbatim>\<open>execution-priority-preemption-service.ts\<close>) over the ticket table
  (\<^verbatim>\<open>.../truth/sqlite/repositories/execution-ticket-repository.ts\<close>), on top of the lease service and the worker registry.

  The store adds to the one of the leases the ticket table in insertion order, the tasks, the workflow states, the events
  and the dead-letter queue. Required capabilities are the list that the JSON column holds. Identifiers of new leases and tickets
  are arguments; event identifiers, event payload columns that repeat the ticket and the JSON texts of plans are left out, and
  of agent records the plan and the last decision, JSON texts as well, are left out. What the service is constructed with (collation, back-pressure,
  queue availability, dead-letter queue, poison-pill age) is a record. Inserting a ticket for an unknown execution, which the repository
  answers with a placeholder execution, does not occur in these operations.
\<close>

section \<open>The ticket table\<close>

record task_row =
  tk_tenantId :: "ident option"
  tk_priority :: string
  tk_status :: string
  tk_outputJson :: "string option"
  tk_errorCode :: "string option"
  tk_completedAt :: "timestamp option"
  tk_updatedAt :: timestamp

record workflow_row =
  wf_status :: string
  wf_currentStepIndex :: int
  wf_outputsJson :: string
  wf_resumableFromStep :: "ident option"
  wf_retryCount :: int
  wf_lastErrorCode :: "string option"
  wf_updatedAt :: timestamp

record preemption_trace =
  pt_applied :: bool
  pt_triggerPriority :: string
  pt_preemptedExecutionId :: "ident option"
  pt_preemptedTaskId :: "ident option"
  pt_preemptedWorkerId :: "ident option"
  pt_previousTicketId :: "ident option"
  pt_replacementTicketId :: "ident option"
  pt_recoveryStepId :: "ident option"
  pt_reasonCode :: string

datatype dispatch_outcome = DO_dispatched | DO_no_ticket | DO_no_worker | DO_blocked

record decision_trace =
  dt_ticketId :: ident
  dt_executionId :: ident
  dt_taskId :: ident
  dt_queueName :: "ident option"
  dt_dispatchTarget :: dispatch_target
  dt_remoteAvailability :: "remote_availability option"
  dt_requiredIsolationLevel :: isolation_level
  dt_requiredRepoVersion :: "string option"
  dt_preferredWorkerId :: "ident option"
  dt_requiredCapabilities :: "string list"
  dt_outcome :: dispatch_outcome
  dt_reasonCode :: "string option"
  dt_selectedWorkerId :: "ident option"
  dt_leaseId :: "ident option"
  dt_fallbackApplied :: bool
  dt_preemption :: "preemption_trace option"
  dt_evaluations :: "worker_evaluation list"
  dt_readySet :: "ident list"
  dt_selectedNodeIds :: "ident list"

datatype failure_category = FC_unknown | FC_configuration | FC_transient | FC_poison_pill | FC_resource

datatype dispatch_event =
    Ticket_created ident
  | Ticket_claimed ident ident ident
  | Decision_recorded decision_trace
  | Backpressure_rejected ident string
  | Dlq_enqueued ident string
  | Poison_pill_detected ident
  | Ticket_requeued "ident option" ident ident
  | Execution_preempted ident ident ident
  | Ticket_reconciled ident "ident option"
  | Ticket_requeued_for ident ident string

record dispatch_store =
  ds_core :: lease_store
  ds_tickets :: "execution_ticket list"
  ds_tasks :: "ident \<rightharpoonup> task_row"
  ds_workflows :: "ident \<rightharpoonup> workflow_row"
  ds_events :: "dispatch_event list"
  ds_dlq :: "(ident \<times> string \<times> failure_category) list"

datatype dispatch_error =
    Lease_failure lease_error
  | Dispatch_execution_not_found ident
  | Dispatch_task_not_found ident
  | Ticket_unique_violation
  | Dispatch_registry_failure registry_error

type_synonym 'a dispatch_prog = "(dispatch_store, dispatch_error, 'a) prog"

text \<open>What the insert writes and the select reads back: the columns of the table, and no others.\<close>

definition stored_ticket :: "execution_ticket \<Rightarrow> execution_ticket" where
  "stored_ticket k = k\<lparr>et_dispatchTarget := Some (coalesce (et_dispatchTarget k) ''any''),
     et_requiredIsolationLevel := Some (coalesce (et_requiredIsolationLevel k) ''standard''),
     et_tenantId := None, et_riskClass := None, et_requiredSandboxType := None, et_tenantQuotaRef := None,
     et_criticalPathRank := None, et_schedulerSeed := None\<rparr>"

definition active_ticket :: "execution_ticket \<Rightarrow> bool" where
  "active_ticket k \<longleftrightarrow> et_status k = ''pending'' \<or> et_status k = ''claimed''"

definition insertExecutionTicket :: "execution_ticket \<Rightarrow> unit dispatch_prog" where
  "insertExecutionTicket ticket =
     bindP (getsP (\<lambda>s. list_ex (\<lambda>k. et_id k = et_id ticket
       \<or> (active_ticket k \<and> active_ticket ticket \<and> et_executionId k = et_executionId ticket \<and> et_attempt k = et_attempt ticket)) (ds_tickets s))) (\<lambda>bad.
     bindP (throwP_if bad Ticket_unique_violation) (\<lambda>_.
     modifyP (\<lambda>s. s\<lparr>ds_tickets := ds_tickets s @ [stored_ticket ticket]\<rparr>)))"

definition update_ticket :: "(execution_ticket \<Rightarrow> bool) \<Rightarrow> (execution_ticket \<Rightarrow> execution_ticket) \<Rightarrow> execution_ticket list \<Rightarrow> execution_ticket list" where
  "update_ticket p f ks = map (\<lambda>k. if p k then f k else k) ks"

definition claimExecutionTicket :: "ident \<Rightarrow> ident \<Rightarrow> ident \<Rightarrow> timestamp \<Rightarrow> execution_ticket list \<Rightarrow> execution_ticket list" where
  "claimExecutionTicket ticketId assignedWorkerId leaseId claimedAt =
     update_ticket (\<lambda>k. et_id k = ticketId \<and> et_status k = ''pending'')
       (\<lambda>k. k\<lparr>et_status := ''claimed'', et_assignedWorkerId := Some assignedWorkerId, et_leaseId := Some leaseId,
          et_claimedAt := Some claimedAt, et_updatedAt := claimedAt\<rparr>)"

definition invalidateExecutionTicket :: "ident \<Rightarrow> string \<Rightarrow> timestamp \<Rightarrow> execution_ticket list \<Rightarrow> execution_ticket list" where
  "invalidateExecutionTicket ticketId status invalidatedAt =
     update_ticket (\<lambda>k. et_id k = ticketId)
       (\<lambda>k. k\<lparr>et_status := status, et_invalidatedAt := Some invalidatedAt, et_updatedAt := invalidatedAt\<rparr>)"

definition getExecutionTicket :: "ident \<Rightarrow> execution_ticket list \<Rightarrow> execution_ticket option" where
  "getExecutionTicket ticketId ks = find (\<lambda>k. et_id k = ticketId) ks"

definition getActiveExecutionTicket :: "ident \<Rightarrow> int \<Rightarrow> execution_ticket list \<Rightarrow> execution_ticket option" where
  "getActiveExecutionTicket executionId attempt ks =
     (case sort_key et_createdAt (filter (\<lambda>k. et_executionId k = executionId \<and> et_attempt k = attempt \<and> active_ticket k) ks) of
        [] \<Rightarrow> None | k # _ \<Rightarrow> Some k)"

definition listExecutionTicketsByExecution :: "ident \<Rightarrow> execution_ticket list \<Rightarrow> execution_ticket list" where
  "listExecutionTicketsByExecution executionId ks =
     sort_key et_createdAt (sort_key et_id (filter (\<lambda>k. et_executionId k = executionId) ks))"

definition dispatchable :: "timestamp \<Rightarrow> ident option \<Rightarrow> execution_ticket \<Rightarrow> bool" where
  "dispatchable now queueName k \<longleftrightarrow> et_status k = ''pending''
     \<and> (case et_dispatchAfter k of None \<Rightarrow> True | Some d \<Rightarrow> d \<le> now)
     \<and> (case queueName of None \<Rightarrow> True | Some q \<Rightarrow> et_queueName k = Some q)"

definition compare_rows :: "execution_ticket \<Rightarrow> execution_ticket \<Rightarrow> rat" where
  "compare_rows left right = (if et_priority left \<noteq> et_priority right then (if et_priority right < et_priority left then -1 else 1)
     else of_int (et_createdAt left - et_createdAt right))"

definition listDispatchableExecutionTickets :: "timestamp \<Rightarrow> ident option \<Rightarrow> execution_ticket list \<Rightarrow> execution_ticket list" where
  "listDispatchableExecutionTickets now queueName ks = js_sort compare_rows (filter (dispatchable now queueName) ks)"

section \<open>Calls of the other services\<close>

definition callLease :: "'a lease_prog \<Rightarrow> 'a dispatch_prog" where
  "callLease m = (\<lambda>s. case m (ds_core s) of
     (Inl e, c) \<Rightarrow> (Inl (Lease_failure e), s\<lparr>ds_core := c\<rparr>) | (Inr x, c) \<Rightarrow> (Inr x, s\<lparr>ds_core := c\<rparr>))"

definition dispatch_transaction :: "'a dispatch_prog \<Rightarrow> 'a dispatch_prog" where
  "dispatch_transaction work = (\<lambda>s. case work s of (Inl e, _) \<Rightarrow> (Inl e, s) | (Inr r, s') \<Rightarrow> (Inr r, s'))"

definition registry :: "dispatch_store \<Rightarrow> registry_state" where
  "registry s = st_registry (ds_core s)"

definition insertDispatchEvent :: "dispatch_event \<Rightarrow> unit dispatch_prog" where
  "insertDispatchEvent e = modifyP (\<lambda>s. s\<lparr>ds_events := ds_events s @ [e]\<rparr>)"

definition updateExecutionStatus ::
    "ident \<Rightarrow> string \<Rightarrow> stored_time \<Rightarrow> stored_time option \<Rightarrow> stored_time option \<Rightarrow> string option \<Rightarrow> unit dispatch_prog" where
  "updateExecutionStatus executionId status updatedAt startedAt finishedAt lastErrorCode =
     modifyP (\<lambda>s. let c = ds_core s in case st_executions c executionId of
       None \<Rightarrow> s
     | Some ex \<Rightarrow> s\<lparr>ds_core := c\<lparr>st_executions := (st_executions c)(executionId \<mapsto> ex\<lparr>ex_status := status, ex_updatedAt := updatedAt,
         ex_startedAt := coalesce_opt startedAt (ex_startedAt ex), ex_finishedAt := coalesce_opt finishedAt (ex_finishedAt ex),
         ex_lastErrorCode := lastErrorCode\<rparr>)\<rparr>\<rparr>)"

text \<open>\<^verbatim>\<open>buildDispatchAgentExecutionRecord\<close> and the upsert.\<close>

definition upsertDispatchAgent :: "ident \<Rightarrow> execution_row \<Rightarrow> timestamp \<Rightarrow> string \<Rightarrow> string \<Rightarrow> unit dispatch_prog" where
  "upsertDispatchAgent executionId execution occurredAt status progressMessage =
     modifyP (\<lambda>s. let c = ds_core s; existing = st_agents c executionId in
       s\<lparr>ds_core := c\<lparr>st_agents := (st_agents c)(executionId \<mapsto>
         \<lparr>ag_agentId = coalesce (map_option ag_agentId existing) (ex_agentId execution),
          ag_runtimeInstanceId = Option.bind existing ag_runtimeInstanceId,
          ag_restartedFromRuntimeInstanceId = Option.bind existing ag_restartedFromRuntimeInstanceId,
          ag_restartGeneration = coalesce (map_option ag_restartGeneration existing) 0, ag_status = status,
          ag_currentStepId = Option.bind existing ag_currentStepId, ag_lastToolName = Option.bind existing ag_lastToolName,
          ag_toolCallCount = coalesce (map_option ag_toolCallCount existing) 0, ag_lastErrorCode = ex_lastErrorCode execution,
          ag_retryCount = coalesce (map_option ag_retryCount existing) (max (ex_attempt execution - 1) 0),
          ag_progressMessage = Some progressMessage, ag_startedAt = Option.bind existing ag_startedAt,
          ag_createdAt = coalesce (map_option ag_createdAt existing) occurredAt, ag_updatedAt = occurredAt,
          ag_completedAt = Option.bind existing ag_completedAt\<rparr>)\<rparr>\<rparr>)"

section \<open>Creating tickets\<close>

record create_ticket_input =
  ci_executionId :: ident
  ci_priority :: "string option"
  ci_queueName :: "ident option"
  ci_dispatchTarget :: "string option"
  ci_requiredIsolationLevel :: "string option"
  ci_requiredRepoVersion :: "string option"
  ci_requiredCapabilities :: "string list option"
  ci_dispatchAfter :: "timestamp option"

datatype ticket_outcome = TO_created | TO_exists

definition target_text :: "dispatch_target \<Rightarrow> string" where
  "target_text d = (case d of DT_any \<Rightarrow> ''any'' | DT_local_only \<Rightarrow> ''local_only'' | DT_prefer_remote \<Rightarrow> ''prefer_remote'' | DT_require_remote \<Rightarrow> ''require_remote'')"

definition level_text :: "isolation_level \<Rightarrow> string" where
  "level_text l = (case l of IL_standard \<Rightarrow> ''standard'' | IL_hardened \<Rightarrow> ''hardened'' | IL_strict \<Rightarrow> ''strict'')"

definition new_ticket :: "ident \<Rightarrow> timestamp \<Rightarrow> create_ticket_input \<Rightarrow> execution_row \<Rightarrow> task_row \<Rightarrow> execution_ticket" where
  "new_ticket ticketId occurredAt i execution task =
     \<lparr>et_id = ticketId, et_executionId = ci_executionId i, et_taskId = ex_taskId execution,
      et_tenantId = Some (coalesce (tk_tenantId task) ''default''), et_priority = coalesce (ci_priority i) (tk_priority task),
      et_queueName = ci_queueName i, et_dispatchTarget = Some (target_text (resolveDispatchTarget (ci_dispatchTarget i))),
      et_requiredIsolationLevel = Some (level_text (resolveRequiredIsolationLevel (ci_requiredIsolationLevel i))),
      et_requiredRepoVersion = resolveRequiredRepoVersion (ci_requiredRepoVersion i),
      et_requiredCapabilities = normalizeStringArray (coalesce (ci_requiredCapabilities i) []),
      et_dispatchAfter = ci_dispatchAfter i, et_attempt = ex_attempt execution, et_status = ''pending'', et_assignedWorkerId = None,
      et_leaseId = None, et_claimedAt = None, et_consumedAt = None, et_invalidatedAt = None, et_createdAt = occurredAt, et_updatedAt = occurredAt,
      et_riskClass = None, et_requiredSandboxType = None, et_tenantQuotaRef = None, et_criticalPathRank = None, et_schedulerSeed = None\<rparr>"

definition createTicket :: "ident \<Rightarrow> timestamp \<Rightarrow> create_ticket_input \<Rightarrow> (ticket_outcome \<times> execution_ticket) dispatch_prog" where
  "createTicket ticketId occurredAt i =
     bindP (dispatch_transaction (
       bindP (getsP (\<lambda>s. st_executions (ds_core s) (ci_executionId i))) (\<lambda>found.
       case found of
         None \<Rightarrow> throwP (Dispatch_execution_not_found (ci_executionId i))
       | Some execution \<Rightarrow>
           bindP (getsP (\<lambda>s. (getActiveExecutionTicket (ci_executionId i) (ex_attempt execution) (ds_tickets s), ds_tasks s (ex_taskId execution)))) (\<lambda>(existing, task).
           case existing of
             Some k \<Rightarrow> returnP (TO_exists, k)
           | None \<Rightarrow>
               (case task of
                  None \<Rightarrow> throwP (Dispatch_task_not_found (ex_taskId execution))
                | Some tk \<Rightarrow>
                    let ticket = new_ticket ticketId occurredAt i execution tk in
                    bindP (insertExecutionTicket ticket) (\<lambda>_.
                    bindP (upsertDispatchAgent (ci_executionId i) execution occurredAt ''ticket_pending'' ''execution ticket created'') (\<lambda>_.
                    returnP (TO_created, ticket)))))))) (\<lambda>(outcome, ticket).
     if outcome = TO_created then bindP (insertDispatchEvent (Ticket_created (et_id ticket))) (\<lambda>_. returnP (outcome, ticket))
     else returnP (outcome, ticket))"

section \<open>Priority preemption\<close>

definition priorityRank :: "string \<Rightarrow> nat" where
  "priorityRank p = (if p = ''urgent'' then 4 else if p = ''high'' then 3 else if p = ''normal'' then 2 else 1)"

definition isPreemptionTriggerTicket :: "execution_ticket \<Rightarrow> bool" where
  "isPreemptionTriggerTicket k \<longleftrightarrow> et_priority k = ''urgent''"

record preemption_candidate =
  pc_worker :: worker_view
  pc_executionId :: ident
  pc_execution :: execution_row
  pc_workflow :: workflow_row
  pc_task :: task_row
  pc_taskPriority :: string
  pc_activeLease :: execution_lease
  pc_latestTicket :: "execution_ticket option"
  pc_agentExecution :: "agent_row option"
  pc_recoveryStepId :: ident

definition isCompatibleFullWorker :: "execution_ticket \<Rightarrow> dispatch_options \<Rightarrow> worker_view \<Rightarrow> bool" where
  "isCompatibleFullWorker ticket opts w \<longleftrightarrow>
     (let target = resolveDispatchTarget (et_dispatchTarget ticket) in
      if do_preferredWorkerId opts \<noteq> None \<and> do_preferredWorkerId opts \<noteq> Some (sn_workerId w) then False
      else if wv_availableSlots w > 0 then False
      else if sn_maxConcurrency w \<noteq> 1 \<or> length (sn_runningExecutions w) \<noteq> 1 then False
      else if target = DT_local_only \<and> sn_placement w = WP_remote then False
      else if target = DT_require_remote \<and> sn_placement w \<noteq> WP_remote then False
      else if sn_status w \<in> {WS_unavailable, WS_quarantined, WS_offline, WS_draining} then False
      else if \<not> do_includeDegraded opts \<and> sn_status w = WS_degraded then False
      else if sn_placement w = WP_remote \<and> \<not> wv_trusted w then False
      else if \<not> isRemoteSessionReadyForDispatch w then False
      else if et_queueName ticket \<notin> {None, Some []} \<and> sn_queueAffinity w \<notin> {None, Some []} \<and> sn_queueAffinity w \<noteq> et_queueName ticket then False
      else if ISOLATION_LEVEL_ORDER (sn_isolationLevel w) < ISOLATION_LEVEL_ORDER (resolveRequiredIsolationLevel (et_requiredIsolationLevel ticket)) then False
      else if resolveRequiredRepoVersion (et_requiredRepoVersion ticket) \<noteq> None
              \<and> sn_repoVersion w \<noteq> resolveRequiredRepoVersion (et_requiredRepoVersion ticket) then False
      else list_all (\<lambda>c. c \<in> set (sn_capabilities w)) (et_requiredCapabilities ticket))"

definition toCandidate :: "dispatch_store \<Rightarrow> ident \<Rightarrow> ident option \<Rightarrow> worker_view \<Rightarrow> preemption_candidate option" where
  "toCandidate s sourceExecutionId sourceTenantId w =
     (case sn_runningExecutions w of
        [] \<Rightarrow> None
      | executionId # _ \<Rightarrow>
          if executionId = [] \<or> executionId = sourceExecutionId then None
          else case st_executions (ds_core s) executionId of
            None \<Rightarrow> None
          | Some execution \<Rightarrow>
              if ex_status execution \<noteq> ''executing'' then None
              else case (ds_tasks s (ex_taskId execution), ds_workflows s (ex_taskId execution),
                         getActiveExecutionLease executionId (st_leases (ds_core s))) of
                (Some task, Some workflow, Some activeLease) \<Rightarrow>
                  if wf_status workflow \<noteq> ''running'' \<or> el_workerId activeLease \<noteq> sn_workerId w then None
                  else if sourceTenantId \<noteq> None \<and> tk_tenantId task \<noteq> sourceTenantId then None
                  else if (case getLatestExecutionLease executionId (st_leases (ds_core s)) of
                             None \<Rightarrow> False | Some l \<Rightarrow> el_fencingToken l \<noteq> el_fencingToken activeLease) then None
                  else
                    let mine = filter (\<lambda>k. et_attempt k = ex_attempt execution) (listExecutionTicketsByExecution executionId (ds_tickets s));
                        latestTicket = (if mine = [] then None else Some (last mine));
                        candidatePriority = coalesce (map_option et_priority latestTicket) (tk_priority task);
                        agent = st_agents (ds_core s) executionId
                    in if candidatePriority = ''urgent'' then None
                       else (case wf_resumableFromStep workflow of
                         None \<Rightarrow> None
                       | Some step \<Rightarrow>
                           if step = [] then None
                           else if sn_currentStepId w \<noteq> None \<and> sn_currentStepId w \<noteq> Some step then None
                           else if Option.bind agent ag_currentStepId \<notin> {None, Some step} then None
                           else Some \<lparr>pc_worker = w, pc_executionId = executionId, pc_execution = execution, pc_workflow = workflow, pc_task = task,
                             pc_taskPriority = candidatePriority, pc_activeLease = activeLease, pc_latestTicket = latestTicket,
                             pc_agentExecution = agent, pc_recoveryStepId = step\<rparr>)
              | _ \<Rightarrow> None)"

definition compare_candidates :: "(string \<Rightarrow> string \<Rightarrow> rat) \<Rightarrow> preemption_candidate \<Rightarrow> preemption_candidate \<Rightarrow> rat" where
  "compare_candidates localeCompare left right =
     (if priorityRank (pc_taskPriority left) \<noteq> priorityRank (pc_taskPriority right)
      then of_nat (priorityRank (pc_taskPriority left)) - of_nat (priorityRank (pc_taskPriority right))
      else if el_leasedAt (pc_activeLease left) \<noteq> el_leasedAt (pc_activeLease right)
      then of_int (el_leasedAt (pc_activeLease left) - el_leasedAt (pc_activeLease right))
      else localeCompare (sn_workerId (pc_worker left)) (sn_workerId (pc_worker right)))"

definition selectCandidate ::
    "(string \<Rightarrow> string \<Rightarrow> rat) \<Rightarrow> execution_ticket \<Rightarrow> dispatch_options \<Rightarrow> dispatch_store \<Rightarrow> preemption_candidate option" where
  "selectCandidate localeCompare ticket opts s =
     (case js_sort (compare_candidates localeCompare)
        (List.map_filter (toCandidate s (et_executionId ticket) (et_tenantId ticket))
          (filter (isCompatibleFullWorker ticket opts) (listWorkers (registry s)))) of
        [] \<Rightarrow> None | c # _ \<Rightarrow> Some c)"

definition buildTrace :: "string \<Rightarrow> preemption_candidate option \<Rightarrow> ident option \<Rightarrow> string \<Rightarrow> preemption_trace" where
  "buildTrace triggerPriority candidate replacementTicketId reasonCode =
     \<lparr>pt_applied = (reasonCode = ''priority_preemption_applied''), pt_triggerPriority = triggerPriority,
      pt_preemptedExecutionId = map_option pc_executionId candidate,
      pt_preemptedTaskId = map_option (\<lambda>c. ex_taskId (pc_execution c)) candidate,
      pt_preemptedWorkerId = map_option (\<lambda>c. sn_workerId (pc_worker c)) candidate,
      pt_previousTicketId = map_option et_id (Option.bind candidate pc_latestTicket),
      pt_replacementTicketId = replacementTicketId, pt_recoveryStepId = map_option pc_recoveryStepId candidate, pt_reasonCode = reasonCode\<rparr>"

definition resolveNextTicketAttempt :: "ident \<Rightarrow> int \<Rightarrow> execution_ticket list \<Rightarrow> int" where
  "resolveNextTicketAttempt executionId fallbackAttempt ks =
     (case map et_attempt (listExecutionTicketsByExecution executionId ks) of
        [] \<Rightarrow> fallbackAttempt + 1 | n # ns \<Rightarrow> fold max ns n + 1)"

definition replacement_ticket :: "ident \<Rightarrow> preemption_candidate \<Rightarrow> timestamp \<Rightarrow> execution_ticket list \<Rightarrow> execution_ticket" where
  "replacement_ticket ticketId c occurredAt ks = (let l = pc_latestTicket c in
       \<lparr>et_id = ticketId, et_executionId = pc_executionId c, et_taskId = ex_taskId (pc_execution c),
        et_tenantId = Some (coalesce (tk_tenantId (pc_task c)) ''global''),
        et_priority = coalesce (map_option et_priority l) (pc_taskPriority c), et_queueName = Option.bind l et_queueName,
        et_dispatchTarget = Some (coalesce (Option.bind l et_dispatchTarget) ''any''),
        et_requiredIsolationLevel = Some (coalesce (Option.bind l et_requiredIsolationLevel) ''standard''),
        et_requiredRepoVersion = Option.bind l et_requiredRepoVersion,
        et_requiredCapabilities = coalesce (map_option et_requiredCapabilities l) [],
        et_dispatchAfter = Option.bind l et_dispatchAfter,
        et_attempt = resolveNextTicketAttempt (pc_executionId c) (ex_attempt (pc_execution c)) ks,
        et_status = ''pending'', et_assignedWorkerId = None, et_leaseId = None, et_claimedAt = None, et_consumedAt = None,
        et_invalidatedAt = None, et_createdAt = occurredAt, et_updatedAt = occurredAt, et_riskClass = None,
        et_requiredSandboxType = None, et_tenantQuotaRef = None, et_criticalPathRank = None, et_schedulerSeed = None\<rparr>)"

definition createReplacementTicket :: "ident \<Rightarrow> preemption_candidate \<Rightarrow> timestamp \<Rightarrow> execution_ticket dispatch_prog" where
  "createReplacementTicket ticketId c occurredAt =
     bindP (getsP (\<lambda>s. replacement_ticket ticketId c occurredAt (ds_tickets s))) (\<lambda>ticket.
     bindP (insertExecutionTicket ticket) (\<lambda>_. returnP ticket))"

definition pauseWorkflow :: "preemption_candidate \<Rightarrow> timestamp \<Rightarrow> unit dispatch_prog" where
  "pauseWorkflow c occurredAt = modifyP (\<lambda>s. let task = ex_taskId (pc_execution c) in case ds_workflows s task of
     None \<Rightarrow> s
   | Some _ \<Rightarrow> s\<lparr>ds_workflows := (ds_workflows s)(task \<mapsto> (pc_workflow c)\<lparr>wf_status := ''paused'', wf_updatedAt := occurredAt,
       wf_resumableFromStep := Some (pc_recoveryStepId c)\<rparr>)\<rparr>)"

definition upsertPreemptedAgent :: "preemption_candidate \<Rightarrow> timestamp \<Rightarrow> unit dispatch_prog" where
  "upsertPreemptedAgent c occurredAt = modifyP (\<lambda>s. let core = ds_core s; existing = pc_agentExecution c in
     s\<lparr>ds_core := core\<lparr>st_agents := (st_agents core)(pc_executionId c \<mapsto>
       \<lparr>ag_agentId = coalesce (map_option ag_agentId existing) (ex_agentId (pc_execution c)),
        ag_runtimeInstanceId = coalesce_opt (Option.bind existing ag_runtimeInstanceId) (sn_runtimeInstanceId (pc_worker c)),
        ag_restartedFromRuntimeInstanceId =
          coalesce_opt (Option.bind existing ag_restartedFromRuntimeInstanceId) (sn_restartedFromRuntimeInstanceId (pc_worker c)),
        ag_restartGeneration = coalesce (map_option ag_restartGeneration existing) (sn_restartGeneration (pc_worker c)),
        ag_status = ''priority_preempted'', ag_currentStepId = Some (pc_recoveryStepId c), ag_lastToolName = Option.bind existing ag_lastToolName,
        ag_toolCallCount = coalesce (map_option ag_toolCallCount existing) 0, ag_lastErrorCode = Option.bind existing ag_lastErrorCode,
        ag_retryCount = coalesce (map_option ag_retryCount existing) (max (ex_attempt (pc_execution c) - 1) 0),
        ag_progressMessage = Some (''preempted by urgent dispatch at '' @ pc_recoveryStepId c),
        ag_startedAt = coalesce_opt (Option.bind existing ag_startedAt)
          (Some (coalesce (ex_startedAt (pc_execution c)) (At (ex_createdAt (pc_execution c))))),
        ag_createdAt = coalesce (map_option ag_createdAt existing) occurredAt, ag_updatedAt = occurredAt, ag_completedAt = None\<rparr>)\<rparr>\<rparr>)"

definition preemptForUrgentTicket ::
    "(string \<Rightarrow> string \<Rightarrow> rat) \<Rightarrow> ident \<Rightarrow> timestamp \<Rightarrow> dispatch_options \<Rightarrow> execution_ticket \<Rightarrow> preemption_trace dispatch_prog" where
  "preemptForUrgentTicket localeCompare newTicketId occurredAt opts ticket =
     (if \<not> isPreemptionTriggerTicket ticket then returnP (buildTrace (et_priority ticket) None None ''ticket_not_urgent'')
      else
        bindP (getsP (selectCandidate localeCompare ticket opts)) (\<lambda>candidate.
        case candidate of
          None \<Rightarrow> returnP (buildTrace (et_priority ticket) None None ''no_safe_preemption_candidate'')
        | Some c \<Rightarrow> dispatch_transaction (
            bindP (callLease (reclaimActiveLease (pc_executionId c) occurredAt ''priority_preempted'')) (\<lambda>reclaimed.
            case reclaimed of
              None \<Rightarrow> returnP (buildTrace (et_priority ticket) (Some c) None ''preemption_reclaim_failed'')
            | Some _ \<Rightarrow>
                bindP (updateExecutionStatus (pc_executionId c) ''blocked'' (At occurredAt) None None None) (\<lambda>_.
                bindP (pauseWorkflow c occurredAt) (\<lambda>_.
                bindP (upsertPreemptedAgent c occurredAt) (\<lambda>_.
                bindP (createReplacementTicket newTicketId c occurredAt) (\<lambda>replacement.
                bindP (insertDispatchEvent (Ticket_requeued (map_option et_id (pc_latestTicket c)) (et_id replacement) (et_id ticket))) (\<lambda>_.
                bindP (insertDispatchEvent (Execution_preempted (et_id ticket) (sn_workerId (pc_worker c)) (pc_executionId c))) (\<lambda>_.
                returnP (buildTrace (et_priority ticket) (Some c) (Some (et_id replacement)) ''priority_preemption_applied'')))))))))))"

section \<open>Dispatching\<close>

datatype queue_state = Q_available | Q_degraded | Q_unavailable

record dispatch_env =
  de_localeCompare :: "string \<Rightarrow> string \<Rightarrow> rat"
  de_backpressure :: "backpressure_snapshot option"
  de_queueAvailability :: "(queue_state \<times> string option) option"
  de_dlqEnabled :: bool
  de_poisonPillMaxAgeMs :: "int option"

record dispatch_decision =
  dd_outcome :: dispatch_outcome
  dd_reasonCode :: "string option"
  dd_ticket :: "execution_ticket option"
  dd_worker :: "worker_view option"
  dd_leaseId :: "ident option"
  dd_trace :: "decision_trace option"

definition base_trace :: "execution_ticket \<Rightarrow> decision_trace" where
  "base_trace k = \<lparr>dt_ticketId = et_id k, dt_executionId = et_executionId k, dt_taskId = et_taskId k, dt_queueName = et_queueName k,
     dt_dispatchTarget = resolveDispatchTarget (et_dispatchTarget k), dt_remoteAvailability = None,
     dt_requiredIsolationLevel = resolveRequiredIsolationLevel (et_requiredIsolationLevel k),
     dt_requiredRepoVersion = resolveRequiredRepoVersion (et_requiredRepoVersion k), dt_preferredWorkerId = None,
     dt_requiredCapabilities = et_requiredCapabilities k, dt_outcome = DO_blocked, dt_reasonCode = None, dt_selectedWorkerId = None,
     dt_leaseId = None, dt_fallbackApplied = False, dt_preemption = None, dt_evaluations = [], dt_readySet = [], dt_selectedNodeIds = []\<rparr>"

definition outcome_text :: "dispatch_outcome \<Rightarrow> string" where
  "outcome_text d = (case d of DO_dispatched \<Rightarrow> ''dispatched'' | DO_no_ticket \<Rightarrow> ''no_ticket'' | DO_no_worker \<Rightarrow> ''no_worker'' | DO_blocked \<Rightarrow> ''blocked'')"

definition recordDecisionEvent :: "execution_ticket \<Rightarrow> timestamp \<Rightarrow> decision_trace \<Rightarrow> decision_trace dispatch_prog" where
  "recordDecisionEvent k occurredAt input =
     (let trace = input\<lparr>dt_readySet := (if dt_outcome input = DO_dispatched \<and> dt_evaluations input \<noteq> []
            then map ev_workerId (dt_evaluations input) else [et_id k]),
          dt_selectedNodeIds := (case dt_selectedWorkerId input of None \<Rightarrow> [] | Some w \<Rightarrow> if w = [] then [] else [w])\<rparr> in
      bindP (getsP (\<lambda>s. st_executions (ds_core s) (et_executionId k))) (\<lambda>execution.
      bindP (case execution of
               None \<Rightarrow> returnP ()
             | Some ex \<Rightarrow> upsertDispatchAgent (et_executionId k) ex occurredAt
                 (if dt_outcome trace = DO_dispatched then ''dispatch_claimed'' else ''dispatch_'' @ outcome_text (dt_outcome trace))
                 (''dispatch '' @ outcome_text (dt_outcome trace))) (\<lambda>_.
      bindP (insertDispatchEvent (Decision_recorded trace)) (\<lambda>_. returnP trace))))"

text \<open>\<^verbatim>\<open>String.prototype.includes\<close>.\<close>

fun str_includes :: "string \<Rightarrow> string \<Rightarrow> bool" where
  "str_includes [] sub = (sub = [])"
| "str_includes (c # cs) sub = (take (length sub) (c # cs) = sub \<or> str_includes cs sub)"

definition categorizeFailure :: "string \<Rightarrow> failure_category" where
  "categorizeFailure reasonCode =
     (if str_includes reasonCode ''read_only_mode'' then FC_configuration
      else if str_includes reasonCode ''pause_non_critical'' then FC_transient
      else if str_includes reasonCode ''poison_pill'' then FC_poison_pill
      else if str_includes reasonCode ''starvation_protection'' then FC_resource
      else if str_includes reasonCode ''queue_only'' then FC_transient
      else if str_includes reasonCode ''budget'' then FC_resource else FC_unknown)"

definition enqueueDispatchDlq :: "dispatch_env \<Rightarrow> execution_ticket \<Rightarrow> string option \<Rightarrow> unit dispatch_prog" where
  "enqueueDispatchDlq env k reasonCode =
     (case reasonCode of
        None \<Rightarrow> returnP ()
      | Some r \<Rightarrow> if \<not> de_dlqEnabled env \<or> r = [] then returnP ()
                  else bindP (modifyP (\<lambda>s. s\<lparr>ds_dlq := ds_dlq s @ [(et_id k, r, categorizeFailure r)]\<rparr>)) (\<lambda>_.
                       insertDispatchEvent (Dlq_enqueued (et_id k) r)))"

definition prioritizeStarvedTickets :: "execution_ticket list \<Rightarrow> ident list option \<Rightarrow> execution_ticket list" where
  "prioritizeStarvedTickets tickets starved =
     (case starved of
        None \<Rightarrow> tickets
      | Some ids \<Rightarrow> if ids = [] then tickets
          else js_sort (\<lambda>l r. if (et_executionId l \<in> set ids) = (et_executionId r \<in> set ids) then 0
                              else if et_executionId l \<in> set ids then -1 else 1) tickets)"

definition shouldInvalidatePoisonPill :: "dispatch_env \<Rightarrow> execution_ticket \<Rightarrow> timestamp \<Rightarrow> bool" where
  "shouldInvalidatePoisonPill env k occurredAt =
     (case de_poisonPillMaxAgeMs env of
        None \<Rightarrow> False
      | Some maxAge \<Rightarrow> 0 \<le> maxAge \<and> occurredAt - et_updatedAt k > maxAge)"

definition invalidatePoisonPillTicket ::
    "dispatch_env \<Rightarrow> execution_ticket \<Rightarrow> timestamp \<Rightarrow> worker_evaluation list \<Rightarrow> decision_trace dispatch_prog" where
  "invalidatePoisonPillTicket env k occurredAt evaluations =
     bindP (getsP (\<lambda>s. coalesce (getExecutionTicket (et_id k) (ds_tickets s)) k)) (\<lambda>current.
     if et_status current \<noteq> ''pending''
     then recordDecisionEvent k occurredAt ((base_trace k)\<lparr>dt_reasonCode := Some ''dispatch.poison_pill_ticket_state_changed'', dt_evaluations := evaluations\<rparr>)
     else
       bindP (modifyP (\<lambda>s. s\<lparr>ds_tickets := invalidateExecutionTicket (et_id k) ''cancelled'' occurredAt (ds_tickets s)\<rparr>)) (\<lambda>_.
       bindP (updateExecutionStatus (et_executionId k) ''failed'' (Text ''dispatch.poison_pill_abandoned'') (Some (At occurredAt)) None None) (\<lambda>_.
       bindP (recordDecisionEvent k occurredAt ((base_trace k)\<lparr>dt_reasonCode := Some ''dispatch.poison_pill_detected'', dt_evaluations := evaluations\<rparr>)) (\<lambda>trace.
       bindP (insertDispatchEvent (Poison_pill_detected (et_id k))) (\<lambda>_.
       bindP (enqueueDispatchDlq env k (Some ''dispatch.poison_pill_abandoned'')) (\<lambda>_. returnP trace))))))"

text \<open>Evaluation and selection for a ticket, as the loop repeats them after a preemption.\<close>

record dispatch_view =
  vw_evaluations :: "worker_evaluation list"
  vw_availability :: "remote_availability option"
  vw_trustReason :: "string option"
  vw_sessionReason :: "string option"
  vw_repoVersionReason :: "string option"
  vw_selection :: worker_selection

definition dispatch_view_of :: "dispatch_env \<Rightarrow> dispatch_options \<Rightarrow> timestamp \<Rightarrow> execution_ticket \<Rightarrow> dispatch_store \<Rightarrow> dispatch_view" where
  "dispatch_view_of env opts occurredAt k s =
     (let es = evaluateWorkersForTicket k opts occurredAt (registry s);
          target = resolveDispatchTarget (et_dispatchTarget k);
          availability = resolveRemoteAvailability target es;
          repo = resolveRemoteRepoVersionReason target es (resolveRequiredRepoVersion (et_requiredRepoVersion k));
          trust = resolveRemoteTrustReason target es;
          session = resolveRemoteSessionReason target es
      in \<lparr>vw_evaluations = rankWorkerEvaluations (de_localeCompare env) (registry s) k es, vw_availability = availability, vw_trustReason = trust,
          vw_sessionReason = session, vw_repoVersionReason = repo,
          vw_selection = selectWorkersForDispatch (de_localeCompare env) (registry s) k target es availability trust session repo\<rparr>)"

datatype step_result = Go_on "string option" "decision_trace option" | Done dispatch_decision

text \<open>The transaction that takes the lease, claims the ticket and books the execution with the worker.\<close>

definition bookWorker :: "ident \<Rightarrow> ident \<Rightarrow> timestamp \<Rightarrow> unit dispatch_prog" where
  "bookWorker workerId executionId occurredAt = (\<lambda>s.
     case getWorkerSnapshot (rg_workers (registry s)) workerId of
       None \<Rightarrow> (Inr (), s)
     | Some w \<Rightarrow>
         let running = remdups (sn_runningExecutions w @ [executionId]) in
         (case upsertWorkerSnapshot (w\<lparr>sn_status := WS_busy, sn_activeLeaseCount := int (length running),
                 sn_runningExecutions := sort running, sn_updatedAt := occurredAt\<rparr>) (rg_workers (registry s)) of
            Inl e \<Rightarrow> (Inl (Dispatch_registry_failure e), s)
          | Inr tab \<Rightarrow> (Inr (), s\<lparr>ds_core := (ds_core s)\<lparr>st_registry := (registry s)\<lparr>rg_workers := tab\<rparr>\<rparr>\<rparr>)))"

definition claim_for :: "ident \<Rightarrow> timestamp \<Rightarrow> dispatch_options \<Rightarrow> execution_ticket \<Rightarrow> ident \<Rightarrow> lease_decision dispatch_prog" where
  "claim_for leaseId occurredAt opts k workerId = dispatch_transaction (
     bindP (callLease (acquireLeaseWithinTransaction None leaseId occurredAt
       \<lparr>ai_executionId = et_executionId k, ai_workerId = workerId,
        ai_ttlMs = min (max (do_leaseTtlMs opts) MIN_LEASE_TTL_MS) MAX_LEASE_TTL_MS, ai_queueName = et_queueName k\<rparr>)) (\<lambda>d.
     case dc_lease d of
       None \<Rightarrow> returnP d
     | Some l \<Rightarrow>
         if dc_outcome d \<noteq> Out_granted then returnP d
         else
           bindP (modifyP (\<lambda>s. s\<lparr>ds_tickets := claimExecutionTicket (et_id k) workerId (el_id l) occurredAt (ds_tickets s)\<rparr>)) (\<lambda>_.
           bindP (bookWorker workerId (et_executionId k) occurredAt) (\<lambda>_. returnP d))))"

definition emergencyLaneRequested :: "execution_ticket \<Rightarrow> bool" where
  "emergencyLaneRequested k \<longleftrightarrow> et_priority k = ''critical'' \<or> et_priority k = ''urgent'' \<or> et_priority k = ''high'' \<or> et_riskClass k = Some ''critical''"

definition remote_block_reason :: "execution_ticket \<Rightarrow> dispatch_view \<Rightarrow> string option" where
  "remote_block_reason k v =
     (if resolveDispatchTarget (et_dispatchTarget k) = DT_require_remote
      then coalesce_opt (vw_trustReason v) (coalesce_opt (vw_sessionReason v) (coalesce_opt (vw_repoVersionReason v)
        (case vw_availability v of
           Some RA_unavailable \<Rightarrow> Some ''remote.unavailable'' | Some RA_degraded \<Rightarrow> Some ''remote.degraded''
         | Some RA_partial_available \<Rightarrow> Some ''remote.partial_available'' | _ \<Rightarrow> None)))
      else None)"

definition no_worker_for ::
    "dispatch_env \<Rightarrow> dispatch_options \<Rightarrow> timestamp \<Rightarrow> execution_ticket \<Rightarrow> dispatch_view \<Rightarrow> preemption_trace option \<Rightarrow> string option
      \<Rightarrow> step_result dispatch_prog" where
  "no_worker_for env opts occurredAt k v preemption blockedReason =
     (if shouldInvalidatePoisonPill env k occurredAt then
        bindP (invalidatePoisonPillTicket env k occurredAt (vw_evaluations v)) (\<lambda>trace.
        returnP (Done \<lparr>dd_outcome = DO_blocked, dd_reasonCode = Some ''dispatch.poison_pill_abandoned'', dd_ticket = Some k, dd_worker = None,
          dd_leaseId = None, dd_trace = Some trace\<rparr>))
      else
        let emergency = (if et_priority k \<in> {''critical'', ''urgent'', ''high''} then Some ''dispatch.no_emergency_worker_available'' else None);
            reason = coalesce_opt (remote_block_reason k v) emergency in
        bindP (recordDecisionEvent k occurredAt ((base_trace k)\<lparr>dt_remoteAvailability := vw_availability v,
          dt_preferredWorkerId := do_preferredWorkerId opts, dt_outcome := (if reason \<noteq> None then DO_blocked else DO_no_worker), dt_reasonCode := reason,
          dt_preemption := preemption, dt_evaluations := vw_evaluations v\<rparr>)) (\<lambda>trace.
        bindP (enqueueDispatchDlq env k reason) (\<lambda>_.
        returnP (Go_on (coalesce_opt reason blockedReason) (Some trace)))))"

definition dispatch_to ::
    "ident \<Rightarrow> dispatch_options \<Rightarrow> timestamp \<Rightarrow> execution_ticket \<Rightarrow> dispatch_view \<Rightarrow> preemption_trace option \<Rightarrow> worker_view \<Rightarrow> step_result dispatch_prog" where
  "dispatch_to leaseId opts occurredAt k v preemption w =
     (let workerId = sn_workerId w; selection = vw_selection v;
          trace0 = (base_trace k)\<lparr>dt_remoteAvailability := vw_availability v, dt_preferredWorkerId := do_preferredWorkerId opts,
            dt_selectedWorkerId := Some workerId, dt_fallbackApplied := ws_fallbackApplied selection, dt_preemption := preemption,
            dt_evaluations := vw_evaluations v\<rparr> in
      bindP (claim_for leaseId occurredAt opts k workerId) (\<lambda>d.
      case (if dc_outcome d = Out_granted then dc_lease d else None) of
        None \<Rightarrow>
          let reason = coalesce (dc_reasonCode d) ''lease_grant_failed'' in
          bindP (recordDecisionEvent k occurredAt (trace0\<lparr>dt_reasonCode := Some reason, dt_leaseId := map_option el_id (dc_lease d)\<rparr>)) (\<lambda>trace.
          returnP (Go_on (Some reason) (Some trace)))
      | Some l \<Rightarrow>
          bindP (insertDispatchEvent (Ticket_claimed (et_id k) workerId (el_id l))) (\<lambda>_.
          bindP (recordDecisionEvent k occurredAt (trace0\<lparr>dt_outcome := DO_dispatched, dt_reasonCode := ws_reasonCode selection, dt_leaseId := Some (el_id l)\<rparr>)) (\<lambda>trace.
          getsP (\<lambda>s. Done \<lparr>dd_outcome = DO_dispatched, dd_reasonCode = ws_reasonCode selection,
            dd_ticket = Some (coalesce (getExecutionTicket (et_id k) (ds_tickets s))
              (k\<lparr>et_status := ''claimed'', et_assignedWorkerId := Some workerId, et_leaseId := Some (el_id l), et_claimedAt := Some occurredAt, et_updatedAt := occurredAt\<rparr>)),
            dd_worker = Some w, dd_leaseId = Some (el_id l), dd_trace = Some trace\<rparr>)))))"

definition dispatch_ticket ::
    "dispatch_env \<Rightarrow> dispatch_options \<Rightarrow> ident \<Rightarrow> (ident \<Rightarrow> ident) \<Rightarrow> timestamp \<Rightarrow> execution_ticket \<Rightarrow> string option \<Rightarrow> step_result dispatch_prog" where
  "dispatch_ticket env opts leaseId newTicketId occurredAt k blockedReason =
     (case resolveDispatchBackpressureReason k (de_backpressure env) of
        Some reason \<Rightarrow>
          bindP (recordDecisionEvent k occurredAt ((base_trace k)\<lparr>dt_preferredWorkerId := do_preferredWorkerId opts, dt_reasonCode := Some reason\<rparr>)) (\<lambda>trace.
          bindP (enqueueDispatchDlq env k (Some reason)) (\<lambda>_.
          bindP (insertDispatchEvent (Backpressure_rejected (et_id k) reason)) (\<lambda>_.
          returnP (Go_on (Some reason) (Some trace)))))
      | None \<Rightarrow>
          bindP (getsP (dispatch_view_of env opts occurredAt k)) (\<lambda>v0.
          bindP (if ws_workers (vw_selection v0) = [] \<and> emergencyLaneRequested k
                 then bindP (preemptForUrgentTicket (de_localeCompare env) (newTicketId (et_id k)) occurredAt opts k) (\<lambda>p.
                      if pt_applied p then getsP (\<lambda>s. (dispatch_view_of env opts occurredAt k s, Some p)) else returnP (v0, None))
                 else returnP (v0, None)) (\<lambda>(v, preemption).
          case ws_workers (vw_selection v) of
            [] \<Rightarrow> no_worker_for env opts occurredAt k v preemption blockedReason
          | w # _ \<Rightarrow> dispatch_to leaseId opts occurredAt k v preemption w)))"

fun dispatch_loop ::
    "dispatch_env \<Rightarrow> dispatch_options \<Rightarrow> ident \<Rightarrow> (ident \<Rightarrow> ident) \<Rightarrow> timestamp \<Rightarrow> execution_ticket option \<Rightarrow> execution_ticket list
      \<Rightarrow> string option \<Rightarrow> decision_trace option \<Rightarrow> dispatch_decision dispatch_prog" where
  "dispatch_loop env opts leaseId newTicketId occurredAt first [] blockedReason lastTrace =
     returnP \<lparr>dd_outcome = (if blockedReason \<in> {None, Some []} then DO_no_worker else DO_blocked), dd_reasonCode = blockedReason, dd_ticket = first,
       dd_worker = None, dd_leaseId = None, dd_trace = lastTrace\<rparr>"
| "dispatch_loop env opts leaseId newTicketId occurredAt first (k # ks) blockedReason lastTrace =
     bindP (dispatch_ticket env opts leaseId newTicketId occurredAt k blockedReason) (\<lambda>r.
     case r of
       Go_on reason trace \<Rightarrow> dispatch_loop env opts leaseId newTicketId occurredAt first ks reason trace
     | Done d \<Rightarrow> returnP d)"

definition dispatch_order :: "dispatch_env \<Rightarrow> dispatch_options \<Rightarrow> timestamp \<Rightarrow> dispatch_store \<Rightarrow> execution_ticket list" where
  "dispatch_order env opts occurredAt s = prioritizeStarvedTickets (interleaveTicketsByTenant
     (sortTicketsForDeterministicDispatch (de_localeCompare env) (listDispatchableExecutionTickets occurredAt (do_queueName opts) (ds_tickets s))) 3)
     (do_starvedExecutionIds opts)"

definition queue_blocked :: "dispatch_options \<Rightarrow> timestamp \<Rightarrow> execution_ticket \<Rightarrow> string option \<Rightarrow> dispatch_decision dispatch_prog" where
  "queue_blocked opts occurredAt k reason =
     (let reasonCode = (case map_option js_trim reason of None \<Rightarrow> ''queue_unavailable'' | Some r \<Rightarrow> if r = [] then ''queue_unavailable'' else r) in
      bindP (recordDecisionEvent k occurredAt ((base_trace k)\<lparr>dt_preferredWorkerId := do_preferredWorkerId opts, dt_reasonCode := Some reasonCode\<rparr>)) (\<lambda>trace.
      returnP \<lparr>dd_outcome = DO_blocked, dd_reasonCode = Some reasonCode, dd_ticket = Some k, dd_worker = None, dd_leaseId = None, dd_trace = Some trace\<rparr>))"

definition dispatchNext ::
    "dispatch_env \<Rightarrow> dispatch_options \<Rightarrow> ident \<Rightarrow> (ident \<Rightarrow> ident) \<Rightarrow> timestamp \<Rightarrow> dispatch_decision dispatch_prog" where
  "dispatchNext env opts leaseId newTicketId occurredAt =
     bindP (getsP (dispatch_order env opts occurredAt)) (\<lambda>tickets.
     case tickets of
       [] \<Rightarrow> returnP \<lparr>dd_outcome = DO_no_ticket, dd_reasonCode = None, dd_ticket = None, dd_worker = None, dd_leaseId = None, dd_trace = None\<rparr>
     | k # ks \<Rightarrow>
         (case de_queueAvailability env of
            Some (Q_unavailable, reason) \<Rightarrow> queue_blocked opts occurredAt k reason
          | _ \<Rightarrow> dispatch_loop env opts leaseId newTicketId occurredAt (Some k) (k # ks) None None))"

end
