(* ===== verification/Dispatch_Safety.thy ===== *)
theory Dispatch_Safety
  imports Execution_Dispatch
begin

text \<open>
  What the dispatch service promises: the invariant of its store, that no call fails on a store that has it, what a dispatched
  ticket means for the lease table, the ticket table and the registry, what a preemption does, and in which order tickets are tried.
\<close>

section \<open>The invariant of the store\<close>

text \<open>
  The unique indexes of the ticket table, what an insert leaves in a row, the foreign key to the executions and the
  form of execution identifiers, with the invariants of the lease table and the registry.
\<close>

definition tickets_ok :: "execution_ticket list \<Rightarrow> bool" where
  "tickets_ok ks \<longleftrightarrow> distinct (map et_id ks) \<and> (\<forall>k \<in> set ks. stored_ticket k = k)
     \<and> (\<forall>k \<in> set ks. \<forall>m \<in> set ks. active_ticket k \<longrightarrow> active_ticket m \<longrightarrow> et_executionId k = et_executionId m
          \<longrightarrow> et_attempt k = et_attempt m \<longrightarrow> k = m)"

definition dispatch_ok :: "dispatch_store \<Rightarrow> bool" where
  "dispatch_ok s \<longleftrightarrow> lease_ok (st_leases (ds_core s)) \<and> registry_ok (registry s) \<and> tickets_ok (ds_tickets s)
     \<and> (\<forall>k \<in> set (ds_tickets s). et_executionId k \<in> dom (st_executions (ds_core s)))
     \<and> (\<forall>e \<in> dom (st_executions (ds_core s)). e \<noteq> [] \<and> js_trim e = e)"

text \<open>The foreign keys of executions and tickets to tasks, as the schema declares them.\<close>

definition linked :: "dispatch_store \<Rightarrow> bool" where
  "linked s \<longleftrightarrow> (\<forall>ex \<in> ran (st_executions (ds_core s)). ds_tasks s (ex_taskId ex) \<noteq> None) \<and> (\<forall>k \<in> set (ds_tickets s). ds_tasks s (et_taskId k) \<noteq> None)"

definition task_links :: "dispatch_store \<Rightarrow> ident \<Rightarrow> ident option" where
  "task_links s = (\<lambda>e. map_option ex_taskId (st_executions (ds_core s) e))"

lemma linked_iff: "linked s \<longleftrightarrow> ran (task_links s) \<subseteq> dom (ds_tasks s) \<and> et_taskId ` set (ds_tickets s) \<subseteq> dom (ds_tasks s)"
  by (auto simp: linked_def task_links_def ran_def image_subset_iff subset_iff)

lemma linked_same:
  assumes "linked s" and "ds_tasks s' = ds_tasks s" and "task_links s' = task_links s" and "et_taskId ` set (ds_tickets s') \<subseteq> dom (ds_tasks s)"
  shows "linked s'"
  using assms by (simp add: linked_iff)

lemma task_links_dom: "task_links s' = task_links s \<Longrightarrow> dom (st_executions (ds_core s')) = dom (st_executions (ds_core s))"
  unfolding dom_def fun_eq_iff task_links_def by (metis (no_types, lifting) map_option_is_None)

lemma tickets_ok_update:
  assumes "tickets_ok ks"
    and f: "\<And>k. k \<in> set ks \<Longrightarrow> p k \<Longrightarrow> et_id (f k) = et_id k \<and> et_executionId (f k) = et_executionId k \<and> et_attempt (f k) = et_attempt k
      \<and> (active_ticket (f k) \<longrightarrow> active_ticket k) \<and> stored_ticket (f k) = f k"
  shows "tickets_ok (update_ticket p f ks)"
proof -
  let ?g = "\<lambda>k. if p k then f k else k"
  have keys: "et_id (?g k) = et_id k" "et_executionId (?g k) = et_executionId k" "et_attempt (?g k) = et_attempt k"
    "active_ticket (?g k) \<longrightarrow> active_ticket k" "stored_ticket (?g k) = ?g k" if "k \<in> set ks" for k
    using f [OF that] that assms(1) by (simp_all add: tickets_ok_def)
  have ids: "map et_id (map ?g ks) = map et_id ks" using keys(1) by simp
  have one: "?g k = ?g m" if "k \<in> set ks" "m \<in> set ks" "active_ticket (?g k)" "active_ticket (?g m)"
      "et_executionId (?g k) = et_executionId (?g m)" "et_attempt (?g k) = et_attempt (?g m)" for k m
  proof -
    have "active_ticket k" "active_ticket m" "et_executionId k = et_executionId m" "et_attempt k = et_attempt m"
      using that keys [OF that(1)] keys [OF that(2)] by metis+
    with that(1,2) assms(1) have "k = m" unfolding tickets_ok_def by blast
    then show ?thesis by simp
  qed
  have stored: "\<forall>k \<in> ?g ` set ks. stored_ticket k = k" using keys(5) by blast
  have unique: "\<forall>k \<in> ?g ` set ks. \<forall>m \<in> ?g ` set ks. active_ticket k \<longrightarrow> active_ticket m \<longrightarrow> et_executionId k = et_executionId m
      \<longrightarrow> et_attempt k = et_attempt m \<longrightarrow> k = m" using one by blast
  show ?thesis
    unfolding tickets_ok_def update_ticket_def set_map ids using stored unique assms(1) by (simp add: tickets_ok_def)
qed

lemma stored_ticket_fields [simp]:
  "et_id (stored_ticket k) = et_id k" "et_executionId (stored_ticket k) = et_executionId k" "et_attempt (stored_ticket k) = et_attempt k"
  "et_taskId (stored_ticket k) = et_taskId k" "et_status (stored_ticket k) = et_status k" "active_ticket (stored_ticket k) = active_ticket k" "stored_ticket (stored_ticket k) = stored_ticket k"
  by (simp_all add: stored_ticket_def active_ticket_def coalesce_def)

lemma tickets_ok_append:
  assumes "tickets_ok ks" and "et_id k \<notin> et_id ` set ks"
    and "\<And>m. m \<in> set ks \<Longrightarrow> active_ticket m \<Longrightarrow> et_executionId m = et_executionId k \<Longrightarrow> et_attempt m \<noteq> et_attempt k"
  shows "tickets_ok (ks @ [stored_ticket k])"
proof -
  have "stored_ticket k \<noteq> m" if "m \<in> set ks" for m using assms(2) that by (metis imageI stored_ticket_fields(1))
  then show ?thesis using assms unfolding tickets_ok_def by (fastforce simp: image_iff)
qed

lemma insert_ticket_run:
  assumes "et_id r \<notin> et_id ` set (ds_tickets s)"
    and "\<And>m. m \<in> set (ds_tickets s) \<Longrightarrow> active_ticket m \<Longrightarrow> et_executionId m = et_executionId r \<Longrightarrow> et_attempt m \<noteq> et_attempt r"
  shows "insertExecutionTicket r s = (Inr (), s\<lparr>ds_tickets := ds_tickets s @ [stored_ticket r]\<rparr>)"
proof -
  have "et_id m \<noteq> et_id r" if "m \<in> set (ds_tickets s)" for m using assms(1) that by (metis imageI)
  then have "\<not> list_ex (\<lambda>m. et_id m = et_id r \<or> (active_ticket m \<and> active_ticket r \<and> et_executionId m = et_executionId r
      \<and> et_attempt m = et_attempt r)) (ds_tickets s)"
    using assms(2) by (auto simp: list_ex_iff)
  then show ?thesis by (simp add: insertExecutionTicket_def prog_simps)
qed

lemma getTicket_iff:
  assumes "tickets_ok ks"
  shows "getExecutionTicket i ks = Some k \<longleftrightarrow> k \<in> set ks \<and> et_id k = i"
proof -
  have uniq: "k = m" if "k \<in> set ks" "m \<in> set ks" "et_id k = et_id m" for k m
    using assms that by (simp add: tickets_ok_def distinct_map inj_on_def)
  show ?thesis
  proof
    assume "getExecutionTicket i ks = Some k"
    then show "k \<in> set ks \<and> et_id k = i" unfolding getExecutionTicket_def by (rule find_Some_set)
  next
    assume k: "k \<in> set ks \<and> et_id k = i"
    then have "find (\<lambda>k. et_id k = i) ks \<noteq> None" by (auto simp: find_None_iff)
    then obtain m where m: "find (\<lambda>k. et_id k = i) ks = Some m" by blast
    then have "m \<in> set ks \<and> et_id m = i" by (rule find_Some_set)
    with k uniq have "m = k" by blast
    with m show "getExecutionTicket i ks = Some k" unfolding getExecutionTicket_def by simp
  qed
qed

text \<open>What the calls of a round do to the store until a ticket is claimed: tickets with identifiers out of \<open>N\<close> are added as pending.\<close>

definition kept :: "ident set \<Rightarrow> dispatch_store \<Rightarrow> dispatch_store \<Rightarrow> bool" where
  "kept N s s' \<longleftrightarrow> (dispatch_ok s \<longrightarrow> dispatch_ok s') \<and> (linked s \<longrightarrow> linked s')
     \<and> (\<exists>new. ds_tickets s' = ds_tickets s @ new \<and> (\<forall>k \<in> set new. et_id k \<in> N \<and> et_status k = ''pending''))
     \<and> el_id ` set (st_leases (ds_core s')) = el_id ` set (st_leases (ds_core s))
     \<and> dom (st_executions (ds_core s')) = dom (st_executions (ds_core s))
     \<and> (\<forall>e. getLatestFencingToken e (st_leases (ds_core s')) = getLatestFencingToken e (st_leases (ds_core s)))"

lemma kept_trans: "kept N s t \<Longrightarrow> kept N t u \<Longrightarrow> kept N s u"
  unfolding kept_def
  apply (elim conjE exE)
  subgoal for a b by (intro conjI impI exI [of _ "a @ b"]) auto
  done

lemma kept_mono: "kept N s t \<Longrightarrow> N \<subseteq> M \<Longrightarrow> kept M s t"
  unfolding kept_def by (elim conjE exE) (intro conjI exI; auto)

lemma kept_same: "registry s' = registry s \<Longrightarrow> st_leases (ds_core s') = st_leases (ds_core s) \<Longrightarrow> ds_tickets s' = ds_tickets s
    \<Longrightarrow> task_links s' = task_links s \<Longrightarrow> ds_tasks s' = ds_tasks s \<Longrightarrow> kept N s s'"
  using task_links_dom [of s' s] unfolding kept_def dispatch_ok_def linked_iff by simp

interpretation quiet: total_effects "kept N" dispatch_ok
  by unfold_locales (auto intro: kept_same kept_trans simp: kept_def)

named_theorems quiet_intros \<open>programs that keep the store and do not fail\<close>

lemmas quiet_basic [quiet_intros] = quiet.achieves_basic quiet.achieves_bind quiet.achieves_case

abbreviation quiet_prog :: "ident set \<Rightarrow> 'a dispatch_prog \<Rightarrow> bool" where
  "quiet_prog N \<equiv> achieves dispatch_ok (kept N)"

lemma quiet_writes [quiet_intros]:
  "quiet_prog N (updateExecutionStatus x st u a f err)" "quiet_prog N (pauseWorkflow c t)" "quiet_prog N (upsertPreemptedAgent c t)"
  unfolding updateExecutionStatus_def pauseWorkflow_def upsertPreemptedAgent_def Let_def
  by (rule quiet.achieves_modify, rule kept_same; force simp: registry_def task_links_def split: option.split)+

text \<open>Records and events touch neither leases nor tickets nor workers.\<close>

definition same_core :: "dispatch_store \<Rightarrow> dispatch_store \<Rightarrow> bool" where
  "same_core s s' \<longleftrightarrow> registry s' = registry s \<and> st_leases (ds_core s') = st_leases (ds_core s) \<and> ds_tickets s' = ds_tickets s
     \<and> st_executions (ds_core s') = st_executions (ds_core s) \<and> ds_tasks s' = ds_tasks s"

interpretation calm: total_effects same_core "\<lambda>_. True"
  by unfold_locales (auto simp: same_core_def)

abbreviation calm_prog :: "'a dispatch_prog \<Rightarrow> bool" where
  "calm_prog \<equiv> achieves (\<lambda>_. True) same_core"

lemma calm_records:
  "calm_prog (insertDispatchEvent e)" "calm_prog (upsertDispatchAgent x ex t st msg)" "calm_prog (recordDecisionEvent k t tr)" "calm_prog (enqueueDispatchDlq env k r)"
proof -
  show event: "calm_prog (insertDispatchEvent e)" for e unfolding insertDispatchEvent_def
    by (rule calm.achieves_modify) (simp add: same_core_def registry_def)
  show agent: "calm_prog (upsertDispatchAgent x ex t st msg)" for x ex st msg unfolding upsertDispatchAgent_def Let_def
    by (rule calm.achieves_modify) (simp add: same_core_def registry_def)
  show "calm_prog (recordDecisionEvent k t tr)" unfolding recordDecisionEvent_def Let_def
    by (intro calm.achieves_bind calm.achieves_case calm.achieves_basic event agent)
  show "calm_prog (enqueueDispatchDlq env k r)" unfolding enqueueDispatchDlq_def
    by (intro calm.achieves_bind calm.achieves_case calm.achieves_basic calm.achieves_modify event) (simp add: same_core_def registry_def)
qed

lemma calm_quiet: "calm_prog m \<Longrightarrow> quiet_prog N m"
  by (erule achieves_mono) (auto intro: kept_same simp: same_core_def task_links_def)

lemmas quiet_records [quiet_intros] = calm_records [THEN calm_quiet]

section \<open>Preemption\<close>

text \<open>What is known of a victim.\<close>

lemma toCandidate_facts:
  assumes "toCandidate s source tenant w = Some c"
  shows "pc_worker c = w" and "pc_executionId c \<noteq> source" and "pc_executionId c \<in> set (sn_runningExecutions w)"
    and "st_executions (ds_core s) (pc_executionId c) = Some (pc_execution c)" and "ex_status (pc_execution c) = ''executing''"
    and "ds_workflows s (ex_taskId (pc_execution c)) = Some (pc_workflow c)" and "wf_status (pc_workflow c) = ''running''"
    and "getActiveExecutionLease (pc_executionId c) (st_leases (ds_core s)) = Some (pc_activeLease c)"
    and "el_workerId (pc_activeLease c) = sn_workerId w" and "pc_taskPriority c \<noteq> ''urgent''"
    and "wf_resumableFromStep (pc_workflow c) = Some (pc_recoveryStepId c)"
    and "tenant = None \<or> tk_tenantId (pc_task c) = tenant"
    and "ds_tasks s (ex_taskId (pc_execution c)) = Some (pc_task c)"
proof -
  obtain e rest where e: "sn_runningExecutions w = e # rest" using assms by (cases "sn_runningExecutions w") (simp_all add: toCandidate_def)
  obtain ex where ex: "st_executions (ds_core s) e = Some ex"
    using assms e by (cases "st_executions (ds_core s) e") (simp_all add: toCandidate_def split: if_splits)
  obtain task where task: "ds_tasks s (ex_taskId ex) = Some task"
    using assms e ex by (cases "ds_tasks s (ex_taskId ex)") (simp_all add: toCandidate_def split: if_splits)
  obtain workflow where workflow: "ds_workflows s (ex_taskId ex) = Some workflow"
    using assms e ex task by (cases "ds_workflows s (ex_taskId ex)") (simp_all add: toCandidate_def split: if_splits)
  obtain l where l: "getActiveExecutionLease e (st_leases (ds_core s)) = Some l"
    using assms e ex task workflow by (cases "getActiveExecutionLease e (st_leases (ds_core s))") (simp_all add: toCandidate_def split: if_splits)
  obtain p where p: "wf_resumableFromStep workflow = Some p"
    using assms e ex task workflow l by (cases "wf_resumableFromStep workflow") (simp_all add: toCandidate_def Let_def split: if_splits)
  note known = e ex task workflow l p
  have body: "(let mine = filter (\<lambda>k. et_attempt k = ex_attempt ex) (listExecutionTicketsByExecution e (ds_tickets s));
        latestTicket = (if mine = [] then None else Some (last mine)) in
      c = \<lparr>pc_worker = w, pc_executionId = e, pc_execution = ex, pc_workflow = workflow, pc_task = task,
        pc_taskPriority = coalesce (map_option et_priority latestTicket) (tk_priority task), pc_activeLease = l, pc_latestTicket = latestTicket,
        pc_agentExecution = st_agents (ds_core s) e, pc_recoveryStepId = p\<rparr> \<and> coalesce (map_option et_priority latestTicket) (tk_priority task) \<noteq> ''urgent'')"
    and "e \<noteq> source" "ex_status ex = ''executing''" "wf_status workflow = ''running''" "el_workerId l = sn_workerId w"
      "tenant = None \<or> tk_tenantId task = tenant"
    using assms unfolding toCandidate_def Let_def by (simp_all add: known del: not_None_eq split: if_splits)
  then show "pc_worker c = w" and "pc_executionId c \<noteq> source" and "pc_executionId c \<in> set (sn_runningExecutions w)"
    and "st_executions (ds_core s) (pc_executionId c) = Some (pc_execution c)" and "ex_status (pc_execution c) = ''executing''"
    and "ds_workflows s (ex_taskId (pc_execution c)) = Some (pc_workflow c)" and "wf_status (pc_workflow c) = ''running''"
    and "getActiveExecutionLease (pc_executionId c) (st_leases (ds_core s)) = Some (pc_activeLease c)"
    and "el_workerId (pc_activeLease c) = sn_workerId w" and "pc_taskPriority c \<noteq> ''urgent''"
    and "wf_resumableFromStep (pc_workflow c) = Some (pc_recoveryStepId c)"
    and "tenant = None \<or> tk_tenantId (pc_task c) = tenant"
    and "ds_tasks s (ex_taskId (pc_execution c)) = Some (pc_task c)"
    unfolding Let_def by (simp_all add: known del: not_None_eq)
qed

text \<open>The priority of an execution: that of the latest ticket of its current attempt, or else that of its task.\<close>

definition effective_priority :: "dispatch_store \<Rightarrow> ident \<Rightarrow> string option" where
  "effective_priority s e = (case st_executions (ds_core s) e of
      None \<Rightarrow> None
    | Some ex \<Rightarrow>
        let mine = filter (\<lambda>k. et_attempt k = ex_attempt ex) (listExecutionTicketsByExecution e (ds_tickets s))
        in if mine = [] then map_option tk_priority (ds_tasks s (ex_taskId ex)) else Some (et_priority (last mine)))"

text \<open>Neither the worker nor the agent record of the execution is known to be at another step than the resumable one.\<close>

definition stands_at :: "dispatch_store \<Rightarrow> worker_view \<Rightarrow> ident \<Rightarrow> ident \<Rightarrow> bool" where
  "stands_at s w e step \<longleftrightarrow> step \<noteq> [] \<and> sn_currentStepId w \<in> {None, Some step}
     \<and> Option.bind (st_agents (ds_core s) e) ag_currentStepId \<in> {None, Some step}"

lemma toCandidate_standing:
  assumes "toCandidate s source tenant w = Some c"
  shows "effective_priority s (pc_executionId c) = Some (pc_taskPriority c)" and "stands_at s w (pc_executionId c) (pc_recoveryStepId c)"
    and "getLatestExecutionLease (pc_executionId c) (st_leases (ds_core s)) = Some l \<Longrightarrow> el_fencingToken l = el_fencingToken (pc_activeLease c)"
proof -
  note f = toCandidate_facts [OF assms]
  obtain rest where e: "sn_runningExecutions w = pc_executionId c # rest"
    using assms by (cases "sn_runningExecutions w") (auto simp: toCandidate_def Let_def split: if_splits option.splits)
  note known = e f(4,6,8,11,13)
  let ?tickets = "filter (\<lambda>k. et_attempt k = ex_attempt (pc_execution c)) (listExecutionTicketsByExecution (pc_executionId c) (ds_tickets s))"
  have c: "pc_taskPriority c = coalesce (map_option et_priority (if ?tickets = [] then None else Some (last ?tickets))) (tk_priority (pc_task c))"
    and at: "stands_at s w (pc_executionId c) (pc_recoveryStepId c)"
    and lease: "case getLatestExecutionLease (pc_executionId c) (st_leases (ds_core s)) of None \<Rightarrow> True | Some l \<Rightarrow> el_fencingToken l = el_fencingToken (pc_activeLease c)"
    using assms unfolding toCandidate_def Let_def stands_at_def
    by (auto simp: known simp del: not_None_eq split: if_splits option.splits dest!: arg_cong [of _ c pc_taskPriority])
  show "effective_priority s (pc_executionId c) = Some (pc_taskPriority c)"
    by (simp add: effective_priority_def f(4,13) c Let_def)
  show "stands_at s w (pc_executionId c) (pc_recoveryStepId c)" by (rule at)
  show "getLatestExecutionLease (pc_executionId c) (st_leases (ds_core s)) = Some l \<Longrightarrow> el_fencingToken l = el_fencingToken (pc_activeLease c)"
    using lease by simp
qed

lemma filter_update_other: "(\<And>l. p l \<Longrightarrow> \<not> q l \<and> \<not> q (f l)) \<Longrightarrow> filter q (update_lease p f ls) = filter q ls"
  by (induction ls) (auto simp: update_lease_def)

text \<open>Everything that belongs to other executions and tasks is as it was.\<close>

definition others_untouched :: "ident \<Rightarrow> ident \<Rightarrow> dispatch_store \<Rightarrow> dispatch_store \<Rightarrow> bool" where
  "others_untouched e task s s' \<longleftrightarrow>
     (\<forall>e'. e' \<noteq> e \<longrightarrow> st_executions (ds_core s') e' = st_executions (ds_core s) e' \<and> st_agents (ds_core s') e' = st_agents (ds_core s) e'
        \<and> filter (\<lambda>l. el_executionId l = e') (st_leases (ds_core s')) = filter (\<lambda>l. el_executionId l = e') (st_leases (ds_core s))
        \<and> filter (\<lambda>k. et_executionId k = e') (ds_tickets s') = filter (\<lambda>k. et_executionId k = e') (ds_tickets s))
     \<and> (\<forall>task'. task' \<noteq> task \<longrightarrow> ds_workflows s' task' = ds_workflows s task') \<and> ds_tasks s' = ds_tasks s"

lemma selectCandidate_facts:
  assumes "selectCandidate lc ticket opts s = Some c"
  shows "toCandidate s (et_executionId ticket) (et_tenantId ticket) (pc_worker c) = Some c"
    and "isCompatibleFullWorker ticket opts (pc_worker c)" and "pc_worker c \<in> set (listWorkers (registry s))"
proof -
  let ?f = "toCandidate s (et_executionId ticket) (et_tenantId ticket)"
  let ?ws = "filter (isCompatibleFullWorker ticket opts) (listWorkers (registry s))"
  have "c \<in> set (js_sort (compare_candidates lc) (List.map_filter ?f ?ws))"
    using assms by (cases "js_sort (compare_candidates lc) (List.map_filter ?f ?ws)") (simp_all add: selectCandidate_def del: set_js_sort)
  then obtain w where w: "w \<in> set ?ws" "?f w = Some c" by (auto simp: map_filter_set)
  moreover have "pc_worker c = w" using toCandidate_facts(1) [OF w(2)] .
  ultimately show "?f (pc_worker c) = Some c" "isCompatibleFullWorker ticket opts (pc_worker c)" "pc_worker c \<in> set (listWorkers (registry s))"
    by auto
qed

lemma next_attempt_fresh:
  assumes "k \<in> set ks" and "et_executionId k = e"
  shows "et_attempt k < resolveNextTicketAttempt e fallback ks"
proof -
  have k: "et_attempt k \<in> set (map et_attempt (listExecutionTicketsByExecution e ks))"
    using assms by (simp add: listExecutionTicketsByExecution_def)
  have upper: "x \<le> fold max ns n" if "x \<in> set (n # ns)" for x n :: int and ns
    using that Max.set_eq_fold [of n ns] Max_ge [of "set (n # ns)" x] by simp
  show ?thesis
    using k upper by (cases "map et_attempt (listExecutionTicketsByExecution e ks)") (force simp: resolveNextTicketAttempt_def)+
qed

lemma callLease_ok: "m (ds_core s) = (Inr x, c) \<Longrightarrow> callLease m s = (Inr x, s\<lparr>ds_core := c\<rparr>)"
  by (simp add: callLease_def)

lemma preempt_run:
  assumes ok: "dispatch_ok s" and urgent: "isPreemptionTriggerTicket ticket" and c: "selectCandidate lc ticket opts s = Some c"
    and fresh: "n \<notin> et_id ` set (ds_tickets s)"
  obtains s' r where "preemptForUrgentTicket lc n t opts ticket s
        = (Inr (buildTrace (et_priority ticket) (Some c) (Some n) ''priority_preemption_applied''), s')"
    and "kept {n} s s'" and "ds_tickets s' = ds_tickets s @ [stored_ticket r]" and "et_id r = n" and "et_executionId r = pc_executionId c"
    and "et_status r = ''pending''" and "et_attempt r = resolveNextTicketAttempt (pc_executionId c) (ex_attempt (pc_execution c)) (ds_tickets s)"
    and "st_leases (ds_core s') = update_lease (\<lambda>m. m = pc_activeLease c) (close_lease Lease_reclaimed t (Some ''priority_preempted'')) (st_leases (ds_core s))"
    and "map_option ex_status (st_executions (ds_core s') (pc_executionId c)) = Some ''blocked''"
    and "map_option wf_status (ds_workflows s' (ex_taskId (pc_execution c))) = Some ''paused''"
    and "Option.bind (ds_workflows s' (ex_taskId (pc_execution c))) wf_resumableFromStep = Some (pc_recoveryStepId c)"
    and "others_untouched (pc_executionId c) (ex_taskId (pc_execution c)) s s'"
proof -
  let ?e = "pc_executionId c" and ?l = "pc_activeLease c"
  let ?ls = "update_lease (\<lambda>m. m = ?l) (close_lease Lease_reclaimed t (Some ''priority_preempted'')) (st_leases (ds_core s))"
  note facts = toCandidate_facts [OF selectCandidate_facts(1) [OF c]]
  have lok: "lease_ok (st_leases (ds_core s))" and rok: "registry_ok (st_registry (ds_core s))" and tok: "tickets_ok (ds_tickets s)"
    and fk: "\<forall>k \<in> set (ds_tickets s). et_executionId k \<in> dom (st_executions (ds_core s))"
    and names: "\<forall>e \<in> dom (st_executions (ds_core s)). e \<noteq> [] \<and> js_trim e = e"
    using ok by (auto simp: dispatch_ok_def registry_def)
  have l: "?l \<in> set (st_leases (ds_core s))" "el_executionId ?l = ?e" "el_status ?l = Lease_active"
    using facts(8) by (auto simp: getActive_iff [OF lok])
  obtain c1 where c1: "reclaimActiveLeaseInternal ?e t ''priority_preempted'' (ds_core s)
        = (Inr (Some (close_lease Lease_reclaimed t (Some ''priority_preempted'') ?l)), c1)"
      "st_leases c1 = ?ls" "registry_ok (st_registry c1)" "st_executions c1 = st_executions (ds_core s)" "st_agents c1 = st_agents (ds_core s)"
    using reclaim_one [OF lok rok l(1,3), of t "''priority_preempted''"] l(2) by metis
  then have reclaim: "callLease (reclaimActiveLease ?e t ''priority_preempted'') s
      = (Inr (Some (close_lease Lease_reclaimed t (Some ''priority_preempted'') ?l)), s\<lparr>ds_core := c1\<rparr>)"
    by (intro callLease_ok) (simp add: reclaimActiveLease_def transaction_def)
  let ?r = "replacement_ticket n c t (ds_tickets s)"
  have r: "et_id ?r = n" "et_executionId ?r = ?e" "et_status ?r = ''pending''"
      "et_attempt ?r = resolveNextTicketAttempt ?e (ex_attempt (pc_execution c)) (ds_tickets s)"
    by (simp_all add: replacement_ticket_def Let_def)
  have attempt: "et_attempt m \<noteq> et_attempt ?r" if "m \<in> set (ds_tickets s)" "et_executionId m = ?e" for m
    using next_attempt_fresh [OF that, of "ex_attempt (pc_execution c)"] r(4) by simp
  have free: "insertExecutionTicket ?r x = (Inr (), x\<lparr>ds_tickets := ds_tickets s @ [stored_ticket ?r]\<rparr>)" if "ds_tickets x = ds_tickets s" for x
    using insert_ticket_run [of ?r x] that fresh attempt r(1,2) by simp
  have task: "et_taskId ?r = ex_taskId (pc_execution c)" by (simp add: replacement_ticket_def Let_def)
  let ?s = "snd (preemptForUrgentTicket lc n t opts ticket s)"
  have run: "preemptForUrgentTicket lc n t opts ticket s
        = (Inr (buildTrace (et_priority ticket) (Some c) (Some n) ''priority_preemption_applied''), ?s)
      \<and> ds_tickets ?s = ds_tickets s @ [stored_ticket ?r] \<and> st_leases (ds_core ?s) = ?ls \<and> st_registry (ds_core ?s) = st_registry c1
      \<and> task_links ?s = task_links s \<and> ds_tasks ?s = ds_tasks s
      \<and> map_option ex_status (st_executions (ds_core ?s) ?e) = Some ''blocked''
      \<and> map_option wf_status (ds_workflows ?s (ex_taskId (pc_execution c))) = Some ''paused''
      \<and> Option.bind (ds_workflows ?s (ex_taskId (pc_execution c))) wf_resumableFromStep = Some (pc_recoveryStepId c)
      \<and> (\<forall>e'. e' \<noteq> ?e \<longrightarrow> st_executions (ds_core ?s) e' = st_executions (ds_core s) e' \<and> st_agents (ds_core ?s) e' = st_agents (ds_core s) e')
      \<and> (\<forall>task'. task' \<noteq> ex_taskId (pc_execution c) \<longrightarrow> ds_workflows ?s task' = ds_workflows s task')"
    using urgent c facts(4,6) free r(1)
    by (simp add: preemptForUrgentTicket_def prog_simps dispatch_transaction_def reclaim updateExecutionStatus_def pauseWorkflow_def
        upsertPreemptedAgent_def createReplacementTicket_def insertDispatchEvent_def c1(2,4,5) Let_def fun_eq_iff task_links_def)
  have "filter (\<lambda>l. el_executionId l = e') ?ls = filter (\<lambda>l. el_executionId l = e') (st_leases (ds_core s))" if "e' \<noteq> ?e" for e'
    using l(2) that by (intro filter_update_other) (auto simp: close_lease_def)
  then have others: "others_untouched ?e (ex_taskId (pc_execution c)) s ?s" using run r(2) by (simp add: others_untouched_def)
  have "tickets_ok (ds_tickets s @ [stored_ticket ?r])"
    using tok fresh attempt r by (intro tickets_ok_append) auto
  moreover have "lease_ok ?ls" using lok lease_change.close [of Lease_reclaimed] lease_ok_change by blast
  moreover have "el_id ` set ?ls = el_id ` set (st_leases (ds_core s))" by (simp add: map_update_lease flip: set_map)
  moreover have "\<forall>e. getLatestFencingToken e ?ls = getLatestFencingToken e (st_leases (ds_core s))" by (simp add: latest_token_update)
  moreover have "linked s \<longrightarrow> linked ?s" using run task facts(13) by (auto simp: linked_iff intro!: linked_same [of s ?s])
  moreover have "dom (st_executions (ds_core ?s)) = dom (st_executions (ds_core s))" using run task_links_dom by metis
  ultimately have "kept {n} s ?s"
    using run c1(3) fk names facts(4) r unfolding kept_def dispatch_ok_def registry_def by (auto simp: domI)
  then show ?thesis using run r others by (intro that [of ?s ?r]) auto
qed

lemma preempt_result:
  assumes ok: "dispatch_ok s" and fresh: "n \<notin> et_id ` set (ds_tickets s)"
  obtains p s' where "preemptForUrgentTicket lc n t opts ticket s = (Inr p, s')" and "kept {n} s s'"
proof (cases "isPreemptionTriggerTicket ticket \<and> selectCandidate lc ticket opts s \<noteq> None")
  case True
  then obtain c where "isPreemptionTriggerTicket ticket" "selectCandidate lc ticket opts s = Some c" by blast
  then show ?thesis using preempt_run [OF ok _ _ fresh] that by metis
next
  case False
  then have "\<exists>p. preemptForUrgentTicket lc n t opts ticket s = (Inr p, s)" by (auto simp: preemptForUrgentTicket_def prog_simps)
  then show ?thesis using that quiet.refl by metis
qed

section \<open>Claiming a ticket\<close>

lemma bookWorker_run:
  assumes ok: "registry_ok (registry s)" and w: "getWorkerSnapshot (rg_workers (registry s)) workerId = Some w"
    and e: "e \<noteq> []" "js_trim e = e"
  obtains tab x where "bookWorker workerId e t s = (Inr (), s\<lparr>ds_core := (ds_core s)\<lparr>st_registry := (registry s)\<lparr>rg_workers := tab\<rparr>\<rparr>\<rparr>)"
    and "registry_ok ((registry s)\<lparr>rg_workers := tab\<rparr>)" and "getWorkerSnapshot tab workerId = Some x"
    and "set (sn_runningExecutions x) = insert e (set (sn_runningExecutions w))"
    and "length (sn_runningExecutions x) \<le> length (sn_runningExecutions w) + 1" and "sn_maxConcurrency x = sn_maxConcurrency w"
proof -
  have wok: "sn_workerId w = workerId" "snapshot_ok w" "1 \<le> sn_version w" using registry_lookup [OF ok w] by auto
  let ?run = "remdups (sn_runningExecutions w @ [e])"
  let ?x = "w\<lparr>sn_status := WS_busy, sn_activeLeaseCount := int (length ?run), sn_runningExecutions := sort ?run, sn_updatedAt := t\<rparr>"
  let ?y = "?x\<lparr>sn_version := sn_version w + 1\<rparr>"
  let ?tab = "insert_row workerId ?y (rg_workers (registry s))"
  have up: "upsertWorkerSnapshot ?x (rg_workers (registry s)) = Inr ?tab"
    using w wok by (simp add: upsertWorkerSnapshot_def Let_def)
  have "names_ok (sort ?run)" using wok(2) e by (auto simp: names_ok_def snapshot_ok_def)
  then have "snapshot_ok ?y" using wok(2) by (simp add: snapshot_ok_def)
  then have reg: "registry_ok ((registry s)\<lparr>rg_workers := ?tab\<rparr>)"
    using registry_ok_insert [OF ok, of ?y "rg_signals (registry s)"] wok by (simp add: registry_state.splits)
  have d: "distinct (map fst (rg_workers (registry s)))" using ok by (simp add: registry_ok_def)
  have look: "getWorkerSnapshot ?tab workerId = Some ?y" by (simp add: getWorkerSnapshot_def map_of_insert_row [OF d])
  have "length ?run \<le> length (sn_runningExecutions w) + 1" using length_remdups_leq [of "sn_runningExecutions w @ [e]"] by simp
  moreover have "bookWorker workerId e t s = (Inr (), s\<lparr>ds_core := (ds_core s)\<lparr>st_registry := (registry s)\<lparr>rg_workers := ?tab\<rparr>\<rparr>\<rparr>)"
    unfolding bookWorker_def Let_def by (simp only: w option.case up sum.case)
  ultimately show ?thesis using reg look by (intro that [of ?tab ?y]) auto
qed

text \<open>Claiming for a worker that fits: either the lease is refused and nothing else happens, or lease, ticket and worker all change.\<close>

definition claimed_ticket :: "execution_ticket \<Rightarrow> ident \<Rightarrow> ident \<Rightarrow> timestamp \<Rightarrow> execution_ticket" where
  "claimed_ticket k workerId leaseId t = k\<lparr>et_status := ''claimed'', et_assignedWorkerId := Some workerId, et_leaseId := Some leaseId,
     et_claimedAt := Some t, et_updatedAt := t\<rparr>"

definition booked :: "dispatch_store \<Rightarrow> dispatch_store \<Rightarrow> timestamp \<Rightarrow> execution_ticket \<Rightarrow> ident \<Rightarrow> ident \<Rightarrow> bool" where
  "booked s s' t k workerId leaseId \<longleftrightarrow> (linked s \<longrightarrow> linked s') \<and>
     getExecutionTicket (et_id k) (ds_tickets s') = Some (claimed_ticket k workerId leaseId t)
     \<and> (\<forall>m \<in> set (ds_tickets s'). et_status m = ''claimed'' \<longrightarrow> et_id m \<noteq> et_id k \<longrightarrow> m \<in> set (ds_tickets s))
     \<and> (\<exists>l. getActiveExecutionLease (et_executionId k) (st_leases (ds_core s')) = Some l \<and> el_id l = leaseId \<and> el_workerId l = workerId
          \<and> el_fencingToken l = getLatestFencingToken (et_executionId k) (st_leases (ds_core s)) + 1
          \<and> t + MIN_LEASE_TTL_MS \<le> el_expiresAt l \<and> el_expiresAt l \<le> t + MAX_LEASE_TTL_MS)
     \<and> (\<exists>x. getWorkerSnapshot (rg_workers (registry s')) workerId = Some x \<and> et_executionId k \<in> set (sn_runningExecutions x)
          \<and> int (length (sn_runningExecutions x)) \<le> sn_maxConcurrency x)"

lemma stored_updates:
  "stored_ticket (claimed_ticket k w l t) = claimed_ticket (stored_ticket k) w l t"
  "stored_ticket (k\<lparr>et_status := st, et_invalidatedAt := i, et_updatedAt := u\<rparr>) = (stored_ticket k)\<lparr>et_status := st, et_invalidatedAt := i, et_updatedAt := u\<rparr>"
  by (cases k; simp add: claimed_ticket_def stored_ticket_def)+

lemma claim_tickets:
  assumes "tickets_ok ks" and "k \<in> set ks" and "et_status k = ''pending''"
  shows "tickets_ok (claimExecutionTicket (et_id k) w l t ks)"
    and "getExecutionTicket (et_id k) (claimExecutionTicket (et_id k) w l t ks) = Some (claimed_ticket k w l t)"
    and "m \<in> set (claimExecutionTicket (et_id k) w l t ks) \<Longrightarrow> et_id m \<noteq> et_id k \<Longrightarrow> m \<in> set ks"
    and "et_executionId ` set (claimExecutionTicket (et_id k) w l t ks) = et_executionId ` set ks"
    and "et_taskId ` set (claimExecutionTicket (et_id k) w l t ks) = et_taskId ` set ks"
proof -
  let ?ks = "claimExecutionTicket (et_id k) w l t ks"
  have def: "?ks = update_ticket (\<lambda>m. et_id m = et_id k \<and> et_status m = ''pending'') (\<lambda>m. claimed_ticket m w l t) ks"
    by (simp add: claimExecutionTicket_def claimed_ticket_def)
  show ok: "tickets_ok ?ks" unfolding def
    using assms(1) by (intro tickets_ok_update) (simp_all add: stored_updates tickets_ok_def, simp add: claimed_ticket_def active_ticket_def)
  show "getExecutionTicket (et_id k) ?ks = Some (claimed_ticket k w l t)" unfolding getTicket_iff [OF ok]
    using assms(2,3) by (force simp: def update_ticket_def claimed_ticket_def)
  show "m \<in> set ?ks \<Longrightarrow> et_id m \<noteq> et_id k \<Longrightarrow> m \<in> set ks"
    by (auto simp: def update_ticket_def claimed_ticket_def split: if_splits)
  show "et_executionId ` set ?ks = et_executionId ` set ks" "et_taskId ` set ?ks = et_taskId ` set ks"
    unfolding def update_ticket_def set_map image_image by (rule image_cong; auto simp: claimed_ticket_def)+
qed

lemma claim_result:
  assumes ok: "dispatch_ok s" and k: "k \<in> set (ds_tickets s)" "et_status k = ''pending''" and fresh: "leaseId \<notin> el_id ` set (st_leases (ds_core s))"
    and w: "getWorkerSnapshot (rg_workers (registry s)) workerId = Some w" and slot: "0 < wv_availableSlots (toView w)"
  obtains d s' where "claim_for leaseId t opts k workerId s = (Inr d, s')" and "dispatch_ok s'"
    and "dc_outcome d \<noteq> Out_granted \<Longrightarrow> kept {} s s'"
    and "dc_outcome d = Out_granted \<Longrightarrow> map_option el_id (dc_lease d) = Some leaseId \<and> booked s s' t k workerId leaseId"
proof -
  let ?i = "\<lparr>ai_executionId = et_executionId k, ai_workerId = workerId,
    ai_ttlMs = min (max (do_leaseTtlMs opts) MIN_LEASE_TTL_MS) MAX_LEASE_TTL_MS, ai_queueName = et_queueName k\<rparr>"
  have lok: "lease_ok (st_leases (ds_core s))" and rok: "registry_ok (registry s)" and tok: "tickets_ok (ds_tickets s)"
    and fk: "\<forall>k \<in> set (ds_tickets s). et_executionId k \<in> dom (st_executions (ds_core s))"
    and names: "\<forall>e \<in> dom (st_executions (ds_core s)). e \<noteq> [] \<and> js_trim e = e"
    using ok by (auto simp: dispatch_ok_def)
  obtain ex where ex: "st_executions (ds_core s) (ai_executionId ?i) = Some ex" using fk k(1) by auto
  obtain d c where run: "acquireLeaseWithinTransaction None leaseId t ?i (ds_core s) = (Inr d, c)"
    and c: "lease_ok (st_leases c)" "st_registry c = st_registry (ds_core s)" "st_executions c = st_executions (ds_core s)"
    and granted: "dc_outcome d = Out_granted \<longrightarrow> (\<exists>l. dc_lease d = Some l \<and> getActiveExecutionLease (et_executionId k) (st_leases c) = Some l
        \<and> el_id l = leaseId \<and> el_workerId l = workerId \<and> el_fencingToken l = getLatestFencingToken (et_executionId k) (st_leases (ds_core s)) + 1
        \<and> el_expiresAt l = t + ai_ttlMs ?i)"
    and refused: "dc_outcome d \<noteq> Out_granted \<longrightarrow> el_id ` set (st_leases c) = el_id ` set (st_leases (ds_core s))
        \<and> (\<forall>e. getLatestFencingToken e (st_leases c) = getLatestFencingToken e (st_leases (ds_core s)))"
    using acquire_within [OF lok ex fresh, of None t] by auto
  let ?s = "s\<lparr>ds_core := c\<rparr>"
  have call: "callLease (acquireLeaseWithinTransaction None leaseId t ?i) s = (Inr d, ?s)" using run by (rule callLease_ok)
  show ?thesis
  proof (cases "dc_outcome d = Out_granted")
    case False
    then have "claim_for leaseId t opts k workerId s = (Inr d, ?s)"
      using call by (simp add: claim_for_def dispatch_transaction_def prog_simps split: option.split)
    moreover have "kept {} s ?s" using False refused c ok by (simp add: kept_def dispatch_ok_def registry_def linked_def)
    ultimately show ?thesis using False ok by (intro that [of d ?s]) (auto simp: kept_def)
  next
    case True
    then obtain l where l: "dc_lease d = Some l" "getActiveExecutionLease (et_executionId k) (st_leases c) = Some l" "el_id l = leaseId"
        "el_workerId l = workerId" "el_fencingToken l = getLatestFencingToken (et_executionId k) (st_leases (ds_core s)) + 1"
        "el_expiresAt l = t + ai_ttlMs ?i" using granted by blast
    let ?t = "?s\<lparr>ds_tickets := claimExecutionTicket (et_id k) workerId leaseId t (ds_tickets s)\<rparr>"
    have t: "registry ?t = registry s" by (simp add: registry_def c)
    have e: "et_executionId k \<noteq> []" "js_trim (et_executionId k) = et_executionId k" using fk k(1) names by auto
    obtain tab x where book: "bookWorker workerId (et_executionId k) t ?t = (Inr (), ?t\<lparr>ds_core := (ds_core ?t)\<lparr>st_registry := (registry ?t)\<lparr>rg_workers := tab\<rparr>\<rparr>\<rparr>)"
      and tab: "registry_ok ((registry ?t)\<lparr>rg_workers := tab\<rparr>)" "getWorkerSnapshot tab workerId = Some x"
      and x: "set (sn_runningExecutions x) = insert (et_executionId k) (set (sn_runningExecutions w))"
        "length (sn_runningExecutions x) \<le> length (sn_runningExecutions w) + 1" "sn_maxConcurrency x = sn_maxConcurrency w"
      using bookWorker_run [of ?t workerId w "et_executionId k" t] rok w e t by metis
    let ?u = "?t\<lparr>ds_core := (ds_core ?t)\<lparr>st_registry := (registry ?t)\<lparr>rg_workers := tab\<rparr>\<rparr>\<rparr>"
    have claim: "claim_for leaseId t opts k workerId s = (Inr d, ?u)"
      using call True l(1,3) book by (simp add: claim_for_def dispatch_transaction_def prog_simps)
    have "\<forall>m \<in> set (ds_tickets ?u). et_executionId m \<in> dom (st_executions (ds_core s))"
      using claim_tickets(4) [OF tok k, of workerId leaseId t] fk by (simp add: image_iff) (metis imageI imageE)
    then have "dispatch_ok ?u"
      using c claim_tickets(1) [OF tok k] names tab by (simp add: dispatch_ok_def registry_def)
    moreover have "booked s ?u t k workerId leaseId"
      using claim_tickets(2) [OF tok k, of workerId leaseId t] claim_tickets(3) [OF tok k, of _ workerId leaseId t] l tab x slot
      linked_same [of s ?u] claim_tickets(5) [OF tok k, of workerId leaseId t] c(3)
      by (auto simp: booked_def registry_def toView_def MIN_LEASE_TTL_MS_def MAX_LEASE_TTL_MS_def linked_iff task_links_def)
    ultimately show ?thesis using claim l by (intro that [of d ?u]) (auto simp: True)
  qed
qed

section \<open>A round of dispatching\<close>

lemma quiet_run:
  assumes m: "quiet_prog N m" and ok: "dispatch_ok s"
  obtains x s' where "m s = (Inr x, s')" and "kept N s s'" and "dispatch_ok s'"
proof -
  obtain x s' where "m s = (Inr x, s')" "kept N s s'" using m ok unfolding achieves_def by metis
  then show ?thesis using quiet.keeps [OF ok] that by metis
qed

text \<open>Whatever else happens, no lease is granted and no ticket becomes claimed.\<close>

definition unclaimed :: "dispatch_store \<Rightarrow> dispatch_store \<Rightarrow> bool" where
  "unclaimed s s' \<longleftrightarrow> (linked s \<longrightarrow> linked s') \<and> el_id ` set (st_leases (ds_core s')) = el_id ` set (st_leases (ds_core s))
     \<and> (\<forall>m \<in> set (ds_tickets s'). et_status m = ''claimed'' \<longrightarrow> m \<in> set (ds_tickets s))"

lemma kept_unclaimed: "kept N s s' \<Longrightarrow> unclaimed s s'"
  by (auto simp: kept_def unclaimed_def)

lemma unclaimed_trans: "unclaimed s t \<Longrightarrow> unclaimed t u \<Longrightarrow> unclaimed s u"
  by (auto simp: unclaimed_def)

lemma cancel_ok:
  fixes i :: ident and t :: timestamp and st :: string
  assumes "dispatch_ok s" and st: "st \<noteq> ''pending''" "st \<noteq> ''claimed''"
  defines "s' \<equiv> s\<lparr>ds_tickets := invalidateExecutionTicket i st t (ds_tickets s)\<rparr>"
  shows "dispatch_ok s'" and "unclaimed s s'"
proof -
  have tok: "tickets_ok (ds_tickets s)" using assms by (simp add: dispatch_ok_def)
  have "tickets_ok (invalidateExecutionTicket i st t (ds_tickets s))" unfolding invalidateExecutionTicket_def
    using tok st by (intro tickets_ok_update) (simp_all add: stored_updates tickets_ok_def active_ticket_def)
  then show "dispatch_ok s'" using assms(1)
    by (auto simp: s'_def dispatch_ok_def registry_def invalidateExecutionTicket_def update_ticket_def)
  show "unclaimed s s'" using st by (auto simp: s'_def unclaimed_def linked_def invalidateExecutionTicket_def update_ticket_def split: if_splits)
qed

lemma poison_result:
  assumes ok: "dispatch_ok s"
  obtains tr s' where "invalidatePoisonPillTicket env k t es s = (Inr tr, s')" and "dispatch_ok s'" and "unclaimed s s'"
proof (cases "et_status (coalesce (getExecutionTicket (et_id k) (ds_tickets s)) k) = ''pending''")
  case False
  obtain tr s' where "recordDecisionEvent k t ((base_trace k)\<lparr>dt_reasonCode := Some ''dispatch.poison_pill_ticket_state_changed'', dt_evaluations := es\<rparr>) s
      = (Inr tr, s')" "kept {} s s'" "dispatch_ok s'"
    by (rule quiet_run [OF quiet_records(3) ok])
  then show ?thesis using False by (intro that [of tr s']) (auto simp: invalidatePoisonPillTicket_def prog_simps intro: kept_unclaimed)
next
  case True
  let ?s = "s\<lparr>ds_tickets := invalidateExecutionTicket (et_id k) ''cancelled'' t (ds_tickets s)\<rparr>"
  let ?rest = "bindP (updateExecutionStatus (et_executionId k) ''failed'' (Text ''dispatch.poison_pill_abandoned'') (Some (At t)) None None) (\<lambda>_.
       bindP (recordDecisionEvent k t ((base_trace k)\<lparr>dt_reasonCode := Some ''dispatch.poison_pill_detected'', dt_evaluations := es\<rparr>)) (\<lambda>trace.
       bindP (insertDispatchEvent (Poison_pill_detected (et_id k))) (\<lambda>_.
       bindP (enqueueDispatchDlq env k (Some ''dispatch.poison_pill_abandoned'')) (\<lambda>_. returnP trace))))"
  have cancelled: "dispatch_ok ?s" "unclaimed s ?s" using cancel_ok [OF ok, of "''cancelled''"] by simp_all
  have "quiet_prog {} ?rest" by (intro quiet_intros)
  then obtain tr s' where rest: "?rest ?s = (Inr tr, s')" "kept {} ?s s'" "dispatch_ok s'"
    by (rule quiet_run [OF _ cancelled(1)])
  then have "invalidatePoisonPillTicket env k t es s = (Inr tr, s')"
    using True by (simp add: invalidatePoisonPillTicket_def bindP_def getsP_def modifyP_def)
  then show ?thesis using rest(3) unclaimed_trans [OF cancelled(2) kept_unclaimed [OF rest(2)]] by (rule that)
qed

lemma no_worker_result:
  assumes ok: "dispatch_ok s"
  obtains r s' where "no_worker_for env opts t k v p b s = (Inr r, s')" and "dispatch_ok s'" and "unclaimed s s'"
    and "\<And>b' tr. r = Go_on b' tr \<Longrightarrow> kept {} s s'" and "\<And>d. r = Done d \<Longrightarrow> dd_outcome d = DO_blocked"
proof (cases "shouldInvalidatePoisonPill env k t")
  case True
  obtain tr s' where "invalidatePoisonPillTicket env k t (vw_evaluations v) s = (Inr tr, s')" "dispatch_ok s'" "unclaimed s s'"
    by (rule poison_result [OF ok])
  then show ?thesis using True
    by (intro that [of "Done \<lparr>dd_outcome = DO_blocked, dd_reasonCode = Some ''dispatch.poison_pill_abandoned'', dd_ticket = Some k, dd_worker = None,
          dd_leaseId = None, dd_trace = Some tr\<rparr>" s']) (auto simp: no_worker_for_def prog_simps)
next
  case False
  have "quiet_prog {} (no_worker_for env opts t k v p b)"
    unfolding no_worker_for_def Let_def by (simp only: False if_False) (intro quiet_intros)
  then obtain r s' where run: "no_worker_for env opts t k v p b s = (Inr r, s')" "kept {} s s'" "dispatch_ok s'"
    by (rule quiet_run [OF _ ok])
  moreover have "\<exists>b' tr. r = Go_on b' tr" using run(1) False unfolding no_worker_for_def Let_def by (auto simp: prog_ok)
  ultimately show ?thesis by (intro that [of r s']) (auto intro: kept_unclaimed)
qed

lemma booked_before: "kept N s t \<Longrightarrow> booked t s' u k w l \<Longrightarrow> booked s s' u k w l"
  unfolding kept_def booked_def by (elim conjE exE) (intro conjI exI ballI impI; force)

lemma booked_after: "booked s t u k w l \<Longrightarrow> same_core t s' \<Longrightarrow> booked s s' u k w l"
  unfolding same_core_def booked_def linked_def by simp

lemma dispatch_ok_same: "dispatch_ok s \<Longrightarrow> same_core s s' \<Longrightarrow> dispatch_ok s'"
  by (simp add: dispatch_ok_def same_core_def)

text \<open>What a decision \<open>dispatched\<close> reports, and what it means for the store.\<close>

definition dispatched :: "dispatch_store \<Rightarrow> dispatch_store \<Rightarrow> timestamp \<Rightarrow> dispatch_options \<Rightarrow> ident \<Rightarrow> execution_ticket \<Rightarrow> dispatch_decision \<Rightarrow> bool" where
  "dispatched s s' t opts leaseId k d \<longleftrightarrow> dd_outcome d = DO_dispatched \<and> dd_leaseId d = Some leaseId
     \<and> (\<exists>w. dd_worker d = Some w \<and> dd_ticket d = Some (claimed_ticket k (sn_workerId w) leaseId t)
          \<and> worker_fits k (do_includeDegraded opts) t w \<and> booked s s' t k (sn_workerId w) leaseId)"

lemma dispatch_to_result:
  assumes ok: "dispatch_ok s" and k: "k \<in> set (ds_tickets s)" "et_status k = ''pending''" and fresh: "leaseId \<notin> el_id ` set (st_leases (ds_core s))"
    and w: "ws_workers (vw_selection (dispatch_view_of env opts t k s)) = w # ws"
  obtains r s' where "dispatch_to leaseId opts t k v p w s = (Inr r, s')" and "dispatch_ok s'"
    and "\<And>b tr. r = Go_on b tr \<Longrightarrow> kept {} s s'" and "\<And>d. r = Done d \<Longrightarrow> dispatched s s' t opts leaseId k d"
proof -
  have reg: "registry_ok (registry s)" using ok by (simp add: dispatch_ok_def)
  have "w \<in> set (ws_workers (vw_selection (dispatch_view_of env opts t k s)))" using w by simp
  then obtain x where x: "getWorkerSnapshot (rg_workers (registry s)) (sn_workerId w) = Some x" "w = normalizeCandidateWorker (toView x)"
      "worker_fits k (do_includeDegraded opts) t (toView x)"
    unfolding dispatch_view_of_def Let_def dispatch_view.select_convs by (auto dest: selection_sound [OF reg])
  have slot: "0 < wv_availableSlots (toView x)" using x(3) by (simp add: worker_fits_def)
  have fits: "worker_fits k (do_includeDegraded opts) t w" using x(3) unfolding x(2) by simp
  obtain d s1 where claim: "claim_for leaseId t opts k (sn_workerId w) s = (Inr d, s1)" "dispatch_ok s1"
    and no: "dc_outcome d \<noteq> Out_granted \<Longrightarrow> kept {} s s1"
    and yes: "dc_outcome d = Out_granted \<Longrightarrow> map_option el_id (dc_lease d) = Some leaseId \<and> booked s s1 t k (sn_workerId w) leaseId"
    by (rule claim_result [OF ok k fresh x(1) slot, of t opts]) blast
  show ?thesis
  proof (cases "dc_outcome d = Out_granted")
    case False
    let ?rest = "\<lambda>trace0. bindP (recordDecisionEvent k t trace0) (\<lambda>trace. returnP (Go_on (Some (coalesce (dc_reasonCode d) ''lease_grant_failed'')) (Some trace)))"
    obtain trace0 where run: "dispatch_to leaseId opts t k v p w s = ?rest trace0 s1"
      using claim(1) False by (simp add: dispatch_to_def Let_def bindP_def)
    have "quiet_prog {} (?rest trace0)" by (intro quiet_intros)
    then obtain r s' where r: "?rest trace0 s1 = (Inr r, s')" "kept {} s1 s'" "dispatch_ok s'" by (rule quiet_run [OF _ claim(2)])
    then have "\<exists>b tr. r = Go_on b tr" by (auto simp: prog_ok)
    then show ?thesis using r run kept_trans [OF no [OF False] r(2)] by (intro that [of r s']) auto
  next
    case True
    then obtain l where l: "dc_lease d = Some l" "el_id l = leaseId" and booked: "booked s s1 t k (sn_workerId w) leaseId" using yes by auto
    let ?events = "\<lambda>trace0. bindP (insertDispatchEvent (Ticket_claimed (et_id k) (sn_workerId w) leaseId)) (\<lambda>_. recordDecisionEvent k t trace0)"
    obtain trace0 where trace0: "dispatch_to leaseId opts t k v p w s = bindP (?events trace0) (\<lambda>trace. getsP (\<lambda>s. Done \<lparr>dd_outcome = DO_dispatched,
          dd_reasonCode = ws_reasonCode (vw_selection v), dd_ticket = Some (coalesce (getExecutionTicket (et_id k) (ds_tickets s))
            (claimed_ticket k (sn_workerId w) leaseId t)), dd_worker = Some w, dd_leaseId = Some leaseId, dd_trace = Some trace\<rparr>)) s1"
      using True l by (auto simp: dispatch_to_def Let_def bindP_run [where m = "claim_for leaseId t opts k (sn_workerId w)", OF claim(1)] bindP_assoc claimed_ticket_def)
    have "calm_prog (?events trace0)" by (intro calm.achieves_bind calm_records)
    then obtain tr s' where ev: "?events trace0 s1 = (Inr tr, s')" "same_core s1 s'" unfolding achieves_def by metis
    then have booked': "booked s s' t k (sn_workerId w) leaseId" using booked booked_after by blast
    then show ?thesis using trace0 ev dispatch_ok_same [OF claim(2)] fits
      by (intro that) (auto simp: bindP_def getsP_def dispatched_def booked_def)
  qed
qed

definition emergency_view ::
    "dispatch_env \<Rightarrow> dispatch_options \<Rightarrow> (ident \<Rightarrow> ident) \<Rightarrow> timestamp \<Rightarrow> execution_ticket \<Rightarrow> dispatch_view \<Rightarrow> (dispatch_view \<times> preemption_trace option) dispatch_prog" where
  "emergency_view env opts newTicketId t k v0 =
     (if ws_workers (vw_selection v0) = [] \<and> emergencyLaneRequested k
      then bindP (preemptForUrgentTicket (de_localeCompare env) (newTicketId (et_id k)) t opts k) (\<lambda>p.
           if pt_applied p then getsP (\<lambda>s. (dispatch_view_of env opts t k s, Some p)) else returnP (v0, None))
      else returnP (v0, None))"

lemma emergency_result:
  assumes ok: "dispatch_ok s" and n: "newTicketId (et_id k) \<notin> et_id ` set (ds_tickets s)"
  obtains v p s' where "emergency_view env opts newTicketId t k (dispatch_view_of env opts t k s) s = (Inr (v, p), s')"
    and "kept {newTicketId (et_id k)} s s'" and "ws_workers (vw_selection v) \<noteq> [] \<Longrightarrow> v = dispatch_view_of env opts t k s'"
proof (cases "ws_workers (vw_selection (dispatch_view_of env opts t k s)) = [] \<and> emergencyLaneRequested k")
  case True
  obtain p s' where p: "preemptForUrgentTicket (de_localeCompare env) (newTicketId (et_id k)) t opts k s = (Inr p, s')"
      "kept {newTicketId (et_id k)} s s'"
    by (rule preempt_result [OF ok n])
  show ?thesis
  proof (cases "pt_applied p")
    case applied: True
    show ?thesis using True applied p
      by (intro that [of "dispatch_view_of env opts t k s'" "Some p" s']) (simp_all add: emergency_view_def prog_simps)
  next
    case refused: False
    show ?thesis using True refused p
      by (intro that [of "dispatch_view_of env opts t k s" None s']) (simp_all add: emergency_view_def prog_simps)
  qed
next
  case False
  then show ?thesis by (intro that [of "dispatch_view_of env opts t k s" None s]) (auto simp: emergency_view_def prog_simps quiet.refl)
qed

lemma dispatch_ticket_unfold:
  "dispatch_ticket env opts leaseId newTicketId t k b s =
     (case resolveDispatchBackpressureReason k (de_backpressure env) of
        Some reason \<Rightarrow>
          bindP (recordDecisionEvent k t ((base_trace k)\<lparr>dt_preferredWorkerId := do_preferredWorkerId opts, dt_reasonCode := Some reason\<rparr>)) (\<lambda>trace.
          bindP (enqueueDispatchDlq env k (Some reason)) (\<lambda>_.
          bindP (insertDispatchEvent (Backpressure_rejected (et_id k) reason)) (\<lambda>_.
          returnP (Go_on (Some reason) (Some trace))))) s
      | None \<Rightarrow>
          bindP (emergency_view env opts newTicketId t k (dispatch_view_of env opts t k s)) (\<lambda>(v, p).
            case ws_workers (vw_selection v) of
              [] \<Rightarrow> no_worker_for env opts t k v p b
            | w # _ \<Rightarrow> dispatch_to leaseId opts t k v p w) s)"
  by (auto simp: dispatch_ticket_def emergency_view_def bindP_def getsP_def split: option.split)

lemma dispatch_ticket_result:
  assumes ok: "dispatch_ok s" and k: "k \<in> set (ds_tickets s)" "et_status k = ''pending''" and fresh: "leaseId \<notin> el_id ` set (st_leases (ds_core s))"
    and n: "newTicketId (et_id k) \<notin> et_id ` set (ds_tickets s)"
  obtains r s' where "dispatch_ticket env opts leaseId newTicketId t k b s = (Inr r, s')" and "dispatch_ok s'"
    and "\<And>b' tr. r = Go_on b' tr \<Longrightarrow> kept {newTicketId (et_id k)} s s'"
    and "\<And>d. r = Done d \<Longrightarrow> dispatched s s' t opts leaseId k d \<or> dd_outcome d = DO_blocked \<and> unclaimed s s'"
proof (cases "resolveDispatchBackpressureReason k (de_backpressure env)")
  case (Some reason)
  let ?m = "bindP (recordDecisionEvent k t ((base_trace k)\<lparr>dt_preferredWorkerId := do_preferredWorkerId opts, dt_reasonCode := Some reason\<rparr>)) (\<lambda>trace.
          bindP (enqueueDispatchDlq env k (Some reason)) (\<lambda>_.
          bindP (insertDispatchEvent (Backpressure_rejected (et_id k) reason)) (\<lambda>_.
          returnP (Go_on (Some reason) (Some trace)))))"
  have "quiet_prog {newTicketId (et_id k)} ?m" by (intro quiet_intros)
  then obtain r s' where r: "?m s = (Inr r, s')" "kept {newTicketId (et_id k)} s s'" "dispatch_ok s'" by (rule quiet_run [OF _ ok])
  then have "\<exists>b tr. r = Go_on b tr" by (auto simp: prog_ok)
  then show ?thesis using r Some by (intro that [of r s']) (auto simp: dispatch_ticket_unfold)
next
  case None
  obtain v p s1 where v: "emergency_view env opts newTicketId t k (dispatch_view_of env opts t k s) s = (Inr (v, p), s1)"
    and kept: "kept {newTicketId (et_id k)} s s1" and view: "ws_workers (vw_selection v) \<noteq> [] \<Longrightarrow> v = dispatch_view_of env opts t k s1"
    by (rule emergency_result [where newTicketId = newTicketId and k = k, OF ok n]) blast
  have ok1: "dispatch_ok s1" using quiet.keeps [OF ok kept] .
  have k1: "k \<in> set (ds_tickets s1)" and fresh1: "leaseId \<notin> el_id ` set (st_leases (ds_core s1))" using kept k fresh by (auto simp: kept_def)
  have later: "kept {newTicketId (et_id k)} s s'" if "kept {} s1 s'" for s'
    using kept that by (blast intro: kept_trans kept_mono)
  show ?thesis
  proof (cases "ws_workers (vw_selection v)")
    case Nil
    obtain r s' where r: "no_worker_for env opts t k v p b s1 = (Inr r, s')" "dispatch_ok s'" "unclaimed s1 s'"
      "\<And>b' tr. r = Go_on b' tr \<Longrightarrow> kept {} s1 s'" "\<And>d. r = Done d \<Longrightarrow> dd_outcome d = DO_blocked"
      by (rule no_worker_result [OF ok1, of env opts t k v p b]) blast
    then show ?thesis using None v Nil unclaimed_trans [OF kept_unclaimed [OF kept] r(3)]
      by (intro that [of r s']) (simp_all add: dispatch_ticket_unfold bindP_def later)
  next
    case (Cons w ws)
    then have "ws_workers (vw_selection (dispatch_view_of env opts t k s1)) = w # ws" using view by auto
    then obtain r s' where r: "dispatch_to leaseId opts t k v p w s1 = (Inr r, s')" "dispatch_ok s'"
      "\<And>b tr. r = Go_on b tr \<Longrightarrow> kept {} s1 s'" "\<And>d. r = Done d \<Longrightarrow> dispatched s1 s' t opts leaseId k d"
      by (rule dispatch_to_result [OF ok1 k1 k(2) fresh1, of env opts t w ws v p]) blast
    have "dispatched s s' t opts leaseId k d" if "dispatched s1 s' t opts leaseId k d" for d
      using that booked_before [OF kept] unfolding dispatched_def by blast
    then show ?thesis using None v Cons r
      by (intro that [of r s']) (simp_all add: dispatch_ticket_unfold bindP_def later)
  qed
qed

text \<open>The loop over tickets that are all pending, with an unused identifier for the replacement of each.\<close>

lemma dispatch_loop_result:
  assumes "dispatch_ok s" and "leaseId \<notin> el_id ` set (st_leases (ds_core s))"
    and "set ks \<subseteq> {k \<in> set (ds_tickets s). et_status k = ''pending''}" and "distinct (map et_id ks)"
    and "\<And>k. k \<in> set ks \<Longrightarrow> newTicketId (et_id k) \<notin> et_id ` set (ds_tickets s)" and "inj newTicketId"
  shows "\<exists>d s'. dispatch_loop env opts leaseId newTicketId t first ks b tr s = (Inr d, s') \<and> dispatch_ok s'
    \<and> ((\<exists>k \<in> set ks. dispatched s s' t opts leaseId k d) \<or> dd_outcome d \<noteq> DO_dispatched \<and> unclaimed s s')"
  using assms(1-5)
proof (induction ks arbitrary: s b tr)
  case Nil
  then show ?case by (simp add: prog_simps unclaimed_def)
next
  case (Cons k ks)
  have k: "k \<in> set (ds_tickets s)" "et_status k = ''pending''" using Cons.prems(3) by auto
  obtain r s1 where r: "dispatch_ticket env opts leaseId newTicketId t k b s = (Inr r, s1)" "dispatch_ok s1"
    and go: "\<And>b' tr. r = Go_on b' tr \<Longrightarrow> kept {newTicketId (et_id k)} s s1"
    and stop: "\<And>d. r = Done d \<Longrightarrow> dispatched s s1 t opts leaseId k d \<or> dd_outcome d = DO_blocked \<and> unclaimed s s1"
    by (rule dispatch_ticket_result [where newTicketId = newTicketId and k = k, OF Cons.prems(1) k Cons.prems(2) Cons.prems(5)]) auto
  have run: "dispatch_loop env opts leaseId newTicketId t first (k # ks) b tr s
      = (case r of Go_on reason trace \<Rightarrow> dispatch_loop env opts leaseId newTicketId t first ks reason trace | Done d \<Rightarrow> returnP d) s1"
    using r(1) by (simp add: bindP_def)
  show ?case
  proof (cases r)
    case (Done d)
    then show ?thesis using run r(2) stop [OF Done] by (auto simp: returnP_def)
  next
    case (Go_on b' tr')
    then have kept: "kept {newTicketId (et_id k)} s s1" by (rule go)
    then obtain new where new: "ds_tickets s1 = ds_tickets s @ new" "\<forall>m \<in> set new. et_id m = newTicketId (et_id k)"
      and ids: "el_id ` set (st_leases (ds_core s1)) = el_id ` set (st_leases (ds_core s))" by (auto simp: kept_def)
    have "newTicketId (et_id m) \<notin> et_id ` set (ds_tickets s1)" if "m \<in> set ks" for m
    proof -
      have "et_id m \<noteq> et_id k" using that Cons.prems(4) by (auto simp: image_iff)
      then have "newTicketId (et_id m) \<noteq> newTicketId (et_id k)" using assms(6) by (simp add: inj_eq)
      then show ?thesis using that Cons.prems(5) new by auto
    qed
    moreover have "set ks \<subseteq> {k \<in> set (ds_tickets s1). et_status k = ''pending''}" using Cons.prems(3) new(1) by auto
    ultimately obtain d s' where loop: "dispatch_loop env opts leaseId newTicketId t first ks b' tr' s1 = (Inr d, s')" "dispatch_ok s'"
      "(\<exists>k \<in> set ks. dispatched s1 s' t opts leaseId k d) \<or> dd_outcome d \<noteq> DO_dispatched \<and> unclaimed s1 s'"
      using Cons.IH [of s1 b' tr'] r(2) Cons.prems(2,4) ids by auto
    have "dispatched s s' t opts leaseId m d" if "dispatched s1 s' t opts leaseId m d" for m
      using that booked_before [OF kept] unfolding dispatched_def by blast
    then show ?thesis using loop run Go_on unclaimed_trans [OF kept_unclaimed [OF kept]] by auto
  qed
qed

section \<open>The order in which tickets are tried\<close>

definition starved :: "dispatch_options \<Rightarrow> execution_ticket \<Rightarrow> bool" where
  "starved opts k \<longleftrightarrow> (case do_starvedExecutionIds opts of None \<Rightarrow> False | Some ids \<Rightarrow> et_executionId k \<in> set ids)"

lemma sort_two_classes:
  fixes cmp :: "'a \<Rightarrow> 'a \<Rightarrow> rat"
  assumes "\<And>x y. cmp x y = (if P x = P y then 0 else if P x then -1 else 1)"
  shows "js_sort cmp xs = filter P xs @ filter (\<lambda>x. \<not> P x) xs"
proof (induction xs)
  case (Cons x xs)
  have "insert_by cmp x (as @ bs) = as @ x # bs" if "\<not> P x" "\<forall>a \<in> set as. P a" "\<forall>b \<in> set bs. \<not> P b" for as bs
    using that by (induction as) (cases bs; simp add: assms)+
  moreover have "insert_by cmp x ys = x # ys" if "P x" for ys using that by (cases ys) (simp_all add: assms)
  ultimately show ?case using Cons by (simp add: js_sort_def)
qed (simp add: js_sort_def)

lemma prioritize_partition:
  "prioritizeStarvedTickets ks (do_starvedExecutionIds opts) = filter (starved opts) ks @ filter (\<lambda>k. \<not> starved opts k) ks"
proof (cases "do_starvedExecutionIds opts")
  case (Some ids)
  have "js_sort (\<lambda>l r. if (et_executionId l \<in> set ids) = (et_executionId r \<in> set ids) then 0 else if et_executionId l \<in> set ids then -1 else 1) ks
      = filter (starved opts) ks @ filter (\<lambda>k. \<not> starved opts k) ks"
    by (rule sort_two_classes) (simp add: starved_def Some)
  then show ?thesis by (simp add: prioritizeStarvedTickets_def Some starved_def)
qed (simp add: prioritizeStarvedTickets_def starved_def)

lemma single_tenant_interleave:
  assumes "0 < b" and "\<And>k. k \<in> set ks \<Longrightarrow> ticket_tenant k = c"
  shows "interleaveTicketsByTenant ks b = ks"
proof -
  have "mset (interleaveTicketsByTenant ks b) = mset ks" by (rule mset_by_classes [OF interleave_filter [OF assms(1)]])
  then have "set (interleaveTicketsByTenant ks b) = set ks" by (metis set_mset_mset)
  then show ?thesis using interleave_filter [OF assms(1), of c ks] assms(2) by (simp add: filter_id_conv)
qed

lemma dispatch_order_mset: "mset (dispatch_order env opts t s) = mset (filter (dispatchable t (do_queueName opts)) (ds_tickets s))"
proof -
  have "mset (interleaveTicketsByTenant ks 3) = mset ks" for ks by (rule mset_by_classes [OF interleave_filter]) simp
  moreover have "mset (filter P ks) + mset (filter (\<lambda>k. \<not> P k) ks) = mset ks" for P and ks :: "execution_ticket list"
    by (induction ks) auto
  ultimately show ?thesis
    by (simp add: dispatch_order_def prioritize_partition sortTicketsForDeterministicDispatch_def listDispatchableExecutionTickets_def)
qed

lemma dispatchNext_result:
  assumes ok: "dispatch_ok s" and lease: "leaseId \<notin> el_id ` set (st_leases (ds_core s))"
    and fresh: "inj newTicketId" "\<And>i. newTicketId i \<notin> et_id ` set (ds_tickets s)"
  shows "\<exists>d s'. dispatchNext env opts leaseId newTicketId t s = (Inr d, s') \<and> dispatch_ok s'
    \<and> (if dd_outcome d = DO_dispatched
       then \<exists>k \<in> set (ds_tickets s). dispatchable t (do_queueName opts) k \<and> dispatched s s' t opts leaseId k d
       else unclaimed s s')"
proof -
  have perm: "mset (dispatch_order env opts t s) = mset (filter (dispatchable t (do_queueName opts)) (ds_tickets s))"
    by (rule dispatch_order_mset)
  then have set: "set (dispatch_order env opts t s) = {k \<in> set (ds_tickets s). dispatchable t (do_queueName opts) k}" by (metis set_mset_mset set_filter)
  have "distinct (map et_id (filter (dispatchable t (do_queueName opts)) (ds_tickets s)))"
    using ok by (simp add: dispatch_ok_def tickets_ok_def distinct_map_filter)
  then have ids: "distinct (map et_id (dispatch_order env opts t s))" using perm by (metis mset_map mset_eq_imp_distinct_iff)
  show ?thesis
  proof (cases "dispatch_order env opts t s")
    case Nil
    then show ?thesis using ok by (simp add: dispatchNext_def prog_simps unclaimed_def)
  next
    case (Cons k ks)
    show ?thesis
    proof (cases "\<exists>reason. de_queueAvailability env = Some (Q_unavailable, reason)")
      case True
      then obtain reason where q: "de_queueAvailability env = Some (Q_unavailable, reason)" by blast
      have "quiet_prog {} (queue_blocked opts t k reason)" unfolding queue_blocked_def Let_def by (intro quiet_intros)
      then obtain d s' where d: "queue_blocked opts t k reason s = (Inr d, s')" "kept {} s s'" "dispatch_ok s'" by (rule quiet_run [OF _ ok])
      then have "dd_outcome d = DO_blocked" by (auto simp: queue_blocked_def Let_def prog_ok)
      then show ?thesis using d q Cons by (auto simp: dispatchNext_def bindP_gets intro: kept_unclaimed)
    next
      case False
      have "dispatchNext env opts leaseId newTicketId t s = dispatch_loop env opts leaseId newTicketId t (Some k) (k # ks) None None s"
        using False Cons by (auto simp: dispatchNext_def bindP_gets split: option.split queue_state.split)
      moreover have "set (k # ks) \<subseteq> {k \<in> set (ds_tickets s). et_status k = ''pending''}"
        using set Cons by (auto simp: dispatchable_def)
      then obtain d s' where "dispatch_loop env opts leaseId newTicketId t (Some k) (k # ks) None None s = (Inr d, s')" "dispatch_ok s'"
          "(\<exists>k \<in> set (k # ks). dispatched s s' t opts leaseId k d) \<or> dd_outcome d \<noteq> DO_dispatched \<and> unclaimed s s'"
        using dispatch_loop_result [OF ok lease _ _ fresh(2,1), of "k # ks" env opts t "Some k" None None] ids Cons by metis
      ultimately show ?thesis using set Cons by (auto simp: dispatched_def)
    qed
  qed
qed

section \<open>Properties\<close>

text \<open>
  C5. A dispatch never fails and never overcommits. On a well-formed store, with unused identifiers for the
  lease and for replacement tickets, a call returns a decision and leaves a well-formed store. When the decision is to dispatch, the ticket was
  pending and due in the requested queue; it is now claimed by the worker of the decision under the new lease; that lease is the active one of the
  execution, belongs to this worker, carries the next fencing token and lives between the smallest and the largest time to live; the worker fits
  every requirement of the ticket, lists the execution as running and runs no more executions than its limit; no other ticket became
  claimed. When the decision is anything else, no lease was granted and no ticket became claimed.
\<close>

theorem dispatch_sound:
  assumes ok: "dispatch_ok s" and lease: "leaseId \<notin> el_id ` set (st_leases (ds_core s))"
    and fresh: "inj newTicketId" "\<And>i. newTicketId i \<notin> et_id ` set (ds_tickets s)"
  shows "\<exists>d s'. dispatchNext env opts leaseId newTicketId t s = (Inr d, s') \<and> dispatch_ok s'
    \<and> (if dd_outcome d = DO_dispatched
       then \<exists>k \<in> set (ds_tickets s). dispatchable t (do_queueName opts) k \<and> dispatched s s' t opts leaseId k d
       else unclaimed s s')"
  using assms by (rule dispatchNext_result)

text \<open>
  Tickets are tried in the promised order: every ticket that is pending and due in the requested queue exactly once, and those of
  starved executions before all others, each group in the deterministic order. The tenants play no part in it: the rows of the ticket table do not
  carry the tenant, so that the interleaving by tenant leaves every order of stored tickets as it is.
\<close>

theorem dispatch_order_exact:
  assumes "dispatch_ok s"
  shows "mset (dispatch_order env opts t s) = mset (filter (dispatchable t (do_queueName opts)) (ds_tickets s))
    \<and> dispatch_order env opts t s
      = (let ks = sortTicketsForDeterministicDispatch (de_localeCompare env) (listDispatchableExecutionTickets t (do_queueName opts) (ds_tickets s))
         in filter (starved opts) ks @ filter (\<lambda>k. \<not> starved opts k) ks)"
proof -
  have tenant: "ticket_tenant k = ''default''" if "k \<in> set (ds_tickets s)" for k
  proof -
    have "stored_ticket k = k" using assms that by (simp add: dispatch_ok_def tickets_ok_def)
    then have "et_tenantId k = et_tenantId (stored_ticket k)" by simp
    then have "et_tenantId k = None" by (simp add: stored_ticket_def)
    then show ?thesis by (simp add: ticket_tenant_def)
  qed
  have "interleaveTicketsByTenant (sortTicketsForDeterministicDispatch (de_localeCompare env) (listDispatchableExecutionTickets t (do_queueName opts) (ds_tickets s))) 3
      = sortTicketsForDeterministicDispatch (de_localeCompare env) (listDispatchableExecutionTickets t (do_queueName opts) (ds_tickets s))"
    by (rule single_tenant_interleave [where c = "''default''"])
      (auto simp: sortTicketsForDeterministicDispatch_def listDispatchableExecutionTickets_def tenant)
  then show ?thesis
    unfolding dispatch_order_mset by (simp add: dispatch_order_def prioritize_partition Let_def)
qed

text \<open>
  Creating a ticket is decided exactly, and an attempt of an execution never has two tickets: an unknown execution is an error; when the attempt has
  an active ticket, that ticket is returned and nothing changes; without a task the call fails and nothing changes; otherwise a
  pending ticket is added, the store stays well-formed, and the ticket is from then on the active ticket of the attempt.
\<close>

theorem create_ticket_exact:
  assumes ok: "dispatch_ok s" and fresh: "ticketId \<notin> et_id ` set (ds_tickets s)"
  shows "case st_executions (ds_core s) (ci_executionId i) of
      None \<Rightarrow> createTicket ticketId t i s = (Inl (Dispatch_execution_not_found (ci_executionId i)), s)
    | Some ex \<Rightarrow> (case getActiveExecutionTicket (ci_executionId i) (ex_attempt ex) (ds_tickets s) of
        Some k \<Rightarrow> createTicket ticketId t i s = (Inr (TO_exists, k), s)
      | None \<Rightarrow> (case ds_tasks s (ex_taskId ex) of
          None \<Rightarrow> createTicket ticketId t i s = (Inl (Dispatch_task_not_found (ex_taskId ex)), s)
        | Some tk \<Rightarrow> (\<exists>s'. createTicket ticketId t i s = (Inr (TO_created, new_ticket ticketId t i ex tk), s')
            \<and> dispatch_ok s' \<and> ds_tickets s' = ds_tickets s @ [stored_ticket (new_ticket ticketId t i ex tk)]
            \<and> getActiveExecutionTicket (ci_executionId i) (ex_attempt ex) (ds_tickets s') = Some (stored_ticket (new_ticket ticketId t i ex tk)))))"
proof (cases "st_executions (ds_core s) (ci_executionId i)")
  case (Some ex)
  note ex = this
  show ?thesis
  proof (cases "getActiveExecutionTicket (ci_executionId i) (ex_attempt ex) (ds_tickets s)")
    case None
    then have none: "filter (\<lambda>k. et_executionId k = ci_executionId i \<and> et_attempt k = ex_attempt ex \<and> active_ticket k) (ds_tickets s) = []"
      by (auto simp: getActiveExecutionTicket_def split: list.splits) (metis set_empty2 set_sort set_filter filter_empty_conv)
    show ?thesis
    proof (cases "ds_tasks s (ex_taskId ex)")
      case (Some tk)
      let ?k = "new_ticket ticketId t i ex tk"
      have k: "et_id ?k = ticketId" "et_executionId ?k = ci_executionId i" "et_attempt ?k = ex_attempt ex" "active_ticket ?k"
        by (simp_all add: new_ticket_def active_ticket_def)
      have "insertExecutionTicket ?k s = (Inr (), s\<lparr>ds_tickets := ds_tickets s @ [stored_ticket ?k]\<rparr>)"
        using none fresh k by (intro insert_ticket_run) (auto simp: filter_empty_conv)
      then have "\<exists>s'. createTicket ticketId t i s = (Inr (TO_created, ?k), s') \<and> ds_tickets s' = ds_tickets s @ [stored_ticket ?k]
          \<and> registry s' = registry s \<and> st_leases (ds_core s') = st_leases (ds_core s) \<and> st_executions (ds_core s') = st_executions (ds_core s)"
        using ex None Some k
        by (simp add: createTicket_def dispatch_transaction_def prog_simps upsertDispatchAgent_def insertDispatchEvent_def
            registry_def Let_def)
      then obtain s' where s': "createTicket ticketId t i s = (Inr (TO_created, ?k), s')" "ds_tickets s' = ds_tickets s @ [stored_ticket ?k]"
          "registry s' = registry s" "st_leases (ds_core s') = st_leases (ds_core s)" "st_executions (ds_core s') = st_executions (ds_core s)" by blast
      have "tickets_ok (ds_tickets s @ [stored_ticket ?k])"
        using ok fresh none k by (intro tickets_ok_append) (auto simp: dispatch_ok_def filter_empty_conv)
      then have "dispatch_ok s'" using ok ex k s' by (auto simp: dispatch_ok_def)
      moreover have "getActiveExecutionTicket (ci_executionId i) (ex_attempt ex) (ds_tickets s') = Some (stored_ticket ?k)"
        using none k by (simp add: s'(2) getActiveExecutionTicket_def)
      ultimately show ?thesis using ex None Some s' by auto
    qed (use ex None in \<open>simp add: createTicket_def dispatch_transaction_def prog_simps\<close>)
  qed (use ex in \<open>simp add: createTicket_def dispatch_transaction_def prog_simps\<close>)
qed (simp add: createTicket_def dispatch_transaction_def prog_simps)

text \<open>
  C25. Preemption is safe and loses no work. When it is applied, the requesting ticket is urgent, and the victim is another execution that was
  executing under the active lease of a full worker with capacity one that fits the requesting ticket; its priority (that of its latest ticket of the
  current attempt, or else of its task) is not urgent, it has a resumable step, and neither the worker nor the agent record is at another step.
  Afterwards the store is well-formed, the victim is blocked and has no active lease, its workflow is paused at that step, and it has a new pending
  ticket under a higher attempt than any ticket it had. The executions, agent records, leases and tickets of all other executions, the
  workflows of other tasks and all tasks are as they were.
\<close>

theorem preemption_safe:
  assumes ok: "dispatch_ok s" and fresh: "n \<notin> et_id ` set (ds_tickets s)"
    and run: "preemptForUrgentTicket lc n t opts ticket s = (Inr p, s')" and applied: "pt_applied p"
  shows "\<exists>e w l r. et_priority ticket = ''urgent'' \<and> pt_preemptedExecutionId p = Some e \<and> e \<noteq> et_executionId ticket
    \<and> w \<in> set (listWorkers (registry s)) \<and> isCompatibleFullWorker ticket opts w \<and> sn_runningExecutions w = [e]
    \<and> map_option ex_status (st_executions (ds_core s) e) = Some ''executing''
    \<and> effective_priority s e \<noteq> Some ''urgent'' \<and> effective_priority s e \<noteq> None
    \<and> getActiveExecutionLease e (st_leases (ds_core s)) = Some l \<and> el_workerId l = sn_workerId w
    \<and> dispatch_ok s' \<and> getActiveExecutionLease e (st_leases (ds_core s')) = None
    \<and> (\<forall>e'. e' \<noteq> e \<longrightarrow> getActiveExecutionLease e' (st_leases (ds_core s')) = getActiveExecutionLease e' (st_leases (ds_core s)))
    \<and> map_option ex_status (st_executions (ds_core s') e) = Some ''blocked''
    \<and> (\<exists>task step. map_option ex_taskId (st_executions (ds_core s) e) = Some task
          \<and> map_option (\<lambda>f. (wf_status f, wf_resumableFromStep f)) (ds_workflows s task) = Some (''running'', Some step)
          \<and> stands_at s w e step \<and> others_untouched e task s s'
          \<and> map_option (\<lambda>f. (wf_status f, wf_resumableFromStep f)) (ds_workflows s' task) = Some (''paused'', Some step))
    \<and> ds_tickets s' = ds_tickets s @ [r] \<and> et_executionId r = e \<and> et_status r = ''pending''
    \<and> (\<forall>k \<in> set (ds_tickets s). et_executionId k = e \<longrightarrow> et_attempt k < et_attempt r)"
proof -
  have urgent: "isPreemptionTriggerTicket ticket"
    using run applied by (rule_tac ccontr) (auto simp: preemptForUrgentTicket_def prog_simps buildTrace_def)
  obtain c where c: "selectCandidate lc ticket opts s = Some c"
    using run applied urgent by (cases "selectCandidate lc ticket opts s") (auto simp: preemptForUrgentTicket_def prog_simps buildTrace_def)
  note facts = toCandidate_facts [OF selectCandidate_facts(1) [OF c]] selectCandidate_facts(2,3) [OF c]
  note standing = toCandidate_standing(1,2) [OF selectCandidate_facts(1) [OF c]]
  obtain s1 r where s1: "preemptForUrgentTicket lc n t opts ticket s = (Inr (buildTrace (et_priority ticket) (Some c) (Some n) ''priority_preemption_applied''), s1)"
      "kept {n} s s1" "ds_tickets s1 = ds_tickets s @ [stored_ticket r]" "et_executionId r = pc_executionId c" "et_status r = ''pending''"
      "et_attempt r = resolveNextTicketAttempt (pc_executionId c) (ex_attempt (pc_execution c)) (ds_tickets s)"
      "st_leases (ds_core s1) = update_lease (\<lambda>m. m = pc_activeLease c) (close_lease Lease_reclaimed t (Some ''priority_preempted'')) (st_leases (ds_core s))"
      "map_option ex_status (st_executions (ds_core s1) (pc_executionId c)) = Some ''blocked''"
      "map_option wf_status (ds_workflows s1 (ex_taskId (pc_execution c))) = Some ''paused''"
      "Option.bind (ds_workflows s1 (ex_taskId (pc_execution c))) wf_resumableFromStep = Some (pc_recoveryStepId c)"
      "others_untouched (pc_executionId c) (ex_taskId (pc_execution c)) s s1"
    by (rule preempt_run [OF ok urgent c fresh])
  then have eq: "s1 = s'" "p = buildTrace (et_priority ticket) (Some c) (Some n) ''priority_preemption_applied''" using run by auto
  have lok: "lease_ok (st_leases (ds_core s))" using ok by (simp add: dispatch_ok_def)
  have leases: "getActiveExecutionLease e' (st_leases (ds_core s')) = (if e' = pc_executionId c then None else getActiveExecutionLease e' (st_leases (ds_core s)))" for e'
  proof -
    have "el_executionId l = e'" if "getActiveExecutionLease e' (st_leases (ds_core s)) = Some l" for l e'
      using that by (simp add: getActive_iff [OF lok])
    then have "pc_activeLease c \<noteq> l" if "getActiveExecutionLease e' (st_leases (ds_core s)) = Some l" "e' \<noteq> pc_executionId c" for l
      using that facts(8) by blast
    then show ?thesis using s1(7) facts(8) unfolding eq(1)
      by (cases "getActiveExecutionLease e' (st_leases (ds_core s))") (auto simp: active_after_close [OF lok])
  qed
  have running: "sn_runningExecutions (pc_worker c) = [pc_executionId c]"
    using facts(3,14) by (auto simp: isCompatibleFullWorker_def Let_def length_Suc_conv split: if_splits)
  have "dispatch_ok s'" using quiet.keeps [OF ok s1(2)] eq by simp
  moreover have "\<forall>k \<in> set (ds_tickets s). et_executionId k = pc_executionId c \<longrightarrow> et_attempt k < et_attempt (stored_ticket r)"
    using next_attempt_fresh s1(6) by simp
  moreover have "map_option (\<lambda>f. (wf_status f, wf_resumableFromStep f)) (ds_workflows s' (ex_taskId (pc_execution c))) = Some (''paused'', Some (pc_recoveryStepId c))"
    using s1(9,10) unfolding eq(1) by (cases "ds_workflows s' (ex_taskId (pc_execution c))") auto
  ultimately show ?thesis
    using urgent facts standing running leases s1(3-5,8,11) unfolding eq
    by (intro exI [of _ "pc_executionId c"] exI [of _ "pc_worker c"] exI [of _ "pc_activeLease c"] exI [of _ "stored_ticket r"])
      (simp add: buildTrace_def isPreemptionTriggerTicket_def)
qed

section \<open>A concrete store\<close>

text \<open>One worker with capacity one runs \<open>e1\<close>; an urgent ticket waits for \<open>e2\<close>.\<close>

definition solo_worker :: worker_snapshot where
  "solo_worker = busy_worker\<lparr>sn_maxConcurrency := 1\<rparr>"

definition demo_execution :: "ident \<Rightarrow> string \<Rightarrow> execution_row" where
  "demo_execution task status = \<lparr>ex_taskId = task, ex_traceId = ''tr'', ex_attempt = 1, ex_agentId = ''a'', ex_status = status, ex_updatedAt = At 0,
     ex_startedAt = None, ex_finishedAt = None, ex_lastErrorCode = None, ex_createdAt = 0\<rparr>"

definition urgent_ticket :: execution_ticket where
  "urgent_ticket = stored_ticket ((ex_ticket ''t2'' ''urgent'')\<lparr>et_id := ''k2'', et_executionId := ''e2'', et_taskId := ''t2''\<rparr>)"

definition demo_task :: "string \<Rightarrow> task_row" where
  "demo_task priority = \<lparr>tk_tenantId = None, tk_priority = priority, tk_status = ''in_progress'', tk_outputJson = None, tk_errorCode = None,
     tk_completedAt = None, tk_updatedAt = 0\<rparr>"

definition dispatch_demo :: dispatch_store where
  "dispatch_demo = \<lparr>ds_core = lease_demo\<lparr>
       st_executions := [''e1'' \<mapsto> demo_execution ''t1'' ''executing'', ''e2'' \<mapsto> demo_execution ''t2'' ''created''],
       st_registry := \<lparr>rg_workers = [(''w1'', solo_worker)], rg_signals = []\<rparr>\<rparr>,
     ds_tickets = [urgent_ticket],
     ds_tasks = [''t1'' \<mapsto> demo_task ''normal'', ''t2'' \<mapsto> demo_task ''urgent''],
     ds_workflows = [''t1'' \<mapsto> \<lparr>wf_status = ''running'', wf_currentStepIndex = 1, wf_outputsJson = ''{}'', wf_resumableFromStep = Some ''s1'',
       wf_retryCount = 0, wf_lastErrorCode = None, wf_updatedAt = 0\<rparr>,
       ''t2'' \<mapsto> \<lparr>wf_status = ''running'', wf_currentStepIndex = 0, wf_outputsJson = ''{}'', wf_resumableFromStep = None,
       wf_retryCount = 0, wf_lastErrorCode = None, wf_updatedAt = 0\<rparr>],
     ds_events = [], ds_dlq = []\<rparr>"

definition demo_env :: dispatch_env where
  "demo_env = \<lparr>de_localeCompare = by_name, de_backpressure = None, de_queueAvailability = None, de_dlqEnabled = False, de_poisonPillMaxAgeMs = None\<rparr>"

definition calm_demo :: dispatch_store where
  "calm_demo = dispatch_demo\<lparr>ds_core := (ds_core dispatch_demo)\<lparr>st_registry := one_worker\<rparr>\<rparr>"

lemma demo_ok: "dispatch_ok dispatch_demo" "dispatch_ok calm_demo"
proof -
  have "snapshot_ok solo_worker"
    by (simp add: snapshot_ok_def solo_worker_def busy_worker_def idle_worker_def names_ok_def rate_ok_def no_remote_def js_trim_def js_white_def)
  then have "registry_ok \<lparr>rg_workers = [(''w1'', solo_worker)], rg_signals = []\<rparr>"
    by (simp add: registry_ok_def) (simp add: solo_worker_def busy_worker_def idle_worker_def)
  moreover have "registry_ok one_worker"
    using idle_worker_ok by (simp add: registry_ok_def one_worker_def) (simp add: idle_worker_def)
  moreover have "tickets_ok [urgent_ticket]" by (simp add: tickets_ok_def urgent_ticket_def)
  moreover have "et_executionId urgent_ticket = ''e2''" by (simp add: urgent_ticket_def)
  ultimately show "dispatch_ok dispatch_demo" "dispatch_ok calm_demo"
    using lease_demo_ok by (auto simp: dispatch_ok_def dispatch_demo_def calm_demo_def registry_def js_trim_def js_white_def)
qed

lemma demo_leases: "''l9'' \<notin> el_id ` set (st_leases (ds_core calm_demo))"
  by (simp add: calm_demo_def dispatch_demo_def lease_demo_defs)

lemma demo_order: "dispatch_order demo_env sel_options 5 calm_demo = [urgent_ticket]"
  by (simp add: dispatch_order_def prioritizeStarvedTickets_def sel_options_def interleaveTicketsByTenant_def sortTicketsForDeterministicDispatch_def
      listDispatchableExecutionTickets_def calm_demo_def dispatch_demo_def js_sort_def dispatchable_def urgent_ticket_def stored_ticket_def ex_ticket_def)

lemma demo_eval: "evaluateWorkersForTicket urgent_ticket sel_options 5 one_worker = [toWorkerEvaluation (toView idle_worker) True None []]"
  by (simp add: evaluateWorkersForTicket_def sel_options_def urgent_ticket_def stored_ticket_def ex_ticket_def one_worker_def listCandidateWorkers_def
      listWorkers_def listWorkerSnapshots_def evaluate_worker_def idle_worker_def view_simps eval_simps Let_def)

lemma demo_select:
  "ws_workers (vw_selection (dispatch_view_of demo_env sel_options 5 urgent_ticket calm_demo)) = [normalizeCandidateWorker (toView idle_worker)]"
proof -
  have ids: "sn_workerId (toView idle_worker) = ''w1''" by (simp add: toView_def idle_worker_def)
  have reg: "registry calm_demo = one_worker" by (simp add: registry_def calm_demo_def)
  have acc: "accepted_workers one_worker [e] = [normalizeCandidateWorker (toView idle_worker)]" if "ev_workerId e = ''w1''" "ev_accepted e" for e
    using that by (simp add: accepted_workers_def List.map_filter_def getCandidateWorker_def getWorker_def getWorkerSnapshot_def one_worker_def)
  have any: "resolveDispatchTarget (et_dispatchTarget urgent_ticket) = DT_any"
    by (simp add: urgent_ticket_def stored_ticket_def ex_ticket_def resolveDispatchTarget_def)
  obtain e where "rankWorkerEvaluations (de_localeCompare demo_env) one_worker urgent_ticket [toWorkerEvaluation (toView idle_worker) True None []] = [e]"
    "ev_workerId e = ''w1''" "ev_accepted e"
    by (simp add: rankWorkerEvaluations_def Let_def js_sort_def normal_fields ids acc)
  then show ?thesis
    by (simp add: dispatch_view_of_def Let_def reg demo_eval selectWorkersForDispatch_def acc any)
qed

definition demo_result :: "dispatch_store \<Rightarrow> bool" where
  "demo_result s' \<longleftrightarrow> st_executions (ds_core s') = st_executions (ds_core calm_demo) \<and> ds_tasks s' = ds_tasks calm_demo \<and> ds_workflows s' = ds_workflows calm_demo
     \<and> map_option sn_placement (getWorkerSnapshot (rg_workers (registry s')) ''w1'') = Some WP_local"

lemma demo_claim:
  "\<exists>d s'. claim_for ''l9'' 5 sel_options urgent_ticket ''w1'' calm_demo = (Inr d, s') \<and> dc_outcome d = Out_granted \<and> dc_lease d \<noteq> None \<and> demo_result s'"
  by (simp add: claim_for_def lease_eval callLease_def dispatch_transaction_def calm_demo_def dispatch_demo_def urgent_ticket_def stored_ticket_def
      ex_ticket_def lease_demo_def demo_execution_def demo_task_def first_lease_def second_lease_def bookWorker_def registry_def getWorkerSnapshot_def one_worker_def
      sel_options_def idle_worker_def upsertWorkerSnapshot_def demo_result_def map_of_insert_row)

lemma demo_outcome: "\<exists>d s'. dispatchNext demo_env sel_options ''l9'' (\<lambda>i. ''new'' @ i) 5 calm_demo = (Inr d, s') \<and> dd_outcome d = DO_dispatched
    \<and> map_option sn_workerId (dd_worker d) = Some ''w1'' \<and> demo_result s'"
proof -
  have w: "sn_workerId (normalizeCandidateWorker (toView idle_worker)) = ''w1''" by (simp add: normal_fields) (simp add: toView_def idle_worker_def)
  have env: "de_backpressure demo_env = None" "de_queueAvailability demo_env = None" by (simp_all add: demo_env_def)
  have pressure: "resolveDispatchBackpressureReason urgent_ticket None = None" by (simp add: resolveDispatchBackpressureReason_def)
  show ?thesis
    using demo_claim
    by (auto simp: dispatchNext_def bindP_gets demo_order env dispatch_ticket_unfold pressure emergency_view_def demo_select dispatch_to_def w Let_def
        prog_simps insertDispatchEvent_def recordDecisionEvent_def upsertDispatchAgent_def demo_result_def registry_def split: option.split)
qed

theorem dispatch_sound_witness:
  "\<exists>d s'. dispatchNext demo_env sel_options ''l9'' (\<lambda>i. ''new'' @ i) 5 calm_demo = (Inr d, s') \<and> dispatch_ok s'
     \<and> dispatched calm_demo s' 5 sel_options ''l9'' urgent_ticket d"
proof -
  have inj: "inj (\<lambda>i::ident. ''new'' @ i)" by (simp add: inj_def)
  have fresh: "(\<lambda>i::ident. ''new'' @ i) i \<notin> et_id ` set (ds_tickets calm_demo)" for i
    by (simp add: calm_demo_def dispatch_demo_def urgent_ticket_def)
  have ks: "set (ds_tickets calm_demo) = {urgent_ticket}" by (simp add: calm_demo_def dispatch_demo_def)
  show ?thesis
    using dispatch_sound [OF demo_ok(2) demo_leases inj fresh, of demo_env sel_options 5] demo_outcome ks by auto
qed

theorem dispatch_order_exact_witness:
  "mset (dispatch_order demo_env sel_options 5 calm_demo) = {#urgent_ticket#}"
  using conjunct1 [OF dispatch_order_exact [OF demo_ok(2), of demo_env sel_options 5]]
  by (simp add: calm_demo_def dispatch_demo_def sel_options_def dispatchable_def urgent_ticket_def stored_ticket_def ex_ticket_def)

definition demo_input :: create_ticket_input where
  "demo_input = \<lparr>ci_executionId = ''e1'', ci_priority = None, ci_queueName = None, ci_dispatchTarget = None,
       ci_requiredIsolationLevel = None, ci_requiredRepoVersion = None, ci_requiredCapabilities = None, ci_dispatchAfter = None\<rparr>"

theorem create_ticket_exact_witness:
  "\<exists>k s'. createTicket ''k1'' 7 demo_input dispatch_demo
     = (Inr (TO_created, k), s') \<and> dispatch_ok s'"
proof -
  have fresh: "''k1'' \<notin> et_id ` set (ds_tickets dispatch_demo)" by (simp add: dispatch_demo_def urgent_ticket_def)
  show ?thesis
    using create_ticket_exact [OF demo_ok(1) fresh, of 7 demo_input]
    by (auto simp: demo_input_def dispatch_demo_def lease_demo_def demo_execution_def demo_task_def getActiveExecutionTicket_def urgent_ticket_def)
qed

lemma demo_candidate: "\<exists>c. selectCandidate by_name urgent_ticket sel_options dispatch_demo = Some c"
  by (simp add: selectCandidate_def dispatch_demo_def registry_def listWorkers_def listWorkerSnapshots_def solo_worker_def busy_worker_def idle_worker_def
      view_simps isCompatibleFullWorker_def Let_def urgent_ticket_def stored_ticket_def ex_ticket_def sel_options_def eval_simps List.map_filter_def
      toCandidate_def lease_demo_def demo_execution_def demo_task_def getActiveExecutionLease_def getLatestExecutionLease_def first_lease_def second_lease_def
      listExecutionTicketsByExecution_def js_sort_def)

theorem preemption_safe_witness:
  "\<exists>s'. getActiveExecutionLease ''e1'' (st_leases (ds_core s')) = None
     \<and> snd (preemptForUrgentTicket by_name ''k3'' 200 sel_options urgent_ticket dispatch_demo) = s'"
proof -
  have fresh: "''k3'' \<notin> et_id ` set (ds_tickets dispatch_demo)" by (simp add: dispatch_demo_def urgent_ticket_def)
  have urgent: "isPreemptionTriggerTicket urgent_ticket" by (simp add: isPreemptionTriggerTicket_def urgent_ticket_def stored_ticket_def ex_ticket_def)
  obtain c where c: "selectCandidate by_name urgent_ticket sel_options dispatch_demo = Some c" using demo_candidate by blast
  obtain s' where s': "preemptForUrgentTicket by_name ''k3'' 200 sel_options urgent_ticket dispatch_demo
      = (Inr (buildTrace (et_priority urgent_ticket) (Some c) (Some ''k3'') ''priority_preemption_applied''), s')"
    by (rule preempt_run [OF demo_ok(1) urgent c fresh])
  have run: "sn_runningExecutions w = [''e1'']" if "w \<in> set (listWorkers (registry dispatch_demo))" for w
    using that by (simp add: dispatch_demo_def registry_def listWorkers_def listWorkerSnapshots_def toView_def solo_worker_def busy_worker_def)
  show ?thesis
    using preemption_safe [OF demo_ok(1) fresh s'] run s' by (auto simp: buildTrace_def)
qed

end
