(* ===== verification/Dispatch_Reconciliation.thy ===== *)
theory Dispatch_Reconciliation
  imports Dispatch_Safety
begin

text \<open>
  The reconciliation of tickets with executions and leases
  (\<^verbatim>\<open>src/src/platform/five-plane-execution/dispatcher/execution-dispatch-reconciliation-service.ts\<close>), over the store of the dispatch
  service: the paged scan, the repair of one issue and the repair of all. The page size is a natural number, and the scan may not return, since a page of no
  tickets does not advance it. Identifiers of replacement tickets are given by a function of the replaced ticket. Lists of identifiers that do
  not parse and the fallbacks for stores without a snapshot table do not occur.
\<close>

section \<open>Finding issues\<close>

definition DEFAULT_RECONCILIATION_PAGE_SIZE :: nat where "DEFAULT_RECONCILIATION_PAGE_SIZE = 100"
definition DEFAULT_CLOCK_SKEW_SAFETY_MARGIN_MS :: int where "DEFAULT_CLOCK_SKEW_SAFETY_MARGIN_MS = 5000"

datatype issue_type = Orphan_queue_claim | Terminal_execution_ticket
datatype resolution_action = Requeue_ticket | Invalidate_ticket
datatype issue_reason = Missing_active_lease | Lease_ticket_mismatch | Lease_expired_unreclaimed | Execution_terminal

record reconciliation_issue =
  ri_issueType :: issue_type
  ri_resolutionAction :: resolution_action
  ri_executionId :: ident
  ri_taskId :: ident
  ri_ticketId :: ident
  ri_reasonCode :: issue_reason
  ri_executionStatus :: string

record repair_result =
  rr_issue :: reconciliation_issue
  rr_applied :: bool
  rr_replacementTicketId :: "ident option"

definition isTerminalExecutionStatus :: "string \<Rightarrow> bool" where
  "isTerminalExecutionStatus status \<longleftrightarrow> status = ''succeeded'' \<or> status = ''failed'' \<or> status = ''cancelled'' \<or> status = ''superseded''"

definition clock_skew_margin :: "int option \<Rightarrow> int" where
  "clock_skew_margin configured = max 0 (coalesce configured DEFAULT_CLOCK_SKEW_SAFETY_MARGIN_MS)"

definition issue_for :: "execution_ticket \<Rightarrow> execution_row \<Rightarrow> issue_type \<Rightarrow> resolution_action \<Rightarrow> issue_reason \<Rightarrow> reconciliation_issue" where
  "issue_for k ex ty act reason = \<lparr>ri_issueType = ty, ri_resolutionAction = act, ri_executionId = et_executionId k, ri_taskId = ex_taskId ex,
     ri_ticketId = et_id k, ri_reasonCode = reason, ri_executionStatus = ex_status ex\<rparr>"

definition findIssueForTicket :: "int \<Rightarrow> timestamp \<Rightarrow> dispatch_store \<Rightarrow> execution_ticket \<Rightarrow> reconciliation_issue option" where
  "findIssueForTicket margin now s k =
     (case st_executions (ds_core s) (et_executionId k) of
        None \<Rightarrow> None
      | Some ex \<Rightarrow>
          if isTerminalExecutionStatus (ex_status ex) then Some (issue_for k ex Terminal_execution_ticket Invalidate_ticket Execution_terminal)
          else if et_status k \<noteq> ''claimed'' then None
          else (case getActiveExecutionLease (et_executionId k) (st_leases (ds_core s)) of
            None \<Rightarrow> Some (issue_for k ex Orphan_queue_claim Requeue_ticket Missing_active_lease)
          | Some l \<Rightarrow>
              if el_expiresAt l + margin < now then Some (issue_for k ex Orphan_queue_claim Requeue_ticket Lease_expired_unreclaimed)
              else if et_leaseId k \<noteq> Some (el_id l) \<or> et_assignedWorkerId k \<noteq> Some (el_workerId l)
              then Some (issue_for k ex Orphan_queue_claim Requeue_ticket Lease_ticket_mismatch)
              else None))"

definition listExecutionTicketsByStatuses :: "string list \<Rightarrow> execution_ticket list \<Rightarrow> execution_ticket list" where
  "listExecutionTicketsByStatuses statuses ks = sort_key et_createdAt (sort_key et_id (filter (\<lambda>k. et_status k \<in> set statuses) ks))"

partial_function (option) scan_pages ::
    "nat \<Rightarrow> (execution_ticket \<Rightarrow> reconciliation_issue option) \<Rightarrow> execution_ticket list \<Rightarrow> nat \<Rightarrow> reconciliation_issue list \<Rightarrow> reconciliation_issue list option" where
  "scan_pages pageSize issue tickets offset issues =
     (if offset < length tickets
      then scan_pages pageSize issue tickets (offset + pageSize) (issues @ List.map_filter issue (take pageSize (drop offset tickets)))
      else Some issues)"

declare scan_pages.simps [code]

definition scanPaginated :: "int \<Rightarrow> nat \<Rightarrow> timestamp \<Rightarrow> dispatch_store \<Rightarrow> reconciliation_issue list option" where
  "scanPaginated margin pageSize now s =
     scan_pages pageSize (findIssueForTicket margin now s) (listExecutionTicketsByStatuses [''pending'', ''claimed''] (ds_tickets s)) 0 []"

definition scan :: "int \<Rightarrow> timestamp \<Rightarrow> dispatch_store \<Rightarrow> reconciliation_issue list option" where
  "scan margin now s = scanPaginated margin DEFAULT_RECONCILIATION_PAGE_SIZE now s"

definition findIssueByTicketId :: "int \<Rightarrow> ident \<Rightarrow> timestamp \<Rightarrow> dispatch_store \<Rightarrow> reconciliation_issue option" where
  "findIssueByTicketId margin ticketId now s =
     (case getExecutionTicket ticketId (ds_tickets s) of
        None \<Rightarrow> None
      | Some k \<Rightarrow> if et_status k \<noteq> ''pending'' \<and> et_status k \<noteq> ''claimed'' then None else findIssueForTicket margin now s k)"

section \<open>Repairs\<close>

definition next_attempt_of_all :: "ident \<Rightarrow> int \<Rightarrow> execution_ticket list \<Rightarrow> int" where
  "next_attempt_of_all executionId fallbackAttempt ks =
     (case map et_attempt (filter (\<lambda>k. et_executionId k = executionId)
        (listExecutionTicketsByStatuses [''pending'', ''claimed'', ''consumed'', ''expired'', ''cancelled''] ks)) of
        [] \<Rightarrow> fallbackAttempt + 1 | n # ns \<Rightarrow> fold max ns n + 1)"

definition requeued_ticket :: "ident \<Rightarrow> timestamp \<Rightarrow> int \<Rightarrow> execution_ticket \<Rightarrow> execution_ticket" where
  "requeued_ticket ticketId occurredAt attempt k = k\<lparr>et_id := ticketId, et_attempt := attempt, et_status := ''pending'', et_assignedWorkerId := None,
     et_leaseId := None, et_claimedAt := None, et_consumedAt := None, et_invalidatedAt := None, et_createdAt := occurredAt, et_updatedAt := occurredAt\<rparr>"

definition createReplacementTicketRecord :: "ident \<Rightarrow> execution_ticket \<Rightarrow> timestamp \<Rightarrow> execution_ticket dispatch_prog" where
  "createReplacementTicketRecord ticketId k occurredAt =
     bindP (getsP (\<lambda>s. requeued_ticket ticketId occurredAt (next_attempt_of_all (et_executionId k) (et_attempt k) (ds_tickets s)) k)) (\<lambda>replacement.
     bindP (insertExecutionTicket replacement) (\<lambda>_. returnP replacement))"

definition releaseWorkerExecutionReference :: "execution_ticket \<Rightarrow> timestamp \<Rightarrow> unit dispatch_prog" where
  "releaseWorkerExecutionReference k occurredAt =
     (case et_assignedWorkerId k of
        None \<Rightarrow> returnP ()
      | Some w \<Rightarrow> callLease (refreshWorker w (clearing_input (et_executionId k) occurredAt) occurredAt))"

definition recordReconciledEvent :: "execution_ticket \<Rightarrow> ident option \<Rightarrow> unit dispatch_prog" where
  "recordReconciledEvent k replacementTicketId = insertDispatchEvent (Ticket_reconciled (et_id k) replacementTicketId)"

definition reason_text :: "issue_reason \<Rightarrow> string" where
  "reason_text r = (case r of Missing_active_lease \<Rightarrow> ''missing_active_lease'' | Lease_ticket_mismatch \<Rightarrow> ''lease_ticket_mismatch''
     | Lease_expired_unreclaimed \<Rightarrow> ''lease_expired_unreclaimed'' | Execution_terminal \<Rightarrow> ''execution_terminal'')"

definition invalidate :: "execution_ticket \<Rightarrow> string \<Rightarrow> timestamp \<Rightarrow> unit dispatch_prog" where
  "invalidate k status occurredAt = modifyP (\<lambda>s. s\<lparr>ds_tickets := invalidateExecutionTicket (et_id k) status occurredAt (ds_tickets s)\<rparr>)"

definition applyIssue :: "(ident \<Rightarrow> ident) \<Rightarrow> timestamp \<Rightarrow> reconciliation_issue \<Rightarrow> repair_result dispatch_prog" where
  "applyIssue newTicketId occurredAt issue =
     bindP (getsP (\<lambda>s. getExecutionTicket (ri_ticketId issue) (ds_tickets s))) (\<lambda>found.
     case found of
       None \<Rightarrow> returnP \<lparr>rr_issue = issue, rr_applied = False, rr_replacementTicketId = None\<rparr>
     | Some k \<Rightarrow>
         if ri_issueType issue = Terminal_execution_ticket then
           bindP (dispatch_transaction (bindP (invalidate k ''cancelled'' occurredAt) (\<lambda>_. recordReconciledEvent k None))) (\<lambda>_.
           returnP \<lparr>rr_issue = issue, rr_applied = True, rr_replacementTicketId = None\<rparr>)
         else
           bindP (dispatch_transaction (
             bindP (invalidate k ''expired'' occurredAt) (\<lambda>_.
             bindP (releaseWorkerExecutionReference k occurredAt) (\<lambda>_.
             bindP (createReplacementTicketRecord (newTicketId (et_id k)) k occurredAt) (\<lambda>replacement.
             bindP (recordReconciledEvent k (Some (et_id replacement))) (\<lambda>_.
             bindP (insertDispatchEvent (Ticket_requeued_for (et_id k) (et_id replacement) (reason_text (ri_reasonCode issue)))) (\<lambda>_.
             returnP replacement))))))) (\<lambda>replacement.
           returnP \<lparr>rr_issue = issue, rr_applied = True, rr_replacementTicketId = Some (et_id replacement)\<rparr>))"

text \<open>The scan with the default page size returns (\<open>scan_returns\<close> below), so that a repair starts from its issues.\<close>

definition repair :: "int \<Rightarrow> (ident \<Rightarrow> ident) \<Rightarrow> timestamp \<Rightarrow> (reconciliation_issue list \<times> repair_result list) option dispatch_prog" where
  "repair margin newTicketId now =
     bindP (getsP (scan margin now)) (\<lambda>found.
     case found of
       None \<Rightarrow> returnP None
     | Some issues \<Rightarrow> bindP (mapP (applyIssue newTicketId now) issues) (\<lambda>applied. returnP (Some (issues, applied))))"

definition repairTicket :: "int \<Rightarrow> (ident \<Rightarrow> ident) \<Rightarrow> ident \<Rightarrow> timestamp \<Rightarrow> repair_result option dispatch_prog" where
  "repairTicket margin newTicketId ticketId now =
     bindP (getsP (findIssueByTicketId margin ticketId now)) (\<lambda>found.
     case found of None \<Rightarrow> returnP None | Some issue \<Rightarrow> bindP (applyIssue newTicketId now issue) (\<lambda>r. returnP (Some r)))"

section \<open>The scan\<close>

lemma scan_pages_positive:
  assumes "0 < pageSize"
  shows "scan_pages pageSize issue tickets offset issues = Some (issues @ List.map_filter issue (drop offset tickets))"
proof (induction "length tickets - offset" arbitrary: offset issues rule: less_induct)
  case less
  show ?case
  proof (cases "offset < length tickets")
    case True
    have "drop offset tickets = take pageSize (drop offset tickets) @ drop (offset + pageSize) tickets"
      by (metis append_take_drop_id drop_drop add.commute)
    then have "List.map_filter issue (drop offset tickets)
        = List.map_filter issue (take pageSize (drop offset tickets)) @ List.map_filter issue (drop (offset + pageSize) tickets)"
      by (metis List.map_filter_def filter_append map_append)
    then show ?thesis
      using True assms less [of "offset + pageSize"] by (subst scan_pages.simps) simp
  next
    case False
    then show ?thesis by (subst scan_pages.simps) (simp add: List.map_filter_def)
  qed
qed

lemma scan_pages_zero: "scan_pages pageSize issue tickets offset issues = Some r \<Longrightarrow> pageSize = 0 \<longrightarrow> \<not> offset < length tickets"
proof (induction rule: scan_pages.raw_induct [rotated 1, consumes 1, case_names step])
  case (step f pageSize issue tickets offset issues r)
  show ?case
  proof (cases "offset < length tickets")
    case True
    then have "f pageSize issue tickets (offset + pageSize) (issues @ List.map_filter issue (take pageSize (drop offset tickets))) = Some r"
      using step(2) by simp
    from step(1) [OF this] show ?thesis by auto
  qed simp
qed

section \<open>Repairing one ticket\<close>

text \<open>Issues depend on executions and leases only, which repairs leave alone.\<close>

definition same_facts :: "dispatch_store \<Rightarrow> dispatch_store \<Rightarrow> bool" where
  "same_facts s s' \<longleftrightarrow> st_executions (ds_core s') = st_executions (ds_core s) \<and> st_leases (ds_core s') = st_leases (ds_core s)"

lemma findIssue_same: "same_facts s s' \<Longrightarrow> findIssueForTicket margin now s' = findIssueForTicket margin now s"
  by (rule ext) (simp add: same_facts_def findIssueForTicket_def cong: option.case_cong if_cong)

lemma issue_fields:
  assumes "findIssueForTicket margin now s k = Some i"
  shows "ri_ticketId i = et_id k"
    and "ri_issueType i = Orphan_queue_claim \<Longrightarrow> et_status k = ''claimed''
      \<and> (\<exists>ex. st_executions (ds_core s) (et_executionId k) = Some ex \<and> \<not> isTerminalExecutionStatus (ex_status ex))"
  using assms by (auto simp: findIssueForTicket_def issue_for_def split: option.splits if_splits)

lemma pending_no_issue:
  assumes "st_executions (ds_core s) (et_executionId k) = Some ex" and "\<not> isTerminalExecutionStatus (ex_status ex)" and "et_status k = ''pending''"
  shows "findIssueForTicket margin now s k = None"
  using assms by (simp add: findIssueForTicket_def)

lemma next_attempt_of_all_fresh:
  assumes "m \<in> set ks" and "active_ticket m \<or> et_status m = ''expired''" and "et_executionId m = e"
  shows "et_attempt m < next_attempt_of_all e fallback ks"
proof -
  let ?ns = "map et_attempt (filter (\<lambda>k. et_executionId k = e)
    (listExecutionTicketsByStatuses [''pending'', ''claimed'', ''consumed'', ''expired'', ''cancelled''] ks))"
  have k: "et_attempt m \<in> set ?ns" using assms by (auto simp: listExecutionTicketsByStatuses_def active_ticket_def)
  have upper: "x \<le> fold max ns n" if "x \<in> set (n # ns)" for x n :: int and ns
    using that Max.set_eq_fold [of n ns] Max_ge [of "set (n # ns)" x] by simp
  show ?thesis using k upper by (cases ?ns) (force simp: next_attempt_of_all_def)+
qed

text \<open>What the repair of one ticket does to the table.\<close>

definition replaces :: "ident \<Rightarrow> execution_ticket \<Rightarrow> execution_ticket \<Rightarrow> bool" where
  "replaces n k r \<longleftrightarrow> et_id r = n \<and> et_executionId r = et_executionId k \<and> et_status r = ''pending'' \<and> et_attempt k < et_attempt r"

definition repaired :: "ident \<Rightarrow> bool \<Rightarrow> execution_ticket \<Rightarrow> execution_ticket list \<Rightarrow> execution_ticket list \<Rightarrow> bool" where
  "repaired n requeue k ks ks' \<longleftrightarrow>
     (\<forall>m \<in> set ks. et_id m \<noteq> et_id k \<longrightarrow> m \<in> set ks')
     \<and> (\<forall>m \<in> set ks'. active_ticket m \<longrightarrow> m \<in> set ks \<and> et_id m \<noteq> et_id k \<or> requeue \<and> replaces n k m)
     \<and> et_id ` set ks' \<subseteq> insert n (et_id ` set ks)
     \<and> (requeue \<longrightarrow> (\<exists>r \<in> set ks'. replaces n k r))"

lemma invalidate_ids: "et_id ` set (invalidateExecutionTicket i st t ks) = et_id ` set ks"
  unfolding invalidateExecutionTicket_def update_ticket_def set_map image_image by (rule image_cong) auto

lemma invalidate_repaired:
  assumes "st \<noteq> ''pending''" "st \<noteq> ''claimed''"
  shows "repaired n False k ks (invalidateExecutionTicket (et_id k) st t ks)"
proof -
  show ?thesis
    using assms invalidate_ids [of "et_id k" st t ks] unfolding repaired_def
    by (auto simp: invalidateExecutionTicket_def update_ticket_def active_ticket_def split: if_splits)
qed

lemma apply_terminal:
  assumes ok: "dispatch_ok s" and k: "getExecutionTicket (ri_ticketId i) (ds_tickets s) = Some k" and i: "ri_issueType i = Terminal_execution_ticket"
  obtains s' where "applyIssue newTicketId now i s = (Inr \<lparr>rr_issue = i, rr_applied = True, rr_replacementTicketId = None\<rparr>, s')"
    and "dispatch_ok s'" and "same_facts s s'" and "repaired n False k (ds_tickets s) (ds_tickets s')"
proof -
  let ?s = "s\<lparr>ds_tickets := invalidateExecutionTicket (et_id k) ''cancelled'' now (ds_tickets s)\<rparr>"
  let ?t = "?s\<lparr>ds_events := ds_events s @ [Ticket_reconciled (et_id k) None]\<rparr>"
  have "applyIssue newTicketId now i s = (Inr \<lparr>rr_issue = i, rr_applied = True, rr_replacementTicketId = None\<rparr>, ?t)"
    using k i by (simp add: applyIssue_def prog_simps dispatch_transaction_def invalidate_def recordReconciledEvent_def insertDispatchEvent_def)
  moreover have "dispatch_ok ?t" using cancel_ok(1) [OF ok, of "''cancelled''" "et_id k" now] by (simp add: dispatch_ok_def registry_def)
  ultimately show ?thesis by (rule that) (simp_all add: same_facts_def invalidate_repaired)
qed

lemma apply_orphan:
  assumes ok: "dispatch_ok s" and k: "getExecutionTicket (ri_ticketId i) (ds_tickets s) = Some k" and i: "ri_issueType i = Orphan_queue_claim"
    and claimed: "et_status k = ''claimed''" and fresh: "newTicketId (et_id k) \<notin> et_id ` set (ds_tickets s)"
  obtains s' where "applyIssue newTicketId now i s = (Inr \<lparr>rr_issue = i, rr_applied = True, rr_replacementTicketId = Some (newTicketId (et_id k))\<rparr>, s')"
    and "dispatch_ok s'" and "same_facts s s'" and "repaired (newTicketId (et_id k)) True k (ds_tickets s) (ds_tickets s')"
proof -
  have tok: "tickets_ok (ds_tickets s)" and reg: "registry_ok (st_registry (ds_core s))" using ok by (simp_all add: dispatch_ok_def registry_def)
  have km: "k \<in> set (ds_tickets s)" using k by (simp add: getTicket_iff [OF tok])
  let ?n = "newTicketId (et_id k)"
  let ?ks = "invalidateExecutionTicket (et_id k) ''expired'' now (ds_tickets s)"
  let ?s = "s\<lparr>ds_tickets := ?ks\<rparr>"
  have ok1: "dispatch_ok ?s" using cancel_ok(1) [OF ok, of "''expired''"] by simp
  have rep1: "repaired ?n False k (ds_tickets s) ?ks" by (rule invalidate_repaired) simp_all
  obtain g where g: "releaseWorkerExecutionReference k now ?s = (Inr (), ?s\<lparr>ds_core := (ds_core s)\<lparr>st_registry := g\<rparr>\<rparr>)" "registry_ok g"
  proof (cases "et_assignedWorkerId k")
    case None
    then show ?thesis using that [of "st_registry (ds_core s)"] reg by (simp add: releaseWorkerExecutionReference_def prog_simps)
  next
    case (Some w)
    obtain g where "refreshWorker w (clearing_input (et_executionId k) now) now (ds_core s) = (Inr (), (ds_core s)\<lparr>st_registry := g\<rparr>)" "registry_ok g"
      using refreshWorker_result [OF reg, of "clearing_input (et_executionId k) now" w now] by auto
    then show ?thesis using that [of g] Some by (simp add: releaseWorkerExecutionReference_def callLease_def)
  qed
  let ?r = "requeued_ticket ?n now (next_attempt_of_all (et_executionId k) (et_attempt k) ?ks) k"
  have r: "et_id ?r = ?n" "et_executionId ?r = et_executionId k" "et_status ?r = ''pending''"
      "et_attempt ?r = next_attempt_of_all (et_executionId k) (et_attempt k) ?ks"
    by (simp_all add: requeued_ticket_def)
  have new: "?n \<notin> et_id ` set ?ks" using fresh by (simp add: invalidate_ids)
  have attempt: "et_attempt m \<noteq> et_attempt ?r" if "m \<in> set ?ks" "active_ticket m" "et_executionId m = et_executionId k" for m
    using next_attempt_of_all_fresh [of m ?ks "et_executionId k" "et_attempt k"] that r(4) by simp
  have "k\<lparr>et_status := ''expired'', et_invalidatedAt := Some now, et_updatedAt := now\<rparr> \<in> set ?ks"
    using km by (force simp: invalidateExecutionTicket_def update_ticket_def)
  from next_attempt_of_all_fresh [OF this, of "et_executionId k" "et_attempt k"] have later: "et_attempt k < et_attempt ?r" using r(4) by simp
  let ?s2 = "?s\<lparr>ds_core := (ds_core s)\<lparr>st_registry := g\<rparr>\<rparr>"
  have free: "insertExecutionTicket ?r ?s2 = (Inr (), ?s2\<lparr>ds_tickets := ?ks @ [stored_ticket ?r]\<rparr>)"
    using insert_ticket_run [of ?r ?s2] new attempt r(1,2) by simp
  let ?t = "?s\<lparr>ds_core := (ds_core s)\<lparr>st_registry := g\<rparr>, ds_tickets := ?ks @ [stored_ticket ?r],
    ds_events := ds_events s @ [Ticket_reconciled (et_id k) (Some ?n), Ticket_requeued_for (et_id k) ?n (reason_text (ri_reasonCode i))]\<rparr>"
  have "applyIssue newTicketId now i s = (Inr \<lparr>rr_issue = i, rr_applied = True, rr_replacementTicketId = Some ?n\<rparr>, ?t)"
    using k i g(1) free r(1)
    by (simp add: applyIssue_def prog_simps dispatch_transaction_def invalidate_def createReplacementTicketRecord_def
        recordReconciledEvent_def insertDispatchEvent_def)
  moreover have "tickets_ok (?ks @ [stored_ticket ?r])"
    using ok1 new attempt r by (intro tickets_ok_append) (auto simp: dispatch_ok_def)
  then have "dispatch_ok ?t" using ok1 ok km g(2) r by (auto simp: dispatch_ok_def registry_def)
  moreover have "repaired ?n True k (ds_tickets s) (ds_tickets ?t)"
    using rep1 r later by (auto simp: repaired_def replaces_def)
  ultimately show ?thesis by (intro that [of ?t]) (simp_all add: same_facts_def)
qed

lemma apply_result:
  assumes ok: "dispatch_ok s" and k: "k \<in> set (ds_tickets s)" and i: "findIssueForTicket margin now s k = Some i"
    and fresh: "newTicketId (et_id k) \<notin> et_id ` set (ds_tickets s)"
  obtains r s' where "applyIssue newTicketId now i s = (Inr r, s')" and "rr_issue r = i" and "rr_applied r" and "dispatch_ok s'" and "same_facts s s'"
    and "repaired (newTicketId (et_id k)) (ri_issueType i = Orphan_queue_claim) k (ds_tickets s) (ds_tickets s')"
proof -
  have look: "getExecutionTicket (ri_ticketId i) (ds_tickets s) = Some k"
    using ok k issue_fields(1) [OF i] by (simp add: dispatch_ok_def getTicket_iff)
  show ?thesis
  proof (cases "ri_issueType i")
    case Orphan_queue_claim
    then have "et_status k = ''claimed''" using issue_fields(2) [OF i] by blast
    then obtain s' where "applyIssue newTicketId now i s = (Inr \<lparr>rr_issue = i, rr_applied = True, rr_replacementTicketId = Some (newTicketId (et_id k))\<rparr>, s')"
        "dispatch_ok s'" "same_facts s s'" "repaired (newTicketId (et_id k)) True k (ds_tickets s) (ds_tickets s')"
      using apply_orphan [where newTicketId = newTicketId, OF ok look Orphan_queue_claim _ fresh] by metis
    then show ?thesis using Orphan_queue_claim by (intro that) auto
  next
    case Terminal_execution_ticket
    then obtain s' where "applyIssue newTicketId now i s = (Inr \<lparr>rr_issue = i, rr_applied = True, rr_replacementTicketId = None\<rparr>, s')"
        "dispatch_ok s'" "same_facts s s'" "repaired (newTicketId (et_id k)) False k (ds_tickets s) (ds_tickets s')"
      using apply_terminal [OF ok look] by metis
    then show ?thesis using Terminal_execution_ticket by (intro that) auto
  qed
qed

section \<open>Repairing all tickets\<close>

lemma same_facts_trans: "same_facts s t \<Longrightarrow> same_facts t u \<Longrightarrow> same_facts s u"
  by (simp add: same_facts_def)

lemma replacement_no_issue:
  assumes "findIssueForTicket margin now s k = Some i" and "ri_issueType i = Orphan_queue_claim" and "replaces n k r"
  shows "findIssueForTicket margin now s r = None"
  using issue_fields(2) [OF assms(1,2)] assms(3) by (auto simp: replaces_def intro: pending_no_issue)

lemma repair_all:
  fixes margin :: int and now :: timestamp and s0 :: dispatch_store
  defines "I \<equiv> findIssueForTicket margin now s0"
  assumes "dispatch_ok s" and "same_facts s0 s" and "set ks \<subseteq> {k \<in> set (ds_tickets s). I k \<noteq> None}" and "distinct (map et_id ks)"
    and "\<And>k. k \<in> set ks \<Longrightarrow> newTicketId (et_id k) \<notin> et_id ` set (ds_tickets s)" and inj: "inj newTicketId"
  shows "\<exists>rs s'. mapP (applyIssue newTicketId now) (map (\<lambda>k. the (I k)) ks) s = (Inr rs, s') \<and> dispatch_ok s' \<and> same_facts s0 s'
    \<and> map rr_issue rs = map (\<lambda>k. the (I k)) ks \<and> list_all rr_applied rs
    \<and> (\<forall>m \<in> set (ds_tickets s). et_id m \<notin> et_id ` set ks \<longrightarrow> m \<in> set (ds_tickets s'))
    \<and> (\<forall>m \<in> set (ds_tickets s'). active_ticket m \<longrightarrow> m \<in> set (ds_tickets s) \<and> et_id m \<notin> et_id ` set ks \<or> I m = None)
    \<and> (\<forall>k \<in> set ks. ri_issueType (the (I k)) = Orphan_queue_claim \<longrightarrow> (\<exists>r \<in> set (ds_tickets s'). replaces (newTicketId (et_id k)) k r))"
  using assms(2-6)
proof (induction ks arbitrary: s)
  case Nil
  then show ?case by (simp add: prog_simps)
next
  case (Cons k ks)
  obtain i where i: "I k = Some i" and k: "k \<in> set (ds_tickets s)" using Cons.prems(3) by auto
  have fresh: "newTicketId (et_id k) \<notin> et_id ` set (ds_tickets s)" by (rule Cons.prems(5)) simp
  have "findIssueForTicket margin now s k = Some i" using i findIssue_same [OF Cons.prems(2)] by (simp add: I_def)
  then obtain r s1 where r: "applyIssue newTicketId now i s = (Inr r, s1)" "rr_issue r = i" "rr_applied r" "dispatch_ok s1" "same_facts s s1"
      "repaired (newTicketId (et_id k)) (ri_issueType i = Orphan_queue_claim) k (ds_tickets s) (ds_tickets s1)"
    by (rule apply_result [where newTicketId = newTicketId, OF Cons.prems(1) k _ fresh])
  note rep = r(6) [unfolded repaired_def]
  have other: "et_id m \<noteq> et_id k" if "m \<in> set ks" for m using that Cons.prems(4) by (auto simp: image_iff)
  have ks1: "set ks \<subseteq> {k \<in> set (ds_tickets s1). I k \<noteq> None}" using Cons.prems(3) rep other by auto
  have fresh1: "newTicketId (et_id m) \<notin> et_id ` set (ds_tickets s1)" if "m \<in> set ks" for m
  proof -
    have "newTicketId (et_id m) \<noteq> newTicketId (et_id k)" using other [OF that] inj by (simp add: inj_eq)
    then show ?thesis using rep Cons.prems(5) [of m] that by auto
  qed
  obtain rs s' where rs: "mapP (applyIssue newTicketId now) (map (\<lambda>k. the (I k)) ks) s1 = (Inr rs, s')" "dispatch_ok s'" "same_facts s0 s'"
      "map rr_issue rs = map (\<lambda>k. the (I k)) ks" "list_all rr_applied rs"
    and keep: "\<And>m. m \<in> set (ds_tickets s1) \<Longrightarrow> et_id m \<notin> et_id ` set ks \<Longrightarrow> m \<in> set (ds_tickets s')"
    and clean: "\<And>m. m \<in> set (ds_tickets s') \<Longrightarrow> active_ticket m \<Longrightarrow> m \<in> set (ds_tickets s1) \<and> et_id m \<notin> et_id ` set ks \<or> I m = None"
    and requeued: "\<And>m. m \<in> set ks \<Longrightarrow> ri_issueType (the (I m)) = Orphan_queue_claim \<Longrightarrow> \<exists>r \<in> set (ds_tickets s'). replaces (newTicketId (et_id m)) m r"
    using Cons.IH [OF r(4) same_facts_trans [OF Cons.prems(2) r(5)] ks1 _ fresh1] Cons.prems(4) by auto
  have run: "mapP (applyIssue newTicketId now) (map (\<lambda>k. the (I k)) (k # ks)) s = (Inr (r # rs), s')"
    using r(1) rs(1) i by (simp add: prog_simps)
  have c1: "m \<in> set (ds_tickets s')" if "m \<in> set (ds_tickets s)" "et_id m \<notin> et_id ` set (k # ks)" for m
    using that rep keep [of m] by auto
  have c2: "m \<in> set (ds_tickets s) \<and> et_id m \<notin> et_id ` set (k # ks) \<or> I m = None" if "m \<in> set (ds_tickets s')" "active_ticket m" for m
  proof (cases "I m = None")
    case False
    then have m: "m \<in> set (ds_tickets s1)" "et_id m \<notin> et_id ` set ks" using clean [OF that] by auto
    have "\<not> (ri_issueType i = Orphan_queue_claim \<and> replaces (newTicketId (et_id k)) k m)"
      using False replacement_no_issue [of margin now s0 k i "newTicketId (et_id k)" m] i by (auto simp: I_def)
    then show ?thesis using rep m that(2) by auto
  qed simp
  have c3: "\<exists>r \<in> set (ds_tickets s'). replaces (newTicketId (et_id k)) k r" if orphan: "ri_issueType i = Orphan_queue_claim"
  proof -
    obtain r where r: "r \<in> set (ds_tickets s1)" "replaces (newTicketId (et_id k)) k r" using rep orphan by blast
    then have "et_id r \<notin> et_id ` set (ds_tickets s)" using fresh by (simp add: replaces_def)
    moreover have "et_id ` set ks \<subseteq> et_id ` set (ds_tickets s)" using Cons.prems(3) by auto
    ultimately show ?thesis using keep r by blast
  qed
  have c4: "\<exists>r \<in> set (ds_tickets s'). replaces (newTicketId (et_id m)) m r"
    if "m \<in> set (k # ks)" "ri_issueType (the (I m)) = Orphan_queue_claim" for m
    using that c3 i requeued by (cases "m = k") auto
  have all: "map rr_issue (r # rs) = map (\<lambda>k. the (I k)) (k # ks)" "list_all rr_applied (r # rs)" using rs(4,5) r(2,3) i by simp_all
  show ?case
    by (intro exI [of _ "r # rs"] exI [of _ s'] conjI ballI impI) (rule run rs(2,3) all c1 c2 c4; assumption)+
qed

lemma listed_active: "set (listExecutionTicketsByStatuses [''pending'', ''claimed''] ks) = {k \<in> set ks. active_ticket k}"
  by (auto simp: listExecutionTicketsByStatuses_def active_ticket_def)

lemma scanPaginated_eq:
  "scanPaginated margin pageSize now s =
     (let ks = listExecutionTicketsByStatuses [''pending'', ''claimed''] (ds_tickets s)
      in if pageSize = 0 \<and> ks \<noteq> [] then None else Some (List.map_filter (findIssueForTicket margin now s) ks))"
proof -
  let ?ks = "listExecutionTicketsByStatuses [''pending'', ''claimed''] (ds_tickets s)"
  consider "0 < pageSize" | "pageSize = 0" "?ks = []" | "pageSize = 0" "?ks \<noteq> []" by blast
  then show ?thesis
  proof cases
    case 1
    then show ?thesis by (simp add: scanPaginated_def scan_pages_positive)
  next
    case 2
    then show ?thesis by (simp add: scanPaginated_def) (subst scan_pages.simps, simp add: List.map_filter_def)
  next
    case 3
    then have "scan_pages pageSize (findIssueForTicket margin now s) ?ks 0 [] = None"
      using scan_pages_zero [of pageSize "findIssueForTicket margin now s" ?ks 0 "[]"] by (cases "scan_pages pageSize (findIssueForTicket margin now s) ?ks 0 []") auto
    with 3 show ?thesis by (simp add: scanPaginated_def)
  qed
qed

lemma map_filter_the: "List.map_filter f xs = map (\<lambda>x. the (f x)) (filter (\<lambda>x. f x \<noteq> None) xs)"
  by (simp add: List.map_filter_def comp_def)

section \<open>Properties\<close>

text \<open>
  C35. The paged scan returns exactly when a page holds at least one ticket or there is nothing to scan, and then finds the issue of every active
  ticket, in order of creation, whatever the page size. A page size of zero never ends on a non-empty table.
\<close>

theorem scan_terminates:
  "scanPaginated margin pageSize now s =
     (let ks = listExecutionTicketsByStatuses [''pending'', ''claimed''] (ds_tickets s)
      in if pageSize = 0 \<and> ks \<noteq> [] then None else Some (List.map_filter (findIssueForTicket margin now s) ks))"
  by (rule scanPaginated_eq)

text \<open>
  C24. Reconciliation converges in one round. On a well-formed store with unused identifiers for replacements, a repair never fails and
  applies every issue it found; the store stays well-formed, executions and leases are untouched, and a scan at the same time finds
  nothing more. Then every claimed ticket is backed: its execution has an active lease with the identifier and the worker that the ticket names, and
  that lease is not over by more than the safety margin. Every orphaned claim has been replaced by a pending ticket of the same execution under
  a higher attempt, and tickets without an issue are still there.
\<close>

theorem repair_converges:
  assumes ok: "dispatch_ok s" and fresh: "inj newTicketId" "\<And>i. newTicketId i \<notin> et_id ` set (ds_tickets s)"
  shows "\<exists>issues applied s'. repair margin newTicketId now s = (Inr (Some (issues, applied)), s') \<and> map rr_issue applied = issues \<and> list_all rr_applied applied
    \<and> dispatch_ok s' \<and> same_facts s s' \<and> scan margin now s' = Some []
    \<and> (\<forall>k \<in> set (ds_tickets s'). et_status k = ''claimed'' \<longrightarrow>
         (\<exists>l. getActiveExecutionLease (et_executionId k) (st_leases (ds_core s')) = Some l \<and> et_leaseId k = Some (el_id l)
            \<and> et_assignedWorkerId k = Some (el_workerId l) \<and> now \<le> el_expiresAt l + margin))
    \<and> (\<forall>k \<in> set (ds_tickets s). active_ticket k \<longrightarrow> (case findIssueForTicket margin now s k of
         None \<Rightarrow> k \<in> set (ds_tickets s')
       | Some i \<Rightarrow> ri_issueType i = Orphan_queue_claim \<longrightarrow> (\<exists>r \<in> set (ds_tickets s'). replaces (newTicketId (et_id k)) k r)))"
proof -
  let ?I = "findIssueForTicket margin now s"
  let ?all = "listExecutionTicketsByStatuses [''pending'', ''claimed''] (ds_tickets s)"
  let ?ks = "filter (\<lambda>k. ?I k \<noteq> None) ?all"
  have ids: "distinct (map et_id (ds_tickets s))" using ok by (simp add: dispatch_ok_def tickets_ok_def)
  then have "distinct (map et_id (filter (\<lambda>k. et_status k \<in> {''pending'', ''claimed''}) (ds_tickets s)))" by (rule distinct_map_filter)
  then have "distinct (map et_id ?all)"
    by (simp add: listExecutionTicketsByStatuses_def distinct_map)
  then have dist: "distinct (map et_id ?ks)" by (rule distinct_map_filter)
  have sub: "set ?ks \<subseteq> {k \<in> set (ds_tickets s). ?I k \<noteq> None}" using listed_active by auto
  obtain rs s' where rs: "mapP (applyIssue newTicketId now) (map (\<lambda>k. the (?I k)) ?ks) s = (Inr rs, s')" "dispatch_ok s'" "same_facts s s'"
      "map rr_issue rs = map (\<lambda>k. the (?I k)) ?ks" "list_all rr_applied rs"
    and keep: "\<forall>m \<in> set (ds_tickets s). et_id m \<notin> et_id ` set ?ks \<longrightarrow> m \<in> set (ds_tickets s')"
    and clean: "\<forall>m \<in> set (ds_tickets s'). active_ticket m \<longrightarrow> m \<in> set (ds_tickets s) \<and> et_id m \<notin> et_id ` set ?ks \<or> ?I m = None"
    and requeued: "\<forall>k \<in> set ?ks. ri_issueType (the (?I k)) = Orphan_queue_claim \<longrightarrow> (\<exists>r \<in> set (ds_tickets s'). replaces (newTicketId (et_id k)) k r)"
    using repair_all [OF ok _ sub dist fresh(2,1)] by (force simp: same_facts_def)
  have none: "?I m = None" if "m \<in> set (ds_tickets s')" "active_ticket m" for m
    using clean that listed_active [of "ds_tickets s"] by (cases "?I m") (force simp: image_iff)+
  have I': "findIssueForTicket margin now s' = ?I" by (rule findIssue_same [OF rs(3)])
  have "scan margin now s = Some (map (\<lambda>k. the (?I k)) ?ks)" "scan margin now s' = Some []"
    using none listed_active [of "ds_tickets s'"]
    by (simp_all add: scan_def scanPaginated_eq Let_def DEFAULT_RECONCILIATION_PAGE_SIZE_def map_filter_the I' filter_empty_conv)
  moreover from this have "repair margin newTicketId now s = (Inr (Some (map (\<lambda>k. the (?I k)) ?ks, rs)), s')"
    using rs(1) by (simp add: repair_def prog_simps)
  moreover have "\<exists>l. getActiveExecutionLease (et_executionId k) (st_leases (ds_core s')) = Some l \<and> et_leaseId k = Some (el_id l)
      \<and> et_assignedWorkerId k = Some (el_workerId l) \<and> now \<le> el_expiresAt l + margin" if k: "k \<in> set (ds_tickets s')" "et_status k = ''claimed''" for k
  proof -
    have "findIssueForTicket margin now s' k = None" using none k I' by (simp add: active_ticket_def)
    moreover have "et_executionId k \<in> dom (st_executions (ds_core s'))" using rs(2) k(1) by (simp add: dispatch_ok_def)
    ultimately show ?thesis using k(2) by (auto simp: findIssueForTicket_def split: option.splits if_splits)
  qed
  moreover have "case ?I k of None \<Rightarrow> k \<in> set (ds_tickets s')
      | Some i \<Rightarrow> ri_issueType i = Orphan_queue_claim \<longrightarrow> (\<exists>r \<in> set (ds_tickets s'). replaces (newTicketId (et_id k)) k r)"
    if k: "k \<in> set (ds_tickets s)" "active_ticket k" for k
  proof (cases "?I k")
    case None
    have "et_id k \<notin> et_id ` set ?ks"
    proof
      assume "et_id k \<in> et_id ` set ?ks"
      then obtain m where "m \<in> set (ds_tickets s)" "et_id m = et_id k" "?I m \<noteq> None" using sub by force
      with ids k(1) None show False by (metis distinct_map inj_onD)
    qed
    with keep k(1) None show ?thesis by simp
  next
    case (Some i)
    then have "k \<in> set ?ks" using k listed_active [of "ds_tickets s"] by auto
    with requeued Some show ?thesis by fastforce
  qed
  ultimately show ?thesis using rs(2-5) by blast
qed

text \<open>A claimed ticket whose execution has no lease.\<close>

definition orphan_ticket :: execution_ticket where
  "orphan_ticket = claimed_ticket urgent_ticket ''w1'' ''l7'' 3"

definition orphan_demo :: dispatch_store where
  "orphan_demo = calm_demo\<lparr>ds_tickets := [orphan_ticket]\<rparr>"

theorem repair_converges_witness:
  "\<exists>issues applied s'. repair 5000 (\<lambda>i. ''new'' @ i) 100 orphan_demo = (Inr (Some (issues, applied)), s') \<and> scan 5000 100 s' = Some []
     \<and> (\<exists>r \<in> set (ds_tickets s'). replaces ''newk2'' orphan_ticket r)"
proof -
  have "stored_ticket urgent_ticket = urgent_ticket" by (simp add: urgent_ticket_def)
  then have "tickets_ok [orphan_ticket]" by (simp add: tickets_ok_def orphan_ticket_def stored_updates)
  moreover have k: "et_id orphan_ticket = ''k2''" "et_executionId orphan_ticket = ''e2''" "et_status orphan_ticket = ''claimed''"
    by (simp_all add: orphan_ticket_def claimed_ticket_def urgent_ticket_def)
  ultimately have ok: "dispatch_ok orphan_demo"
    using demo_ok(2) by (auto simp: dispatch_ok_def orphan_demo_def registry_def calm_demo_def dispatch_demo_def)
  have inj: "inj (\<lambda>i::ident. ''new'' @ i)" by (simp add: inj_def)
  have fresh: "(\<lambda>i::ident. ''new'' @ i) i \<notin> et_id ` set (ds_tickets orphan_demo)" for i
    using k by (simp add: orphan_demo_def)
  have "\<exists>i. findIssueForTicket 5000 100 orphan_demo orphan_ticket = Some i \<and> ri_issueType i = Orphan_queue_claim"
    using k by (simp add: findIssueForTicket_def orphan_demo_def calm_demo_def dispatch_demo_def lease_demo_def demo_execution_def demo_task_def issue_for_def
        isTerminalExecutionStatus_def getActiveExecutionLease_def first_lease_def second_lease_def)
  moreover have "orphan_ticket \<in> set (ds_tickets orphan_demo)" "active_ticket orphan_ticket" using k by (simp_all add: orphan_demo_def active_ticket_def)
  ultimately show ?thesis
    using repair_converges [OF ok inj fresh, of 5000 100] k by fastforce
qed

end
