(* ===== verification/Transition_Service.thy ===== *)
theory Transition_Service
  imports Dispatch_Safety
begin

text \<open>
  The transition service (\<^verbatim>\<open>src/src/platform/five-plane-execution/state-transition/transition-service.ts\<close>, its model and
  \<^verbatim>\<open>state-transition-machine.ts\<close>) over the compare-and-set updates of the repositories for tasks, workflow states, sessions, executions and
  approvals.

  The store adds to the one of the dispatcher the sessions and approvals in insertion order, the events of the services with the outbox, the
  heartbeat samples and the remote logs. Statuses are the strings of the columns. An insert of an event checks that its task and its execution
  exist, as \<^verbatim>\<open>insertEvent\<close> does. Of a status event the payload that the code derives from the command is kept, without trace spans, idempotency
  key and metadata; the acknowledgements that the event registry asks for, the audit records and the session summaries are left out, as is the
  wall-clock time stamp of the event row. The decorators of the repository (retry on a busy database, logging) do not change what it does.
\<close>

section \<open>The transition tables\<close>

type_synonym status_table = "(string \<times> string list) list"

definition TASK_TRANSITIONS :: status_table where
  "TASK_TRANSITIONS =
    [(''queued'', [''pending'', ''in_progress'', ''cancelled'']),
     (''pending'', [''in_progress'', ''cancelled'']),
     (''in_progress'', [''awaiting_decision'', ''done'', ''failed'', ''cancelled'']),
     (''awaiting_decision'', [''in_progress'', ''failed'', ''cancelled'']),
     (''done'', []), (''failed'', []), (''cancelled'', [])]"

definition WORKFLOW_TRANSITIONS :: status_table where
  "WORKFLOW_TRANSITIONS =
    [(''created'', [''running'', ''failed'', ''cancelled'']),
     (''running'', [''paused'', ''completed'', ''failed'', ''cancelling'', ''cancelled'']),
     (''paused'', [''resuming'', ''failed'', ''cancelled'']),
     (''resuming'', [''running'', ''failed'', ''cancelled'']),
     (''completed'', []), (''failed'', []), (''cancelling'', [''cancelled'']), (''cancelled'', [])]"

definition SESSION_TRANSITIONS :: status_table where
  "SESSION_TRANSITIONS =
    [(''open'', [''streaming'', ''awaiting_user'', ''completed'', ''failed'', ''cancelled'']),
     (''streaming'', [''awaiting_user'', ''completed'', ''failed'', ''cancelled'', ''open'']),
     (''awaiting_user'', [''streaming'', ''completed'', ''failed'', ''cancelled'']),
     (''paused'', [''streaming'', ''completed'', ''failed'', ''cancelled'', ''open'']),
     (''completed'', []), (''failed'', []), (''cancelled'', [])]"

definition EXECUTION_TRANSITIONS :: status_table where
  "EXECUTION_TRANSITIONS =
    [(''created'', [''prechecking'', ''executing'', ''cancelled'', ''failed'']),
     (''prechecking'', [''executing'', ''blocked'', ''cancelled'', ''failed'']),
     (''ready'', [''queued'', ''cancelled'', ''failed'']),
     (''queued'', [''dispatching'', ''cancelled'', ''failed'']),
     (''dispatching'', [''executing'', ''cancelled'', ''failed'']),
     (''executing'', [''blocked'', ''succeeded'', ''failed'', ''cancelled'']),
     (''blocked'', [''prechecking'', ''executing'', ''cancelled'', ''failed'', ''superseded'']),
     (''paused'', [''resuming'', ''executing'', ''cancelled'', ''failed'']),
     (''resuming'', [''executing'', ''cancelled'', ''failed'']),
     (''recovering'', [''executing'', ''cancelled'', ''failed'', ''timed_out'']),
     (''timed_out'', [''executing'', ''cancelled'', ''failed'']),
     (''succeeded'', []), (''failed'', []), (''cancelled'', []), (''superseded'', [])]"

definition APPROVAL_TRANSITIONS :: status_table where
  "APPROVAL_TRANSITIONS =
    [(''requested'', [''approved'', ''rejected'', ''expired'', ''cancelled'']),
     (''approved'', []), (''rejected'', []), (''expired'', []), (''cancelled'', [])]"

definition successors :: "status_table \<Rightarrow> string \<Rightarrow> string list" where
  "successors tab s = coalesce (map_of tab s) []"

section \<open>The store\<close>

record session_row =
  se_id :: ident
  se_taskId :: ident
  se_status :: string
  se_createdAt :: timestamp
  se_updatedAt :: timestamp

record blocked_approval =
  ba_sourceAgentId :: ident
  ba_reason :: string
  ba_riskLevel :: string
  ba_options :: "string list"
  ba_timeoutPolicy :: string

record approval_row =
  ap_id :: ident
  ap_taskId :: ident
  ap_executionId :: "ident option"
  ap_status :: string
  ap_request :: blocked_approval
  ap_responseJson :: "string option"
  ap_createdAt :: timestamp
  ap_respondedAt :: "timestamp option"

record transition_context =
  tc_reasonCode :: string
  tc_traceId :: ident
  tc_actorType :: string
  tc_actorId :: "ident option"
  tc_occurredAt :: timestamp

record status_event =
  sv_eventType :: string
  sv_taskId :: "ident option"
  sv_sessionId :: "ident option"
  sv_executionId :: "ident option"
  sv_fromStatus :: string
  sv_toStatus :: string
  sv_context :: transition_context

datatype worker_event_kind =
    Claim_accepted | Claim_rejected | Heartbeat_recorded | Heartbeat_rejected
  | Writeback_recorded | Writeback_rejected | Lease_released_after_writeback

datatype lifecycle_event =
    Status_changed status_event
  | Decision_requested ident ident approval_row timestamp
  | Worker_reported worker_event_kind ident ident ident ident "string option" timestamp

record outbox_row =
  ob_aggregateType :: string
  ob_aggregateId :: "ident option"
  ob_event :: status_event

record heartbeat_sample =
  hs_executionId :: ident
  hs_agentId :: ident
  hs_runtimeInstanceId :: "ident option"
  hs_restartGeneration :: int
  hs_status :: string
  hs_progressMessage :: "string option"
  hs_cpuPct :: "rat option"
  hs_memoryMb :: "rat option"
  hs_sampledAt :: timestamp

record remote_log =
  rl_taskId :: ident
  rl_executionId :: ident
  rl_workerId :: ident
  rl_runtimeInstanceId :: "ident option"
  rl_level :: string
  rl_message :: string
  rl_createdAt :: timestamp

record lifecycle_store =
  lc_dispatch :: dispatch_store
  lc_sessions :: "session_row list"
  lc_approvals :: "approval_row list"
  lc_events :: "lifecycle_event list"
  lc_outbox :: "outbox_row list"
  lc_heartbeats :: "heartbeat_sample list"
  lc_remoteLogs :: "remote_log list"

datatype lifecycle_error =
    Invalid_transition string string string
  | Transition_cas_failed string ident string string
  | Workflow_not_found ident
  | Workflow_status_mismatch ident string string
  | Event_reference_missing string
  | Approval_exists ident
  | Dispatch_failure dispatch_error

type_synonym 'a lifecycle_prog = "(lifecycle_store, lifecycle_error, 'a) prog"

definition callDispatch :: "'a dispatch_prog \<Rightarrow> 'a lifecycle_prog" where
  "callDispatch m = (\<lambda>s. case m (lc_dispatch s) of
     (Inl e, d) \<Rightarrow> (Inl (Dispatch_failure e), s\<lparr>lc_dispatch := d\<rparr>) | (Inr x, d) \<Rightarrow> (Inr x, s\<lparr>lc_dispatch := d\<rparr>))"

definition lifecycle_transaction :: "'a lifecycle_prog \<Rightarrow> 'a lifecycle_prog" where
  "lifecycle_transaction work = (\<lambda>s. case work s of (Inl e, _) \<Rightarrow> (Inl e, s) | (Inr r, s') \<Rightarrow> (Inr r, s'))"

text \<open>The rows of the tables that the dispatcher shares.\<close>

abbreviation task_of :: "lifecycle_store \<Rightarrow> ident \<Rightarrow> task_row option" where
  "task_of s \<equiv> ds_tasks (lc_dispatch s)"

abbreviation workflow_of :: "lifecycle_store \<Rightarrow> ident \<Rightarrow> workflow_row option" where
  "workflow_of s \<equiv> ds_workflows (lc_dispatch s)"

abbreviation execution_of :: "lifecycle_store \<Rightarrow> ident \<Rightarrow> execution_row option" where
  "execution_of s \<equiv> st_executions (ds_core (lc_dispatch s))"

definition session_of :: "lifecycle_store \<Rightarrow> ident \<Rightarrow> session_row option" where
  "session_of s sessionId = find (\<lambda>r. se_id r = sessionId) (lc_sessions s)"

definition approval_of :: "lifecycle_store \<Rightarrow> ident \<Rightarrow> approval_row option" where
  "approval_of s approvalId = find (\<lambda>r. ap_id r = approvalId) (lc_approvals s)"

definition put_task :: "ident \<Rightarrow> task_row \<Rightarrow> lifecycle_store \<Rightarrow> lifecycle_store" where
  "put_task i r s = s\<lparr>lc_dispatch := (lc_dispatch s)\<lparr>ds_tasks := (task_of s)(i \<mapsto> r)\<rparr>\<rparr>"

definition put_workflow :: "ident \<Rightarrow> workflow_row \<Rightarrow> lifecycle_store \<Rightarrow> lifecycle_store" where
  "put_workflow i r s = s\<lparr>lc_dispatch := (lc_dispatch s)\<lparr>ds_workflows := (workflow_of s)(i \<mapsto> r)\<rparr>\<rparr>"

definition put_execution :: "ident \<Rightarrow> execution_row \<Rightarrow> lifecycle_store \<Rightarrow> lifecycle_store" where
  "put_execution i r s = s\<lparr>lc_dispatch := (lc_dispatch s)\<lparr>ds_core := (ds_core (lc_dispatch s))\<lparr>st_executions := (execution_of s)(i \<mapsto> r)\<rparr>\<rparr>\<rparr>"

section \<open>The repositories\<close>

text \<open>A compare-and-set returns the number of rows that it changed.\<close>

definition updateTaskStatusCas ::
    "ident \<Rightarrow> string \<Rightarrow> string \<Rightarrow> timestamp \<Rightarrow> string option \<Rightarrow> timestamp option \<Rightarrow> nat lifecycle_prog" where
  "updateTaskStatusCas taskId expectedStatus status updatedAt errorCode completedAt =
     bindP (getsP (\<lambda>s. task_of s taskId)) (\<lambda>row.
     case row of
       None \<Rightarrow> returnP 0
     | Some r \<Rightarrow> if tk_status r \<noteq> expectedStatus then returnP 0
                 else bindP (modifyP (put_task taskId (r\<lparr>tk_status := status, tk_updatedAt := updatedAt, tk_errorCode := errorCode,
                        tk_completedAt := completedAt\<rparr>))) (\<lambda>_. returnP 1))"

definition updateTaskOutput :: "ident \<Rightarrow> string option \<Rightarrow> timestamp \<Rightarrow> unit lifecycle_prog" where
  "updateTaskOutput taskId outputJson updatedAt =
     modifyP (\<lambda>s. case task_of s taskId of None \<Rightarrow> s | Some r \<Rightarrow> put_task taskId (r\<lparr>tk_outputJson := outputJson, tk_updatedAt := updatedAt\<rparr>) s)"

definition updateWorkflowStateCas ::
    "ident \<Rightarrow> int \<Rightarrow> string \<Rightarrow> string \<Rightarrow> int \<Rightarrow> string \<Rightarrow> timestamp \<Rightarrow> ident option \<Rightarrow> nat lifecycle_prog" where
  "updateWorkflowStateCas taskId expectedVersion expectedStatus status currentStepIndex outputsJson updatedAt resumableFromStep =
     bindP (getsP (\<lambda>s. workflow_of s taskId)) (\<lambda>row.
     case row of
       None \<Rightarrow> returnP 0
     | Some r \<Rightarrow> if wf_currentStepIndex r \<noteq> expectedVersion \<or> wf_status r \<noteq> expectedStatus then returnP 0
                 else bindP (modifyP (put_workflow taskId (r\<lparr>wf_status := status, wf_currentStepIndex := currentStepIndex,
                        wf_outputsJson := outputsJson, wf_updatedAt := updatedAt, wf_resumableFromStep := resumableFromStep,
                        wf_lastErrorCode := (if status \<in> {''running'', ''completed''} then None else wf_lastErrorCode r)\<rparr>))) (\<lambda>_. returnP 1))"

definition updateSessionStatusCas :: "ident \<Rightarrow> string \<Rightarrow> string \<Rightarrow> timestamp \<Rightarrow> nat lifecycle_prog" where
  "updateSessionStatusCas sessionId expectedStatus status updatedAt =
     bindP (getsP (\<lambda>s. length (filter (\<lambda>r. se_id r = sessionId \<and> se_status r = expectedStatus) (lc_sessions s)))) (\<lambda>changed.
     bindP (modifyP (\<lambda>s. s\<lparr>lc_sessions := map (\<lambda>r. if se_id r = sessionId \<and> se_status r = expectedStatus
        then r\<lparr>se_status := status, se_updatedAt := updatedAt\<rparr> else r) (lc_sessions s)\<rparr>)) (\<lambda>_.
     returnP changed))"

definition updateExecutionStatusCas ::
    "ident \<Rightarrow> string \<Rightarrow> string \<Rightarrow> timestamp \<Rightarrow> timestamp option \<Rightarrow> timestamp option \<Rightarrow> string option \<Rightarrow> nat lifecycle_prog" where
  "updateExecutionStatusCas executionId expectedStatus status updatedAt startedAt finishedAt lastErrorCode =
     bindP (getsP (\<lambda>s. execution_of s executionId)) (\<lambda>row.
     case row of
       None \<Rightarrow> returnP 0
     | Some r \<Rightarrow> if ex_status r \<noteq> expectedStatus then returnP 0
                 else bindP (modifyP (put_execution executionId (r\<lparr>ex_status := status, ex_updatedAt := At updatedAt,
                        ex_startedAt := coalesce_opt (map_option At startedAt) (ex_startedAt r),
                        ex_finishedAt := coalesce_opt (map_option At finishedAt) (ex_finishedAt r), ex_lastErrorCode := lastErrorCode\<rparr>))) (\<lambda>_. returnP 1))"

definition updateApprovalDecisionCas :: "ident \<Rightarrow> string \<Rightarrow> string \<Rightarrow> string \<Rightarrow> timestamp \<Rightarrow> nat lifecycle_prog" where
  "updateApprovalDecisionCas approvalId expectedStatus status responseJson respondedAt =
     bindP (getsP (\<lambda>s. length (filter (\<lambda>r. ap_id r = approvalId \<and> ap_status r = expectedStatus) (lc_approvals s)))) (\<lambda>changed.
     bindP (modifyP (\<lambda>s. s\<lparr>lc_approvals := map (\<lambda>r. if ap_id r = approvalId \<and> ap_status r = expectedStatus
        then r\<lparr>ap_status := status, ap_responseJson := Some responseJson, ap_respondedAt := Some respondedAt\<rparr> else r) (lc_approvals s)\<rparr>)) (\<lambda>_.
     returnP changed))"

definition insertApproval :: "approval_row \<Rightarrow> unit lifecycle_prog" where
  "insertApproval r =
     bindP (getsP (\<lambda>s. approval_of s (ap_id r) \<noteq> None)) (\<lambda>exists.
     bindP (throwP_if exists (Approval_exists (ap_id r))) (\<lambda>_.
     modifyP (\<lambda>s. s\<lparr>lc_approvals := lc_approvals s @ [r]\<rparr>)))"

text \<open>\<^verbatim>\<open>insertEvent\<close> of the event repository: the task and the execution that the event names must exist.\<close>

definition insertLifecycleEvent :: "ident option \<Rightarrow> ident option \<Rightarrow> lifecycle_event \<Rightarrow> unit lifecycle_prog" where
  "insertLifecycleEvent taskId executionId e =
     bindP (getsP (\<lambda>s. (case taskId of None \<Rightarrow> False | Some i \<Rightarrow> task_of s i = None))) (\<lambda>noTask.
     bindP (throwP_if noTask (Event_reference_missing ''task_id'')) (\<lambda>_.
     bindP (getsP (\<lambda>s. (case executionId of None \<Rightarrow> False | Some i \<Rightarrow> execution_of s i = None))) (\<lambda>noExecution.
     bindP (throwP_if noExecution (Event_reference_missing ''execution_id'')) (\<lambda>_.
     modifyP (\<lambda>s. s\<lparr>lc_events := lc_events s @ [e]\<rparr>)))))"

text \<open>The event and its outbox row, under a savepoint; an execution that does not exist is dropped from the event.\<close>

definition createTier1StatusEvent ::
    "ident option \<Rightarrow> ident option \<Rightarrow> ident option \<Rightarrow> string \<Rightarrow> string \<Rightarrow> string \<Rightarrow> transition_context \<Rightarrow> unit lifecycle_prog" where
  "createTier1StatusEvent taskId sessionId executionId eventType fromStatus toStatus ctx =
     bindP (getsP (\<lambda>s. Option.bind executionId (\<lambda>i. if execution_of s i = None then None else Some i))) (\<lambda>resolved.
     let e = \<lparr>sv_eventType = eventType, sv_taskId = taskId, sv_sessionId = sessionId, sv_executionId = resolved,
              sv_fromStatus = fromStatus, sv_toStatus = toStatus, sv_context = ctx\<rparr> in
     lifecycle_transaction (
       bindP (insertLifecycleEvent taskId resolved (Status_changed e)) (\<lambda>_.
       modifyP (\<lambda>s. s\<lparr>lc_outbox := lc_outbox s @ [\<lparr>ob_aggregateType =
           (if taskId = None then if sessionId = None then ''event'' else ''session'' else ''task''),
         ob_aggregateId = coalesce_opt taskId (coalesce_opt sessionId resolved), ob_event = e\<rparr>]\<rparr>))))"

section \<open>Single transitions\<close>

record status_command =
  sc_entityId :: ident
  sc_fromStatus :: string
  sc_toStatus :: string
  sc_context :: transition_context

text \<open>A status that is written again is accepted; otherwise the table must list the next status.\<close>

definition transition_allowed :: "status_table \<Rightarrow> string \<Rightarrow> string \<Rightarrow> bool" where
  "transition_allowed tab current next \<longleftrightarrow> current = next \<or> next \<in> set (successors tab current)"

definition assertTransition :: "string \<Rightarrow> status_table \<Rightarrow> string \<Rightarrow> string \<Rightarrow> unit lifecycle_prog" where
  "assertTransition entityKind tab current next =
     throwP_if (\<not> transition_allowed tab current next) (Invalid_transition entityKind current next)"

definition cas_failed :: "string \<Rightarrow> nat \<Rightarrow> ident \<Rightarrow> string \<Rightarrow> string \<Rightarrow> unit lifecycle_prog" where
  "cas_failed entityKind affected entityId fromStatus toStatus =
     throwP_if (affected = 0) (Transition_cas_failed entityKind entityId fromStatus toStatus)"

definition resolveExistingExecutionRef :: "ident option \<Rightarrow> lifecycle_store \<Rightarrow> ident option" where
  "resolveExistingExecutionRef executionId s = Option.bind executionId (\<lambda>i. if execution_of s i = None then None else Some i)"

definition resolveTaskIdForExecution :: "ident \<Rightarrow> lifecycle_store \<Rightarrow> ident option" where
  "resolveTaskIdForExecution executionId s =
     (case execution_of s executionId of
        None \<Rightarrow> None
      | Some ex \<Rightarrow> if task_of s (ex_taskId ex) = None then None else Some (ex_taskId ex))"

definition applyTask :: "ident option \<Rightarrow> status_command \<Rightarrow> unit lifecycle_prog" where
  "applyTask executionId c = lifecycle_transaction (
     bindP (assertTransition ''task'' TASK_TRANSITIONS (sc_fromStatus c) (sc_toStatus c)) (\<lambda>_.
     let t = tc_occurredAt (sc_context c) in
     bindP (updateTaskStatusCas (sc_entityId c) (sc_fromStatus c) (sc_toStatus c) t None
       (if sc_toStatus c \<in> {''done'', ''failed'', ''cancelled''} then Some t else None)) (\<lambda>affected.
     bindP (cas_failed ''task'' affected (sc_entityId c) (sc_fromStatus c) (sc_toStatus c)) (\<lambda>_.
     bindP (getsP (resolveExistingExecutionRef executionId)) (\<lambda>executionRef.
     createTier1StatusEvent (Some (sc_entityId c)) None executionRef ''task:status_changed'' (sc_fromStatus c) (sc_toStatus c) (sc_context c))))))"

definition applyWorkflow :: "int \<Rightarrow> string \<Rightarrow> status_command \<Rightarrow> unit lifecycle_prog" where
  "applyWorkflow currentStepIndex outputsJson c =
     bindP (assertTransition ''workflow'' WORKFLOW_TRANSITIONS (sc_fromStatus c) (sc_toStatus c)) (\<lambda>_.
     bindP (getsP (\<lambda>s. workflow_of s (sc_entityId c))) (\<lambda>current.
     case current of
       None \<Rightarrow> throwP (Workflow_not_found (sc_entityId c))
     | Some w \<Rightarrow>
         bindP (throwP_if (wf_status w \<noteq> sc_fromStatus c) (Workflow_status_mismatch (sc_entityId c) (sc_fromStatus c) (wf_status w))) (\<lambda>_.
         bindP (updateWorkflowStateCas (sc_entityId c) (wf_currentStepIndex w) (wf_status w) (sc_toStatus c) currentStepIndex outputsJson
           (tc_occurredAt (sc_context c)) None) (\<lambda>affected.
         bindP (cas_failed ''workflow'' affected (sc_entityId c) (sc_fromStatus c) (sc_toStatus c)) (\<lambda>_.
         createTier1StatusEvent (Some (sc_entityId c)) None None ''workflow:status_changed'' (sc_fromStatus c) (sc_toStatus c) (sc_context c))))))"

definition applySession :: "status_command \<Rightarrow> unit lifecycle_prog" where
  "applySession c =
     bindP (assertTransition ''session'' SESSION_TRANSITIONS (sc_fromStatus c) (sc_toStatus c)) (\<lambda>_.
     bindP (updateSessionStatusCas (sc_entityId c) (sc_fromStatus c) (sc_toStatus c) (tc_occurredAt (sc_context c))) (\<lambda>affected.
     bindP (cas_failed ''session'' affected (sc_entityId c) (sc_fromStatus c) (sc_toStatus c)) (\<lambda>_.
     createTier1StatusEvent None (Some (sc_entityId c)) None ''session:status_changed'' (sc_fromStatus c) (sc_toStatus c) (sc_context c))))"

definition applyExecution :: "status_command \<Rightarrow> unit lifecycle_prog" where
  "applyExecution c =
     bindP (assertTransition ''execution'' EXECUTION_TRANSITIONS (sc_fromStatus c) (sc_toStatus c)) (\<lambda>_.
     let t = tc_occurredAt (sc_context c); to = sc_toStatus c in
     lifecycle_transaction (
       bindP (updateExecutionStatusCas (sc_entityId c) (sc_fromStatus c) to t
         (if to \<in> {''prechecking'', ''executing''} then Some t else None)
         (if to \<in> {''succeeded'', ''failed'', ''cancelled''} then Some t else None)
         (if to = ''failed'' then Some (tc_reasonCode (sc_context c)) else None)) (\<lambda>affected.
       bindP (cas_failed ''execution'' affected (sc_entityId c) (sc_fromStatus c) to) (\<lambda>_.
       bindP (getsP (resolveTaskIdForExecution (sc_entityId c))) (\<lambda>taskId.
       createTier1StatusEvent taskId None (Some (sc_entityId c)) ''execution:status_changed'' (sc_fromStatus c) to (sc_context c))))))"

definition applyApproval :: "string \<Rightarrow> status_command \<Rightarrow> unit lifecycle_prog" where
  "applyApproval responseJson c =
     bindP (assertTransition ''approval'' APPROVAL_TRANSITIONS (sc_fromStatus c) (sc_toStatus c)) (\<lambda>_.
     bindP (updateApprovalDecisionCas (sc_entityId c) (sc_fromStatus c) (sc_toStatus c) responseJson (tc_occurredAt (sc_context c))) (\<lambda>affected.
     cas_failed ''approval'' affected (sc_entityId c) (sc_fromStatus c) (sc_toStatus c)))"

section \<open>Transitions of several entities\<close>

datatype terminal_status = TT_done | TT_failed | TT_cancelled

definition terminal_text :: "terminal_status \<Rightarrow> string" where
  "terminal_text st = (case st of TT_done \<Rightarrow> ''done'' | TT_failed \<Rightarrow> ''failed'' | TT_cancelled \<Rightarrow> ''cancelled'')"

definition completed_or :: "string \<Rightarrow> terminal_status \<Rightarrow> string" where
  "completed_or completed st = (if st = TT_done then completed else terminal_text st)"

record terminal_input =
  ti_taskId :: ident
  ti_sessionId :: ident
  ti_executionId :: "ident option"
  ti_currentTaskStatus :: string
  ti_currentWorkflowStatus :: string
  ti_currentSessionStatus :: string
  ti_currentExecutionStatus :: string
  ti_terminalStatus :: terminal_status
  ti_taskOutputJson :: "string option"
  ti_outputsJson :: string
  ti_context :: transition_context

definition execution_already_terminal :: "string \<Rightarrow> bool" where
  "execution_already_terminal st \<longleftrightarrow> st \<in> {''succeeded'', ''failed'', ''cancelled'', ''superseded''}"

definition applyTaskTerminalState :: "terminal_input \<Rightarrow> unit lifecycle_prog" where
  "applyTaskTerminalState i =
     (let st = ti_terminalStatus i; ctx = ti_context i; t = tc_occurredAt ctx;
          taskTerminal = terminal_text st; workflowTerminal = completed_or ''completed'' st;
          sessionTerminal = completed_or ''completed'' st; executionTerminal = completed_or ''succeeded'' st;
          errorCode = (if st = TT_failed then Some (tc_reasonCode ctx) else None) in
      bindP (getsP (\<lambda>s. (resolveExistingExecutionRef (ti_executionId i) s, workflow_of s (ti_taskId i)))) (\<lambda>(executionRef, currentWorkflow).
      let moveExecution = executionRef \<noteq> None \<and> \<not> execution_already_terminal (ti_currentExecutionStatus i)
            \<and> ti_currentExecutionStatus i \<noteq> executionTerminal in
      bindP (assertTransition ''task'' TASK_TRANSITIONS (ti_currentTaskStatus i) taskTerminal) (\<lambda>_.
      bindP (if currentWorkflow \<noteq> None
             then assertTransition ''workflow'' WORKFLOW_TRANSITIONS (ti_currentWorkflowStatus i) workflowTerminal else returnP ()) (\<lambda>_.
      bindP (assertTransition ''session'' SESSION_TRANSITIONS (ti_currentSessionStatus i) sessionTerminal) (\<lambda>_.
      bindP (if moveExecution
             then assertTransition ''execution'' EXECUTION_TRANSITIONS (ti_currentExecutionStatus i) executionTerminal else returnP ()) (\<lambda>_.
      bindP (updateTaskOutput (ti_taskId i) (ti_taskOutputJson i) t) (\<lambda>_.
      bindP (updateTaskStatusCas (ti_taskId i) (ti_currentTaskStatus i) taskTerminal t errorCode (Some t)) (\<lambda>taskAffected.
      bindP (cas_failed ''task'' taskAffected (ti_taskId i) (ti_currentTaskStatus i) taskTerminal) (\<lambda>_.
      bindP (case currentWorkflow of
               None \<Rightarrow> returnP ()
             | Some w \<Rightarrow>
                 bindP (updateWorkflowStateCas (ti_taskId i) (wf_currentStepIndex w) (ti_currentWorkflowStatus i) workflowTerminal
                   (wf_currentStepIndex w) (ti_outputsJson i) t None) (\<lambda>affected.
                 cas_failed ''workflow'' affected (ti_taskId i) (ti_currentWorkflowStatus i) workflowTerminal)) (\<lambda>_.
      bindP (updateSessionStatusCas (ti_sessionId i) (ti_currentSessionStatus i) sessionTerminal t) (\<lambda>sessionAffected.
      bindP (cas_failed ''session'' sessionAffected (ti_sessionId i) (ti_currentSessionStatus i) sessionTerminal) (\<lambda>_.
      bindP (if moveExecution
             then bindP (updateExecutionStatusCas (the executionRef) (ti_currentExecutionStatus i) executionTerminal t None (Some t) errorCode) (\<lambda>affected.
                  cas_failed ''execution'' affected (the executionRef) (ti_currentExecutionStatus i) executionTerminal)
             else returnP ()) (\<lambda>_.
      createTier1StatusEvent (Some (ti_taskId i)) None executionRef ''task:status_changed'' (ti_currentTaskStatus i) taskTerminal ctx)))))))))))))"

definition transitionTaskTerminalState :: "terminal_input \<Rightarrow> unit lifecycle_prog" where
  "transitionTaskTerminalState i = lifecycle_transaction (applyTaskTerminalState i)"

record approval_block_input =
  bi_taskId :: ident
  bi_sessionId :: ident
  bi_executionId :: ident
  bi_currentTaskStatus :: string
  bi_currentWorkflowStatus :: string
  bi_currentSessionStatus :: string
  bi_currentExecutionStatus :: string
  bi_workflowCurrentStepIndex :: int
  bi_workflowOutputsJson :: string
  bi_approvalId :: ident
  bi_approval :: blocked_approval
  bi_createdAt :: "timestamp option"
  bi_context :: transition_context

definition applyBlockedForApproval :: "approval_block_input \<Rightarrow> (ident \<times> timestamp) lifecycle_prog" where
  "applyBlockedForApproval i =
     (let createdAt = coalesce (bi_createdAt i) (tc_occurredAt (bi_context i));
          record = \<lparr>ap_id = bi_approvalId i, ap_taskId = bi_taskId i, ap_executionId = Some (bi_executionId i), ap_status = ''requested'',
            ap_request = bi_approval i, ap_responseJson = None, ap_createdAt = createdAt, ap_respondedAt = None\<rparr>;
          command = (\<lambda>entity from to. \<lparr>sc_entityId = entity, sc_fromStatus = from, sc_toStatus = to, sc_context = bi_context i\<rparr>) in
      bindP (applyTask (Some (bi_executionId i)) (command (bi_taskId i) (bi_currentTaskStatus i) ''awaiting_decision'')) (\<lambda>_.
      bindP (applyWorkflow (bi_workflowCurrentStepIndex i) (bi_workflowOutputsJson i) (command (bi_taskId i) (bi_currentWorkflowStatus i) ''paused'')) (\<lambda>_.
      bindP (applySession (command (bi_sessionId i) (bi_currentSessionStatus i) ''awaiting_user'')) (\<lambda>_.
      bindP (applyExecution (command (bi_executionId i) (bi_currentExecutionStatus i) ''blocked'')) (\<lambda>_.
      bindP (insertApproval record) (\<lambda>_.
      bindP (insertLifecycleEvent (Some (bi_taskId i)) (Some (bi_executionId i))
        (Decision_requested (bi_taskId i) (bi_executionId i) record createdAt)) (\<lambda>_.
      returnP (bi_approvalId i, createdAt))))))))"

definition transitionBlockedForApproval :: "approval_block_input \<Rightarrow> (ident \<times> timestamp) lifecycle_prog" where
  "transitionBlockedForApproval i = lifecycle_transaction (applyBlockedForApproval i)"

section \<open>The facade\<close>

definition transitionTaskStatus :: "ident option \<Rightarrow> status_command \<Rightarrow> unit lifecycle_prog" where
  "transitionTaskStatus executionId c = applyTask executionId c"

definition transitionWorkflowStatus :: "int \<Rightarrow> string \<Rightarrow> status_command \<Rightarrow> unit lifecycle_prog" where
  "transitionWorkflowStatus currentStepIndex outputsJson c = lifecycle_transaction (applyWorkflow currentStepIndex outputsJson c)"

definition transitionSessionStatus :: "status_command \<Rightarrow> unit lifecycle_prog" where
  "transitionSessionStatus c = applySession c"

definition transitionExecutionStatus :: "status_command \<Rightarrow> unit lifecycle_prog" where
  "transitionExecutionStatus c = lifecycle_transaction (applyExecution c)"

definition transitionApprovalStatus :: "string \<Rightarrow> status_command \<Rightarrow> unit lifecycle_prog" where
  "transitionApprovalStatus responseJson c = applyApproval responseJson c"

section \<open>The tables as transition tables\<close>

definition table_ok :: "status_table \<Rightarrow> bool" where
  "table_ok tab \<longleftrightarrow> distinct (map fst tab)
     \<and> list_all (\<lambda>(s, ts). s \<notin> set ts \<and> (ts \<noteq> [] \<longrightarrow> list_ex (\<lambda>t. successors tab t = []) ts)) tab"

abbreviation settled :: "status_table \<Rightarrow> string \<Rightarrow> bool" where
  "settled tab s \<equiv> successors tab s = []"

abbreviation exit_rank :: "status_table \<Rightarrow> string \<Rightarrow> nat" where
  "exit_rank tab s \<equiv> if settled tab s then 0 else 1"

lemma table_ok_transition_table:
  assumes "table_ok tab"
  shows "transition_table (successors tab) (settled tab) (exit_rank tab)"
proof
  have entry: "s \<notin> set (successors tab s) \<and> (successors tab s \<noteq> [] \<longrightarrow> (\<exists>t \<in> set (successors tab s). settled tab t))" for s
  proof (cases "map_of tab s")
    case (Some ts)
    then have "(s, ts) \<in> set tab" by (rule map_of_SomeD)
    then show ?thesis using assms Some by (auto simp: table_ok_def list_all_iff list_ex_iff successors_def)
  qed (simp add: successors_def)
  show "s \<notin> set (successors tab s)" for s using entry by blast
  show "\<not> settled tab s \<Longrightarrow> \<exists>t \<in> set (successors tab s). exit_rank tab t < exit_rank tab s" for s using entry by fastforce
qed simp_all

lemma tables_ok:
  "table_ok TASK_TRANSITIONS" "table_ok WORKFLOW_TRANSITIONS" "table_ok SESSION_TRANSITIONS" "table_ok EXECUTION_TRANSITIONS"
  "table_ok APPROVAL_TRANSITIONS"
  by (simp_all add: table_ok_def successors_def TASK_TRANSITIONS_def WORKFLOW_TRANSITIONS_def SESSION_TRANSITIONS_def
      EXECUTION_TRANSITIONS_def APPROVAL_TRANSITIONS_def)

lemmas transition_tables = tables_ok [THEN table_ok_transition_table]

section \<open>Statuses move along the tables\<close>

definition task_status :: "lifecycle_store \<Rightarrow> ident \<Rightarrow> string option" where
  "task_status s i = map_option tk_status (task_of s i)"

definition workflow_status :: "lifecycle_store \<Rightarrow> ident \<Rightarrow> string option" where
  "workflow_status s i = map_option wf_status (workflow_of s i)"

definition session_status :: "lifecycle_store \<Rightarrow> ident \<Rightarrow> string option" where
  "session_status s i = map_option se_status (session_of s i)"

definition execution_status :: "lifecycle_store \<Rightarrow> ident \<Rightarrow> string option" where
  "execution_status s i = map_option ex_status (execution_of s i)"

definition approval_status :: "lifecycle_store \<Rightarrow> ident \<Rightarrow> string option" where
  "approval_status s i = map_option ap_status (approval_of s i)"

definition follows_tables :: "lifecycle_store \<Rightarrow> lifecycle_store \<Rightarrow> bool" where
  "follows_tables s s' \<longleftrightarrow> follows (successors TASK_TRANSITIONS) task_status s s' \<and> follows (successors WORKFLOW_TRANSITIONS) workflow_status s s'
     \<and> follows (successors SESSION_TRANSITIONS) session_status s s' \<and> follows (successors EXECUTION_TRANSITIONS) execution_status s s'
     \<and> follows (successors APPROVAL_TRANSITIONS) approval_status s s'"

interpretation governed: effect_order follows_tables
  by unfold_locales (auto simp: follows_tables_def intro: follows_trans)

abbreviation governed_prog :: "'a lifecycle_prog \<Rightarrow> bool" where
  "governed_prog \<equiv> effects_in follows_tables"

named_theorems governed_intros \<open>programs that move statuses along the tables\<close>

lemmas governed_basic [governed_intros] = governed.effects_basic governed.effects_guard governed.effects_bind governed.effects_case

lemmas status_defs = task_status_def workflow_status_def session_status_def execution_status_def approval_status_def session_of_def approval_of_def

lemma governed_transaction [governed_intros]: "governed_prog m \<Longrightarrow> governed_prog (lifecycle_transaction m)"
  by (auto simp: effects_in_def lifecycle_transaction_def governed.refl split: prod.split sum.split) (metis snd_conv)

text \<open>A write that keeps all statuses.\<close>

lemma follows_tables_same:
  assumes "task_status s' = task_status s" and "workflow_status s' = workflow_status s" and "session_status s' = session_status s"
    and "execution_status s' = execution_status s" and "approval_status s' = approval_status s"
  shows "follows_tables s s'"
  using assms by (simp add: follows_tables_def follows_same)

lemma find_after_update:
  assumes "\<And>r. key (f r) = key r"
  shows "find (\<lambda>r. key r = j) (map (\<lambda>r. if p r then f r else r) xs) = map_option (\<lambda>r. if p r then f r else r) (find (\<lambda>r. key r = j) xs)"
  using assms by (induction xs) auto

lemma find_key: "find (\<lambda>r. key r = j) xs = Some r \<Longrightarrow> key r = j"
  by (induction xs) (auto split: if_splits)

lemma put_statuses [simp]:
  "task_status (put_task i r s) = (task_status s)(i \<mapsto> tk_status r)" "workflow_status (put_task i r s) = workflow_status s"
  "session_status (put_task i r s) = session_status s" "execution_status (put_task i r s) = execution_status s"
  "approval_status (put_task i r s) = approval_status s"
  "task_status (put_workflow i w s) = task_status s" "workflow_status (put_workflow i w s) = (workflow_status s)(i \<mapsto> wf_status w)"
  "session_status (put_workflow i w s) = session_status s" "execution_status (put_workflow i w s) = execution_status s"
  "approval_status (put_workflow i w s) = approval_status s"
  "task_status (put_execution i e s) = task_status s" "workflow_status (put_execution i e s) = workflow_status s"
  "session_status (put_execution i e s) = session_status s" "execution_status (put_execution i e s) = (execution_status s)(i \<mapsto> ex_status e)"
  "approval_status (put_execution i e s) = approval_status s"
  by (auto simp: status_defs put_task_def put_workflow_def put_execution_def fun_eq_iff)

lemma allowed_cases: "transition_allowed tab a b \<longleftrightarrow> b = a \<or> b \<in> set (successors tab a)"
  by (auto simp: transition_allowed_def)

lemma governed_task_cas [governed_intros]:
  "transition_allowed TASK_TRANSITIONS from to \<Longrightarrow> governed_prog (updateTaskStatusCas i from to t err done_at)"
  unfolding updateTaskStatusCas_def effects_in_def
  by (auto simp: prog_simps governed.refl follows_tables_def allowed_cases follows_same task_status_def split: option.split
      intro!: follows_update [where i = i and b = to])

lemma governed_workflow_cas [governed_intros]:
  "transition_allowed WORKFLOW_TRANSITIONS from to \<Longrightarrow> governed_prog (updateWorkflowStateCas i v from to n out t res)"
  unfolding updateWorkflowStateCas_def effects_in_def
  by (auto simp: prog_simps governed.refl follows_tables_def allowed_cases follows_same workflow_status_def split: option.split
      intro!: follows_update [where i = i and b = to])

lemma governed_execution_cas [governed_intros]:
  "transition_allowed EXECUTION_TRANSITIONS from to \<Longrightarrow> governed_prog (updateExecutionStatusCas i from to t a f err)"
  unfolding updateExecutionStatusCas_def effects_in_def
  by (auto simp: prog_simps governed.refl follows_tables_def allowed_cases follows_same execution_status_def split: option.split
      intro!: follows_update [where i = i and b = to])

lemma follows_rows:
  assumes "\<And>j. status w j = map_option st (row j)" and "\<And>j. status w' j = map_option (\<lambda>r. st (f r)) (row j)"
    and "\<And>r. st (f r) = st r \<or> st (f r) \<in> set (succs (st r))"
  shows "follows succs status w w'"
  unfolding follows_def
proof (intro allI impI)
  fix i a assume "status w i = Some a"
  then obtain r where r: "row i = Some r" "a = st r" using assms(1) by auto
  then have "status w' i = Some (st (f r))" using assms(2) by simp
  moreover have "(\<lambda>a b. b \<in> set (succs a))\<^sup>*\<^sup>* a (st (f r))"
  proof (cases "st (f r) = st r")
    case False
    then have "st (f r) \<in> set (succs a)" using assms(3) [of r] r by simp
    then show ?thesis by (rule r_into_rtranclp)
  qed (simp add: r)
  ultimately show "\<exists>b. status w' i = Some b \<and> (\<lambda>a b. b \<in> set (succs a))\<^sup>*\<^sup>* a b" by blast
qed

lemma governed_session_cas [governed_intros]:
  assumes "transition_allowed SESSION_TRANSITIONS from to"
  shows "governed_prog (updateSessionStatusCas i from to t)"
  unfolding updateSessionStatusCas_def effects_in_def
proof (intro allI, simp add: prog_simps)
  fix s :: lifecycle_store
  let ?f = "\<lambda>r. if se_id r = i \<and> se_status r = from then r\<lparr>se_status := to, se_updatedAt := t\<rparr> else r"
  let ?s = "s\<lparr>lc_sessions := map ?f (lc_sessions s)\<rparr>"
  have "session_of ?s j = map_option ?f (session_of s j)" for j
    by (simp add: session_of_def find_after_update [where key = se_id])
  then have "follows (successors SESSION_TRANSITIONS) session_status s ?s"
    using assms by (intro follows_rows [where st = se_status and row = "session_of s" and f = ?f]) (auto simp: session_status_def allowed_cases option.map_comp comp_def)
  then show "follows_tables s ?s" by (simp add: follows_tables_def follows_same status_defs fun_eq_iff)
qed

lemma governed_approval_cas [governed_intros]:
  assumes "transition_allowed APPROVAL_TRANSITIONS from to"
  shows "governed_prog (updateApprovalDecisionCas i from to resp t)"
  unfolding updateApprovalDecisionCas_def effects_in_def
proof (intro allI, simp add: prog_simps)
  fix s :: lifecycle_store
  let ?f = "\<lambda>r. if ap_id r = i \<and> ap_status r = from then r\<lparr>ap_status := to, ap_responseJson := Some resp, ap_respondedAt := Some t\<rparr> else r"
  let ?s = "s\<lparr>lc_approvals := map ?f (lc_approvals s)\<rparr>"
  have "approval_of ?s j = map_option ?f (approval_of s j)" for j
    by (simp add: approval_of_def find_after_update [where key = ap_id])
  then have "follows (successors APPROVAL_TRANSITIONS) approval_status s ?s"
    using assms by (intro follows_rows [where st = ap_status and row = "approval_of s" and f = ?f]) (auto simp: approval_status_def allowed_cases option.map_comp comp_def)
  then show "follows_tables s ?s" by (simp add: follows_tables_def follows_same status_defs fun_eq_iff)
qed

lemma governed_rest [governed_intros]:
  "governed_prog (updateTaskOutput i out t)" "governed_prog (insertLifecycleEvent tsk x e)" "governed_prog (insertApproval r)"
  "governed_prog (createTier1StatusEvent tsk se x ty from to ctx)" "governed_prog (cas_failed k n i from to)"
proof -
  show "governed_prog (updateTaskOutput i out t)" unfolding updateTaskOutput_def
    by (rule governed.effects_modify, rule follows_tables_same) (auto simp: status_defs put_task_def fun_eq_iff split: option.split)
  show event: "governed_prog (insertLifecycleEvent tsk x e)" for tsk x e unfolding insertLifecycleEvent_def
    by (intro governed_intros governed.effects_modify follows_tables_same) (simp_all add: status_defs fun_eq_iff)
  show "governed_prog (insertApproval r)" unfolding insertApproval_def
  proof (intro governed_intros governed.effects_modify)
    fix s
    have "find p (xs @ [y]) = Some z" if "find p xs = Some z" for p :: "approval_row \<Rightarrow> bool" and xs y z using that by (induction xs) auto
    then show "follows_tables s (s\<lparr>lc_approvals := lc_approvals s @ [r]\<rparr>)"
      by (auto simp: follows_tables_def follows_same status_defs fun_eq_iff follows_def)
  qed
  show "governed_prog (createTier1StatusEvent tsk se x ty from to ctx)" unfolding createTier1StatusEvent_def Let_def
    by (intro governed_intros event governed.effects_modify follows_tables_same) (simp_all add: status_defs fun_eq_iff)
  show "governed_prog (cas_failed k n i from to)" unfolding cas_failed_def by (intro governed_intros)
qed

lemma bindP_return [simp]: "bindP (returnP x) f = f x"
  by (simp add: bindP_def returnP_def)

lemma governed_assert [governed_intros]:
  "(transition_allowed tab from to \<Longrightarrow> governed_prog m) \<Longrightarrow> governed_prog (bindP (assertTransition k tab from to) (\<lambda>_. m))"
  unfolding assertTransition_def by (rule governed.effects_guard) blast

lemma governed_assert_if [governed_intros]:
  "(c \<longrightarrow> transition_allowed tab from to \<Longrightarrow> governed_prog m)
    \<Longrightarrow> governed_prog (bindP (if c then assertTransition k tab from to else returnP ()) (\<lambda>_. m))"
  by (cases c) (auto intro: governed_assert simp: bindP_return)

lemma governed_terminal [governed_intros]: "governed_prog (applyTaskTerminalState i)"
  unfolding applyTaskTerminalState_def Let_def by (intro governed_intros) auto

lemma governed_single [governed_intros]:
  "governed_prog (applyTask x c)" "governed_prog (applyWorkflow n out c)" "governed_prog (applySession c)" "governed_prog (applyExecution c)"
  "governed_prog (applyApproval resp c)"
  unfolding applyTask_def applyWorkflow_def applySession_def applyExecution_def applyApproval_def Let_def
  by (intro governed_intros; simp)+

lemma governed_block [governed_intros]: "governed_prog (applyBlockedForApproval i)"
  unfolding applyBlockedForApproval_def Let_def by (intro governed_intros)

lemma governed_facade [governed_intros]:
  "governed_prog (transitionTaskStatus x c)" "governed_prog (transitionWorkflowStatus n out c)" "governed_prog (transitionSessionStatus c)"
  "governed_prog (transitionExecutionStatus c)" "governed_prog (transitionApprovalStatus resp c)"
  "governed_prog (transitionTaskTerminalState ti)" "governed_prog (transitionBlockedForApproval bi)"
  unfolding transitionTaskStatus_def transitionWorkflowStatus_def transitionSessionStatus_def transitionExecutionStatus_def
    transitionApprovalStatus_def transitionTaskTerminalState_def transitionBlockedForApproval_def
  by (intro governed_intros)+

section \<open>The terminal transition, exactly\<close>

definition sessions_ok :: "lifecycle_store \<Rightarrow> bool" where
  "sessions_ok s \<longleftrightarrow> distinct (map se_id (lc_sessions s))"

text \<open>Whether the execution is moved together with the task.\<close>

definition moves_execution :: "terminal_input \<Rightarrow> lifecycle_store \<Rightarrow> bool" where
  "moves_execution i s \<longleftrightarrow> resolveExistingExecutionRef (ti_executionId i) s \<noteq> None \<and> \<not> execution_already_terminal (ti_currentExecutionStatus i)"

text \<open>The statuses that the caller has read are still the stored ones, and each of them may move to its terminal status.\<close>

definition statuses_current :: "terminal_input \<Rightarrow> lifecycle_store \<Rightarrow> bool" where
  "statuses_current i s \<longleftrightarrow> task_status s (ti_taskId i) = Some (ti_currentTaskStatus i) \<and> session_status s (ti_sessionId i) = Some (ti_currentSessionStatus i)
     \<and> (workflow_of s (ti_taskId i) \<noteq> None \<longrightarrow> workflow_status s (ti_taskId i) = Some (ti_currentWorkflowStatus i))
     \<and> (moves_execution i s \<longrightarrow> execution_status s (the (ti_executionId i)) = Some (ti_currentExecutionStatus i))"

definition terminal_allowed :: "terminal_input \<Rightarrow> lifecycle_store \<Rightarrow> bool" where
  "terminal_allowed i s \<longleftrightarrow> (let st = ti_terminalStatus i in
     transition_allowed TASK_TRANSITIONS (ti_currentTaskStatus i) (terminal_text st)
     \<and> transition_allowed SESSION_TRANSITIONS (ti_currentSessionStatus i) (completed_or ''completed'' st)
     \<and> (workflow_of s (ti_taskId i) \<noteq> None \<longrightarrow> transition_allowed WORKFLOW_TRANSITIONS (ti_currentWorkflowStatus i) (completed_or ''completed'' st))
     \<and> (moves_execution i s \<longrightarrow> transition_allowed EXECUTION_TRANSITIONS (ti_currentExecutionStatus i) (completed_or ''succeeded'' st)))"

definition terminal_admissible :: "terminal_input \<Rightarrow> lifecycle_store \<Rightarrow> bool" where
  "terminal_admissible i s \<longleftrightarrow> statuses_current i s \<and> terminal_allowed i s"

definition terminal_error :: "terminal_input \<Rightarrow> string option" where
  "terminal_error i = (if ti_terminalStatus i = TT_failed then Some (tc_reasonCode (ti_context i)) else None)"

definition terminal_task :: "terminal_input \<Rightarrow> task_row \<Rightarrow> task_row" where
  "terminal_task i r = r\<lparr>tk_outputJson := ti_taskOutputJson i, tk_status := terminal_text (ti_terminalStatus i),
     tk_updatedAt := tc_occurredAt (ti_context i), tk_errorCode := terminal_error i, tk_completedAt := Some (tc_occurredAt (ti_context i))\<rparr>"

definition terminal_workflow :: "terminal_input \<Rightarrow> workflow_row \<Rightarrow> workflow_row" where
  "terminal_workflow i w = w\<lparr>wf_status := completed_or ''completed'' (ti_terminalStatus i), wf_outputsJson := ti_outputsJson i,
     wf_updatedAt := tc_occurredAt (ti_context i), wf_resumableFromStep := None,
     wf_lastErrorCode := (if ti_terminalStatus i = TT_done then None else wf_lastErrorCode w)\<rparr>"

definition terminal_session :: "terminal_input \<Rightarrow> session_row \<Rightarrow> session_row" where
  "terminal_session i r = r\<lparr>se_status := completed_or ''completed'' (ti_terminalStatus i), se_updatedAt := tc_occurredAt (ti_context i)\<rparr>"

definition terminal_execution :: "terminal_input \<Rightarrow> execution_row \<Rightarrow> execution_row" where
  "terminal_execution i x = x\<lparr>ex_status := completed_or ''succeeded'' (ti_terminalStatus i), ex_updatedAt := At (tc_occurredAt (ti_context i)),
     ex_finishedAt := Some (At (tc_occurredAt (ti_context i))), ex_lastErrorCode := terminal_error i\<rparr>"

definition terminal_event :: "terminal_input \<Rightarrow> lifecycle_store \<Rightarrow> status_event" where
  "terminal_event i s = \<lparr>sv_eventType = ''task:status_changed'', sv_taskId = Some (ti_taskId i), sv_sessionId = None,
     sv_executionId = resolveExistingExecutionRef (ti_executionId i) s, sv_fromStatus = ti_currentTaskStatus i,
     sv_toStatus = terminal_text (ti_terminalStatus i), sv_context = ti_context i\<rparr>"

text \<open>The store in which the task and all that belongs to it have ended, with the event and its outbox row.\<close>

definition ended_store :: "terminal_input \<Rightarrow> lifecycle_store \<Rightarrow> lifecycle_store" where
  "ended_store i s = (let d = lc_dispatch s; c = ds_core d; task = ti_taskId i in
     s\<lparr>lc_dispatch := d\<lparr>ds_tasks := (ds_tasks d)(task := map_option (terminal_task i) (ds_tasks d task)),
         ds_workflows := (ds_workflows d)(task := map_option (terminal_workflow i) (ds_workflows d task)),
         ds_core := c\<lparr>st_executions := (if moves_execution i s
           then (st_executions c)(the (ti_executionId i) := map_option (terminal_execution i) (st_executions c (the (ti_executionId i))))
           else st_executions c)\<rparr>\<rparr>,
       lc_sessions := map (\<lambda>r. if se_id r = ti_sessionId i then terminal_session i r else r) (lc_sessions s),
       lc_events := lc_events s @ [Status_changed (terminal_event i s)],
       lc_outbox := lc_outbox s @ [\<lparr>ob_aggregateType = ''task'', ob_aggregateId = Some task, ob_event = terminal_event i s\<rparr>]\<rparr>)"

lemma task_cas_eval:
  "updateTaskStatusCas i from to t err done_at s = (case task_of s i of
     Some r \<Rightarrow> if tk_status r = from
       then (Inr 1, put_task i (r\<lparr>tk_status := to, tk_updatedAt := t, tk_errorCode := err, tk_completedAt := done_at\<rparr>) s) else (Inr 0, s)
   | None \<Rightarrow> (Inr 0, s))"
  by (simp add: updateTaskStatusCas_def prog_simps split: option.split)

lemma workflow_cas_eval:
  "updateWorkflowStateCas i v from to n out t res s = (case workflow_of s i of
     Some r \<Rightarrow> if wf_currentStepIndex r = v \<and> wf_status r = from
       then (Inr 1, put_workflow i (r\<lparr>wf_status := to, wf_currentStepIndex := n, wf_outputsJson := out, wf_updatedAt := t, wf_resumableFromStep := res,
          wf_lastErrorCode := (if to \<in> {''running'', ''completed''} then None else wf_lastErrorCode r)\<rparr>) s) else (Inr 0, s)
   | None \<Rightarrow> (Inr 0, s))"
  by (simp add: updateWorkflowStateCas_def prog_simps split: option.split)

lemma execution_cas_eval:
  "updateExecutionStatusCas i from to t a f err s = (case execution_of s i of
     Some r \<Rightarrow> if ex_status r = from
       then (Inr 1, put_execution i (r\<lparr>ex_status := to, ex_updatedAt := At t, ex_startedAt := coalesce_opt (map_option At a) (ex_startedAt r),
          ex_finishedAt := coalesce_opt (map_option At f) (ex_finishedAt r), ex_lastErrorCode := err\<rparr>) s) else (Inr 0, s)
   | None \<Rightarrow> (Inr 0, s))"
  by (simp add: updateExecutionStatusCas_def prog_simps split: option.split)

lemma session_cas_eval:
  assumes "sessions_ok s"
  shows "updateSessionStatusCas i from to t s = (case session_of s i of
     Some r \<Rightarrow> if se_status r = from
       then (Inr 1, s\<lparr>lc_sessions := map (\<lambda>r. if se_id r = i then r\<lparr>se_status := to, se_updatedAt := t\<rparr> else r) (lc_sessions s)\<rparr>) else (Inr 0, s)
   | None \<Rightarrow> (Inr 0, s))"
proof -
  have "length (filter (\<lambda>r. se_id r = i \<and> se_status r = from) xs)
        = (case find (\<lambda>r. se_id r = i) xs of Some r \<Rightarrow> if se_status r = from then 1 else 0 | None \<Rightarrow> 0)
      \<and> map (\<lambda>r. if se_id r = i \<and> se_status r = from then g r else r) xs
        = (case find (\<lambda>r. se_id r = i) xs of Some r \<Rightarrow> if se_status r = from then map (\<lambda>r. if se_id r = i then g r else r) xs else xs | None \<Rightarrow> xs)"
    if "distinct (map se_id xs)" for xs and g :: "session_row \<Rightarrow> session_row"
    using that
  proof (induction xs)
    case (Cons x xs)
    show ?case
    proof (cases "se_id x = i")
      case True
      then have other: "\<And>r. r \<in> set xs \<Longrightarrow> se_id r \<noteq> i" using Cons.prems by (auto simp: image_iff)
      then have "filter (\<lambda>r. se_id r = i \<and> se_status r = from) xs = []" by (simp add: filter_empty_conv)
      moreover have "map (\<lambda>r. if se_id r = i \<and> se_status r = from then g r else r) xs = xs" "map (\<lambda>r. if se_id r = i then g r else r) xs = xs"
        using other by (auto intro!: map_idI)
      ultimately show ?thesis using True by simp
    qed (use Cons in \<open>auto split: option.splits\<close>)
  qed simp
  from this [of "lc_sessions s"] show ?thesis
    using assms by (auto simp: updateSessionStatusCas_def prog_simps sessions_ok_def session_of_def split: option.splits)
qed

lemma session_status_update:
  "find (\<lambda>r. se_id r = j) (map (\<lambda>r. if se_id r = i then f r else r) xs) = (if j = i then map_option f else id) (find (\<lambda>r. se_id r = j) xs)"
  if "\<And>r. se_id (f r) = se_id r"
  using find_after_update [of se_id f j "\<lambda>r. se_id r = i" xs] that
  by (cases "find (\<lambda>r. se_id r = j) xs") (auto dest: find_key)

lemma tier1_event_eval:
  assumes "case tsk of None \<Rightarrow> True | Some i \<Rightarrow> task_of s i \<noteq> None"
  shows "createTier1StatusEvent tsk se x ty from to ctx s = (Inr (), let ref = resolveExistingExecutionRef x s;
      e = \<lparr>sv_eventType = ty, sv_taskId = tsk, sv_sessionId = se, sv_executionId = ref, sv_fromStatus = from, sv_toStatus = to, sv_context = ctx\<rparr> in
    s\<lparr>lc_events := lc_events s @ [Status_changed e], lc_outbox := lc_outbox s @ [\<lparr>ob_aggregateType =
           (if tsk = None then if se = None then ''event'' else ''session'' else ''task''),
         ob_aggregateId = coalesce_opt tsk (coalesce_opt se ref), ob_event = e\<rparr>]\<rparr>)"
  using assms
  by (auto simp: createTier1StatusEvent_def lifecycle_transaction_def insertLifecycleEvent_def prog_simps resolveExistingExecutionRef_def Let_def
      split: option.splits if_splits bind_splits)

lemma put_rows [simp]:
  "task_of (put_task i r s) = (task_of s)(i \<mapsto> r)" "workflow_of (put_task i r s) = workflow_of s" "execution_of (put_task i r s) = execution_of s"
  "session_of (put_task i r s) = session_of s" "lc_sessions (put_task i r s) = lc_sessions s"
  "task_of (put_workflow i w s) = task_of s" "workflow_of (put_workflow i w s) = (workflow_of s)(i \<mapsto> w)" "execution_of (put_workflow i w s) = execution_of s"
  "session_of (put_workflow i w s) = session_of s" "lc_sessions (put_workflow i w s) = lc_sessions s"
  "task_of (put_execution i x s) = task_of s" "workflow_of (put_execution i x s) = workflow_of s" "execution_of (put_execution i x s) = (execution_of s)(i \<mapsto> x)"
  "session_of (put_execution i x s) = session_of s" "lc_sessions (put_execution i x s) = lc_sessions s"
  "lc_approvals (put_task i r s) = lc_approvals s" "lc_approvals (put_workflow i w s) = lc_approvals s" "lc_approvals (put_execution i x s) = lc_approvals s"
  "sessions_ok (put_task i r s) = sessions_ok s" "sessions_ok (put_workflow i w s) = sessions_ok s"
  by (simp_all add: put_task_def put_workflow_def put_execution_def session_of_def fun_eq_iff sessions_ok_def)

lemma ended_store_steps:
  assumes "task_of s (ti_taskId i) = Some r"
  defines "s2 \<equiv> put_task (ti_taskId i) (terminal_task i r) s"
  defines "s3 \<equiv> (case workflow_of s (ti_taskId i) of None \<Rightarrow> s2 | Some w \<Rightarrow> put_workflow (ti_taskId i) (terminal_workflow i w) s2)"
  defines "s4 \<equiv> s3\<lparr>lc_sessions := map (\<lambda>r. if se_id r = ti_sessionId i then terminal_session i r else r) (lc_sessions s)\<rparr>"
  defines "s5 \<equiv> (if moves_execution i s then put_execution (the (ti_executionId i)) (terminal_execution i (the (execution_of s (the (ti_executionId i))))) s4 else s4)"
  shows "s5\<lparr>lc_events := lc_events s5 @ [Status_changed (terminal_event i s)],
    lc_outbox := lc_outbox s5 @ [\<lparr>ob_aggregateType = ''task'', ob_aggregateId = Some (ti_taskId i), ob_event = terminal_event i s\<rparr>]\<rparr> = ended_store i s"
proof -
  have ex: "\<exists>x. execution_of s (the (ti_executionId i)) = Some x" if "moves_execution i s"
    using that by (auto simp: moves_execution_def resolveExistingExecutionRef_def bind_eq_Some_conv split: if_splits)
  show ?thesis
  proof (cases "workflow_of s (ti_taskId i)")
    case None
    then have "(workflow_of s)(ti_taskId i := None) = workflow_of s" by auto
    with None ex assms(1) show ?thesis
      by (auto simp: s5_def s4_def s3_def s2_def ended_store_def Let_def put_task_def put_execution_def)
  next
    case (Some w)
    with ex assms(1) show ?thesis
      by (auto simp: s5_def s4_def s3_def s2_def ended_store_def Let_def put_task_def put_workflow_def put_execution_def)
  qed
qed

lemma moves_execution_iff:
  "executionRef = resolveExistingExecutionRef (ti_executionId i) s \<Longrightarrow>
    (executionRef \<noteq> None \<and> \<not> execution_already_terminal (ti_currentExecutionStatus i)
      \<and> ti_currentExecutionStatus i \<noteq> completed_or ''succeeded'' (ti_terminalStatus i)) = moves_execution i s"
  by (cases "ti_terminalStatus i") (auto simp: moves_execution_def execution_already_terminal_def completed_or_def terminal_text_def)

lemma execution_ref:
  assumes "moves_execution i s"
  obtains x where "resolveExistingExecutionRef (ti_executionId i) s = Some (the (ti_executionId i))" and "execution_of s (the (ti_executionId i)) = Some x"
  using assms by (auto simp: moves_execution_def resolveExistingExecutionRef_def bind_eq_Some_conv split: if_splits)

text \<open>The four validations that come first.\<close>

definition terminal_checks :: "terminal_input \<Rightarrow> lifecycle_store \<Rightarrow> unit lifecycle_prog" where
  "terminal_checks i s =
     bindP (assertTransition ''task'' TASK_TRANSITIONS (ti_currentTaskStatus i) (terminal_text (ti_terminalStatus i))) (\<lambda>_.
     bindP (if workflow_of s (ti_taskId i) \<noteq> None
            then assertTransition ''workflow'' WORKFLOW_TRANSITIONS (ti_currentWorkflowStatus i) (completed_or ''completed'' (ti_terminalStatus i))
            else returnP ()) (\<lambda>_.
     bindP (assertTransition ''session'' SESSION_TRANSITIONS (ti_currentSessionStatus i) (completed_or ''completed'' (ti_terminalStatus i))) (\<lambda>_.
     if moves_execution i s
     then assertTransition ''execution'' EXECUTION_TRANSITIONS (ti_currentExecutionStatus i) (completed_or ''succeeded'' (ti_terminalStatus i))
     else returnP ())))"

definition terminal_writes :: "terminal_input \<Rightarrow> lifecycle_store \<Rightarrow> unit lifecycle_prog" where
  "terminal_writes i s =
     (let t = tc_occurredAt (ti_context i); taskTerminal = terminal_text (ti_terminalStatus i); completed = completed_or ''completed'' (ti_terminalStatus i);
          succeeded = completed_or ''succeeded'' (ti_terminalStatus i); executionRef = resolveExistingExecutionRef (ti_executionId i) s in
      bindP (updateTaskOutput (ti_taskId i) (ti_taskOutputJson i) t) (\<lambda>_.
      bindP (updateTaskStatusCas (ti_taskId i) (ti_currentTaskStatus i) taskTerminal t (terminal_error i) (Some t)) (\<lambda>taskAffected.
      bindP (cas_failed ''task'' taskAffected (ti_taskId i) (ti_currentTaskStatus i) taskTerminal) (\<lambda>_.
      bindP (case workflow_of s (ti_taskId i) of
               None \<Rightarrow> returnP ()
             | Some w \<Rightarrow>
                 bindP (updateWorkflowStateCas (ti_taskId i) (wf_currentStepIndex w) (ti_currentWorkflowStatus i) completed
                   (wf_currentStepIndex w) (ti_outputsJson i) t None) (\<lambda>affected.
                 cas_failed ''workflow'' affected (ti_taskId i) (ti_currentWorkflowStatus i) completed)) (\<lambda>_.
      bindP (updateSessionStatusCas (ti_sessionId i) (ti_currentSessionStatus i) completed t) (\<lambda>sessionAffected.
      bindP (cas_failed ''session'' sessionAffected (ti_sessionId i) (ti_currentSessionStatus i) completed) (\<lambda>_.
      bindP (if moves_execution i s
             then bindP (updateExecutionStatusCas (the executionRef) (ti_currentExecutionStatus i) succeeded t None (Some t) (terminal_error i)) (\<lambda>affected.
                  cas_failed ''execution'' affected (the executionRef) (ti_currentExecutionStatus i) succeeded)
             else returnP ()) (\<lambda>_.
      createTier1StatusEvent (Some (ti_taskId i)) None executionRef ''task:status_changed'' (ti_currentTaskStatus i) taskTerminal (ti_context i)))))))))"

lemma terminal_split: "applyTaskTerminalState i s = bindP (terminal_checks i s) (\<lambda>_. terminal_writes i s) s"
  unfolding applyTaskTerminalState_def terminal_checks_def terminal_writes_def Let_def bindP_gets case_prod_conv moves_execution_iff [OF HOL.refl]
    bindP_assoc terminal_error_def by (simp only: )

lemma terminal_checks_eval:
  "if terminal_allowed i s then terminal_checks i s s = (Inr (), s) else (\<exists>e. terminal_checks i s s = (Inl e, s))"
  unfolding terminal_checks_def assertTransition_def terminal_allowed_def Let_def by (auto simp: prog_simps)

lemma write_task_eval:
  "bindP (updateTaskOutput tid out t) (\<lambda>_. bindP (updateTaskStatusCas tid from to t err (Some t)) (\<lambda>n. bindP (cas_failed ''task'' n tid from to) (\<lambda>_. m))) s
    = (case task_of s tid of
         Some r \<Rightarrow> if tk_status r = from
           then m (put_task tid (r\<lparr>tk_outputJson := out, tk_status := to, tk_updatedAt := t, tk_errorCode := err, tk_completedAt := Some t\<rparr>) s)
           else (Inl (Transition_cas_failed ''task'' tid from to), put_task tid (r\<lparr>tk_outputJson := out, tk_updatedAt := t\<rparr>) s)
       | None \<Rightarrow> (Inl (Transition_cas_failed ''task'' tid from to), s))"
  by (auto simp: prog_simps updateTaskOutput_def task_cas_eval cas_failed_def put_task_def split: option.split)

lemma terminal_writes_eval:
  assumes ok: "sessions_ok s"
  shows "if statuses_current i s then terminal_writes i s s = (Inr (), ended_store i s) else (\<exists>e s'. terminal_writes i s s = (Inl e, s'))"
proof (cases "\<exists>r. task_of s (ti_taskId i) = Some r \<and> tk_status r = ti_currentTaskStatus i")
  case False
  then show ?thesis
    by (auto simp: statuses_current_def task_status_def terminal_writes_def Let_def write_task_eval split: option.split)
next
  case True
  then obtain r where r: "task_of s (ti_taskId i) = Some r" "tk_status r = ti_currentTaskStatus i" by blast
  define s2 where "s2 = put_task (ti_taskId i) (terminal_task i r) s"
  define s3 where "s3 = (case workflow_of s (ti_taskId i) of None \<Rightarrow> s2 | Some w \<Rightarrow> put_workflow (ti_taskId i) (terminal_workflow i w) s2)"
  define s4 where "s4 = s3\<lparr>lc_sessions := map (\<lambda>r. if se_id r = ti_sessionId i then terminal_session i r else r) (lc_sessions s)\<rparr>"
  define s5 where "s5 = (if moves_execution i s
    then put_execution (the (ti_executionId i)) (terminal_execution i (the (execution_of s (the (ti_executionId i))))) s4 else s4)"
  let ?t = "tc_occurredAt (ti_context i)" and ?done = "completed_or ''completed'' (ti_terminalStatus i)" and ?succ = "completed_or ''succeeded'' (ti_terminalStatus i)"
  have done_text: "(?done \<in> {''running'', ''completed''}) = (ti_terminalStatus i = TT_done)"
    by (cases "ti_terminalStatus i") (simp_all add: completed_or_def terminal_text_def)
  have wf: "(case workflow_of s (ti_taskId i) of None \<Rightarrow> returnP ()
      | Some w \<Rightarrow> bindP (updateWorkflowStateCas (ti_taskId i) (wf_currentStepIndex w) (ti_currentWorkflowStatus i) ?done
                   (wf_currentStepIndex w) (ti_outputsJson i) ?t None) (\<lambda>affected.
                 cas_failed ''workflow'' affected (ti_taskId i) (ti_currentWorkflowStatus i) ?done)) s2
    = (if workflow_of s (ti_taskId i) \<noteq> None \<longrightarrow> workflow_status s (ti_taskId i) = Some (ti_currentWorkflowStatus i) then (Inr (), s3)
       else (Inl (Transition_cas_failed ''workflow'' (ti_taskId i) (ti_currentWorkflowStatus i) ?done), s2))"
    by (auto simp: s3_def s2_def prog_simps workflow_cas_eval cas_failed_def workflow_status_def terminal_workflow_def done_text simp del: insert_iff
        split: option.split)
  have se: "bindP (updateSessionStatusCas (ti_sessionId i) (ti_currentSessionStatus i) ?done ?t) (\<lambda>n.
      bindP (cas_failed ''session'' n (ti_sessionId i) (ti_currentSessionStatus i) ?done) (\<lambda>_. m)) s3
    = (if session_status s (ti_sessionId i) = Some (ti_currentSessionStatus i) then m s4
       else (Inl (Transition_cas_failed ''session'' (ti_sessionId i) (ti_currentSessionStatus i) ?done), s3))" for m :: "unit lifecycle_prog"
  proof -
    have "sessions_ok s3" "session_of s3 = session_of s" "lc_sessions s3 = lc_sessions s"
      using ok by (auto simp: s3_def s2_def split: option.split)
    then show ?thesis
      by (auto simp: prog_simps session_cas_eval cas_failed_def session_status_def s4_def terminal_session_def split: option.split cong: if_cong)
  qed
  have exec3: "execution_of s4 = execution_of s" by (auto simp: s4_def s3_def s2_def split: option.split)
  have ex: "(if moves_execution i s
      then bindP (updateExecutionStatusCas (the (resolveExistingExecutionRef (ti_executionId i) s)) (ti_currentExecutionStatus i) ?succ ?t None (Some ?t) (terminal_error i)) (\<lambda>affected.
           cas_failed ''execution'' affected (the (resolveExistingExecutionRef (ti_executionId i) s)) (ti_currentExecutionStatus i) ?succ)
      else returnP ()) s4
    = (if moves_execution i s \<longrightarrow> execution_status s (the (ti_executionId i)) = Some (ti_currentExecutionStatus i) then (Inr (), s5)
       else (Inl (Transition_cas_failed ''execution'' (the (ti_executionId i)) (ti_currentExecutionStatus i) ?succ), s4))"
  proof (cases "moves_execution i s")
    case True
    then obtain x where "resolveExistingExecutionRef (ti_executionId i) s = Some (the (ti_executionId i))" "execution_of s (the (ti_executionId i)) = Some x"
      by (rule execution_ref)
    then show ?thesis using True
      by (auto simp: prog_simps execution_cas_eval cas_failed_def execution_status_def s5_def exec3 terminal_execution_def)
  qed (simp add: s5_def prog_simps)
  have "task_of s5 (ti_taskId i) \<noteq> None" "resolveExistingExecutionRef (ti_executionId i) s5 = resolveExistingExecutionRef (ti_executionId i) s"
    by (auto simp: s5_def s4_def s3_def s2_def resolveExistingExecutionRef_def moves_execution_def split: option.split bind_splits)
  then have ev: "createTier1StatusEvent (Some (ti_taskId i)) None (resolveExistingExecutionRef (ti_executionId i) s) ''task:status_changed''
      (ti_currentTaskStatus i) (terminal_text (ti_terminalStatus i)) (ti_context i) s5 = (Inr (), ended_store i s)"
    unfolding ended_store_steps [OF r(1), folded s2_def, folded s3_def, folded s4_def, folded s5_def, symmetric]
    by (subst tier1_event_eval) (auto simp: terminal_event_def resolveExistingExecutionRef_def Let_def split: option.split bind_splits)
  have "terminal_writes i s s = (if workflow_of s (ti_taskId i) \<noteq> None \<longrightarrow> workflow_status s (ti_taskId i) = Some (ti_currentWorkflowStatus i)
      then if session_status s (ti_sessionId i) = Some (ti_currentSessionStatus i)
        then if moves_execution i s \<longrightarrow> execution_status s (the (ti_executionId i)) = Some (ti_currentExecutionStatus i) then (Inr (), ended_store i s)
          else (Inl (Transition_cas_failed ''execution'' (the (ti_executionId i)) (ti_currentExecutionStatus i) ?succ), s4)
        else (Inl (Transition_cas_failed ''session'' (ti_sessionId i) (ti_currentSessionStatus i) ?done), s3)
      else (Inl (Transition_cas_failed ''workflow'' (ti_taskId i) (ti_currentWorkflowStatus i) ?done), s2))"
    unfolding terminal_writes_def Let_def write_task_eval r option.case if_P [OF HOL.refl] terminal_task_def [symmetric] s2_def [symmetric]
    by (subst bindP_def, subst wf) (simp add: se bindP_def [of "if moves_execution i s then _ else _"] ex ev)
  then show ?thesis using r by (auto simp: statuses_current_def task_status_def)
qed

lemma terminal_apply:
  assumes ok: "sessions_ok s"
  shows "if terminal_admissible i s then applyTaskTerminalState i s = (Inr (), ended_store i s) else (\<exists>e s'. applyTaskTerminalState i s = (Inl e, s'))"
proof (cases "terminal_allowed i s")
  case True
  then have "applyTaskTerminalState i s = terminal_writes i s s" using terminal_checks_eval [of i s] by (simp add: terminal_split bindP_run)
  then show ?thesis using terminal_writes_eval [OF ok, of i] True by (simp add: terminal_admissible_def)
next
  case False
  then obtain e where "terminal_checks i s s = (Inl e, s)" using terminal_checks_eval [of i s] by auto
  with False show ?thesis by (simp add: terminal_split bindP_def terminal_admissible_def)
qed


section \<open>Blocking for an approval\<close>

text \<open>The statuses of all entities, and what a single transition that returns has done to them.\<close>

definition statuses :: "lifecycle_store \<Rightarrow> (ident \<Rightarrow> string option) \<times> (ident \<Rightarrow> string option) \<times> (ident \<Rightarrow> string option) \<times> (ident \<Rightarrow> string option)" where
  "statuses s = (task_status s, workflow_status s, session_status s, execution_status s)"

lemma transaction_ok: "lifecycle_transaction m s = (Inr x, s') \<longleftrightarrow> m s = (Inr x, s')"
  by (auto simp: lifecycle_transaction_def split: prod.split sum.split)

lemma event_statuses:
  "createTier1StatusEvent tsk se x ty from to ctx s = (Inr u, s') \<Longrightarrow> statuses s' = statuses s \<and> lc_approvals s' = lc_approvals s \<and> lc_sessions s' = lc_sessions s"
  "insertLifecycleEvent tsk x e s = (Inr u, s') \<Longrightarrow> statuses s' = statuses s \<and> lc_approvals s' = lc_approvals s \<and> lc_sessions s' = lc_sessions s"
proof -
  show insert: "insertLifecycleEvent tsk x e s = (Inr u, s') \<Longrightarrow> statuses s' = statuses s \<and> lc_approvals s' = lc_approvals s \<and> lc_sessions s' = lc_sessions s" for tsk x e s u s'
    by (auto simp: insertLifecycleEvent_def prog_simps status_defs statuses_def fun_eq_iff split: if_splits)
  show "createTier1StatusEvent tsk se x ty from to ctx s = (Inr u, s') \<Longrightarrow> statuses s' = statuses s \<and> lc_approvals s' = lc_approvals s \<and> lc_sessions s' = lc_sessions s"
    by (auto simp: createTier1StatusEvent_def Let_def transaction_ok prog_ok dest!: insert) (auto simp: status_defs statuses_def fun_eq_iff)
qed

lemma applyTask_ok:
  assumes "applyTask x c s = (Inr u, s')"
  shows "task_status s (sc_entityId c) = Some (sc_fromStatus c)
    \<and> statuses s' = ((task_status s)(sc_entityId c \<mapsto> sc_toStatus c), workflow_status s, session_status s, execution_status s) \<and> lc_approvals s' = lc_approvals s \<and> lc_sessions s' = lc_sessions s"
  using assms
  by (auto simp: applyTask_def assertTransition_def Let_def transaction_ok prog_ok task_cas_eval cas_failed_def task_status_def [of s]
      split: option.splits if_splits dest!: event_statuses) (auto simp: statuses_def)

lemma applyWorkflow_ok:
  assumes "applyWorkflow n out c s = (Inr u, s')"
  shows "workflow_status s (sc_entityId c) = Some (sc_fromStatus c)
    \<and> statuses s' = (task_status s, (workflow_status s)(sc_entityId c \<mapsto> sc_toStatus c), session_status s, execution_status s) \<and> lc_approvals s' = lc_approvals s \<and> lc_sessions s' = lc_sessions s"
  using assms
  by (auto simp: applyWorkflow_def assertTransition_def prog_ok workflow_cas_eval cas_failed_def workflow_status_def [of s]
      split: option.splits if_splits dest!: event_statuses) (auto simp: statuses_def)

lemma applyExecution_ok:
  assumes "applyExecution c s = (Inr u, s')"
  shows "execution_status s (sc_entityId c) = Some (sc_fromStatus c)
    \<and> statuses s' = (task_status s, workflow_status s, session_status s, (execution_status s)(sc_entityId c \<mapsto> sc_toStatus c)) \<and> lc_approvals s' = lc_approvals s \<and> lc_sessions s' = lc_sessions s"
  using assms
  by (auto simp: applyExecution_def assertTransition_def Let_def transaction_ok prog_ok execution_cas_eval cas_failed_def execution_status_def [of s]
      split: option.splits if_splits dest!: event_statuses) (auto simp: statuses_def)

lemma session_status_map:
  assumes "\<And>r. se_id (f r) = se_id r" and "\<And>r. se_status (f r) = to" and "session_of s i = Some r"
  shows "session_status (s\<lparr>lc_sessions := map (\<lambda>r. if se_id r = i then f r else r) (lc_sessions s)\<rparr>) = (session_status s)(i \<mapsto> to)"
proof
  fix j
  show "session_status (s\<lparr>lc_sessions := map (\<lambda>r. if se_id r = i then f r else r) (lc_sessions s)\<rparr>) j = ((session_status s)(i \<mapsto> to)) j"
    using assms(2,3) session_status_update [of f j i "lc_sessions s", OF assms(1)]
    by (cases "find (\<lambda>r. se_id r = i) (lc_sessions s)") (auto simp: session_status_def session_of_def)
qed

lemma applySession_ok:
  assumes ok: "sessions_ok s" and run: "applySession c s = (Inr u, s')"
  shows "session_status s (sc_entityId c) = Some (sc_fromStatus c)
    \<and> statuses s' = (task_status s, workflow_status s, (session_status s)(sc_entityId c \<mapsto> sc_toStatus c), execution_status s) \<and> lc_approvals s' = lc_approvals s"
proof -
  obtain r where r: "session_of s (sc_entityId c) = Some r" "se_status r = sc_fromStatus c"
    using run by (auto simp: applySession_def assertTransition_def prog_ok session_cas_eval [OF ok] cas_failed_def split: option.splits if_splits)
  let ?f = "\<lambda>r. r\<lparr>se_status := sc_toStatus c, se_updatedAt := tc_occurredAt (sc_context c)\<rparr>"
  let ?s = "s\<lparr>lc_sessions := map (\<lambda>r. if se_id r = sc_entityId c then ?f r else r) (lc_sessions s)\<rparr>"
  have "statuses s' = statuses ?s \<and> lc_approvals s' = lc_approvals ?s"
    using run r by (auto simp: applySession_def assertTransition_def prog_ok session_cas_eval [OF ok] cas_failed_def split: if_splits dest!: event_statuses)
  moreover have "session_status ?s = (session_status s)(sc_entityId c \<mapsto> sc_toStatus c)" by (rule session_status_map [OF _ _ r(1)]) simp_all
  moreover have "task_status ?s = task_status s" "workflow_status ?s = workflow_status s" "execution_status ?s = execution_status s"
    by (simp_all add: task_status_def workflow_status_def execution_status_def fun_eq_iff)
  ultimately show ?thesis using r by (simp add: statuses_def session_status_def [of s])
qed

text \<open>
  C13. Blocking an execution for an approval is one step: when the call returns, the task awaits a decision, the workflow is paused, the session
  awaits the user, the execution is blocked, each from the status that the caller gave, no other status has changed, and the only new
  approval is requested; when it throws nothing has changed.
\<close>

theorem approval_block_atomic:
  assumes ok: "sessions_ok s"
  shows "case transitionBlockedForApproval i s of
      (Inl e, s') \<Rightarrow> s' = s
    | (Inr r, s') \<Rightarrow> task_status s (bi_taskId i) = Some (bi_currentTaskStatus i) \<and> workflow_status s (bi_taskId i) = Some (bi_currentWorkflowStatus i)
        \<and> session_status s (bi_sessionId i) = Some (bi_currentSessionStatus i) \<and> execution_status s (bi_executionId i) = Some (bi_currentExecutionStatus i)
        \<and> statuses s' = ((task_status s)(bi_taskId i \<mapsto> ''awaiting_decision''), (workflow_status s)(bi_taskId i \<mapsto> ''paused''),
             (session_status s)(bi_sessionId i \<mapsto> ''awaiting_user''), (execution_status s)(bi_executionId i \<mapsto> ''blocked''))
        \<and> approval_of s (bi_approvalId i) = None
        \<and> (\<exists>a. lc_approvals s' = lc_approvals s @ [a] \<and> ap_id a = bi_approvalId i \<and> ap_status a = ''requested'' \<and> ap_executionId a = Some (bi_executionId i))"
proof (cases "transitionBlockedForApproval i s")
  case (Pair r s')
  show ?thesis
  proof (cases r)
    case (Inl e)
    then show ?thesis using Pair by (auto simp: transitionBlockedForApproval_def lifecycle_transaction_def split: prod.splits sum.splits)
  next
    case (Inr u)
    let ?c = "\<lambda>entity from to. \<lparr>sc_entityId = entity, sc_fromStatus = from, sc_toStatus = to, sc_context = bi_context i\<rparr>"
    obtain s1 s2 s3 s4 s5 a where st:
        "applyTask (Some (bi_executionId i)) (?c (bi_taskId i) (bi_currentTaskStatus i) ''awaiting_decision'') s = (Inr (), s1)"
        "applyWorkflow (bi_workflowCurrentStepIndex i) (bi_workflowOutputsJson i) (?c (bi_taskId i) (bi_currentWorkflowStatus i) ''paused'') s1 = (Inr (), s2)"
        "applySession (?c (bi_sessionId i) (bi_currentSessionStatus i) ''awaiting_user'') s2 = (Inr (), s3)"
        "applyExecution (?c (bi_executionId i) (bi_currentExecutionStatus i) ''blocked'') s3 = (Inr (), s4)"
        "insertApproval a s4 = (Inr (), s5)" "ap_id a = bi_approvalId i" "ap_status a = ''requested''" "ap_executionId a = Some (bi_executionId i)"
        "\<exists>e. insertLifecycleEvent (Some (bi_taskId i)) (Some (bi_executionId i)) e s5 = (Inr (), s')"
      using Pair Inr by (fastforce simp: transitionBlockedForApproval_def transaction_ok applyBlockedForApproval_def Let_def prog_ok)
    note t1 = applyTask_ok [OF st(1)] and t2 = applyWorkflow_ok [OF st(2)] and t4 = applyExecution_ok [OF st(4)]
    have "sessions_ok s2" using t1 t2 ok by (simp add: sessions_ok_def)
    note t3 = applySession_ok [OF this st(3)]
    have t5: "approval_of s4 (bi_approvalId i) = None" "lc_approvals s5 = lc_approvals s4 @ [a]" "statuses s5 = statuses s4"
      using st(5,6) by (auto simp: insertApproval_def prog_ok statuses_def status_defs fun_eq_iff)
    have t6: "statuses s' = statuses s5 \<and> lc_approvals s' = lc_approvals s5" using st(9) event_statuses(2) by blast
    show ?thesis using t1 t2 t3 t4 t5 t6 st(6-8) Pair Inr by (auto simp: statuses_def approval_of_def)
  qed
qed

section \<open>A concrete store\<close>

definition demo_session :: session_row where
  "demo_session = \<lparr>se_id = ''s1'', se_taskId = ''t1'', se_status = ''streaming'', se_createdAt = 0, se_updatedAt = 0\<rparr>"

definition lifecycle_demo :: lifecycle_store where
  "lifecycle_demo = \<lparr>lc_dispatch = dispatch_demo, lc_sessions = [demo_session], lc_approvals = [], lc_events = [], lc_outbox = [], lc_heartbeats = [],
     lc_remoteLogs = []\<rparr>"

definition demo_context :: transition_context where
  "demo_context = \<lparr>tc_reasonCode = ''worker.writeback.done'', tc_traceId = ''tr'', tc_actorType = ''agent'', tc_actorId = Some ''w1'', tc_occurredAt = 200\<rparr>"

definition demo_terminal :: terminal_input where
  "demo_terminal = \<lparr>ti_taskId = ''t1'', ti_sessionId = ''s1'', ti_executionId = Some ''e1'', ti_currentTaskStatus = ''in_progress'',
     ti_currentWorkflowStatus = ''running'', ti_currentSessionStatus = ''streaming'', ti_currentExecutionStatus = ''executing'',
     ti_terminalStatus = TT_done, ti_taskOutputJson = Some ''{}'', ti_outputsJson = ''{}'', ti_context = demo_context\<rparr>"

definition demo_block :: approval_block_input where
  "demo_block = \<lparr>bi_taskId = ''t1'', bi_sessionId = ''s1'', bi_executionId = ''e1'', bi_currentTaskStatus = ''in_progress'',
     bi_currentWorkflowStatus = ''running'', bi_currentSessionStatus = ''streaming'', bi_currentExecutionStatus = ''executing'',
     bi_workflowCurrentStepIndex = 1, bi_workflowOutputsJson = ''{}'', bi_approvalId = ''a1'',
     bi_approval = \<lparr>ba_sourceAgentId = ''w1'', ba_reason = ''deploy'', ba_riskLevel = ''high'', ba_options = [''approve'', ''reject''], ba_timeoutPolicy = ''reject''\<rparr>,
     bi_createdAt = None, bi_context = demo_context\<rparr>"

lemmas lifecycle_demo_defs = lifecycle_demo_def dispatch_demo_def lease_demo_def demo_execution_def demo_task_def demo_session_def

lemma demo_sessions: "sessions_ok lifecycle_demo"
  by (simp add: sessions_ok_def lifecycle_demo_def)

lemma demo_admissible: "terminal_admissible demo_terminal lifecycle_demo"
  by (simp add: terminal_admissible_def statuses_current_def terminal_allowed_def demo_terminal_def task_status_def workflow_status_def session_status_def
      execution_status_def session_of_def lifecycle_demo_defs transition_allowed_def successors_def TASK_TRANSITIONS_def WORKFLOW_TRANSITIONS_def
      SESSION_TRANSITIONS_def EXECUTION_TRANSITIONS_def terminal_text_def completed_or_def)


lemma demo_block_runs: "\<exists>s'. transitionBlockedForApproval demo_block lifecycle_demo = (Inr (''a1'', 200), s')"
  by (simp add: transitionBlockedForApproval_def transaction_ok applyBlockedForApproval_def Let_def prog_simps applyTask_def applyWorkflow_def
      applySession_def applyExecution_def assertTransition_def transition_allowed_def successors_def task_cas_eval workflow_cas_eval execution_cas_eval
      session_cas_eval sessions_ok_def session_of_def cas_failed_def tier1_event_eval insertApproval_def insertLifecycleEvent_def approval_of_def
      resolveTaskIdForExecution_def resolveExistingExecutionRef_def put_task_def put_workflow_def put_execution_def demo_block_def demo_context_def
      lifecycle_demo_defs TASK_TRANSITIONS_def WORKFLOW_TRANSITIONS_def SESSION_TRANSITIONS_def EXECUTION_TRANSITIONS_def lifecycle_transaction_def)

theorem approval_block_atomic_witness:
  "\<exists>r s'. transitionBlockedForApproval demo_block lifecycle_demo = (Inr r, s') \<and> execution_status s' ''e1'' = Some ''blocked''"
proof -
  obtain s' where run: "transitionBlockedForApproval demo_block lifecycle_demo = (Inr (''a1'', 200), s')" using demo_block_runs by blast
  have "statuses s' = ((task_status lifecycle_demo)(''t1'' \<mapsto> ''awaiting_decision''), (workflow_status lifecycle_demo)(''t1'' \<mapsto> ''paused''),
      (session_status lifecycle_demo)(''s1'' \<mapsto> ''awaiting_user''), (execution_status lifecycle_demo)(''e1'' \<mapsto> ''blocked''))"
    using approval_block_atomic [OF demo_sessions, of demo_block] run by (simp add: demo_block_def)
  with run show ?thesis by (simp add: statuses_def)
qed

end
