(* ===== verification/Resource_Ceiling.thy ===== *)
theory Resource_Ceiling
  imports Execution_Lease
begin

text \<open>
  The guard that compares the usage of an execution with configured ceilings
  (\<^verbatim>\<open>src/src/platform/five-plane-execution/dispatcher/execution-resource-ceiling-guard.ts\<close>), with the environment
  reader of \<^verbatim>\<open>src/src/platform/shared/runtime-env.ts\<close>. An option of the constructor is \<open>None\<close> when it is absent and \<open>Some None\<close> when it is null;
  an environment value is \<open>None\<close> when the variable is not set or not a positive number, which the reader reports as null. A start that is not a time has
  no elapsed time. The messages of findings are left out.
\<close>

datatype ceiling_dimension = Tool_calls | Memory_mb | Elapsed_ms

record ceiling_options =
  co_maxToolCalls :: "rat option option"
  co_maxMemoryMb :: "rat option option"
  co_maxElapsedMs :: "rat option option"

record ceiling_env =
  ce_maxToolCalls :: "int option"
  ce_maxMemoryMb :: "int option"
  ce_maxElapsedMs :: "int option"

record usage_sample =
  us_executionId :: ident
  us_taskId :: ident
  us_agentId :: ident
  us_status :: string
  us_runtimeInstanceId :: "ident option"
  us_currentStepId :: "ident option"
  us_toolCallCount :: "rat option"
  us_memoryMb :: "rat option"
  us_startedAt :: "stored_time option"
  us_now :: timestamp

record ceiling_finding =
  cf_executionId :: ident
  cf_taskId :: ident
  cf_agentId :: ident
  cf_status :: string
  cf_runtimeInstanceId :: "ident option"
  cf_currentStepId :: "ident option"
  cf_observedAt :: timestamp
  cf_dimension :: ceiling_dimension
  cf_actual :: int
  cf_limit :: int

definition ceiling_reason :: "ceiling_dimension \<Rightarrow> string" where
  "ceiling_reason d = (case d of
      Tool_calls \<Rightarrow> ''agent.resource_limit.tool_calls_exceeded''
    | Memory_mb \<Rightarrow> ''agent.resource_limit.memory_exceeded''
    | Elapsed_ms \<Rightarrow> ''agent.resource_limit.elapsed_exceeded'')"

definition DEFAULT_MAX_TOOL_CALLS :: int where "DEFAULT_MAX_TOOL_CALLS = 64"
definition DEFAULT_MAX_MEMORY_MB :: int where "DEFAULT_MAX_MEMORY_MB = 2048"
definition DEFAULT_MAX_ELAPSED_MS :: int where "DEFAULT_MAX_ELAPSED_MS = 15 * 60 * 1000"

text \<open>The argument is undefined (\<open>None\<close>), null (\<open>Some None\<close>) or a number.\<close>

definition resolveLimit :: "rat option option \<Rightarrow> int \<Rightarrow> int option" where
  "resolveLimit value fallback =
     (case value of
        Some None \<Rightarrow> None
      | None \<Rightarrow> Some fallback
      | Some (Some v) \<Rightarrow> if v \<le> 0 then Some fallback else Some (js_trunc v))"

record ceiling_guard =
  cg_maxToolCalls :: "int option"
  cg_maxMemoryMb :: "int option"
  cg_maxElapsedMs :: "int option"

text \<open>\<^verbatim>\<open>option ?? environment\<close>: the environment decides for an absent and for a null option.\<close>

definition configured :: "rat option option \<Rightarrow> int option \<Rightarrow> rat option option" where
  "configured option env = (case option of Some (Some v) \<Rightarrow> Some (Some v) | _ \<Rightarrow> Some (map_option of_int env))"

definition newCeilingGuard :: "ceiling_options \<Rightarrow> ceiling_env \<Rightarrow> ceiling_guard" where
  "newCeilingGuard opts env =
     \<lparr>cg_maxToolCalls = resolveLimit (configured (co_maxToolCalls opts) (ce_maxToolCalls env)) DEFAULT_MAX_TOOL_CALLS,
      cg_maxMemoryMb = resolveLimit (configured (co_maxMemoryMb opts) (ce_maxMemoryMb env)) DEFAULT_MAX_MEMORY_MB,
      cg_maxElapsedMs = resolveLimit (configured (co_maxElapsedMs opts) (ce_maxElapsedMs env)) DEFAULT_MAX_ELAPSED_MS\<rparr>"

definition buildFinding :: "usage_sample \<Rightarrow> ceiling_dimension \<Rightarrow> int \<Rightarrow> int \<Rightarrow> ceiling_finding" where
  "buildFinding u d actual limit =
     \<lparr>cf_executionId = us_executionId u, cf_taskId = us_taskId u, cf_agentId = us_agentId u, cf_status = us_status u,
      cf_runtimeInstanceId = us_runtimeInstanceId u, cf_currentStepId = us_currentStepId u, cf_observedAt = us_now u,
      cf_dimension = d, cf_actual = actual, cf_limit = limit\<rparr>"

definition elapsedMs :: "usage_sample \<Rightarrow> int option" where
  "elapsedMs u = (case us_startedAt u of Some (At started) \<Rightarrow> Some (max 0 (us_now u - started)) | _ \<Rightarrow> None)"

definition evaluateUsage :: "ceiling_guard \<Rightarrow> usage_sample \<Rightarrow> ceiling_finding list" where
  "evaluateUsage g u =
     (case (cg_maxToolCalls g, us_toolCallCount u) of
        (Some limit, Some n) \<Rightarrow> if n > of_int limit then [buildFinding u Tool_calls (js_trunc n) limit] else []
      | _ \<Rightarrow> [])
     @ (case (cg_maxMemoryMb g, us_memoryMb u) of
        (Some limit, Some n) \<Rightarrow> if n > of_int limit then [buildFinding u Memory_mb (js_trunc n) limit] else []
      | _ \<Rightarrow> [])
     @ (case (cg_maxElapsedMs g, elapsedMs u) of
        (Some limit, Some n) \<Rightarrow> if n > limit then [buildFinding u Elapsed_ms n limit] else []
      | _ \<Rightarrow> [])"

definition firstFinding :: "ceiling_guard \<Rightarrow> usage_sample \<Rightarrow> ceiling_finding option" where
  "firstFinding g u = (case evaluateUsage g u of [] \<Rightarrow> None | f # _ \<Rightarrow> Some f)"

section \<open>What the guard finds\<close>

definition over :: "int option \<Rightarrow> rat option \<Rightarrow> bool" where
  "over limit used \<longleftrightarrow> (\<exists>l n. limit = Some l \<and> used = Some n \<and> of_int l < n)"

lemma over_simps [simp]: "over None u = False" "over m None = False" "over (Some l) (Some n) = (of_int l < n)"
  by (simp_all add: over_def)

lemma firstFinding_None_iff:
  "firstFinding g u = None \<longleftrightarrow> \<not> over (cg_maxToolCalls g) (us_toolCallCount u) \<and> \<not> over (cg_maxMemoryMb g) (us_memoryMb u)
     \<and> \<not> over (cg_maxElapsedMs g) (map_option of_int (elapsedMs u))"
  by (cases "cg_maxToolCalls g"; cases "us_toolCallCount u"; cases "cg_maxMemoryMb g"; cases "us_memoryMb u"; cases "cg_maxElapsedMs g"; cases "elapsedMs u")
    (simp_all add: firstFinding_def evaluateUsage_def)

lemma evaluate_dimensions:
  "map cf_dimension (evaluateUsage g u) =
     (if over (cg_maxToolCalls g) (us_toolCallCount u) then [Tool_calls] else [])
     @ (if over (cg_maxMemoryMb g) (us_memoryMb u) then [Memory_mb] else [])
     @ (if over (cg_maxElapsedMs g) (map_option of_int (elapsedMs u)) then [Elapsed_ms] else [])"
  by (cases "cg_maxToolCalls g"; cases "us_toolCallCount u"; cases "cg_maxMemoryMb g"; cases "us_memoryMb u"; cases "cg_maxElapsedMs g"; cases "elapsedMs u")
    (simp_all add: evaluateUsage_def buildFinding_def)

definition same_option :: "rat option option \<Rightarrow> ceiling_options" where
  "same_option x = \<lparr>co_maxToolCalls = x, co_maxMemoryMb = x, co_maxElapsedMs = x\<rparr>"

definition same_env :: "int option \<Rightarrow> ceiling_env" where
  "same_env x = \<lparr>ce_maxToolCalls = x, ce_maxMemoryMb = x, ce_maxElapsedMs = x\<rparr>"

text \<open>
  The built-in ceilings (64 tool calls, 2048 MB, 15 minutes) are not what an unconfigured guard enforces: with no option and no environment
  variable the guard has no ceiling at all and reports nothing for any usage; the built-in values only replace an option or variable that is not
  positive. A null option, which is documented as no limit, is overridden by the environment.
\<close>

theorem unconfigured_guard_has_no_ceiling:
  "firstFinding (newCeilingGuard (same_option None) (same_env None)) u = None \<and> firstFinding (newCeilingGuard (same_option (Some None)) (same_env None)) u = None
    \<and> newCeilingGuard (same_option (Some None)) (same_env (Some n)) = newCeilingGuard (same_option None) (same_env (Some n))
    \<and> cg_maxToolCalls (newCeilingGuard (same_option (Some (Some 0))) (same_env None)) = Some DEFAULT_MAX_TOOL_CALLS"
  by (simp add: firstFinding_None_iff newCeilingGuard_def configured_def resolveLimit_def js_trunc_def same_option_def same_env_def)

end
