(* ===== verification/Worker_Handshake.thy ===== *)
theory Worker_Handshake
  imports Transition_Service Resource_Ceiling
begin

text \<open>
  How a worker takes up and keeps an execution (\<^verbatim>\<open>src/src/platform/five-plane-execution/worker-pool/execution-worker-handshake-service.ts\<close> with its support
  and type modules): the claim of a dispatched ticket and the heartbeats that renew the lease.

  The store is the one of the transition service; the map that suppresses repeated events about refused claims belongs to the service and is
  kept beside it. The lease service brings its leadership guard, the resource guard its ceilings. What a worker reports is a record, with an option of an
  option for a field that may be absent or null. Of event payloads the worker, the lease and the reason are kept; the context of remote logs
  and the plan texts of agent records are left out.
\<close>

section \<open>What workers report\<close>

record remote_log_input =
  rli_level :: string
  rli_message :: string
  rli_occurredAt :: "timestamp option"

record run_telemetry =
  rt_runtimeInstanceId :: "ident option option"
  rt_restartedFromRuntimeInstanceId :: "ident option option"
  rt_progressMessage :: "string option"
  rt_lastToolName :: "string option option"
  rt_toolCallCount :: "rat option"
  rt_cpuPct :: "rat option"
  rt_memoryMb :: "rat option"
  rt_workspaceSyncStatus :: "workspace_sync_status option option"
  rt_workspaceSyncCheckedAt :: "timestamp option option"
  rt_toolBacklogCount :: "rat option"
  rt_currentStepId :: "ident option option"
  rt_lastProgressAt :: "timestamp option"
  rt_remoteLogs :: "remote_log_input list"

record worker_telemetry = run_telemetry +
  wt_remoteSessionStatus :: "remote_session_status option option"
  wt_lastAcknowledgedStreamOffset :: "string option option"
  wt_streamResumeSuccessRate :: "rat option option"
  wt_credentialRefreshSuccessRate :: "rat option option"
  wt_sessionConsistencyCheckStatus :: "consistency_check_status option option"
  wt_sessionConsistencyCheckedAt :: "timestamp option option"
  wt_saturation :: "rat option option"
  wt_activeLeaseCount :: "rat option"
  wt_meanStartupLatencyMs :: "rat option option"
  wt_sandboxSuccessRate :: "rat option option"
  wt_repoCacheHitRate :: "rat option option"

record claim_input =
  cl_ticketId :: ident
  cl_workerId :: ident
  cl_leaseId :: ident
  cl_fencingToken :: int
  cl_telemetry :: worker_telemetry

record worker_heartbeat =
  wh_executionId :: ident
  wh_workerId :: ident
  wh_leaseId :: ident
  wh_fencingToken :: int
  wh_ttlMs :: int
  wh_telemetry :: worker_telemetry

record handshake_decision =
  hd_accepted :: bool
  hd_reasonCode :: "string option"
  hd_executionId :: "ident option"
  hd_ticketId :: "ident option"
  hd_leaseId :: ident

record handshake_env =
  he_guard :: "leadership_guard option"
  he_ceiling :: ceiling_guard
  he_rejectedClaimEventDedupTtlMs :: int

text \<open>The constructor: the time for which a refused claim is not reported again is at least a second.\<close>

definition new_handshake_env :: "leadership_guard option \<Rightarrow> ceiling_guard \<Rightarrow> int option \<Rightarrow> handshake_env" where
  "new_handshake_env guard limits ttl =
     \<lparr>he_guard = guard, he_ceiling = limits, he_rejectedClaimEventDedupTtlMs = max 1000 (coalesce ttl 30000)\<rparr>"

record handshake_state =
  hk_store :: lifecycle_store
  hk_recent :: "(string \<times> timestamp) list"

type_synonym 'a handshake_prog = "(handshake_state, lifecycle_error, 'a) prog"

definition callStore :: "'a lifecycle_prog \<Rightarrow> 'a handshake_prog" where
  "callStore m = (\<lambda>h. case m (hk_store h) of (r, s) \<Rightarrow> (r, h\<lparr>hk_store := s\<rparr>))"

section \<open>Support\<close>

text \<open>\<^verbatim>\<open>x ?? y\<close> where \<^verbatim>\<open>x\<close> may be absent or null.\<close>

definition nullish :: "'a option option \<Rightarrow> 'a option \<Rightarrow> 'a option" where
  "nullish x y = (case x of Some (Some v) \<Rightarrow> Some v | _ \<Rightarrow> y)"

definition block_text :: "authority_block_reason \<Rightarrow> string" where
  "block_text r = (case r of
      Viewer_only \<Rightarrow> ''remote_session_viewer_only''
    | Consistency_mismatch \<Rightarrow> ''remote_session_consistency_mismatch''
    | Sync_conflict \<Rightarrow> ''remote_workspace_sync_conflict''
    | Resume_offset_missing \<Rightarrow> ''remote_session_resume_offset_missing'')"

definition normalizeLeaseReason :: "string option \<Rightarrow> string option" where
  "normalizeLeaseReason reasonCode =
     (if reasonCode \<in> {Some ''lease_not_found'', Some ''lease_not_active'', Some ''lease_expired'', Some ''leader_region_mismatch'', Some ''worker_mismatch''}
      then reasonCode
      else if reasonCode = Some ''no_active_lease'' \<or> reasonCode = Some ''stale_fencing_token'' then reasonCode else None)"

record agent_updates =
  au_agentId :: ident
  au_runtimeInstanceId :: "ident option"
  au_restartedFromRuntimeInstanceId :: "ident option"
  au_restartGeneration :: int
  au_status :: string
  au_currentStepId :: "ident option"
  au_lastToolName :: "string option"
  au_toolCallCount :: rat
  au_progressMessage :: "string option"
  au_lastErrorCode :: "string option"
  au_startedAt :: "timestamp option"
  au_completedAt :: "timestamp option option"

definition buildAgentExecutionRecord :: "agent_row option \<Rightarrow> execution_row \<Rightarrow> timestamp \<Rightarrow> agent_updates \<Rightarrow> agent_row" where
  "buildAgentExecutionRecord existing execution occurredAt u =
     \<lparr>ag_agentId = au_agentId u, ag_runtimeInstanceId = au_runtimeInstanceId u,
      ag_restartedFromRuntimeInstanceId = au_restartedFromRuntimeInstanceId u, ag_restartGeneration = au_restartGeneration u,
      ag_status = au_status u, ag_currentStepId = au_currentStepId u, ag_lastToolName = au_lastToolName u,
      ag_toolCallCount = max 0 (js_trunc (au_toolCallCount u)), ag_lastErrorCode = au_lastErrorCode u,
      ag_retryCount = coalesce (map_option ag_retryCount existing) (max (ex_attempt execution - 1) 0),
      ag_progressMessage = au_progressMessage u,
      ag_startedAt = Some (coalesce (map_option At (au_startedAt u))
        (coalesce (Option.bind existing ag_startedAt) (coalesce (ex_startedAt execution) (At occurredAt)))),
      ag_createdAt = coalesce (map_option ag_createdAt existing) occurredAt, ag_updatedAt = occurredAt,
      ag_completedAt = keep (au_completedAt u) (Option.bind existing ag_completedAt)\<rparr>"

abbreviation agent_of :: "lifecycle_store \<Rightarrow> ident \<Rightarrow> agent_row option" where
  "agent_of s \<equiv> st_agents (ds_core (lc_dispatch s))"

abbreviation leases_of :: "lifecycle_store \<Rightarrow> execution_lease list" where
  "leases_of s \<equiv> st_leases (ds_core (lc_dispatch s))"

abbreviation tickets_of :: "lifecycle_store \<Rightarrow> execution_ticket list" where
  "tickets_of s \<equiv> ds_tickets (lc_dispatch s)"

abbreviation worker_of :: "lifecycle_store \<Rightarrow> ident \<Rightarrow> worker_snapshot option" where
  "worker_of s \<equiv> getWorkerSnapshot (rg_workers (st_registry (ds_core (lc_dispatch s))))"

definition upsertAgentExecutionRecord :: "ident \<Rightarrow> execution_row \<Rightarrow> timestamp \<Rightarrow> agent_updates \<Rightarrow> unit lifecycle_prog" where
  "upsertAgentExecutionRecord executionId execution occurredAt u =
     modifyP (\<lambda>s. let d = lc_dispatch s; c = ds_core d in
       s\<lparr>lc_dispatch := d\<lparr>ds_core := c\<lparr>st_agents := (st_agents c)(executionId \<mapsto>
         buildAgentExecutionRecord (st_agents c executionId) execution occurredAt u)\<rparr>\<rparr>\<rparr>)"

definition insertHeartbeatSnapshot :: "heartbeat_sample \<Rightarrow> unit lifecycle_prog" where
  "insertHeartbeatSnapshot h = modifyP (\<lambda>s. s\<lparr>lc_heartbeats := lc_heartbeats s @ [h]\<rparr>)"

text \<open>Logs whose message is blank are dropped.\<close>

definition remote_log_of :: "ident \<Rightarrow> ident \<Rightarrow> ident \<Rightarrow> ident option \<Rightarrow> timestamp \<Rightarrow> remote_log_input \<Rightarrow> remote_log option" where
  "remote_log_of taskId executionId workerId runtimeInstanceId defaultOccurredAt entry =
     (let message = js_trim (rli_message entry) in
      if message = [] then None
      else Some \<lparr>rl_taskId = taskId, rl_executionId = executionId, rl_workerId = workerId, rl_runtimeInstanceId = runtimeInstanceId,
        rl_level = rli_level entry, rl_message = message, rl_createdAt = coalesce (rli_occurredAt entry) defaultOccurredAt\<rparr>)"

definition persistRemoteLogs :: "ident \<Rightarrow> ident \<Rightarrow> ident \<Rightarrow> ident option \<Rightarrow> remote_log_input list \<Rightarrow> timestamp \<Rightarrow> unit lifecycle_prog" where
  "persistRemoteLogs taskId executionId workerId runtimeInstanceId remoteLogs defaultOccurredAt =
     modifyP (\<lambda>s. s\<lparr>lc_remoteLogs := lc_remoteLogs s
       @ List.map_filter (remote_log_of taskId executionId workerId runtimeInstanceId defaultOccurredAt) remoteLogs\<rparr>)"

definition recordRejectedEvent :: "worker_event_kind \<Rightarrow> ident \<Rightarrow> ident \<Rightarrow> ident \<Rightarrow> ident \<Rightarrow> string option \<Rightarrow> timestamp \<Rightarrow> unit lifecycle_prog" where
  "recordRejectedEvent kind taskId executionId workerId leaseId reasonCode occurredAt =
     insertLifecycleEvent (Some taskId) (Some executionId) (Worker_reported kind taskId executionId workerId leaseId reasonCode occurredAt)"

text \<open>The session fields on which authority depends: those of the report where it has them, else those of the snapshot.\<close>

definition reported_remote :: "worker_snapshot \<Rightarrow> worker_telemetry \<Rightarrow> worker_remote" where
  "reported_remote w r = (sn_remote w)\<lparr>
     wr_remoteSessionStatus := keep (wt_remoteSessionStatus r) (wr_remoteSessionStatus (sn_remote w)),
     wr_lastAcknowledgedStreamOffset := keep (wt_lastAcknowledgedStreamOffset r) (wr_lastAcknowledgedStreamOffset (sn_remote w)),
     wr_sessionConsistencyCheckStatus := keep (wt_sessionConsistencyCheckStatus r) (wr_sessionConsistencyCheckStatus (sn_remote w)),
     wr_workspaceSyncStatus := keep (rt_workspaceSyncStatus r) (wr_workspaceSyncStatus (sn_remote w))\<rparr>"

definition worker_untrusted :: "worker_snapshot \<Rightarrow> bool" where
  "worker_untrusted w \<longleftrightarrow> sn_placement w = WP_remote \<and> wr_registrationVerifiedAt (sn_remote w) = None"

definition handshake_heartbeat :: "worker_snapshot \<Rightarrow> ident \<Rightarrow> timestamp \<Rightarrow> worker_telemetry \<Rightarrow> heartbeat_input" where
  "handshake_heartbeat w executionId occurredAt r =
     (let runningExecutionIds = mergeExecutionIds (sn_runningExecutions w) executionId in
      \<lparr>hb_workerId = sn_workerId w, hb_status = toWorkerStatus w runningExecutionIds,
       hb_placement = None, hb_isolationLevel = None, hb_repoVersion = None,
       hb_remote = \<lparr>hr_remoteSessionStatus = wt_remoteSessionStatus r, hr_lastAcknowledgedStreamOffset = wt_lastAcknowledgedStreamOffset r,
         hr_streamResumeSuccessRate = wt_streamResumeSuccessRate r, hr_credentialRefreshSuccessRate = wt_credentialRefreshSuccessRate r,
         hr_sessionConsistencyCheckStatus = wt_sessionConsistencyCheckStatus r, hr_sessionConsistencyCheckedAt = wt_sessionConsistencyCheckedAt r,
         hr_workspaceSyncStatus = rt_workspaceSyncStatus r, hr_workspaceSyncCheckedAt = rt_workspaceSyncCheckedAt r,
         hr_repoCacheHitRate = wt_repoCacheHitRate r, hr_registrationVerifiedAt = None, hr_registrationChallengeId = None\<rparr>,
       hb_saturation = wt_saturation r, hb_activeLeaseCount = wt_activeLeaseCount r, hb_meanStartupLatencyMs = wt_meanStartupLatencyMs r,
       hb_sandboxSuccessRate = wt_sandboxSuccessRate r, hb_capabilities = sn_capabilities w, hb_runningExecutionIds = runningExecutionIds,
       hb_maxConcurrency = sn_maxConcurrency w, hb_queueAffinity = sn_queueAffinity w,
       hb_runtimeInstanceId = rt_runtimeInstanceId r, hb_restartedFromRuntimeInstanceId = rt_restartedFromRuntimeInstanceId r,
       hb_progressMessage = rt_progressMessage r, hb_cpuPct = coalesce_opt (rt_cpuPct r) (sn_cpuPct w),
       hb_memoryMb = coalesce_opt (rt_memoryMb r) (sn_memoryMb w),
       hb_toolBacklogCount = Some (coalesce (rt_toolBacklogCount r) (of_int (sn_toolBacklogCount w))),
       hb_currentStepId = Some (keep (rt_currentStepId r) (sn_currentStepId w)),
       hb_lastProgressAt = coalesce_opt (rt_lastProgressAt r)
         (if rt_progressMessage r \<notin> {None, Some []} then Some occurredAt else sn_lastProgressAt w)\<rparr>)"

definition callWorkers :: "(registry_state, registry_error, 'a) prog \<Rightarrow> 'a lifecycle_prog" where
  "callWorkers m = callDispatch (callLease (callRegistry m))"

definition refreshWorkerSnapshot :: "worker_snapshot \<Rightarrow> ident \<Rightarrow> timestamp \<Rightarrow> worker_telemetry \<Rightarrow> worker_view lifecycle_prog" where
  "refreshWorkerSnapshot w executionId occurredAt r = callWorkers (recordHeartbeat occurredAt (handshake_heartbeat w executionId occurredAt r))"

definition consumeExecutionTicket :: "ident \<Rightarrow> timestamp \<Rightarrow> unit lifecycle_prog" where
  "consumeExecutionTicket ticketId consumedAt = modifyP (\<lambda>s. s\<lparr>lc_dispatch := (lc_dispatch s)\<lparr>ds_tickets :=
     update_ticket (\<lambda>k. et_id k = ticketId) (\<lambda>k. k\<lparr>et_status := ''consumed'', et_consumedAt := Some consumedAt, et_updatedAt := consumedAt\<rparr>)
       (tickets_of s)\<rparr>\<rparr>)"

section \<open>Claiming\<close>

text \<open>Refused claims are reported once per ticket and reason within the configured time.\<close>

definition pruneRejectedClaimCache :: "handshake_env \<Rightarrow> timestamp \<Rightarrow> (string \<times> timestamp) list \<Rightarrow> (string \<times> timestamp) list" where
  "pruneRejectedClaimCache env currentMs recent = filter (\<lambda>(key, seenAtMs). \<not> currentMs - seenAtMs \<ge> he_rejectedClaimEventDedupTtlMs env) recent"

definition recordClaimRejectedEvent ::
    "handshake_env \<Rightarrow> execution_ticket \<Rightarrow> timestamp \<Rightarrow> string option \<Rightarrow> ident \<Rightarrow> ident \<Rightarrow> unit handshake_prog" where
  "recordClaimRejectedEvent env ticket occurredAt reasonCode workerId leaseId =
     (let dedupeKey = et_id ticket @ '':'' @ coalesce reasonCode ''unknown'' in
      bindP (modifyP (\<lambda>h. h\<lparr>hk_recent := pruneRejectedClaimCache env occurredAt (hk_recent h)\<rparr>)) (\<lambda>_.
      bindP (getsP (\<lambda>h. map_of (hk_recent h) dedupeKey)) (\<lambda>previousMs.
      if (case previousMs of None \<Rightarrow> False | Some p \<Rightarrow> occurredAt - p < he_rejectedClaimEventDedupTtlMs env) then returnP ()
      else bindP (modifyP (\<lambda>h. h\<lparr>hk_recent := jsmap_set dedupeKey occurredAt (hk_recent h)\<rparr>)) (\<lambda>_.
           callStore (recordRejectedEvent Claim_rejected (et_taskId ticket) (et_executionId ticket) workerId leaseId reasonCode occurredAt)))))"

definition claim_answer :: "bool \<Rightarrow> string option \<Rightarrow> ident option \<Rightarrow> ident \<Rightarrow> ident \<Rightarrow> handshake_decision" where
  "claim_answer accepted reasonCode executionId ticketId leaseId =
     \<lparr>hd_accepted = accepted, hd_reasonCode = reasonCode, hd_executionId = executionId, hd_ticketId = Some ticketId, hd_leaseId = leaseId\<rparr>"

definition claim_refused :: "handshake_env \<Rightarrow> execution_ticket \<Rightarrow> timestamp \<Rightarrow> claim_input \<Rightarrow> string option \<Rightarrow> handshake_decision handshake_prog" where
  "claim_refused env ticket occurredAt i reasonCode =
     bindP (recordClaimRejectedEvent env ticket occurredAt reasonCode (cl_workerId i) (cl_leaseId i)) (\<lambda>_.
     returnP (claim_answer False reasonCode (Some (et_executionId ticket)) (et_id ticket) (cl_leaseId i)))"

definition claim_usage :: "claim_input \<Rightarrow> worker_snapshot \<Rightarrow> ident \<Rightarrow> execution_row \<Rightarrow> timestamp \<Rightarrow> usage_sample" where
  "claim_usage i w executionId execution occurredAt =
     (let r = cl_telemetry i in
      \<lparr>us_executionId = executionId, us_taskId = ex_taskId execution, us_agentId = cl_workerId i, us_status = ex_status execution,
       us_runtimeInstanceId = nullish (rt_runtimeInstanceId r) (sn_runtimeInstanceId w), us_currentStepId = nullish (rt_currentStepId r) None,
       us_toolCallCount = Some (coalesce (rt_toolCallCount r) 0), us_memoryMb = coalesce_opt (rt_memoryMb r) (sn_memoryMb w),
       us_startedAt = Some (coalesce (ex_startedAt execution) (At (ex_createdAt execution))), us_now = occurredAt\<rparr>)"

text \<open>What a worker report writes: the heartbeat sample and the agent record.\<close>

definition heartbeat_sample_of :: "ident \<Rightarrow> ident \<Rightarrow> worker_view \<Rightarrow> string \<Rightarrow> string \<Rightarrow> worker_telemetry \<Rightarrow> timestamp \<Rightarrow> heartbeat_sample" where
  "heartbeat_sample_of executionId workerId view status fallback r occurredAt =
     \<lparr>hs_executionId = executionId, hs_agentId = workerId, hs_runtimeInstanceId = sn_runtimeInstanceId view,
      hs_restartGeneration = sn_restartGeneration view, hs_status = status, hs_progressMessage = Some (coalesce (rt_progressMessage r) fallback),
      hs_cpuPct = rt_cpuPct r, hs_memoryMb = rt_memoryMb r, hs_sampledAt = occurredAt\<rparr>"

definition report_updates ::
    "ident \<Rightarrow> worker_view \<Rightarrow> agent_row option \<Rightarrow> execution_row \<Rightarrow> string \<Rightarrow> string \<Rightarrow> worker_telemetry \<Rightarrow> agent_updates" where
  "report_updates workerId view existing execution status fallback r =
     \<lparr>au_agentId = workerId, au_runtimeInstanceId = sn_runtimeInstanceId view,
      au_restartedFromRuntimeInstanceId = sn_restartedFromRuntimeInstanceId view, au_restartGeneration = sn_restartGeneration view,
      au_status = status, au_currentStepId = keep (rt_currentStepId r) (Option.bind existing ag_currentStepId),
      au_lastToolName = keep (rt_lastToolName r) (Option.bind existing ag_lastToolName),
      au_toolCallCount = coalesce (rt_toolCallCount r) (of_int (coalesce (map_option ag_toolCallCount existing) 0)),
      au_progressMessage = Some (coalesce (rt_progressMessage r) fallback), au_lastErrorCode = ex_lastErrorCode execution,
      au_startedAt = None, au_completedAt = None\<rparr>"

definition accept_claim :: "claim_input \<Rightarrow> worker_snapshot \<Rightarrow> ident \<Rightarrow> ident \<Rightarrow> execution_row \<Rightarrow> timestamp \<Rightarrow> unit lifecycle_prog" where
  "accept_claim i w ticketId executionId execution occurredAt = lifecycle_transaction (
     let r = cl_telemetry i in
     bindP (consumeExecutionTicket ticketId occurredAt) (\<lambda>_.
     bindP (callDispatch (callLease (updateExecutionAgent executionId (cl_workerId i) occurredAt))) (\<lambda>_.
     bindP (if ex_status execution \<in> {''created'', ''prechecking'', ''blocked''}
            then callDispatch (updateExecutionStatus executionId ''executing'' (At occurredAt) (Some (At occurredAt)) None None)
            else returnP ()) (\<lambda>_.
     bindP (refreshWorkerSnapshot w executionId occurredAt r) (\<lambda>view.
     bindP (insertHeartbeatSnapshot (heartbeat_sample_of executionId (cl_workerId i) view ''executing'' ''worker claim accepted'' r occurredAt)) (\<lambda>_.
     bindP (getsP (\<lambda>s. agent_of s executionId)) (\<lambda>existing.
     bindP (upsertAgentExecutionRecord executionId execution occurredAt
       ((report_updates (cl_workerId i) view existing execution ''executing'' ''worker claim accepted'' r)
          \<lparr>au_startedAt := Some occurredAt, au_completedAt := Some None\<rparr>)) (\<lambda>_.
     bindP (insertLifecycleEvent (Some (ex_taskId execution)) (Some executionId)
       (Worker_reported Claim_accepted (ex_taskId execution) executionId (cl_workerId i) (cl_leaseId i) None occurredAt)) (\<lambda>_.
     persistRemoteLogs (ex_taskId execution) executionId (cl_workerId i) (sn_runtimeInstanceId view) (rt_remoteLogs r) occurredAt)))))))))"

definition write_check :: "handshake_env \<Rightarrow> timestamp \<Rightarrow> ident \<Rightarrow> ident \<Rightarrow> int \<Rightarrow> ident \<Rightarrow> write_validation lifecycle_prog" where
  "write_check env occurredAt executionId workerId fencingToken leaseId =
     callDispatch (callLease (validateWriteAccess (he_guard env) occurredAt
       \<lparr>wi_executionId = executionId, wi_workerId = workerId, wi_fencingToken = fencingToken, wi_leaseId = Some leaseId\<rparr>))"

definition claim_with_lease :: "handshake_env \<Rightarrow> timestamp \<Rightarrow> claim_input \<Rightarrow> execution_ticket \<Rightarrow> worker_snapshot \<Rightarrow> handshake_decision handshake_prog" where
  "claim_with_lease env occurredAt i ticket w =
     bindP (callStore (write_check env occurredAt (et_executionId ticket) (cl_workerId i) (cl_fencingToken i) (cl_leaseId i))) (\<lambda>validation.
     if \<not> va_allowed validation then claim_refused env ticket occurredAt i (va_reasonCode validation)
     else
       bindP (getsP (\<lambda>h. execution_of (hk_store h) (et_executionId ticket))) (\<lambda>found.
       case found of
         None \<Rightarrow> returnP (claim_answer False (Some ''execution_not_found'') (Some (et_executionId ticket)) (et_id ticket) (cl_leaseId i))
       | Some execution \<Rightarrow>
           (case firstFinding (he_ceiling env) (claim_usage i w (et_executionId ticket) execution occurredAt) of
              Some _ \<Rightarrow> claim_refused env ticket occurredAt i (Some ''resource_limit_exceeded'')
            | None \<Rightarrow>
                bindP (callStore (accept_claim i w (et_id ticket) (et_executionId ticket) execution occurredAt)) (\<lambda>_.
                returnP (claim_answer True None (Some (et_executionId ticket)) (et_id ticket) (cl_leaseId i))))))"

definition claimExecution :: "handshake_env \<Rightarrow> timestamp \<Rightarrow> claim_input \<Rightarrow> handshake_decision handshake_prog" where
  "claimExecution env occurredAt i =
     bindP (getsP (\<lambda>h. getExecutionTicket (cl_ticketId i) (tickets_of (hk_store h)))) (\<lambda>found.
     case found of
       None \<Rightarrow> returnP (claim_answer False (Some ''ticket_not_found'') None (cl_ticketId i) (cl_leaseId i))
     | Some ticket \<Rightarrow>
         bindP (getsP (\<lambda>h. worker_of (hk_store h) (cl_workerId i))) (\<lambda>worker.
         case worker of
           None \<Rightarrow> claim_refused env ticket occurredAt i (Some ''worker_not_registered'')
         | Some w \<Rightarrow>
             if worker_untrusted w then claim_refused env ticket occurredAt i (Some ''worker_not_trusted'')
             else if et_status ticket \<noteq> ''claimed'' then claim_refused env ticket occurredAt i (Some ''ticket_not_claimed'')
             else if et_assignedWorkerId ticket \<noteq> Some (cl_workerId i) then claim_refused env ticket occurredAt i (Some ''worker_mismatch'')
             else if et_leaseId ticket \<noteq> Some (cl_leaseId i) then claim_refused env ticket occurredAt i (Some ''lease_mismatch'')
             else (case resolveRemoteAuthorityBlockReason (sn_placement w) (reported_remote w (cl_telemetry i)) of
                     Some reason \<Rightarrow> claim_refused env ticket occurredAt i (Some (block_text reason))
                   | None \<Rightarrow> claim_with_lease env occurredAt i ticket w)))"

section \<open>Heartbeats\<close>

definition heartbeat_answer :: "bool \<Rightarrow> string option \<Rightarrow> worker_heartbeat \<Rightarrow> handshake_decision" where
  "heartbeat_answer accepted reasonCode i =
     \<lparr>hd_accepted = accepted, hd_reasonCode = reasonCode, hd_executionId = Some (wh_executionId i), hd_ticketId = None, hd_leaseId = wh_leaseId i\<rparr>"

definition heartbeat_refused :: "worker_heartbeat \<Rightarrow> execution_row \<Rightarrow> timestamp \<Rightarrow> string option \<Rightarrow> handshake_decision lifecycle_prog" where
  "heartbeat_refused i execution occurredAt reasonCode =
     bindP (recordRejectedEvent Heartbeat_rejected (ex_taskId execution) (wh_executionId i) (wh_workerId i) (wh_leaseId i) reasonCode occurredAt) (\<lambda>_.
     returnP (heartbeat_answer False reasonCode i))"

text \<open>The usage of an execution under way, and the agent record that notes a ceiling it exceeds.\<close>

definition running_usage ::
    "ident \<Rightarrow> ident \<Rightarrow> execution_row \<Rightarrow> worker_snapshot option \<Rightarrow> agent_row option \<Rightarrow> 'a run_telemetry_scheme \<Rightarrow> timestamp \<Rightarrow> usage_sample" where
  "running_usage executionId workerId execution w existing r occurredAt =
     \<lparr>us_executionId = executionId, us_taskId = ex_taskId execution, us_agentId = workerId, us_status = ex_status execution,
      us_runtimeInstanceId = nullish (rt_runtimeInstanceId r)
        (coalesce_opt (Option.bind existing ag_runtimeInstanceId) (Option.bind w sn_runtimeInstanceId)),
      us_currentStepId = keep (rt_currentStepId r) (Option.bind existing ag_currentStepId),
      us_toolCallCount = Some (coalesce (rt_toolCallCount r) (of_int (coalesce (map_option ag_toolCallCount existing) 0))),
      us_memoryMb = coalesce_opt (rt_memoryMb r) (Option.bind w sn_memoryMb),
      us_startedAt = Some (coalesce (Option.bind existing ag_startedAt) (coalesce (ex_startedAt execution) (At (ex_createdAt execution)))),
      us_now = occurredAt\<rparr>"

definition exceeded_updates ::
    "ident \<Rightarrow> execution_row \<Rightarrow> worker_snapshot option \<Rightarrow> agent_row \<Rightarrow> 'a run_telemetry_scheme \<Rightarrow> ceiling_finding \<Rightarrow> agent_updates" where
  "exceeded_updates workerId execution w existing r finding =
     \<lparr>au_agentId = workerId,
      au_runtimeInstanceId = nullish (rt_runtimeInstanceId r) (coalesce_opt (ag_runtimeInstanceId existing) (Option.bind w sn_runtimeInstanceId)),
      au_restartedFromRuntimeInstanceId = nullish (rt_restartedFromRuntimeInstanceId r) (ag_restartedFromRuntimeInstanceId existing),
      au_restartGeneration = ag_restartGeneration existing, au_status = ex_status execution,
      au_currentStepId = keep (rt_currentStepId r) (ag_currentStepId existing),
      au_lastToolName = keep (rt_lastToolName r) (ag_lastToolName existing),
      au_toolCallCount = coalesce (rt_toolCallCount r) (of_int (ag_toolCallCount existing)),
      au_progressMessage = coalesce_opt (rt_progressMessage r) (ag_progressMessage existing),
      au_lastErrorCode = Some (ceiling_reason (cf_dimension finding)), au_startedAt = None, au_completedAt = None\<rparr>"

definition accept_heartbeat :: "worker_heartbeat \<Rightarrow> worker_snapshot \<Rightarrow> execution_row \<Rightarrow> timestamp \<Rightarrow> unit lifecycle_prog" where
  "accept_heartbeat i w execution occurredAt = lifecycle_transaction (
     let r = wh_telemetry i; executionId = wh_executionId i in
     bindP (refreshWorkerSnapshot w executionId occurredAt r) (\<lambda>view.
     bindP (insertHeartbeatSnapshot (heartbeat_sample_of executionId (wh_workerId i) view (ex_status execution) ''heartbeat recorded'' r occurredAt)) (\<lambda>_.
     bindP (getsP (\<lambda>s. agent_of s executionId)) (\<lambda>existing.
     bindP (upsertAgentExecutionRecord executionId execution occurredAt
       (report_updates (wh_workerId i) view existing execution (ex_status execution) ''heartbeat recorded'' r)) (\<lambda>_.
     bindP (insertLifecycleEvent (Some (ex_taskId execution)) (Some executionId)
       (Worker_reported Heartbeat_recorded (ex_taskId execution) executionId (wh_workerId i) (wh_leaseId i) None occurredAt)) (\<lambda>_.
     persistRemoteLogs (ex_taskId execution) executionId (wh_workerId i) (sn_runtimeInstanceId view) (rt_remoteLogs r) occurredAt))))))"

definition renew_for_heartbeat :: "worker_heartbeat \<Rightarrow> worker_snapshot \<Rightarrow> execution_row \<Rightarrow> timestamp \<Rightarrow> handshake_decision lifecycle_prog" where
  "renew_for_heartbeat i w execution occurredAt =
     bindP (callDispatch (callLease (renewLease occurredAt \<lparr>ri_leaseId = wh_leaseId i, ri_workerId = wh_workerId i, ri_ttlMs = wh_ttlMs i\<rparr>))) (\<lambda>renewal.
     if dc_outcome renewal \<noteq> Out_renewed then heartbeat_refused i execution occurredAt (normalizeLeaseReason (dc_reasonCode renewal))
     else bindP (accept_heartbeat i w execution occurredAt) (\<lambda>_. returnP (heartbeat_answer True None i)))"

definition heartbeat_with_lease :: "handshake_env \<Rightarrow> timestamp \<Rightarrow> worker_heartbeat \<Rightarrow> worker_snapshot \<Rightarrow> execution_row \<Rightarrow> handshake_decision lifecycle_prog" where
  "heartbeat_with_lease env occurredAt i w execution =
     (case resolveRemoteAuthorityBlockReason (sn_placement w) (reported_remote w (wh_telemetry i)) of
        Some reason \<Rightarrow> heartbeat_refused i execution occurredAt (Some (block_text reason))
      | None \<Rightarrow>
          bindP (getsP (\<lambda>s. agent_of s (wh_executionId i))) (\<lambda>existing.
          case firstFinding (he_ceiling env) (running_usage (wh_executionId i) (wh_workerId i) execution (Some w) existing (wh_telemetry i) occurredAt) of
            Some finding \<Rightarrow>
              bindP (case existing of
                       None \<Rightarrow> returnP ()
                     | Some a \<Rightarrow> upsertAgentExecutionRecord (wh_executionId i) execution occurredAt
                         (exceeded_updates (wh_workerId i) execution (Some w) a (wh_telemetry i) finding)) (\<lambda>_.
              heartbeat_refused i execution occurredAt (Some ''resource_limit_exceeded''))
          | None \<Rightarrow> renew_for_heartbeat i w execution occurredAt))"

definition recordWorkerHeartbeat :: "handshake_env \<Rightarrow> timestamp \<Rightarrow> worker_heartbeat \<Rightarrow> handshake_decision lifecycle_prog" where
  "recordWorkerHeartbeat env occurredAt i =
     bindP (getsP (\<lambda>s. execution_of s (wh_executionId i))) (\<lambda>found.
     case found of
       None \<Rightarrow> returnP (heartbeat_answer False (Some ''execution_not_found'') i)
     | Some execution \<Rightarrow>
         bindP (getsP (\<lambda>s. worker_of s (wh_workerId i))) (\<lambda>worker.
         case worker of
           None \<Rightarrow> heartbeat_refused i execution occurredAt (Some ''worker_not_registered'')
         | Some w \<Rightarrow>
             if worker_untrusted w then heartbeat_refused i execution occurredAt (Some ''worker_not_trusted'')
             else
               bindP (write_check env occurredAt (wh_executionId i) (wh_workerId i) (wh_fencingToken i) (wh_leaseId i)) (\<lambda>validation.
               if \<not> va_allowed validation then heartbeat_refused i execution occurredAt (va_reasonCode validation)
               else heartbeat_with_lease env occurredAt i w execution)))"

section \<open>The invariant of the store\<close>

text \<open>The store of the dispatcher, unique sessions, and the foreign keys of executions and tickets to tasks.\<close>

definition lifecycle_ok :: "lifecycle_store \<Rightarrow> bool" where
  "lifecycle_ok s \<longleftrightarrow> dispatch_ok (lc_dispatch s) \<and> sessions_ok s \<and> linked (lc_dispatch s)"

lemma lifecycle_okD:
  assumes "lifecycle_ok s"
  shows "lease_ok (leases_of s)" "registry_ok (st_registry (ds_core (lc_dispatch s)))" "tickets_ok (tickets_of s)" "sessions_ok s"
    "execution_of s e = Some ex \<Longrightarrow> \<exists>r. task_of s (ex_taskId ex) = Some r"
    "k \<in> set (tickets_of s) \<Longrightarrow> \<exists>r. task_of s (et_taskId k) = Some r"
    "k \<in> set (tickets_of s) \<Longrightarrow> \<exists>ex. execution_of s (et_executionId k) = Some ex"
    "execution_of s e = Some ex \<Longrightarrow> e \<noteq> [] \<and> js_trim e = e"
  using assms by (auto simp: lifecycle_ok_def dispatch_ok_def linked_def registry_def intro: ranI)

text \<open>What a refusal leaves in the store: events, audits of the write check and, when a ceiling is exceeded, the agent record.\<close>

definition reported :: "lifecycle_store \<Rightarrow> lifecycle_store \<Rightarrow> bool" where
  "reported s s' \<longleftrightarrow> (\<exists>ev au ag. s' = s\<lparr>lc_events := ev, lc_dispatch := (lc_dispatch s)\<lparr>ds_core := (ds_core (lc_dispatch s))\<lparr>st_audits := au, st_agents := ag\<rparr>\<rparr>\<rparr>)"

lemma reported_ok: "reported s s' \<Longrightarrow> lifecycle_ok s \<Longrightarrow> lifecycle_ok s'"
  by (auto simp: reported_def lifecycle_ok_def dispatch_ok_def linked_def sessions_ok_def registry_def)

interpretation reports: total_effects reported lifecycle_ok
proof
  show "reported s s" for s unfolding reported_def
    by (intro exI [of _ "lc_events s"] exI [of _ "st_audits (ds_core (lc_dispatch s))"] exI [of _ "st_agents (ds_core (lc_dispatch s))"]) simp
  show "reported s u" if "reported s t" "reported t u" for s t u using that unfolding reported_def by (elim exE) (simp, blast)
qed (rule reported_ok)

lemma reported_events: "reported s (s\<lparr>lc_events := ev\<rparr>)"
  unfolding reported_def
  by (intro exI [of _ ev] exI [of _ "st_audits (ds_core (lc_dispatch s))"] exI [of _ "st_agents (ds_core (lc_dispatch s))"]) simp

lemma reported_audits: "reported s (s\<lparr>lc_dispatch := (lc_dispatch s)\<lparr>ds_core := (ds_core (lc_dispatch s))\<lparr>st_audits := au\<rparr>\<rparr>\<rparr>)"
  unfolding reported_def
  by (intro exI [of _ "lc_events s"] exI [of _ au] exI [of _ "st_agents (ds_core (lc_dispatch s))"]) simp

lemma reported_agents: "reported s (s\<lparr>lc_dispatch := (lc_dispatch s)\<lparr>ds_core := (ds_core (lc_dispatch s))\<lparr>st_agents := ag\<rparr>\<rparr>\<rparr>)"
  unfolding reported_def
  by (intro exI [of _ "lc_events s"] exI [of _ "st_audits (ds_core (lc_dispatch s))"] exI [of _ ag]) simp

lemma reported_same:
  assumes "reported s s'"
  shows "execution_of s' = execution_of s" "task_of s' = task_of s" "workflow_of s' = workflow_of s" "lc_sessions s' = lc_sessions s"
    "leases_of s' = leases_of s" "tickets_of s' = tickets_of s" "st_registry (ds_core (lc_dispatch s')) = st_registry (ds_core (lc_dispatch s))"
    "lc_approvals s' = lc_approvals s" "lc_outbox s' = lc_outbox s"
  using assms by (auto simp: reported_def)

section \<open>Runs of the parts\<close>

lemma event_run:
  "task_of s tsk = Some r \<Longrightarrow> execution_of s x = Some ex
    \<Longrightarrow> insertLifecycleEvent (Some tsk) (Some x) e s = (Inr (), s\<lparr>lc_events := lc_events s @ [e]\<rparr>)"
  by (simp add: insertLifecycleEvent_def prog_simps)

text \<open>Who may write to an execution: the holder of its active lease, with its token, before the lease is over.\<close>

definition may_write :: "handshake_env \<Rightarrow> lifecycle_store \<Rightarrow> timestamp \<Rightarrow> ident \<Rightarrow> ident \<Rightarrow> int \<Rightarrow> ident \<Rightarrow> bool" where
  "may_write env s t executionId workerId fencingToken leaseId \<longleftrightarrow> guard_allows_write (he_guard env) executionId workerId t
     \<and> (\<exists>l. getActiveExecutionLease executionId (leases_of s) = Some l \<and> t < el_expiresAt l \<and> el_fencingToken l = fencingToken
          \<and> el_workerId l = workerId \<and> (leaseId = [] \<or> leaseId = el_id l))"

lemma write_check_run:
  assumes "lease_ok (leases_of s)"
  obtains r s' where "write_check env t e w n l s = (Inr r, s')" and "va_allowed r \<longleftrightarrow> may_write env s t e w n l"
    and "if va_allowed r then s' = s else reported s s'"
proof -
  let ?i = "\<lparr>wi_executionId = e, wi_workerId = w, wi_fencingToken = n, wi_leaseId = Some l\<rparr>"
  note call = write_check_def callDispatch_def callLease_def
  show ?thesis
    using assms
  proof (cases rule: validateWriteAccess_cases [where guard = "he_guard env" and t = t and i = ?i])
    case (unknown r)
    then have "\<not> may_write env s t e w n l" by (auto simp: may_write_def getActive_iff [OF assms])
    then show ?thesis using unknown reports.refl by (intro that [of r s]) (simp_all add: call)
  next
    case (refused r a)
    then have "\<not> may_write env s t e w n l" by (auto simp: may_write_def)
    then show ?thesis using refused reported_audits [of s "st_audits (ds_core (lc_dispatch s)) @ [a]"]
      by (intro that [of r "s\<lparr>lc_dispatch := (lc_dispatch s)\<lparr>ds_core := (ds_core (lc_dispatch s))\<lparr>st_audits := st_audits (ds_core (lc_dispatch s)) @ [a]\<rparr>\<rparr>\<rparr>"])
        (simp_all add: call)
  next
    case (allowed r m)
    then have "may_write env s t e w n l" by (auto simp: may_write_def)
    then show ?thesis using allowed by (intro that [of r s]) (simp_all add: call)
  qed
qed

lemma refused_run:
  assumes "task_of (hk_store h) (et_taskId k) = Some r" and "execution_of (hk_store h) (et_executionId k) = Some ex"
  shows "\<exists>h'. claim_refused env k t i reason h = (Inr (claim_answer False reason (Some (et_executionId k)) (et_id k) (cl_leaseId i)), h')
    \<and> reported (hk_store h) (hk_store h')"
  using assms event_run [of "hk_store h" "et_taskId k" r "et_executionId k" ex]
  by (auto simp: claim_refused_def recordClaimRejectedEvent_def Let_def prog_simps callStore_def recordRejectedEvent_def reports.refl reported_events
      split: option.split)

lemma call_workers_run:
  assumes ok: "registry_ok g" and w: "getWorkerSnapshot (rg_workers g) (hb_workerId i) = Some w"
  obtains g' where "\<And>s. st_registry (ds_core (lc_dispatch s)) = g \<Longrightarrow> callWorkers (recordHeartbeat t i) s
        = (Inr (toView (heartbeat_record t (Some w) i)), s\<lparr>lc_dispatch := (lc_dispatch s)\<lparr>ds_core := (ds_core (lc_dispatch s))\<lparr>st_registry := g'\<rparr>\<rparr>\<rparr>)"
    and "registry_ok g'"
    and "getWorkerSnapshot (rg_workers g') = (getWorkerSnapshot (rg_workers g))(hb_workerId i \<mapsto> (heartbeat_record t (Some w) i)\<lparr>sn_version := sn_version w + 1\<rparr>)"
proof -
  obtain g' where g': "recordHeartbeat t i g = (Inr (toView (heartbeat_record t (Some w) i)), g')" "registry_ok g'"
    "getWorkerSnapshot (rg_workers g') = (getWorkerSnapshot (rg_workers g))(hb_workerId i \<mapsto> (heartbeat_record t (Some w) i)\<lparr>sn_version := sn_version w + 1\<rparr>)"
    using heartbeat_ok [OF ok, of t i] w by (auto simp: heartbeat_record_fields)
  then show ?thesis by (intro that [of g']) (simp_all add: callWorkers_def callDispatch_def callLease_def callRegistry_def)
qed

lemma merged_executions:
  assumes "names_ok xs" and "e \<noteq> []" and "js_trim e = e"
  shows "set (normalizeStringArray (mergeExecutionIds xs e)) = insert e (set xs)"
proof -
  have "names_ok (mergeExecutionIds xs e)" using assms by (auto simp: names_ok_def mergeExecutionIds_def)
  then show ?thesis by (simp add: normalize_names_ok mergeExecutionIds_def)
qed

lemma handshake_refresh_run:
  assumes ok: "lifecycle_ok s" and w: "worker_of s workerId = Some w" and ex: "execution_of s e = Some ex"
  obtains g x where "\<And>s'. st_registry (ds_core (lc_dispatch s')) = st_registry (ds_core (lc_dispatch s)) \<Longrightarrow> refreshWorkerSnapshot w e t r s'
        = (Inr (toView x), s'\<lparr>lc_dispatch := (lc_dispatch s')\<lparr>ds_core := (ds_core (lc_dispatch s'))\<lparr>st_registry := g\<rparr>\<rparr>\<rparr>)"
    and "registry_ok g" and "getWorkerSnapshot (rg_workers g) = (worker_of s)(workerId \<mapsto> x\<lparr>sn_version := sn_version w + 1\<rparr>)"
    and "e \<in> set (sn_runningExecutions x)" and "sn_lastHeartbeatAt x = t" and "sn_placement x = sn_placement w"
proof -
  let ?in = "handshake_heartbeat w e t r"
  have wid: "sn_workerId w = workerId" and wok: "snapshot_ok w" using registry_lookup [OF lifecycle_okD(2) [OF ok] w] by simp_all
  have hin: "hb_workerId ?in = workerId" "hb_runningExecutionIds ?in = mergeExecutionIds (sn_runningExecutions w) e"
    by (simp_all add: handshake_heartbeat_def Let_def wid)
  have names: "e \<noteq> []" "js_trim e = e" using lifecycle_okD(8) [OF ok ex] by simp_all
  have place: "sn_placement (heartbeat_record t (Some w) ?in) = sn_placement w"
    by (simp add: heartbeat_record_def handshake_heartbeat_def Let_def split: prod.split)
  have "e \<in> set (sn_runningExecutions (heartbeat_record t (Some w) ?in))"
    using merged_executions [of "sn_runningExecutions w", OF _ names] wok by (simp add: heartbeat_record_lists hin snapshot_ok_def)
  then show ?thesis using call_workers_run [OF lifecycle_okD(2) [OF ok], of ?in w t] w hin(1) that place
    by (metis heartbeat_record_fields(3) refreshWorkerSnapshot_def)
qed

section \<open>An accepted claim\<close>

definition consumed_ticket :: "timestamp \<Rightarrow> execution_ticket \<Rightarrow> execution_ticket" where
  "consumed_ticket t k = k\<lparr>et_status := ''consumed'', et_consumedAt := Some t, et_updatedAt := t\<rparr>"

definition taken_up :: "ident \<Rightarrow> timestamp \<Rightarrow> execution_row \<Rightarrow> execution_row" where
  "taken_up workerId t ex =
     (if ex_status ex \<in> {''created'', ''prechecking'', ''blocked''}
      then ex\<lparr>ex_agentId := workerId, ex_status := ''executing'', ex_updatedAt := At t, ex_startedAt := Some (At t), ex_lastErrorCode := None\<rparr>
      else ex\<lparr>ex_agentId := workerId, ex_updatedAt := At t\<rparr>)"

text \<open>The ticket is consumed, the execution belongs to the worker and runs, the worker counts it; leases, tasks, workflows and sessions are untouched.\<close>

definition claim_taken :: "lifecycle_store \<Rightarrow> lifecycle_store \<Rightarrow> execution_ticket \<Rightarrow> ident \<Rightarrow> timestamp \<Rightarrow> bool" where
  "claim_taken s s' k workerId t \<longleftrightarrow> tickets_of s' = update_ticket (\<lambda>m. et_id m = et_id k) (consumed_ticket t) (tickets_of s)
     \<and> execution_of s' = (execution_of s)(et_executionId k := map_option (taken_up workerId t) (execution_of s (et_executionId k)))
     \<and> leases_of s' = leases_of s \<and> task_of s' = task_of s \<and> workflow_of s' = workflow_of s \<and> lc_sessions s' = lc_sessions s
     \<and> lc_approvals s' = lc_approvals s
     \<and> (\<exists>x a. worker_of s' = (worker_of s)(workerId \<mapsto> x) \<and> map_option sn_placement (worker_of s workerId) = Some (sn_placement x) \<and> et_executionId k \<in> set (sn_runningExecutions x) \<and> sn_lastHeartbeatAt x = t
          \<and> agent_of s' (et_executionId k) = Some a \<and> ag_agentId a = workerId \<and> ag_status a = ''executing'' \<and> ag_startedAt a = Some (At t))"

lemma stored_consumed: "stored_ticket (consumed_ticket t k) = consumed_ticket t (stored_ticket k)"
  by (cases k) (simp add: consumed_ticket_def stored_ticket_def)

lemma consumed_fields [simp]:
  "et_id (consumed_ticket t k) = et_id k" "et_executionId (consumed_ticket t k) = et_executionId k" "et_attempt (consumed_ticket t k) = et_attempt k"
  "et_taskId (consumed_ticket t k) = et_taskId k" "et_status (consumed_ticket t k) = ''consumed''" "\<not> active_ticket (consumed_ticket t k)"
  by (simp_all add: consumed_ticket_def active_ticket_def)

lemma consumed_tickets_ok: "tickets_ok ks \<Longrightarrow> tickets_ok (update_ticket p (consumed_ticket t) ks)"
  by (rule tickets_ok_update) (simp_all add: stored_consumed tickets_ok_def)

lemma update_ticket_images:
  "(\<And>k. et_executionId (f k) = et_executionId k) \<Longrightarrow> et_executionId ` set (update_ticket p f ks) = et_executionId ` set ks"
  "(\<And>k. et_taskId (f k) = et_taskId k) \<Longrightarrow> et_taskId ` set (update_ticket p f ks) = et_taskId ` set ks"
proof -
  show "et_executionId ` set (update_ticket p f ks) = et_executionId ` set ks" if "\<And>k. et_executionId (f k) = et_executionId k"
    unfolding update_ticket_def set_map image_image using that by (intro image_cong) simp_all
  show "et_taskId ` set (update_ticket p f ks) = et_taskId ` set ks" if "\<And>k. et_taskId (f k) = et_taskId k"
    unfolding update_ticket_def set_map image_image using that by (intro image_cong) simp_all
qed

lemma taken_up_fields [simp]: "ex_taskId (taken_up w t ex) = ex_taskId ex"
  by (simp add: taken_up_def)

lemma claim_taken_ok:
  assumes ok: "lifecycle_ok s" and taken: "claim_taken s s' k w t" and reg: "registry_ok (st_registry (ds_core (lc_dispatch s')))"
    and ex: "execution_of s (et_executionId k) = Some ex"
  shows "lifecycle_ok s'"
proof -
  let ?ks = "update_ticket (\<lambda>m. et_id m = et_id k) (consumed_ticket t) (tickets_of s)"
  have st: "tickets_of s' = ?ks" "execution_of s' = (execution_of s)(et_executionId k \<mapsto> taken_up w t ex)" "leases_of s' = leases_of s"
      "task_of s' = task_of s" "lc_sessions s' = lc_sessions s"
    using taken ex by (simp_all add: claim_taken_def)
  have fk: "\<forall>k \<in> set (tickets_of s). et_executionId k \<in> dom (execution_of s)" "\<forall>e \<in> dom (execution_of s). e \<noteq> [] \<and> js_trim e = e"
    and tasks: "\<forall>ex \<in> ran (execution_of s). task_of s (ex_taskId ex) \<noteq> None" "\<forall>k \<in> set (tickets_of s). task_of s (et_taskId k) \<noteq> None"
    using ok by (auto simp: lifecycle_ok_def dispatch_ok_def linked_def)
  have dom: "dom (execution_of s') = dom (execution_of s)" using st(2) ex by auto
  have "et_executionId ` set ?ks \<subseteq> dom (execution_of s)" "et_taskId ` set ?ks \<subseteq> dom (task_of s)"
    using fk(1) tasks(2) by (auto simp: update_ticket_images)
  then have keys: "\<forall>k \<in> set ?ks. et_executionId k \<in> dom (execution_of s)" "\<forall>k \<in> set ?ks. task_of s (et_taskId k) \<noteq> None" by blast+
  have "\<forall>ex \<in> ran (execution_of s'). task_of s (ex_taskId ex) \<noteq> None"
  proof
    fix x assume "x \<in> ran (execution_of s')"
    then have "x = taken_up w t ex \<or> x \<in> ran (execution_of s)" unfolding st(2) by (auto simp: ran_def split: if_splits)
    then show "task_of s (ex_taskId x) \<noteq> None" using tasks(1) ranI [of "execution_of s", OF ex] by fastforce
  qed
  then show ?thesis
    using lifecycle_okD(1,3,4) [OF ok] reg keys fk(2) dom
    by (simp add: lifecycle_ok_def dispatch_ok_def linked_def registry_def sessions_ok_def st(1,3,4,5) consumed_tickets_ok)
qed

lemma accept_claim_run:
  assumes ok: "lifecycle_ok s" and w: "worker_of s (cl_workerId i) = Some w" and ex: "execution_of s (et_executionId k) = Some ex"
  obtains s' where "accept_claim i w (et_id k) (et_executionId k) ex t s = (Inr (), s')" and "claim_taken s s' k (cl_workerId i) t" and "lifecycle_ok s'"
proof -
  let ?e = "et_executionId k" and ?wid = "cl_workerId i"
  obtain r where task: "task_of s (ex_taskId ex) = Some r" using lifecycle_okD(5) [OF ok ex] by blast
  obtain g x where g: "\<And>s'. st_registry (ds_core (lc_dispatch s')) = st_registry (ds_core (lc_dispatch s)) \<Longrightarrow> refreshWorkerSnapshot w ?e t (cl_telemetry i) s'
        = (Inr (toView x), s'\<lparr>lc_dispatch := (lc_dispatch s')\<lparr>ds_core := (ds_core (lc_dispatch s'))\<lparr>st_registry := g\<rparr>\<rparr>\<rparr>)"
      "registry_ok g" "getWorkerSnapshot (rg_workers g) = (worker_of s)(?wid \<mapsto> x\<lparr>sn_version := sn_version w + 1\<rparr>)"
      "?e \<in> set (sn_runningExecutions x)" "sn_lastHeartbeatAt x = t" "sn_placement x = sn_placement w"
    using handshake_refresh_run [OF ok w ex, of t "cl_telemetry i"] by metis
  let ?s = "snd (accept_claim i w (et_id k) ?e ex t s)"
  have run: "accept_claim i w (et_id k) ?e ex t s = (Inr (), ?s) \<and> st_registry (ds_core (lc_dispatch ?s)) = g
      \<and> tickets_of ?s = update_ticket (\<lambda>m. et_id m = et_id k) (consumed_ticket t) (tickets_of s)
      \<and> execution_of ?s = (execution_of s)(?e \<mapsto> taken_up ?wid t ex)
      \<and> leases_of ?s = leases_of s \<and> task_of ?s = task_of s \<and> workflow_of ?s = workflow_of s \<and> lc_sessions ?s = lc_sessions s
      \<and> lc_approvals ?s = lc_approvals s
      \<and> (\<exists>a. agent_of ?s ?e = Some a \<and> ag_agentId a = ?wid \<and> ag_status a = ''executing'' \<and> ag_startedAt a = Some (At t))"
    using g(1) ex task
    by (simp add: accept_claim_def lifecycle_transaction_def Let_def prog_simps consumeExecutionTicket_def consumed_ticket_def [abs_def] callDispatch_def callLease_def
        updateExecutionAgent_def updateExecutionStatus_def insertHeartbeatSnapshot_def upsertAgentExecutionRecord_def
        event_run persistRemoteLogs_def taken_up_def buildAgentExecutionRecord_def report_updates_def)
  then have taken: "claim_taken s ?s k ?wid t"
    using g(3-6) ex w unfolding claim_taken_def by (elim conjE exE, intro conjI exI [of _ "x\<lparr>sn_version := sn_version w + 1\<rparr>"] exI; simp)
  moreover have "lifecycle_ok ?s" using claim_taken_ok [OF ok taken _ ex] run g(2) by simp
  ultimately show ?thesis using run by (intro that [of ?s]) blast
qed

section \<open>Claims, exactly\<close>

definition claimable :: "handshake_env \<Rightarrow> timestamp \<Rightarrow> claim_input \<Rightarrow> lifecycle_store \<Rightarrow> execution_ticket \<Rightarrow> bool" where
  "claimable env t i s k \<longleftrightarrow> getExecutionTicket (cl_ticketId i) (tickets_of s) = Some k
     \<and> et_status k = ''claimed'' \<and> et_assignedWorkerId k = Some (cl_workerId i) \<and> et_leaseId k = Some (cl_leaseId i)
     \<and> may_write env s t (et_executionId k) (cl_workerId i) (cl_fencingToken i) (cl_leaseId i)
     \<and> (\<exists>w ex. worker_of s (cl_workerId i) = Some w \<and> \<not> worker_untrusted w
          \<and> resolveRemoteAuthorityBlockReason (sn_placement w) (reported_remote w (cl_telemetry i)) = None
          \<and> execution_of s (et_executionId k) = Some ex \<and> firstFinding (he_ceiling env) (claim_usage i w (et_executionId k) ex t) = None)"

text \<open>A run that answers no and only reports.\<close>

definition declines :: "handshake_state \<Rightarrow> handshake_decision handshake_prog \<Rightarrow> bool" where
  "declines h m \<longleftrightarrow> (\<exists>d h'. m h = (Inr d, h') \<and> \<not> hd_accepted d \<and> reported (hk_store h) (hk_store h'))"

lemma declines_refused:
  assumes "lifecycle_ok (hk_store h)" and "k \<in> set (tickets_of (hk_store h))"
  shows "declines h (claim_refused env k t i reason)"
proof -
  obtain r ex where "task_of (hk_store h) (et_taskId k) = Some r" "execution_of (hk_store h) (et_executionId k) = Some ex"
    using lifecycle_okD(6,7) [OF assms(1)] assms(2) by blast
  from refused_run [OF this, of env t i reason] show ?thesis by (auto simp: declines_def claim_answer_def)
qed

lemma declines_after:
  assumes "m h = (Inr x, g)" and "reported (hk_store h) (hk_store g)" and "declines g (f x)"
  shows "declines h (bindP m f)"
  using assms by (auto simp: declines_def bindP_eval intro: reports.trans)

lemma claim_with_lease_result:
  assumes ok: "lifecycle_ok (hk_store h)" and k: "k \<in> set (tickets_of (hk_store h))" and w: "worker_of (hk_store h) (cl_workerId i) = Some w"
    and ex: "execution_of (hk_store h) (et_executionId k) = Some ex"
  shows "if may_write env (hk_store h) t (et_executionId k) (cl_workerId i) (cl_fencingToken i) (cl_leaseId i)
      \<and> firstFinding (he_ceiling env) (claim_usage i w (et_executionId k) ex t) = None
    then \<exists>h'. claim_with_lease env t i k w h = (Inr (claim_answer True None (Some (et_executionId k)) (et_id k) (cl_leaseId i)), h')
      \<and> lifecycle_ok (hk_store h') \<and> claim_taken (hk_store h) (hk_store h') k (cl_workerId i) t
    else declines h (claim_with_lease env t i k w)"
proof -
  obtain r s1 where check: "write_check env t (et_executionId k) (cl_workerId i) (cl_fencingToken i) (cl_leaseId i) (hk_store h) = (Inr r, s1)"
      "va_allowed r \<longleftrightarrow> may_write env (hk_store h) t (et_executionId k) (cl_workerId i) (cl_fencingToken i) (cl_leaseId i)"
      "if va_allowed r then s1 = hk_store h else reported (hk_store h) s1"
    using write_check_run [OF lifecycle_okD(1) [OF ok]] by metis
  then have call: "callStore (write_check env t (et_executionId k) (cl_workerId i) (cl_fencingToken i) (cl_leaseId i)) h = (Inr r, h\<lparr>hk_store := s1\<rparr>)"
    by (simp add: callStore_def)
  show ?thesis
  proof (cases "va_allowed r")
    case False
    then have s1: "reported (hk_store h) s1" using check(3) by simp
    have "declines (h\<lparr>hk_store := s1\<rparr>) (claim_refused env k t i (va_reasonCode r))"
      using k reported_ok [OF s1 ok] reported_same [OF s1] by (intro declines_refused) simp_all
    then have "declines h (claim_with_lease env t i k w)"
      unfolding claim_with_lease_def using s1 False call by (intro declines_after [where x = r and g = "h\<lparr>hk_store := s1\<rparr>"]) simp_all
    with False check(2) show ?thesis by simp
  next
    case True
    then have s1: "s1 = hk_store h" using check(3) by simp
    show ?thesis
    proof (cases "firstFinding (he_ceiling env) (claim_usage i w (et_executionId k) ex t)")
      case None
      obtain s' where "accept_claim i w (et_id k) (et_executionId k) ex t (hk_store h) = (Inr (), s')"
          "claim_taken (hk_store h) s' k (cl_workerId i) t" "lifecycle_ok s'" using accept_claim_run [OF ok w ex] by metis
      then show ?thesis using None True check(2) ex
        by (simp add: claim_with_lease_def prog_simps call s1) (simp add: callStore_def prog_simps)
    next
      case (Some f)
      then have "claim_with_lease env t i k w h = claim_refused env k t i (Some ''resource_limit_exceeded'') h"
        using True ex by (simp add: claim_with_lease_def bindP_eval call getsP_def s1)
      then show ?thesis using Some declines_refused [OF ok k] by (simp add: declines_def)
    qed
  qed
qed

lemma claim_outcome:
  assumes ok: "lifecycle_ok (hk_store h)"
  shows "if \<exists>k. claimable env t i (hk_store h) k
    then \<exists>d h' k. claimExecution env t i h = (Inr d, h') \<and> hd_accepted d \<and> lifecycle_ok (hk_store h') \<and> claimable env t i (hk_store h) k
      \<and> claim_taken (hk_store h) (hk_store h') k (cl_workerId i) t
    else declines h (claimExecution env t i)"
proof (cases "getExecutionTicket (cl_ticketId i) (tickets_of (hk_store h))")
  case None
  then show ?thesis by (simp add: claimable_def claimExecution_def prog_simps claim_answer_def declines_def reports.refl)
next
  case (Some k)
  note ticket = this
  then have k: "k \<in> set (tickets_of (hk_store h))" using getTicket_iff [OF lifecycle_okD(3) [OF ok]] by blast
  obtain ex where ex: "execution_of (hk_store h) (et_executionId k) = Some ex" using lifecycle_okD(7) [OF ok k] by blast
  note refuse = declines_refused [OF ok k]
  show ?thesis
  proof (cases "worker_of (hk_store h) (cl_workerId i)")
    case None
    then show ?thesis using refuse [of env t i] ticket by (simp add: claimable_def claimExecution_def bindP_gets declines_def)
  next
    case (Some w)
    note run = claim_with_lease_result [OF ok k Some ex, of env t]
    show ?thesis
    proof (cases "worker_untrusted w \<or> et_status k \<noteq> ''claimed'' \<or> et_assignedWorkerId k \<noteq> Some (cl_workerId i) \<or> et_leaseId k \<noteq> Some (cl_leaseId i)
        \<or> resolveRemoteAuthorityBlockReason (sn_placement w) (reported_remote w (cl_telemetry i)) \<noteq> None")
      case True
      then have "\<exists>reason. claimExecution env t i h = claim_refused env k t i reason h" using ticket Some by (auto simp: claimExecution_def bindP_gets)
      moreover have "\<not> claimable env t i (hk_store h) m" for m using True ticket Some by (auto simp: claimable_def)
      ultimately show ?thesis using refuse by (auto simp: declines_def)
    next
      case False
      then have "claimExecution env t i h = claim_with_lease env t i k w h" using ticket Some by (simp add: claimExecution_def bindP_gets)
      moreover have "(\<exists>m. claimable env t i (hk_store h) m) \<longleftrightarrow> claimable env t i (hk_store h) k" using ticket by (auto simp: claimable_def)
      moreover have "claimable env t i (hk_store h) k \<longleftrightarrow> may_write env (hk_store h) t (et_executionId k) (cl_workerId i) (cl_fencingToken i) (cl_leaseId i)
          \<and> firstFinding (he_ceiling env) (claim_usage i w (et_executionId k) ex t) = None"
        using False ticket Some ex by (simp add: claimable_def)
      ultimately show ?thesis using run by (auto simp: declines_def claim_answer_def split: if_splits)
    qed
  qed
qed

lemma consumed_not_claimable:
  assumes ok: "tickets_ok (tickets_of s)" and taken: "claim_taken s s' k w t" and ticket: "cl_ticketId i = et_id k"
  shows "\<not> claimable env t' i s' m"
proof -
  have "et_status m = ''consumed''" if "getExecutionTicket (et_id k) (tickets_of s') = Some m"
    using that taken find_Some_set [of "\<lambda>m. et_id m = et_id k" "tickets_of s'" m]
    by (auto simp: claim_taken_def getExecutionTicket_def update_ticket_def split: if_splits)
  then show ?thesis using ticket by (auto simp: claimable_def)
qed

text \<open>
  C8. A claim is decided exactly and granted once: the call never fails; it is accepted exactly for the worker to which the ticket has been
  dispatched, when that worker is trusted, holds the active lease with its token, is not blocked by its session and has not exceeded a ceiling; then the
  ticket is consumed, the execution runs for this worker and nothing else changes in the tables of tickets, executions, leases, tasks, workflows and
  sessions. A refused claim leaves only reports. After an accepted claim every further claim of the ticket is refused.
\<close>

theorem claim_exact:
  assumes ok: "lifecycle_ok (hk_store h)"
  shows "\<exists>d h'. claimExecution env t i h = (Inr d, h') \<and> lifecycle_ok (hk_store h') \<and> (hd_accepted d \<longleftrightarrow> (\<exists>k. claimable env t i (hk_store h) k))
    \<and> (if hd_accepted d
       then (\<exists>k. claimable env t i (hk_store h) k \<and> claim_taken (hk_store h) (hk_store h') k (cl_workerId i) t)
         \<and> (\<forall>env' t' i'. cl_ticketId i' = cl_ticketId i \<longrightarrow> (\<exists>d' h''. claimExecution env' t' i' h' = (Inr d', h'') \<and> \<not> hd_accepted d'))
       else reported (hk_store h) (hk_store h'))"
proof (cases "\<exists>k. claimable env t i (hk_store h) k")
  case True
  then obtain d h' k where run: "claimExecution env t i h = (Inr d, h')" "hd_accepted d" "lifecycle_ok (hk_store h')" "claimable env t i (hk_store h) k"
      "claim_taken (hk_store h) (hk_store h') k (cl_workerId i) t" using claim_outcome [OF ok, of env t i] by auto
  have id: "et_id k = cl_ticketId i" using run(4) find_Some_set unfolding claimable_def getExecutionTicket_def by fast
  have "\<exists>d' h''. claimExecution env' t' i' h' = (Inr d', h'') \<and> \<not> hd_accepted d'" if "cl_ticketId i' = cl_ticketId i" for env' t' i'
    using claim_outcome [OF run(3), of env' t' i'] consumed_not_claimable [OF lifecycle_okD(3) [OF ok] run(5), of i' env' t'] that id
    by (auto simp: declines_def)
  then show ?thesis using run True by (intro exI [of _ d] exI [of _ h']) auto
next
  case False
  then obtain d h' where "claimExecution env t i h = (Inr d, h')" "\<not> hd_accepted d" "reported (hk_store h) (hk_store h')"
    using claim_outcome [OF ok, of env t i] by (auto simp: declines_def)
  then show ?thesis using False reported_ok [OF _ ok] by (intro exI [of _ d] exI [of _ h']) auto
qed

section \<open>Heartbeats, exactly\<close>

lemma lifecycle_ok_same:
  assumes "lifecycle_ok s" and "lease_ok (leases_of s')" and "registry_ok (st_registry (ds_core (lc_dispatch s')))" and "tickets_of s' = tickets_of s"
    and "execution_of s' = execution_of s" and "task_of s' = task_of s" and "lc_sessions s' = lc_sessions s"
  shows "lifecycle_ok s'"
  using assms by (simp add: lifecycle_ok_def dispatch_ok_def linked_def sessions_ok_def registry_def)

definition heartbeat_due :: "handshake_env \<Rightarrow> timestamp \<Rightarrow> worker_heartbeat \<Rightarrow> lifecycle_store \<Rightarrow> bool" where
  "heartbeat_due env t i s \<longleftrightarrow> may_write env s t (wh_executionId i) (wh_workerId i) (wh_fencingToken i) (wh_leaseId i)
     \<and> (\<exists>w ex. worker_of s (wh_workerId i) = Some w \<and> \<not> worker_untrusted w
          \<and> resolveRemoteAuthorityBlockReason (sn_placement w) (reported_remote w (wh_telemetry i)) = None
          \<and> execution_of s (wh_executionId i) = Some ex
          \<and> firstFinding (he_ceiling env) (running_usage (wh_executionId i) (wh_workerId i) ex (Some w) (agent_of s (wh_executionId i)) (wh_telemetry i) t) = None)"

text \<open>The lease is extended and the worker has reported; tickets, executions, tasks, workflows and sessions are untouched.\<close>

definition heartbeat_taken :: "lifecycle_store \<Rightarrow> lifecycle_store \<Rightarrow> worker_heartbeat \<Rightarrow> timestamp \<Rightarrow> bool" where
  "heartbeat_taken s s' i t \<longleftrightarrow> tickets_of s' = tickets_of s \<and> execution_of s' = execution_of s \<and> task_of s' = task_of s \<and> workflow_of s' = workflow_of s
     \<and> lc_sessions s' = lc_sessions s \<and> lc_approvals s' = lc_approvals s
     \<and> (\<exists>l. getActiveExecutionLease (wh_executionId i) (leases_of s) = Some l
          \<and> leases_of s' = update_lease (\<lambda>m. m = l) (renewed_lease (t + wh_ttlMs i) t) (leases_of s))
     \<and> (\<exists>x. worker_of s' = (worker_of s)(wh_workerId i \<mapsto> x) \<and> wh_executionId i \<in> set (sn_runningExecutions x) \<and> sn_lastHeartbeatAt x = t)"

lemma renew_run:
  assumes ok: "lease_ok (st_leases c)" and l: "l \<in> set (st_leases c)" "el_status l = Lease_active" and time: "t < el_expiresAt l"
  obtains d au where "renewLease t \<lparr>ri_leaseId = el_id l, ri_workerId = el_workerId l, ri_ttlMs = ttl\<rparr> c
      = (Inr d, c\<lparr>st_leases := update_lease (\<lambda>m. m = l) (renewed_lease (t + ttl) t) (st_leases c), st_audits := au\<rparr>)" and "dc_outcome d = Out_renewed"
proof -
  have found: "getExecutionLease (el_id l) (st_leases c) = Some l" using ok l(1) by (simp add: getLease_iff lease_ok_def)
  have "list_ex (cas_matches l) (st_leases c)" using l by (auto simp: list_ex_iff cas_matches_def)
  moreover have "update_lease (cas_matches l) (\<lambda>m. m\<lparr>el_expiresAt := t + ttl, el_lastHeartbeatAt := Some t\<rparr>) (st_leases c)
      = update_lease (\<lambda>m. m = l) (renewed_lease (t + ttl) t) (st_leases c)"
    unfolding close_by_id(2) [OF ok l] by (simp add: renewed_lease_def [abs_def])
  ultimately show ?thesis using l time that
    by (simp add: renewLease_def transaction_def prog_simps found renewExecutionLeaseCas_def plusMs_def audit_lease_def insertLeaseAudit_def)
qed

lemma heartbeat_answer_accepted [simp]: "hd_accepted (heartbeat_answer b reason i) = b"
  by (simp add: heartbeat_answer_def)

lemma heartbeat_refused_run:
  assumes "lifecycle_ok s" and "execution_of s (wh_executionId i) = Some ex"
  shows "\<exists>s'. heartbeat_refused i ex t reason s = (Inr (heartbeat_answer False reason i), s') \<and> reported s s'"
proof -
  obtain r where "task_of s (ex_taskId ex) = Some r" using lifecycle_okD(5) [OF assms] by blast
  then show ?thesis using assms(2) reported_events [of s]
    by (simp add: heartbeat_refused_def recordRejectedEvent_def prog_simps event_run)
qed

lemma accept_heartbeat_run:
  assumes ok: "lifecycle_ok s" and w: "worker_of s (wh_workerId i) = Some w" and ex: "execution_of s (wh_executionId i) = Some ex"
  obtains s' x where "accept_heartbeat i w ex t s = (Inr (), s')" and "tickets_of s' = tickets_of s" and "execution_of s' = execution_of s"
    and "task_of s' = task_of s" and "workflow_of s' = workflow_of s" and "lc_sessions s' = lc_sessions s" and "lc_approvals s' = lc_approvals s"
    and "leases_of s' = leases_of s" and "registry_ok (st_registry (ds_core (lc_dispatch s')))"
    and "worker_of s' = (worker_of s)(wh_workerId i \<mapsto> x)" and "wh_executionId i \<in> set (sn_runningExecutions x)" and "sn_lastHeartbeatAt x = t"
proof -
  let ?e = "wh_executionId i" and ?wid = "wh_workerId i"
  obtain r where task: "task_of s (ex_taskId ex) = Some r" using lifecycle_okD(5) [OF ok ex] by blast
  obtain g x where g: "\<And>s'. st_registry (ds_core (lc_dispatch s')) = st_registry (ds_core (lc_dispatch s)) \<Longrightarrow> refreshWorkerSnapshot w ?e t (wh_telemetry i) s'
        = (Inr (toView x), s'\<lparr>lc_dispatch := (lc_dispatch s')\<lparr>ds_core := (ds_core (lc_dispatch s'))\<lparr>st_registry := g\<rparr>\<rparr>\<rparr>)"
      "registry_ok g" "getWorkerSnapshot (rg_workers g) = (worker_of s)(?wid \<mapsto> x\<lparr>sn_version := sn_version w + 1\<rparr>)"
      "?e \<in> set (sn_runningExecutions x)" "sn_lastHeartbeatAt x = t"
    using handshake_refresh_run [OF ok w ex, of t "wh_telemetry i"] by metis
  let ?s = "snd (accept_heartbeat i w ex t s)"
  have run: "accept_heartbeat i w ex t s = (Inr (), ?s) \<and> st_registry (ds_core (lc_dispatch ?s)) = g \<and> tickets_of ?s = tickets_of s
      \<and> execution_of ?s = execution_of s \<and> task_of ?s = task_of s \<and> workflow_of ?s = workflow_of s \<and> lc_sessions ?s = lc_sessions s
      \<and> lc_approvals ?s = lc_approvals s \<and> leases_of ?s = leases_of s"
    using g(1) ex task
    by (simp add: accept_heartbeat_def lifecycle_transaction_def Let_def prog_simps insertHeartbeatSnapshot_def
        upsertAgentExecutionRecord_def event_run persistRemoteLogs_def)
  show ?thesis using run g(2-5) by (intro that [of ?s "x\<lparr>sn_version := sn_version w + 1\<rparr>"]) simp_all
qed

lemma renew_for_heartbeat_run:
  assumes ok: "lifecycle_ok s" and w: "worker_of s (wh_workerId i) = Some w" and ex: "execution_of s (wh_executionId i) = Some ex"
    and may: "may_write env s t (wh_executionId i) (wh_workerId i) (wh_fencingToken i) (wh_leaseId i)" and id: "wh_leaseId i \<noteq> []"
  obtains s' where "renew_for_heartbeat i w ex t s = (Inr (heartbeat_answer True None i), s')" and "heartbeat_taken s s' i t" and "lifecycle_ok s'"
proof -
  obtain l where l: "getActiveExecutionLease (wh_executionId i) (leases_of s) = Some l" "t < el_expiresAt l" "el_workerId l = wh_workerId i"
      "el_id l = wh_leaseId i" using may id by (auto simp: may_write_def)
  let ?ls = "update_lease (\<lambda>m. m = l) (renewed_lease (t + wh_ttlMs i) t) (leases_of s)"
  have lin: "l \<in> set (leases_of s)" "el_status l = Lease_active" using l(1) getActive_iff [OF lifecycle_okD(1) [OF ok]] by auto
  obtain d au where renew: "renewLease t \<lparr>ri_leaseId = wh_leaseId i, ri_workerId = wh_workerId i, ri_ttlMs = wh_ttlMs i\<rparr> (ds_core (lc_dispatch s))
      = (Inr d, (ds_core (lc_dispatch s))\<lparr>st_leases := ?ls, st_audits := au\<rparr>)" "dc_outcome d = Out_renewed"
    using renew_run [OF lifecycle_okD(1) [OF ok] lin l(2), of "wh_ttlMs i"] l(3,4) by auto
  let ?s = "s\<lparr>lc_dispatch := (lc_dispatch s)\<lparr>ds_core := (ds_core (lc_dispatch s))\<lparr>st_leases := ?ls, st_audits := au\<rparr>\<rparr>\<rparr>"
  have "lease_ok ?ls" using lifecycle_okD(1) [OF ok] lease_change.renew lease_ok_change by blast
  then have ok1: "lifecycle_ok ?s" using lifecycle_okD(2) [OF ok] by (intro lifecycle_ok_same [OF ok]) simp_all
  have w1: "worker_of ?s (wh_workerId i) = Some w" and ex1: "execution_of ?s (wh_executionId i) = Some ex" using w ex by simp_all
  obtain s' x where run: "accept_heartbeat i w ex t ?s = (Inr (), s')" "tickets_of s' = tickets_of ?s" "execution_of s' = execution_of ?s"
      "task_of s' = task_of ?s" "workflow_of s' = workflow_of ?s" "lc_sessions s' = lc_sessions ?s" "lc_approvals s' = lc_approvals ?s"
      "leases_of s' = leases_of ?s" "registry_ok (st_registry (ds_core (lc_dispatch s')))"
      "worker_of s' = (worker_of ?s)(wh_workerId i \<mapsto> x)" "wh_executionId i \<in> set (sn_runningExecutions x)" "sn_lastHeartbeatAt x = t"
    using accept_heartbeat_run [OF ok1 w1 ex1] by metis
  have "renew_for_heartbeat i w ex t s = (Inr (heartbeat_answer True None i), s')"
    using run(1) renew by (simp add: renew_for_heartbeat_def prog_simps callDispatch_def callLease_def)
  moreover have "heartbeat_taken s s' i t" unfolding heartbeat_taken_def using run l(1) by auto
  moreover have "lifecycle_ok s'" using run lifecycle_okD(1) [OF ok1] by (intro lifecycle_ok_same [OF ok1]) simp_all
  ultimately show ?thesis by (rule that)
qed

lemma heartbeat_with_lease_run:
  assumes ok: "lifecycle_ok s" and w: "worker_of s (wh_workerId i) = Some w" and ex: "execution_of s (wh_executionId i) = Some ex"
    and may: "may_write env s t (wh_executionId i) (wh_workerId i) (wh_fencingToken i) (wh_leaseId i)" and id: "wh_leaseId i \<noteq> []"
  shows "if resolveRemoteAuthorityBlockReason (sn_placement w) (reported_remote w (wh_telemetry i)) = None
      \<and> firstFinding (he_ceiling env) (running_usage (wh_executionId i) (wh_workerId i) ex (Some w) (agent_of s (wh_executionId i)) (wh_telemetry i) t) = None
    then \<exists>s'. heartbeat_with_lease env t i w ex s = (Inr (heartbeat_answer True None i), s') \<and> heartbeat_taken s s' i t \<and> lifecycle_ok s'
    else \<exists>reason s'. heartbeat_with_lease env t i w ex s = (Inr (heartbeat_answer False reason i), s') \<and> reported s s'"
proof (cases "resolveRemoteAuthorityBlockReason (sn_placement w) (reported_remote w (wh_telemetry i))")
  case (Some b)
  then show ?thesis using heartbeat_refused_run [OF ok ex, of t "Some (block_text b)"] by (auto simp: heartbeat_with_lease_def)
next
  case None
  note open_ = this
  let ?f = "firstFinding (he_ceiling env) (running_usage (wh_executionId i) (wh_workerId i) ex (Some w) (agent_of s (wh_executionId i)) (wh_telemetry i) t)"
  show ?thesis
  proof (cases ?f)
    case None
    then have "heartbeat_with_lease env t i w ex s = renew_for_heartbeat i w ex t s" using open_ by (simp add: heartbeat_with_lease_def bindP_gets)
    then show ?thesis using renew_for_heartbeat_run [OF ok w ex may id] None open_ by metis
  next
    case (Some f)
    obtain s1 where s1: "heartbeat_with_lease env t i w ex s = heartbeat_refused i ex t (Some ''resource_limit_exceeded'') s1" "reported s s1"
    proof (cases "agent_of s (wh_executionId i)")
      case None
      then show ?thesis using Some open_ reports.refl by (intro that [of s]) (simp_all add: heartbeat_with_lease_def bindP_gets)
    next
      case (Some a)
      then show ?thesis using \<open>?f = Some f\<close> open_ reported_agents [of s]
        by (intro that) (simp_all add: heartbeat_with_lease_def bindP_gets upsertAgentExecutionRecord_def Let_def bindP_run [of "modifyP u" for u] prog_simps)
    qed
    then show ?thesis
      using Some heartbeat_refused_run [OF reported_ok [OF s1(2) ok], of i ex t "Some ''resource_limit_exceeded''"] reported_same(1) [OF s1(2)] ex
        reports.trans [OF s1(2)] by auto
  qed
qed

lemma heartbeat_result:
  assumes ok: "lifecycle_ok s" and id: "wh_leaseId i \<noteq> []"
  shows "if heartbeat_due env t i s
    then \<exists>s'. recordWorkerHeartbeat env t i s = (Inr (heartbeat_answer True None i), s') \<and> heartbeat_taken s s' i t \<and> lifecycle_ok s'
    else \<exists>reason s'. recordWorkerHeartbeat env t i s = (Inr (heartbeat_answer False reason i), s') \<and> reported s s'"
proof (cases "execution_of s (wh_executionId i)")
  case None
  then show ?thesis using reports.refl [of s] by (auto simp: heartbeat_due_def recordWorkerHeartbeat_def prog_simps)
next
  case (Some ex)
  note ex = this
  note refuse = heartbeat_refused_run [OF ok ex]
  show ?thesis
  proof (cases "\<exists>w. worker_of s (wh_workerId i) = Some w \<and> \<not> worker_untrusted w")
    case False
    then have "\<exists>reason. recordWorkerHeartbeat env t i s = heartbeat_refused i ex t reason s" using ex
      by (cases "worker_of s (wh_workerId i)") (auto simp: recordWorkerHeartbeat_def bindP_gets)
    moreover have "\<not> heartbeat_due env t i s" using False by (auto simp: heartbeat_due_def)
    ultimately show ?thesis using refuse by (metis (no_types, lifting))
  next
    case True
    then obtain w where w: "worker_of s (wh_workerId i) = Some w" "\<not> worker_untrusted w" by blast
    obtain r s1 where check: "write_check env t (wh_executionId i) (wh_workerId i) (wh_fencingToken i) (wh_leaseId i) s = (Inr r, s1)"
        "va_allowed r \<longleftrightarrow> may_write env s t (wh_executionId i) (wh_workerId i) (wh_fencingToken i) (wh_leaseId i)"
        "if va_allowed r then s1 = s else reported s s1"
      using write_check_run [OF lifecycle_okD(1) [OF ok]] by metis
    have eval: "recordWorkerHeartbeat env t i s
        = (if va_allowed r then heartbeat_with_lease env t i w ex s1 else heartbeat_refused i ex t (va_reasonCode r) s1)"
      using ex w by (simp add: recordWorkerHeartbeat_def prog_simps check(1))
    show ?thesis
    proof (cases "va_allowed r")
      case False
      then have s1: "reported s s1" using check(3) by simp
      have "\<exists>s'. heartbeat_refused i ex t (va_reasonCode r) s1 = (Inr (heartbeat_answer False (va_reasonCode r) i), s') \<and> reported s1 s'"
        using ex reported_same(1) [OF s1] by (intro heartbeat_refused_run [OF reported_ok [OF s1 ok]]) simp
      then show ?thesis using False check(2) eval reports.trans [OF s1] by (auto simp: heartbeat_due_def)
    next
      case allowed: True
      then have s1: "s1 = s" and may: "may_write env s t (wh_executionId i) (wh_workerId i) (wh_fencingToken i) (wh_leaseId i)" using check by simp_all
      show ?thesis
        using heartbeat_with_lease_run [OF ok w(1) ex may id] eval allowed s1 w ex may by (simp add: heartbeat_due_def)
    qed
  qed
qed

text \<open>
  C11. A heartbeat is decided exactly: the call never fails; it is accepted exactly for a trusted worker that holds the active lease with its token
  and identifier, is not blocked by its session and has not exceeded a ceiling. Then the lease, and no other, is extended by the requested time and the
  registry shows the worker with the execution; tickets, executions, tasks, workflows and sessions stay as they are. A refused heartbeat leaves
  only reports: in particular it never extends a lease.
\<close>

theorem heartbeat_exact:
  assumes "lifecycle_ok s" and "wh_leaseId i \<noteq> []"
  shows "\<exists>d s'. recordWorkerHeartbeat env t i s = (Inr d, s') \<and> lifecycle_ok s' \<and> (hd_accepted d \<longleftrightarrow> heartbeat_due env t i s)
    \<and> (if hd_accepted d then heartbeat_taken s s' i t else reported s s')"
proof (cases "heartbeat_due env t i s")
  case True
  then show ?thesis using heartbeat_result [OF assms, of env t] by auto
next
  case False
  then obtain reason s' where "recordWorkerHeartbeat env t i s = (Inr (heartbeat_answer False reason i), s')" "reported s s'"
    using heartbeat_result [OF assms, of env t] by auto
  then show ?thesis using False reported_ok [OF _ assms(1)] by auto
qed

section \<open>A concrete store\<close>

text \<open>The ticket of \<open>e1\<close> has been dispatched to \<open>w1\<close> under the lease \<open>l2\<close>.\<close>

definition silent :: worker_telemetry where
  "silent = \<lparr>rt_runtimeInstanceId = None, rt_restartedFromRuntimeInstanceId = None, rt_progressMessage = None, rt_lastToolName = None, rt_toolCallCount = None,
     rt_cpuPct = None, rt_memoryMb = None, rt_workspaceSyncStatus = None, rt_workspaceSyncCheckedAt = None, rt_toolBacklogCount = None,
     rt_currentStepId = None, rt_lastProgressAt = None, rt_remoteLogs = [], wt_remoteSessionStatus = None, wt_lastAcknowledgedStreamOffset = None,
     wt_streamResumeSuccessRate = None, wt_credentialRefreshSuccessRate = None, wt_sessionConsistencyCheckStatus = None,
     wt_sessionConsistencyCheckedAt = None, wt_saturation = None, wt_activeLeaseCount = None, wt_meanStartupLatencyMs = None,
     wt_sandboxSuccessRate = None, wt_repoCacheHitRate = None\<rparr>"

definition demo_handshake :: handshake_env where
  "demo_handshake = new_handshake_env None (newCeilingGuard (same_option (Some (Some 10))) (same_env None)) None"

definition claim_ticket :: execution_ticket where
  "claim_ticket = claimed_ticket (urgent_ticket\<lparr>et_id := ''k1'', et_executionId := ''e1'', et_taskId := ''t1''\<rparr>) ''w1'' ''l2'' 100"

definition claim_demo :: handshake_state where
  "claim_demo = \<lparr>hk_store = lifecycle_demo\<lparr>lc_dispatch := dispatch_demo\<lparr>ds_tickets := [claim_ticket], ds_core := (ds_core dispatch_demo)
     \<lparr>st_executions := [''e1'' \<mapsto> (demo_execution ''t1'' ''created'')\<lparr>ex_createdAt := 100\<rparr>, ''e2'' \<mapsto> demo_execution ''t2'' ''created'']\<rparr>\<rparr>\<rparr>, hk_recent = []\<rparr>"

definition demo_claim :: claim_input where
  "demo_claim = \<lparr>cl_ticketId = ''k1'', cl_workerId = ''w1'', cl_leaseId = ''l2'', cl_fencingToken = 2, cl_telemetry = silent\<rparr>"

definition demo_heartbeat :: worker_heartbeat where
  "demo_heartbeat = \<lparr>wh_executionId = ''e1'', wh_workerId = ''w1'', wh_leaseId = ''l2'', wh_fencingToken = 2, wh_ttlMs = 15000, wh_telemetry = silent\<rparr>"

lemma claim_demo_ok: "lifecycle_ok (hk_store claim_demo)"
proof -
  have k: "stored_ticket claim_ticket = claim_ticket" "et_executionId claim_ticket = ''e1''" "et_taskId claim_ticket = ''t1''"
    by (simp_all add: claim_ticket_def urgent_ticket_def claimed_ticket_def stored_ticket_def ex_ticket_def)
  then have "tickets_ok [claim_ticket]" by (simp add: tickets_ok_def)
  moreover have "registry_ok (registry dispatch_demo)" "lease_ok (st_leases (ds_core dispatch_demo))" using demo_ok(1) by (auto simp: dispatch_ok_def)
  ultimately show ?thesis using k
    by (auto simp: lifecycle_ok_def dispatch_ok_def linked_def claim_demo_def lifecycle_demo_def registry_def sessions_ok_def ran_def demo_execution_def dispatch_demo_def
        js_trim_def js_white_def split: if_splits)
qed

lemma demo_may_write: "may_write demo_handshake (hk_store claim_demo) 105 ''e1'' ''w1'' 2 ''l2''"
  by (simp add: may_write_def demo_handshake_def new_handshake_env_def guard_allows_write_def claim_demo_def lifecycle_demo_def dispatch_demo_def lease_demo_defs
      getActiveExecutionLease_def)

lemma demo_worker:
  "worker_of (hk_store claim_demo) ''w1'' = Some solo_worker" "\<not> worker_untrusted solo_worker" "sn_placement solo_worker = WP_local" "sn_memoryMb solo_worker = None"
  by (simp_all add: claim_demo_def lifecycle_demo_def dispatch_demo_def getWorkerSnapshot_def worker_untrusted_def solo_worker_def busy_worker_def idle_worker_def)

lemma demo_claimable: "claimable demo_handshake 105 demo_claim (hk_store claim_demo) claim_ticket"
proof -
  have k: "et_id claim_ticket = ''k1''" "et_executionId claim_ticket = ''e1''" "et_status claim_ticket = ''claimed''"
      "et_assignedWorkerId claim_ticket = Some ''w1''" "et_leaseId claim_ticket = Some ''l2''"
    by (simp_all add: claim_ticket_def claimed_ticket_def)
  have tickets: "tickets_of (hk_store claim_demo) = [claim_ticket]"
    and ex: "execution_of (hk_store claim_demo) ''e1'' = Some ((demo_execution ''t1'' ''created'')\<lparr>ex_createdAt := 100\<rparr>)"
    by (simp_all add: claim_demo_def)
  have fine: "firstFinding (he_ceiling demo_handshake)
      (claim_usage demo_claim solo_worker ''e1'' ((demo_execution ''t1'' ''created'')\<lparr>ex_createdAt := 100\<rparr>) 105) = None"
    by (simp add: firstFinding_None_iff claim_usage_def demo_claim_def silent_def demo_worker demo_handshake_def new_handshake_env_def newCeilingGuard_def
        configured_def resolveLimit_def same_option_def js_trunc_def elapsedMs_def demo_execution_def)
  show ?thesis
    using k tickets ex fine demo_may_write demo_worker
    by (simp add: claimable_def getExecutionTicket_def resolveRemoteAuthorityBlockReason_def demo_claim_def)
qed

theorem claim_exact_witness:
  "\<exists>d h'. claimExecution demo_handshake 105 demo_claim claim_demo = (Inr d, h') \<and> hd_accepted d \<and> execution_status (hk_store h') ''e1'' = Some ''executing''"
proof -
  obtain d h' k where run: "claimExecution demo_handshake 105 demo_claim claim_demo = (Inr d, h')" "hd_accepted d"
      "claimable demo_handshake 105 demo_claim (hk_store claim_demo) k" "claim_taken (hk_store claim_demo) (hk_store h') k (cl_workerId demo_claim) 105"
    using claim_exact [OF claim_demo_ok, of demo_handshake 105 demo_claim] demo_claimable by auto
  have "k = claim_ticket" using run(3) demo_claimable by (auto simp: claimable_def)
  then have "et_executionId k = ''e1''" by (simp add: claim_ticket_def claimed_ticket_def)
  with run show ?thesis by (auto simp: claim_taken_def execution_status_def taken_up_def claim_demo_def demo_execution_def)
qed

theorem heartbeat_exact_witness:
  "\<exists>d s'. recordWorkerHeartbeat demo_handshake 105 demo_heartbeat (hk_store claim_demo) = (Inr d, s') \<and> hd_accepted d
     \<and> (\<exists>l. getActiveExecutionLease ''e1'' (leases_of s') = Some l \<and> el_expiresAt l = 15105)"
proof -
  have "heartbeat_due demo_handshake 105 demo_heartbeat (hk_store claim_demo)"
    using demo_may_write demo_worker
    by (simp add: heartbeat_due_def demo_heartbeat_def resolveRemoteAuthorityBlockReason_def firstFinding_None_iff running_usage_def silent_def demo_handshake_def
        new_handshake_env_def newCeilingGuard_def configured_def resolveLimit_def same_option_def js_trunc_def elapsedMs_def demo_execution_def claim_demo_def
        lifecycle_demo_def dispatch_demo_def lease_demo_def)
  then obtain d s' where run: "recordWorkerHeartbeat demo_handshake 105 demo_heartbeat (hk_store claim_demo) = (Inr d, s')" "hd_accepted d"
      "heartbeat_taken (hk_store claim_demo) s' demo_heartbeat 105"
    using heartbeat_exact [OF claim_demo_ok, of demo_heartbeat demo_handshake 105] by (auto simp: demo_heartbeat_def)
  then have "\<exists>l. getActiveExecutionLease ''e1'' (leases_of s') = Some l \<and> el_expiresAt l = 15105"
    by (auto simp: heartbeat_taken_def demo_heartbeat_def claim_demo_def lifecycle_demo_def dispatch_demo_def lease_demo_defs getActiveExecutionLease_def
        update_lease_def renewed_lease_def split: if_splits)
  with run show ?thesis by blast
qed

end
