(* ===== verification/Worker_Writeback.thy ===== *)
theory Worker_Writeback
  imports Worker_Handshake
begin

text \<open>
  How a worker reports the end of an execution (\<^verbatim>\<open>src/src/platform/five-plane-execution/worker-pool/execution-worker-writeback-service.ts\<close>): the checks, the
  transaction that ends the task with its workflow, session and execution, frees the worker and releases the lease, and the refusals.

  The authoritative view is read in one read transaction, so its retries on a changed watermark are not modelled; a failure of the database
  driver, the only source of the answer \<^verbatim>\<open>authoritative_store_unavailable\<close>, is not modelled either. An error whose message contains
  \<^verbatim>\<open>invalid_transition\<close> is the error of the transition tables.
\<close>

section \<open>Inputs and decisions\<close>

record writeback_input =
  wb_executionId :: ident
  wb_workerId :: ident
  wb_leaseId :: ident
  wb_fencingToken :: int
  wb_terminalStatus :: terminal_status
  wb_taskOutputJson :: "string option"
  wb_outputsJson :: "string option"
  wb_reasonCode :: "string option"
  wb_telemetry :: run_telemetry

record writeback_decision =
  wd_accepted :: bool
  wd_reasonCode :: "string option"
  wd_executionId :: ident
  wd_leaseId :: ident
  wd_taskId :: "ident option"
  wd_terminalStatus :: terminal_status

record authoritative_view =
  av_execution :: execution_row
  av_task :: "task_row option"
  av_workflow :: "workflow_row option"
  av_session :: "session_row option"

section \<open>The view\<close>

text \<open>The newest session of a task: by creation, then by update, then by insertion.\<close>

definition selectLatestSessionByTask :: "ident \<Rightarrow> session_row list \<Rightarrow> session_row option" where
  "selectLatestSessionByTask taskId rows =
     (case sort_key (\<lambda>r. - se_createdAt r) (sort_key (\<lambda>r. - se_updatedAt r) (rev (filter (\<lambda>r. se_taskId r = taskId) rows))) of
        [] \<Rightarrow> None | r # _ \<Rightarrow> Some r)"

definition loadExecutionAuthoritativeView :: "ident \<Rightarrow> lifecycle_store \<Rightarrow> authoritative_view option" where
  "loadExecutionAuthoritativeView executionId s =
     map_option (\<lambda>ex. \<lparr>av_execution = ex, av_task = task_of s (ex_taskId ex), av_workflow = workflow_of s (ex_taskId ex),
       av_session = selectLatestSessionByTask (ex_taskId ex) (lc_sessions s)\<rparr>) (execution_of s executionId)"

section \<open>Refusals\<close>

definition writeback_answer :: "bool \<Rightarrow> string option \<Rightarrow> writeback_input \<Rightarrow> ident option \<Rightarrow> writeback_decision" where
  "writeback_answer accepted reasonCode i taskId =
     \<lparr>wd_accepted = accepted, wd_reasonCode = reasonCode, wd_executionId = wb_executionId i, wd_leaseId = wb_leaseId i, wd_taskId = taskId,
      wd_terminalStatus = wb_terminalStatus i\<rparr>"

definition writeback_refused :: "writeback_input \<Rightarrow> ident \<Rightarrow> timestamp \<Rightarrow> string option \<Rightarrow> writeback_decision lifecycle_prog" where
  "writeback_refused i taskId occurredAt reasonCode =
     bindP (recordRejectedEvent Writeback_rejected taskId (wb_executionId i) (wb_workerId i) (wb_leaseId i) reasonCode occurredAt) (\<lambda>_.
     returnP (writeback_answer False reasonCode i (Some taskId)))"

section \<open>The accepted write-back\<close>

definition toExecutionTerminalStatus :: "terminal_status \<Rightarrow> string" where
  "toExecutionTerminalStatus st = (if st = TT_done then ''succeeded'' else terminal_text st)"

definition writeback_context :: "writeback_input \<Rightarrow> execution_row \<Rightarrow> timestamp \<Rightarrow> transition_context" where
  "writeback_context i execution occurredAt =
     \<lparr>tc_reasonCode = coalesce (wb_reasonCode i) (''worker.writeback.'' @ terminal_text (wb_terminalStatus i)), tc_traceId = ex_traceId execution,
      tc_actorType = ''agent'', tc_actorId = Some (wb_workerId i), tc_occurredAt = occurredAt\<rparr>"

definition writeback_terminal :: "writeback_input \<Rightarrow> execution_row \<Rightarrow> task_row \<Rightarrow> workflow_row \<Rightarrow> session_row \<Rightarrow> timestamp \<Rightarrow> terminal_input" where
  "writeback_terminal i execution task workflow session occurredAt =
     \<lparr>ti_taskId = ex_taskId execution, ti_sessionId = se_id session, ti_executionId = Some (wb_executionId i), ti_currentTaskStatus = tk_status task,
      ti_currentWorkflowStatus = wf_status workflow, ti_currentSessionStatus = se_status session, ti_currentExecutionStatus = ex_status execution,
      ti_terminalStatus = wb_terminalStatus i, ti_taskOutputJson = coalesce_opt (wb_taskOutputJson i) (tk_outputJson task),
      ti_outputsJson = coalesce (wb_outputsJson i) (wf_outputsJson workflow), ti_context = writeback_context i execution occurredAt\<rparr>"

text \<open>The report to the registry that the worker no longer runs the execution.\<close>

definition writeback_heartbeat :: "worker_snapshot \<Rightarrow> ident \<Rightarrow> timestamp \<Rightarrow> run_telemetry \<Rightarrow> heartbeat_input" where
  "writeback_heartbeat w executionId occurredAt r =
     (let runningExecutionIds = removeExecutionId (sn_runningExecutions w) executionId in
      \<lparr>hb_workerId = sn_workerId w, hb_status = toWorkerStatus w runningExecutionIds,
       hb_placement = None, hb_isolationLevel = None, hb_repoVersion = None,
       hb_remote = \<lparr>hr_remoteSessionStatus = None, hr_lastAcknowledgedStreamOffset = None, hr_streamResumeSuccessRate = None,
         hr_credentialRefreshSuccessRate = None, hr_sessionConsistencyCheckStatus = None, hr_sessionConsistencyCheckedAt = None,
         hr_workspaceSyncStatus = rt_workspaceSyncStatus r, hr_workspaceSyncCheckedAt = rt_workspaceSyncCheckedAt r, hr_repoCacheHitRate = None,
         hr_registrationVerifiedAt = None, hr_registrationChallengeId = None\<rparr>,
       hb_saturation = None, hb_activeLeaseCount = None, hb_meanStartupLatencyMs = None, hb_sandboxSuccessRate = None,
       hb_capabilities = sn_capabilities w, hb_runningExecutionIds = runningExecutionIds, hb_maxConcurrency = sn_maxConcurrency w,
       hb_queueAffinity = sn_queueAffinity w, hb_runtimeInstanceId = rt_runtimeInstanceId r,
       hb_restartedFromRuntimeInstanceId = rt_restartedFromRuntimeInstanceId r, hb_progressMessage = rt_progressMessage r,
       hb_cpuPct = coalesce_opt (rt_cpuPct r) (sn_cpuPct w), hb_memoryMb = coalesce_opt (rt_memoryMb r) (sn_memoryMb w),
       hb_toolBacklogCount = Some (coalesce (rt_toolBacklogCount r) (if runningExecutionIds = [] then 0 else of_int (sn_toolBacklogCount w))),
       hb_currentStepId = Some (keep (rt_currentStepId r) (if runningExecutionIds = [] then None else sn_currentStepId w)),
       hb_lastProgressAt = coalesce_opt (rt_lastProgressAt r)
         (if rt_progressMessage r \<notin> {None, Some []} then Some occurredAt
          else if runningExecutionIds = [] then Some occurredAt else sn_lastProgressAt w)\<rparr>)"

definition freeWorkerSnapshot :: "worker_snapshot option \<Rightarrow> ident \<Rightarrow> timestamp \<Rightarrow> run_telemetry \<Rightarrow> worker_view option lifecycle_prog" where
  "freeWorkerSnapshot worker executionId occurredAt r = (case worker of
      None \<Rightarrow> returnP None
    | Some w \<Rightarrow> bindP (callWorkers (recordHeartbeat occurredAt (writeback_heartbeat w executionId occurredAt r))) (\<lambda>view. returnP (Some view)))"

text \<open>\<^verbatim>\<open>workerView?.x ?? workerSnapshot?.x ?? null\<close>.\<close>

definition of_view :: "(worker_view \<Rightarrow> 'a option) \<Rightarrow> (worker_snapshot \<Rightarrow> 'a option) \<Rightarrow> worker_view option \<Rightarrow> worker_snapshot option \<Rightarrow> 'a option" where
  "of_view f g view w = coalesce_opt (Option.bind view f) (Option.bind w g)"

definition writeback_generation :: "worker_view option \<Rightarrow> worker_snapshot option \<Rightarrow> int" where
  "writeback_generation view w = coalesce (coalesce_opt (map_option sn_restartGeneration view) (map_option sn_restartGeneration w)) 0"

definition writeback_message :: "writeback_input \<Rightarrow> string" where
  "writeback_message i = coalesce (rt_progressMessage (wb_telemetry i)) (''worker writeback '' @ terminal_text (wb_terminalStatus i))"

definition writeback_updates ::
    "writeback_input \<Rightarrow> worker_view option \<Rightarrow> worker_snapshot option \<Rightarrow> agent_row option \<Rightarrow> execution_row \<Rightarrow> timestamp \<Rightarrow> agent_updates" where
  "writeback_updates i view w existing execution occurredAt =
     (let r = wb_telemetry i; st = toExecutionTerminalStatus (wb_terminalStatus i) in
      \<lparr>au_agentId = wb_workerId i, au_runtimeInstanceId = of_view sn_runtimeInstanceId sn_runtimeInstanceId view w,
       au_restartedFromRuntimeInstanceId = of_view sn_restartedFromRuntimeInstanceId sn_restartedFromRuntimeInstanceId view w,
       au_restartGeneration = writeback_generation view w, au_status = st,
       au_currentStepId = keep (rt_currentStepId r) (Option.bind existing ag_currentStepId),
       au_lastToolName = keep (rt_lastToolName r) (Option.bind existing ag_lastToolName),
       au_toolCallCount = coalesce (rt_toolCallCount r) (of_int (coalesce (map_option ag_toolCallCount existing) 0)),
       au_progressMessage = Some (writeback_message i),
       au_lastErrorCode = (if st = ''succeeded'' then None else coalesce_opt (wb_reasonCode i) (ex_lastErrorCode execution)),
       au_startedAt = None, au_completedAt = Some (Some occurredAt)\<rparr>)"

definition release_reason :: "writeback_input \<Rightarrow> string" where
  "release_reason i = ''worker_writeback_'' @ terminal_text (wb_terminalStatus i)"

text \<open>The lease is closed by its identifier, and the audit names the caller.\<close>

definition close_by_writer :: "execution_lease \<Rightarrow> writeback_input \<Rightarrow> lease_status \<Rightarrow> lease_audit_event \<Rightarrow> string \<Rightarrow> timestamp \<Rightarrow> unit lease_prog" where
  "close_by_writer lease i status eventType reasonCode occurredAt =
     bindP (modifyP (\<lambda>c. c\<lparr>st_leases := closeExecutionLease (el_id lease) status occurredAt (Some reasonCode) (st_leases c)\<rparr>)) (\<lambda>_.
     modifyP (\<lambda>c. c\<lparr>st_audits := st_audits c @ [\<lparr>la_executionId = wb_executionId i, la_leaseId = el_id lease, la_workerId = wb_workerId i,
       la_fencingToken = wb_fencingToken i, la_eventType = eventType, la_reasonCode = Some reasonCode, la_recordedAt = occurredAt\<rparr>]\<rparr>))"

definition writeback_event :: "writeback_input \<Rightarrow> execution_row \<Rightarrow> worker_event_kind \<Rightarrow> string option \<Rightarrow> timestamp \<Rightarrow> unit lifecycle_prog" where
  "writeback_event i execution kind reasonCode occurredAt =
     insertLifecycleEvent (Some (ex_taskId execution)) (Some (wb_executionId i))
       (Worker_reported kind (ex_taskId execution) (wb_executionId i) (wb_workerId i) (wb_leaseId i) reasonCode occurredAt)"

definition book_writeback :: "writeback_input \<Rightarrow> execution_row \<Rightarrow> execution_lease \<Rightarrow> worker_snapshot option \<Rightarrow> timestamp \<Rightarrow> unit lifecycle_prog" where
  "book_writeback i execution lease w occurredAt =
     (let r = wb_telemetry i; executionId = wb_executionId i in
      bindP (freeWorkerSnapshot w executionId occurredAt r) (\<lambda>view.
      bindP (insertHeartbeatSnapshot \<lparr>hs_executionId = executionId, hs_agentId = wb_workerId i,
        hs_runtimeInstanceId = of_view sn_runtimeInstanceId sn_runtimeInstanceId view w, hs_restartGeneration = writeback_generation view w,
        hs_status = toExecutionTerminalStatus (wb_terminalStatus i), hs_progressMessage = Some (writeback_message i), hs_cpuPct = rt_cpuPct r,
        hs_memoryMb = rt_memoryMb r, hs_sampledAt = occurredAt\<rparr>) (\<lambda>_.
      bindP (getsP (\<lambda>s. agent_of s executionId)) (\<lambda>existing.
      bindP (upsertAgentExecutionRecord executionId execution occurredAt (writeback_updates i view w existing execution occurredAt)) (\<lambda>_.
      bindP (callDispatch (callLease (close_by_writer lease i Lease_released Audit_released (release_reason i) occurredAt))) (\<lambda>_.
      bindP (writeback_event i execution Writeback_recorded (wb_reasonCode i) occurredAt) (\<lambda>_.
      bindP (writeback_event i execution Lease_released_after_writeback (Some (release_reason i)) occurredAt) (\<lambda>_.
      persistRemoteLogs (ex_taskId execution) executionId (wb_workerId i) (of_view sn_runtimeInstanceId sn_runtimeInstanceId view w) (rt_remoteLogs r)
        occurredAt))))))))"

definition accept_writeback ::
    "writeback_input \<Rightarrow> execution_row \<Rightarrow> task_row \<Rightarrow> workflow_row \<Rightarrow> session_row \<Rightarrow> execution_lease \<Rightarrow> worker_snapshot option \<Rightarrow> timestamp \<Rightarrow> unit lifecycle_prog" where
  "accept_writeback i execution task workflow session lease w occurredAt = lifecycle_transaction (
     bindP (applyTaskTerminalState (writeback_terminal i execution task workflow session occurredAt)) (\<lambda>_.
     book_writeback i execution lease w occurredAt))"

definition is_invalid_transition :: "lifecycle_error \<Rightarrow> bool" where
  "is_invalid_transition e = (case e of Invalid_transition _ _ _ \<Rightarrow> True | _ \<Rightarrow> False)"

text \<open>The transaction, and the handler of what it throws.\<close>

definition try_writeback ::
    "writeback_input \<Rightarrow> execution_row \<Rightarrow> task_row \<Rightarrow> workflow_row \<Rightarrow> session_row \<Rightarrow> execution_lease \<Rightarrow> worker_snapshot option \<Rightarrow> timestamp
     \<Rightarrow> writeback_decision lifecycle_prog" where
  "try_writeback i execution task workflow session lease w occurredAt = (\<lambda>s.
     case accept_writeback i execution task workflow session lease w occurredAt s of
       (Inr _, s') \<Rightarrow> (Inr (writeback_answer True None i (Some (ex_taskId execution))), s')
     | (Inl e, s') \<Rightarrow> if is_invalid_transition e
         then writeback_refused i (ex_taskId execution) occurredAt (Some ''invalid_terminal_transition'') s' else (Inl e, s'))"

section \<open>The service\<close>

definition writeback_remote :: "worker_snapshot \<Rightarrow> run_telemetry \<Rightarrow> worker_remote" where
  "writeback_remote w r = (sn_remote w)\<lparr>wr_workspaceSyncStatus := keep (rt_workspaceSyncStatus r) (wr_workspaceSyncStatus (sn_remote w))\<rparr>"

definition writeback_checked ::
    "handshake_env \<Rightarrow> timestamp \<Rightarrow> writeback_input \<Rightarrow> execution_row \<Rightarrow> task_row \<Rightarrow> workflow_row \<Rightarrow> session_row \<Rightarrow> execution_lease
     \<Rightarrow> writeback_decision lifecycle_prog" where
  "writeback_checked env occurredAt i execution task workflow session lease =
     (let refuse = writeback_refused i (ex_taskId execution) occurredAt; r = wb_telemetry i in
      bindP (getsP (\<lambda>s. (worker_of s (wb_workerId i), agent_of s (wb_executionId i)))) (\<lambda>(worker, existing).
      if (case worker of None \<Rightarrow> False | Some w \<Rightarrow> worker_untrusted w) then refuse (Some ''worker_not_trusted'')
      else case Option.bind worker (\<lambda>w. resolveRemoteAuthorityBlockReason (sn_placement w) (writeback_remote w r)) of
        Some reason \<Rightarrow> refuse (Some (block_text reason))
      | None \<Rightarrow>
          (case firstFinding (he_ceiling env) (running_usage (wb_executionId i) (wb_workerId i) execution worker existing r occurredAt) of
             Some finding \<Rightarrow>
               bindP (case existing of
                        None \<Rightarrow> returnP ()
                      | Some a \<Rightarrow> upsertAgentExecutionRecord (wb_executionId i) execution occurredAt
                          ((exceeded_updates (wb_workerId i) execution worker a r finding)\<lparr>au_completedAt := Some None\<rparr>)) (\<lambda>_.
               refuse (Some ''resource_limit_exceeded''))
           | None \<Rightarrow> try_writeback i execution task workflow session lease worker occurredAt)))"

definition writeback_with_view ::
    "handshake_env \<Rightarrow> timestamp \<Rightarrow> writeback_input \<Rightarrow> execution_row \<Rightarrow> task_row \<Rightarrow> workflow_row \<Rightarrow> session_row \<Rightarrow> writeback_decision lifecycle_prog" where
  "writeback_with_view env occurredAt i execution task workflow session =
     (let refuse = writeback_refused i (ex_taskId execution) occurredAt in
      if ex_status execution \<noteq> ''executing'' then refuse (Some ''execution_not_executing'')
      else
        bindP (write_check env occurredAt (wb_executionId i) (wb_workerId i) (wb_fencingToken i) (wb_leaseId i)) (\<lambda>validation.
        if \<not> va_allowed validation then refuse (va_reasonCode validation)
        else
          bindP (getsP (\<lambda>s. getExecutionLease (wb_leaseId i) (leases_of s))) (\<lambda>found.
          case found of
            None \<Rightarrow> refuse (Some ''lease_not_found'')
          | Some lease \<Rightarrow>
              if el_expiresAt lease < occurredAt then
                bindP (callDispatch (callLease (transaction (close_by_writer lease i Lease_expired Audit_expired ''lease_expired'' occurredAt)))) (\<lambda>_.
                refuse (Some ''lease_expired''))
              else writeback_checked env occurredAt i execution task workflow session lease)))"

definition recordWriteback :: "handshake_env \<Rightarrow> timestamp \<Rightarrow> writeback_input \<Rightarrow> writeback_decision lifecycle_prog" where
  "recordWriteback env occurredAt i =
     bindP (getsP (loadExecutionAuthoritativeView (wb_executionId i))) (\<lambda>view.
     case view of
       None \<Rightarrow> returnP (writeback_answer False (Some ''execution_not_found'') i None)
     | Some v \<Rightarrow>
         let refuse = writeback_refused i (ex_taskId (av_execution v)) occurredAt in
         (case av_task v of
            None \<Rightarrow> refuse (Some ''task_not_found'')
          | Some task \<Rightarrow>
              (case av_workflow v of
                 None \<Rightarrow> refuse (Some ''workflow_not_found'')
               | Some workflow \<Rightarrow>
                   (case av_session v of
                      None \<Rightarrow> refuse (Some ''session_not_found'')
                    | Some session \<Rightarrow> writeback_with_view env occurredAt i (av_execution v) task workflow session))))"

section \<open>Runs of the parts\<close>

lemma terminal_disallowed: "\<not> terminal_allowed i s \<Longrightarrow> \<exists>k a b. applyTaskTerminalState i s = (Inl (Invalid_transition k a b), s)"
  unfolding terminal_split terminal_checks_def assertTransition_def terminal_allowed_def Let_def by (auto simp: prog_simps)

lemma latest_session:
  assumes "sessions_ok s" and "selectLatestSessionByTask taskId (lc_sessions s) = Some r"
  shows "se_taskId r = taskId" and "session_of s (se_id r) = Some r"
proof -
  have "r \<in> set (sort_key (\<lambda>r. - se_createdAt r) (sort_key (\<lambda>r. - se_updatedAt r) (rev (filter (\<lambda>r. se_taskId r = taskId) (lc_sessions s)))))"
    using assms(2) by (auto simp: selectLatestSessionByTask_def simp del: set_sort split: list.splits)
  then have r: "r \<in> set (lc_sessions s)" "se_taskId r = taskId" by auto
  have "find (\<lambda>x. se_id x = se_id r) (lc_sessions s) \<noteq> None" using r(1) by (auto simp: find_None_iff)
  then obtain m where m: "find (\<lambda>x. se_id x = se_id r) (lc_sessions s) = Some m" by blast
  then have "m \<in> set (lc_sessions s) \<and> se_id m = se_id r" by (rule find_Some_set)
  with r(1) assms(1) have "m = r" by (simp add: sessions_ok_def distinct_map inj_on_def)
  with m r(2) show "se_taskId r = taskId" "session_of s (se_id r) = Some r" by (simp_all add: session_of_def)
qed

lemma removed_executions: "names_ok xs \<Longrightarrow> set (normalizeStringArray (removeExecutionId xs e)) = set xs - {e}"
proof -
  assume "names_ok xs"
  then have "names_ok (removeExecutionId xs e)" by (auto simp: names_ok_def removeExecutionId_def)
  then show ?thesis by (auto simp: normalize_names_ok removeExecutionId_def)
qed

lemma free_worker_run:
  assumes ok: "lifecycle_ok s"
  obtains g view where "\<And>s'. st_registry (ds_core (lc_dispatch s')) = st_registry (ds_core (lc_dispatch s)) \<Longrightarrow> freeWorkerSnapshot (worker_of s workerId) e t r s'
        = (Inr view, s'\<lparr>lc_dispatch := (lc_dispatch s')\<lparr>ds_core := (ds_core (lc_dispatch s'))\<lparr>st_registry := g\<rparr>\<rparr>\<rparr>)"
    and "registry_ok g" and "\<forall>k. k \<noteq> workerId \<longrightarrow> getWorkerSnapshot (rg_workers g) k = worker_of s k"
    and "\<forall>x. getWorkerSnapshot (rg_workers g) workerId = Some x \<longrightarrow> e \<notin> set (sn_runningExecutions x)"
proof (cases "worker_of s workerId")
  case None
  then show ?thesis using lifecycle_okD(2) [OF ok]
    by (intro that [of None "st_registry (ds_core (lc_dispatch s))"]) (auto simp: freeWorkerSnapshot_def prog_simps)
next
  case (Some w)
  let ?in = "writeback_heartbeat w e t r"
  have wid: "sn_workerId w = workerId" and wok: "snapshot_ok w" using registry_lookup [OF lifecycle_okD(2) [OF ok] Some] by simp_all
  have hin: "hb_workerId ?in = workerId" "hb_runningExecutionIds ?in = removeExecutionId (sn_runningExecutions w) e"
    by (simp_all add: writeback_heartbeat_def Let_def wid)
  obtain g where g: "\<And>s'. st_registry (ds_core (lc_dispatch s')) = st_registry (ds_core (lc_dispatch s)) \<Longrightarrow> callWorkers (recordHeartbeat t ?in) s'
        = (Inr (toView (heartbeat_record t (Some w) ?in)), s'\<lparr>lc_dispatch := (lc_dispatch s')\<lparr>ds_core := (ds_core (lc_dispatch s'))\<lparr>st_registry := g\<rparr>\<rparr>\<rparr>)"
      "registry_ok g" "getWorkerSnapshot (rg_workers g) = (worker_of s)(workerId \<mapsto> (heartbeat_record t (Some w) ?in)\<lparr>sn_version := sn_version w + 1\<rparr>)"
    using call_workers_run [OF lifecycle_okD(2) [OF ok], of ?in w t] Some hin(1) by auto
  have "e \<notin> set (sn_runningExecutions (heartbeat_record t (Some w) ?in))"
    using removed_executions [of "sn_runningExecutions w" e] wok by (simp add: heartbeat_record_lists hin snapshot_ok_def)
  with g show ?thesis using Some
    by (intro that [of "Some (toView (heartbeat_record t (Some w) ?in))" g]) (auto simp: freeWorkerSnapshot_def prog_simps)
qed

lemma book_writeback_run:
  assumes ok: "lifecycle_ok s" and s1: "st_registry (ds_core (lc_dispatch s1)) = st_registry (ds_core (lc_dispatch s))"
    and refs: "task_of s1 (ex_taskId ex) = Some r" "execution_of s1 (wb_executionId i) = Some x"
  obtains s' where "book_writeback i ex l (worker_of s (wb_workerId i)) t s1 = (Inr (), s')"
    and "leases_of s' = closeExecutionLease (el_id l) Lease_released t (Some (release_reason i)) (leases_of s1)"
    and "tickets_of s' = tickets_of s1" and "execution_of s' = execution_of s1" and "task_of s' = task_of s1" and "workflow_of s' = workflow_of s1"
    and "lc_sessions s' = lc_sessions s1" and "lc_approvals s' = lc_approvals s1" and "registry_ok (st_registry (ds_core (lc_dispatch s')))"
    and "\<forall>k. k \<noteq> wb_workerId i \<longrightarrow> worker_of s' k = worker_of s k"
    and "\<forall>x. worker_of s' (wb_workerId i) = Some x \<longrightarrow> wb_executionId i \<notin> set (sn_runningExecutions x)"
proof -
  obtain g view where g: "\<And>s'. st_registry (ds_core (lc_dispatch s')) = st_registry (ds_core (lc_dispatch s)) \<Longrightarrow>
        freeWorkerSnapshot (worker_of s (wb_workerId i)) (wb_executionId i) t (wb_telemetry i) s'
        = (Inr view, s'\<lparr>lc_dispatch := (lc_dispatch s')\<lparr>ds_core := (ds_core (lc_dispatch s'))\<lparr>st_registry := g\<rparr>\<rparr>\<rparr>)"
      "registry_ok g" "\<forall>k. k \<noteq> wb_workerId i \<longrightarrow> getWorkerSnapshot (rg_workers g) k = worker_of s k"
      "\<forall>x. getWorkerSnapshot (rg_workers g) (wb_workerId i) = Some x \<longrightarrow> wb_executionId i \<notin> set (sn_runningExecutions x)"
    using free_worker_run [OF ok] by metis
  let ?s = "snd (book_writeback i ex l (worker_of s (wb_workerId i)) t s1)"
  have "book_writeback i ex l (worker_of s (wb_workerId i)) t s1 = (Inr (), ?s) \<and> st_registry (ds_core (lc_dispatch ?s)) = g
      \<and> leases_of ?s = closeExecutionLease (el_id l) Lease_released t (Some (release_reason i)) (leases_of s1)
      \<and> tickets_of ?s = tickets_of s1 \<and> execution_of ?s = execution_of s1 \<and> task_of ?s = task_of s1 \<and> workflow_of ?s = workflow_of s1
      \<and> lc_sessions ?s = lc_sessions s1 \<and> lc_approvals ?s = lc_approvals s1"
    using refs s1
    by (simp add: book_writeback_def Let_def prog_simps g(1) insertHeartbeatSnapshot_def upsertAgentExecutionRecord_def callDispatch_def callLease_def
        close_by_writer_def writeback_event_def event_run persistRemoteLogs_def)
  with g(2-4) show ?thesis by (intro that [of ?s]) auto
qed

section \<open>The settled store\<close>

lemma ended_store_frame [simp]:
  "leases_of (ended_store i s) = leases_of s" "tickets_of (ended_store i s) = tickets_of s" "lc_approvals (ended_store i s) = lc_approvals s"
  "st_registry (ds_core (lc_dispatch (ended_store i s))) = st_registry (ds_core (lc_dispatch s))"
  "agent_of (ended_store i s) = agent_of s"
  by (simp_all add: ended_store_def Let_def)

lemma ended_store_rows:
  "task_of (ended_store i s) = (task_of s)(ti_taskId i := map_option (terminal_task i) (task_of s (ti_taskId i)))"
  "workflow_of (ended_store i s) = (workflow_of s)(ti_taskId i := map_option (terminal_workflow i) (workflow_of s (ti_taskId i)))"
  "execution_of (ended_store i s) = (if moves_execution i s
     then (execution_of s)(the (ti_executionId i) := map_option (terminal_execution i) (execution_of s (the (ti_executionId i)))) else execution_of s)"
  "lc_sessions (ended_store i s) = map (\<lambda>r. if se_id r = ti_sessionId i then terminal_session i r else r) (lc_sessions s)"
  by (simp_all add: ended_store_def Let_def)

lemma terminal_rows [simp]:
  "tk_status (terminal_task i r) = terminal_text (ti_terminalStatus i)" "wf_status (terminal_workflow i w) = completed_or ''completed'' (ti_terminalStatus i)"
  "se_id (terminal_session i q) = se_id q" "se_status (terminal_session i q) = completed_or ''completed'' (ti_terminalStatus i)"
  "ex_status (terminal_execution i x) = completed_or ''succeeded'' (ti_terminalStatus i)" "ex_taskId (terminal_execution i x) = ex_taskId x"
  by (simp_all add: terminal_task_def terminal_workflow_def terminal_session_def terminal_execution_def)

lemma ended_store_statuses:
  assumes "task_of s (ti_taskId i) = Some r" and "workflow_of s (ti_taskId i) = Some w" and "session_of s (ti_sessionId i) = Some q"
    and "ti_executionId i = Some e" and "execution_of s e = Some x" and "moves_execution i s"
  shows "task_status (ended_store i s) = (task_status s)(ti_taskId i \<mapsto> terminal_text (ti_terminalStatus i))"
    and "workflow_status (ended_store i s) = (workflow_status s)(ti_taskId i \<mapsto> completed_or ''completed'' (ti_terminalStatus i))"
    and "session_status (ended_store i s) = (session_status s)(ti_sessionId i \<mapsto> completed_or ''completed'' (ti_terminalStatus i))"
    and "execution_status (ended_store i s) = (execution_status s)(e \<mapsto> completed_or ''succeeded'' (ti_terminalStatus i))"
proof -
  show "task_status (ended_store i s) = (task_status s)(ti_taskId i \<mapsto> terminal_text (ti_terminalStatus i))"
    "workflow_status (ended_store i s) = (workflow_status s)(ti_taskId i \<mapsto> completed_or ''completed'' (ti_terminalStatus i))"
    "execution_status (ended_store i s) = (execution_status s)(e \<mapsto> completed_or ''succeeded'' (ti_terminalStatus i))"
    using assms by (auto simp: fun_eq_iff task_status_def workflow_status_def execution_status_def ended_store_rows)
  show "session_status (ended_store i s) = (session_status s)(ti_sessionId i \<mapsto> completed_or ''completed'' (ti_terminalStatus i))"
    using session_status_map [of "terminal_session i" "completed_or ''completed'' (ti_terminalStatus i)" s "ti_sessionId i", OF _ _ assms(3)]
    by (simp add: session_status_def [abs_def] session_of_def ended_store_rows)
qed

lemma ended_store_sessions: "sessions_ok s \<Longrightarrow> sessions_ok (ended_store i s)"
proof -
  have "map se_id (lc_sessions (ended_store i s)) = map se_id (lc_sessions s)" by (simp add: ended_store_rows)
  then show "sessions_ok s \<Longrightarrow> sessions_ok (ended_store i s)" by (simp add: sessions_ok_def)
qed

lemma ended_store_ok:
  assumes ok: "lifecycle_ok s"
  shows "lifecycle_ok (ended_store i s)"
proof -
  have dom: "dom (execution_of (ended_store i s)) = dom (execution_of s)" "dom (task_of (ended_store i s)) = dom (task_of s)"
    by (auto simp: ended_store_rows split: if_splits)
  have "ex_taskId ` ran (execution_of (ended_store i s)) \<subseteq> ex_taskId ` ran (execution_of s)"
    by (auto simp: ended_store_rows ran_def image_iff split: if_splits)
  moreover have "ex_taskId ` ran (execution_of s) \<subseteq> dom (task_of s)" "et_taskId ` set (tickets_of s) \<subseteq> dom (task_of s)"
    using ok by (auto simp: lifecycle_ok_def linked_def)
  ultimately have fk: "ex_taskId ` ran (execution_of (ended_store i s)) \<subseteq> dom (task_of (ended_store i s))" "et_taskId ` set (tickets_of s) \<subseteq> dom (task_of (ended_store i s))"
    unfolding dom by blast+
  have "dispatch_ok (lc_dispatch (ended_store i s))" using ok dom(1) by (simp add: lifecycle_ok_def dispatch_ok_def linked_def registry_def)
  then show ?thesis using fk ended_store_sessions [OF lifecycle_okD(4) [OF ok]] by (auto simp: lifecycle_ok_def linked_def)
qed

section \<open>Write-backs, exactly\<close>

text \<open>Whether a write-back is due: what has to hold for it to be accepted.\<close>

definition writeback_due :: "handshake_env \<Rightarrow> timestamp \<Rightarrow> writeback_input \<Rightarrow> lifecycle_store \<Rightarrow> bool" where
  "writeback_due env t i s \<longleftrightarrow> may_write env s t (wb_executionId i) (wb_workerId i) (wb_fencingToken i) (wb_leaseId i)
     \<and> (\<exists>ex task workflow session. execution_of s (wb_executionId i) = Some ex \<and> ex_status ex = ''executing''
          \<and> task_of s (ex_taskId ex) = Some task \<and> workflow_of s (ex_taskId ex) = Some workflow
          \<and> selectLatestSessionByTask (ex_taskId ex) (lc_sessions s) = Some session
          \<and> firstFinding (he_ceiling env) (running_usage (wb_executionId i) (wb_workerId i) ex (worker_of s (wb_workerId i)) (agent_of s (wb_executionId i))
              (wb_telemetry i) t) = None
          \<and> terminal_allowed (writeback_terminal i ex task workflow session t) s)
     \<and> (\<forall>w. worker_of s (wb_workerId i) = Some w \<longrightarrow> \<not> worker_untrusted w
          \<and> resolveRemoteAuthorityBlockReason (sn_placement w) (writeback_remote w (wb_telemetry i)) = None)"

text \<open>The task, its workflow, its newest session and the execution have ended, the lease is released and the worker is free; no other status, no other
  lease, no ticket, no approval and no other worker has changed.\<close>

definition writeback_taken :: "lifecycle_store \<Rightarrow> lifecycle_store \<Rightarrow> writeback_input \<Rightarrow> timestamp \<Rightarrow> bool" where
  "writeback_taken s s' i t \<longleftrightarrow> (\<exists>ex session l. execution_of s (wb_executionId i) = Some ex
     \<and> selectLatestSessionByTask (ex_taskId ex) (lc_sessions s) = Some session
     \<and> getActiveExecutionLease (wb_executionId i) (leases_of s) = Some l
     \<and> task_status s' = (task_status s)(ex_taskId ex \<mapsto> terminal_text (wb_terminalStatus i))
     \<and> workflow_status s' = (workflow_status s)(ex_taskId ex \<mapsto> completed_or ''completed'' (wb_terminalStatus i))
     \<and> session_status s' = (session_status s)(se_id session \<mapsto> completed_or ''completed'' (wb_terminalStatus i))
     \<and> execution_status s' = (execution_status s)(wb_executionId i \<mapsto> toExecutionTerminalStatus (wb_terminalStatus i))
     \<and> leases_of s' = update_lease (\<lambda>m. m = l) (close_lease Lease_released t (Some (release_reason i))) (leases_of s))
     \<and> tickets_of s' = tickets_of s \<and> lc_approvals s' = lc_approvals s
     \<and> (\<forall>k. k \<noteq> wb_workerId i \<longrightarrow> worker_of s' k = worker_of s k)
     \<and> (\<forall>x. worker_of s' (wb_workerId i) = Some x \<longrightarrow> wb_executionId i \<notin> set (sn_runningExecutions x))"

lemma accept_writeback_run:
  assumes ok: "lifecycle_ok s" and ex: "execution_of s (wb_executionId i) = Some ex" "ex_status ex = ''executing''"
    and task: "task_of s (ex_taskId ex) = Some task" and workflow: "workflow_of s (ex_taskId ex) = Some workflow"
    and session: "selectLatestSessionByTask (ex_taskId ex) (lc_sessions s) = Some session"
    and l: "getActiveExecutionLease (wb_executionId i) (leases_of s) = Some l"
    and may_end: "terminal_allowed (writeback_terminal i ex task workflow session t) s"
  obtains s' where "accept_writeback i ex task workflow session l (worker_of s (wb_workerId i)) t s = (Inr (), s')"
    and "writeback_taken s s' i t" and "lifecycle_ok s'"
proof -
  let ?ti = "writeback_terminal i ex task workflow session t" and ?e = "wb_executionId i"
  let ?ls = "update_lease (\<lambda>m. m = l) (close_lease Lease_released t (Some (release_reason i))) (leases_of s)"
  have ti: "ti_taskId ?ti = ex_taskId ex" "ti_executionId ?ti = Some ?e" "ti_sessionId ?ti = se_id session" "ti_terminalStatus ?ti = wb_terminalStatus i"
    by (simp_all add: writeback_terminal_def)
  note se = latest_session(2) [OF lifecycle_okD(4) [OF ok] session]
  have moves: "moves_execution ?ti s" using ex by (simp add: moves_execution_def resolveExistingExecutionRef_def execution_already_terminal_def writeback_terminal_def)
  have "statuses_current ?ti s"
    using ex(1) task workflow se
    by (simp add: statuses_current_def task_status_def workflow_status_def session_status_def execution_status_def writeback_terminal_def)
  then have apply_: "applyTaskTerminalState ?ti s = (Inr (), ended_store ?ti s)"
    using terminal_apply [OF lifecycle_okD(4) [OF ok], of ?ti] may_end by (simp add: terminal_admissible_def)
  have rows: "task_of (ended_store ?ti s) (ex_taskId ex) = Some (terminal_task ?ti task)" "execution_of (ended_store ?ti s) ?e = Some (terminal_execution ?ti ex)"
    using task ex(1) moves by (simp_all add: ended_store_rows ti)
  obtain s' where run: "book_writeback i ex l (worker_of s (wb_workerId i)) t (ended_store ?ti s) = (Inr (), s')"
      "leases_of s' = closeExecutionLease (el_id l) Lease_released t (Some (release_reason i)) (leases_of s)"
      "tickets_of s' = tickets_of s" "execution_of s' = execution_of (ended_store ?ti s)" "task_of s' = task_of (ended_store ?ti s)"
      "workflow_of s' = workflow_of (ended_store ?ti s)" "lc_sessions s' = lc_sessions (ended_store ?ti s)" "lc_approvals s' = lc_approvals s"
      "registry_ok (st_registry (ds_core (lc_dispatch s')))" "\<forall>k. k \<noteq> wb_workerId i \<longrightarrow> worker_of s' k = worker_of s k"
      "\<forall>x. worker_of s' (wb_workerId i) = Some x \<longrightarrow> ?e \<notin> set (sn_runningExecutions x)"
    using book_writeback_run [OF ok ended_store_frame(4) rows] unfolding ended_store_frame by metis
  have lin: "l \<in> set (leases_of s)" using l getActive_iff [OF lifecycle_okD(1) [OF ok]] by blast
  have leases: "leases_of s' = ?ls" using run(2) close_by_id(1) [OF lifecycle_okD(1) [OF ok] lin] by simp
  have same: "task_status s' = task_status (ended_store ?ti s)" "workflow_status s' = workflow_status (ended_store ?ti s)"
      "session_status s' = session_status (ended_store ?ti s)" "execution_status s' = execution_status (ended_store ?ti s)"
    using run(4-7) by (simp_all add: fun_eq_iff status_defs)
  have to: "completed_or ''succeeded'' (wb_terminalStatus i) = toExecutionTerminalStatus (wb_terminalStatus i)"
    by (simp add: completed_or_def toExecutionTerminalStatus_def)
  have "writeback_taken s s' i t"
    unfolding writeback_taken_def
    using ex(1) session l leases run(3,8,10,11) same ended_store_statuses [of s ?ti task workflow session ?e ex] task workflow se moves by (simp add: ti to)
  moreover have "lease_ok ?ls" using lifecycle_okD(1) [OF ok] lease_change.close [of Lease_released] lease_ok_change by blast
  then have "lifecycle_ok s'" using run(3-7,9) leases by (intro lifecycle_ok_same [OF ended_store_ok [OF ok, of ?ti]]) simp_all
  moreover have "accept_writeback i ex task workflow session l (worker_of s (wb_workerId i)) t s = (Inr (), s')"
    using run(1) apply_ by (simp add: accept_writeback_def lifecycle_transaction_def bindP_eval)
  ultimately show ?thesis by (intro that)
qed

lemma writeback_answer_accepted [simp]: "wd_accepted (writeback_answer b reason i tsk) = b"
  by (simp add: writeback_answer_def)

text \<open>A run that answers no and only reports.\<close>

definition turns_down :: "lifecycle_store \<Rightarrow> writeback_decision lifecycle_prog \<Rightarrow> bool" where
  "turns_down s m \<longleftrightarrow> (\<exists>d s'. m s = (Inr d, s') \<and> \<not> wd_accepted d \<and> reported s s')"

lemma turns_down_refused:
  assumes "lifecycle_ok s" and "execution_of s (wb_executionId i) = Some ex"
  shows "turns_down s (writeback_refused i (ex_taskId ex) t reason)"
proof -
  obtain r where "task_of s (ex_taskId ex) = Some r" using lifecycle_okD(5) [OF assms] by blast
  then show ?thesis using assms(2) reported_events [of s]
    by (simp add: turns_down_def writeback_refused_def recordRejectedEvent_def prog_simps event_run)
qed

lemma turns_down_later:
  assumes "m s = writeback_refused i (ex_taskId ex) t reason s1" and "reported s s1" and "lifecycle_ok s" and "execution_of s (wb_executionId i) = Some ex"
  shows "turns_down s m"
  using turns_down_refused [OF reported_ok [OF assms(2,3)], of i ex t reason] reported_same(1) [OF assms(2)] assms(1,4) reports.trans [OF assms(2)]
  by (auto simp: turns_down_def)

lemma try_writeback_run:
  assumes ok: "lifecycle_ok s" and ex: "execution_of s (wb_executionId i) = Some ex" "ex_status ex = ''executing''"
    and rows: "task_of s (ex_taskId ex) = Some task" "workflow_of s (ex_taskId ex) = Some workflow"
      "selectLatestSessionByTask (ex_taskId ex) (lc_sessions s) = Some session"
    and l: "getActiveExecutionLease (wb_executionId i) (leases_of s) = Some l"
  shows "if terminal_allowed (writeback_terminal i ex task workflow session t) s
    then \<exists>d s'. try_writeback i ex task workflow session l (worker_of s (wb_workerId i)) t s = (Inr d, s') \<and> wd_accepted d
      \<and> writeback_taken s s' i t \<and> lifecycle_ok s'
    else turns_down s (try_writeback i ex task workflow session l (worker_of s (wb_workerId i)) t)"
proof (cases "terminal_allowed (writeback_terminal i ex task workflow session t) s")
  case True
  obtain s' where "accept_writeback i ex task workflow session l (worker_of s (wb_workerId i)) t s = (Inr (), s')" "writeback_taken s s' i t" "lifecycle_ok s'"
    using accept_writeback_run [OF ok ex rows l True] by blast
  then show ?thesis using True by (simp add: try_writeback_def)
next
  case False
  obtain k a b where "applyTaskTerminalState (writeback_terminal i ex task workflow session t) s = (Inl (Invalid_transition k a b), s)"
    using terminal_disallowed [OF False] by blast
  then have "try_writeback i ex task workflow session l (worker_of s (wb_workerId i)) t s
      = writeback_refused i (ex_taskId ex) t (Some ''invalid_terminal_transition'') s"
    by (simp add: try_writeback_def accept_writeback_def lifecycle_transaction_def bindP_eval is_invalid_transition_def)
  then show ?thesis using False turns_down_later [OF _ reports.refl ok ex(1)] by simp
qed

lemma writeback_checked_run:
  fixes t :: timestamp and env :: handshake_env
  assumes ok: "lifecycle_ok s" and ex: "execution_of s (wb_executionId i) = Some ex" "ex_status ex = ''executing''"
    and rows: "task_of s (ex_taskId ex) = Some task" "workflow_of s (ex_taskId ex) = Some workflow"
      "selectLatestSessionByTask (ex_taskId ex) (lc_sessions s) = Some session"
    and l: "getActiveExecutionLease (wb_executionId i) (leases_of s) = Some l"
  defines "finding \<equiv> firstFinding (he_ceiling env) (running_usage (wb_executionId i) (wb_workerId i) ex (worker_of s (wb_workerId i)) (agent_of s (wb_executionId i))
    (wb_telemetry i) t)"
  shows "if (\<forall>w. worker_of s (wb_workerId i) = Some w \<longrightarrow> \<not> worker_untrusted w
        \<and> resolveRemoteAuthorityBlockReason (sn_placement w) (writeback_remote w (wb_telemetry i)) = None)
      \<and> finding = None \<and> terminal_allowed (writeback_terminal i ex task workflow session t) s
    then \<exists>d s'. writeback_checked env t i ex task workflow session l s = (Inr d, s') \<and> wd_accepted d \<and> writeback_taken s s' i t \<and> lifecycle_ok s'
    else turns_down s (writeback_checked env t i ex task workflow session l)"
proof -
  let ?m = "writeback_checked env t i ex task workflow session l"
  note later = turns_down_later [OF _ _ ok ex(1)]
  show ?thesis
  proof (cases "\<exists>w. worker_of s (wb_workerId i) = Some w
      \<and> (worker_untrusted w \<or> resolveRemoteAuthorityBlockReason (sn_placement w) (writeback_remote w (wb_telemetry i)) \<noteq> None)")
    case True
    then have "\<exists>reason. ?m s = writeback_refused i (ex_taskId ex) t reason s"
      by (auto simp: writeback_checked_def Let_def bindP_gets)
    then have "turns_down s ?m" using later [OF _ reports.refl] by blast
    then show ?thesis using True by auto
  next
    case False
    then have free: "(case worker_of s (wb_workerId i) of None \<Rightarrow> False | Some w \<Rightarrow> worker_untrusted w) = False"
        "Option.bind (worker_of s (wb_workerId i)) (\<lambda>w. resolveRemoteAuthorityBlockReason (sn_placement w) (writeback_remote w (wb_telemetry i))) = None"
      by (cases "worker_of s (wb_workerId i)"; auto)+
    show ?thesis
    proof (cases finding)
      case None
      then have "?m s = try_writeback i ex task workflow session l (worker_of s (wb_workerId i)) t s"
        using free by (simp add: writeback_checked_def Let_def bindP_gets finding_def)
      then show ?thesis using try_writeback_run [OF ok ex rows l, of t] None False by (auto simp: turns_down_def split: if_splits)
    next
      case (Some f)
      have "\<exists>s1. ?m s = writeback_refused i (ex_taskId ex) t (Some ''resource_limit_exceeded'') s1 \<and> reported s s1"
      proof (cases "agent_of s (wb_executionId i)")
        case None
        then have "?m s = writeback_refused i (ex_taskId ex) t (Some ''resource_limit_exceeded'') s"
          using Some free by (simp add: writeback_checked_def Let_def bindP_gets finding_def)
        then show ?thesis using reports.refl by blast
      next
        case (Some a)
        then show ?thesis using \<open>finding = Some f\<close> free reported_agents [of s]
          by (auto simp: writeback_checked_def Let_def prog_simps finding_def upsertAgentExecutionRecord_def)
      qed
      then have "turns_down s ?m" using later by blast
      then show ?thesis using Some by simp
    qed
  qed
qed

lemma writeback_with_view_run:
  assumes ok: "lifecycle_ok s" and id: "wb_leaseId i \<noteq> []" and ex: "execution_of s (wb_executionId i) = Some ex"
    and rows: "task_of s (ex_taskId ex) = Some task" "workflow_of s (ex_taskId ex) = Some workflow"
      "selectLatestSessionByTask (ex_taskId ex) (lc_sessions s) = Some session"
  shows "if writeback_due env t i s
    then \<exists>d s'. writeback_with_view env t i ex task workflow session s = (Inr d, s') \<and> wd_accepted d \<and> writeback_taken s s' i t \<and> lifecycle_ok s'
    else turns_down s (writeback_with_view env t i ex task workflow session)"
proof (cases "ex_status ex = ''executing''")
  case False
  then have "turns_down s (writeback_with_view env t i ex task workflow session)"
    using turns_down_later [OF _ reports.refl ok ex] by (simp add: writeback_with_view_def)
  moreover have "\<not> writeback_due env t i s" using False ex by (auto simp: writeback_due_def)
  ultimately show ?thesis by simp
next
  case status: True
  obtain r s1 where check: "write_check env t (wb_executionId i) (wb_workerId i) (wb_fencingToken i) (wb_leaseId i) s = (Inr r, s1)"
      "va_allowed r \<longleftrightarrow> may_write env s t (wb_executionId i) (wb_workerId i) (wb_fencingToken i) (wb_leaseId i)"
      "if va_allowed r then s1 = s else reported s s1"
    using write_check_run [OF lifecycle_okD(1) [OF ok]] by metis
  show ?thesis
  proof (cases "va_allowed r")
    case False
    then have "writeback_with_view env t i ex task workflow session s = writeback_refused i (ex_taskId ex) t (va_reasonCode r) s1" "reported s s1"
      using status check by (simp_all add: writeback_with_view_def Let_def bindP_eval)
    then have "turns_down s (writeback_with_view env t i ex task workflow session)" using turns_down_later [OF _ _ ok ex] by blast
    then show ?thesis using False check(2) by (simp add: writeback_due_def)
  next
    case True
    then have s1: "s1 = s" and may: "may_write env s t (wb_executionId i) (wb_workerId i) (wb_fencingToken i) (wb_leaseId i)" using check by simp_all
    obtain l where l: "getActiveExecutionLease (wb_executionId i) (leases_of s) = Some l" "t < el_expiresAt l" "wb_leaseId i = el_id l"
      using may id by (auto simp: may_write_def)
    have "getExecutionLease (wb_leaseId i) (leases_of s) = Some l"
      using l lifecycle_okD(1) [OF ok] getActive_iff [OF lifecycle_okD(1) [OF ok]] by (auto simp: getLease_iff lease_ok_def)
    then have eval: "writeback_with_view env t i ex task workflow session s = writeback_checked env t i ex task workflow session l s"
      using status True l(2) check(1) s1 by (simp add: writeback_with_view_def Let_def bindP_eval getsP_def)
    show ?thesis
      using writeback_checked_run [OF ok ex status rows l(1), of env t] may ex status rows eval
      by (auto simp: writeback_due_def turns_down_def split: if_splits)
  qed
qed

lemma writeback_result:
  assumes ok: "lifecycle_ok s" and id: "wb_leaseId i \<noteq> []"
  shows "if writeback_due env t i s
    then \<exists>d s'. recordWriteback env t i s = (Inr d, s') \<and> wd_accepted d \<and> writeback_taken s s' i t \<and> lifecycle_ok s'
    else turns_down s (recordWriteback env t i)"
proof (cases "execution_of s (wb_executionId i)")
  case None
  then show ?thesis using reports.refl
    by (auto simp: writeback_due_def turns_down_def recordWriteback_def loadExecutionAuthoritativeView_def prog_simps)
next
  case (Some ex)
  obtain task where task: "task_of s (ex_taskId ex) = Some task" using lifecycle_okD(5) [OF ok Some] by blast
  note eval = recordWriteback_def loadExecutionAuthoritativeView_def bindP_gets Some task Let_def
  show ?thesis
  proof (cases "workflow_of s (ex_taskId ex) = None \<or> selectLatestSessionByTask (ex_taskId ex) (lc_sessions s) = None")
    case True
    then have "\<exists>reason. recordWriteback env t i s = writeback_refused i (ex_taskId ex) t reason s"
      by (cases "workflow_of s (ex_taskId ex)") (auto simp: eval)
    then have "turns_down s (recordWriteback env t i)" using turns_down_later [OF _ reports.refl ok Some] by blast
    moreover have "\<not> writeback_due env t i s" using True Some by (auto simp: writeback_due_def)
    ultimately show ?thesis by simp
  next
    case False
    then obtain workflow session where rows: "workflow_of s (ex_taskId ex) = Some workflow"
      "selectLatestSessionByTask (ex_taskId ex) (lc_sessions s) = Some session" by auto
    then have "recordWriteback env t i s = writeback_with_view env t i ex task workflow session s" by (simp add: eval)
    then show ?thesis using writeback_with_view_run [OF ok id Some task rows, of env t] by (auto simp: turns_down_def split: if_splits)
  qed
qed

text \<open>
  C7. A write-back is decided exactly and applied as a whole: on a well-formed store the call never fails; it is accepted exactly when the execution
  runs, the caller holds its active lease with token and identifier, is trusted, not blocked and below its ceilings, and every entity may end. Then
  the task, its workflow, its newest session and the execution end together, the lease, and no other, is released and the worker is
  free of the execution. A refused write-back leaves only reports.
\<close>

theorem writeback_exact:
  assumes "lifecycle_ok s" and "wb_leaseId i \<noteq> []"
  shows "\<exists>d s'. recordWriteback env t i s = (Inr d, s') \<and> lifecycle_ok s' \<and> (wd_accepted d \<longleftrightarrow> writeback_due env t i s)
    \<and> (if wd_accepted d then writeback_taken s s' i t else reported s s')"
proof (cases "writeback_due env t i s")
  case True
  then show ?thesis using writeback_result [OF assms, of env t] by auto
next
  case False
  then obtain d s' where "recordWriteback env t i s = (Inr d, s')" "\<not> wd_accepted d" "reported s s'"
    using writeback_result [OF assms, of env t] by (auto simp: turns_down_def)
  then show ?thesis using False reported_ok [OF _ assms(1)] by auto
qed

section \<open>Concrete runs\<close>

definition running_demo :: lifecycle_store where
  "running_demo = (hk_store claim_demo)\<lparr>lc_dispatch := (lc_dispatch (hk_store claim_demo))\<lparr>ds_core := (ds_core (lc_dispatch (hk_store claim_demo)))
     \<lparr>st_executions := [''e1'' \<mapsto> (demo_execution ''t1'' ''executing'')\<lparr>ex_createdAt := 100\<rparr>, ''e2'' \<mapsto> demo_execution ''t2'' ''created'']\<rparr>\<rparr>\<rparr>"

definition cancelled_demo :: handshake_state where
  "cancelled_demo = claim_demo\<lparr>hk_store := (hk_store claim_demo)\<lparr>lc_dispatch := (lc_dispatch (hk_store claim_demo))\<lparr>ds_core := (ds_core (lc_dispatch (hk_store claim_demo)))
     \<lparr>st_executions := [''e1'' \<mapsto> (demo_execution ''t1'' ''cancelled'')\<lparr>ex_createdAt := 100\<rparr>, ''e2'' \<mapsto> demo_execution ''t2'' ''created'']\<rparr>\<rparr>\<rparr>\<rparr>"

definition demo_writeback :: writeback_input where
  "demo_writeback = \<lparr>wb_executionId = ''e1'', wb_workerId = ''w1'', wb_leaseId = ''l2'', wb_fencingToken = 2, wb_terminalStatus = TT_done,
     wb_taskOutputJson = Some ''{}'', wb_outputsJson = None, wb_reasonCode = None, wb_telemetry = run_telemetry.truncate silent\<rparr>"

lemma lifecycle_ok_executions:
  assumes "lifecycle_ok s" and "dom f = dom (execution_of s)" and "\<And>ex. ex \<in> ran f \<Longrightarrow> task_of s (ex_taskId ex) \<noteq> None"
  shows "lifecycle_ok (s\<lparr>lc_dispatch := (lc_dispatch s)\<lparr>ds_core := (ds_core (lc_dispatch s))\<lparr>st_executions := f\<rparr>\<rparr>\<rparr>)"
  using assms by (simp add: lifecycle_ok_def dispatch_ok_def linked_def sessions_ok_def registry_def)

lemma demo_stores: "lifecycle_ok running_demo" "lifecycle_ok (hk_store cancelled_demo)"
proof -
  have tasks: "task_of (hk_store claim_demo) ''t1'' \<noteq> None" "task_of (hk_store claim_demo) ''t2'' \<noteq> None"
    by (simp_all add: claim_demo_def lifecycle_demo_def dispatch_demo_def)
  have dom: "dom (execution_of (hk_store claim_demo)) = {''e1'', ''e2''}" by (auto simp: claim_demo_def)
  have "lifecycle_ok ((hk_store claim_demo)\<lparr>lc_dispatch := (lc_dispatch (hk_store claim_demo))\<lparr>ds_core := (ds_core (lc_dispatch (hk_store claim_demo)))
     \<lparr>st_executions := [''e1'' \<mapsto> (demo_execution ''t1'' st)\<lparr>ex_createdAt := 100\<rparr>, ''e2'' \<mapsto> demo_execution ''t2'' ''created'']\<rparr>\<rparr>\<rparr>)" for st
  proof (rule lifecycle_ok_executions [OF claim_demo_ok])
    let ?f = "[''e1'' \<mapsto> (demo_execution ''t1'' st)\<lparr>ex_createdAt := 100\<rparr>, ''e2'' \<mapsto> demo_execution ''t2'' ''created'']"
    show "dom ?f = dom (execution_of (hk_store claim_demo))" unfolding dom by auto
    show "task_of (hk_store claim_demo) (ex_taskId ex) \<noteq> None" if "ex \<in> ran ?f" for ex
    proof -
      have "ex_taskId ex \<in> {''t1'', ''t2''}" using that by (auto simp: ran_def demo_execution_def split: if_splits)
      then show ?thesis using tasks by (elim insertE emptyE) simp_all
    qed
  qed
  then show "lifecycle_ok running_demo" "lifecycle_ok (hk_store cancelled_demo)" by (simp_all add: running_demo_def cancelled_demo_def)
qed

lemma demo_due: "writeback_due demo_handshake 105 demo_writeback running_demo"
proof -
  have "may_write demo_handshake running_demo 105 ''e1'' ''w1'' 2 ''l2''" using demo_may_write by (simp add: may_write_def running_demo_def)
  moreover have "worker_of running_demo ''w1'' = Some solo_worker" using demo_worker(1) by (simp add: running_demo_def)
  moreover have "terminal_allowed (writeback_terminal demo_writeback ((demo_execution ''t1'' ''executing'')\<lparr>ex_createdAt := 100\<rparr>) (demo_task ''normal'')
      \<lparr>wf_status = ''running'', wf_currentStepIndex = 1, wf_outputsJson = ''{}'', wf_resumableFromStep = Some ''s1'', wf_retryCount = 0, wf_lastErrorCode = None,
       wf_updatedAt = 0\<rparr> demo_session 105) running_demo"
    by (simp add: terminal_allowed_def Let_def writeback_terminal_def demo_writeback_def demo_task_def demo_session_def demo_execution_def transition_allowed_def
        successors_def TASK_TRANSITIONS_def SESSION_TRANSITIONS_def WORKFLOW_TRANSITIONS_def EXECUTION_TRANSITIONS_def terminal_text_def completed_or_def)
  moreover have "selectLatestSessionByTask ''t1'' (lc_sessions running_demo) = Some demo_session"
    by (simp add: selectLatestSessionByTask_def running_demo_def claim_demo_def lifecycle_demo_def demo_session_def)
  ultimately show ?thesis
    using demo_worker(2-4)
    by (simp add: writeback_due_def demo_writeback_def resolveRemoteAuthorityBlockReason_def firstFinding_None_iff running_usage_def silent_def
        run_telemetry.truncate_def demo_handshake_def new_handshake_env_def newCeilingGuard_def configured_def resolveLimit_def same_option_def js_trunc_def elapsedMs_def
        running_demo_def demo_execution_def claim_demo_def lifecycle_demo_def dispatch_demo_def lease_demo_def)
qed

theorem writeback_exact_witness:
  "\<exists>d s'. recordWriteback demo_handshake 105 demo_writeback running_demo = (Inr d, s') \<and> wd_accepted d \<and> task_status s' ''t1'' = Some ''done''"
proof -
  have "wb_leaseId demo_writeback \<noteq> []" by (simp add: demo_writeback_def)
  then obtain d s' where run: "recordWriteback demo_handshake 105 demo_writeback running_demo = (Inr d, s')" "wd_accepted d"
      "writeback_taken running_demo s' demo_writeback 105"
    using writeback_exact [OF demo_stores(1), of demo_writeback demo_handshake 105] demo_due by auto
  then show ?thesis by (auto simp: writeback_taken_def demo_writeback_def terminal_text_def running_demo_def demo_execution_def)
qed

end
