(* ===== verification/Work_Lifecycle.thy ===== *)
theory Work_Lifecycle
  imports Worker_Writeback
begin

text \<open>
  The services that move work, together: the transition service, the lease service, ticket creation, the handshake and the write-back act on one
  store, in any order and any number of times. Each of them moves the statuses of tasks, workflows, sessions, executions and approvals only along the
  transition tables, so what has ended stays ended, and a result is taken at most once.

  Dispatch is not among these steps: when it gives up a ticket it writes the status of the execution without the tables, which is shown at the end.
\<close>

section \<open>Programs of the other services\<close>

text \<open>A program of the dispatcher or of the lease service that leaves all statuses alone.\<close>

lemma governed_call:
  assumes "\<And>d. ds_tasks (snd (m d)) = ds_tasks d \<and> ds_workflows (snd (m d)) = ds_workflows d \<and> same_statuses (ds_core d) (ds_core (snd (m d)))"
  shows "governed_prog (callDispatch m)"
  unfolding effects_in_def
proof
  fix s
  have "snd (callDispatch m s) = s\<lparr>lc_dispatch := snd (m (lc_dispatch s))\<rparr>" by (auto simp: callDispatch_def split: prod.split sum.split)
  then show "follows_tables s (snd (callDispatch m s))"
    using assms [of "lc_dispatch s"] by (intro follows_tables_same) (auto simp: status_defs same_statuses_def fun_eq_iff)
qed

lemma callLease_frame:
  "ds_tasks (snd (callLease m d)) = ds_tasks d" "ds_workflows (snd (callLease m d)) = ds_workflows d" "ds_core (snd (callLease m d)) = snd (m (ds_core d))"
  by (auto simp: callLease_def split: prod.split sum.split)

lemma governed_lease:
  assumes "effects_in same_statuses m"
  shows "governed_prog (callDispatch (callLease m))"
  using assms by (intro governed_call) (simp add: callLease_frame effects_in_def)

lemma governed_workers [governed_intros]: "governed_prog (callWorkers m)"
  unfolding callWorkers_def by (intro governed_lease lease_statuses.call_effects)

lemma governed_check [governed_intros]: "governed_prog (write_check env t e w n l)"
  unfolding write_check_def by (intro governed_lease lease_statuses.operations)

lemma governed_records [governed_intros]:
  "governed_prog (recordRejectedEvent kind tsk e w l reason t)" "governed_prog (insertHeartbeatSnapshot h)" "governed_prog (persistRemoteLogs tsk e w ri logs t)"
  "governed_prog (upsertAgentExecutionRecord e ex t u)" "governed_prog (consumeExecutionTicket k t)"
proof -
  show "governed_prog (recordRejectedEvent kind tsk e w l reason t)" unfolding recordRejectedEvent_def by (intro governed_intros)
  show "governed_prog (insertHeartbeatSnapshot h)" "governed_prog (persistRemoteLogs tsk e w ri logs t)" "governed_prog (upsertAgentExecutionRecord e ex t u)"
    "governed_prog (consumeExecutionTicket k t)"
    unfolding insertHeartbeatSnapshot_def persistRemoteLogs_def upsertAgentExecutionRecord_def consumeExecutionTicket_def Let_def
    by (rule governed.effects_modify, rule follows_tables_same; simp add: status_defs fun_eq_iff)+
qed

section \<open>Write-backs and heartbeats\<close>

lemma governed_refusals [governed_intros]:
  "governed_prog (heartbeat_refused h ex t reason)" "governed_prog (writeback_refused wb tsk t reason)"
  unfolding heartbeat_refused_def writeback_refused_def by (intro governed_intros)+

lemma governed_heartbeat [governed_intros]: "governed_prog (recordWorkerHeartbeat env t i)"
  unfolding recordWorkerHeartbeat_def heartbeat_with_lease_def renew_for_heartbeat_def accept_heartbeat_def refreshWorkerSnapshot_def Let_def
  by (intro governed_intros governed_lease lease_statuses.operations)

lemma governed_book [governed_intros]: "governed_prog (book_writeback i ex l w t)"
proof -
  have "effects_in same_statuses (close_by_writer l i st ev reason t)" for st ev reason
    unfolding close_by_writer_def by (intro lease_statuses.effects_bind lease_statuses.effects_modify) (simp_all add: same_statuses_def)
  then show ?thesis unfolding book_writeback_def freeWorkerSnapshot_def writeback_event_def Let_def by (intro governed_intros governed_lease)
qed

lemma governed_try [governed_intros]: "governed_prog (try_writeback i ex task workflow session l w t)"
  unfolding effects_in_def
proof
  fix s
  have acc: "governed_prog (accept_writeback i ex task workflow session l w t)" unfolding accept_writeback_def by (intro governed_intros)
  obtain r s1 where run: "accept_writeback i ex task workflow session l w t s = (r, s1)" by force
  then have "follows_tables s s1" using acc unfolding effects_in_def by (metis snd_conv)
  moreover have "follows_tables s1 (snd (writeback_refused i tsk t reason s1))" for tsk reason
    using governed_refusals(2) unfolding effects_in_def by blast
  ultimately show "follows_tables s (snd (try_writeback i ex task workflow session l w t s))"
    using run governed.trans by (auto simp: try_writeback_def split: sum.split)
qed

lemma governed_writeback [governed_intros]: "governed_prog (recordWriteback env t i)"
proof -
  have "effects_in same_statuses (transaction (close_by_writer l i st ev reason t))" for l st ev reason
    unfolding close_by_writer_def
    by (intro lease_statuses.transaction_effects lease_statuses.effects_bind lease_statuses.effects_modify) (simp_all add: same_statuses_def)
  then show ?thesis
    unfolding recordWriteback_def writeback_with_view_def writeback_checked_def Let_def by (intro governed_intros governed_lease)
qed

section \<open>Claims\<close>

lemma follows_bind:
  "m s = (Inr x, u) \<Longrightarrow> follows_tables s u \<Longrightarrow> follows_tables u (snd (f x u)) \<Longrightarrow> follows_tables s (snd (bindP m f s))"
  by (simp add: bindP_eval governed.trans)

lemma follows_prog: "governed_prog m \<Longrightarrow> follows_tables s (snd (m s))"
  by (simp add: effects_in_def)

lemma follows_transaction: "follows_tables s (snd (m s)) \<Longrightarrow> follows_tables s (snd (lifecycle_transaction m s))"
  by (cases "m s"; cases "fst (m s)") (auto simp: lifecycle_transaction_def governed.refl)

text \<open>The execution that a claim starts is one that may run.\<close>

lemma start_follows:
  assumes "execution_of s x = Some ex" and "ex_status ex \<in> {''created'', ''prechecking'', ''blocked''}"
  shows "follows_tables s (snd (callDispatch (updateExecutionStatus x ''executing'' u a f err) s))"
proof -
  have "snd (callDispatch (updateExecutionStatus x ''executing'' u a f err) s)
      = put_execution x (ex\<lparr>ex_status := ''executing'', ex_updatedAt := u, ex_startedAt := coalesce_opt a (ex_startedAt ex),
          ex_finishedAt := coalesce_opt f (ex_finishedAt ex), ex_lastErrorCode := err\<rparr>) s"
    using assms(1) by (simp add: callDispatch_def updateExecutionStatus_def prog_simps put_execution_def Let_def)
  moreover have "transition_allowed EXECUTION_TRANSITIONS (ex_status ex) ''executing''"
    using assms(2) by (auto simp: transition_allowed_def successors_def EXECUTION_TRANSITIONS_def)
  ultimately show ?thesis using assms(1)
    by (auto simp: follows_tables_def follows_same allowed_cases execution_status_def intro!: follows_update [where i = x and b = "''executing''"])
qed

lemma accept_claim_follows:
  assumes ex: "execution_of s x = Some ex"
  shows "follows_tables s (snd (accept_claim i w k x ex t s))"
proof -
  let ?agent = "callDispatch (callLease (updateExecutionAgent x (cl_workerId i) t)) :: unit lifecycle_prog"
  obtain s1 where s1: "consumeExecutionTicket k t s = (Inr (), s1)" "execution_of s1 = execution_of s" by (simp add: consumeExecutionTicket_def prog_simps)
  obtain s2 where s2: "?agent s1 = (Inr (), s2)" "execution_of s2 x = Some (ex\<lparr>ex_agentId := cl_workerId i, ex_updatedAt := At t\<rparr>)"
    using s1(2) ex by (simp add: callDispatch_def callLease_def updateExecutionAgent_def prog_simps)
  let ?start = "if ex_status ex \<in> {''created'', ''prechecking'', ''blocked''}
    then callDispatch (updateExecutionStatus x ''executing'' (At t) (Some (At t)) None None) else returnP ()"
  obtain s3 where s3: "?start s2 = (Inr (), s3)" by (cases "ex_status ex \<in> {''created'', ''prechecking'', ''blocked''}")
    (simp_all add: callDispatch_def updateExecutionStatus_def prog_simps del: insert_iff)
  have "follows_tables s s1" using follows_prog [OF governed_records(5), of s k t] s1(1) by simp
  moreover have "follows_tables s1 s2"
    using follows_prog [OF governed_lease [OF lease_statuses.record_effects(4)], of s1 x "cl_workerId i" t] s2(1) by simp
  moreover have "follows_tables s2 s3"
    using start_follows [OF s2(2), of "At t" "Some (At t)" None None] s3 by (auto simp: prog_simps governed.refl split: if_splits)
  ultimately have follow: "follows_tables s s1" "follows_tables s1 s2" "follows_tables s2 s3" by blast+
  show ?thesis
    unfolding accept_claim_def Let_def refreshWorkerSnapshot_def
    by (rule follows_transaction, rule follows_bind [where x = "()" and u = s1], rule s1(1), rule follow(1),
        rule follows_bind [where x = "()" and u = s2], rule s2(1), rule follow(2), rule follows_bind [where x = "()" and u = s3], rule s3, rule follow(3),
        rule follows_prog, intro governed_intros)
qed

definition handshake_follows :: "handshake_state \<Rightarrow> handshake_state \<Rightarrow> bool" where
  "handshake_follows h h' \<longleftrightarrow> follows_tables (hk_store h) (hk_store h')"

interpretation governed_claims: effect_order handshake_follows
  by unfold_locales (auto simp: handshake_follows_def governed.refl intro: governed.trans)

lemma store_follows: "governed_prog m \<Longrightarrow> effects_in handshake_follows (callStore m)"
  by (auto simp: effects_in_def handshake_follows_def callStore_def split: prod.split) (metis snd_conv)

lemma refused_follows: "effects_in handshake_follows (claim_refused env k t i reason)"
  unfolding claim_refused_def recordClaimRejectedEvent_def Let_def
  by (intro governed_claims.effects_basic governed_claims.effects_bind governed_claims.effects_case governed_claims.effects_modify store_follows governed_records)
    (simp_all add: handshake_follows_def governed.refl)

lemma claim_follows: "effects_in handshake_follows (claimExecution env t i)"
proof -
  let ?accept = "\<lambda>k w ex. bindP (callStore (accept_claim i w (et_id k) (et_executionId k) ex t)) (\<lambda>_.
    returnP (claim_answer True None (Some (et_executionId k)) (et_id k) (cl_leaseId i)))"
  have accept: "handshake_follows h (snd (?accept k w ex h))" if "execution_of (hk_store h) (et_executionId k) = Some ex" for h k w ex
    using accept_claim_follows [OF that, of i w "et_id k" t]
    by (auto simp: handshake_follows_def callStore_def prog_simps split: prod.split sum.split)
  have start: "effects_in handshake_follows (bindP (getsP (\<lambda>h. execution_of (hk_store h) (et_executionId k))) (\<lambda>found. case found of
         None \<Rightarrow> returnP (claim_answer False (Some ''execution_not_found'') (Some (et_executionId k)) (et_id k) (cl_leaseId i))
       | Some execution \<Rightarrow>
           (case firstFinding (he_ceiling env) (claim_usage i w (et_executionId k) execution t) of
              Some _ \<Rightarrow> claim_refused env k t i (Some ''resource_limit_exceeded'')
            | None \<Rightarrow> ?accept k w execution)))" for k w
    using accept refused_follows [of env k t i "Some ''resource_limit_exceeded''"] governed_claims.refl
    by (auto simp: effects_in_def bindP_gets returnP_def split: option.split)
  show ?thesis
    unfolding claimExecution_def claim_with_lease_def
    by (intro governed_claims.effects_basic governed_claims.effects_bind governed_claims.effects_case refused_follows store_follows governed_check start)
qed

section \<open>All services together\<close>

text \<open>One call of one of the services, whether it returns or throws. The cache of the handshake service may hold anything.\<close>

inductive work_step :: "lifecycle_store \<Rightarrow> lifecycle_store \<Rightarrow> bool" where
  task: "work_step s (snd (transitionTaskStatus x c s))"
| workflow: "work_step s (snd (transitionWorkflowStatus n out c s))"
| session: "work_step s (snd (transitionSessionStatus c s))"
| execution: "work_step s (snd (transitionExecutionStatus c s))"
| approval: "work_step s (snd (transitionApprovalStatus resp c s))"
| terminal: "work_step s (snd (transitionTaskTerminalState ti s))"
| block: "work_step s (snd (transitionBlockedForApproval bi s))"
| ticket: "work_step s (snd (callDispatch (createTicket k t ci) s))"
| lease: "lease_step (ds_core (lc_dispatch s)) c \<Longrightarrow> work_step s (s\<lparr>lc_dispatch := (lc_dispatch s)\<lparr>ds_core := c\<rparr>\<rparr>)"
| claim: "work_step s (hk_store (snd (claimExecution env t cl \<lparr>hk_store = s, hk_recent = recent\<rparr>)))"
| heartbeat: "work_step s (snd (recordWorkerHeartbeat env t wh s))"
| writeback: "work_step s (snd (recordWriteback env t wb s))"

lemma create_frame:
  "ds_tasks (snd (createTicket k t i d)) = ds_tasks d \<and> ds_workflows (snd (createTicket k t i d)) = ds_workflows d
    \<and> same_statuses (ds_core d) (ds_core (snd (createTicket k t i d)))"
  by (auto simp: createTicket_def prog_simps dispatch_transaction_def insertExecutionTicket_def upsertDispatchAgent_def Let_def insertDispatchEvent_def
      same_statuses_def split: option.split prod.split sum.split)

lemma work_step_follows: "work_step s s' \<Longrightarrow> follows_tables s s'"
proof (induction rule: work_step.induct)
  case (lease s c)
  then show ?case using lease_step_statuses by (intro follows_tables_same) (auto simp: status_defs same_statuses_def fun_eq_iff)
next
  case (claim s env t cl recent)
  then show ?case using claim_follows [of env t cl] by (simp add: effects_in_def handshake_follows_def) (metis handshake_state.select_convs(1))
next
  case (ticket s k t ci)
  then show ?case using create_frame by (intro follows_prog governed_call) blast
qed (rule follows_prog, intro governed_intros)+

interpretation governed_tasks: governed_status "successors TASK_TRANSITIONS" "settled TASK_TRANSITIONS" "exit_rank TASK_TRANSITIONS" task_status work_step
  by (intro governed_status.intro governed_status_axioms.intro transition_tables) (auto dest: work_step_follows simp: follows_tables_def)

interpretation governed_workflows: governed_status "successors WORKFLOW_TRANSITIONS" "settled WORKFLOW_TRANSITIONS" "exit_rank WORKFLOW_TRANSITIONS" workflow_status work_step
  by (intro governed_status.intro governed_status_axioms.intro transition_tables) (auto dest: work_step_follows simp: follows_tables_def)

interpretation governed_sessions: governed_status "successors SESSION_TRANSITIONS" "settled SESSION_TRANSITIONS" "exit_rank SESSION_TRANSITIONS" session_status work_step
  by (intro governed_status.intro governed_status_axioms.intro transition_tables) (auto dest: work_step_follows simp: follows_tables_def)

interpretation governed_executions: governed_status "successors EXECUTION_TRANSITIONS" "settled EXECUTION_TRANSITIONS" "exit_rank EXECUTION_TRANSITIONS" execution_status work_step
  by (intro governed_status.intro governed_status_axioms.intro transition_tables) (auto dest: work_step_follows simp: follows_tables_def)

interpretation governed_approvals: governed_status "successors APPROVAL_TRANSITIONS" "settled APPROVAL_TRANSITIONS" "exit_rank APPROVAL_TRANSITIONS" approval_status work_step
  by (intro governed_status.intro governed_status_axioms.intro transition_tables) (auto dest: work_step_follows simp: follows_tables_def)

text \<open>
  C10. What has ended stays ended: along every run of the services, whatever they are called with and whether the calls return or throw, a task, workflow,
  session, execution or approval keeps its status once the status is terminal in its table.
\<close>

theorem ended_work_stays_ended:
  assumes "work_step\<^sup>*\<^sup>* s s'"
  shows "(task_status s i = Some a \<and> settled TASK_TRANSITIONS a \<longrightarrow> task_status s' i = Some a)
    \<and> (workflow_status s i = Some a \<and> settled WORKFLOW_TRANSITIONS a \<longrightarrow> workflow_status s' i = Some a)
    \<and> (session_status s i = Some a \<and> settled SESSION_TRANSITIONS a \<longrightarrow> session_status s' i = Some a)
    \<and> (execution_status s i = Some a \<and> settled EXECUTION_TRANSITIONS a \<longrightarrow> execution_status s' i = Some a)
    \<and> (approval_status s i = Some a \<and> settled APPROVAL_TRANSITIONS a \<longrightarrow> approval_status s' i = Some a)"
  using governed_tasks.terminal_stays [OF assms, of i a] governed_workflows.terminal_stays [OF assms, of i a] governed_sessions.terminal_stays [OF assms, of i a]
    governed_executions.terminal_stays [OF assms, of i a] governed_approvals.terminal_stays [OF assms, of i a] by auto

section \<open>A result is taken once\<close>

lemma refused_not_accepted: "fst (writeback_refused i tsk t reason s) = Inr d \<Longrightarrow> \<not> wd_accepted d"
  by (auto simp: writeback_refused_def recordRejectedEvent_def insertLifecycleEvent_def prog_simps split: if_splits option.splits)

lemma ended_not_written:
  assumes "execution_status s (wb_executionId i) \<noteq> Some ''executing''" and "fst (recordWriteback env t i s) = Inr d"
  shows "\<not> wd_accepted d"
proof (cases "execution_of s (wb_executionId i)")
  case None
  then show ?thesis using assms(2) by (auto simp: recordWriteback_def loadExecutionAuthoritativeView_def prog_simps)
next
  case (Some ex)
  then have "ex_status ex \<noteq> ''executing''" using assms(1) by (simp add: execution_status_def)
  then have "\<exists>reason. recordWriteback env t i s = writeback_refused i (ex_taskId ex) t reason s"
    using Some by (cases "task_of s (ex_taskId ex)"; cases "workflow_of s (ex_taskId ex)"; cases "selectLatestSessionByTask (ex_taskId ex) (lc_sessions s)")
      (auto simp: recordWriteback_def loadExecutionAuthoritativeView_def bindP_gets writeback_with_view_def Let_def)
  then show ?thesis using assms(2) refused_not_accepted by metis
qed

lemma terminal_settled: "settled EXECUTION_TRANSITIONS (toExecutionTerminalStatus st)"
  by (cases st) (simp_all add: toExecutionTerminalStatus_def terminal_text_def successors_def EXECUTION_TRANSITIONS_def)

text \<open>
  C9. A result is taken at most once: after an accepted write-back, through any later calls of the services, no write-back to the execution is ever
  accepted again, and the execution keeps the status that the first one reported.
\<close>

theorem writeback_once:
  assumes ok: "lifecycle_ok s" "wb_leaseId i \<noteq> []" and run: "recordWriteback env t i s = (Inr d, s1)" "wd_accepted d"
    and later: "work_step\<^sup>*\<^sup>* s1 s2" and same: "wb_executionId i' = wb_executionId i"
  shows "execution_status s2 (wb_executionId i) = Some (toExecutionTerminalStatus (wb_terminalStatus i))
    \<and> (\<forall>d'. fst (recordWriteback env' t' i' s2) = Inr d' \<longrightarrow> \<not> wd_accepted d')"
proof -
  have "writeback_taken s s1 i t" using writeback_result [OF ok, of env t] run by (auto simp: turns_down_def split: if_splits)
  then have "execution_status s1 (wb_executionId i) = Some (toExecutionTerminalStatus (wb_terminalStatus i))" by (auto simp: writeback_taken_def)
  then have ended: "execution_status s2 (wb_executionId i) = Some (toExecutionTerminalStatus (wb_terminalStatus i))"
    using governed_executions.terminal_stays [OF later] terminal_settled by blast
  moreover have "toExecutionTerminalStatus (wb_terminalStatus i) \<noteq> ''executing''"
    by (cases "wb_terminalStatus i") (simp_all add: toExecutionTerminalStatus_def terminal_text_def)
  ultimately show ?thesis using ended_not_written [of s2 i' env' t'] same by auto
qed

section \<open>Where ended work is not respected\<close>

text \<open>
  A claim does not look at the status of the execution: also for an execution that has ended in the meantime the claim of its ticket is accepted, the
  status stays, and the agent record says that the execution runs.
\<close>

theorem claim_accepts_ended_execution:
  assumes ok: "lifecycle_ok (hk_store h)" and k: "claimable env t i (hk_store h) k"
    and status: "execution_status (hk_store h) (et_executionId k) = Some a" "settled EXECUTION_TRANSITIONS a"
  shows "\<exists>d h' r. claimExecution env t i h = (Inr d, h') \<and> hd_accepted d \<and> execution_status (hk_store h') (et_executionId k) = Some a
    \<and> agent_of (hk_store h') (et_executionId k) = Some r \<and> ag_status r = ''executing''"
proof -
  obtain d h' m where run: "claimExecution env t i h = (Inr d, h')" "hd_accepted d" "claimable env t i (hk_store h) m"
      "claim_taken (hk_store h) (hk_store h') m (cl_workerId i) t"
    using claim_outcome [OF ok, of env t i] k by (simp only: if_P [OF exI [of "claimable env t i (hk_store h)", OF k]]) blast
  have "m = k" using run(3) k by (simp add: claimable_def)
  moreover have "a \<notin> {''created'', ''prechecking'', ''blocked''}" using status(2) by (auto simp: successors_def EXECUTION_TRANSITIONS_def)
  ultimately show ?thesis using run status(1) by (auto simp: claim_taken_def execution_status_def taken_up_def)
qed

text \<open>
  Giving up a ticket overrides the tables: when dispatch abandons a ticket that has waited too long, the execution becomes failed whatever its
  status was, so an execution that had been cancelled or had succeeded changes its terminal status.
\<close>

theorem poison_pill_overrides_ended_execution:
  assumes ex: "st_executions (ds_core s) (et_executionId k) = Some ex" and k: "getExecutionTicket (et_id k) (ds_tickets s) = Some k" "et_status k = ''pending''"
  shows "\<exists>tr s'. invalidatePoisonPillTicket env k t evs s = (Inr tr, s') \<and> map_option ex_status (st_executions (ds_core s') (et_executionId k)) = Some ''failed''
    \<and> successors EXECUTION_TRANSITIONS ''cancelled'' = [] \<and> successors EXECUTION_TRANSITIONS ''succeeded'' = []"
proof -
  let ?s = "s\<lparr>ds_tickets := invalidateExecutionTicket (et_id k) ''cancelled'' t (ds_tickets s)\<rparr>"
  obtain s1 where s1: "updateExecutionStatus (et_executionId k) ''failed'' (Text ''dispatch.poison_pill_abandoned'') (Some (At t)) None None ?s = (Inr (), s1)"
      "map_option ex_status (st_executions (ds_core s1) (et_executionId k)) = Some ''failed''"
    using ex by (simp add: updateExecutionStatus_def prog_simps Let_def)
  let ?rest = "bindP (recordDecisionEvent k t ((base_trace k)\<lparr>dt_reasonCode := Some ''dispatch.poison_pill_detected'', dt_evaluations := evs\<rparr>)) (\<lambda>trace.
    bindP (insertDispatchEvent (Poison_pill_detected (et_id k))) (\<lambda>_. bindP (enqueueDispatchDlq env k (Some ''dispatch.poison_pill_abandoned'')) (\<lambda>_. returnP trace)))"
  have "calm_prog ?rest" by (intro calm.achieves_bind calm.achieves_basic calm_records)
  then obtain tr s2 where "?rest s1 = (Inr tr, s2)" "same_core s1 s2" unfolding achieves_def by blast
  moreover have "invalidatePoisonPillTicket env k t evs s = ?rest s1"
    using k by (simp add: invalidatePoisonPillTicket_def prog_simps s1(1))
  ultimately show ?thesis using s1(2) by (auto simp: same_core_def successors_def EXECUTION_TRANSITIONS_def)
qed

section \<open>Concrete runs\<close>

theorem ended_work_stays_ended_witness:
  "execution_status (snd (recordWriteback demo_handshake 106 demo_writeback (hk_store cancelled_demo))) ''e1'' = Some ''cancelled''"
proof -
  have "work_step\<^sup>*\<^sup>* (hk_store cancelled_demo) (snd (recordWriteback demo_handshake 106 demo_writeback (hk_store cancelled_demo)))"
    by (rule r_into_rtranclp) (rule work_step.writeback)
  moreover have "execution_status (hk_store cancelled_demo) ''e1'' = Some ''cancelled''" by (simp add: execution_status_def cancelled_demo_def demo_execution_def)
  moreover have "settled EXECUTION_TRANSITIONS ''cancelled''" by (simp add: successors_def EXECUTION_TRANSITIONS_def)
  ultimately show ?thesis using ended_work_stays_ended [of _ _ "''e1''" "''cancelled''"] by blast
qed

theorem writeback_once_witness:
  "\<exists>d s1. recordWriteback demo_handshake 105 demo_writeback running_demo = (Inr d, s1) \<and> wd_accepted d
     \<and> (\<forall>d'. fst (recordWriteback demo_handshake 106 demo_writeback s1) = Inr d' \<longrightarrow> \<not> wd_accepted d')"
proof -
  have lease: "wb_leaseId demo_writeback \<noteq> []" by (simp add: demo_writeback_def)
  obtain d s1 where run: "recordWriteback demo_handshake 105 demo_writeback running_demo = (Inr d, s1)" "wd_accepted d"
    using writeback_result [OF demo_stores(1) lease, of demo_handshake 105] demo_due by auto
  from writeback_once [OF demo_stores(1) lease run rtranclp.rtrancl_refl HOL.refl, of demo_handshake 106] run show ?thesis by blast
qed

theorem claim_accepts_ended_execution_witness:
  "\<exists>d h'. claimExecution demo_handshake 105 demo_claim cancelled_demo = (Inr d, h') \<and> hd_accepted d \<and> execution_status (hk_store h') ''e1'' = Some ''cancelled''"
proof -
  have k: "et_executionId claim_ticket = ''e1''" by (simp add: claim_ticket_def claimed_ticket_def)
  have fine: "firstFinding (he_ceiling demo_handshake)
      (claim_usage demo_claim solo_worker ''e1'' ((demo_execution ''t1'' ''cancelled'')\<lparr>ex_createdAt := 100\<rparr>) 105) = None"
    by (simp add: firstFinding_None_iff claim_usage_def demo_claim_def silent_def demo_worker demo_handshake_def new_handshake_env_def newCeilingGuard_def
        configured_def resolveLimit_def same_option_def js_trunc_def elapsedMs_def demo_execution_def)
  have "claimable demo_handshake 105 demo_claim (hk_store cancelled_demo) claim_ticket"
    using demo_claimable fine demo_worker(1) by (simp add: claimable_def may_write_def cancelled_demo_def k demo_claim_def)
  moreover have "execution_status (hk_store cancelled_demo) (et_executionId claim_ticket) = Some ''cancelled''"
    by (simp add: k execution_status_def cancelled_demo_def demo_execution_def)
  moreover have "settled EXECUTION_TRANSITIONS ''cancelled''" by (simp add: successors_def EXECUTION_TRANSITIONS_def)
  ultimately show ?thesis using claim_accepts_ended_execution [OF demo_stores(2)] k by metis
qed

theorem poison_pill_overrides_ended_execution_witness:
  "\<exists>tr s'. invalidatePoisonPillTicket demo_env urgent_ticket 99 [] (dispatch_demo\<lparr>ds_core := (ds_core dispatch_demo)\<lparr>st_executions := [''e2'' \<mapsto> demo_execution ''t2'' ''cancelled'']\<rparr>\<rparr>)
     = (Inr tr, s') \<and> map_option ex_status (st_executions (ds_core s') ''e2'') = Some ''failed''"
proof -
  have k: "et_executionId urgent_ticket = ''e2''" "et_status urgent_ticket = ''pending''" by (simp_all add: urgent_ticket_def stored_ticket_def ex_ticket_def)
  let ?s = "dispatch_demo\<lparr>ds_core := (ds_core dispatch_demo)\<lparr>st_executions := [''e2'' \<mapsto> demo_execution ''t2'' ''cancelled'']\<rparr>\<rparr>"
  have "st_executions (ds_core ?s) (et_executionId urgent_ticket) = Some (demo_execution ''t2'' ''cancelled'')"
    "getExecutionTicket (et_id urgent_ticket) (ds_tickets ?s) = Some urgent_ticket"
    by (simp_all add: k dispatch_demo_def getExecutionTicket_def)
  from poison_pill_overrides_ended_execution [OF this k(2), of demo_env 99 "[]"] k(1) show ?thesis by auto
qed

end
