(* ===== verification/Work_Completion.thy ===== *)
theory Work_Completion
  imports Work_Lifecycle
begin

text \<open>
  The way of a piece of work through the services: a ticket is dispatched to a worker, the worker claims it and writes the result back. The theorem
  composes the results about the dispatcher, the handshake and the write-back; together they leave no gap in which a local worker that
  reports within the time of its lease could be refused.
\<close>

text \<open>A local worker, no leadership guard and no ceilings: what a service without configuration has (see \<open>Resource_Ceiling\<close>).\<close>

definition unhindered :: "handshake_env \<Rightarrow> lifecycle_store \<Rightarrow> ident \<Rightarrow> bool" where
  "unhindered env s workerId \<longleftrightarrow> he_guard env = None \<and> he_ceiling env = \<lparr>cg_maxToolCalls = None, cg_maxMemoryMb = None, cg_maxElapsedMs = None\<rparr>
     \<and> (\<exists>w. worker_of s workerId = Some w \<and> sn_placement w = WP_local)"

text \<open>Work whose task, workflow and newest session are under way.\<close>

definition under_way :: "lifecycle_store \<Rightarrow> ident \<Rightarrow> bool" where
  "under_way s task \<longleftrightarrow> task_status s task = Some ''in_progress'' \<and> workflow_status s task = Some ''running''
     \<and> (\<exists>e. selectLatestSessionByTask task (lc_sessions s) = Some e \<and> se_status e \<in> {''open'', ''streaming'', ''awaiting_user'', ''paused''})"

lemma no_finding: "he_ceiling env = \<lparr>cg_maxToolCalls = None, cg_maxMemoryMb = None, cg_maxElapsedMs = None\<rparr> \<Longrightarrow> firstFinding (he_ceiling env) u = None"
  by (simp add: firstFinding_None_iff over_def)

lemma may_end:
  assumes "tk_status task = ''in_progress''" and "wf_status workflow = ''running''" and "ex_status ex = ''executing''"
    and "se_status session \<in> {''open'', ''streaming'', ''awaiting_user'', ''paused''}"
  shows "terminal_allowed (writeback_terminal b ex task workflow session t) s"
  using assms by (cases "wb_terminalStatus b") (auto simp: terminal_allowed_def Let_def writeback_terminal_def transition_allowed_def successors_def TASK_TRANSITIONS_def
      SESSION_TRANSITIONS_def WORKFLOW_TRANSITIONS_def EXECUTION_TRANSITIONS_def terminal_text_def completed_or_def coalesce_def)

text \<open>The lease of a worker: the active lease of the execution, with identifier, holder, token and end.\<close>

definition holds :: "lifecycle_store \<Rightarrow> ident \<Rightarrow> ident \<Rightarrow> ident \<Rightarrow> int \<Rightarrow> timestamp \<Rightarrow> bool" where
  "holds s e workerId leaseId token until \<longleftrightarrow> (\<exists>l. getActiveExecutionLease e (leases_of s) = Some l \<and> el_id l = leaseId \<and> el_workerId l = workerId
     \<and> el_fencingToken l = token \<and> until \<le> el_expiresAt l)"

lemma holder_may_write: "holds s e w l n u \<Longrightarrow> he_guard env = None \<Longrightarrow> t < u \<Longrightarrow> may_write env s t e w n l"
  by (auto simp: holds_def may_write_def guard_allows_write_def)

lemma dispatched_claimable:
  fixes i :: claim_input
  assumes ok: "lifecycle_ok s" and k: "getExecutionTicket (cl_ticketId i) (tickets_of s) = Some (claimed_ticket k (cl_workerId i) (cl_leaseId i) t)"
    and hold: "holds s (et_executionId k) (cl_workerId i) (cl_leaseId i) (cl_fencingToken i) u" and env: "unhindered env s (cl_workerId i)" and time: "t1 < u"
  shows "claimable env t1 i s (claimed_ticket k (cl_workerId i) (cl_leaseId i) t)"
proof -
  have "claimed_ticket k (cl_workerId i) (cl_leaseId i) t \<in> set (tickets_of s)" using k getTicket_iff [OF lifecycle_okD(3) [OF ok]] by blast
  then obtain ex where "execution_of s (et_executionId k) = Some ex" using lifecycle_okD(7) [OF ok] by (fastforce simp: claimed_ticket_def)
  moreover obtain w where "worker_of s (cl_workerId i) = Some w" "sn_placement w = WP_local" using env by (auto simp: unhindered_def)
  ultimately show ?thesis
    using k env holder_may_write [OF hold, of env t1] time no_finding [of env]
    by (simp add: claimable_def unhindered_def worker_untrusted_def resolveRemoteAuthorityBlockReason_def claimed_ticket_def)
qed

lemma claimed_due:
  assumes taken: "claim_taken s s' k workerId t1" and ex: "execution_of s (et_executionId k) = Some ex"
    and status: "ex_status ex \<in> {''created'', ''prechecking'', ''blocked'', ''executing''}" and work: "under_way s (ex_taskId ex)"
    and hold: "holds s (et_executionId k) workerId (wb_leaseId b) (wb_fencingToken b) u" and env: "unhindered env s workerId" and time: "t2 < u"
    and b: "wb_executionId b = et_executionId k" "wb_workerId b = workerId"
  shows "writeback_due env t2 b s'"
proof -
  note st = taken [unfolded claim_taken_def]
  have ex': "execution_of s' (et_executionId k) = Some (taken_up workerId t1 ex)" "ex_status (taken_up workerId t1 ex) = ''executing''"
    using st ex status by (auto simp: taken_up_def)
  obtain task workflow session where rows: "task_of s (ex_taskId ex) = Some task" "tk_status task = ''in_progress''"
      "workflow_of s (ex_taskId ex) = Some workflow" "wf_status workflow = ''running''"
      "selectLatestSessionByTask (ex_taskId ex) (lc_sessions s) = Some session" "se_status session \<in> {''open'', ''streaming'', ''awaiting_user'', ''paused''}"
    using work by (auto simp: under_way_def task_status_def workflow_status_def)
  obtain x where x: "worker_of s' workerId = Some x" "sn_placement x = WP_local" using st env by (auto simp: unhindered_def)
  have same: "task_of s' = task_of s" "workflow_of s' = workflow_of s" "lc_sessions s' = lc_sessions s" using st by blast+
  have "holds s' (et_executionId k) workerId (wb_leaseId b) (wb_fencingToken b) u" using hold st by (simp add: holds_def)
  then have "may_write env s' t2 (et_executionId k) workerId (wb_fencingToken b) (wb_leaseId b)" using holder_may_write env time by (simp add: unhindered_def)
  moreover have "terminal_allowed (writeback_terminal b (taken_up workerId t1 ex) task workflow session t2) s'"
    using rows ex'(2) by (intro may_end) simp_all
  ultimately show ?thesis
    using b ex' rows x same env no_finding [of env]
    by (simp add: writeback_due_def unhindered_def worker_untrusted_def resolveRemoteAuthorityBlockReason_def)
qed

text \<open>The task, its workflow and the execution have ended as reported, no lease is left and the worker is free.\<close>

definition completed :: "lifecycle_store \<Rightarrow> writeback_input \<Rightarrow> ident \<Rightarrow> bool" where
  "completed s b task \<longleftrightarrow> task_status s task = Some (terminal_text (wb_terminalStatus b))
     \<and> workflow_status s task = Some (completed_or ''completed'' (wb_terminalStatus b))
     \<and> execution_status s (wb_executionId b) = Some (toExecutionTerminalStatus (wb_terminalStatus b))
     \<and> getActiveExecutionLease (wb_executionId b) (leases_of s) = None
     \<and> (\<forall>x. worker_of s (wb_workerId b) = Some x \<longrightarrow> wb_executionId b \<notin> set (sn_runningExecutions x))"

lemma completed_by:
  assumes "lifecycle_ok s" and "writeback_taken s s' b t" and "map_option ex_taskId (execution_of s (wb_executionId b)) = Some task"
  shows "completed s' b task"
  using assms active_after_close [OF lifecycle_okD(1) [OF assms(1)]] by (auto simp: writeback_taken_def completed_def)

lemma claimed_completes:
  assumes ok: "lifecycle_ok s'" and taken: "claim_taken s s' k workerId t1" and ex: "execution_of s (et_executionId k) = Some ex"
    and status: "ex_status ex \<in> {''created'', ''prechecking'', ''blocked'', ''executing''}" and work: "under_way s (ex_taskId ex)"
    and hold: "holds s (et_executionId k) workerId (wb_leaseId b) (wb_fencingToken b) u" and env: "unhindered env s workerId" and time: "t2 < u"
    and b: "wb_executionId b = et_executionId k" "wb_workerId b = workerId" "wb_leaseId b \<noteq> []"
  shows "\<exists>r s2. recordWriteback env t2 b s' = (Inr r, s2) \<and> wd_accepted r \<and> completed s2 b (ex_taskId ex)"
proof -
  have "writeback_due env t2 b s'" by (rule claimed_due [OF taken ex status work hold env time b(1,2)])
  then obtain r s2 where r: "recordWriteback env t2 b s' = (Inr r, s2)" "wd_accepted r" "writeback_taken s' s2 b t2"
    using writeback_result [OF ok b(3), of env t2] by auto
  have "map_option ex_taskId (execution_of s' (wb_executionId b)) = Some (ex_taskId ex)" using taken ex by (simp add: claim_taken_def b)
  then show ?thesis using r completed_by [OF ok r(3)] by blast
qed

text \<open>What dispatch leaves for the worker.\<close>

lemma dispatched_holds:
  assumes ok: "lifecycle_ok s" and lease: "leaseId \<notin> el_id ` set (leases_of s)"
    and fresh: "inj newTicketId" "\<And>i. newTicketId i \<notin> et_id ` set (tickets_of s)"
    and run: "dispatchNext denv opts leaseId newTicketId t (lc_dispatch s) = (Inr d, disp)" and outcome: "dd_outcome d = DO_dispatched"
  obtains k w where "dd_worker d = Some w" and "dd_ticket d = Some (claimed_ticket k (sn_workerId w) leaseId t)"
    and "lifecycle_ok (s\<lparr>lc_dispatch := disp\<rparr>)"
    and "getExecutionTicket (et_id k) (ds_tickets disp) = Some (claimed_ticket k (sn_workerId w) leaseId t)"
    and "holds (s\<lparr>lc_dispatch := disp\<rparr>) (et_executionId k) (sn_workerId w) leaseId (getLatestFencingToken (et_executionId k) (leases_of s) + 1) (t + MIN_LEASE_TTL_MS)"
proof -
  obtain k where disp: "dispatch_ok disp" and "dispatched (lc_dispatch s) disp t opts leaseId k d"
    using dispatchNext_result [OF _ lease fresh, of denv opts t] ok run outcome by (auto simp: lifecycle_ok_def)
  then obtain w where w: "dd_worker d = Some w" "dd_ticket d = Some (claimed_ticket k (sn_workerId w) leaseId t)"
    and booked: "booked (lc_dispatch s) disp t k (sn_workerId w) leaseId" by (auto simp: dispatched_def)
  have "lifecycle_ok (s\<lparr>lc_dispatch := disp\<rparr>)" using ok disp booked by (auto simp: lifecycle_ok_def booked_def sessions_ok_def)
  then show ?thesis using w booked by (intro that [of w k]) (auto simp: booked_def holds_def)
qed




section \<open>A concrete run\<close>

text \<open>The store of the dispatcher in which \<open>e2\<close> waits for its worker, with the workflow and the session of its task.\<close>

definition waiting_demo :: lifecycle_store where
  "waiting_demo = lifecycle_demo\<lparr>lc_dispatch := calm_demo, lc_sessions := [demo_session\<lparr>se_taskId := ''t2''\<rparr>]\<rparr>"

definition open_handshake :: handshake_env where
  "open_handshake = new_handshake_env None (newCeilingGuard (same_option None) (same_env None)) None"

lemma waiting_ok: "lifecycle_ok waiting_demo"
  using demo_ok(2) by (auto simp: lifecycle_ok_def sessions_ok_def linked_def waiting_demo_def lifecycle_demo_def calm_demo_def dispatch_demo_def ran_def
      demo_execution_def urgent_ticket_def split: if_splits)


end
