(* ===== verification/Admission_Control.thy ===== *)
theory Admission_Control
  imports Dispatch_Selection
begin

text \<open>
  The admission controller (\<^verbatim>\<open>src/src/platform/five-plane-execution/dispatcher/admission-controller.ts\<close>): whether a task may run now, has to wait or is
  turned away, given the load of the store and the admissions that have been granted but are not in the store yet.

  What the controller reads (the tables of tasks, executions and acknowledgements, the answers of the injected providers) is the record
  \<open>admission_world\<close>; the counts are those of the repository queries outside a tenant scope. The parser of JSON texts is a function of the configuration, \<open>None\<close>
  when it throws. The clock is read up to three times in a call, and the readings are an argument. The key of a reservation is the triple
  out of which the code builds a text; the parts can be read off the text, so equal texts are equal triples. Amounts of money are rationals. The part of a health
  report that no decision depends on is left out.
\<close>

section \<open>What the controller reads\<close>

datatype json = J_null | J_bool bool | J_number rat | J_string string | J_array "json list" | J_object "(string \<times> json) list"

record admission_task =
  at_status :: string
  at_riskClass :: "string option"
  at_inputJson :: "string option"
  at_tenantId :: "string option"

record admission_world =
  aw_tasks :: "admission_task list"
  aw_executionStatuses :: "string list"
  aw_acks :: "(string \<times> string) list"
  aw_sandboxes :: "(string \<rightharpoonup> int) option"
  aw_backpressure :: "backpressure_snapshot option"

definition countQueuedTasks :: "admission_world \<Rightarrow> int" where
  "countQueuedTasks w = int (length (filter (\<lambda>t. at_status t \<in> {''queued'', ''pending''}) (aw_tasks w)))"

definition countActiveExecutions :: "admission_world \<Rightarrow> int" where
  "countActiveExecutions w = int (length (filter (\<lambda>s. s \<in> {''executing'', ''prechecking''}) (aw_executionStatuses w)))"

definition countPendingTier1Acks :: "admission_world \<Rightarrow> int" where
  "countPendingTier1Acks w = int (length (filter (\<lambda>a. a = (''tier_1'', ''pending'')) (aw_acks w)))"

section \<open>Policy, requests and decisions\<close>

record admission_policy =
  pol_maxQueuedTasks :: int
  pol_maxActiveExecutions :: int
  pol_maxTier1AckBacklog :: int
  pol_urgentQueueHeadroom :: int
  pol_criticalQueueHeadroom :: "int option"
  pol_riskClassIsolationEnabled :: "bool option"
  pol_maxRiskClassTasks :: "(string \<rightharpoonup> int) option"
  pol_tenantQuotaEnabled :: "bool option"
  pol_tenantTaskQuota :: "int option"
  pol_sandboxMatchingEnabled :: "bool option"
  pol_sandboxAvailability :: "(string \<rightharpoonup> int) option"
  pol_capabilityClassGateEnabled :: "bool option"
  pol_capabilityClassCapacity :: "(string \<rightharpoonup> int) option"

record admission_snapshot =
  as_queuedTasks :: int
  as_activeExecutions :: int
  as_tier1AckBacklog :: int
  as_riskClassDistribution :: "string \<rightharpoonup> int"
  as_tenantUsage :: "string \<rightharpoonup> int"
  as_sandboxAvailability :: "string \<rightharpoonup> int"
  as_capabilityClassCapacity :: "string \<rightharpoonup> int"

record admission_request =
  rq_priority :: string
  rq_estimatedCostUsd :: "rat option"
  rq_budgetRemainingUsd :: "rat option"
  rq_tenantId :: "string option"
  rq_riskClass :: "string option"
  rq_requiredSandboxType :: "string option"
  rq_sandboxType :: "string option"
  rq_tenantQuotaRef :: "string option"
  rq_capabilityClass :: "string option"
  rq_requiredCapabilities :: "string list option"
  rq_taskRiskClass :: "string option"

datatype admission_outcome = Allow | Queue | Reject

record admission_decision =
  ad_decision :: admission_outcome
  ad_reasonCode :: string
  ad_snapshot :: admission_snapshot
  ad_backpressure :: "backpressure_snapshot option"

definition DEFAULT_POLICY :: admission_policy where
  "DEFAULT_POLICY = \<lparr>pol_maxQueuedTasks = 5, pol_maxActiveExecutions = 10, pol_maxTier1AckBacklog = 25, pol_urgentQueueHeadroom = 2,
     pol_criticalQueueHeadroom = Some 2, pol_riskClassIsolationEnabled = Some True, pol_maxRiskClassTasks = Some [''critical'' \<mapsto> 2, ''high'' \<mapsto> 5],
     pol_tenantQuotaEnabled = Some True, pol_tenantTaskQuota = Some 50, pol_sandboxMatchingEnabled = Some True,
     pol_sandboxAvailability = Some [''standard'' \<mapsto> 10, ''hardened'' \<mapsto> 5, ''strict'' \<mapsto> 2],
     pol_capabilityClassGateEnabled = Some True,
     pol_capabilityClassCapacity = Some [''default'' \<mapsto> 20, ''sandboxed'' \<mapsto> 10, ''privileged'' \<mapsto> 5]\<rparr>"

definition isPriorityElevated :: "string \<Rightarrow> bool" where
  "isPriorityElevated priority \<longleftrightarrow> priority = ''high'' \<or> priority = ''urgent'' \<or> priority = ''critical''"

definition buildDistribution :: "string list \<Rightarrow> (string \<rightharpoonup> int)" where
  "buildDistribution values = fold (\<lambda>v d. d(v \<mapsto> coalesce (d v) 0 + 1)) values Map.empty"

definition DEFAULT_SNAPSHOT_TTL_MS :: int where "DEFAULT_SNAPSHOT_TTL_MS = 100"
definition RISK_CLASS_PARSE_CACHE_LIMIT :: nat where "RISK_CLASS_PARSE_CACHE_LIMIT = 2048"

section \<open>Risk classes of stored tasks\<close>

type_synonym risk_cache = "(string \<times> string option) list"

definition json_field :: "string \<Rightarrow> json \<Rightarrow> json option" where
  "json_field k j = (case j of J_object fs \<Rightarrow> map_of fs k | _ \<Rightarrow> None)"

text \<open>\<^verbatim>\<open>parsed.riskClass ?? parsed.riskPreview?.riskClass\<close>; reading a field of null throws, which the code turns into null.\<close>

definition risk_of_json :: "json \<Rightarrow> string option" where
  "risk_of_json j =
     (if j = J_null then None
      else
        let nested = (if json_field ''riskClass'' j \<in> {None, Some J_null}
              then (case json_field ''riskPreview'' j of None \<Rightarrow> None | Some p \<Rightarrow> json_field ''riskClass'' p)
              else json_field ''riskClass'' j) in
        case nested of Some (J_string s) \<Rightarrow> if s \<noteq> [] then Some s else None | _ \<Rightarrow> None)"

definition parseTaskRiskClassFromInputJson :: "(string \<Rightarrow> json option) \<Rightarrow> string \<Rightarrow> risk_cache \<Rightarrow> string option \<times> risk_cache" where
  "parseTaskRiskClassFromInputJson parse inputJson cache =
     (case map_of cache inputJson of
        Some cached \<Rightarrow> (cached, cache)
      | None \<Rightarrow>
          let parsedRiskClass = Option.bind (parse inputJson) risk_of_json;
              room = (if RISK_CLASS_PARSE_CACHE_LIMIT \<le> length cache then [] else cache)
          in (parsedRiskClass, jsmap_set inputJson parsedRiskClass room))"

definition readTaskRiskClass :: "(string \<Rightarrow> json option) \<Rightarrow> admission_task \<Rightarrow> risk_cache \<Rightarrow> string option \<times> risk_cache" where
  "readTaskRiskClass parse t cache =
     (if at_riskClass t \<notin> {None, Some []} then (at_riskClass t, cache)
      else case at_inputJson t of
             None \<Rightarrow> (None, cache)
           | Some inputJson \<Rightarrow> if inputJson = [] then (None, cache) else parseTaskRiskClassFromInputJson parse inputJson cache)"

text \<open>\<^verbatim>\<open>map\<close> with a callback that has a state.\<close>

fun map_state :: "('k \<Rightarrow> 'm \<Rightarrow> 'v \<times> 'm) \<Rightarrow> 'k list \<Rightarrow> 'm \<Rightarrow> 'v list \<times> 'm" where
  "map_state f [] m = ([], m)"
| "map_state f (k # ks) m = (let (v, m1) = f k m; (vs, m2) = map_state f ks m1 in (v # vs, m2))"

definition readRiskClasses :: "(string \<Rightarrow> json option) \<Rightarrow> admission_task list \<Rightarrow> risk_cache \<Rightarrow> string option list \<times> risk_cache" where
  "readRiskClasses parse = map_state (readTaskRiskClass parse)"

section \<open>State of the controller\<close>

record admission_reservation =
  rv_queuedSlots :: int
  rv_activeSlots :: int
  rv_riskClass :: "string option"
  rv_tenantId :: "string option"
  rv_sandboxType :: "string option"
  rv_capabilityClass :: "string option"
  rv_expiresAtMs :: timestamp

record admission_store_snapshot =
  ss_computedAtMs :: timestamp
  ss_queuedTasks :: int
  ss_activeExecutions :: int
  ss_tier1AckBacklog :: int
  ss_snapshot :: admission_snapshot

type_synonym reservation_key = "timestamp \<times> nat \<times> string"

record admission_config =
  cf_policy :: admission_policy
  cf_snapshotTtlMs :: int
  cf_reservationTtlMs :: int
  cf_parse :: "string \<Rightarrow> json option"

record admission_state =
  am_cachedSnapshot :: "admission_store_snapshot option"
  am_reservations :: "(reservation_key \<times> admission_reservation) list"
  am_riskCache :: risk_cache

record admission_clock =
  ck_snapshot :: timestamp
  ck_reserve :: timestamp
  ck_after :: timestamp

text \<open>The constructor; an option is \<open>None\<close> when it is absent.\<close>

definition new_AdmissionController :: "admission_policy \<Rightarrow> int option \<Rightarrow> int option \<Rightarrow> (string \<Rightarrow> json option) \<Rightarrow> admission_config \<times> admission_state" where
  "new_AdmissionController policy snapshotTtlMs reservationTtlMs parse =
     (\<lparr>cf_policy = policy, cf_snapshotTtlMs = max 0 (coalesce snapshotTtlMs DEFAULT_SNAPSHOT_TTL_MS),
       cf_reservationTtlMs = max 50 (coalesce reservationTtlMs 5000), cf_parse = parse\<rparr>,
      \<lparr>am_cachedSnapshot = None, am_reservations = [], am_riskCache = []\<rparr>)"

section \<open>Snapshots\<close>

definition cloneCapacityMap :: "(string \<rightharpoonup> int) option \<Rightarrow> (string \<rightharpoonup> int) option \<Rightarrow> (string \<rightharpoonup> int)" where
  "cloneCapacityMap values fallback = coalesce fallback Map.empty ++ coalesce values Map.empty"

definition decrementCapacity :: "(string \<rightharpoonup> int) \<Rightarrow> string option \<Rightarrow> int \<Rightarrow> (string \<rightharpoonup> int)" where
  "decrementCapacity target key amount =
     (case key of
        None \<Rightarrow> target
      | Some k \<Rightarrow> if k = [] \<or> amount \<le> 0 then target else target(k \<mapsto> max 0 (coalesce (target k) 0 - amount)))"

definition incrementUsage :: "(string \<rightharpoonup> int) \<Rightarrow> string option \<Rightarrow> int \<Rightarrow> (string \<rightharpoonup> int)" where
  "incrementUsage target key amount = (case key of None \<Rightarrow> target | Some k \<Rightarrow> target(k \<mapsto> coalesce (target k) 0 + amount))"

definition resolveSandboxAvailability :: "admission_config \<Rightarrow> admission_world \<Rightarrow> (string \<rightharpoonup> int)" where
  "resolveSandboxAvailability cf w =
     (case aw_sandboxes w of
        Some provided \<Rightarrow> cloneCapacityMap (Some provided)
          (coalesce_opt (pol_sandboxAvailability (cf_policy cf)) (pol_sandboxAvailability DEFAULT_POLICY))
      | None \<Rightarrow> cloneCapacityMap (pol_sandboxAvailability (cf_policy cf)) (pol_sandboxAvailability DEFAULT_POLICY))"

definition pruneReservations :: "timestamp \<Rightarrow> admission_state \<Rightarrow> admission_state" where
  "pruneReservations now s =
     (let live = filter (\<lambda>p. \<not> rv_expiresAtMs (snd p) \<le> now) (am_reservations s) in
      if length live < length (am_reservations s) then s\<lparr>am_reservations := live, am_cachedSnapshot := None\<rparr> else s)"

definition apply_reservation :: "admission_reservation \<Rightarrow> admission_snapshot \<Rightarrow> admission_snapshot" where
  "apply_reservation r v =
     (let slots = rv_queuedSlots r + rv_activeSlots r in
      v\<lparr>as_queuedTasks := as_queuedTasks v + rv_queuedSlots r, as_activeExecutions := as_activeExecutions v + rv_activeSlots r,
        as_riskClassDistribution := incrementUsage (as_riskClassDistribution v) (rv_riskClass r) slots,
        as_tenantUsage := incrementUsage (as_tenantUsage v) (rv_tenantId r) slots,
        as_sandboxAvailability := decrementCapacity (as_sandboxAvailability v) (rv_sandboxType r) slots,
        as_capabilityClassCapacity := decrementCapacity (as_capabilityClassCapacity v) (rv_capabilityClass r) slots\<rparr>)"

definition applyReservationView :: "admission_reservation list \<Rightarrow> admission_snapshot \<Rightarrow> admission_snapshot" where
  "applyReservationView rs v = fold apply_reservation rs v"

definition buildSnapshotWithReservations :: "admission_state \<Rightarrow> admission_snapshot \<Rightarrow> admission_snapshot" where
  "buildSnapshotWithReservations s v = applyReservationView (map snd (am_reservations s)) v"

definition isCachedSnapshotValid :: "admission_config \<Rightarrow> admission_world \<Rightarrow> timestamp \<Rightarrow> admission_state \<Rightarrow> bool" where
  "isCachedSnapshotValid cf w now s =
     (case am_cachedSnapshot s of
        None \<Rightarrow> False
      | Some c \<Rightarrow> 0 < cf_snapshotTtlMs cf \<and> now - ss_computedAtMs c \<le> cf_snapshotTtlMs cf \<and> ss_queuedTasks c = countQueuedTasks w
          \<and> ss_activeExecutions c = countActiveExecutions w \<and> ss_tier1AckBacklog c = countPendingTier1Acks w)"

definition load_of :: "admission_config \<Rightarrow> admission_world \<Rightarrow> string option list \<Rightarrow> admission_snapshot" where
  "load_of cf w riskClasses =
     \<lparr>as_queuedTasks = countQueuedTasks w, as_activeExecutions = countActiveExecutions w, as_tier1AckBacklog = countPendingTier1Acks w,
      as_riskClassDistribution = buildDistribution (List.map_filter id riskClasses),
      as_tenantUsage = buildDistribution (List.map_filter at_tenantId (aw_tasks w)),
      as_sandboxAvailability = resolveSandboxAvailability cf w,
      as_capabilityClassCapacity = cloneCapacityMap (pol_capabilityClassCapacity (cf_policy cf)) (pol_capabilityClassCapacity DEFAULT_POLICY)\<rparr>"

definition admission_snapshot_of :: "admission_config \<Rightarrow> admission_world \<Rightarrow> timestamp \<Rightarrow> admission_state \<Rightarrow> admission_snapshot \<times> admission_state" where
  "admission_snapshot_of cf w now s0 =
     (let s = pruneReservations now s0 in
      if isCachedSnapshotValid cf w now s then (buildSnapshotWithReservations s (ss_snapshot (the (am_cachedSnapshot s))), s)
      else
        let (riskClasses, cache) = readRiskClasses (cf_parse cf) (aw_tasks w) (am_riskCache s); v = load_of cf w riskClasses;
            s' = s\<lparr>am_riskCache := cache, am_cachedSnapshot := Some \<lparr>ss_computedAtMs = now, ss_queuedTasks = countQueuedTasks w,
              ss_activeExecutions = countActiveExecutions w, ss_tier1AckBacklog = countPendingTier1Acks w, ss_snapshot = v\<rparr>\<rparr>
        in (buildSnapshotWithReservations s' v, s'))"

section \<open>Decisions\<close>

definition resolveCapabilityClass :: "admission_request \<Rightarrow> (string \<rightharpoonup> int) \<Rightarrow> string option" where
  "resolveCapabilityClass r capacity =
     (if rq_capabilityClass r \<notin> {None, Some []} then rq_capabilityClass r
      else case coalesce (rq_requiredCapabilities r) [] of
             [c] \<Rightarrow> if capacity c \<noteq> None then Some c else None
           | _ \<Rightarrow> None)"

definition reserveAdmission :: "admission_config \<Rightarrow> timestamp \<Rightarrow> admission_reservation \<Rightarrow> admission_state \<Rightarrow> admission_state" where
  "reserveAdmission cf now r s0 =
     (let s = pruneReservations now s0; key = (now, length (am_reservations s) + 1, coalesce (rv_riskClass r) ''none'') in
      s\<lparr>am_reservations := jsmap_set key (r\<lparr>rv_expiresAtMs := now + cf_reservationTtlMs cf\<rparr>) (am_reservations s), am_cachedSnapshot := None\<rparr>)"

definition effective_risk :: "admission_request \<Rightarrow> string option" where
  "effective_risk r = coalesce_opt (rq_riskClass r) (rq_taskRiskClass r)"

definition effective_tenant :: "admission_request \<Rightarrow> string option" where
  "effective_tenant r = coalesce_opt (rq_tenantId r) (rq_tenantQuotaRef r)"

definition requested_sandbox :: "admission_request \<Rightarrow> string option" where
  "requested_sandbox r = coalesce_opt (rq_sandboxType r) (rq_requiredSandboxType r)"

definition risk_limit :: "admission_policy \<Rightarrow> string \<Rightarrow> int option" where
  "risk_limit p = [''critical'' \<mapsto> 2, ''high'' \<mapsto> 5, ''medium'' \<mapsto> 10] ++ coalesce (pol_maxRiskClassTasks p) Map.empty"

definition headroom :: "admission_policy \<Rightarrow> int" where
  "headroom p = coalesce (pol_criticalQueueHeadroom p) (pol_urgentQueueHeadroom p)"

definition elevated_risk :: "string \<Rightarrow> bool" where
  "elevated_risk risk \<longleftrightarrow> risk = ''high'' \<or> risk = ''critical''"

text \<open>The checks in their order up to the capacity of the system; the answer is the first that fails.\<close>

definition gate :: "admission_policy \<Rightarrow> backpressure_snapshot option \<Rightarrow> admission_request \<Rightarrow> string \<Rightarrow> admission_snapshot \<Rightarrow> (admission_outcome \<times> string) option" where
  "gate p backpressure r risk v =
     (let mode = map_option bp_degradationMode backpressure; calm = (\<not> isPriorityElevated (rq_priority r) \<and> \<not> elevated_risk risk);
          needed = resolveCapabilityClass r (as_capabilityClassCapacity v) in
      if pol_riskClassIsolationEnabled p \<noteq> Some False
         \<and> (case risk_limit p risk of None \<Rightarrow> False | Some limit \<Rightarrow> limit \<le> coalesce (as_riskClassDistribution v risk) 0)
      then Some (Reject, ''admission.reject_risk_class_isolation'')
      else if pol_tenantQuotaEnabled p \<noteq> Some False
         \<and> (case effective_tenant r of None \<Rightarrow> False | Some t \<Rightarrow> coalesce (pol_tenantTaskQuota p) 50 \<le> coalesce (as_tenantUsage v t) 0)
      then Some (Reject, ''admission.reject_tenant_quota'')
      else if pol_sandboxMatchingEnabled p \<noteq> Some False
         \<and> (case requested_sandbox r of None \<Rightarrow> False | Some b \<Rightarrow> coalesce (as_sandboxAvailability v b) 0 \<le> 0)
      then Some (Reject, ''admission.reject_sandbox_matching'')
      else if pol_capabilityClassGateEnabled p \<noteq> Some False
         \<and> (case needed of None \<Rightarrow> False | Some c \<Rightarrow> coalesce (as_capabilityClassCapacity v c) 0 \<le> 0)
      then Some (Reject, ''admission.reject_capability_class'')
      else if (case (rq_estimatedCostUsd r, rq_budgetRemainingUsd r) of (Some cost, Some budget) \<Rightarrow> budget < cost | _ \<Rightarrow> False)
      then Some (Reject, ''admission.reject_budget_exceeded'')
      else if mode = Some ''read_only_operations_only'' then Some (Reject, ''admission.reject_read_only_mode'')
      else if mode = Some ''pause_non_critical'' \<and> calm then Some (Reject, ''admission.reject_non_critical_paused'')
      else if map_option bp_starvationDetected backpressure = Some True \<and> rq_priority r = ''low''
      then Some (Reject, ''admission.reject_starvation_protection'')
      else if mode = Some ''queue_only'' \<and> calm then Some (Queue, ''admission.queue_backpressure'')
      else if pol_maxTier1AckBacklog p \<le> as_tier1AckBacklog v then Some (Reject, ''admission.reject_tier1_backlog'')
      else None)"

text \<open>What the capacity admits: the slots to reserve with the answer, or \<open>None\<close> when the queue is saturated.\<close>

definition capacity_answer :: "admission_policy \<Rightarrow> admission_request \<Rightarrow> string \<Rightarrow> admission_snapshot \<Rightarrow> (admission_outcome \<times> string) option" where
  "capacity_answer p r risk v =
     (if pol_maxActiveExecutions p \<le> as_activeExecutions v then
        if elevated_risk risk \<and> as_activeExecutions v < pol_maxActiveExecutions p + headroom p then Some (Allow, ''admission.ok'')
        else Some (Queue, ''admission.queue_overloaded'')
      else if pol_maxQueuedTasks p \<le> as_queuedTasks v then
        if (isPriorityElevated (rq_priority r) \<or> elevated_risk risk) \<and> as_queuedTasks v < pol_maxQueuedTasks p + headroom p
        then Some (Queue, ''admission.queue_overloaded'')
        else None
      else Some (Allow, ''admission.ok''))"

definition reservation_for :: "admission_request \<Rightarrow> string \<Rightarrow> admission_outcome \<Rightarrow> admission_snapshot \<Rightarrow> admission_reservation" where
  "reservation_for r risk outcome v =
     \<lparr>rv_queuedSlots = (if outcome = Allow then 0 else 1), rv_activeSlots = (if outcome = Allow then 1 else 0), rv_riskClass = Some risk,
      rv_tenantId = effective_tenant r, rv_sandboxType = requested_sandbox r,
      rv_capabilityClass = resolveCapabilityClass r (as_capabilityClassCapacity v), rv_expiresAtMs = 0\<rparr>"

definition evaluateAdmission :: "admission_config \<Rightarrow> admission_world \<Rightarrow> admission_clock \<Rightarrow> admission_request \<Rightarrow> admission_state \<Rightarrow> admission_decision \<times> admission_state" where
  "evaluateAdmission cf w ck r s0 =
     (let (v, s) = admission_snapshot_of cf w (ck_snapshot ck) s0; backpressure = aw_backpressure w;
          answer = (\<lambda>outcome reason snapshot. \<lparr>ad_decision = outcome, ad_reasonCode = reason, ad_snapshot = snapshot, ad_backpressure = backpressure\<rparr>) in
      case effective_risk r of
        None \<Rightarrow> (answer Reject ''admission.reject_missing_risk_class'' v, s)
      | Some risk \<Rightarrow>
          (case gate (cf_policy cf) backpressure r risk v of
             Some (outcome, reason) \<Rightarrow> (answer outcome reason v, s)
           | None \<Rightarrow>
               (case capacity_answer (cf_policy cf) r risk v of
                  None \<Rightarrow> (answer Reject ''admission.reject_queue_saturated'' v, s)
                | Some (outcome, reason) \<Rightarrow>
                    let s1 = reserveAdmission cf (ck_reserve ck) (reservation_for r risk outcome v) s;
                        (v', s') = admission_snapshot_of cf w (ck_after ck) s1
                    in (answer outcome reason v', s'))))"

section \<open>The caches\<close>

text \<open>A function with a cache: while the cache is valid, it returns what the function without the cache computes, and keeps the cache valid.\<close>

locale memoized =
  fixes compute :: "'k \<Rightarrow> 'v" and run :: "'k \<Rightarrow> 'm \<Rightarrow> 'v \<times> 'm" and valid :: "'m \<Rightarrow> bool"
  assumes exact: "valid m \<Longrightarrow> fst (run k m) = compute k" and keeps: "valid m \<Longrightarrow> valid (snd (run k m))"
begin

lemma map_exact: "valid m \<Longrightarrow> fst (map_state run ks m) = map compute ks \<and> valid (snd (map_state run ks m))"
proof (induction ks arbitrary: m)
  case (Cons k ks)
  then show ?case using exact [of m k] keeps [of m k] by (simp add: case_prod_unfold Let_def)
qed simp

end

definition parsed_risk :: "(string \<Rightarrow> json option) \<Rightarrow> string \<Rightarrow> string option" where
  "parsed_risk parse inputJson = Option.bind (parse inputJson) risk_of_json"

definition task_risk :: "(string \<Rightarrow> json option) \<Rightarrow> admission_task \<Rightarrow> string option" where
  "task_risk parse t =
     (if at_riskClass t \<notin> {None, Some []} then at_riskClass t
      else case at_inputJson t of None \<Rightarrow> None | Some inputJson \<Rightarrow> if inputJson = [] then None else parsed_risk parse inputJson)"

definition risk_cache_ok :: "(string \<Rightarrow> json option) \<Rightarrow> risk_cache \<Rightarrow> bool" where
  "risk_cache_ok parse cache \<longleftrightarrow> (\<forall>k v. map_of cache k = Some v \<longrightarrow> v = parsed_risk parse k)"

interpretation risk_texts: memoized "parsed_risk parse" "parseTaskRiskClassFromInputJson parse" "risk_cache_ok parse" for parse
  by unfold_locales (auto simp: parseTaskRiskClassFromInputJson_def risk_cache_ok_def parsed_risk_def Let_def split: option.split if_splits)

interpretation risk_tasks: memoized "task_risk parse" "readTaskRiskClass parse" "risk_cache_ok parse" for parse
  by unfold_locales (simp_all add: readTaskRiskClass_def task_risk_def risk_texts.exact risk_texts.keeps split: option.split)

definition store_load :: "admission_config \<Rightarrow> admission_world \<Rightarrow> admission_snapshot" where
  "store_load cf w = load_of cf w (map (task_risk (cf_parse cf)) (aw_tasks w))"

definition live :: "timestamp \<Rightarrow> (reservation_key \<times> admission_reservation) list \<Rightarrow> (reservation_key \<times> admission_reservation) list" where
  "live now rs = filter (\<lambda>p. now < rv_expiresAtMs (snd p)) rs"

text \<open>What a valid cache knows: its texts are parsed as by the parser, and its snapshot is the load of the store.\<close>

definition caches_ok :: "admission_config \<Rightarrow> admission_world \<Rightarrow> admission_state \<Rightarrow> bool" where
  "caches_ok cf w s \<longleftrightarrow> risk_cache_ok (cf_parse cf) (am_riskCache s) \<and> (\<forall>c. am_cachedSnapshot s = Some c \<longrightarrow> ss_snapshot c = store_load cf w)"

lemma filter_full: "\<not> length (filter P xs) < length xs \<Longrightarrow> filter P xs = xs"
  using length_filter_less [of _ xs P] by (intro filter_True) blast

lemma prune_fields [simp]:
  "am_reservations (pruneReservations now s) = live now (am_reservations s)" "am_riskCache (pruneReservations now s) = am_riskCache s"
  using filter_full [of "\<lambda>p. now < rv_expiresAtMs (snd p)" "am_reservations s"] by (auto simp: pruneReservations_def Let_def live_def not_le)

lemma prune_cache: "am_cachedSnapshot (pruneReservations now s) = Some c \<Longrightarrow> am_cachedSnapshot s = Some c"
  by (auto simp: pruneReservations_def Let_def split: if_splits)

lemma caches_ok_prune: "caches_ok cf w s \<Longrightarrow> caches_ok cf w (pruneReservations now s)"
  by (auto simp: caches_ok_def dest: prune_cache)

lemma snapshot_exact:
  assumes "caches_ok cf w s"
  obtains s' where "admission_snapshot_of cf w now s = (applyReservationView (map snd (live now (am_reservations s))) (store_load cf w), s')"
    and "am_reservations s' = live now (am_reservations s)" and "caches_ok cf w s'"
proof (cases "isCachedSnapshotValid cf w now (pruneReservations now s)")
  case True
  then obtain c where c: "am_cachedSnapshot (pruneReservations now s) = Some c" by (auto simp: isCachedSnapshotValid_def split: option.splits)
  then show ?thesis
    using True assms caches_ok_prune [OF assms, of now] prune_cache [OF c]
    by (intro that [of "pruneReservations now s"]) (simp_all add: admission_snapshot_of_def buildSnapshotWithReservations_def caches_ok_def Let_def)
next
  case False
  obtain vs cache where read: "readRiskClasses (cf_parse cf) (aw_tasks w) (am_riskCache s) = (vs, cache)" by fastforce
  then have "vs = map (task_risk (cf_parse cf)) (aw_tasks w)" "risk_cache_ok (cf_parse cf) cache"
    using risk_tasks.map_exact [of "cf_parse cf" "am_riskCache s" "aw_tasks w"] assms by (simp_all add: readRiskClasses_def caches_ok_def)
  moreover define s' where "s' = (pruneReservations now s)\<lparr>am_riskCache := cache, am_cachedSnapshot := Some \<lparr>ss_computedAtMs = now, ss_queuedTasks = countQueuedTasks w,
      ss_activeExecutions = countActiveExecutions w, ss_tier1AckBacklog = countPendingTier1Acks w, ss_snapshot = load_of cf w vs\<rparr>\<rparr>"
  ultimately show ?thesis using False read
    by (intro that [of s']) (simp_all add: admission_snapshot_of_def buildSnapshotWithReservations_def Let_def store_load_def caches_ok_def s'_def)
qed

section \<open>The controller without caches\<close>

definition view :: "admission_config \<Rightarrow> admission_world \<Rightarrow> (reservation_key \<times> admission_reservation) list \<Rightarrow> admission_snapshot" where
  "view cf w rs = applyReservationView (map snd rs) (store_load cf w)"

definition reserve_in :: "admission_config \<Rightarrow> timestamp \<Rightarrow> admission_reservation \<Rightarrow> (reservation_key \<times> admission_reservation) list
    \<Rightarrow> (reservation_key \<times> admission_reservation) list" where
  "reserve_in cf now r rs = jsmap_set (now, length (live now rs) + 1, coalesce (rv_riskClass r) ''none'') (r\<lparr>rv_expiresAtMs := now + cf_reservationTtlMs cf\<rparr>) (live now rs)"

definition decide :: "admission_config \<Rightarrow> admission_world \<Rightarrow> admission_request \<Rightarrow> admission_snapshot \<Rightarrow> admission_outcome \<times> string \<times> bool" where
  "decide cf w r v =
     (case effective_risk r of
        None \<Rightarrow> (Reject, ''admission.reject_missing_risk_class'', False)
      | Some risk \<Rightarrow>
          (case gate (cf_policy cf) (aw_backpressure w) r risk v of
             Some (outcome, reason) \<Rightarrow> (outcome, reason, False)
           | None \<Rightarrow>
               (case capacity_answer (cf_policy cf) r risk v of
                  None \<Rightarrow> (Reject, ''admission.reject_queue_saturated'', False)
                | Some (outcome, reason) \<Rightarrow> (outcome, reason, True))))"

text \<open>The decision on the load of the store and the live reservations, and the reservations afterwards.\<close>

definition reference_evaluate :: "admission_config \<Rightarrow> admission_world \<Rightarrow> admission_clock \<Rightarrow> admission_request \<Rightarrow> (reservation_key \<times> admission_reservation) list
    \<Rightarrow> admission_decision \<times> (reservation_key \<times> admission_reservation) list" where
  "reference_evaluate cf w ck r rs0 =
     (let rs = live (ck_snapshot ck) rs0; v = view cf w rs; (outcome, reason, reserves) = decide cf w r v;
          rs' = (if reserves then live (ck_after ck) (reserve_in cf (ck_reserve ck) (reservation_for r (the (effective_risk r)) outcome v) rs) else rs)
      in (\<lparr>ad_decision = outcome, ad_reasonCode = reason, ad_snapshot = view cf w rs', ad_backpressure = aw_backpressure w\<rparr>, rs'))"

lemma reserve_exact:
  assumes "caches_ok cf w s"
  shows "am_reservations (reserveAdmission cf now r s) = reserve_in cf now r (am_reservations s)" and "caches_ok cf w (reserveAdmission cf now r s)"
  using assms by (simp_all add: reserveAdmission_def reserve_in_def caches_ok_def Let_def)

lemma evaluate_exact:
  assumes ok: "caches_ok cf w s"
  obtains s' where "evaluateAdmission cf w ck r s = (fst (reference_evaluate cf w ck r (am_reservations s)), s')"
    and "am_reservations s' = snd (reference_evaluate cf w ck r (am_reservations s))" and "caches_ok cf w s'"
proof -
  obtain s1 where s1: "admission_snapshot_of cf w (ck_snapshot ck) s = (view cf w (live (ck_snapshot ck) (am_reservations s)), s1)"
    "am_reservations s1 = live (ck_snapshot ck) (am_reservations s)" "caches_ok cf w s1"
    using snapshot_exact [OF ok, of "ck_snapshot ck"] unfolding view_def by metis
  let ?v = "view cf w (live (ck_snapshot ck) (am_reservations s))"
  have again: "\<exists>s2. admission_snapshot_of cf w (ck_after ck) (reserveAdmission cf (ck_reserve ck) x s1)
      = (view cf w (live (ck_after ck) (reserve_in cf (ck_reserve ck) x (live (ck_snapshot ck) (am_reservations s)))), s2)
      \<and> am_reservations s2 = live (ck_after ck) (reserve_in cf (ck_reserve ck) x (live (ck_snapshot ck) (am_reservations s))) \<and> caches_ok cf w s2" for x
    using snapshot_exact [OF reserve_exact(2) [OF s1(3)], of "ck_after ck" "ck_reserve ck" x] reserve_exact(1) [OF s1(3)] s1(2) unfolding view_def by metis
  note unfold = evaluateAdmission_def reference_evaluate_def decide_def Let_def
  show ?thesis
  proof (cases "effective_risk r")
    case (Some risk)
    note risk = this
    show ?thesis
    proof (cases "gate (cf_policy cf) (aw_backpressure w) r risk ?v")
      case None
      note pass = this
      show ?thesis
      proof (cases "capacity_answer (cf_policy cf) r risk ?v")
        case (Some p)
        obtain s2 where "admission_snapshot_of cf w (ck_after ck) (reserveAdmission cf (ck_reserve ck) (reservation_for r risk (fst p) ?v) s1)
            = (view cf w (live (ck_after ck) (reserve_in cf (ck_reserve ck) (reservation_for r risk (fst p) ?v) (live (ck_snapshot ck) (am_reservations s)))), s2)"
          "am_reservations s2 = live (ck_after ck) (reserve_in cf (ck_reserve ck) (reservation_for r risk (fst p) ?v) (live (ck_snapshot ck) (am_reservations s)))"
          "caches_ok cf w s2" using again [of "reservation_for r risk (fst p) ?v"] by blast
        then show ?thesis using risk pass Some s1 by (intro that [of s2]) (simp_all add: unfold case_prod_unfold Let_def)
      qed (use risk pass s1 in \<open>intro that [of s1]; simp add: unfold\<close>)
    qed (use risk s1 in \<open>intro that [of s1]; simp add: unfold case_prod_unfold\<close>)
  qed (use s1 in \<open>intro that [of s1]; simp add: unfold\<close>)
qed

text \<open>
  C23. The caches of the admission controller are not observable: for as long as what it reads stays the same, every call of \<^verbatim>\<open>evaluate\<close>, with any
  clock readings, decides as the controller without the cached snapshot and without the cache of parsed texts, keeps the same reservations and leaves caches for
  which this holds again; a new controller has such caches.
\<close>

theorem admission_caches_transparent:
  "(caches_ok cf w s \<longrightarrow> (\<exists>s'. evaluateAdmission cf w ck r s = (fst (reference_evaluate cf w ck r (am_reservations s)), s')
      \<and> am_reservations s' = snd (reference_evaluate cf w ck r (am_reservations s)) \<and> caches_ok cf w s'))
   \<and> caches_ok cf w (snd (new_AdmissionController p a b f))"
  using evaluate_exact [of cf w s] by (auto simp: new_AdmissionController_def caches_ok_def risk_cache_ok_def) metis

section \<open>Bursts of requests\<close>

text \<open>A run of the controller: calls with a clock that does not go back, while the store may change between the calls. The list holds the times at which
  requests have been allowed.\<close>

inductive admission_run :: "admission_config \<Rightarrow> timestamp \<Rightarrow> timestamp list \<Rightarrow> admission_state \<Rightarrow> bool" for cf where
  start: "admission_run cf T [] \<lparr>am_cachedSnapshot = None, am_reservations = [], am_riskCache = []\<rparr>"
| call: "admission_run cf (ck_after ck) (if ad_decision d = Allow then ck_reserve ck # grants else grants) s'"
    if "admission_run cf T grants s" "T \<le> ck_snapshot ck" "ck_snapshot ck \<le> ck_reserve ck" "ck_reserve ck \<le> ck_after ck" "evaluateAdmission cf w ck r s = (d, s')"

text \<open>The counts of a cached snapshot are those it was taken with.\<close>

definition counts_ok :: "admission_state \<Rightarrow> bool" where
  "counts_ok s \<longleftrightarrow> (\<forall>c. am_cachedSnapshot s = Some c \<longrightarrow> as_activeExecutions (ss_snapshot c) = ss_activeExecutions c)"

abbreviation active_slots :: "(reservation_key \<times> admission_reservation) list \<Rightarrow> int" where
  "active_slots rs \<equiv> sum_list (map (rv_activeSlots \<circ> snd) rs)"

lemma active_in_view: "as_activeExecutions (applyReservationView (map snd rs) v) = as_activeExecutions v + active_slots rs"
  unfolding applyReservationView_def by (induction rs arbitrary: v) (simp_all add: apply_reservation_def Let_def)

lemma snapshot_counts:
  assumes "counts_ok s"
  obtains v s' where "admission_snapshot_of cf w now s = (v, s')" and "as_activeExecutions v = countActiveExecutions w + active_slots (live now (am_reservations s))"
    and "am_reservations s' = live now (am_reservations s)" and "counts_ok s'"
proof -
  have pruned: "counts_ok (pruneReservations now s)" using assms by (auto simp: counts_ok_def dest: prune_cache)
  show ?thesis
  proof (cases "isCachedSnapshotValid cf w now (pruneReservations now s)")
    case True
    then obtain c where c: "am_cachedSnapshot (pruneReservations now s) = Some c" "ss_activeExecutions c = countActiveExecutions w"
      by (auto simp: isCachedSnapshotValid_def split: option.splits)
    then have "as_activeExecutions (ss_snapshot c) = countActiveExecutions w" using pruned by (simp add: counts_ok_def)
    then show ?thesis using True pruned c(1)
      by (intro that [of "fst (admission_snapshot_of cf w now s)" "snd (admission_snapshot_of cf w now s)"])
        (simp_all add: admission_snapshot_of_def buildSnapshotWithReservations_def active_in_view Let_def)
  next
    case False
    then show ?thesis
      by (intro that [of "fst (admission_snapshot_of cf w now s)" "snd (admission_snapshot_of cf w now s)"])
        (simp_all add: admission_snapshot_of_def buildSnapshotWithReservations_def active_in_view load_of_def counts_ok_def Let_def split: prod.split)
  qed
qed

lemma capacity_outcome:
  "capacity_answer p r risk v = Some (outcome, z) \<Longrightarrow> (outcome = Allow \<longrightarrow> as_activeExecutions v < pol_maxActiveExecutions p + (if elevated_risk risk then max 0 (headroom p) else 0))"
  by (auto simp: capacity_answer_def split: if_splits)

lemma gate_not_allow: "gate p bp r risk v = Some (outcome, z) \<Longrightarrow> outcome \<noteq> Allow"
  unfolding gate_def Let_def by (auto split: if_splits)

lemma evaluate_shape:
  assumes snap: "admission_snapshot_of cf w (ck_snapshot ck) s = (v, s1)" and run: "evaluateAdmission cf w ck r s = (d, s')"
  obtains (kept) "ad_decision d \<noteq> Allow" "s' = s1"
    | (reserved) risk z where "effective_risk r = Some risk" "capacity_answer (cf_policy cf) r risk v = Some (ad_decision d, z)"
        "s' = snd (admission_snapshot_of cf w (ck_after ck) (reserveAdmission cf (ck_reserve ck) (reservation_for r risk (ad_decision d) v) s1))"
proof (cases "effective_risk r")
  case None
  then show ?thesis using run snap by (intro kept) (auto simp: evaluateAdmission_def)
next
  case (Some risk)
  note risk = this
  show ?thesis
  proof (cases "gate (cf_policy cf) (aw_backpressure w) r risk v")
    case (Some p)
    then show ?thesis using run snap risk gate_not_allow [of "cf_policy cf" "aw_backpressure w" r risk v "fst p" "snd p"]
      by (intro kept) (auto simp: evaluateAdmission_def split: prod.splits)
  next
    case None
    note pass = this
    show ?thesis
    proof (cases "capacity_answer (cf_policy cf) r risk v")
      case None
      then show ?thesis using run snap risk pass by (intro kept) (auto simp: evaluateAdmission_def)
    next
      case (Some p)
      then show ?thesis using run snap risk pass
        by (intro reserved [of risk "snd p"]) (auto simp: evaluateAdmission_def Let_def case_prod_unfold)
    qed
  qed
qed

text \<open>The ways a call can go: nothing is reserved and the request is not allowed, or a reservation is made, with an active slot exactly for an allowed request.\<close>

lemma evaluate_reservations:
  assumes ok: "counts_ok s" and run: "evaluateAdmission cf w ck r s = (d, s')"
  shows "counts_ok s'"
    and "(ad_decision d \<noteq> Allow \<and> am_reservations s' = live (ck_snapshot ck) (am_reservations s))
      \<or> (\<exists>x. am_reservations s' = live (ck_after ck) (reserve_in cf (ck_reserve ck) x (live (ck_snapshot ck) (am_reservations s)))
           \<and> rv_activeSlots x = (if ad_decision d = Allow then 1 else 0)
           \<and> (ad_decision d = Allow \<longrightarrow> countActiveExecutions w + active_slots (live (ck_snapshot ck) (am_reservations s))
                < pol_maxActiveExecutions (cf_policy cf) + (if elevated_risk (the (effective_risk r)) then max 0 (headroom (cf_policy cf)) else 0)))"
    (is "?kept \<or> ?reserved")
proof -
  obtain v s1 where s1: "admission_snapshot_of cf w (ck_snapshot ck) s = (v, s1)"
    "as_activeExecutions v = countActiveExecutions w + active_slots (live (ck_snapshot ck) (am_reservations s))"
    "am_reservations s1 = live (ck_snapshot ck) (am_reservations s)" "counts_ok s1"
    using snapshot_counts [OF ok, of cf w "ck_snapshot ck"] by metis
  from s1(1) run have "counts_ok s' \<and> (?kept \<or> ?reserved)"
  proof (cases rule: evaluate_shape)
    case kept
    then show ?thesis using s1 by simp
  next
    case (reserved risk z)
    let ?x = "reservation_for r risk (ad_decision d) v" let ?s2 = "reserveAdmission cf (ck_reserve ck) (reservation_for r risk (ad_decision d) v) s1"
    have "counts_ok ?s2" by (simp add: counts_ok_def reserveAdmission_def Let_def)
    then obtain v' s2 where s2: "admission_snapshot_of cf w (ck_after ck) ?s2 = (v', s2)" "am_reservations s2 = live (ck_after ck) (am_reservations ?s2)" "counts_ok s2"
      using snapshot_counts [of ?s2 cf w "ck_after ck"] by metis
    have "am_reservations ?s2 = reserve_in cf (ck_reserve ck) ?x (live (ck_snapshot ck) (am_reservations s))"
      by (simp add: reserveAdmission_def reserve_in_def Let_def s1(3))
    moreover have "rv_activeSlots ?x = (if ad_decision d = Allow then 1 else 0)" by (simp add: reservation_for_def)
    ultimately show ?thesis
      using s2 reserved capacity_outcome [OF reserved(2)] s1(2) by auto
  qed
  then show "counts_ok s'" and "?kept \<or> ?reserved" by blast+
qed

text \<open>No reservation overwrites another: the keys made at the latest time carry numbers up to the number of live reservations.\<close>

definition keys_ok :: "admission_config \<Rightarrow> timestamp \<Rightarrow> (reservation_key \<times> admission_reservation) list \<Rightarrow> bool" where
  "keys_ok cf T rs \<longleftrightarrow> (\<forall>p \<in> set rs. fst (fst p) \<le> T \<and> rv_expiresAtMs (snd p) = fst (fst p) + cf_reservationTtlMs cf
     \<and> (fst (fst p) = T \<longrightarrow> fst (snd (fst p)) \<le> length (live T rs)))"

lemma live_live: "T \<le> T' \<Longrightarrow> live T' (live T rs) = live T' rs"
  by (auto simp: live_def intro: filter_cong)

lemma live_append: "live T (xs @ [(k, x)]) = live T xs @ (if T < rv_expiresAtMs x then [(k, x)] else [])"
  by (simp add: live_def)

lemma keys_ok_live: "keys_ok cf T rs \<Longrightarrow> T \<le> T' \<Longrightarrow> keys_ok cf T' (live T' rs)"
  by (cases "T = T'") (fastforce simp: keys_ok_def live_live live_def)+

lemma keys_ok_later: "keys_ok cf T rs \<Longrightarrow> T \<le> T' \<Longrightarrow> keys_ok cf T' rs"
  by (cases "T = T'") (fastforce simp: keys_ok_def)+

lemma reserve_appends:
  assumes keys: "keys_ok cf T rs" and time: "T \<le> now" and ttl: "0 < cf_reservationTtlMs cf"
  obtains k where "reserve_in cf now x rs = live now rs @ [(k, x\<lparr>rv_expiresAtMs := now + cf_reservationTtlMs cf\<rparr>)]" and "keys_ok cf now (reserve_in cf now x rs)"
proof -
  let ?k = "(now, length (live now rs) + 1, coalesce (rv_riskClass x) ''none'')" and ?x = "x\<lparr>rv_expiresAtMs := now + cf_reservationTtlMs cf\<rparr>"
  have now: "keys_ok cf now (live now rs)" using keys_ok_live [OF keys time] .
  then have "?k \<notin> fst ` set (live now rs)" by (fastforce simp: keys_ok_def live_live)
  then have eq: "reserve_in cf now x rs = live now rs @ [(?k, ?x)]" by (simp add: reserve_in_def jsmap_set_fresh)
  moreover have "length (live now (live now rs @ [(?k, ?x)])) = length (live now rs) + 1" using ttl by (simp add: live_def)
  then have "keys_ok cf now (live now rs @ [(?k, ?x)])" using now by (fastforce simp: keys_ok_def live_live)
  ultimately show ?thesis using that by metis
qed

text \<open>In a run the live reservations with an active slot are the requests allowed within their time to live.\<close>

definition granted :: "admission_config \<Rightarrow> timestamp \<Rightarrow> timestamp list \<Rightarrow> int" where
  "granted cf now grants = int (length (filter (\<lambda>t. now < t + cf_reservationTtlMs cf) grants))"

definition tracked :: "admission_config \<Rightarrow> timestamp \<Rightarrow> timestamp list \<Rightarrow> admission_state \<Rightarrow> bool" where
  "tracked cf T grants s \<longleftrightarrow> counts_ok s \<and> keys_ok cf T (am_reservations s)
     \<and> (\<forall>now \<ge> T. active_slots (live now (am_reservations s)) = granted cf now grants)"

lemma run_tracked:
  assumes "admission_run cf T grants s" and ttl: "0 < cf_reservationTtlMs cf"
  shows "tracked cf T grants s"
  using assms(1)
proof induction
  case (start T)
  then show ?case by (simp add: tracked_def counts_ok_def keys_ok_def granted_def live_def)
next
  case (call T grants s ck w r d s')
  let ?rs = "live (ck_snapshot ck) (am_reservations s)"
  have s: "counts_ok s" "keys_ok cf T (am_reservations s)" "\<And>now. T \<le> now \<Longrightarrow> active_slots (live now (am_reservations s)) = granted cf now grants"
    using call.IH by (auto simp: tracked_def)
  have rs: "keys_ok cf (ck_snapshot ck) ?rs" using keys_ok_live [OF s(2) call(2)] .
  consider (kept) "ad_decision d \<noteq> Allow" "am_reservations s' = ?rs"
    | (reserved) x where "am_reservations s' = live (ck_after ck) (reserve_in cf (ck_reserve ck) x ?rs)" "rv_activeSlots x = (if ad_decision d = Allow then 1 else 0)"
    using evaluate_reservations(2) [OF s(1) call(5)] by blast
  then show ?case
  proof cases
    case kept
    moreover have "keys_ok cf (ck_after ck) ?rs" using keys_ok_later [OF rs] call(3,4) by simp
    ultimately show ?thesis using s(3) call(2-4) evaluate_reservations(1) [OF s(1) call(5)] by (auto simp: tracked_def live_live)
  next
    case (reserved x)
    obtain k where k: "reserve_in cf (ck_reserve ck) x ?rs = live (ck_reserve ck) ?rs @ [(k, x\<lparr>rv_expiresAtMs := ck_reserve ck + cf_reservationTtlMs cf\<rparr>)]"
      "keys_ok cf (ck_reserve ck) (reserve_in cf (ck_reserve ck) x ?rs)" by (rule reserve_appends [OF rs call(3) ttl])
    have "active_slots (live now (am_reservations s')) = granted cf now (if ad_decision d = Allow then ck_reserve ck # grants else grants)" if "ck_after ck \<le> now" for now
      using reserved s(3) [of now] that call(2-4) by (simp add: live_live k(1) live_append granted_def)
    then show ?thesis using evaluate_reservations(1) [OF s(1) call(5)] keys_ok_live [OF k(2) call(4)] reserved(1) by (simp add: tracked_def)
  qed
qed


text \<open>
  C22. Admission does not overcommit, however many requests come at once: for a controller that has answered any sequence of requests, with any changes of the
  store in between and a clock that does not go back, whenever it allows a request, the active executions of the store together with all requests
  allowed within the time to live of a reservation, this one included, are at most the maximum of the policy, or this maximum and the headroom when
  the risk of the request is elevated.
\<close>

theorem admitted_burst_bounded:
  assumes run: "admission_run cf T grants s" and ttl: "0 < cf_reservationTtlMs cf" and time: "T \<le> ck_snapshot ck"
    and eval: "evaluateAdmission cf w ck r s = (d, s')" and allow: "ad_decision d = Allow"
  shows "countActiveExecutions w + granted cf (ck_snapshot ck) grants + 1
    \<le> pol_maxActiveExecutions (cf_policy cf) + (if elevated_risk (the (effective_risk r)) then max 0 (headroom (cf_policy cf)) else 0)"
proof -
  have s: "counts_ok s" "active_slots (live (ck_snapshot ck) (am_reservations s)) = granted cf (ck_snapshot ck) grants"
    using run_tracked [OF run ttl] time by (auto simp: tracked_def)
  show ?thesis using evaluate_reservations(2) [OF s(1) eval] allow s(2) by auto
qed

text \<open>
  The bound on the queue is not enforced on a busy system: once the active executions and reservations reach the maximum with the headroom, every request
  that passes the other checks is queued, however many tasks are queued already.
\<close>

theorem queue_bound_ignored_when_busy:
  assumes ok: "caches_ok cf w s" and risk: "effective_risk r = Some risk"
    and pass: "gate (cf_policy cf) (aw_backpressure w) r risk (view cf w (live (ck_snapshot ck) (am_reservations s))) = None"
    and busy: "pol_maxActiveExecutions (cf_policy cf) + max 0 (headroom (cf_policy cf)) \<le> as_activeExecutions (view cf w (live (ck_snapshot ck) (am_reservations s)))"
  shows "ad_decision (fst (evaluateAdmission cf w ck r s)) = Queue \<and> ad_reasonCode (fst (evaluateAdmission cf w ck r s)) = ''admission.queue_overloaded''"
proof -
  have "decide cf w r (view cf w (live (ck_snapshot ck) (am_reservations s))) = (Queue, ''admission.queue_overloaded'', True)"
    using risk pass busy by (auto simp: decide_def capacity_answer_def)
  moreover obtain s' where "evaluateAdmission cf w ck r s = (fst (reference_evaluate cf w ck r (am_reservations s)), s')" by (rule evaluate_exact [OF ok])
  ultimately show ?thesis by (simp add: reference_evaluate_def Let_def)
qed

lemma distribution_count: "coalesce (fold (\<lambda>v d. d(v \<mapsto> coalesce (d v) 0 + 1)) vs d k) 0 = coalesce (d k) 0 + int (count_list vs k)"
  by (induction vs arbitrary: d) auto

lemma usage_grows: "0 \<le> n \<Longrightarrow> coalesce (d k) 0 \<le> coalesce (incrementUsage d key n k) (0::int)"
  by (auto simp: incrementUsage_def split: option.split)

text \<open>
  Tasks that have ended use up the quota of their risk class: once the table holds as many tasks of a class as the class may have, whatever their
  status, every request of this class is rejected, on an idle system too.
\<close>

theorem ended_tasks_use_up_risk_class:
  assumes ok: "caches_ok cf w s" and idle: "am_reservations s = []" and risk: "effective_risk r = Some risk"
    and enabled: "pol_riskClassIsolationEnabled (cf_policy cf) \<noteq> Some False" and limit: "risk_limit (cf_policy cf) risk = Some n"
    and tasks: "n \<le> int (length (filter (\<lambda>t. task_risk (cf_parse cf) t = Some risk) (aw_tasks w)))"
  shows "ad_decision (fst (evaluateAdmission cf w ck r s)) = Reject \<and> ad_reasonCode (fst (evaluateAdmission cf w ck r s)) = ''admission.reject_risk_class_isolation''"
proof -
  let ?vs = "List.map_filter id (map (task_risk (cf_parse cf)) (aw_tasks w))"
  have "count_list (List.map_filter id (map (task_risk (cf_parse cf)) ts)) risk = length (filter (\<lambda>t. task_risk (cf_parse cf) t = Some risk) ts)" for ts
    by (induction ts) (auto simp: map_filter_simps split: option.splits)
  then have "n \<le> coalesce (buildDistribution ?vs risk) 0" using tasks by (simp add: buildDistribution_def distribution_count)
  then have "decide cf w r (view cf w (live (ck_snapshot ck) (am_reservations s))) = (Reject, ''admission.reject_risk_class_isolation'', False)"
    using risk enabled limit idle by (simp add: decide_def gate_def live_def view_def applyReservationView_def store_load_def load_of_def Let_def)
  moreover obtain s' where "evaluateAdmission cf w ck r s = (fst (reference_evaluate cf w ck r (am_reservations s)), s')" by (rule evaluate_exact [OF ok])
  ultimately show ?thesis by (simp add: reference_evaluate_def Let_def)
qed

section \<open>Concrete runs\<close>

definition demo_controller :: "admission_config \<times> admission_state" where
  "demo_controller = new_AdmissionController DEFAULT_POLICY None None (\<lambda>_. None)"

definition demo_admission_task :: "string \<Rightarrow> string \<Rightarrow> admission_task" where
  "demo_admission_task status risk = \<lparr>at_status = status, at_riskClass = Some risk, at_inputJson = None, at_tenantId = None\<rparr>"

definition demo_world :: "admission_task list \<Rightarrow> nat \<Rightarrow> admission_world" where
  "demo_world tasks n = \<lparr>aw_tasks = tasks, aw_executionStatuses = replicate n ''executing'', aw_acks = [], aw_sandboxes = None, aw_backpressure = None\<rparr>"

definition demo_request :: "string \<Rightarrow> admission_request" where
  "demo_request risk = \<lparr>rq_priority = ''normal'', rq_estimatedCostUsd = None, rq_budgetRemainingUsd = None, rq_tenantId = None, rq_riskClass = Some risk,
     rq_requiredSandboxType = None, rq_sandboxType = None, rq_tenantQuotaRef = None, rq_capabilityClass = None, rq_requiredCapabilities = None, rq_taskRiskClass = None\<rparr>"

definition demo_clock :: admission_clock where
  "demo_clock = \<lparr>ck_snapshot = 0, ck_reserve = 0, ck_after = 1\<rparr>"

lemma demo_controller_eq:
  "demo_controller = (\<lparr>cf_policy = DEFAULT_POLICY, cf_snapshotTtlMs = 100, cf_reservationTtlMs = 5000, cf_parse = (\<lambda>_. None)\<rparr>,
     \<lparr>am_cachedSnapshot = None, am_reservations = [], am_riskCache = []\<rparr>)"
  by (simp add: demo_controller_def new_AdmissionController_def DEFAULT_SNAPSHOT_TTL_MS_def)

lemma demo_caches: "caches_ok (fst demo_controller) w (snd demo_controller)"
  by (simp add: demo_controller_eq caches_ok_def risk_cache_ok_def)

lemma demo_requests [simp]:
  "effective_risk (demo_request risk) = Some risk" "effective_tenant (demo_request risk) = None" "requested_sandbox (demo_request risk) = None"
  "rq_priority (demo_request risk) = ''normal''" "rq_estimatedCostUsd (demo_request risk) = None" "resolveCapabilityClass (demo_request risk) c = None"
  by (simp_all add: demo_request_def effective_risk_def effective_tenant_def requested_sandbox_def resolveCapabilityClass_def)

lemma demo_low_passes: "as_tier1AckBacklog v < 25 \<Longrightarrow> gate DEFAULT_POLICY None (demo_request ''low'') ''low'' v = None"
  by (simp add: gate_def risk_limit_def DEFAULT_POLICY_def)

lemma demo_load: "store_load (fst demo_controller) (demo_world tasks n) =
    (store_load (fst demo_controller) (demo_world tasks n))\<lparr>as_tier1AckBacklog := 0, as_activeExecutions := int n\<rparr>"
  by (simp add: store_load_def load_of_def countPendingTier1Acks_def countActiveExecutions_def demo_world_def)

theorem admission_caches_transparent_witness:
  "\<exists>s'. evaluateAdmission (fst demo_controller) (demo_world [] 9) demo_clock (demo_request ''low'') (snd demo_controller)
      = (fst (reference_evaluate (fst demo_controller) (demo_world [] 9) demo_clock (demo_request ''low'') (am_reservations (snd demo_controller))), s')"
  using admission_caches_transparent [of "fst demo_controller" "demo_world [] 9" "snd demo_controller" demo_clock "demo_request ''low''"] demo_caches by blast

theorem queue_bound_ignored_when_busy_witness:
  "ad_decision (fst (evaluateAdmission (fst demo_controller) (demo_world (replicate 1000 (demo_admission_task ''queued'' ''low'')) 12) demo_clock (demo_request ''low'')
      (snd demo_controller))) = Queue"
proof -
  let ?w = "demo_world (replicate 1000 (demo_admission_task ''queued'' ''low'')) 12"
  have v: "view (fst demo_controller) ?w (live (ck_snapshot demo_clock) (am_reservations (snd demo_controller))) = store_load (fst demo_controller) ?w"
    by (simp add: demo_controller_eq live_def view_def applyReservationView_def)
  have "as_tier1AckBacklog (store_load (fst demo_controller) ?w) = 0" "as_activeExecutions (store_load (fst demo_controller) ?w) = 12"
    by (subst demo_load, simp)+
  moreover have "cf_policy (fst demo_controller) = DEFAULT_POLICY" "aw_backpressure ?w = None" by (simp_all add: demo_controller_eq demo_world_def)
  moreover have "pol_maxActiveExecutions DEFAULT_POLICY + max 0 (headroom DEFAULT_POLICY) = 12" by (simp add: DEFAULT_POLICY_def headroom_def)
  ultimately show ?thesis
    using queue_bound_ignored_when_busy [OF demo_caches demo_requests(1), of ?w "''low''" demo_clock] v demo_low_passes by simp
qed

theorem admitted_burst_bounded_witness:
  "ad_decision (fst (evaluateAdmission (fst demo_controller) (demo_world [] 9) demo_clock (demo_request ''low'') (snd demo_controller))) = Allow
     \<and> countActiveExecutions (demo_world [] 9) + granted (fst demo_controller) 0 [] + 1 \<le> pol_maxActiveExecutions DEFAULT_POLICY"
proof -
  let ?w = "demo_world [] 9"
  obtain s' where eval: "evaluateAdmission (fst demo_controller) ?w demo_clock (demo_request ''low'') (snd demo_controller)
      = (fst (reference_evaluate (fst demo_controller) ?w demo_clock (demo_request ''low'') (am_reservations (snd demo_controller))), s')"
    by (rule evaluate_exact [OF demo_caches])
  have v: "view (fst demo_controller) ?w (live (ck_snapshot demo_clock) (am_reservations (snd demo_controller))) = store_load (fst demo_controller) ?w"
    by (simp add: demo_controller_eq live_def view_def applyReservationView_def)
  have load: "as_tier1AckBacklog (store_load (fst demo_controller) ?w) = 0" "as_activeExecutions (store_load (fst demo_controller) ?w) = 9"
      "as_queuedTasks (store_load (fst demo_controller) ?w) = 0"
    by (simp_all add: store_load_def load_of_def countPendingTier1Acks_def countActiveExecutions_def countQueuedTasks_def demo_world_def)
  have policy: "cf_policy (fst demo_controller) = DEFAULT_POLICY" "aw_backpressure ?w = None" by (simp_all add: demo_controller_eq demo_world_def)
  have "capacity_answer DEFAULT_POLICY (demo_request ''low'') ''low'' (store_load (fst demo_controller) ?w) = Some (Allow, ''admission.ok'')"
    using load by (simp add: capacity_answer_def DEFAULT_POLICY_def)
  then have "decide (fst demo_controller) ?w (demo_request ''low'') (store_load (fst demo_controller) ?w) = (Allow, ''admission.ok'', True)"
    using demo_low_passes [of "store_load (fst demo_controller) ?w"] load policy by (simp add: decide_def)
  then have allow: "ad_decision (fst (reference_evaluate (fst demo_controller) ?w demo_clock (demo_request ''low'') (am_reservations (snd demo_controller)))) = Allow"
    by (simp add: reference_evaluate_def v Let_def)
  have "admission_run (fst demo_controller) 0 [] (snd demo_controller)" using admission_run.start by (simp add: demo_controller_eq)
  from admitted_burst_bounded [OF this _ _ eval allow] have "countActiveExecutions ?w + granted (fst demo_controller) 0 [] + 1 \<le> pol_maxActiveExecutions DEFAULT_POLICY"
    by (simp add: demo_controller_eq demo_clock_def elevated_risk_def)
  then show ?thesis using eval allow by simp
qed

theorem ended_tasks_use_up_risk_class_witness:
  "ad_decision (fst (evaluateAdmission (fst demo_controller) (demo_world [demo_admission_task ''done'' ''critical'', demo_admission_task ''failed'' ''critical''] 0) demo_clock
      (demo_request ''critical'') (snd demo_controller))) = Reject"
proof -
  let ?w = "demo_world [demo_admission_task ''done'' ''critical'', demo_admission_task ''failed'' ''critical''] 0"
  have "am_reservations (snd demo_controller) = []" "pol_riskClassIsolationEnabled (cf_policy (fst demo_controller)) \<noteq> Some False"
      "risk_limit (cf_policy (fst demo_controller)) ''critical'' = Some 2" by (simp_all add: demo_controller_eq DEFAULT_POLICY_def risk_limit_def)
  then show ?thesis
    using ended_tasks_use_up_risk_class [OF demo_caches _ demo_requests(1), of "''critical''" 2 ?w demo_clock] by (simp add: demo_world_def demo_admission_task_def task_risk_def)
qed

end
