(* ===== verification/Leader_Coordinator.thy ===== *)
theory Leader_Coordinator
  imports Prelude
begin

text \<open>
  The coordinator of the highly available control plane (\<^verbatim>\<open>src/src/platform/five-plane-execution/ha/ha-coordinator-service-inner.ts\<close>
  with \<^verbatim>\<open>types.ts\<close> and \<^verbatim>\<open>mappers.ts\<close>): the nodes, the leases and epochs of their leadership, failover, and who may act or write as the leader.

  The service works on five tables, lists in insertion order; the columns for creation and update times are never read and are left out. A row is inserted only when
  the keys of its table, the unique index on active leases and the foreign key to the nodes admit it; a transaction restores the tables
  when its body throws. Stored times are milliseconds: the service writes them in the format that its strict parser accepts, so the answer for a time
  that cannot be parsed does not arise. Fresh identifiers are arguments, and so are the readings of the clock, two of them where the code compares them.
  A query for the newest row takes the first row of a stable sort.
\<close>

section \<open>Rows and tables\<close>

record node_metadata =
  nm_role :: string
  nm_allowedActions :: "string list"

record coordinator_node =
  cn_nodeId :: ident
  cn_region :: string
  cn_status :: string
  cn_isLeader :: bool
  cn_leadershipEpoch :: int
  cn_lastHeartbeatAt :: timestamp
  cn_metadata :: "node_metadata option"

definition canCoordinatorPerformLeaderAction :: "coordinator_node \<Rightarrow> string \<Rightarrow> bool" where
  "canCoordinatorPerformLeaderAction node action =
     (cn_isLeader node \<and> (case cn_metadata node of None \<Rightarrow> False | Some m \<Rightarrow> nm_role m = ''leader'' \<and> action \<in> set (nm_allowedActions m)))"

text \<open>The row of a lease has the fencing token, which the interface of a lease leaves out.\<close>

record leader_lease =
  ll_leaseId :: ident
  ll_nodeId :: ident
  ll_epoch :: int
  ll_acquiredAt :: timestamp
  ll_expiresAt :: timestamp
  ll_status :: string
  ll_ttlMs :: int
  ll_fencingToken :: int

record leadership_epoch =
  le_epoch :: int
  le_leaderNodeId :: "ident option"
  le_startedAt :: timestamp
  le_endedAt :: "timestamp option"
  le_cause :: string
  le_fencingToken :: int

record failover_decision =
  fd_decisionId :: ident
  fd_oldLeaderNodeId :: "ident option"
  fd_newLeaderNodeId :: "ident option"
  fd_epoch :: int
  fd_cause :: string
  fd_outcome :: string
  fd_decidedAt :: timestamp
  fd_fencingToken :: int

record action_audit =
  aa_id :: ident
  aa_actionType :: string
  aa_requestingNodeId :: ident
  aa_leaderNodeId :: "ident option"
  aa_epoch :: int
  aa_fencingToken :: int
  aa_authorized :: bool
  aa_reasonCode :: string
  aa_performedAt :: timestamp

record ha_tables =
  ha_nodes :: "coordinator_node list"
  ha_leases :: "leader_lease list"
  ha_epochs :: "leadership_epoch list"
  ha_decisions :: "failover_decision list"
  ha_audits :: "action_audit list"

datatype ha_error = Node_not_found ident | Constraint_failed string

type_synonym 'a ha_prog = "(ha_tables, ha_error, 'a) prog"

definition DEFAULT_LEADER_TTL_MS :: int where "DEFAULT_LEADER_TTL_MS = 15000"
definition MIN_LEADER_TTL_MS :: int where "MIN_LEADER_TTL_MS = 5000"
definition MAX_LEADER_TTL_MS :: int where "MAX_LEADER_TTL_MS = 60000"
definition EPOCH_FENCING_TOKEN_START :: int where "EPOCH_FENCING_TOKEN_START = 1"

record ha_options =
  ho_defaultTtlMs :: int
  ho_strictLeaderAuthority :: bool

text \<open>The constructor; an option is \<open>None\<close> when it is absent.\<close>

definition new_HaCoordinatorService :: "int option \<Rightarrow> bool option \<Rightarrow> ha_options" where
  "new_HaCoordinatorService defaultTtlMs strictLeaderAuthority =
     \<lparr>ho_defaultTtlMs = coalesce defaultTtlMs DEFAULT_LEADER_TTL_MS, ho_strictLeaderAuthority = coalesce strictLeaderAuthority True\<rparr>"

definition no_tables :: ha_tables where
  "no_tables = \<lparr>ha_nodes = [], ha_leases = [], ha_epochs = [], ha_decisions = [], ha_audits = []\<rparr>"

section \<open>Queries and updates\<close>

definition newest :: "('a \<Rightarrow> int) \<Rightarrow> 'a list \<Rightarrow> 'a list" where
  "newest f rows = sort_key (\<lambda>x. - f x) rows"

definition first_row :: "'a list \<Rightarrow> 'a option" where
  "first_row rows = (case rows of [] \<Rightarrow> None | x # _ \<Rightarrow> Some x)"

definition update_rows :: "('a \<Rightarrow> bool) \<Rightarrow> ('a \<Rightarrow> 'a) \<Rightarrow> 'a list \<Rightarrow> 'a list" where
  "update_rows P f rows = map (\<lambda>x. if P x then f x else x) rows"

definition getNode :: "ident \<Rightarrow> ha_tables \<Rightarrow> coordinator_node option" where
  "getNode nodeId s = first_row (filter (\<lambda>n. cn_nodeId n = nodeId) (ha_nodes s))"

definition listNodes :: "string option \<Rightarrow> ha_tables \<Rightarrow> coordinator_node list" where
  "listNodes status s =
     newest cn_lastHeartbeatAt (if status \<in> {None, Some []} then ha_nodes s else filter (\<lambda>n. Some (cn_status n) = status) (ha_nodes s))"

definition getCurrentLeader :: "ha_tables \<Rightarrow> coordinator_node option" where
  "getCurrentLeader s = first_row (filter cn_isLeader (ha_nodes s))"

definition getActiveLease :: "timestamp \<Rightarrow> ha_tables \<Rightarrow> leader_lease option" where
  "getActiveLease now s = first_row (newest ll_acquiredAt (filter (\<lambda>l. ll_status l = ''active'' \<and> now < ll_expiresAt l) (ha_leases s)))"

definition getLeaseByNodeId :: "ident \<Rightarrow> ha_tables \<Rightarrow> leader_lease option" where
  "getLeaseByNodeId nodeId s = first_row (newest ll_acquiredAt (filter (\<lambda>l. ll_nodeId l = nodeId \<and> ll_status l = ''active'') (ha_leases s)))"

text \<open>Without any epoch the answer is epoch 0; its starting time is not read by any caller.\<close>

definition getLatestEpoch :: "ha_tables \<Rightarrow> leadership_epoch" where
  "getLatestEpoch s =
     (case first_row (newest le_epoch (ha_epochs s)) of
        Some e \<Rightarrow> e\<lparr>le_leaderNodeId := (if le_leaderNodeId e = Some [] then None else le_leaderNodeId e)\<rparr>
      | None \<Rightarrow> \<lparr>le_epoch = 0, le_leaderNodeId = None, le_startedAt = 0, le_endedAt = None, le_cause = ''acquired'', le_fencingToken = 0\<rparr>)"

definition listEpochs :: "nat \<Rightarrow> ha_tables \<Rightarrow> leadership_epoch list" where
  "listEpochs limit s = take limit (newest le_epoch (ha_epochs s))"

definition getFailoverHistory :: "nat \<Rightarrow> ha_tables \<Rightarrow> failover_decision list" where
  "getFailoverHistory limit s = take limit (newest fd_decidedAt (ha_decisions s))"

definition loadLatestFencingToken :: "ha_tables \<Rightarrow> int" where
  "loadLatestFencingToken s = fold max (map le_fencingToken (ha_epochs s)) EPOCH_FENCING_TOKEN_START"

definition allocateNextFencingToken :: "ha_tables \<Rightarrow> int" where
  "allocateNextFencingToken s = loadLatestFencingToken s + 1"

definition ha_transaction :: "'a ha_prog \<Rightarrow> 'a ha_prog" where
  "ha_transaction work = (\<lambda>s. case work s of (Inl e, _) \<Rightarrow> (Inl e, s) | (Inr r, s') \<Rightarrow> (Inr r, s'))"

definition insert_lease :: "leader_lease \<Rightarrow> unit ha_prog" where
  "insert_lease l = (\<lambda>s.
     if ll_leaseId l \<in> ll_leaseId ` set (ha_leases s) then (Inl (Constraint_failed ''leadership_leases.lease_id''), s)
     else if ll_nodeId l \<notin> cn_nodeId ` set (ha_nodes s) then (Inl (Constraint_failed ''leadership_leases.node_id''), s)
     else if ll_status l = ''active'' \<and> list_ex (\<lambda>k. ll_status k = ''active'') (ha_leases s)
     then (Inl (Constraint_failed ''leadership_leases.status''), s)
     else (Inr (), s\<lparr>ha_leases := ha_leases s @ [l]\<rparr>))"

definition insert_epoch :: "leadership_epoch \<Rightarrow> unit ha_prog" where
  "insert_epoch e = (\<lambda>s.
     if le_epoch e \<in> le_epoch ` set (ha_epochs s) then (Inl (Constraint_failed ''leadership_epochs.epoch''), s)
     else (Inr (), s\<lparr>ha_epochs := ha_epochs s @ [e]\<rparr>))"

definition insert_decision :: "failover_decision \<Rightarrow> unit ha_prog" where
  "insert_decision d = (\<lambda>s.
     if fd_decisionId d \<in> fd_decisionId ` set (ha_decisions s) then (Inl (Constraint_failed ''failover_decisions.decision_id''), s)
     else (Inr (), s\<lparr>ha_decisions := ha_decisions s @ [d]\<rparr>))"

definition demote :: "ident \<Rightarrow> ha_tables \<Rightarrow> ha_tables" where
  "demote nodeId s = s\<lparr>ha_nodes := update_rows (\<lambda>n. cn_nodeId n = nodeId) (\<lambda>n. n\<lparr>cn_isLeader := False\<rparr>) (ha_nodes s)\<rparr>"

definition close_leases :: "ident \<Rightarrow> string \<Rightarrow> ha_tables \<Rightarrow> ha_tables" where
  "close_leases nodeId status s =
     s\<lparr>ha_leases := update_rows (\<lambda>l. ll_nodeId l = nodeId \<and> ll_status l = ''active'') (\<lambda>l. l\<lparr>ll_status := status\<rparr>) (ha_leases s)\<rparr>"

definition end_epochs :: "(leadership_epoch \<Rightarrow> bool) \<Rightarrow> timestamp \<Rightarrow> string \<Rightarrow> ha_tables \<Rightarrow> ha_tables" where
  "end_epochs P now cause s =
     s\<lparr>ha_epochs := update_rows (\<lambda>e. P e \<and> le_endedAt e = None) (\<lambda>e. e\<lparr>le_endedAt := Some now, le_cause := cause\<rparr>) (ha_epochs s)\<rparr>"

section \<open>Nodes\<close>

definition registerNode :: "timestamp \<Rightarrow> ident \<Rightarrow> string \<Rightarrow> node_metadata option \<Rightarrow> ha_tables \<Rightarrow> coordinator_node option \<times> ha_tables" where
  "registerNode now nodeId region metadata s =
     (let existing = getNode nodeId s;
          node = \<lparr>cn_nodeId = nodeId, cn_region = region, cn_status = ''active'',
            cn_isLeader = coalesce (map_option cn_isLeader existing) False, cn_leadershipEpoch = coalesce (map_option cn_leadershipEpoch existing) 0,
            cn_lastHeartbeatAt = now, cn_metadata = metadata\<rparr>;
          s' = s\<lparr>ha_nodes := filter (\<lambda>n. cn_nodeId n \<noteq> nodeId) (ha_nodes s) @ [node]\<rparr>
      in (getNode nodeId s', s'))"

definition updateNodeHeartbeat :: "timestamp \<Rightarrow> ident \<Rightarrow> string option \<Rightarrow> ha_tables \<Rightarrow> coordinator_node option \<times> ha_tables" where
  "updateNodeHeartbeat now nodeId status s =
     (let s' = s\<lparr>ha_nodes := update_rows (\<lambda>n. cn_nodeId n = nodeId)
            (\<lambda>n. n\<lparr>cn_lastHeartbeatAt := now, cn_status := (if status \<in> {None, Some []} then cn_status n else the status)\<rparr>) (ha_nodes s)\<rparr>
      in (getNode nodeId s', s'))"

definition removeNode :: "timestamp \<Rightarrow> ident \<Rightarrow> ha_tables \<Rightarrow> bool \<times> ha_tables" where
  "removeNode now nodeId s =
     (case getNode nodeId s of
        None \<Rightarrow> (False, s)
      | Some node \<Rightarrow>
          let s1 = (if cn_isLeader node
                then end_epochs (\<lambda>e. le_leaderNodeId e = Some nodeId) now ''removed'' (close_leases nodeId ''expired''
                  (s\<lparr>ha_nodes := update_rows (\<lambda>n. cn_nodeId n = nodeId) (\<lambda>n. n\<lparr>cn_isLeader := False, cn_status := ''offline''\<rparr>) (ha_nodes s)\<rparr>))
                else s)
          in (list_ex (\<lambda>n. cn_nodeId n = nodeId) (ha_nodes s1),
              s1\<lparr>ha_leases := filter (\<lambda>l. ll_nodeId l \<noteq> nodeId) (ha_leases s1), ha_nodes := filter (\<lambda>n. cn_nodeId n \<noteq> nodeId) (ha_nodes s1)\<rparr>))"

section \<open>Leadership\<close>

record acquisition_input =
  ai_nodeId :: ident
  ai_ttlMs :: "int option"
  ai_forceAcquire :: "bool option"

record acquisition =
  aq_acquired :: bool
  aq_lease :: "leader_lease option"
  aq_epoch :: int
  aq_fencingToken :: int
  aq_cause :: "string option"

definition effective_ttl :: "ha_options \<Rightarrow> int option \<Rightarrow> int" where
  "effective_ttl opts ttlMs = min MAX_LEADER_TTL_MS (max MIN_LEADER_TTL_MS (coalesce ttlMs (ho_defaultTtlMs opts)))"

text \<open>A leader that is not active any more loses the flag, its lease and its epochs.\<close>

definition retire :: "timestamp \<Rightarrow> coordinator_node \<Rightarrow> leader_lease option \<Rightarrow> ha_tables \<Rightarrow> ha_tables" where
  "retire now leader lease s =
     end_epochs (\<lambda>e. le_leaderNodeId e = Some (cn_nodeId leader)) now ''expired''
       ((case lease of
           None \<Rightarrow> id
         | Some l \<Rightarrow> (\<lambda>s. s\<lparr>ha_leases := update_rows (\<lambda>k. ll_leaseId k = ll_leaseId l) (\<lambda>k. k\<lparr>ll_status := ''expired''\<rparr>) (ha_leases s)\<rparr>))
        (demote (cn_nodeId leader) s))"

text \<open>The writes of a granted request, on the tables after a leader that is not active has been retired.\<close>

definition take_over :: "timestamp \<Rightarrow> ident \<Rightarrow> ident \<Rightarrow> ident \<Rightarrow> int \<Rightarrow> bool \<Rightarrow> int \<Rightarrow> coordinator_node option \<Rightarrow> acquisition ha_prog" where
  "take_over now leaseId decisionId nodeId ttl force currentEpoch currentLeader =
     bindP (getsP allocateNextFencingToken) (\<lambda>newFencingToken.
     let newEpoch = currentEpoch + 1;
         lease = \<lparr>ll_leaseId = leaseId, ll_nodeId = nodeId, ll_epoch = newEpoch, ll_acquiredAt = now, ll_expiresAt = now + ttl, ll_status = ''active'',
           ll_ttlMs = ttl, ll_fencingToken = newFencingToken\<rparr> in
     bindP (modifyP (case currentLeader of None \<Rightarrow> id | Some l \<Rightarrow> (\<lambda>s. close_leases (cn_nodeId l) ''expired'' (demote (cn_nodeId l) s)))) (\<lambda>_.
     bindP (insert_lease lease) (\<lambda>_.
     bindP (modifyP (\<lambda>s. s\<lparr>ha_nodes := update_rows (\<lambda>n. cn_nodeId n = nodeId) (\<lambda>n. n\<lparr>cn_isLeader := True, cn_leadershipEpoch := newEpoch\<rparr>) (ha_nodes s)\<rparr>)) (\<lambda>_.
     bindP (insert_epoch \<lparr>le_epoch = newEpoch, le_leaderNodeId = Some nodeId, le_startedAt = now, le_endedAt = None,
        le_cause = (if force then ''preempted'' else ''acquired''), le_fencingToken = newFencingToken\<rparr>) (\<lambda>_.
     bindP (case currentLeader of
          None \<Rightarrow> returnP ()
        | Some l \<Rightarrow> if cn_nodeId l = nodeId then returnP ()
            else insert_decision \<lparr>fd_decisionId = decisionId, fd_oldLeaderNodeId = Some (cn_nodeId l), fd_newLeaderNodeId = Some nodeId, fd_epoch = newEpoch,
              fd_cause = (if force then ''epoch_preempted'' else ''voluntary''), fd_outcome = ''leader_changed'', fd_decidedAt = now,
              fd_fencingToken = newFencingToken\<rparr>) (\<lambda>_.
     returnP \<lparr>aq_acquired = True, aq_lease = Some lease, aq_epoch = newEpoch, aq_fencingToken = newFencingToken, aq_cause = None\<rparr>))))))"

definition ha_acquireLeadership :: "ha_options \<Rightarrow> timestamp \<Rightarrow> ident \<Rightarrow> ident \<Rightarrow> acquisition_input \<Rightarrow> acquisition ha_prog" where
  "ha_acquireLeadership opts now leaseId decisionId i = ha_transaction (\<lambda>s.
     let nodeId = ai_nodeId i; force = coalesce (ai_forceAcquire i) False; ttl = effective_ttl opts (ai_ttlMs i);
         currentLeader = getCurrentLeader s; currentEpoch = getLatestEpoch s;
         currentLeaderLease = Option.bind currentLeader (\<lambda>l. getLeaseByNodeId (cn_nodeId l) s);
         acquire = take_over now leaseId decisionId nodeId ttl force (le_epoch currentEpoch) currentLeader in
     if getNode nodeId s = None then (Inl (Node_not_found nodeId), s)
     else
       case currentLeader of
         None \<Rightarrow> acquire s
       | Some leader \<Rightarrow>
           if force then acquire s
           else if cn_status leader \<noteq> ''active'' then acquire (retire now leader currentLeaderLease s)
           else if (case currentLeaderLease of None \<Rightarrow> False | Some l \<Rightarrow> ll_nodeId l \<noteq> nodeId \<and> \<not> ll_expiresAt l \<le> now)
           then (Inr \<lparr>aq_acquired = False, aq_lease = None, aq_epoch = le_epoch currentEpoch, aq_fencingToken = le_fencingToken currentEpoch,
             aq_cause = Some ''leadership_held_by_another_node''\<rparr>, s)
           else acquire s)"

record renewal =
  rn_renewed :: bool
  rn_lease :: "leader_lease option"
  rn_fencingToken :: int

definition ha_renewLeadership :: "ha_options \<Rightarrow> timestamp \<Rightarrow> ident \<Rightarrow> int option \<Rightarrow> renewal ha_prog" where
  "ha_renewLeadership opts now nodeId ttlMs = ha_transaction (\<lambda>s.
     if getNode nodeId s = None then (Inl (Node_not_found nodeId), s)
     else
       case getActiveLease now s of
         None \<Rightarrow> (Inr \<lparr>rn_renewed = False, rn_lease = None, rn_fencingToken = 0\<rparr>, s)
       | Some l \<Rightarrow>
           if ll_nodeId l \<noteq> nodeId then (Inr \<lparr>rn_renewed = False, rn_lease = None, rn_fencingToken = 0\<rparr>, s)
           else
             let ttl = effective_ttl opts ttlMs; prolong = (\<lambda>k. k\<lparr>ll_expiresAt := now + ttl, ll_ttlMs := ttl\<rparr>);
                 s1 = s\<lparr>ha_leases := update_rows (\<lambda>k. ll_leaseId k = ll_leaseId l \<and> ll_status k = ''active'') prolong (ha_leases s)\<rparr>;
                 s2 = snd (updateNodeHeartbeat now nodeId None s1)
             in (Inr \<lparr>rn_renewed = True, rn_lease = Some (prolong l), rn_fencingToken = le_fencingToken (getLatestEpoch s2)\<rparr>, s2))"

definition ha_releaseLeadership :: "timestamp \<Rightarrow> ident \<Rightarrow> ha_tables \<Rightarrow> bool \<times> ha_tables" where
  "ha_releaseLeadership now nodeId s =
     (case getNode nodeId s of
        None \<Rightarrow> (False, s)
      | Some node \<Rightarrow>
          if \<not> cn_isLeader node then (False, s)
          else
            let s1 = demote nodeId (close_leases nodeId ''released'' s)
            in (True, end_epochs (\<lambda>e. le_epoch e = le_epoch (getLatestEpoch s1)) now ''voluntary'' s1))"

record leadership_query =
  lq_isLeader :: bool
  lq_leaderNodeId :: "ident option"
  lq_epoch :: int
  lq_fencingToken :: int
  lq_expiresAt :: "timestamp option"
  lq_isExpired :: bool

definition queryLeadership :: "timestamp \<Rightarrow> timestamp \<Rightarrow> ha_tables \<Rightarrow> leadership_query" where
  "queryLeadership now nowMs s =
     (let latestEpoch = getLatestEpoch s in
      case (getCurrentLeader s, getActiveLease now s) of
        (Some leader, Some activeLease) \<Rightarrow>
          let isExpired = (ll_expiresAt activeLease \<le> nowMs) in
          \<lparr>lq_isLeader = (\<not> isExpired), lq_leaderNodeId = Some (cn_nodeId leader), lq_epoch = le_epoch latestEpoch,
           lq_fencingToken = le_fencingToken latestEpoch, lq_expiresAt = Some (ll_expiresAt activeLease), lq_isExpired = isExpired\<rparr>
      | _ \<Rightarrow> \<lparr>lq_isLeader = False, lq_leaderNodeId = None, lq_epoch = le_epoch latestEpoch, lq_fencingToken = le_fencingToken latestEpoch,
               lq_expiresAt = None, lq_isExpired = True\<rparr>)"

section \<open>Authority\<close>

record action_authorization =
  az_authorized :: bool
  az_authority :: string
  az_reasonCode :: string
  az_leaderNodeId :: "ident option"
  az_epoch :: int
  az_fencingToken :: int

text \<open>The verdict on a request of a registered node and its reason; \<open>None\<close> when nothing is recorded.\<close>

definition action_verdict :: "ha_options \<Rightarrow> timestamp \<Rightarrow> timestamp \<Rightarrow> ident \<Rightarrow> string \<Rightarrow> ha_tables \<Rightarrow> (bool \<times> string) option" where
  "action_verdict opts now later requestingNodeId requiredAuthority s =
     (if requiredAuthority = ''any'' then Some (True, ''ok'')
      else if requiredAuthority = ''follower_allowed'' then Some (True, ''follower_allowed'')
      else if requiredAuthority = ''leader_only'' then
        (if \<not> ho_strictLeaderAuthority opts then Some (True, ''strict_leader_authority_disabled'')
         else
           case getCurrentLeader s of
             None \<Rightarrow> Some (False, ''no_active_leader'')
           | Some leader \<Rightarrow>
               if cn_nodeId leader \<noteq> requestingNodeId then Some (False, ''not_current_leader'')
               else
                 (case getActiveLease later s of
                    None \<Rightarrow> Some (False, ''no_active_lease'')
                  | Some l \<Rightarrow> if ll_expiresAt l \<le> now then Some (False, ''leadership_lease_expired'') else Some (True, ''ok'')))
      else None)"

definition authorizeAction :: "ha_options \<Rightarrow> timestamp \<Rightarrow> timestamp \<Rightarrow> timestamp \<Rightarrow> ident \<Rightarrow> ident \<Rightarrow> string \<Rightarrow> string \<Rightarrow> action_authorization ha_prog" where
  "authorizeAction opts now later performedAt auditId requestingNodeId actionType requiredAuthority = (\<lambda>s.
     let leaderId = map_option cn_nodeId (getCurrentLeader s); latestEpoch = getLatestEpoch s;
         answer = (\<lambda>ok reason. \<lparr>az_authorized = ok, az_authority = requiredAuthority, az_reasonCode = reason, az_leaderNodeId = leaderId,
           az_epoch = le_epoch latestEpoch, az_fencingToken = le_fencingToken latestEpoch\<rparr>) in
     if getNode requestingNodeId s = None then (Inr (answer False ''node_not_found''), s)
     else
       case action_verdict opts now later requestingNodeId requiredAuthority s of
         None \<Rightarrow> (Inr (answer False ''unknown_authority_requirement''), s)
       | Some (ok, reason) \<Rightarrow>
           if auditId \<in> aa_id ` set (ha_audits s) then (Inl (Constraint_failed ''leader_action_audit.id''), s)
           else (Inr (answer ok reason), s\<lparr>ha_audits := ha_audits s @ [\<lparr>aa_id = auditId, aa_actionType = actionType, aa_requestingNodeId = requestingNodeId,
             aa_leaderNodeId = leaderId, aa_epoch = le_epoch latestEpoch, aa_fencingToken = le_fencingToken latestEpoch, aa_authorized = ok,
             aa_reasonCode = reason, aa_performedAt = performedAt\<rparr>]\<rparr>))"

definition verifyWriteAuthority :: "int \<Rightarrow> ha_tables \<Rightarrow> bool" where
  "verifyWriteAuthority presentedFencingToken s =
     (let latestEpoch = getLatestEpoch s in
      if le_leaderNodeId latestEpoch = None \<and> le_fencingToken latestEpoch = 0 then 0 \<le> presentedFencingToken
      else presentedFencingToken = le_fencingToken latestEpoch)"

section \<open>Failover and cleanup\<close>

text \<open>\<^verbatim>\<open>localeCompare\<close> is the parameter: a comparison of identifiers.\<close>

fun least_node :: "(ident \<Rightarrow> ident \<Rightarrow> int) \<Rightarrow> coordinator_node list \<Rightarrow> coordinator_node option" where
  "least_node cmp [] = None"
| "least_node cmp (n # ns) =
     (case least_node cmp ns of None \<Rightarrow> Some n | Some m \<Rightarrow> if cmp (cn_nodeId m) (cn_nodeId n) < 0 then Some m else Some n)"

definition choose_leader :: "(ident \<Rightarrow> ident \<Rightarrow> int) \<Rightarrow> ident option \<Rightarrow> ha_tables \<Rightarrow> ident option" where
  "choose_leader cmp forceNodeId s =
     (if forceNodeId \<notin> {None, Some []} then forceNodeId
      else map_option cn_nodeId (least_node cmp
        (filter (\<lambda>n. Some (cn_nodeId n) \<noteq> map_option cn_nodeId (getCurrentLeader s)) (listNodes (Some ''active'') s))))"

definition triggerFailover :: "ha_options \<Rightarrow> (ident \<Rightarrow> ident \<Rightarrow> int) \<Rightarrow> timestamp \<Rightarrow> timestamp \<Rightarrow> ident \<Rightarrow> ident \<Rightarrow> ident \<Rightarrow> string \<Rightarrow> ident option
    \<Rightarrow> failover_decision ha_prog" where
  "triggerFailover opts cmp now later leaseId innerId decisionId cause forceNodeId = ha_transaction (\<lambda>s.
     let currentLeader = getCurrentLeader s; latestEpoch = getLatestEpoch s; newLeaderNodeId = choose_leader cmp forceNodeId s;
         decide = (\<lambda>outcome epoch token. \<lparr>fd_decisionId = decisionId, fd_oldLeaderNodeId = map_option cn_nodeId currentLeader,
           fd_newLeaderNodeId = newLeaderNodeId, fd_epoch = epoch, fd_cause = cause, fd_outcome = outcome, fd_decidedAt = now, fd_fencingToken = token\<rparr>) in
     case newLeaderNodeId of
       None \<Rightarrow> (Inr (decide ''no_candidate'' (le_epoch latestEpoch) (le_fencingToken latestEpoch)), s)
     | Some nodeId \<Rightarrow>
         if nodeId = [] then (Inr (decide ''leader_changed'' (le_epoch latestEpoch) (le_fencingToken latestEpoch)), s)
         else
           bindP (modifyP (case currentLeader of None \<Rightarrow> id | Some l \<Rightarrow> (\<lambda>s. close_leases (cn_nodeId l) ''expired'' (demote (cn_nodeId l) s)))) (\<lambda>_.
           bindP (ha_acquireLeadership opts later leaseId innerId \<lparr>ai_nodeId = nodeId, ai_ttlMs = None, ai_forceAcquire = Some True\<rparr>) (\<lambda>r.
           let decision = decide ''leader_changed'' (aq_epoch r) (aq_fencingToken r) in
           bindP (insert_decision decision) (\<lambda>_. returnP decision))) s)"

definition incrementEpoch :: "ha_options \<Rightarrow> timestamp \<Rightarrow> ident \<Rightarrow> ident \<Rightarrow> ident \<Rightarrow> string option \<Rightarrow> leadership_epoch ha_prog" where
  "incrementEpoch opts now leaseId decisionId nodeId region =
     bindP (modifyP (\<lambda>s. if getNode nodeId s = None then snd (registerNode now nodeId (coalesce region ''unknown'') None s) else s)) (\<lambda>_.
     bindP (ha_acquireLeadership opts now leaseId decisionId \<lparr>ai_nodeId = nodeId, ai_ttlMs = None, ai_forceAcquire = Some True\<rparr>) (\<lambda>_.
     getsP getLatestEpoch))"

definition purgeExpiredLeases :: "timestamp \<Rightarrow> ha_tables \<Rightarrow> nat \<times> ha_tables" where
  "purgeExpiredLeases now s =
     (let due = (\<lambda>l. ll_status l = ''active'' \<and> ll_expiresAt l \<le> now) in
      (length (filter due (ha_leases s)), s\<lparr>ha_leases := update_rows due (\<lambda>l. l\<lparr>ll_status := ''expired''\<rparr>) (ha_leases s)\<rparr>))"

definition purgeOldFailoverDecisions :: "timestamp \<Rightarrow> int \<Rightarrow> ha_tables \<Rightarrow> nat \<times> ha_tables" where
  "purgeOldFailoverDecisions now olderThanDays s =
     (let old = (\<lambda>d. fd_decidedAt d < now - olderThanDays * 86400 * 1000) in
      (length (filter old (ha_decisions s)), s\<lparr>ha_decisions := filter (\<lambda>d. \<not> old d) (ha_decisions s)\<rparr>))"

section \<open>The invariant\<close>

text \<open>The reign that the last row of the epochs records: its number, its token and its leader.\<close>

definition reign :: "leadership_epoch list \<Rightarrow> (int \<times> int \<times> ident option) option" where
  "reign es = (if es = [] then None else Some (le_epoch (last es), le_fencingToken (last es), le_leaderNodeId (last es)))"

definition epochs_ok :: "leadership_epoch list \<Rightarrow> bool" where
  "epochs_ok es \<longleftrightarrow> sorted_wrt (\<lambda>a b. le_epoch a < le_epoch b \<and> le_fencingToken a < le_fencingToken b) es
     \<and> (\<forall>e \<in> set es. 0 < le_epoch e \<and> EPOCH_FENCING_TOKEN_START < le_fencingToken e)"

definition leaders :: "coordinator_node list \<Rightarrow> ident set" where
  "leaders ns = cn_nodeId ` {n \<in> set ns. cn_isLeader n}"

text \<open>Rows that belong to the last epoch: a node with the flag of the leader, and an active lease.\<close>

definition node_reigns :: "leadership_epoch list \<Rightarrow> coordinator_node \<Rightarrow> bool" where
  "node_reigns es n \<longleftrightarrow> (\<exists>k. reign es = Some (cn_leadershipEpoch n, k, Some (cn_nodeId n)))"

definition lease_reigns :: "leadership_epoch list \<Rightarrow> leader_lease \<Rightarrow> bool" where
  "lease_reigns es l \<longleftrightarrow> reign es = Some (ll_epoch l, ll_fencingToken l, Some (ll_nodeId l))"

definition ha_ok :: "ha_tables \<Rightarrow> bool" where
  "ha_ok s \<longleftrightarrow> distinct (map cn_nodeId (ha_nodes s)) \<and> distinct (map ll_leaseId (ha_leases s)) \<and> epochs_ok (ha_epochs s)
     \<and> (\<forall>n \<in> set (ha_nodes s). cn_isLeader n \<longrightarrow> node_reigns (ha_epochs s) n)
     \<and> (\<forall>l \<in> set (ha_leases s). ll_nodeId l \<in> cn_nodeId ` set (ha_nodes s)
          \<and> (ll_status l = ''active'' \<longrightarrow> lease_reigns (ha_epochs s) l \<and> ll_nodeId l \<in> leaders (ha_nodes s)))
     \<and> (\<forall>l \<in> set (ha_leases s). \<forall>k \<in> set (ha_leases s). ll_status l = ''active'' \<and> ll_status k = ''active'' \<longrightarrow> l = k)"

lemma ha_okD:
  assumes "ha_ok s"
  shows "distinct (map cn_nodeId (ha_nodes s))" "distinct (map ll_leaseId (ha_leases s))" "epochs_ok (ha_epochs s)"
    "n \<in> set (ha_nodes s) \<Longrightarrow> cn_isLeader n \<Longrightarrow> node_reigns (ha_epochs s) n"
    "l \<in> set (ha_leases s) \<Longrightarrow> ll_nodeId l \<in> cn_nodeId ` set (ha_nodes s)"
    "l \<in> set (ha_leases s) \<Longrightarrow> ll_status l = ''active'' \<Longrightarrow> lease_reigns (ha_epochs s) l"
    "l \<in> set (ha_leases s) \<Longrightarrow> ll_status l = ''active'' \<Longrightarrow> ll_nodeId l \<in> leaders (ha_nodes s)"
    "l \<in> set (ha_leases s) \<Longrightarrow> k \<in> set (ha_leases s) \<Longrightarrow> ll_status l = ''active'' \<Longrightarrow> ll_status k = ''active'' \<Longrightarrow> l = k"
  using assms by (simp_all add: ha_ok_def)

section \<open>What the queries find\<close>

lemma first_row_Some: "first_row rows = Some x \<Longrightarrow> x \<in> set rows"
  by (auto simp: first_row_def split: list.splits)

lemma first_row_None [simp]: "first_row rows = None \<longleftrightarrow> rows = []"
  by (simp add: first_row_def split: list.split)

lemma set_newest [simp]: "set (newest f rows) = set rows"
  by (simp add: newest_def)

lemma first_unique:
  assumes "\<And>y. y \<in> set rows \<longleftrightarrow> y = x"
  shows "first_row rows = Some x"
  using assms first_row_Some [of rows] by (cases "first_row rows") fastforce+

lemma newest_epochs:
  assumes "epochs_ok es"
  shows "newest le_epoch es = rev es"
proof -
  have sorted: "sorted_wrt (\<lambda>a b. le_epoch a < le_epoch b) es"
    using assms unfolding epochs_ok_def by (auto intro: sorted_wrt_mono_rel [of es "\<lambda>a b. le_epoch a < le_epoch b \<and> le_fencingToken a < le_fencingToken b"])
  then have "sorted_wrt (<) (map le_epoch es)" by (simp add: sorted_wrt_map)
  then have "distinct (map le_epoch es)" using strict_sorted_iff by blast
  then have "inj_on (\<lambda>e. - le_epoch e) (set es)" by (simp add: distinct_map inj_on_def)
  moreover have "sorted (map (\<lambda>e. - le_epoch e) (rev es))"
    using sorted by (simp add: sorted_map sorted_wrt_rev) (rule sorted_wrt_mono_rel [rotated], assumption, simp)
  ultimately show ?thesis unfolding newest_def by (intro sort_key_inj_key_eq) auto
qed

lemma latest_epoch:
  assumes "epochs_ok (ha_epochs s)"
  shows "le_epoch (getLatestEpoch s) = (case reign (ha_epochs s) of None \<Rightarrow> 0 | Some (e, _) \<Rightarrow> e)"
    and "le_fencingToken (getLatestEpoch s) = (case reign (ha_epochs s) of None \<Rightarrow> 0 | Some (_, k, _) \<Rightarrow> k)"
  using assms by (cases "ha_epochs s" rule: rev_cases; simp add: getLatestEpoch_def newest_epochs reign_def first_row_def)+

lemma latest_token:
  assumes "epochs_ok (ha_epochs s)"
  shows "loadLatestFencingToken s = (case reign (ha_epochs s) of None \<Rightarrow> EPOCH_FENCING_TOKEN_START | Some (_, k, _) \<Rightarrow> k)"
proof -
  have "fold max (map le_fencingToken es) EPOCH_FENCING_TOKEN_START = (if es = [] then EPOCH_FENCING_TOKEN_START else le_fencingToken (last es))"
    if "epochs_ok es" for es using that
  proof (induction es rule: rev_induct)
    case (snoc e es)
    then have "epochs_ok es" "es \<noteq> [] \<Longrightarrow> le_fencingToken (last es) < le_fencingToken e" "EPOCH_FENCING_TOKEN_START < le_fencingToken e"
      by (auto simp: epochs_ok_def sorted_wrt_append)
    with snoc.IH show ?case by (cases "es = []") auto
  qed simp
  then show ?thesis using assms by (simp add: loadLatestFencingToken_def reign_def)
qed

lemma reign_positive: "epochs_ok es \<Longrightarrow> reign es = Some (e, k, l) \<Longrightarrow> 0 < e \<and> EPOCH_FENCING_TOKEN_START < k"
  by (auto simp: epochs_ok_def reign_def split: if_splits)

lemma getNode_iff:
  assumes "distinct (map cn_nodeId (ha_nodes s))"
  shows "getNode i s = Some n \<longleftrightarrow> n \<in> set (ha_nodes s) \<and> cn_nodeId n = i"
proof -
  have "first_row (filter (\<lambda>n. cn_nodeId n = i) ns) = Some n \<longleftrightarrow> n \<in> set ns \<and> cn_nodeId n = i" if "distinct (map cn_nodeId ns)" for ns
    using that by (induction ns) (auto simp: first_row_def)
  then show ?thesis using assms by (simp add: getNode_def)
qed

lemma getNode_None: "getNode i s = None \<longleftrightarrow> i \<notin> cn_nodeId ` set (ha_nodes s)"
  by (auto simp: getNode_def filter_empty_conv)

lemma leader_unique:
  assumes "ha_ok s" "n \<in> set (ha_nodes s)" "cn_isLeader n" "m \<in> set (ha_nodes s)" "cn_isLeader m"
  shows "m = n"
proof -
  have "cn_nodeId m = cn_nodeId n" using ha_okD(4) [OF assms(1,2,3)] ha_okD(4) [OF assms(1,4,5)] by (auto simp: node_reigns_def)
  then show ?thesis using ha_okD(1) [OF assms(1)] assms(2,4) by (auto simp: distinct_map inj_on_def)
qed

lemma current_leader_iff:
  assumes "ha_ok s"
  shows "getCurrentLeader s = Some n \<longleftrightarrow> n \<in> set (ha_nodes s) \<and> cn_isLeader n"
proof
  show "getCurrentLeader s = Some n" if "n \<in> set (ha_nodes s) \<and> cn_isLeader n"
    unfolding getCurrentLeader_def using that leader_unique [OF assms] by (intro first_unique) auto
qed (auto simp: getCurrentLeader_def dest: first_row_Some)

lemma current_leader_None: "getCurrentLeader s = None \<longleftrightarrow> leaders (ha_nodes s) = {}"
  by (auto simp: getCurrentLeader_def leaders_def filter_empty_conv)

lemma leaders_single:
  assumes "ha_ok s" "getCurrentLeader s = Some n"
  shows "leaders (ha_nodes s) = {cn_nodeId n}"
proof -
  have n: "n \<in> set (ha_nodes s)" "cn_isLeader n" using assms by (simp_all add: current_leader_iff)
  then have "{m \<in> set (ha_nodes s). cn_isLeader m} = {n}" using leader_unique [OF assms(1) n] by blast
  then show ?thesis by (simp add: leaders_def)
qed

lemma leaders_of_current: "ha_ok s \<Longrightarrow> leaders (ha_nodes s) = (case getCurrentLeader s of None \<Rightarrow> {} | Some n \<Rightarrow> {cn_nodeId n})"
  using current_leader_None [of s] by (cases "getCurrentLeader s") (simp_all add: leaders_single)

lemma active_lease_iff:
  assumes "ha_ok s"
  shows "getActiveLease now s = Some l \<longleftrightarrow> l \<in> set (ha_leases s) \<and> ll_status l = ''active'' \<and> now < ll_expiresAt l"
    and "getLeaseByNodeId i s = Some l \<longleftrightarrow> l \<in> set (ha_leases s) \<and> ll_status l = ''active'' \<and> ll_nodeId l = i"
proof -
  show "getActiveLease now s = Some l \<longleftrightarrow> l \<in> set (ha_leases s) \<and> ll_status l = ''active'' \<and> now < ll_expiresAt l"
  proof
    show "getActiveLease now s = Some l" if "l \<in> set (ha_leases s) \<and> ll_status l = ''active'' \<and> now < ll_expiresAt l"
      unfolding getActiveLease_def using that ha_okD(8) [OF assms] by (intro first_unique) auto
  qed (auto simp: getActiveLease_def dest!: first_row_Some)
  show "getLeaseByNodeId i s = Some l \<longleftrightarrow> l \<in> set (ha_leases s) \<and> ll_status l = ''active'' \<and> ll_nodeId l = i"
  proof
    show "getLeaseByNodeId i s = Some l" if "l \<in> set (ha_leases s) \<and> ll_status l = ''active'' \<and> ll_nodeId l = i"
      unfolding getLeaseByNodeId_def using that ha_okD(8) [OF assms] by (intro first_unique) auto
  qed (auto simp: getLeaseByNodeId_def dest!: first_row_Some)
qed

section \<open>Every operation keeps the invariant\<close>

lemma update_rows_simps [simp]:
  "y \<in> set (update_rows P f rows) \<longleftrightarrow> (\<exists>x \<in> set rows. P x \<and> y = f x) \<or> (y \<in> set rows \<and> \<not> P y)"
  "(\<And>x. g (f x) = g x) \<Longrightarrow> map g (update_rows P f rows) = map g rows"
  "(\<And>x. g (f x) = g x) \<Longrightarrow> g ` set (update_rows P f rows) = g ` set rows"
proof -
  show "y \<in> set (update_rows P f rows) \<longleftrightarrow> (\<exists>x \<in> set rows. P x \<and> y = f x) \<or> (y \<in> set rows \<and> \<not> P y)" by (auto simp: update_rows_def)
  show eq: "map g (update_rows P f rows) = map g rows" if "\<And>x. g (f x) = g x" using that by (simp add: update_rows_def)
  show "g ` set (update_rows P f rows) = g ` set rows" if "\<And>x. g (f x) = g x" using eq [OF that] by (metis set_map)
qed

lemma update_rows_quantified [simp]:
  "(\<forall>y \<in> set (update_rows P f rows). Q y) \<longleftrightarrow> (\<forall>x \<in> set rows. Q (if P x then f x else x))"
  "(\<exists>y \<in> set (update_rows P f rows). Q y) \<longleftrightarrow> (\<exists>x \<in> set rows. Q (if P x then f x else x))"
  by (auto simp: update_rows_def)

lemma ended_epochs [simp]:
  "reign (update_rows P (\<lambda>e. e\<lparr>le_endedAt := t, le_cause := c\<rparr>) es) = reign es"
  "epochs_ok (update_rows P (\<lambda>e. e\<lparr>le_endedAt := t, le_cause := c\<rparr>) es) = epochs_ok es"
proof -
  show "reign (update_rows P (\<lambda>e. e\<lparr>le_endedAt := t, le_cause := c\<rparr>) es) = reign es"
    by (simp add: reign_def update_rows_def last_map)
  have "sorted_wrt (\<lambda>a b. le_epoch a < le_epoch b \<and> le_fencingToken a < le_fencingToken b) (update_rows P (\<lambda>e. e\<lparr>le_endedAt := t, le_cause := c\<rparr>) es)
      = sorted_wrt (\<lambda>a b. le_epoch a < le_epoch b \<and> le_fencingToken a < le_fencingToken b) es"
    by (simp add: update_rows_def sorted_wrt_map if_distrib [of le_epoch] if_distrib [of le_fencingToken] cong: if_cong)
  then show "epochs_ok (update_rows P (\<lambda>e. e\<lparr>le_endedAt := t, le_cause := c\<rparr>) es) = epochs_ok es"
    by (simp add: epochs_ok_def if_distrib [of le_epoch] if_distrib [of le_fencingToken] cong: if_cong)
qed

text \<open>Tables with fewer leaders and fewer active leases in the same epoch are as good.\<close>

lemma ha_ok_fewer:
  assumes ok: "ha_ok s" and nodes: "distinct (map cn_nodeId (ha_nodes s'))"
    and flags: "\<And>n. n \<in> set (ha_nodes s') \<Longrightarrow> cn_isLeader n \<Longrightarrow>
      \<exists>m \<in> set (ha_nodes s). cn_isLeader m \<and> cn_nodeId m = cn_nodeId n \<and> cn_leadershipEpoch m = cn_leadershipEpoch n"
    and leases: "distinct (map ll_leaseId (ha_leases s'))" "\<And>l. l \<in> set (ha_leases s') \<Longrightarrow> ll_nodeId l \<in> cn_nodeId ` set (ha_nodes s')"
    and active: "\<And>l. l \<in> set (ha_leases s') \<Longrightarrow> ll_status l = ''active'' \<Longrightarrow> ll_nodeId l \<in> leaders (ha_nodes s')
      \<and> (\<exists>k \<in> set (ha_leases s). ll_status k = ''active'' \<and> ll_leaseId k = ll_leaseId l \<and> ll_nodeId k = ll_nodeId l \<and> ll_epoch k = ll_epoch l
           \<and> ll_fencingToken k = ll_fencingToken l)"
    and epochs: "epochs_ok (ha_epochs s')" "reign (ha_epochs s') = reign (ha_epochs s)"
  shows "ha_ok s'"
proof -
  have "node_reigns (ha_epochs s') n" if n: "n \<in> set (ha_nodes s')" "cn_isLeader n" for n
    using flags [OF n] ha_okD(4) [OF ok] epochs(2) by (metis node_reigns_def)
  moreover have "lease_reigns (ha_epochs s') l" if l: "l \<in> set (ha_leases s')" "ll_status l = ''active''" for l
    using active [OF l] ha_okD(6) [OF ok] epochs(2) by (fastforce simp: lease_reigns_def)
  moreover have "l = k" if l: "l \<in> set (ha_leases s')" "ll_status l = ''active''" and k: "k \<in> set (ha_leases s')" "ll_status k = ''active''" for l k
  proof -
    have "ll_leaseId l = ll_leaseId k" using active [OF l] active [OF k] ha_okD(8) [OF ok] by metis
    then show ?thesis using leases(1) l(1) k(1) by (auto simp: distinct_map inj_on_def)
  qed
  ultimately show ?thesis using nodes leases active epochs(1) by (auto simp: ha_ok_def)
qed

lemma end_epochs_ok: "ha_ok s \<Longrightarrow> ha_ok (end_epochs P now cause s)"
  by (rule ha_ok_fewer [where s = s]) (auto simp: end_epochs_def ha_okD)

lemma leaders_iff: "i \<in> leaders ns \<longleftrightarrow> (\<exists>n \<in> set ns. cn_isLeader n \<and> cn_nodeId n = i)"
  by (auto simp: leaders_def)

lemma leaders_update:
  "leaders (update_rows (\<lambda>n. cn_nodeId n = i) (\<lambda>n. n\<lparr>cn_isLeader := False\<rparr>) ns) = leaders ns - {i}"
  "leaders (update_rows (\<lambda>n. cn_nodeId n = i) (\<lambda>n. n\<lparr>cn_isLeader := False, cn_status := st\<rparr>) ns) = leaders ns - {i}"
  "leaders (update_rows (\<lambda>n. cn_nodeId n = i) (\<lambda>n. n\<lparr>cn_lastHeartbeatAt := t, cn_status := g n\<rparr>) ns) = leaders ns"
  "leaders (update_rows (\<lambda>n. cn_nodeId n = i) (\<lambda>n. n\<lparr>cn_isLeader := True, cn_leadershipEpoch := e\<rparr>) ns)
     = leaders ns \<union> (if i \<in> cn_nodeId ` set ns then {i} else {})"
proof -
  have upd: "j \<in> leaders (update_rows (\<lambda>n. cn_nodeId n = i) f ns) \<longleftrightarrow> (\<exists>n \<in> set ns. cn_nodeId n = j \<and> cn_isLeader (if j = i then f n else n))"
    if "\<And>n. cn_nodeId (f n) = cn_nodeId n" for f j unfolding leaders_iff update_rows_quantified using that by (intro bex_cong) auto
  show "leaders (update_rows (\<lambda>n. cn_nodeId n = i) (\<lambda>n. n\<lparr>cn_isLeader := False\<rparr>) ns) = leaders ns - {i}"
    "leaders (update_rows (\<lambda>n. cn_nodeId n = i) (\<lambda>n. n\<lparr>cn_isLeader := False, cn_status := st\<rparr>) ns) = leaders ns - {i}"
    "leaders (update_rows (\<lambda>n. cn_nodeId n = i) (\<lambda>n. n\<lparr>cn_lastHeartbeatAt := t, cn_status := g n\<rparr>) ns) = leaders ns"
    "leaders (update_rows (\<lambda>n. cn_nodeId n = i) (\<lambda>n. n\<lparr>cn_isLeader := True, cn_leadershipEpoch := e\<rparr>) ns)
       = leaders ns \<union> (if i \<in> cn_nodeId ` set ns then {i} else {})"
    by (auto simp: upd leaders_iff split: if_splits) metis
qed

lemma surrender_ok:
  assumes ok: "ha_ok s" and "status \<noteq> ''active''"
  shows "ha_ok (close_leases i status (demote i s))"
  using assms(2) by (intro ha_ok_fewer [OF ok])
    (auto simp: close_leases_def demote_def leaders_update ha_okD [OF ok] split: if_splits)


lemma registerNode_ok:
  assumes ok: "ha_ok s"
  shows "ha_ok (snd (registerNode now i region metadata s))"
proof -
  have leader: "(i \<in> leaders (ha_nodes s)) = coalesce (map_option cn_isLeader (getNode i s)) False"
  proof (cases "getNode i s")
    case None
    then show ?thesis using getNode_None [of i s] by (auto simp: leaders_iff)
  next
    case (Some n)
    moreover from this have "n \<in> set (ha_nodes s)" "cn_nodeId n = i" using getNode_iff [OF ha_okD(1) [OF ok], of i n] by simp_all
    moreover from this have "m = n" if "m \<in> set (ha_nodes s)" "cn_nodeId m = i" for m
      using that ha_okD(1) [OF ok] by (auto simp: distinct_map inj_on_def)
    ultimately have "i \<in> leaders (ha_nodes s) \<longleftrightarrow> cn_isLeader n" unfolding leaders_iff by blast
    then show ?thesis using Some by simp
  qed
  have known: "n \<in> set (ha_nodes s)" "cn_nodeId n = i" if "getNode i s = Some n" for n
    using that getNode_iff [OF ha_okD(1) [OF ok], of i] by auto
  have ids: "distinct (map cn_nodeId (ha_nodes s))" "distinct (map ll_leaseId (ha_leases s))" "epochs_ok (ha_epochs s)" using ok by (simp_all add: ha_okD)
  show ?thesis
  proof (rule ha_ok_fewer [OF ok])
    show "distinct (map cn_nodeId (ha_nodes (snd (registerNode now i region metadata s))))"
      using ids(1) by (auto simp: registerNode_def Let_def distinct_map_filter)
    show "\<exists>m \<in> set (ha_nodes s). cn_isLeader m \<and> cn_nodeId m = cn_nodeId n \<and> cn_leadershipEpoch m = cn_leadershipEpoch n"
      if "n \<in> set (ha_nodes (snd (registerNode now i region metadata s)))" "cn_isLeader n" for n
      using that known by (cases "getNode i s") (auto simp: registerNode_def Let_def)
    show "ll_nodeId l \<in> cn_nodeId ` set (ha_nodes (snd (registerNode now i region metadata s)))"
      if "l \<in> set (ha_leases (snd (registerNode now i region metadata s)))" for l
      using ha_okD(5) [OF ok, of l] that by (auto simp: registerNode_def Let_def)
    show "ll_nodeId l \<in> leaders (ha_nodes (snd (registerNode now i region metadata s)))
      \<and> (\<exists>k \<in> set (ha_leases s). ll_status k = ''active'' \<and> ll_leaseId k = ll_leaseId l \<and> ll_nodeId k = ll_nodeId l \<and> ll_epoch k = ll_epoch l
           \<and> ll_fencingToken k = ll_fencingToken l)"
      if "l \<in> set (ha_leases (snd (registerNode now i region metadata s)))" "ll_status l = ''active''" for l
      using ha_okD(7) [OF ok, of l] that leader by (cases "ll_nodeId l = i") (auto simp: registerNode_def Let_def leaders_iff)
  qed (use ids in \<open>simp_all add: registerNode_def Let_def\<close>)
qed

lemma node_heartbeat_ok:
  assumes ok: "ha_ok s"
  shows "ha_ok (snd (updateNodeHeartbeat now i status s))"
  by (rule ha_ok_fewer [OF ok]) (auto simp: updateNodeHeartbeat_def Let_def leaders_update ha_okD [OF ok])

lemma removeNode_ok:
  assumes ok: "ha_ok s"
  shows "ha_ok (snd (removeNode now i s))"
proof (cases "getNode i s")
  case (Some node)
  define s1 where "s1 = (if cn_isLeader node
      then end_epochs (\<lambda>e. le_leaderNodeId e = Some i) now ''removed'' (close_leases i ''expired''
        (s\<lparr>ha_nodes := update_rows (\<lambda>n. cn_nodeId n = i) (\<lambda>n. n\<lparr>cn_isLeader := False, cn_status := ''offline''\<rparr>) (ha_nodes s)\<rparr>)) else s)"
  have "ha_ok (close_leases i ''expired''
        (s\<lparr>ha_nodes := update_rows (\<lambda>n. cn_nodeId n = i) (\<lambda>n. n\<lparr>cn_isLeader := False, cn_status := ''offline''\<rparr>) (ha_nodes s)\<rparr>))"
    by (intro ha_ok_fewer [OF ok]) (auto simp: close_leases_def leaders_update ha_okD [OF ok] split: if_splits)
  then have s1: "ha_ok s1" using ok by (simp add: s1_def end_epochs_ok)
  let ?s2 = "s1\<lparr>ha_leases := filter (\<lambda>l. ll_nodeId l \<noteq> i) (ha_leases s1), ha_nodes := filter (\<lambda>n. cn_nodeId n \<noteq> i) (ha_nodes s1)\<rparr>"
  have "ha_ok ?s2"
  proof (rule ha_ok_fewer [OF s1])
    have ids: "cn_nodeId ` set (ha_nodes ?s2) = cn_nodeId ` set (ha_nodes s1) - {i}" "leaders (ha_nodes ?s2) = leaders (ha_nodes s1) - {i}"
      by (auto simp: leaders_def)
    show "ll_nodeId l \<in> cn_nodeId ` set (ha_nodes ?s2)" if "l \<in> set (ha_leases ?s2)" for l
      unfolding ids using that ha_okD(5) [OF s1, of l] by simp
    show "ll_nodeId l \<in> leaders (ha_nodes ?s2)
      \<and> (\<exists>k \<in> set (ha_leases s1). ll_status k = ''active'' \<and> ll_leaseId k = ll_leaseId l \<and> ll_nodeId k = ll_nodeId l \<and> ll_epoch k = ll_epoch l
           \<and> ll_fencingToken k = ll_fencingToken l)"
      if "l \<in> set (ha_leases ?s2)" "ll_status l = ''active''" for l
      unfolding ids using that ha_okD(7) [OF s1, of l] by auto
  qed (auto simp: ha_okD [OF s1] distinct_map_filter)
  then show ?thesis using Some by (simp add: removeNode_def s1_def Let_def)
qed (simp add: removeNode_def ok)

lemma releaseLeadership_ok:
  assumes ok: "ha_ok s"
  shows "ha_ok (snd (ha_releaseLeadership now i s))"
proof -
  have "demote i (close_leases i ''released'' s) = close_leases i ''released'' (demote i s)" by (simp add: demote_def close_leases_def)
  then show ?thesis using surrender_ok [OF ok, of "''released''" i] ok
    by (auto simp: ha_releaseLeadership_def Let_def end_epochs_ok split: option.split)
qed

lemma renew_ok:
  assumes ok: "ha_ok s"
  shows "ha_ok (snd (ha_renewLeadership opts now i ttlMs s))"
proof -
  have "ha_ok (s\<lparr>ha_leases := update_rows P (\<lambda>k. k\<lparr>ll_expiresAt := e, ll_ttlMs := d\<rparr>) (ha_leases s)\<rparr>)" for P e d
    by (rule ha_ok_fewer [OF ok]) (auto simp: ha_okD [OF ok])
  then show ?thesis using ok by (auto simp: ha_renewLeadership_def ha_transaction_def Let_def node_heartbeat_ok split: option.split)
qed

lemma purge_ok:
  assumes ok: "ha_ok s"
  shows "ha_ok (snd (purgeExpiredLeases now s))" "ha_ok (snd (purgeOldFailoverDecisions now days s))"
  by (rule ha_ok_fewer [OF ok]; auto simp: purgeExpiredLeases_def purgeOldFailoverDecisions_def Let_def ha_okD [OF ok])+

lemma authorize_ok: "ha_ok s \<Longrightarrow> ha_ok (snd (authorizeAction opts now later at auditId i a r s))"
  by (auto simp: authorizeAction_def Let_def ha_ok_def split: option.split)


section \<open>Taking over\<close>

text \<open>No node has the flag and no lease is active.\<close>

definition vacant :: "ha_tables \<Rightarrow> bool" where
  "vacant s \<longleftrightarrow> leaders (ha_nodes s) = {} \<and> (\<forall>l \<in> set (ha_leases s). ll_status l \<noteq> ''active'')"

definition vacate :: "coordinator_node option \<Rightarrow> ha_tables \<Rightarrow> ha_tables" where
  "vacate leader = (case leader of None \<Rightarrow> id | Some l \<Rightarrow> (\<lambda>s. close_leases (cn_nodeId l) ''expired'' (demote (cn_nodeId l) s)))"

definition crown :: "timestamp \<Rightarrow> leader_lease \<Rightarrow> bool \<Rightarrow> ha_tables \<Rightarrow> ha_tables" where
  "crown now lease force s =
     s\<lparr>ha_leases := ha_leases s @ [lease],
       ha_nodes := update_rows (\<lambda>n. cn_nodeId n = ll_nodeId lease) (\<lambda>n. n\<lparr>cn_isLeader := True, cn_leadershipEpoch := ll_epoch lease\<rparr>) (ha_nodes s),
       ha_epochs := ha_epochs s @ [\<lparr>le_epoch = ll_epoch lease, le_leaderNodeId = Some (ll_nodeId lease), le_startedAt = now, le_endedAt = None,
         le_cause = (if force then ''preempted'' else ''acquired''), le_fencingToken = ll_fencingToken lease\<rparr>]\<rparr>"

lemma vacate_facts:
  assumes ok: "ha_ok s" and leader: "leaders (ha_nodes s) \<subseteq> set_option (map_option cn_nodeId leader)"
  shows "ha_ok (vacate leader s)" "vacant (vacate leader s)" "ha_epochs (vacate leader s) = ha_epochs s" "ha_decisions (vacate leader s) = ha_decisions s"
    "cn_nodeId ` set (ha_nodes (vacate leader s)) = cn_nodeId ` set (ha_nodes s)" "ll_leaseId ` set (ha_leases (vacate leader s)) = ll_leaseId ` set (ha_leases s)"
proof -
  show "ha_ok (vacate leader s)" using ok by (cases leader) (simp_all add: vacate_def surrender_ok)
  show "vacant (vacate leader s)"
  proof (cases leader)
    case None
    then show ?thesis using leader ha_okD(7) [OF ok] by (auto simp: vacate_def vacant_def)
  next
    case (Some n)
    then show ?thesis using leader ha_okD(7) [OF ok] by (auto simp: vacate_def vacant_def close_leases_def demote_def leaders_update)
  qed
qed (cases leader; simp add: vacate_def close_leases_def demote_def)+

lemma crown_ok:
  assumes ok: "ha_ok s" and vacant: "vacant s" and node: "ll_nodeId lease \<in> cn_nodeId ` set (ha_nodes s)"
    and fresh: "ll_leaseId lease \<notin> ll_leaseId ` set (ha_leases s)" and active: "ll_status lease = ''active''"
    and epoch: "ll_epoch lease = le_epoch (getLatestEpoch s) + 1" and token: "ll_fencingToken lease = allocateNextFencingToken s"
  shows "ha_ok (crown now lease force s)" and "reign (ha_epochs (crown now lease force s)) = Some (ll_epoch lease, ll_fencingToken lease, Some (ll_nodeId lease))"
    and "leaders (ha_nodes (crown now lease force s)) = {ll_nodeId lease}"
proof -
  let ?s = "crown now lease force s"
  have es: "epochs_ok (ha_epochs s)" using ok by (simp add: ha_okD)
  show reign: "reign (ha_epochs ?s) = Some (ll_epoch lease, ll_fencingToken lease, Some (ll_nodeId lease))" by (simp add: reign_def crown_def)
  show leaders: "leaders (ha_nodes ?s) = {ll_nodeId lease}"
    using vacant node by (auto simp: crown_def leaders_update vacant_def)
  have none: "\<not> cn_isLeader n" if "n \<in> set (ha_nodes s)" for n using vacant that by (auto simp: vacant_def leaders_def)
  have above: "le_epoch e < ll_epoch lease \<and> le_fencingToken e < ll_fencingToken lease" if e: "e \<in> set (ha_epochs s)" for e
  proof -
    obtain es' l where es': "ha_epochs s = es' @ [l]" using e by (cases "ha_epochs s" rule: rev_cases) auto
    then have "le_epoch e \<le> le_epoch l \<and> le_fencingToken e \<le> le_fencingToken l" using es that by (auto simp: epochs_ok_def sorted_wrt_append)
    then show ?thesis using es' epoch token es by (simp add: latest_epoch latest_token allocateNextFencingToken_def reign_def)
  qed
  moreover have "0 < ll_epoch lease \<and> EPOCH_FENCING_TOKEN_START < ll_fencingToken lease"
    using reign_positive [OF es] es by (cases "reign (ha_epochs s)") (fastforce simp: epoch token latest_epoch latest_token allocateNextFencingToken_def)+
  ultimately have "epochs_ok (ha_epochs ?s)" using es by (auto simp: epochs_ok_def crown_def sorted_wrt_append)
  moreover have "node_reigns (ha_epochs ?s) n" if n: "n \<in> set (ha_nodes ?s)" "cn_isLeader n" for n
  proof -
    have "cn_nodeId n = ll_nodeId lease \<and> cn_leadershipEpoch n = ll_epoch lease" using n none by (auto simp: crown_def)
    then show ?thesis by (simp add: node_reigns_def reign)
  qed
  ultimately show "ha_ok ?s" using ok vacant fresh active node leaders reign
    by (auto simp: ha_ok_def lease_reigns_def crown_def vacant_def)
qed

definition new_leader_lease :: "timestamp \<Rightarrow> ident \<Rightarrow> ident \<Rightarrow> int \<Rightarrow> ha_tables \<Rightarrow> leader_lease" where
  "new_leader_lease now leaseId nodeId ttl s =
     \<lparr>ll_leaseId = leaseId, ll_nodeId = nodeId, ll_epoch = le_epoch (getLatestEpoch s) + 1, ll_acquiredAt = now, ll_expiresAt = now + ttl,
      ll_status = ''active'', ll_ttlMs = ttl, ll_fencingToken = allocateNextFencingToken s\<rparr>"

definition granted_to :: "leader_lease \<Rightarrow> acquisition" where
  "granted_to lease = \<lparr>aq_acquired = True, aq_lease = Some lease, aq_epoch = ll_epoch lease, aq_fencingToken = ll_fencingToken lease, aq_cause = None\<rparr>"

text \<open>The node of the lease leads alone in a new epoch.\<close>

definition seized :: "leader_lease \<Rightarrow> ha_tables \<Rightarrow> bool" where
  "seized lease s \<longleftrightarrow> ha_ok s \<and> reign (ha_epochs s) = Some (ll_epoch lease, ll_fencingToken lease, Some (ll_nodeId lease))
     \<and> leaders (ha_nodes s) = {ll_nodeId lease} \<and> lease \<in> set (ha_leases s)"

lemma ha_ok_decisions [simp]: "ha_ok (s\<lparr>ha_decisions := ds\<rparr>) = ha_ok s"
  by (simp add: ha_ok_def)

lemma bindP_modify: "bindP (modifyP f) g s = g () (f s)"
  by (simp add: prog_simps)

lemma take_over_cases:
  assumes ok: "ha_ok s" and leader: "leaders (ha_nodes s) \<subseteq> set_option (map_option cn_nodeId leader)" and node: "i \<in> cn_nodeId ` set (ha_nodes s)"
  obtains (refused) e s' where "take_over now leaseId decisionId i ttl force (le_epoch (getLatestEpoch s)) leader s = (Inl e, s')"
      "leaseId \<in> ll_leaseId ` set (ha_leases s) \<or> decisionId \<in> fd_decisionId ` set (ha_decisions s)"
    | (taken) s' where "take_over now leaseId decisionId i ttl force (le_epoch (getLatestEpoch s)) leader s = (Inr (granted_to (new_leader_lease now leaseId i ttl s)), s')"
      "seized (new_leader_lease now leaseId i ttl s) s'" "leaseId \<notin> ll_leaseId ` set (ha_leases s)"
proof -
  let ?l = "new_leader_lease now leaseId i ttl s" and ?v = "vacate leader s"
  note v = vacate_facts [OF ok leader]
  have same: "getLatestEpoch ?v = getLatestEpoch s" "allocateNextFencingToken ?v = allocateNextFencingToken s"
    by (simp_all add: getLatestEpoch_def allocateNextFencingToken_def loadLatestFencingToken_def v(3))
  have ids: "ll_nodeId ?l = i" "ll_leaseId ?l = leaseId" "ll_status ?l = ''active''" "ll_epoch ?l = le_epoch (getLatestEpoch s) + 1"
    "ll_fencingToken ?l = allocateNextFencingToken s" by (simp_all add: new_leader_lease_def)
  have none: "\<not> list_ex (\<lambda>k. ll_status k = ''active'') (ha_leases ?v)" using v(2) by (auto simp: vacant_def list_ex_iff)
  have new: "le_epoch (getLatestEpoch s) + 1 \<notin> le_epoch ` set (ha_epochs s)"
    if "leaseId \<notin> ll_leaseId ` set (ha_leases s)"
  proof -
    have "epochs_ok (ha_epochs (crown now ?l force ?v))" using crown_ok(1) [OF v(1,2), of ?l now force] that node ids same v by (simp add: ha_okD)
    then show ?thesis by (auto simp: epochs_ok_def crown_def sorted_wrt_append v(3) ids)
  qed
  have eval: "take_over now leaseId decisionId i ttl force (le_epoch (getLatestEpoch s)) leader s =
     (if leaseId \<in> ll_leaseId ` set (ha_leases s) then (Inl (Constraint_failed ''leadership_leases.lease_id''), ?v)
      else let s3 = crown now ?l force ?v in
        case leader of
          None \<Rightarrow> (Inr (granted_to ?l), s3)
        | Some l \<Rightarrow> if cn_nodeId l = i then (Inr (granted_to ?l), s3)
            else if decisionId \<in> fd_decisionId ` set (ha_decisions s) then (Inl (Constraint_failed ''failover_decisions.decision_id''), s3)
            else (Inr (granted_to ?l), s3\<lparr>ha_decisions := ha_decisions s @ [\<lparr>fd_decisionId = decisionId, fd_oldLeaderNodeId = Some (cn_nodeId l),
              fd_newLeaderNodeId = Some i, fd_epoch = ll_epoch ?l, fd_cause = (if force then ''epoch_preempted'' else ''voluntary''),
              fd_outcome = ''leader_changed'', fd_decidedAt = now, fd_fencingToken = ll_fencingToken ?l\<rparr>]\<rparr>))"
  proof -
    have "take_over now leaseId decisionId i ttl force (le_epoch (getLatestEpoch s)) leader s =
       bindP (insert_lease ?l) (\<lambda>_.
       bindP (modifyP (\<lambda>s. s\<lparr>ha_nodes := update_rows (\<lambda>n. cn_nodeId n = i) (\<lambda>n. n\<lparr>cn_isLeader := True, cn_leadershipEpoch := ll_epoch ?l\<rparr>) (ha_nodes s)\<rparr>)) (\<lambda>_.
       bindP (insert_epoch \<lparr>le_epoch = ll_epoch ?l, le_leaderNodeId = Some i, le_startedAt = now, le_endedAt = None,
          le_cause = (if force then ''preempted'' else ''acquired''), le_fencingToken = ll_fencingToken ?l\<rparr>) (\<lambda>_.
       bindP (case leader of
            None \<Rightarrow> returnP ()
          | Some l \<Rightarrow> if cn_nodeId l = i then returnP ()
              else insert_decision \<lparr>fd_decisionId = decisionId, fd_oldLeaderNodeId = Some (cn_nodeId l), fd_newLeaderNodeId = Some i, fd_epoch = ll_epoch ?l,
                fd_cause = (if force then ''epoch_preempted'' else ''voluntary''), fd_outcome = ''leader_changed'', fd_decidedAt = now,
                fd_fencingToken = ll_fencingToken ?l\<rparr>) (\<lambda>_.
       returnP (granted_to ?l))))) ?v"
      by (simp add: take_over_def vacate_def granted_to_def new_leader_lease_def bindP_gets bindP_modify Let_def split del: if_split cong: option.case_cong if_cong)
    moreover have "insert_lease ?l ?v = (if leaseId \<in> ll_leaseId ` set (ha_leases s) then (Inl (Constraint_failed ''leadership_leases.lease_id''), ?v)
        else (Inr (), ?v\<lparr>ha_leases := ha_leases ?v @ [?l]\<rparr>))" using none node by (simp add: insert_lease_def ids v(5,6))
    ultimately show ?thesis using new v(3,4)
      by (cases leader) (simp_all add: prog_simps insert_epoch_def insert_decision_def crown_def ids Let_def)
  qed
  show ?thesis
  proof (cases "leaseId \<in> ll_leaseId ` set (ha_leases s)")
    case True
    then show ?thesis using eval by (intro refused) auto
  next
    case False
    then have seized: "seized ?l ((crown now ?l force ?v)\<lparr>ha_decisions := ds\<rparr>)" for ds
      using crown_ok [OF v(1,2), of ?l now force] node ids same v by (auto simp: seized_def crown_def)
    then have "seized ?l (crown now ?l force ?v)" using seized [of "ha_decisions (crown now ?l force ?v)"] by simp
    with False seized eval refused taken show ?thesis by (cases leader) (auto simp: Let_def split: if_splits)
  qed
qed

lemma retire_facts:
  fixes now :: timestamp
  assumes ok: "ha_ok s" and leader: "getCurrentLeader s = Some n"
  defines "r \<equiv> retire now n (getLeaseByNodeId (cn_nodeId n) s) s"
  shows "ha_ok r" "leaders (ha_nodes r) \<subseteq> set_option (map_option cn_nodeId (Some n))" "cn_nodeId ` set (ha_nodes r) = cn_nodeId ` set (ha_nodes s)"
    "ll_leaseId ` set (ha_leases r) = ll_leaseId ` set (ha_leases s)" "ha_decisions r = ha_decisions s" "reign (ha_epochs r) = reign (ha_epochs s)"
proof -
  have mine: "ll_nodeId l = cn_nodeId n" if "l \<in> set (ha_leases s)" "ll_status l = ''active''" for l
    using ha_okD(7) [OF ok that] leaders_single [OF ok leader] by simp
  have "ha_ok ((case getLeaseByNodeId (cn_nodeId n) s of
           None \<Rightarrow> id
         | Some l \<Rightarrow> (\<lambda>s. s\<lparr>ha_leases := update_rows (\<lambda>k. ll_leaseId k = ll_leaseId l) (\<lambda>k. k\<lparr>ll_status := ''expired''\<rparr>) (ha_leases s)\<rparr>))
        (demote (cn_nodeId n) s))"
  proof (cases "getLeaseByNodeId (cn_nodeId n) s")
    case None
    then have "\<And>l. l \<in> set (ha_leases s) \<Longrightarrow> ll_status l \<noteq> ''active''" using active_lease_iff(2) [OF ok, of "cn_nodeId n"] mine by auto
    then show ?thesis using None by (intro ha_ok_fewer [OF ok]) (auto simp: demote_def leaders_update ha_okD [OF ok])
  next
    case (Some l)
    then have l: "l \<in> set (ha_leases s)" "ll_status l = ''active''" by (simp_all add: active_lease_iff(2) [OF ok])
    then have "ll_leaseId k = ll_leaseId l" if "k \<in> set (ha_leases s)" "ll_status k = ''active''" for k using ha_okD(8) [OF ok that(1) l(1)] that(2) by simp
    then show ?thesis using Some by (intro ha_ok_fewer [OF ok]) (auto simp: demote_def leaders_update ha_okD [OF ok])
  qed
  then show "ha_ok r" by (simp add: r_def retire_def end_epochs_ok)
  show "leaders (ha_nodes r) \<subseteq> set_option (map_option cn_nodeId (Some n))"
    using leaders_single [OF ok leader] by (auto simp: r_def retire_def end_epochs_def demote_def leaders_update split: option.split)
qed (simp_all add: r_def retire_def end_epochs_def demote_def split: option.split)

text \<open>Whether a request has to wait for the lease of another node.\<close>

definition held_by_another :: "timestamp \<Rightarrow> ident \<Rightarrow> ha_tables \<Rightarrow> bool" where
  "held_by_another now i s \<longleftrightarrow> (\<exists>n \<in> set (ha_nodes s). cn_isLeader n \<and> cn_status n = ''active'' \<and> cn_nodeId n \<noteq> i
     \<and> (\<exists>l \<in> set (ha_leases s). ll_status l = ''active'' \<and> ll_nodeId l = cn_nodeId n \<and> now < ll_expiresAt l))"

lemma held_iff:
  assumes ok: "ha_ok s" and leader: "getCurrentLeader s = Some n"
  shows "held_by_another now i s \<longleftrightarrow> cn_status n = ''active'' \<and> (case getLeaseByNodeId (cn_nodeId n) s of None \<Rightarrow> False
      | Some l \<Rightarrow> ll_nodeId l \<noteq> i \<and> \<not> ll_expiresAt l \<le> now)"
proof -
  have n: "n \<in> set (ha_nodes s)" "cn_isLeader n" using leader by (simp_all add: current_leader_iff [OF ok])
  have "held_by_another now i s \<longleftrightarrow> cn_status n = ''active'' \<and> (\<exists>l. getLeaseByNodeId (cn_nodeId n) s = Some l \<and> ll_nodeId l \<noteq> i \<and> now < ll_expiresAt l)"
    unfolding held_by_another_def active_lease_iff(2) [OF ok] using n leader_unique [OF ok n] by metis
  then show ?thesis by (cases "getLeaseByNodeId (cn_nodeId n) s") (auto simp: not_le)
qed

text \<open>The tables on which a request is granted: as they are, or after a leader that is not active has been retired.\<close>

definition cleared :: "timestamp \<Rightarrow> bool \<Rightarrow> ha_tables \<Rightarrow> ha_tables" where
  "cleared now force s =
     (case getCurrentLeader s of
        Some n \<Rightarrow> if \<not> force \<and> cn_status n \<noteq> ''active'' then retire now n (getLeaseByNodeId (cn_nodeId n) s) s else s
      | None \<Rightarrow> s)"

lemma cleared_facts:
  assumes ok: "ha_ok s"
  shows "ha_ok (cleared now force s)" "leaders (ha_nodes (cleared now force s)) \<subseteq> set_option (map_option cn_nodeId (getCurrentLeader s))"
    "cn_nodeId ` set (ha_nodes (cleared now force s)) = cn_nodeId ` set (ha_nodes s)" "ll_leaseId ` set (ha_leases (cleared now force s)) = ll_leaseId ` set (ha_leases s)"
    "ha_decisions (cleared now force s) = ha_decisions s" "reign (ha_epochs (cleared now force s)) = reign (ha_epochs s)"
  using leaders_of_current [OF ok] retire_facts [OF ok, of _ now] ok by (cases "getCurrentLeader s"; auto simp: cleared_def)+

lemma acquire_eq:
  assumes ok: "ha_ok s" and node: "getNode (ai_nodeId i) s \<noteq> None"
  defines "force \<equiv> coalesce (ai_forceAcquire i) False"
  shows "ha_acquireLeadership opts now leaseId decisionId i s =
    (if \<not> force \<and> held_by_another now (ai_nodeId i) s
     then (Inr \<lparr>aq_acquired = False, aq_lease = None, aq_epoch = le_epoch (getLatestEpoch s), aq_fencingToken = le_fencingToken (getLatestEpoch s),
             aq_cause = Some ''leadership_held_by_another_node''\<rparr>, s)
     else ha_transaction (\<lambda>_. take_over now leaseId decisionId (ai_nodeId i) (effective_ttl opts (ai_ttlMs i)) force (le_epoch (getLatestEpoch s))
            (getCurrentLeader s) (cleared now force s)) s)"
proof (cases "getCurrentLeader s")
  case None
  then have "\<not> held_by_another now (ai_nodeId i) s" using current_leader_None [of s] by (auto simp: held_by_another_def leaders_def)
  then show ?thesis using None node by (auto simp: ha_acquireLeadership_def ha_transaction_def Let_def cleared_def force_def)
next
  case (Some n)
  then show ?thesis using node held_iff [OF ok Some, of now "ai_nodeId i"]
    by (auto simp: ha_acquireLeadership_def ha_transaction_def Let_def cleared_def force_def)
qed

lemma leadership_cases:
  assumes ok: "ha_ok s"
  obtains (failed) e where "ha_acquireLeadership opts now leaseId decisionId i s = (Inl e, s)"
      "getNode (ai_nodeId i) s = None \<or> leaseId \<in> ll_leaseId ` set (ha_leases s) \<or> decisionId \<in> fd_decisionId ` set (ha_decisions s)"
    | (held) r where "ha_acquireLeadership opts now leaseId decisionId i s = (Inr r, s)" "\<not> aq_acquired r" "held_by_another now (ai_nodeId i) s"
      "\<not> coalesce (ai_forceAcquire i) False"
    | (taken) s' where "ha_acquireLeadership opts now leaseId decisionId i s
          = (Inr (granted_to (new_leader_lease now leaseId (ai_nodeId i) (effective_ttl opts (ai_ttlMs i)) s)), s')"
        "seized (new_leader_lease now leaseId (ai_nodeId i) (effective_ttl opts (ai_ttlMs i)) s) s'" "coalesce (ai_forceAcquire i) False \<or> \<not> held_by_another now (ai_nodeId i) s"
proof -
  let ?i = "ai_nodeId i" and ?ttl = "effective_ttl opts (ai_ttlMs i)" and ?force = "coalesce (ai_forceAcquire i) False"
  let ?s1 = "cleared now ?force s"
  note s1 = cleared_facts [OF ok, of now ?force]
  show thesis
  proof (cases "getNode ?i s = None")
    case True
    then show thesis by (intro failed [of "Node_not_found ?i"]) (simp_all add: ha_acquireLeadership_def ha_transaction_def Let_def)
  next
    case False
    note eq = acquire_eq [OF ok False, of opts now leaseId decisionId]
    show thesis
    proof (cases "\<not> ?force \<and> held_by_another now ?i s")
      case True
      then show thesis using eq held by simp
    next
      case free: False
      have es: "epochs_ok (ha_epochs ?s1)" "epochs_ok (ha_epochs s)" using s1(1) ok by (simp_all add: ha_okD)
      have same: "le_epoch (getLatestEpoch ?s1) = le_epoch (getLatestEpoch s)" "new_leader_lease now leaseId ?i ?ttl ?s1 = new_leader_lease now leaseId ?i ?ttl s"
        using es by (simp_all add: latest_epoch latest_token allocateNextFencingToken_def new_leader_lease_def s1(6))
      have "?i \<in> cn_nodeId ` set (ha_nodes ?s1)" using False by (simp add: s1(3) getNode_None)
      with s1(1,2) show thesis
      proof (cases rule: take_over_cases [where now = now and leaseId = leaseId and decisionId = decisionId and ttl = ?ttl and force = ?force])
        case (refused e s')
        then show thesis using eq free s1(4,5) same by (intro failed [of e]) (auto simp: ha_transaction_def)
      next
        case (taken s')
        then show thesis using eq free same by (intro that(3) [of s']) (auto simp: ha_transaction_def)
      qed
    qed
  qed
qed

lemma failover_cases:
  assumes ok: "ha_ok s"
  obtains (kept) "snd (triggerFailover opts cmp now later leaseId innerId decisionId cause forced s) = s"
    | (changed) i d s' where "triggerFailover opts cmp now later leaseId innerId decisionId cause forced s = (Inr d, s')"
        "choose_leader cmp forced s = Some i" "seized (new_leader_lease later leaseId i (effective_ttl opts None) s) s'"
proof -
  let ?v = "vacate (getCurrentLeader s) s"
  have v: "ha_ok ?v" "ha_epochs ?v = ha_epochs s" using vacate_facts [OF ok, of "getCurrentLeader s"] leaders_of_current [OF ok]
    by (auto split: option.splits)
  have lease: "new_leader_lease t a i ttl ?v = new_leader_lease t a i ttl s" for t a i ttl
    by (simp add: new_leader_lease_def getLatestEpoch_def allocateNextFencingToken_def loadLatestFencingToken_def v(2))
  show thesis
  proof (cases "choose_leader cmp forced s")
    case None
    then show thesis by (intro kept) (simp add: triggerFailover_def ha_transaction_def Let_def)
  next
    case (Some i)
    let ?acq = "ha_acquireLeadership opts later leaseId innerId \<lparr>ai_nodeId = i, ai_ttlMs = None, ai_forceAcquire = Some True\<rparr>"
    define decide where "decide = (\<lambda>epoch token. \<lparr>fd_decisionId = decisionId, fd_oldLeaderNodeId = map_option cn_nodeId (getCurrentLeader s),
        fd_newLeaderNodeId = Some i, fd_epoch = epoch, fd_cause = cause, fd_outcome = ''leader_changed'', fd_decidedAt = now, fd_fencingToken = token\<rparr>)"
    have run: "triggerFailover opts cmp now later leaseId innerId decisionId cause forced s =
      ha_transaction (\<lambda>_. bindP ?acq (\<lambda>r. bindP (insert_decision (decide (aq_epoch r) (aq_fencingToken r))) (\<lambda>_. returnP (decide (aq_epoch r) (aq_fencingToken r)))) ?v) s"
      if "i \<noteq> []" using Some that by (simp add: triggerFailover_def ha_transaction_def vacate_def decide_def bindP_modify Let_def)
    show thesis
    proof (cases "i = []")
      case True
      then show thesis using Some by (intro kept) (simp add: triggerFailover_def ha_transaction_def Let_def)
    next
      case False
      from v(1) show thesis
      proof (cases rule: leadership_cases [where opts = opts and now = later and leaseId = leaseId and decisionId = innerId and i = "\<lparr>ai_nodeId = i, ai_ttlMs = None, ai_forceAcquire = Some True\<rparr>"])
        case (failed e)
        then show thesis using run [OF False] by (intro kept) (simp add: ha_transaction_def prog_simps)
      next
        case (held r)
        then show thesis by simp
      next
        case (taken s')
        let ?r = "granted_to (new_leader_lease later leaseId i (effective_ttl opts None) s)" and ?d = "\<lambda>r. decide (aq_epoch r) (aq_fencingToken r)"
        have seized: "seized (new_leader_lease later leaseId i (effective_ttl opts None) s) (s'\<lparr>ha_decisions := ds\<rparr>)" for ds using taken(2) by (simp add: seized_def lease)
        have acq: "?acq ?v = (Inr ?r, s')" using taken(1) by (simp add: lease)
        show thesis
        proof (cases "fd_decisionId (?d ?r) \<in> fd_decisionId ` set (ha_decisions s')")
          case True
          then show thesis using run [OF False] acq by (intro kept) (simp add: ha_transaction_def prog_simps insert_decision_def)
        next
          case new: False
          then show thesis using run [OF False] acq Some seized
            by (intro changed [of "?d ?r" "s'\<lparr>ha_decisions := ha_decisions s' @ [?d ?r]\<rparr>" i]) (simp_all add: ha_transaction_def prog_simps insert_decision_def)
        qed
      qed
    qed
  qed
qed

section \<open>Runs of the coordinator\<close>

inductive ha_step :: "ha_options \<Rightarrow> ha_tables \<Rightarrow> ha_tables \<Rightarrow> bool" for opts where
  register: "ha_step opts s (snd (registerNode now i region metadata s))"
| heartbeat: "ha_step opts s (snd (updateNodeHeartbeat now i status s))"
| remove: "ha_step opts s (snd (removeNode now i s))"
| acquire: "ha_step opts s (snd (ha_acquireLeadership opts now leaseId decisionId input s))"
| renew: "ha_step opts s (snd (ha_renewLeadership opts now i ttlMs s))"
| release: "ha_step opts s (snd (ha_releaseLeadership now i s))"
| authorize: "ha_step opts s (snd (authorizeAction opts now later performedAt auditId i action authority s))"
| failover: "ha_step opts s (snd (triggerFailover opts cmp now later leaseId innerId decisionId cause forced s))"
| increment: "ha_step opts s (snd (incrementEpoch opts now leaseId decisionId i region s))"
| purge_leases: "ha_step opts s (snd (purgeExpiredLeases now s))"
| purge_decisions: "ha_step opts s (snd (purgeOldFailoverDecisions now days s))"

definition issued_token :: "ha_tables \<Rightarrow> int" where
  "issued_token s = le_fencingToken (getLatestEpoch s)"

lemma issued_reign: "ha_ok s \<Longrightarrow> issued_token s = (case reign (ha_epochs s) of None \<Rightarrow> 0 | Some (_, k, _) \<Rightarrow> k)"
  by (simp add: issued_token_def latest_epoch ha_okD)

lemma seized_issued:
  assumes ok: "ha_ok s" and seized: "seized (new_leader_lease now leaseId i ttl s) s'"
  shows "ha_ok s'" "issued_token s' = allocateNextFencingToken s" "issued_token s < issued_token s'" "e \<in> set (ha_epochs s) \<Longrightarrow> le_fencingToken e < issued_token s'"
proof -
  have es: "epochs_ok (ha_epochs s)" using ok by (simp add: ha_okD)
  show s': "ha_ok s'" using seized by (simp add: seized_def)
  show issued: "issued_token s' = allocateNextFencingToken s" using seized issued_reign [OF s'] by (simp add: seized_def new_leader_lease_def)
  show "issued_token s < issued_token s'"
    unfolding issued issued_reign [OF ok] allocateNextFencingToken_def latest_token [OF es] by (auto simp: EPOCH_FENCING_TOKEN_START_def split: option.split)
  show "le_fencingToken e < issued_token s'" if "e \<in> set (ha_epochs s)"
  proof -
    obtain es' l where "ha_epochs s = es' @ [l]" using \<open>e \<in> set (ha_epochs s)\<close> by (cases "ha_epochs s" rule: rev_cases) auto
    then show ?thesis using es that unfolding issued by (auto simp: allocateNextFencingToken_def latest_token reign_def epochs_ok_def sorted_wrt_append)
  qed
qed

lemma acquire_advances:
  assumes "ha_ok s"
  shows "ha_ok (snd (ha_acquireLeadership opts now leaseId decisionId i s)) \<and> issued_token s \<le> issued_token (snd (ha_acquireLeadership opts now leaseId decisionId i s))"
  using assms
proof (cases rule: leadership_cases [where opts = opts and now = now and leaseId = leaseId and decisionId = decisionId and i = i])
  case (taken s')
  then show ?thesis using seized_issued(1,3) [OF assms taken(2)] by simp
qed (use assms in simp_all)

lemma same_reign:
  "reign (ha_epochs (snd (registerNode now i region metadata s))) = reign (ha_epochs s)"
  "reign (ha_epochs (snd (updateNodeHeartbeat now i status s))) = reign (ha_epochs s)"
  "reign (ha_epochs (snd (removeNode now i s))) = reign (ha_epochs s)"
  "reign (ha_epochs (snd (ha_renewLeadership opts now i ttlMs s))) = reign (ha_epochs s)"
  "reign (ha_epochs (snd (ha_releaseLeadership now i s))) = reign (ha_epochs s)"
  "reign (ha_epochs (snd (authorizeAction opts now later performedAt auditId i action authority s))) = reign (ha_epochs s)"
  "reign (ha_epochs (snd (purgeExpiredLeases now s))) = reign (ha_epochs s)"
  "reign (ha_epochs (snd (purgeOldFailoverDecisions now days s))) = reign (ha_epochs s)"
  by (auto simp: registerNode_def updateNodeHeartbeat_def removeNode_def ha_renewLeadership_def ha_transaction_def ha_releaseLeadership_def authorizeAction_def
      purgeExpiredLeases_def purgeOldFailoverDecisions_def end_epochs_def close_leases_def demote_def Let_def split: option.split)

lemma step_advances:
  assumes "ha_step opts s t" and ok: "ha_ok s"
  shows "ha_ok t \<and> issued_token s \<le> issued_token t"
  using assms(1)
proof cases
  case (acquire now leaseId decisionId input)
  then show ?thesis using acquire_advances [OF ok] by simp
next
  case (failover cmp now later leaseId innerId decisionId cause forced)
  from ok show ?thesis
  proof (cases rule: failover_cases [where opts = opts and cmp = cmp and now = now and later = later and leaseId = leaseId and innerId = innerId
      and decisionId = decisionId and cause = cause and forced = forced])
    case (changed i d s')
    then show ?thesis using seized_issued(1,3) [OF ok changed(3)] failover by simp
  qed (use failover ok in simp)
next
  case (increment now leaseId decisionId i region)
  let ?s = "if getNode i s = None then snd (registerNode now i (coalesce region ''unknown'') None s) else s"
  have "ha_ok ?s" "issued_token ?s = issued_token s" using ok registerNode_ok [OF ok] same_reign(1) by (simp_all add: issued_reign)
  moreover have "t = snd (ha_acquireLeadership opts now leaseId decisionId \<lparr>ai_nodeId = i, ai_ttlMs = None, ai_forceAcquire = Some True\<rparr> ?s)"
    unfolding increment incrementEpoch_def bindP_modify by (simp add: prog_simps split: prod.split sum.split)
  ultimately show ?thesis using acquire_advances [of ?s] by metis
qed (use ok same_reign in \<open>simp_all add: registerNode_ok node_heartbeat_ok removeNode_ok renew_ok releaseLeadership_ok authorize_ok purge_ok issued_reign\<close>)

lemma write_token: "0 < issued_token s \<Longrightarrow> verifyWriteAuthority k s \<longleftrightarrow> k = issued_token s"
  by (auto simp: verifyWriteAuthority_def issued_token_def Let_def)

text \<open>The tokens of the coordinator are a monotone fence.\<close>

interpretation coordinator: monotone_fence "ha_step opts" ha_ok issued_token "\<lambda>s k. 0 < issued_token s \<and> verifyWriteAuthority k s" for opts
  by unfold_locales (use step_advances write_token in \<open>blast+\<close>)

lemma start_ok: "ha_ok no_tables"
  by (simp add: ha_ok_def no_tables_def epochs_ok_def)

lemma reachable_ok: "(ha_step opts)\<^sup>*\<^sup>* no_tables s \<Longrightarrow> ha_ok s"
  using coordinator.issued_steps [of opts no_tables s] start_ok by blast

section \<open>What the coordinator guarantees\<close>

text \<open>
  C15. At most one leader: in all tables that the operations of the coordinator can produce, with any clock readings, identifiers and errors, at most one node
  has the flag of the leader and at most one lease is active; an active lease belongs to the leader, and its epoch and token are the latest.
\<close>

theorem coordinator_single_leader:
  assumes "(ha_step opts)\<^sup>*\<^sup>* no_tables s"
  shows "(\<forall>n m. n \<in> set (ha_nodes s) \<and> cn_isLeader n \<and> m \<in> set (ha_nodes s) \<and> cn_isLeader m \<longrightarrow> n = m)
    \<and> (\<forall>l k. l \<in> set (ha_leases s) \<and> ll_status l = ''active'' \<and> k \<in> set (ha_leases s) \<and> ll_status k = ''active'' \<longrightarrow> l = k)
    \<and> (\<forall>l. l \<in> set (ha_leases s) \<and> ll_status l = ''active'' \<longrightarrow>
         map_option cn_nodeId (getCurrentLeader s) = Some (ll_nodeId l) \<and> le_epoch (getLatestEpoch s) = ll_epoch l \<and> le_fencingToken (getLatestEpoch s) = ll_fencingToken l)"
proof -
  have ok: "ha_ok s" using reachable_ok [OF assms] .
  have "map_option cn_nodeId (getCurrentLeader s) = Some (ll_nodeId l) \<and> le_epoch (getLatestEpoch s) = ll_epoch l \<and> le_fencingToken (getLatestEpoch s) = ll_fencingToken l"
    if l: "l \<in> set (ha_leases s)" "ll_status l = ''active''" for l
    using ha_okD(6,7) [OF ok l] latest_epoch [OF ha_okD(3) [OF ok]] leaders_of_current [OF ok] by (auto simp: lease_reigns_def split: option.splits)
  then show ?thesis using leader_unique [OF ok] ha_okD(8) [OF ok] by blast
qed

lemma seized_active:
  assumes "seized lease s" and "ll_status lease = ''active''"
  shows "getActiveLease t s = (if t < ll_expiresAt lease then Some lease else None)" and "map_option cn_nodeId (getCurrentLeader s) = Some (ll_nodeId lease)"
proof -
  have ok: "ha_ok s" and lease: "lease \<in> set (ha_leases s)" using assms by (simp_all add: seized_def)
  show "getActiveLease t s = (if t < ll_expiresAt lease then Some lease else None)"
  proof (cases "getActiveLease t s")
    case None
    then show ?thesis using active_lease_iff(1) [OF ok, of t lease] lease assms(2) by auto
  next
    case (Some k)
    then have k: "k \<in> set (ha_leases s)" "ll_status k = ''active''" "t < ll_expiresAt k" by (simp_all add: active_lease_iff(1) [OF ok])
    then have "k = lease" using ha_okD(8) [OF ok k(1) lease] assms(2) by simp
    then show ?thesis using Some k(3) by simp
  qed
  show "map_option cn_nodeId (getCurrentLeader s) = Some (ll_nodeId lease)"
    using assms(1) leaders_of_current [OF ok] by (auto simp: seized_def split: option.splits)
qed

text \<open>
  When leadership is granted: a request of a registered node with fresh identifiers always answers; it is refused exactly when another active node leads
  under a lease that has not expired and the request does not force it, and then nothing changes. A granted request makes the node the only leader,
  with the only active lease, for the requested time within its bounds, in the next epoch and with a token greater than every earlier token.
\<close>

theorem acquire_leadership_exact:
  assumes reach: "(ha_step opts)\<^sup>*\<^sup>* no_tables s" and node: "getNode (ai_nodeId i) s \<noteq> None"
    and fresh: "leaseId \<notin> ll_leaseId ` set (ha_leases s)" "decisionId \<notin> fd_decisionId ` set (ha_decisions s)"
  shows "\<exists>r s'. ha_acquireLeadership opts now leaseId decisionId i s = (Inr r, s')
    \<and> (\<not> aq_acquired r \<longleftrightarrow> held_by_another now (ai_nodeId i) s \<and> ai_forceAcquire i \<noteq> Some True)
    \<and> (\<not> aq_acquired r \<longrightarrow> s' = s)
    \<and> (aq_acquired r \<longrightarrow> (\<exists>l. aq_lease r = Some l \<and> ll_nodeId l = ai_nodeId i
         \<and> ll_expiresAt l = now + min 60000 (max 5000 (coalesce (ai_ttlMs i) (ho_defaultTtlMs opts)))
         \<and> map_option cn_nodeId (getCurrentLeader s') = Some (ai_nodeId i) \<and> (\<forall>t. getActiveLease t s' = (if t < ll_expiresAt l then Some l else None))
         \<and> aq_epoch r = le_epoch (getLatestEpoch s) + 1 \<and> le_epoch (getLatestEpoch s') = aq_epoch r \<and> le_fencingToken (getLatestEpoch s') = aq_fencingToken r
         \<and> (\<forall>e \<in> set (ha_epochs s). le_fencingToken e < aq_fencingToken r)))"
proof -
  have ok: "ha_ok s" using reachable_ok [OF reach] .
  have force: "coalesce (ai_forceAcquire i) False \<longleftrightarrow> ai_forceAcquire i = Some True" by (cases "ai_forceAcquire i") auto
  from ok show ?thesis
  proof (cases rule: leadership_cases [where opts = opts and now = now and leaseId = leaseId and decisionId = decisionId and i = i])
    case (failed e)
    then show ?thesis using node fresh by blast
  next
    case (held r)
    then show ?thesis using force by auto
  next
    case (taken s')
    let ?l = "new_leader_lease now leaseId (ai_nodeId i) (effective_ttl opts (ai_ttlMs i)) s"
    have s': "ha_ok s'" "\<And>e. e \<in> set (ha_epochs s) \<Longrightarrow> le_fencingToken e < issued_token s'" using seized_issued [OF ok taken(2)] by blast+
    have l: "ll_nodeId ?l = ai_nodeId i" "ll_expiresAt ?l = now + min 60000 (max 5000 (coalesce (ai_ttlMs i) (ho_defaultTtlMs opts)))" "ll_status ?l = ''active''"
        "ll_epoch ?l = le_epoch (getLatestEpoch s) + 1"
      by (simp_all add: new_leader_lease_def effective_ttl_def MAX_LEADER_TTL_MS_def MIN_LEADER_TTL_MS_def)
    have epoch: "le_epoch (getLatestEpoch s') = ll_epoch ?l" "le_fencingToken (getLatestEpoch s') = ll_fencingToken ?l"
      using latest_epoch [OF ha_okD(3) [OF s'(1)]] taken(2) by (simp_all add: seized_def)
    show ?thesis
      using taken(1,3) force s'(2) l epoch seized_active [OF taken(2) l(3)] by (auto simp: granted_to_def issued_token_def)
  qed
qed

text \<open>
  C16. A deposed leader is fenced off for ever: once leadership has been granted, no later operations of the coordinator, in any order, make a write with
  the token of an earlier epoch or with any smaller token acceptable again.
\<close>

theorem deposed_leader_never_writes:
  assumes reach: "(ha_step opts)\<^sup>*\<^sup>* no_tables s" and grant: "ha_acquireLeadership opts now leaseId decisionId i s = (Inr r, s')" "aq_acquired r"
    and later: "(ha_step opts)\<^sup>*\<^sup>* s' t"
  shows "(\<forall>k < aq_fencingToken r. \<not> verifyWriteAuthority k t) \<and> (\<forall>e \<in> set (ha_epochs s). \<not> verifyWriteAuthority (le_fencingToken e) t)"
proof -
  have ok: "ha_ok s" using reachable_ok [OF reach] .
  then have s': "ha_ok s' \<and> aq_fencingToken r = issued_token s' \<and> (\<forall>e \<in> set (ha_epochs s). le_fencingToken e < issued_token s') \<and> 0 < issued_token s'"
  proof (cases rule: leadership_cases [where opts = opts and now = now and leaseId = leaseId and decisionId = decisionId and i = i])
    case (taken s'')
    have "0 \<le> issued_token s" using issued_reign [OF ok] reign_positive [OF ha_okD(3) [OF ok]] by (auto simp: EPOCH_FENCING_TOKEN_START_def split: option.split)
    then show ?thesis using seized_issued [OF ok taken(2)] taken(1) grant by (auto simp: granted_to_def new_leader_lease_def)
  qed (use grant in auto)
  then have "0 < issued_token t" using coordinator.issued_steps [OF later] by force
  then show ?thesis using coordinator.overtaken_never_holds [OF later] s' by auto
qed

lemma holder_leads: "ha_ok s \<Longrightarrow> getActiveLease t s = Some k \<Longrightarrow> \<exists>m. getCurrentLeader s = Some m \<and> cn_nodeId m = ll_nodeId k"
  using ha_okD(7) [of s k] leaders_of_current [of s] by (auto simp: active_lease_iff(1) split: option.splits)

text \<open>
  Leader-only actions: a strict coordinator authorizes such an action exactly for the node that holds the active lease while it has not expired, under the token of this lease,
  which is the only token with which a write is accepted; no other node is authorized on the same tables, at whatever time it asks.
\<close>

theorem leader_authority_exclusive:
  assumes reach: "(ha_step opts)\<^sup>*\<^sup>* no_tables s" and strict: "ho_strictLeaderAuthority opts" and fresh: "auditId \<notin> aa_id ` set (ha_audits s)"
    and clock: "now \<le> later"
  shows "\<exists>z s'. authorizeAction opts now later at auditId a action ''leader_only'' s = (Inr z, s')
    \<and> (az_authorized z \<longleftrightarrow> (\<exists>l \<in> set (ha_leases s). ll_status l = ''active'' \<and> ll_nodeId l = a \<and> later < ll_expiresAt l))
    \<and> (az_authorized z \<longrightarrow> (\<forall>k. verifyWriteAuthority k s \<longleftrightarrow> k = az_fencingToken z)
         \<and> (\<forall>now' later' at' b y s''. authorizeAction opts now' later' at' auditId b action ''leader_only'' s = (Inr y, s'') \<and> az_authorized y \<longrightarrow> b = a))"
proof -
  have ok: "ha_ok s" using reachable_ok [OF reach] .
  have ends: "\<exists>z s'. authorizeAction opts n l p auditId b action ''leader_only'' s = (Inr z, s') \<and> az_fencingToken z = issued_token s
      \<and> (az_authorized z \<longleftrightarrow> (\<exists>k \<in> set (ha_leases s). ll_status k = ''active'' \<and> ll_nodeId k = b \<and> l < ll_expiresAt k \<and> n < ll_expiresAt k))" for n l p b
  proof -
    have "az_authorized z \<longleftrightarrow> getNode b s \<noteq> None \<and> (\<exists>m k. getCurrentLeader s = Some m \<and> cn_nodeId m = b \<and> getActiveLease l s = Some k \<and> n < ll_expiresAt k)"
      if "authorizeAction opts n l p auditId b action ''leader_only'' s = (Inr z, s')" for z s'
      using that strict fresh by (auto simp: authorizeAction_def action_verdict_def Let_def split: option.splits if_splits)
    moreover have "(getNode b s \<noteq> None \<and> (\<exists>m k. getCurrentLeader s = Some m \<and> cn_nodeId m = b \<and> getActiveLease l s = Some k \<and> n < ll_expiresAt k))
        \<longleftrightarrow> (\<exists>k \<in> set (ha_leases s). ll_status k = ''active'' \<and> ll_nodeId k = b \<and> l < ll_expiresAt k \<and> n < ll_expiresAt k)"
      using holder_leads [OF ok, of l] ha_okD(5) [OF ok] by (auto simp: getNode_None active_lease_iff(1) [OF ok]) blast
    moreover have "\<exists>z s'. authorizeAction opts n l p auditId b action ''leader_only'' s = (Inr z, s') \<and> az_fencingToken z = issued_token s"
      using fresh by (auto simp: authorizeAction_def Let_def issued_token_def split: option.split)
    ultimately show ?thesis by metis
  qed
  have token: "verifyWriteAuthority k s \<longleftrightarrow> k = issued_token s" if "l \<in> set (ha_leases s)" "ll_status l = ''active''" for l k
    using ha_okD(6) [OF ok that] reign_positive [OF ha_okD(3) [OF ok]] issued_reign [OF ok] write_token [of s k]
    by (auto simp: lease_reigns_def EPOCH_FENCING_TOKEN_START_def)
  obtain z s' where z: "authorizeAction opts now later at auditId a action ''leader_only'' s = (Inr z, s')" "az_fencingToken z = issued_token s"
      "az_authorized z \<longleftrightarrow> (\<exists>k \<in> set (ha_leases s). ll_status k = ''active'' \<and> ll_nodeId k = a \<and> later < ll_expiresAt k \<and> now < ll_expiresAt k)"
    using ends by blast
  moreover have "b = a" if "az_authorized z" "authorizeAction opts n l p auditId b action ''leader_only'' s = (Inr y, s3)" "az_authorized y" for n l p b y s3
    using z(3) ends [of n l p b] that ha_okD(8) [OF ok] by fastforce
  ultimately show ?thesis using token clock by (intro exI [of _ z] exI [of _ s']) fastforce
qed

section \<open>A concrete run\<close>

definition demo_options :: ha_options where
  "demo_options = new_HaCoordinatorService None None"

definition two_nodes :: ha_tables where
  "two_nodes = snd (registerNode 0 ''n2'' ''eu'' None (snd (registerNode 0 ''n1'' ''eu'' None no_tables)))"

definition first_leader :: ha_tables where
  "first_leader = snd (ha_acquireLeadership demo_options 0 ''l1'' ''d1'' \<lparr>ai_nodeId = ''n1'', ai_ttlMs = None, ai_forceAcquire = None\<rparr> two_nodes)"

definition demo_lease :: leader_lease where
  "demo_lease = \<lparr>ll_leaseId = ''l1'', ll_nodeId = ''n1'', ll_epoch = 1, ll_acquiredAt = 0, ll_expiresAt = 15000, ll_status = ''active'', ll_ttlMs = 15000, ll_fencingToken = 2\<rparr>"

lemma first_leader_reached: "(ha_step demo_options)\<^sup>*\<^sup>* no_tables two_nodes" "(ha_step demo_options)\<^sup>*\<^sup>* no_tables first_leader"
proof -
  let ?one = "snd (registerNode 0 ''n1'' ''eu'' None no_tables)"
  have steps: "ha_step demo_options no_tables ?one" "ha_step demo_options ?one two_nodes" "ha_step demo_options two_nodes first_leader"
    unfolding two_nodes_def first_leader_def by (rule ha_step.register ha_step.acquire)+
  show nodes: "(ha_step demo_options)\<^sup>*\<^sup>* no_tables two_nodes" using steps(1,2) by simp
  show "(ha_step demo_options)\<^sup>*\<^sup>* no_tables first_leader" using nodes steps(3) by simp
qed

lemma first_leader_value:
  "ha_acquireLeadership demo_options 0 ''l1'' ''d1'' \<lparr>ai_nodeId = ''n1'', ai_ttlMs = None, ai_forceAcquire = None\<rparr> two_nodes = (Inr (granted_to demo_lease), first_leader)"
  "ha_leases first_leader = [demo_lease]" "ha_decisions first_leader = []" "ha_audits first_leader = []" "map cn_nodeId (ha_nodes first_leader) = [''n1'', ''n2'']"
  "le_epoch (getLatestEpoch first_leader) = 1" "map cn_isLeader (ha_nodes first_leader) = [True, False]" "map cn_status (ha_nodes first_leader) = [''active'', ''active'']"
  by code_simp+

theorem coordinator_single_leader_witness:
  "demo_lease \<in> set (ha_leases first_leader) \<and> map_option cn_nodeId (getCurrentLeader first_leader) = Some ''n1'' \<and> le_fencingToken (getLatestEpoch first_leader) = 2"
proof -
  have l: "demo_lease \<in> set (ha_leases first_leader)" "ll_status demo_lease = ''active''" "ll_nodeId demo_lease = ''n1''" "ll_fencingToken demo_lease = 2"
    by (simp_all add: first_leader_value demo_lease_def)
  then show ?thesis using coordinator_single_leader [OF first_leader_reached(2)] by metis
qed

text \<open>A second node is refused while the lease of the first runs, and succeeds after it.\<close>

theorem acquire_leadership_exact_witness:
  "(\<exists>r. ha_acquireLeadership demo_options 14999 ''l2'' ''d2'' \<lparr>ai_nodeId = ''n2'', ai_ttlMs = None, ai_forceAcquire = None\<rparr> first_leader = (Inr r, first_leader) \<and> \<not> aq_acquired r)
    \<and> (\<exists>r s'. ha_acquireLeadership demo_options 15000 ''l2'' ''d2'' \<lparr>ai_nodeId = ''n2'', ai_ttlMs = None, ai_forceAcquire = None\<rparr> first_leader = (Inr r, s') \<and> aq_acquired r
         \<and> map_option cn_nodeId (getCurrentLeader s') = Some ''n2'' \<and> aq_epoch r = 2)"
proof -
  have s: "getNode ''n2'' first_leader \<noteq> None" "''l2'' \<notin> ll_leaseId ` set (ha_leases first_leader)" "''d2'' \<notin> fd_decisionId ` set (ha_decisions first_leader)"
    using first_leader_value(5) by (simp_all add: getNode_None first_leader_value demo_lease_def flip: set_map)
  have held: "held_by_another 14999 ''n2'' first_leader" "\<not> held_by_another 15000 ''n2'' first_leader" by code_simp+
  note exact = acquire_leadership_exact [OF first_leader_reached(2), of "\<lparr>ai_nodeId = ''n2'', ai_ttlMs = None, ai_forceAcquire = None\<rparr>" "''l2''" "''d2''"]
  from exact [of 14999] exact [of 15000] s held first_leader_value(6) show ?thesis by (auto simp del: acquisition_input.simps) (auto)
qed

definition second_leader :: ha_tables where
  "second_leader = snd (ha_acquireLeadership demo_options 15000 ''l2'' ''d2'' \<lparr>ai_nodeId = ''n2'', ai_ttlMs = None, ai_forceAcquire = None\<rparr> first_leader)"

definition second_leader_lease :: leader_lease where
  "second_leader_lease = \<lparr>ll_leaseId = ''l2'', ll_nodeId = ''n2'', ll_epoch = 2, ll_acquiredAt = 15000, ll_expiresAt = 30000, ll_status = ''active'', ll_ttlMs = 15000, ll_fencingToken = 3\<rparr>"

lemma second_leader_value:
  "ha_acquireLeadership demo_options 15000 ''l2'' ''d2'' \<lparr>ai_nodeId = ''n2'', ai_ttlMs = None, ai_forceAcquire = None\<rparr> first_leader = (Inr (granted_to second_leader_lease), second_leader)"
  by code_simp

theorem deposed_leader_never_writes_witness:
  "verifyWriteAuthority 2 first_leader \<and> aq_fencingToken (granted_to second_leader_lease) = 3 \<and> \<not> verifyWriteAuthority 2 second_leader"
proof -
  have "\<not> verifyWriteAuthority 2 second_leader"
    using deposed_leader_never_writes [OF first_leader_reached(2) second_leader_value _ rtranclp.rtrancl_refl] by (simp add: granted_to_def second_leader_lease_def)
  moreover have "verifyWriteAuthority 2 first_leader" by code_simp
  ultimately show ?thesis by (simp add: granted_to_def second_leader_lease_def)
qed

theorem leader_authority_exclusive_witness:
  "\<exists>z s'. authorizeAction demo_options 100 100 100 ''a1'' ''n1'' ''dispatch_execution'' ''leader_only'' first_leader = (Inr z, s') \<and> az_authorized z"
proof -
  have "ho_strictLeaderAuthority demo_options" "''a1'' \<notin> aa_id ` set (ha_audits first_leader)"
    by (simp_all add: demo_options_def new_HaCoordinatorService_def first_leader_value)
  moreover have "\<exists>l \<in> set (ha_leases first_leader). ll_status l = ''active'' \<and> ll_nodeId l = ''n1'' \<and> 100 < ll_expiresAt l"
    by (simp add: first_leader_value demo_lease_def)
  ultimately show ?thesis using leader_authority_exclusive [OF first_leader_reached(2), of "''a1''" 100 100 100 "''n1''" "''dispatch_execution''"] by auto
qed

end
