(* ===== verification/Leader_Election.thy ===== *)
theory Leader_Election
  imports Leader_Coordinator
begin

text \<open>
  The leader election service (\<^verbatim>\<open>src/src/platform/five-plane-execution/ha/leader-election-service.ts\<close> with the levels of \<^verbatim>\<open>types.ts\<close>): every node runs
  one on top of the shared coordinator, to acquire, renew and give up leadership.

  The service is asynchronous. An \<^verbatim>\<open>await\<close> gives other code of the process a chance to run, so each method is cut there into
  steps that run without interruption; what a method still has to do is kept in the state (\<open>ec_pending\<close> for an election,
  \<open>ec_renewal\<close>, \<open>ec_releasing\<close> and \<open>ec_forcing\<close> for the other methods). The coordinator is the synchronous one, so its calls happen within a step, and the adapters for
  other coordinators choose these calls. Timers are flags and counters: a running interval may tick, and each pending timeout may fire, at any time.
  The events that are emitted are kept in order, their payloads are left out. A heartbeat has nothing left to do after its call, so its tick is one step.
\<close>

section \<open>Levels and options\<close>

datatype ha_level = HA_1 | HA_2 | HA_3

record ha_level_config =
  hl_haLevel :: ha_level
  hl_leaseRenewalIntervalMs :: int
  hl_heartbeatIntervalMs :: int
  hl_leaseTtlMs :: int
  hl_leaseReclaimerIntervalMs :: int
  hl_stuckRunSweeperIntervalMs :: int
  hl_stuckRunThresholdMs :: int
  hl_crossRegionFailover :: bool
  hl_walEnabled :: bool
  hl_walCheckpointIntervalMs :: int
  hl_walRetentionMs :: int
  hl_eventReplayEnabled :: bool

fun HA_LEVEL_CONFIGS :: "ha_level \<Rightarrow> ha_level_config" where
  "HA_LEVEL_CONFIGS HA_1 = \<lparr>hl_haLevel = HA_1, hl_leaseRenewalIntervalMs = 0, hl_heartbeatIntervalMs = 0, hl_leaseTtlMs = 60000, hl_leaseReclaimerIntervalMs = 0,
     hl_stuckRunSweeperIntervalMs = 300000, hl_stuckRunThresholdMs = 3600000, hl_crossRegionFailover = False, hl_walEnabled = False,
     hl_walCheckpointIntervalMs = 0, hl_walRetentionMs = 0, hl_eventReplayEnabled = False\<rparr>"
| "HA_LEVEL_CONFIGS HA_2 = \<lparr>hl_haLevel = HA_2, hl_leaseRenewalIntervalMs = 5000, hl_heartbeatIntervalMs = 5000, hl_leaseTtlMs = 15000, hl_leaseReclaimerIntervalMs = 10000,
     hl_stuckRunSweeperIntervalMs = 60000, hl_stuckRunThresholdMs = 1800000, hl_crossRegionFailover = False, hl_walEnabled = True,
     hl_walCheckpointIntervalMs = 30000, hl_walRetentionMs = 86400000, hl_eventReplayEnabled = True\<rparr>"
| "HA_LEVEL_CONFIGS HA_3 = \<lparr>hl_haLevel = HA_3, hl_leaseRenewalIntervalMs = 3000, hl_heartbeatIntervalMs = 3000, hl_leaseTtlMs = 10000, hl_leaseReclaimerIntervalMs = 5000,
     hl_stuckRunSweeperIntervalMs = 30000, hl_stuckRunThresholdMs = 600000, hl_crossRegionFailover = True, hl_walEnabled = True,
     hl_walCheckpointIntervalMs = 15000, hl_walRetentionMs = 604800000, hl_eventReplayEnabled = True\<rparr>"

text \<open>The partial configuration of the options is the function that overwrites the fields it has.\<close>

record election_options =
  eo_nodeId :: ident
  eo_region :: string
  eo_haLevel :: "ha_level option"
  eo_haConfig :: "ha_level_config \<Rightarrow> ha_level_config"
  eo_leaseTtlMs :: "int option"
  eo_renewalIntervalMs :: "int option"
  eo_heartbeatIntervalMs :: "int option"
  eo_maxElectionAttempts :: "int option"
  eo_nodeMetadata :: "node_metadata option"

record election_config =
  ef_nodeId :: ident
  ef_region :: string
  ef_haLevel :: ha_level
  ef_config :: ha_level_config
  ef_maxElectionAttempts :: int
  ef_nodeMetadata :: "node_metadata option"

datatype election_phase = Stopped | Starting | Candidate | Follower | Leader | Shutdown

text \<open>What an election waits for: the answer of the query, or of the coordinator.\<close>

datatype election_wait = Queried leadership_query | Answered "ha_error + acquisition"

text \<open>What is done once leadership is given up: the end of \<^verbatim>\<open>stop\<close> or of \<^verbatim>\<open>transferLeadership\<close>, with the answer of the coordinator.\<close>

datatype release_wait = Stopping bool | Transferring bool

record election =
  ec_state :: election_phase
  ec_currentLease :: "leader_lease option"
  ec_currentEpoch :: int
  ec_currentFencingToken :: int
  ec_electionAttempts :: int
  ec_renewing :: bool
  ec_beating :: bool
  ec_retries :: nat
  ec_pending :: "election_wait option"
  ec_renewal :: "renewal option"
  ec_releasing :: "release_wait list"
  ec_forcing :: "(ha_error + acquisition) list"
  ec_disposed :: bool
  ec_events :: "string list"

definition new_LeaderElectionService :: "election_options \<Rightarrow> election_config \<times> election" where
  "new_LeaderElectionService options =
     (let haLevel = coalesce (eo_haLevel options) HA_2; given = eo_haConfig options (HA_LEVEL_CONFIGS haLevel) in
      (\<lparr>ef_nodeId = eo_nodeId options, ef_region = eo_region options, ef_haLevel = haLevel,
        ef_config = given\<lparr>hl_leaseTtlMs := coalesce (eo_leaseTtlMs options) (hl_leaseTtlMs given),
          hl_leaseRenewalIntervalMs := coalesce (eo_renewalIntervalMs options) (hl_leaseRenewalIntervalMs given),
          hl_heartbeatIntervalMs := coalesce (eo_heartbeatIntervalMs options) (hl_heartbeatIntervalMs given)\<rparr>,
        ef_maxElectionAttempts = coalesce (eo_maxElectionAttempts options) 5, ef_nodeMetadata = eo_nodeMetadata options\<rparr>,
       \<lparr>ec_state = Stopped, ec_currentLease = None, ec_currentEpoch = 0, ec_currentFencingToken = 0, ec_electionAttempts = 0, ec_renewing = False,
        ec_beating = False, ec_retries = 0, ec_pending = None, ec_renewal = None, ec_releasing = [], ec_forcing = [], ec_disposed = False, ec_events = []\<rparr>))"

definition createLeaderElectionService :: "ident \<Rightarrow> string \<Rightarrow> ha_level option \<Rightarrow> (ha_level_config \<Rightarrow> ha_level_config) option \<Rightarrow> node_metadata option \<Rightarrow> election_config \<times> election" where
  "createLeaderElectionService nodeId region haLevel customConfig nodeMetadata =
     new_LeaderElectionService \<lparr>eo_nodeId = nodeId, eo_region = region, eo_haLevel = Some (coalesce haLevel HA_2), eo_haConfig = coalesce customConfig id,
       eo_leaseTtlMs = None, eo_renewalIntervalMs = None, eo_heartbeatIntervalMs = None, eo_maxElectionAttempts = None, eo_nodeMetadata = nodeMetadata\<rparr>"

section \<open>Timers and events\<close>

definition emitElectionEvent :: "string \<Rightarrow> election \<Rightarrow> election" where
  "emitElectionEvent event e = e\<lparr>ec_events := ec_events e @ [event]\<rparr>"

definition startRenewalLoop :: "election_config \<Rightarrow> election \<Rightarrow> election" where
  "startRenewalLoop cf e = (if ec_renewing e then e else if hl_leaseRenewalIntervalMs (ef_config cf) \<le> 0 then e else e\<lparr>ec_renewing := True\<rparr>)"

definition stopRenewalLoop :: "election \<Rightarrow> election" where
  "stopRenewalLoop e = e\<lparr>ec_renewing := False\<rparr>"

definition startHeartbeat :: "election_config \<Rightarrow> election \<Rightarrow> election" where
  "startHeartbeat cf e = (if ec_beating e then e else if hl_heartbeatIntervalMs (ef_config cf) \<le> 0 then e else e\<lparr>ec_beating := True\<rparr>)"

definition stopHeartbeat :: "election \<Rightarrow> election" where
  "stopHeartbeat e = e\<lparr>ec_beating := False\<rparr>"

definition scheduleElectionRetry :: "election_config \<Rightarrow> election \<Rightarrow> election" where
  "scheduleElectionRetry cf e = (if ec_electionAttempts e < ef_maxElectionAttempts cf then e\<lparr>ec_retries := ec_retries e + 1\<rparr> else e)"

definition clearRetryTimeouts :: "election \<Rightarrow> election" where
  "clearRetryTimeouts e = e\<lparr>ec_retries := 0\<rparr>"

section \<open>Elections\<close>

text \<open>\<^verbatim>\<open>attemptElection\<close> up to the query of the coordinator; an election that is under way is not started again.\<close>

definition attemptElection :: "timestamp \<Rightarrow> timestamp \<Rightarrow> election \<times> ha_tables \<Rightarrow> election \<times> ha_tables" where
  "attemptElection now nowMs = (\<lambda>(e, s).
     if ec_pending e \<noteq> None \<or> ec_state e = Shutdown \<or> ec_disposed e then (e, s)
     else (e\<lparr>ec_state := Candidate, ec_electionAttempts := ec_electionAttempts e + 1, ec_pending := Some (Queried (queryLeadership now nowMs s))\<rparr>, s))"

definition become_leader :: "election_config \<Rightarrow> leader_lease option \<Rightarrow> int \<Rightarrow> int \<Rightarrow> election \<Rightarrow> election" where
  "become_leader cf lease epoch fencingToken e =
     emitElectionEvent ''leadership_acquired'' (startRenewalLoop cf
       (e\<lparr>ec_state := Leader, ec_currentLease := lease, ec_currentEpoch := epoch, ec_currentFencingToken := fencingToken, ec_electionAttempts := 0\<rparr>))"

text \<open>From the answer of the query to the request for leadership.\<close>

definition continue_election :: "ha_options \<Rightarrow> election_config \<Rightarrow> timestamp \<Rightarrow> ident \<Rightarrow> ident \<Rightarrow> leadership_query \<Rightarrow> election \<times> ha_tables \<Rightarrow> election \<times> ha_tables" where
  "continue_election opts cf now leaseId decisionId leadership = (\<lambda>(e, s).
     if lq_isLeader leadership \<and> lq_leaderNodeId leadership \<notin> {None, Some []} \<and> lq_leaderNodeId leadership = Some (ef_nodeId cf)
     then (become_leader cf (getActiveLease now s) (lq_epoch leadership) (lq_fencingToken leadership) (e\<lparr>ec_pending := None\<rparr>), s)
     else if lq_isLeader leadership \<and> lq_leaderNodeId leadership \<notin> {None, Some []} \<and> \<not> lq_isExpired leadership
     then (emitElectionEvent ''follower_elected'' (e\<lparr>ec_state := Follower, ec_pending := None\<rparr>), s)
     else
       let (r, s') = ha_acquireLeadership opts now leaseId decisionId \<lparr>ai_nodeId = ef_nodeId cf, ai_ttlMs = Some (hl_leaseTtlMs (ef_config cf)), ai_forceAcquire = Some False\<rparr> s
       in (e\<lparr>ec_pending := Some (Answered r)\<rparr>, s'))"

definition finish_election :: "election_config \<Rightarrow> ha_error + acquisition \<Rightarrow> election \<Rightarrow> election" where
  "finish_election cf r e0 =
     (let e = e0\<lparr>ec_pending := None\<rparr> in
      case r of
        Inr a \<Rightarrow>
          if aq_acquired a then become_leader cf (aq_lease a) (aq_epoch a) (aq_fencingToken a) e
          else scheduleElectionRetry cf (emitElectionEvent ''follower_elected'' (e\<lparr>ec_state := Follower\<rparr>))
      | Inl _ \<Rightarrow> scheduleElectionRetry cf (e\<lparr>ec_state := Follower\<rparr>))"

definition retry_fires :: "timestamp \<Rightarrow> timestamp \<Rightarrow> election \<times> ha_tables \<Rightarrow> election \<times> ha_tables" where
  "retry_fires now nowMs = (\<lambda>(e0, s).
     let e = e0\<lparr>ec_retries := ec_retries e0 - 1\<rparr> in
     if ec_state e = Follower \<and> \<not> ec_disposed e then attemptElection now nowMs (e, s) else (e, s))"

section \<open>Public methods\<close>

datatype election_error = Election_disposed

definition start_service :: "election_config \<Rightarrow> timestamp \<Rightarrow> timestamp \<Rightarrow> (election \<times> ha_tables, election_error, unit) prog" where
  "start_service cf now nowMs = (\<lambda>(e, s).
     if ec_disposed e then (Inl Election_disposed, (e, s))
     else if ec_state e \<noteq> Stopped then (Inr (), (e, s))
     else
       let e1 = emitElectionEvent ''election_start'' (e\<lparr>ec_state := Starting\<rparr>); s1 = snd (registerNode now (ef_nodeId cf) (ef_region cf) (ef_nodeMetadata cf) s) in
       if hl_haLevel (ef_config cf) = HA_1 then
         let epoch = max (ec_currentEpoch e1) 1; token = max (ec_currentFencingToken e1) 1;
             lease = \<lparr>ll_leaseId = ''single-node-'' @ ef_nodeId cf, ll_nodeId = ef_nodeId cf, ll_epoch = epoch, ll_acquiredAt = now,
               ll_expiresAt = nowMs + hl_leaseTtlMs (ef_config cf), ll_status = ''active'', ll_ttlMs = hl_leaseTtlMs (ef_config cf), ll_fencingToken = token\<rparr> in
         (Inr (), (emitElectionEvent ''leadership_acquired''
            (e1\<lparr>ec_currentEpoch := epoch, ec_currentFencingToken := token, ec_currentLease := Some lease, ec_state := Leader\<rparr>), s1))
       else (Inr (), attemptElection now nowMs (startHeartbeat cf e1, s1)))"

text \<open>\<^verbatim>\<open>releaseLeadership\<close> up to the answer of the coordinator, and after it.\<close>

definition release_begin :: "election_config \<Rightarrow> timestamp \<Rightarrow> (bool \<Rightarrow> release_wait) \<Rightarrow> election \<times> ha_tables \<Rightarrow> election \<times> ha_tables" where
  "release_begin cf now wait = (\<lambda>(e, s).
     let (released, s') = ha_releaseLeadership now (ef_nodeId cf) s in ((stopRenewalLoop e)\<lparr>ec_releasing := ec_releasing e @ [wait released]\<rparr>, s'))"

definition release_end :: "bool \<Rightarrow> election \<Rightarrow> election" where
  "release_end released e = (if released then emitElectionEvent ''leadership_lost'' e else e)\<lparr>ec_currentLease := None, ec_state := Follower\<rparr>"

definition stop_service :: "election_config \<Rightarrow> timestamp \<Rightarrow> election \<times> ha_tables \<Rightarrow> election \<times> ha_tables" where
  "stop_service cf now = (\<lambda>(e, s).
     if ec_disposed e \<or> ec_state e = Stopped \<or> ec_state e = Shutdown then (e, s)
     else
       let e1 = stopHeartbeat (stopRenewalLoop (e\<lparr>ec_state := Shutdown\<rparr>)) in
       if ec_state e = Leader \<and> ec_currentLease e \<noteq> None then release_begin cf now Stopping (e1, s)
       else (e1\<lparr>ec_state := Stopped\<rparr>, s))"

definition finish_release :: "release_wait \<Rightarrow> election \<Rightarrow> election" where
  "finish_release r e =
     (case r of
        Stopping released \<Rightarrow> (emitElectionEvent ''abdication'' (release_end released e))\<lparr>ec_state := Stopped\<rparr>
      | Transferring released \<Rightarrow> emitElectionEvent ''leadership_lost'' (release_end released e))"

definition dispose :: "election \<Rightarrow> election" where
  "dispose e = (clearRetryTimeouts (stopHeartbeat (stopRenewalLoop e)))\<lparr>ec_disposed := True, ec_state := Stopped, ec_currentLease := None\<rparr>"

definition service_queryLeadership :: "election_config \<Rightarrow> timestamp \<Rightarrow> timestamp \<Rightarrow> election \<Rightarrow> ha_tables \<Rightarrow> leadership_query" where
  "service_queryLeadership cf now nowMs e s =
     (if hl_haLevel (ef_config cf) = HA_1
      then \<lparr>lq_isLeader = (ec_state e = Leader), lq_leaderNodeId = (if ec_state e = Leader then Some (ef_nodeId cf) else None), lq_epoch = ec_currentEpoch e,
        lq_fencingToken = ec_currentFencingToken e, lq_expiresAt = map_option ll_expiresAt (ec_currentLease e), lq_isExpired = (ec_state e \<noteq> Leader)\<rparr>
      else queryLeadership now nowMs s)"

definition getLeaderNodeId :: "election_config \<Rightarrow> election \<Rightarrow> ha_tables \<Rightarrow> ident option" where
  "getLeaderNodeId cf e s =
     (if hl_haLevel (ef_config cf) = HA_1 then (if ec_state e = Leader then Some (ef_nodeId cf) else None) else map_option cn_nodeId (getCurrentLeader s))"

definition isCurrentLeader :: "election_config \<Rightarrow> timestamp \<Rightarrow> timestamp \<Rightarrow> election \<Rightarrow> ha_tables \<Rightarrow> bool" where
  "isCurrentLeader cf now nowMs e s =
     (if hl_haLevel (ef_config cf) = HA_1 then ec_state e = Leader else ec_state e = Leader \<and> lq_isLeader (service_queryLeadership cf now nowMs e s))"

definition hasLeadership :: "election \<Rightarrow> bool" where
  "hasLeadership e = (ec_state e = Leader \<and> ec_currentLease e \<noteq> None)"

definition transferLeadership :: "election_config \<Rightarrow> timestamp \<Rightarrow> timestamp \<Rightarrow> election \<times> ha_tables \<Rightarrow> election \<times> ha_tables" where
  "transferLeadership cf now nowMs = (\<lambda>(e, s). if \<not> isCurrentLeader cf now nowMs e s then (e, s) else release_begin cf now Transferring (e, s))"

definition forceAcquireLeadership :: "ha_options \<Rightarrow> election_config \<Rightarrow> timestamp \<Rightarrow> ident \<Rightarrow> ident \<Rightarrow> election \<times> ha_tables \<Rightarrow> election \<times> ha_tables" where
  "forceAcquireLeadership opts cf now leaseId decisionId = (\<lambda>(e, s).
     if ec_state e = Shutdown \<or> ec_disposed e then (e, s)
     else
       let (r, s') = ha_acquireLeadership opts now leaseId decisionId \<lparr>ai_nodeId = ef_nodeId cf, ai_ttlMs = Some (hl_leaseTtlMs (ef_config cf)), ai_forceAcquire = Some True\<rparr> s
       in (e\<lparr>ec_forcing := ec_forcing e @ [r]\<rparr>, s'))"

definition finish_force :: "election_config \<Rightarrow> ha_error + acquisition \<Rightarrow> election \<Rightarrow> election" where
  "finish_force cf r e =
     (case r of
        Inr a \<Rightarrow> if aq_acquired a then become_leader cf (aq_lease a) (aq_epoch a) (aq_fencingToken a) e else e
      | Inl _ \<Rightarrow> e)"

section \<open>Ticks\<close>

definition runHeartbeatTick :: "election_config \<Rightarrow> timestamp \<Rightarrow> election \<times> ha_tables \<Rightarrow> election \<times> ha_tables" where
  "runHeartbeatTick cf now = (\<lambda>(e, s). if ec_disposed e then (e, s) else (e, snd (updateNodeHeartbeat now (ef_nodeId cf) (Some ''active'') s)))"

definition runRenewalTick :: "ha_options \<Rightarrow> election_config \<Rightarrow> timestamp \<Rightarrow> election \<times> ha_tables \<Rightarrow> election \<times> ha_tables" where
  "runRenewalTick opts cf now = (\<lambda>(e, s).
     if ec_renewal e \<noteq> None then (e, s)
     else if ec_state e \<noteq> Leader \<or> ec_disposed e then (stopRenewalLoop e, s)
     else
       case ha_renewLeadership opts now (ef_nodeId cf) (Some (hl_leaseTtlMs (ef_config cf))) s of
         (Inl _, s') \<Rightarrow> (e, s')
       | (Inr r, s') \<Rightarrow> (e\<lparr>ec_renewal := Some r\<rparr>, s'))"

definition finish_renewal :: "election_config \<Rightarrow> renewal \<Rightarrow> election \<Rightarrow> election" where
  "finish_renewal cf r e0 =
     (let e = e0\<lparr>ec_renewal := None\<rparr> in
      if rn_renewed r then emitElectionEvent ''leadership_renewed'' (e\<lparr>ec_currentLease := rn_lease r\<rparr>)
      else scheduleElectionRetry cf (stopRenewalLoop (emitElectionEvent ''leadership_expired'' (e\<lparr>ec_state := Follower, ec_currentLease := None\<rparr>))))"

section \<open>Clusters\<close>

text \<open>The steps of one service on the shared tables: calls of its methods, timers, and continuations.\<close>

inductive service_step :: "ha_options \<Rightarrow> election_config \<Rightarrow> election \<times> ha_tables \<Rightarrow> election \<times> ha_tables \<Rightarrow> bool" for opts cf where
  start: "service_step opts cf p (snd (start_service cf now nowMs p))"
| stop: "service_step opts cf p (stop_service cf now p)"
| dispose: "service_step opts cf (e, s) (dispose e, s)"
| transfer: "service_step opts cf p (transferLeadership cf now nowMs p)"
| force: "service_step opts cf p (forceAcquireLeadership opts cf now leaseId decisionId p)"
| heartbeat: "ec_beating e \<Longrightarrow> service_step opts cf (e, s) (runHeartbeatTick cf now (e, s))"
| renewal: "ec_renewing e \<Longrightarrow> service_step opts cf (e, s) (runRenewalTick opts cf now (e, s))"
| retry: "0 < ec_retries e \<Longrightarrow> service_step opts cf (e, s) (retry_fires now nowMs (e, s))"
| queried: "ec_pending e = Some (Queried q) \<Longrightarrow> service_step opts cf (e, s) (continue_election opts cf now leaseId decisionId q (e, s))"
| answered: "ec_pending e = Some (Answered r) \<Longrightarrow> service_step opts cf (e, s) (finish_election cf r e, s)"
| renewed: "ec_renewal e = Some r \<Longrightarrow> service_step opts cf (e, s) (finish_renewal cf r e, s)"
| released: "ec_releasing e = w # ws \<Longrightarrow> service_step opts cf (e, s) (finish_release w (e\<lparr>ec_releasing := ws\<rparr>), s)"
| forced: "ec_forcing e = r # rs \<Longrightarrow> service_step opts cf (e, s) (finish_force cf r (e\<lparr>ec_forcing := rs\<rparr>), s)"

record cluster =
  cl_services :: "nat \<Rightarrow> election"
  cl_tables :: ha_tables

text \<open>Any service takes a step, or the coordinator is used from elsewhere.\<close>

inductive cluster_step :: "ha_options \<Rightarrow> (nat \<Rightarrow> election_config) \<Rightarrow> cluster \<Rightarrow> cluster \<Rightarrow> bool" for opts cfs where
  service: "service_step opts (cfs i) (cl_services w i, cl_tables w) (e, s) \<Longrightarrow>
    cluster_step opts cfs w (w\<lparr>cl_services := (cl_services w)(i := e), cl_tables := s\<rparr>)"
| coordinator: "ha_step opts (cl_tables w) s \<Longrightarrow> cluster_step opts cfs w (w\<lparr>cl_tables := s\<rparr>)"

definition new_cluster :: "(nat \<Rightarrow> election_options) \<Rightarrow> cluster" where
  "new_cluster os = \<lparr>cl_services = (\<lambda>i. snd (new_LeaderElectionService (os i))), cl_tables = no_tables\<rparr>"

definition configs :: "(nat \<Rightarrow> election_options) \<Rightarrow> nat \<Rightarrow> election_config" where
  "configs os i = fst (new_LeaderElectionService (os i))"

section \<open>Epochs are never taken back\<close>

text \<open>The tokens that have been issued, with the nodes they were issued to.\<close>

definition owners :: "ha_tables \<Rightarrow> (ident option \<times> int) set" where
  "owners s = (\<lambda>e. (le_leaderNodeId e, le_fencingToken e)) ` set (ha_epochs s)"

lemma owners_simps [simp]:
  "owners (s\<lparr>ha_nodes := ns\<rparr>) = owners s" "owners (s\<lparr>ha_leases := ls\<rparr>) = owners s" "owners (s\<lparr>ha_decisions := ds\<rparr>) = owners s" "owners (s\<lparr>ha_audits := us\<rparr>) = owners s"
  "owners (end_epochs P now cause s) = owners s" "owners (close_leases i status s) = owners s" "owners (demote i s) = owners s"
  by (simp_all add: owners_def end_epochs_def close_leases_def demote_def)

interpretation epochs_kept: effect_order "\<lambda>s t. owners s \<subseteq> owners t"
  by unfold_locales auto

lemma effects_run: "effects_in R m \<Longrightarrow> m s = (r, t) \<Longrightarrow> R s t"
  unfolding effects_in_def by (metis snd_conv)

lemma take_over_owners: "effects_in (\<lambda>s t. owners s \<subseteq> owners t) (take_over now leaseId decisionId i ttl force ce leader)"
proof -
  have "effects_in (\<lambda>s t. owners s \<subseteq> owners t) (insert_lease l)" "effects_in (\<lambda>s t. owners s \<subseteq> owners t) (insert_epoch e)"
    "effects_in (\<lambda>s t. owners s \<subseteq> owners t) (insert_decision d)" for l e d
    by (auto simp: effects_in_def insert_lease_def insert_epoch_def insert_decision_def owners_def)
  then show ?thesis unfolding take_over_def Let_def
    by (intro epochs_kept.effects_bind epochs_kept.effects_basic epochs_kept.effects_modify epochs_kept.effects_case) (auto split: option.split)
qed

lemma transaction_result: "P s \<Longrightarrow> (\<And>y t. m s = (Inr y, t) \<Longrightarrow> P t) \<Longrightarrow> P (snd (ha_transaction m s))"
  by (auto simp: ha_transaction_def split: prod.split sum.split)

lemma acquire_owners: "owners s \<subseteq> owners (snd (ha_acquireLeadership opts now leaseId decisionId i s))"
proof -
  have take: "owners s \<subseteq> owners t" if "take_over now leaseId decisionId j ttl force ce leader s = (r, t)" for j ttl force ce leader r t s
    using effects_run [OF take_over_owners that] .
  have retired: "owners (retire now n l s) = owners s" for n l by (cases l) (simp_all add: retire_def)
  show ?thesis unfolding ha_acquireLeadership_def Let_def
    by (rule transaction_result) (auto split: if_splits option.splits dest!: take simp: retired)
qed

lemma failover_owners: "owners s \<subseteq> owners (snd (triggerFailover opts cmp now later leaseId innerId decisionId cause forced s))"
proof -
  have acquire: "effects_in (\<lambda>s t. owners s \<subseteq> owners t) (ha_acquireLeadership opts later leaseId innerId i)" for i
    using acquire_owners by (simp add: effects_in_def)
  have insert: "effects_in (\<lambda>s t. owners s \<subseteq> owners t) (insert_decision d)" for d by (auto simp: effects_in_def insert_decision_def)
  have run: "owners s \<subseteq> owners t"
    if "bindP (modifyP f) (\<lambda>_. bindP (ha_acquireLeadership opts later leaseId innerId i) (\<lambda>r. bindP (insert_decision (d r)) (\<lambda>_. returnP (d r)))) s = (r, t)"
      and "\<And>s. owners (f s) = owners s" for f i d r t
  proof -
    have "effects_in (\<lambda>s t. owners s \<subseteq> owners t)
        (bindP (modifyP f) (\<lambda>_. bindP (ha_acquireLeadership opts later leaseId innerId i) (\<lambda>r. bindP (insert_decision (d r)) (\<lambda>_. returnP (d r)))))"
      by (intro epochs_kept.effects_bind epochs_kept.effects_basic epochs_kept.effects_modify acquire insert) (simp add: that(2))
    from effects_run [OF this that(1)] show ?thesis .
  qed
  show ?thesis unfolding triggerFailover_def Let_def
    by (rule transaction_result) (auto split: if_splits option.splits dest!: run)
qed

lemma step_owners: "ha_step opts s t \<Longrightarrow> owners s \<subseteq> owners t"
proof (induction rule: ha_step.induct)
  case (acquire s now leaseId decisionId input)
  then show ?case by (rule acquire_owners)
next
  case (failover s cmp now later leaseId innerId decisionId cause forced)
  then show ?case by (rule failover_owners)
next
  case (increment s now leaseId decisionId i region)
  have "effects_in (\<lambda>s t. owners s \<subseteq> owners t) (incrementEpoch opts now leaseId decisionId i region)" unfolding incrementEpoch_def
    by (intro epochs_kept.effects_bind epochs_kept.effects_basic epochs_kept.effects_modify) (auto simp: effects_in_def acquire_owners registerNode_def Let_def subsetD [OF acquire_owners])
  then show ?case by (simp add: effects_in_def)
qed (auto simp: registerNode_def updateNodeHeartbeat_def removeNode_def ha_renewLeadership_def ha_transaction_def ha_releaseLeadership_def authorizeAction_def
    purgeExpiredLeases_def purgeOldFailoverDecisions_def Let_def split: option.splits if_splits)

lemma steps_owners: "(ha_step opts)\<^sup>*\<^sup>* s t \<Longrightarrow> owners s \<subseteq> owners t"
  by (induction rule: rtranclp_induct) (auto dest: step_owners)

lemma reign_owner: "reign (ha_epochs s) = Some (e, k, l) \<Longrightarrow> (l, k) \<in> owners s"
  by (auto simp: reign_def owners_def split: if_splits)

text \<open>A token has one owner.\<close>

lemma owner_unique:
  assumes "ha_ok s" "(a, k) \<in> owners s" "(b, k) \<in> owners s"
  shows "a = b"
proof -
  have "sorted_wrt (\<lambda>a b. le_fencingToken a < le_fencingToken b) (ha_epochs s)"
    using ha_okD(3) [OF assms(1)] unfolding epochs_ok_def by (auto intro: sorted_wrt_mono_rel [of "ha_epochs s" "\<lambda>a b. le_epoch a < le_epoch b \<and> le_fencingToken a < le_fencingToken b"])
  then have "sorted_wrt (<) (map le_fencingToken (ha_epochs s))" by (simp add: sorted_wrt_map)
  then have "inj_on le_fencingToken (set (ha_epochs s))" using strict_sorted_iff by (metis distinct_map)
  then show ?thesis using assms(2,3) by (auto simp: owners_def inj_on_def)
qed

section \<open>What a service may believe\<close>

definition owns :: "election_config \<Rightarrow> ha_tables \<Rightarrow> int \<Rightarrow> bool" where
  "owns cf s k \<longleftrightarrow> (Some (ef_nodeId cf), k) \<in> owners s"

definition answer_ok :: "election_config \<Rightarrow> ha_tables \<Rightarrow> ha_error + acquisition \<Rightarrow> bool" where
  "answer_ok cf s r \<longleftrightarrow> (\<forall>a. r = Inr a \<and> aq_acquired a \<longrightarrow> owns cf s (aq_fencingToken a))"

definition query_ok :: "election_config \<Rightarrow> ha_tables \<Rightarrow> leadership_query \<Rightarrow> bool" where
  "query_ok cf s q \<longleftrightarrow> (lq_isLeader q \<and> lq_leaderNodeId q = Some (ef_nodeId cf) \<longrightarrow> owns cf s (lq_fencingToken q))"

text \<open>A leader has a token that was issued to its node, and so have the answers it is waiting for.\<close>

definition service_ok :: "election_config \<Rightarrow> ha_tables \<Rightarrow> election \<Rightarrow> bool" where
  "service_ok cf s e \<longleftrightarrow> (ec_state e = Leader \<longrightarrow> owns cf s (ec_currentFencingToken e))
     \<and> (\<forall>q. ec_pending e = Some (Queried q) \<longrightarrow> query_ok cf s q) \<and> (\<forall>r. ec_pending e = Some (Answered r) \<longrightarrow> answer_ok cf s r)
     \<and> (\<forall>r \<in> set (ec_forcing e). answer_ok cf s r)"

lemma service_ok_mono: "service_ok cf s e \<Longrightarrow> owners s \<subseteq> owners t \<Longrightarrow> service_ok cf t e"
  by (auto simp: service_ok_def owns_def query_ok_def answer_ok_def)

lemma query_answer_ok:
  assumes ok: "ha_ok s"
  shows "query_ok cf s (queryLeadership now nowMs s)"
proof -
  have "owns cf s (le_fencingToken (getLatestEpoch s))" if "getCurrentLeader s = Some n" "cn_nodeId n = ef_nodeId cf" for n
    using that ha_okD(4) [OF ok, of n] current_leader_iff [OF ok] latest_epoch(2) [OF ha_okD(3) [OF ok]] by (auto simp: node_reigns_def owns_def dest: reign_owner)
  then show ?thesis by (auto simp: query_ok_def queryLeadership_def Let_def split: option.splits)
qed

lemma acquire_answer_ok:
  assumes ok: "ha_ok s"
  shows "answer_ok cf (snd (ha_acquireLeadership opts now leaseId decisionId \<lparr>ai_nodeId = ef_nodeId cf, ai_ttlMs = ttl, ai_forceAcquire = f\<rparr> s))
    (fst (ha_acquireLeadership opts now leaseId decisionId \<lparr>ai_nodeId = ef_nodeId cf, ai_ttlMs = ttl, ai_forceAcquire = f\<rparr> s))"
  using ok
proof (cases rule: leadership_cases [where opts = opts and now = now and leaseId = leaseId and decisionId = decisionId and i = "\<lparr>ai_nodeId = ef_nodeId cf, ai_ttlMs = ttl, ai_forceAcquire = f\<rparr>"])
  case (taken s')
  then show ?thesis by (auto simp: answer_ok_def owns_def granted_to_def seized_def new_leader_lease_def dest: reign_owner)
qed (simp_all add: answer_ok_def)

lemma timer_fields [simp]:
  "ec_state (emitElectionEvent v e) = ec_state e" "ec_currentFencingToken (emitElectionEvent v e) = ec_currentFencingToken e" "ec_pending (emitElectionEvent v e) = ec_pending e" "ec_forcing (emitElectionEvent v e) = ec_forcing e"
  "ec_state (startRenewalLoop cf e) = ec_state e" "ec_currentFencingToken (startRenewalLoop cf e) = ec_currentFencingToken e" "ec_pending (startRenewalLoop cf e) = ec_pending e"
  "ec_forcing (startRenewalLoop cf e) = ec_forcing e"
  "ec_state (stopRenewalLoop e) = ec_state e" "ec_currentFencingToken (stopRenewalLoop e) = ec_currentFencingToken e" "ec_pending (stopRenewalLoop e) = ec_pending e"
  "ec_forcing (stopRenewalLoop e) = ec_forcing e"
  "ec_state (startHeartbeat cf e) = ec_state e" "ec_currentFencingToken (startHeartbeat cf e) = ec_currentFencingToken e" "ec_pending (startHeartbeat cf e) = ec_pending e"
  "ec_forcing (startHeartbeat cf e) = ec_forcing e"
  "ec_state (stopHeartbeat e) = ec_state e" "ec_currentFencingToken (stopHeartbeat e) = ec_currentFencingToken e" "ec_pending (stopHeartbeat e) = ec_pending e"
  "ec_forcing (stopHeartbeat e) = ec_forcing e"
  "ec_state (scheduleElectionRetry cf e) = ec_state e" "ec_currentFencingToken (scheduleElectionRetry cf e) = ec_currentFencingToken e"
  "ec_pending (scheduleElectionRetry cf e) = ec_pending e" "ec_forcing (scheduleElectionRetry cf e) = ec_forcing e"
  "ec_currentFencingToken (clearRetryTimeouts e) = ec_currentFencingToken e" "ec_pending (clearRetryTimeouts e) = ec_pending e" "ec_forcing (clearRetryTimeouts e) = ec_forcing e"
  by (simp_all add: emitElectionEvent_def startRenewalLoop_def stopRenewalLoop_def startHeartbeat_def stopHeartbeat_def scheduleElectionRetry_def clearRetryTimeouts_def)

lemma coordinator_calls:
  "ha_acquireLeadership opts now leaseId decisionId i s = (r, s') \<Longrightarrow> ha_step opts s s'"
  "ha_renewLeadership opts now j ttl s = (v, s') \<Longrightarrow> ha_step opts s s'"
  "ha_releaseLeadership now j s = (b, s') \<Longrightarrow> ha_step opts s s'"
  by (metis ha_step.acquire snd_conv, metis ha_step.renew snd_conv, metis ha_step.release snd_conv)

lemma service_tables:
  assumes "service_step opts cf p q"
  shows "snd q = snd p \<or> ha_step opts (snd p) (snd q)"
  using assms
proof cases
  case (start now nowMs)
  then show ?thesis by (auto simp: start_service_def attemptElection_def Let_def intro: ha_step.register split: prod.splits)
next
  case (heartbeat e s now)
  then show ?thesis by (auto simp: runHeartbeatTick_def intro: ha_step.heartbeat)
qed (auto simp: stop_service_def transferLeadership_def release_begin_def forceAcquireLeadership_def runRenewalTick_def retry_fires_def attemptElection_def continue_election_def
    Let_def split: prod.splits sum.splits intro: coordinator_calls)

lemma service_tables_ok:
  assumes "service_step opts cf (e, s) (e', s')" and "ha_ok s"
  shows "ha_ok s'" and "owners s \<subseteq> owners s'"
  using service_tables [OF assms(1)] assms(2) step_advances [of opts s s'] step_owners [of opts s s'] by auto

lemma attempt_ok: "ha_ok s \<Longrightarrow> service_ok cf s e \<Longrightarrow> service_ok cf s (fst (attemptElection now nowMs (e, s)))"
  by (auto simp: attemptElection_def service_ok_def query_answer_ok)

lemma leader_ok: "service_ok cf s e \<Longrightarrow> owns cf s k \<Longrightarrow> service_ok cf s (become_leader cf lease epoch k e)"
  by (simp add: become_leader_def service_ok_def)

lemma service_ok_same:
  "service_ok cf s e \<Longrightarrow> ec_state e' = ec_state e \<or> ec_state e' \<noteq> Leader \<Longrightarrow> ec_currentFencingToken e' = ec_currentFencingToken e \<Longrightarrow>
    ec_pending e' = ec_pending e \<or> ec_pending e' = None \<Longrightarrow> set (ec_forcing e') \<subseteq> set (ec_forcing e) \<Longrightarrow> service_ok cf s e'"
  by (auto simp: service_ok_def)

lemma acquired_ok:
  assumes ok: "ha_ok s" "service_ok cf s e"
    and run: "ha_acquireLeadership opts now leaseId decisionId \<lparr>ai_nodeId = ef_nodeId cf, ai_ttlMs = ttl, ai_forceAcquire = f\<rparr> s = (r, s')"
  shows "service_ok cf s' (e\<lparr>ec_pending := Some (Answered r)\<rparr>)" and "service_ok cf s' (e\<lparr>ec_forcing := ec_forcing e @ [r]\<rparr>)"
proof -
  have "answer_ok cf s' r" using acquire_answer_ok [OF ok(1), of cf opts now leaseId decisionId ttl f] run by simp
  moreover have "service_ok cf s' e" using service_ok_mono [OF ok(2)] step_owners coordinator_calls(1) [OF run] by blast
  ultimately show "service_ok cf s' (e\<lparr>ec_pending := Some (Answered r)\<rparr>)" "service_ok cf s' (e\<lparr>ec_forcing := ec_forcing e @ [r]\<rparr>)"
    by (auto simp: service_ok_def)
qed

lemma service_step_ok:
  assumes step: "service_step opts cf (e, s) (e', s')" and ok: "ha_ok s" "service_ok cf s e" and level: "hl_haLevel (ef_config cf) \<noteq> HA_1"
  shows "service_ok cf s' e'"
proof -
  have later: "service_ok cf s' e" using service_ok_mono [OF ok(2) service_tables_ok(2) [OF step ok(1)]] .
  from step show ?thesis
  proof cases
    case (start now nowMs)
    then show ?thesis
    proof (cases "ec_disposed e \<or> ec_state e \<noteq> Stopped")
      case True
      then show ?thesis using start ok by (auto simp: start_service_def split: if_splits)
    next
      case False
      let ?e1 = "startHeartbeat cf (emitElectionEvent ''election_start'' (e\<lparr>ec_state := Starting\<rparr>))"
      have eq: "(e', s') = attemptElection now nowMs (?e1, snd (registerNode now (ef_nodeId cf) (ef_region cf) (ef_nodeMetadata cf) s))"
        using start False level by (simp add: start_service_def Let_def)
      then have "s' = snd (registerNode now (ef_nodeId cf) (ef_region cf) (ef_nodeMetadata cf) s)" by (auto simp: attemptElection_def split: if_splits)
      moreover have "service_ok cf s' ?e1" by (rule service_ok_same [OF later]) simp_all
      ultimately show ?thesis using attempt_ok [of s' cf ?e1 now nowMs] service_tables_ok(1) [OF step ok(1)] eq by (metis fst_conv)
    qed
  next
    case (retry now nowMs)
    let ?e = "e\<lparr>ec_retries := ec_retries e - 1\<rparr>"
    have "service_ok cf s ?e" by (rule service_ok_same [OF ok(2)]) simp_all
    then show ?thesis using retry attempt_ok [OF ok(1), of cf ?e now nowMs] by (auto simp: retry_fires_def Let_def attemptElection_def split: if_splits)
  next
    case (queried q now leaseId decisionId)
    have e: "service_ok cf s (e\<lparr>ec_pending := None\<rparr>)" by (rule service_ok_same [OF ok(2)]) simp_all
    have q: "query_ok cf s q" using queried ok(2) by (simp add: service_ok_def)
    show ?thesis
      using queried e q leader_ok [OF e] acquired_ok(1) [OF ok] service_ok_same [OF e, of "emitElectionEvent ''follower_elected'' (e\<lparr>ec_state := Follower, ec_pending := None\<rparr>)"]
      by (auto simp: continue_election_def query_ok_def Let_def split: if_splits prod.splits)
  next
    case (answered r)
    have "service_ok cf s (e\<lparr>ec_pending := None\<rparr>)" "answer_ok cf s r" using ok(2) answered by (auto simp: service_ok_def)
    then show ?thesis using answered leader_ok by (auto simp: finish_election_def answer_ok_def service_ok_def Let_def become_leader_def split: sum.split)
  next
    case (forced r rs)
    have "service_ok cf s (e\<lparr>ec_forcing := rs\<rparr>)" "answer_ok cf s r" using ok(2) forced by (auto simp: service_ok_def)
    then show ?thesis using forced leader_ok by (auto simp: finish_force_def answer_ok_def split: sum.split)
  next
    case (force now leaseId decisionId)
    then show ?thesis using acquired_ok(2) [OF ok] ok(2) by (auto simp: forceAcquireLeadership_def Let_def split: prod.splits if_splits)
  qed (rule service_ok_same [OF later]; auto simp: stop_service_def dispose_def transferLeadership_def release_begin_def runHeartbeatTick_def runRenewalTick_def
      finish_renewal_def finish_release_def release_end_def Let_def split: prod.splits sum.splits if_splits release_wait.splits)+
qed

definition cluster_ok :: "(nat \<Rightarrow> election_config) \<Rightarrow> cluster \<Rightarrow> bool" where
  "cluster_ok cfs w \<longleftrightarrow> ha_ok (cl_tables w) \<and> (\<forall>i. hl_haLevel (ef_config (cfs i)) \<noteq> HA_1 \<longrightarrow> service_ok (cfs i) (cl_tables w) (cl_services w i))"

lemma cluster_step_ok:
  assumes "cluster_step opts cfs w w'" and ok: "cluster_ok cfs w"
  shows "cluster_ok cfs w'"
  using assms(1)
proof cases
  case (service i e s)
  have tables: "ha_ok s" "owners (cl_tables w) \<subseteq> owners s" using service_tables_ok [OF service(2)] ok by (simp_all add: cluster_ok_def)
  have "service_ok (cfs j) s (cl_services w' j)" if "hl_haLevel (ef_config (cfs j)) \<noteq> HA_1" for j
    using service_step_ok [OF service(2)] service_ok_mono [OF _ tables(2)] ok that service(1) by (cases "j = i") (simp_all add: cluster_ok_def)
  then show ?thesis using tables(1) service(1) by (simp add: cluster_ok_def)
next
  case (coordinator s)
  then show ?thesis using ok step_advances [OF coordinator(2)] service_ok_mono [OF _ step_owners [OF coordinator(2)]] by (simp add: cluster_ok_def)
qed

lemma new_cluster_ok: "cluster_ok (configs os) (new_cluster os)"
  by (simp add: cluster_ok_def new_cluster_def start_ok service_ok_def new_LeaderElectionService_def Let_def)

lemma cluster_reachable_ok: "(cluster_step opts (configs os))\<^sup>*\<^sup>* (new_cluster os) w \<Longrightarrow> cluster_ok (configs os) w"
  by (induction rule: rtranclp_induct) (auto intro: new_cluster_ok cluster_step_ok)

section \<open>What the elections guarantee\<close>


text \<open>A follower with nothing scheduled, and the steps of a cluster in which none of its methods is called: its timers and continuations, and everything else.\<close>

definition resting :: "election \<Rightarrow> bool" where
  "resting e \<longleftrightarrow> ec_state e = Follower \<and> ec_pending e = None \<and> ec_retries e = 0 \<and> \<not> ec_renewing e \<and> ec_renewal e = None \<and> ec_forcing e = [] \<and> ec_releasing e = []"

inductive background_step :: "ha_options \<Rightarrow> election_config \<Rightarrow> election \<times> ha_tables \<Rightarrow> election \<times> ha_tables \<Rightarrow> bool" for opts cf where
  "ec_beating e \<Longrightarrow> background_step opts cf (e, s) (runHeartbeatTick cf now (e, s))"
| "ec_renewing e \<Longrightarrow> background_step opts cf (e, s) (runRenewalTick opts cf now (e, s))"
| "0 < ec_retries e \<Longrightarrow> background_step opts cf (e, s) (retry_fires now nowMs (e, s))"
| "ec_pending e = Some (Queried q) \<Longrightarrow> background_step opts cf (e, s) (continue_election opts cf now leaseId decisionId q (e, s))"
| "ec_pending e = Some (Answered r) \<Longrightarrow> background_step opts cf (e, s) (finish_election cf r e, s)"
| "ec_renewal e = Some r \<Longrightarrow> background_step opts cf (e, s) (finish_renewal cf r e, s)"
| "ec_releasing e = w # ws \<Longrightarrow> background_step opts cf (e, s) (finish_release w (e\<lparr>ec_releasing := ws\<rparr>), s)"
| "ec_forcing e = r # rs \<Longrightarrow> background_step opts cf (e, s) (finish_force cf r (e\<lparr>ec_forcing := rs\<rparr>), s)"

lemma background_is_step: "background_step opts cf p q \<Longrightarrow> service_step opts cf p q"
  by (induction rule: background_step.induct) (auto intro: service_step.intros)

lemma resting_background: "background_step opts cf (e, s) (e', s') \<Longrightarrow> resting e \<Longrightarrow> e' = e"
  by (auto elim!: background_step.cases simp: resting_def runHeartbeatTick_def split: if_splits)

inductive unattended_step :: "ha_options \<Rightarrow> (nat \<Rightarrow> election_config) \<Rightarrow> nat \<Rightarrow> cluster \<Rightarrow> cluster \<Rightarrow> bool" for opts cfs i where
  others: "j \<noteq> i \<Longrightarrow> service_step opts (cfs j) (cl_services w j, cl_tables w) (e, s) \<Longrightarrow>
    unattended_step opts cfs i w (w\<lparr>cl_services := (cl_services w)(j := e), cl_tables := s\<rparr>)"
| coordinator: "ha_step opts (cl_tables w) s \<Longrightarrow> unattended_step opts cfs i w (w\<lparr>cl_tables := s\<rparr>)"
| own: "background_step opts (cfs i) (cl_services w i, cl_tables w) (e, s) \<Longrightarrow>
    unattended_step opts cfs i w (w\<lparr>cl_services := (cl_services w)(i := e), cl_tables := s\<rparr>)"

lemma unattended_cluster: "unattended_step opts cfs i w w' \<Longrightarrow> cluster_step opts cfs w w'"
  by (induction rule: unattended_step.induct) (auto intro: cluster_step.intros background_is_step)

text \<open>
  C37. A follower does not take over: a service that finds another node leading under a valid lease becomes a follower and schedules nothing, and
  then, whatever happens to the leader, its own timers never make it stand for election again.
\<close>

theorem follower_never_stands_again:
  assumes q: "lq_isLeader q" "lq_leaderNodeId q = Some b" "b \<noteq> []" "b \<noteq> ef_nodeId (cfs i)" "\<not> lq_isExpired q"
    and idle: "ec_retries (cl_services w i) = 0" "\<not> ec_renewing (cl_services w i)" "ec_renewal (cl_services w i) = None" "ec_forcing (cl_services w i) = []"
      "ec_releasing (cl_services w i) = []"
    and answer: "continue_election opts (cfs i) now leaseId decisionId q (cl_services w i, cl_tables w) = (e, s)"
    and later: "(unattended_step opts cfs i)\<^sup>*\<^sup>* (w\<lparr>cl_services := (cl_services w)(i := e), cl_tables := s\<rparr>) w'"
  shows "ec_state e = Follower \<and> cl_services w' i = e"
proof -
  have e: "resting e" using answer q idle by (auto simp: continue_election_def resting_def emitElectionEvent_def)
  have "cl_services w' i = e" using later
  proof (induction rule: rtranclp_induct)
    case (step w1 w2)
    from step(2) show ?case
    proof cases
      case (own e' s')
      then show ?thesis using step(3) e resting_background [OF own(2)] by simp
    qed (use step(3) in auto)
  qed simp
  then show ?thesis using e by (simp add: resting_def)
qed

text \<open>
  Stopping does not end an election: when a service is stopped while it waits for the answer of the coordinator, the stop finishes at once and releases nothing, and a
  positive answer then makes the stopped service the leader, with its renewals running.
\<close>

theorem stop_does_not_end_election:
  assumes "ec_pending e = Some (Answered (Inr a))" and "aq_acquired a" and "ec_state e = Candidate" and "\<not> ec_disposed e" and "0 < hl_leaseRenewalIntervalMs (ef_config cf)"
    and "stop_service cf now (e, s) = (e', s')"
  shows "ec_state e' = Stopped \<and> s' = s \<and> ec_releasing e' = ec_releasing e \<and> service_step opts cf (e', s') (finish_election cf (Inr a) e', s')
    \<and> ec_state (finish_election cf (Inr a) e') = Leader \<and> ec_renewing (finish_election cf (Inr a) e')
    \<and> ec_currentFencingToken (finish_election cf (Inr a) e') = aq_fencingToken a"
proof -
  have e': "e' = (stopHeartbeat (stopRenewalLoop (e\<lparr>ec_state := Shutdown\<rparr>)))\<lparr>ec_state := Stopped\<rparr>" "s' = s" using assms by (auto simp: stop_service_def Let_def)
  then have "ec_pending e' = Some (Answered (Inr a))" "ec_releasing e' = ec_releasing e" "ec_state e' = Stopped" "\<not> ec_renewing e'"
    using assms(1) by (simp_all add: stopHeartbeat_def stopRenewalLoop_def)
  then show ?thesis using e' assms(2,5) service_step.answered [of e' "Inr a" opts cf s']
    by (simp add: finish_election_def become_leader_def emitElectionEvent_def startRenewalLoop_def)
qed

section \<open>A cluster of two nodes\<close>

definition demo_election :: "nat \<Rightarrow> election_options" where
  "demo_election i = \<lparr>eo_nodeId = (if i = 0 then ''a'' else ''b''), eo_region = ''eu'', eo_haLevel = None, eo_haConfig = id, eo_leaseTtlMs = None, eo_renewalIntervalMs = None,
     eo_heartbeatIntervalMs = None, eo_maxElectionAttempts = None, eo_nodeMetadata = None\<rparr>"

text \<open>A start with the continuations of its election.\<close>

definition run_election :: "ha_options \<Rightarrow> election_config \<Rightarrow> timestamp \<Rightarrow> ident \<Rightarrow> ident \<Rightarrow> election \<times> ha_tables \<Rightarrow> election \<times> ha_tables" where
  "run_election opts cf now leaseId decisionId p =
     (let (e1, s1) = snd (start_service cf now now p) in
      case ec_pending e1 of
        Some (Queried q) \<Rightarrow>
          let (e2, s2) = continue_election opts cf now leaseId decisionId q (e1, s1) in
          (case ec_pending e2 of Some (Answered r) \<Rightarrow> (finish_election cf r e2, s2) | _ \<Rightarrow> (e2, s2))
      | _ \<Rightarrow> (e1, s1))"

lemma run_election_steps: "(service_step opts cf)\<^sup>*\<^sup>* p (run_election opts cf now leaseId decisionId p)"
proof -
  obtain e1 s1 where start: "snd (start_service cf now now p) = (e1, s1)" by fastforce
  then have one: "(service_step opts cf)\<^sup>*\<^sup>* p (e1, s1)" using service_step.start [of opts cf p now now] by auto
  show ?thesis
  proof (cases "ec_pending e1")
    case (Some u)
    show ?thesis
    proof (cases u)
      case (Queried q)
      obtain e2 s2 where go: "continue_election opts cf now leaseId decisionId q (e1, s1) = (e2, s2)" by fastforce
      then have two: "(service_step opts cf)\<^sup>*\<^sup>* p (e2, s2)"
        using one service_step.queried [of e1 q opts cf s1 now leaseId decisionId] Some Queried by (auto intro: rtranclp.rtrancl_into_rtrancl)
      then have "(service_step opts cf)\<^sup>*\<^sup>* p (finish_election cf r e2, s2)" if "ec_pending e2 = Some (Answered r)" for r
        using service_step.answered [OF that] by (rule rtranclp.rtrancl_into_rtrancl)
      with two start go Some Queried show ?thesis by (simp add: run_election_def split: option.split election_wait.split)
    qed (use one start Some in \<open>simp add: run_election_def\<close>)
  qed (use one start in \<open>simp add: run_election_def\<close>)
qed

lemma cluster_runs:
  assumes "(service_step opts (cfs i))\<^sup>*\<^sup>* (cl_services w i, cl_tables w) (e, s)"
  shows "(cluster_step opts cfs)\<^sup>*\<^sup>* w (w\<lparr>cl_services := (cl_services w)(i := e), cl_tables := s\<rparr>)"
proof -
  have "(cluster_step opts cfs)\<^sup>*\<^sup>* w (w\<lparr>cl_services := (cl_services w)(i := fst q), cl_tables := snd q\<rparr>)"
    if "(service_step opts (cfs i))\<^sup>*\<^sup>* (cl_services w i, cl_tables w) q" for q using that
  proof (induction rule: rtranclp_induct)
    case (step q r)
    from step(2) have "cluster_step opts cfs (w\<lparr>cl_services := (cl_services w)(i := fst q), cl_tables := snd q\<rparr>) (w\<lparr>cl_services := (cl_services w)(i := fst r), cl_tables := snd r\<rparr>)"
      using cluster_step.service [of opts cfs i "w\<lparr>cl_services := (cl_services w)(i := fst q), cl_tables := snd q\<rparr>" "fst r" "snd r"] by simp
    then show ?case using step(3) by (rule rtranclp.rtrancl_into_rtrancl [rotated])
  qed simp
  from this [OF assms] show ?thesis by simp
qed

definition leader_a :: "election \<times> ha_tables" where
  "leader_a = run_election demo_options (configs demo_election 0) 0 ''l1'' ''d1'' (snd (new_LeaderElectionService (demo_election 0)), no_tables)"

definition leader_b :: "timestamp \<Rightarrow> election \<times> ha_tables" where
  "leader_b now = run_election demo_options (configs demo_election 1) now ''l2'' ''d2'' (snd (new_LeaderElectionService (demo_election 1)), snd leader_a)"

definition one_elected :: cluster where
  "one_elected = \<lparr>cl_services = (cl_services (new_cluster demo_election))(0 := fst leader_a), cl_tables = snd leader_a\<rparr>"

definition both_elected :: "timestamp \<Rightarrow> cluster" where
  "both_elected now = \<lparr>cl_services = (cl_services one_elected)(1 := fst (leader_b now)), cl_tables = snd (leader_b now)\<rparr>"

lemma both_elected_reached:
  "(cluster_step demo_options (configs demo_election))\<^sup>*\<^sup>* (new_cluster demo_election) one_elected"
  "(cluster_step demo_options (configs demo_election))\<^sup>*\<^sup>* (new_cluster demo_election) (both_elected now)"
proof -
  have a: "(service_step demo_options (configs demo_election 0))\<^sup>*\<^sup>* (cl_services (new_cluster demo_election) 0, cl_tables (new_cluster demo_election)) (fst leader_a, snd leader_a)"
    using run_election_steps [of demo_options "configs demo_election 0" "(snd (new_LeaderElectionService (demo_election 0)), no_tables)" 0 "''l1''" "''d1''"]
    by (simp add: leader_a_def new_cluster_def)
  show one: "(cluster_step demo_options (configs demo_election))\<^sup>*\<^sup>* (new_cluster demo_election) one_elected"
    using cluster_runs [where cfs = "configs demo_election" and i = 0, OF a] by (simp add: one_elected_def new_cluster_def)
  have b: "(service_step demo_options (configs demo_election 1))\<^sup>*\<^sup>* (cl_services one_elected 1, cl_tables one_elected) (fst (leader_b now), snd (leader_b now))"
    using run_election_steps [of demo_options "configs demo_election 1" "(snd (new_LeaderElectionService (demo_election 1)), snd leader_a)" now "''l2''" "''d2''"]
    by (simp add: leader_b_def one_elected_def new_cluster_def)
  have "(cluster_step demo_options (configs demo_election))\<^sup>*\<^sup>* one_elected (both_elected now)"
    using cluster_runs [where cfs = "configs demo_election" and i = 1, OF b] by (simp add: both_elected_def one_elected_def)
  with one show "(cluster_step demo_options (configs demo_election))\<^sup>*\<^sup>* (new_cluster demo_election) (both_elected now)" by (rule rtranclp_trans)
qed

lemma elected_states:
  "ec_state (fst leader_a) = Leader" "ec_currentFencingToken (fst leader_a) = 2" "ec_state (fst (leader_b 15000)) = Leader" "ec_currentFencingToken (fst (leader_b 15000)) = 3"
  "hl_haLevel (ef_config (configs demo_election 0)) = HA_2" "hl_haLevel (ef_config (configs demo_election 1)) = HA_2"
  "lq_isLeader (queryLeadership 15001 15001 (snd (leader_b 15000)))" "verifyWriteAuthority 3 (snd (leader_b 15000))" "\<not> verifyWriteAuthority 2 (snd (leader_b 15000))"
  by code_simp+

text \<open>
  Two nodes may both report that they lead: after the lease of the first leader has run out and a second node has been elected, and before the first has noticed,
  \<^verbatim>\<open>isCurrentLeader\<close> answers yes on both.
\<close>

theorem two_nodes_report_leadership:
  "\<exists>w. (cluster_step demo_options (configs demo_election))\<^sup>*\<^sup>* (new_cluster demo_election) w \<and> eo_nodeId (demo_election 0) \<noteq> eo_nodeId (demo_election 1)
     \<and> isCurrentLeader (configs demo_election 0) 15001 15001 (cl_services w 0) (cl_tables w)
     \<and> isCurrentLeader (configs demo_election 1) 15001 15001 (cl_services w 1) (cl_tables w)
     \<and> getLeaderNodeId (configs demo_election 0) (cl_services w 0) (cl_tables w) = Some (eo_nodeId (demo_election 1))"
proof -
  have "map_option cn_nodeId (getCurrentLeader (snd (leader_b 15000))) = Some ''b''" by code_simp
  then show ?thesis using both_elected_reached(2) [of 15000] elected_states
    by (intro exI [of _ "both_elected 15000"])
      (simp add: isCurrentLeader_def getLeaderNodeId_def service_queryLeadership_def both_elected_def one_elected_def demo_election_def)
qed


text \<open>The second node finds the first leading, the first goes away, and the second does not take its place.\<close>

definition b_waits :: "election \<times> ha_tables" where
  "b_waits = snd (start_service (configs demo_election 1) 100 100 (snd (new_LeaderElectionService (demo_election 1)), snd leader_a))"

definition seen_by_b :: leadership_query where
  "seen_by_b = queryLeadership 100 100 (snd b_waits)"

theorem follower_never_stands_again_witness:
  "\<exists>w. (unattended_step demo_options (configs demo_election) 1)\<^sup>*\<^sup>* \<lparr>cl_services = (cl_services one_elected)(1 := emitElectionEvent ''follower_elected'' ((fst b_waits)\<lparr>ec_state := Follower, ec_pending := None\<rparr>)),
      cl_tables = snd b_waits\<rparr> w \<and> getCurrentLeader (cl_tables w) = None \<and> ec_state (cl_services w 1) = Follower"
proof -
  let ?w = "\<lparr>cl_services = (cl_services one_elected)(1 := fst b_waits), cl_tables = snd b_waits\<rparr>"
  let ?e = "emitElectionEvent ''follower_elected'' ((fst b_waits)\<lparr>ec_state := Follower, ec_pending := None\<rparr>)" and ?s = "snd (ha_releaseLeadership 200 ''a'' (snd b_waits))"
  let ?w1 = "?w\<lparr>cl_services := (cl_services ?w)(1 := ?e), cl_tables := snd b_waits\<rparr>"
  have seen: "lq_isLeader seen_by_b" "lq_leaderNodeId seen_by_b = Some ''a''" "\<not> lq_isExpired seen_by_b" "ef_nodeId (configs demo_election 1) = ''b''" by code_simp+
  have idle: "ec_retries (fst b_waits) = 0" "\<not> ec_renewing (fst b_waits)" "ec_renewal (fst b_waits) = None" "ec_forcing (fst b_waits) = []" "ec_releasing (fst b_waits) = []" by code_simp+
  have answer: "continue_election demo_options (configs demo_election 1) 100 ''l2'' ''d2'' seen_by_b (cl_services ?w 1, cl_tables ?w) = (?e, snd b_waits)"
    using seen by (simp add: continue_election_def case_prod_unfold)
  have left: "(unattended_step demo_options (configs demo_election) 1)\<^sup>*\<^sup>* ?w1 (?w1\<lparr>cl_tables := ?s\<rparr>)"
    by (rule r_into_rtranclp, rule unattended_step.coordinator) (simp add: ha_step.release)
  have "ec_state ?e = Follower \<and> cl_services (?w1\<lparr>cl_tables := ?s\<rparr>) 1 = ?e"
    by (rule follower_never_stands_again [OF seen(1,2) _ _ seen(3) _ _ _ _ _ answer left]) (simp_all add: seen(4) [unfolded One_nat_def] idle)
  moreover have "getCurrentLeader ?s = None" by code_simp
  ultimately show ?thesis using left by (intro exI [of _ "?w1\<lparr>cl_tables := ?s\<rparr>"]) simp
qed

definition a_waits :: "election \<times> ha_tables" where
  "a_waits = (let (e, s) = snd (start_service (configs demo_election 0) 0 0 (snd (new_LeaderElectionService (demo_election 0)), no_tables))
     in continue_election demo_options (configs demo_election 0) 0 ''l1'' ''d1'' (queryLeadership 0 0 s) (e, s))"

theorem stop_does_not_end_election_witness:
  "ec_state (fst (stop_service (configs demo_election 0) 0 a_waits)) = Stopped
     \<and> ec_state (finish_election (configs demo_election 0) (Inr (granted_to (demo_lease\<lparr>ll_nodeId := ''a''\<rparr>))) (fst (stop_service (configs demo_election 0) 0 a_waits))) = Leader"
proof -
  have a: "ec_pending (fst a_waits) = Some (Answered (Inr (granted_to (demo_lease\<lparr>ll_nodeId := ''a''\<rparr>))))" "ec_state (fst a_waits) = Candidate" "\<not> ec_disposed (fst a_waits)"
    "0 < hl_leaseRenewalIntervalMs (ef_config (configs demo_election 0))" by code_simp+
  obtain e' s' where stop: "stop_service (configs demo_election 0) 0 (fst a_waits, snd a_waits) = (e', s')" by fastforce
  from stop_does_not_end_election [OF a(1) _ a(2-4) stop] stop show ?thesis by (simp add: granted_to_def)
qed

end
