(* ===== verification/Side_Effects.thy ===== *)
theory Side_Effects
  imports Runtime_State_Machine
begin

text \<open>
  The side-effect manager (\<^verbatim>\<open>src/src/platform/five-plane-execution/side-effect-manager.ts\<close>): the moves of a
  side effect through its life cycle, the reconciliation of one side effect with what a probe observed, and the sweep
  over all side effects whose outcome is open.

  The pre-commit validator and the probe are code of the caller: programs on its world \<open>'w\<close> that may throw. What \<^verbatim>\<open>newId\<close> and
  the clock return during one call is the record \<open>sfx_env\<close>; a sweep has one for every position of its list. The manager keeps no
  state of its own between the awaits of a sweep, so what other code does there is part of what the probe does to the world.
  \<^verbatim>\<open>encodeURIComponent\<close> is modelled for the characters with a code below 256, which UTF-8 writes as one or two bytes.
\<close>

section \<open>Percent encoding\<close>

definition hex_digit :: "nat \<Rightarrow> char" where
  "hex_digit n = ''0123456789ABCDEF'' ! n"

definition percent_byte :: "nat \<Rightarrow> string" where
  "percent_byte n = [CHR ''%'', hex_digit (n div 16), hex_digit (n mod 16)]"

definition uri_unreserved :: "char \<Rightarrow> bool" where
  "uri_unreserved c \<longleftrightarrow>
     c \<in> set ''ABCDEFGHIJKLMNOPQRSTUVWXYZabcdefghijklmnopqrstuvwxyz0123456789-_.!~*()'' \<or> (of_char c :: nat) = 39"

definition encode_uri_char :: "char \<Rightarrow> string" where
  "encode_uri_char c =
     (let n = of_char c in
      if uri_unreserved c then [c]
      else if n < 128 then percent_byte n
      else percent_byte (192 + n div 64) @ percent_byte (128 + n mod 64))"

definition encodeURIComponent :: "string \<Rightarrow> string" where
  "encodeURIComponent s = concat (map encode_uri_char s)"

definition buildSideEffectAuditRef :: "ident \<Rightarrow> string \<Rightarrow> string" where
  "buildSideEffectAuditRef sideEffectId reasonCode =
     ''audit://side-effects/'' @ encodeURIComponent sideEffectId @ ''/'' @ encodeURIComponent reasonCode"

section \<open>The manager\<close>

record sfx_context =
  sx_tenantId :: ident
  sx_traceId :: ident
  sx_emittedBy :: string
  sx_occurredAt :: "timestamp option"

record reasoned_context = sfx_context +
  sx_reasonCode :: string

definition with_reason :: "sfx_context \<Rightarrow> string \<Rightarrow> reasoned_context" where
  "with_reason ctx r = sfx_context.extend ctx (reasoned_context.fields r)"

record sfx_env =
  sv_recordNow :: timestamp
  sv_now :: timestamp
  sv_reconciliationId :: ident
  sv_commandId :: ident
  sv_eventId :: ident
  sv_payloadHash :: string

datatype sfx_error =
    Reconciliation_requires_lease_and_fencing
  | Sfx_contract contract_error
  | Sfx_machine runtime_error
  | Sfx_external string

record sfx_payload =
  sp_fromStatus :: side_effect_status
  sp_toStatus :: side_effect_status
  sp_reasonCode :: string
  sp_auditRef :: string
  sp_sideEffectSafety :: side_effect_safety

type_synonym sfx_event = "sfx_payload event_envelope"
type_synonym 'w sfx_validator =
  "side_effect_record \<Rightarrow> side_effect_status \<Rightarrow> reasoned_context \<Rightarrow> ('w, sfx_error, unit) prog"

definition sfx_safety :: "side_effect_record \<Rightarrow> side_effect_safety" where
  "sfx_safety s =
     \<lparr>ss_idempotencyKey = Some (se_idempotencyKey s),
      ss_preCommitPolicyProofRef = Some (ar_uri (se_preCommitPolicyProofRef s)),
      ss_humanApprovalRef = se_approvalRef s, ss_reversible = None\<rparr>"

definition sfx_event_input ::
    "side_effect_record \<Rightarrow> side_effect_status \<Rightarrow> reasoned_context \<Rightarrow> timestamp \<Rightarrow> sfx_payload event_input" where
  "sfx_event_input s toStatus ctx occurredAt =
     \<lparr>ei_eventType = ''platform.side_effect.status_changed'',
      ei_aggregateType = ''SideEffectRecord'', ei_aggregateId = se_sideEffectId s, ei_aggregateSeq = 1,
      ei_tenantId = sx_tenantId ctx, ei_runId = Some (se_harnessRunId s), ei_traceId = sx_traceId ctx,
      ei_payload =
        \<lparr>sp_fromStatus = se_status s, sp_toStatus = toStatus, sp_reasonCode = sx_reasonCode ctx,
         sp_auditRef = buildSideEffectAuditRef (se_sideEffectId s) (sx_reasonCode ctx),
         sp_sideEffectSafety = sfx_safety s\<rparr>,
      ei_source = Some (sx_emittedBy ctx), ei_eventId = None, ei_schemaVersion = None, ei_causationId = None,
      ei_correlationId = None, ei_payloadHash = None, ei_replayBehavior = None, ei_schemaOwner = None,
      ei_consumerContractTests = None, ei_occurredAt = Some occurredAt, ei_derivedFromEventIds = []\<rparr>"

definition lift_sfx_contract :: "contract_error + 'a \<Rightarrow> sfx_error + 'a" where
  "lift_sfx_contract r = (case r of Inl e \<Rightarrow> Inl (Sfx_contract e) | Inr x \<Rightarrow> Inr x)"

definition transitionSideEffect ::
    "'w sfx_validator option \<Rightarrow> sfx_env \<Rightarrow> side_effect_record \<Rightarrow> side_effect_status \<Rightarrow> reasoned_context \<Rightarrow>
     ('w, sfx_error, side_effect_record \<times> sfx_event) prog" where
  "transitionSideEffect validator env s toStatus ctx =
     bindP (case validator of None \<Rightarrow> returnP () | Some validate \<Rightarrow> validate s toStatus ctx) (\<lambda>_.
     let occurredAt = coalesce (sx_occurredAt ctx) (sv_now env);
         aggregate = s\<lparr>se_status := toStatus, se_updatedAt := occurredAt\<rparr>
     in bindP (liftP (lift_sfx_contract (createPlatformFactEvent (sv_now env) (sv_eventId env) (sv_payloadHash env)
                  (sfx_event_input s toStatus ctx occurredAt)))) (\<lambda>event.
        returnP (aggregate, event)))"

text \<open>
  The method that goes through the runtime state machine; no other method calls it. The machine's persistence callback
  changes the world when it returns.
\<close>

definition sfx_command :: "sfx_env \<Rightarrow> side_effect_record \<Rightarrow> side_effect_status \<Rightarrow> reasoned_context \<Rightarrow> transition_command" where
  "sfx_command env s toStatus ctx =
     \<lparr>rc_commandId = sv_commandId env, rc_aggregate = Agg_SideEffect s,
      rc_fromStatus = name_in SE_STATUSES (se_status s), rc_toStatus = name_in SE_STATUSES toStatus,
      rc_principal = sx_emittedBy ctx, rc_expectedSeq = None, rc_expectedVersion = None,
      rc_leaseId = None, rc_fencingToken = None, rc_traceId = sx_traceId ctx, rc_tenantId = sx_tenantId ctx,
      rc_reasonCode = sx_reasonCode ctx, rc_emittedBy = sx_emittedBy ctx, rc_runVersionLockId = None,
      rc_policyGuard = None, rc_budgetPrecondition = None, rc_sideEffectSafety = Some (sfx_safety s),
      rc_auditRef = Some (buildSideEffectAuditRef (se_sideEffectId s) (sx_reasonCode ctx)),
      rc_occurredAt = sx_occurredAt ctx\<rparr>"

definition transitionSideEffectViaStateMachine ::
    "'w persist_callback option \<Rightarrow> sfx_env \<Rightarrow> side_effect_record \<Rightarrow> side_effect_status \<Rightarrow> reasoned_context \<Rightarrow> 'w \<Rightarrow>
     sfx_error + (runtime_aggregate \<times> fact_event \<times> 'w)" where
  "transitionSideEffectViaStateMachine persistEvent env s toStatus ctx w =
     (case transition persistEvent (sv_now env) (sv_eventId env) (sv_payloadHash env) (sfx_command env s toStatus ctx) w of
        Inl e \<Rightarrow> Inl (Sfx_machine e) | Inr x \<Rightarrow> Inr x)"

type_synonym 'w sfx_move = "sfx_env \<Rightarrow> side_effect_record \<Rightarrow> sfx_context \<Rightarrow> ('w, sfx_error, side_effect_record \<times> sfx_event) prog"

fun probe_outcome_name :: "probe_outcome \<Rightarrow> string" where
  "probe_outcome_name RR_confirmed = ''confirmed''"
| "probe_outcome_name RR_not_found = ''not_found''"
| "probe_outcome_name RR_ambiguous = ''ambiguous''"
| "probe_outcome_name RR_failed = ''failed''"

fun next_action_name :: "reconciliation_next_action \<Rightarrow> string" where
  "next_action_name RA_mark_confirmed = ''mark_confirmed''"
| "next_action_name RA_retry_probe = ''retry_probe''"
| "next_action_name RA_compensate = ''compensate''"
| "next_action_name RA_escalate_hitl = ''escalate_hitl''"
| "next_action_name RA_mark_failed = ''mark_failed''"

fun compensation_status_name :: "compensation_status \<Rightarrow> string" where
  "compensation_status_name CS_planned = ''planned''"
| "compensation_status_name CS_running = ''running''"
| "compensation_status_name CS_succeeded = ''succeeded''"
| "compensation_status_name CS_failed = ''failed''"
| "compensation_status_name CS_requires_human = ''requires_human''"

fun targetStatusForReconciliation :: "side_effect_record \<Rightarrow> reconciliation_next_action \<Rightarrow> side_effect_status" where
  "targetStatusForReconciliation s RA_mark_confirmed = SE_confirmed"
| "targetStatusForReconciliation s RA_retry_probe = SE_reconciling"
| "targetStatusForReconciliation s RA_compensate = SE_compensation_required"
| "targetStatusForReconciliation s RA_escalate_hitl =
     (if se_status s = SE_ambiguous then SE_manual_review_required else SE_ambiguous)"
| "targetStatusForReconciliation s RA_mark_failed = SE_failed"

fun nextActionForProbeResult :: "probe_outcome \<Rightarrow> reconciliation_next_action" where
  "nextActionForProbeResult RR_confirmed = RA_mark_confirmed"
| "nextActionForProbeResult RR_not_found = RA_compensate"
| "nextActionForProbeResult RR_failed = RA_compensate"
| "nextActionForProbeResult RR_ambiguous = RA_retry_probe"

definition applyReconciliation ::
    "'w sfx_validator option \<Rightarrow> sfx_env \<Rightarrow> side_effect_record \<Rightarrow> reconciliation_record \<Rightarrow> sfx_context \<Rightarrow>
     ('w, sfx_error, side_effect_record \<times> sfx_event) prog" where
  "applyReconciliation validator env s r ctx =
     (let targetStatus = targetStatusForReconciliation s (rcn_nextAction r) in
      bindP (throwP_if
          (targetStatus \<in> set [SE_confirmed, SE_compensation_required, SE_compensating, SE_compensated]
           \<and> (se_leaseId s = None \<or> se_fencingToken s = None))
          Reconciliation_requires_lease_and_fencing) (\<lambda>_.
        transitionSideEffect validator env s (targetStatusForReconciliation s (rcn_nextAction r))
          (with_reason ctx (''reconciliation.'' @ probe_outcome_name (rcn_result r) @ ''.'' @ next_action_name (rcn_nextAction r)))))"

definition startCompensation ::
    "'w sfx_validator option \<Rightarrow> sfx_env \<Rightarrow> side_effect_record \<Rightarrow> compensation_record \<Rightarrow> sfx_context \<Rightarrow>
     ('w, sfx_error, side_effect_record \<times> sfx_event) prog" where
  "startCompensation validator env s c ctx =
     transitionSideEffect validator env s SE_compensating
       (with_reason ctx (''compensation.'' @ compensation_status_name (cpr_status c)))"

definition registerProposal :: "'w sfx_validator option \<Rightarrow> 'w sfx_move" where
  "registerProposal validator env s ctx =
     transitionSideEffect validator env s SE_proposed (with_reason ctx ''side_effect.proposed'')"

definition approve :: "'w sfx_validator option \<Rightarrow> 'w sfx_move" where
  "approve validator env s ctx =
     transitionSideEffect validator env s SE_approved (with_reason ctx ''side_effect.approved'')"

definition reserve_effect :: "'w sfx_validator option \<Rightarrow> 'w sfx_move" where
  "reserve_effect validator env s ctx =
     transitionSideEffect validator env s SE_reserved (with_reason ctx ''side_effect.reserved'')"

definition startCommit :: "'w sfx_validator option \<Rightarrow> 'w sfx_move" where
  "startCommit validator env s ctx =
     transitionSideEffect validator env s SE_committing (with_reason ctx ''side_effect.committing'')"

definition recordCommitted :: "'w sfx_validator option \<Rightarrow> 'w sfx_move" where
  "recordCommitted validator env s ctx =
     transitionSideEffect validator env s SE_committed (with_reason ctx ''side_effect.committed'')"

definition startConfirmation :: "'w sfx_validator option \<Rightarrow> 'w sfx_move" where
  "startConfirmation validator env s ctx =
     transitionSideEffect validator env s SE_confirming (with_reason ctx ''side_effect.confirming'')"

definition confirm :: "'w sfx_validator option \<Rightarrow> 'w sfx_move" where
  "confirm validator env s ctx =
     transitionSideEffect validator env s SE_confirmed (with_reason ctx ''side_effect.confirmed'')"

definition completeCompensation ::
    "'w sfx_validator option \<Rightarrow> sfx_env \<Rightarrow> side_effect_record \<Rightarrow> compensation_record \<Rightarrow> sfx_context \<Rightarrow>
     ('w, sfx_error, side_effect_record \<times> sfx_event) prog" where
  "completeCompensation validator env s c ctx =
     (let targetStatus = (if cpr_status c = CS_succeeded then SE_compensated else SE_failed) in
      transitionSideEffect validator env s targetStatus
        (with_reason ctx (''compensation.'' @ compensation_status_name (cpr_status c))))"

section \<open>The sweep\<close>

record probe_answer =
  pa_probeKind :: string
  pa_observedState :: string
  pa_result :: probe_outcome
  pa_evidenceRefs :: "artifact_ref list"

definition sweep_record :: "sfx_env \<Rightarrow> sfx_context \<Rightarrow> side_effect_record \<Rightarrow> probe_answer \<Rightarrow> reconciliation_record" where
  "sweep_record env ctx s p =
     \<lparr>rcn_reconciliationId = sv_reconciliationId env, rcn_sideEffectId = se_sideEffectId s,
      rcn_probeKind = pa_probeKind p, rcn_externalObservedState = pa_observedState p, rcn_result = pa_result p,
      rcn_evidenceRefs = pa_evidenceRefs p, rcn_nextAction = nextActionForProbeResult (pa_result p),
      rcn_createdAt = coalesce (sx_occurredAt ctx) (sv_recordNow env)\<rparr>"

definition outcome_open :: "side_effect_record \<Rightarrow> bool" where
  "outcome_open s \<longleftrightarrow> \<not> (se_status s \<noteq> SE_ambiguous \<and> se_status s \<noteq> SE_reconciling)"

fun sweep_from ::
    "'w sfx_validator option \<Rightarrow> (side_effect_record \<Rightarrow> ('w, sfx_error, probe_answer) prog) \<Rightarrow> sfx_context \<Rightarrow>
     (nat \<Rightarrow> sfx_env) \<Rightarrow> nat \<Rightarrow> side_effect_record list \<Rightarrow>
     ('w, sfx_error, (reconciliation_record \<times> side_effect_record \<times> sfx_event) list) prog" where
  "sweep_from validator probe ctx envs n [] = returnP []"
| "sweep_from validator probe ctx envs n (s # ss) =
     (if \<not> outcome_open s then sweep_from validator probe ctx envs (Suc n) ss
      else bindP (probe s) (\<lambda>p.
        let r = sweep_record (envs n) ctx s p in
        bindP (applyReconciliation validator (envs n) s r ctx) (\<lambda>t.
        bindP (sweep_from validator probe ctx envs (Suc n) ss) (\<lambda>rs. returnP ((r, t) # rs)))))"

definition sweepReconciliation ::
    "'w sfx_validator option \<Rightarrow> (side_effect_record \<Rightarrow> ('w, sfx_error, probe_answer) prog) \<Rightarrow> sfx_context \<Rightarrow>
     (nat \<Rightarrow> sfx_env) \<Rightarrow> side_effect_record list \<Rightarrow>
     ('w, sfx_error, (reconciliation_record \<times> side_effect_record \<times> sfx_event) list) prog" where
  "sweepReconciliation validator probe ctx envs sideEffects = sweep_from validator probe ctx envs 0 sideEffects"

section \<open>Percent encoding is injective\<close>

text \<open>
  A code whose words start with distinct words: no code word can be confused with the beginning of another.
\<close>

locale prefix_code =
  fixes code :: "'a \<Rightarrow> 'b list"
  assumes nonempty: "code a \<noteq> []"
    and separates: "code a @ xs = code b @ ys \<Longrightarrow> a = b"
begin

lemma encoding_injective: "concat (map code as) = concat (map code bs) \<longleftrightarrow> as = bs"
proof
  show "concat (map code as) = concat (map code bs) \<Longrightarrow> as = bs"
  proof (induction as arbitrary: bs)
    case Nil
    then show ?case by (cases bs) (simp_all add: nonempty)
  next
    case (Cons a as)
    then obtain b bs' where bs: "bs = b # bs'" by (cases bs) (simp_all add: nonempty)
    with Cons.prems have "a = b" using separates by simp
    with Cons bs show ?case by simp
  qed
qed simp

end

lemma hex_digit_inj: "m < 16 \<Longrightarrow> n < 16 \<Longrightarrow> hex_digit m = hex_digit n \<longleftrightarrow> m = n"
proof -
  have "distinct ''0123456789ABCDEF''" by simp
  then show "m < 16 \<Longrightarrow> n < 16 \<Longrightarrow> hex_digit m = hex_digit n \<longleftrightarrow> m = n"
    unfolding hex_digit_def by (subst nth_eq_iff_index_eq) simp_all
qed

lemma percent_byte_inj: "m < 256 \<Longrightarrow> n < 256 \<Longrightarrow> percent_byte m = percent_byte n \<longleftrightarrow> m = n"
proof -
  assume "m < 256" "n < 256"
  then have "percent_byte m = percent_byte n \<longleftrightarrow> m div 16 = n div 16 \<and> m mod 16 = n mod 16"
    by (simp add: percent_byte_def hex_digit_inj)
  then show ?thesis by (metis div_mult_mod_eq)
qed

lemma length_percent_byte [simp]: "length (percent_byte n) = 3"
  by (simp add: percent_byte_def)

lemma percent_reserved: "\<not> uri_unreserved (CHR ''%'')"
  by (simp add: uri_unreserved_def)

lemma char_code_less: "(of_char c :: nat) < 256"
  by (metis of_char_mod_256 mod_less_divisor zero_less_numeral)

lemma encode_uri_char_cases:
  obtains (plain) "uri_unreserved c" "encode_uri_char c = [c]"
  | (one) "\<not> uri_unreserved c" "(of_char c :: nat) < 128" "encode_uri_char c = percent_byte (of_char c)"
  | (two) "\<not> uri_unreserved c" "128 \<le> (of_char c :: nat)"
      "encode_uri_char c = percent_byte (192 + of_char c div 64) @ percent_byte (128 + of_char c mod 64)"
  by (cases "uri_unreserved c"; cases "(of_char c :: nat) < 128") (auto simp: encode_uri_char_def Let_def)

lemma percent_head:
  "percent_byte n @ xs = c # ys \<Longrightarrow> c = CHR ''%''" "c # ys = percent_byte n @ xs \<Longrightarrow> c = CHR ''%''"
  by (simp_all add: percent_byte_def)

lemma utf8_bytes: "192 + (of_char e :: nat) div 64 < 256" "128 + (of_char e :: nat) mod 64 < 256"
proof -
  have "(of_char e :: nat) div 64 < 4" using char_code_less [of e] by (intro less_mult_imp_div_less) simp
  then show "192 + (of_char e :: nat) div 64 < 256" by linarith
qed simp

lemma encode_uri_char_separates:
  assumes eq: "encode_uri_char c @ xs = encode_uri_char d @ ys"
  shows "c = d"
proof -
  note bytes = percent_byte_inj char_code_less utf8_bytes
  have "(of_char c :: nat) = of_char d \<or> c = d"
  proof (cases c rule: encode_uri_char_cases)
    case plain
    then show ?thesis
      by (cases d rule: encode_uri_char_cases) (use eq percent_reserved in \<open>auto dest: percent_head\<close>)
  next
    case one
    then show ?thesis
      by (cases d rule: encode_uri_char_cases) (use eq percent_reserved in \<open>auto simp: bytes dest: percent_head\<close>)
  next
    case two
    show ?thesis
    proof (cases d rule: encode_uri_char_cases)
      case two': two
      from eq two two' have "(of_char c :: nat) div 64 = of_char d div 64 \<and> (of_char c :: nat) mod 64 = of_char d mod 64"
        by (simp add: bytes)
      then show ?thesis by (metis div_mult_mod_eq)
    qed (use two eq percent_reserved in \<open>auto simp: bytes dest: percent_head\<close>)
  qed
  then show ?thesis by (metis char_of_char)
qed

interpretation uri_code: prefix_code encode_uri_char
proof
  show "encode_uri_char c \<noteq> []" for c
    by (cases c rule: encode_uri_char_cases) (simp_all add: percent_byte_def)
qed (rule encode_uri_char_separates)

lemma encodeURIComponent_inj [simp]: "encodeURIComponent s = encodeURIComponent t \<longleftrightarrow> s = t"
  unfolding encodeURIComponent_def by (rule uri_code.encoding_injective)

lemma encode_no_slash: "CHR ''/'' \<notin> set (encodeURIComponent s)"
proof -
  have digit: "hex_digit n \<noteq> CHR ''/''" if "n < 16" for n
    using that by (auto simp: hex_digit_def numeral_nat less_Suc_eq)
  have byte: "CHR ''/'' \<notin> set (percent_byte n)" if "n < 256" for n
    using digit [of "n div 16"] digit [of "n mod 16"] less_mult_imp_div_less [of n 16 16] that by (auto simp: percent_byte_def)
  have "CHR ''/'' \<notin> set (encode_uri_char c)" for c
    by (cases c rule: encode_uri_char_cases) (use byte char_code_less utf8_bytes in \<open>auto simp: uri_unreserved_def\<close>)
  then show ?thesis by (simp add: encodeURIComponent_def)
qed

lemma split_at_first:
  "x \<notin> set as \<Longrightarrow> x \<notin> set bs \<Longrightarrow> as @ x # cs = bs @ x # ds \<longleftrightarrow> as = bs \<and> cs = ds"
proof (induction as arbitrary: bs)
  case Nil
  then show ?case by (cases bs) auto
next
  case (Cons a as)
  then show ?case by (cases bs) auto
qed

text \<open>What a move does when there is no validator: it always succeeds.\<close>

definition moved :: "sfx_env \<Rightarrow> sfx_context \<Rightarrow> side_effect_status \<Rightarrow> side_effect_record \<Rightarrow> side_effect_record" where
  "moved env ctx to s = s\<lparr>se_status := to, se_updatedAt := coalesce (sx_occurredAt ctx) (sv_now env)\<rparr>"

definition records_move :: "side_effect_record \<Rightarrow> side_effect_status \<Rightarrow> sfx_event \<Rightarrow> bool" where
  "records_move s to e \<longleftrightarrow>
     canTruthConsumerConsume e \<and> ev_aggregateId e = se_sideEffectId s \<and> ev_runId e = se_harnessRunId s \<and> ev_aggregateSeq e = 1
     \<and> sp_fromStatus (ev_payload e) = se_status s \<and> sp_toStatus (ev_payload e) = to
     \<and> sp_auditRef (ev_payload e) = buildSideEffectAuditRef (se_sideEffectId s) (sp_reasonCode (ev_payload e))"

lemma with_reason_simps [simp]:
  "sx_occurredAt (with_reason ctx r) = sx_occurredAt ctx" "sx_reasonCode (with_reason ctx r) = r"
  by (simp_all add: with_reason_def sfx_context.defs reasoned_context.defs)

lemma unvalidated_move:
  "\<exists>e. transitionSideEffect None env s to (with_reason ctx r) w = (Inr (moved env ctx to s, e), w) \<and> records_move s to e"
  by (simp add: transitionSideEffect_def moved_def records_move_def Let_def prog_simps lift_sfx_contract_def createPlatformFactEvent_def
      sfx_event_input_def startsWith_def canTruthConsumerConsume_def isPlatformFactEvent_def)

lemma unvalidated_reconciliation:
  assumes "targetStatusForReconciliation s (rcn_nextAction r) \<notin> {SE_confirmed, SE_compensation_required} \<or> se_leaseId s \<noteq> None \<and> se_fencingToken s \<noteq> None"
  shows "\<exists>e. applyReconciliation None env s r ctx w
           = (Inr (moved env ctx (targetStatusForReconciliation s (rcn_nextAction r)) s, e), w)
         \<and> records_move s (targetStatusForReconciliation s (rcn_nextAction r)) e"
proof -
  have "targetStatusForReconciliation s (rcn_nextAction r) \<notin> {SE_compensating, SE_compensated}"
    by (cases "rcn_nextAction r") simp_all
  with assms unvalidated_move show ?thesis
    unfolding applyReconciliation_def by (auto simp: Let_def prog_simps)
qed

text \<open>The status in which a probe leaves a side effect, and what one entry of a sweep records.\<close>

fun settled_status :: "probe_outcome \<Rightarrow> side_effect_status" where
  "settled_status RR_confirmed = SE_confirmed"
| "settled_status RR_ambiguous = SE_reconciling"
| "settled_status _ = SE_compensation_required"

lemma settled_target: "targetStatusForReconciliation s (nextActionForProbeResult r) = settled_status r"
  by (cases r) simp_all

definition fenced_effect :: "side_effect_record \<Rightarrow> bool" where
  "fenced_effect s \<longleftrightarrow> se_leaseId s \<noteq> None \<and> se_fencingToken s \<noteq> None"

definition settles :: "(side_effect_record \<Rightarrow> probe_answer) \<Rightarrow> side_effect_record \<Rightarrow> reconciliation_record \<times> side_effect_record \<times> sfx_event \<Rightarrow> bool" where
  "settles ans s t \<longleftrightarrow>
     (let (r, a, e) = t; to = settled_status (pa_result (ans s)) in
      rcn_sideEffectId r = se_sideEffectId s \<and> rcn_result r = pa_result (ans s) \<and> rcn_evidenceRefs r = pa_evidenceRefs (ans s)
      \<and> a = s\<lparr>se_status := to, se_updatedAt := se_updatedAt a\<rparr> \<and> records_move s to e)"

lemma sweep_head:
  assumes "pa_result (ans s) \<noteq> RR_ambiguous \<longrightarrow> fenced_effect s"
  shows "\<exists>a e. applyReconciliation None env s (sweep_record env ctx s (ans s)) ctx w = (Inr (a, e), w)
    \<and> settles ans s (sweep_record env ctx s (ans s), a, e)"
proof -
  have "settled_status (pa_result (ans s)) \<in> {SE_confirmed, SE_compensation_required} \<longrightarrow> fenced_effect s"
    using assms by (cases "pa_result (ans s)") simp_all
  then show ?thesis
    using unvalidated_reconciliation [of s "sweep_record env ctx s (ans s)" env ctx w]
    by (auto simp: sweep_record_def settled_target settles_def moved_def fenced_effect_def Let_def)
qed

lemma sweep_head_unfenced:
  assumes "pa_result (ans s) \<noteq> RR_ambiguous" "\<not> fenced_effect s"
  shows "applyReconciliation None env s (sweep_record env ctx s (ans s)) ctx w = (Inl Reconciliation_requires_lease_and_fencing, w)"
proof -
  have "settled_status (pa_result (ans s)) \<in> {SE_confirmed, SE_compensation_required}"
    using assms(1) by (cases "pa_result (ans s)") simp_all
  with assms(2) show ?thesis
    by (auto simp: applyReconciliation_def sweep_record_def settled_target fenced_effect_def Let_def prog_simps)
qed

lemma sweep_from_exact:
  assumes "\<And>s w. \<exists>w'. probe s w = (Inr (ans s), w')"
  shows "if \<forall>s \<in> set (filter outcome_open ss). pa_result (ans s) \<noteq> RR_ambiguous \<longrightarrow> fenced_effect s
    then \<exists>rs w'. sweep_from None probe ctx envs n ss w = (Inr rs, w') \<and> list_all2 (settles ans) (filter outcome_open ss) rs
    else \<exists>w'. sweep_from None probe ctx envs n ss w = (Inl Reconciliation_requires_lease_and_fencing, w')"
proof (induction ss arbitrary: n w)
  case Nil
  then show ?case by (simp add: prog_simps)
next
  case (Cons s ss)
  obtain w1 where w1: "probe s w = (Inr (ans s), w1)" using assms by blast
  show ?case
  proof (cases "outcome_open s \<and> (pa_result (ans s) \<noteq> RR_ambiguous \<longrightarrow> fenced_effect s)")
    case True
    obtain a e where head: "applyReconciliation None (envs n) s (sweep_record (envs n) ctx s (ans s)) ctx w1 = (Inr (a, e), w1)"
      "settles ans s (sweep_record (envs n) ctx s (ans s), a, e)"
      using sweep_head [of ans s "envs n" ctx w1] True by blast
    from Cons.IH [of "Suc n" w1] True w1 head show ?thesis
      by (auto simp: prog_simps Let_def split: if_splits)
  next
    case False
    with Cons.IH [of "Suc n" w] w1 sweep_head_unfenced [of ans s "envs n" ctx w1] show ?thesis
      by (auto simp: prog_simps Let_def)
  qed
qed

lemma commit_refused:
  assumes "se_status s \<notin> {SE_approved, SE_reserved}" and "rc_aggregate c = Agg_SideEffect s" "rc_toStatus c = ''committing''"
  shows "\<exists>err. transition p now f h c v = Inl err"
proof (rule ccontr)
  assume "\<nexists>err. transition p now f h c v = Inl err"
  then obtain a e v' where t: "transition p now f h c v = Inr (a, e, v')" by (metis prod.exhaust sum.exhaust)
  obtain s' where "a = Agg_SideEffect s'" "se_riskClass s' = se_riskClass s" and edge: "se_status s' \<in> set (SIDE_EFFECT_TRANSITIONS (se_status s))"
    and to: "rc_toStatus c = name_in SE_STATUSES (se_status s')" by (rule side_effect_step [OF t assms(2)])
  have "name_in SE_STATUSES (se_status s') = name_in SE_STATUSES SE_committing" by (simp only: committing_name to [symmetric] assms(3))
  then have "se_status s' = SE_committing" by (simp only: side_effect_table.name_inj)
  with edge assms(1) show False by (cases "se_status s") simp_all
qed

section \<open>Properties\<close>

text \<open>
  C18. A sweep over side effects whose probes answer (whatever they do to the world) settles exactly the ambiguous and reconciling
  ones, in their order: a confirmed one becomes confirmed, one that was not found or failed is to be compensated, an ambiguous one
  stays in reconciliation and never counts as a success; each entry has the event of its move. This is so exactly when every
  side effect that the probes decide carries a lease and a fencing token. One that does not makes the whole sweep throw, and
  nothing of the sweep is returned.
\<close>

theorem sweepReconciliation_exact:
  assumes "\<And>s w. \<exists>w'. probe s w = (Inr (ans s), w')"
  shows "if \<forall>s \<in> set (filter outcome_open ss). pa_result (ans s) \<noteq> RR_ambiguous \<longrightarrow> fenced_effect s
    then \<exists>rs w'. sweepReconciliation None probe ctx envs ss w = (Inr rs, w') \<and> list_all2 (settles ans) (filter outcome_open ss) rs
    else \<exists>w'. sweepReconciliation None probe ctx envs ss w = (Inl Reconciliation_requires_lease_and_fencing, w')"
  unfolding sweepReconciliation_def by (rule sweep_from_exact [OF assms])


text \<open>
  The audit reference of a move identifies the side effect and the reason: two references are equal only for the same pair,
  whatever characters the identifiers have.
\<close>

theorem audit_ref_identifies:
  "buildSideEffectAuditRef i r = buildSideEffectAuditRef i' r' \<longleftrightarrow> i = i' \<and> r = r'"
  by (simp add: buildSideEffectAuditRef_def split_at_first [OF encode_no_slash encode_no_slash])

text \<open>
  The unused method cannot take the place of the direct moves: its command has no lease and no fencing token, so the state machine
  refuses every commit and every confirmation.
\<close>

theorem machine_path_never_commits:
  assumes "to \<in> {SE_committing, SE_confirming}"
  shows "\<exists>err. transitionSideEffectViaStateMachine p env s to ctx w = Inl (Sfx_machine err)"
proof (cases "transition p (sv_now env) (sv_eventId env) (sv_payloadHash env) (sfx_command env s to ctx) w")
  case (Inr x)
  obtain a e w' where "x = (a, e, w')" by (cases x)
  with Inr have "transition p (sv_now env) (sv_eventId env) (sv_payloadHash env) (sfx_command env s to ctx) w = Inr (a, e, w')" by simp
  then have "assertLeaseAndFencing (sfx_command env s to ctx) = Inr ()" by (rule guards_lease [OF transition_accepted(1)])
  with assms show ?thesis
    by (auto simp: assertLeaseAndFencing_def sfx_command_def Let_def result_simps name_in_def SE_STATUSES_def)
qed (simp add: transitionSideEffectViaStateMachine_def)

section \<open>Witnesses\<close>

definition sfx_demo :: "side_effect_status \<Rightarrow> ident option \<Rightarrow> side_effect_record" where
  "sfx_demo st lease = ex_side_effect\<lparr>se_status := st, se_leaseId := lease, se_fencingToken := lease\<rparr>"

definition sfx_demo_context :: sfx_context where
  "sfx_demo_context = \<lparr>sx_tenantId = ''t1'', sx_traceId = ''tr1'', sx_emittedBy = ''sweeper'', sx_occurredAt = Some 9\<rparr>"

definition sfx_demo_env :: "nat \<Rightarrow> sfx_env" where
  "sfx_demo_env n =
     \<lparr>sv_recordNow = int n, sv_now = int n, sv_reconciliationId = replicate n (CHR ''r''), sv_commandId = replicate n (CHR ''c''),
      sv_eventId = replicate n (CHR ''e''), sv_payloadHash = ''ph''\<rparr>"

definition demo_answer :: "side_effect_record \<Rightarrow> probe_answer" where
  "demo_answer s = \<lparr>pa_probeKind = ''external_get'', pa_observedState = ''{}'',
     pa_result = (if se_status s = SE_ambiguous then RR_confirmed else RR_ambiguous), pa_evidenceRefs = []\<rparr>"

definition demo_probe :: "side_effect_record \<Rightarrow> (nat, sfx_error, probe_answer) prog" where
  "demo_probe s = (\<lambda>w. (Inr (demo_answer s), Suc w))"

theorem sweepReconciliation_exact_witness:
  "\<exists>rs w'. sweepReconciliation None demo_probe sfx_demo_context sfx_demo_env
       [sfx_demo SE_ambiguous (Some ''l1''), sfx_demo SE_proposed None, sfx_demo SE_reconciling None] 0 = (Inr rs, w')
     \<and> list_all2 (settles demo_answer) [sfx_demo SE_ambiguous (Some ''l1''), sfx_demo SE_reconciling None] rs"
proof -
  have "\<exists>w'. demo_probe s w = (Inr (demo_answer s), w')" for s w by (simp add: demo_probe_def)
  from sweepReconciliation_exact [where probe = demo_probe and ans = demo_answer and ctx = sfx_demo_context and envs = sfx_demo_env and w = 0, OF this,
      of "[sfx_demo SE_ambiguous (Some ''l1''), sfx_demo SE_proposed None, sfx_demo SE_reconciling None]"]
  show ?thesis by (simp add: sfx_demo_def outcome_open_def demo_answer_def fenced_effect_def)
qed


end
