(* ===== verification/Compensation.thy ===== *)
theory Compensation
  imports Side_Effects
begin

text \<open>
  The compensation manager (\<^verbatim>\<open>src/src/platform/five-plane-execution/compensation-manager.ts\<close>): the status machine of a
  compensation, the planning of its steps and their execution through adapters, with the evidence that is kept.

  The adapters are code of the caller: programs that may throw. They run while the manager is in the middle of an execution and may
  call it again, so their state \<open>comp_state\<close> has the two sets of the manager beside the caller's world \<open>'w\<close>. The sets are private:
  code outside the manager changes them only by executing plans, which is the relation \<open>client\<close>; it is defined by induction, since
  the adapters that an execution calls are such code again, and it logs the successes at every depth.
\<close>

section \<open>Data\<close>

datatype compensation_transition = CT_plan | CT_approve | CT_commit | CT_confirm | CT_fail | CT_escalate

datatype comp_step_type = Step_reverse | Step_compensate | Step_notify | Step_rollback

datatype comp_impact = Impact_low | Impact_medium | Impact_high

record comp_step =
  cst_nodeRunId :: ident
  cst_stepId :: "ident option"
  cst_stepType :: comp_step_type
  cst_targetRef :: string
  cst_action :: string
  cst_estimatedImpact :: comp_impact
  cst_rollbackPlanRef :: "artifact_ref option"

record comp_plan =
  cpl_compensationId :: ident
  cpl_sideEffectId :: ident
  cpl_harnessRunId :: ident
  cpl_steps :: "comp_step list"
  cpl_createdAt :: timestamp

record comp_result =
  cres_success :: bool
  cres_compensationId :: ident
  cres_finalStatus :: compensation_status
  cres_evidenceRefs :: "artifact_ref list"
  cres_completedAt :: "timestamp option"

record comp_context =
  cx_tenantId :: ident
  cx_traceId :: ident
  cx_operatorId :: ident
  cx_reason :: string

record 'w comp_state =
  cm_active :: "ident set"
  cm_completed :: "ident set"
  cm_world :: 'w

type_synonym 'w comp_adapter = "comp_step \<Rightarrow> comp_context \<Rightarrow> ('w comp_state, string, bool) prog"

record 'w comp_adapters =
  ca_reverseEffect :: "'w comp_adapter"
  ca_compensateAction :: "'w comp_adapter"
  ca_notify :: "'w comp_adapter"
  ca_rollback :: "'w comp_adapter"

section \<open>Statuses\<close>

definition manager_createCompensationRecord ::
    "timestamp \<Rightarrow> ident \<Rightarrow> ident \<Rightarrow> ident \<Rightarrow> artifact_ref \<Rightarrow> compensation_status option \<Rightarrow> compensation_record" where
  "manager_createCompensationRecord now freshId sideEffectId harnessRunId planRef status =
     createCompensationRecord now freshId
       \<lparr>cpi_sideEffectId = sideEffectId, cpi_harnessRunId = harnessRunId, cpi_planRef = planRef,
        cpi_status = Some (coalesce status CS_running), cpi_compensationId = None, cpi_evidenceRefs = None,
        cpi_createdAt = None, cpi_completedAt = None\<rparr>"

definition isCompensatable :: "side_effect_record \<Rightarrow> bool" where
  "isCompensatable s \<longleftrightarrow> se_status s \<in> set [SE_ambiguous, SE_compensation_required, SE_failed]"

fun getNextCompensationStatus :: "compensation_status \<Rightarrow> compensation_transition \<Rightarrow> compensation_status option" where
  "getNextCompensationStatus CS_planned CT_approve = Some CS_running"
| "getNextCompensationStatus CS_planned CT_escalate = Some CS_requires_human"
| "getNextCompensationStatus CS_running CT_commit = Some CS_running"
| "getNextCompensationStatus CS_running CT_confirm = Some CS_succeeded"
| "getNextCompensationStatus CS_running CT_fail = Some CS_failed"
| "getNextCompensationStatus CS_running CT_escalate = Some CS_requires_human"
| "getNextCompensationStatus CS_failed CT_plan = Some CS_planned"
| "getNextCompensationStatus CS_failed CT_escalate = Some CS_requires_human"
| "getNextCompensationStatus CS_requires_human CT_plan = Some CS_planned"
| "getNextCompensationStatus _ _ = None"

fun getTargetSideEffectStatus :: "compensation_status \<Rightarrow> side_effect_status" where
  "getTargetSideEffectStatus CS_succeeded = SE_compensated"
| "getTargetSideEffectStatus CS_failed = SE_failed"
| "getTargetSideEffectStatus CS_requires_human = SE_manual_review_required"
| "getTargetSideEffectStatus _ = SE_compensating"

definition requiresHumanApproval :: "comp_impact \<Rightarrow> bool" where
  "requiresHumanApproval impact \<longleftrightarrow> impact = Impact_high \<or> impact = Impact_medium"

text \<open>The result is the reason for which compensation may not proceed.\<close>

definition validateCompensationPreconditions :: "side_effect_record \<Rightarrow> string option" where
  "validateCompensationPreconditions s =
     (if se_status s = SE_compensated
      then Some (''Side effect '' @ se_sideEffectId s @ '' has already been compensated'')
      else if \<not> isCompensatable s
      then Some (''Side effect '' @ se_sideEffectId s @ '' is not in a compensatable state (current: ''
                 @ name_in SE_STATUSES (se_status s) @ '')'')
      else None)"

section \<open>Planning\<close>

fun effect_kind_name :: "side_effect_kind \<Rightarrow> string" where
  "effect_kind_name SK_file_write = ''file_write''"
| "effect_kind_name SK_external_api = ''external_api''"
| "effect_kind_name SK_message_send = ''message_send''"
| "effect_kind_name SK_transaction = ''transaction''"
| "effect_kind_name SK_tool_commit = ''tool_commit''"
| "effect_kind_name SK_other = ''other''"

definition deriveCompensationSteps :: "ident \<Rightarrow> side_effect_record \<Rightarrow> comp_step list" where
  "deriveCompensationSteps nodeRunId s =
     [\<lparr>cst_nodeRunId = nodeRunId, cst_stepId = Some nodeRunId, cst_stepType = Step_reverse,
       cst_targetRef = coalesce (se_externalRef s) (se_idempotencyKey s),
       cst_action = ''reverse_'' @ effect_kind_name (se_effectKind s),
       cst_estimatedImpact =
         (if se_riskClass s = Risk_critical then Impact_high
          else if se_riskClass s = Risk_high then Impact_medium else Impact_low),
       cst_rollbackPlanRef = None\<rparr>]"

definition planCompensation :: "timestamp \<Rightarrow> ident \<Rightarrow> ident \<Rightarrow> side_effect_record \<Rightarrow> comp_plan" where
  "planCompensation now compId nodeRunId s =
     \<lparr>cpl_compensationId = compId, cpl_sideEffectId = se_sideEffectId s, cpl_harnessRunId = se_harnessRunId s,
      cpl_steps = deriveCompensationSteps nodeRunId s, cpl_createdAt = now\<rparr>"

section \<open>Adapters\<close>

text \<open>\<^verbatim>\<open>toLowerCase\<close> on the characters with a code below 256.\<close>

definition js_lower_char :: "char \<Rightarrow> char" where
  "js_lower_char c =
     (let n = of_char c :: nat in
      if 65 \<le> n \<and> n \<le> 90 \<or> 192 \<le> n \<and> n \<le> 222 \<and> n \<noteq> 215 then char_of (n + 32) else c)"

definition defaultReverseExternalEffect :: "'w comp_adapter" where
  "defaultReverseExternalEffect step ctx =
     returnP (js_trim (cst_targetRef step) \<noteq> []
              \<and> \<not> startsWith (map js_lower_char (js_trim (cst_action step))) ''irreversible:'')"

definition defaultCompensateAction :: "'w comp_adapter" where
  "defaultCompensateAction step ctx = returnP (js_trim (cst_action step) \<noteq> [] \<and> js_trim (cx_reason ctx) \<noteq> [])"

definition defaultNotificationAction :: "'w comp_adapter" where
  "defaultNotificationAction step ctx = returnP (js_trim (cst_targetRef step) \<noteq> [] \<and> js_trim (cx_operatorId ctx) \<noteq> [])"

definition defaultRollbackAction :: "'w comp_adapter" where
  "defaultRollbackAction step ctx =
     returnP (cst_rollbackPlanRef step \<noteq> None \<or> startsWith (cst_targetRef step) ''rollback://'')"

text \<open>The constructor: the adapters that are given, the defaults for the others, and empty sets.\<close>

definition new_CompensationManager ::
    "'w comp_adapter option \<Rightarrow> 'w comp_adapter option \<Rightarrow> 'w comp_adapter option \<Rightarrow> 'w comp_adapter option \<Rightarrow> 'w \<Rightarrow>
     'w comp_adapters \<times> 'w comp_state" where
  "new_CompensationManager reverseEffect compensateAction notify rollback w =
     (\<lparr>ca_reverseEffect = coalesce reverseEffect defaultReverseExternalEffect,
       ca_compensateAction = coalesce compensateAction defaultCompensateAction,
       ca_notify = coalesce notify defaultNotificationAction,
       ca_rollback = coalesce rollback defaultRollbackAction\<rparr>,
      \<lparr>cm_active = {}, cm_completed = {}, cm_world = w\<rparr>)"

section \<open>Execution\<close>

definition executeCompensationStep :: "'w comp_adapters \<Rightarrow> 'w comp_adapter" where
  "executeCompensationStep A step ctx =
     (case cst_stepType step of
        Step_reverse \<Rightarrow> ca_reverseEffect A step ctx
      | Step_compensate \<Rightarrow> ca_compensateAction A step ctx
      | Step_notify \<Rightarrow> ca_notify A step ctx
      | Step_rollback \<Rightarrow> ca_rollback A step ctx)"

definition evidence :: "ident \<Rightarrow> string \<Rightarrow> string \<Rightarrow> artifact_ref" where
  "evidence artifactId uri kind =
     \<lparr>ar_artifactId = artifactId, ar_uri = uri, ar_hash = None, ar_version = None, ar_kind = Some kind,
      ar_mimeType = None, ar_sizeBytes = None, ar_createdAt = None, ar_checksum = None\<rparr>"

fun step_type_name :: "comp_step_type \<Rightarrow> string" where
  "step_type_name Step_reverse = ''reverse''"
| "step_type_name Step_compensate = ''compensate''"
| "step_type_name Step_notify = ''notify''"
| "step_type_name Step_rollback = ''rollback''"

definition rejected_evidence :: "ident \<Rightarrow> artifact_ref" where
  "rejected_evidence c =
     evidence c (''compensation://'' @ c @ ''/rejected?reason='' @ encodeURIComponent ''duplicate_execution'') ''compensation_error''"

definition step_evidence :: "ident \<Rightarrow> comp_step \<Rightarrow> artifact_ref" where
  "step_evidence c step =
     evidence (cst_nodeRunId step) (''compensation://'' @ c @ ''/'' @ cst_nodeRunId step) ''compensation_step''"

definition refused_evidence :: "ident \<Rightarrow> comp_step \<Rightarrow> artifact_ref" where
  "refused_evidence c step =
     evidence (cst_nodeRunId step)
       (''compensation://'' @ c @ ''/'' @ cst_nodeRunId step @ ''/failed?stepType='' @ encodeURIComponent (step_type_name (cst_stepType step))
        @ ''&targetRef='' @ encodeURIComponent (cst_targetRef step)) ''compensation_error''"

definition thrown_evidence :: "ident \<Rightarrow> comp_step \<Rightarrow> artifact_ref" where
  "thrown_evidence c step =
     evidence (cst_nodeRunId step) (''compensation://'' @ c @ ''/'' @ cst_nodeRunId step @ ''/error'') ''compensation_error''"

fun run_steps ::
    "'w comp_adapters \<Rightarrow> ident \<Rightarrow> comp_context \<Rightarrow> comp_step list \<Rightarrow> artifact_ref list \<Rightarrow> 'w comp_state \<Rightarrow>
     (compensation_status \<times> artifact_ref list) \<times> 'w comp_state" where
  "run_steps A c ctx [] refs m = ((CS_succeeded, refs), m)"
| "run_steps A c ctx (step # steps) refs m =
     (case executeCompensationStep A step ctx m of
        (Inr True, m') \<Rightarrow> run_steps A c ctx steps (refs @ [step_evidence c step]) m'
      | (Inr False, m') \<Rightarrow> ((CS_failed, refs @ [refused_evidence c step]), m')
      | (Inl _, m') \<Rightarrow> ((CS_failed, refs @ [thrown_evidence c step]), m'))"

definition executeCompensationSteps ::
    "'w comp_adapters \<Rightarrow> timestamp \<Rightarrow> comp_plan \<Rightarrow> comp_context \<Rightarrow> 'w comp_state \<Rightarrow> comp_result \<times> 'w comp_state" where
  "executeCompensationSteps A now plan ctx m =
     (let c = cpl_compensationId plan in
      if c \<in> cm_completed m \<or> c \<in> cm_active m
      then (\<lparr>cres_success = False, cres_compensationId = c, cres_finalStatus = CS_failed,
             cres_evidenceRefs = [rejected_evidence c], cres_completedAt = None\<rparr>, m)
      else
        let ((finalStatus, refs), m') = run_steps A c ctx (cpl_steps plan) [] (m\<lparr>cm_active := insert c (cm_active m)\<rparr>);
            success = (finalStatus = CS_succeeded);
            result = \<lparr>cres_success = success, cres_compensationId = c, cres_finalStatus = finalStatus,
                      cres_evidenceRefs = refs, cres_completedAt = (if success then Some now else None)\<rparr>;
            m'' = (if success then m'\<lparr>cm_completed := insert c (cm_completed m')\<rparr> else m')
        in (result, m''\<lparr>cm_active := cm_active m'' - {c}\<rparr>))"

section \<open>Calls of the manager, also from within\<close>

text \<open>
  The steps that an execution runs, each as the state before and the state after its adapter. The adapters of later steps
  see what the earlier ones left.
\<close>

fun step_trace :: "'w comp_adapters \<Rightarrow> comp_context \<Rightarrow> comp_step list \<Rightarrow> 'w comp_state \<Rightarrow> ('w comp_state \<times> 'w comp_state) list" where
  "step_trace A ctx [] m = []"
| "step_trace A ctx (step # steps) m =
     (let (r, m') = executeCompensationStep A step ctx m
      in (m, m') # (if r = Inr True then step_trace A ctx steps m' else []))"

definition plan_trace :: "'w comp_adapters \<Rightarrow> comp_context \<Rightarrow> comp_plan \<Rightarrow> 'w comp_state \<Rightarrow> ('w comp_state \<times> 'w comp_state) list" where
  "plan_trace A ctx plan m =
     (let c = cpl_compensationId plan in
      if c \<in> cm_completed m \<or> c \<in> cm_active m then []
      else step_trace A ctx (cpl_steps plan) (m\<lparr>cm_active := insert c (cm_active m)\<rparr>))"

text \<open>
  What code outside the manager does with it, from a state to a later one: it changes its own world and executes plans, and
  the adapters that such an execution calls are code outside the manager again, to any depth. The log has the identifiers of all
  executions that reported success, those inside an execution before the execution itself. Nothing else is known of the adapters:
  they may throw, answer as they like and call the manager with any plan, also the one that is being executed.
\<close>

inductive client :: "'w comp_state \<Rightarrow> ident list \<Rightarrow> 'w comp_state \<Rightarrow> bool" where
  own_work: "client m [] (m\<lparr>cm_world := w\<rparr>)"
| execute: "\<lbrakk>client m ids n; list_all2 (\<lambda>step inner. client (fst step) inner (snd step)) (plan_trace A ctx plan n) inners;
     executeCompensationSteps A now plan ctx n = (r, n')\<rbrakk>
     \<Longrightarrow> client m (ids @ concat inners @ (if cres_success r then [cres_compensationId r] else [])) n'"

lemma client_idle: "client m [] m"
  using own_work [of m "cm_world m"] by simp

text \<open>The successes of a log are new, each happens once, and they are what the manager records as completed.\<close>

definition succeeded_once :: "'w comp_state \<Rightarrow> ident list \<Rightarrow> 'w comp_state \<Rightarrow> bool" where
  "succeeded_once m ids n \<longleftrightarrow> distinct ids \<and> set ids \<inter> (cm_completed m \<union> cm_active m) = {}
     \<and> cm_completed n = cm_completed m \<union> set ids \<and> cm_active n = cm_active m"

lemma succeeded_once_append: "succeeded_once m ids n \<Longrightarrow> succeeded_once n ids' k \<Longrightarrow> succeeded_once m (ids @ ids') k"
  by (auto simp: succeeded_once_def)

lemma run_steps_once:
  assumes "list_all2 (\<lambda>step inner. succeeded_once (fst step) inner (snd step)) (step_trace A ctx steps m) inners"
  shows "succeeded_once m (concat inners) (snd (run_steps A c ctx steps refs m))"
  using assms
proof (induction steps arbitrary: refs m inners)
  case Nil
  then show ?case by (simp add: succeeded_once_def)
next
  case (Cons step steps)
  obtain r m' where step: "executeCompensationStep A step ctx m = (r, m')" by fastforce
  then obtain inner rest where inners: "inners = inner # rest" "succeeded_once m inner m'"
    "list_all2 (\<lambda>step inner. succeeded_once (fst step) inner (snd step)) (if r = Inr True then step_trace A ctx steps m' else []) rest"
    using Cons.prems by (auto simp: list_all2_Cons1)
  show ?case
  proof (cases "r = Inr True")
    case True
    with inners Cons.IH [of m' rest "refs @ [step_evidence c step]"] step show ?thesis by (auto intro: succeeded_once_append)
  next
    case False
    with inners step show ?thesis by (auto split: sum.split bool.split)
  qed
qed

lemma execution_once:
  assumes "list_all2 (\<lambda>step inner. succeeded_once (fst step) inner (snd step)) (plan_trace A ctx plan n) inners"
    and "executeCompensationSteps A now plan ctx n = (r, n')"
  shows "succeeded_once n (concat inners @ (if cres_success r then [cres_compensationId r] else [])) n'"
proof (cases "cpl_compensationId plan \<in> cm_completed n \<or> cpl_compensationId plan \<in> cm_active n")
  case True
  with assms show ?thesis by (auto simp: plan_trace_def executeCompensationSteps_def Let_def succeeded_once_def)
next
  case False
  let ?c = "cpl_compensationId plan"
  let ?n = "n\<lparr>cm_active := insert ?c (cm_active n)\<rparr>"
  obtain st refs k where run: "run_steps A ?c ctx (cpl_steps plan) [] ?n = ((st, refs), k)" by (metis prod.exhaust)
  have "succeeded_once ?n (concat inners) k"
    using run_steps_once [of A ctx "cpl_steps plan" ?n inners ?c "[]"] assms(1) False run by (simp add: plan_trace_def)
  with assms(2) False run show ?thesis
    by (auto simp: executeCompensationSteps_def Let_def succeeded_once_def)
qed

lemma client_once: "client m ids n \<Longrightarrow> succeeded_once m ids n"
proof (induction rule: client.induct)
  case (own_work m w)
  show ?case by (simp add: succeeded_once_def)
next
  case (execute m ids n A ctx plan inners now r n')
  then have "list_all2 (\<lambda>step inner. succeeded_once (fst step) inner (snd step)) (plan_trace A ctx plan n) inners"
    by (auto elim: list_all2_mono)
  from succeeded_once_append [OF execute.IH(1) execution_once [OF this execute.hyps(2)]] show ?case by simp
qed

section \<open>What an execution does\<close>

text \<open>The state after steps that all return true, in order; none if one of them does not.\<close>

fun run_all :: "'w comp_adapters \<Rightarrow> comp_context \<Rightarrow> comp_step list \<Rightarrow> 'w comp_state \<Rightarrow> 'w comp_state option" where
  "run_all A ctx [] m = Some m"
| "run_all A ctx (step # steps) m =
     (case executeCompensationStep A step ctx m of (Inr True, m') \<Rightarrow> run_all A ctx steps m' | _ \<Rightarrow> None)"

definition stops_at :: "'w comp_adapters \<Rightarrow> ident \<Rightarrow> comp_context \<Rightarrow> comp_step list \<Rightarrow> 'w comp_state \<Rightarrow> nat \<Rightarrow> artifact_ref list \<Rightarrow> 'w comp_state \<Rightarrow> bool" where
  "stops_at A c ctx steps m k refs n \<longleftrightarrow>
     k < length steps \<and> (\<exists>m1. run_all A ctx (take k steps) m = Some m1
       \<and> (executeCompensationStep A (steps ! k) ctx m1 = (Inr False, n)
             \<and> refs = map (step_evidence c) (take k steps) @ [refused_evidence c (steps ! k)]
          \<or> (\<exists>err. executeCompensationStep A (steps ! k) ctx m1 = (Inl err, n))
             \<and> refs = map (step_evidence c) (take k steps) @ [thrown_evidence c (steps ! k)]))"

lemma stops_at_Suc:
  assumes "executeCompensationStep A step ctx m = (Inr True, m')" and "stops_at A c ctx steps m' k refs n"
  shows "stops_at A c ctx (step # steps) m (Suc k) (step_evidence c step # refs) n"
  using assms by (auto simp: stops_at_def)

lemma run_steps_exact:
  "case run_all A ctx steps m of
     Some n \<Rightarrow> run_steps A c ctx steps refs m = ((CS_succeeded, refs @ map (step_evidence c) steps), n)
   | None \<Rightarrow> \<exists>k new n. run_steps A c ctx steps refs m = ((CS_failed, refs @ new), n) \<and> stops_at A c ctx steps m k new n"
proof (induction steps arbitrary: refs m)
  case (Cons step steps)
  obtain r m' where step: "executeCompensationStep A step ctx m = (r, m')" by fastforce
  consider err where "r = Inl err" | "r = Inr False" | "r = Inr True" by (cases r) auto
  then show ?case
  proof cases
    case 1
    then have "stops_at A c ctx (step # steps) m 0 [thrown_evidence c step] m'" using step by (simp add: stops_at_def)
    with 1 step show ?thesis by auto
  next
    case 2
    then have "stops_at A c ctx (step # steps) m 0 [refused_evidence c step] m'" using step by (simp add: stops_at_def)
    with 2 step show ?thesis by auto
  next
    case 3
    with step Cons.IH [of "refs @ [step_evidence c step]" m'] stops_at_Suc [of A step ctx m m' c steps] show ?thesis
      by (auto split: option.splits) blast
  qed
qed simp

section \<open>Runs of the status machine\<close>

fun follow :: "compensation_status \<Rightarrow> compensation_transition list \<Rightarrow> compensation_status option" where
  "follow st [] = Some st"
| "follow st (t # ts) = (case getNextCompensationStatus st t of None \<Rightarrow> None | Some st' \<Rightarrow> follow st' ts)"

definition unapproved :: "compensation_status \<Rightarrow> bool" where
  "unapproved st \<longleftrightarrow> st \<in> {CS_planned, CS_failed, CS_requires_human}"

lemma next_succeeded: "getNextCompensationStatus st t = Some CS_succeeded \<Longrightarrow> t = CT_confirm"
  by (cases st; cases t) simp_all

lemma next_unapproved: "getNextCompensationStatus st t = Some st' \<Longrightarrow> unapproved st \<Longrightarrow> t \<noteq> CT_approve \<Longrightarrow> unapproved st'"
  by (cases st; cases t) (simp_all add: unapproved_def)

lemma follow_Cons: "follow st (t # ts) = Some st'' \<longleftrightarrow> (\<exists>st'. getNextCompensationStatus st t = Some st' \<and> follow st' ts = Some st'')"
  by (simp split: option.split)

lemma succeeded_final: "follow CS_succeeded ts = Some st \<Longrightarrow> ts = []"
  by (cases ts) simp_all

lemma success_confirmed: "follow st ts = Some CS_succeeded \<Longrightarrow> st \<noteq> CS_succeeded \<Longrightarrow> last ts = CT_confirm"
proof (induction ts arbitrary: st)
  case (Cons t ts)
  then obtain st' where st': "getNextCompensationStatus st t = Some st'" "follow st' ts = Some CS_succeeded"
    by (auto simp only: follow_Cons)
  show ?case
  proof (cases "st' = CS_succeeded")
    case True
    with st' show ?thesis using succeeded_final next_succeeded by fastforce
  next
    case False
    with st' Cons.IH [of st'] show ?thesis by auto
  qed
qed simp

lemma success_approved: "follow st ts = Some CS_succeeded \<Longrightarrow> unapproved st \<Longrightarrow> CT_approve \<in> set ts"
proof (induction ts arbitrary: st)
  case Nil
  then show ?case by (simp add: unapproved_def)
next
  case (Cons t ts)
  then obtain st' where "getNextCompensationStatus st t = Some st'" "follow st' ts = Some CS_succeeded"
    by (auto simp only: follow_Cons)
  with Cons.IH [of st'] Cons.prems(2) next_unapproved [of st t st'] show ?case by auto
qed

section \<open>Properties\<close>

text \<open>
  C19. Whatever code outside the manager does with it, adapters that call it again in the middle of an execution included, at any
  depth and with any plan: each compensation reports success at most once, never when it was completed before and never from inside its own
  execution; the manager records exactly the successes as completed, and what was running before is what is running afterwards.
\<close>

theorem compensation_succeeds_once:
  assumes "client m ids n"
  shows "distinct ids \<and> set ids \<inter> (cm_completed m \<union> cm_active m) = {}
    \<and> cm_completed n = cm_completed m \<union> set ids \<and> cm_active n = cm_active m"
  using client_once [OF assms] by (simp add: succeeded_once_def)

text \<open>
  C20. An execution of a compensation that is neither completed nor running succeeds exactly when all its steps return true one after
  the other; then there is evidence of each step and the compensation is completed. Otherwise it stops at the first step that
  does not: the evidence has the steps before it and one error for it, no later step is run, the compensation is not completed
  and may be executed again. In both cases it is no longer running.
\<close>

theorem executeCompensation_exact:
  assumes "cpl_compensationId plan \<notin> cm_completed m" "cpl_compensationId plan \<notin> cm_active m"
  shows "let c = cpl_compensationId plan; m0 = m\<lparr>cm_active := insert c (cm_active m)\<rparr> in
    case run_all A ctx (cpl_steps plan) m0 of
      Some n \<Rightarrow> executeCompensationSteps A now plan ctx m
        = (\<lparr>cres_success = True, cres_compensationId = c, cres_finalStatus = CS_succeeded,
            cres_evidenceRefs = map (step_evidence c) (cpl_steps plan), cres_completedAt = Some now\<rparr>,
           n\<lparr>cm_active := cm_active n - {c}, cm_completed := insert c (cm_completed n)\<rparr>)
    | None \<Rightarrow> \<exists>k refs n. executeCompensationSteps A now plan ctx m
        = (\<lparr>cres_success = False, cres_compensationId = c, cres_finalStatus = CS_failed, cres_evidenceRefs = refs, cres_completedAt = None\<rparr>,
           n\<lparr>cm_active := cm_active n - {c}\<rparr>)
        \<and> stops_at A c ctx (cpl_steps plan) m0 k refs n"
proof -
  let ?c = "cpl_compensationId plan"
  let ?m = "m\<lparr>cm_active := insert ?c (cm_active m)\<rparr>"
  note run = run_steps_exact [where A = A and ctx = ctx and steps = "cpl_steps plan" and m = ?m and c = ?c and refs = "[]"]
  show ?thesis
  proof (cases "run_all A ctx (cpl_steps plan) ?m")
    case None
    with run obtain k refs n where "run_steps A ?c ctx (cpl_steps plan) [] ?m = ((CS_failed, refs), n)" "stops_at A ?c ctx (cpl_steps plan) ?m k refs n"
      by auto
    with None assms show ?thesis by (auto simp: executeCompensationSteps_def Let_def)
  next
    case (Some n)
    with run assms show ?thesis by (simp add: executeCompensationSteps_def Let_def)
  qed
qed

text \<open>
  C39. With the default adapters a planned compensation of any side effect whose target is not blank, also an irreversible one, succeeds without touching the
  world, and the record it leads to marks the side effect as compensated.
\<close>

theorem default_compensation_claims_success:
  assumes "js_trim (coalesce (se_externalRef s) (se_idempotencyKey s)) \<noteq> []" and "c \<notin> cm_completed m" "c \<notin> cm_active m"
  shows "let A = fst (new_CompensationManager None None None None (cm_world m));
      (r, n) = executeCompensationSteps A now (planCompensation t c nrun s) ctx m in
      cres_success r \<and> n = m\<lparr>cm_completed := insert c (cm_completed m)\<rparr>
      \<and> (\<exists>e. completeCompensation None env s (manager_createCompensationRecord now c (se_sideEffectId s) (se_harnessRunId s) planRef (Some (cres_finalStatus r))) cx v
             = (Inr (moved env cx SE_compensated s, e), v))"
proof -
  have action: "\<not> startsWith (map js_lower_char (js_trim (''reverse_'' @ effect_kind_name k))) ''irreversible:''" for k
    by (cases k) (simp_all add: js_trim_def js_white_def js_lower_char_def startsWith_def)
  have recorded: "\<exists>e. completeCompensation None env s (manager_createCompensationRecord now c (se_sideEffectId s) (se_harnessRunId s) planRef (Some CS_succeeded)) cx v
      = (Inr (moved env cx SE_compensated s, e), v)"
    using unvalidated_move [of env s SE_compensated cx _ v]
    by (fastforce simp: completeCompensation_def manager_createCompensationRecord_def createCompensationRecord_def Let_def)
  have "cm_active m = insert c (cm_active m) - {c}" using assms(3) by simp
  with assms recorded action show ?thesis
    by (simp add: executeCompensationSteps_def planCompensation_def deriveCompensationSteps_def new_CompensationManager_def
        executeCompensationStep_def defaultReverseExternalEffect_def Let_def prog_simps)
qed

text \<open>
  A compensation that was planned, has failed or waits for a person succeeds only after an approval, by a confirmation.
\<close>

theorem compensation_needs_approval:
  assumes "unapproved st" and "follow st ts = Some CS_succeeded"
  shows "CT_approve \<in> set ts \<and> last ts = CT_confirm"
proof -
  have "st \<noteq> CS_succeeded" using assms(1) by (auto simp: unapproved_def)
  with success_approved [OF assms(2,1)] success_confirmed [OF assms(2)] show ?thesis by simp
qed

text \<open>The record that the manager creates when no status is given starts as running and succeeds without an approval.\<close>

theorem created_record_skips_approval:
  "follow (cpr_status (manager_createCompensationRecord now f i h planRef None)) [CT_confirm] = Some CS_succeeded"
  by (simp add: manager_createCompensationRecord_def createCompensationRecord_def)

section \<open>Witnesses\<close>

definition comp_demo_context :: comp_context where
  "comp_demo_context = \<lparr>cx_tenantId = ''t1'', cx_traceId = ''tr1'', cx_operatorId = ''op'', cx_reason = ''refund''\<rparr>"

definition comp_demo_manager :: "unit comp_state" where
  "comp_demo_manager = snd (new_CompensationManager None None None None ())"

definition comp_demo_adapters :: "unit comp_adapters" where
  "comp_demo_adapters = fst (new_CompensationManager None None None None ())"

definition comp_demo_plan :: comp_plan where
  "comp_demo_plan = planCompensation 5 ''c1'' ''nr1'' ex_side_effect"

text \<open>
  A notification that, while \<^verbatim>\<open>c1\<close> is being executed, executes \<^verbatim>\<open>c1\<close> again, which is rejected, and then another compensation,
  which succeeds.
\<close>

definition other_plan :: comp_plan where
  "other_plan = planCompensation 5 ''c2'' ''nr2'' ex_side_effect"

definition notifying_plan :: comp_plan where
  "notifying_plan = comp_demo_plan\<lparr>cpl_steps := [\<lparr>cst_nodeRunId = ''n1'', cst_stepId = None, cst_stepType = Step_notify, cst_targetRef = ''ops'',
     cst_action = ''tell'', cst_estimatedImpact = Impact_low, cst_rollbackPlanRef = None\<rparr>]\<rparr>"

definition reentrant_notify :: "unit comp_adapter" where
  "reentrant_notify step ctx m =
     (let (r1, m1) = executeCompensationSteps comp_demo_adapters 6 notifying_plan ctx m;
          (r2, m2) = executeCompensationSteps comp_demo_adapters 7 other_plan ctx m1
      in (Inr (\<not> cres_success r1 \<and> cres_success r2), m2))"

definition reentrant_adapters :: "unit comp_adapters" where
  "reentrant_adapters = comp_demo_adapters\<lparr>ca_notify := reentrant_notify\<rparr>"

lemma other_plan_runs:
  fixes m :: "unit comp_state"
  assumes "''c2'' \<notin> cm_completed m" "''c2'' \<notin> cm_active m"
  defines "k \<equiv> m\<lparr>cm_active := insert ''c2'' (cm_active m)\<rparr>"
  shows "plan_trace comp_demo_adapters comp_demo_context other_plan m = [(k, k)]"
    and "\<exists>r. executeCompensationSteps comp_demo_adapters 7 other_plan comp_demo_context m = (r, m\<lparr>cm_completed := insert ''c2'' (cm_completed m)\<rparr>)
      \<and> cres_success r \<and> cres_compensationId r = ''c2''"
proof -
  define stp where "stp = hd (cpl_steps other_plan)"
  have plan: "cpl_steps other_plan = [stp]" "cst_stepType stp = Step_reverse" "cpl_compensationId other_plan = ''c2''"
    by (simp_all add: stp_def other_plan_def planCompensation_def deriveCompensationSteps_def)
  have "js_trim (cst_targetRef stp) \<noteq> [] \<and> \<not> startsWith (map js_lower_char (js_trim (cst_action stp))) ''irreversible:''"
    unfolding stp_def by code_simp
  then have step: "executeCompensationStep comp_demo_adapters stp comp_demo_context j = (Inr True, j)" for j
    by (simp add: executeCompensationStep_def plan comp_demo_adapters_def new_CompensationManager_def defaultReverseExternalEffect_def prog_simps)
  have trace: "step_trace comp_demo_adapters comp_demo_context (cpl_steps other_plan) k = [(k, k)]"
    and run: "run_steps comp_demo_adapters ''c2'' comp_demo_context (cpl_steps other_plan) [] k = ((CS_succeeded, [step_evidence ''c2'' stp]), k)"
    by (simp_all add: plan step)
  show "plan_trace comp_demo_adapters comp_demo_context other_plan m = [(k, k)]" using assms(1,2) trace by (simp add: plan_trace_def plan k_def Let_def)
  show "\<exists>r. executeCompensationSteps comp_demo_adapters 7 other_plan comp_demo_context m = (r, m\<lparr>cm_completed := insert ''c2'' (cm_completed m)\<rparr>)
      \<and> cres_success r \<and> cres_compensationId r = ''c2''"
    using assms(1,2) run by (simp add: executeCompensationSteps_def plan k_def Let_def)
qed

lemma running_plan_rejected:
  assumes "''c1'' \<in> cm_active m"
  shows "plan_trace A ctx notifying_plan m = []"
    and "\<exists>r. executeCompensationSteps A now notifying_plan ctx m = (r, m) \<and> \<not> cres_success r"
  using assms by (simp_all add: plan_trace_def executeCompensationSteps_def notifying_plan_def comp_demo_plan_def planCompensation_def Let_def)

theorem compensation_succeeds_once_witness:
  "\<exists>n. client comp_demo_manager [''c2'', ''c1''] n \<and> cm_completed n = {''c1'', ''c2''} \<and> cm_active n = {}"
proof -
  let ?m = "comp_demo_manager\<lparr>cm_active := {''c1''}\<rparr>" and ?ctx = comp_demo_context and ?D = comp_demo_adapters
  let ?m2 = "?m\<lparr>cm_completed := {''c2''}\<rparr>"
  have empty: "cm_active comp_demo_manager = {}" "cm_completed comp_demo_manager = {}"
    by (simp_all add: comp_demo_manager_def new_CompensationManager_def)
  obtain r1 where r1: "executeCompensationSteps ?D 6 notifying_plan ?ctx ?m = (r1, ?m)" "\<not> cres_success r1"
    using running_plan_rejected(2) [of ?m ?D 6 ?ctx] by auto
  obtain r2 where r2: "executeCompensationSteps ?D 7 other_plan ?ctx ?m = (r2, ?m2)" "cres_success r2" "cres_compensationId r2 = ''c2''"
    using other_plan_runs(2) [of ?m] empty by auto
  have "client ?m ([] @ concat [] @ []) ?m"
    using execute [OF client_idle _ r1(1), of "[]"] running_plan_rejected(1) [of ?m ?D ?ctx] r1(2) by simp
  then have inner: "client ?m [''c2''] ?m2"
    using execute [OF _ _ r2(1), of ?m "[]" "[[]]"] other_plan_runs(1) [of ?m] empty r2(2,3) by (simp add: client_idle)
  define stp where "stp = hd (cpl_steps notifying_plan)"
  have step: "executeCompensationStep reentrant_adapters stp ?ctx ?m = (Inr True, ?m2)"
    using r1 r2 unfolding stp_def by (simp add: executeCompensationStep_def notifying_plan_def reentrant_adapters_def reentrant_notify_def comp_demo_plan_def
        planCompensation_def)
  have plan: "cpl_steps notifying_plan = [stp]" "cpl_compensationId notifying_plan = ''c1''"
    by (simp_all add: stp_def notifying_plan_def comp_demo_plan_def planCompensation_def)
  have trace: "plan_trace reentrant_adapters ?ctx notifying_plan comp_demo_manager = [(?m, ?m2)]"
    by (simp add: plan_trace_def plan empty step Let_def)
  obtain r n where r: "executeCompensationSteps reentrant_adapters 6 notifying_plan ?ctx comp_demo_manager = (r, n)" by fastforce
  have "run_steps reentrant_adapters ''c1'' ?ctx (cpl_steps notifying_plan) [] ?m = ((CS_succeeded, [step_evidence ''c1'' stp]), ?m2)"
    by (simp add: plan step)
  then have "cres_success r" "cres_compensationId r = ''c1''" using r by (auto simp: executeCompensationSteps_def plan(2) empty Let_def)
  then have run: "client comp_demo_manager [''c2'', ''c1''] n"
    using execute [OF client_idle _ r, of "[[''c2'']]"] trace inner by simp
  from run compensation_succeeds_once [OF run] empty show ?thesis by auto
qed

text \<open>A notification that goes out and a rollback that has no plan.\<close>

definition comp_demo_step :: "comp_step_type \<Rightarrow> ident \<Rightarrow> comp_step" where
  "comp_demo_step ty n = \<lparr>cst_nodeRunId = n, cst_stepId = None, cst_stepType = ty, cst_targetRef = ''ops'', cst_action = ''tell'',
     cst_estimatedImpact = Impact_low, cst_rollbackPlanRef = None\<rparr>"

definition failing_plan :: comp_plan where
  "failing_plan = comp_demo_plan\<lparr>cpl_steps := [comp_demo_step Step_notify ''n1'', comp_demo_step Step_rollback ''n2'', comp_demo_step Step_notify ''n3'']\<rparr>"

theorem executeCompensation_exact_witness:
  "\<exists>k refs n. executeCompensationSteps comp_demo_adapters 6 failing_plan comp_demo_context comp_demo_manager
      = (\<lparr>cres_success = False, cres_compensationId = ''c1'', cres_finalStatus = CS_failed, cres_evidenceRefs = refs, cres_completedAt = None\<rparr>,
         n\<lparr>cm_active := cm_active n - {''c1''}\<rparr>)
    \<and> stops_at comp_demo_adapters ''c1'' comp_demo_context (cpl_steps failing_plan) (comp_demo_manager\<lparr>cm_active := {''c1''}\<rparr>) k refs n"
proof -
  have c: "cpl_compensationId failing_plan = ''c1''" "cm_completed comp_demo_manager = {}" "cm_active comp_demo_manager = {}"
    by (simp_all add: failing_plan_def comp_demo_plan_def planCompensation_def comp_demo_manager_def new_CompensationManager_def)
  have "run_all comp_demo_adapters comp_demo_context (cpl_steps failing_plan) (comp_demo_manager\<lparr>cm_active := {''c1''}\<rparr>) = None"
    by code_simp
  with executeCompensation_exact [of failing_plan comp_demo_manager, where A = comp_demo_adapters and ctx = comp_demo_context and now = 6] c show ?thesis
    by (simp add: Let_def)
qed

theorem default_compensation_claims_success_witness:
  "cres_success (fst (executeCompensationSteps comp_demo_adapters 6 comp_demo_plan comp_demo_context comp_demo_manager))
   \<and> (\<exists>e. completeCompensation None (sfx_demo_env 1) ex_side_effect
        (manager_createCompensationRecord 6 ''c1'' (se_sideEffectId ex_side_effect) (se_harnessRunId ex_side_effect) ex_proof
          (Some (cres_finalStatus (fst (executeCompensationSteps comp_demo_adapters 6 comp_demo_plan comp_demo_context comp_demo_manager))))) sfx_demo_context ()
      = (Inr (moved (sfx_demo_env 1) sfx_demo_context SE_compensated ex_side_effect, e), ()))"
proof -
  have "js_trim (coalesce (se_externalRef ex_side_effect) (se_idempotencyKey ex_side_effect)) \<noteq> []" by code_simp
  moreover have "''c1'' \<notin> cm_completed comp_demo_manager" "''c1'' \<notin> cm_active comp_demo_manager"
    by (simp_all add: comp_demo_manager_def new_CompensationManager_def)
  ultimately show ?thesis
    using default_compensation_claims_success [of ex_side_effect "''c1''" comp_demo_manager 6 5 "''nr1''" comp_demo_context "sfx_demo_env 1" ex_proof sfx_demo_context "()"]
    by (simp add: comp_demo_plan_def comp_demo_adapters_def Let_def case_prod_unfold)
qed

theorem compensation_needs_approval_witness:
  "follow CS_failed [CT_plan, CT_approve, CT_commit, CT_confirm] = Some CS_succeeded
   \<and> CT_approve \<in> set [CT_plan, CT_approve, CT_commit, CT_confirm]"
  using compensation_needs_approval [of CS_failed "[CT_plan, CT_approve, CT_commit, CT_confirm]"] by (simp add: unapproved_def)

end
