(* ===== verification/Memory_Cache.thy ===== *)
theory Memory_Cache
  imports Contracts
begin

text \<open>
  The in-memory cache (\<^verbatim>\<open>src/src/platform/shared/cache/stores/memory-cache-store.ts\<close>): a map from bucket keys to entries
  that are also linked in a doubly linked list for the eviction of the least recently used one.

  The entries are objects that the map and the list share, so the model has an explicit heap: a list of entries whose indices are the
  references. The methods are asynchronous but never await, so each runs as one step. Stored values are taken as
  cloneable: \<^verbatim>\<open>cloneStoredValue\<close> is the identity on them. The times of the two calls of \<^verbatim>\<open>Date.now\<close> in a lookup are arguments.
\<close>

section \<open>Data\<close>

datatype cache_scope = Scope_memory | Scope_session | Scope_persistent

datatype cache_miss_reason =
    Miss_not_found | Miss_expired | Miss_invalidated | Miss_version_mismatch | Miss_payload_too_large | Miss_disabled | Miss_not_cacheable

record cache_meta =
  cme_scope :: cache_scope
  cme_ttlMs :: "int option"
  cme_tags :: "string list"
  cme_version :: string
  cme_createdAt :: timestamp
  cme_expiresAt :: "timestamp option"
  cme_lastAccessedAt :: timestamp
  cme_hitCount :: int
  cme_sizeBytes :: int
  cme_contentType :: "string option"

datatype 'v cache_lookup = Cache_miss cache_miss_reason | Cache_hit 'v cache_meta

record 'v lru_entry =
  le_value :: 'v
  le_meta :: cache_meta
  le_next :: "nat option"
  le_prev :: "nat option"

record 'v memory_cache =
  mc_entries :: "(string \<times> nat) list"
  mc_heap :: "'v lru_entry list"
  mc_head :: "nat option"
  mc_tail :: "nat option"
  mc_maxEntries :: int

definition new_MemoryCacheStore :: "int option \<Rightarrow> 'v memory_cache" where
  "new_MemoryCacheStore maxEntries =
     \<lparr>mc_entries = [], mc_heap = [], mc_head = None, mc_tail = None, mc_maxEntries = coalesce maxEntries 2000\<rparr>"

definition getBucketKey :: "string \<Rightarrow> string \<Rightarrow> string" where
  "getBucketKey namespace key = namespace @ ''::'' @ key"

section \<open>The linked list\<close>

definition set_next :: "nat \<Rightarrow> nat option \<Rightarrow> 'v memory_cache \<Rightarrow> 'v memory_cache" where
  "set_next a n st = st\<lparr>mc_heap := (mc_heap st)[a := (mc_heap st ! a)\<lparr>le_next := n\<rparr>]\<rparr>"

definition set_prev :: "nat \<Rightarrow> nat option \<Rightarrow> 'v memory_cache \<Rightarrow> 'v memory_cache" where
  "set_prev a p st = st\<lparr>mc_heap := (mc_heap st)[a := (mc_heap st ! a)\<lparr>le_prev := p\<rparr>]\<rparr>"

definition removeLru :: "nat \<Rightarrow> 'v memory_cache \<Rightarrow> 'v memory_cache" where
  "removeLru a st =
     (let st1 = (case le_prev (mc_heap st ! a) of
                   Some p \<Rightarrow> set_next p (le_next (mc_heap st ! a)) st
                 | None \<Rightarrow> st\<lparr>mc_head := le_next (mc_heap st ! a)\<rparr>)
      in case le_next (mc_heap st1 ! a) of
           Some n \<Rightarrow> set_prev n (le_prev (mc_heap st1 ! a)) st1
         | None \<Rightarrow> st1\<lparr>mc_tail := le_prev (mc_heap st1 ! a)\<rparr>)"

definition addToHead :: "nat \<Rightarrow> 'v memory_cache \<Rightarrow> 'v memory_cache" where
  "addToHead a st =
     (let st1 = (case mc_head st of
                   Some h \<Rightarrow> set_next a (Some h) (set_prev h (Some a) st)
                 | None \<Rightarrow> st\<lparr>mc_head := Some a\<rparr>);
          st2 = set_prev a None st1
      in if mc_tail st2 = None then st2\<lparr>mc_tail := Some a\<rparr> else st2)"

section \<open>Operations\<close>

definition entries_get :: "string \<Rightarrow> 'v memory_cache \<Rightarrow> nat option" where
  "entries_get k st = map_of (mc_entries st) k"

definition entries_delete :: "string \<Rightarrow> 'v memory_cache \<Rightarrow> 'v memory_cache" where
  "entries_delete k st = st\<lparr>mc_entries := jsmap_delete k (mc_entries st)\<rparr>"

definition expired_meta :: "timestamp \<Rightarrow> cache_meta \<Rightarrow> bool" where
  "expired_meta now m \<longleftrightarrow> (case cme_expiresAt m of None \<Rightarrow> False | Some t \<Rightarrow> t \<noteq> 0 \<and> t \<le> now)"

definition touch :: "nat \<Rightarrow> timestamp \<Rightarrow> 'v memory_cache \<Rightarrow> 'v memory_cache" where
  "touch a now st =
     (let e = mc_heap st ! a in
      st\<lparr>mc_heap := (mc_heap st)[a := e\<lparr>le_meta := (le_meta e)\<lparr>cme_lastAccessedAt := now, cme_hitCount := cme_hitCount (le_meta e) + 1\<rparr>\<rparr>]\<rparr>)"

definition cache_get :: "timestamp \<Rightarrow> timestamp \<Rightarrow> string \<Rightarrow> string \<Rightarrow> 'v memory_cache \<Rightarrow> 'v cache_lookup \<times> 'v memory_cache" where
  "cache_get now now' namespace key st =
     (let bucketKey = getBucketKey namespace key in
      case entries_get bucketKey st of
        None \<Rightarrow> (Cache_miss Miss_not_found, st)
      | Some a \<Rightarrow>
          if expired_meta now (le_meta (mc_heap st ! a))
          then (Cache_miss Miss_expired, entries_delete bucketKey (removeLru a st))
          else let st' = touch a now' (addToHead a (removeLru a st))
               in (Cache_hit (le_value (mc_heap st' ! a)) (le_meta (mc_heap st' ! a)), st'))"

definition findKeyByEntry :: "nat \<Rightarrow> 'v memory_cache \<Rightarrow> string option" where
  "findKeyByEntry a st = map_option fst (List.find (\<lambda>p. snd p = a) (mc_entries st))"

definition drop_entry :: "string \<Rightarrow> 'v memory_cache \<Rightarrow> 'v memory_cache" where
  "drop_entry k st =
     entries_delete k (case entries_get k st of None \<Rightarrow> st | Some a \<Rightarrow> removeLru a st)"

definition evict_tail :: "'v memory_cache \<Rightarrow> 'v memory_cache" where
  "evict_tail st =
     (case mc_tail st of
        None \<Rightarrow> st
      | Some t \<Rightarrow>
          removeLru t (case findKeyByEntry t st of
             None \<Rightarrow> st
           | Some tailKey \<Rightarrow> if tailKey \<noteq> [] then entries_delete tailKey st else st))"

definition allocate :: "'v \<Rightarrow> cache_meta \<Rightarrow> 'v memory_cache \<Rightarrow> 'v memory_cache" where
  "allocate v m st = st\<lparr>mc_heap := mc_heap st @ [\<lparr>le_value = v, le_meta = m, le_next = None, le_prev = None\<rparr>]\<rparr>"

definition cache_set :: "string \<Rightarrow> string \<Rightarrow> 'v \<Rightarrow> cache_meta \<Rightarrow> 'v memory_cache \<Rightarrow> 'v memory_cache" where
  "cache_set namespace key value meta st =
     (let bucketKey = getBucketKey namespace key;
          st1 = (case entries_get bucketKey st of None \<Rightarrow> st | Some a \<Rightarrow> entries_delete bucketKey (removeLru a st));
          st2 = (if entries_get bucketKey st1 = None \<and> int (length (mc_entries st1)) \<ge> mc_maxEntries st1 then evict_tail st1 else st1);
          a = length (mc_heap st2);
          st3 = addToHead a (allocate value meta st2)
      in st3\<lparr>mc_entries := jsmap_set bucketKey a (mc_entries st3)\<rparr>)"

definition cache_delete :: "string \<Rightarrow> string \<Rightarrow> 'v memory_cache \<Rightarrow> 'v memory_cache" where
  "cache_delete namespace key st = drop_entry (getBucketKey namespace key) st"

definition drop_entries :: "string list \<Rightarrow> 'v memory_cache \<Rightarrow> nat \<times> 'v memory_cache" where
  "drop_entries toDelete st = (length toDelete, fold drop_entry toDelete st)"

definition invalidateByTag :: "string \<Rightarrow> 'v memory_cache \<Rightarrow> nat \<times> 'v memory_cache" where
  "invalidateByTag tag st =
     drop_entries (map fst (filter (\<lambda>p. tag \<in> set (cme_tags (le_meta (mc_heap st ! snd p)))) (mc_entries st))) st"

definition invalidateNamespace :: "string \<Rightarrow> 'v memory_cache \<Rightarrow> nat \<times> 'v memory_cache" where
  "invalidateNamespace namespace st =
     drop_entries (filter (\<lambda>k. startsWith k (namespace @ ''::'')) (map fst (mc_entries st))) st"

definition cleanupExpired :: "timestamp \<Rightarrow> 'v memory_cache \<Rightarrow> nat \<times> 'v memory_cache" where
  "cleanupExpired now st =
     drop_entries (map fst (filter (\<lambda>p. expired_meta now (le_meta (mc_heap st ! snd p))) (mc_entries st))) st"

definition cache_size :: "'v memory_cache \<Rightarrow> nat" where
  "cache_size st = length (mc_entries st)"

section \<open>Runs\<close>

datatype 'v cache_op =
    Op_get timestamp timestamp string string
  | Op_set string string 'v cache_meta
  | Op_delete string string
  | Op_invalidateByTag string
  | Op_invalidateNamespace string
  | Op_cleanupExpired timestamp

fun cache_step :: "'v cache_op \<Rightarrow> 'v memory_cache \<Rightarrow> 'v memory_cache" where
  "cache_step (Op_get now now' ns k) st = snd (cache_get now now' ns k st)"
| "cache_step (Op_set ns k v m) st = cache_set ns k v m st"
| "cache_step (Op_delete ns k) st = cache_delete ns k st"
| "cache_step (Op_invalidateByTag t) st = snd (invalidateByTag t st)"
| "cache_step (Op_invalidateNamespace ns) st = snd (invalidateNamespace ns st)"
| "cache_step (Op_cleanupExpired now) st = snd (cleanupExpired now st)"

text \<open>
  The ideal cache: a map that never evicts, with what a lookup changes left out of the metadata.
\<close>

definition norm_meta :: "cache_meta \<Rightarrow> cache_meta" where
  "norm_meta m = m\<lparr>cme_lastAccessedAt := 0, cme_hitCount := 0\<rparr>"

type_synonym 'v ideal_cache = "string \<rightharpoonup> 'v \<times> cache_meta"

definition purge_where :: "(string \<Rightarrow> cache_meta \<Rightarrow> bool) \<Rightarrow> 'v ideal_cache \<Rightarrow> 'v ideal_cache" where
  "purge_where P M = (\<lambda>b. case M b of None \<Rightarrow> None | Some (v, m) \<Rightarrow> if P b m then None else Some (v, m))"

fun ideal_step :: "'v cache_op \<Rightarrow> 'v ideal_cache \<Rightarrow> 'v ideal_cache" where
  "ideal_step (Op_get now now' ns k) M = purge_where (\<lambda>b m. b = getBucketKey ns k \<and> expired_meta now m) M"
| "ideal_step (Op_set ns k v m) M = M(getBucketKey ns k \<mapsto> (v, norm_meta m))"
| "ideal_step (Op_delete ns k) M = M(getBucketKey ns k := None)"
| "ideal_step (Op_invalidateByTag t) M = purge_where (\<lambda>b m. t \<in> set (cme_tags m)) M"
| "ideal_step (Op_invalidateNamespace ns) M = purge_where (\<lambda>b m. startsWith b (ns @ ''::'')) M"
| "ideal_step (Op_cleanupExpired now) M = purge_where (\<lambda>b m. expired_meta now m) M"

section \<open>Links do not touch the stored data\<close>

definition stored_data :: "'v memory_cache \<Rightarrow> ('v \<times> cache_meta) list" where
  "stored_data st = map (\<lambda>e. (le_value e, norm_meta (le_meta e))) (mc_heap st)"

definition view :: "'v memory_cache \<Rightarrow> 'v ideal_cache" where
  "view st b = map_option (\<lambda>a. stored_data st ! a) (map_of (mc_entries st) b)"

text \<open>Two states that differ only in the links between entries.\<close>

definition relinked :: "'v memory_cache \<Rightarrow> 'v memory_cache \<Rightarrow> bool" where
  "relinked st st' \<longleftrightarrow> mc_entries st' = mc_entries st \<and> stored_data st' = stored_data st \<and> mc_maxEntries st' = mc_maxEntries st"

lemma relinked_refl [simp]: "relinked st st"
  by (simp add: relinked_def)

lemma relinked_trans [trans]: "relinked st st' \<Longrightarrow> relinked st' st'' \<Longrightarrow> relinked st st''"
  by (simp add: relinked_def)

lemma stored_data_update: "(a < length (mc_heap st) \<Longrightarrow> le_value e = le_value (mc_heap st ! a) \<and> norm_meta (le_meta e) = norm_meta (le_meta (mc_heap st ! a)))
    \<Longrightarrow> stored_data (st\<lparr>mc_heap := (mc_heap st)[a := e]\<rparr>) = stored_data st"
  by (cases "a < length (mc_heap st)") (auto simp: stored_data_def map_update list_update_id [of _ a, symmetric] intro!: nth_equalityI simp: nth_list_update)

lemma relinked_ends:
  "relinked st (st\<lparr>mc_head := h\<rparr>)" "relinked st (st\<lparr>mc_tail := t\<rparr>)" "relinked st (set_next a n st)" "relinked st (set_prev a n st)" "relinked st (touch a now st)"
  by (simp_all add: relinked_def set_next_def set_prev_def touch_def Let_def stored_data_update norm_meta_def)
    (simp_all add: stored_data_def)

lemma relinked_removeLru: "relinked st (removeLru a st)"
  unfolding removeLru_def Let_def
  by (auto split: option.split intro: relinked_ends relinked_trans [OF relinked_ends(1)] relinked_trans [OF relinked_ends(3)])

lemma relinked_addToHead: "relinked st (addToHead a st)"
  unfolding addToHead_def Let_def
  by (auto split: option.split intro!: relinked_ends intro: relinked_trans relinked_ends)

lemma norm_simps [simp]:
  "expired_meta now (norm_meta m) = expired_meta now m" "cme_tags (norm_meta m) = cme_tags m"
  by (simp_all add: expired_meta_def norm_meta_def)

lemma relinked_view: "relinked st st' \<Longrightarrow> view st' = view st"
  by (simp add: relinked_def view_def fun_eq_iff)

section \<open>The invariant\<close>

definition in_heap :: "'v memory_cache \<Rightarrow> nat option \<Rightarrow> bool" where
  "in_heap st r \<longleftrightarrow> (\<forall>a \<in> set_option r. a < length (mc_heap st))"

text \<open>Every reference of the cache, in the map, at the ends and in the entries, is to an entry; the map has each key once.\<close>

definition links_ok :: "'v memory_cache \<Rightarrow> bool" where
  "links_ok st \<longleftrightarrow> in_heap st (mc_head st) \<and> in_heap st (mc_tail st)
     \<and> (\<forall>e \<in> set (mc_heap st). in_heap st (le_next e) \<and> in_heap st (le_prev e))"

definition map_ok :: "'v memory_cache \<Rightarrow> bool" where
  "map_ok st \<longleftrightarrow> distinct (map fst (mc_entries st)) \<and> (\<forall>p \<in> set (mc_entries st). snd p < length (mc_heap st))"

definition cache_ok :: "'v memory_cache \<Rightarrow> bool" where
  "cache_ok st \<longleftrightarrow> links_ok st \<and> map_ok st"

lemma length_stored_data [simp]: "length (stored_data st) = length (mc_heap st)"
  by (simp add: stored_data_def)

lemma relinked_length: "relinked st st' \<Longrightarrow> length (mc_heap st') = length (mc_heap st)"
  by (metis relinked_def length_stored_data)

lemma relinked_map_ok: "relinked st st' \<Longrightarrow> map_ok st' = map_ok st"
  using relinked_length [of st st'] by (auto simp: map_ok_def relinked_def)

lemma links_ok_ends:
  "links_ok st \<Longrightarrow> in_heap st r \<Longrightarrow> links_ok (st\<lparr>mc_head := r\<rparr>)" "links_ok st \<Longrightarrow> in_heap st r \<Longrightarrow> links_ok (st\<lparr>mc_tail := r\<rparr>)"
  by (simp_all add: links_ok_def in_heap_def)

lemma links_ok_at: "links_ok st \<Longrightarrow> a < length (mc_heap st) \<Longrightarrow> in_heap st (le_next (mc_heap st ! a)) \<and> in_heap st (le_prev (mc_heap st ! a))"
  using nth_mem [of a "mc_heap st"] by (simp add: links_ok_def)

lemma links_ok_update:
  assumes "links_ok st" "in_heap st (le_next e)" "in_heap st (le_prev e)"
  shows "links_ok (st\<lparr>mc_heap := (mc_heap st)[a := e]\<rparr>)"
  using assms by (auto simp: links_ok_def in_heap_def dest!: subsetD [OF set_update_subset_insert])

lemma links_ok_set:
  assumes "links_ok st" "in_heap st r" "a < length (mc_heap st)"
  shows "links_ok (set_next a r st)" "links_ok (set_prev a r st)"
  using assms links_ok_at [of st a] by (auto simp: set_next_def set_prev_def intro!: links_ok_update)

lemma links_length [simp]: "length (mc_heap (set_next a r st)) = length (mc_heap st)" "length (mc_heap (set_prev a r st)) = length (mc_heap st)"
  by (simp_all add: set_next_def set_prev_def)

lemma in_heap_links [simp]: "in_heap (set_next a r st) q = in_heap st q" "in_heap (set_prev a r st) q = in_heap st q"
  "in_heap (st\<lparr>mc_head := h\<rparr>) q = in_heap st q" "in_heap (st\<lparr>mc_tail := h\<rparr>) q = in_heap st q" "in_heap (st\<lparr>mc_entries := es\<rparr>) q = in_heap st q"
  by (simp_all add: in_heap_def)

lemma in_heap_Some [simp]: "in_heap st (Some a) \<longleftrightarrow> a < length (mc_heap st)" "in_heap st None"
  by (simp_all add: in_heap_def)

lemma links_ok_removeLru:
  assumes "links_ok st" "a < length (mc_heap st)"
  shows "links_ok (removeLru a st)"
proof -
  let ?e = "mc_heap st ! a"
  define st1 where "st1 = (case le_prev ?e of Some p \<Rightarrow> set_next p (le_next ?e) st | None \<Rightarrow> st\<lparr>mc_head := le_next ?e\<rparr>)"
  have ok1: "links_ok st1" "a < length (mc_heap st1)"
    using assms links_ok_at [OF assms] by (auto simp: st1_def intro!: links_ok_set links_ok_ends split: option.split)
  have "removeLru a st = (case le_next (mc_heap st1 ! a) of Some n \<Rightarrow> set_prev n (le_prev (mc_heap st1 ! a)) st1
      | None \<Rightarrow> st1\<lparr>mc_tail := le_prev (mc_heap st1 ! a)\<rparr>)"
    unfolding removeLru_def st1_def Let_def ..
  then show ?thesis using ok1 links_ok_at [OF ok1] by (auto intro!: links_ok_set links_ok_ends split: option.split)
qed

lemma links_ok_addToHead:
  assumes "links_ok st" "a < length (mc_heap st)"
  shows "links_ok (addToHead a st)"
proof -
  define st1 where "st1 = (case mc_head st of Some h \<Rightarrow> set_next a (Some h) (set_prev h (Some a) st) | None \<Rightarrow> st\<lparr>mc_head := Some a\<rparr>)"
  have "in_heap st (mc_head st)" using assms(1) by (simp add: links_ok_def)
  then have "links_ok st1" "a < length (mc_heap st1)"
    using assms by (auto simp: st1_def intro!: links_ok_set links_ok_ends split: option.split)
  then have "links_ok (set_prev a None st1)" "a < length (mc_heap (set_prev a None st1))"
    by (auto intro!: links_ok_set)
  moreover have "addToHead a st = (if mc_tail (set_prev a None st1) = None then (set_prev a None st1)\<lparr>mc_tail := Some a\<rparr> else set_prev a None st1)"
    unfolding addToHead_def st1_def Let_def ..
  ultimately show ?thesis by (auto intro!: links_ok_ends)
qed

lemma links_ok_touch: "links_ok st \<Longrightarrow> a < length (mc_heap st) \<Longrightarrow> links_ok (touch a now st)"
  using links_ok_at [of st a] by (auto simp: touch_def Let_def intro!: links_ok_update)

lemma links_ok_entries [simp]: "links_ok (st\<lparr>mc_entries := es\<rparr>) = links_ok st" "links_ok (entries_delete k st) = links_ok st"
  by (simp_all add: links_ok_def in_heap_def entries_delete_def)

section \<open>Operations on the view\<close>

lemma view_entries_delete: "view (entries_delete k st) = (view st)(k := None)"
  by (simp add: view_def entries_delete_def stored_data_def fun_eq_iff)

lemma cache_ok_relinked: "relinked st st' \<Longrightarrow> links_ok st' \<Longrightarrow> cache_ok st \<Longrightarrow> cache_ok st'"
  by (simp add: cache_ok_def relinked_map_ok)

lemma cache_ok_entries_delete: "cache_ok st \<Longrightarrow> cache_ok (entries_delete k st)"
  by (auto simp: cache_ok_def map_ok_def entries_delete_def distinct_jsmap_delete) (auto simp: jsmap_delete_def)

lemma entries_get_in_heap: "cache_ok st \<Longrightarrow> entries_get k st = Some a \<Longrightarrow> a < length (mc_heap st)"
  by (auto simp: cache_ok_def map_ok_def entries_get_def dest!: map_of_SomeD)

lemma removeLru_ok: "cache_ok st \<Longrightarrow> a < length (mc_heap st) \<Longrightarrow> cache_ok (removeLru a st)"
  by (rule cache_ok_relinked [OF relinked_removeLru links_ok_removeLru]) (simp_all add: cache_ok_def)

lemma addToHead_ok: "cache_ok st \<Longrightarrow> a < length (mc_heap st) \<Longrightarrow> cache_ok (addToHead a st)"
  by (rule cache_ok_relinked [OF relinked_addToHead links_ok_addToHead]) (simp_all add: cache_ok_def)

lemma touch_ok: "cache_ok st \<Longrightarrow> a < length (mc_heap st) \<Longrightarrow> cache_ok (touch a now st)"
  by (rule cache_ok_relinked [OF relinked_ends(5) links_ok_touch]) (simp_all add: cache_ok_def)

lemma removeLru_view [simp]: "view (removeLru a st) = view st" "mc_entries (removeLru a st) = mc_entries st"
  "length (mc_heap (removeLru a st)) = length (mc_heap st)" "mc_maxEntries (removeLru a st) = mc_maxEntries st"
  using relinked_removeLru [of st a] by (simp_all add: relinked_view relinked_length) (simp_all add: relinked_def)

lemma addToHead_view [simp]: "view (addToHead a st) = view st" "mc_entries (addToHead a st) = mc_entries st"
  "length (mc_heap (addToHead a st)) = length (mc_heap st)" "mc_maxEntries (addToHead a st) = mc_maxEntries st" "stored_data (addToHead a st) = stored_data st"
  using relinked_addToHead [of st a] by (simp_all add: relinked_view relinked_length) (simp_all add: relinked_def)

lemma drop_entry_ok:
  assumes "cache_ok st"
  shows "cache_ok (drop_entry k st)" and "view (drop_entry k st) = (view st)(k := None)"
  using assms entries_get_in_heap [OF assms, of k]
  by (auto simp: drop_entry_def view_entries_delete intro!: cache_ok_entries_delete removeLru_ok split: option.split)

lemma fold_drop_entry:
  "cache_ok st \<Longrightarrow> cache_ok (fold drop_entry ks st) \<and> view (fold drop_entry ks st) = view st |` (- set ks)"
proof (induction ks arbitrary: st)
  case (Cons k ks)
  then show ?case using Cons.IH [OF drop_entry_ok(1) [OF Cons.prems], of k] drop_entry_ok(2) [OF Cons.prems, of k]
    by (auto simp: fun_eq_iff restrict_map_def)
qed (simp add: restrict_map_def)

text \<open>Dropping the keys whose entries meet a condition on the metadata purges the view.\<close>

lemma view_at: "cache_ok st \<Longrightarrow> (k, a) \<in> set (mc_entries st) \<Longrightarrow> view st k = Some (le_value (mc_heap st ! a), norm_meta (le_meta (mc_heap st ! a)))"
  by (auto simp: cache_ok_def map_ok_def view_def stored_data_def)

lemma view_SomeD: "view st k = Some x \<Longrightarrow> \<exists>a. (k, a) \<in> set (mc_entries st)"
  by (auto simp: view_def dest: map_of_SomeD)

lemma drop_entries_purge:
  assumes "cache_ok st" and "\<And>k a. (k, a) \<in> set (mc_entries st) \<Longrightarrow> k \<in> set ks \<longleftrightarrow> P k (norm_meta (le_meta (mc_heap st ! a)))"
  shows "cache_ok (snd (drop_entries ks st))" and "view (snd (drop_entries ks st)) = purge_where P (view st)"
proof -
  show "cache_ok (snd (drop_entries ks st))" using fold_drop_entry [OF assms(1)] by (simp add: drop_entries_def)
  have "(view st |` (- set ks)) k = purge_where P (view st) k" for k
  proof (cases "view st k")
    case (Some x)
    then obtain a where a: "(k, a) \<in> set (mc_entries st)" using view_SomeD by blast
    show ?thesis using assms(2) [OF a] view_at [OF assms(1) a] by (simp add: purge_where_def restrict_map_def)
  qed (simp add: purge_where_def restrict_map_def)
  then show "view (snd (drop_entries ks st)) = purge_where P (view st)"
    using fold_drop_entry [OF assms(1)] by (simp add: drop_entries_def fun_eq_iff)
qed

lemma key_selected:
  assumes "cache_ok st" "(k, a) \<in> set (mc_entries st)"
  shows "k \<in> set (map fst (filter Q (mc_entries st))) \<longleftrightarrow> Q (k, a)"
  using assms by (force simp: cache_ok_def map_ok_def dest: eq_key_imp_eq_value)

lemma invalidateByTag_purge:
  assumes "cache_ok st"
  shows "cache_ok (snd (invalidateByTag t st))" and "view (snd (invalidateByTag t st)) = purge_where (\<lambda>b m. t \<in> set (cme_tags m)) (view st)"
  unfolding invalidateByTag_def using drop_entries_purge [OF assms, where P = "\<lambda>b m. t \<in> set (cme_tags m)"] key_selected [OF assms] by simp_all

lemma cleanupExpired_purge:
  assumes "cache_ok st"
  shows "cache_ok (snd (cleanupExpired now st))" and "view (snd (cleanupExpired now st)) = purge_where (\<lambda>b m. expired_meta now m) (view st)"
  unfolding cleanupExpired_def using drop_entries_purge [OF assms, where P = "\<lambda>b m. expired_meta now m"] key_selected [OF assms] by simp_all

lemma invalidateNamespace_purge:
  assumes "cache_ok st"
  shows "cache_ok (snd (invalidateNamespace ns st))"
    and "view (snd (invalidateNamespace ns st)) = purge_where (\<lambda>b m. startsWith b (ns @ ''::'')) (view st)"
  unfolding invalidateNamespace_def
  by (intro drop_entries_purge [OF assms, where P = "\<lambda>b m. startsWith b (ns @ ''::'')"]; force)+

lemma allocate_ok: "cache_ok st \<Longrightarrow> cache_ok (allocate v m st)"
  by (fastforce simp: cache_ok_def links_ok_def map_ok_def allocate_def in_heap_def)

lemma allocate_view: "cache_ok st \<Longrightarrow> view (allocate v m st) = view st"
  by (auto simp: view_def allocate_def stored_data_def fun_eq_iff cache_ok_def map_ok_def nth_append dest!: map_of_SomeD intro!: option.map_cong0)

lemma evict_tail_ok:
  assumes "cache_ok st"
  shows "cache_ok (evict_tail st)" and "view (evict_tail st) \<subseteq>\<^sub>m view st"
proof -
  have tail: "in_heap st (mc_tail st)" using assms by (simp add: cache_ok_def links_ok_def)
  then show "cache_ok (evict_tail st)"
    unfolding evict_tail_def using assms
    by (auto intro!: removeLru_ok cache_ok_entries_delete split: option.split) (auto simp: entries_delete_def)
  show "view (evict_tail st) \<subseteq>\<^sub>m view st"
    by (auto simp: evict_tail_def view_entries_delete map_le_def split: option.split)
qed

text \<open>A lookup: the value and the metadata are those of the view, and only an expired entry disappears.\<close>

lemma touch_view: "view (touch a now st) = view st" "length (mc_heap (touch a now st)) = length (mc_heap st)"
  using relinked_ends(5) [of st a now] relinked_view relinked_length by blast+

lemma cache_get_view:
  assumes "cache_ok st" and get: "cache_get now now' ns k st = (r, st')"
  shows "cache_ok st'" and "view st' = purge_where (\<lambda>b m. b = getBucketKey ns k \<and> expired_meta now m) (view st)"
    and "case r of Cache_hit v m \<Rightarrow> view st (getBucketKey ns k) = Some (v, norm_meta m) \<and> \<not> expired_meta now m
         | Cache_miss why \<Rightarrow> if why = Miss_expired then \<exists>v m. view st (getBucketKey ns k) = Some (v, m) \<and> expired_meta now m
             else why = Miss_not_found \<and> view st (getBucketKey ns k) = None"
proof -
  let ?b = "getBucketKey ns k"
  have "cache_ok st' \<and> view st' = purge_where (\<lambda>b m. b = ?b \<and> expired_meta now m) (view st)
    \<and> (case r of Cache_hit v m \<Rightarrow> view st ?b = Some (v, norm_meta m) \<and> \<not> expired_meta now m
         | Cache_miss why \<Rightarrow> if why = Miss_expired then \<exists>v m. view st ?b = Some (v, m) \<and> expired_meta now m
             else why = Miss_not_found \<and> view st ?b = None)"
  proof (cases "entries_get ?b st")
    case None
    then have "view st ?b = None" by (simp add: view_def entries_get_def)
    moreover from this have "purge_where (\<lambda>b m. b = ?b \<and> expired_meta now m) (view st) = view st"
      by (auto simp: purge_where_def fun_eq_iff split: option.split)
    ultimately show ?thesis using get None assms(1) by (auto simp: cache_get_def Let_def)
  next
    case (Some a)
    let ?e = "mc_heap st ! a"
    have a: "(?b, a) \<in> set (mc_entries st)" "a < length (mc_heap st)"
      using Some entries_get_in_heap [OF assms(1) Some] by (auto simp: entries_get_def dest: map_of_SomeD)
    note v = view_at [OF assms(1) a(1)]
    show ?thesis
    proof (cases "expired_meta now (le_meta ?e)")
      case True
      then have "purge_where (\<lambda>b m. b = ?b \<and> expired_meta now m) (view st) = (view st)(?b := None)"
        using v by (auto simp: purge_where_def fun_eq_iff split: option.split)
      then show ?thesis using get Some True v a(2) removeLru_ok [OF assms(1) a(2)]
        by (auto simp: cache_get_def Let_def view_entries_delete intro!: cache_ok_entries_delete)
    next
      case False
      let ?s = "addToHead a (removeLru a st)"
      have purge: "purge_where (\<lambda>b m. b = ?b \<and> expired_meta now m) (view st) = view st"
        using v False by (auto simp: purge_where_def fun_eq_iff split: option.split)
      have "cache_ok (removeLru a st)" using removeLru_ok [OF assms(1) a(2)] .
      then have "cache_ok ?s" "a < length (mc_heap ?s)" using a(2) by (simp_all add: addToHead_ok)
      then have t: "cache_ok (touch a now' ?s)" by (rule touch_ok)
      have "(?b, a) \<in> set (mc_entries (touch a now' ?s))" using a(1) by (simp add: touch_def Let_def)
      from view_at [OF t this] have "view st ?b = Some (le_value (mc_heap (touch a now' ?s) ! a), norm_meta (le_meta (mc_heap (touch a now' ?s) ! a)))"
        by (simp add: touch_view)
      with v False get Some t purge show ?thesis
        by (auto simp: cache_get_def Let_def touch_view) (metis norm_simps(1))
    qed
  qed
  then show "cache_ok st'" "view st' = purge_where (\<lambda>b m. b = ?b \<and> expired_meta now m) (view st)"
    "case r of Cache_hit v m \<Rightarrow> view st ?b = Some (v, norm_meta m) \<and> \<not> expired_meta now m
         | Cache_miss why \<Rightarrow> if why = Miss_expired then \<exists>v m. view st ?b = Some (v, m) \<and> expired_meta now m
             else why = Miss_not_found \<and> view st ?b = None"
    by blast+
qed

lemma cache_set_view:
  assumes "cache_ok st"
  shows "cache_ok (cache_set ns k v m st)"
    and "view (cache_set ns k v m st) \<subseteq>\<^sub>m (view st)(getBucketKey ns k \<mapsto> (v, norm_meta m))"
    and "view (cache_set ns k v m st) (getBucketKey ns k) = Some (v, norm_meta m)"
proof -
  let ?b = "getBucketKey ns k"
  define st1 where "st1 = (case entries_get ?b st of None \<Rightarrow> st | Some a \<Rightarrow> entries_delete ?b (removeLru a st))"
  define st2 where "st2 = (if entries_get ?b st1 = None \<and> int (length (mc_entries st1)) \<ge> mc_maxEntries st1 then evict_tail st1 else st1)"
  let ?a = "length (mc_heap st2)"
  define st3 where "st3 = addToHead ?a (allocate v m st2)"
  have set: "cache_set ns k v m st = st3\<lparr>mc_entries := jsmap_set ?b ?a (mc_entries st3)\<rparr>"
    unfolding cache_set_def st3_def st2_def st1_def Let_def ..
  have ok1: "cache_ok st1" "view st1 \<subseteq>\<^sub>m view st"
    using assms entries_get_in_heap [OF assms, of ?b]
    by (auto simp: st1_def view_entries_delete map_le_def intro!: cache_ok_entries_delete removeLru_ok split: option.split)
  have ok2: "cache_ok st2" "view st2 \<subseteq>\<^sub>m view st"
    using evict_tail_ok [OF ok1(1)] ok1 map_le_trans by (auto simp: st2_def)
  have len: "length (mc_heap (allocate v m st2)) = Suc ?a" by (simp add: allocate_def)
  have ok3: "cache_ok st3" "view st3 \<subseteq>\<^sub>m view st" "length (mc_heap st3) = Suc ?a" "stored_data st3 ! ?a = (v, norm_meta m)"
    using ok2 allocate_ok [OF ok2(1)] allocate_view [OF ok2(1)] len
    by (auto simp: st3_def intro!: addToHead_ok) (simp add: allocate_def stored_data_def nth_append)
  have entry: "view (st3\<lparr>mc_entries := jsmap_set ?b ?a (mc_entries st3)\<rparr>) = (view st3)(?b \<mapsto> (v, norm_meta m))"
    using ok3(4) by (auto simp: view_def fun_eq_iff stored_data_def)
  show "cache_ok (cache_set ns k v m st)"
    using ok3(1,3) unfolding set
    by (auto simp: cache_ok_def map_ok_def distinct_jsmap_set dest!: jsmap_set_mem)
  show "view (cache_set ns k v m st) \<subseteq>\<^sub>m (view st)(?b \<mapsto> (v, norm_meta m))" "view (cache_set ns k v m st) ?b = Some (v, norm_meta m)"
    using ok3(2) unfolding set entry by (auto simp: map_le_def)
qed

section \<open>Simulation by the ideal cache\<close>

lemma map_leD: "M \<subseteq>\<^sub>m N \<Longrightarrow> M b = Some x \<Longrightarrow> N b = Some x"
  by (metis domI map_le_def)

lemma purge_where_mono: "M \<subseteq>\<^sub>m N \<Longrightarrow> purge_where P M \<subseteq>\<^sub>m purge_where P N"
  unfolding map_le_def purge_where_def by (auto split: option.splits) (metis domI option.inject prod.inject option.distinct(1))+

lemma cache_step_simulated:
  assumes "cache_ok st" and "view st \<subseteq>\<^sub>m M"
  shows "cache_ok (cache_step opn st) \<and> view (cache_step opn st) \<subseteq>\<^sub>m ideal_step opn M"
proof (cases opn)
  case (Op_get now now' ns k)
  obtain r st' where "cache_get now now' ns k st = (r, st')" by fastforce
  with Op_get cache_get_view(1,2) [OF assms(1) this] purge_where_mono [OF assms(2)] show ?thesis by simp
next
  case (Op_set ns k v m)
  with cache_set_view(1,2) [OF assms(1)] map_le_trans map_le_upd [OF assms(2)] show ?thesis by fastforce
next
  case (Op_delete ns k)
  with drop_entry_ok [OF assms(1)] assms(2) show ?thesis by (auto simp: cache_delete_def map_le_def)
qed (simp_all add: invalidateByTag_purge [OF assms(1)] invalidateNamespace_purge [OF assms(1)] cleanupExpired_purge [OF assms(1)]
    purge_where_mono [OF assms(2)])

lemma cache_run_simulated:
  "cache_ok st \<Longrightarrow> view st \<subseteq>\<^sub>m M \<Longrightarrow> cache_ok (fold cache_step ops st) \<and> view (fold cache_step ops st) \<subseteq>\<^sub>m fold ideal_step ops M"
proof (induction ops arbitrary: st M)
  case (Cons opn ops)
  from Cons.IH [of "cache_step opn st" "ideal_step opn M"] cache_step_simulated [OF Cons.prems, of opn] show ?case by simp
qed simp

lemma new_cache_ok: "cache_ok (new_MemoryCacheStore mx)" "view (new_MemoryCacheStore mx) = Map.empty"
  by (simp_all add: new_MemoryCacheStore_def cache_ok_def links_ok_def map_ok_def view_def fun_eq_iff)

section \<open>A cache that no longer evicts\<close>

text \<open>
  The tail is an entry that the map no longer has, and its successor is the head: an eviction then finds no key for it and puts the
  ends back as they were.
\<close>

definition tail_lost :: "'v memory_cache \<Rightarrow> nat \<Rightarrow> nat \<Rightarrow> bool" where
  "tail_lost st t h \<longleftrightarrow>
     mc_tail st = Some t \<and> mc_head st = Some h \<and> t \<noteq> h \<and> t < length (mc_heap st) \<and> h < length (mc_heap st)
     \<and> t \<notin> snd ` set (mc_entries st) \<and> le_next (mc_heap st ! t) = Some h \<and> le_prev (mc_heap st ! t) = None"

lemma removeLru_tail_lost: "tail_lost st t h \<Longrightarrow> removeLru t st = set_prev h None st"
  by (simp add: tail_lost_def removeLru_def Let_def) (simp add: set_prev_def)

lemma tail_lost_set_prev: "tail_lost st t h \<Longrightarrow> tail_lost (set_prev h r st) t h"
  by (auto simp: tail_lost_def set_prev_def)

lemma tail_lost_allocate: "tail_lost st t h \<Longrightarrow> tail_lost (allocate v m st) t h"
  by (simp add: tail_lost_def allocate_def nth_append)

lemma tail_lost_addToHead:
  assumes "tail_lost st t h" "a < length (mc_heap st)" "a \<noteq> t"
  shows "tail_lost (addToHead a st) t h"
  using assms by (auto simp: tail_lost_def addToHead_def set_prev_def set_next_def Let_def nth_list_update)

lemma tail_lost_grows:
  assumes "tail_lost st t h" and "entries_get (getBucketKey ns k) st = None" and "mc_maxEntries st \<le> int (length (mc_entries st))"
  shows "tail_lost (cache_set ns k v m st) t h" and "length (mc_entries (cache_set ns k v m st)) = Suc (length (mc_entries st))"
    and "mc_maxEntries (cache_set ns k v m st) = mc_maxEntries st"
proof -
  let ?s = "set_prev h None st" and ?a = "length (mc_heap st)"
  have fresh: "getBucketKey ns k \<notin> fst ` set (mc_entries st)" using assms(2) by (simp add: entries_get_def map_of_eq_None_iff)
  have "findKeyByEntry t st = None"
    using assms(1) by (force simp: tail_lost_def findKeyByEntry_def find_None_iff)
  then have "evict_tail st = ?s"
    using assms(1) removeLru_tail_lost [OF assms(1)] by (simp add: evict_tail_def tail_lost_def)
  then have set: "cache_set ns k v m st = (addToHead ?a (allocate v m ?s))\<lparr>mc_entries := mc_entries st @ [(getBucketKey ns k, ?a)]\<rparr>"
    using assms(2,3) fresh by (simp add: cache_set_def entries_get_def Let_def) (simp add: allocate_def set_prev_def jsmap_set_fresh)
  have "tail_lost (allocate v m ?s) t h" using assms(1) by (intro tail_lost_allocate tail_lost_set_prev)
  moreover have "?a < length (mc_heap (allocate v m ?s))" "?a \<noteq> t" using assms(1) by (auto simp: allocate_def tail_lost_def)
  ultimately have "tail_lost (addToHead ?a (allocate v m ?s)) t h" by (rule tail_lost_addToHead)
  then show "tail_lost (cache_set ns k v m st) t h" using assms(1) unfolding set
    by (auto simp: tail_lost_def)
  show "length (mc_entries (cache_set ns k v m st)) = Suc (length (mc_entries st))" "mc_maxEntries (cache_set ns k v m st) = mc_maxEntries st"
    unfolding set by (simp_all add: allocate_def set_prev_def)
qed

lemma fresh_key_exists: "\<exists>k. entries_get (getBucketKey ns k) st = None"
proof -
  have "inj (getBucketKey ns)" by (auto simp: inj_def getBucketKey_def)
  then have "infinite (range (getBucketKey ns))" using finite_imageD infinite_UNIV_listI by blast
  then obtain k where "getBucketKey ns k \<notin> fst ` set (mc_entries st)"
    by (metis List.finite_set finite_imageI finite_subset image_subsetI rangeE)
  then show ?thesis by (auto simp: entries_get_def map_of_eq_None_iff)
qed

lemma tail_lost_unbounded:
  assumes "tail_lost st t h" and "mc_maxEntries st \<le> int (length (mc_entries st))"
  shows "\<exists>ops. set ops \<subseteq> range (\<lambda>k. Op_set [] k v m) \<and> n \<le> cache_size (fold cache_step ops st)"
proof -
  have "\<exists>ops. tail_lost (fold cache_step ops st) t h \<and> mc_maxEntries (fold cache_step ops st) \<le> int (length (mc_entries (fold cache_step ops st)))
      \<and> n \<le> length (mc_entries (fold cache_step ops st)) \<and> set ops \<subseteq> range (\<lambda>k. Op_set [] k v m)"
  proof (induction n)
    case 0
    then show ?case using assms by (intro exI [of _ "[]"]) simp
  next
    case (Suc n)
    then obtain ops where ops: "tail_lost (fold cache_step ops st) t h"
      "mc_maxEntries (fold cache_step ops st) \<le> int (length (mc_entries (fold cache_step ops st)))" "n \<le> length (mc_entries (fold cache_step ops st))"
      "set ops \<subseteq> range (\<lambda>k. Op_set [] k v m)" by blast
    obtain k where k: "entries_get (getBucketKey [] k) (fold cache_step ops st) = None" using fresh_key_exists by blast
    from tail_lost_grows [OF ops(1) k ops(2), of v m] ops(2-4) show ?case
      by (intro exI [of _ "ops @ [Op_set [] k v m]"]) simp
  qed
  then show ?thesis by (auto simp: cache_size_def)
qed

section \<open>Properties\<close>

text \<open>
  C21. The cache refines a map: after any operations all references are valid and the cache holds only what the ideal cache that never evicts
  holds, so a hit returns the value that was stored last under the bucket and has not been deleted, invalidated by tag or namespace
  or expired; and a value that was just stored is found until it expires.
\<close>

theorem memory_cache_refines_map:
  "let st = fold cache_step ops (new_MemoryCacheStore mx); M = fold ideal_step ops Map.empty; b = getBucketKey ns k in
     cache_ok st \<and> view st \<subseteq>\<^sub>m M
     \<and> (case fst (cache_get now now' ns k st) of
          Cache_hit v m \<Rightarrow> M b = Some (v, norm_meta m) \<and> \<not> expired_meta now m
        | Cache_miss why \<Rightarrow> why = Miss_expired \<or> view st b = None)
     \<and> (case fst (cache_get now now' ns k (cache_set ns k v m st)) of
          Cache_hit v' m' \<Rightarrow> v' = v \<and> norm_meta m' = norm_meta m
        | Cache_miss why \<Rightarrow> why = Miss_expired \<and> expired_meta now m)"
proof -
  let ?st = "fold cache_step ops (new_MemoryCacheStore mx)" and ?b = "getBucketKey ns k"
  have run: "cache_ok ?st" "view ?st \<subseteq>\<^sub>m fold ideal_step ops Map.empty"
    using cache_run_simulated [of "new_MemoryCacheStore mx" Map.empty ops] by (simp_all add: new_cache_ok)
  obtain r st' where r: "cache_get now now' ns k ?st = (r, st')" by fastforce
  obtain q st'' where q: "cache_get now now' ns k (cache_set ns k v m ?st) = (q, st'')" by fastforce
  note set = cache_set_view [OF run(1), of ns k v m]
  have "case r of Cache_hit v m \<Rightarrow> fold ideal_step ops Map.empty ?b = Some (v, norm_meta m) \<and> \<not> expired_meta now m
      | Cache_miss why \<Rightarrow> why = Miss_expired \<or> view ?st ?b = None"
    using cache_get_view(3) [OF run(1) r] map_leD [OF run(2), of ?b] by (auto split: cache_lookup.splits if_splits)
  moreover have "case q of Cache_hit v' m' \<Rightarrow> v' = v \<and> norm_meta m' = norm_meta m | Cache_miss why \<Rightarrow> why = Miss_expired \<and> expired_meta now m"
    using cache_get_view(3) [OF set(1) q] set(3) by (auto split: cache_lookup.splits if_splits)
  ultimately show ?thesis using run r q by (simp add: Let_def)
qed

definition demo_meta :: cache_meta where
  "demo_meta = \<lparr>cme_scope = Scope_memory, cme_ttlMs = None, cme_tags = [], cme_version = ''1'', cme_createdAt = 0, cme_expiresAt = None,
     cme_lastAccessedAt = 0, cme_hitCount = 0, cme_sizeBytes = 1, cme_contentType = None\<rparr>"

definition put :: "string \<Rightarrow> unit cache_op" where
  "put k = Op_set [] k () demo_meta"

definition losing_ops :: "unit cache_op list" where
  "losing_ops = [put ''a'', put ''b'', put ''c'', Op_delete [] ''b'', put ''c'', put ''b'', put ''d'']"

lemma losing_ops_lose:
  "tail_lost (fold cache_step losing_ops (new_MemoryCacheStore (Some 2))) 3 0"
  "mc_maxEntries (fold cache_step losing_ops (new_MemoryCacheStore (Some 2))) \<le> int (length (mc_entries (fold cache_step losing_ops (new_MemoryCacheStore (Some 2)))))"
  by code_simp+

text \<open>
  C40. The bound on the number of entries is not kept: a cache for two entries can come to hold any number of them.
\<close>

theorem memory_cache_unbounded:
  "\<exists>ops. n \<le> cache_size (fold cache_step ops (new_MemoryCacheStore (Some 2) :: unit memory_cache))"
proof -
  obtain ops where "n \<le> cache_size (fold cache_step ops (fold cache_step losing_ops (new_MemoryCacheStore (Some 2))))"
    using tail_lost_unbounded [OF losing_ops_lose, of "()" demo_meta n] by blast
  then show ?thesis by (intro exI [of _ "losing_ops @ ops"]) simp
qed

text \<open>
  Without deletions the cache evicts the entry that was stored last: from six entries stored one after the other in a cache
  for three, the second one is still there and the fifth is not.
\<close>

theorem memory_cache_evicts_newest:
  "let st = fold cache_step (map put [''a'', ''b'', ''c'', ''d'', ''e'', ''f'']) (new_MemoryCacheStore (Some 3)) in
     map fst (mc_entries st) = [''::b'', ''::d'', ''::f'']"
  by code_simp

text \<open>Different pairs of namespace and key may share a bucket.\<close>

theorem bucket_keys_collide: "getBucketKey ''a'' ''b::c'' = getBucketKey ''a::b'' ''c''"
  by (simp add: getBucketKey_def)

end
