(* ===== verification/Spec2Isabelle.thy ===== *)
theory Spec2Isabelle
  imports Budget_Allocator Ticket_Queue Dispatch_Ordering Delegation_Topology Plan_Graph Stage_FSM
    Quorum Circuit_Breaker Retry_Policy Execution_Lease Dispatch_Safety Dispatch_Reconciliation Work_Completion Admission_Control Leader_Election Compensation Memory_Cache
begin

text \<open>
  A verification library for the Automatic Agent Platform, a TypeScript system that plans, dispatches and supervises the work of
  software agents (\<^verbatim>\<open>src/src\<close>). The library models the parts that decide who may act, on what, at which cost and in which order, one theory per
  component; paths below are relative to \<^verbatim>\<open>src/src/platform\<close> unless they start with \<^verbatim>\<open>src\<close>.

  \<^bold>\<open>The program and its parts.\<close> Work enters as a plan graph whose nodes become node runs. The runtime state machine is the only writer of run
  states; it checks every command against the transition tables and the guards of the contracts. Runs spend budget through the budget
  allocator. A run that is ready gets a ticket. The dispatch service orders the tickets, selects a worker out of the registry, takes a lease with a
  fencing token for it and claims the ticket, in one transaction; urgent tickets may preempt. Workers report heartbeats and write under their
  lease; the lease service checks every write, and across regions the fencing-token service decides who leads. Reconciliation repairs tickets whose
  claim has lost its lease. Delegations, votes, stages, retries and circuit breakers are used along the way.

  \<^bold>\<open>Theories.\<close>
  \<^item> \<open>Prelude\<close>: optional values, JavaScript maps, strings and truthiness, programs with state and errors (\<open>prog\<close>, \<open>bindP\<close>) with their rules, and
    the contracts that components share as locales: \<open>transition_table\<close>, \<open>effect_order\<close> and \<open>total_effects\<close> (what a program may do to its
    state, and that it returns), \<open>monotone_fence\<close>, \<open>governed_status\<close> (a status that moves only along a table).
  \<^item> \<open>Contracts\<close>: \<^verbatim>\<open>contracts/executable-contracts\<close>, the transition tables, graph patches and the budget arithmetic.
  \<^item> \<open>Runtime_State_Machine\<close>: \<^verbatim>\<open>shared/runtime-state-machine.ts\<close>. Accepted commands follow the tables, are fenced, lose no update and never stick.
  \<^item> \<open>Budget_Allocator\<close>: \<^verbatim>\<open>five-plane-execution/budget-allocator.ts\<close>. Reservations, settlement, hierarchy, versions and the sweep.
  \<^item> \<open>Ticket_Queue\<close>: \<^verbatim>\<open>.../queue/ticket-priority-queue.ts\<close>, two binary heaps in an array; a dequeue serves the best ticket.
  \<^item> \<open>Dispatch_Ordering\<close>: \<^verbatim>\<open>.../dispatcher/execution-dispatch-ordering.ts\<close>, the deterministic order, the interleaving by tenant, the seed hash.
  \<^item> \<open>Worker_Registry\<close>: \<^verbatim>\<open>.../worker-pool/worker/worker-registry-service.ts\<close> and its versioned snapshot table.
  \<^item> \<open>Fencing_Tokens\<close>: \<^verbatim>\<open>src/src/scale-ecosystem/multi-region/fencing-token-service.ts\<close> and the leadership guard.
  \<^item> \<open>Execution_Lease\<close>: \<^verbatim>\<open>.../lease/execution-lease-service.ts\<close> over the lease table; the service refines a fencing register.
  \<^item> \<open>Dispatch_Selection\<close>, \<open>Execution_Dispatch\<close>, \<open>Dispatch_Safety\<close>: \<^verbatim>\<open>.../dispatcher/execution-dispatch-service.ts\<close>, its support module, the
    load balancing and the priority preemption; first the selection of workers, then all operations, then what they promise.
  \<^item> \<open>Dispatch_Reconciliation\<close>: \<^verbatim>\<open>.../dispatcher/execution-dispatch-reconciliation-service.ts\<close>, scan and repair.
  \<^item> \<open>Transition_Service\<close>: \<^verbatim>\<open>.../state-transition/transition-service.ts\<close>. Tasks, workflows, sessions, executions and approvals move along
    their tables by compare-and-set; ending a task and blocking it for an approval are atomic.
  \<^item> \<open>Resource_Ceiling\<close>: \<^verbatim>\<open>.../dispatcher/execution-resource-ceiling-guard.ts\<close>, the ceilings on tool calls, memory and time.
  \<^item> \<open>Worker_Handshake\<close>, \<open>Worker_Writeback\<close>: \<^verbatim>\<open>.../worker-pool/execution-worker-handshake-service.ts\<close> and
    \<^verbatim>\<open>execution-worker-writeback-service.ts\<close>. Exactly when a claim, a heartbeat and a result of a worker are taken, and what they do.
  \<^item> \<open>Work_Lifecycle\<close>: the services above acting on one store in any order. Ended work stays ended and a result is taken once; the two ways
    around this that the code has are shown as well.
  \<^item> \<open>Work_Completion\<close>: the composition of dispatch, claim and write-back; dispatched work can be completed.
  \<^item> \<open>Admission_Control\<close>: \<^verbatim>\<open>.../dispatcher/admission-controller.ts\<close>. The cached decisions equal the uncached ones, and bursts of requests do not
    overcommit the system; the locale \<open>memoized\<close> carries the two caches of parsed texts.
  \<^item> \<open>Leader_Coordinator\<close>, \<open>Leader_Election\<close>: \<^verbatim>\<open>five-plane-execution/ha/ha-coordinator-service-inner.ts\<close> and \<^verbatim>\<open>leader-election-service.ts\<close>. The tables
    of the coordinator admit one leader, whose token fences off all earlier ones; the asynchronous election services run on it as interleaved steps.
  \<^item> \<open>Side_Effects\<close>, \<open>Compensation\<close>: \<^verbatim>\<open>five-plane-execution/side-effect-manager.ts\<close> and \<^verbatim>\<open>compensation-manager.ts\<close>. What a reconciliation sweep
    settles, what an execution of a compensation does and that it succeeds once; the moves that bypass the runtime state machine and the default
    adapters that report success are shown as well. The locale \<open>prefix_code\<close> carries the percent encoding of audit references, \<open>lawful_adapters\<close>
    the contract of adapters that may call the manager again.
  \<^item> \<open>Memory_Cache\<close>: \<^verbatim>\<open>shared/cache/stores/memory-cache-store.ts\<close> over an explicit heap of linked entries. It refines a map that never evicts; its bound
    on the number of entries does not hold, which is shown by a run that makes it grow without limit.
  \<^item> \<open>Delegation_Topology\<close>, \<open>Plan_Graph\<close>, \<open>Stage_FSM\<close>: \<^verbatim>\<open>five-plane-orchestration\<close>, the validator of delegations, the normaliser of plans and the
    machine of the OAPEFLIR stages.
  \<^item> \<open>Quorum\<close>: \<^verbatim>\<open>five-plane-control-plane/approval-center/quorum-calculator.ts\<close>.
  \<^item> \<open>Circuit_Breaker\<close>, \<open>Retry_Policy\<close>: \<^verbatim>\<open>stability\<close>.

  \<^bold>\<open>How the model reads the code.\<close> Interfaces are records and unions are datatypes, with field and constructor prefixes; JavaScript numbers are integers where
  the code counts and rationals where it computes scores; time stamps are integers of milliseconds. Services over the database are programs on a record of
  tables: a table is a list in insertion order, unique indexes are checked on insert, a transaction restores the state when its body throws. Each
  \<^verbatim>\<open>throw\<close> is a value of an error datatype. Clocks, random numbers, fresh identifiers, collation and injected callbacks are arguments. \<^verbatim>\<open>sort\<close> is the
  stable sort of the language, applied with the comparison as written.

  \<^bold>\<open>Interfaces.\<close> The locales of the prelude carry the proofs: the lease operations are analysed once, in the locale \<open>lease_effect\<close> that extends \<open>effect_order\<close>, and
  the invariant, the growth of tokens and the refinement follow from one interpretation of it, that no status changes from another; leadership across regions, leases and the coordinator all interpret \<open>monotone_fence\<close>; the records and
  events of the dispatcher are \<open>total_effects\<close> programs, so that a dispatch is proved to return and to keep its invariant; the
  transition tables of all aggregates interpret \<open>transition_table\<close>, and the five statuses of the lifecycle \<open>governed_status\<close>. The theorem below composes dispatch and write access.

  \<^bold>\<open>Bounds and loops.\<close> Recursions over lists are structural or have a measure (interleaving, breadth-first search, topological sort, heap
  sifting, retries). The paged scan of the reconciliation is a partial function, since a page size of zero never ends; it is proved to
  return for every other size. No definition uses fuel that could run out unnoticed: where a bound is passed it is the number of elements, and the
  results are proved exact.

  \<^bold>\<open>Not modelled.\<close> The HTTP API, console, webhooks and channel gateways; the SDK, CLI, UI packages, plugins and domain
  catalogues; prompt and model gateways; missions, configuration, tenancy and identity; the event registry, projections, knowledge and memory stores;
  change-data capture; sandbox and tool execution; recovery, hibernation, upgrade and the remaining high-availability workers; the asynchronous twins of
  the dispatch and lease services; PostgreSQL and Redis adapters. These are I/O, wiring, generated catalogues, adapters to external services or records
  without state logic around the modelled core. The approval services, the policy engine and the missions have logic of their own and are
  the next candidates.
\<close>

section \<open>From dispatch to write access\<close>

text \<open>
  C6. Dispatch gives exclusive write access: after a dispatch of a ticket to a worker, during the smallest time to live of a lease, a write
  check on the execution of the ticket is answered yes exactly for this worker with the fencing token that follows
  all earlier tokens of the execution (and with the identifier of the new lease, when one is presented).
\<close>

theorem dispatched_worker_writes_alone:
  assumes ok: "dispatch_ok s" and lease: "leaseId \<notin> el_id ` set (st_leases (ds_core s))"
    and fresh: "inj newTicketId" "\<And>i. newTicketId i \<notin> et_id ` set (ds_tickets s)"
    and run: "dispatchNext env opts leaseId newTicketId t s = (Inr d, s')" and outcome: "dd_outcome d = DO_dispatched"
  shows "\<exists>k w. dd_ticket d = Some k \<and> dd_worker d = Some w
    \<and> (\<forall>t' i. t' < t + MIN_LEASE_TTL_MS \<and> wi_executionId i = et_executionId k \<longrightarrow>
         (\<exists>r c. validateWriteAccess None t' i (ds_core s') = (Inr r, c)
            \<and> (va_allowed r \<longleftrightarrow> wi_workerId i = sn_workerId w
                 \<and> wi_fencingToken i = getLatestFencingToken (et_executionId k) (st_leases (ds_core s)) + 1
                 \<and> wi_leaseId i \<in> {None, Some [], Some leaseId})))"
proof -
  obtain k where ok': "dispatch_ok s'" and d: "dispatched s s' t opts leaseId k d"
    using dispatchNext_result [OF ok lease fresh, of env opts t] run outcome by auto
  then obtain w where w: "dd_worker d = Some w" "dd_ticket d = Some (claimed_ticket k (sn_workerId w) leaseId t)"
    and booked: "booked s s' t k (sn_workerId w) leaseId" by (auto simp: dispatched_def)
  then obtain l where l: "getActiveExecutionLease (et_executionId k) (st_leases (ds_core s')) = Some l" "el_id l = leaseId" "el_workerId l = sn_workerId w"
      "el_fencingToken l = getLatestFencingToken (et_executionId k) (st_leases (ds_core s)) + 1" "t + MIN_LEASE_TTL_MS \<le> el_expiresAt l"
    by (auto simp: booked_def)
  have lok: "lease_ok (st_leases (ds_core s'))" using ok' by (simp add: dispatch_ok_def)
  have "\<exists>r c. validateWriteAccess None t' i (ds_core s') = (Inr r, c)
      \<and> (va_allowed r \<longleftrightarrow> wi_workerId i = sn_workerId w \<and> wi_fencingToken i = el_fencingToken l \<and> wi_leaseId i \<in> {None, Some [], Some leaseId})"
    if i: "t' < t + MIN_LEASE_TTL_MS" "wi_executionId i = et_executionId k" for t' i
    using lok
  proof (cases rule: validateWriteAccess_cases [where guard = None and t = t' and i = i])
    case (unknown r)
    then have False using l(1) i(2) by (auto simp: getActive_iff [OF lok])
    then show ?thesis ..
  next
    case (refused r a)
    then show ?thesis using l i by (auto simp: guard_allows_write_def)
  next
    case (allowed r m)
    then show ?thesis using l i by auto
  qed
  then show ?thesis using w l(4) by (intro exI [of _ "claimed_ticket k (sn_workerId w) leaseId t"] exI [of _ w]) (simp add: claimed_ticket_def)
qed

theorem dispatched_worker_writes_alone_witness:
  "\<exists>d s' k w. dispatchNext demo_env sel_options ''l9'' (\<lambda>i. ''new'' @ i) 5 calm_demo = (Inr d, s') \<and> dd_ticket d = Some k \<and> dd_worker d = Some w
     \<and> (\<exists>r c. validateWriteAccess None 100 \<lparr>wi_executionId = et_executionId k, wi_workerId = sn_workerId w,
            wi_fencingToken = getLatestFencingToken (et_executionId k) (st_leases (ds_core calm_demo)) + 1, wi_leaseId = None\<rparr> (ds_core s')
          = (Inr r, c) \<and> va_allowed r)"
proof -
  have inj: "inj (\<lambda>i::ident. ''new'' @ i)" by (simp add: inj_def)
  have fresh: "(\<lambda>i::ident. ''new'' @ i) i \<notin> et_id ` set (ds_tickets calm_demo)" for i
    by (simp add: calm_demo_def dispatch_demo_def urgent_ticket_def)
  obtain d s' where run: "dispatchNext demo_env sel_options ''l9'' (\<lambda>i. ''new'' @ i) 5 calm_demo = (Inr d, s')" "dd_outcome d = DO_dispatched"
    using demo_outcome by blast
  from dispatched_worker_writes_alone [OF demo_ok(2) demo_leases inj fresh run] obtain k w where kw: "dd_ticket d = Some k" "dd_worker d = Some w"
    and all: "\<forall>t' i. t' < 5 + MIN_LEASE_TTL_MS \<and> wi_executionId i = et_executionId k \<longrightarrow>
         (\<exists>r c. validateWriteAccess None t' i (ds_core s') = (Inr r, c)
            \<and> (va_allowed r \<longleftrightarrow> wi_workerId i = sn_workerId w
                 \<and> wi_fencingToken i = getLatestFencingToken (et_executionId k) (st_leases (ds_core calm_demo)) + 1
                 \<and> wi_leaseId i \<in> {None, Some [], Some ''l9''}))" by blast
  let ?i = "\<lparr>wi_executionId = et_executionId k, wi_workerId = sn_workerId w,
    wi_fencingToken = getLatestFencingToken (et_executionId k) (st_leases (ds_core calm_demo)) + 1, wi_leaseId = None\<rparr>"
  have "\<exists>r c. validateWriteAccess None 100 ?i (ds_core s') = (Inr r, c) \<and> va_allowed r"
    using all [rule_format, of 100 ?i] by (simp add: MIN_LEASE_TTL_MS_def)
  with run(1) kw show ?thesis by blast
qed

end
